(* ===== verification/Prelude.thy ===== *)
theory Prelude
  imports Main "HOL-Library.Word" "HOL-Library.List_Lexorder" "HOL-Library.Char_ord"
begin

section \<open>Shared types, the result monad, relational tables and their lemmas\<close>

text \<open>
  What every component of the z-fleet model shares: bytes and machine words, the exceptions the
  C++ code throws as values of a datatype, results as a sum type with its bind, and tables of rows
  with the four SQL statements the server uses (insert, update, upsert, select) together with the
  lemmas that carry the component proofs.  \<open>std::string\<close> is \<open>string\<close>, a list of 8-bit
  characters, and its order (List_Lexorder over Char_ord) is the byte-wise order of both
  \<open>std::string::operator<\<close> and SQLite's BINARY collation.
\<close>

named_theorems table_simps "what the table statements do to lookups, keys and counts"

subsection \<open>Bytes, words and errors\<close>

type_synonym u8 = "8 word"
type_synonym u32 = "32 word"
type_synonym u64 = "64 word"

datatype exn =
    Invalid_argument string
  | Runtime_error string
  | Sql_error string
  | Json_error string
  | Undefined_behaviour string

type_synonym 'a result = "exn + 'a"

definition bind_res :: "'a result \<Rightarrow> ('a \<Rightarrow> 'b result) \<Rightarrow> 'b result" where
  "bind_res m f = (case m of Inl e \<Rightarrow> Inl e | Inr x \<Rightarrow> f x)"

lemma bind_res_simps [simp]:
  "bind_res (Inl e) f = Inl e"
  "bind_res (Inr x) f = f x"
  by (simp_all add: bind_res_def)

lemma bind_res_Inr_iff:
  "bind_res m f = Inr y \<longleftrightarrow> (\<exists>x. m = Inr x \<and> f x = Inr y)"
  by (cases m) auto

lemma bind_res_InrE:
  assumes "bind_res m f = Inr y"
  obtains x where "m = Inr x" and "f x = Inr y"
  using assms by (auto simp: bind_res_Inr_iff)

fun map_res :: "('a \<Rightarrow> 'b result) \<Rightarrow> 'a list \<Rightarrow> 'b list result" where
  "map_res f [] = Inr []"
| "map_res f (x # xs) =
     bind_res (f x) (\<lambda>y. bind_res (map_res f xs) (\<lambda>ys. Inr (y # ys)))"

lemma map_res_Inr_iff:
  "map_res f xs = Inr ys \<longleftrightarrow> list_all2 (\<lambda>x y. f x = Inr y) xs ys"
  by (induction xs arbitrary: ys) (auto simp: bind_res_Inr_iff list_all2_Cons1)

lemma map_res_Inl_iff:
  "(\<exists>e. map_res f xs = Inl e) \<longleftrightarrow> (\<exists>x\<in>set xs. \<exists>e. f x = Inl e)"
proof (induction xs)
  case Nil
  then show ?case by simp
next
  case (Cons x xs)
  then show ?case
    by (cases "f x"; cases "map_res f xs") auto
qed

definition option_res :: "exn \<Rightarrow> 'a option \<Rightarrow> 'a result" where
  "option_res e m = (case m of None \<Rightarrow> Inl e | Some x \<Rightarrow> Inr x)"

lemma option_res_simps [simp]:
  "option_res e None = Inl e"
  "option_res e (Some x) = Inr x"
  by (simp_all add: option_res_def)

lemma option_res_Inr_iff [simp]: "option_res e m = Inr x \<longleftrightarrow> m = Some x"
  by (cases m) auto

subsection \<open>Strings as bytes\<close>

definition bytes_of_string :: "string \<Rightarrow> u8 list" where
  "bytes_of_string s = map of_char s"

definition string_of_bytes :: "u8 list \<Rightarrow> string" where
  "string_of_bytes bs = map (\<lambda>b. char_of (unat b)) bs"

lemma string_of_bytes_inverse [simp]: "string_of_bytes (bytes_of_string s) = s"
proof -
  have "char_of (unat (of_char c :: u8)) = c" for c :: char
  proof -
    have "of_char c = (of_nat (of_char c) :: u8)"
      by (simp add: of_nat_of_char)
    moreover have "(of_char c :: nat) < 256"
      by simp
    ultimately have "unat (of_char c :: u8) = of_char c"
      by (simp add: unat_of_nat)
    then show ?thesis
      by simp
  qed
  then show ?thesis
    by (simp add: string_of_bytes_def bytes_of_string_def comp_def map_idI)
qed

lemma bytes_of_string_inj [simp]: "bytes_of_string s = bytes_of_string t \<longleftrightarrow> s = t"
  by (metis string_of_bytes_inverse)

lemma length_bytes_of_string [simp]: "length (bytes_of_string s) = length s"
  by (simp add: bytes_of_string_def)

subsection \<open>Splitting and joining\<close>

fun split_on :: "'a \<Rightarrow> 'a list \<Rightarrow> 'a list list" where
  "split_on d [] = [[]]"
| "split_on d (c # cs) =
     (if c = d then [] # split_on d cs
      else (case split_on d cs of [] \<Rightarrow> [[c]] | p # ps \<Rightarrow> (c # p) # ps))"

fun join_with :: "'a \<Rightarrow> 'a list list \<Rightarrow> 'a list" where
  "join_with d [] = []"
| "join_with d [p] = p"
| "join_with d (p # q # ps) = p @ d # join_with d (q # ps)"

lemma split_on_not_Nil [simp]: "split_on d s \<noteq> []"
  by (induction s) (auto split: list.splits)

lemma join_split_on [simp]: "join_with d (split_on d s) = s"
proof (induction s)
  case Nil
  then show ?case by simp
next
  case (Cons c s)
  obtain p ps where "split_on d s = p # ps"
    by (cases "split_on d s") auto
  with Cons show ?case
    by (cases ps) auto
qed

lemma split_on_no_sep: "p \<in> set (split_on d s) \<Longrightarrow> d \<notin> set p"
  by (induction s arbitrary: p) (auto split: list.splits if_splits)

lemma split_on_elements: "p \<in> set (split_on d s) \<Longrightarrow> set p \<subseteq> set s"
proof (induction s arbitrary: p)
  case Nil
  then show ?case by simp
next
  case (Cons c s)
  obtain q qs where q: "split_on d s = q # qs"
    by (cases "split_on d s") auto
  with Cons.IH have "set q \<subseteq> set s" "\<And>x. x \<in> set qs \<Longrightarrow> set x \<subseteq> set s"
    by auto
  with Cons.prems q show ?case
    by (fastforce split: if_splits)
qed

lemma split_on_single: "d \<notin> set p \<Longrightarrow> split_on d p = [p]"
  by (induction p) auto

lemma split_on_append: "d \<notin> set p \<Longrightarrow> split_on d (p @ d # s) = p # split_on d s"
  by (induction p) auto

lemma split_join_with:
  "ps \<noteq> [] \<Longrightarrow> \<forall>p\<in>set ps. d \<notin> set p \<Longrightarrow> split_on d (join_with d ps) = ps"
  by (induction d ps rule: join_with.induct) (auto simp: split_on_single split_on_append)

subsection \<open>Tables: a list of rows in rowid order\<close>

text \<open>
  \<open>rows_update p f\<close> is \<open>update t set f where p\<close>, and \<open>rows_count p\<close> what
  \<open>sqlite3_changes\<close> returns after it (SQLite counts the rows the where clause selects, changed
  or not).  \<open>rows_insert\<close> is \<open>insert into\<close> with the primary-key check; \<open>rows_upsert\<close> is
  \<open>insert ... on conflict(key) do update\<close>, its function given the stored and the excluded row.
\<close>

definition rows_update :: "('r \<Rightarrow> bool) \<Rightarrow> ('r \<Rightarrow> 'r) \<Rightarrow> 'r list \<Rightarrow> 'r list" where
  "rows_update p f rows = map (\<lambda>r. if p r then f r else r) rows"

definition rows_count :: "('r \<Rightarrow> bool) \<Rightarrow> 'r list \<Rightarrow> nat" where
  "rows_count p rows = length (filter p rows)"

definition rows_exists :: "('r \<Rightarrow> bool) \<Rightarrow> 'r list \<Rightarrow> bool" where
  "rows_exists p rows = list_ex p rows"

definition rows_insert :: "('r \<Rightarrow> 'k) \<Rightarrow> 'r \<Rightarrow> 'r list \<Rightarrow> 'r list result" where
  "rows_insert key r rows =
     (if rows_exists (\<lambda>x. key x = key r) rows
      then Inl (Sql_error ''UNIQUE constraint failed'')
      else Inr (rows @ [r]))"

definition rows_upsert ::
    "('r \<Rightarrow> 'k) \<Rightarrow> ('r \<Rightarrow> 'r \<Rightarrow> 'r) \<Rightarrow> 'r \<Rightarrow> 'r list \<Rightarrow> 'r list" where
  "rows_upsert key merge r rows =
     (if rows_exists (\<lambda>x. key x = key r) rows
      then rows_update (\<lambda>x. key x = key r) (\<lambda>old. merge old r) rows
      else rows @ [r])"

definition unique_keys :: "('r \<Rightarrow> 'k) \<Rightarrow> 'r list \<Rightarrow> bool" where
  "unique_keys key rows \<longleftrightarrow> distinct (map key rows)"

lemma rows_exists_iff [simp]: "rows_exists p rows \<longleftrightarrow> (\<exists>r\<in>set rows. p r)"
  by (simp add: rows_exists_def list_ex_iff)

lemma rows_update_Nil [simp]: "rows_update p f [] = []"
  by (simp add: rows_update_def)

lemma rows_update_Cons [simp]:
  "rows_update p f (r # rows) = (if p r then f r else r) # rows_update p f rows"
  by (simp add: rows_update_def)

lemma rows_update_append [simp]:
  "rows_update p f (rows @ rows') = rows_update p f rows @ rows_update p f rows'"
  by (simp add: rows_update_def)

lemma set_rows_update: "set (rows_update p f rows) = (\<lambda>r. if p r then f r else r) ` set rows"
  by (simp add: rows_update_def)

lemma rows_update_none [table_simps]:
  "(\<And>r. r \<in> set rows \<Longrightarrow> \<not> p r) \<Longrightarrow> rows_update p f rows = rows"
  by (induction rows) auto

lemma rows_update_keys [table_simps]:
  "(\<And>r. r \<in> set rows \<Longrightarrow> p r \<Longrightarrow> key (f r) = key r) \<Longrightarrow>
   map key (rows_update p f rows) = map key rows"
  by (induction rows) auto

lemma rows_count_zero_iff: "rows_count p rows = 0 \<longleftrightarrow> (\<forall>r\<in>set rows. \<not> p r)"
  by (auto simp: rows_count_def filter_empty_conv)

lemma rows_count_one_exists: "rows_count p rows = 1 \<Longrightarrow> \<exists>r\<in>set rows. p r"
  using rows_count_zero_iff [of p rows] by (auto simp: rows_count_def)

lemma rows_insert_Inr_iff:
  "rows_insert key r rows = Inr rows' \<longleftrightarrow>
     (\<forall>x\<in>set rows. key x \<noteq> key r) \<and> rows' = rows @ [r]"
  by (auto simp: rows_insert_def)

lemma rows_count_unique_key:
  assumes "unique_keys key rows"
  shows "rows_count (\<lambda>x. key x = k \<and> p x) rows =
           (if \<exists>x\<in>set rows. key x = k \<and> p x then 1 else 0)"
  using assms
proof (induction rows)
  case Nil
  then show ?case by (simp add: rows_count_def)
next
  case (Cons r rows)
  have tail: "\<And>x. x \<in> set rows \<Longrightarrow> key x \<noteq> key r"
    using Cons.prems by (simp add: unique_keys_def) (metis image_eqI)
  show ?case
  proof (cases "key r = k")
    case True
    then have "filter (\<lambda>x. key x = k \<and> p x) rows = []"
      using tail by (auto simp: filter_empty_conv)
    with True tail show ?thesis
      by (auto simp: rows_count_def)
  next
    case False
    with Cons show ?thesis
      by (auto simp: rows_count_def unique_keys_def)
  qed
qed

lemma unique_keys_Nil [simp]: "unique_keys key []"
  by (simp add: unique_keys_def)

lemma unique_keys_update:
  assumes "unique_keys key rows"
    and "\<And>r. r \<in> set rows \<Longrightarrow> p r \<Longrightarrow> key (f r) = key r"
  shows "unique_keys key (rows_update p f rows)"
  using assms rows_update_keys [of rows p key f] by (simp add: unique_keys_def)

lemma unique_keys_insert:
  "unique_keys key rows \<Longrightarrow> rows_insert key r rows = Inr rows' \<Longrightarrow> unique_keys key rows'"
  by (auto simp: unique_keys_def rows_insert_Inr_iff)

lemma unique_keys_upsert:
  assumes "unique_keys key rows"
    and "\<And>x. x \<in> set rows \<Longrightarrow> key x = key r \<Longrightarrow> key (merge x r) = key r"
  shows "unique_keys key (rows_upsert key merge r rows)"
proof (cases "\<exists>x\<in>set rows. key x = key r")
  case True
  then show ?thesis
    using assms by (auto simp: rows_upsert_def intro: unique_keys_update)
next
  case False
  with assms(1) show ?thesis
    by (auto simp: rows_upsert_def unique_keys_def)
qed

lemma unique_keys_inj:
  "unique_keys key rows \<Longrightarrow> x \<in> set rows \<Longrightarrow> y \<in> set rows \<Longrightarrow> key x = key y \<Longrightarrow> x = y"
  unfolding unique_keys_def using distinct_map inj_onD by (metis (no_types, lifting))

subsection \<open>Looking a row up by its primary key\<close>

definition row_by :: "('r \<Rightarrow> 'k) \<Rightarrow> 'k \<Rightarrow> 'r list \<Rightarrow> 'r option" where
  "row_by key k rows = find (\<lambda>r. key r = k) rows"

lemma row_by_None_iff: "row_by key k rows = None \<longleftrightarrow> (\<forall>r\<in>set rows. key r \<noteq> k)"
  by (auto simp: row_by_def find_None_iff)

lemma row_by_SomeD: "row_by key k rows = Some r \<Longrightarrow> r \<in> set rows \<and> key r = k"
  by (auto simp: row_by_def find_Some_iff)

lemma row_by_unique:
  assumes "unique_keys key rows"
  shows "row_by key k rows = Some r \<longleftrightarrow> r \<in> set rows \<and> key r = k"
proof
  assume "row_by key k rows = Some r"
  then show "r \<in> set rows \<and> key r = k" by (rule row_by_SomeD)
next
  assume r: "r \<in> set rows \<and> key r = k"
  then obtain r' where r': "row_by key k rows = Some r'"
    by (metis not_None_eq row_by_None_iff)
  with r have "r' = r"
    using unique_keys_inj [OF assms] row_by_SomeD by metis
  with r' show "row_by key k rows = Some r" by simp
qed

lemma row_by_update [table_simps]:
  assumes "\<And>r. r \<in> set rows \<Longrightarrow> p r \<Longrightarrow> key (f r) = key r"
  shows "row_by key k (rows_update p f rows) =
           map_option (\<lambda>r. if p r then f r else r) (row_by key k rows)"
  using assms by (induction rows) (auto simp: row_by_def)

lemma row_by_append [table_simps]:
  "row_by key k (rows @ [r]) =
     (case row_by key k rows of Some x \<Rightarrow> Some x | None \<Rightarrow> if key r = k then Some r else None)"
  by (induction rows) (auto simp: row_by_def)

lemma row_by_insert:
  assumes "rows_insert key r rows = Inr rows'"
  shows "row_by key k rows' = (if k = key r then Some r else row_by key k rows)"
proof -
  from assms have fresh: "row_by key (key r) rows = None" and rows': "rows' = rows @ [r]"
    by (auto simp: rows_insert_Inr_iff row_by_None_iff)
  then show ?thesis
    by (auto simp: row_by_append split: option.splits)
qed

lemma row_by_upsert:
  assumes "\<And>x. x \<in> set rows \<Longrightarrow> key x = key r \<Longrightarrow> key (merge x r) = key r"
  shows "row_by key k (rows_upsert key merge r rows) =
           (if k = key r
            then Some (case row_by key k rows of None \<Rightarrow> r | Some old \<Rightarrow> merge old r)
            else row_by key k rows)"
proof (cases "\<exists>x\<in>set rows. key x = key r")
  case True
  then obtain old where old: "row_by key (key r) rows = Some old"
    by (metis not_None_eq row_by_None_iff)
  have "row_by key k (rows_update (\<lambda>x. key x = key r) (\<lambda>old. merge old r) rows) =
      map_option (\<lambda>x. if key x = key r then merge x r else x) (row_by key k rows)"
    using assms by (intro row_by_update) auto
  with True old show ?thesis
    by (auto simp: rows_upsert_def dest: row_by_SomeD
        intro!: map_option_idI split: option.splits)
next
  case False
  then have "row_by key (key r) rows = None"
    by (auto simp: row_by_None_iff)
  with False show ?thesis
    by (auto simp: rows_upsert_def row_by_append split: option.splits)
qed

end
