(* ===== verification/Frame_Codec.thy ===== *)
theory Frame_Codec
  imports Prelude
begin

section \<open>libs/transport: length-prefixed frames (frame_codec.cpp)\<close>

text \<open>
  \<open>EncodeFrame\<close> and the incremental \<open>FrameDecoder\<close>.  The decoder's state is the record
  \<open>frame_decoder\<close>; \<open>Push\<close> returns its result and the new state, because the C++ object keeps
  what it has buffered when it throws.  Lengths are 32-bit words; \<open>size_t\<close> is 64 bits wide, so
  \<open>4 + length\<close> does not wrap and is a natural number here.
\<close>

unbundle bit_operations_syntax

definition kLengthPrefixBytes :: nat where
  "kLengthPrefixBytes = 4"

definition kDefaultMaxFrameBytes :: u32 where
  "kDefaultMaxFrameBytes = 1024 * 1024"

record frame_decoder =
  max_frame_bytes :: u32
  fd_buffer :: "u8 list"

definition ReadBigEndianLength :: "u8 list \<Rightarrow> u32" where
  "ReadBigEndianLength buffer =
     push_bit 24 (ucast (buffer ! 0)) OR
     push_bit 16 (ucast (buffer ! 1)) OR
     push_bit 8 (ucast (buffer ! 2)) OR
     ucast (buffer ! 3)"

definition length_prefix :: "u32 \<Rightarrow> u8 list" where
  "length_prefix len =
     [ucast (drop_bit 24 len AND 0xff), ucast (drop_bit 16 len AND 0xff),
      ucast (drop_bit 8 len AND 0xff), ucast (len AND 0xff)]"

definition EncodeFrame :: "u8 list \<Rightarrow> u8 list result" where
  "EncodeFrame payload =
     (if 4294967295 < length payload then Inl (Invalid_argument ''protobuf frame is too large'')
      else Inr (length_prefix (word_of_nat (length payload)) @ payload))"

definition new_frame_decoder :: "u32 \<Rightarrow> frame_decoder result" where
  "new_frame_decoder m =
     (if m = 0 then Inl (Invalid_argument ''max frame size must be positive'')
      else Inr \<lparr>max_frame_bytes = m, fd_buffer = []\<rparr>)"

text \<open>
  The loop of \<open>Push\<close>: the frames cut off the buffer, what is left of it, and whether the loop
  ended by \<open>break\<close> or by its guard (\<open>True\<close>) or by the throw on an oversize length.
\<close>

function push_loop :: "u32 \<Rightarrow> u8 list \<Rightarrow> u8 list list \<times> u8 list \<times> bool" where
  "push_loop m buffer =
     (if length buffer < kLengthPrefixBytes then ([], buffer, True)
      else let len = ReadBigEndianLength buffer in
        if m < len then ([], buffer, False)
        else let frame_size = kLengthPrefixBytes + unat len in
          if length buffer < frame_size then ([], buffer, True)
          else let (frames, rest, ok) = push_loop m (drop frame_size buffer) in
            (take (unat len) (drop kLengthPrefixBytes buffer) # frames, rest, ok))"
  by pat_completeness auto
termination
  by (relation "measure (\<lambda>(m, buffer). length buffer)") (auto simp: kLengthPrefixBytes_def)

declare push_loop.simps [simp del]

definition Push :: "frame_decoder \<Rightarrow> u8 list \<Rightarrow> u8 list list result \<times> frame_decoder" where
  "Push d bytes =
     (let (frames, rest, ok) = push_loop (max_frame_bytes d) (fd_buffer d @ bytes) in
      ((if ok then Inr frames
        else Inl (Runtime_error ''protobuf frame exceeds maximum size'')),
       d\<lparr>fd_buffer := rest\<rparr>))"

text \<open>A connection calls \<open>Push\<close> once per received chunk and stops at the first throw.\<close>

fun push_all ::
    "('d \<Rightarrow> 'b list \<Rightarrow> 'f list result \<times> 'd) \<Rightarrow> 'd \<Rightarrow> 'b list list \<Rightarrow> 'f list result \<times> 'd" where
  "push_all push d [] = (Inr [], d)"
| "push_all push d (c # cs) =
     (case push d c of
        (Inl e, d') \<Rightarrow> (Inl e, d')
      | (Inr fs, d') \<Rightarrow>
          (case push_all push d' cs of
             (Inl e, d'') \<Rightarrow> (Inl e, d'')
           | (Inr gs, d'') \<Rightarrow> (Inr (fs @ gs), d'')))"

subsection \<open>The length prefix\<close>

lemma length_prefix_length [simp]: "length (length_prefix n) = 4"
  by (simp add: length_prefix_def)

lemma ucast_low_byte: "(ucast (x AND 0xff :: u32) :: u8) = ucast x"
proof (rule bit_word_eqI)
  fix n assume n: "n < LENGTH(8)"
  have ff: "(0xff :: u32) = mask 8"
    by (simp add: mask_eq_exp_minus_1)
  have "bit (0xff :: u32) n"
    using n unfolding ff by (simp only: bit_mask_iff) simp
  with n show "bit (ucast (x AND 0xff) :: u8) n = bit (ucast x :: u8) n"
    by (simp add: bit_simps)
qed

lemma join_bytes:
  "push_bit 24 (ucast (ucast (drop_bit 24 n) :: u8)) OR
   push_bit 16 (ucast (ucast (drop_bit 16 n) :: u8)) OR
   push_bit 8 (ucast (ucast (drop_bit 8 n) :: u8)) OR
   ucast (ucast n :: u8) = (n :: u32)" (is "?w = n")
proof (rule bit_word_eqI)
  fix k assume "k < LENGTH(32)"
  then consider "k < 8" | "8 \<le> k" "k < 16" | "16 \<le> k" "k < 24" | "24 \<le> k" "k < 32"
    by fastforce
  then show "bit ?w k = bit n k"
    by cases (auto simp: bit_simps)
qed

lemma high_bit_u8: "8 \<le> k \<Longrightarrow> \<not> bit (b :: u8) k"
  using bit_imp_le_length [of b k] by auto

lemma split_bytes:
  fixes b0 b1 b2 b3 :: u8
  defines "w \<equiv> push_bit 24 (ucast b0) OR push_bit 16 (ucast b1) OR
                push_bit 8 (ucast b2) OR ucast b3 :: u32"
  shows "ucast (drop_bit 24 w) = b0" "ucast (drop_bit 16 w) = b1"
    "ucast (drop_bit 8 w) = b2" "ucast w = b3"
  unfolding w_def by (auto intro!: bit_word_eqI simp: bit_simps high_bit_u8)

lemma read_length_prefix [simp]: "ReadBigEndianLength (length_prefix n @ rest) = n"
  by (simp add: ReadBigEndianLength_def length_prefix_def ucast_low_byte numeral_eq_Suc)
    (use join_bytes [of n] in \<open>simp add: numeral_eq_Suc\<close>)

lemma length_prefix_read:
  assumes "4 \<le> length buffer"
  shows "length_prefix (ReadBigEndianLength buffer) = take 4 buffer"
proof -
  from assms obtain b0 b1 b2 b3 rest where "buffer = b0 # b1 # b2 # b3 # rest"
    by (auto simp: numeral_eq_Suc Suc_le_length_iff)
  then show ?thesis
    by (simp add: length_prefix_def ReadBigEndianLength_def ucast_low_byte split_bytes
        del: drop_bit_or)
qed

lemma ReadBigEndianLength_append [simp]:
  "4 \<le> length buffer \<Longrightarrow> ReadBigEndianLength (buffer @ bytes) = ReadBigEndianLength buffer"
  by (auto simp: numeral_eq_Suc Suc_le_length_iff ReadBigEndianLength_def)

subsection \<open>The loop of Push\<close>

definition frame :: "u8 list \<Rightarrow> u8 list" where
  "frame payload = length_prefix (word_of_nat (length payload)) @ payload"

lemma EncodeFrame_frame:
  "length payload \<le> 4294967295 \<Longrightarrow> EncodeFrame payload = Inr (frame payload)"
  by (simp add: EncodeFrame_def frame_def)

lemma push_loop_short: "length buffer < 4 \<Longrightarrow> push_loop m buffer = ([], buffer, True)"
  by (simp add: push_loop.simps kLengthPrefixBytes_def)

lemma push_loop_frame:
  assumes "length payload \<le> unat m"
  shows "push_loop m (frame payload @ buffer) =
           (let (fs, rest, ok) = push_loop m buffer in (payload # fs, rest, ok))"
proof -
  have "unat m < 2 ^ LENGTH(32)"
    by (rule unsigned_less)
  with assms have "length payload < 2 ^ LENGTH(32)"
    by simp
  then have len: "unat (word_of_nat (length payload) :: u32) = length payload"
    by (simp add: unat_of_nat)
  with assms have "\<not> m < word_of_nat (length payload)"
    by (simp add: word_less_nat_alt)
  with len show ?thesis
    by (subst push_loop.simps) (simp add: frame_def kLengthPrefixBytes_def Let_def split_beta)
qed

text \<open>
  Feeding more bytes to a buffer that has already been searched gives the frames found before,
  then those of what was left with the new bytes behind it: the loop commutes with appending.
\<close>

lemma push_loop_append:
  assumes "push_loop m buffer = (fs, rest, True)"
  shows "push_loop m (buffer @ bytes) =
           (let (gs, rest', ok) = push_loop m (rest @ bytes) in (fs @ gs, rest', ok))"
  using assms
proof (induction m buffer arbitrary: fs rest rule: push_loop.induct)
  case (1 m buffer)
  let ?len = "ReadBigEndianLength buffer"
  let ?n = "kLengthPrefixBytes + unat ?len"
  show ?case
  proof (cases "kLengthPrefixBytes \<le> length buffer \<and> \<not> m < ?len \<and> ?n \<le> length buffer")
    case False
    then have "fs = []" "rest = buffer"
      using "1.prems" by (auto simp: push_loop.simps [of m buffer] Let_def split: if_splits prod.splits)
    then show ?thesis by (simp add: split_beta)
  next
    case True
    obtain gs where gs: "push_loop m (drop ?n buffer) = (gs, rest, True)"
        and fs: "fs = take (unat ?len) (drop kLengthPrefixBytes buffer) # gs"
      using True "1.prems"
      by (auto simp: push_loop.simps [of m buffer] Let_def split: if_splits prod.splits)
    have read: "ReadBigEndianLength (buffer @ bytes) = ?len"
      using True by (simp add: kLengthPrefixBytes_def)
    have IH: "push_loop m (drop ?n buffer @ bytes) =
        (let (hs, rest', ok) = push_loop m (rest @ bytes) in (gs @ hs, rest', ok))"
      using True gs by (intro "1.IH") auto
    show ?thesis
      using True IH fs
      by (simp add: push_loop.simps [of m "buffer @ bytes"] read Let_def split_beta
          kLengthPrefixBytes_def)
  qed
qed

text \<open>A successful run leaves an incomplete frame whose announced length is within the limit.\<close>

lemma push_loop_rest:
  assumes "push_loop m buffer = (fs, rest, True)"
  shows "length rest < 4 \<or>
         (ReadBigEndianLength rest \<le> m \<and> length rest < 4 + unat (ReadBigEndianLength rest))"
  using assms
proof (induction m buffer arbitrary: fs rule: push_loop.induct)
  case (1 m buffer)
  let ?len = "ReadBigEndianLength buffer"
  let ?n = "kLengthPrefixBytes + unat ?len"
  show ?case
  proof (cases "kLengthPrefixBytes \<le> length buffer \<and> \<not> m < ?len \<and> ?n \<le> length buffer")
    case False
    then show ?thesis
      using "1.prems"
      by (auto simp: push_loop.simps [of m buffer] Let_def kLengthPrefixBytes_def not_less
          split: if_splits prod.splits)
  next
    case True
    then obtain gs where "push_loop m (drop ?n buffer) = (gs, rest, True)"
      using "1.prems"
      by (auto simp: push_loop.simps [of m buffer] Let_def split: if_splits prod.splits)
    then show ?thesis
      using True by (intro "1.IH") auto
  qed
qed

lemma push_loop_idle: "push_loop m buffer = (fs, rest, True) \<Longrightarrow> push_loop m rest = ([], rest, True)"
  by (drule push_loop_rest) (auto simp: push_loop.simps [of m rest] kLengthPrefixBytes_def Let_def)

text \<open>Nothing is lost or reordered: the consumed prefix of the buffer is the frames, re-encoded.\<close>

lemma push_loop_consumed:
  assumes "push_loop m buffer = (fs, rest, ok)"
  shows "buffer = concat (map frame fs) @ rest \<and> (\<forall>f\<in>set fs. length f \<le> unat m)"
  using assms
proof (induction m buffer arbitrary: fs rule: push_loop.induct)
  case (1 m buffer)
  let ?len = "ReadBigEndianLength buffer"
  let ?n = "kLengthPrefixBytes + unat ?len"
  show ?case
  proof (cases "kLengthPrefixBytes \<le> length buffer \<and> \<not> m < ?len \<and> ?n \<le> length buffer")
    case False
    then show ?thesis
      using "1.prems" by (auto simp: push_loop.simps [of m buffer] Let_def split: if_splits prod.splits)
  next
    case True
    let ?f = "take (unat ?len) (drop kLengthPrefixBytes buffer)"
    obtain gs where gs: "push_loop m (drop ?n buffer) = (gs, rest, ok)" and fs: "fs = ?f # gs"
      using True "1.prems"
      by (auto simp: push_loop.simps [of m buffer] Let_def split: if_splits prod.splits)
    have IH: "drop ?n buffer = concat (map frame gs) @ rest \<and> (\<forall>f\<in>set gs. length f \<le> unat m)"
      using True gs by (intro "1.IH") auto
    have len: "length ?f = unat ?len"
      using True by auto
    then have "frame ?f = take 4 buffer @ ?f"
      using True by (simp add: frame_def length_prefix_read kLengthPrefixBytes_def)
    then have "buffer = frame ?f @ drop ?n buffer"
      by (simp add: kLengthPrefixBytes_def add.commute flip: drop_drop)
    moreover have "unat ?len \<le> unat m"
      using True by (simp add: word_le_nat_alt not_less)
    ultimately show ?thesis
      using IH len fs by simp
  qed
qed

text \<open>After the throw the offending length stays at the front of the buffer.\<close>

lemma push_loop_bad_rest:
  assumes "push_loop m buffer = (fs, rest, False)"
  shows "4 \<le> length rest \<and> m < ReadBigEndianLength rest"
  using assms
proof (induction m buffer arbitrary: fs rule: push_loop.induct)
  case (1 m buffer)
  let ?len = "ReadBigEndianLength buffer"
  let ?n = "kLengthPrefixBytes + unat ?len"
  show ?case
  proof (cases "kLengthPrefixBytes \<le> length buffer \<and> \<not> m < ?len \<and> ?n \<le> length buffer")
    case False
    then show ?thesis
      using "1.prems"
      by (auto simp: push_loop.simps [of m buffer] Let_def kLengthPrefixBytes_def not_less
          split: if_splits prod.splits)
  next
    case True
    then obtain gs where "push_loop m (drop ?n buffer) = (gs, rest, False)"
      using "1.prems"
      by (auto simp: push_loop.simps [of m buffer] Let_def split: if_splits prod.splits)
    then show ?thesis
      using True by (intro "1.IH") auto
  qed
qed

lemma push_loop_oversize:
  "4 \<le> length buffer \<Longrightarrow> m < ReadBigEndianLength buffer \<Longrightarrow> push_loop m buffer = ([], buffer, False)"
  by (simp add: push_loop.simps kLengthPrefixBytes_def)

lemma push_loop_frames:
  assumes "\<forall>f\<in>set fs. length f \<le> unat m"
  shows "push_loop m (concat (map frame fs) @ buffer) =
           (let (gs, rest, ok) = push_loop m buffer in (fs @ gs, rest, ok))"
  using assms
  by (induction fs) (auto simp: push_loop_frame split_beta)

lemma push_loop_append_bad:
  assumes "push_loop m buffer = (fs, rest, False)"
  shows "push_loop m (buffer @ bytes) = (fs, rest @ bytes, False)"
proof -
  from push_loop_consumed [OF assms] have
    "buffer @ bytes = concat (map frame fs) @ (rest @ bytes)" "\<forall>f\<in>set fs. length f \<le> unat m"
    by simp_all
  moreover have "push_loop m (rest @ bytes) = ([], rest @ bytes, False)"
    using push_loop_bad_rest [OF assms] by (intro push_loop_oversize) auto
  ultimately show ?thesis
    by (simp add: push_loop_frames)
qed

subsection \<open>The interface of an incremental decoder\<close>

text \<open>
  What the dispatcher and the agent rely on: after a successful push the decoder is idle (it
  holds no complete frame), a push of two chunks at once is the two pushes, and a push that
  throws also throws when more bytes come with it.  \<open>idle_push_concat\<close>: how the bytes were
  cut into chunks does not matter.
\<close>

locale chunked_decoder =
  fixes push :: "'d \<Rightarrow> 'b list \<Rightarrow> 'f list result \<times> 'd"
    and idle :: "'d \<Rightarrow> bool"
  assumes push_idle: "push d bs = (Inr fs, d') \<Longrightarrow> idle d'"
    and push_Nil: "idle d \<Longrightarrow> push d [] = (Inr [], d)"
    and push_append: "push d bs = (Inr fs, d') \<Longrightarrow>
      push d (bs @ cs) = (case push d' cs of
          (Inl e, d'') \<Rightarrow> (Inl e, d'')
        | (Inr gs, d'') \<Rightarrow> (Inr (fs @ gs), d''))"
    and push_error: "push d bs = (Inl e, d') \<Longrightarrow> fst (push d (bs @ cs)) = Inl e"
begin

lemma push_all_ok:
  "idle d \<Longrightarrow> push_all push d cs = (Inr fs, d') \<Longrightarrow> push d (concat cs) = (Inr fs, d')"
proof (induction cs arbitrary: d fs)
  case Nil
  then show ?case by (simp add: push_Nil)
next
  case (Cons c cs)
  then obtain gs hs d1 where c: "push d c = (Inr gs, d1)"
      and cs: "push_all push d1 cs = (Inr hs, d')" and fs: "fs = gs @ hs"
    by (auto split: prod.splits sum.splits)
  have "push d1 (concat cs) = (Inr hs, d')"
    using push_idle [OF c] cs by (rule Cons.IH)
  with fs show ?case
    by (simp add: push_append [OF c])
qed

lemma push_all_error:
  "push_all push d cs = (Inl e, d') \<Longrightarrow> fst (push d (concat cs)) = Inl e"
proof (induction cs arbitrary: d)
  case Nil
  then show ?case by simp
next
  case (Cons c cs)
  show ?case
  proof (cases "push d c")
    case (Pair r d1)
    show ?thesis
    proof (cases r)
      case (Inl e')
      with Pair Cons.prems have "push d c = (Inl e, d1)" by simp
      then show ?thesis by (simp add: push_error)
    next
      case (Inr gs)
      with Pair have c: "push d c = (Inr gs, d1)" by simp
      with Cons.prems have "push_all push d1 cs = (Inl e, d')"
        by (auto split: prod.splits sum.splits)
      then have "fst (push d1 (concat cs)) = Inl e" by (rule Cons.IH)
      then show ?thesis
        by (auto simp: push_append [OF c] split: prod.splits)
    qed
  qed
qed

lemma idle_push_concat:
  assumes "idle d"
  shows "push_all push d cs = (Inr fs, d') \<longleftrightarrow> push d (concat cs) = (Inr fs, d')"
proof
  assume "push_all push d cs = (Inr fs, d')"
  with assms show "push d (concat cs) = (Inr fs, d')" by (rule push_all_ok)
next
  assume ok: "push d (concat cs) = (Inr fs, d')"
  obtain r d1 where r: "push_all push d cs = (r, d1)" by fastforce
  show "push_all push d cs = (Inr fs, d')"
  proof (cases r)
    case (Inl e)
    with r have "fst (push d (concat cs)) = Inl e" by (simp add: push_all_error)
    with ok show ?thesis by simp
  next
    case (Inr gs)
    with r assms have "push d (concat cs) = (Inr gs, d1)" by (simp add: push_all_ok)
    with ok r Inr show ?thesis by simp
  qed
qed

end

definition decoder_idle :: "frame_decoder \<Rightarrow> bool" where
  "decoder_idle d \<longleftrightarrow> push_loop (max_frame_bytes d) (fd_buffer d) = ([], fd_buffer d, True)"

lemma Push_ok_iff:
  "Push d bs = (Inr fs, d') \<longleftrightarrow>
     push_loop (max_frame_bytes d) (fd_buffer d @ bs) = (fs, fd_buffer d', True) \<and>
     max_frame_bytes d' = max_frame_bytes d"
  by (cases d; cases d') (auto simp: Push_def split: prod.splits)

lemma Push_error_iff:
  "Push d bs = (Inl e, d') \<longleftrightarrow>
     (\<exists>fs. push_loop (max_frame_bytes d) (fd_buffer d @ bs) = (fs, fd_buffer d', False)) \<and>
     e = Runtime_error ''protobuf frame exceeds maximum size'' \<and>
     max_frame_bytes d' = max_frame_bytes d"
  by (cases d; cases d') (auto simp: Push_def split: prod.splits)

interpretation frames: chunked_decoder Push decoder_idle
proof unfold_locales
  fix d bs fs d'
  assume "Push d bs = (Inr fs, d')"
  then show "decoder_idle d'"
    by (auto simp: Push_ok_iff decoder_idle_def dest: push_loop_idle)
next
  fix d
  assume "decoder_idle d"
  then show "Push d [] = (Inr [], d)"
    by (simp add: Push_ok_iff decoder_idle_def)
next
  fix d bs fs d' cs
  assume "Push d bs = (Inr fs, d')"
  then have "push_loop (max_frame_bytes d) (fd_buffer d @ bs @ cs) =
      (let (gs, rest, ok) = push_loop (max_frame_bytes d') (fd_buffer d' @ cs) in (fs @ gs, rest, ok))"
    and "d'\<lparr>fd_buffer := r\<rparr> = d\<lparr>fd_buffer := r\<rparr>" for r
    using push_loop_append [of "max_frame_bytes d" "fd_buffer d @ bs" fs "fd_buffer d'" cs]
    by (auto simp: Push_ok_iff)
  then show "Push d (bs @ cs) = (case Push d' cs of
      (Inl e, d'') \<Rightarrow> (Inl e, d'') | (Inr gs, d'') \<Rightarrow> (Inr (fs @ gs), d''))"
    by (simp add: Push_def split_beta)
next
  fix d bs e d' cs
  assume "Push d bs = (Inl e, d')"
  then obtain fs where loop: "push_loop (max_frame_bytes d) (fd_buffer d @ bs) =
      (fs, fd_buffer d', False)" and e: "e = Runtime_error ''protobuf frame exceeds maximum size''"
    by (auto simp: Push_error_iff)
  show "fst (Push d (bs @ cs)) = Inl e"
    using push_loop_append_bad [OF loop, of cs] e by (simp add: Push_def)
qed

subsection \<open>Properties\<close>

lemma EncodeFrame_all:
  "map_res EncodeFrame ps = Inr es \<Longrightarrow>
   es = map frame ps \<and> (\<forall>p\<in>set ps. length p \<le> 4294967295)"
  by (induction ps arbitrary: es)
    (auto simp: bind_res_Inr_iff EncodeFrame_def frame_def split: if_splits)

lemma new_decoder_idle:
  "new_frame_decoder m = Inr d \<Longrightarrow> decoder_idle d \<and> fd_buffer d = [] \<and> max_frame_bytes d = m"
  by (auto simp: new_frame_decoder_def decoder_idle_def push_loop_short split: if_splits)

lemma push_all_frames:
  assumes "new_frame_decoder m = Inr d"
    and "map_res EncodeFrame payloads = Inr encoded"
    and "\<forall>p\<in>set payloads. length p \<le> unat m"
    and "concat chunks = concat encoded"
  shows "push_all Push d chunks = (Inr payloads, d)"
proof -
  note d = new_decoder_idle [OF assms(1)]
  have "push_loop m (concat (map frame payloads) @ []) = (payloads, [], True)"
    using push_loop_frames [OF assms(3), of "[]"] by (simp add: push_loop_short)
  then have "Push d (concat chunks) = (Inr payloads, d)"
    using assms(4) EncodeFrame_all [OF assms(2)] d by (simp add: Push_ok_iff)
  with d show ?thesis
    by (simp add: frames.idle_push_concat)
qed

text \<open>
  Streaming round trip.  The payloads a sender encodes with \<open>EncodeFrame\<close>, cut into chunks
  in any way, come out of a fresh decoder in order, each exactly once, with nothing left in the
  buffer, provided none is larger than the decoder's limit.
\<close>

theorem frame_stream_roundtrip:
  assumes "new_frame_decoder m = Inr d"
    and "map_res EncodeFrame payloads = Inr encoded"
    and "\<forall>p\<in>set payloads. length p \<le> unat m"
    and "concat chunks = concat encoded"
  shows "push_all Push d chunks = (Inr payloads, d)"
  using assms by (rule push_all_frames)

theorem frame_stream_roundtrip_witness:
  "push_all Push \<lparr>max_frame_bytes = 8, fd_buffer = []\<rparr> [[0, 0, 0], [2, 7, 9, 0, 0], [0, 0]] =
     (Inr [[7, 9], []], \<lparr>max_frame_bytes = 8, fd_buffer = []\<rparr>)"
  by (rule frame_stream_roundtrip [where m = 8 and encoded = "[[0, 0, 0, 2, 7, 9], [0, 0, 0, 0]]"])
    (simp_all add: new_frame_decoder_def EncodeFrame_def length_prefix_def)

text \<open>
  Every chunk is pushed, whatever the earlier calls did: the results of the calls and the decoder.  What
  they can be: some calls that return frames, then only calls that throw.
\<close>

fun push_each :: "frame_decoder \<Rightarrow> u8 list list \<Rightarrow> u8 list list result list \<times> frame_decoder" where
  "push_each d [] = ([], d)"
| "push_each d (c # cs) =
     (case Push d c of (r, d') \<Rightarrow> (case push_each d' cs of (rs, d'') \<Rightarrow> (r # rs, d'')))"

definition oversize :: "u8 list list result" where
  "oversize = Inl (Runtime_error ''protobuf frame exceeds maximum size'')"

definition cut_up :: "u32 \<Rightarrow> u8 list \<Rightarrow> u8 list list result list \<Rightarrow> u8 list \<Rightarrow> bool" where
  "cut_up m bytes results rest \<longleftrightarrow>
     (\<exists>good lost n. results = map Inr good @ replicate n oversize \<and>
        bytes = concat (map frame (concat good @ lost)) @ rest \<and>
        (\<forall>f \<in> set (concat good @ lost). length f \<le> unat m) \<and>
        (if n = 0 then lost = [] \<and> length rest < 4 + unat m \<and>
           (length rest < 4 \<or> length rest < 4 + unat (ReadBigEndianLength rest))
         else 4 \<le> length rest \<and> m < ReadBigEndianLength rest))"

lemma push_each_stuck:
  assumes "4 \<le> length (fd_buffer d)" "max_frame_bytes d < ReadBigEndianLength (fd_buffer d)"
  shows "push_each d cs = (replicate (length cs) oversize, d\<lparr>fd_buffer := fd_buffer d @ concat cs\<rparr>)"
  using assms
proof (induction cs arbitrary: d)
  case (Cons c cs)
  then have "Push d c = (oversize, d\<lparr>fd_buffer := fd_buffer d @ c\<rparr>)"
    by (simp add: Push_def oversize_def push_loop_oversize ReadBigEndianLength_append)
  then show ?case
    using Cons by (simp add: ReadBigEndianLength_append)
qed simp

lemma push_each_cut_up:
  assumes "push_loop (max_frame_bytes d) (fd_buffer d) = ([], fd_buffer d, True)" "push_each d cs = (results, d')"
  shows "cut_up (max_frame_bytes d) (fd_buffer d @ concat cs) results (fd_buffer d')"
  using assms
proof (induction cs arbitrary: d results)
  case Nil
  then show ?case
    using push_loop_rest [OF Nil.prems(1)]
    by (auto simp: cut_up_def word_le_nat_alt intro!: exI [of _ "[]"] exI [of _ 0])
next
  case (Cons c cs)
  obtain r d1 rs where r: "Push d c = (r, d1)" "push_each d1 cs = (rs, d')" "results = r # rs"
    using Cons.prems(2) by (auto split: prod.splits)
  show ?case
  proof (cases r)
    case (Inl e)
    then obtain fs where loop: "push_loop (max_frame_bytes d) (fd_buffer d @ c) = (fs, fd_buffer d1, False)"
      and e: "r = oversize" "max_frame_bytes d1 = max_frame_bytes d"
      using r(1) by (auto simp: Push_error_iff oversize_def)
    have bad: "4 \<le> length (fd_buffer d1)" "max_frame_bytes d < ReadBigEndianLength (fd_buffer d1)"
      using push_loop_bad_rest [OF loop] by simp_all
    then have "rs = replicate (length cs) oversize" "fd_buffer d' = fd_buffer d1 @ concat cs"
      using push_each_stuck [of d1 cs] r(2) e(2) by auto
    then show ?thesis
      unfolding cut_up_def r(3) e(1)
      using push_loop_consumed [OF loop] bad
      by (intro exI [of _ "[]"] exI [of _ fs] exI [of _ "Suc (length cs)"]) (simp add: ReadBigEndianLength_append)
  next
    case (Inr fs)
    then have loop: "push_loop (max_frame_bytes d) (fd_buffer d @ c) = (fs, fd_buffer d1, True)"
      and m: "max_frame_bytes d1 = max_frame_bytes d"
      using r(1) by (simp_all add: Push_ok_iff)
    have "cut_up (max_frame_bytes d) (fd_buffer d1 @ concat cs) rs (fd_buffer d')"
      using Cons.IH [OF _ r(2)] push_loop_idle [OF loop] m by simp
    then obtain good lost n where rest: "rs = map Inr good @ replicate n oversize"
        "fd_buffer d1 @ concat cs = concat (map frame (concat good @ lost)) @ fd_buffer d'"
        "\<forall>f \<in> set (concat good @ lost). length f \<le> unat (max_frame_bytes d)"
        "if n = 0 then lost = [] \<and> length (fd_buffer d') < 4 + unat (max_frame_bytes d) \<and>
           (length (fd_buffer d') < 4 \<or> length (fd_buffer d') < 4 + unat (ReadBigEndianLength (fd_buffer d')))
         else 4 \<le> length (fd_buffer d') \<and> max_frame_bytes d < ReadBigEndianLength (fd_buffer d')"
      unfolding cut_up_def by blast
    have "fd_buffer d @ concat (c # cs) = (fd_buffer d @ c) @ concat cs" by simp
    also have "\<dots> = concat (map frame fs) @ (fd_buffer d1 @ concat cs)"
      using push_loop_consumed [OF loop] by simp
    finally have "fd_buffer d @ concat (c # cs) = concat (map frame (concat (fs # good) @ lost)) @ fd_buffer d'"
      by (simp add: rest(2))
    moreover have "\<forall>f \<in> set (concat (fs # good) @ lost). length f \<le> unat (max_frame_bytes d)"
      using push_loop_consumed [OF loop] rest(3) by auto
    ultimately show ?thesis
      unfolding cut_up_def r(3) Inr using rest(1,4)
      by (intro exI [of _ "fs # good"] exI [of _ lost] exI [of _ n]) simp
  qed
qed

text \<open>
  C34: What the decoder does with any bytes, in any pieces, every piece pushed whatever happened before.
  Some calls return frames and after the first that throws, all throw.  The bytes received are always the
  encodings of the frames that were cut, in their order, followed by the buffer, and no frame exceeds the
  limit.  While no call has thrown, every frame cut was returned, no complete frame is held back, and
  the buffer holds less than a header and a maximal frame.  Once one has thrown, frames that it had cut
  before are lost, and the buffer begins with a length above the limit and keeps all that comes after.
\<close>

theorem frame_stream_sound:
  assumes "new_frame_decoder m = Inr d" "push_each d chunks = (results, d')"
  shows "\<exists>good lost n.
    results = map Inr good @ replicate n (Inl (Runtime_error ''protobuf frame exceeds maximum size'')) \<and>
    concat chunks = concat (map frame (concat good @ lost)) @ fd_buffer d' \<and>
    (\<forall>f \<in> set (concat good @ lost). length f \<le> unat m) \<and>
    (if n = 0 then lost = [] \<and> length (fd_buffer d') < 4 + unat m \<and>
       (length (fd_buffer d') < 4 \<or> length (fd_buffer d') < 4 + unat (ReadBigEndianLength (fd_buffer d')))
     else 4 \<le> length (fd_buffer d') \<and> m < ReadBigEndianLength (fd_buffer d'))"
proof -
  have d: "fd_buffer d = []" "max_frame_bytes d = m"
    using new_decoder_idle [OF assms(1)] by simp_all
  then have "cut_up m (concat chunks) results (fd_buffer d')"
    using push_each_cut_up [OF _ assms(2)] by (simp add: push_loop_short)
  then show ?thesis
    unfolding cut_up_def oversize_def .
qed

text \<open>A frame, the start of a second, and one that is too long behind a frame that is lost.\<close>

theorem frame_stream_sound_witness:
  "\<exists>good lost n. [Inr [[5]], oversize, oversize] = map Inr good @ replicate n oversize \<and>
     concat [[0, 0, 0, 1, 5, 0], [0, 0, 0, 0, 0, 0, 9], [1]] =
       concat (map frame (concat good @ lost)) @ [0, 0, 0, 9, 1]"
proof -
  have new: "new_frame_decoder 8 = Inr \<lparr>max_frame_bytes = 8, fd_buffer = []\<rparr>"
    by (simp add: new_frame_decoder_def)
  have each: "push_each \<lparr>max_frame_bytes = 8, fd_buffer = []\<rparr> [[0, 0, 0, 1, 5, 0], [0, 0, 0, 0, 0, 0, 9], [1]] =
      ([Inr [[5]], oversize, oversize], \<lparr>max_frame_bytes = 8, fd_buffer = [0, 0, 0, 9, 1]\<rparr>)"
    by (simp add: Push_def push_loop.simps kLengthPrefixBytes_def ReadBigEndianLength_def oversize_def)
  show ?thesis
    using frame_stream_sound [OF new each] unfolding oversize_def [symmetric] frame_decoder.simps by blast
qed

text \<open>
  An oversize frame is rejected for good.  Once \<open>Push\<close> has thrown, the length that exceeds
  the limit stays at the front of the buffer and every later \<open>Push\<close> throws again: the stream
  cannot be resynchronised on attacker-chosen bytes.
\<close>

theorem oversize_frame_sticky:
  assumes "Push d bytes = (Inl e, d')"
  shows "max_frame_bytes d < ReadBigEndianLength (fd_buffer d') \<and>
         (\<forall>more. fst (Push d' more) = Inl (Runtime_error ''protobuf frame exceeds maximum size''))"
proof -
  from assms obtain fs where
    "push_loop (max_frame_bytes d) (fd_buffer d @ bytes) = (fs, fd_buffer d', False)"
    and m: "max_frame_bytes d' = max_frame_bytes d"
    by (auto simp: Push_error_iff)
  then have big: "4 \<le> length (fd_buffer d') \<and> max_frame_bytes d < ReadBigEndianLength (fd_buffer d')"
    by (simp add: push_loop_bad_rest)
  then have "push_loop (max_frame_bytes d') (fd_buffer d' @ more) = ([], fd_buffer d' @ more, False)"
    for more using m by (intro push_loop_oversize) auto
  with big show ?thesis
    by (simp add: Push_def)
qed

theorem oversize_frame_sticky_witness:
  "fst (Push \<lparr>max_frame_bytes = 1, fd_buffer = [0, 0, 0, 9]\<rparr> [1, 2, 3]) =
     Inl (Runtime_error ''protobuf frame exceeds maximum size'')"
  using oversize_frame_sticky [of "\<lparr>max_frame_bytes = 1, fd_buffer = []\<rparr>" "[0, 0, 0, 9]"
      "Runtime_error ''protobuf frame exceeds maximum size''"
      "\<lparr>max_frame_bytes = 1, fd_buffer = [0, 0, 0, 9]\<rparr>"]
  by (simp add: Push_def push_loop.simps kLengthPrefixBytes_def ReadBigEndianLength_def)

end
