(* ===== verification/Core_Path.thy ===== *)
theory Core_Path
  imports Prelude
begin

section \<open>libs/core: path validation and component names (path.cpp, component.cpp)\<close>

text \<open>
  The validators every package target, archive member, static file and version string passes
  through.  \<open>std::isalpha\<close> and \<open>std::isalnum\<close> are those of the C locale.  The model is the
  POSIX build: the \<open>_WIN32\<close> branches are not modelled, so \<open>BinaryLookupName\<close> is the identity
  and executables carry no suffix.
\<close>

definition isdigit :: "char \<Rightarrow> bool" where
  "isdigit c \<longleftrightarrow> c \<in> set ''0123456789''"

definition isalpha :: "char \<Rightarrow> bool" where
  "isalpha c \<longleftrightarrow> c \<in> set ''abcdefghijklmnopqrstuvwxyzABCDEFGHIJKLMNOPQRSTUVWXYZ''"

definition isalnum :: "char \<Rightarrow> bool" where
  "isalnum c \<longleftrightarrow> isalpha c \<or> isdigit c"

lemmas char_classes = isalnum_def isalpha_def isdigit_def

record validated_string =
  vs_ok :: bool
  vs_value :: string
  vs_message :: string

abbreviation in_quotes :: "string \<Rightarrow> string" where
  "in_quotes s \<equiv> CHR 0x27 # s @ [CHR 0x27]"

definition kSafePathSegmentDescription :: string where
  "kSafePathSegmentDescription =
     ''non-empty single segment using only letters, digits, '' @ in_quotes ''.'' @ '', '' @
     in_quotes ''_'' @ '', or '' @ in_quotes ''-''"

definition HasWindowsDrivePrefix :: "string \<Rightarrow> bool" where
  "HasWindowsDrivePrefix value \<longleftrightarrow>
     2 \<le> length value \<and> isalpha (value ! 0) \<and> value ! 1 = CHR '':''"

definition IsSafePathSegment :: "string \<Rightarrow> bool" where
  "IsSafePathSegment value =
     (if value = [] \<or> value = ''.'' \<or> value = ''..'' then False
      else list_all (\<lambda>ch. isalnum ch \<or> ch = CHR ''.'' \<or> ch = CHR ''_'' \<or> ch = CHR ''-'') value)"

definition rejected :: "string \<Rightarrow> validated_string" where
  "rejected message = \<lparr>vs_ok = False, vs_value = [], vs_message = message\<rparr>"

definition ValidatePathSegment :: "string \<Rightarrow> validated_string" where
  "ValidatePathSegment value =
     (if value = [] then rejected ''must not be empty''
      else if value = ''.'' \<or> value = ''..'' then rejected (''must not be '' @ in_quotes ''.'' @ '' or '' @ in_quotes ''..'')
      else if \<not> IsSafePathSegment value then rejected (''expected '' @ kSafePathSegmentDescription)
      else \<lparr>vs_ok = True, vs_value = value, vs_message = []\<rparr>)"

definition NormalizePathSeparators :: "string \<Rightarrow> string" where
  "NormalizePathSeparators value =
     map (\<lambda>ch. if ch = CHR 0x5C then CHR ''/'' else ch) value"

text \<open>
  Iterating a \<open>std::filesystem::path\<close> without root directory: its file names, and an empty
  element at the end when the path ends with a separator.
\<close>

definition path_parts :: "string \<Rightarrow> string list" where
  "path_parts p =
     filter (\<lambda>s. s \<noteq> []) (split_on (CHR ''/'') p) @
     (if p \<noteq> [] \<and> last p = CHR ''/'' then [[]] else [])"

text \<open>The loop over the parts; \<open>None\<close> is the early return on a dot component.\<close>

fun collect_components :: "string list \<Rightarrow> string list option" where
  "collect_components [] = Some []"
| "collect_components (piece # parts) =
     (if piece = [] then collect_components parts
      else if piece = ''.'' \<or> piece = ''..'' then None
      else map_option (\<lambda>cs. piece # cs) (collect_components parts))"

definition ValidateRelativePath :: "string \<Rightarrow> validated_string" where
  "ValidateRelativePath value =
     (let normalized = NormalizePathSeparators value in
      if normalized = [] then rejected ''must not be empty''
      else if normalized = ''.'' \<or> normalized = ''..'' then rejected (''must not be '' @ in_quotes ''.'' @ '' or '' @ in_quotes ''..'')
      else if hd normalized = CHR ''/'' then rejected ''must be a relative path''
      else if HasWindowsDrivePrefix normalized then rejected ''must not use a Windows drive path''
      else case collect_components (path_parts normalized) of
        None \<Rightarrow> rejected (''must not contain '' @ in_quotes ''.'' @ '' or '' @ in_quotes ''..'')
      | Some [] \<Rightarrow> rejected ''must not be empty''
      | Some components \<Rightarrow>
          \<lparr>vs_ok = True, vs_value = join_with (CHR ''/'') components, vs_message = []\<rparr>)"

definition NormalizeSafeRelativePath :: "string \<Rightarrow> string option" where
  "NormalizeSafeRelativePath value =
     (let validation = ValidateRelativePath value in
      if \<not> vs_ok validation then None else Some (vs_value validation))"

definition IsSafeRelativePath :: "string \<Rightarrow> bool" where
  "IsSafeRelativePath value = (NormalizeSafeRelativePath value \<noteq> None)"

subsection \<open>Component and binary names\<close>

record validation_result =
  vr_ok :: bool
  vr_message :: string

datatype binary_artifact = kLauncher

definition kKnownComponentsDescription :: string where
  "kKnownComponentsDescription = ''agent, server, or installer''"

definition IsKnownComponent :: "string \<Rightarrow> bool" where
  "IsKnownComponent component \<longleftrightarrow>
     component = ''agent'' \<or> component = ''server'' \<or> component = ''installer''"

definition ValidateComponent :: "string \<Rightarrow> validation_result" where
  "ValidateComponent component =
     (if IsKnownComponent component then \<lparr>vr_ok = True, vr_message = []\<rparr>
      else \<lparr>vr_ok = False, vr_message = ''expected '' @ kKnownComponentsDescription\<rparr>)"

definition BinaryNameForComponent :: "string \<Rightarrow> string result" where
  "BinaryNameForComponent component =
     (let validation = ValidateComponent component in
      if \<not> vr_ok validation
      then Inl (Invalid_argument (''invalid component: '' @ vr_message validation))
      else Inr (''zfleet_'' @ component))"

definition BinaryNameForExecutableStem :: "string \<Rightarrow> string result" where
  "BinaryNameForExecutableStem stem =
     (let validation = ValidatePathSegment stem in
      if \<not> vs_ok validation
      then Inl (Invalid_argument (''invalid executable stem: '' @ vs_message validation))
      else Inr (''zfleet_'' @ stem))"

fun BinaryNameForArtifact :: "binary_artifact \<Rightarrow> string result" where
  "BinaryNameForArtifact kLauncher = BinaryNameForExecutableStem ''launcher''"

definition ComponentForBinaryName :: "string \<Rightarrow> string option" where
  "ComponentForBinaryName binary_name =
     (if binary_name = ''zfleet_agent'' then Some ''agent''
      else if binary_name = ''zfleet_server'' then Some ''server''
      else if binary_name = ''zfleet_installer'' then Some ''installer''
      else None)"

definition ArtifactForBinaryName :: "string \<Rightarrow> binary_artifact option" where
  "ArtifactForBinaryName binary_name =
     (if binary_name = ''zfleet_launcher'' then Some kLauncher else None)"

subsection \<open>Lemmas on path pieces\<close>

lemma collect_components_Some_iff:
  "collect_components ps = Some cs \<longleftrightarrow>
     cs = filter (\<lambda>p. p \<noteq> []) ps \<and> ''.'' \<notin> set ps \<and> ''..'' \<notin> set ps"
  by (induction ps arbitrary: cs) auto

lemma set_path_parts_iff:
  "s \<noteq> [] \<Longrightarrow> s \<in> set (path_parts p) \<longleftrightarrow> s \<in> set (split_on (CHR ''/'') p)"
  by (simp add: path_parts_def)

lemma filter_path_parts [simp]:
  "filter (\<lambda>s. s \<noteq> []) (path_parts p) = filter (\<lambda>s. s \<noteq> []) (split_on (CHR ''/'') p)"
  by (simp add: path_parts_def)

lemma split_on_hd:
  assumes "p \<noteq> []" "hd p \<noteq> d"
  obtains s ss where "split_on d p = (hd p # s) # ss"
  using assms by (cases p; cases "split_on d (tl p)") auto

lemma first_piece_nonempty:
  assumes "p \<noteq> []" "hd p \<noteq> CHR ''/''"
  shows "filter (\<lambda>s. s \<noteq> []) (split_on (CHR ''/'') p) \<noteq> []"
  using assms by (auto elim!: split_on_hd)

lemma NormalizePathSeparators_no_backslash: "CHR 0x5C \<notin> set (NormalizePathSeparators v)"
  by (auto simp: NormalizePathSeparators_def)

lemma NormalizePathSeparators_id: "CHR 0x5C \<notin> set v \<Longrightarrow> NormalizePathSeparators v = v"
  by (auto simp: NormalizePathSeparators_def intro!: map_idI)

text \<open>What \<open>ValidateRelativePath\<close> accepts, and what it returns.\<close>

definition relative_pieces :: "string \<Rightarrow> string list" where
  "relative_pieces v =
     filter (\<lambda>s. s \<noteq> []) (split_on (CHR ''/'') (NormalizePathSeparators v))"

lemma ValidateRelativePath_ok_iff:
  "ValidateRelativePath v = r \<and> vs_ok r \<longleftrightarrow>
     NormalizePathSeparators v \<noteq> [] \<and> hd (NormalizePathSeparators v) \<noteq> CHR ''/'' \<and>
     \<not> HasWindowsDrivePrefix (NormalizePathSeparators v) \<and>
     ''.'' \<notin> set (relative_pieces v) \<and> ''..'' \<notin> set (relative_pieces v) \<and>
     r = \<lparr>vs_ok = True, vs_value = join_with (CHR ''/'') (relative_pieces v), vs_message = []\<rparr>"
proof -
  let ?n = "NormalizePathSeparators v"
  have dots: "?n = ''.'' \<or> ?n = ''..'' \<Longrightarrow>
      ''.'' \<in> set (relative_pieces v) \<or> ''..'' \<in> set (relative_pieces v)"
    by (auto simp: relative_pieces_def)
  have coll: "collect_components (path_parts ?n) = Some cs \<longleftrightarrow>
      cs = relative_pieces v \<and> ''.'' \<notin> set (relative_pieces v) \<and> ''..'' \<notin> set (relative_pieces v)"
    for cs
    by (auto simp: collect_components_Some_iff relative_pieces_def set_path_parts_iff)
  have ne: "?n \<noteq> [] \<Longrightarrow> hd ?n \<noteq> CHR ''/'' \<Longrightarrow> relative_pieces v \<noteq> []"
    unfolding relative_pieces_def by (rule first_piece_nonempty)
  show ?thesis
  proof (cases "?n = [] \<or> ?n = ''.'' \<or> ?n = ''..'' \<or> hd ?n = CHR ''/'' \<or> HasWindowsDrivePrefix ?n")
    case True
    then show ?thesis
      using dots by (auto simp: ValidateRelativePath_def rejected_def Let_def)
  next
    case False
    show ?thesis
    proof (cases "collect_components (path_parts ?n)")
      case None
      then have "''.'' \<in> set (relative_pieces v) \<or> ''..'' \<in> set (relative_pieces v)"
        using coll [of "relative_pieces v"] by auto
      then show ?thesis
        using False None by (auto simp: ValidateRelativePath_def rejected_def Let_def)
    next
      case (Some cs)
      then have "cs = relative_pieces v" "cs \<noteq> []" "''.'' \<notin> set cs \<and> ''..'' \<notin> set cs"
        using coll [of cs] ne False by auto
      then show ?thesis
        using False Some
        by (auto simp: ValidateRelativePath_def Let_def split: list.splits)
    qed
  qed
qed

lemma relative_pieces_props:
  "s \<in> set (relative_pieces v) \<Longrightarrow> s \<noteq> [] \<and> CHR ''/'' \<notin> set s \<and> CHR 0x5C \<notin> set s"
  unfolding relative_pieces_def
  using NormalizePathSeparators_no_backslash [of v]
  by (auto dest: split_on_no_sep split_on_elements)

lemma drive_prefix_join:
  "p \<noteq> [] \<Longrightarrow> HasWindowsDrivePrefix (join_with (CHR ''/'') (p # ps)) = HasWindowsDrivePrefix p"
  by (cases ps; cases p; cases "tl p") (auto simp: HasWindowsDrivePrefix_def)

lemma relative_pieces_join:
  assumes "ps \<noteq> []" "\<forall>s\<in>set ps. s \<noteq> [] \<and> CHR ''/'' \<notin> set s \<and> CHR 0x5C \<notin> set s"
  shows "relative_pieces (join_with (CHR ''/'') ps) = ps"
    and "NormalizePathSeparators (join_with (CHR ''/'') ps) = join_with (CHR ''/'') ps"
proof -
  have "set (join_with (CHR ''/'') ps) \<subseteq> insert (CHR ''/'') (\<Union>(set ` set ps))"
    by (induction "CHR ''/''" ps rule: join_with.induct) auto
  then show norm: "NormalizePathSeparators (join_with (CHR ''/'') ps) = join_with (CHR ''/'') ps"
    using assms(2) by (intro NormalizePathSeparators_id) auto
  show "relative_pieces (join_with (CHR ''/'') ps) = ps"
    using assms by (simp add: relative_pieces_def norm split_join_with)
qed

subsection \<open>Properties\<close>

text \<open>The directory a list of path elements leads to, interpreting dot and dot-dot.\<close>

fun walk :: "string list \<Rightarrow> string list \<Rightarrow> string list" where
  "walk dir [] = dir"
| "walk dir (s # ss) =
     walk (if s = [] \<or> s = ''.'' then dir else if s = ''..'' then butlast dir else dir @ [s]) ss"

lemma walk_plain:
  "\<forall>s\<in>set ss. s \<noteq> [] \<and> s \<noteq> ''.'' \<and> s \<noteq> ''..'' \<Longrightarrow> walk dir ss = dir @ ss"
  by (induction ss arbitrary: dir) auto

lemma relative_path_fixed_point:
  assumes "vs_ok (ValidateRelativePath v)"
  shows "ValidateRelativePath (vs_value (ValidateRelativePath v)) = ValidateRelativePath v"
proof -
  let ?n = "NormalizePathSeparators v" and ?ps = "relative_pieces v"
  from assms ValidateRelativePath_ok_iff [of v "ValidateRelativePath v"]
  have n: "?n \<noteq> []" "hd ?n \<noteq> CHR ''/''" "\<not> HasWindowsDrivePrefix ?n"
    and dots: "''.'' \<notin> set ?ps" "''..'' \<notin> set ?ps"
    and r: "ValidateRelativePath v =
        \<lparr>vs_ok = True, vs_value = join_with (CHR ''/'') ?ps, vs_message = []\<rparr>"
    by simp_all
  obtain s ss where split: "split_on (CHR ''/'') ?n = (hd ?n # s) # ss"
    using n(1,2) by (rule split_on_hd)
  then have ps: "?ps = (hd ?n # s) # filter (\<lambda>x. x \<noteq> []) ss"
    by (simp add: relative_pieces_def)
  have "\<not> HasWindowsDrivePrefix (join_with (CHR ''/'') (split_on (CHR ''/'') ?n))"
    using n(3) by simp
  then have drive: "\<not> HasWindowsDrivePrefix (join_with (CHR ''/'') ?ps)"
    unfolding split ps by (simp add: drive_prefix_join del: join_with.simps)
  have ne: "?ps \<noteq> []" by (simp add: ps)
  have join: "join_with (CHR ''/'') ?ps \<noteq> []" "hd (join_with (CHR ''/'') ?ps) \<noteq> CHR ''/''"
    using n(2) by (cases "filter (\<lambda>x. x \<noteq> []) ss"; simp add: ps)+
  have props: "\<forall>x\<in>set ?ps. x \<noteq> [] \<and> CHR ''/'' \<notin> set x \<and> CHR 0x5C \<notin> set x"
    using relative_pieces_props by blast
  show ?thesis
    using ValidateRelativePath_ok_iff [of "join_with (CHR ''/'') ?ps" "ValidateRelativePath v"]
      relative_pieces_join [OF ne props] join drive dots
    by (simp add: r)
qed

text \<open>
  C35: No escape from the root.  A relative path the validator accepts, whatever separators and
  doubled slashes it was written with, is returned as elements none of which is empty, dot,
  dot-dot or contains a separator; following any prefix of it from any root directory only ever
  descends; and the returned path validates to itself.
\<close>

theorem relative_path_confined:
  assumes "vs_ok (ValidateRelativePath v)"
  shows "list_all (\<lambda>s. s \<noteq> [] \<and> s \<noteq> ''.'' \<and> s \<noteq> ''..'' \<and>
             CHR ''/'' \<notin> set s \<and> CHR 0x5C \<notin> set s)
           (split_on (CHR ''/'') (vs_value (ValidateRelativePath v))) \<and>
         walk root (take n (split_on (CHR ''/'') (vs_value (ValidateRelativePath v)))) =
           root @ take n (split_on (CHR ''/'') (vs_value (ValidateRelativePath v))) \<and>
         ValidateRelativePath (vs_value (ValidateRelativePath v)) = ValidateRelativePath v"
proof -
  let ?n = "NormalizePathSeparators v" and ?ps = "relative_pieces v"
  from assms ValidateRelativePath_ok_iff [of v "ValidateRelativePath v"]
  have n: "?n \<noteq> []" "hd ?n \<noteq> CHR ''/''" and dots: "''.'' \<notin> set ?ps" "''..'' \<notin> set ?ps"
    and r: "vs_value (ValidateRelativePath v) = join_with (CHR ''/'') ?ps"
    by simp_all
  have ne: "?ps \<noteq> []"
    using first_piece_nonempty [OF n] by (simp add: relative_pieces_def)
  have props: "\<forall>x\<in>set ?ps. x \<noteq> [] \<and> CHR ''/'' \<notin> set x \<and> CHR 0x5C \<notin> set x"
    using relative_pieces_props by blast
  then have split: "split_on (CHR ''/'') (vs_value (ValidateRelativePath v)) = ?ps"
    using ne r by (simp add: split_join_with)
  have plain: "\<forall>x\<in>set ?ps. x \<noteq> [] \<and> x \<noteq> ''.'' \<and> x \<noteq> ''..''"
    using dots props by metis
  then have "walk root (take n ?ps) = root @ take n ?ps"
    by (intro walk_plain) (meson in_set_takeD)
  with plain props relative_path_fixed_point [OF assms] show ?thesis
    by (simp add: split list_all_iff)
qed

theorem relative_path_confined_witness:
  "walk [''srv''] (take 2 (split_on (CHR ''/'')
       (vs_value (ValidateRelativePath (''bin'' @ CHR 0x5C # ''//agent/''))))) =
     [''srv''] @ take 2 (split_on (CHR ''/'')
       (vs_value (ValidateRelativePath (''bin'' @ CHR 0x5C # ''//agent/''))))"
proof -
  have "vs_ok (ValidateRelativePath (''bin'' @ CHR 0x5C # ''//agent/''))"
    by (simp add: ValidateRelativePath_def NormalizePathSeparators_def HasWindowsDrivePrefix_def
        path_parts_def Let_def char_classes)
  then show ?thesis
    using relative_path_confined [of "''bin'' @ CHR 0x5C # ''//agent/''" "[''srv'']" 2] by simp
qed

text \<open>
  Versions, platforms and architectures are harmless as path components.  A string passes
  \<open>ValidatePathSegment\<close> exactly when \<open>IsSafePathSegment\<close> holds, is then returned unchanged, and
  is accepted by \<open>ValidateRelativePath\<close> as a relative path of exactly that one element.
\<close>

theorem safe_segment_is_single_relative_path:
  "vs_ok (ValidatePathSegment s) = IsSafePathSegment s \<and>
   (IsSafePathSegment s \<longrightarrow>
      vs_value (ValidatePathSegment s) = s \<and>
      ValidateRelativePath s = \<lparr>vs_ok = True, vs_value = s, vs_message = []\<rparr> \<and>
      split_on (CHR ''/'') s = [s])"
proof -
  have seg: "vs_ok (ValidatePathSegment s) = IsSafePathSegment s"
    by (auto simp: ValidatePathSegment_def rejected_def IsSafePathSegment_def)
  have "vs_value (ValidatePathSegment s) = s \<and>
      ValidateRelativePath s = \<lparr>vs_ok = True, vs_value = s, vs_message = []\<rparr> \<and>
      split_on (CHR ''/'') s = [s]" if safe: "IsSafePathSegment s"
  proof -
    have ne: "s \<noteq> []" "s \<noteq> ''.''" "s \<noteq> ''..''"
      and chars: "\<forall>ch\<in>set s. isalnum ch \<or> ch = CHR ''.'' \<or> ch = CHR ''_'' \<or> ch = CHR ''-''"
      using safe by (auto simp: IsSafePathSegment_def list_all_iff split: if_splits)
    have no: "CHR ''/'' \<notin> set s" "CHR 0x5C \<notin> set s" "CHR '':'' \<notin> set s"
      using chars by (fastforce simp: char_classes)+
    then have single: "split_on (CHR ''/'') s = [s]"
      by (simp add: split_on_single)
    have "relative_pieces s = [s]"
      using ne no single by (simp add: relative_pieces_def NormalizePathSeparators_id)
    moreover have "hd s \<noteq> CHR ''/''"
      using no(1) ne(1) by (metis hd_in_set)
    moreover have "s ! 1 \<in> set s" if "2 \<le> length s"
      using that by simp
    then have "\<not> HasWindowsDrivePrefix s"
      using no(3) unfolding HasWindowsDrivePrefix_def by metis
    ultimately have "ValidateRelativePath s = \<lparr>vs_ok = True, vs_value = s, vs_message = []\<rparr>"
      using ne no ValidateRelativePath_ok_iff [of s "\<lparr>vs_ok = True, vs_value = s, vs_message = []\<rparr>"]
      by (simp add: NormalizePathSeparators_id)
    with single safe ne show ?thesis
      by (simp add: ValidatePathSegment_def)
  qed
  with seg show ?thesis by blast
qed

theorem safe_segment_is_single_relative_path_witness:
  "ValidateRelativePath ''1.2.0-rc_1'' = \<lparr>vs_ok = True, vs_value = ''1.2.0-rc_1'', vs_message = []\<rparr>"
  using safe_segment_is_single_relative_path [of "''1.2.0-rc_1''"]
  by (simp add: IsSafePathSegment_def char_classes)

lemma component_binary_name_inverse:
  "ComponentForBinaryName b = Some c \<longleftrightarrow> BinaryNameForComponent c = Inr b"
  by (auto simp: ComponentForBinaryName_def BinaryNameForComponent_def ValidateComponent_def
      IsKnownComponent_def Let_def)

lemma artifact_binary_name_inverse:
  "ArtifactForBinaryName b = Some a \<longleftrightarrow> BinaryNameForArtifact a = Inr b"
  by (cases a) (auto simp: ArtifactForBinaryName_def BinaryNameForExecutableStem_def
      ValidatePathSegment_def IsSafePathSegment_def Let_def char_classes)

end
