(* ===== verification/Semver.thy ===== *)
theory Semver
  imports Core_Path
begin

section \<open>libs/core: three-part versions (version_compare.cpp)\<close>

text \<open>
  \<open>ParseSemver3\<close> with the \<open>std::from_chars\<close> it calls on a 32-bit \<open>int\<close>, and \<open>Semver3\<close>
  ordered by its defaulted comparison operator, an instance of the library's \<open>linorder\<close>.
\<close>

subsection \<open>Decimal digits\<close>

definition digit_val :: "char \<Rightarrow> nat" where
  "digit_val c = of_char c - 48"

definition digits_val :: "string \<Rightarrow> nat" where
  "digits_val ds = foldl (\<lambda>v c. 10 * v + digit_val c) 0 ds"

definition digit_char :: "nat \<Rightarrow> char" where
  "digit_char n = ''0123456789'' ! n"

fun decimal :: "nat \<Rightarrow> string" where
  "decimal n = (if n < 10 then [digit_char n] else decimal (n div 10) @ [digit_char (n mod 10)])"

declare decimal.simps [simp del]

lemma less_10_cases:
  "(n :: nat) < 10 \<Longrightarrow>
   n = 0 \<or> n = 1 \<or> n = 2 \<or> n = 3 \<or> n = 4 \<or> n = 5 \<or> n = 6 \<or> n = 7 \<or> n = 8 \<or> n = 9"
  by arith

lemma digit_char [simp]: "n < 10 \<Longrightarrow> isdigit (digit_char n) \<and> digit_val (digit_char n) = n"
  by (drule less_10_cases) (auto simp: digit_char_def digit_val_def isdigit_def)

lemma digit_val_inverse: "isdigit c \<Longrightarrow> digit_char (digit_val c) = c \<and> digit_val c < 10"
  by (auto simp: isdigit_def digit_char_def digit_val_def)

lemma digits_val_snoc [simp]: "digits_val (ds @ [c]) = 10 * digits_val ds + digit_val c"
  by (simp add: digits_val_def)

lemma digits_val_Nil [simp]: "digits_val [] = 0"
  by (simp add: digits_val_def)

lemma decimal_digits: "decimal n \<noteq> [] \<and> list_all isdigit (decimal n)"
proof (induction n rule: decimal.induct)
  case (1 n)
  then show ?case by (subst (1 2) decimal.simps) simp
qed

lemma digits_val_decimal [simp]: "digits_val (decimal n) = n"
proof (induction n rule: decimal.induct)
  case (1 n)
  show ?case
  proof (cases "n < 10")
    case True
    then show ?thesis
      using digits_val_snoc [of "[]"] by (subst decimal.simps) simp
  next
    case False
    with 1 show ?thesis by (subst decimal.simps) simp
  qed
qed

lemma decimal_first:
  "hd (decimal n) = CHR ''0'' \<longleftrightarrow> n = 0"
proof (induction n rule: decimal.induct)
  case (1 n)
  show ?case
  proof (cases "n < 10")
    case True
    then show ?thesis
      by (subst decimal.simps) (auto simp: digit_char_def dest!: less_10_cases)
  next
    case False
    with 1 decimal_digits [of "n div 10"] show ?thesis
      by (subst decimal.simps) simp
  qed
qed

lemma decimal_length_one: "length (decimal n) > 1 \<longleftrightarrow> 10 \<le> n"
proof (cases "n < 10")
  case True
  then show ?thesis by (subst decimal.simps) simp
next
  case False
  then show ?thesis
    using decimal_digits [of "n div 10"] by (subst decimal.simps) (simp add: Suc_lessI)
qed

lemma decimal_digits_val:
  assumes "ds \<noteq> []" "list_all isdigit ds" "length ds > 1 \<longrightarrow> hd ds \<noteq> CHR ''0''"
  shows "decimal (digits_val ds) = ds"
  using assms
proof (induction ds rule: rev_induct)
  case Nil
  then show ?case by simp
next
  case (snoc c ds)
  then have c: "digit_char (digit_val c) = c" "digit_val c < 10"
    by (auto dest: digit_val_inverse)
  show ?case
  proof (cases "ds = []")
    case True
    with c show ?thesis
      using digits_val_snoc [of "[]" c] by (subst decimal.simps) simp
  next
    case False
    with snoc.prems have "hd ds \<noteq> CHR ''0''"
      by simp
    with False snoc have IH: "decimal (digits_val ds) = ds"
      by simp
    then have "digits_val ds \<noteq> 0"
      using \<open>hd ds \<noteq> CHR ''0''\<close> decimal_first [of "digits_val ds"] by auto
    with IH c show ?thesis
      by (subst decimal.simps) simp
  qed
qed

subsection \<open>The model\<close>

text \<open>
  \<open>std::from_chars\<close> for \<open>int\<close>: an optional minus sign and the longest run of digits, an error
  when there is none or when the value does not fit; otherwise the value and the rest.
\<close>

definition from_chars :: "string \<Rightarrow> (int \<times> string) option" where
  "from_chars s =
     (let neg = (case s of [] \<Rightarrow> False | c # _ \<Rightarrow> c = CHR ''-'');
          body = (if neg then tl s else s);
          ds = takeWhile isdigit body;
          v = (if neg then - int (digits_val ds) else int (digits_val ds))
      in if ds = [] then None
         else if v < - 2147483648 \<or> 2147483647 < v then None
         else Some (v, dropWhile isdigit body))"

definition ParseSemverPart :: "string \<Rightarrow> int option" where
  "ParseSemverPart part =
     (if part = [] then None
      else if 1 < length part \<and> hd part = CHR ''0'' then None
      else case from_chars part of
        None \<Rightarrow> None
      | Some (parsed, rest) \<Rightarrow> if rest \<noteq> [] \<or> parsed < 0 then None else Some parsed)"

datatype semver3 = Semver3 (major: int) (minor: int) (patch: int)

text \<open>
  The loop over the three parts: \<open>value\<close> is the view from \<open>begin\<close> on, the counter the number of
  parts still to read, so that 1 is the last index, where no further dot is allowed.
\<close>

fun semver_parts :: "nat \<Rightarrow> string \<Rightarrow> int list option" where
  "semver_parts 0 value = (if value \<noteq> [] then None else Some [])"
| "semver_parts (Suc n) value =
     (let token = takeWhile (\<lambda>c. c \<noteq> CHR ''.'') value;
          rest = dropWhile (\<lambda>c. c \<noteq> CHR ''.'') value in
      if n = 0 \<and> rest \<noteq> [] then None
      else if n \<noteq> 0 \<and> rest = [] then None
      else case ParseSemverPart token of
        None \<Rightarrow> None
      | Some p \<Rightarrow> map_option (\<lambda>ps. p # ps) (semver_parts n (tl rest)))"

definition ParseSemver3 :: "string \<Rightarrow> semver3 option" where
  "ParseSemver3 value =
     (case semver_parts 3 value of
        Some [a, b, c] \<Rightarrow> Some (Semver3 a b c)
      | _ \<Rightarrow> None)"

definition semver3_less :: "semver3 \<Rightarrow> semver3 \<Rightarrow> bool" where
  "semver3_less v w \<longleftrightarrow>
     major v < major w \<or> (major v = major w \<and>
       (minor v < minor w \<or> (minor v = minor w \<and> patch v < patch w)))"

instantiation semver3 :: linorder
begin

definition less_semver3 :: "semver3 \<Rightarrow> semver3 \<Rightarrow> bool" where
  "less_semver3 v w \<longleftrightarrow> semver3_less v w"

definition less_eq_semver3 :: "semver3 \<Rightarrow> semver3 \<Rightarrow> bool" where
  "less_eq_semver3 v w \<longleftrightarrow> v < w \<or> v = w"

instance
  by standard (auto simp: less_semver3_def semver3_less_def less_eq_semver3_def intro: semver3.expand)

end

subsection \<open>What is accepted\<close>

text \<open>
  The spellings of a version part: its decimal digits without leading zero, and, because
  \<open>std::from_chars\<close> reads a minus sign, a minus followed by any number of zeros for 0.
\<close>

definition part_spelling :: "string \<Rightarrow> int \<Rightarrow> bool" where
  "part_spelling p n \<longleftrightarrow>
     (0 \<le> n \<and> n \<le> 2147483647 \<and> p = decimal (nat n)) \<or>
     (n = 0 \<and> (\<exists>zs. p = CHR ''-'' # zs \<and> zs \<noteq> [] \<and> set zs \<subseteq> {CHR ''0''}))"

lemma digits_val_ge: "list_all isdigit ds \<Longrightarrow> c \<in> set ds \<Longrightarrow> digit_val c \<le> digits_val ds"
  by (induction ds rule: rev_induct) auto

lemma digits_val_zero_iff:
  "list_all isdigit ds \<Longrightarrow> digits_val ds = 0 \<longleftrightarrow> set ds \<subseteq> {CHR ''0''}"
proof (induction ds rule: rev_induct)
  case Nil
  then show ?case by simp
next
  case (snoc c ds)
  have "digit_val c = 0 \<longleftrightarrow> c = CHR ''0''"
    using snoc.prems by (auto simp: isdigit_def digit_val_def)
  with snoc show ?case by auto
qed

text \<open>A token is read completely iff it is digits, or a minus and digits, and fits.\<close>

lemma from_chars_complete_iff:
  "from_chars s = Some (v, []) \<longleftrightarrow>
     (\<exists>ds. ds \<noteq> [] \<and> list_all isdigit ds \<and>
        ((s = ds \<and> v = int (digits_val ds) \<and> digits_val ds \<le> 2147483647) \<or>
         (s = CHR ''-'' # ds \<and> v = - int (digits_val ds) \<and> digits_val ds \<le> 2147483648)))"
proof (cases "\<exists>body. s = CHR ''-'' # body")
  case True
  then obtain body where s: "s = CHR ''-'' # body" by blast
  have minus: "\<not> isdigit (CHR ''-'')"
    by (simp add: isdigit_def)
  have "from_chars s = Some (v, []) \<longleftrightarrow>
      body \<noteq> [] \<and> list_all isdigit body \<and>
      v = - int (digits_val body) \<and> digits_val body \<le> 2147483648"
    by (auto simp: s from_chars_def Let_def list_all_iff takeWhile_eq_all_conv [THEN iffD2])
  then show ?thesis
    using minus by (auto simp: s)
next
  case False
  then have neg: "(case s of [] \<Rightarrow> False | c # _ \<Rightarrow> c = CHR ''-'') = False"
    by (cases s) auto
  have "from_chars s = Some (v, []) \<longleftrightarrow>
      s \<noteq> [] \<and> list_all isdigit s \<and> v = int (digits_val s) \<and> digits_val s \<le> 2147483647"
    unfolding from_chars_def neg
    by (auto simp: Let_def list_all_iff takeWhile_eq_all_conv [THEN iffD2])
  then show ?thesis
    using False by auto
qed

lemma ParseSemverPart_iff: "ParseSemverPart p = Some n \<longleftrightarrow> part_spelling p n"
proof
  assume "ParseSemverPart p = Some n"
  then have zero: "\<not> (1 < length p \<and> hd p = CHR ''0'')" and n: "0 \<le> n"
    and read: "from_chars p = Some (n, [])"
    by (auto simp: ParseSemverPart_def split: if_splits option.splits)
  from read obtain ds where ds: "ds \<noteq> []" "list_all isdigit ds"
    and alt: "p = ds \<and> n = int (digits_val ds) \<and> digits_val ds \<le> 2147483647 \<or>
              p = CHR ''-'' # ds \<and> n = - int (digits_val ds)"
    by (auto simp: from_chars_complete_iff)
  from alt show "part_spelling p n"
  proof
    assume "p = ds \<and> n = int (digits_val ds) \<and> digits_val ds \<le> 2147483647"
    with ds zero decimal_digits_val [of ds] show ?thesis
      by (simp add: part_spelling_def)
  next
    assume neg: "p = CHR ''-'' # ds \<and> n = - int (digits_val ds)"
    with n have "digits_val ds = 0" by simp
    with ds neg show ?thesis
      by (auto simp: part_spelling_def digits_val_zero_iff)
  qed
next
  assume "part_spelling p n"
  then consider "0 \<le> n" "n \<le> 2147483647" "p = decimal (nat n)"
    | zs where "n = 0" "p = CHR ''-'' # zs" "zs \<noteq> []" "set zs \<subseteq> {CHR ''0''}"
    by (auto simp: part_spelling_def)
  then show "ParseSemverPart p = Some n"
  proof cases
    case 1
    then have "from_chars p = Some (n, [])"
      using decimal_digits [of "nat n"] by (auto simp: from_chars_complete_iff)
    with 1 decimal_digits [of "nat n"] decimal_first [of "nat n"] decimal_length_one [of "nat n"]
    show ?thesis by (auto simp: ParseSemverPart_def)
  next
    case 2
    then have zs: "list_all isdigit zs"
      by (auto simp: list_all_iff isdigit_def)
    with 2 have "digits_val zs = 0"
      by (simp add: digits_val_zero_iff)
    with 2 zs have "from_chars p = Some (0, [])"
      by (auto simp: from_chars_complete_iff)
    with 2 show ?thesis by (simp add: ParseSemverPart_def)
  qed
qed

lemma part_spelling_no_dot: "part_spelling p n \<Longrightarrow> CHR ''.'' \<notin> set p"
proof -
  have "\<not> isdigit (CHR ''.'')"
    by (simp add: isdigit_def)
  then show "part_spelling p n \<Longrightarrow> CHR ''.'' \<notin> set p"
    using decimal_digits [of "nat n"] by (auto simp: part_spelling_def list_all_iff)
qed

lemma token_split:
  "takeWhile (\<lambda>c. c \<noteq> d) s = p \<and> dropWhile (\<lambda>c. c \<noteq> d) s = r \<and> r \<noteq> [] \<longleftrightarrow>
   d \<notin> set p \<and> (\<exists>t. r = d # t \<and> s = p @ d # t)"
proof
  assume a: "takeWhile (\<lambda>c. c \<noteq> d) s = p \<and> dropWhile (\<lambda>c. c \<noteq> d) s = r \<and> r \<noteq> []"
  then have "s = p @ r" "hd r = d"
    using takeWhile_dropWhile_id [of "\<lambda>c. c \<noteq> d" s] hd_dropWhile [of "\<lambda>c. c \<noteq> d" s] by auto
  moreover have "d \<notin> set p"
    using a set_takeWhileD by fastforce
  ultimately show "d \<notin> set p \<and> (\<exists>t. r = d # t \<and> s = p @ d # t)"
    using a by (cases r) auto
next
  assume "d \<notin> set p \<and> (\<exists>t. r = d # t \<and> s = p @ d # t)"
  then show "takeWhile (\<lambda>c. c \<noteq> d) s = p \<and> dropWhile (\<lambda>c. c \<noteq> d) s = r \<and> r \<noteq> []"
    by (auto simp: takeWhile_append dropWhile_append takeWhile_eq_all_conv dropWhile_eq_Nil_conv)
qed

declare semver_parts.simps [simp del]

lemma semver_parts_one:
  "semver_parts (Suc 0) s = Some ps \<longleftrightarrow> (\<exists>n. ps = [n] \<and> part_spelling s n)"
proof (cases "CHR ''.'' \<in> set s")
  case True
  then have "dropWhile (\<lambda>c. c \<noteq> CHR ''.'') s \<noteq> []"
    by (auto simp: dropWhile_eq_Nil_conv)
  with True part_spelling_no_dot show ?thesis
    by (auto simp: semver_parts.simps Let_def)
next
  case False
  then have tok: "takeWhile (\<lambda>c. c \<noteq> CHR ''.'') s = s" "dropWhile (\<lambda>c. c \<noteq> CHR ''.'') s = []"
    by (auto simp: takeWhile_eq_all_conv dropWhile_eq_Nil_conv)
  have "semver_parts (Suc 0) s =
      (case ParseSemverPart s of None \<Rightarrow> None | Some p \<Rightarrow> Some [p])"
    unfolding semver_parts.simps Let_def tok by (simp add: semver_parts.simps split: option.split)
  then show ?thesis
    by (auto simp: ParseSemverPart_iff [symmetric] split: option.splits)
qed

lemma semver_parts_more:
  "semver_parts (Suc (Suc k)) s = Some ps \<longleftrightarrow>
     (\<exists>p n t ns. s = p @ CHR ''.'' # t \<and> part_spelling p n \<and>
        semver_parts (Suc k) t = Some ns \<and> ps = n # ns)"
  (is "?lhs \<longleftrightarrow> ?rhs")
proof
  let ?tok = "takeWhile (\<lambda>c. c \<noteq> CHR ''.'') s" and ?rest = "dropWhile (\<lambda>c. c \<noteq> CHR ''.'') s"
  assume ?lhs
  then obtain n ns where rest: "?rest \<noteq> []" and n: "ParseSemverPart ?tok = Some n"
      and ns: "semver_parts (Suc k) (tl ?rest) = Some ns" "ps = n # ns"
    by (subst (asm) semver_parts.simps) (auto simp: Let_def split: if_splits option.splits)
  from rest obtain t where "?rest = CHR ''.'' # t" "s = ?tok @ CHR ''.'' # t"
    using token_split [of "CHR ''.''" s ?tok ?rest] by blast
  with n ns show ?rhs
    by (metis ParseSemverPart_iff list.sel(3))
next
  assume ?rhs
  then obtain p n t ns where s: "s = p @ CHR ''.'' # t" and p: "part_spelling p n"
    and t: "semver_parts (Suc k) t = Some ns" and ps: "ps = n # ns"
    by blast
  have tok: "takeWhile (\<lambda>c. c \<noteq> CHR ''.'') s = p" "dropWhile (\<lambda>c. c \<noteq> CHR ''.'') s = CHR ''.'' # t"
    using token_split [of "CHR ''.''" s p "CHR ''.'' # t"] s part_spelling_no_dot [OF p] by auto
  show ?lhs
    using p t ps
    by (subst semver_parts.simps) (simp add: tok Let_def ParseSemverPart_iff [symmetric])
qed

subsection \<open>Properties\<close>

text \<open>
  Exactly what \<open>ParseSemver3\<close> accepts: three spellings separated by single dots, each the
  canonical decimal of a non-negative 32-bit integer, or a minus sign followed by zeros, which the
  sign handling of \<open>std::from_chars\<close> lets through as 0.
\<close>

theorem ParseSemver3_iff:
  "ParseSemver3 s = Some v \<longleftrightarrow>
     (\<exists>p q r. s = p @ CHR ''.'' # q @ CHR ''.'' # r \<and>
        part_spelling p (major v) \<and> part_spelling q (minor v) \<and> part_spelling r (patch v))"
proof -
  have "ParseSemver3 s = Some v \<longleftrightarrow> semver_parts 3 s = Some [major v, minor v, patch v]"
    by (cases v) (auto simp: ParseSemver3_def split: option.splits list.splits)
  also have "\<dots> \<longleftrightarrow> (\<exists>p q r. s = p @ CHR ''.'' # q @ CHR ''.'' # r \<and>
        part_spelling p (major v) \<and> part_spelling q (minor v) \<and> part_spelling r (patch v))"
    unfolding numeral_3_eq_3
    by (simp only: semver_parts_more semver_parts_one) fastforce
  finally show ?thesis .
qed

definition render :: "semver3 \<Rightarrow> string" where
  "render v = decimal (nat (major v)) @ CHR ''.'' # decimal (nat (minor v)) @ CHR ''.'' #
              decimal (nat (patch v))"

text \<open>
  Round trip.  Every version whose parts are non-negative 32-bit integers is what its dotted
  decimal spelling parses to, so that distinct versions never share a spelling.
\<close>

theorem ParseSemver3_render:
  assumes "0 \<le> major v" "major v \<le> 2147483647" "0 \<le> minor v" "minor v \<le> 2147483647"
    and "0 \<le> patch v" "patch v \<le> 2147483647"
  shows "ParseSemver3 (render v) = Some v"
proof -
  have "\<exists>p q r. render v = p @ CHR ''.'' # q @ CHR ''.'' # r \<and>
      part_spelling p (major v) \<and> part_spelling q (minor v) \<and> part_spelling r (patch v)"
    unfolding render_def part_spelling_def using assms by blast
  then show ?thesis
    using ParseSemver3_iff [of "render v" v] by blast
qed

theorem ParseSemver3_render_witness:
  "ParseSemver3 (render (Semver3 10 0 3)) = Some (Semver3 10 0 3)"
  by (rule ParseSemver3_render) simp_all

end
