(* ===== verification/Messages.thy ===== *)
theory Messages
  imports Prelude
begin

section \<open>libs/protocol: the domain messages (message.h, message.cpp)\<close>

text \<open>
  The enums of the protocol with their names, the message structs as records (one field prefix per
  struct), the variants as datatypes, and the pure functions on them: the task state machine, the
  capability a task type needs, the input a task type takes, and the envelope accessors.  Enum
  constructors carry the prefix of their enum because several C++ enums share enumerator names.
\<close>

definition protocol_version :: string where
  "protocol_version = ''v1''"

subsection \<open>Enums and their names\<close>

datatype error_code =
    E_invalid_json
  | E_missing_required_field
  | E_invalid_field_type
  | E_unsupported_protocol_version
  | E_agent_id_mismatch
  | E_agent_not_registered
  | E_internal_error
  | E_task_not_found
  | E_task_agent_mismatch
  | E_task_already_finished
  | E_task_expired
  | E_unsupported_task_type
  | E_capability_not_allowed
  | E_task_execution_failed
  | E_task_result_invalid
  | E_package_not_found
  | E_package_retired
  | E_platform_arch_mismatch
  | E_build_type_not_allowed
  | E_installer_too_old
  | E_download_failed
  | E_checksum_mismatch
  | E_apply_failed
  | E_start_new_agent_failed
  | E_waiting_reconnect_timeout
  | E_agent_reported_unexpected_version

fun ErrorCode_ToString :: "error_code \<Rightarrow> string" where
  "ErrorCode_ToString E_invalid_json = ''invalid_json''"
| "ErrorCode_ToString E_missing_required_field = ''missing_required_field''"
| "ErrorCode_ToString E_invalid_field_type = ''invalid_field_type''"
| "ErrorCode_ToString E_unsupported_protocol_version = ''unsupported_protocol_version''"
| "ErrorCode_ToString E_agent_id_mismatch = ''agent_id_mismatch''"
| "ErrorCode_ToString E_agent_not_registered = ''agent_not_registered''"
| "ErrorCode_ToString E_internal_error = ''internal_error''"
| "ErrorCode_ToString E_task_not_found = ''task_not_found''"
| "ErrorCode_ToString E_task_agent_mismatch = ''task_agent_mismatch''"
| "ErrorCode_ToString E_task_already_finished = ''task_already_finished''"
| "ErrorCode_ToString E_task_expired = ''task_expired''"
| "ErrorCode_ToString E_unsupported_task_type = ''unsupported_task_type''"
| "ErrorCode_ToString E_capability_not_allowed = ''capability_not_allowed''"
| "ErrorCode_ToString E_task_execution_failed = ''task_execution_failed''"
| "ErrorCode_ToString E_task_result_invalid = ''task_result_invalid''"
| "ErrorCode_ToString E_package_not_found = ''package_not_found''"
| "ErrorCode_ToString E_package_retired = ''package_retired''"
| "ErrorCode_ToString E_platform_arch_mismatch = ''platform_arch_mismatch''"
| "ErrorCode_ToString E_build_type_not_allowed = ''build_type_not_allowed''"
| "ErrorCode_ToString E_installer_too_old = ''installer_too_old''"
| "ErrorCode_ToString E_download_failed = ''download_failed''"
| "ErrorCode_ToString E_checksum_mismatch = ''checksum_mismatch''"
| "ErrorCode_ToString E_apply_failed = ''apply_failed''"
| "ErrorCode_ToString E_start_new_agent_failed = ''start_new_agent_failed''"
| "ErrorCode_ToString E_waiting_reconnect_timeout = ''waiting_reconnect_timeout''"
| "ErrorCode_ToString E_agent_reported_unexpected_version = ''agent_reported_unexpected_version''"

definition ErrorCodeFromString :: "string \<Rightarrow> error_code option" where
  "ErrorCodeFromString name =
     (if name = ''invalid_json'' then Some E_invalid_json
      else if name = ''missing_required_field'' then Some E_missing_required_field
      else if name = ''invalid_field_type'' then Some E_invalid_field_type
      else if name = ''unsupported_protocol_version'' then Some E_unsupported_protocol_version
      else if name = ''agent_id_mismatch'' then Some E_agent_id_mismatch
      else if name = ''agent_not_registered'' then Some E_agent_not_registered
      else if name = ''internal_error'' then Some E_internal_error
      else if name = ''task_not_found'' then Some E_task_not_found
      else if name = ''task_agent_mismatch'' then Some E_task_agent_mismatch
      else if name = ''task_already_finished'' then Some E_task_already_finished
      else if name = ''task_expired'' then Some E_task_expired
      else if name = ''unsupported_task_type'' then Some E_unsupported_task_type
      else if name = ''capability_not_allowed'' then Some E_capability_not_allowed
      else if name = ''task_execution_failed'' then Some E_task_execution_failed
      else if name = ''task_result_invalid'' then Some E_task_result_invalid
      else if name = ''package_not_found'' then Some E_package_not_found
      else if name = ''package_retired'' then Some E_package_retired
      else if name = ''platform_arch_mismatch'' then Some E_platform_arch_mismatch
      else if name = ''build_type_not_allowed'' then Some E_build_type_not_allowed
      else if name = ''installer_too_old'' then Some E_installer_too_old
      else if name = ''download_failed'' then Some E_download_failed
      else if name = ''checksum_mismatch'' then Some E_checksum_mismatch
      else if name = ''apply_failed'' then Some E_apply_failed
      else if name = ''start_new_agent_failed'' then Some E_start_new_agent_failed
      else if name = ''waiting_reconnect_timeout'' then Some E_waiting_reconnect_timeout
      else if name = ''agent_reported_unexpected_version'' then Some E_agent_reported_unexpected_version
      else None)"

datatype audit_event_type =
    A_agent_register
  | A_agent_asset_snapshot
  | A_package_validated
  | A_package_published
  | A_package_retired
  | A_agent_upgrade_requested
  | A_agent_rollback_requested
  | A_agent_upgrade_confirmed
  | A_registration_token_created
  | A_registration_token_used
  | A_registration_token_rejected
  | A_task_queued
  | A_task_assigned
  | A_task_running
  | A_task_succeeded
  | A_task_failed
  | A_task_expired

fun AuditEventType_ToString :: "audit_event_type \<Rightarrow> string" where
  "AuditEventType_ToString A_agent_register = ''agent.register''"
| "AuditEventType_ToString A_agent_asset_snapshot = ''agent.asset_snapshot''"
| "AuditEventType_ToString A_package_validated = ''package.validated''"
| "AuditEventType_ToString A_package_published = ''package.published''"
| "AuditEventType_ToString A_package_retired = ''package.retired''"
| "AuditEventType_ToString A_agent_upgrade_requested = ''agent.upgrade_requested''"
| "AuditEventType_ToString A_agent_rollback_requested = ''agent.rollback_requested''"
| "AuditEventType_ToString A_agent_upgrade_confirmed = ''agent.upgrade_confirmed''"
| "AuditEventType_ToString A_registration_token_created = ''registration_token.created''"
| "AuditEventType_ToString A_registration_token_used = ''registration_token.used''"
| "AuditEventType_ToString A_registration_token_rejected = ''registration_token.rejected''"
| "AuditEventType_ToString A_task_queued = ''task.queued''"
| "AuditEventType_ToString A_task_assigned = ''task.assigned''"
| "AuditEventType_ToString A_task_running = ''task.running''"
| "AuditEventType_ToString A_task_succeeded = ''task.succeeded''"
| "AuditEventType_ToString A_task_failed = ''task.failed''"
| "AuditEventType_ToString A_task_expired = ''task.expired''"

definition AuditEventTypeFromString :: "string \<Rightarrow> audit_event_type option" where
  "AuditEventTypeFromString name =
     (if name = ''agent.register'' then Some A_agent_register
      else if name = ''agent.asset_snapshot'' then Some A_agent_asset_snapshot
      else if name = ''package.validated'' then Some A_package_validated
      else if name = ''package.published'' then Some A_package_published
      else if name = ''package.retired'' then Some A_package_retired
      else if name = ''agent.upgrade_requested'' then Some A_agent_upgrade_requested
      else if name = ''agent.rollback_requested'' then Some A_agent_rollback_requested
      else if name = ''agent.upgrade_confirmed'' then Some A_agent_upgrade_confirmed
      else if name = ''registration_token.created'' then Some A_registration_token_created
      else if name = ''registration_token.used'' then Some A_registration_token_used
      else if name = ''registration_token.rejected'' then Some A_registration_token_rejected
      else if name = ''task.queued'' then Some A_task_queued
      else if name = ''task.assigned'' then Some A_task_assigned
      else if name = ''task.running'' then Some A_task_running
      else if name = ''task.succeeded'' then Some A_task_succeeded
      else if name = ''task.failed'' then Some A_task_failed
      else if name = ''task.expired'' then Some A_task_expired
      else None)"

datatype task_type =
    TT_collect_basic_inventory
  | TT_package_update

fun TaskType_ToString :: "task_type \<Rightarrow> string" where
  "TaskType_ToString TT_collect_basic_inventory = ''collect_basic_inventory''"
| "TaskType_ToString TT_package_update = ''package_update''"

definition TaskTypeFromString :: "string \<Rightarrow> task_type option" where
  "TaskTypeFromString name =
     (if name = ''collect_basic_inventory'' then Some TT_collect_basic_inventory
      else if name = ''package_update'' then Some TT_package_update
      else None)"

datatype capability_level =
    CL_readonly
  | CL_low_risk_write
  | CL_high_risk_write
  | CL_shell

fun CapabilityLevel_ToString :: "capability_level \<Rightarrow> string" where
  "CapabilityLevel_ToString CL_readonly = ''readonly''"
| "CapabilityLevel_ToString CL_low_risk_write = ''low_risk_write''"
| "CapabilityLevel_ToString CL_high_risk_write = ''high_risk_write''"
| "CapabilityLevel_ToString CL_shell = ''shell''"

definition CapabilityLevelFromString :: "string \<Rightarrow> capability_level option" where
  "CapabilityLevelFromString name =
     (if name = ''readonly'' then Some CL_readonly
      else if name = ''low_risk_write'' then Some CL_low_risk_write
      else if name = ''high_risk_write'' then Some CL_high_risk_write
      else if name = ''shell'' then Some CL_shell
      else None)"

datatype task_execution_status =
    TE_succeeded
  | TE_failed
  | TE_expired

fun TaskExecutionStatus_ToString :: "task_execution_status \<Rightarrow> string" where
  "TaskExecutionStatus_ToString TE_succeeded = ''succeeded''"
| "TaskExecutionStatus_ToString TE_failed = ''failed''"
| "TaskExecutionStatus_ToString TE_expired = ''expired''"

definition TaskExecutionStatusFromString :: "string \<Rightarrow> task_execution_status option" where
  "TaskExecutionStatusFromString name =
     (if name = ''succeeded'' then Some TE_succeeded
      else if name = ''failed'' then Some TE_failed
      else if name = ''expired'' then Some TE_expired
      else None)"

datatype task_state =
    TS_queued
  | TS_assigned
  | TS_running
  | TS_succeeded
  | TS_failed
  | TS_expired

fun TaskState_ToString :: "task_state \<Rightarrow> string" where
  "TaskState_ToString TS_queued = ''queued''"
| "TaskState_ToString TS_assigned = ''assigned''"
| "TaskState_ToString TS_running = ''running''"
| "TaskState_ToString TS_succeeded = ''succeeded''"
| "TaskState_ToString TS_failed = ''failed''"
| "TaskState_ToString TS_expired = ''expired''"

definition TaskStateFromString :: "string \<Rightarrow> task_state option" where
  "TaskStateFromString name =
     (if name = ''queued'' then Some TS_queued
      else if name = ''assigned'' then Some TS_assigned
      else if name = ''running'' then Some TS_running
      else if name = ''succeeded'' then Some TS_succeeded
      else if name = ''failed'' then Some TS_failed
      else if name = ''expired'' then Some TS_expired
      else None)"

text \<open>
  What the database and the audit trail rely on for every enum they store as text: a name parses
  back to its value, and nothing else parses to it.
\<close>

locale enum_names =
  fixes to_string :: "'e \<Rightarrow> string"
    and from_string :: "string \<Rightarrow> 'e option"
  assumes from_to: "from_string (to_string x) = Some x"
    and to_from: "from_string s = Some x \<Longrightarrow> to_string x = s"
begin

lemma from_string_iff: "from_string s = Some x \<longleftrightarrow> s = to_string x"
  using from_to to_from by blast

lemma to_string_inj: "to_string x = to_string y \<longleftrightarrow> x = y"
  by (metis from_to option.inject)

lemma from_string_None_iff: "from_string s = None \<longleftrightarrow> s \<notin> range to_string"
  using from_string_iff by (metis not_None_eq rangeE rangeI)

end

interpretation error_code_names: enum_names ErrorCode_ToString ErrorCodeFromString
proof unfold_locales
  fix x
  show "ErrorCodeFromString (ErrorCode_ToString x) = Some x"
    by (cases x) (simp_all add: ErrorCodeFromString_def)
next
  fix s x
  show "ErrorCodeFromString s = Some x \<Longrightarrow> ErrorCode_ToString x = s"
    by (auto simp: ErrorCodeFromString_def split: if_splits)
qed

interpretation audit_event_type_names: enum_names AuditEventType_ToString AuditEventTypeFromString
proof unfold_locales
  fix x
  show "AuditEventTypeFromString (AuditEventType_ToString x) = Some x"
    by (cases x) (simp_all add: AuditEventTypeFromString_def)
next
  fix s x
  show "AuditEventTypeFromString s = Some x \<Longrightarrow> AuditEventType_ToString x = s"
    by (auto simp: AuditEventTypeFromString_def split: if_splits)
qed

interpretation task_type_names: enum_names TaskType_ToString TaskTypeFromString
proof unfold_locales
  fix x
  show "TaskTypeFromString (TaskType_ToString x) = Some x"
    by (cases x) (simp_all add: TaskTypeFromString_def)
next
  fix s x
  show "TaskTypeFromString s = Some x \<Longrightarrow> TaskType_ToString x = s"
    by (auto simp: TaskTypeFromString_def split: if_splits)
qed

interpretation capability_level_names: enum_names CapabilityLevel_ToString CapabilityLevelFromString
proof unfold_locales
  fix x
  show "CapabilityLevelFromString (CapabilityLevel_ToString x) = Some x"
    by (cases x) (simp_all add: CapabilityLevelFromString_def)
next
  fix s x
  show "CapabilityLevelFromString s = Some x \<Longrightarrow> CapabilityLevel_ToString x = s"
    by (auto simp: CapabilityLevelFromString_def split: if_splits)
qed

interpretation task_execution_status_names: enum_names TaskExecutionStatus_ToString TaskExecutionStatusFromString
proof unfold_locales
  fix x
  show "TaskExecutionStatusFromString (TaskExecutionStatus_ToString x) = Some x"
    by (cases x) (simp_all add: TaskExecutionStatusFromString_def)
next
  fix s x
  show "TaskExecutionStatusFromString s = Some x \<Longrightarrow> TaskExecutionStatus_ToString x = s"
    by (auto simp: TaskExecutionStatusFromString_def split: if_splits)
qed

interpretation task_state_names: enum_names TaskState_ToString TaskStateFromString
proof unfold_locales
  fix x
  show "TaskStateFromString (TaskState_ToString x) = Some x"
    by (cases x) (simp_all add: TaskStateFromString_def)
next
  fix s x
  show "TaskStateFromString s = Some x \<Longrightarrow> TaskState_ToString x = s"
    by (auto simp: TaskStateFromString_def split: if_splits)
qed

lemmas enum_names_simps [simp] =
  error_code_names.from_to audit_event_type_names.from_to task_type_names.from_to
  capability_level_names.from_to task_execution_status_names.from_to task_state_names.from_to
  error_code_names.to_string_inj audit_event_type_names.to_string_inj task_type_names.to_string_inj
  capability_level_names.to_string_inj task_execution_status_names.to_string_inj
  task_state_names.to_string_inj

subsection \<open>Messages\<close>

record agent_registration =
  reg_protocol_version :: string
  reg_request_id :: string
  reg_agent_id :: string
  reg_occurred_at :: string
  reg_agent_version :: string
  reg_hostname :: string
  reg_os :: string
  reg_arch :: string
  reg_registration_token :: "string option"

record agent_heartbeat =
  hb_protocol_version :: string
  hb_request_id :: string
  hb_agent_id :: string
  hb_occurred_at :: string
  hb_agent_version :: string

record asset_snapshot =
  as_protocol_version :: string
  as_request_id :: string
  as_agent_id :: string
  as_occurred_at :: string
  as_hostname :: string
  as_os :: string
  as_os_version :: "string option"
  as_arch :: string
  as_agent_version :: string
  as_applications :: "string list"
  as_services :: "string list"

record audit_event =
  ae_audit_id :: string
  ae_occurred_at :: string
  ae_agent_id :: "string option"
  ae_request_id :: string
  ae_event_type :: audit_event_type
  ae_result :: string
  ae_payload_json :: string

record collect_basic_inventory_result =
  inv_hostname :: string
  inv_os :: string
  inv_arch :: string
  inv_agent_version :: string

record package_update_input =
  pui_action :: string
  pui_component :: string
  pui_package_id :: string
  pui_version :: string
  pui_platform :: string
  pui_arch :: string
  pui_build_type :: string
  pui_package_url :: string
  pui_package_sha256 :: string
  pui_manifest_sha256 :: string
  pui_min_installer_version :: string
  pui_allow_downgrade :: bool
  pui_force :: bool

record package_update_result =
  pur_component :: string
  pur_package_id :: string
  pur_version :: string
  pur_state :: string
  pur_error_code :: string
  pur_error_message :: string

datatype task_input =
    CollectBasicInventoryInput
  | PackageUpdateInput package_update_input

datatype task_result_data =
    CollectBasicInventoryResult collect_basic_inventory_result
  | PackageUpdateResult package_update_result

record task =
  task_protocol_version :: string
  task_task_id :: string
  task_agent_id :: string
  task_task_type :: task_type
  task_capability_level :: capability_level
  task_created_at :: string
  task_expires_at :: string
  task_input_data :: task_input

record task_error =
  te_error_code :: error_code
  te_message :: string
  te_retryable :: bool

record task_running =
  run_protocol_version :: string
  run_request_id :: string
  run_task_id :: string
  run_agent_id :: string
  run_task_type :: task_type
  run_occurred_at :: string

record task_result =
  res_protocol_version :: string
  res_request_id :: string
  res_task_id :: string
  res_agent_id :: string
  res_task_type :: task_type
  res_occurred_at :: string
  res_status :: task_execution_status
  res_result :: "task_result_data option"
  res_error :: "task_error option"

datatype agent_event =
    EvRegister agent_registration
  | EvHeartbeat agent_heartbeat
  | EvAssetSnapshot asset_snapshot
  | EvTaskRunning task_running
  | EvTaskResult task_result

record server_error =
  se_error_code :: error_code
  se_message :: string
  se_retryable :: bool

datatype server_command_payload =
    CmdTask task
  | CmdError server_error

record server_command =
  sc_protocol_version :: string
  sc_message_id :: string
  sc_correlation_id :: string
  sc_agent_id :: string
  sc_occurred_at :: string
  sc_payload :: server_command_payload

subsection \<open>Functions on messages\<close>

definition IsTerminalTaskState :: "task_state \<Rightarrow> bool" where
  "IsTerminalTaskState state \<longleftrightarrow>
     state = TS_succeeded \<or> state = TS_failed \<or> state = TS_expired"

definition CanTransitionTaskState :: "task_state \<Rightarrow> task_state \<Rightarrow> bool" where
  "CanTransitionTaskState before after =
     (if before = after then False
      else case before of
        TS_queued \<Rightarrow> after = TS_assigned
      | TS_assigned \<Rightarrow> after = TS_running \<or> after = TS_expired
      | TS_running \<Rightarrow> after = TS_succeeded \<or> after = TS_failed \<or> after = TS_expired
      | TS_succeeded \<Rightarrow> False
      | TS_failed \<Rightarrow> False
      | TS_expired \<Rightarrow> False)"

fun RequiredCapabilityForTaskType :: "task_type \<Rightarrow> capability_level" where
  "RequiredCapabilityForTaskType TT_collect_basic_inventory = CL_readonly"
| "RequiredCapabilityForTaskType TT_package_update = CL_high_risk_write"

fun TaskInputMatchesType :: "task_type \<Rightarrow> task_input \<Rightarrow> bool" where
  "TaskInputMatchesType TT_collect_basic_inventory input = (input = CollectBasicInventoryInput)"
| "TaskInputMatchesType TT_package_update input =
     (case input of PackageUpdateInput _ \<Rightarrow> True | _ \<Rightarrow> False)"

fun AgentEventProtocolVersion :: "agent_event \<Rightarrow> string" where
  "AgentEventProtocolVersion (EvRegister p) = reg_protocol_version p"
| "AgentEventProtocolVersion (EvHeartbeat p) = hb_protocol_version p"
| "AgentEventProtocolVersion (EvAssetSnapshot p) = as_protocol_version p"
| "AgentEventProtocolVersion (EvTaskRunning p) = run_protocol_version p"
| "AgentEventProtocolVersion (EvTaskResult p) = res_protocol_version p"

fun AgentEventRequestId :: "agent_event \<Rightarrow> string" where
  "AgentEventRequestId (EvRegister p) = reg_request_id p"
| "AgentEventRequestId (EvHeartbeat p) = hb_request_id p"
| "AgentEventRequestId (EvAssetSnapshot p) = as_request_id p"
| "AgentEventRequestId (EvTaskRunning p) = run_request_id p"
| "AgentEventRequestId (EvTaskResult p) = res_request_id p"

fun AgentEventAgentId :: "agent_event \<Rightarrow> string" where
  "AgentEventAgentId (EvRegister p) = reg_agent_id p"
| "AgentEventAgentId (EvHeartbeat p) = hb_agent_id p"
| "AgentEventAgentId (EvAssetSnapshot p) = as_agent_id p"
| "AgentEventAgentId (EvTaskRunning p) = run_agent_id p"
| "AgentEventAgentId (EvTaskResult p) = res_agent_id p"

fun AgentEventOccurredAt :: "agent_event \<Rightarrow> string" where
  "AgentEventOccurredAt (EvRegister p) = reg_occurred_at p"
| "AgentEventOccurredAt (EvHeartbeat p) = hb_occurred_at p"
| "AgentEventOccurredAt (EvAssetSnapshot p) = as_occurred_at p"
| "AgentEventOccurredAt (EvTaskRunning p) = run_occurred_at p"
| "AgentEventOccurredAt (EvTaskResult p) = res_occurred_at p"

subsection \<open>The task life cycle\<close>

lemma CanTransition_iff [simp]:
  "CanTransitionTaskState TS_queued t \<longleftrightarrow> t = TS_assigned"
  "CanTransitionTaskState TS_assigned t \<longleftrightarrow> t = TS_running \<or> t = TS_expired"
  "CanTransitionTaskState TS_running t \<longleftrightarrow> IsTerminalTaskState t"
  "CanTransitionTaskState TS_succeeded t \<longleftrightarrow> False"
  "CanTransitionTaskState TS_failed t \<longleftrightarrow> False"
  "CanTransitionTaskState TS_expired t \<longleftrightarrow> False"
  by (auto simp: CanTransitionTaskState_def IsTerminalTaskState_def)

lemma IsTerminal_simps [simp]:
  "IsTerminalTaskState TS_succeeded" "IsTerminalTaskState TS_failed" "IsTerminalTaskState TS_expired"
  "\<not> IsTerminalTaskState TS_queued" "\<not> IsTerminalTaskState TS_assigned"
  "\<not> IsTerminalTaskState TS_running"
  by (simp_all add: IsTerminalTaskState_def)

lemma terminal_stuck: "IsTerminalTaskState s \<Longrightarrow> \<not> CanTransitionTaskState s t"
  by (cases s) simp_all

text \<open>\<open>lifecycle s ts t\<close>: the states entered one after the other on a way from \<open>s\<close> to \<open>t\<close>.\<close>

inductive lifecycle :: "task_state \<Rightarrow> task_state list \<Rightarrow> task_state \<Rightarrow> bool" where
  stay: "lifecycle s [] s"
| step: "CanTransitionTaskState s t \<Longrightarrow> lifecycle t ts u \<Longrightarrow> lifecycle s (t # ts) u"

code_pred lifecycle .

inductive_cases lifecycleE: "lifecycle s ts u"

inductive_simps lifecycle_Nil [simp]: "lifecycle s [] u"

inductive_simps lifecycle_Cons: "lifecycle s (t # ts) u"

lemma lifecycle_terminal: "IsTerminalTaskState s \<Longrightarrow> lifecycle s ts u \<longleftrightarrow> ts = [] \<and> u = s"
  by (auto elim: lifecycleE dest: terminal_stuck)

lemma lifecycle_running:
  "lifecycle TS_running ts u \<longleftrightarrow>
     (ts = [] \<and> u = TS_running) \<or> (IsTerminalTaskState u \<and> ts = [u])"
  by (cases ts) (auto simp: lifecycle_Cons lifecycle_terminal)

lemma lifecycle_assigned:
  "lifecycle TS_assigned ts u \<longleftrightarrow>
     (ts = [] \<and> u = TS_assigned) \<or> (ts = [TS_expired] \<and> u = TS_expired) \<or>
     (\<exists>ts'. ts = TS_running # ts' \<and> lifecycle TS_running ts' u)"
  by (cases ts) (auto simp: lifecycle_Cons lifecycle_terminal)

lemma lifecycle_queued:
  "lifecycle TS_queued ts u \<longleftrightarrow>
     (ts = [] \<and> u = TS_queued) \<or> (\<exists>ts'. ts = TS_assigned # ts' \<and> lifecycle TS_assigned ts' u)"
  by (cases ts) (auto simp: lifecycle_Cons)

text \<open>
  The task state machine.  Every chain of allowed transitions from \<open>queued\<close> visits distinct
  states and has at most three steps; a task can only have succeeded or failed after having been
  assigned and then run; and a chain that meets a terminal state ends there.
\<close>

theorem task_lifecycle_paths:
  assumes "lifecycle TS_queued ts u"
  shows "distinct (TS_queued # ts) \<and> length ts \<le> 3 \<and>
         (u = TS_succeeded \<or> u = TS_failed \<longrightarrow> ts = [TS_assigned, TS_running, u]) \<and>
         list_all (\<lambda>t. \<not> IsTerminalTaskState t) (butlast (TS_queued # ts))"
  using assms
  by (auto simp: lifecycle_queued lifecycle_assigned lifecycle_running IsTerminalTaskState_def)

theorem task_lifecycle_paths_witness:
  "distinct [TS_queued, TS_assigned, TS_running, TS_failed]"
  using task_lifecycle_paths [of "[TS_assigned, TS_running, TS_failed]" TS_failed]
  by (simp add: lifecycle_Cons)

end
