(* ===== verification/Control_Codec.thy ===== *)
theory Control_Codec
  imports Messages
begin

section \<open>libs/protocol: domain messages and protobuf messages (control_codec.cpp)\<close>

text \<open>
  The conversions between the domain messages and the messages of agent_control.proto, and the
  functions that put them on the wire and into blobs.  A proto3 enum field is an \<open>int\<close> (unknown
  numbers are legal on the wire), a sub-message field an \<open>option\<close>, whose getter returns the
  default message when absent, and a \<open>oneof\<close> a datatype with the case \<open>NotSet\<close>.  The protobuf
  runtime is not under src/: its serialisers and parsers are the fields of the record \<open>wire\<close>,
  and \<open>faithful\<close> states what protobuf documents, that parsing inverts serialising.
\<close>

subsection \<open>agent_control.proto\<close>

record proto_register_event =
  pre_agent_version :: string
  pre_hostname :: string
  pre_os :: string
  pre_arch :: string
  pre_registration_token :: string

record proto_heartbeat_event =
  phe_agent_version :: string

record proto_asset_snapshot_event =
  pas_hostname :: string
  pas_os :: string
  pas_os_version :: string
  pas_arch :: string
  pas_agent_version :: string
  pas_applications :: "string list"
  pas_services :: "string list"

record proto_task_running_event =
  ptr_task_id :: string
  ptr_task_type :: int

record proto_inventory_result =
  pir_hostname :: string
  pir_os :: string
  pir_arch :: string
  pir_agent_version :: string

record proto_update_input =
  pui_p_component :: string
  pui_p_package_id :: string
  pui_p_version :: string
  pui_p_platform :: string
  pui_p_arch :: string
  pui_p_build_type :: string
  pui_p_package_url :: string
  pui_p_package_sha256 :: string
  pui_p_manifest_sha256 :: string
  pui_p_min_installer_version :: string
  pui_p_allow_downgrade :: bool
  pui_p_force :: bool
  pui_p_action :: string

record proto_update_result =
  pup_component :: string
  pup_package_id :: string
  pup_version :: string
  pup_state :: string
  pup_error_code :: string
  pup_error_message :: string

record proto_error =
  per_code :: int
  per_message :: string
  per_retryable :: bool

record proto_task_result_event =
  pte_task_id :: string
  pte_task_type :: int
  pte_status :: int
  pte_collect_basic_inventory :: "proto_inventory_result option"
  pte_error :: "proto_error option"
  pte_package_update :: "proto_update_result option"

datatype proto_event_payload =
    PRegister proto_register_event
  | PHeartbeat proto_heartbeat_event
  | PAssetSnapshot proto_asset_snapshot_event
  | PTaskRunning proto_task_running_event
  | PTaskResult proto_task_result_event
  | PErrorEvent proto_error
  | PEventNotSet

record proto_agent_event =
  pe_protocol_version :: string
  pe_message_id :: string
  pe_correlation_id :: string
  pe_agent_id :: string
  pe_occurred_at :: string
  pe_payload :: proto_event_payload

record proto_task_assigned =
  pta_task_id :: string
  pta_task_type :: int
  pta_capability_level :: int
  pta_created_at :: string
  pta_expires_at :: string
  pta_collect_basic_inventory :: "unit option"
  pta_package_update :: "proto_update_input option"

record proto_cancel_task =
  pct_task_id :: string
  pct_reason :: string

record proto_config_update =
  pcu_heartbeat_interval_seconds :: u32
  pcu_reconnect_initial_delay_seconds :: u32
  pcu_reconnect_max_delay_seconds :: u32

record proto_package_update_command =
  ppc_component :: string
  ppc_version :: string
  ppc_package_url :: string
  ppc_manifest_sha256 :: string

datatype proto_command_payload =
    PTaskAssigned proto_task_assigned
  | PCancelTask proto_cancel_task
  | PConfigUpdate proto_config_update
  | PPackageUpdate proto_package_update_command
  | PServerError proto_error
  | PCommandNotSet

record proto_server_command =
  psc_protocol_version :: string
  psc_message_id :: string
  psc_correlation_id :: string
  psc_agent_id :: string
  psc_occurred_at :: string
  psc_payload :: proto_command_payload

text \<open>The default messages the getters of absent sub-messages return.\<close>

definition default_inventory_result :: proto_inventory_result where
  "default_inventory_result =
     \<lparr>pir_hostname = [], pir_os = [], pir_arch = [], pir_agent_version = []\<rparr>"

definition default_update_result :: proto_update_result where
  "default_update_result =
     \<lparr>pup_component = [], pup_package_id = [], pup_version = [], pup_state = [],
      pup_error_code = [], pup_error_message = []\<rparr>"

definition default_update_input :: proto_update_input where
  "default_update_input =
     \<lparr>pui_p_component = [], pui_p_package_id = [], pui_p_version = [], pui_p_platform = [],
      pui_p_arch = [], pui_p_build_type = [], pui_p_package_url = [], pui_p_package_sha256 = [],
      pui_p_manifest_sha256 = [], pui_p_min_installer_version = [], pui_p_allow_downgrade = False,
      pui_p_force = False, pui_p_action = []\<rparr>"

definition default_error :: proto_error where
  "default_error = \<lparr>per_code = 0, per_message = [], per_retryable = False\<rparr>"

definition getter :: "'a \<Rightarrow> 'a option \<Rightarrow> 'a" where
  "getter d m = (case m of None \<Rightarrow> d | Some x \<Rightarrow> x)"

lemma getter_simps [simp]: "getter d None = d" "getter d (Some x) = x"
  by (simp_all add: getter_def)

subsection \<open>Enum conversions\<close>

definition ToDomainTaskType :: "int \<Rightarrow> task_type option" where
  "ToDomainTaskType t =
     (if t = 1 then Some TT_collect_basic_inventory
      else if t = 2 then Some TT_package_update
      else None)"

fun ToProtoTaskType :: "task_type \<Rightarrow> int" where
  "ToProtoTaskType TT_collect_basic_inventory = 1"
| "ToProtoTaskType TT_package_update = 2"

definition ToDomainStatus :: "int \<Rightarrow> task_execution_status option" where
  "ToDomainStatus status =
     (if status = 1 then Some TE_succeeded
      else if status = 2 then Some TE_failed
      else if status = 3 then Some TE_expired
      else None)"

fun ToProtoStatus :: "task_execution_status \<Rightarrow> int" where
  "ToProtoStatus TE_succeeded = 1"
| "ToProtoStatus TE_failed = 2"
| "ToProtoStatus TE_expired = 3"

definition ToDomainCapabilityLevel :: "int \<Rightarrow> capability_level option" where
  "ToDomainCapabilityLevel level =
     (if level = 1 then Some CL_readonly
      else if level = 2 then Some CL_low_risk_write
      else if level = 3 then Some CL_high_risk_write
      else if level = 4 then Some CL_shell
      else None)"

fun ToProtoCapabilityLevel :: "capability_level \<Rightarrow> int" where
  "ToProtoCapabilityLevel CL_readonly = 1"
| "ToProtoCapabilityLevel CL_low_risk_write = 2"
| "ToProtoCapabilityLevel CL_high_risk_write = 3"
| "ToProtoCapabilityLevel CL_shell = 4"

definition ToDomainErrorCode :: "int \<Rightarrow> error_code option" where
  "ToDomainErrorCode code =
     (if code = 1 then Some E_unsupported_protocol_version
      else if code = 2 then Some E_agent_not_registered
      else if code = 3 then Some E_internal_error
      else if code = 4 then Some E_task_not_found
      else if code = 5 then Some E_task_already_finished
      else if code = 6 then Some E_task_expired
      else if code = 7 then Some E_unsupported_task_type
      else if code = 8 then Some E_capability_not_allowed
      else if code = 9 then Some E_package_not_found
      else if code = 10 then Some E_package_retired
      else if code = 11 then Some E_platform_arch_mismatch
      else if code = 12 then Some E_build_type_not_allowed
      else if code = 13 then Some E_installer_too_old
      else if code = 14 then Some E_download_failed
      else if code = 15 then Some E_checksum_mismatch
      else if code = 16 then Some E_apply_failed
      else if code = 17 then Some E_start_new_agent_failed
      else if code = 18 then Some E_waiting_reconnect_timeout
      else if code = 19 then Some E_agent_reported_unexpected_version
      else None)"

fun ToProtoErrorCode :: "error_code \<Rightarrow> int" where
  "ToProtoErrorCode E_unsupported_protocol_version = 1"
| "ToProtoErrorCode E_agent_not_registered = 2"
| "ToProtoErrorCode E_internal_error = 3"
| "ToProtoErrorCode E_task_not_found = 4"
| "ToProtoErrorCode E_task_already_finished = 5"
| "ToProtoErrorCode E_task_expired = 6"
| "ToProtoErrorCode E_unsupported_task_type = 7"
| "ToProtoErrorCode E_capability_not_allowed = 8"
| "ToProtoErrorCode E_package_not_found = 9"
| "ToProtoErrorCode E_package_retired = 10"
| "ToProtoErrorCode E_platform_arch_mismatch = 11"
| "ToProtoErrorCode E_build_type_not_allowed = 12"
| "ToProtoErrorCode E_installer_too_old = 13"
| "ToProtoErrorCode E_download_failed = 14"
| "ToProtoErrorCode E_checksum_mismatch = 15"
| "ToProtoErrorCode E_apply_failed = 16"
| "ToProtoErrorCode E_start_new_agent_failed = 17"
| "ToProtoErrorCode E_waiting_reconnect_timeout = 18"
| "ToProtoErrorCode E_agent_reported_unexpected_version = 19"
| "ToProtoErrorCode E_invalid_json = 3"
| "ToProtoErrorCode E_missing_required_field = 3"
| "ToProtoErrorCode E_invalid_field_type = 3"
| "ToProtoErrorCode E_agent_id_mismatch = 3"
| "ToProtoErrorCode E_task_agent_mismatch = 3"
| "ToProtoErrorCode E_task_execution_failed = 3"
| "ToProtoErrorCode E_task_result_invalid = 3"

lemma task_type_wire [simp]: "ToDomainTaskType (ToProtoTaskType t) = Some t"
  by (cases t) (simp_all add: ToDomainTaskType_def)

lemma status_wire [simp]: "ToDomainStatus (ToProtoStatus s) = Some s"
  by (cases s) (simp_all add: ToDomainStatus_def)

lemma capability_level_wire [simp]: "ToDomainCapabilityLevel (ToProtoCapabilityLevel c) = Some c"
  by (cases c) (simp_all add: ToDomainCapabilityLevel_def)

text \<open>The error codes without a wire number travel as \<open>internal_error\<close>.\<close>

definition wire_error_code :: "error_code \<Rightarrow> error_code" where
  "wire_error_code c =
     (if c \<in> {E_invalid_json, E_missing_required_field, E_invalid_field_type, E_agent_id_mismatch,
               E_task_agent_mismatch, E_task_execution_failed, E_task_result_invalid}
      then E_internal_error else c)"

lemma error_code_wire [simp]: "ToDomainErrorCode (ToProtoErrorCode c) = Some (wire_error_code c)"
  by (cases c) (simp_all add: ToDomainErrorCode_def wire_error_code_def)

lemma wire_error_code_idem [simp]: "wire_error_code (wire_error_code c) = wire_error_code c"
  by (simp add: wire_error_code_def)

subsection \<open>Message conversions\<close>

definition ToDomainPackageUpdateInput :: "proto_update_input \<Rightarrow> package_update_input" where
  "ToDomainPackageUpdateInput input =
     \<lparr>pui_action = (if pui_p_action input = [] then ''apply'' else pui_p_action input),
      pui_component = pui_p_component input,
      pui_package_id = pui_p_package_id input,
      pui_version = pui_p_version input,
      pui_platform = pui_p_platform input,
      pui_arch = pui_p_arch input,
      pui_build_type = pui_p_build_type input,
      pui_package_url = pui_p_package_url input,
      pui_package_sha256 = pui_p_package_sha256 input,
      pui_manifest_sha256 = pui_p_manifest_sha256 input,
      pui_min_installer_version = pui_p_min_installer_version input,
      pui_allow_downgrade = pui_p_allow_downgrade input,
      pui_force = pui_p_force input\<rparr>"

definition FillProtoPackageUpdateInput :: "package_update_input \<Rightarrow> proto_update_input" where
  "FillProtoPackageUpdateInput input =
     \<lparr>pui_p_component = pui_component input,
      pui_p_package_id = pui_package_id input,
      pui_p_version = pui_version input,
      pui_p_platform = pui_platform input,
      pui_p_arch = pui_arch input,
      pui_p_build_type = pui_build_type input,
      pui_p_package_url = pui_package_url input,
      pui_p_package_sha256 = pui_package_sha256 input,
      pui_p_manifest_sha256 = pui_manifest_sha256 input,
      pui_p_min_installer_version = pui_min_installer_version input,
      pui_p_allow_downgrade = pui_allow_downgrade input,
      pui_p_force = pui_force input,
      pui_p_action = pui_action input\<rparr>"

definition fill_inventory_result :: "collect_basic_inventory_result \<Rightarrow> proto_inventory_result" where
  "fill_inventory_result r =
     \<lparr>pir_hostname = inv_hostname r, pir_os = inv_os r, pir_arch = inv_arch r,
      pir_agent_version = inv_agent_version r\<rparr>"

definition fill_update_result :: "package_update_result \<Rightarrow> proto_update_result" where
  "fill_update_result r =
     \<lparr>pup_component = pur_component r, pup_package_id = pur_package_id r,
      pup_version = pur_version r, pup_state = pur_state r,
      pup_error_code = pur_error_code r, pup_error_message = pur_error_message r\<rparr>"

definition fill_task_error :: "task_error \<Rightarrow> proto_error" where
  "fill_task_error e =
     \<lparr>per_code = ToProtoErrorCode (te_error_code e), per_message = te_message e,
      per_retryable = te_retryable e\<rparr>"

fun proto_event_payload_of :: "agent_event \<Rightarrow> proto_event_payload" where
  "proto_event_payload_of (EvRegister p) = PRegister
     \<lparr>pre_agent_version = reg_agent_version p, pre_hostname = reg_hostname p,
      pre_os = reg_os p, pre_arch = reg_arch p,
      pre_registration_token =
        (case reg_registration_token p of Some t \<Rightarrow> t | None \<Rightarrow> [])\<rparr>"
| "proto_event_payload_of (EvHeartbeat p) = PHeartbeat \<lparr>phe_agent_version = hb_agent_version p\<rparr>"
| "proto_event_payload_of (EvAssetSnapshot p) = PAssetSnapshot
     \<lparr>pas_hostname = as_hostname p, pas_os = as_os p,
      pas_os_version = (case as_os_version p of Some v \<Rightarrow> v | None \<Rightarrow> []),
      pas_arch = as_arch p, pas_agent_version = as_agent_version p,
      pas_applications = as_applications p, pas_services = as_services p\<rparr>"
| "proto_event_payload_of (EvTaskRunning p) = PTaskRunning
     \<lparr>ptr_task_id = run_task_id p, ptr_task_type = ToProtoTaskType (run_task_type p)\<rparr>"
| "proto_event_payload_of (EvTaskResult p) = PTaskResult
     \<lparr>pte_task_id = res_task_id p, pte_task_type = ToProtoTaskType (res_task_type p),
      pte_status = ToProtoStatus (res_status p),
      pte_collect_basic_inventory =
        (case res_result p of
           Some (CollectBasicInventoryResult r) \<Rightarrow> Some (fill_inventory_result r)
         | _ \<Rightarrow> None),
      pte_error = map_option fill_task_error (res_error p),
      pte_package_update =
        (case res_result p of
           Some (PackageUpdateResult r) \<Rightarrow> Some (fill_update_result r)
         | _ \<Rightarrow> None)\<rparr>"

definition FillProtoAgentEvent :: "agent_event \<Rightarrow> proto_agent_event" where
  "FillProtoAgentEvent event =
     \<lparr>pe_protocol_version = AgentEventProtocolVersion event,
      pe_message_id = AgentEventRequestId event,
      pe_correlation_id = [],
      pe_agent_id = AgentEventAgentId event,
      pe_occurred_at = AgentEventOccurredAt event,
      pe_payload = proto_event_payload_of event\<rparr>"

definition domain_inventory_result :: "proto_inventory_result \<Rightarrow> collect_basic_inventory_result" where
  "domain_inventory_result r =
     \<lparr>inv_hostname = pir_hostname r, inv_os = pir_os r, inv_arch = pir_arch r,
      inv_agent_version = pir_agent_version r\<rparr>"

definition domain_update_result :: "proto_update_result \<Rightarrow> package_update_result" where
  "domain_update_result r =
     \<lparr>pur_component = pup_component r, pur_package_id = pup_package_id r,
      pur_version = pup_version r, pur_state = pup_state r,
      pur_error_code = pup_error_code r, pur_error_message = pup_error_message r\<rparr>"

definition nonempty :: "string \<Rightarrow> string option" where
  "nonempty s = (if s = [] then None else Some s)"

definition ToDomainTaskResult ::
    "proto_agent_event \<Rightarrow> proto_task_result_event \<Rightarrow> task_result result" where
  "ToDomainTaskResult message payload =
     bind_res (option_res (Runtime_error ''unsupported task type'')
                 (ToDomainTaskType (pte_task_type payload))) (\<lambda>task_type.
     bind_res (option_res (Runtime_error ''unsupported task result status'')
                 (ToDomainStatus (pte_status payload))) (\<lambda>status.
     let result = \<lparr>res_protocol_version = pe_protocol_version message,
                   res_request_id = pe_message_id message,
                   res_task_id = pte_task_id payload,
                   res_agent_id = pe_agent_id message,
                   res_task_type = task_type,
                   res_occurred_at = pe_occurred_at message,
                   res_status = status,
                   res_result = None,
                   res_error = None\<rparr> in
     if status = TE_succeeded then
       (if task_type = TT_collect_basic_inventory
        then Inr (result\<lparr>res_result := Some (CollectBasicInventoryResult (domain_inventory_result
               (getter default_inventory_result (pte_collect_basic_inventory payload))))\<rparr>)
        else Inr (result\<lparr>res_result := Some (PackageUpdateResult (domain_update_result
               (getter default_update_result (pte_package_update payload))))\<rparr>))
     else
       let error = getter default_error (pte_error payload) in
       bind_res (option_res (Runtime_error ''task error code must be set'')
                   (ToDomainErrorCode (per_code error))) (\<lambda>error_code.
       Inr (result\<lparr>res_error := Some \<lparr>te_error_code = error_code, te_message = per_message error,
                                        te_retryable = per_retryable error\<rparr>\<rparr>))))"

definition ToDomainAgentEvent :: "proto_agent_event \<Rightarrow> agent_event result" where
  "ToDomainAgentEvent message =
     (case pe_payload message of
        PRegister payload \<Rightarrow> Inr (EvRegister
          \<lparr>reg_protocol_version = pe_protocol_version message,
           reg_request_id = pe_message_id message,
           reg_agent_id = pe_agent_id message,
           reg_occurred_at = pe_occurred_at message,
           reg_agent_version = pre_agent_version payload,
           reg_hostname = pre_hostname payload,
           reg_os = pre_os payload,
           reg_arch = pre_arch payload,
           reg_registration_token = nonempty (pre_registration_token payload)\<rparr>)
      | PHeartbeat payload \<Rightarrow> Inr (EvHeartbeat
          \<lparr>hb_protocol_version = pe_protocol_version message,
           hb_request_id = pe_message_id message,
           hb_agent_id = pe_agent_id message,
           hb_occurred_at = pe_occurred_at message,
           hb_agent_version = phe_agent_version payload\<rparr>)
      | PAssetSnapshot payload \<Rightarrow> Inr (EvAssetSnapshot
          \<lparr>as_protocol_version = pe_protocol_version message,
           as_request_id = pe_message_id message,
           as_agent_id = pe_agent_id message,
           as_occurred_at = pe_occurred_at message,
           as_hostname = pas_hostname payload,
           as_os = pas_os payload,
           as_os_version = nonempty (pas_os_version payload),
           as_arch = pas_arch payload,
           as_agent_version = pas_agent_version payload,
           as_applications = pas_applications payload,
           as_services = pas_services payload\<rparr>)
      | PTaskRunning payload \<Rightarrow>
          bind_res (option_res (Runtime_error ''unsupported task type'')
                      (ToDomainTaskType (ptr_task_type payload))) (\<lambda>task_type.
          Inr (EvTaskRunning
          \<lparr>run_protocol_version = pe_protocol_version message,
           run_request_id = pe_message_id message,
           run_task_id = ptr_task_id payload,
           run_agent_id = pe_agent_id message,
           run_task_type = task_type,
           run_occurred_at = pe_occurred_at message\<rparr>))
      | PTaskResult payload \<Rightarrow>
          bind_res (ToDomainTaskResult message payload) (\<lambda>result. Inr (EvTaskResult result))
      | PErrorEvent _ \<Rightarrow> Inl (Runtime_error ''unsupported agent event payload'')
      | PEventNotSet \<Rightarrow> Inl (Runtime_error ''unsupported agent event payload''))"

definition ToDomainTask :: "proto_server_command \<Rightarrow> proto_task_assigned \<Rightarrow> task result" where
  "ToDomainTask command payload =
     bind_res (option_res (Runtime_error ''unsupported task type'')
                 (ToDomainTaskType (pta_task_type payload))) (\<lambda>task_type.
     bind_res (option_res (Runtime_error ''unsupported capability level'')
                 (ToDomainCapabilityLevel (pta_capability_level payload))) (\<lambda>capability_level.
     Inr \<lparr>task_protocol_version = psc_protocol_version command,
          task_task_id = pta_task_id payload,
          task_agent_id = psc_agent_id command,
          task_task_type = task_type,
          task_capability_level = capability_level,
          task_created_at = pta_created_at payload,
          task_expires_at = pta_expires_at payload,
          task_input_data = (case task_type of
              TT_collect_basic_inventory \<Rightarrow> CollectBasicInventoryInput
            | TT_package_update \<Rightarrow> PackageUpdateInput (ToDomainPackageUpdateInput
                (getter default_update_input (pta_package_update payload))))\<rparr>))"

definition ToDomainServerCommand :: "proto_server_command \<Rightarrow> server_command result" where
  "ToDomainServerCommand message =
     (let command = (\<lambda>payload.
            \<lparr>sc_protocol_version = psc_protocol_version message,
             sc_message_id = psc_message_id message,
             sc_correlation_id = psc_correlation_id message,
             sc_agent_id = psc_agent_id message,
             sc_occurred_at = psc_occurred_at message,
             sc_payload = payload\<rparr>) in
      case psc_payload message of
        PTaskAssigned payload \<Rightarrow>
          bind_res (ToDomainTask message payload) (\<lambda>task. Inr (command (CmdTask task)))
      | PServerError payload \<Rightarrow>
          bind_res (option_res (Runtime_error ''server error code must be set'')
                      (ToDomainErrorCode (per_code payload))) (\<lambda>error_code.
          Inr (command (CmdError
            \<lparr>se_error_code = error_code, se_message = per_message payload,
             se_retryable = per_retryable payload\<rparr>)))
      | _ \<Rightarrow> Inl (Runtime_error ''unsupported server command payload''))"

definition ToProtoServerCommand :: "server_command \<Rightarrow> proto_server_command" where
  "ToProtoServerCommand command =
     \<lparr>psc_protocol_version = sc_protocol_version command,
      psc_message_id = sc_message_id command,
      psc_correlation_id = sc_correlation_id command,
      psc_agent_id = sc_agent_id command,
      psc_occurred_at = sc_occurred_at command,
      psc_payload = (case sc_payload command of
          CmdTask task \<Rightarrow> PTaskAssigned
            \<lparr>pta_task_id = task_task_id task,
             pta_task_type = ToProtoTaskType (task_task_type task),
             pta_capability_level = ToProtoCapabilityLevel (task_capability_level task),
             pta_created_at = task_created_at task,
             pta_expires_at = task_expires_at task,
             pta_collect_basic_inventory =
               (case task_input_data task of CollectBasicInventoryInput \<Rightarrow> Some () | _ \<Rightarrow> None),
             pta_package_update =
               (case task_input_data task of
                  PackageUpdateInput input \<Rightarrow> Some (FillProtoPackageUpdateInput input)
                | _ \<Rightarrow> None)\<rparr>
        | CmdError error \<Rightarrow> PServerError
            \<lparr>per_code = ToProtoErrorCode (se_error_code error),
             per_message = se_message error,
             per_retryable = se_retryable error\<rparr>)\<rparr>"

subsection \<open>The wire\<close>

record wire =
  w_ser_agent_event :: "proto_agent_event \<Rightarrow> string option"
  w_parse_agent_event :: "string \<Rightarrow> proto_agent_event option"
  w_ser_server_command :: "proto_server_command \<Rightarrow> string option"
  w_parse_server_command :: "string \<Rightarrow> proto_server_command option"
  w_ser_inventory_input :: "unit \<Rightarrow> string option"
  w_parse_inventory_input :: "string \<Rightarrow> unit option"
  w_ser_update_input :: "proto_update_input \<Rightarrow> string option"
  w_parse_update_input :: "string \<Rightarrow> proto_update_input option"
  w_ser_inventory_result :: "proto_inventory_result \<Rightarrow> string option"
  w_ser_update_result :: "proto_update_result \<Rightarrow> string option"
  w_ser_error :: "proto_error \<Rightarrow> string option"

definition faithful :: "('m \<Rightarrow> string option) \<Rightarrow> (string \<Rightarrow> 'm option) \<Rightarrow> bool" where
  "faithful ser parse \<longleftrightarrow> (\<forall>m bytes. ser m = Some bytes \<longrightarrow> parse bytes = Some m)"

definition SerializeProto :: "('m \<Rightarrow> string option) \<Rightarrow> 'm \<Rightarrow> string result" where
  "SerializeProto ser message =
     option_res (Runtime_error ''failed to serialize protobuf message'') (ser message)"

definition SerializeAgentEventBlob :: "wire \<Rightarrow> agent_event \<Rightarrow> string result" where
  "SerializeAgentEventBlob w event =
     SerializeProto (w_ser_agent_event w) (FillProtoAgentEvent event)"

definition EncodeAgentEventPayload :: "wire \<Rightarrow> agent_event \<Rightarrow> u8 list result" where
  "EncodeAgentEventPayload w event =
     bind_res (SerializeAgentEventBlob w event) (\<lambda>bytes. Inr (bytes_of_string bytes))"

definition DecodeAgentEventPayload :: "wire \<Rightarrow> u8 list \<Rightarrow> agent_event result" where
  "DecodeAgentEventPayload w bytes =
     bind_res (option_res (Runtime_error ''invalid protobuf agent event'')
                 (w_parse_agent_event w (string_of_bytes bytes))) ToDomainAgentEvent"

definition EncodeServerCommandPayload :: "wire \<Rightarrow> server_command \<Rightarrow> u8 list result" where
  "EncodeServerCommandPayload w command =
     bind_res (SerializeProto (w_ser_server_command w) (ToProtoServerCommand command))
       (\<lambda>bytes. Inr (bytes_of_string bytes))"

definition DecodeServerCommandPayload :: "wire \<Rightarrow> u8 list \<Rightarrow> server_command result" where
  "DecodeServerCommandPayload w bytes =
     bind_res (option_res (Runtime_error ''failed to parse server command'')
                 (w_parse_server_command w (string_of_bytes bytes))) ToDomainServerCommand"

definition SerializeTaskInputBlob :: "wire \<Rightarrow> task_type \<Rightarrow> task_input \<Rightarrow> string result" where
  "SerializeTaskInputBlob w task_type input =
     (if \<not> TaskInputMatchesType task_type input
      then Inl (Runtime_error ''task input type mismatch'')
      else case input of
        CollectBasicInventoryInput \<Rightarrow> SerializeProto (w_ser_inventory_input w) ()
      | PackageUpdateInput i \<Rightarrow>
          SerializeProto (w_ser_update_input w) (FillProtoPackageUpdateInput i))"

definition ParseTaskInputBlob :: "wire \<Rightarrow> task_type \<Rightarrow> string \<Rightarrow> task_input result" where
  "ParseTaskInputBlob w task_type input_blob =
     (case task_type of
        TT_collect_basic_inventory \<Rightarrow>
          bind_res (option_res (Runtime_error ''failed to parse stored task input'')
                      (w_parse_inventory_input w input_blob)) (\<lambda>_. Inr CollectBasicInventoryInput)
      | TT_package_update \<Rightarrow>
          bind_res (option_res (Runtime_error ''failed to parse stored package update input'')
                      (w_parse_update_input w input_blob))
            (\<lambda>message. Inr (PackageUpdateInput (ToDomainPackageUpdateInput message))))"

definition SerializeTaskResultDataBlob :: "wire \<Rightarrow> task_result_data \<Rightarrow> string result" where
  "SerializeTaskResultDataBlob w result =
     (case result of
        CollectBasicInventoryResult r \<Rightarrow>
          SerializeProto (w_ser_inventory_result w) (fill_inventory_result r)
      | PackageUpdateResult r \<Rightarrow>
          SerializeProto (w_ser_update_result w) (fill_update_result r))"

definition SerializeTaskErrorBlob :: "wire \<Rightarrow> task_error \<Rightarrow> string result" where
  "SerializeTaskErrorBlob w error = SerializeProto (w_ser_error w) (fill_task_error error)"

subsection \<open>What survives a trip over the wire\<close>

text \<open>
  The values a message arrives with.  An empty optional string arrives absent; a successful task
  result carries the result of its task type (the empty one when the sender had none) and no
  error; any other result carries only its error, which must be set, its code reduced to those
  that have a wire number; an empty update action arrives as \<open>apply\<close>.
\<close>

definition norm_text :: "string option \<Rightarrow> string option" where
  "norm_text s = (if s = Some [] then None else s)"

definition empty_inventory :: collect_basic_inventory_result where
  "empty_inventory = \<lparr>inv_hostname = [], inv_os = [], inv_arch = [], inv_agent_version = []\<rparr>"

definition empty_update :: package_update_result where
  "empty_update = \<lparr>pur_component = [], pur_package_id = [], pur_version = [], pur_state = [],
     pur_error_code = [], pur_error_message = []\<rparr>"

definition norm_result_data :: "task_type \<Rightarrow> task_result_data option \<Rightarrow> task_result_data" where
  "norm_result_data t d =
     (case (t, d) of
        (TT_collect_basic_inventory, Some (CollectBasicInventoryResult r)) \<Rightarrow>
          CollectBasicInventoryResult r
      | (TT_collect_basic_inventory, _) \<Rightarrow> CollectBasicInventoryResult empty_inventory
      | (TT_package_update, Some (PackageUpdateResult r)) \<Rightarrow> PackageUpdateResult r
      | (TT_package_update, _) \<Rightarrow> PackageUpdateResult empty_update)"

definition norm_task_result :: "task_result \<Rightarrow> task_result result" where
  "norm_task_result r =
     (if res_status r = TE_succeeded
      then Inr (r\<lparr>res_result := Some (norm_result_data (res_task_type r) (res_result r)),
                  res_error := None\<rparr>)
      else case res_error r of
        None \<Rightarrow> Inl (Runtime_error ''task error code must be set'')
      | Some e \<Rightarrow> Inr (r\<lparr>res_result := None,
                          res_error := Some (e\<lparr>te_error_code := wire_error_code (te_error_code e)\<rparr>)\<rparr>))"

fun norm_event :: "agent_event \<Rightarrow> agent_event result" where
  "norm_event (EvRegister p) =
     Inr (EvRegister (p\<lparr>reg_registration_token := norm_text (reg_registration_token p)\<rparr>))"
| "norm_event (EvHeartbeat p) = Inr (EvHeartbeat p)"
| "norm_event (EvAssetSnapshot p) =
     Inr (EvAssetSnapshot (p\<lparr>as_os_version := norm_text (as_os_version p)\<rparr>))"
| "norm_event (EvTaskRunning p) = Inr (EvTaskRunning p)"
| "norm_event (EvTaskResult p) = bind_res (norm_task_result p) (\<lambda>r. Inr (EvTaskResult r))"

definition norm_update_input :: "package_update_input \<Rightarrow> package_update_input" where
  "norm_update_input i = (if pui_action i = [] then i\<lparr>pui_action := ''apply''\<rparr> else i)"

definition empty_update_input :: package_update_input where
  "empty_update_input =
     \<lparr>pui_action = ''apply'', pui_component = [], pui_package_id = [], pui_version = [],
      pui_platform = [], pui_arch = [], pui_build_type = [], pui_package_url = [],
      pui_package_sha256 = [], pui_manifest_sha256 = [], pui_min_installer_version = [],
      pui_allow_downgrade = False, pui_force = False\<rparr>"

definition norm_input :: "task_type \<Rightarrow> task_input \<Rightarrow> task_input" where
  "norm_input t i =
     (case (t, i) of
        (TT_collect_basic_inventory, _) \<Rightarrow> CollectBasicInventoryInput
      | (TT_package_update, PackageUpdateInput u) \<Rightarrow> PackageUpdateInput (norm_update_input u)
      | (TT_package_update, CollectBasicInventoryInput) \<Rightarrow> PackageUpdateInput empty_update_input)"

text \<open>A task frame carries the envelope's protocol version and agent id, not the task's own.\<close>

definition norm_command :: "server_command \<Rightarrow> server_command" where
  "norm_command c =
     c\<lparr>sc_payload := (case sc_payload c of
         CmdTask t \<Rightarrow> CmdTask (t\<lparr>task_protocol_version := sc_protocol_version c,
                                 task_agent_id := sc_agent_id c,
                                 task_input_data := norm_input (task_task_type t) (task_input_data t)\<rparr>)
       | CmdError e \<Rightarrow> CmdError (e\<lparr>se_error_code := wire_error_code (se_error_code e)\<rparr>))\<rparr>"

lemma nonempty_norm_text [simp]:
  "nonempty (case t of Some s \<Rightarrow> s | None \<Rightarrow> []) = norm_text t"
  by (cases t) (auto simp: nonempty_def norm_text_def)

lemma norm_text_idem [simp]: "norm_text (norm_text t) = norm_text t"
  by (simp add: norm_text_def)

lemma domain_fill_inventory [simp]: "domain_inventory_result (fill_inventory_result r) = r"
  by (simp add: domain_inventory_result_def fill_inventory_result_def)

lemma domain_fill_update [simp]: "domain_update_result (fill_update_result r) = r"
  by (simp add: domain_update_result_def fill_update_result_def)

lemma domain_default [simp]:
  "domain_inventory_result default_inventory_result = empty_inventory"
  "domain_update_result default_update_result = empty_update"
  "ToDomainPackageUpdateInput default_update_input = empty_update_input"
  by (simp_all add: domain_inventory_result_def default_inventory_result_def empty_inventory_def
      domain_update_result_def default_update_result_def empty_update_def
      ToDomainPackageUpdateInput_def default_update_input_def empty_update_input_def)

lemma domain_fill_input [simp]:
  "ToDomainPackageUpdateInput (FillProtoPackageUpdateInput i) = norm_update_input i"
  by (simp add: ToDomainPackageUpdateInput_def FillProtoPackageUpdateInput_def norm_update_input_def)

lemma norm_result_data_idem [simp]:
  "norm_result_data t (Some (norm_result_data t d)) = norm_result_data t d"
  by (simp add: norm_result_data_def split: task_type.split option.split task_result_data.split)

lemma norm_input_idem [simp]: "norm_input t (norm_input t i) = norm_input t i"
  by (simp add: norm_input_def norm_update_input_def empty_update_input_def
      split: task_type.split task_input.split)

lemma ToDomain_FillProto_task_result:
  "ToDomainTaskResult (FillProtoAgentEvent (EvTaskResult r))
     \<lparr>pte_task_id = res_task_id r, pte_task_type = ToProtoTaskType (res_task_type r),
      pte_status = ToProtoStatus (res_status r),
      pte_collect_basic_inventory =
        (case res_result r of
           Some (CollectBasicInventoryResult x) \<Rightarrow> Some (fill_inventory_result x)
         | _ \<Rightarrow> None),
      pte_error = map_option fill_task_error (res_error r),
      pte_package_update =
        (case res_result r of
           Some (PackageUpdateResult x) \<Rightarrow> Some (fill_update_result x)
         | _ \<Rightarrow> None)\<rparr> = norm_task_result r"
proof (cases "res_status r = TE_succeeded")
  case True
  then show ?thesis
    by (cases r; cases "res_task_type r")
      (auto simp: ToDomainTaskResult_def FillProtoAgentEvent_def norm_task_result_def
        norm_result_data_def ToDomainTaskType_def ToDomainStatus_def
        split: option.splits task_result_data.splits)
next
  case False
  then show ?thesis
    by (cases r; cases "res_error r")
      (auto simp: ToDomainTaskResult_def FillProtoAgentEvent_def norm_task_result_def
        fill_task_error_def default_error_def ToDomainErrorCode_def [of 0])
qed

lemma ToDomain_FillProto_event: "ToDomainAgentEvent (FillProtoAgentEvent e) = norm_event e"
proof (cases e)
  case (EvTaskResult r)
  then show ?thesis
    using ToDomain_FillProto_task_result [of r]
    by (simp add: ToDomainAgentEvent_def) (simp add: FillProtoAgentEvent_def)
qed (simp_all add: ToDomainAgentEvent_def FillProtoAgentEvent_def)

lemma norm_event_idem: "norm_event e = Inr e' \<Longrightarrow> norm_event e' = Inr e'"
  by (cases e) (auto simp: norm_task_result_def bind_res_Inr_iff split: if_splits option.splits)

lemma ToDomain_ToProto_command:
  "ToDomainServerCommand (ToProtoServerCommand c) = Inr (norm_command c)"
proof (cases "sc_payload c")
  case (CmdTask t)
  have "ToDomainTask (ToProtoServerCommand c)
      \<lparr>pta_task_id = task_task_id t,
       pta_task_type = ToProtoTaskType (task_task_type t),
       pta_capability_level = ToProtoCapabilityLevel (task_capability_level t),
       pta_created_at = task_created_at t, pta_expires_at = task_expires_at t,
       pta_collect_basic_inventory =
         (case task_input_data t of CollectBasicInventoryInput \<Rightarrow> Some () | _ \<Rightarrow> None),
       pta_package_update =
         (case task_input_data t of
            PackageUpdateInput input \<Rightarrow> Some (FillProtoPackageUpdateInput input)
          | _ \<Rightarrow> None)\<rparr> =
      Inr (t\<lparr>task_protocol_version := sc_protocol_version c, task_agent_id := sc_agent_id c,
             task_input_data := norm_input (task_task_type t) (task_input_data t)\<rparr>)"
    by (cases t)
      (auto simp: ToDomainTask_def ToProtoServerCommand_def norm_input_def ToDomainTaskType_def
        split: task_type.splits task_input.splits)
  then show ?thesis
    using CmdTask
    by (cases c) (simp add: ToDomainServerCommand_def ToProtoServerCommand_def norm_command_def)
next
  case (CmdError e)
  then show ?thesis
    by (cases c; cases e)
      (simp add: ToDomainServerCommand_def ToProtoServerCommand_def norm_command_def)
qed

lemma norm_command_idem: "norm_command (norm_command c) = norm_command c"
  by (cases c) (simp add: norm_command_def split: server_command_payload.split)

subsection \<open>The interface of a message codec\<close>

text \<open>
  Sender and receiver agree on one thing only: translating a message to protobuf and back is
  \<open>norm\<close>, and what has been normalised once is left alone.  Any faithful serialiser then makes
  the byte-level functions agree, and a decoded message can be forwarded without further change.
\<close>

locale message_codec =
  fixes to_proto :: "'m \<Rightarrow> 'p"
    and to_domain :: "'p \<Rightarrow> 'm result"
    and norm :: "'m \<Rightarrow> 'm result"
  assumes to_domain_to_proto: "to_domain (to_proto m) = norm m"
    and norm_norm: "norm m = Inr m' \<Longrightarrow> norm m' = Inr m'"
begin

lemma decode_encode:
  assumes "faithful ser parse"
    and "bind_res (SerializeProto ser (to_proto m)) (\<lambda>b. Inr (bytes_of_string b)) = Inr bytes"
  shows "bind_res (option_res err (parse (string_of_bytes bytes))) to_domain = norm m"
  using assms
  by (auto simp: bind_res_Inr_iff SerializeProto_def faithful_def to_domain_to_proto)

lemma decode_encode_again:
  assumes "faithful ser parse" and "norm m = Inr m'"
    and "bind_res (SerializeProto ser (to_proto m')) (\<lambda>b. Inr (bytes_of_string b)) = Inr bytes"
  shows "bind_res (option_res err (parse (string_of_bytes bytes))) to_domain = Inr m'"
  using decode_encode [OF assms(1,3)] norm_norm [OF assms(2)] by simp

end

interpretation event_codec: message_codec FillProtoAgentEvent ToDomainAgentEvent norm_event
  by unfold_locales (auto simp: ToDomain_FillProto_event norm_event_idem)

interpretation command_codec: message_codec ToProtoServerCommand ToDomainServerCommand
    "\<lambda>c. Inr (norm_command c)"
  by unfold_locales (auto simp: ToDomain_ToProto_command norm_command_idem)

interpretation update_input_codec: message_codec FillProtoPackageUpdateInput
    "\<lambda>p. Inr (ToDomainPackageUpdateInput p)" "\<lambda>i. Inr (norm_update_input i)"
  by unfold_locales (auto simp: norm_update_input_def)

lemma ParseTaskInputBlob_Serialize:
  assumes "faithful (w_ser_inventory_input w) (w_parse_inventory_input w)"
    and "faithful (w_ser_update_input w) (w_parse_update_input w)"
    and "SerializeTaskInputBlob w t i = Inr blob"
  shows "ParseTaskInputBlob w t blob = Inr (norm_input t i)"
  using assms
  by (cases t; cases i)
    (auto simp: SerializeTaskInputBlob_def ParseTaskInputBlob_def SerializeProto_def faithful_def
      norm_input_def split: if_splits)

subsection \<open>Properties\<close>

text \<open>
  C29: The control codec on agent events, completely.  Whatever event the agent encodes, the server
  decodes its normal form: the same event up to empty optional strings, result data of the task's
  own type, and error codes that have a wire number; and decoding fails only for an unsuccessful
  task result without an error.
\<close>

theorem agent_event_over_the_wire:
  assumes "faithful (w_ser_agent_event w) (w_parse_agent_event w)"
    and "EncodeAgentEventPayload w e = Inr bytes"
  shows "DecodeAgentEventPayload w bytes = norm_event e \<and>
         (norm_event e = Inl x \<longleftrightarrow>
            x = Runtime_error ''task error code must be set'' \<and>
            (\<exists>r. e = EvTaskResult r \<and> res_status r \<noteq> TE_succeeded \<and> res_error r = None))"
proof
  show "DecodeAgentEventPayload w bytes = norm_event e"
    using assms unfolding DecodeAgentEventPayload_def EncodeAgentEventPayload_def
      SerializeAgentEventBlob_def by (rule event_codec.decode_encode)
  show "norm_event e = Inl x \<longleftrightarrow>
      x = Runtime_error ''task error code must be set'' \<and>
      (\<exists>r. e = EvTaskResult r \<and> res_status r \<noteq> TE_succeeded \<and> res_error r = None)"
    by (cases e) (auto simp: norm_task_result_def split: option.splits)
qed

definition demo_heartbeat :: agent_event where
  "demo_heartbeat = EvHeartbeat
     \<lparr>hb_protocol_version = ''v1'', hb_request_id = ''r'', hb_agent_id = ''a'',
      hb_occurred_at = ''t'', hb_agent_version = ''0.1.0''\<rparr>"

definition demo_command :: server_command where
  "demo_command =
     \<lparr>sc_protocol_version = ''v1'', sc_message_id = ''m'', sc_correlation_id = [],
      sc_agent_id = ''a'', sc_occurred_at = ''t'',
      sc_payload = CmdError \<lparr>se_error_code = E_task_result_invalid, se_message = ''bad'',
                             se_retryable = False\<rparr>\<rparr>"

definition demo_wire :: wire where
  "demo_wire =
     (let e = FillProtoAgentEvent demo_heartbeat; c = ToProtoServerCommand demo_command in
      \<lparr>w_ser_agent_event = (\<lambda>m. if m = e then Some ''E'' else None),
       w_parse_agent_event = (\<lambda>s. if s = ''E'' then Some e else None),
       w_ser_server_command = (\<lambda>m. if m = c then Some ''C'' else None),
       w_parse_server_command = (\<lambda>s. if s = ''C'' then Some c else None),
       w_ser_inventory_input = (\<lambda>_. Some []),
       w_parse_inventory_input = (\<lambda>s. if s = [] then Some () else None),
       w_ser_update_input = (\<lambda>i. if i = default_update_input then Some [] else None),
       w_parse_update_input = (\<lambda>s. if s = [] then Some default_update_input else None),
       w_ser_inventory_result = (\<lambda>_. Some ''I''),
       w_ser_update_result = (\<lambda>_. Some ''U''),
       w_ser_error = (\<lambda>_. Some ''X'')\<rparr>)"

lemma demo_wire_faithful:
  "faithful (w_ser_agent_event demo_wire) (w_parse_agent_event demo_wire)"
  "faithful (w_ser_server_command demo_wire) (w_parse_server_command demo_wire)"
  "faithful (w_ser_inventory_input demo_wire) (w_parse_inventory_input demo_wire)"
  "faithful (w_ser_update_input demo_wire) (w_parse_update_input demo_wire)"
  by (simp_all add: faithful_def demo_wire_def Let_def)

theorem agent_event_over_the_wire_witness:
  "DecodeAgentEventPayload demo_wire
     (bytes_of_string ''E'') = Inr demo_heartbeat"
proof -
  have "EncodeAgentEventPayload demo_wire demo_heartbeat =
      Inr (bytes_of_string ''E'')"
    by (simp add: EncodeAgentEventPayload_def SerializeAgentEventBlob_def SerializeProto_def
        demo_wire_def Let_def)
  from agent_event_over_the_wire [OF demo_wire_faithful(1) this]
  show ?thesis
    by (simp add: demo_heartbeat_def)
qed

text \<open>
  C30: The control codec on server commands, completely.  Every command decodes; a task command
  arrives as the same task with the envelope's protocol version and agent id and the input of its
  type, an error command with a wire error code.
\<close>

theorem server_command_over_the_wire:
  assumes "faithful (w_ser_server_command w) (w_parse_server_command w)"
    and "EncodeServerCommandPayload w c = Inr bytes"
  shows "DecodeServerCommandPayload w bytes = Inr (norm_command c)"
  using assms unfolding DecodeServerCommandPayload_def EncodeServerCommandPayload_def
  by (rule command_codec.decode_encode)

theorem server_command_over_the_wire_witness:
  "DecodeServerCommandPayload demo_wire
     (bytes_of_string ''C'') =
   Inr (demo_command\<lparr>sc_payload := CmdError \<lparr>se_error_code = E_internal_error,
     se_message = ''bad'', se_retryable = False\<rparr>\<rparr>)"
proof -
  have "EncodeServerCommandPayload demo_wire demo_command =
      Inr (bytes_of_string ''C'')"
    by (simp add: EncodeServerCommandPayload_def SerializeProto_def demo_wire_def Let_def)
  from server_command_over_the_wire [OF demo_wire_faithful(2) this]
  show ?thesis
    by (simp add: norm_command_def demo_command_def wire_error_code_def)
qed

text \<open>
  Stored task inputs.  A task input that the server serialises for its database parses back
  to itself, an update with an empty action to an \<open>apply\<close>; an input of another type than the
  task's is refused before anything is stored.
\<close>

theorem task_input_blob_roundtrip:
  assumes "faithful (w_ser_inventory_input w) (w_parse_inventory_input w)"
    and "faithful (w_ser_update_input w) (w_parse_update_input w)"
  shows "(TaskInputMatchesType t i \<longrightarrow> SerializeTaskInputBlob w t i = Inr blob \<longrightarrow>
            ParseTaskInputBlob w t blob = Inr (norm_input t i)) \<and>
         (\<not> TaskInputMatchesType t i \<longrightarrow>
            SerializeTaskInputBlob w t i = Inl (Runtime_error ''task input type mismatch''))"
  using assms by (auto intro: ParseTaskInputBlob_Serialize simp: SerializeTaskInputBlob_def)

theorem task_input_blob_roundtrip_witness:
  "ParseTaskInputBlob demo_wire TT_collect_basic_inventory [] = Inr CollectBasicInventoryInput \<and>
   SerializeTaskInputBlob demo_wire TT_package_update CollectBasicInventoryInput =
     Inl (Runtime_error ''task input type mismatch'')"
proof
  note laws = demo_wire_faithful(3,4)
  have "SerializeTaskInputBlob demo_wire TT_collect_basic_inventory CollectBasicInventoryInput = Inr []"
    by (simp add: SerializeTaskInputBlob_def SerializeProto_def demo_wire_def Let_def)
  with task_input_blob_roundtrip [OF laws, of TT_collect_basic_inventory CollectBasicInventoryInput "[]"]
  show "ParseTaskInputBlob demo_wire TT_collect_basic_inventory [] = Inr CollectBasicInventoryInput"
    by (simp add: norm_input_def)
  from task_input_blob_roundtrip [OF laws, of TT_package_update CollectBasicInventoryInput]
  show "SerializeTaskInputBlob demo_wire TT_package_update CollectBasicInventoryInput =
      Inl (Runtime_error ''task input type mismatch'')"
    by simp
qed

end
