(* ===== verification/Connection_Registry.thy ===== *)
theory Connection_Registry
  imports Prelude "HOL-Library.AList"
begin

section \<open>apps/server: which connection speaks for which agent (control_connection_registry.cpp)\<close>

text \<open>
  The two \<open>std::map\<close>s of \<open>ControlConnectionRegistry\<close> are association lists with distinct
  keys.  Every method takes the mutex for its whole body, so a method is one atomic step and
  interleavings are sequences of steps (\<open>registry_reachable\<close>).
\<close>

record control_connection =
  cc_connection_id :: string
  cc_agent_id :: "string option"
  cc_connected_at :: string
  cc_disconnected_at :: "string option"
  cc_last_heartbeat_at :: "string option"

record closed_connection =
  closed_connection_id :: string
  closed_agent_id :: "string option"
  closed_disconnected_at :: string
  was_current_agent_connection :: bool

record registry =
  connections_by_id :: "(string \<times> control_connection) list"
  connection_by_agent_id :: "(string \<times> string) list"

definition empty_registry :: registry where
  "empty_registry = \<lparr>connections_by_id = [], connection_by_agent_id = []\<rparr>"

definition fresh_connection :: "string \<Rightarrow> string \<Rightarrow> control_connection" where
  "fresh_connection connection_id connected_at =
     \<lparr>cc_connection_id = connection_id, cc_agent_id = None, cc_connected_at = connected_at,
      cc_disconnected_at = None, cc_last_heartbeat_at = None\<rparr>"

subsection \<open>The methods\<close>

definition OpenConnection :: "string \<Rightarrow> string \<Rightarrow> registry \<Rightarrow> registry result" where
  "OpenConnection connection_id connected_at r =
     (if connection_id = [] then Inl (Invalid_argument ''connection_id must not be empty'')
      else if connected_at = [] then Inl (Invalid_argument ''connected_at must not be empty'')
      else Inr (r\<lparr>connections_by_id :=
             AList.update connection_id (fresh_connection connection_id connected_at)
               (connections_by_id r)\<rparr>))"

definition CloseConnection ::
    "string \<Rightarrow> string \<Rightarrow> registry \<Rightarrow> closed_connection option \<times> registry" where
  "CloseConnection connection_id disconnected_at r =
     (case map_of (connections_by_id r) connection_id of
        None \<Rightarrow> (None, r)
      | Some connection \<Rightarrow>
          let current = (case cc_agent_id connection of
                  None \<Rightarrow> False
                | Some a \<Rightarrow>
                    map_of (connection_by_agent_id r) a = Some (cc_connection_id connection));
              agents = (case cc_agent_id connection of
                  None \<Rightarrow> connection_by_agent_id r
                | Some a \<Rightarrow>
                    if current then AList.delete a (connection_by_agent_id r)
                    else connection_by_agent_id r)
          in (Some \<lparr>closed_connection_id = cc_connection_id connection,
                    closed_agent_id = cc_agent_id connection,
                    closed_disconnected_at = disconnected_at,
                    was_current_agent_connection = current\<rparr>,
              r\<lparr>connections_by_id := AList.delete connection_id (connections_by_id r),
                connection_by_agent_id := agents\<rparr>))"

definition BindAgentLocked :: "string \<Rightarrow> string \<Rightarrow> string \<Rightarrow> registry \<Rightarrow> registry" where
  "BindAgentLocked connection_id agent_id observed_at r =
     (let conns = (case map_of (connections_by_id r) connection_id of
            None \<Rightarrow> AList.update connection_id (fresh_connection connection_id observed_at)
                      (connections_by_id r)
          | Some _ \<Rightarrow> connections_by_id r);
          connection = (case map_of conns connection_id of
            None \<Rightarrow> fresh_connection connection_id observed_at
          | Some c \<Rightarrow> c);
          conns' = (case map_of (connection_by_agent_id r) agent_id of
            None \<Rightarrow> conns
          | Some previous \<Rightarrow>
              if previous \<noteq> cc_connection_id connection then AList.delete previous conns
              else conns)
      in r\<lparr>connections_by_id :=
             AList.update connection_id
               (connection\<lparr>cc_agent_id := Some agent_id, cc_disconnected_at := None\<rparr>) conns',
           connection_by_agent_id :=
             AList.update agent_id (cc_connection_id connection) (connection_by_agent_id r)\<rparr>)"

definition BindAgent :: "string \<Rightarrow> string \<Rightarrow> string \<Rightarrow> registry \<Rightarrow> registry result" where
  "BindAgent connection_id agent_id observed_at r =
     (if agent_id = [] then Inl (Invalid_argument ''agent_id must not be empty'')
      else if observed_at = [] then Inl (Invalid_argument ''observed_at must not be empty'')
      else Inr (BindAgentLocked connection_id agent_id observed_at r))"

definition RecordHeartbeat :: "string \<Rightarrow> string \<Rightarrow> string \<Rightarrow> registry \<Rightarrow> registry result" where
  "RecordHeartbeat connection_id agent_id heartbeat_at r =
     (if agent_id = [] then Inl (Invalid_argument ''agent_id must not be empty'')
      else if heartbeat_at = [] then Inl (Invalid_argument ''heartbeat_at must not be empty'')
      else let r' = BindAgentLocked connection_id agent_id heartbeat_at r in
        Inr (case map_of (connections_by_id r') connection_id of
            None \<Rightarrow> r'
          | Some c \<Rightarrow> r'\<lparr>connections_by_id :=
              AList.update connection_id (c\<lparr>cc_last_heartbeat_at := Some heartbeat_at\<rparr>)
                (connections_by_id r')\<rparr>))"

definition FindByConnection :: "registry \<Rightarrow> string \<Rightarrow> control_connection option" where
  "FindByConnection r connection_id = map_of (connections_by_id r) connection_id"

definition FindByAgent :: "registry \<Rightarrow> string \<Rightarrow> control_connection option" where
  "FindByAgent r agent_id =
     (case map_of (connection_by_agent_id r) agent_id of
        None \<Rightarrow> None
      | Some connection_id \<Rightarrow>
          (case map_of (connections_by_id r) connection_id of
             None \<Rightarrow> None
           | Some c \<Rightarrow> if cc_disconnected_at c \<noteq> None then None else Some c))"

definition IsAgentOnline :: "registry \<Rightarrow> string \<Rightarrow> string \<Rightarrow> bool" where
  "IsAgentOnline r agent_id stale_before =
     (case FindByAgent r agent_id of
        None \<Rightarrow> False
      | Some c \<Rightarrow>
          (case cc_last_heartbeat_at c of None \<Rightarrow> False | Some t \<Rightarrow> stale_before \<le> t))"

definition ActiveConnectionCount :: "registry \<Rightarrow> nat" where
  "ActiveConnectionCount r =
     length (filter (\<lambda>(_, c). cc_disconnected_at c = None) (connections_by_id r))"

subsection \<open>The invariant\<close>

text \<open>
  Connections are filed under their own id, none is kept after it disconnected, and a connection
  that carries an agent is that agent's current one.  The converse does not hold: an agent's
  entry may lead to a connection that has since been bound to another agent.
\<close>

definition connection_ok :: "registry \<Rightarrow> string \<Rightarrow> control_connection \<Rightarrow> bool" where
  "connection_ok r cid c \<longleftrightarrow>
     cc_connection_id c = cid \<and> cc_disconnected_at c = None \<and>
     (\<forall>a. cc_agent_id c = Some a \<longrightarrow> map_of (connection_by_agent_id r) a = Some cid)"

definition registry_inv :: "registry \<Rightarrow> bool" where
  "registry_inv r \<longleftrightarrow>
     distinct (map fst (connections_by_id r)) \<and>
     distinct (map fst (connection_by_agent_id r)) \<and>
     (\<forall>cid c. map_of (connections_by_id r) cid = Some c \<longrightarrow> connection_ok r cid c)"

lemmas alist_simps = update_conv' delete_conv' distinct_update distinct_delete

lemma registry_invD:
  "registry_inv r \<Longrightarrow> map_of (connections_by_id r) cid = Some c \<Longrightarrow> connection_ok r cid c"
  by (simp add: registry_inv_def)

lemma registry_inv_empty [simp]: "registry_inv empty_registry"
  by (simp add: registry_inv_def empty_registry_def)

lemma OpenConnection_inv:
  "registry_inv r \<Longrightarrow> OpenConnection cid t r = Inr r' \<Longrightarrow> registry_inv r'"
  by (auto simp: OpenConnection_def registry_inv_def connection_ok_def alist_simps
      fresh_connection_def split: if_splits)

lemma CloseConnection_inv:
  assumes "registry_inv r" and "CloseConnection cid t r = (res, r')"
  shows "registry_inv r'"
proof (cases "map_of (connections_by_id r) cid")
  case None
  with assms show ?thesis by (simp add: CloseConnection_def)
next
  case (Some c)
  then have c: "connection_ok r cid c"
    by (rule registry_invD [OF assms(1)])
  have others: "connection_ok r k d" if "map_of (connections_by_id r) k = Some d" for k d
    using assms(1) that by (rule registry_invD)
  have dist: "distinct (map fst (connections_by_id r))" "distinct (map fst (connection_by_agent_id r))"
    using assms(1) by (auto simp: registry_inv_def)
  have conns: "connections_by_id r' = AList.delete cid (connections_by_id r)"
    using assms(2) Some by (auto simp: CloseConnection_def Let_def)
  have agents: "connection_by_agent_id r' =
      (case cc_agent_id c of None \<Rightarrow> connection_by_agent_id r
       | Some a \<Rightarrow> AList.delete a (connection_by_agent_id r))"
    using assms(2) Some c
    by (auto simp: CloseConnection_def Let_def connection_ok_def
        simp del: map_of_eq_Some_iff split: option.splits)
  show ?thesis
    unfolding registry_inv_def
  proof (intro conjI allI impI)
    show "distinct (map fst (connections_by_id r'))" "distinct (map fst (connection_by_agent_id r'))"
      using dist by (auto simp: conns agents alist_simps split: option.split)
    fix k d
    assume "map_of (connections_by_id r') k = Some d"
    then have k: "k \<noteq> cid" and "map_of (connections_by_id r) k = Some d"
      by (auto simp: conns alist_simps simp del: map_of_eq_Some_iff split: if_splits)
    then have "connection_ok r k d"
      by (intro others)
    with k c show "connection_ok r' k d"
      by (auto simp: connection_ok_def agents alist_simps
          simp del: map_of_eq_Some_iff split: option.split)
  qed
qed

text \<open>The connection table after a bind, as a map.\<close>

lemma BindAgentLocked_maps:
  fixes cid a t :: string
  assumes "registry_inv r"
  defines "r' \<equiv> BindAgentLocked cid a t r"
    and "c \<equiv> (case map_of (connections_by_id r) cid of None \<Rightarrow> fresh_connection cid t | Some c \<Rightarrow> c)"
  shows "map_of (connections_by_id r') k =
           (if k = cid then Some (c\<lparr>cc_agent_id := Some a, cc_disconnected_at := None\<rparr>)
            else if map_of (connection_by_agent_id r) a = Some k then None
            else map_of (connections_by_id r) k)"
    and "map_of (connection_by_agent_id r') =
           (map_of (connection_by_agent_id r))(a \<mapsto> cid)"
    and "distinct (map fst (connections_by_id r'))"
    and "distinct (map fst (connection_by_agent_id r'))"
proof -
  have id: "cc_connection_id c = cid"
    using registry_invD [OF assms(1), of cid]
    by (auto simp: c_def fresh_connection_def connection_ok_def split: option.split)
  have dist: "distinct (map fst (connections_by_id r))" "distinct (map fst (connection_by_agent_id r))"
    using assms(1) by (auto simp: registry_inv_def)
  show "map_of (connections_by_id r') k =
           (if k = cid then Some (c\<lparr>cc_agent_id := Some a, cc_disconnected_at := None\<rparr>)
            else if map_of (connection_by_agent_id r) a = Some k then None
            else map_of (connections_by_id r) k)"
    using id by (auto simp: r'_def c_def BindAgentLocked_def Let_def alist_simps split: option.splits)
  show "map_of (connection_by_agent_id r') = (map_of (connection_by_agent_id r))(a \<mapsto> cid)"
    using id by (auto simp: r'_def c_def BindAgentLocked_def Let_def alist_simps split: option.splits)
  show "distinct (map fst (connections_by_id r'))" "distinct (map fst (connection_by_agent_id r'))"
    using dist
    by (auto simp: r'_def BindAgentLocked_def Let_def alist_simps split: option.splits)
qed

lemma BindAgentLocked_inv:
  assumes "registry_inv r"
  shows "registry_inv (BindAgentLocked cid a t r)"
  unfolding registry_inv_def
proof (intro conjI allI impI)
  note maps = BindAgentLocked_maps [OF assms, of cid a t]
  show "distinct (map fst (connections_by_id (BindAgentLocked cid a t r)))"
    "distinct (map fst (connection_by_agent_id (BindAgentLocked cid a t r)))"
    by (rule maps(3) maps(4))+
  fix k c
  assume "map_of (connections_by_id (BindAgentLocked cid a t r)) k = Some c"
  then show "connection_ok (BindAgentLocked cid a t r) k c"
    using registry_invD [OF assms, of cid] registry_invD [OF assms, of k]
    by (auto simp: maps(1,2) connection_ok_def fresh_connection_def split: if_splits option.splits)
qed

lemma RecordHeartbeat_Inr:
  assumes "RecordHeartbeat cid a t r = Inr r'" and "registry_inv r"
  shows "map_of (connections_by_id r') =
           (map_of (connections_by_id (BindAgentLocked cid a t r)))(cid \<mapsto>
              the (map_of (connections_by_id (BindAgentLocked cid a t r)) cid)
                \<lparr>cc_last_heartbeat_at := Some t\<rparr>)"
    and "connection_by_agent_id r' = connection_by_agent_id (BindAgentLocked cid a t r)"
    and "distinct (map fst (connections_by_id r'))"
  using assms BindAgentLocked_maps(1) [OF assms(2), of cid a t cid]
    BindAgentLocked_maps(3) [OF assms(2), of cid a t]
  by (auto simp: RecordHeartbeat_def Let_def alist_simps split: if_splits)

lemma RecordHeartbeat_inv:
  assumes "registry_inv r" and "RecordHeartbeat cid a t r = Inr r'"
  shows "registry_inv r'"
proof -
  note hb = RecordHeartbeat_Inr [OF assms(2,1)]
  have inv: "registry_inv (BindAgentLocked cid a t r)"
    using assms(1) by (rule BindAgentLocked_inv)
  obtain c where c: "map_of (connections_by_id (BindAgentLocked cid a t r)) cid = Some c"
    by (auto simp: BindAgentLocked_maps(1) [OF assms(1)] simp del: map_of_eq_Some_iff)
  with inv have "connection_ok (BindAgentLocked cid a t r) cid c"
    by (intro registry_invD)
  with c hb inv show ?thesis
    by (auto simp: registry_inv_def connection_ok_def simp del: map_of_eq_Some_iff)
qed

subsection \<open>Reachable registries\<close>

inductive registry_step :: "registry \<Rightarrow> registry \<Rightarrow> bool" where
  open_connection: "OpenConnection cid t r = Inr r' \<Longrightarrow> registry_step r r'"
| close_connection: "CloseConnection cid t r = (res, r') \<Longrightarrow> registry_step r r'"
| bind_agent: "BindAgent cid a t r = Inr r' \<Longrightarrow> registry_step r r'"
| heartbeat: "RecordHeartbeat cid a t r = Inr r' \<Longrightarrow> registry_step r r'"

inductive registry_reachable :: "registry \<Rightarrow> bool" where
  start: "registry_reachable empty_registry"
| step: "registry_reachable r \<Longrightarrow> registry_step r r' \<Longrightarrow> registry_reachable r'"

lemma registry_step_inv: "registry_step r r' \<Longrightarrow> registry_inv r \<Longrightarrow> registry_inv r'"
proof (induction rule: registry_step.induct)
  case (bind_agent cid a t r r')
  then show ?case
    by (auto simp: BindAgent_def BindAgentLocked_inv split: if_splits)
qed (auto intro: OpenConnection_inv CloseConnection_inv RecordHeartbeat_inv)

lemma registry_reachable_inv: "registry_reachable r \<Longrightarrow> registry_inv r"
  by (induction rule: registry_reachable.induct) (auto intro: registry_step_inv)

lemma FindByAgent_inv:
  "registry_inv r \<Longrightarrow>
   FindByAgent r a = Option.bind (map_of (connection_by_agent_id r) a) (map_of (connections_by_id r))"
  by (auto simp: FindByAgent_def connection_ok_def dest: registry_invD split: option.splits)

subsection \<open>Properties\<close>

text \<open>
  One live connection per agent.  In every registry reachable from the empty one, two
  connections that carry the same agent are the same connection, it is the one \<open>FindByAgent\<close>
  returns, every entry is filed under its own id and none is marked disconnected, so that the
  active count is the number of entries.
\<close>

theorem single_connection_per_agent:
  assumes "registry_reachable r"
    and "FindByConnection r i = Some c" and "cc_agent_id c = Some a"
    and "FindByConnection r j = Some d" and "cc_agent_id d = Some a"
  shows "i = j \<and> cc_connection_id c = i \<and> FindByAgent r a = Some c \<and>
         ActiveConnectionCount r = length (connections_by_id r)"
proof -
  have inv: "registry_inv r"
    using assms(1) by (rule registry_reachable_inv)
  have ok: "connection_ok r i c" "connection_ok r j d"
    using registry_invD [OF inv] assms(2,4) by (auto simp: FindByConnection_def)
  have "\<forall>(k, e)\<in>set (connections_by_id r). cc_disconnected_at e = None"
    using inv registry_invD [OF inv] by (auto simp: registry_inv_def connection_ok_def)
  then have "ActiveConnectionCount r = length (connections_by_id r)"
    by (simp add: ActiveConnectionCount_def filter_id_conv case_prod_beta')
  with ok assms(2-5) show ?thesis
    by (auto simp: connection_ok_def FindByAgent_inv [OF inv] FindByConnection_def)
qed

definition demo_registry :: registry where
  "demo_registry =
     \<lparr>connections_by_id = [(''c1'', (fresh_connection ''c1'' ''t'')\<lparr>cc_agent_id := Some ''a''\<rparr>)],
      connection_by_agent_id = [(''a'', ''c1'')]\<rparr>"

lemma demo_registry_reachable: "registry_reachable demo_registry"
proof (rule registry_reachable.step [OF registry_reachable.start])
  have "BindAgent ''c1'' ''a'' ''t'' empty_registry = Inr demo_registry"
    by (simp add: BindAgent_def BindAgentLocked_def demo_registry_def empty_registry_def
        fresh_connection_def)
  then show "registry_step empty_registry demo_registry"
    by (rule registry_step.bind_agent)
qed

theorem single_connection_per_agent_witness:
  "FindByAgent demo_registry ''a'' = Some ((fresh_connection ''c1'' ''t'')\<lparr>cc_agent_id := Some ''a''\<rparr>)"
  using single_connection_per_agent [OF demo_registry_reachable, of "''c1''"
      "(fresh_connection ''c1'' ''t'')\<lparr>cc_agent_id := Some ''a''\<rparr>" "''a''" "''c1''"
      "(fresh_connection ''c1'' ''t'')\<lparr>cc_agent_id := Some ''a''\<rparr>"]
  by (simp add: FindByConnection_def demo_registry_def)

text \<open>
  A reconnecting agent takes over.  After an agent registers on a connection, that connection
  is the agent's, and the agent's previous connection, if another, is gone: when it closes later,
  \<open>CloseConnection\<close> reports nothing (so the agent is not marked offline) and changes nothing.
\<close>

theorem reconnect_takes_over:
  assumes "registry_reachable r" and "BindAgent cid a t r = Inr r'"
  shows "map_option cc_agent_id (FindByAgent r' a) = Some (Some a) \<and>
         map_option cc_connection_id (FindByAgent r' a) = Some cid \<and>
         (map_of (connection_by_agent_id r) a = Some old \<and> old \<noteq> cid \<longrightarrow>
            FindByConnection r' old = None \<and> CloseConnection old now r' = (None, r'))"
proof -
  have inv: "registry_inv r"
    using assms(1) by (rule registry_reachable_inv)
  from assms(2) have r': "r' = BindAgentLocked cid a t r"
    by (auto simp: BindAgent_def split: if_splits)
  note maps = BindAgentLocked_maps [OF inv, of cid a t, folded r']
  have "registry_inv r'"
    unfolding r' using inv by (rule BindAgentLocked_inv)
  moreover have "cc_connection_id
      (case map_of (connections_by_id r) cid of None \<Rightarrow> fresh_connection cid t | Some c \<Rightarrow> c) = cid"
    using registry_invD [OF inv, of cid]
    by (auto simp: fresh_connection_def connection_ok_def split: option.split)
  ultimately show ?thesis
    by (auto simp: FindByAgent_inv maps(1,2) FindByConnection_def CloseConnection_def)
qed

theorem reconnect_takes_over_witness:
  "\<exists>r'. BindAgent ''c2'' ''a'' ''u'' demo_registry = Inr r' \<and>
        FindByConnection r' ''c1'' = None \<and> CloseConnection ''c1'' ''now'' r' = (None, r')"
proof -
  obtain r' where r': "BindAgent ''c2'' ''a'' ''u'' demo_registry = Inr r'"
    by (simp add: BindAgent_def)
  then show ?thesis
    using reconnect_takes_over [OF demo_registry_reachable r', of "''c1''" "''now''"]
    by (simp add: demo_registry_def)
qed

text \<open>
  Closing the agent's current connection.  The close reports the connection's agent, says it
  was the current connection, and from then on the agent has no connection and is not online
  whatever the staleness bound; entries of other agents are untouched.
\<close>

theorem close_current_connection:
  assumes "registry_reachable r"
    and "FindByConnection r cid = Some c" and "cc_agent_id c = Some a"
    and "CloseConnection cid now r = (closed, r')"
  shows "closed = Some \<lparr>closed_connection_id = cid, closed_agent_id = Some a,
                        closed_disconnected_at = now, was_current_agent_connection = True\<rparr> \<and>
         FindByAgent r' a = None \<and> \<not> IsAgentOnline r' a bound \<and>
         (b \<noteq> a \<longrightarrow> map_of (connection_by_agent_id r') b = map_of (connection_by_agent_id r) b)"
proof -
  have inv: "registry_inv r"
    using assms(1) by (rule registry_reachable_inv)
  have "connection_ok r cid c"
    using registry_invD [OF inv] assms(2) by (simp add: FindByConnection_def)
  with assms(2-4) show ?thesis
    by (auto simp: CloseConnection_def FindByConnection_def connection_ok_def Let_def alist_simps
        FindByAgent_def IsAgentOnline_def)
qed

theorem close_current_connection_witness:
  "\<not> IsAgentOnline (snd (CloseConnection ''c1'' ''now'' demo_registry)) ''a'' ''t''"
  using close_current_connection [OF demo_registry_reachable, of "''c1''"
      "(fresh_connection ''c1'' ''t'')\<lparr>cc_agent_id := Some ''a''\<rparr>" "''a''" "''now''"
      "fst (CloseConnection ''c1'' ''now'' demo_registry)"
      "snd (CloseConnection ''c1'' ''now'' demo_registry)" "''t''"]
  by (simp add: FindByConnection_def demo_registry_def)

text \<open>
  A connection that changes its agent leaves a stale entry behind.  When one connection
  speaks for agent \<open>a\<close> and then for agent \<open>b\<close>, looking up \<open>a\<close> returns the connection that now
  carries \<open>b\<close>; \<open>b\<close>'s heartbeat keeps \<open>a\<close> online; and closing the connection reports only \<open>b\<close>,
  so that nothing marks \<open>a\<close> offline.
\<close>

theorem rebinding_keeps_previous_agent_online:
  assumes "registry_reachable r" and "a \<noteq> b"
    and "FindByConnection r cid = Some c" and "cc_agent_id c = Some a"
    and "RecordHeartbeat cid b t r = Inr r'"
    and "CloseConnection cid now r' = (closed, r'')"
  shows "map_option cc_agent_id (FindByAgent r' a) = Some (Some b) \<and>
         IsAgentOnline r' a t \<and>
         map_option closed_agent_id closed = Some (Some b)"
proof -
  have inv: "registry_inv r"
    using assms(1) by (rule registry_reachable_inv)
  then have inv': "registry_inv r'"
    using assms(5) by (rule RecordHeartbeat_inv)
  have ok: "connection_ok r cid c"
    using registry_invD [OF inv] assms(3) by (simp add: FindByConnection_def)
  note maps = BindAgentLocked_maps [OF inv, of cid b t]
  note hb = RecordHeartbeat_Inr [OF assms(5) inv]
  have found: "FindByAgent r' a =
      Some (c\<lparr>cc_agent_id := Some b, cc_disconnected_at := None, cc_last_heartbeat_at := Some t\<rparr>)"
    using ok assms(2-4)
    by (simp add: FindByAgent_inv [OF inv'] hb(1,2) maps(1,2) connection_ok_def FindByConnection_def)
  moreover have "map_of (connections_by_id r') cid =
      Some (c\<lparr>cc_agent_id := Some b, cc_disconnected_at := None, cc_last_heartbeat_at := Some t\<rparr>)"
    using assms(3) by (simp add: hb(1) maps(1) FindByConnection_def)
  with assms(6) have "map_option closed_agent_id closed = Some (Some b)"
    by (auto simp: CloseConnection_def Let_def)
  ultimately show ?thesis
    by (simp add: IsAgentOnline_def)
qed

theorem rebinding_keeps_previous_agent_online_witness:
  "\<exists>r'. RecordHeartbeat ''c1'' ''b'' ''u'' demo_registry = Inr r' \<and> IsAgentOnline r' ''a'' ''u''"
proof -
  obtain r' where r': "RecordHeartbeat ''c1'' ''b'' ''u'' demo_registry = Inr r'"
    by (simp add: RecordHeartbeat_def Let_def)
  obtain closed r'' where "CloseConnection ''c1'' ''now'' r' = (closed, r'')"
    by fastforce
  with r' show ?thesis
    using rebinding_keeps_previous_agent_online [OF demo_registry_reachable, of "''a''" "''b''" "''c1''"
        "(fresh_connection ''c1'' ''t'')\<lparr>cc_agent_id := Some ''a''\<rparr>" "''u''" r' "''now''" closed r'']
    by (auto simp: FindByConnection_def demo_registry_def)
qed

end
