(* ===== verification/Db_Model.thy ===== *)
theory Db_Model
  imports Control_Codec
begin

section \<open>apps/server: the state of the database (database.h, database.cpp)\<close>

text \<open>
  The tables of \<open>ExecSchema\<close> as lists of rows in rowid order, nullable columns as options and
  enum columns as the text that is stored; around them the members of \<open>ServerDatabase\<close> that its
  operations use: the task-queue version, its observers and the flag that stops the write actor.

  An operation returns its result and the new state.  Every write runs alone on the write actor's
  thread, in one SQLite transaction or as one statement; \<open>transaction\<close> restores the tables when
  its body throws or returns without committing.  The libraries the code calls are the record
  \<open>ext\<close>: protobuf (\<open>wire\<close>), JSON, and what SQL leaves to SQLite (which of several rows with
  the same \<open>created_at\<close> comes first, the order inside \<open>group_concat\<close>, date arithmetic).
\<close>

subsection \<open>Rows\<close>

record agent_summary =
  ag_agent_id :: string
  ag_first_seen_at :: string
  ag_last_seen_at :: string
  ag_last_online_at :: string
  ag_last_offline_at :: "string option"
  ag_platform :: string
  ag_agent_version :: string
  ag_status :: string
  ag_current_package_id :: "string option"
  ag_desired_version :: "string option"
  ag_desired_package_id :: "string option"
  ag_desired_set_at :: "string option"
  ag_desired_set_by :: "string option"
  ag_upgrade_state :: "string option"
  ag_last_upgrade_task_id :: "string option"
  ag_last_upgrade_error :: "string option"
  ag_last_upgrade_at :: "string option"

record snapshot_row =
  sn_snapshot_id :: int
  sn_agent_id :: string
  sn_occurred_at :: string
  sn_hostname :: string
  sn_os :: string
  sn_os_version :: "string option"
  sn_arch :: string
  sn_agent_version :: string
  sn_applications_json :: string
  sn_services_json :: string
  sn_event_blob :: string

record asset_snapshot_summary =
  ss_snapshot_id :: int
  ss_agent_id :: string
  ss_occurred_at :: string
  ss_hostname :: string
  ss_os :: string
  ss_os_version :: "string option"
  ss_arch :: string
  ss_agent_version :: string
  ss_applications :: "string list"
  ss_services :: "string list"

record audit_row =
  au_audit_id :: string
  au_occurred_at :: string
  au_agent_id :: "string option"
  au_event_type :: string
  au_request_id :: "string option"
  au_result :: string
  au_payload_json :: string

record task_row =
  tk_task_id :: string
  tk_protocol_version :: string
  tk_agent_id :: string
  tk_task_type :: string
  tk_capability_level :: string
  tk_created_at :: string
  tk_expires_at :: string
  tk_input_blob :: string
  tk_state :: string
  tk_prerequisite_task_id :: "string option"
  tk_assigned_at :: "string option"
  tk_completed_at :: "string option"

record stored_task =
  st_task :: task
  st_state :: task_state
  st_assigned_at :: "string option"
  st_completed_at :: "string option"

record result_row =
  rr_task_id :: string
  rr_protocol_version :: string
  rr_request_id :: string
  rr_agent_id :: string
  rr_task_type :: string
  rr_occurred_at :: string
  rr_status :: string
  rr_error_code :: "string option"
  rr_error_retryable :: "int option"
  rr_result_blob :: "string option"
  rr_error_blob :: "string option"

record package_row =
  pk_package_id :: string
  pk_component :: string
  pk_version :: string
  pk_platform :: string
  pk_arch :: string
  pk_build_type :: string
  pk_filename :: string
  pk_storage_path :: string
  pk_size_bytes :: u64
  pk_sha256 :: string
  pk_manifest_json :: string
  pk_status :: string
  pk_uploaded_at :: string
  pk_validated_at :: "string option"
  pk_published_at :: "string option"
  pk_retired_at :: "string option"

text \<open>\<open>AgentPackageRecord\<close> is the row with the channels its publications are the default of.\<close>

record agent_package_record = package_row +
  pk_published_channels :: "string list"

record publication_row =
  pb_publication_id :: string
  pb_package_id :: string
  pb_channel :: string
  pb_component :: string
  pb_platform :: string
  pb_arch :: string
  pb_build_type :: string
  pb_is_default :: bool
  pb_published_at :: string
  pb_published_by :: "string option"

record token_row =
  rt_token_id :: string
  rt_token_hash :: string
  rt_purpose :: string
  rt_channel :: "string option"
  rt_platform :: "string option"
  rt_arch :: "string option"
  rt_max_uses :: "int option"
  rt_use_count :: int
  rt_status :: string
  rt_created_at :: string
  rt_expires_at :: string
  rt_revoked_at :: "string option"

record server_database =
  db_agents :: "agent_summary list"
  db_asset_snapshots :: "snapshot_row list"
  db_last_snapshot_id :: int
  db_audit_events :: "audit_row list"
  db_tasks :: "task_row list"
  db_task_results :: "result_row list"
  db_agent_packages :: "package_row list"
  db_package_publications :: "publication_row list"
  db_registration_tokens :: "token_row list"
  task_queue_version :: u64
  task_queue_closed :: bool
  next_task_queue_subscription_id :: u64
  task_queue_observers :: "(u64 \<times> nat) list"
  posted_callbacks :: "(nat \<times> u64) list"
  write_actor_stopping :: bool

definition fresh_database :: server_database where
  "fresh_database =
     \<lparr>db_agents = [], db_asset_snapshots = [], db_last_snapshot_id = 0, db_audit_events = [],
      db_tasks = [], db_task_results = [], db_agent_packages = [], db_package_publications = [],
      db_registration_tokens = [], task_queue_version = 0, task_queue_closed = False,
      next_task_queue_subscription_id = 1, task_queue_observers = [], posted_callbacks = [],
      write_actor_stopping = False\<rparr>"

subsection \<open>The libraries\<close>

datatype audit_payload_value = PayloadText string | PayloadBool bool | PayloadInt "64 word"

record ext =
  ext_wire :: wire
  ext_dump_strings :: "string list \<Rightarrow> string result"
  ext_parse_strings :: "string \<Rightarrow> string list result"
  ext_audit_payload :: "(string \<times> audit_payload_value) list \<Rightarrow> string result"
  ext_first_created :: "task_row list \<Rightarrow> task_row"
  ext_overdue :: "string \<Rightarrow> string \<Rightarrow> bool"
  ext_concat_order :: "publication_row list \<Rightarrow> publication_row list"

text \<open>
  What SQL promises of \<open>order by created_at asc limit 1\<close> on a table that has a row: one of its
  rows, and none was created earlier.
\<close>

definition orders_by_created :: "(task_row list \<Rightarrow> task_row) \<Rightarrow> bool" where
  "orders_by_created first \<longleftrightarrow>
     (\<forall>rows. rows \<noteq> [] \<longrightarrow> first rows \<in> set rows \<and>
        (\<forall>r\<in>set rows. tk_created_at (first rows) \<le> tk_created_at r))"

subsection \<open>Operations\<close>

type_synonym 'a db_op = "server_database \<Rightarrow> 'a result \<times> server_database"

definition db_throw :: "exn \<Rightarrow> 'a db_op" where
  "db_throw e db = (Inl e, db)"

definition db_return :: "'a \<Rightarrow> 'a db_op" where
  "db_return x db = (Inr x, db)"

definition db_bind :: "'a db_op \<Rightarrow> ('a \<Rightarrow> 'b db_op) \<Rightarrow> 'b db_op" where
  "db_bind m f db = (case m db of (Inl e, db') \<Rightarrow> (Inl e, db') | (Inr x, db') \<Rightarrow> f x db')"

definition db_lift :: "'a result \<Rightarrow> 'a db_op" where
  "db_lift r db = (r, db)"

definition db_modify :: "(server_database \<Rightarrow> server_database) \<Rightarrow> unit db_op" where
  "db_modify f db = (Inr (), f db)"

text \<open>
  \<open>SQLite::Transaction\<close>: the body returns its value and whether it reached \<open>commit()\<close>.
\<close>

definition transaction :: "('a \<times> bool) db_op \<Rightarrow> 'a db_op" where
  "transaction body db =
     (case body db of
        (Inl e, _) \<Rightarrow> (Inl e, db)
      | (Inr (x, committed), db') \<Rightarrow> (Inr x, if committed then db' else db))"

definition submit_write :: "'a db_op \<Rightarrow> 'a db_op" where
  "submit_write func db =
     (if write_actor_stopping db
      then (Inl (Runtime_error ''server database write actor is stopped''), db)
      else func db)"

lemmas db_op_defs = db_throw_def db_return_def db_bind_def db_lift_def db_modify_def

subsection \<open>The task queue\<close>

definition NotifyTaskQueueChanged :: "server_database \<Rightarrow> server_database" where
  "NotifyTaskQueueChanged db =
     (let version = task_queue_version db + 1 in
      db\<lparr>task_queue_version := version,
         posted_callbacks := posted_callbacks db @
           map (\<lambda>(_, observer). (observer, version)) (task_queue_observers db)\<rparr>)"

definition TaskQueueVersion :: "server_database \<Rightarrow> u64" where
  "TaskQueueVersion db = task_queue_version db"

text \<open>\<open>None\<close>: the caller is still blocked.\<close>

definition WaitForTaskQueueChange :: "u64 \<Rightarrow> bool \<Rightarrow> server_database \<Rightarrow> u64 option" where
  "WaitForTaskQueueChange last_seen_version timed_out db =
     (if task_queue_version db \<noteq> last_seen_version \<or> task_queue_closed db \<or> timed_out
      then Some (task_queue_version db) else None)"

definition SubscribeTaskQueueChanges :: "nat option \<Rightarrow> u64 db_op" where
  "SubscribeTaskQueueChanges observer db =
     (case observer of
        None \<Rightarrow> (Inl (Invalid_argument ''task queue observer must not be empty''), db)
      | Some callback \<Rightarrow>
          let i = next_task_queue_subscription_id db in
          (Inr i, db\<lparr>next_task_queue_subscription_id := i + 1,
                     task_queue_observers := filter (\<lambda>(j, _). j \<noteq> i) (task_queue_observers db) @ [(i, callback)]\<rparr>))"

definition UnsubscribeTaskQueueChanges :: "u64 \<Rightarrow> server_database \<Rightarrow> server_database" where
  "UnsubscribeTaskQueueChanges subscription db =
     (if subscription = 0 then db
      else db\<lparr>task_queue_observers := filter (\<lambda>(j, _). j \<noteq> subscription) (task_queue_observers db)\<rparr>)"

definition StopDatabase :: "server_database \<Rightarrow> server_database" where
  "StopDatabase db =
     db\<lparr>write_actor_stopping := True, task_queue_closed := True, task_queue_observers := []\<rparr>"

subsection \<open>Sorting a query's rows\<close>

fun insert_by :: "('r \<Rightarrow> 'r \<Rightarrow> bool) \<Rightarrow> 'r \<Rightarrow> 'r list \<Rightarrow> 'r list" where
  "insert_by le x [] = [x]"
| "insert_by le x (y # ys) = (if le x y then x # y # ys else y # insert_by le x ys)"

definition order_by :: "('r \<Rightarrow> 'r \<Rightarrow> bool) \<Rightarrow> 'r list \<Rightarrow> 'r list" where
  "order_by le rows = foldr (insert_by le) rows []"

lemma set_insert_by [simp]: "set (insert_by le x ys) = insert x (set ys)"
  by (induction ys) auto

lemma length_insert_by [simp]: "length (insert_by le x ys) = Suc (length ys)"
  by (induction ys) auto

lemma order_by_simps [simp]: "order_by le [] = []" "order_by le (x # xs) = insert_by le x (order_by le xs)"
  by (simp_all add: order_by_def)

lemma set_order_by [simp]: "set (order_by le rows) = set rows"
  by (induction rows) auto

lemma length_order_by [simp]: "length (order_by le rows) = length rows"
  by (induction rows) auto

lemma distinct_insert_by: "distinct (insert_by le x ys) \<longleftrightarrow> x \<notin> set ys \<and> distinct ys"
  by (induction ys) auto

lemma distinct_order_by [simp]: "distinct (order_by le rows) \<longleftrightarrow> distinct rows"
  by (induction rows) (auto simp: distinct_insert_by)

lemma sorted_insert_by:
  assumes "\<And>x y. le x y \<or> le y x" and "\<And>x y z. le x y \<Longrightarrow> le y z \<Longrightarrow> le x z"
    and "sorted_wrt le ys"
  shows "sorted_wrt le (insert_by le x ys)"
  using assms(3)
proof (induction ys)
  case Nil
  then show ?case by simp
next
  case (Cons y ys)
  show ?case
  proof (cases "le x y")
    case True
    with Cons.prems show ?thesis
      by (auto intro: assms(2))
  next
    case False
    then have "le y x"
      using assms(1) by blast
    with False Cons show ?thesis
      by simp
  qed
qed

lemma sorted_order_by:
  assumes "\<And>x y. le x y \<or> le y x" and "\<And>x y z. le x y \<Longrightarrow> le y z \<Longrightarrow> le x z"
  shows "sorted_wrt le (order_by le rows)"
proof (induction rows)
  case Nil
  then show ?case by simp
next
  case (Cons r rows)
  then show ?case
    using sorted_insert_by [of le, OF assms] by simp
qed

end
