(* ===== verification/Db_Agents.thy ===== *)
theory Db_Agents
  imports Db_Model
begin

section \<open>apps/server/database.cpp: agents, asset snapshots and audit events\<close>

text \<open>
  \<open>UpsertAgent\<close> and its asynchronous variant with the case expressions of their
  \<open>on conflict\<close> clauses, \<open>MarkAgentOffline\<close>, \<open>ExpireWaitingReconnect\<close>, the asset snapshots
  and the audit log.  A comparison with a NULL column is not true in SQL, so
  \<open>agents.desired_version = excluded.agent_version\<close> reads \<open>... = Some v\<close> here.
\<close>

subsection \<open>Reading agents\<close>

definition AgentExists :: "string \<Rightarrow> server_database \<Rightarrow> bool" where
  "AgentExists agent_id db = rows_exists (\<lambda>r. ag_agent_id r = agent_id) (db_agents db)"

definition AsyncAgentExists :: "string \<Rightarrow> bool db_op" where
  "AsyncAgentExists agent_id = submit_write (\<lambda>db. (Inr (AgentExists agent_id db), db))"

definition FindAgent :: "string \<Rightarrow> server_database \<Rightarrow> agent_summary option" where
  "FindAgent agent_id db = row_by ag_agent_id agent_id (db_agents db)"

definition agent_list_order :: "agent_summary \<Rightarrow> agent_summary \<Rightarrow> bool" where
  "agent_list_order r s \<longleftrightarrow>
     ag_status s < ag_status r \<or> (ag_status r = ag_status s \<and>
       (ag_last_seen_at s < ag_last_seen_at r \<or> (ag_last_seen_at r = ag_last_seen_at s \<and>
         ag_agent_id r \<le> ag_agent_id s)))"

definition ListAgents :: "server_database \<Rightarrow> agent_summary list" where
  "ListAgents db = order_by agent_list_order (db_agents db)"

subsection \<open>Registering agents\<close>

definition registered_agent :: "agent_registration \<Rightarrow> agent_summary" where
  "registered_agent request =
     \<lparr>ag_agent_id = reg_agent_id request, ag_first_seen_at = reg_occurred_at request,
      ag_last_seen_at = reg_occurred_at request, ag_last_online_at = reg_occurred_at request,
      ag_last_offline_at = None, ag_platform = reg_os request,
      ag_agent_version = reg_agent_version request, ag_status = ''online'',
      ag_current_package_id = None, ag_desired_version = None, ag_desired_package_id = None,
      ag_desired_set_at = None, ag_desired_set_by = None, ag_upgrade_state = None,
      ag_last_upgrade_task_id = None, ag_last_upgrade_error = None, ag_last_upgrade_at = None\<rparr>"

text \<open>The columns both variants of the upsert set on a conflict.\<close>

definition seen_again :: "agent_summary \<Rightarrow> agent_summary \<Rightarrow> agent_summary" where
  "seen_again agents excluded =
     agents\<lparr>
       ag_last_seen_at := (if ag_status agents \<noteq> ''online'' then ag_last_seen_at excluded
                           else ag_last_seen_at agents),
       ag_last_online_at := (if ag_status agents \<noteq> ''online'' then ag_last_online_at excluded
                             else ag_last_online_at agents),
       ag_last_offline_at := (if ag_status agents \<noteq> ''online'' then None
                              else ag_last_offline_at agents),
       ag_platform := ag_platform excluded,
       ag_agent_version := ag_agent_version excluded,
       ag_status := ag_status excluded\<rparr>"

definition upsert_conflict :: "agent_summary \<Rightarrow> agent_summary \<Rightarrow> agent_summary" where
  "upsert_conflict agents excluded =
     (let waiting = (ag_upgrade_state agents = Some ''waiting_reconnect'');
          reached = (ag_desired_version agents = Some (ag_agent_version excluded));
          no_package = (ag_desired_package_id agents = None);
          missed = (ag_desired_version agents \<noteq> None \<and>
                    ag_desired_version agents \<noteq> Some (ag_agent_version excluded)) in
      (seen_again agents excluded)\<lparr>
        ag_current_package_id :=
          (if waiting \<and> reached then ag_desired_package_id agents
           else if waiting \<and> no_package then None
           else ag_current_package_id agents),
        ag_upgrade_state :=
          (if waiting \<and> reached then Some ''succeeded''
           else if waiting \<and> no_package then Some ''succeeded''
           else if waiting \<and> missed then Some ''failed''
           else ag_upgrade_state agents),
        ag_last_upgrade_error :=
          (if waiting \<and> reached then None
           else if waiting \<and> no_package then None
           else if waiting \<and> missed then Some ''agent_reported_unexpected_version''
           else ag_last_upgrade_error agents),
        ag_last_upgrade_at :=
          (if waiting \<and> reached then Some (ag_last_online_at excluded)
           else if waiting \<and> no_package then Some (ag_last_online_at excluded)
           else if waiting \<and> missed then Some (ag_last_online_at excluded)
           else ag_last_upgrade_at agents)\<rparr>)"

definition UpsertAgent :: "agent_registration \<Rightarrow> unit db_op" where
  "UpsertAgent request = submit_write (\<lambda>db.
     (Inr (), db\<lparr>db_agents :=
        rows_upsert ag_agent_id upsert_conflict (registered_agent request) (db_agents db)\<rparr>))"

definition AsyncUpsertAgent :: "agent_registration \<Rightarrow> unit db_op" where
  "AsyncUpsertAgent request = submit_write (\<lambda>db.
     (Inr (), db\<lparr>db_agents :=
        rows_upsert ag_agent_id seen_again (registered_agent request) (db_agents db)\<rparr>))"

definition MarkAgentOffline :: "string \<Rightarrow> string \<Rightarrow> unit db_op" where
  "MarkAgentOffline agent_id disconnected_at = submit_write (\<lambda>db.
     (Inr (), db\<lparr>db_agents :=
        rows_update (\<lambda>r. ag_agent_id r = agent_id \<and> ag_status r \<noteq> ''offline'')
          (\<lambda>r. r\<lparr>ag_last_seen_at := disconnected_at, ag_last_offline_at := Some disconnected_at,
                 ag_status := ''offline''\<rparr>) (db_agents db)\<rparr>))"

definition AsyncMarkAgentOffline :: "string \<Rightarrow> string \<Rightarrow> unit db_op" where
  "AsyncMarkAgentOffline agent_id disconnected_at = submit_write (\<lambda>db.
     (Inr (), db\<lparr>db_agents :=
        rows_update (\<lambda>r. ag_agent_id r = agent_id \<and> ag_status r \<noteq> ''offline'')
          (\<lambda>r. r\<lparr>ag_last_seen_at := disconnected_at, ag_last_offline_at := Some disconnected_at,
                 ag_status := ''offline''\<rparr>) (db_agents db)\<rparr>))"

definition overdue :: "ext \<Rightarrow> string \<Rightarrow> agent_summary \<Rightarrow> bool" where
  "overdue e now r \<longleftrightarrow>
     ag_upgrade_state r = Some ''waiting_reconnect'' \<and>
     (case ag_last_upgrade_at r of None \<Rightarrow> False | Some t \<Rightarrow> ext_overdue e t now)"

definition ExpireWaitingReconnect :: "ext \<Rightarrow> string \<Rightarrow> string list db_op" where
  "ExpireWaitingReconnect e now = submit_write (\<lambda>db.
     (Inr (map ag_agent_id (filter (overdue e now) (db_agents db))),
      db\<lparr>db_agents :=
        rows_update (overdue e now)
          (\<lambda>r. r\<lparr>ag_upgrade_state := Some ''failed'',
                 ag_last_upgrade_error := Some ''waiting_reconnect_timeout''\<rparr>) (db_agents db)\<rparr>))"

subsection \<open>Asset snapshots\<close>

definition snapshot_values :: "int \<Rightarrow> asset_snapshot \<Rightarrow> string \<Rightarrow> string \<Rightarrow> string \<Rightarrow> snapshot_row" where
  "snapshot_values i request applications_json services_json event_blob =
     \<lparr>sn_snapshot_id = i, sn_agent_id = as_agent_id request, sn_occurred_at = as_occurred_at request,
      sn_hostname = as_hostname request, sn_os = as_os request, sn_os_version = as_os_version request,
      sn_arch = as_arch request, sn_agent_version = as_agent_version request,
      sn_applications_json = applications_json, sn_services_json = services_json,
      sn_event_blob = event_blob\<rparr>"

text \<open>\<open>autoincrement\<close>: one more than any id the table has had.\<close>

definition insert_snapshot :: "ext \<Rightarrow> asset_snapshot \<Rightarrow> string \<Rightarrow> unit db_op" where
  "insert_snapshot e request event_blob =
     db_bind (db_lift (ext_dump_strings e (as_applications request))) (\<lambda>applications_json.
     db_bind (db_lift (ext_dump_strings e (as_services request))) (\<lambda>services_json.
     db_modify (\<lambda>db. let i = db_last_snapshot_id db + 1 in
       db\<lparr>db_asset_snapshots := db_asset_snapshots db @
            [snapshot_values i request applications_json services_json event_blob],
          db_last_snapshot_id := i\<rparr>)))"

definition RecordAssetSnapshot :: "ext \<Rightarrow> asset_snapshot \<Rightarrow> agent_event \<Rightarrow> unit db_op" where
  "RecordAssetSnapshot e request event =
     db_bind (db_lift (SerializeAgentEventBlob (ext_wire e) event)) (\<lambda>event_blob.
     submit_write (insert_snapshot e request event_blob))"

definition AsyncRecordAssetSnapshot :: "ext \<Rightarrow> asset_snapshot \<Rightarrow> agent_event \<Rightarrow> unit db_op" where
  "AsyncRecordAssetSnapshot e request event =
     db_bind (db_lift (SerializeAgentEventBlob (ext_wire e) event)) (\<lambda>event_blob.
     submit_write (insert_snapshot e request event_blob))"

definition ParseAssetSnapshotSummary :: "ext \<Rightarrow> snapshot_row \<Rightarrow> asset_snapshot_summary result" where
  "ParseAssetSnapshotSummary e r =
     bind_res (ext_parse_strings e (sn_applications_json r)) (\<lambda>applications.
     bind_res (ext_parse_strings e (sn_services_json r)) (\<lambda>services.
     Inr \<lparr>ss_snapshot_id = sn_snapshot_id r, ss_agent_id = sn_agent_id r,
          ss_occurred_at = sn_occurred_at r, ss_hostname = sn_hostname r, ss_os = sn_os r,
          ss_os_version = sn_os_version r, ss_arch = sn_arch r,
          ss_agent_version = sn_agent_version r, ss_applications = applications,
          ss_services = services\<rparr>))"

definition ListAssetSnapshots ::
    "ext \<Rightarrow> string \<Rightarrow> int \<Rightarrow> server_database \<Rightarrow> asset_snapshot_summary list result" where
  "ListAssetSnapshots e agent_id limit db =
     map_res (ParseAssetSnapshotSummary e)
       (take (nat (if limit \<le> 0 then 100 else limit))
          (order_by (\<lambda>r s. sn_snapshot_id s \<le> sn_snapshot_id r)
             (filter (\<lambda>r. sn_agent_id r = agent_id) (db_asset_snapshots db))))"

definition FindLatestAssetSnapshot ::
    "ext \<Rightarrow> string \<Rightarrow> server_database \<Rightarrow> asset_snapshot_summary option result" where
  "FindLatestAssetSnapshot e agent_id db =
     bind_res (ListAssetSnapshots e agent_id 1 db)
       (\<lambda>snapshots. Inr (case snapshots of [] \<Rightarrow> None | s # _ \<Rightarrow> Some s))"

subsection \<open>Audit events\<close>

definition insert_audit :: "audit_row \<Rightarrow> unit db_op" where
  "insert_audit row db =
     (case rows_insert au_audit_id row (db_audit_events db) of
        Inl e \<Rightarrow> (Inl e, db)
      | Inr rows \<Rightarrow> (Inr (), db\<lparr>db_audit_events := rows\<rparr>))"

definition audit_row_of :: "audit_event \<Rightarrow> audit_row" where
  "audit_row_of event =
     \<lparr>au_audit_id = ae_audit_id event, au_occurred_at = ae_occurred_at event,
      au_agent_id = ae_agent_id event,
      au_event_type = AuditEventType_ToString (ae_event_type event),
      au_request_id = Some (ae_request_id event), au_result = ae_result event,
      au_payload_json = ae_payload_json event\<rparr>"

definition RecordAuditEvent :: "audit_event \<Rightarrow> unit db_op" where
  "RecordAuditEvent event = submit_write (insert_audit (audit_row_of event))"

definition AsyncRecordAuditEvent :: "audit_event \<Rightarrow> unit db_op" where
  "AsyncRecordAuditEvent event = submit_write (insert_audit (audit_row_of event))"

end
