(* ===== verification/Db_Tasks.thy ===== *)
theory Db_Tasks
  imports Db_Agents
begin

section \<open>apps/server/database.cpp: the task queue, task results and agent upgrades\<close>

text \<open>
  Enqueueing, claiming, starting and finishing tasks, the upgrade and rollback orders that go with
  package update tasks, and the asynchronous variants, which are separate code in the source.
  \<open>*optional\<close> on an empty optional is undefined behaviour in C++ and the value
  \<open>Undefined_behaviour\<close> here.
\<close>

abbreviation state_text :: "task_state \<Rightarrow> string" where
  "state_text s \<equiv> TaskState_ToString s"

subsection \<open>Inserting tasks\<close>

definition task_values :: "task \<Rightarrow> string \<Rightarrow> string option \<Rightarrow> task_row" where
  "task_values task input_blob prerequisite_task_id =
     \<lparr>tk_task_id = task_task_id task, tk_protocol_version = task_protocol_version task,
      tk_agent_id = task_agent_id task, tk_task_type = TaskType_ToString (task_task_type task),
      tk_capability_level = CapabilityLevel_ToString (task_capability_level task),
      tk_created_at = task_created_at task, tk_expires_at = task_expires_at task,
      tk_input_blob = input_blob, tk_state = state_text TS_queued,
      tk_prerequisite_task_id = prerequisite_task_id, tk_assigned_at = None,
      tk_completed_at = None\<rparr>"

definition insert_task :: "ext \<Rightarrow> task \<Rightarrow> string option \<Rightarrow> unit db_op" where
  "insert_task e task prerequisite_task_id =
     db_bind (db_lift (SerializeTaskInputBlob (ext_wire e) (task_task_type task) (task_input_data task)))
       (\<lambda>input_blob db.
          (case rows_insert tk_task_id (task_values task input_blob prerequisite_task_id) (db_tasks db) of
             Inl x \<Rightarrow> (Inl x, db)
           | Inr rows \<Rightarrow> (Inr (), db\<lparr>db_tasks := rows\<rparr>)))"

lemma insert_taskE:
  assumes "insert_task e task pre db = (r, db')"
  obtains (failed) x where "r = Inl x" and "db' = db"
  | (inserted) blob rows where "r = Inr ()"
      and "SerializeTaskInputBlob (ext_wire e) (task_task_type task) (task_input_data task) = Inr blob"
      and "rows_insert tk_task_id (task_values task blob pre) (db_tasks db) = Inr rows"
      and "db' = db\<lparr>db_tasks := rows\<rparr>"
proof (cases "SerializeTaskInputBlob (ext_wire e) (task_task_type task) (task_input_data task)")
  case (Inl x)
  with assms show ?thesis
    by (intro failed [of x]) (auto simp: insert_task_def db_op_defs)
next
  case blob: (Inr blob)
  show ?thesis
  proof (cases "rows_insert tk_task_id (task_values task blob pre) (db_tasks db)")
    case (Inl x)
    with assms blob show ?thesis
      by (intro failed [of x]) (auto simp: insert_task_def db_op_defs)
  next
    case (Inr rows)
    with assms blob show ?thesis
      by (intro inserted [of blob rows]) (auto simp: insert_task_def db_op_defs)
  qed
qed

definition EnqueueTask :: "ext \<Rightarrow> task \<Rightarrow> unit db_op" where
  "EnqueueTask e task =
     db_bind (submit_write (insert_task e task None)) (\<lambda>_. db_modify NotifyTaskQueueChanged)"

definition AsyncEnqueueTask :: "ext \<Rightarrow> task \<Rightarrow> unit db_op" where
  "AsyncEnqueueTask e task =
     submit_write (db_bind (insert_task e task None) (\<lambda>_. db_modify NotifyTaskQueueChanged))"

subsection \<open>Reading tasks\<close>

definition ParseStoredTask :: "ext \<Rightarrow> task_row \<Rightarrow> task result" where
  "ParseStoredTask e r =
     bind_res (option_res (Undefined_behaviour ''*TaskTypeFromString'')
                 (TaskTypeFromString (tk_task_type r))) (\<lambda>task_type.
     bind_res (option_res (Undefined_behaviour ''*CapabilityLevelFromString'')
                 (CapabilityLevelFromString (tk_capability_level r))) (\<lambda>capability_level.
     bind_res (ParseTaskInputBlob (ext_wire e) task_type (tk_input_blob r)) (\<lambda>input.
     Inr \<lparr>task_protocol_version = tk_protocol_version r, task_task_id = tk_task_id r,
          task_agent_id = tk_agent_id r, task_task_type = task_type,
          task_capability_level = capability_level, task_created_at = tk_created_at r,
          task_expires_at = tk_expires_at r, task_input_data = input\<rparr>)))"

definition FindTaskById :: "ext \<Rightarrow> string \<Rightarrow> server_database \<Rightarrow> stored_task option result" where
  "FindTaskById e task_id db =
     (case row_by tk_task_id task_id (db_tasks db) of
        None \<Rightarrow> Inr None
      | Some r \<Rightarrow>
          bind_res (ParseStoredTask e r) (\<lambda>task.
          bind_res (option_res (Undefined_behaviour ''*TaskStateFromString'')
                      (TaskStateFromString (tk_state r))) (\<lambda>state.
          Inr (Some \<lparr>st_task = task, st_state = state, st_assigned_at = tk_assigned_at r,
                     st_completed_at = tk_completed_at r\<rparr>))))"

definition AsyncFindTaskById :: "ext \<Rightarrow> string \<Rightarrow> stored_task option db_op" where
  "AsyncFindTaskById e task_id = submit_write (\<lambda>db. (FindTaskById e task_id db, db))"

subsection \<open>Starting tasks\<close>

definition set_running :: "task_running \<Rightarrow> unit db_op" where
  "set_running request db =
     (let assigned = (\<lambda>r. tk_task_id r = run_task_id request \<and> tk_state r = state_text TS_assigned);
          db' = db\<lparr>db_tasks := rows_update assigned
            (\<lambda>r. r\<lparr>tk_state := state_text TS_running,
                   tk_assigned_at := (case tk_assigned_at r of
                       None \<Rightarrow> Some (run_occurred_at request) | Some t \<Rightarrow> Some t)\<rparr>)
            (db_tasks db)\<rparr> in
      if rows_count assigned (db_tasks db) \<noteq> 1
      then (Inl (Runtime_error ''task running state transition failed''), db')
      else (Inr (), db'))"

definition MarkTaskRunning :: "task_running \<Rightarrow> unit db_op" where
  "MarkTaskRunning request = submit_write (set_running request)"

definition AsyncMarkTaskRunning :: "task_running \<Rightarrow> unit db_op" where
  "AsyncMarkTaskRunning request = submit_write (\<lambda>db.
     (case row_by tk_task_id (run_task_id request) (db_tasks db) of
        None \<Rightarrow> (Inl (Runtime_error ''task not found''), db)
      | Some r \<Rightarrow>
          (case TaskStateFromString (tk_state r) of
             None \<Rightarrow> (Inl (Undefined_behaviour ''*TaskStateFromString''), db)
           | Some current_state \<Rightarrow>
               if \<not> CanTransitionTaskState current_state TS_running
               then (Inl (Runtime_error ''task running state transition failed''), db)
               else set_running request db)))"

subsection \<open>Claiming tasks\<close>

definition claimable :: "task_row list \<Rightarrow> string \<Rightarrow> string \<Rightarrow> task_row \<Rightarrow> bool" where
  "claimable tasks agent_id assigned_at r \<longleftrightarrow>
     tk_agent_id r = agent_id \<and> tk_state r = state_text TS_queued \<and>
     assigned_at < tk_expires_at r \<and>
     (case tk_prerequisite_task_id r of
        None \<Rightarrow> True
      | Some p \<Rightarrow> rows_exists (\<lambda>q. tk_task_id q = p \<and> tk_state q = ''succeeded'') tasks)"

definition next_task_row :: "ext \<Rightarrow> string \<Rightarrow> string \<Rightarrow> server_database \<Rightarrow> task_row option" where
  "next_task_row e agent_id assigned_at db =
     (let rows = filter (claimable (db_tasks db) agent_id assigned_at) (db_tasks db) in
      if rows = [] then None else Some (ext_first_created e rows))"

definition set_assigned :: "string \<Rightarrow> string \<Rightarrow> nat db_op" where
  "set_assigned task_id assigned_at db =
     (let queued = (\<lambda>r. tk_task_id r = task_id \<and> tk_state r = state_text TS_queued) in
      (Inr (rows_count queued (db_tasks db)),
       db\<lparr>db_tasks := rows_update queued
            (\<lambda>r. r\<lparr>tk_state := state_text TS_assigned, tk_assigned_at := Some assigned_at\<rparr>)
            (db_tasks db)\<rparr>))"

definition insert_assigned_audit ::
    "ext \<Rightarrow> string \<Rightarrow> string \<Rightarrow> string \<Rightarrow> task \<Rightarrow> unit db_op" where
  "insert_assigned_audit e uuid agent_id assigned_at task =
     db_bind (db_lift (ext_audit_payload e
        [(''agent_id'', PayloadText agent_id),
         (''task_id'', PayloadText (task_task_id task)),
         (''task_type'', PayloadText (TaskType_ToString (task_task_type task))),
         (''task_state'', PayloadText ''assigned'')])) (\<lambda>payload.
     insert_audit
       \<lparr>au_audit_id = uuid, au_occurred_at = assigned_at, au_agent_id = Some agent_id,
        au_event_type = AuditEventType_ToString A_task_assigned,
        au_request_id = Some (task_task_id task), au_result = ''success'',
        au_payload_json = payload\<rparr>)"

text \<open>
  The transaction of the two claim operations.  \<open>audit\<close> is what is done between the update and
  the commit: the synchronous operation writes an audit event there, the asynchronous one nothing.
\<close>

definition claim_body ::
    "ext \<Rightarrow> (task \<Rightarrow> unit db_op) \<Rightarrow> string \<Rightarrow> string \<Rightarrow> (task option \<times> bool) db_op" where
  "claim_body e audit agent_id assigned_at db =
     (case next_task_row e agent_id assigned_at db of
        None \<Rightarrow> (Inr (None, False), db)
      | Some row \<Rightarrow>
          db_bind (db_lift (ParseStoredTask e row)) (\<lambda>task.
          db_bind (set_assigned (task_task_id task) assigned_at) (\<lambda>changes.
            if changes \<noteq> 1 then db_return (None, False)
            else db_bind (audit task) (\<lambda>_. db_return (Some task, True)))) db)"

definition notify_claim :: "task option \<Rightarrow> task option db_op" where
  "notify_claim claimed =
     (if claimed \<noteq> None
      then db_bind (db_modify NotifyTaskQueueChanged) (\<lambda>_. db_return claimed)
      else db_return claimed)"

definition ClaimNextTaskForAgent :: "ext \<Rightarrow> string \<Rightarrow> string \<Rightarrow> string \<Rightarrow> task option db_op" where
  "ClaimNextTaskForAgent e uuid agent_id assigned_at =
     db_bind (submit_write (transaction
       (claim_body e (insert_assigned_audit e uuid agent_id assigned_at) agent_id assigned_at)))
       notify_claim"

definition AsyncClaimNextTaskForAgent :: "ext \<Rightarrow> string \<Rightarrow> string \<Rightarrow> task option db_op" where
  "AsyncClaimNextTaskForAgent e agent_id assigned_at =
     submit_write (db_bind
       (transaction (claim_body e (\<lambda>_. db_return ()) agent_id assigned_at)) notify_claim)"

subsection \<open>Finishing tasks\<close>

definition result_values :: "task_result \<Rightarrow> string option \<Rightarrow> string option \<Rightarrow> result_row" where
  "result_values request result_blob error_blob =
     \<lparr>rr_task_id = res_task_id request, rr_protocol_version = res_protocol_version request,
      rr_request_id = res_request_id request, rr_agent_id = res_agent_id request,
      rr_task_type = TaskType_ToString (res_task_type request),
      rr_occurred_at = res_occurred_at request,
      rr_status = TaskExecutionStatus_ToString (res_status request),
      rr_error_code = map_option (\<lambda>x. ErrorCode_ToString (te_error_code x)) (res_error request),
      rr_error_retryable = map_option (\<lambda>x. if te_retryable x then 1 else 0) (res_error request),
      rr_result_blob = result_blob, rr_error_blob = error_blob\<rparr>"

definition terminal_state_of :: "task_execution_status \<Rightarrow> task_state" where
  "terminal_state_of status =
     (if status = TE_succeeded then TS_succeeded
      else if status = TE_failed then TS_failed
      else TS_expired)"

definition insert_result :: "result_row \<Rightarrow> unit db_op" where
  "insert_result row db =
     (case rows_insert rr_task_id row (db_task_results db) of
        Inl x \<Rightarrow> (Inl x, db)
      | Inr rows \<Rightarrow> (Inr (), db\<lparr>db_task_results := rows\<rparr>))"

definition set_terminal :: "task_result \<Rightarrow> unit db_op" where
  "set_terminal request db =
     (let open_row = (\<lambda>r. tk_task_id r = res_task_id request \<and>
            tk_state r \<notin> {state_text TS_succeeded, state_text TS_failed, state_text TS_expired});
          db' = db\<lparr>db_tasks := rows_update open_row
            (\<lambda>r. r\<lparr>tk_state := state_text (terminal_state_of (res_status request)),
                   tk_completed_at := Some (res_occurred_at request)\<rparr>) (db_tasks db)\<rparr> in
      if rows_count open_row (db_tasks db) \<noteq> 1
      then (Inl (Runtime_error ''task result state transition failed''), db')
      else (Inr (), db'))"

definition update_upgrading_agent :: "task_result \<Rightarrow> server_database \<Rightarrow> server_database" where
  "update_upgrading_agent request db =
     db\<lparr>db_agents := rows_update
       (\<lambda>a. ag_agent_id a = res_agent_id request \<and>
            ag_last_upgrade_task_id a = Some (res_task_id request))
       (\<lambda>a. a\<lparr>ag_upgrade_state := Some (if res_status request = TE_succeeded
                then ''waiting_reconnect'' else ''failed''),
              ag_last_upgrade_error :=
                map_option (\<lambda>x. ErrorCode_ToString (te_error_code x)) (res_error request),
              ag_last_upgrade_at := Some (res_occurred_at request)\<rparr>) (db_agents db)\<rparr>"

definition fail_dependent_upgrades :: "task_result \<Rightarrow> server_database \<Rightarrow> server_database" where
  "fail_dependent_upgrades request db =
     db\<lparr>db_agents := rows_update
       (\<lambda>a. ag_agent_id a = res_agent_id request \<and>
            (case ag_last_upgrade_task_id a of
               None \<Rightarrow> False
             | Some i \<Rightarrow> rows_exists (\<lambda>t. tk_task_id t = i \<and>
                 tk_prerequisite_task_id t = Some (res_task_id request)) (db_tasks db)))
       (\<lambda>a. a\<lparr>ag_upgrade_state := Some ''failed'',
              ag_last_upgrade_error := (case res_error request of
                  Some x \<Rightarrow> Some (ErrorCode_ToString (te_error_code x))
                | None \<Rightarrow> Some ''task_execution_failed''),
              ag_last_upgrade_at := Some (res_occurred_at request)\<rparr>) (db_agents db)\<rparr>"

definition record_upgrade_outcome :: "task_result \<Rightarrow> server_database \<Rightarrow> server_database" where
  "record_upgrade_outcome request db =
     (if res_task_type request = TT_package_update then
        let db' = update_upgrading_agent request db in
        if res_status request \<noteq> TE_succeeded then fail_dependent_upgrades request db' else db'
      else db)"

definition RecordTaskResult :: "task_result \<Rightarrow> string option \<Rightarrow> string option \<Rightarrow> unit db_op" where
  "RecordTaskResult request result_blob error_blob =
     db_bind (submit_write (transaction (
       db_bind (insert_result (result_values request result_blob error_blob)) (\<lambda>_.
       db_bind (set_terminal request) (\<lambda>_.
       db_bind (db_modify (record_upgrade_outcome request)) (\<lambda>_.
       db_return ((), True)))))))
     (\<lambda>_. db_modify NotifyTaskQueueChanged)"

definition AsyncRecordTaskResult ::
    "task_result \<Rightarrow> string option \<Rightarrow> string option \<Rightarrow> unit db_op" where
  "AsyncRecordTaskResult request result_blob error_blob =
     submit_write (transaction (
       db_bind (insert_result (result_values request result_blob error_blob)) (\<lambda>_.
       db_bind (set_terminal request) (\<lambda>_.
       db_return ((), True)))))"

subsection \<open>Ordering upgrades and rollbacks\<close>

definition set_desired ::
    "string \<Rightarrow> string \<Rightarrow> string \<Rightarrow> string option \<Rightarrow> string \<Rightarrow> string \<Rightarrow> unit db_op" where
  "set_desired agent_id desired_version desired_package_id set_by set_at task_id db =
     (let this = (\<lambda>a. ag_agent_id a = agent_id);
          db' = db\<lparr>db_agents := rows_update this
            (\<lambda>a. a\<lparr>ag_desired_version := Some desired_version,
                   ag_desired_package_id := Some desired_package_id,
                   ag_desired_set_at := Some set_at, ag_desired_set_by := set_by,
                   ag_upgrade_state := Some ''queued'', ag_last_upgrade_task_id := Some task_id,
                   ag_last_upgrade_error := None\<rparr>) (db_agents db)\<rparr> in
      if rows_count this (db_agents db) \<noteq> 1
      then (Inl (Runtime_error ''agent not found for upgrade''), db')
      else (Inr (), db'))"

definition ScheduleAgentUpgrade ::
    "ext \<Rightarrow> string \<Rightarrow> string \<Rightarrow> string \<Rightarrow> string option \<Rightarrow> string \<Rightarrow> task \<Rightarrow> task option \<Rightarrow> unit db_op" where
  "ScheduleAgentUpgrade e agent_id desired_version desired_package_id set_by set_at task
       prerequisite_task =
     db_bind (submit_write (transaction (
       db_bind (set_desired agent_id desired_version desired_package_id set_by set_at
                  (task_task_id task)) (\<lambda>_.
       db_bind (case prerequisite_task of
           Some p \<Rightarrow> db_bind (insert_task e p None) (\<lambda>_. insert_task e task (Some (task_task_id p)))
         | None \<Rightarrow> insert_task e task None) (\<lambda>_.
       db_return ((), True))))))
     (\<lambda>_. db_modify NotifyTaskQueueChanged)"

definition ScheduleAgentRollback ::
    "ext \<Rightarrow> string \<Rightarrow> string option \<Rightarrow> string \<Rightarrow> task \<Rightarrow> unit db_op" where
  "ScheduleAgentRollback e agent_id set_by set_at task =
     db_bind (ScheduleAgentUpgrade e agent_id [] [] set_by set_at task None) (\<lambda>_.
     submit_write (db_modify (\<lambda>db. db\<lparr>db_agents := rows_update
       (\<lambda>a. ag_agent_id a = agent_id \<and> ag_last_upgrade_task_id a = Some (task_task_id task))
       (\<lambda>a. a\<lparr>ag_desired_version := None, ag_desired_package_id := None\<rparr>) (db_agents db)\<rparr>)))"

end
