(* ===== verification/Db_Packages.thy ===== *)
theory Db_Packages
  imports Db_Model
begin

section \<open>apps/server/database.cpp: agent packages, publications and registration tokens\<close>

text \<open>
  The package catalogue with its publications (a publication makes a package the default of a
  component, channel, platform, architecture and build type) and the registration tokens.
  SQLite does not enforce the foreign key of \<open>package_publications\<close> unless it is switched on,
  which the server does not do.
\<close>

subsection \<open>Packages\<close>

definition package_columns :: "'a package_row_scheme \<Rightarrow> package_row" where
  "package_columns p =
     \<lparr>pk_package_id = pk_package_id p, pk_component = pk_component p, pk_version = pk_version p,
      pk_platform = pk_platform p, pk_arch = pk_arch p, pk_build_type = pk_build_type p,
      pk_filename = pk_filename p, pk_storage_path = pk_storage_path p,
      pk_size_bytes = pk_size_bytes p, pk_sha256 = pk_sha256 p,
      pk_manifest_json = pk_manifest_json p, pk_status = pk_status p,
      pk_uploaded_at = pk_uploaded_at p, pk_validated_at = pk_validated_at p,
      pk_published_at = pk_published_at p, pk_retired_at = pk_retired_at p\<rparr>"

text \<open>The upsert overwrites every column but the key, which is equal.\<close>

definition UpsertAgentPackage :: "agent_package_record \<Rightarrow> unit db_op" where
  "UpsertAgentPackage package = submit_write (\<lambda>db.
     (Inr (), db\<lparr>db_agent_packages :=
        rows_upsert pk_package_id (\<lambda>_ excluded. excluded) (package_columns package)
          (db_agent_packages db)\<rparr>))"

text \<open>
  \<open>ParseAgentPackageRecord\<close> takes the \<open>group_concat\<close> of the default channels apart at the
  commas with \<open>std::getline\<close> and drops empty pieces.
\<close>

definition channel_concat :: "ext \<Rightarrow> string \<Rightarrow> server_database \<Rightarrow> string" where
  "channel_concat e package_id db =
     join_with (CHR '','') (map pb_channel (filter pb_is_default
       (ext_concat_order e
         (filter (\<lambda>p. pb_package_id p = package_id) (db_package_publications db)))))"

definition ParseAgentPackageRecord :: "package_row \<Rightarrow> string \<Rightarrow> agent_package_record" where
  "ParseAgentPackageRecord r channels =
     package_row.extend r
       (agent_package_record.fields (filter (\<lambda>s. s \<noteq> []) (split_on (CHR '','') channels)))"

definition package_list_order :: "package_row \<Rightarrow> package_row \<Rightarrow> bool" where
  "package_list_order p q \<longleftrightarrow>
     pk_uploaded_at q < pk_uploaded_at p \<or>
     (pk_uploaded_at p = pk_uploaded_at q \<and> pk_package_id p \<le> pk_package_id q)"

definition ListAgentPackages :: "ext \<Rightarrow> server_database \<Rightarrow> agent_package_record list" where
  "ListAgentPackages e db =
     map (\<lambda>p. ParseAgentPackageRecord p (channel_concat e (pk_package_id p) db))
       (order_by package_list_order (db_agent_packages db))"

definition FindAgentPackage :: "ext \<Rightarrow> string \<Rightarrow> server_database \<Rightarrow> agent_package_record option" where
  "FindAgentPackage e package_id db =
     map_option (\<lambda>p. ParseAgentPackageRecord p (channel_concat e package_id db))
       (row_by pk_package_id package_id (db_agent_packages db))"

subsection \<open>Publishing and retiring\<close>

definition has_key :: "string \<Rightarrow> string \<Rightarrow> string \<Rightarrow> string \<Rightarrow> string \<Rightarrow> publication_row \<Rightarrow> bool" where
  "has_key component channel platform arch build_type p \<longleftrightarrow>
     pb_component p = component \<and> pb_channel p = channel \<and> pb_platform p = platform \<and>
     pb_arch p = arch \<and> pb_build_type p = build_type"

definition publication_id_of :: "string \<Rightarrow> string \<Rightarrow> string \<Rightarrow> string \<Rightarrow> string \<Rightarrow> string" where
  "publication_id_of package_id channel platform arch build_type =
     package_id @ '':'' @ channel @ '':'' @ platform @ '':'' @ arch @ '':'' @ build_type"

definition clear_default ::
    "string \<Rightarrow> string \<Rightarrow> string \<Rightarrow> string \<Rightarrow> string \<Rightarrow> publication_row list \<Rightarrow> publication_row list" where
  "clear_default component channel platform arch build_type =
     rows_update (\<lambda>p. has_key component channel platform arch build_type p \<and> pb_is_default p)
       (\<lambda>p. p\<lparr>pb_is_default := False\<rparr>)"

text \<open>
  The unique index \<open>package_publications_default_idx\<close>: at most one row with \<open>is_default = 1\<close>
  for a component, channel, platform, architecture and build type.
\<close>

definition default_index_ok :: "publication_row list \<Rightarrow> bool" where
  "default_index_ok rows \<longleftrightarrow>
     distinct (map (\<lambda>p. (pb_component p, pb_channel p, pb_platform p, pb_arch p, pb_build_type p))
       (filter pb_is_default rows))"

definition publish_row :: "publication_row \<Rightarrow> unit db_op" where
  "publish_row row db =
     (let rows = rows_upsert pb_publication_id (\<lambda>_ excluded. excluded) row
            (db_package_publications db) in
      if \<not> default_index_ok rows then (Inl (Sql_error ''UNIQUE constraint failed''), db)
      else (Inr (), db\<lparr>db_package_publications := rows\<rparr>))"

definition set_published :: "string \<Rightarrow> string \<Rightarrow> unit db_op" where
  "set_published package_id published_at db =
     (let this = (\<lambda>p. pk_package_id p = package_id);
          db' = db\<lparr>db_agent_packages := rows_update this
            (\<lambda>p. p\<lparr>pk_status := ''published'', pk_published_at := Some published_at\<rparr>)
            (db_agent_packages db)\<rparr> in
      if rows_count this (db_agent_packages db) \<noteq> 1
      then (Inl (Runtime_error ''agent package not found for publish''), db')
      else (Inr (), db'))"

definition PublishAgentPackage ::
    "string \<Rightarrow> string \<Rightarrow> string \<Rightarrow> string \<Rightarrow> string \<Rightarrow> string \<Rightarrow> string option \<Rightarrow> string \<Rightarrow> unit db_op" where
  "PublishAgentPackage package_id component channel platform arch build_type published_by
       published_at =
     submit_write (transaction (
       db_bind (db_modify (\<lambda>db. db\<lparr>db_package_publications :=
         clear_default component channel platform arch build_type (db_package_publications db)\<rparr>)) (\<lambda>_.
       db_bind (publish_row
         \<lparr>pb_publication_id = publication_id_of package_id channel platform arch build_type,
          pb_package_id = package_id, pb_channel = channel, pb_component = component,
          pb_platform = platform, pb_arch = arch, pb_build_type = build_type,
          pb_is_default = True, pb_published_at = published_at,
          pb_published_by = published_by\<rparr>) (\<lambda>_.
       db_bind (set_published package_id published_at) (\<lambda>_.
       db_return ((), True))))))"

definition set_retired :: "string \<Rightarrow> string \<Rightarrow> unit db_op" where
  "set_retired package_id retired_at db =
     (let this = (\<lambda>p. pk_package_id p = package_id);
          db' = db\<lparr>db_agent_packages := rows_update this
            (\<lambda>p. p\<lparr>pk_status := ''retired'', pk_retired_at := Some retired_at\<rparr>)
            (db_agent_packages db)\<rparr> in
      if rows_count this (db_agent_packages db) \<noteq> 1
      then (Inl (Runtime_error ''agent package not found for retire''), db')
      else (Inr (), db'))"

definition RetireAgentPackage :: "string \<Rightarrow> string \<Rightarrow> unit db_op" where
  "RetireAgentPackage package_id retired_at =
     submit_write (transaction (
       db_bind (set_retired package_id retired_at) (\<lambda>_.
       db_bind (db_modify (\<lambda>db. db\<lparr>db_package_publications :=
         rows_update (\<lambda>p. pb_package_id p = package_id) (\<lambda>p. p\<lparr>pb_is_default := False\<rparr>)
           (db_package_publications db)\<rparr>)) (\<lambda>_.
       db_return ((), True)))))"

text \<open>The join, in the order of the publications; each has at most one package.\<close>

definition default_candidates ::
    "string \<Rightarrow> string \<Rightarrow> string \<Rightarrow> string \<Rightarrow> string \<Rightarrow> server_database \<Rightarrow> (publication_row \<times> package_row) list" where
  "default_candidates component channel platform arch build_type db =
     concat (map (\<lambda>pub.
       if has_key component channel platform arch build_type pub \<and> pb_is_default pub
       then map (Pair pub) (filter (\<lambda>p. pk_package_id p = pb_package_id pub \<and>
              pk_status p = ''published'') (db_agent_packages db))
       else []) (db_package_publications db))"

definition FindDefaultPublishedAgentPackage ::
    "string \<Rightarrow> string \<Rightarrow> string \<Rightarrow> string \<Rightarrow> string \<Rightarrow> server_database \<Rightarrow> agent_package_record option" where
  "FindDefaultPublishedAgentPackage component channel platform arch build_type db =
     (case order_by (\<lambda>a b. pb_published_at (fst b) \<le> pb_published_at (fst a))
             (default_candidates component channel platform arch build_type db) of
        [] \<Rightarrow> None
      | (_, p) # _ \<Rightarrow> Some (ParseAgentPackageRecord p []))"

subsection \<open>Registration tokens\<close>

definition CreateRegistrationToken :: "token_row \<Rightarrow> unit db_op" where
  "CreateRegistrationToken token = submit_write (\<lambda>db.
     (case rows_insert rt_token_id token (db_registration_tokens db) of
        Inl x \<Rightarrow> (Inl x, db)
      | Inr rows \<Rightarrow> (Inr (), db\<lparr>db_registration_tokens := rows\<rparr>)))"

definition token_admits :: "string \<Rightarrow> string \<Rightarrow> string \<Rightarrow> string \<Rightarrow> token_row \<Rightarrow> bool" where
  "token_admits token_hash platform arch used_at t \<longleftrightarrow>
     rt_token_hash t = token_hash \<and> rt_purpose t = ''agent_register'' \<and> rt_status t = ''active'' \<and>
     used_at \<le> rt_expires_at t \<and>
     (rt_platform t = None \<or> rt_platform t = Some platform) \<and>
     (rt_arch t = None \<or> rt_arch t = Some arch) \<and>
     (case rt_max_uses t of None \<Rightarrow> True | Some m \<Rightarrow> rt_use_count t < m)"

definition use_token :: "token_row \<Rightarrow> token_row" where
  "use_token t =
     t\<lparr>rt_use_count := rt_use_count t + 1,
       rt_status := (case rt_max_uses t of
           None \<Rightarrow> rt_status t
         | Some m \<Rightarrow> if m \<le> rt_use_count t + 1 then ''consumed'' else rt_status t)\<rparr>"

definition ConsumeRegistrationToken :: "string \<Rightarrow> string \<Rightarrow> string \<Rightarrow> string \<Rightarrow> bool db_op" where
  "ConsumeRegistrationToken token_hash platform arch used_at = submit_write (\<lambda>db.
     (let admits = token_admits token_hash platform arch used_at in
      (Inr (rows_count admits (db_registration_tokens db) = 1),
       db\<lparr>db_registration_tokens := rows_update admits use_token (db_registration_tokens db)\<rparr>)))"

definition RevokeRegistrationToken :: "string \<Rightarrow> string \<Rightarrow> bool db_op" where
  "RevokeRegistrationToken token_id revoked_at = submit_write (\<lambda>db.
     (let active = (\<lambda>t. rt_token_id t = token_id \<and> rt_status t = ''active'') in
      (Inr (rows_count active (db_registration_tokens db) = 1),
       db\<lparr>db_registration_tokens :=
         rows_update active (\<lambda>t. t\<lparr>rt_status := ''revoked'', rt_revoked_at := Some revoked_at\<rparr>)
           (db_registration_tokens db)\<rparr>)))"

text \<open>\<open>getInt\<close> reads the low 32 bits of a stored integer.\<close>

definition getInt :: "int \<Rightarrow> int" where
  "getInt x = sint (word_of_int x :: 32 word)"

definition ParseRegistrationTokenRecord :: "token_row \<Rightarrow> token_row" where
  "ParseRegistrationTokenRecord t =
     t\<lparr>rt_max_uses := map_option getInt (rt_max_uses t), rt_use_count := getInt (rt_use_count t)\<rparr>"

definition token_list_order :: "token_row \<Rightarrow> token_row \<Rightarrow> bool" where
  "token_list_order t u \<longleftrightarrow>
     rt_created_at u < rt_created_at t \<or>
     (rt_created_at t = rt_created_at u \<and> rt_token_id t \<le> rt_token_id u)"

definition ListRegistrationTokens :: "server_database \<Rightarrow> token_row list" where
  "ListRegistrationTokens db =
     map ParseRegistrationTokenRecord (order_by token_list_order (db_registration_tokens db))"

end
