(* ===== verification/Db_Steps.thy ===== *)
theory Db_Steps
  imports Db_Tasks Db_Packages
begin

section \<open>Every write of the database as one step, and which tables each one touches\<close>

text \<open>
  The write actor runs one write at a time, so that a run of the server's database is a sequence
  of the steps below, each of them one operation with whatever outcome it has.  The lemmas say
  which tables an operation leaves alone; they carry the invariants of the other theories.
\<close>

inductive db_step :: "ext \<Rightarrow> server_database \<Rightarrow> server_database \<Rightarrow> bool" for e :: ext where
  upsert_agent: "db_step e db (snd (UpsertAgent reg db))"
| async_upsert_agent: "db_step e db (snd (AsyncUpsertAgent reg db))"
| mark_offline: "db_step e db (snd (MarkAgentOffline a t db))"
| async_mark_offline: "db_step e db (snd (AsyncMarkAgentOffline a t db))"
| expire_waiting: "db_step e db (snd (ExpireWaitingReconnect e t db))"
| record_snapshot: "db_step e db (snd (RecordAssetSnapshot e sn ev db))"
| async_record_snapshot: "db_step e db (snd (AsyncRecordAssetSnapshot e sn ev db))"
| record_audit: "db_step e db (snd (RecordAuditEvent au db))"
| async_record_audit: "db_step e db (snd (AsyncRecordAuditEvent au db))"
| enqueue: "db_step e db (snd (EnqueueTask e task db))"
| async_enqueue: "db_step e db (snd (AsyncEnqueueTask e task db))"
| mark_running: "db_step e db (snd (MarkTaskRunning run db))"
| async_mark_running: "db_step e db (snd (AsyncMarkTaskRunning run db))"
| claim: "db_step e db (snd (ClaimNextTaskForAgent e uuid a t db))"
| async_claim: "db_step e db (snd (AsyncClaimNextTaskForAgent e a t db))"
| record_result: "db_step e db (snd (RecordTaskResult res rb eb db))"
| async_record_result: "db_step e db (snd (AsyncRecordTaskResult res rb eb db))"
| schedule_upgrade: "db_step e db (snd (ScheduleAgentUpgrade e a v p by t task pre db))"
| schedule_rollback: "db_step e db (snd (ScheduleAgentRollback e a by t task db))"
| upsert_package: "db_step e db (snd (UpsertAgentPackage pkg db))"
| publish: "db_step e db (snd (PublishAgentPackage p co ch pl ar bt by t db))"
| retire: "db_step e db (snd (RetireAgentPackage p t db))"
| create_token: "db_step e db (snd (CreateRegistrationToken tok db))"
| consume_token: "db_step e db (snd (ConsumeRegistrationToken h pl ar t db))"
| revoke_token: "db_step e db (snd (RevokeRegistrationToken i t db))"
| subscribe: "db_step e db (snd (SubscribeTaskQueueChanges obs db))"
| unsubscribe: "db_step e db (UnsubscribeTaskQueueChanges sub db)"
| stop: "db_step e db (StopDatabase db)"

inductive db_reachable :: "ext \<Rightarrow> server_database \<Rightarrow> bool" for e :: ext where
  start: "db_reachable e fresh_database"
| step: "db_reachable e db \<Longrightarrow> db_step e db db' \<Longrightarrow> db_reachable e db'"

text \<open>A later state of the same database.\<close>

inductive db_runs :: "ext \<Rightarrow> server_database \<Rightarrow> server_database \<Rightarrow> bool" for e :: ext where
  refl: "db_runs e db db"
| step: "db_runs e db db' \<Longrightarrow> db_step e db' db'' \<Longrightarrow> db_runs e db db''"

lemma db_reachable_runs: "db_runs e db db' \<Longrightarrow> db_reachable e db \<Longrightarrow> db_reachable e db'"
  by (induction rule: db_runs.induct) (auto intro: db_reachable.step)

lemma db_runs_one: "db_step e db db' \<Longrightarrow> db_runs e db db'"
  by (blast intro: db_runs.intros)

subsection \<open>Results of the combinators\<close>

lemma snd_db_bind:
  "snd (db_bind m f db) = (case m db of (Inl e, db') \<Rightarrow> db' | (Inr x, db') \<Rightarrow> snd (f x db'))"
  by (simp add: db_bind_def split: prod.split sum.split)

lemma db_bind_InrE:
  assumes "db_bind m f db = (Inr y, db')"
  obtains x db1 where "m db = (Inr x, db1)" and "f x db1 = (Inr y, db')"
  using assms by (cases "m db"; cases "fst (m db)") (auto simp: db_bind_def)

lemma transaction_InrE:
  assumes "transaction body db = (Inr x, db')"
  obtains (committed) "body db = (Inr (x, True), db')"
  | (rolled_back) db1 where "body db = (Inr (x, False), db1)" and "db' = db"
  using assms by (cases "body db"; cases "fst (body db)") (auto simp: transaction_def split: if_splits)

lemma submit_write_Inr:
  "submit_write f db = (Inr x, db') \<longleftrightarrow> \<not> write_actor_stopping db \<and> f db = (Inr x, db')"
  by (simp add: submit_write_def)

lemma db_pure_Inr [simp]:
  "db_return x db = (Inr y, db') \<longleftrightarrow> y = x \<and> db' = db"
  "db_modify f db = (Inr u, db') \<longleftrightarrow> db' = f db"
  "db_lift r db = (Inr z, db') \<longleftrightarrow> r = Inr z \<and> db' = db"
  by (auto simp: db_op_defs)

lemma snd_submit_write:
  "snd (submit_write f db) = (if write_actor_stopping db then db else snd (f db))"
  by (simp add: submit_write_def)

lemma snd_transaction:
  "snd (transaction body db) =
     (case body db of (Inr (x, True), db') \<Rightarrow> db' | _ \<Rightarrow> db)"
  by (simp add: transaction_def split: prod.split sum.split bool.split)

lemma notify_tables [simp]:
  "db_agents (NotifyTaskQueueChanged db) = db_agents db"
  "db_asset_snapshots (NotifyTaskQueueChanged db) = db_asset_snapshots db"
  "db_last_snapshot_id (NotifyTaskQueueChanged db) = db_last_snapshot_id db"
  "db_audit_events (NotifyTaskQueueChanged db) = db_audit_events db"
  "db_tasks (NotifyTaskQueueChanged db) = db_tasks db"
  "db_task_results (NotifyTaskQueueChanged db) = db_task_results db"
  "db_agent_packages (NotifyTaskQueueChanged db) = db_agent_packages db"
  "db_package_publications (NotifyTaskQueueChanged db) = db_package_publications db"
  "db_registration_tokens (NotifyTaskQueueChanged db) = db_registration_tokens db"
  "write_actor_stopping (NotifyTaskQueueChanged db) = write_actor_stopping db"
  by (simp_all add: NotifyTaskQueueChanged_def Let_def)

subsection \<open>Tables an operation leaves alone\<close>

text \<open>
  The views of the state the invariants speak of, and for each view the operations that keep it.
\<close>

definition task_tables :: "server_database \<Rightarrow> task_row list \<times> result_row list" where
  "task_tables db = (db_tasks db, db_task_results db)"

definition package_tables :: "server_database \<Rightarrow> package_row list \<times> publication_row list" where
  "package_tables db = (db_agent_packages db, db_package_publications db)"

definition snapshot_tables :: "server_database \<Rightarrow> snapshot_row list \<times> int" where
  "snapshot_tables db = (db_asset_snapshots db, db_last_snapshot_id db)"

lemmas view_defs = task_tables_def package_tables_def snapshot_tables_def

lemmas agent_op_defs = UpsertAgent_def AsyncUpsertAgent_def MarkAgentOffline_def
  AsyncMarkAgentOffline_def ExpireWaitingReconnect_def

lemmas snapshot_op_defs = RecordAssetSnapshot_def AsyncRecordAssetSnapshot_def insert_snapshot_def

lemmas audit_op_defs = RecordAuditEvent_def AsyncRecordAuditEvent_def insert_audit_def

lemmas package_op_defs = UpsertAgentPackage_def PublishAgentPackage_def RetireAgentPackage_def
  publish_row_def set_published_def set_retired_def

lemmas token_op_defs = CreateRegistrationToken_def ConsumeRegistrationToken_def
  RevokeRegistrationToken_def

lemmas queue_op_defs = SubscribeTaskQueueChanges_def UnsubscribeTaskQueueChanges_def
  StopDatabase_def

lemmas step_simps = snd_db_bind snd_submit_write snd_transaction db_op_defs Let_def

definition keeps :: "(server_database \<Rightarrow> 'v) \<Rightarrow> server_database \<Rightarrow> server_database \<Rightarrow> bool" where
  "keeps view db db' \<longleftrightarrow> view db' = view db"

lemma keeps_refl [simp]: "keeps view db db"
  by (simp add: keeps_def)

lemma keeps_trans: "keeps view a b \<Longrightarrow> keeps view b c \<Longrightarrow> keeps view a c"
  by (simp add: keeps_def)

text \<open>The operations of the agents, snapshots and audit events.\<close>

lemma agent_ops_keep:
  "keeps task_tables db (snd (UpsertAgent reg db))"
  "keeps task_tables db (snd (AsyncUpsertAgent reg db))"
  "keeps task_tables db (snd (MarkAgentOffline a t db))"
  "keeps task_tables db (snd (AsyncMarkAgentOffline a t db))"
  "keeps task_tables db (snd (ExpireWaitingReconnect e t db))"
  "keeps package_tables db (snd (UpsertAgent reg db))"
  "keeps package_tables db (snd (AsyncUpsertAgent reg db))"
  "keeps package_tables db (snd (MarkAgentOffline a t db))"
  "keeps package_tables db (snd (AsyncMarkAgentOffline a t db))"
  "keeps package_tables db (snd (ExpireWaitingReconnect e t db))"
  "keeps snapshot_tables db (snd (UpsertAgent reg db))"
  "keeps snapshot_tables db (snd (AsyncUpsertAgent reg db))"
  "keeps snapshot_tables db (snd (MarkAgentOffline a t db))"
  "keeps snapshot_tables db (snd (AsyncMarkAgentOffline a t db))"
  "keeps snapshot_tables db (snd (ExpireWaitingReconnect e t db))"
  "keeps db_registration_tokens db (snd (UpsertAgent reg db))"
  "keeps db_registration_tokens db (snd (AsyncUpsertAgent reg db))"
  "keeps db_registration_tokens db (snd (MarkAgentOffline a t db))"
  "keeps db_registration_tokens db (snd (AsyncMarkAgentOffline a t db))"
  "keeps db_registration_tokens db (snd (ExpireWaitingReconnect e t db))"
  by (simp_all add: keeps_def view_defs agent_op_defs step_simps)

lemma record_ops_keep:
  "keeps task_tables db (snd (RecordAssetSnapshot e sn ev db))"
  "keeps task_tables db (snd (AsyncRecordAssetSnapshot e sn ev db))"
  "keeps task_tables db (snd (RecordAuditEvent au db))"
  "keeps task_tables db (snd (AsyncRecordAuditEvent au db))"
  "keeps package_tables db (snd (RecordAssetSnapshot e sn ev db))"
  "keeps package_tables db (snd (AsyncRecordAssetSnapshot e sn ev db))"
  "keeps package_tables db (snd (RecordAuditEvent au db))"
  "keeps package_tables db (snd (AsyncRecordAuditEvent au db))"
  "keeps snapshot_tables db (snd (RecordAuditEvent au db))"
  "keeps snapshot_tables db (snd (AsyncRecordAuditEvent au db))"
  "keeps db_agents db (snd (RecordAssetSnapshot e sn ev db))"
  "keeps db_agents db (snd (AsyncRecordAssetSnapshot e sn ev db))"
  "keeps db_agents db (snd (RecordAuditEvent au db))"
  "keeps db_agents db (snd (AsyncRecordAuditEvent au db))"
  "keeps db_registration_tokens db (snd (RecordAssetSnapshot e sn ev db))"
  "keeps db_registration_tokens db (snd (AsyncRecordAssetSnapshot e sn ev db))"
  "keeps db_registration_tokens db (snd (RecordAuditEvent au db))"
  "keeps db_registration_tokens db (snd (AsyncRecordAuditEvent au db))"
  by (simp_all add: keeps_def view_defs snapshot_op_defs audit_op_defs step_simps
      split: sum.splits)

lemma package_ops_keep:
  "keeps task_tables db (snd (UpsertAgentPackage pkg db))"
  "keeps task_tables db (snd (PublishAgentPackage p co ch pl ar bt by t db))"
  "keeps task_tables db (snd (RetireAgentPackage p t db))"
  "keeps snapshot_tables db (snd (UpsertAgentPackage pkg db))"
  "keeps snapshot_tables db (snd (PublishAgentPackage p co ch pl ar bt by t db))"
  "keeps snapshot_tables db (snd (RetireAgentPackage p t db))"
  "keeps db_agents db (snd (UpsertAgentPackage pkg db))"
  "keeps db_agents db (snd (PublishAgentPackage p co ch pl ar bt by t db))"
  "keeps db_agents db (snd (RetireAgentPackage p t db))"
  "keeps db_registration_tokens db (snd (UpsertAgentPackage pkg db))"
  "keeps db_registration_tokens db (snd (PublishAgentPackage p co ch pl ar bt by t db))"
  "keeps db_registration_tokens db (snd (RetireAgentPackage p t db))"
  by (simp_all add: keeps_def view_defs package_op_defs step_simps split: sum.splits if_splits)

lemma token_ops_keep:
  "keeps task_tables db (snd (CreateRegistrationToken tok db))"
  "keeps task_tables db (snd (ConsumeRegistrationToken h pl ar t db))"
  "keeps task_tables db (snd (RevokeRegistrationToken i t db))"
  "keeps package_tables db (snd (CreateRegistrationToken tok db))"
  "keeps package_tables db (snd (ConsumeRegistrationToken h pl ar t db))"
  "keeps package_tables db (snd (RevokeRegistrationToken i t db))"
  "keeps snapshot_tables db (snd (CreateRegistrationToken tok db))"
  "keeps snapshot_tables db (snd (ConsumeRegistrationToken h pl ar t db))"
  "keeps snapshot_tables db (snd (RevokeRegistrationToken i t db))"
  "keeps db_agents db (snd (CreateRegistrationToken tok db))"
  "keeps db_agents db (snd (ConsumeRegistrationToken h pl ar t db))"
  "keeps db_agents db (snd (RevokeRegistrationToken i t db))"
  by (simp_all add: keeps_def view_defs token_op_defs step_simps split: sum.splits)

lemma queue_ops_keep:
  "keeps task_tables db (snd (SubscribeTaskQueueChanges obs db))"
  "keeps task_tables db (UnsubscribeTaskQueueChanges sub db)"
  "keeps task_tables db (StopDatabase db)"
  "keeps package_tables db (snd (SubscribeTaskQueueChanges obs db))"
  "keeps package_tables db (UnsubscribeTaskQueueChanges sub db)"
  "keeps package_tables db (StopDatabase db)"
  "keeps snapshot_tables db (snd (SubscribeTaskQueueChanges obs db))"
  "keeps snapshot_tables db (UnsubscribeTaskQueueChanges sub db)"
  "keeps snapshot_tables db (StopDatabase db)"
  "keeps db_agents db (snd (SubscribeTaskQueueChanges obs db))"
  "keeps db_agents db (UnsubscribeTaskQueueChanges sub db)"
  "keeps db_agents db (StopDatabase db)"
  "keeps db_registration_tokens db (snd (SubscribeTaskQueueChanges obs db))"
  "keeps db_registration_tokens db (UnsubscribeTaskQueueChanges sub db)"
  "keeps db_registration_tokens db (StopDatabase db)"
  by (simp_all add: keeps_def view_defs queue_op_defs Let_def split: option.splits)


subsection \<open>The task operations, by composition\<close>

text \<open>
  A reflexive and transitive relation between states that each piece of an operation respects is
  respected by the operation: the frame conditions, invariants and simulations of the database
  are all of this form.
\<close>

definition op_rel :: "(server_database \<Rightarrow> server_database \<Rightarrow> bool) \<Rightarrow> 'a db_op \<Rightarrow> bool" where
  "op_rel R m \<longleftrightarrow> (\<forall>db. R db (snd (m db)))"

lemma op_relI: "(\<And>db r db'. m db = (r, db') \<Longrightarrow> R db db') \<Longrightarrow> op_rel R m"
  by (metis op_rel_def prod.collapse)

lemma op_relD: "op_rel R m \<Longrightarrow> R db (snd (m db))"
  by (simp add: op_rel_def)

lemma op_relD': "op_rel R m \<Longrightarrow> m db = (r, db') \<Longrightarrow> R db db'"
  by (metis op_rel_def snd_conv)

locale step_relation =
  fixes R :: "server_database \<Rightarrow> server_database \<Rightarrow> bool"
  assumes refl: "R db db"
    and trans: "R a b \<Longrightarrow> R b c \<Longrightarrow> R a c"
begin

lemma bind:
  assumes "op_rel R m" and "\<And>x. op_rel R (f x)"
  shows "op_rel R (db_bind m f)"
proof (rule op_relI)
  fix db r db''
  assume run: "db_bind m f db = (r, db'')"
  obtain v db' where m: "m db = (v, db')"
    by fastforce
  show "R db db''"
  proof (cases v)
    case (Inl x)
    with run m op_relD' [OF assms(1) m] show ?thesis
      by (simp add: db_bind_def)
  next
    case (Inr x)
    with run m have "f x db' = (r, db'')"
      by (simp add: db_bind_def)
    with op_relD' [OF assms(1) m] op_relD' [OF assms(2)] show ?thesis
      using trans by blast
  qed
qed

lemma in_transaction: "op_rel R m \<Longrightarrow> op_rel R (transaction m)"
  by (rule op_relI)
    (auto simp: transaction_def refl dest: op_relD' split: prod.splits sum.splits if_splits)

lemma in_actor: "op_rel R m \<Longrightarrow> op_rel R (submit_write m)"
  by (simp add: op_rel_def submit_write_def refl)

lemma pure_ops: "op_rel R (db_throw x)" "op_rel R (db_return v)" "op_rel R (db_lift r)"
  by (simp_all add: op_rel_def db_op_defs refl)

lemma modify: "(\<And>db. R db (f db)) \<Longrightarrow> op_rel R (db_modify f)"
  by (simp add: op_rel_def db_op_defs)

lemma read_only: "(\<And>db. snd (m db) = db) \<Longrightarrow> op_rel R m"
  by (simp add: op_rel_def refl)

lemmas composed = bind in_transaction in_actor pure_ops

lemma claiming:
  assumes "\<And>i. op_rel R (set_assigned i t)" and "\<And>x. op_rel R (audit x)"
  shows "op_rel R (claim_body e audit a t)"
proof -
  have "op_rel R (db_bind (db_lift (ParseStoredTask e row)) (\<lambda>task.
          db_bind (set_assigned (task_task_id task) t) (\<lambda>changes.
            if changes \<noteq> 1 then db_return (None, False)
            else db_bind (audit task) (\<lambda>_. db_return (Some task, True)))))" for row
    by (auto intro!: composed assms)
  then show ?thesis
    by (auto simp: claim_body_def op_rel_def refl split: option.split)
qed

lemma notifying:
  "op_rel R (db_modify NotifyTaskQueueChanged) \<Longrightarrow> op_rel R (notify_claim c)"
  by (auto simp: notify_claim_def intro!: composed)

end

interpretation kept: step_relation "keeps view" for view :: "server_database \<Rightarrow> 'v"
  by unfold_locales (auto intro: keeps_trans)

text \<open>Which views no task operation looks at or changes.\<close>

definition outside_tasks :: "(server_database \<Rightarrow> 'v) \<Rightarrow> bool" where
  "outside_tasks view \<longleftrightarrow>
     (\<forall>db x. view (db\<lparr>db_tasks := x\<rparr>) = view db) \<and>
     (\<forall>db x. view (db\<lparr>db_task_results := x\<rparr>) = view db) \<and>
     (\<forall>db x. view (db\<lparr>db_agents := x\<rparr>) = view db) \<and>
     (\<forall>db x. view (db\<lparr>db_audit_events := x\<rparr>) = view db) \<and>
     (\<forall>db. view (NotifyTaskQueueChanged db) = view db)"

lemma outside_tasks_views:
  "outside_tasks package_tables" "outside_tasks snapshot_tables"
  "outside_tasks db_registration_tokens"
  by (simp_all add: outside_tasks_def view_defs)

lemma task_primitives_keep:
  assumes "outside_tasks view"
  shows "op_rel (keeps view) (insert_task e task pre)" "op_rel (keeps view) (set_running run)"
    "op_rel (keeps view) (set_assigned i t)" "op_rel (keeps view) (insert_assigned_audit e u a t task)"
    "op_rel (keeps view) (insert_result row)" "op_rel (keeps view) (set_terminal res)"
    "op_rel (keeps view) (set_desired a v p by t i)" "op_rel (keeps view) (db_modify NotifyTaskQueueChanged)"
    "op_rel (keeps view) (db_modify (record_upgrade_outcome res))"
  using assms
  by (auto simp: op_rel_def keeps_def outside_tasks_def insert_task_def set_running_def
      set_assigned_def insert_assigned_audit_def insert_audit_def insert_result_def
      set_terminal_def set_desired_def record_upgrade_outcome_def update_upgrading_agent_def
      fail_dependent_upgrades_def db_op_defs Let_def split: sum.splits)

lemma task_ops_keep:
  assumes "outside_tasks view"
  shows "op_rel (keeps view) (EnqueueTask e task)" "op_rel (keeps view) (AsyncEnqueueTask e task)"
    "op_rel (keeps view) (MarkTaskRunning run)" "op_rel (keeps view) (AsyncMarkTaskRunning run)"
    "op_rel (keeps view) (ClaimNextTaskForAgent e uuid a t)" "op_rel (keeps view) (AsyncClaimNextTaskForAgent e a t)"
    "op_rel (keeps view) (RecordTaskResult res rb eb)" "op_rel (keeps view) (AsyncRecordTaskResult res rb eb)"
    "op_rel (keeps view) (ScheduleAgentUpgrade e a v p by t task pre)"
    "op_rel (keeps view) (ScheduleAgentRollback e a by t task)"
proof -
  note prims = task_primitives_keep [OF assms]
  note claim = kept.claiming [OF prims(3)]
  note notify = kept.notifying [OF prims(8)]
  show "op_rel (keeps view) (EnqueueTask e task)" "op_rel (keeps view) (AsyncEnqueueTask e task)"
    "op_rel (keeps view) (MarkTaskRunning run)"
    by (auto simp: EnqueueTask_def AsyncEnqueueTask_def MarkTaskRunning_def
        intro!: kept.composed prims)
  show "op_rel (keeps view) (AsyncMarkTaskRunning run)"
    unfolding AsyncMarkTaskRunning_def using prims(2) [of run]
    by (intro kept.in_actor) (auto simp: op_rel_def split: option.split)
  show "op_rel (keeps view) (ClaimNextTaskForAgent e uuid a t)" "op_rel (keeps view) (AsyncClaimNextTaskForAgent e a t)"
    by (auto simp: ClaimNextTaskForAgent_def AsyncClaimNextTaskForAgent_def
        intro!: kept.composed claim notify prims)
  show "op_rel (keeps view) (RecordTaskResult res rb eb)" "op_rel (keeps view) (AsyncRecordTaskResult res rb eb)"
    by (auto simp: RecordTaskResult_def AsyncRecordTaskResult_def intro!: kept.composed prims)
  show upgrade: "op_rel (keeps view) (ScheduleAgentUpgrade e a v p by t task pre)" for v p pre
    by (auto simp: ScheduleAgentUpgrade_def intro!: kept.composed prims split: option.split)
  show "op_rel (keeps view) (ScheduleAgentRollback e a by t task)"
    using assms unfolding ScheduleAgentRollback_def
    by (auto intro!: kept.composed upgrade kept.modify simp: outside_tasks_def keeps_def)
qed

lemmas other_ops_keep = agent_ops_keep record_ops_keep package_ops_keep token_ops_keep queue_ops_keep

lemmas task_ops_keepD = task_ops_keep [THEN op_relD]


subsection \<open>Steps that concern the task tables\<close>

text \<open>A result and the terminal state it brings about, as both variants of the operation run them.\<close>

definition finish_task :: "task_result \<Rightarrow> result_row \<Rightarrow> unit db_op" where
  "finish_task request row = db_bind (insert_result row) (\<lambda>_. set_terminal request)"

lemma finish_taskE:
  assumes "finish_task request row db = (Inr (), db')"
  obtains results where "rows_insert rr_task_id row (db_task_results db) = Inr results"
    and "rows_count (\<lambda>r. tk_task_id r = res_task_id request \<and> tk_state r \<notin>
          {state_text TS_succeeded, state_text TS_failed, state_text TS_expired}) (db_tasks db) = 1"
    and "db' = db\<lparr>db_task_results := results,
           db_tasks := rows_update (\<lambda>r. tk_task_id r = res_task_id request \<and> tk_state r \<notin>
             {state_text TS_succeeded, state_text TS_failed, state_text TS_expired})
             (\<lambda>r. r\<lparr>tk_state := state_text (terminal_state_of (res_status request)),
                    tk_completed_at := Some (res_occurred_at request)\<rparr>) (db_tasks db)\<rparr>"
  using assms
  by (auto simp: finish_task_def insert_result_def set_terminal_def db_op_defs Let_def
      split: sum.splits if_splits)

lemma db_bind_assoc: "db_bind m (\<lambda>x. db_bind (f x) g) = db_bind (db_bind m f) g"
  by (rule ext) (simp add: db_bind_def split: prod.split sum.split)

lemma RecordTaskResult_finish:
  "RecordTaskResult res rb eb =
     db_bind (submit_write (transaction (db_bind (finish_task res (result_values res rb eb)) (\<lambda>_.
       db_bind (db_modify (record_upgrade_outcome res)) (\<lambda>_. db_return ((), True))))))
     (\<lambda>_. db_modify NotifyTaskQueueChanged)"
  "AsyncRecordTaskResult res rb eb =
     submit_write (transaction (db_bind (finish_task res (result_values res rb eb)) (\<lambda>_.
       db_return ((), True))))"
  by (simp_all add: RecordTaskResult_def AsyncRecordTaskResult_def finish_task_def
      db_bind_assoc [symmetric])

lemma agents_only_keep_tasks:
  "op_rel (keeps task_tables) (db_modify (record_upgrade_outcome res))"
  "op_rel (keeps task_tables) (set_desired a v p by t i)"
  "op_rel (keeps task_tables) (db_modify (\<lambda>db. db\<lparr>db_agents := f db\<rparr>))"
  "op_rel (keeps task_tables) (db_modify NotifyTaskQueueChanged)"
  "op_rel (keeps task_tables) (insert_assigned_audit e u a t task)"
  by (auto simp: op_rel_def keeps_def view_defs record_upgrade_outcome_def update_upgrading_agent_def
      fail_dependent_upgrades_def set_desired_def insert_assigned_audit_def insert_audit_def
      db_op_defs Let_def split: sum.splits)

context step_relation
begin

lemma finishing:
  assumes "\<And>db db'. finish_task request row db = (Inr (), db') \<Longrightarrow> R db db'"
    and "\<And>x. op_rel R (g x)"
  shows "op_rel R (transaction (db_bind (finish_task request row) g))"
proof (rule op_relI)
  fix db r db'
  assume run: "transaction (db_bind (finish_task request row) g) db = (r, db')"
  obtain v db1 where fin: "finish_task request row db = (v, db1)"
    by fastforce
  show "R db db'"
  proof (cases v)
    case (Inl x)
    with run fin show ?thesis
      by (simp add: transaction_def db_bind_def refl)
  next
    case (Inr x)
    with fin have "R db db1"
      by (intro assms(1)) simp
    moreover obtain w db2 where g: "g x db1 = (w, db2)"
      by fastforce
    then have "R db1 db2"
      by (rule op_relD' [OF assms(2)])
    ultimately have "R db db2"
      by (rule trans)
    with run fin Inr g refl [of db] show ?thesis
      by (auto simp: transaction_def db_bind_def split: sum.splits prod.splits if_splits)
  qed
qed

text \<open>A relation that looks at the task tables only, and that the pieces of the task operations respect.\<close>

lemma step_on_tasks:
  assumes same: "\<And>db db'. keeps task_tables db db' \<Longrightarrow> R db db'"
    and insert: "\<And>task pre. op_rel R (insert_task e task pre)"
    and run: "\<And>run. op_rel R (set_running run)"
    and assign: "\<And>i t. op_rel R (set_assigned i t)"
    and finish: "\<And>request row db db'. finish_task request row db = (Inr (), db') \<Longrightarrow>
      rr_task_id row = res_task_id request \<Longrightarrow> R db db'"
    and step: "db_step e db db'"
  shows "R db db'"
proof -
  have lift: "op_rel (keeps task_tables) m \<Longrightarrow> op_rel R m" for m :: "'a db_op"
    by (auto simp: op_rel_def intro: same)
  note rest = agents_only_keep_tasks [THEN lift]
  have claim: "op_rel R (ClaimNextTaskForAgent e uuid a t)"
    "op_rel R (AsyncClaimNextTaskForAgent e a t)" for uuid a t
    unfolding ClaimNextTaskForAgent_def AsyncClaimNextTaskForAgent_def
    by (intro composed claiming notifying assign rest agents_only_keep_tasks(4-5) [THEN lift])+
  have enqueue: "op_rel R (EnqueueTask e task)" "op_rel R (AsyncEnqueueTask e task)" for task
    unfolding EnqueueTask_def AsyncEnqueueTask_def by (intro composed insert rest)+
  have running: "op_rel R (MarkTaskRunning run)" "op_rel R (AsyncMarkTaskRunning run)" for run
    using assms(3) [of run] unfolding MarkTaskRunning_def AsyncMarkTaskRunning_def
    by (intro in_actor; auto simp: op_rel_def refl split: option.split)+
  have ids: "rr_task_id (result_values res rb eb) = res_task_id res" for res rb eb
    by (simp add: result_values_def)
  have result: "op_rel R (RecordTaskResult res rb eb)" "op_rel R (AsyncRecordTaskResult res rb eb)"
    for res rb eb
    unfolding RecordTaskResult_finish
    by (rule bind in_actor finishing finish ids rest(1,4) pure_ops | assumption)+
  have upgrade: "op_rel R (ScheduleAgentUpgrade e a v p by t task pre)" for a v p "by" t task pre
    unfolding ScheduleAgentUpgrade_def
    by (cases pre) (auto intro!: composed insert rest)
  have rollback: "op_rel R (ScheduleAgentRollback e a by t task)" for a "by" t task
    unfolding ScheduleAgentRollback_def by (intro composed upgrade rest)
  from step show ?thesis
    by (induction rule: db_step.induct)
      ((rule same, rule other_ops_keep) | (rule op_relD, rule claim enqueue running result upgrade rollback))+
qed

end

text \<open>An invariant, as the relation of the states it is carried over between.\<close>

definition carries :: "(server_database \<Rightarrow> bool) \<Rightarrow> server_database \<Rightarrow> server_database \<Rightarrow> bool" where
  "carries P db db' \<longleftrightarrow> (P db \<longrightarrow> P db')"

interpretation carried: step_relation "carries P" for P
  by unfold_locales (auto simp: carries_def)

lemma carriesI: "(P db \<Longrightarrow> P db') \<Longrightarrow> carries P db db'"
  by (simp add: carries_def)

lemma db_reachable_invariant:
  assumes "P fresh_database" and "\<And>db db'. db_step e db db' \<Longrightarrow> carries P db db'"
    and "db_reachable e db"
  shows "P db"
  using assms(3) by induction (use assms(1,2) in \<open>auto simp: carries_def\<close>)

end
