(* ===== verification/Task_Queue.thy ===== *)
theory Task_Queue
  imports Db_Steps
begin

section \<open>The task queue of the server: its specification and the refinement of it\<close>

text \<open>
  What the database promises of tasks, as a machine on a map from task ids to states
  (\<open>queue_step\<close>), and the proof that every write of the database is a run of that machine.  The
  consequences (a state is left at most once, terminal states are final, a claimed task is never
  claimed again) are proved on the machine.
\<close>

declare TaskState_ToString.simps [simp del]

subsection \<open>The specification\<close>

type_synonym queue = "string \<Rightarrow> task_state option"

inductive queue_step :: "queue \<Rightarrow> queue \<Rightarrow> bool" where
  enqueue: "q i = None \<Longrightarrow> queue_step q (q(i \<mapsto> TS_queued))"
| assign: "q i = Some TS_queued \<Longrightarrow> queue_step q (q(i \<mapsto> TS_assigned))"
| run: "q i = Some TS_assigned \<Longrightarrow> queue_step q (q(i \<mapsto> TS_running))"
| finish: "q i = Some s \<Longrightarrow> \<not> IsTerminalTaskState s \<Longrightarrow> IsTerminalTaskState t \<Longrightarrow>
    queue_step q (q(i \<mapsto> t))"

inductive queue_run :: "queue \<Rightarrow> queue \<Rightarrow> bool" where
  stay: "queue_run q q"
| more: "queue_run q q' \<Longrightarrow> queue_step q' q'' \<Longrightarrow> queue_run q q''"

inductive_cases queue_stepE: "queue_step q q'"

lemma queue_run_trans: "queue_run a b \<Longrightarrow> queue_run b c \<Longrightarrow> queue_run a c"
  by (rotate_tac, induction rule: queue_run.induct) (auto intro: queue_run.intros)

lemma queue_run_one: "queue_step q q' \<Longrightarrow> queue_run q q'"
  by (blast intro: queue_run.intros)

text \<open>How far a task has come; an unknown task has not started.\<close>

fun task_rank :: "task_state option \<Rightarrow> nat" where
  "task_rank None = 0"
| "task_rank (Some TS_queued) = 1"
| "task_rank (Some TS_assigned) = 2"
| "task_rank (Some TS_running) = 3"
| "task_rank (Some _) = 4"

lemma task_rank_terminal: "task_rank (Some s) = 4 \<longleftrightarrow> IsTerminalTaskState s"
  by (cases s) auto

lemma task_rank_le: "task_rank s \<le> 4"
  by (cases s rule: task_rank.cases) auto

lemma queue_step_rank: "queue_step q q' \<Longrightarrow> q' i = q i \<or> task_rank (q i) < task_rank (q' i)"
proof (induction rule: queue_step.induct)
  case (finish q j s t)
  then have "task_rank (Some t) = 4" "task_rank (Some s) \<noteq> 4"
    by (auto simp: task_rank_terminal)
  with finish(1) task_rank_le [of "Some s"] show ?case
    by auto
qed auto

lemma queue_run_rank: "queue_run q q' \<Longrightarrow> q' i = q i \<or> task_rank (q i) < task_rank (q' i)"
proof (induction rule: queue_run.induct)
  case (more q q' q'')
  from more.IH queue_step_rank [OF more.hyps(2), of i] show ?case
    by auto
qed simp

lemma queue_run_rank_mono: "queue_run q q' \<Longrightarrow> task_rank (q i) \<le> task_rank (q' i)"
  by (drule queue_run_rank [where i = i]) auto

lemma queue_run_terminal:
  "queue_run q q' \<Longrightarrow> q i = Some s \<Longrightarrow> IsTerminalTaskState s \<Longrightarrow> q' i = Some s"
  using queue_run_rank [of q q' i] task_rank_terminal [of s] task_rank_le [of "q' i"] by auto

subsection \<open>The states stored in the table\<close>

definition row_state :: "task_row \<Rightarrow> task_state option" where
  "row_state r = TaskStateFromString (tk_state r)"

definition task_states :: "server_database \<Rightarrow> queue" where
  "task_states db i = Option.bind (row_by tk_task_id i (db_tasks db)) row_state"

definition tasks_ok :: "server_database \<Rightarrow> bool" where
  "tasks_ok db \<longleftrightarrow>
     unique_keys tk_task_id (db_tasks db) \<and> unique_keys rr_task_id (db_task_results db) \<and>
     (\<forall>r\<in>set (db_tasks db). row_state r \<noteq> None) \<and>
     (\<forall>i. (\<exists>q\<in>set (db_task_results db). rr_task_id q = i) \<longleftrightarrow>
          (\<exists>s. task_states db i = Some s \<and> IsTerminalTaskState s))"

definition refines :: "server_database \<Rightarrow> server_database \<Rightarrow> bool" where
  "refines db db' \<longleftrightarrow>
     (tasks_ok db \<longrightarrow> tasks_ok db' \<and> queue_run (task_states db) (task_states db'))"

lemma refinesI:
  "(tasks_ok db \<Longrightarrow> tasks_ok db' \<and> queue_run (task_states db) (task_states db')) \<Longrightarrow> refines db db'"
  by (simp add: refines_def)

interpretation refinement: step_relation refines
proof
  show "refines db db" for db
    by (simp add: refines_def queue_run.stay)
  show "refines a c" if "refines a b" "refines b c" for a b c
    using that by (auto simp: refines_def intro: queue_run_trans)
qed

lemma refines_same_tables: "keeps task_tables db db' \<Longrightarrow> refines db db'"
proof -
  assume same: "keeps task_tables db db'"
  then have "task_states db' = task_states db" "tasks_ok db' = tasks_ok db"
    by (auto simp: keeps_def task_tables_def task_states_def fun_eq_iff tasks_ok_def)
  then show ?thesis
    by (simp add: refines_def queue_run.stay)
qed

lemma row_by_one:
  assumes "unique_keys key rows" and "rows_count (\<lambda>x. key x = k \<and> p x) rows = 1"
  obtains r where "row_by key k rows = Some r" and "p r"
proof -
  from rows_count_one_exists [OF assms(2)] obtain r where "r \<in> set rows" "key r = k" "p r"
    by blast
  with assms(1) have "row_by key k rows = Some r"
    by (simp add: row_by_unique)
  with \<open>p r\<close> show ?thesis
    using that by blast
qed

lemma rows_update_not_one:
  assumes "unique_keys key rows" and "rows_count (\<lambda>x. key x = k \<and> p x) rows \<noteq> 1"
  shows "rows_update (\<lambda>x. key x = k \<and> p x) f rows = rows"
  using assms by (intro rows_update_none) (auto simp: rows_count_unique_key split: if_splits)

text \<open>One row, found by its key and guarded by \<open>p\<close>, changes its state.\<close>

lemma task_states_update:
  assumes "row_by tk_task_id i (db_tasks db) = Some r0" and "p r0"
    and "\<And>r. tk_task_id (f r) = tk_task_id r"
  shows "task_states (db\<lparr>db_tasks := rows_update (\<lambda>r. tk_task_id r = i \<and> p r) f (db_tasks db)\<rparr>) =
         (task_states db)(i := row_state (f r0))"
proof
  fix j
  have "row_by tk_task_id j (rows_update (\<lambda>r. tk_task_id r = i \<and> p r) f (db_tasks db)) =
      map_option (\<lambda>r. if tk_task_id r = i \<and> p r then f r else r) (row_by tk_task_id j (db_tasks db))"
    using assms(3) by (intro row_by_update) simp
  moreover have "tk_task_id r = j" if "row_by tk_task_id j (db_tasks db) = Some r" for r
    using row_by_SomeD [OF that] by simp
  ultimately show "task_states (db\<lparr>db_tasks := rows_update (\<lambda>r. tk_task_id r = i \<and> p r) f (db_tasks db)\<rparr>) j =
      ((task_states db)(i := row_state (f r0))) j"
    using assms(1,2)
    by (cases "row_by tk_task_id j (db_tasks db)") (auto simp: task_states_def)
qed

lemma tasks_ok_update:
  assumes "tasks_ok db" and "row_by tk_task_id i (db_tasks db) = Some r0" and "p r0"
    and "\<And>r. tk_task_id (f r) = tk_task_id r" and "\<And>r. row_state (f r) = Some t"
    and "\<not> IsTerminalTaskState t" and "\<not> IsTerminalTaskState (the (row_state r0))"
  shows "tasks_ok (db\<lparr>db_tasks := rows_update (\<lambda>r. tk_task_id r = i \<and> p r) f (db_tasks db)\<rparr>)"
proof -
  let ?db' = "db\<lparr>db_tasks := rows_update (\<lambda>r. tk_task_id r = i \<and> p r) f (db_tasks db)\<rparr>"
  have states: "task_states ?db' = (task_states db)(i \<mapsto> t)"
    using task_states_update [where p = p and f = f, OF assms(2,3,4)] assms(5) by simp
  have "task_states db i = Some (the (row_state r0))"
    using assms(1,2) row_by_SomeD [OF assms(2)] by (auto simp: task_states_def tasks_ok_def)
  with assms states show ?thesis
    by (auto simp: tasks_ok_def set_rows_update intro!: unique_keys_update)
qed

subsection \<open>The pieces of the operations\<close>

lemma row_state_text [simp]: "tk_state r = state_text s \<Longrightarrow> row_state r = Some s"
  by (simp add: row_state_def)

lemma insert_task_refines: "op_rel refines (insert_task e task pre)"
proof (rule op_relI, rule refinesI)
  fix db r db'
  assume ins: "insert_task e task pre db = (r, db')" and ok: "tasks_ok db"
  from ins show "tasks_ok db' \<and> queue_run (task_states db) (task_states db')"
  proof (cases rule: insert_taskE)
    case failed
    with ok show ?thesis by (simp add: queue_run.stay)
  next
    case (inserted blob rows)
    let ?row = "task_values task blob pre"
    have row: "row_state ?row = Some TS_queued"
      by (simp add: task_values_def)
    note rows = inserted(3)
    have fresh: "row_by tk_task_id (tk_task_id ?row) (db_tasks db) = None"
      using rows by (auto simp: rows_insert_Inr_iff row_by_None_iff)
    have states: "task_states db' = (task_states db)(tk_task_id ?row \<mapsto> TS_queued)"
      using row by (auto simp: fun_eq_iff task_states_def inserted(4) row_by_insert [OF rows])
    have unseen: "task_states db (tk_task_id ?row) = None"
      using fresh by (simp add: task_states_def)
    have "unique_keys tk_task_id rows"
      using ok unique_keys_insert [OF _ rows] by (simp add: tasks_ok_def)
    moreover have "\<forall>r\<in>set rows. row_state r \<noteq> None"
      using ok rows row by (auto simp: tasks_ok_def rows_insert_Inr_iff)
    moreover have "(\<exists>s. task_states db' i = Some s \<and> IsTerminalTaskState s) \<longleftrightarrow>
        (\<exists>s. task_states db i = Some s \<and> IsTerminalTaskState s)" for i
      using unseen by (simp add: states)
    ultimately have "tasks_ok db'"
      using ok by (simp add: tasks_ok_def inserted(4))
    with states unseen show ?thesis
      by (auto intro!: queue_run_one queue_step.enqueue)
  qed
qed

lemma state_update_refines:
  assumes "\<And>r. tk_task_id (f r) = tk_task_id r" and "\<And>r. row_state (f r) = Some t"
    and "\<not> IsTerminalTaskState s" and "\<not> IsTerminalTaskState t"
    and "\<And>q :: queue. q i = Some s \<Longrightarrow> queue_step q (q(i \<mapsto> t))"
  shows "refines db (db\<lparr>db_tasks :=
           rows_update (\<lambda>r. tk_task_id r = i \<and> tk_state r = state_text s) f (db_tasks db)\<rparr>)"
proof (rule refinesI)
  assume ok: "tasks_ok db"
  then have uniq: "unique_keys tk_task_id (db_tasks db)"
    by (simp add: tasks_ok_def)
  let ?p = "\<lambda>r. tk_state r = state_text s"
  show "tasks_ok (db\<lparr>db_tasks := rows_update (\<lambda>r. tk_task_id r = i \<and> ?p r) f (db_tasks db)\<rparr>) \<and>
      queue_run (task_states db)
        (task_states (db\<lparr>db_tasks := rows_update (\<lambda>r. tk_task_id r = i \<and> ?p r) f (db_tasks db)\<rparr>))"
  proof (cases "rows_count (\<lambda>r. tk_task_id r = i \<and> ?p r) (db_tasks db) = 1")
    case True
    from row_by_one [OF uniq True] obtain r0
      where r0: "row_by tk_task_id i (db_tasks db) = Some r0" "?p r0" .
    then have "task_states db i = Some s"
      by (simp add: task_states_def)
    then have "queue_step (task_states db) ((task_states db)(i \<mapsto> t))"
      by (rule assms(5))
    with tasks_ok_update [where p = ?p and f = f and t = t, OF ok r0] task_states_update [where p = ?p and f = f, OF r0]
      assms r0 show ?thesis
      by (auto intro: queue_run_one)
  next
    case False
    with rows_update_not_one [OF uniq] ok show ?thesis
      by (simp add: queue_run.stay)
  qed
qed

lemma set_running_refines: "op_rel refines (set_running run)"
  by (rule op_relI)
    (auto simp: set_running_def Let_def row_state_def
      intro!: state_update_refines [where t = TS_running] queue_step.run split: if_splits)

lemma set_assigned_refines: "op_rel refines (set_assigned i t)"
  by (rule op_relI)
    (auto simp: set_assigned_def Let_def row_state_def
      intro!: state_update_refines [where t = TS_assigned] queue_step.assign)

text \<open>A result and the terminal state it brings about, in one transaction.\<close>

lemma terminal_of [simp]: "IsTerminalTaskState (terminal_state_of s)"
  by (simp add: terminal_state_of_def)

lemma open_state_iff:
  "row_state r = Some s \<Longrightarrow>
   tk_state r \<notin> {state_text TS_succeeded, state_text TS_failed, state_text TS_expired} \<longleftrightarrow>
   \<not> IsTerminalTaskState s"
  using task_state_names.to_from [of "tk_state r" s]
  by (cases s) (auto simp: row_state_def)

lemma finish_task_refines:
  assumes "finish_task request row db = (Inr (), db')" and "rr_task_id row = res_task_id request"
  shows "refines db db'"
proof (rule refinesI)
  assume ok: "tasks_ok db"
  let ?i = "res_task_id request"
  let ?p = "\<lambda>r. tk_state r \<notin> {state_text TS_succeeded, state_text TS_failed, state_text TS_expired}"
  let ?f = "\<lambda>r. r\<lparr>tk_state := state_text (terminal_state_of (res_status request)),
                   tk_completed_at := Some (res_occurred_at request)\<rparr>"
  from ok have uniq: "unique_keys tk_task_id (db_tasks db)"
    by (simp add: tasks_ok_def)
  from assms(1) obtain results where
    results: "rows_insert rr_task_id row (db_task_results db) = Inr results" and
    one: "rows_count (\<lambda>r. tk_task_id r = ?i \<and> ?p r) (db_tasks db) = 1" and
    db': "db' = db\<lparr>db_task_results := results,
                   db_tasks := rows_update (\<lambda>r. tk_task_id r = ?i \<and> ?p r) ?f (db_tasks db)\<rparr>"
    by (rule finish_taskE)
  from row_by_one [OF uniq one] obtain r0
    where r0: "row_by tk_task_id ?i (db_tasks db) = Some r0" "?p r0" .
  then obtain s where s: "row_state r0 = Some s"
    using ok row_by_SomeD [OF r0(1)] by (auto simp: tasks_ok_def)
  then have open_s: "\<not> IsTerminalTaskState s"
    using open_state_iff r0(2) by blast
  have at: "task_states db ?i = Some s"
    using r0 s by (simp add: task_states_def)
  have "task_states db' = task_states (db\<lparr>db_tasks :=
      rows_update (\<lambda>r. tk_task_id r = ?i \<and> ?p r) ?f (db_tasks db)\<rparr>)"
    by (simp add: db' task_states_def fun_eq_iff)
  then have states: "task_states db' =
      (task_states db)(?i \<mapsto> terminal_state_of (res_status request))"
    using task_states_update [where p = ?p and f = ?f, OF r0] by (simp add: row_state_def)
  have "tasks_ok db'"
    using ok results states assms(2) at open_s unique_keys_insert [OF _ results]
    unfolding tasks_ok_def
    by (auto simp: db' rows_insert_Inr_iff set_rows_update row_state_def intro!: unique_keys_update)
  moreover have "queue_run (task_states db) (task_states db')"
    unfolding states using at open_s
    by (intro queue_run_one queue_step.finish [where s = s]) simp_all
  ultimately show "tasks_ok db' \<and> queue_run (task_states db) (task_states db')" ..
qed


subsection \<open>The refinement\<close>

lemma db_step_refines: "db_step e db db' \<Longrightarrow> refines db db'"
  by (rule refinement.step_on_tasks)
    (auto intro: refines_same_tables insert_task_refines set_running_refines set_assigned_refines
      finish_task_refines)

lemma tasks_ok_fresh [simp]: "tasks_ok fresh_database"
  by (simp add: tasks_ok_def fresh_database_def task_states_def row_by_def)

lemma db_reachable_tasks_ok: "db_reachable e db \<Longrightarrow> tasks_ok db"
  by (rule db_reachable_invariant [of tasks_ok])
    (auto simp: carries_def refines_def dest: db_step_refines)

lemma db_runs_refines: "db_runs e db db' \<Longrightarrow> refines db db'"
  by (induction rule: db_runs.induct) (blast intro: refinement.refl refinement.trans db_step_refines)+

lemma db_runs_queue:
  assumes "db_reachable e db" and "db_runs e db db'"
  shows "queue_run (task_states db) (task_states db')"
  using db_runs_refines [OF assms(2)] db_reachable_tasks_ok [OF assms(1)] by (simp add: refines_def)

text \<open>What is stored can be read back.\<close>

definition faithful_inputs :: "ext \<Rightarrow> bool" where
  "faithful_inputs e \<longleftrightarrow>
     faithful (w_ser_inventory_input (ext_wire e)) (w_parse_inventory_input (ext_wire e)) \<and>
     faithful (w_ser_update_input (ext_wire e)) (w_parse_update_input (ext_wire e))"

definition rows_readable :: "ext \<Rightarrow> server_database \<Rightarrow> bool" where
  "rows_readable e db \<longleftrightarrow> (\<forall>r\<in>set (db_tasks db). \<exists>t. ParseStoredTask e r = Inr t)"

lemma ParseStoredTask_values:
  assumes "faithful_inputs e"
    and "SerializeTaskInputBlob (ext_wire e) (task_task_type task) (task_input_data task) = Inr blob"
  shows "ParseStoredTask e (task_values task blob pre) =
           Inr (task\<lparr>task_input_data := norm_input (task_task_type task) (task_input_data task)\<rparr>)"
  using ParseTaskInputBlob_Serialize [OF _ _ assms(2)] assms(1)
  by (simp add: ParseStoredTask_def task_values_def faithful_inputs_def)

lemma ParseStoredTask_cong:
  assumes "tk_task_type r' = tk_task_type r" "tk_capability_level r' = tk_capability_level r"
    "tk_input_blob r' = tk_input_blob r" "tk_protocol_version r' = tk_protocol_version r"
    "tk_task_id r' = tk_task_id r" "tk_agent_id r' = tk_agent_id r"
    "tk_created_at r' = tk_created_at r" "tk_expires_at r' = tk_expires_at r"
  shows "ParseStoredTask e r' = ParseStoredTask e r"
  using assms by (simp add: ParseStoredTask_def)

lemma ParseStoredTask_finished:
  "ParseStoredTask e (r\<lparr>tk_state := s, tk_completed_at := c\<rparr>) = ParseStoredTask e r"
  by (simp add: ParseStoredTask_def)

lemma rows_readable_update:
  assumes "\<And>r. ParseStoredTask e (f r) = ParseStoredTask e r"
  shows "rows_readable e db \<Longrightarrow> rows_readable e (db\<lparr>db_tasks := rows_update p f (db_tasks db)\<rparr>)"
  using assms by (auto simp: rows_readable_def set_rows_update)

lemma db_step_readable:
  assumes "faithful_inputs e" and "db_step e db db'"
  shows "carries (rows_readable e) db db'"
proof (rule carried.step_on_tasks [OF _ _ _ _ _ assms(2)])
  show "carries (rows_readable e) db db'" if "keeps task_tables db db'" for db db'
    using that by (simp add: carries_def keeps_def task_tables_def rows_readable_def)
  show "op_rel (carries (rows_readable e)) (insert_task e task pre)" for task pre
  proof (rule op_relI, rule carriesI)
    fix db r db'
    assume "insert_task e task pre db = (r, db')" and ok: "rows_readable e db"
    then show "rows_readable e db'"
      by (cases rule: insert_taskE)
        (auto simp: rows_readable_def rows_insert_Inr_iff ParseStoredTask_values [OF assms(1)])
  qed
  show "op_rel (carries (rows_readable e)) (set_running run)" for run
    by (rule op_relI)
      (auto simp: set_running_def Let_def intro!: carriesI rows_readable_update ParseStoredTask_cong
        split: if_splits)
  show "op_rel (carries (rows_readable e)) (set_assigned i t)" for i t
    by (rule op_relI)
      (auto simp: set_assigned_def Let_def intro!: carriesI rows_readable_update ParseStoredTask_cong)
  show "carries (rows_readable e) db db'"
    if "finish_task request row db = (Inr (), db')" for request row db db'
    using that
    by (auto elim!: finish_taskE simp: carries_def rows_readable_def set_rows_update
        ParseStoredTask_finished)
qed

lemma db_reachable_readable: "faithful_inputs e \<Longrightarrow> db_reachable e db \<Longrightarrow> rows_readable e db"
  by (rule db_reachable_invariant [of "rows_readable e"])
    (auto intro: db_step_readable simp: rows_readable_def fresh_database_def)

end
