(* ===== verification/Task_Claims.thy ===== *)
theory Task_Claims
  imports Task_Queue
begin

section \<open>Claiming and finishing tasks: what the queue's operations guarantee\<close>

text \<open>
  The properties of the task operations of the database in every reachable state: which task a
  claim returns, that it is returned once, that terminal states are final, when a result is
  accepted, and what a failed prerequisite means for the task that waits for it.
\<close>

subsection \<open>Claims\<close>

lemma claim_bodyE:
  assumes "claim_body e audit a t db = (Inr (c, committed), db')"
  obtains (none) "c = None" "\<not> committed" "next_task_row e a t db = None"
  | (lost) row task where "c = None" "\<not> committed" "next_task_row e a t db = Some row"
      "ParseStoredTask e row = Inr task"
      "rows_count (\<lambda>r. tk_task_id r = task_task_id task \<and> tk_state r = state_text TS_queued) (db_tasks db) \<noteq> 1"
  | (claimed) row task where "c = Some task" "committed" "next_task_row e a t db = Some row"
      "ParseStoredTask e row = Inr task"
      "audit task (snd (set_assigned (task_task_id task) t db)) = (Inr (), db')"
proof (cases "next_task_row e a t db")
  case None
  with assms none show ?thesis
    by (simp add: claim_body_def)
next
  case (Some row)
  obtain task where task: "ParseStoredTask e row = Inr task"
    using assms Some by (cases "ParseStoredTask e row") (auto simp: claim_body_def db_op_defs)
  show ?thesis
  proof (cases "rows_count (\<lambda>r. tk_task_id r = task_task_id task \<and> tk_state r = state_text TS_queued) (db_tasks db) = 1")
    case False
    with assms Some task lost show ?thesis
      by (simp add: claim_body_def db_op_defs set_assigned_def Let_def)
  next
    case True
    let ?db1 = "snd (set_assigned (task_task_id task) t db)"
    obtain v db2 where audit: "audit task ?db1 = (v, db2)"
      by fastforce
    with assms Some task True have "v = Inr () \<and> db2 = db' \<and> c = Some task \<and> committed"
      by (cases v) (auto simp: claim_body_def db_op_defs set_assigned_def Let_def)
    with Some task audit claimed show ?thesis
      by simp
  qed
qed

lemma next_task_row_Some:
  assumes "next_task_row e a t db = Some row" and "orders_by_created (ext_first_created e)"
  shows "row \<in> set (db_tasks db)" and "claimable (db_tasks db) a t row"
    and "\<And>r. r \<in> set (db_tasks db) \<Longrightarrow> claimable (db_tasks db) a t r \<Longrightarrow> tk_created_at row \<le> tk_created_at r"
proof -
  let ?rows = "filter (claimable (db_tasks db) a t) (db_tasks db)"
  have "?rows \<noteq> []" and row: "row = ext_first_created e ?rows"
    using assms(1) by (auto simp: next_task_row_def Let_def split: if_splits)
  then have "row \<in> set ?rows" "\<forall>r\<in>set ?rows. tk_created_at row \<le> tk_created_at r"
    using assms(2) unfolding orders_by_created_def by blast+
  then show "row \<in> set (db_tasks db)" "claimable (db_tasks db) a t row"
    "\<And>r. r \<in> set (db_tasks db) \<Longrightarrow> claimable (db_tasks db) a t r \<Longrightarrow> tk_created_at row \<le> tk_created_at r"
    by auto
qed

lemma next_task_row_None:
  "next_task_row e a t db = None \<longleftrightarrow> (\<forall>r\<in>set (db_tasks db). \<not> claimable (db_tasks db) a t r)"
  by (auto simp: next_task_row_def Let_def filter_empty_conv)

lemma ParseStoredTask_id: "ParseStoredTask e r = Inr task \<Longrightarrow> task_task_id task = tk_task_id r"
  by (auto simp: ParseStoredTask_def bind_res_Inr_iff)

lemma claimable_queued: "claimable tasks a t r \<Longrightarrow> tk_state r = state_text TS_queued"
  by (simp add: claimable_def)

lemma set_assigned_row:
  assumes "tasks_ok db" and "row \<in> set (db_tasks db)" and "tk_state row = state_text TS_queued"
  shows "rows_count (\<lambda>r. tk_task_id r = tk_task_id row \<and> tk_state r = state_text TS_queued) (db_tasks db) = 1"
    and "rows_update (\<lambda>r. tk_task_id r = tk_task_id row \<and> tk_state r = state_text TS_queued) f (db_tasks db) =
         map (\<lambda>r. if r = row then f r else r) (db_tasks db)"
proof -
  from assms(1) have uniq: "unique_keys tk_task_id (db_tasks db)"
    by (simp add: tasks_ok_def)
  then show "rows_count (\<lambda>r. tk_task_id r = tk_task_id row \<and> tk_state r = state_text TS_queued) (db_tasks db) = 1"
    using assms(2,3) by (auto simp: rows_count_unique_key)
  show "rows_update (\<lambda>r. tk_task_id r = tk_task_id row \<and> tk_state r = state_text TS_queued) f (db_tasks db) =
      map (\<lambda>r. if r = row then f r else r) (db_tasks db)"
    unfolding rows_update_def using assms(2,3) unique_keys_inj [OF uniq]
    by (intro map_cong) auto
qed

text \<open>Both claim operations, whatever they do for the audit log.\<close>

lemma claim_transaction:
  assumes "transaction (claim_body e audit a t) db = (Inr c, db')"
    and "tasks_ok db" and "orders_by_created (ext_first_created e)"
  shows "case c of
           None \<Rightarrow> (\<forall>r\<in>set (db_tasks db). \<not> claimable (db_tasks db) a t r) \<and> db' = db
         | Some task \<Rightarrow> (\<exists>row\<in>set (db_tasks db). claimable (db_tasks db) a t row \<and>
             (\<forall>r\<in>set (db_tasks db). claimable (db_tasks db) a t r \<longrightarrow> tk_created_at row \<le> tk_created_at r) \<and>
             ParseStoredTask e row = Inr task \<and>
             audit task (db\<lparr>db_tasks := map (\<lambda>r. if r = row
               then r\<lparr>tk_state := state_text TS_assigned, tk_assigned_at := Some t\<rparr> else r)
               (db_tasks db)\<rparr>) = (Inr (), db'))"
proof -
  obtain committed db1 where body: "claim_body e audit a t db = (Inr (c, committed), db1)"
    and db': "db' = (if committed then db1 else db)"
    using assms(1) by (auto simp: transaction_def split: prod.splits sum.splits)
  from body show ?thesis
  proof (cases rule: claim_bodyE)
    case none
    with db' show ?thesis by (simp add: next_task_row_None)
  next
    case (lost row task)
    note row = next_task_row_Some [OF lost(3) assms(3)]
    have False
      using lost(5) set_assigned_row(1) [OF assms(2) row(1) claimable_queued [OF row(2)]]
        ParseStoredTask_id [OF lost(4)] by simp
    then show ?thesis ..
  next
    case (claimed row task)
    note row = next_task_row_Some [OF claimed(3) assms(3)]
    have "snd (set_assigned (task_task_id task) t db) = db\<lparr>db_tasks := map (\<lambda>r. if r = row
               then r\<lparr>tk_state := state_text TS_assigned, tk_assigned_at := Some t\<rparr> else r) (db_tasks db)\<rparr>"
      using set_assigned_row(2) [OF assms(2) row(1) claimable_queued [OF row(2)]]
        ParseStoredTask_id [OF claimed(4)] by (simp add: set_assigned_def Let_def)
    with claimed row db' show ?thesis
      by auto
  qed
qed

lemma ClaimNext_transaction:
  assumes "ClaimNextTaskForAgent e uuid a t db = (Inr c, db')"
  obtains db1 where "transaction (claim_body e (insert_assigned_audit e uuid a t) a t) db = (Inr c, db1)"
    and "db' = (if c = None then db1 else NotifyTaskQueueChanged db1)"
  using assms
  by (auto simp: ClaimNextTaskForAgent_def submit_write_def notify_claim_def db_op_defs
      split: if_splits prod.splits sum.splits)

lemma AsyncClaimNext_transaction:
  assumes "AsyncClaimNextTaskForAgent e a t db = (Inr c, db')"
  obtains db1 where "transaction (claim_body e (\<lambda>_. db_return ()) a t) db = (Inr c, db1)"
    and "db' = (if c = None then db1 else NotifyTaskQueueChanged db1)"
  using assms
  by (auto simp: AsyncClaimNextTaskForAgent_def submit_write_def notify_claim_def db_op_defs
      split: if_splits prod.splits sum.splits)

lemma insert_assigned_audit_Inr:
  assumes "insert_assigned_audit e uuid a t task db = (Inr (), db')"
  obtains payload where "db' = db\<lparr>db_audit_events := db_audit_events db @
      [\<lparr>au_audit_id = uuid, au_occurred_at = t, au_agent_id = Some a,
        au_event_type = ''task.assigned'', au_request_id = Some (task_task_id task),
        au_result = ''success'', au_payload_json = payload\<rparr>]\<rparr>"
  using assms
  by (auto simp: insert_assigned_audit_def insert_audit_def db_op_defs rows_insert_Inr_iff
      split: sum.splits)


lemma insert_assigned_audit_tasks:
  "insert_assigned_audit e uuid a t task db = (Inr (), db') \<Longrightarrow> db_tasks db' = db_tasks db"
  by (erule insert_assigned_audit_Inr) simp

text \<open>The task row a claim by either variant takes.\<close>

lemma claimed_row:
  assumes "ClaimNextTaskForAgent e uuid a t db = (Inr (Some task), db') \<or>
           AsyncClaimNextTaskForAgent e a t db = (Inr (Some task), db')"
    and "tasks_ok db" and "orders_by_created (ext_first_created e)"
  obtains row where "row \<in> set (db_tasks db)" "claimable (db_tasks db) a t row"
    "ParseStoredTask e row = Inr task"
    "db_tasks db' = map (\<lambda>r. if r = row
       then r\<lparr>tk_state := state_text TS_assigned, tk_assigned_at := Some t\<rparr> else r) (db_tasks db)"
proof -
  have "\<exists>audit db1. transaction (claim_body e audit a t) db = (Inr (Some task), db1) \<and>
      db_tasks db' = db_tasks db1 \<and>
      (\<forall>x y. audit task x = (Inr (), y) \<longrightarrow> db_tasks y = db_tasks x)"
    using assms(1)
  proof
    assume "ClaimNextTaskForAgent e uuid a t db = (Inr (Some task), db')"
    then obtain db1
      where "transaction (claim_body e (insert_assigned_audit e uuid a t) a t) db = (Inr (Some task), db1)"
        and "db' = NotifyTaskQueueChanged db1"
      by (auto elim: ClaimNext_transaction)
    then show ?thesis
      using insert_assigned_audit_tasks by fastforce
  next
    assume "AsyncClaimNextTaskForAgent e a t db = (Inr (Some task), db')"
    then obtain db1
      where "transaction (claim_body e (\<lambda>_. db_return ()) a t) db = (Inr (Some task), db1)"
        and "db' = NotifyTaskQueueChanged db1"
      by (auto elim: AsyncClaimNext_transaction)
    then show ?thesis
      by (intro exI [of _ "\<lambda>_. db_return ()"] exI [of _ db1]) (auto simp: db_return_def)
  qed
  then obtain audit db1 where tr: "transaction (claim_body e audit a t) db = (Inr (Some task), db1)"
    and db': "db_tasks db' = db_tasks db1"
    and keep: "\<And>x y. audit task x = (Inr (), y) \<Longrightarrow> db_tasks y = db_tasks x"
    by blast
  from claim_transaction [OF tr assms(2,3)] obtain row
    where "row \<in> set (db_tasks db)" "claimable (db_tasks db) a t row" "ParseStoredTask e row = Inr task"
      and "audit task (db\<lparr>db_tasks := map (\<lambda>r. if r = row
          then r\<lparr>tk_state := state_text TS_assigned, tk_assigned_at := Some t\<rparr> else r) (db_tasks db)\<rparr>) =
        (Inr (), db1)"
    by auto
  with keep db' that show ?thesis
    by fastforce
qed

lemma claimed_states:
  assumes "ClaimNextTaskForAgent e uuid a t db = (Inr (Some task), db') \<or>
           AsyncClaimNextTaskForAgent e a t db = (Inr (Some task), db')"
    and "tasks_ok db" and "orders_by_created (ext_first_created e)"
  shows "task_states db (task_task_id task) = Some TS_queued"
    and "task_states db' (task_task_id task) = Some TS_assigned"
proof -
  from claimed_row [OF assms] obtain row
    where row: "row \<in> set (db_tasks db)" "claimable (db_tasks db) a t row" "ParseStoredTask e row = Inr task"
      and tasks: "db_tasks db' = map (\<lambda>r. if r = row
       then r\<lparr>tk_state := state_text TS_assigned, tk_assigned_at := Some t\<rparr> else r) (db_tasks db)" .
  note i = ParseStoredTask_id [OF row(3)]
  note queued = claimable_queued [OF row(2)]
  have found: "row_by tk_task_id (task_task_id task) (db_tasks db) = Some row"
    using assms(2) row(1) i by (simp add: tasks_ok_def row_by_unique)
  then show "task_states db (task_task_id task) = Some TS_queued"
    using queued by (simp add: task_states_def)
  have "row_by tk_task_id (task_task_id task) (db_tasks db') =
      Some (row\<lparr>tk_state := state_text TS_assigned, tk_assigned_at := Some t\<rparr>)"
    using found row_by_update [where rows = "db_tasks db" and p = "\<lambda>r. r = row" and key = tk_task_id
        and f = "\<lambda>r. r\<lparr>tk_state := state_text TS_assigned, tk_assigned_at := Some t\<rparr>"]
    by (simp add: tasks rows_update_def)
  then show "task_states db' (task_task_id task) = Some TS_assigned"
    by (simp add: task_states_def)
qed

subsection \<open>A database to try the properties on\<close>

definition demo_ext :: ext where
  "demo_ext =
     \<lparr>ext_wire = demo_wire, ext_dump_strings = (\<lambda>_. Inr ''[]''), ext_parse_strings = (\<lambda>_. Inr []),
      ext_audit_payload = (\<lambda>_. Inr ''{}''),
      ext_first_created = (\<lambda>rows. hd (order_by (\<lambda>r s. tk_created_at r \<le> tk_created_at s) rows)),
      ext_overdue = (\<lambda>at now. at < now), ext_concat_order = (\<lambda>rows. rows)\<rparr>"

definition demo_task :: task where
  "demo_task =
     \<lparr>task_protocol_version = ''v1'', task_task_id = ''t1'', task_agent_id = ''a'',
      task_task_type = TT_collect_basic_inventory, task_capability_level = CL_readonly,
      task_created_at = ''1'', task_expires_at = ''9'',
      task_input_data = CollectBasicInventoryInput\<rparr>"

definition demo_queue :: server_database where
  "demo_queue = snd (EnqueueTask demo_ext demo_task fresh_database)"

definition demo_result :: task_result where
  "demo_result =
     \<lparr>res_protocol_version = ''v1'', res_request_id = ''r'', res_task_id = ''t1'',
      res_agent_id = ''a'', res_task_type = TT_collect_basic_inventory, res_occurred_at = ''3'',
      res_status = TE_succeeded, res_result = None, res_error = None\<rparr>"

lemma demo_ext_laws:
  "orders_by_created (ext_first_created demo_ext)" "faithful_inputs demo_ext"
proof -
  let ?le = "\<lambda>r s. tk_created_at r \<le> tk_created_at s"
  have "hd (order_by ?le rows) \<in> set rows \<and> (\<forall>r\<in>set rows. ?le (hd (order_by ?le rows)) r)"
    if "rows \<noteq> []" for rows :: "task_row list"
  proof -
    obtain x xs where sorted: "order_by ?le rows = x # xs"
      using \<open>rows \<noteq> []\<close> length_order_by [of ?le rows] by (cases "order_by ?le rows") auto
    have "sorted_wrt ?le (x # xs)"
      using sorted_order_by [of ?le rows] sorted by (simp add: linear)
    moreover have "set rows = set (x # xs)"
      by (metis set_order_by sorted)
    ultimately show ?thesis
      using sorted by auto
  qed
  then show "orders_by_created (ext_first_created demo_ext)"
    by (simp add: orders_by_created_def demo_ext_def)
  show "faithful_inputs demo_ext"
    using demo_wire_faithful by (simp add: faithful_inputs_def demo_ext_def)
qed

lemma demo_serialize [simp]:
  "SerializeTaskInputBlob (ext_wire demo_ext) TT_collect_basic_inventory CollectBasicInventoryInput = Inr []"
  by (simp add: demo_ext_def demo_wire_def SerializeTaskInputBlob_def SerializeProto_def Let_def)

lemma demo_queue_reachable: "db_reachable demo_ext demo_queue"
  unfolding demo_queue_def by (rule db_reachable.step [OF db_reachable.start db_step.enqueue])

lemma fresh_tables [simp]:
  "db_agents fresh_database = []" "db_asset_snapshots fresh_database = []"
  "db_last_snapshot_id fresh_database = 0" "db_audit_events fresh_database = []"
  "db_tasks fresh_database = []" "db_task_results fresh_database = []"
  "db_agent_packages fresh_database = []" "db_package_publications fresh_database = []"
  "db_registration_tokens fresh_database = []" "\<not> write_actor_stopping fresh_database"
  by (simp_all add: fresh_database_def)

lemma demo_row [simp]:
  "tk_task_id (task_values demo_task [] None) = ''t1''"
  "tk_state (task_values demo_task [] None) = state_text TS_queued"
  "task_task_id demo_task = ''t1''" "task_task_type demo_task = TT_collect_basic_inventory"
  "task_input_data demo_task = CollectBasicInventoryInput"
  by (simp_all add: task_values_def demo_task_def)

lemma demo_enqueue:
  "EnqueueTask demo_ext demo_task fresh_database =
     (Inr (), NotifyTaskQueueChanged (fresh_database\<lparr>db_tasks := [task_values demo_task [] None]\<rparr>))"
  by (simp add: EnqueueTask_def submit_write_def insert_task_def db_op_defs rows_insert_def)

lemma demo_queue_tables:
  "db_tasks demo_queue = [task_values demo_task [] None]" "write_actor_stopping demo_queue = False"
  "db_task_results demo_queue = []" "db_audit_events demo_queue = []" "db_agents demo_queue = []"
  by (simp_all add: demo_queue_def demo_enqueue)

lemma demo_task_states: "task_states demo_queue ''t1'' = Some TS_queued"
  by (simp add: task_states_def demo_queue_tables row_by_def)

lemma demo_claimable: "claimable (db_tasks demo_queue) ''a'' ''2'' (task_values demo_task [] None)"
  by (simp add: claimable_def task_values_def demo_task_def less_char_def)

lemma demo_parse: "ParseStoredTask demo_ext (task_values demo_task [] None) = Inr demo_task"
  using ParseStoredTask_values [OF demo_ext_laws(2), of demo_task "[]" None]
  by (simp add: demo_task_def norm_input_def)

lemma demo_claim:
  "ClaimNextTaskForAgent demo_ext ''u'' ''a'' ''2'' demo_queue =
     (Inr (Some demo_task), NotifyTaskQueueChanged (demo_queue\<lparr>
        db_tasks := [(task_values demo_task [] None)\<lparr>tk_state := state_text TS_assigned,
                                                    tk_assigned_at := Some ''2''\<rparr>],
        db_audit_events := [\<lparr>au_audit_id = ''u'', au_occurred_at = ''2'', au_agent_id = Some ''a'',
          au_event_type = ''task.assigned'', au_request_id = Some ''t1'', au_result = ''success'',
          au_payload_json = ''{}''\<rparr>]\<rparr>))"
proof -
  have "next_task_row demo_ext ''a'' ''2'' demo_queue = Some (task_values demo_task [] None)"
    using demo_claimable
    by (simp add: next_task_row_def demo_queue_tables Let_def)
      (simp add: demo_ext_def)
  moreover have "ext_audit_payload demo_ext fields = Inr ''{}''" for fields
    by (simp add: demo_ext_def)
  ultimately show ?thesis
    using demo_parse
    by (simp add: ClaimNextTaskForAgent_def submit_write_def transaction_def claim_body_def
        set_assigned_def insert_assigned_audit_def insert_audit_def notify_claim_def db_op_defs
        Let_def rows_count_def rows_insert_def demo_queue_tables)
qed


text \<open>A second task, enqueued after the first has been claimed.\<close>

definition demo_task2 :: task where
  "demo_task2 = demo_task\<lparr>task_task_id := ''t2''\<rparr>"

definition demo_claimed :: server_database where
  "demo_claimed = snd (ClaimNextTaskForAgent demo_ext ''u'' ''a'' ''2'' demo_queue)"

definition demo_queue2 :: server_database where
  "demo_queue2 = snd (EnqueueTask demo_ext demo_task2 demo_claimed)"

lemma demo_row2 [simp]:
  "tk_task_id (task_values demo_task2 [] None) = ''t2''"
  "tk_state (task_values demo_task2 [] None) = state_text TS_queued"
  "task_task_id demo_task2 = ''t2''" "task_task_type demo_task2 = TT_collect_basic_inventory"
  "task_input_data demo_task2 = CollectBasicInventoryInput"
  by (simp_all add: task_values_def demo_task2_def)

lemma demo_claimed_tables:
  "db_tasks demo_claimed = [(task_values demo_task [] None)\<lparr>tk_state := state_text TS_assigned,
                                                    tk_assigned_at := Some ''2''\<rparr>]"
  "\<not> write_actor_stopping demo_claimed"
  by (simp_all add: demo_claimed_def demo_claim demo_queue_tables)

lemma demo_queue2_tables:
  "db_tasks demo_queue2 = [(task_values demo_task [] None)\<lparr>tk_state := state_text TS_assigned,
      tk_assigned_at := Some ''2''\<rparr>, task_values demo_task2 [] None]"
  "\<not> write_actor_stopping demo_queue2"
  using demo_claimed_tables
  by (simp_all add: demo_queue2_def EnqueueTask_def submit_write_def insert_task_def db_op_defs
      rows_insert_def)

lemma demo_claim2:
  "fst (AsyncClaimNextTaskForAgent demo_ext ''a'' ''3'' demo_queue2) = Inr (Some demo_task2)"
proof -
  have claimable: "claimable (db_tasks demo_queue2) ''a'' ''3'' (task_values demo_task2 [] None)"
    by (simp add: claimable_def task_values_def demo_task2_def demo_task_def less_char_def)
  have "\<not> claimable (db_tasks demo_queue2) ''a'' ''3'' ((task_values demo_task [] None)
      \<lparr>tk_state := state_text TS_assigned, tk_assigned_at := Some ''2''\<rparr>)"
    by (simp add: claimable_def)
  with claimable have "filter (claimable (db_tasks demo_queue2) ''a'' ''3'') (db_tasks demo_queue2) =
      [task_values demo_task2 [] None]"
    by (subst (2) demo_queue2_tables(1)) simp
  then have "next_task_row demo_ext ''a'' ''3'' demo_queue2 = Some (task_values demo_task2 [] None)"
    by (simp add: next_task_row_def Let_def demo_ext_def)
  moreover have "ParseStoredTask demo_ext (task_values demo_task2 [] None) = Inr demo_task2"
    using ParseStoredTask_values [OF demo_ext_laws(2), of demo_task2 "[]" None]
    by (simp add: demo_task2_def demo_task_def norm_input_def)
  ultimately show ?thesis
    by (simp add: AsyncClaimNextTaskForAgent_def submit_write_def transaction_def claim_body_def
        set_assigned_def notify_claim_def db_op_defs Let_def rows_count_def demo_queue2_tables)
qed

subsection \<open>Properties\<close>

text \<open>
  C17: What a claim returns.  In a reachable database a successful \<open>ClaimNextTaskForAgent\<close> returns
  nothing exactly when no task is claimable (queued for that agent, unexpired, its prerequisite
  succeeded) and then changes nothing; otherwise it returns a claimable task that no claimable task
  precedes in creation time, that row and no other becomes assigned at the given time, and one
  \<open>task.assigned\<close> audit event is appended.
\<close>

theorem claim_next_task:
  assumes "db_reachable e db" and "orders_by_created (ext_first_created e)"
    and "ClaimNextTaskForAgent e uuid a t db = (Inr claimed, db')"
  shows "case claimed of
      None \<Rightarrow> (\<forall>r\<in>set (db_tasks db). \<not> claimable (db_tasks db) a t r) \<and> db' = db
    | Some task \<Rightarrow> (\<exists>row\<in>set (db_tasks db). claimable (db_tasks db) a t row \<and>
        tk_agent_id row = a \<and> tk_state row = ''queued'' \<and> t < tk_expires_at row \<and>
        (\<forall>p. tk_prerequisite_task_id row = Some p \<longrightarrow>
           (\<exists>q\<in>set (db_tasks db). tk_task_id q = p \<and> tk_state q = ''succeeded'')) \<and>
        (\<forall>r\<in>set (db_tasks db). claimable (db_tasks db) a t r \<longrightarrow> tk_created_at row \<le> tk_created_at r) \<and>
        ParseStoredTask e row = Inr task \<and>
        db_tasks db' = map (\<lambda>r. if r = row
          then r\<lparr>tk_state := state_text TS_assigned, tk_assigned_at := Some t\<rparr> else r) (db_tasks db) \<and>
        (\<exists>payload. db_audit_events db' = db_audit_events db @
          [\<lparr>au_audit_id = uuid, au_occurred_at = t, au_agent_id = Some a,
            au_event_type = ''task.assigned'', au_request_id = Some (tk_task_id row),
            au_result = ''success'', au_payload_json = payload\<rparr>]))"
proof -
  from assms(3) obtain db1
    where tr: "transaction (claim_body e (insert_assigned_audit e uuid a t) a t) db = (Inr claimed, db1)"
      and db': "db' = (if claimed = None then db1 else NotifyTaskQueueChanged db1)"
    by (rule ClaimNext_transaction)
  note facts = claim_transaction [OF tr db_reachable_tasks_ok [OF assms(1)] assms(2)]
  show ?thesis
  proof (cases claimed)
    case None
    with facts db' show ?thesis by simp
  next
    case (Some task)
    with facts obtain row where row: "row \<in> set (db_tasks db)" "claimable (db_tasks db) a t row"
        "\<And>r. r \<in> set (db_tasks db) \<Longrightarrow> claimable (db_tasks db) a t r \<Longrightarrow> tk_created_at row \<le> tk_created_at r"
        "ParseStoredTask e row = Inr task"
      and audit: "insert_assigned_audit e uuid a t task (db\<lparr>db_tasks := map (\<lambda>r. if r = row
          then r\<lparr>tk_state := state_text TS_assigned, tk_assigned_at := Some t\<rparr> else r) (db_tasks db)\<rparr>) =
        (Inr (), db1)"
      by auto
    from insert_assigned_audit_Inr [OF audit] obtain payload
      where db1: "db1 = db\<lparr>db_tasks := map (\<lambda>r. if r = row
          then r\<lparr>tk_state := state_text TS_assigned, tk_assigned_at := Some t\<rparr> else r) (db_tasks db),
        db_audit_events := db_audit_events db @
          [\<lparr>au_audit_id = uuid, au_occurred_at = t, au_agent_id = Some a,
            au_event_type = ''task.assigned'', au_request_id = Some (task_task_id task),
            au_result = ''success'', au_payload_json = payload\<rparr>]\<rparr>"
      by auto
    have "db_tasks db' = map (\<lambda>r. if r = row
          then r\<lparr>tk_state := state_text TS_assigned, tk_assigned_at := Some t\<rparr> else r) (db_tasks db)"
      "db_audit_events db' = db_audit_events db @
          [\<lparr>au_audit_id = uuid, au_occurred_at = t, au_agent_id = Some a,
            au_event_type = ''task.assigned'', au_request_id = Some (tk_task_id row),
            au_result = ''success'', au_payload_json = payload\<rparr>]"
      using Some db' ParseStoredTask_id [OF row(4)] by (simp_all add: db1)
    moreover have "tk_agent_id row = a \<and> tk_state row = ''queued'' \<and> t < tk_expires_at row \<and>
        (\<forall>p. tk_prerequisite_task_id row = Some p \<longrightarrow>
           (\<exists>q\<in>set (db_tasks db). tk_task_id q = p \<and> tk_state q = ''succeeded''))"
      using row(2) by (auto simp: claimable_def TaskState_ToString.simps)
    ultimately show ?thesis
      using row unfolding Some option.case by blast
  qed
qed

theorem claim_next_task_witness:
  "\<exists>row\<in>set (db_tasks demo_queue). claimable (db_tasks demo_queue) ''a'' ''2'' row \<and>
     ParseStoredTask demo_ext row = Inr demo_task"
  using claim_next_task [OF demo_queue_reachable demo_ext_laws(1) demo_claim] by auto

text \<open>
  C2: A task is handed out once.  Whatever happens after a claim returned a task, by either
  variant of the operation, no later claim by any agent returns a task with the same id.
\<close>

theorem claimed_at_most_once:
  assumes "db_reachable e db" and "orders_by_created (ext_first_created e)"
    and "ClaimNextTaskForAgent e uuid a t db = (Inr (Some task), db1) \<or>
         AsyncClaimNextTaskForAgent e a t db = (Inr (Some task), db1)"
    and "db_runs e db1 db2"
    and "ClaimNextTaskForAgent e uuid' b t' db2 = (Inr (Some task'), db3) \<or>
         AsyncClaimNextTaskForAgent e b t' db2 = (Inr (Some task'), db3)"
  shows "task_task_id task' \<noteq> task_task_id task"
proof
  assume same: "task_task_id task' = task_task_id task"
  have reach1: "db_reachable e db1"
    using assms(3) db_reachable.step [OF assms(1) db_step.claim [of e db uuid a t]]
      db_reachable.step [OF assms(1) db_step.async_claim [of e db a t]] by auto
  note first = claimed_states [OF assms(3) db_reachable_tasks_ok [OF assms(1)] assms(2)]
  note second = claimed_states [OF assms(5)
      db_reachable_tasks_ok [OF db_reachable_runs [OF assms(4) reach1]] assms(2)]
  show False
    using queue_run_rank_mono [OF db_runs_queue [OF reach1 assms(4)], of "task_task_id task"]
      first(2) second(1) same by simp
qed

theorem claimed_at_most_once_witness:
  "task_task_id demo_task2 \<noteq> task_task_id demo_task"
proof (rule claimed_at_most_once [OF demo_queue_reachable demo_ext_laws(1)])
  show "ClaimNextTaskForAgent demo_ext ''u'' ''a'' ''2'' demo_queue = (Inr (Some demo_task), demo_claimed) \<or>
      AsyncClaimNextTaskForAgent demo_ext ''a'' ''2'' demo_queue = (Inr (Some demo_task), demo_claimed)"
    by (simp add: demo_claim demo_claimed_def)
  show "db_runs demo_ext demo_claimed demo_queue2"
    unfolding demo_queue2_def by (rule db_runs_one, rule db_step.enqueue)
  show "ClaimNextTaskForAgent demo_ext ''u'' ''a'' ''3'' demo_queue2 = (Inr (Some demo_task2), db3) \<or>
      AsyncClaimNextTaskForAgent demo_ext ''a'' ''3'' demo_queue2 =
        (Inr (Some demo_task2), snd (AsyncClaimNextTaskForAgent demo_ext ''a'' ''3'' demo_queue2))" for db3
    using demo_claim2 by (simp add: prod_eq_iff)
qed

end
