(* ===== verification/Task_Outcomes.thy ===== *)
theory Task_Outcomes
  imports Task_Claims
begin

section \<open>Running and finishing tasks: the refinement and what follows from it\<close>

text \<open>
  The refinement of the queue specification as a property of the operations, the exact conditions
  under which a result is accepted, prerequisites, and how the asynchronous variants compare with
  the synchronous ones.
\<close>

subsection \<open>Accepting a result\<close>

lemma no_result_iff:
  assumes "tasks_ok db"
  shows "(\<exists>rows. rows_insert rr_task_id row (db_task_results db) = Inr rows) \<longleftrightarrow>
         \<not> (\<exists>s. task_states db (rr_task_id row) = Some s \<and> IsTerminalTaskState s)"
  using assms unfolding tasks_ok_def rows_insert_Inr_iff by metis

lemma open_count_iff:
  assumes "tasks_ok db"
  shows "rows_count (\<lambda>r. tk_task_id r = i \<and> tk_state r \<notin>
           {state_text TS_succeeded, state_text TS_failed, state_text TS_expired}) (db_tasks db) = 1 \<longleftrightarrow>
         (\<exists>s. task_states db i = Some s \<and> \<not> IsTerminalTaskState s)"
proof -
  let ?p = "\<lambda>r. tk_state r \<notin> {state_text TS_succeeded, state_text TS_failed, state_text TS_expired}"
  have uniq: "unique_keys tk_task_id (db_tasks db)" and known: "\<And>r. r \<in> set (db_tasks db) \<Longrightarrow> row_state r \<noteq> None"
    using assms by (auto simp: tasks_ok_def)
  have states: "task_states db i = Some s \<longleftrightarrow> (\<exists>r\<in>set (db_tasks db). tk_task_id r = i \<and> row_state r = Some s)" for s
    using row_by_unique [OF uniq, of i]
    by (auto simp: task_states_def bind_eq_Some_conv)
  have is_open: "?p r \<longleftrightarrow> (\<exists>s. row_state r = Some s \<and> \<not> IsTerminalTaskState s)"
    if r: "r \<in> set (db_tasks db)" for r
  proof -
    from known [OF r] obtain s where "row_state r = Some s"
      by auto
    with open_state_iff [OF this] show ?thesis
      by simp
  qed
  have "(\<exists>s. task_states db i = Some s \<and> \<not> IsTerminalTaskState s) \<longleftrightarrow>
      (\<exists>r\<in>set (db_tasks db). tk_task_id r = i \<and> (\<exists>s. row_state r = Some s \<and> \<not> IsTerminalTaskState s))"
    unfolding states by blast
  also have "\<dots> \<longleftrightarrow> (\<exists>r\<in>set (db_tasks db). tk_task_id r = i \<and> ?p r)"
    by (rule bex_cong [OF HOL.refl], subst is_open) (assumption, rule HOL.refl)
  finally have exists_iff: "(\<exists>s. task_states db i = Some s \<and> \<not> IsTerminalTaskState s) \<longleftrightarrow>
      (\<exists>r\<in>set (db_tasks db). tk_task_id r = i \<and> ?p r)" .
  have count: "rows_count (\<lambda>r. tk_task_id r = i \<and> ?p r) (db_tasks db) =
      (if \<exists>r\<in>set (db_tasks db). tk_task_id r = i \<and> ?p r then 1 else 0)"
    by (rule rows_count_unique_key [OF uniq])
  have one: "(if P then 1 else 0) = (1 :: nat) \<longleftrightarrow> P" for P
    by simp
  show ?thesis
    unfolding count exists_iff one by (rule HOL.refl)
qed

lemma finish_task_outcome:
  assumes "tasks_ok db" and "rr_task_id row = res_task_id request"
  shows "(\<exists>db'. finish_task request row db = (Inr (), db')) \<longleftrightarrow>
         (\<exists>s. task_states db (res_task_id request) = Some s \<and> \<not> IsTerminalTaskState s)"
proof
  assume "\<exists>db'. finish_task request row db = (Inr (), db')"
  then obtain db' where "finish_task request row db = (Inr (), db')" ..
  then show "\<exists>s. task_states db (res_task_id request) = Some s \<and> \<not> IsTerminalTaskState s"
    by (rule finish_taskE) (simp only: open_count_iff [OF assms(1)])
next
  assume s: "\<exists>s. task_states db (res_task_id request) = Some s \<and> \<not> IsTerminalTaskState s"
  then obtain rows where "rows_insert rr_task_id row (db_task_results db) = Inr rows"
    using no_result_iff [OF assms(1), of row] assms(2) by auto
  then show "\<exists>db'. finish_task request row db = (Inr (), db')"
    using s open_count_iff [OF assms(1), of "res_task_id request"]
    by (auto simp: finish_task_def insert_result_def set_terminal_def db_op_defs Let_def)
qed

lemma finish_task_states:
  assumes "tasks_ok db" and "finish_task request row db = (Inr (), db')"
    and "rr_task_id row = res_task_id request"
  shows "task_states db' =
           (task_states db)(res_task_id request \<mapsto> terminal_state_of (res_status request))"
    and "db_task_results db' = db_task_results db @ [row]"
proof -
  let ?p = "\<lambda>r. tk_state r \<notin> {state_text TS_succeeded, state_text TS_failed, state_text TS_expired}"
  let ?f = "\<lambda>r. r\<lparr>tk_state := state_text (terminal_state_of (res_status request)),
                   tk_completed_at := Some (res_occurred_at request)\<rparr>"
  from assms(2) obtain results where
    results: "rows_insert rr_task_id row (db_task_results db) = Inr results" and
    one: "rows_count (\<lambda>r. tk_task_id r = res_task_id request \<and> ?p r) (db_tasks db) = 1" and
    db': "db' = db\<lparr>db_task_results := results,
                   db_tasks := rows_update (\<lambda>r. tk_task_id r = res_task_id request \<and> ?p r) ?f (db_tasks db)\<rparr>"
    by (rule finish_taskE)
  from assms(1) have uniq: "unique_keys tk_task_id (db_tasks db)"
    by (simp add: tasks_ok_def)
  from row_by_one [OF uniq one] obtain r0
    where r0: "row_by tk_task_id (res_task_id request) (db_tasks db) = Some r0" "?p r0" .
  have "task_states db' = task_states (db\<lparr>db_tasks :=
      rows_update (\<lambda>r. tk_task_id r = res_task_id request \<and> ?p r) ?f (db_tasks db)\<rparr>)"
    by (simp add: db' task_states_def fun_eq_iff)
  then show "task_states db' = (task_states db)(res_task_id request \<mapsto> terminal_state_of (res_status request))"
    using task_states_update [where p = ?p and f = ?f, OF r0] by (simp add: row_state_def)
  show "db_task_results db' = db_task_results db @ [row]"
    using results by (simp add: db' rows_insert_Inr_iff)
qed

text \<open>Both variants of the operation, which differ in what they do after the task is finished.\<close>

lemma finish_transaction:
  assumes "op_rel (keeps task_tables) (g ())" and "\<And>db. \<exists>db'. g () db = (Inr ((), True), db')"
  shows "case transaction (db_bind (finish_task request row) g) db of
      (Inl x, db') \<Rightarrow> db' = db \<and> (\<nexists>db1. finish_task request row db = (Inr (), db1))
    | (Inr _, db') \<Rightarrow> (\<exists>db1. finish_task request row db = (Inr (), db1) \<and> task_tables db' = task_tables db1)"
proof -
  obtain v db1 where fin: "finish_task request row db = (v, db1)"
    by fastforce
  show ?thesis
  proof (cases v)
    case (Inl x)
    with fin show ?thesis
      by (simp add: transaction_def db_bind_def)
  next
    case (Inr u)
    obtain db2 where g: "g () db1 = (Inr ((), True), db2)"
      using assms(2) by blast
    then have "task_tables db2 = task_tables db1"
      using op_relD' [OF assms(1) g] by (simp add: keeps_def)
    with fin Inr g show ?thesis
      by (simp add: transaction_def db_bind_def)
  qed
qed

lemma RecordTaskResult_outcome:
  assumes "db_reachable e db" and "\<not> write_actor_stopping db"
  shows "case RecordTaskResult res rb eb db of
      (Inr _, db') \<Rightarrow>
        (\<exists>s. task_states db (res_task_id res) = Some s \<and> \<not> IsTerminalTaskState s) \<and>
        task_states db' = (task_states db)(res_task_id res \<mapsto> terminal_state_of (res_status res)) \<and>
        db_task_results db' = db_task_results db @ [result_values res rb eb]
    | (Inl _, db') \<Rightarrow>
        \<not> (\<exists>s. task_states db (res_task_id res) = Some s \<and> \<not> IsTerminalTaskState s) \<and> db' = db"
proof -
  let ?g = "\<lambda>_::unit. db_bind (db_modify (record_upgrade_outcome res)) (\<lambda>_. db_return ((), True))"
  let ?row = "result_values res rb eb"
  let ?tr = "transaction (db_bind (finish_task res ?row) ?g) db"
  have ok: "tasks_ok db"
    using assms(1) by (rule db_reachable_tasks_ok)
  have id: "rr_task_id ?row = res_task_id res"
    by (simp add: result_values_def)
  have "op_rel (keeps task_tables) (?g ())"
    by (intro kept.composed agents_only_keep_tasks)
  moreover have "\<exists>db'. ?g () db = (Inr ((), True), db')" for db
    by (simp add: db_op_defs)
  ultimately have tr: "case ?tr of
      (Inl x, db') \<Rightarrow> db' = db \<and> (\<nexists>db1. finish_task res ?row db = (Inr (), db1))
    | (Inr _, db') \<Rightarrow> (\<exists>db1. finish_task res ?row db = (Inr (), db1) \<and> task_tables db' = task_tables db1)"
    by (rule finish_transaction)
  have run: "RecordTaskResult res rb eb db =
      (case ?tr of (Inl x, db') \<Rightarrow> (Inl x, db') | (Inr _, db') \<Rightarrow> (Inr (), NotifyTaskQueueChanged db'))"
    using assms(2) by (simp add: RecordTaskResult_finish submit_write_def db_bind_def db_modify_def
        split: prod.split sum.split)
  obtain v db' where v: "?tr = (v, db')"
    by fastforce
  show ?thesis
  proof (cases v)
    case (Inl x)
    with tr v run finish_task_outcome [OF ok id] show ?thesis
      by auto
  next
    case (Inr u)
    with tr v obtain db1 where fin: "finish_task res ?row db = (Inr (), db1)"
      and same: "db_tasks db' = db_tasks db1" "db_task_results db' = db_task_results db1"
      by (auto simp: task_tables_def)
    have "task_states (NotifyTaskQueueChanged db') = task_states db1"
      by (simp add: task_states_def fun_eq_iff same)
    with v Inr run fin same finish_task_outcome [OF ok id] finish_task_states [OF ok fin id] show ?thesis
      by auto
  qed
qed

text \<open>
  When a result is accepted.  On a running database \<open>RecordTaskResult\<close> succeeds exactly when the
  task is stored and not in a terminal state (so also for a task that was never claimed or
  started); then the task enters the terminal state of the result's status, no other task changes
  state and the result is appended; otherwise the call fails and nothing at all changes.
\<close>

theorem task_result_recorded:
  assumes "db_reachable e db" and "\<not> write_actor_stopping db"
  shows "case RecordTaskResult res rb eb db of
      (Inr _, db') \<Rightarrow>
        (\<exists>s. task_states db (res_task_id res) = Some s \<and> \<not> IsTerminalTaskState s) \<and>
        task_states db' = (task_states db)(res_task_id res \<mapsto> terminal_state_of (res_status res)) \<and>
        db_task_results db' = db_task_results db @ [result_values res rb eb]
    | (Inl _, db') \<Rightarrow>
        \<not> (\<exists>s. task_states db (res_task_id res) = Some s \<and> \<not> IsTerminalTaskState s) \<and> db' = db"
  using assms by (rule RecordTaskResult_outcome)

theorem task_result_recorded_witness:
  "\<exists>db'. RecordTaskResult demo_result None None demo_queue = (Inr (), db') \<and>
     task_states db' ''t1'' = Some TS_succeeded"
proof -
  obtain r db' where run: "RecordTaskResult demo_result None None demo_queue = (r, db')"
    by fastforce
  with task_result_recorded [OF demo_queue_reachable, of demo_result None None] show ?thesis
    by (cases r)
      (auto simp: demo_queue_tables demo_task_states demo_result_def terminal_state_of_def)
qed

subsection \<open>The requests of the queue\<close>






text \<open>
  A request of the database is the one request of the queue that \<open>f\<close> names for its answer; where it
  fails the queue stays as it is.
\<close>

definition performs :: "('a \<Rightarrow> queue \<Rightarrow> queue option) \<Rightarrow> 'a db_op \<Rightarrow> server_database \<Rightarrow> bool" where
  "performs f m db \<longleftrightarrow>
     (case m db of
        (Inl _, db') \<Rightarrow> task_states db' = task_states db
      | (Inr x, db') \<Rightarrow> f x (task_states db) = Some (task_states db'))"


lemma performs_transaction:
  assumes "performs (\<lambda>(x, committed). if committed then f x else Some) m db"
    and "\<And>x db'. m db = (Inr (x, False), db') \<Longrightarrow> f x (task_states db) = Some (task_states db)"
  shows "performs f (transaction m) db"
  using assms by (auto simp: performs_def transaction_def split: prod.splits sum.splits)


lemma task_states_notify [simp]: "task_states (NotifyTaskQueueChanged db) = task_states db"
  by (simp add: task_states_def fun_eq_iff)




















text \<open>
  C18: Terminal states are final.  Once a task has succeeded, failed or expired it stays so through
  every later operation, and a further result for it is refused.
\<close>

theorem terminal_states_final:
  assumes "db_reachable e db" and "task_states db i = Some s" and "IsTerminalTaskState s"
    and "db_runs e db db'" and "res_task_id res = i"
  shows "task_states db' i = Some s \<and>
         (\<exists>x. RecordTaskResult res rb eb db' = (Inl x, db'))"
proof -
  have state: "task_states db' i = Some s"
    using db_runs_queue [OF assms(1,4)] assms(2,3) by (rule queue_run_terminal)
  have "\<exists>x. RecordTaskResult res rb eb db' = (Inl x, db')"
  proof (cases "write_actor_stopping db'")
    case True
    then show ?thesis
      by (simp add: RecordTaskResult_def submit_write_def db_bind_def)
  next
    case False
    obtain r db'' where run: "RecordTaskResult res rb eb db' = (r, db'')"
      by fastforce
    with RecordTaskResult_outcome [OF db_reachable_runs [OF assms(4,1)] False, of res rb eb] state assms(3,5)
    show ?thesis
      by (cases r) auto
  qed
  with state show ?thesis ..
qed


definition demo_done :: server_database where
  "demo_done = snd (RecordTaskResult demo_result None None demo_queue)"

theorem terminal_states_final_witness:
  "\<exists>x. RecordTaskResult demo_result None None demo_done = (Inl x, demo_done)"
proof -
  have reachable: "db_reachable demo_ext demo_done"
    unfolding demo_done_def
    by (rule db_reachable.step [OF demo_queue_reachable db_step.record_result])
  have done_state: "task_states demo_done ''t1'' = Some TS_succeeded"
    using demo_task_states
    by (simp add: demo_done_def RecordTaskResult_def submit_write_def demo_queue_tables transaction_def
        insert_result_def set_terminal_def record_upgrade_outcome_def db_op_defs demo_result_def
        result_values_def rows_insert_def rows_count_def task_states_def row_by_def
        terminal_state_of_def Let_def)
  have "res_task_id demo_result = ''t1''"
    by (simp add: demo_result_def)
  with terminal_states_final [OF reachable done_state _ db_runs.refl]
  obtain x where "RecordTaskResult demo_result None None demo_done = (Inl x, demo_done)"
    by fastforce
  then show ?thesis ..
qed

subsection \<open>What never changes in a stored task, and prerequisites\<close>

definition task_order :: "task_row \<Rightarrow> task_row" where
  "task_order r = r\<lparr>tk_state := [], tk_assigned_at := None, tk_completed_at := None\<rparr>"

definition orders_kept :: "server_database \<Rightarrow> server_database \<Rightarrow> bool" where
  "orders_kept db db' \<longleftrightarrow>
     (\<forall>i r. row_by tk_task_id i (db_tasks db) = Some r \<longrightarrow>
        (\<exists>r'. row_by tk_task_id i (db_tasks db') = Some r' \<and> task_order r' = task_order r))"

interpretation orders: step_relation orders_kept
  by unfold_locales (fastforce simp: orders_kept_def)+

lemma orders_kept_update:
  assumes "\<And>r. task_order (f r) = task_order r" and "\<And>r. tk_task_id (f r) = tk_task_id r"
  shows "orders_kept db (db\<lparr>db_tasks := rows_update p f (db_tasks db)\<rparr>)"
  using assms by (auto simp: orders_kept_def row_by_update)

lemma db_step_orders: "db_step e db db' \<Longrightarrow> orders_kept db db'"
proof (rule orders.step_on_tasks)
  show "orders_kept db db'" if "keeps task_tables db db'" for db db'
    using that by (auto simp: orders_kept_def keeps_def task_tables_def)
  show "op_rel orders_kept (insert_task e task pre)" for task pre
  proof (rule op_relI)
    fix db r db'
    assume "insert_task e task pre db = (r, db')"
    then show "orders_kept db db'"
    proof (cases rule: insert_taskE)
      case failed
      then show ?thesis by (simp add: orders.refl)
    next
      case (inserted blob rows)
      from inserted(3) have "row_by tk_task_id (task_task_id task) (db_tasks db) = None"
        by (auto simp: rows_insert_Inr_iff row_by_None_iff task_values_def)
      with inserted(4) show ?thesis
        by (auto simp: orders_kept_def row_by_insert [OF inserted(3)] task_values_def)
    qed
  qed
  show "op_rel orders_kept (set_running run)" for run
    by (rule op_relI)
      (auto simp: set_running_def Let_def task_order_def intro!: orders_kept_update split: if_splits)
  show "op_rel orders_kept (set_assigned i t)" for i t
    by (rule op_relI) (auto simp: set_assigned_def Let_def task_order_def intro!: orders_kept_update)
  show "orders_kept db db'" if "finish_task request row db = (Inr (), db')" for request row db db'
    using that
  proof (rule finish_taskE)
    fix results
    assume "db' = db\<lparr>db_task_results := results,
           db_tasks := rows_update (\<lambda>r. tk_task_id r = res_task_id request \<and> tk_state r \<notin>
             {state_text TS_succeeded, state_text TS_failed, state_text TS_expired})
             (\<lambda>r. r\<lparr>tk_state := state_text (terminal_state_of (res_status request)),
                    tk_completed_at := Some (res_occurred_at request)\<rparr>) (db_tasks db)\<rparr>"
    then show "orders_kept db db'"
      by (auto simp: orders_kept_def row_by_update task_order_def)
  qed
qed

lemma db_runs_orders: "db_runs e db db' \<Longrightarrow> orders_kept db db'"
  by (induction rule: db_runs.induct) (auto intro: orders.refl orders.trans db_step_orders)

lemma task_order_prerequisite:
  "task_order r' = task_order r \<Longrightarrow> tk_prerequisite_task_id r' = tk_prerequisite_task_id r"
  by (drule arg_cong [where f = tk_prerequisite_task_id]) (simp add: task_order_def)


lemma ParseStoredTask_order: "ParseStoredTask e (task_order r) = ParseStoredTask e r"
  by (simp add: ParseStoredTask_def task_order_def)

text \<open>A task whose prerequisite has failed or expired is never handed out again.\<close>

lemma failed_prerequisite_blocks:
  assumes "db_reachable e db" and "orders_by_created (ext_first_created e)"
    and "row_by tk_task_id i (db_tasks db) = Some r" and "tk_prerequisite_task_id r = Some p"
    and "task_states db p = Some s" and "s = TS_failed \<or> s = TS_expired"
    and "db_runs e db db'"
    and "ClaimNextTaskForAgent e uuid a t db' = (Inr (Some task), db'') \<or>
         AsyncClaimNextTaskForAgent e a t db' = (Inr (Some task), db'')"
  shows "task_task_id task \<noteq> i"
proof
  assume i: "task_task_id task = i"
  have ok: "tasks_ok db'"
    using db_reachable_runs [OF assms(7,1)] by (rule db_reachable_tasks_ok)
  from claimed_row [OF assms(8) ok assms(2)] obtain row
    where row: "row \<in> set (db_tasks db')" "claimable (db_tasks db') a t row" "ParseStoredTask e row = Inr task" .
  then have "row_by tk_task_id i (db_tasks db') = Some row"
    using ok i ParseStoredTask_id [OF row(3)] by (simp add: tasks_ok_def row_by_unique)
  with db_runs_orders [OF assms(7)] assms(3) have "task_order row = task_order r"
    by (fastforce simp: orders_kept_def)
  then have "tk_prerequisite_task_id row = Some p"
    using assms(4) task_order_prerequisite by metis
  then obtain q where q: "q \<in> set (db_tasks db')" "tk_task_id q = p" "tk_state q = ''succeeded''"
    using row(2) by (auto simp: claimable_def)
  then have "row_by tk_task_id p (db_tasks db') = Some q"
    using ok by (simp add: tasks_ok_def row_by_unique)
  moreover have "row_state q = Some TS_succeeded"
    using q(3) by (intro row_state_text) (simp add: TaskState_ToString.simps)
  ultimately have "task_states db' p = Some TS_succeeded"
    by (simp add: task_states_def)
  moreover have "task_states db' p = Some s"
    using queue_run_terminal [OF db_runs_queue [OF assms(1,7)] assms(5)] assms(6) by auto
  ultimately show False
    using assms(6) by auto
qed

text \<open>
  A stored task stays readable.  Whatever happens after a task was enqueued, \<open>FindTaskById\<close>
  returns the task as it was enqueued, its input in the form of its task type, with the state the
  queue machine has reached.
\<close>

theorem enqueued_task_stays_readable:
  assumes "db_reachable e db" and "faithful_inputs e"
    and "EnqueueTask e task db = (Inr (), db1)" and "db_runs e db1 db2"
  shows "\<exists>stored. FindTaskById e (task_task_id task) db2 = Inr (Some stored) \<and>
     st_task stored = task\<lparr>task_input_data := norm_input (task_task_type task) (task_input_data task)\<rparr> \<and>
     task_states db2 (task_task_id task) = Some (st_state stored)"
proof -
  have reach1: "db_reachable e db1"
    using db_reachable.step [OF assms(1) db_step.enqueue [of e db task]] assms(3) by simp
  have ok2: "tasks_ok db2"
    using db_reachable_runs [OF assms(4) reach1] by (rule db_reachable_tasks_ok)
  obtain db1' where ins: "insert_task e task None db = (Inr (), db1')" and db1: "db_tasks db1 = db_tasks db1'"
    using assms(3) by (auto simp: EnqueueTask_def submit_write_def db_bind_def db_modify_def
        split: if_splits prod.splits sum.splits)
  from ins obtain blob rows
    where blob: "SerializeTaskInputBlob (ext_wire e) (task_task_type task) (task_input_data task) = Inr blob"
      and rows: "rows_insert tk_task_id (task_values task blob None) (db_tasks db) = Inr rows"
      and db1': "db_tasks db1' = rows"
    by (cases rule: insert_taskE) auto
  have "row_by tk_task_id (task_task_id task) (db_tasks db1) = Some (task_values task blob None)"
    using row_by_insert [OF rows] by (simp add: db1 db1' task_values_def)
  then obtain r where r: "row_by tk_task_id (task_task_id task) (db_tasks db2) = Some r"
    and order: "task_order r = task_order (task_values task blob None)"
    using db_runs_orders [OF assms(4)] by (auto simp: orders_kept_def)
  have "ParseStoredTask e r = ParseStoredTask e (task_values task blob None)"
    by (metis ParseStoredTask_order order)
  also have "\<dots> = Inr (task\<lparr>task_input_data := norm_input (task_task_type task) (task_input_data task)\<rparr>)"
    using assms(2) blob by (rule ParseStoredTask_values)
  finally have parsed: "ParseStoredTask e r =
      Inr (task\<lparr>task_input_data := norm_input (task_task_type task) (task_input_data task)\<rparr>)" .
  obtain s where "TaskStateFromString (tk_state r) = Some s"
    using ok2 row_by_SomeD [OF r] by (auto simp: tasks_ok_def row_state_def)
  with r parsed show ?thesis
    by (simp add: FindTaskById_def task_states_def row_state_def)
qed

theorem enqueued_task_stays_readable_witness:
  "\<exists>stored. FindTaskById demo_ext ''t1'' demo_queue2 = Inr (Some stored) \<and> st_task stored = demo_task"
proof -
  have runs: "db_runs demo_ext demo_queue demo_queue2"
    unfolding demo_queue2_def demo_claimed_def
    by (rule db_runs.step [OF db_runs_one [OF db_step.claim] db_step.enqueue])
  have "EnqueueTask demo_ext demo_task fresh_database = (Inr (), demo_queue)"
    by (simp add: demo_queue_def demo_enqueue)
  from enqueued_task_stays_readable [OF db_reachable.start demo_ext_laws(2) this runs] show ?thesis
    by (auto simp: norm_input_def demo_task_def)
qed

subsection \<open>The asynchronous variants\<close>

text \<open>
  What the claim that the control server uses leaves out.  \<open>AsyncClaimNextTaskForAgent\<close> returns
  the task the synchronous operation returns and leaves the same state behind, except for the
  \<open>task.assigned\<close> audit event, which it does not write.
\<close>

theorem async_claim_without_audit:
  assumes "ClaimNextTaskForAgent e uuid a t db = (Inr claimed, db')"
  shows "AsyncClaimNextTaskForAgent e a t db =
           (Inr claimed, db'\<lparr>db_audit_events := db_audit_events db\<rparr>)"
proof -
  from assms have running: "\<not> write_actor_stopping db"
    by (auto simp: ClaimNextTaskForAgent_def submit_write_def db_bind_def split: if_splits)
  from assms obtain db1
    where tr: "transaction (claim_body e (insert_assigned_audit e uuid a t) a t) db = (Inr claimed, db1)"
      and db': "db' = (if claimed = None then db1 else NotifyTaskQueueChanged db1)"
    by (rule ClaimNext_transaction)
  obtain committed db2 where body: "claim_body e (insert_assigned_audit e uuid a t) a t db = (Inr (claimed, committed), db2)"
    and db1: "db1 = (if committed then db2 else db)"
    using tr by (auto simp: transaction_def split: prod.splits sum.splits)
  have "transaction (claim_body e (\<lambda>_. db_return ()) a t) db =
      (Inr claimed, db1\<lparr>db_audit_events := db_audit_events db\<rparr>)"
    using body
  proof (cases rule: claim_bodyE)
    case none
    with db1 show ?thesis
      by (simp add: transaction_def claim_body_def)
  next
    case (lost row task)
    with db1 show ?thesis
      by (simp add: transaction_def claim_body_def db_op_defs set_assigned_def Let_def)
  next
    case (claimed row task)
    obtain payload where db2: "db2 = snd (set_assigned (task_task_id task) t db)
        \<lparr>db_audit_events := db_audit_events (snd (set_assigned (task_task_id task) t db)) @ payload\<rparr>"
      using insert_assigned_audit_Inr [OF claimed(5)] by metis
    have "rows_count (\<lambda>r. tk_task_id r = task_task_id task \<and> tk_state r = state_text TS_queued) (db_tasks db) = 1"
      using body claimed by (auto simp: claim_body_def db_op_defs set_assigned_def Let_def split: if_splits)
    with claimed db1 db2 show ?thesis
      by (simp add: transaction_def claim_body_def db_op_defs set_assigned_def Let_def)
  qed
  with db' running show ?thesis
    by (auto simp: AsyncClaimNextTaskForAgent_def submit_write_def notify_claim_def db_op_defs
        NotifyTaskQueueChanged_def Let_def)
qed

theorem async_claim_without_audit_witness:
  "\<exists>db'. AsyncClaimNextTaskForAgent demo_ext ''a'' ''2'' demo_queue = (Inr (Some demo_task), db') \<and>
     db_audit_events db' = [] \<and> length (db_audit_events demo_claimed) = 1"
  using async_claim_without_audit [OF demo_claim]
  by (simp add: demo_queue_tables demo_claimed_def demo_claim)

lemma assigned_count:
  assumes "tasks_ok db"
  shows "rows_count (\<lambda>r. tk_task_id r = i \<and> tk_state r = state_text TS_assigned) (db_tasks db) = 1 \<longleftrightarrow>
    task_states db i = Some TS_assigned"
proof
  have uniq: "unique_keys tk_task_id (db_tasks db)"
    using assms by (simp add: tasks_ok_def)
  assume "rows_count (\<lambda>r. tk_task_id r = i \<and> tk_state r = state_text TS_assigned) (db_tasks db) = 1"
  from row_by_one [OF uniq this] obtain r
    where "row_by tk_task_id i (db_tasks db) = Some r" "tk_state r = state_text TS_assigned" .
  then show "task_states db i = Some TS_assigned"
    by (simp add: task_states_def)
next
  have uniq: "unique_keys tk_task_id (db_tasks db)"
    using assms by (simp add: tasks_ok_def)
  assume "task_states db i = Some TS_assigned"
  then obtain r where "row_by tk_task_id i (db_tasks db) = Some r" and "row_state r = Some TS_assigned"
    by (auto simp: task_states_def bind_eq_Some_conv)
  then have "r \<in> set (db_tasks db) \<and> tk_task_id r = i \<and> tk_state r = state_text TS_assigned"
    using row_by_SomeD [of tk_task_id i "db_tasks db" r]
      task_state_names.to_from [of "tk_state r" TS_assigned] by (simp add: row_state_def)
  then show "rows_count (\<lambda>r. tk_task_id r = i \<and> tk_state r = state_text TS_assigned) (db_tasks db) = 1"
    by (auto simp: rows_count_unique_key [OF uniq])
qed

lemma set_running_outcome:
  assumes "tasks_ok db"
  shows "task_states db (run_task_id run) = Some TS_assigned \<Longrightarrow>
      \<exists>db'. set_running run db = (Inr (), db') \<and>
        task_states db' = (task_states db)(run_task_id run \<mapsto> TS_running)"
    and "task_states db (run_task_id run) \<noteq> Some TS_assigned \<Longrightarrow>
      snd (set_running run db) = db \<and> fst (set_running run db) \<noteq> Inr ()"
proof -
  have uniq: "unique_keys tk_task_id (db_tasks db)"
    using assms by (simp add: tasks_ok_def)
  let ?p = "\<lambda>r. tk_state r = state_text TS_assigned"
  note count = assigned_count [OF assms, of "run_task_id run"]
  show "snd (set_running run db) = db \<and> fst (set_running run db) \<noteq> Inr ()"
    if "task_states db (run_task_id run) \<noteq> Some TS_assigned"
    using that rows_update_not_one [OF uniq, of "run_task_id run" ?p] unfolding count [symmetric]
    by (simp add: set_running_def Let_def)
  assume st: "task_states db (run_task_id run) = Some TS_assigned"
  then have one: "rows_count (\<lambda>r. tk_task_id r = run_task_id run \<and> ?p r) (db_tasks db) = 1"
    by (simp only: count)
  from row_by_one [OF uniq this] obtain r0
    where r0: "row_by tk_task_id (run_task_id run) (db_tasks db) = Some r0" "?p r0" .
  show "\<exists>db'. set_running run db = (Inr (), db') \<and>
        task_states db' = (task_states db)(run_task_id run \<mapsto> TS_running)"
    using one task_states_update [where p = ?p, OF r0, of "\<lambda>r. r\<lparr>tk_state := state_text TS_running,
        tk_assigned_at := (case tk_assigned_at r of
            None \<Rightarrow> Some (run_occurred_at run) | Some t \<Rightarrow> Some t)\<rparr>"]
    by (simp add: set_running_def Let_def row_state_def)
qed

text \<open>
  The two ways of starting a task agree.  In a reachable database \<open>AsyncMarkTaskRunning\<close> succeeds
  exactly when \<open>MarkTaskRunning\<close> does, namely for a task that is assigned, and leaves the same
  state; on failure neither changes anything.
\<close>

theorem mark_running_variants_agree:
  assumes "db_reachable e db" and "\<not> write_actor_stopping db"
  shows "snd (AsyncMarkTaskRunning run db) = snd (MarkTaskRunning run db) \<and>
         (fst (AsyncMarkTaskRunning run db) = Inr () \<longleftrightarrow> fst (MarkTaskRunning run db) = Inr ()) \<and>
         (fst (MarkTaskRunning run db) = Inr () \<longleftrightarrow>
            task_states db (run_task_id run) = Some TS_assigned) \<and>
         (fst (MarkTaskRunning run db) \<noteq> Inr () \<longrightarrow> snd (MarkTaskRunning run db) = db)"
proof -
  have ok: "tasks_ok db"
    using assms(1) by (rule db_reachable_tasks_ok)
  have failed: "snd (set_running run db) = db \<and> fst (set_running run db) \<noteq> Inr ()"
    if "task_states db (run_task_id run) \<noteq> Some TS_assigned"
    using set_running_outcome(2) [OF ok that] .
  have succeeded: "fst (set_running run db) = Inr ()"
    if "task_states db (run_task_id run) = Some TS_assigned"
    using set_running_outcome(1) [OF ok that] by auto
  show ?thesis
  proof (cases "row_by tk_task_id (run_task_id run) (db_tasks db)")
    case None
    then have "task_states db (run_task_id run) = None"
      by (simp add: task_states_def)
    with None failed assms(2) show ?thesis
      by (simp add: MarkTaskRunning_def AsyncMarkTaskRunning_def submit_write_def)
  next
    case (Some r)
    then obtain s where s: "TaskStateFromString (tk_state r) = Some s"
      using ok row_by_SomeD [OF Some] by (auto simp: tasks_ok_def row_state_def)
    with Some have "task_states db (run_task_id run) = Some s"
      by (simp add: task_states_def row_state_def)
    with Some s failed succeeded assms(2) show ?thesis
      by (cases s) (auto simp: MarkTaskRunning_def AsyncMarkTaskRunning_def submit_write_def)
  qed
qed

definition demo_running :: task_running where
  "demo_running =
     \<lparr>run_protocol_version = ''v1'', run_request_id = ''r'', run_task_id = ''t1'',
      run_agent_id = ''a'', run_task_type = TT_collect_basic_inventory, run_occurred_at = ''3''\<rparr>"

theorem mark_running_variants_agree_witness:
  "fst (MarkTaskRunning demo_running demo_queue) \<noteq> Inr () \<and>
   snd (AsyncMarkTaskRunning demo_running demo_queue) = demo_queue"
  using mark_running_variants_agree [OF demo_queue_reachable, of demo_running]
  by (simp add: demo_queue_tables demo_task_states demo_running_def)

end
