(* ===== verification/Agent_Upgrades.thy ===== *)
theory Agent_Upgrades
  imports Task_Outcomes
begin

section \<open>Agents in the database: presence and the upgrade cycle\<close>

text \<open>
  Which operations change the agents' rows and how, the invariant of the table, and the upgrade
  cycle end to end: ordering an upgrade, the result of its task, the reconnect that confirms it,
  a rollback, a failed prerequisite and the expiry of a missing reconnect.
\<close>

subsection \<open>Operations that leave the agents alone\<close>

lemma agents_kept_by_task_pieces:
  "op_rel (keeps db_agents) (insert_task e task pre)"
  "op_rel (keeps db_agents) (set_running run)"
  "op_rel (keeps db_agents) (set_assigned i t)"
  "op_rel (keeps db_agents) (insert_assigned_audit e u a t task)"
  "op_rel (keeps db_agents) (insert_result row)"
  "op_rel (keeps db_agents) (set_terminal res)"
  "op_rel (keeps db_agents) (db_modify NotifyTaskQueueChanged)"
  by (auto simp: op_rel_def keeps_def insert_task_def set_running_def set_assigned_def
      insert_assigned_audit_def insert_audit_def insert_result_def set_terminal_def db_op_defs
      Let_def split: sum.splits)

definition upgrade_states :: "string option set" where
  "upgrade_states =
     {None, Some ''queued'', Some ''waiting_reconnect'', Some ''succeeded'', Some ''failed''}"

lemma upgrade_states_mem [simp]:
  "None \<in> upgrade_states" "Some ''queued'' \<in> upgrade_states"
  "Some ''waiting_reconnect'' \<in> upgrade_states" "Some ''succeeded'' \<in> upgrade_states"
  "Some ''failed'' \<in> upgrade_states"
  by (simp_all add: upgrade_states_def)

text \<open>The changes to an agent's row, one for each statement that updates the table.\<close>

inductive agent_update :: "agent_summary list \<Rightarrow> agent_summary list \<Rightarrow> bool" where
  upsert: "agent_update rows (rows_upsert ag_agent_id upsert_conflict (registered_agent reg) rows)"
| async_upsert: "agent_update rows (rows_upsert ag_agent_id seen_again (registered_agent reg) rows)"
| column_update: "(\<And>r. ag_agent_id (f r) = ag_agent_id r) \<Longrightarrow>
    (\<And>r. p r \<Longrightarrow> ag_upgrade_state (f r) = ag_upgrade_state r \<or>
        ag_upgrade_state (f r) \<in> upgrade_states) \<Longrightarrow>
    agent_update rows (rows_update p f rows)"

inductive agent_updates :: "agent_summary list \<Rightarrow> agent_summary list \<Rightarrow> bool" where
  none: "agent_updates rows rows"
| more: "agent_updates rows rows' \<Longrightarrow> agent_update rows' rows'' \<Longrightarrow> agent_updates rows rows''"

lemma agent_updates_trans: "agent_updates a b \<Longrightarrow> agent_updates b c \<Longrightarrow> agent_updates a c"
  by (rotate_tac, induction rule: agent_updates.induct) (auto intro: agent_updates.intros)

lemma agent_updates_one: "agent_update a b \<Longrightarrow> agent_updates a b"
  by (blast intro: agent_updates.intros)

definition updates_agents :: "server_database \<Rightarrow> server_database \<Rightarrow> bool" where
  "updates_agents db db' \<longleftrightarrow> agent_updates (db_agents db) (db_agents db')"

interpretation agents: step_relation updates_agents
  by unfold_locales (auto simp: updates_agents_def intro: agent_updates.none agent_updates_trans)

lemma updates_agents_keeps: "keeps db_agents db db' \<Longrightarrow> updates_agents db db'"
  by (simp add: keeps_def updates_agents_def agent_updates.none)

lemma updates_agents_pieces:
  "op_rel updates_agents (set_desired a v p by t i)"
  "op_rel updates_agents (db_modify (record_upgrade_outcome res))"
  "op_rel updates_agents (db_modify (\<lambda>db. db\<lparr>db_agents := rows_update (q db)
     (\<lambda>a. a\<lparr>ag_desired_version := None, ag_desired_package_id := None\<rparr>) (db_agents db)\<rparr>))"
proof -
  show "op_rel updates_agents (set_desired a v p by t i)"
    by (rule op_relI)
      (auto simp: set_desired_def Let_def updates_agents_def
        intro!: agent_updates_one agent_update.column_update split: if_splits)
  show "op_rel updates_agents (db_modify (record_upgrade_outcome res))"
  proof (rule agents.modify)
    fix db
    have one: "updates_agents db (update_upgrading_agent res db)" for db
      by (auto simp: updates_agents_def update_upgrading_agent_def
          intro!: agent_updates_one agent_update.column_update)
    have two: "updates_agents db (fail_dependent_upgrades res db)" for db
      by (auto simp: updates_agents_def fail_dependent_upgrades_def
          intro!: agent_updates_one agent_update.column_update)
    show "updates_agents db (record_upgrade_outcome res db)"
      using agents.trans [OF one two] one agents.refl
      by (simp add: record_upgrade_outcome_def Let_def)
  qed
  show "op_rel updates_agents (db_modify (\<lambda>db. db\<lparr>db_agents := rows_update (q db)
     (\<lambda>a. a\<lparr>ag_desired_version := None, ag_desired_package_id := None\<rparr>) (db_agents db)\<rparr>))"
    by (rule agents.modify)
      (auto simp: updates_agents_def intro!: agent_updates_one agent_update.column_update)
qed

lemma updates_agents_agent_ops:
  "updates_agents db (snd (UpsertAgent reg db))"
  "updates_agents db (snd (AsyncUpsertAgent reg db))"
  "updates_agents db (snd (MarkAgentOffline a t db))"
  "updates_agents db (snd (AsyncMarkAgentOffline a t db))"
  "updates_agents db (snd (ExpireWaitingReconnect e t db))"
  by (auto simp: agent_op_defs submit_write_def updates_agents_def
      intro!: agent_updates_one agent_update.intros agent_updates.none)

lemma updates_agents_task_ops:
  "op_rel updates_agents (EnqueueTask e task)" "op_rel updates_agents (AsyncEnqueueTask e task)"
  "op_rel updates_agents (MarkTaskRunning run)" "op_rel updates_agents (AsyncMarkTaskRunning run)"
  "op_rel updates_agents (ClaimNextTaskForAgent e uuid a t)"
  "op_rel updates_agents (AsyncClaimNextTaskForAgent e a t)"
  "op_rel updates_agents (RecordTaskResult res rb eb)"
  "op_rel updates_agents (AsyncRecordTaskResult res rb eb)"
  "op_rel updates_agents (ScheduleAgentUpgrade e a v p by t task pre)"
  "op_rel updates_agents (ScheduleAgentRollback e a by t task)"
proof -
  have lift: "op_rel (keeps db_agents) m \<Longrightarrow> op_rel updates_agents m" for m :: "'a db_op"
    by (auto simp: op_rel_def intro: updates_agents_keeps)
  note kept = agents_kept_by_task_pieces [THEN lift]
  show "op_rel updates_agents (EnqueueTask e task)" "op_rel updates_agents (AsyncEnqueueTask e task)"
    unfolding EnqueueTask_def AsyncEnqueueTask_def by (intro agents.composed kept)+
  show "op_rel updates_agents (MarkTaskRunning run)" "op_rel updates_agents (AsyncMarkTaskRunning run)"
    using kept(2) [of run] unfolding MarkTaskRunning_def AsyncMarkTaskRunning_def
    by (intro agents.in_actor; auto simp: op_rel_def agents.refl split: option.split)+
  show "op_rel updates_agents (ClaimNextTaskForAgent e uuid a t)"
    "op_rel updates_agents (AsyncClaimNextTaskForAgent e a t)"
    unfolding ClaimNextTaskForAgent_def AsyncClaimNextTaskForAgent_def
    by (intro agents.composed agents.claiming agents.notifying kept)+
  show "op_rel updates_agents (RecordTaskResult res rb eb)"
    "op_rel updates_agents (AsyncRecordTaskResult res rb eb)"
    unfolding RecordTaskResult_def AsyncRecordTaskResult_def
    by (intro agents.composed kept updates_agents_pieces)+
  show upgrade: "op_rel updates_agents (ScheduleAgentUpgrade e a v p by t task pre)" for v p pre
    unfolding ScheduleAgentUpgrade_def
    by (cases pre) (auto intro!: agents.composed kept updates_agents_pieces)
  show "op_rel updates_agents (ScheduleAgentRollback e a by t task)"
    unfolding ScheduleAgentRollback_def
    by (intro agents.composed upgrade updates_agents_pieces)
qed

lemma db_step_updates_agents: "db_step e db db' \<Longrightarrow> updates_agents db db'"
  by (induction rule: db_step.induct)
    ((rule updates_agents_agent_ops) | (rule updates_agents_keeps, rule other_ops_keep) |
     (rule op_relD, rule updates_agents_task_ops))+

definition agents_ok :: "agent_summary list \<Rightarrow> bool" where
  "agents_ok rows \<longleftrightarrow> unique_keys ag_agent_id rows \<and>
     (\<forall>r\<in>set rows. ag_upgrade_state r \<in> upgrade_states)"

lemma upsert_conflict_id [simp]: "ag_agent_id (upsert_conflict old new) = ag_agent_id old"
  by (simp add: upsert_conflict_def seen_again_def Let_def)

lemma seen_again_id [simp]: "ag_agent_id (seen_again old new) = ag_agent_id old"
  by (simp add: seen_again_def)

lemma registered_agent_id [simp]: "ag_agent_id (registered_agent reg) = reg_agent_id reg"
  by (simp add: registered_agent_def)

lemma set_rows_upsert:
  "x \<in> set (rows_upsert key merge r rows) \<Longrightarrow> x \<in> set rows \<or> x = r \<or> (\<exists>old\<in>set rows. x = merge old r)"
  by (auto simp: rows_upsert_def set_rows_update split: if_splits)

lemma upsert_conflict_state:
  "ag_upgrade_state old \<in> upgrade_states \<Longrightarrow> ag_upgrade_state (upsert_conflict old new) \<in> upgrade_states"
  by (simp add: upsert_conflict_def Let_def)

lemma seen_again_state [simp]: "ag_upgrade_state (seen_again old new) = ag_upgrade_state old"
  by (simp add: seen_again_def)

lemma registered_agent_state [simp]: "ag_upgrade_state (registered_agent reg) = None"
  by (simp add: registered_agent_def)

lemma agent_update_ok: "agent_update rows rows' \<Longrightarrow> agents_ok rows \<Longrightarrow> agents_ok rows'"
proof (induction rule: agent_update.induct)
  case (upsert rows reg)
  let ?rows' = "rows_upsert ag_agent_id upsert_conflict (registered_agent reg) rows"
  have "ag_upgrade_state x \<in> upgrade_states" if "x \<in> set ?rows'" for x
    using set_rows_upsert [OF that] upsert upsert_conflict_state
    by (auto simp: agents_ok_def)
  moreover have "unique_keys ag_agent_id ?rows'"
    using upsert by (intro unique_keys_upsert) (auto simp: agents_ok_def)
  ultimately show ?case
    unfolding agents_ok_def by blast
next
  case (async_upsert rows reg)
  let ?rows' = "rows_upsert ag_agent_id seen_again (registered_agent reg) rows"
  have "ag_upgrade_state x \<in> upgrade_states" if "x \<in> set ?rows'" for x
    using set_rows_upsert [OF that] async_upsert by (auto simp: agents_ok_def)
  moreover have "unique_keys ag_agent_id ?rows'"
    using async_upsert by (intro unique_keys_upsert) (auto simp: agents_ok_def)
  ultimately show ?case
    unfolding agents_ok_def by blast
next
  case (column_update f p rows)
  then show ?case
    by (fastforce simp: agents_ok_def set_rows_update intro: unique_keys_update)
qed

lemma agent_updates_ok: "agent_updates rows rows' \<Longrightarrow> agents_ok rows \<Longrightarrow> agents_ok rows'"
  by (induction rule: agent_updates.induct) (auto dest: agent_update_ok)

lemma db_reachable_agents_ok: "db_reachable e db \<Longrightarrow> agents_ok (db_agents db)"
proof (induction rule: db_reachable.induct)
  case start
  then show ?case by (simp add: agents_ok_def)
next
  case (step db db')
  then show ?case
    using agent_updates_ok [OF _ step.IH] db_step_updates_agents [OF step.hyps(2)]
    by (simp add: updates_agents_def)
qed


subsection \<open>Looking an agent up after an operation\<close>

lemma FindAgent_id: "FindAgent a db = Some r \<Longrightarrow> ag_agent_id r = a"
  by (auto simp: FindAgent_def dest: row_by_SomeD)

lemma FindAgent_update:
  assumes "db_agents db' = rows_update p f (db_agents db)"
    and "\<And>r. ag_agent_id (f r) = ag_agent_id r"
  shows "FindAgent a db' = map_option (\<lambda>r. if p r then f r else r) (FindAgent a db)"
  using assms by (simp add: FindAgent_def row_by_update)

lemma FindAgent_UpsertAgent:
  assumes "UpsertAgent reg db = (Inr (), db')"
  shows "FindAgent a db' =
    (if a = reg_agent_id reg
     then Some (case FindAgent a db of None \<Rightarrow> registered_agent reg
                | Some old \<Rightarrow> upsert_conflict old (registered_agent reg))
     else FindAgent a db)"
proof -
  have "db_agents db' = rows_upsert ag_agent_id upsert_conflict (registered_agent reg) (db_agents db)"
    using assms by (auto simp: UpsertAgent_def submit_write_def split: if_splits)
  then show ?thesis
    by (simp add: FindAgent_def row_by_upsert)
qed

definition ordered_upgrade ::
    "string \<Rightarrow> string \<Rightarrow> string option \<Rightarrow> string \<Rightarrow> string \<Rightarrow> agent_summary \<Rightarrow> agent_summary" where
  "ordered_upgrade desired_version desired_package_id set_by set_at task_id r =
     r\<lparr>ag_desired_version := Some desired_version, ag_desired_package_id := Some desired_package_id,
       ag_desired_set_at := Some set_at, ag_desired_set_by := set_by,
       ag_upgrade_state := Some ''queued'', ag_last_upgrade_task_id := Some task_id,
       ag_last_upgrade_error := None\<rparr>"

lemma ScheduleAgentUpgradeE:
  assumes "ScheduleAgentUpgrade e a v p by t task pre db = (Inr (), db')"
  obtains "\<not> write_actor_stopping db"
    and "db_agents db' = rows_update (\<lambda>r. ag_agent_id r = a)
           (ordered_upgrade v p by t (task_task_id task)) (db_agents db)"
    and "\<exists>x\<in>set (db_agents db). ag_agent_id x = a"
proof -
  let ?ins = "case pre of
           Some p \<Rightarrow> db_bind (insert_task e p None) (\<lambda>_. insert_task e task (Some (task_task_id p)))
         | None \<Rightarrow> insert_task e task None"
  have keep: "op_rel (keeps db_agents) ?ins"
    by (cases pre) (auto intro!: kept.bind agents_kept_by_task_pieces)
  from assms obtain dbt where
    "submit_write (transaction (db_bind (set_desired a v p by t (task_task_id task)) (\<lambda>_.
       db_bind ?ins (\<lambda>_. db_return ((), True))))) db = (Inr (), dbt)"
    and db': "db' = NotifyTaskQueueChanged dbt"
    unfolding ScheduleAgentUpgrade_def by (rule db_bind_InrE) simp
  then have running: "\<not> write_actor_stopping db"
    and "transaction (db_bind (set_desired a v p by t (task_task_id task)) (\<lambda>_.
       db_bind ?ins (\<lambda>_. db_return ((), True)))) db = (Inr (), dbt)"
    by (simp_all add: submit_write_Inr)
  from this(2) obtain db1 db2 where set: "set_desired a v p by t (task_task_id task) db = (Inr (), db1)"
    and ins: "?ins db1 = (Inr (), db2)" and dbt: "dbt = db2"
    by (elim transaction_InrE db_bind_InrE) auto
  have "db_agents db2 = db_agents db1"
    using op_relD' [OF keep ins] by (simp add: keeps_def)
  moreover have "db_agents db1 = rows_update (\<lambda>r. ag_agent_id r = a)
      (ordered_upgrade v p by t (task_task_id task)) (db_agents db)"
    and "rows_count (\<lambda>r. ag_agent_id r = a) (db_agents db) = 1"
    using set by (auto simp: set_desired_def Let_def ordered_upgrade_def [abs_def] split: if_splits)
  ultimately show ?thesis
    using running db' dbt that rows_count_one_exists [of "\<lambda>r. ag_agent_id r = a" "db_agents db"] by simp
qed

lemma RecordTaskResultE:
  assumes "RecordTaskResult res rb eb db = (Inr (), db')"
  obtains db1 where "finish_task res (result_values res rb eb) db = (Inr (), db1)"
    and "db' = NotifyTaskQueueChanged (record_upgrade_outcome res db1)"
  using assms unfolding RecordTaskResult_finish
  by (elim db_bind_InrE transaction_InrE submit_write_Inr [THEN iffD1, elim_format] conjE) simp_all

lemma agents_after_result:
  assumes "RecordTaskResult res rb eb db = (Inr (), db')"
    and "res_task_type res = TT_package_update" and "res_status res = TE_succeeded"
  shows "FindAgent a db' = map_option (\<lambda>r.
           if ag_agent_id r = res_agent_id res \<and> ag_last_upgrade_task_id r = Some (res_task_id res)
           then r\<lparr>ag_upgrade_state := Some ''waiting_reconnect'',
                  ag_last_upgrade_error := map_option (\<lambda>x. ErrorCode_ToString (te_error_code x)) (res_error res),
                  ag_last_upgrade_at := Some (res_occurred_at res)\<rparr>
           else r) (FindAgent a db)"
proof -
  from assms(1) obtain db1 where fin: "finish_task res (result_values res rb eb) db = (Inr (), db1)"
    and db': "db' = NotifyTaskQueueChanged (record_upgrade_outcome res db1)"
    by (rule RecordTaskResultE)
  from fin have "db_agents db1 = db_agents db"
    by (rule finish_taskE) simp
  with db' assms(2,3) have "db_agents db' = rows_update
       (\<lambda>a. ag_agent_id a = res_agent_id res \<and> ag_last_upgrade_task_id a = Some (res_task_id res))
       (\<lambda>a. a\<lparr>ag_upgrade_state := Some ''waiting_reconnect'',
              ag_last_upgrade_error := map_option (\<lambda>x. ErrorCode_ToString (te_error_code x)) (res_error res),
              ag_last_upgrade_at := Some (res_occurred_at res)\<rparr>) (db_agents db)"
    by (simp add: record_upgrade_outcome_def update_upgrading_agent_def Let_def)
  then show ?thesis
    by (rule FindAgent_update) simp
qed

subsection \<open>Properties\<close>

text \<open>
  C36: The upgrade cycle, end to end.  After an upgrade of a known agent to version \<open>v\<close> of package
  \<open>p\<close> was ordered, the success of its task leaves the agent waiting for a reconnect; when it then
  registers with version \<open>v\<close>, the upgrade has succeeded, \<open>p\<close> is its current package and there is
  no error, and when it registers with any other version, the upgrade has failed with
  \<open>agent_reported_unexpected_version\<close> and the current package is what it was before.
\<close>

theorem upgrade_cycle:
  assumes "FindAgent a db = Some before"
    and "ScheduleAgentUpgrade e a v p by t task pre db = (Inr (), db1)"
    and "RecordTaskResult res rb eb db1 = (Inr (), db2)"
    and "res_task_type res = TT_package_update" and "res_status res = TE_succeeded"
    and "res_agent_id res = a" and "res_task_id res = task_task_id task"
    and "UpsertAgent reg db2 = (Inr (), db3)" and "reg_agent_id reg = a"
  shows "\<exists>waiting after. FindAgent a db2 = Some waiting \<and>
     ag_upgrade_state waiting = Some ''waiting_reconnect'' \<and>
     FindAgent a db3 = Some after \<and>
     ag_upgrade_state after = Some (if reg_agent_version reg = v then ''succeeded'' else ''failed'') \<and>
     ag_current_package_id after = (if reg_agent_version reg = v then Some p else ag_current_package_id before) \<and>
     ag_last_upgrade_error after = (if reg_agent_version reg = v then None
        else Some ''agent_reported_unexpected_version'') \<and>
     ag_last_upgrade_at after = Some (reg_occurred_at reg)"
proof -
  have id: "ag_agent_id before = a"
    using assms(1) by (rule FindAgent_id)
  have "FindAgent a db1 = Some (ordered_upgrade v p by t (task_task_id task) before)"
    using assms(2)
  proof (rule ScheduleAgentUpgradeE)
    assume "db_agents db1 = rows_update (\<lambda>r. ag_agent_id r = a)
           (ordered_upgrade v p by t (task_task_id task)) (db_agents db)"
    from FindAgent_update [OF this, of a] show ?thesis
      using assms(1) id by (simp add: ordered_upgrade_def)
  qed
  then have waiting: "FindAgent a db2 = Some ((ordered_upgrade v p by t (task_task_id task) before)
      \<lparr>ag_upgrade_state := Some ''waiting_reconnect'',
       ag_last_upgrade_error := map_option (\<lambda>x. ErrorCode_ToString (te_error_code x)) (res_error res),
       ag_last_upgrade_at := Some (res_occurred_at res)\<rparr>)"
    using agents_after_result [OF assms(3-5), of a] assms(6,7) id
    by (simp add: ordered_upgrade_def)
  then show ?thesis
    using FindAgent_UpsertAgent [OF assms(8), of a] assms(9)
    by (auto simp: upsert_conflict_def seen_again_def registered_agent_def ordered_upgrade_def Let_def)
qed


definition demo_registration :: agent_registration where
  "demo_registration =
     \<lparr>reg_protocol_version = ''v1'', reg_request_id = ''r'', reg_agent_id = ''a'',
      reg_occurred_at = ''1'', reg_agent_version = ''1.0.0'', reg_hostname = ''h'',
      reg_os = ''linux'', reg_arch = ''x86_64'', reg_registration_token = None\<rparr>"

definition demo_upgrade_task :: task where
  "demo_upgrade_task =
     \<lparr>task_protocol_version = ''v1'', task_task_id = ''u1'', task_agent_id = ''a'',
      task_task_type = TT_package_update, task_capability_level = CL_high_risk_write,
      task_created_at = ''1'', task_expires_at = ''9'',
      task_input_data = PackageUpdateInput (empty_update_input\<lparr>pui_action := []\<rparr>)\<rparr>"

definition demo_fleet :: server_database where
  "demo_fleet = snd (UpsertAgent demo_registration fresh_database)"

definition demo_ordered :: server_database where
  "demo_ordered = snd (ScheduleAgentUpgrade demo_ext ''a'' ''2.0.0'' ''pkg'' None ''2''
     demo_upgrade_task None demo_fleet)"

definition demo_upgrade_result :: task_result where
  "demo_upgrade_result =
     demo_result\<lparr>res_task_id := ''u1'', res_task_type := TT_package_update\<rparr>"

lemma demo_serialize_update [simp]:
  "SerializeTaskInputBlob (ext_wire demo_ext) TT_package_update (PackageUpdateInput (empty_update_input\<lparr>pui_action := []\<rparr>)) = Inr []"
  by (simp add: demo_ext_def demo_wire_def SerializeTaskInputBlob_def SerializeProto_def Let_def
      FillProtoPackageUpdateInput_def empty_update_input_def default_update_input_def)

lemma demo_upgrade_task_simps [simp]:
  "task_task_id demo_upgrade_task = ''u1''" "task_task_type demo_upgrade_task = TT_package_update"
  "task_input_data demo_upgrade_task = PackageUpdateInput (empty_update_input\<lparr>pui_action := []\<rparr>)"
  by (simp_all add: demo_upgrade_task_def)

lemma demo_fleet_run: "UpsertAgent demo_registration fresh_database = (Inr (), demo_fleet)"
  by (simp add: demo_fleet_def UpsertAgent_def submit_write_def)

lemma demo_fleet_tables:
  "db_agents demo_fleet = [registered_agent demo_registration]" "db_tasks demo_fleet = []"
  "db_task_results demo_fleet = []" "\<not> write_actor_stopping demo_fleet"
  by (simp_all add: demo_fleet_def UpsertAgent_def submit_write_def rows_upsert_def)

lemma demo_registered_id [simp]: "reg_agent_id demo_registration = ''a''"
  by (simp add: demo_registration_def)

lemma demo_ordered_run:
  "ScheduleAgentUpgrade demo_ext ''a'' ''2.0.0'' ''pkg'' None ''2'' demo_upgrade_task None demo_fleet =
     (Inr (), NotifyTaskQueueChanged (demo_fleet\<lparr>
        db_agents := [ordered_upgrade ''2.0.0'' ''pkg'' None ''2'' ''u1'' (registered_agent demo_registration)],
        db_tasks := [task_values demo_upgrade_task [] None]\<rparr>))"
  by (simp add: ScheduleAgentUpgrade_def submit_write_def transaction_def set_desired_def
      insert_task_def db_op_defs demo_fleet_tables rows_count_def rows_insert_def ordered_upgrade_def
      Let_def)

lemma demo_ordered_tables:
  "db_agents demo_ordered = [ordered_upgrade ''2.0.0'' ''pkg'' None ''2'' ''u1'' (registered_agent demo_registration)]"
  "db_tasks demo_ordered = [task_values demo_upgrade_task [] None]"
  "db_task_results demo_ordered = []" "\<not> write_actor_stopping demo_ordered"
  by (simp_all add: demo_ordered_def demo_ordered_run demo_fleet_tables)

lemma demo_upgrade_result_run:
  "fst (RecordTaskResult demo_upgrade_result None None demo_ordered) = Inr ()"
  "\<not> write_actor_stopping (snd (RecordTaskResult demo_upgrade_result None None demo_ordered))"
  by (simp_all add: RecordTaskResult_def submit_write_def demo_ordered_tables transaction_def
      insert_result_def set_terminal_def record_upgrade_outcome_def db_op_defs demo_upgrade_result_def
      demo_result_def result_values_def rows_insert_def rows_count_def task_values_def
      update_upgrading_agent_def Let_def)

theorem upgrade_cycle_witness:
  "\<exists>after. FindAgent ''a'' (snd (UpsertAgent (demo_registration\<lparr>reg_agent_version := ''2.0.0''\<rparr>)
       (snd (RecordTaskResult demo_upgrade_result None None demo_ordered)))) = Some after \<and>
     ag_current_package_id after = Some ''pkg''"
proof -
  let ?reg = "demo_registration\<lparr>reg_agent_version := ''2.0.0''\<rparr>"
  let ?db2 = "snd (RecordTaskResult demo_upgrade_result None None demo_ordered)"
  have found: "FindAgent ''a'' demo_fleet = Some (registered_agent demo_registration)"
    by (simp add: FindAgent_def demo_fleet_tables row_by_def)
  have order: "ScheduleAgentUpgrade demo_ext ''a'' ''2.0.0'' ''pkg'' None ''2'' demo_upgrade_task None
      demo_fleet = (Inr (), demo_ordered)"
    by (simp add: demo_ordered_def demo_ordered_run)
  have result: "RecordTaskResult demo_upgrade_result None None demo_ordered = (Inr (), ?db2)"
    using demo_upgrade_result_run by (simp add: prod_eq_iff)
  have again: "UpsertAgent ?reg ?db2 = (Inr (), snd (UpsertAgent ?reg ?db2))"
    using demo_upgrade_result_run(2) by (simp add: UpsertAgent_def submit_write_def)
  from upgrade_cycle [OF found order result _ _ _ _ again] show ?thesis
    by (fastforce simp: demo_upgrade_result_def demo_result_def demo_registration_def)
qed


text \<open>
  A rollback is confirmed by any version.  After a rollback of a known agent was ordered and its
  task succeeded, the next registration of the agent, whatever version it reports, makes the
  upgrade state \<open>succeeded\<close> without error and clears the current package.
\<close>

theorem rollback_cycle:
  assumes "FindAgent a db = Some before"
    and "ScheduleAgentRollback e a by t task db = (Inr (), db1)"
    and "RecordTaskResult res rb eb db1 = (Inr (), db2)"
    and "res_task_type res = TT_package_update" and "res_status res = TE_succeeded"
    and "res_agent_id res = a" and "res_task_id res = task_task_id task"
    and "UpsertAgent reg db2 = (Inr (), db3)" and "reg_agent_id reg = a"
  shows "\<exists>after. FindAgent a db3 = Some after \<and>
     ag_upgrade_state after = Some ''succeeded'' \<and> ag_current_package_id after = None \<and>
     ag_last_upgrade_error after = None"
proof -
  have id: "ag_agent_id before = a"
    using assms(1) by (rule FindAgent_id)
  from assms(2) obtain db0 where order: "ScheduleAgentUpgrade e a [] [] by t task None db = (Inr (), db0)"
    and clear: "db_agents db1 = rows_update
       (\<lambda>r. ag_agent_id r = a \<and> ag_last_upgrade_task_id r = Some (task_task_id task))
       (\<lambda>r. r\<lparr>ag_desired_version := None, ag_desired_package_id := None\<rparr>) (db_agents db0)"
    unfolding ScheduleAgentRollback_def by (elim db_bind_InrE) (simp add: submit_write_Inr)
  from order have "FindAgent a db0 = Some (ordered_upgrade [] [] by t (task_task_id task) before)"
  proof (rule ScheduleAgentUpgradeE)
    assume "db_agents db0 = rows_update (\<lambda>r. ag_agent_id r = a)
           (ordered_upgrade [] [] by t (task_task_id task)) (db_agents db)"
    from FindAgent_update [OF this, of a] show ?thesis
      using assms(1) id by (simp add: ordered_upgrade_def)
  qed
  then have "FindAgent a db1 = Some ((ordered_upgrade [] [] by t (task_task_id task) before)
      \<lparr>ag_desired_version := None, ag_desired_package_id := None\<rparr>)"
    using FindAgent_update [OF clear, of a] id by (simp add: ordered_upgrade_def)
  then show ?thesis
    using agents_after_result [OF assms(3-5), of a] assms(6,7,9) id
      FindAgent_UpsertAgent [OF assms(8), of a]
    by (auto simp: upsert_conflict_def seen_again_def registered_agent_def ordered_upgrade_def Let_def)
qed

definition demo_rolling_back :: server_database where
  "demo_rolling_back =
     snd (ScheduleAgentRollback demo_ext ''a'' None ''2'' demo_upgrade_task demo_fleet)"

lemma demo_rolling_back_run:
  "ScheduleAgentRollback demo_ext ''a'' None ''2'' demo_upgrade_task demo_fleet = (Inr (), demo_rolling_back)"
  "db_tasks demo_rolling_back = [task_values demo_upgrade_task [] None]"
  "db_task_results demo_rolling_back = []" "\<not> write_actor_stopping demo_rolling_back"
  by (simp_all add: demo_rolling_back_def ScheduleAgentRollback_def ScheduleAgentUpgrade_def
      submit_write_def transaction_def set_desired_def insert_task_def db_op_defs
      demo_fleet_tables rows_count_def rows_insert_def Let_def)

lemma demo_rollback_result_run:
  "fst (RecordTaskResult demo_upgrade_result None None demo_rolling_back) = Inr ()"
  "\<not> write_actor_stopping (snd (RecordTaskResult demo_upgrade_result None None demo_rolling_back))"
  by (simp_all add: RecordTaskResult_def submit_write_def demo_rolling_back_run transaction_def
      insert_result_def set_terminal_def record_upgrade_outcome_def db_op_defs demo_upgrade_result_def
      demo_result_def result_values_def rows_insert_def rows_count_def task_values_def
      update_upgrading_agent_def Let_def)

theorem rollback_cycle_witness:
  "\<exists>after. FindAgent ''a'' (snd (UpsertAgent demo_registration
       (snd (RecordTaskResult demo_upgrade_result None None demo_rolling_back)))) = Some after \<and>
     ag_upgrade_state after = Some ''succeeded''"
proof -
  let ?db2 = "snd (RecordTaskResult demo_upgrade_result None None demo_rolling_back)"
  have found: "FindAgent ''a'' demo_fleet = Some (registered_agent demo_registration)"
    by (simp add: FindAgent_def demo_fleet_tables row_by_def)
  have result: "RecordTaskResult demo_upgrade_result None None demo_rolling_back = (Inr (), ?db2)"
    using demo_rollback_result_run by (simp add: prod_eq_iff)
  have again: "UpsertAgent demo_registration ?db2 = (Inr (), snd (UpsertAgent demo_registration ?db2))"
    using demo_rollback_result_run(2) by (simp add: UpsertAgent_def submit_write_def)
  from rollback_cycle [OF found demo_rolling_back_run(1) result _ _ _ _ again] show ?thesis
    by (fastforce simp: demo_upgrade_result_def demo_result_def)
qed

text \<open>
  A reconnect that does not come.  \<open>ExpireWaitingReconnect\<close> returns exactly the agents that wait
  for a reconnect and are overdue, makes their upgrade failed with \<open>waiting_reconnect_timeout\<close>,
  leaves every other agent as it is, and a second call at the same time finds nothing.
\<close>

theorem expire_waiting_reconnect:
  assumes "ExpireWaitingReconnect e now db = (Inr expired, db')"
  shows "FindAgent a db' = map_option (\<lambda>r. if overdue e now r
           then r\<lparr>ag_upgrade_state := Some ''failed'',
                  ag_last_upgrade_error := Some ''waiting_reconnect_timeout''\<rparr> else r) (FindAgent a db) \<and>
         (a \<in> set expired \<longleftrightarrow> (\<exists>r\<in>set (db_agents db). ag_agent_id r = a \<and> overdue e now r)) \<and>
         ExpireWaitingReconnect e now db' = (Inr [], db')"
proof -
  let ?f = "\<lambda>r. r\<lparr>ag_upgrade_state := Some ''failed'', ag_last_upgrade_error := Some ''waiting_reconnect_timeout''\<rparr>"
  from assms have running: "\<not> write_actor_stopping db"
    and ids: "expired = map ag_agent_id (filter (overdue e now) (db_agents db))"
    and db': "db' = db\<lparr>db_agents := rows_update (overdue e now) ?f (db_agents db)\<rparr>"
    by (auto simp: ExpireWaitingReconnect_def submit_write_Inr)
  have none: "\<not> overdue e now r" if "r \<in> set (db_agents db')" for r
    using that by (auto simp: db' set_rows_update overdue_def)
  have "FindAgent a db' = map_option (\<lambda>r. if overdue e now r then ?f r else r) (FindAgent a db)"
    by (rule FindAgent_update) (simp_all add: db')
  moreover have "rows_update (overdue e now) ?f (db_agents db') = db_agents db'"
    using none by (rule rows_update_none)
  then have "ExpireWaitingReconnect e now db' = (Inr [], db')"
    using none running by (simp add: ExpireWaitingReconnect_def submit_write_Inr filter_empty_conv) (simp add: db')
  ultimately show ?thesis
    by (auto simp: ids)
qed

definition demo_waiting :: server_database where
  "demo_waiting = fresh_database\<lparr>db_agents := [(registered_agent demo_registration)
     \<lparr>ag_upgrade_state := Some ''waiting_reconnect'', ag_last_upgrade_at := Some ''2''\<rparr>]\<rparr>"

theorem expire_waiting_reconnect_witness:
  "fst (ExpireWaitingReconnect demo_ext ''3'' (snd (ExpireWaitingReconnect demo_ext ''3'' demo_waiting))) = Inr [] \<and>
   fst (ExpireWaitingReconnect demo_ext ''3'' demo_waiting) = Inr [''a'']"
proof -
  have run: "ExpireWaitingReconnect demo_ext ''3'' demo_waiting =
      (Inr [''a''], snd (ExpireWaitingReconnect demo_ext ''3'' demo_waiting))"
    by (simp add: ExpireWaitingReconnect_def submit_write_def demo_waiting_def overdue_def demo_ext_def
        less_char_def)
  from expire_waiting_reconnect [OF run] show ?thesis
    using run by (metis fst_conv)
qed


subsection \<open>A prerequisite that fails\<close>

lemma schedule_with_prerequisite:
  assumes "ScheduleAgentUpgrade e a v p by t task (Some pre) db = (Inr (), db')"
  obtains blob where "row_by tk_task_id (task_task_id task) (db_tasks db') =
      Some (task_values task blob (Some (task_task_id pre)))"
    and "task_task_id task \<noteq> task_task_id pre"
proof -
  from assms obtain db1 db2 db3
    where pre: "insert_task e pre None db1 = (Inr (), db2)"
      and dep: "insert_task e task (Some (task_task_id pre)) db2 = (Inr (), db3)"
      and db': "db_tasks db' = db_tasks db3"
    unfolding ScheduleAgentUpgrade_def
    by (elim db_bind_InrE transaction_InrE submit_write_Inr [THEN iffD1, elim_format] conjE)
      (auto elim!: db_bind_InrE)
  from pre obtain preblob where "task_values pre preblob None \<in> set (db_tasks db2)"
    by (cases rule: insert_taskE) (auto simp: rows_insert_Inr_iff)
  moreover from dep obtain blob
    where ins: "rows_insert tk_task_id (task_values task blob (Some (task_task_id pre))) (db_tasks db2) =
        Inr (db_tasks db3)"
    by (cases rule: insert_taskE) auto
  ultimately have other: "task_task_id task \<noteq> task_task_id pre"
    by (force simp: rows_insert_Inr_iff task_values_def)
  have row: "row_by tk_task_id (task_task_id task) (db_tasks db') =
      Some (task_values task blob (Some (task_task_id pre)))"
    using row_by_insert [OF ins] by (simp add: db' task_values_def)
  show ?thesis
    using row other by (rule that)
qed

text \<open>
  A failed prerequisite fails the upgrade.  When an upgrade was ordered with a prerequisite task
  and that task fails or expires, the agent's upgrade is failed with the reported error code, or
  \<open>task_execution_failed\<close> when there is none, and the upgrade task itself is never handed out, by
  either variant of the claim, in any later state: it stays queued.
\<close>

theorem failed_prerequisite_fails_upgrade:
  assumes "db_reachable e db" and "orders_by_created (ext_first_created e)"
    and "ScheduleAgentUpgrade e a v p by t task (Some pre) db = (Inr (), db1)"
    and "RecordTaskResult res rb eb db1 = (Inr (), db2)"
    and "res_task_type res = TT_package_update" and "res_status res \<noteq> TE_succeeded"
    and "res_agent_id res = a" and "res_task_id res = task_task_id pre"
    and "db_runs e db2 db3"
    and "ClaimNextTaskForAgent e uuid b t' db3 = (Inr (Some claimed), db4) \<or>
         AsyncClaimNextTaskForAgent e b t' db3 = (Inr (Some claimed), db4)"
    and "FindAgent a db = Some before"
  shows "(\<exists>after. FindAgent a db2 = Some after \<and> ag_upgrade_state after = Some ''failed'' \<and>
            ag_last_upgrade_error after = Some (case res_error res of
              Some x \<Rightarrow> ErrorCode_ToString (te_error_code x) | None \<Rightarrow> ''task_execution_failed'')) \<and>
         task_task_id claimed \<noteq> task_task_id task"
proof
  have reach1: "db_reachable e db1"
    using db_reachable.step [OF assms(1) db_step.schedule_upgrade [of e db a v p "by" t task "Some pre"]]
      assms(3) by simp
  have reach2: "db_reachable e db2"
    using db_reachable.step [OF reach1 db_step.record_result [of e db1 res rb eb]] assms(4) by simp
  from assms(3) obtain blob
    where row: "row_by tk_task_id (task_task_id task) (db_tasks db1) =
        Some (task_values task blob (Some (task_task_id pre)))"
      and other: "task_task_id task \<noteq> task_task_id pre"
    by (rule schedule_with_prerequisite)
  from assms(4) obtain dbf where fin: "finish_task res (result_values res rb eb) db1 = (Inr (), dbf)"
    and db2: "db2 = NotifyTaskQueueChanged (record_upgrade_outcome res dbf)"
    by (rule RecordTaskResultE)
  have agents: "db_agents dbf = db_agents db1"
    using fin by (rule finish_taskE) simp
  have kept: "orders_kept db1 db2"
    using db_step_orders [OF db_step.record_result [of e db1 res rb eb]] assms(4) by simp
  with row obtain row2 where row2: "row_by tk_task_id (task_task_id task) (db_tasks db2) = Some row2"
    and order: "task_order row2 = task_order (task_values task blob (Some (task_task_id pre)))"
    unfolding orders_kept_def by blast
  have pre2: "tk_prerequisite_task_id row2 = Some (task_task_id pre)"
    using task_order_prerequisite [OF order] by (simp add: task_values_def)
  have tasks: "db_tasks db2 = db_tasks dbf"
    by (simp add: db2 record_upgrade_outcome_def update_upgrading_agent_def
        fail_dependent_upgrades_def Let_def)
  have dependent: "\<exists>x\<in>set (db_tasks dbf). tk_task_id x = task_task_id task \<and>
      tk_prerequisite_task_id x = Some (task_task_id pre)"
    using row_by_SomeD [OF row2] pre2 tasks by (intro bexI [of _ row2]) simp_all
  have "FindAgent a db1 = Some (ordered_upgrade v p by t (task_task_id task) before)"
    using assms(3)
  proof (rule ScheduleAgentUpgradeE)
    assume "db_agents db1 = rows_update (\<lambda>r. ag_agent_id r = a)
           (ordered_upgrade v p by t (task_task_id task)) (db_agents db)"
    from FindAgent_update [OF this, of a] show ?thesis
      using assms(11) FindAgent_id [OF assms(11)] by (simp add: ordered_upgrade_def)
  qed
  then have found: "row_by ag_agent_id a (db_agents dbf) =
      Some (ordered_upgrade v p by t (task_task_id task) before)"
    by (simp add: FindAgent_def agents)
  have id: "ag_agent_id before = a"
    using assms(11) by (rule FindAgent_id)
  show "\<exists>after. FindAgent a db2 = Some after \<and> ag_upgrade_state after = Some ''failed'' \<and>
            ag_last_upgrade_error after = Some (case res_error res of
              Some x \<Rightarrow> ErrorCode_ToString (te_error_code x) | None \<Rightarrow> ''task_execution_failed'')"
    using found id other dependent assms(5-8)
    by (auto simp: db2 FindAgent_def record_upgrade_outcome_def update_upgrading_agent_def
        fail_dependent_upgrades_def row_by_update ordered_upgrade_def Let_def split: option.splits)
  have "task_states db2 (task_task_id pre) = Some (terminal_state_of (res_status res))"
    using finish_task_states(1) [OF db_reachable_tasks_ok [OF reach1] fin] assms(8) tasks
    by (simp add: result_values_def task_states_def fun_eq_iff)
  moreover have "terminal_state_of (res_status res) = TS_failed \<or> terminal_state_of (res_status res) = TS_expired"
    using assms(6) by (simp add: terminal_state_of_def)
  ultimately show "task_task_id claimed \<noteq> task_task_id task"
    using failed_prerequisite_blocks [OF reach2 assms(2) row2 pre2 _ _ assms(9,10)]
    by blast
qed


definition demo_prerequisite :: task where
  "demo_prerequisite = demo_upgrade_task\<lparr>task_task_id := ''p1''\<rparr>"

definition demo_failure :: task_result where
  "demo_failure = demo_upgrade_result\<lparr>res_task_id := ''p1'', res_status := TE_failed\<rparr>"

definition demo_chain :: server_database where
  "demo_chain = snd (ScheduleAgentUpgrade demo_ext ''a'' ''2.0.0'' ''pkg'' None ''2''
     demo_upgrade_task (Some demo_prerequisite) demo_fleet)"

definition demo_chain_failed :: server_database where
  "demo_chain_failed = snd (RecordTaskResult demo_failure None None demo_chain)"

definition demo_chain_more :: server_database where
  "demo_chain_more = snd (EnqueueTask demo_ext demo_task demo_chain_failed)"

lemma demo_prerequisite_simps [simp]:
  "task_task_id demo_prerequisite = ''p1''" "task_task_type demo_prerequisite = TT_package_update"
  "task_input_data demo_prerequisite = PackageUpdateInput (empty_update_input\<lparr>pui_action := []\<rparr>)"
  by (simp_all add: demo_prerequisite_def)

lemma task_values_simps:
  "tk_task_id (task_values task blob pre) = task_task_id task"
  "tk_state (task_values task blob pre) = state_text TS_queued"
  "tk_prerequisite_task_id (task_values task blob pre) = pre"
  by (simp_all add: task_values_def)

lemma demo_chain_run:
  "ScheduleAgentUpgrade demo_ext ''a'' ''2.0.0'' ''pkg'' None ''2'' demo_upgrade_task
     (Some demo_prerequisite) demo_fleet = (Inr (), demo_chain)"
  "db_tasks demo_chain = [task_values demo_prerequisite [] None,
     task_values demo_upgrade_task [] (Some ''p1'')]"
  "db_task_results demo_chain = []" "\<not> write_actor_stopping demo_chain"
  by (simp_all add: demo_chain_def ScheduleAgentUpgrade_def submit_write_def transaction_def
      set_desired_def insert_task_def db_op_defs demo_fleet_tables rows_count_def rows_insert_def
      task_values_simps Let_def)

lemma demo_chain_failed_run:
  "RecordTaskResult demo_failure None None demo_chain = (Inr (), demo_chain_failed)"
  "db_tasks demo_chain_failed = [(task_values demo_prerequisite [] None)
     \<lparr>tk_state := state_text TS_failed, tk_completed_at := Some ''3''\<rparr>,
     task_values demo_upgrade_task [] (Some ''p1'')]"
  "\<not> write_actor_stopping demo_chain_failed"
  by (simp_all add: demo_chain_failed_def RecordTaskResult_def submit_write_def demo_chain_run
      transaction_def insert_result_def set_terminal_def record_upgrade_outcome_def db_op_defs
      demo_failure_def demo_upgrade_result_def demo_result_def result_values_def rows_insert_def
      rows_count_def task_values_simps terminal_state_of_def update_upgrading_agent_def
      fail_dependent_upgrades_def Let_def)

lemma demo_chain_more_tables:
  "db_tasks demo_chain_more = db_tasks demo_chain_failed @ [task_values demo_task [] None]"
  "\<not> write_actor_stopping demo_chain_more"
  by (simp_all add: demo_chain_more_def EnqueueTask_def submit_write_def insert_task_def db_op_defs
      rows_insert_def demo_chain_failed_run task_values_simps)

lemma demo_chain_claim:
  "fst (AsyncClaimNextTaskForAgent demo_ext ''a'' ''2'' demo_chain_more) = Inr (Some demo_task)"
proof -
  have "claimable (db_tasks demo_chain_more) ''a'' ''2'' (task_values demo_task [] None)"
    by (simp add: claimable_def task_values_def demo_task_def less_char_def)
  moreover have "\<not> claimable (db_tasks demo_chain_more) ''a'' ''2''
      (task_values demo_upgrade_task [] (Some ''p1''))"
    by (simp add: claimable_def demo_chain_more_tables demo_chain_failed_run task_values_simps
        TaskState_ToString.simps)
  moreover have "\<not> claimable (db_tasks demo_chain_more) ''a'' ''2''
      ((task_values demo_prerequisite [] None)\<lparr>tk_state := state_text TS_failed, tk_completed_at := Some ''3''\<rparr>)"
    by (simp add: claimable_def)
  ultimately have "filter (claimable (db_tasks demo_chain_more) ''a'' ''2'') (db_tasks demo_chain_more) =
      [task_values demo_task [] None]"
    by (subst (2) demo_chain_more_tables(1)) (simp add: demo_chain_failed_run)
  then have "next_task_row demo_ext ''a'' ''2'' demo_chain_more = Some (task_values demo_task [] None)"
    by (simp add: next_task_row_def Let_def demo_ext_def)
  with demo_parse show ?thesis
    by (simp add: AsyncClaimNextTaskForAgent_def submit_write_def transaction_def claim_body_def
        set_assigned_def notify_claim_def db_op_defs Let_def rows_count_def demo_chain_more_tables
        demo_chain_failed_run task_values_simps)
qed

theorem failed_prerequisite_fails_upgrade_witness:
  "(\<exists>after. FindAgent ''a'' demo_chain_failed = Some after \<and>
      ag_last_upgrade_error after = Some ''task_execution_failed'') \<and>
   task_task_id demo_task \<noteq> task_task_id demo_upgrade_task"
proof -
  have reachable: "db_reachable demo_ext demo_fleet"
    unfolding demo_fleet_def by (rule db_reachable.step [OF db_reachable.start db_step.upsert_agent])
  have found: "FindAgent ''a'' demo_fleet = Some (registered_agent demo_registration)"
    by (simp add: FindAgent_def demo_fleet_tables row_by_def)
  have runs: "db_runs demo_ext demo_chain_failed demo_chain_more"
    unfolding demo_chain_more_def by (rule db_runs_one, rule db_step.enqueue)
  have claim: "ClaimNextTaskForAgent demo_ext [] ''a'' ''2'' demo_chain_more = (Inr (Some demo_task), db4) \<or>
      AsyncClaimNextTaskForAgent demo_ext ''a'' ''2'' demo_chain_more =
        (Inr (Some demo_task), snd (AsyncClaimNextTaskForAgent demo_ext ''a'' ''2'' demo_chain_more))" for db4
    using demo_chain_claim by (simp add: prod_eq_iff)
  have error: "res_error demo_failure = None"
    by (simp add: demo_failure_def demo_upgrade_result_def demo_result_def)
  from failed_prerequisite_fails_upgrade [OF reachable demo_ext_laws(1) demo_chain_run(1)
      demo_chain_failed_run(1) _ _ _ _ runs claim found] error
  show ?thesis
    by (fastforce simp: demo_failure_def demo_upgrade_result_def demo_result_def)
qed


subsection \<open>Presence and listing\<close>

lemma MarkAgentOffline_Inr:
  "MarkAgentOffline a t db = (Inr (), db') \<longleftrightarrow> \<not> write_actor_stopping db \<and>
     db' = db\<lparr>db_agents := rows_update (\<lambda>r. ag_agent_id r = a \<and> ag_status r \<noteq> ''offline'')
       (\<lambda>r. r\<lparr>ag_last_seen_at := t, ag_last_offline_at := Some t, ag_status := ''offline''\<rparr>) (db_agents db)\<rparr>"
  by (auto simp: MarkAgentOffline_def submit_write_Inr)

text \<open>
  Presence.  A registration makes the agent online with the version it reports and keeps the
  time it was first seen; a disconnect makes it offline at that time; a second disconnect, which
  arrives after the agent is already offline, changes nothing.
\<close>

theorem agent_presence:
  assumes "UpsertAgent reg db = (Inr (), db1)"
    and "MarkAgentOffline (reg_agent_id reg) t db1 = (Inr (), db2)"
    and "MarkAgentOffline (reg_agent_id reg) t' db2 = (Inr (), db3)"
  shows "\<exists>online offline.
     FindAgent (reg_agent_id reg) db1 = Some online \<and> ag_status online = ''online'' \<and>
     ag_agent_version online = reg_agent_version reg \<and>
     ag_first_seen_at online = (case FindAgent (reg_agent_id reg) db of
        None \<Rightarrow> reg_occurred_at reg | Some old \<Rightarrow> ag_first_seen_at old) \<and>
     FindAgent (reg_agent_id reg) db2 = Some offline \<and> ag_status offline = ''offline'' \<and>
     ag_last_offline_at offline = Some t \<and> ag_last_online_at offline = ag_last_online_at online \<and>
     db3 = db2"
proof -
  let ?a = "reg_agent_id reg"
  let ?off = "\<lambda>r. r\<lparr>ag_last_seen_at := t, ag_last_offline_at := Some t, ag_status := ''offline''\<rparr>"
  obtain online where online: "FindAgent ?a db1 = Some online" "ag_status online = ''online''"
      "ag_agent_version online = reg_agent_version reg"
      "ag_first_seen_at online = (case FindAgent ?a db of
        None \<Rightarrow> reg_occurred_at reg | Some old \<Rightarrow> ag_first_seen_at old)"
    using FindAgent_UpsertAgent [OF assms(1), of ?a]
    by (auto simp: upsert_conflict_def seen_again_def registered_agent_def Let_def split: option.splits)
  from assms(2) have db2: "db_agents db2 =
      rows_update (\<lambda>r. ag_agent_id r = ?a \<and> ag_status r \<noteq> ''offline'') ?off (db_agents db1)"
    by (simp add: MarkAgentOffline_Inr)
  from FindAgent_update [OF this, of ?a] have "FindAgent ?a db2 = Some (?off online)"
    using online FindAgent_id [OF online(1)] by simp
  moreover have "rows_update (\<lambda>r. ag_agent_id r = ?a \<and> ag_status r \<noteq> ''offline'')
      (\<lambda>r. r\<lparr>ag_last_seen_at := t', ag_last_offline_at := Some t', ag_status := ''offline''\<rparr>)
      (db_agents db2) = db_agents db2"
    by (rule rows_update_none) (auto simp: db2 set_rows_update split: if_splits)
  then have "db3 = db2"
    using assms(3) by (simp add: MarkAgentOffline_Inr)
  ultimately show ?thesis
    using online by simp
qed

theorem agent_presence_witness:
  "\<exists>online. FindAgent ''a'' demo_fleet = Some online \<and> ag_status online = ''online''"
proof -
  let ?db2 = "snd (MarkAgentOffline ''a'' ''2'' demo_fleet)"
  have "MarkAgentOffline ''a'' ''2'' demo_fleet = (Inr (), ?db2)"
    and "MarkAgentOffline ''a'' ''3'' ?db2 = (Inr (), snd (MarkAgentOffline ''a'' ''3'' ?db2))"
    by (simp_all add: MarkAgentOffline_def submit_write_def demo_fleet_tables)
  with agent_presence [OF demo_fleet_run] show ?thesis
    by fastforce
qed

text \<open>
  The agents' table and its listing.  In every reachable database agent ids are unique, every
  stored upgrade state is one of the four the API names or absent, an agent exists exactly when it
  can be looked up, and \<open>ListAgents\<close> returns every agent once, in the order of the query.
\<close>

theorem list_agents_complete:
  assumes "db_reachable e db"
  shows "distinct (map ag_agent_id (ListAgents db)) \<and> sorted_wrt agent_list_order (ListAgents db) \<and>
     (AgentExists a db \<longleftrightarrow> FindAgent a db \<noteq> None) \<and>
     (FindAgent a db = Some r \<longleftrightarrow> r \<in> set (ListAgents db) \<and> ag_agent_id r = a) \<and>
     (\<forall>r\<in>set (ListAgents db). ag_upgrade_state r \<in>
        {None, Some ''queued'', Some ''waiting_reconnect'', Some ''succeeded'', Some ''failed''})"
proof -
  have ok: "agents_ok (db_agents db)"
    using assms by (rule db_reachable_agents_ok)
  then have uniq: "distinct (map ag_agent_id (db_agents db))"
    by (simp add: agents_ok_def unique_keys_def)
  then have "distinct (ListAgents db)" "inj_on ag_agent_id (set (ListAgents db))"
    by (simp_all add: ListAgents_def distinct_map)
  then have "distinct (map ag_agent_id (ListAgents db))"
    by (simp add: distinct_map)
  moreover have "sorted_wrt agent_list_order (ListAgents db)"
    unfolding ListAgents_def by (rule sorted_order_by) (auto simp: agent_list_order_def)
  moreover have "AgentExists a db \<longleftrightarrow> FindAgent a db \<noteq> None"
    by (simp add: AgentExists_def FindAgent_def row_by_None_iff)
  moreover have "FindAgent a db = Some r \<longleftrightarrow> r \<in> set (ListAgents db) \<and> ag_agent_id r = a"
    using ok by (simp add: FindAgent_def ListAgents_def agents_ok_def row_by_unique)
  ultimately show ?thesis
    using ok by (simp add: agents_ok_def upgrade_states_def ListAgents_def)
qed

theorem list_agents_complete_witness:
  "AgentExists ''a'' demo_fleet \<longleftrightarrow> FindAgent ''a'' demo_fleet \<noteq> None"
proof -
  have "db_reachable demo_ext demo_fleet"
    unfolding demo_fleet_def by (rule db_reachable.step [OF db_reachable.start db_step.upsert_agent])
  from list_agents_complete [OF this, of "''a''"] show ?thesis
    by blast
qed

end
