(* ===== verification/Package_Catalogue.thy ===== *)
theory Package_Catalogue
  imports Db_Steps
begin

section \<open>Publishing packages and spending registration tokens\<close>

text \<open>
  The properties of the package catalogue and of the registration tokens in every reachable
  database: one default per channel, what publishing and retiring do to it, the channels a package
  is listed with, and the bound on the uses of a token.
\<close>

subsection \<open>The invariant of the catalogue\<close>

definition pub_key :: "publication_row \<Rightarrow> string \<times> string \<times> string \<times> string \<times> string" where
  "pub_key p = (pb_component p, pb_channel p, pb_platform p, pb_arch p, pb_build_type p)"

lemma has_key_iff: "has_key co ch pl ar bt p \<longleftrightarrow> pub_key p = (co, ch, pl, ar, bt)"
  by (auto simp: has_key_def pub_key_def)

lemma default_index_iff:
  assumes "unique_keys pb_publication_id rows"
  shows "default_index_ok rows \<longleftrightarrow>
    (\<forall>p\<in>set rows. \<forall>q\<in>set rows. pb_is_default p \<longrightarrow> pb_is_default q \<longrightarrow> pub_key p = pub_key q \<longrightarrow> p = q)"
proof -
  have "distinct (filter pb_is_default rows)"
    using assms by (auto simp: unique_keys_def distinct_map)
  then show ?thesis
    by (auto simp: default_index_ok_def distinct_map inj_on_def pub_key_def)
qed

definition catalogue_ok :: "server_database \<Rightarrow> bool" where
  "catalogue_ok db \<longleftrightarrow>
     unique_keys pk_package_id (db_agent_packages db) \<and>
     unique_keys pb_publication_id (db_package_publications db) \<and>
     default_index_ok (db_package_publications db) \<and>
     pb_package_id ` set (db_package_publications db) \<subseteq> pk_package_id ` set (db_agent_packages db)"

lemma set_rows_replace:
  "x \<in> set (rows_upsert key (\<lambda>_ r. r) r rows) \<longleftrightarrow> x = r \<or> (x \<in> set rows \<and> key x \<noteq> key r)"
proof (cases "\<exists>y\<in>set rows. key y = key r")
  case True
  then have "set (rows_upsert key (\<lambda>_ r. r) r rows) = (\<lambda>y. if key y = key r then r else y) ` set rows"
    by (simp add: rows_upsert_def set_rows_update)
  also have "\<dots> = insert r {y \<in> set rows. key y \<noteq> key r}"
    using True by auto
  finally show ?thesis
    by simp
next
  case False
  then show ?thesis
    by (auto simp: rows_upsert_def)
qed

lemma image_keys_update:
  assumes "\<And>r. key (f r) = key r"
  shows "key ` set (rows_update p f rows) = key ` set rows"
proof -
  have "map key (rows_update p f rows) = map key rows"
    using assms by (intro rows_update_keys) simp
  then show ?thesis
    by (metis set_map)
qed

lemma clear_default_set:
  "x \<in> set (clear_default co ch pl ar bt rows) \<longleftrightarrow>
     (\<exists>p\<in>set rows. x = (if pub_key p = (co, ch, pl, ar, bt) \<and> pb_is_default p
        then p\<lparr>pb_is_default := False\<rparr> else p))"
  by (auto simp: clear_default_def set_rows_update has_key_iff)

lemma clear_default_none:
  "x \<in> set (clear_default co ch pl ar bt rows) \<Longrightarrow> pub_key x = (co, ch, pl, ar, bt) \<Longrightarrow> \<not> pb_is_default x"
proof
  assume x: "x \<in> set (clear_default co ch pl ar bt rows)" "pub_key x = (co, ch, pl, ar, bt)" "pb_is_default x"
  then obtain p where p: "x = (if pub_key p = (co, ch, pl, ar, bt) \<and> pb_is_default p
        then p\<lparr>pb_is_default := False\<rparr> else p)"
    by (auto simp: clear_default_set)
  show False
  proof (cases "pub_key p = (co, ch, pl, ar, bt) \<and> pb_is_default p")
    case True
    with p have "x = p\<lparr>pb_is_default := False\<rparr>" by simp
    with x(3) show False by simp
  next
    case False
    with p x(2,3) show False by simp
  qed
qed

lemma unique_clear_default:
  "unique_keys pb_publication_id rows \<Longrightarrow> unique_keys pb_publication_id (clear_default co ch pl ar bt rows)"
  unfolding clear_default_def by (rule unique_keys_update) auto

definition publication ::
    "string \<Rightarrow> string \<Rightarrow> string \<Rightarrow> string \<Rightarrow> string \<Rightarrow> string \<Rightarrow> string option \<Rightarrow> string \<Rightarrow> publication_row" where
  "publication p co ch pl ar bt who t =
     \<lparr>pb_publication_id = publication_id_of p ch pl ar bt, pb_package_id = p, pb_channel = ch,
      pb_component = co, pb_platform = pl, pb_arch = ar, pb_build_type = bt, pb_is_default = True,
      pb_published_at = t, pb_published_by = who\<rparr>"

definition published_rows ::
    "string \<Rightarrow> string \<Rightarrow> string \<Rightarrow> string \<Rightarrow> string \<Rightarrow> string \<Rightarrow> string option \<Rightarrow> string \<Rightarrow>
     publication_row list \<Rightarrow> publication_row list" where
  "published_rows p co ch pl ar bt who t rows =
     rows_upsert pb_publication_id (\<lambda>_ r. r) (publication p co ch pl ar bt who t)
       (clear_default co ch pl ar bt rows)"

lemma published_rows_unique:
  "unique_keys pb_publication_id rows \<Longrightarrow> unique_keys pb_publication_id (published_rows p co ch pl ar bt who t rows)"
  unfolding published_rows_def by (intro unique_keys_upsert unique_clear_default) auto

lemma published_rows_index:
  assumes "unique_keys pb_publication_id rows" and "default_index_ok rows"
  shows "default_index_ok (published_rows p co ch pl ar bt who t rows)"
proof -
  let ?r = "publication p co ch pl ar bt who t"
  have key: "pub_key ?r = (co, ch, pl, ar, bt)"
    by (simp add: publication_def pub_key_def)
  have inj: "x = y" if "x \<in> set rows" "y \<in> set rows" "pb_is_default x" "pb_is_default y" "pub_key x = pub_key y"
    for x y
    using that assms(2) unfolding default_index_iff [OF assms(1)] by blast
  have cleared: "x \<in> set rows \<and> pub_key x \<noteq> (co, ch, pl, ar, bt)"
    if "x \<in> set (clear_default co ch pl ar bt rows)" "pb_is_default x" for x
    using that clear_default_none [OF that(1)] by (auto simp: clear_default_set split: if_splits)
  show ?thesis
    unfolding default_index_iff [OF published_rows_unique [OF assms(1)]]
  proof (intro ballI impI)
    fix x y
    assume "x \<in> set (published_rows p co ch pl ar bt who t rows)"
      "y \<in> set (published_rows p co ch pl ar bt who t rows)"
      and d: "pb_is_default x" "pb_is_default y" and k: "pub_key x = pub_key y"
    then have "x = ?r \<or> x \<in> set rows \<and> pub_key x \<noteq> (co, ch, pl, ar, bt)"
      "y = ?r \<or> y \<in> set rows \<and> pub_key y \<noteq> (co, ch, pl, ar, bt)"
      using cleared by (auto simp: published_rows_def set_rows_replace)
    with d k key inj show "x = y"
      by auto
  qed
qed

lemma PublishAgentPackage_run:
  assumes "catalogue_ok db" and "\<not> write_actor_stopping db"
  shows "PublishAgentPackage p co ch pl ar bt who t db =
    (if \<exists>k\<in>set (db_agent_packages db). pk_package_id k = p
     then (Inr (), db\<lparr>
       db_package_publications := published_rows p co ch pl ar bt who t (db_package_publications db),
       db_agent_packages := rows_update (\<lambda>k. pk_package_id k = p)
         (\<lambda>k. k\<lparr>pk_status := ''published'', pk_published_at := Some t\<rparr>) (db_agent_packages db)\<rparr>)
     else (Inl (Runtime_error ''agent package not found for publish''), db))"
proof -
  have count: "rows_count (\<lambda>k. pk_package_id k = p) (db_agent_packages db) = 1 \<longleftrightarrow>
      (\<exists>k\<in>set (db_agent_packages db). pk_package_id k = p)"
    using rows_count_unique_key [of pk_package_id "db_agent_packages db" p "\<lambda>_. True"] assms(1)
    by (auto simp: catalogue_ok_def)
  have "default_index_ok (published_rows p co ch pl ar bt who t (db_package_publications db))"
    using assms(1) by (simp add: catalogue_ok_def published_rows_index)
  with count assms(2) show ?thesis
    unfolding published_rows_def publication_def
    by (simp add: PublishAgentPackage_def submit_write_def transaction_def publish_row_def
        set_published_def db_op_defs Let_def)
qed

lemma RetireAgentPackage_run:
  assumes "catalogue_ok db" and "\<not> write_actor_stopping db"
  shows "RetireAgentPackage p t db =
    (if \<exists>k\<in>set (db_agent_packages db). pk_package_id k = p
     then (Inr (), db\<lparr>
       db_agent_packages := rows_update (\<lambda>k. pk_package_id k = p)
         (\<lambda>k. k\<lparr>pk_status := ''retired'', pk_retired_at := Some t\<rparr>) (db_agent_packages db),
       db_package_publications := rows_update (\<lambda>x. pb_package_id x = p)
         (\<lambda>x. x\<lparr>pb_is_default := False\<rparr>) (db_package_publications db)\<rparr>)
     else (Inl (Runtime_error ''agent package not found for retire''), db))"
proof -
  have count: "rows_count (\<lambda>k. pk_package_id k = p) (db_agent_packages db) = 1 \<longleftrightarrow>
      (\<exists>k\<in>set (db_agent_packages db). pk_package_id k = p)"
    using rows_count_unique_key [of pk_package_id "db_agent_packages db" p "\<lambda>_. True"] assms(1)
    by (auto simp: catalogue_ok_def)
  with assms(2) show ?thesis
    by (simp add: RetireAgentPackage_def submit_write_def transaction_def set_retired_def
        db_op_defs Let_def)
qed

lemma catalogue_ok_publish:
  assumes "catalogue_ok db"
  shows "catalogue_ok (snd (PublishAgentPackage p co ch pl ar bt who t db))"
proof (cases "write_actor_stopping db")
  case True
  with assms show ?thesis
    by (simp add: PublishAgentPackage_def submit_write_def)
next
  case False
  have "pb_package_id ` set (published_rows p co ch pl ar bt who t (db_package_publications db)) \<subseteq>
      insert p (pb_package_id ` set (db_package_publications db))"
    by (auto simp: published_rows_def set_rows_replace clear_default_set publication_def)
  with assms have "pb_package_id ` set (published_rows p co ch pl ar bt who t (db_package_publications db)) \<subseteq>
      pk_package_id ` set (db_agent_packages db)" if "\<exists>k\<in>set (db_agent_packages db). pk_package_id k = p"
    using that unfolding catalogue_ok_def by blast
  with assms show ?thesis
    unfolding PublishAgentPackage_run [OF assms False]
    by (auto simp: catalogue_ok_def published_rows_unique published_rows_index image_keys_update
        intro: unique_keys_update)
qed

lemma catalogue_ok_retire:
  assumes "catalogue_ok db"
  shows "catalogue_ok (snd (RetireAgentPackage p t db))"
proof (cases "write_actor_stopping db")
  case True
  with assms show ?thesis
    by (simp add: RetireAgentPackage_def submit_write_def)
next
  case False
  let ?f = "\<lambda>x. x\<lparr>pb_is_default := False\<rparr>"
  let ?rows = "rows_update (\<lambda>x. pb_package_id x = p) ?f (db_package_publications db)"
  from assms have uniq: "unique_keys pb_publication_id (db_package_publications db)"
    by (simp add: catalogue_ok_def)
  then have uniq': "unique_keys pb_publication_id ?rows"
    by (rule unique_keys_update) simp
  have stored: "x \<in> set (db_package_publications db)" if "x \<in> set ?rows" "pb_is_default x" for x
    using that by (auto simp: set_rows_update split: if_splits)
  have "default_index_ok ?rows"
    using assms stored unfolding default_index_iff [OF uniq'] catalogue_ok_def default_index_iff [OF uniq]
    by blast
  with assms uniq' show ?thesis
    unfolding RetireAgentPackage_run [OF assms False]
    by (auto simp: catalogue_ok_def image_keys_update intro: unique_keys_update)
qed

lemma catalogue_ok_upload:
  assumes "catalogue_ok db"
  shows "catalogue_ok (snd (UpsertAgentPackage pkg db))"
proof -
  let ?rows = "rows_upsert pk_package_id (\<lambda>_ r. r) (package_columns pkg) (db_agent_packages db)"
  have "unique_keys pk_package_id ?rows"
    using assms by (intro unique_keys_upsert) (auto simp: catalogue_ok_def)
  moreover have ids: "pk_package_id ` set (db_agent_packages db) \<subseteq> pk_package_id ` set ?rows"
  proof
    fix i assume "i \<in> pk_package_id ` set (db_agent_packages db)"
    then obtain k where "k \<in> set (db_agent_packages db)" "pk_package_id k = i" by blast
    then have "k \<in> set ?rows \<or> i = pk_package_id (package_columns pkg)"
      by (auto simp: set_rows_replace)
    moreover have "package_columns pkg \<in> set ?rows"
      by (simp add: set_rows_replace)
    ultimately show "i \<in> pk_package_id ` set ?rows"
      using \<open>pk_package_id k = i\<close> by blast
  qed
  ultimately have "catalogue_ok (db\<lparr>db_agent_packages := ?rows\<rparr>)"
    using assms subset_trans [OF _ ids] unfolding catalogue_ok_def by simp
  with assms show ?thesis
    by (simp add: UpsertAgentPackage_def submit_write_def)
qed

lemma catalogue_ok_keeps: "keeps package_tables db db' \<Longrightarrow> carries catalogue_ok db db'"
  by (simp add: keeps_def carries_def package_tables_def catalogue_ok_def)

lemma db_step_catalogue: "db_step e db db' \<Longrightarrow> carries catalogue_ok db db'"
  by (induction rule: db_step.induct)
    ((rule carriesI, erule catalogue_ok_publish catalogue_ok_retire catalogue_ok_upload) |
     (rule catalogue_ok_keeps, rule other_ops_keep task_ops_keepD [OF outside_tasks_views(1)]))+

lemma db_reachable_catalogue: "db_reachable e db \<Longrightarrow> catalogue_ok db"
  by (rule db_reachable_invariant [of catalogue_ok])
    (auto intro: db_step_catalogue simp: catalogue_ok_def fresh_database_def default_index_ok_def)


subsection \<open>Looking up the default\<close>

lemma default_candidates_iff:
  "(pub, k) \<in> set (default_candidates co ch pl ar bt db) \<longleftrightarrow>
     pub \<in> set (db_package_publications db) \<and> pub_key pub = (co, ch, pl, ar, bt) \<and> pb_is_default pub \<and>
     k \<in> set (db_agent_packages db) \<and> pk_package_id k = pb_package_id pub \<and> pk_status k = ''published''"
  by (auto simp: default_candidates_def has_key_iff split: if_splits)

lemma default_candidates_unique:
  assumes "catalogue_ok db" and "(pub, k) \<in> set (default_candidates co ch pl ar bt db)"
    and "(pub', k') \<in> set (default_candidates co ch pl ar bt db)"
  shows "k' = k"
proof -
  have index: "default_index_ok (db_package_publications db)"
    and uniq: "unique_keys pb_publication_id (db_package_publications db)"
    and pkgs: "unique_keys pk_package_id (db_agent_packages db)"
    using assms(1) by (simp_all add: catalogue_ok_def)
  have "pub' = pub"
    using assms(2,3) index unfolding default_index_iff [OF uniq] default_candidates_iff by auto
  with assms(2,3) show ?thesis
    using unique_keys_inj [OF pkgs] by (auto simp: default_candidates_iff)
qed

lemma FindDefault_iff:
  assumes "catalogue_ok db"
  shows "FindDefaultPublishedAgentPackage co ch pl ar bt db = Some r \<longleftrightarrow>
    (\<exists>pub k. (pub, k) \<in> set (default_candidates co ch pl ar bt db) \<and> r = ParseAgentPackageRecord k [])"
proof -
  let ?le = "\<lambda>a b :: publication_row \<times> package_row. pb_published_at (fst b) \<le> pb_published_at (fst a)"
  let ?rows = "order_by ?le (default_candidates co ch pl ar bt db)"
  have set: "set ?rows = set (default_candidates co ch pl ar bt db)"
    by simp
  show ?thesis
  proof (cases ?rows)
    case Nil
    with set show ?thesis
      by (simp add: FindDefaultPublishedAgentPackage_def)
  next
    case (Cons c cs)
    obtain pub k where c: "c = (pub, k)" by (cases c)
    then have first: "(pub, k) \<in> set (default_candidates co ch pl ar bt db)"
      using set Cons by auto
    have "FindDefaultPublishedAgentPackage co ch pl ar bt db = Some (ParseAgentPackageRecord k [])"
      by (simp add: FindDefaultPublishedAgentPackage_def Cons c)
    then show ?thesis
      using first default_candidates_unique [OF assms first] by (metis option.inject)
  qed
qed

lemma ParseAgentPackageRecord_simps [simp]:
  "pk_package_id (ParseAgentPackageRecord k cs) = pk_package_id k"
  "pk_status (ParseAgentPackageRecord k cs) = pk_status k"
  "pk_published_channels (ParseAgentPackageRecord k cs) = filter (\<lambda>s. s \<noteq> []) (split_on (CHR '','') cs)"
  by (simp_all add: ParseAgentPackageRecord_def package_row.defs agent_package_record.defs)

subsection \<open>Properties\<close>

text \<open>
  The default of a channel.  In every reachable database there is at most one default
  publication for a component, channel, platform, architecture and build type, and the lookup
  returns a package exactly when it is published and carries that publication.
\<close>

theorem default_package_unique:
  assumes "db_reachable e db"
  shows "(FindDefaultPublishedAgentPackage co ch pl ar bt db = Some r \<longleftrightarrow>
       (\<exists>pub\<in>set (db_package_publications db). \<exists>k\<in>set (db_agent_packages db).
          has_key co ch pl ar bt pub \<and> pb_is_default pub \<and> pk_package_id k = pb_package_id pub \<and>
          pk_status k = ''published'' \<and> r = ParseAgentPackageRecord k [])) \<and>
     length (filter (\<lambda>pub. has_key co ch pl ar bt pub \<and> pb_is_default pub) (db_package_publications db)) \<le> 1"
proof
  have ok: "catalogue_ok db"
    using assms by (rule db_reachable_catalogue)
  show "FindDefaultPublishedAgentPackage co ch pl ar bt db = Some r \<longleftrightarrow>
       (\<exists>pub\<in>set (db_package_publications db). \<exists>k\<in>set (db_agent_packages db).
          has_key co ch pl ar bt pub \<and> pb_is_default pub \<and> pk_package_id k = pb_package_id pub \<and>
          pk_status k = ''published'' \<and> r = ParseAgentPackageRecord k [])"
    unfolding FindDefault_iff [OF ok] default_candidates_iff has_key_iff by blast
  let ?rows = "filter (\<lambda>pub. has_key co ch pl ar bt pub \<and> pb_is_default pub) (db_package_publications db)"
  have uniq: "unique_keys pb_publication_id (db_package_publications db)"
    using ok by (simp add: catalogue_ok_def)
  then have "distinct ?rows"
    by (simp add: unique_keys_def distinct_map)
  moreover have "x = y" if "x \<in> set ?rows" "y \<in> set ?rows" for x y
  proof -
    have "default_index_ok (db_package_publications db)"
      using ok by (simp add: catalogue_ok_def)
    with that show ?thesis
      unfolding default_index_iff [OF uniq] has_key_iff by simp
  qed
  then have "card (set ?rows) \<le> Suc 0"
    by (subst card_le_Suc0_iff_eq) blast+
  ultimately show "length ?rows \<le> 1"
    by (simp only: distinct_card One_nat_def)
qed


definition demo_package :: agent_package_record where
  "demo_package =
     \<lparr>pk_package_id = ''pkg'', pk_component = ''agent'', pk_version = ''2.0.0'',
      pk_platform = ''linux'', pk_arch = ''x86_64'', pk_build_type = ''release'',
      pk_filename = ''f'', pk_storage_path = ''s'', pk_size_bytes = 1, pk_sha256 = ''h'',
      pk_manifest_json = ''{}'', pk_status = ''validated'', pk_uploaded_at = ''1'',
      pk_validated_at = None, pk_published_at = None, pk_retired_at = None,
      pk_published_channels = []\<rparr>"

definition demo_store :: server_database where
  "demo_store = snd (UpsertAgentPackage demo_package fresh_database)"

lemma demo_store_reachable: "db_reachable e demo_store"
  unfolding demo_store_def by (rule db_reachable.step [OF db_reachable.start db_step.upsert_package])

lemma demo_store_tables:
  "db_agent_packages demo_store = [package_columns demo_package]"
  "db_package_publications demo_store = []" "\<not> write_actor_stopping demo_store"
  by (simp_all add: demo_store_def UpsertAgentPackage_def submit_write_def rows_upsert_def
      fresh_database_def)

lemma demo_package_columns [simp]: "pk_package_id (package_columns demo_package) = ''pkg''"
  by (simp add: package_columns_def demo_package_def)

theorem default_package_unique_witness:
  "FindDefaultPublishedAgentPackage ''agent'' ''stable'' ''linux'' ''x86_64'' ''release'' demo_store \<noteq>
     Some (ParseAgentPackageRecord (package_columns demo_package) [])"
  using default_package_unique [OF demo_store_reachable, of "''agent''" "''stable''" "''linux''"
      "''x86_64''" "''release''" "ParseAgentPackageRecord (package_columns demo_package) []"]
  by (simp add: demo_store_tables)

text \<open>
  Publishing.  On a running reachable database \<open>PublishAgentPackage\<close> succeeds exactly when the
  package is stored; then the package is the default of that component, channel, platform,
  architecture and build type, with status \<open>published\<close>, and every other package has ceased to be;
  otherwise nothing changes.
\<close>

theorem publish_makes_default:
  assumes "db_reachable e db" and "\<not> write_actor_stopping db"
  shows "case PublishAgentPackage p co ch pl ar bt who t db of
      (Inl x, db') \<Rightarrow> row_by pk_package_id p (db_agent_packages db) = None \<and> db' = db
    | (Inr _, db') \<Rightarrow> (\<exists>k. row_by pk_package_id p (db_agent_packages db) = Some k \<and>
        FindDefaultPublishedAgentPackage co ch pl ar bt db' = Some (ParseAgentPackageRecord
          (k\<lparr>pk_status := ''published'', pk_published_at := Some t\<rparr>) []) \<and>
        (\<forall>pub\<in>set (db_package_publications db').
           has_key co ch pl ar bt pub \<and> pb_is_default pub \<longrightarrow> pb_package_id pub = p))"
proof (cases "row_by pk_package_id p (db_agent_packages db)")
  case None
  then show ?thesis
    using PublishAgentPackage_run [OF db_reachable_catalogue [OF assms(1)] assms(2)]
    by (auto simp: row_by_None_iff)
next
  case (Some k)
  have ok: "catalogue_ok db"
    using assms(1) by (rule db_reachable_catalogue)
  have stored: "\<exists>k\<in>set (db_agent_packages db). pk_package_id k = p"
    using row_by_SomeD [OF Some] by blast
  note run0 = PublishAgentPackage_run [OF ok assms(2), of p co ch pl ar bt who t, unfolded if_P [OF stored]]
  obtain db' where run: "PublishAgentPackage p co ch pl ar bt who t db = (Inr (), db')"
    and pubs: "db_package_publications db' = published_rows p co ch pl ar bt who t (db_package_publications db)"
    and pkgs: "db_agent_packages db' = rows_update (\<lambda>k. pk_package_id k = p)
         (\<lambda>k. k\<lparr>pk_status := ''published'', pk_published_at := Some t\<rparr>) (db_agent_packages db)"
    by (rule that [OF run0]) simp_all
  have ok': "catalogue_ok db'"
    using catalogue_ok_publish [OF ok, of p co ch pl ar bt who t] run by simp
  let ?pub = "publication p co ch pl ar bt who t"
  let ?k = "k\<lparr>pk_status := ''published'', pk_published_at := Some t\<rparr>"
  have "(?pub, ?k) \<in> set (default_candidates co ch pl ar bt db')"
    unfolding default_candidates_iff using row_by_SomeD [OF Some]
    by (auto simp: pubs pkgs published_rows_def set_rows_replace set_rows_update publication_def pub_key_def)
  then have "FindDefaultPublishedAgentPackage co ch pl ar bt db' = Some (ParseAgentPackageRecord ?k [])"
    unfolding FindDefault_iff [OF ok'] by blast
  moreover have "pb_package_id pub = p"
    if "pub \<in> set (db_package_publications db')" "has_key co ch pl ar bt pub" "pb_is_default pub" for pub
    using that clear_default_none
    by (auto simp: pubs published_rows_def set_rows_replace has_key_iff publication_def)
  ultimately show ?thesis
    using run Some by auto
qed

definition demo_published :: server_database where
  "demo_published = snd (PublishAgentPackage ''pkg'' ''agent'' ''stable'' ''linux'' ''x86_64'' ''release'' None ''2'' demo_store)"

theorem publish_makes_default_witness:
  "\<exists>r. FindDefaultPublishedAgentPackage ''agent'' ''stable'' ''linux'' ''x86_64'' ''release'' demo_published = Some r"
proof -
  obtain v where run: "PublishAgentPackage ''pkg'' ''agent'' ''stable'' ''linux'' ''x86_64'' ''release'' None ''2'' demo_store =
      (v, demo_published)"
    by (simp add: demo_published_def prod_eq_iff)
  have "row_by pk_package_id ''pkg'' (db_agent_packages demo_store) = Some (package_columns demo_package)"
    by (simp add: demo_store_tables row_by_def)
  with publish_makes_default [OF demo_store_reachable demo_store_tables(3),
      where p = "''pkg''" and co = "''agent''" and ch = "''stable''" and pl = "''linux''"
        and ar = "''x86_64''" and bt = "''release''" and t = "''2''" and who = None] run
  show ?thesis
    by (cases v) auto
qed

text \<open>
  Retiring.  On a running reachable database \<open>RetireAgentPackage\<close> fails and changes nothing when
  the package is not stored; otherwise the package is no longer what the default lookup of any
  component, channel, platform, architecture and build type returns.
\<close>

theorem retire_removes_default:
  assumes "db_reachable e db" and "\<not> write_actor_stopping db"
  shows "case RetireAgentPackage p t db of
      (Inl x, db') \<Rightarrow> row_by pk_package_id p (db_agent_packages db) = None \<and> db' = db
    | (Inr _, db') \<Rightarrow> row_by pk_package_id p (db_agent_packages db) \<noteq> None \<and>
        (\<forall>r. FindDefaultPublishedAgentPackage co ch pl ar bt db' = Some r \<longrightarrow> pk_package_id r \<noteq> p)"
proof (cases "row_by pk_package_id p (db_agent_packages db)")
  case None
  then show ?thesis
    using RetireAgentPackage_run [OF db_reachable_catalogue [OF assms(1)] assms(2)]
    by (auto simp: row_by_None_iff)
next
  case (Some k)
  have ok: "catalogue_ok db"
    using assms(1) by (rule db_reachable_catalogue)
  have stored: "\<exists>k\<in>set (db_agent_packages db). pk_package_id k = p"
    using row_by_SomeD [OF Some] by blast
  note run0 = RetireAgentPackage_run [OF ok assms(2), of p t, unfolded if_P [OF stored]]
  obtain db' where run: "RetireAgentPackage p t db = (Inr (), db')"
    and pubs: "db_package_publications db' = rows_update (\<lambda>x. pb_package_id x = p)
         (\<lambda>x. x\<lparr>pb_is_default := False\<rparr>) (db_package_publications db)"
    by (rule that [OF run0]) simp
  have "catalogue_ok db'"
    using catalogue_ok_retire [OF ok, of p t] run by simp
  then have "pk_package_id r \<noteq> p" if "FindDefaultPublishedAgentPackage co ch pl ar bt db' = Some r" for r
    using that unfolding FindDefault_iff [OF \<open>catalogue_ok db'\<close>] default_candidates_iff
    by (auto simp: pubs set_rows_update split: if_splits)
  with run Some show ?thesis
    by simp
qed

theorem retire_removes_default_witness:
  "map_option pk_package_id (FindDefaultPublishedAgentPackage ''agent'' ''stable'' ''linux'' ''x86_64'' ''release''
     (snd (RetireAgentPackage ''pkg'' ''3'' demo_store))) \<noteq> Some ''pkg''"
proof -
  obtain v db' where run: "RetireAgentPackage ''pkg'' ''3'' demo_store = (v, db')"
    by fastforce
  have "row_by pk_package_id ''pkg'' (db_agent_packages demo_store) = Some (package_columns demo_package)"
    by (simp add: demo_store_tables row_by_def)
  with retire_removes_default [OF demo_store_reachable demo_store_tables(3), where p = "''pkg''"
      and t = "''3''" and co = "''agent''" and ch = "''stable''" and pl = "''linux''"
      and ar = "''x86_64''" and bt = "''release''"] run
  show ?thesis
    by (cases v) auto
qed

text \<open>
  The channels a package is listed with.  \<open>FindAgentPackage\<close> concatenates the channels and takes
  them apart again; when no channel of the package is empty or contains a comma, the record carries
  exactly the channels whose default the package is, whatever order the concatenation has.
\<close>

theorem published_channels_exact:
  assumes "FindAgentPackage e p db = Some r"
    and "\<And>rows. set (ext_concat_order e rows) = set rows"
    and "\<forall>pub\<in>set (db_package_publications db). pb_package_id pub = p \<longrightarrow>
           pb_channel pub \<noteq> [] \<and> CHR '','' \<notin> set (pb_channel pub)"
  shows "set (pk_published_channels r) =
           pb_channel ` {pub \<in> set (db_package_publications db). pb_package_id pub = p \<and> pb_is_default pub}"
proof -
  let ?pubs = "filter pb_is_default (ext_concat_order e
      (filter (\<lambda>x. pb_package_id x = p) (db_package_publications db)))"
  from assms(1) obtain k where "r = ParseAgentPackageRecord k (channel_concat e p db)"
    by (auto simp: FindAgentPackage_def)
  then have channels: "pk_published_channels r =
      filter (\<lambda>s. s \<noteq> []) (split_on (CHR '','') (join_with (CHR '','') (map pb_channel ?pubs)))"
    by (simp add: channel_concat_def)
  have members: "set ?pubs = {pub \<in> set (db_package_publications db). pb_package_id pub = p \<and> pb_is_default pub}"
    using assms(2) by auto
  show ?thesis
  proof (cases "?pubs = []")
    case True
    with members channels show ?thesis
      by simp
  next
    case False
    then have "split_on (CHR '','') (join_with (CHR '','') (map pb_channel ?pubs)) = map pb_channel ?pubs"
      using assms(3) members by (intro split_join_with) auto
    with channels members assms(3) show ?thesis
      by auto
  qed
qed


definition demo_ext_order :: ext where
  "demo_ext_order =
     \<lparr>ext_wire = demo_wire, ext_dump_strings = (\<lambda>_. Inr ''[]''), ext_parse_strings = (\<lambda>_. Inr []),
      ext_audit_payload = (\<lambda>_. Inr ''{}''), ext_first_created = hd, ext_overdue = (\<lambda>_ _. False),
      ext_concat_order = rev\<rparr>"

theorem published_channels_exact_witness:
  "\<exists>r. FindAgentPackage demo_ext_order ''pkg'' demo_published = Some r \<and>
     set (pk_published_channels r) = {''stable''}"
proof -
  have run: "PublishAgentPackage ''pkg'' ''agent'' ''stable'' ''linux'' ''x86_64'' ''release'' None ''2'' demo_store =
      (Inr (), demo_published)"
    using PublishAgentPackage_run [OF db_reachable_catalogue [OF demo_store_reachable] demo_store_tables(3)]
    by (simp add: demo_published_def demo_store_tables)
  have pubs: "db_package_publications demo_published =
      [publication ''pkg'' ''agent'' ''stable'' ''linux'' ''x86_64'' ''release'' None ''2'']"
    and pkgs: "db_agent_packages demo_published \<noteq> []"
    "\<forall>k\<in>set (db_agent_packages demo_published). pk_package_id k = ''pkg''"
    using PublishAgentPackage_run [OF db_reachable_catalogue [OF demo_store_reachable] demo_store_tables(3),
        of "''pkg''" "''agent''" "''stable''" "''linux''" "''x86_64''" "''release''" None "''2''"]
    by (simp_all add: demo_published_def demo_store_tables published_rows_def clear_default_def
        rows_upsert_def)
  then obtain r where "FindAgentPackage demo_ext_order ''pkg'' demo_published = Some r"
    by (cases "db_agent_packages demo_published") (auto simp: FindAgentPackage_def row_by_def)
  moreover have "{pub \<in> {q}. R pub} = {q}" if "R q" for q :: publication_row and R
    using that by auto
  moreover from published_channels_exact [OF calculation(1)] pubs calculation(2)
      [of "\<lambda>pub. pb_package_id pub = ''pkg'' \<and> pb_is_default pub"
        "publication ''pkg'' ''agent'' ''stable'' ''linux'' ''x86_64'' ''release'' None ''2''"]
  have "set (pk_published_channels r) = {''stable''}"
    by (simp add: demo_ext_order_def publication_def del: Collect_conj_eq)
  ultimately show ?thesis
    by blast
qed

subsection \<open>Registration tokens\<close>

text \<open>
  How a stored token may change: its uses only grow and stay within the limit, everything that says
  what it admits is fixed, and once it is no longer active it never changes again.
\<close>

definition token_progress :: "token_row \<Rightarrow> token_row \<Rightarrow> bool" where
  "token_progress t u \<longleftrightarrow>
     rt_token_id u = rt_token_id t \<and> rt_token_hash u = rt_token_hash t \<and> rt_purpose u = rt_purpose t \<and>
     rt_platform u = rt_platform t \<and> rt_arch u = rt_arch t \<and> rt_max_uses u = rt_max_uses t \<and>
     rt_expires_at u = rt_expires_at t \<and> rt_use_count t \<le> rt_use_count u \<and>
     (case rt_max_uses t of None \<Rightarrow> True | Some m \<Rightarrow> rt_use_count u \<le> max m (rt_use_count t)) \<and>
     (rt_status t \<noteq> ''active'' \<longrightarrow> u = t)"

definition tokens_progress :: "server_database \<Rightarrow> server_database \<Rightarrow> bool" where
  "tokens_progress db db' \<longleftrightarrow>
     (\<forall>i t. row_by rt_token_id i (db_registration_tokens db) = Some t \<longrightarrow>
        (\<exists>u. row_by rt_token_id i (db_registration_tokens db') = Some u \<and> token_progress t u))"

lemma token_progress_refl [simp]: "token_progress t t"
  by (simp add: token_progress_def split: option.split)

lemma token_progress_trans:
  assumes "token_progress t u" and "token_progress u v"
  shows "token_progress t v"
proof -
  have "rt_status t \<noteq> ''active'' \<Longrightarrow> v = t"
    using assms by (auto simp: token_progress_def)
  with assms show ?thesis
    by (auto simp: token_progress_def split: option.splits)
qed

interpretation tokens: step_relation tokens_progress
proof
  show "tokens_progress db db" for db
    by (simp add: tokens_progress_def)
  show "tokens_progress a c" if "tokens_progress a b" "tokens_progress b c" for a b c
    using that unfolding tokens_progress_def by (meson token_progress_trans)
qed

lemma tokens_progress_update:
  assumes "\<And>t. p t \<Longrightarrow> token_progress t (f t)"
  shows "tokens_progress db (db\<lparr>db_registration_tokens := rows_update p f (db_registration_tokens db)\<rparr>)"
proof -
  have "rt_token_id (f t) = rt_token_id t" if "p t" for t
    using assms [OF that] by (simp add: token_progress_def)
  then show ?thesis
    using assms by (auto simp: tokens_progress_def row_by_update)
qed

lemma use_token_progress:
  assumes "token_admits h pl ar now t"
  shows "token_progress t (use_token t)"
  using assms by (auto simp: token_admits_def use_token_def token_progress_def split: option.splits)

lemma token_ops_progress:
  "tokens_progress db (snd (CreateRegistrationToken tok db))"
  "tokens_progress db (snd (ConsumeRegistrationToken h pl ar t db))"
  "tokens_progress db (snd (RevokeRegistrationToken i t db))"
proof -
  show "tokens_progress db (snd (CreateRegistrationToken tok db))"
  proof (cases "rows_insert rt_token_id tok (db_registration_tokens db)")
    case (Inl x)
    then show ?thesis
      by (simp add: CreateRegistrationToken_def submit_write_def tokens.refl)
  next
    case (Inr rows)
    have "rows = db_registration_tokens db @ [tok]"
      using Inr by (simp add: rows_insert_Inr_iff)
    then have "tokens_progress db (db\<lparr>db_registration_tokens := rows\<rparr>)"
      by (auto simp: tokens_progress_def row_by_append intro: token_progress_refl)
    with Inr show ?thesis
      by (simp add: CreateRegistrationToken_def submit_write_def tokens.refl)
  qed
  show "tokens_progress db (snd (ConsumeRegistrationToken h pl ar t db))"
    using tokens_progress_update [of "token_admits h pl ar t" use_token db] use_token_progress
    by (simp add: ConsumeRegistrationToken_def submit_write_def tokens.refl Let_def)
  show "tokens_progress db (snd (RevokeRegistrationToken i t db))"
    using tokens_progress_update [of "\<lambda>x. rt_token_id x = i \<and> rt_status x = ''active''"
        "\<lambda>x. x\<lparr>rt_status := ''revoked'', rt_revoked_at := Some t\<rparr>" db]
    by (simp add: RevokeRegistrationToken_def submit_write_def tokens.refl Let_def token_progress_def
        split: option.split)
qed

lemma db_step_tokens: "db_step e db db' \<Longrightarrow> tokens_progress db db'"
proof -
  have same: "keeps db_registration_tokens db db' \<Longrightarrow> tokens_progress db db'" for db db'
    by (simp add: keeps_def tokens_progress_def)
  assume "db_step e db db'"
  then show ?thesis
    by (induction rule: db_step.induct)
      ((rule token_ops_progress) |
       (rule same, rule other_ops_keep task_ops_keepD [OF outside_tasks_views(3)]))+
qed

lemma db_runs_tokens: "db_runs e db db' \<Longrightarrow> tokens_progress db db'"
  by (induction rule: db_runs.induct) (auto intro: tokens.refl tokens.trans db_step_tokens)


text \<open>
  Whatever requests the database serves, in whatever order, the registration token with a given
  id keeps its hash, purpose, platform, architecture, use limit and expiry time; its use counter
  never decreases and never passes the limit; and once it is consumed or revoked it stays exactly
  as it is.
\<close>

theorem token_limits:
  assumes "db_runs e db db'"
    and "row_by rt_token_id i (db_registration_tokens db) = Some t"
  shows "\<exists>u. row_by rt_token_id i (db_registration_tokens db') = Some u \<and>
    rt_token_hash u = rt_token_hash t \<and> rt_platform u = rt_platform t \<and> rt_arch u = rt_arch t \<and>
    rt_max_uses u = rt_max_uses t \<and> rt_expires_at u = rt_expires_at t \<and>
    rt_use_count t \<le> rt_use_count u \<and>
    (\<forall>m. rt_max_uses t = Some m \<longrightarrow> rt_use_count t \<le> m \<longrightarrow> rt_use_count u \<le> m) \<and>
    (rt_status t \<noteq> ''active'' \<longrightarrow> u = t)"
proof -
  obtain u where "row_by rt_token_id i (db_registration_tokens db') = Some u" "token_progress t u"
    using db_runs_tokens [OF assms(1)] assms(2) unfolding tokens_progress_def by blast
  then show ?thesis
    by (intro exI [of _ u]) (auto simp: token_progress_def)
qed

definition demo_token :: token_row where
  "demo_token =
     \<lparr>rt_token_id = ''tok'', rt_token_hash = ''hash'', rt_purpose = ''agent_register'', rt_channel = None, rt_platform = None, rt_arch = Some ''x86_64'',
      rt_max_uses = Some 1, rt_use_count = 0, rt_status = ''active'', rt_created_at = ''1'',
      rt_expires_at = ''5'', rt_revoked_at = None\<rparr>"

definition demo_token_store :: server_database where
  "demo_token_store = snd (CreateRegistrationToken demo_token fresh_database)"

theorem token_limits_witness:
  "\<exists>u. row_by rt_token_id ''tok''
      (db_registration_tokens (snd (ConsumeRegistrationToken ''hash'' ''linux'' ''x86_64'' ''2'' demo_token_store))) = Some u \<and>
    rt_max_uses u = Some 1 \<and> rt_use_count u \<le> 1"
proof -
  have "row_by rt_token_id ''tok'' (db_registration_tokens demo_token_store) = Some demo_token"
    by (simp add: demo_token_store_def CreateRegistrationToken_def submit_write_def rows_insert_def
        row_by_def demo_token_def fresh_database_def)
  moreover have "db_runs demo_ext_order demo_token_store
      (snd (ConsumeRegistrationToken ''hash'' ''linux'' ''x86_64'' ''2'' demo_token_store))"
    by (rule db_runs.step [OF db_runs.refl db_step.consume_token])
  ultimately show ?thesis
    using token_limits [of demo_ext_order demo_token_store _ "''tok''" demo_token]
    by (auto simp: demo_token_def)
qed

text \<open>
  Tokens are never deleted and never change their hash: the hashes of the stored tokens, in order of
  creation, only grow at the end.
\<close>

definition hashes_grow :: "server_database \<Rightarrow> server_database \<Rightarrow> bool" where
  "hashes_grow db db' \<longleftrightarrow>
     (\<exists>hs. map rt_token_hash (db_registration_tokens db') = map rt_token_hash (db_registration_tokens db) @ hs)"

interpretation hashes: step_relation hashes_grow
proof
  show "hashes_grow db db" for db
    by (simp add: hashes_grow_def)
  show "hashes_grow a c" if "hashes_grow a b" "hashes_grow b c" for a b c
    using that by (auto simp: hashes_grow_def)
qed

lemma hashes_grow_update:
  assumes "\<And>t. rt_token_hash (f t) = rt_token_hash t"
  shows "hashes_grow db (db\<lparr>db_registration_tokens := rows_update p f (db_registration_tokens db)\<rparr>)"
  unfolding hashes_grow_def by (intro exI [of _ "[]"]) (simp add: rows_update_def assms)

lemma token_ops_hashes:
  "hashes_grow db (snd (CreateRegistrationToken tok db))"
  "hashes_grow db (snd (ConsumeRegistrationToken h pl ar t db))"
  "hashes_grow db (snd (RevokeRegistrationToken i t db))"
  by (auto simp: CreateRegistrationToken_def ConsumeRegistrationToken_def RevokeRegistrationToken_def
      submit_write_def Let_def use_token_def rows_insert_Inr_iff
      intro: hashes.refl hashes_grow_update split: sum.splits)
    (simp add: hashes_grow_def)

lemma db_step_hashes: "db_step e db db' \<Longrightarrow> hashes_grow db db'"
proof -
  have same: "keeps db_registration_tokens db db' \<Longrightarrow> hashes_grow db db'" for db db'
    by (simp add: keeps_def hashes_grow_def)
  assume "db_step e db db'"
  then show ?thesis
    by (induction rule: db_step.induct)
      ((rule token_ops_hashes) |
       (rule same, rule other_ops_keep task_ops_keepD [OF outside_tasks_views(3)]))+
qed

text \<open>
  \<open>admitted e h n db db'\<close>: from \<open>db\<close> the database served some requests and is now \<open>db'\<close>, and \<open>n\<close> of
  them were registrations with the token hash \<open>h\<close> that were admitted.
\<close>

inductive admitted :: "ext \<Rightarrow> string \<Rightarrow> nat \<Rightarrow> server_database \<Rightarrow> server_database \<Rightarrow> bool"
    for e :: ext and h :: string where
  start: "admitted e h 0 db db"
| other: "admitted e h n db db' \<Longrightarrow> db_step e db' db'' \<Longrightarrow> admitted e h n db db''"
| admit: "admitted e h n db db' \<Longrightarrow> ConsumeRegistrationToken h pl ar now db' = (Inr True, db'') \<Longrightarrow>
    admitted e h (Suc n) db db''"

lemma only_member:
  assumes "count_list (map f xs) k \<le> 1" and "x \<in> set xs" "f x = k" and "y \<in> set xs" "f y = k"
  shows "x = y"
proof -
  have one: "length (filter (\<lambda>x. k = f x) xs) \<le> 1"
    using assms(1) by (simp add: count_list_eq_length_filter filter_map comp_def)
  have "x \<in> set (filter (\<lambda>x. k = f x) xs)" "y \<in> set (filter (\<lambda>x. k = f x) xs)"
    using assms by auto
  with one show ?thesis
    by (cases "filter (\<lambda>x. k = f x) xs") auto
qed

lemma consume_uses_token:
  assumes consume: "ConsumeRegistrationToken h pl ar now db = (Inr True, db')"
    and "count_list (map rt_token_hash (db_registration_tokens db)) h \<le> 1"
    and u: "row_by rt_token_id i (db_registration_tokens db) = Some u" "rt_token_hash u = h"
  shows "row_by rt_token_id i (db_registration_tokens db') = Some (use_token u)"
proof -
  let ?admits = "token_admits h pl ar now"
  from consume have one: "rows_count ?admits (db_registration_tokens db) = 1"
    and db': "db' = db\<lparr>db_registration_tokens := rows_update ?admits use_token (db_registration_tokens db)\<rparr>"
    by (auto simp: ConsumeRegistrationToken_def submit_write_def Let_def split: if_splits)
  from one have "rows_count ?admits (db_registration_tokens db) \<noteq> 0"
    by simp
  then obtain r where r: "r \<in> set (db_registration_tokens db)" "?admits r"
    by (auto simp: rows_count_zero_iff)
  then have "rt_token_hash r = h"
    by (simp add: token_admits_def)
  with only_member [OF assms(2)] r(1) u row_by_SomeD [OF u(1)] have "r = u"
    by blast
  with r(2) u(1) show ?thesis
    by (subst db') (simp add: row_by_update use_token_def)
qed

lemma admitted_uses:
  assumes "admitted e h n db db'"
    and "row_by rt_token_id i (db_registration_tokens db) = Some t" "rt_token_hash t = h"
    and "count_list (map rt_token_hash (db_registration_tokens db')) h \<le> 1"
  shows "\<exists>u. row_by rt_token_id i (db_registration_tokens db') = Some u \<and> token_progress t u \<and>
    rt_use_count t + int n \<le> rt_use_count u"
  using assms
proof (induction rule: admitted.induct)
  case (start db)
  then show ?case
    by auto
next
  case (other n db db' db'')
  from db_step_hashes [OF other.hyps(2)] other.prems(3)
  have "count_list (map rt_token_hash (db_registration_tokens db')) h \<le> 1"
    by (auto simp: hashes_grow_def)
  then obtain u where "row_by rt_token_id i (db_registration_tokens db') = Some u"
      and u: "token_progress t u" "rt_use_count t + int n \<le> rt_use_count u"
    using other.IH other.prems by blast
  moreover then obtain v where "row_by rt_token_id i (db_registration_tokens db'') = Some v"
      and v: "token_progress u v"
    using db_step_tokens [OF other.hyps(2)] unfolding tokens_progress_def by blast
  moreover have "rt_use_count u \<le> rt_use_count v"
    using v by (simp add: token_progress_def)
  ultimately show ?case
    using token_progress_trans [OF u(1) v] by auto
next
  case (admit n db db' pl ar now db'')
  have step: "db_step e db' db''"
    using db_step.consume_token [of e db' h pl ar now] admit.hyps(2) by simp
  from db_step_hashes [OF step] admit.prems(3)
  have one: "count_list (map rt_token_hash (db_registration_tokens db')) h \<le> 1"
    by (auto simp: hashes_grow_def)
  then obtain u where row: "row_by rt_token_id i (db_registration_tokens db') = Some u"
      and u: "token_progress t u" "rt_use_count t + int n \<le> rt_use_count u"
    using admit.IH admit.prems by blast
  have "rt_token_hash u = h"
    using u(1) admit.prems(2) by (simp add: token_progress_def)
  from consume_uses_token [OF admit.hyps(2) one row this]
  have used: "row_by rt_token_id i (db_registration_tokens db'') = Some (use_token u)" .
  moreover have "token_progress u (use_token u)"
    using db_step_tokens [OF step] row used unfolding tokens_progress_def by fastforce
  ultimately show ?case
    using token_progress_trans [OF u(1)] u(2) by (auto simp: use_token_def)
qed

text \<open>
  C37: A registration token with a use limit admits no more agents than that. From a database that
  stores the token, serve any requests in any order, other token operations among them: as long as
  no second token has the same hash, the number of admitted registrations that presented it is at
  most the limit less the uses it had.
\<close>

theorem token_admissions_bounded:
  assumes "admitted e h n db db'"
    and "row_by rt_token_id i (db_registration_tokens db) = Some t" "rt_token_hash t = h"
    and "count_list (map rt_token_hash (db_registration_tokens db')) h \<le> 1"
    and "rt_max_uses t = Some m" "rt_use_count t \<le> m"
  shows "int n \<le> m - rt_use_count t"
  using admitted_uses [OF assms(1-4)] assms(5,6) by (auto simp: token_progress_def)

lemma demo_token_consumed:
  "ConsumeRegistrationToken ''hash'' ''linux'' ''x86_64'' ''2'' demo_token_store =
     (Inr True, demo_token_store\<lparr>db_registration_tokens := [use_token demo_token]\<rparr>)"
  by (simp add: demo_token_store_def CreateRegistrationToken_def ConsumeRegistrationToken_def
      submit_write_def rows_insert_def demo_token_def fresh_database_def rows_count_def
      rows_update_def token_admits_def list_le_def)

theorem token_admissions_bounded_witness:
  "admitted demo_ext_order ''hash'' 1 demo_token_store
     (demo_token_store\<lparr>db_registration_tokens := [use_token demo_token]\<rparr>) \<and> int 1 \<le> 1"
proof -
  have "row_by rt_token_id ''tok'' (db_registration_tokens demo_token_store) = Some demo_token"
    by (simp add: demo_token_store_def CreateRegistrationToken_def submit_write_def rows_insert_def
        row_by_def demo_token_def fresh_database_def)
  moreover have run: "admitted demo_ext_order ''hash'' 1 demo_token_store
     (demo_token_store\<lparr>db_registration_tokens := [use_token demo_token]\<rparr>)"
    using admitted.admit [OF admitted.start demo_token_consumed] by simp
  ultimately show ?thesis
    using token_admissions_bounded [OF run, of "''tok''" demo_token 1]
    by (simp add: demo_token_def use_token_def)
qed

end
