(* ===== verification/Sha256.thy ===== *)
theory Sha256
  imports Prelude
begin

section \<open>SHA-256 digests in hexadecimal (libs/crypto/src/sha256.cpp)\<close>

text \<open>
  The code around OpenSSL: one context that is fed the data, in one piece for a string and in pieces
  of 8192 bytes for a file, and the rendering of the digest as lower-case hexadecimal.  OpenSSL
  itself is the parameter \<open>digest_lib\<close>; what its documentation promises, that updates with two
  pieces amount to one update with both, is the predicate \<open>digests\<close>.
\<close>

unbundle bit_operations_syntax

record 'c digest_lib =
  EVP_MD_CTX_new :: bool
  EVP_DigestInit_ex :: "'c option"
  EVP_DigestUpdate :: "'c \<Rightarrow> u8 list \<Rightarrow> 'c option"
  EVP_DigestFinal_ex :: "'c \<Rightarrow> u8 list option"

definition Sha256Context :: "'c digest_lib \<Rightarrow> 'c result" where
  "Sha256Context lib =
     (if \<not> EVP_MD_CTX_new lib then Inl (Runtime_error ''failed to allocate sha256 context'')
      else option_res (Runtime_error ''failed to initialize sha256'') (EVP_DigestInit_ex lib))"

definition Sha256Update :: "'c digest_lib \<Rightarrow> 'c \<Rightarrow> u8 list \<Rightarrow> 'c result" where
  "Sha256Update lib context data =
     (if data = [] then Inr context
      else option_res (Runtime_error ''failed to update sha256'') (EVP_DigestUpdate lib context data))"

definition kHexDigits :: string where
  "kHexDigits = ''0123456789abcdef''"

definition hex_byte :: "u8 \<Rightarrow> string" where
  "hex_byte value =
     [kHexDigits ! unat (drop_bit 4 value AND 0x0f), kHexDigits ! unat (value AND 0x0f)]"

definition Sha256Finish :: "'c digest_lib \<Rightarrow> 'c \<Rightarrow> string result" where
  "Sha256Finish lib context =
     bind_res (option_res (Runtime_error ''failed to finalize sha256'') (EVP_DigestFinal_ex lib context))
       (\<lambda>digest. Inr (concat (map hex_byte digest)))"

definition Sha256BytesHex :: "'c digest_lib \<Rightarrow> string \<Rightarrow> string result" where
  "Sha256BytesHex lib data =
     bind_res (Sha256Context lib) (\<lambda>context.
     bind_res (Sha256Update lib context (bytes_of_string data)) (\<lambda>context'.
     Sha256Finish lib context'))"

text \<open>A read that is short has met the end of the file and leaves the stream not good.\<close>

definition kDigestBuffer :: nat where
  "kDigestBuffer = 8192"

function sha256_file_loop :: "'c digest_lib \<Rightarrow> 'c \<Rightarrow> u8 list \<Rightarrow> 'c result" where
  "sha256_file_loop lib context rest =
     (if rest = [] then Inr context
      else bind_res (Sha256Update lib context (take kDigestBuffer rest)) (\<lambda>context'.
        if length rest < kDigestBuffer then Inr context'
        else sha256_file_loop lib context' (drop kDigestBuffer rest)))"
  by pat_completeness auto
termination
  by (relation "measure (\<lambda>(_, _, rest). length rest)") (auto simp: kDigestBuffer_def)

declare sha256_file_loop.simps [simp del]

definition Sha256FileHex :: "'c digest_lib \<Rightarrow> string \<Rightarrow> u8 list option \<Rightarrow> string result" where
  "Sha256FileHex lib path content =
     bind_res (option_res (Runtime_error (''failed to open file for sha256: '' @ path)) content) (\<lambda>rest.
     bind_res (Sha256Context lib) (\<lambda>context.
     bind_res (sha256_file_loop lib context rest) (\<lambda>context'.
     Sha256Finish lib context')))"

definition IsLowerHexSha256 :: "string \<Rightarrow> bool" where
  "IsLowerHexSha256 value \<longleftrightarrow>
     length value = 64 \<and>
     list_all (\<lambda>ch. (CHR ''0'' \<le> ch \<and> ch \<le> CHR ''9'') \<or> (CHR ''a'' \<le> ch \<and> ch \<le> CHR ''f'')) value"

subsection \<open>What the library promises\<close>

definition digests :: "'c digest_lib \<Rightarrow> (u8 list \<Rightarrow> u8 list) \<Rightarrow> bool" where
  "digests lib hash \<longleftrightarrow>
     (\<exists>fed. EVP_MD_CTX_new lib \<and> EVP_DigestInit_ex lib = Some (fed []) \<and>
        (\<forall>a b. EVP_DigestUpdate lib (fed a) b = Some (fed (a @ b))) \<and>
        (\<forall>a. EVP_DigestFinal_ex lib (fed a) = Some (hash a)) \<and>
        (\<forall>a. length (hash a) = 32))"

lemma hex_digit_lower:
  assumes "n < 16"
  shows "(CHR ''0'' \<le> kHexDigits ! n \<and> kHexDigits ! n \<le> CHR ''9'') \<or>
         (CHR ''a'' \<le> kHexDigits ! n \<and> kHexDigits ! n \<le> CHR ''f'')"
proof -
  have "\<forall>m\<in>set [0..<16]. (CHR ''0'' \<le> kHexDigits ! m \<and> kHexDigits ! m \<le> CHR ''9'') \<or>
         (CHR ''a'' \<le> kHexDigits ! m \<and> kHexDigits ! m \<le> CHR ''f'')"
    by code_simp
  with assms show ?thesis
    by simp
qed

lemma nibble_bounds:
  "unat (drop_bit 4 (v :: u8) AND 0x0f) < 16" "unat ((v :: u8) AND 0x0f) < 16"
proof -
  have "x AND 0x0f < 16" for x :: u8
    by (rule le_less_trans [OF word_and_le1]) simp
  then show "unat (drop_bit 4 v AND 0x0f) < 16" "unat (v AND 0x0f) < 16"
    by (simp_all add: word_less_nat_alt)
qed

lemma hex_lower:
  "length d = 32 \<Longrightarrow> IsLowerHexSha256 (concat (map hex_byte d))"
proof -
  have "length (concat (map hex_byte d)) = 2 * length d"
    by (induction d) (simp_all add: hex_byte_def)
  moreover have "list_all (\<lambda>ch. (CHR ''0'' \<le> ch \<and> ch \<le> CHR ''9'') \<or> (CHR ''a'' \<le> ch \<and> ch \<le> CHR ''f''))
      (concat (map hex_byte d))"
    using hex_digit_lower [OF nibble_bounds(1)] hex_digit_lower [OF nibble_bounds(2)]
    by (induction d) (simp_all add: hex_byte_def)
  ultimately show "length d = 32 \<Longrightarrow> IsLowerHexSha256 (concat (map hex_byte d))"
    by (simp add: IsLowerHexSha256_def)
qed

lemma sha256_file_loop_fed:
  assumes "\<And>a b. EVP_DigestUpdate lib (fed a) b = Some (fed (a @ b))"
  shows "sha256_file_loop lib (fed a) rest = Inr (fed (a @ rest))"
proof (induction "length rest" arbitrary: a rest rule: less_induct)
  case less
  have step: "Sha256Update lib (fed a) b = Inr (fed (a @ b))" for a b
    by (simp add: Sha256Update_def assms)
  show ?case
  proof (cases "rest = [] \<or> length rest < kDigestBuffer")
    case True
    then show ?thesis
      by (subst sha256_file_loop.simps) (auto simp: step)
  next
    case False
    then have "length (drop kDigestBuffer rest) < length rest"
      by (simp add: kDigestBuffer_def)
    with False less show ?thesis
      by (subst sha256_file_loop.simps) (simp add: step)
  qed
qed

subsection \<open>Properties\<close>

text \<open>
  Hashing a file in pieces of 8192 bytes, whatever its length, gives what hashing its content in
  one piece gives, and the text is 64 lower-case hexadecimal digits, so \<open>IsLowerHexSha256\<close> accepts it.
\<close>

theorem sha256_file_equals_bytes:
  assumes "digests lib hash"
  shows "Sha256FileHex lib path (Some (bytes_of_string data)) = Sha256BytesHex lib data \<and>
         (\<exists>hex. Sha256BytesHex lib data = Inr hex \<and> IsLowerHexSha256 hex \<and>
                hex = concat (map hex_byte (hash (bytes_of_string data))))"
proof -
  obtain fed where fed: "EVP_MD_CTX_new lib" "EVP_DigestInit_ex lib = Some (fed [])"
      "\<And>a b. EVP_DigestUpdate lib (fed a) b = Some (fed (a @ b))"
      "\<And>a. EVP_DigestFinal_ex lib (fed a) = Some (hash a)" "\<And>a. length (hash a) = 32"
    using assms unfolding digests_def by blast
  show ?thesis
    using sha256_file_loop_fed [OF fed(3), of "[]"]
    by (simp add: Sha256FileHex_def Sha256BytesHex_def Sha256Context_def Sha256Finish_def
        Sha256Update_def fed hex_lower)
qed

definition demo_digest_lib :: "u8 list digest_lib" where
  "demo_digest_lib =
     \<lparr>EVP_MD_CTX_new = True, EVP_DigestInit_ex = Some [],
      EVP_DigestUpdate = (\<lambda>a b. Some (a @ b)),
      EVP_DigestFinal_ex = (\<lambda>a. Some (take 32 (a @ replicate 32 0)))\<rparr>"

lemma demo_digests: "digests demo_digest_lib (\<lambda>a. take 32 (a @ replicate 32 0))"
  unfolding digests_def by (intro exI [of _ id]) (auto simp: demo_digest_lib_def min_def)

theorem sha256_file_equals_bytes_witness:
  "Sha256FileHex demo_digest_lib ''f'' (Some (bytes_of_string ''abc'')) = Sha256BytesHex demo_digest_lib ''abc''"
  using sha256_file_equals_bytes [OF demo_digests] by blast

end
