(* ===== verification/Write_Actor.thy ===== *)
theory Write_Actor
  imports Db_Steps "HOL-Library.Multiset"
begin

section \<open>The write actor of the server's database (apps/server/src/database.cpp)\<close>

text \<open>
  Every write is a \<open>WriteTask\<close> in a queue that one thread works off: \<open>SubmitWrite\<close> and
  \<open>SubmitWriteAsync\<close> append to it unless the actor is stopping, \<open>RunWriteActor\<close> takes the front
  task, opens the database when it is not open yet and runs the task under \<open>ExecuteWithBusyRetry\<close>,
  and \<open>StopWriteActor\<close> lets the thread leave once the queue is empty.  The store the tasks work on
  is a type parameter; at the end it is the \<open>server_database\<close> of the model, which justifies that the
  other theories take every write as one step.
\<close>

subsection \<open>Retrying while the database file is locked\<close>

datatype sqlite_code = SQLITE_BUSY | SQLITE_LOCKED | SQLITE_OTHER int

datatype thrown = Sqlite_exception sqlite_code string | Other_exception exn

definition kBusyRetryAttempts :: nat where
  "kBusyRetryAttempts = 5"

definition IsRecoverableBusy :: "thrown \<Rightarrow> bool" where
  "IsRecoverableBusy ex \<longleftrightarrow>
     (case ex of
        Sqlite_exception error_code _ \<Rightarrow> error_code = SQLITE_BUSY \<or> error_code = SQLITE_LOCKED
      | Other_exception _ \<Rightarrow> False)"

text \<open>
  \<open>func attempt s\<close> is what a call does at that attempt; other processes hold or release the lock of
  the file between attempts.
\<close>

type_synonym ('s, 'r) job_func = "nat \<Rightarrow> 's \<Rightarrow> (thrown + 'r) \<times> 's"

function busy_retry :: "('s, 'r) job_func \<Rightarrow> nat \<Rightarrow> 's \<Rightarrow> (thrown + 'r) \<times> 's" where
  "busy_retry func attempt s =
     (case func attempt s of
        (Inr x, s') \<Rightarrow> (Inr x, s')
      | (Inl ex, s') \<Rightarrow>
          if \<not> IsRecoverableBusy ex \<or> kBusyRetryAttempts \<le> attempt then (Inl ex, s')
          else busy_retry func (attempt + 1) s')"
  by pat_completeness auto
termination
  by (relation "measure (\<lambda>(_, attempt, _). kBusyRetryAttempts - attempt)") auto

declare busy_retry.simps [simp del]

definition ExecuteWithBusyRetry :: "('s, 'r) job_func \<Rightarrow> 's \<Rightarrow> (thrown + 'r) \<times> 's" where
  "ExecuteWithBusyRetry func s = busy_retry func 0 s"

subsection \<open>The queue and the thread\<close>

text \<open>The id stands for the promise or the completion of the caller.\<close>

record ('s, 'r) write_task =
  wt_id :: nat
  wt_func :: "('s, 'r) job_func"

record ('s, 'r) write_actor =
  wa_queue :: "('s, 'r) write_task list"
  wa_stopping :: bool
  wa_exited :: bool
  wa_open :: bool
  wa_store :: 's
  wa_outcomes :: "(nat \<times> (thrown + 'r)) list"

definition new_write_actor :: "'s \<Rightarrow> ('s, 'r) write_actor" where
  "new_write_actor s =
     \<lparr>wa_queue = [], wa_stopping = False, wa_exited = False, wa_open = False, wa_store = s,
      wa_outcomes = []\<rparr>"

definition stopped_error :: thrown where
  "stopped_error = Other_exception (Runtime_error ''server database write actor is stopped'')"

definition SubmitWriteTask :: "('s, 'r) write_task \<Rightarrow> ('s, 'r) write_actor \<Rightarrow> ('s, 'r) write_actor" where
  "SubmitWriteTask t a =
     (if wa_stopping a then a\<lparr>wa_outcomes := wa_outcomes a @ [(wt_id t, Inl stopped_error)]\<rparr>
      else a\<lparr>wa_queue := wa_queue a @ [t]\<rparr>)"

definition StopWriteActor :: "('s, 'r) write_actor \<Rightarrow> ('s, 'r) write_actor" where
  "StopWriteActor a = a\<lparr>wa_stopping := True\<rparr>"

text \<open>
  One round of the loop; \<open>open_error\<close> is what \<open>OpenDatabase\<close> throws, if it does.  With an empty queue
  the thread waits, or leaves when the actor is stopping.
\<close>

definition RunWriteActorRound :: "thrown option \<Rightarrow> ('s, 'r) write_actor \<Rightarrow> ('s, 'r) write_actor" where
  "RunWriteActorRound open_error a =
     (if wa_exited a then a
      else case wa_queue a of
        [] \<Rightarrow> if wa_stopping a then a\<lparr>wa_exited := True\<rparr> else a
      | t # queue \<Rightarrow>
          (case (if wa_open a then None else open_error) of
             Some ex \<Rightarrow>
               a\<lparr>wa_queue := queue, wa_outcomes := wa_outcomes a @ [(wt_id t, Inl ex)]\<rparr>
           | None \<Rightarrow>
               (case ExecuteWithBusyRetry (wt_func t) (wa_store a) of (outcome, s) \<Rightarrow>
                  a\<lparr>wa_queue := queue, wa_open := True, wa_store := s,
                    wa_outcomes := wa_outcomes a @ [(wt_id t, outcome)]\<rparr>)))"

inductive actor_run ::
    "'s \<Rightarrow> ('s, 'r) write_task list \<Rightarrow> ('s, 'r) write_actor \<Rightarrow> bool" for s0 :: 's where
  start: "actor_run s0 [] (new_write_actor s0)"
| submit: "actor_run s0 ts a \<Longrightarrow> actor_run s0 (ts @ [t]) (SubmitWriteTask t a)"
| round: "actor_run s0 ts a \<Longrightarrow> actor_run s0 ts (RunWriteActorRound open_error a)"
| stop: "actor_run s0 ts a \<Longrightarrow> actor_run s0 ts (StopWriteActor a)"

subsection \<open>Retries end\<close>

text \<open>The state in which attempt \<open>n\<close> is made, counting from \<open>first\<close>.\<close>

fun before_attempt :: "('s, 'r) job_func \<Rightarrow> nat \<Rightarrow> nat \<Rightarrow> 's \<Rightarrow> 's" where
  "before_attempt func first 0 s = s"
| "before_attempt func first (Suc n) s = before_attempt func (first + 1) n (snd (func first s))"

definition busy_at :: "('s, 'r) job_func \<Rightarrow> nat \<Rightarrow> nat \<Rightarrow> 's \<Rightarrow> bool" where
  "busy_at func first n s \<longleftrightarrow>
     (\<exists>ex. fst (func (first + n) (before_attempt func first n s)) = Inl ex \<and> IsRecoverableBusy ex)"

lemma busy_at_Suc: "busy_at func first (Suc n) s = busy_at func (first + 1) n (snd (func first s))"
  by (simp add: busy_at_def)

lemma busy_retry_attempts:
  assumes "first \<le> kBusyRetryAttempts"
  shows "\<exists>n \<le> kBusyRetryAttempts - first.
      busy_retry func first s = func (first + n) (before_attempt func first n s) \<and>
      (\<forall>i < n. busy_at func first i s) \<and>
      (first + n < kBusyRetryAttempts \<longrightarrow> \<not> busy_at func first n s)"
  using assms
proof (induction func first s rule: busy_retry.induct)
  case (1 func first s)
  show ?case
  proof (cases "busy_at func first 0 s \<and> first < kBusyRetryAttempts")
    case True
    then obtain ex s' where call: "func first s = (Inl ex, s')" and busy: "IsRecoverableBusy ex"
      by (cases "func first s") (auto simp: busy_at_def)
    with True 1(1) [OF call [symmetric] HOL.refl]
    obtain n where n: "n \<le> kBusyRetryAttempts - (first + 1)"
        "busy_retry func (first + 1) s' = func (first + 1 + n) (before_attempt func (first + 1) n s')"
        "\<forall>i < n. busy_at func (first + 1) i s'"
        "first + 1 + n < kBusyRetryAttempts \<longrightarrow> \<not> busy_at func (first + 1) n s'"
      by auto
    have "busy_retry func first s = busy_retry func (first + 1) s'"
      using call busy True by (subst busy_retry.simps) simp
    moreover have "\<forall>i < Suc n. busy_at func first i s"
      using n(3) True call by (auto simp: busy_at_Suc less_Suc_eq_0_disj)
    ultimately show ?thesis
      using n call True by (intro exI [of _ "Suc n"]) (auto simp: busy_at_Suc)
  next
    case False
    have "busy_retry func first s = func first s"
      using False 1(2) by (subst busy_retry.simps) (auto simp: busy_at_def split: prod.split sum.split)
    with False show ?thesis
      by (intro exI [of _ 0]) auto
  qed
qed

subsection \<open>What a run of the actor has done\<close>

text \<open>
  \<open>replay log s\<close> runs tasks one after the other; a task whose database could not be opened is marked
  with the exception it was failed with.
\<close>

type_synonym ('s, 'r) log = "(('s, 'r) write_task \<times> thrown option) list"

fun replay :: "('s, 'r) log \<Rightarrow> 's \<Rightarrow> 's" where
  "replay [] s = s"
| "replay ((t, None) # log) s = replay log (snd (ExecuteWithBusyRetry (wt_func t) s))"
| "replay ((t, Some _) # log) s = replay log s"

fun replay_outcomes :: "('s, 'r) log \<Rightarrow> 's \<Rightarrow> (nat \<times> (thrown + 'r)) list" where
  "replay_outcomes [] s = []"
| "replay_outcomes ((t, None) # log) s =
     (wt_id t, fst (ExecuteWithBusyRetry (wt_func t) s)) #
     replay_outcomes log (snd (ExecuteWithBusyRetry (wt_func t) s))"
| "replay_outcomes ((t, Some ex) # log) s = (wt_id t, Inl ex) # replay_outcomes log s"

lemma replay_snoc:
  "replay (log @ [(t, x)]) s =
     (case x of None \<Rightarrow> snd (ExecuteWithBusyRetry (wt_func t) (replay log s)) | Some _ \<Rightarrow> replay log s)"
  by (induction log s rule: replay.induct) (auto split: option.split)

lemma replay_outcomes_snoc:
  "replay_outcomes (log @ [(t, x)]) s = replay_outcomes log s @
     [(wt_id t, case x of None \<Rightarrow> fst (ExecuteWithBusyRetry (wt_func t) (replay log s)) | Some ex \<Rightarrow> Inl ex)]"
  by (induction log s rule: replay_outcomes.induct) (auto split: option.split)

lemma map_fst_replay_outcomes: "map fst (replay_outcomes log s) = map (wt_id \<circ> fst) log"
  by (induction log s rule: replay_outcomes.induct) auto

text \<open>
  The tasks accepted so far are the ones run, in order, followed by the ones still queued; the ones
  rejected came after the actor was told to stop.
\<close>

definition actor_did ::
    "'s \<Rightarrow> ('s, 'r) write_task list \<Rightarrow> ('s, 'r) write_actor \<Rightarrow> ('s, 'r) log \<Rightarrow> ('s, 'r) write_task list \<Rightarrow> bool" where
  "actor_did s0 ts a log rejected \<longleftrightarrow>
     ts = map fst log @ wa_queue a @ rejected \<and>
     wa_store a = replay log s0 \<and>
     mset (wa_outcomes a) =
       mset (replay_outcomes log s0) + mset (map (\<lambda>t. (wt_id t, Inl stopped_error)) rejected) \<and>
     (rejected \<noteq> [] \<longrightarrow> wa_stopping a) \<and> (wa_exited a \<longrightarrow> wa_stopping a \<and> wa_queue a = [])"

lemma actor_did_round:
  assumes "actor_did s0 ts a log rejected"
  shows "\<exists>log'. actor_did s0 ts (RunWriteActorRound open_error a) log' rejected"
proof (cases "wa_exited a \<or> wa_queue a = []")
  case True
  with assms show ?thesis
    by (intro exI [of _ log]) (auto simp: RunWriteActorRound_def actor_did_def)
next
  case False
  then obtain t queue where queue: "wa_queue a = t # queue"
    by (cases "wa_queue a") auto
  obtain outcome s where run: "ExecuteWithBusyRetry (wt_func t) (wa_store a) = (outcome, s)"
    by fastforce
  let ?x = "if wa_open a then None else open_error"
  show ?thesis
    using assms False queue run
    by (intro exI [of _ "log @ [(t, ?x)]"])
      (auto simp: RunWriteActorRound_def actor_did_def replay_snoc replay_outcomes_snoc
        split: option.split)
qed

lemma actor_run_did: "actor_run s0 ts a \<Longrightarrow> \<exists>log rejected. actor_did s0 ts a log rejected"
proof (induction rule: actor_run.induct)
  case start
  show ?case
    by (intro exI [of _ "[]"]) (simp add: actor_did_def new_write_actor_def)
next
  case (submit ts a t)
  then obtain log rejected where did: "actor_did s0 ts a log rejected"
    by blast
  show ?case
  proof (cases "wa_stopping a")
    case True
    with did have "actor_did s0 (ts @ [t]) (SubmitWriteTask t a) log (rejected @ [t])"
      by (auto simp: actor_did_def SubmitWriteTask_def)
    then show ?thesis by blast
  next
    case False
    with did have "actor_did s0 (ts @ [t]) (SubmitWriteTask t a) log []"
      by (auto simp: actor_did_def SubmitWriteTask_def)
    then show ?thesis by blast
  qed
next
  case (round ts a open_error)
  then obtain log rejected where "actor_did s0 ts a log rejected"
    by blast
  from actor_did_round [OF this] show ?case
    by blast
next
  case (stop ts a)
  then obtain log rejected where "actor_did s0 ts a log rejected"
    by blast
  then have "actor_did s0 ts (StopWriteActor a) log rejected"
    by (auto simp: actor_did_def StopWriteActor_def)
  then show ?case by blast
qed

subsection \<open>The thread drains its queue\<close>

lemma round_shrinks:
  assumes "wa_stopping a" and "\<not> wa_exited a"
  shows "wa_stopping (RunWriteActorRound x a) \<and>
    (wa_queue a = [] \<and> wa_exited (RunWriteActorRound x a) \<and> wa_queue (RunWriteActorRound x a) = [] \<or>
     \<not> wa_exited (RunWriteActorRound x a) \<and>
     Suc (length (wa_queue (RunWriteActorRound x a))) = length (wa_queue a))"
  using assms by (auto simp: RunWriteActorRound_def split: list.split prod.split option.split)

definition rounds :: "thrown option list \<Rightarrow> ('s, 'r) write_actor \<Rightarrow> ('s, 'r) write_actor" where
  "rounds xs a = fold RunWriteActorRound xs a"

lemma rounds_exit:
  assumes "wa_stopping a" and "\<not> wa_exited a" and "length (wa_queue a) < length xs"
  shows "wa_exited (rounds xs a) \<and> wa_queue (rounds xs a) = []"
  using assms
proof (induction xs arbitrary: a)
  case (Cons x xs)
  have stay: "wa_exited b \<Longrightarrow> fold RunWriteActorRound xs b = b" for b :: "('s, 'r) write_actor"
    by (induction xs) (simp_all add: RunWriteActorRound_def)
  from round_shrinks [OF Cons.prems(1,2), of x] Cons.prems(3) show ?case
    using Cons.IH [of "RunWriteActorRound x a"] stay [of "RunWriteActorRound x a"]
    by (auto simp: rounds_def)
qed simp

lemma actor_run_rounds: "actor_run s0 ts a \<Longrightarrow> actor_run s0 ts (rounds xs a)"
  by (induction xs arbitrary: a) (auto simp: rounds_def intro: actor_run.round)


subsection \<open>The database as the store\<close>

definition job_of :: "nat \<Rightarrow> 'a db_op \<Rightarrow> (server_database, 'a) write_task" where
  "job_of i func =
     \<lparr>wt_id = i, wt_func = (\<lambda>_ db.
        (case func db of (Inl x, db') \<Rightarrow> (Inl (Other_exception x), db') | (Inr v, db') \<Rightarrow> (Inr v, db')))\<rparr>"

lemma db_runs_trans: "db_runs e b c \<Longrightarrow> db_runs e a b \<Longrightarrow> db_runs e a c"
  by (induction rule: db_runs.induct) (auto intro: db_runs.intros)

lemma busy_retry_runs:
  assumes "\<And>n db. db_runs e db (snd (func n db))"
  shows "db_runs e db (snd (busy_retry func first db))"
  using assms
proof (induction func first db rule: busy_retry.induct)
  case (1 func first db)
  obtain r db' where call: "func first db = (r, db')"
    by fastforce
  have step: "db_runs e db db'"
    using 1(2) [of db first] call by simp
  show ?case
  proof (cases "\<exists>ex. r = Inl ex \<and> IsRecoverableBusy ex \<and> first < kBusyRetryAttempts")
    case True
    then obtain ex where ex: "r = Inl ex" "IsRecoverableBusy ex" "first < kBusyRetryAttempts"
      by blast
    then have "db_runs e db' (snd (busy_retry func (first + 1) db'))"
      using 1(1) [OF call [symmetric] ex(1)] 1(2) by simp
    moreover have "busy_retry func first db = busy_retry func (first + 1) db'"
      using call ex by (subst busy_retry.simps) simp
    ultimately show ?thesis
      using db_runs_trans [OF _ step] by simp
  next
    case False
    then have "busy_retry func first db = (r, db')"
      using call by (subst busy_retry.simps) (auto split: sum.split)
    with step show ?thesis
      by simp
  qed
qed

lemma replay_runs:
  assumes "\<forall>(t, x)\<in>set log. \<forall>n db. db_runs e db (snd (wt_func t n db))"
  shows "db_runs e s (replay log s)"
  using assms
proof (induction log s rule: replay.induct)
  case (1 s)
  show ?case
    by (simp add: db_runs.refl)
next
  case (2 t log s)
  have "db_runs e s (snd (ExecuteWithBusyRetry (wt_func t) s))"
    unfolding ExecuteWithBusyRetry_def using 2 by (intro busy_retry_runs) auto
  with 2 show ?case
    using db_runs_trans by fastforce
qed auto

lemma job_of_runs:
  assumes "\<And>db. db_runs e db (snd (func db))"
  shows "db_runs e db (snd (wt_func (job_of i func) n db))"
  using assms [of db] by (auto simp: job_of_def split: prod.split sum.split)

subsection \<open>Properties\<close>

text \<open>
  A write that meets a locked database file is retried and returns: the result is that of one of at
  most six attempts, every attempt before it was busy, and it is handed on as busy only when it was
  the sixth.
\<close>

theorem busy_retry_terminates:
  "\<exists>n \<le> kBusyRetryAttempts.
     ExecuteWithBusyRetry func s = func n (before_attempt func 0 n s) \<and>
     (\<forall>i < n. busy_at func 0 i s) \<and> (n < kBusyRetryAttempts \<longrightarrow> \<not> busy_at func 0 n s)"
  using busy_retry_attempts [of 0 func s] by (simp add: ExecuteWithBusyRetry_def)

theorem busy_retry_terminates_witness:
  "ExecuteWithBusyRetry (\<lambda>_ _. (Inl (Sqlite_exception SQLITE_BUSY ''locked'') :: thrown + unit, ())) () =
     (Inl (Sqlite_exception SQLITE_BUSY ''locked''), ())"
  using busy_retry_terminates [of "\<lambda>_ _. (Inl (Sqlite_exception SQLITE_BUSY ''locked'') :: thrown + unit, ())" "()"]
  by auto

text \<open>
  C38: Writes are run one at a time, in the order of submission.  At every moment the submitted tasks are
  those that were run, then those in the queue, then those rejected because the actor was stopping;
  the store is what running the first ones one after the other makes of it; and the outcomes
  delivered are theirs and the rejections, one for each.
\<close>

theorem write_actor_serializes:
  assumes "actor_run s0 ts a"
  shows "\<exists>log rejected. ts = map fst log @ wa_queue a @ rejected \<and> wa_store a = replay log s0 \<and>
    mset (wa_outcomes a) =
      mset (replay_outcomes log s0) + mset (map (\<lambda>t. (wt_id t, Inl stopped_error)) rejected) \<and>
    (rejected \<noteq> [] \<longrightarrow> wa_stopping a)"
  using actor_run_did [OF assms] unfolding actor_did_def by blast

text \<open>
  Stopping drains the queue.  After \<open>StopWriteActor\<close> the thread leaves within one round more than there are
  tasks in the queue, whatever those do and whether or not the database can be opened; then every
  task ever submitted has exactly one outcome, and every later one is rejected at once.
\<close>

theorem write_actor_drains:
  assumes "actor_run s0 ts a" and "length (wa_queue a) < length xs"
  shows "wa_exited (rounds xs (StopWriteActor a)) \<and>
    image_mset fst (mset (wa_outcomes (rounds xs (StopWriteActor a)))) = mset (map wt_id ts) \<and>
    wa_outcomes (SubmitWriteTask t (rounds xs (StopWriteActor a))) =
      wa_outcomes (rounds xs (StopWriteActor a)) @ [(wt_id t, Inl stopped_error)]"
proof -
  let ?b = "rounds xs (StopWriteActor a)"
  have run: "actor_run s0 ts ?b"
    using assms(1) by (intro actor_run_rounds actor_run.stop)
  from actor_run_did [OF run] obtain log rejected where did: "actor_did s0 ts ?b log rejected"
    by blast
  have left: "wa_exited ?b"
  proof (cases "wa_exited (StopWriteActor a)")
    case True
    have "wa_exited c \<Longrightarrow> fold RunWriteActorRound xs c = c" for c :: "('a, 'b) write_actor"
      by (induction xs) (simp_all add: RunWriteActorRound_def)
    with True show ?thesis
      by (simp add: rounds_def)
  next
    case False
    then show ?thesis
      using rounds_exit [of "StopWriteActor a" xs] assms(2) by (simp add: StopWriteActor_def)
  qed
  have "image_mset fst (mset (wa_outcomes ?b)) = mset (map wt_id ts)"
    using did left by (simp add: actor_did_def map_fst_replay_outcomes comp_def multiset.map_comp
        flip: mset_map)
  with left did show ?thesis
    by (simp add: SubmitWriteTask_def actor_did_def)
qed

text \<open>
  The actor's database is one the other theories speak of.  When every submitted task makes steps of the
  database, in each of its attempts, then however submissions, rounds and the stop interleave, the
  database is a later state of the initial one in the sense of \<open>db_runs\<close>, so that every invariant of
  reachable databases holds of it.
\<close>

theorem write_actor_database:
  assumes "actor_run db0 ts a"
    and "\<forall>t\<in>set ts. \<forall>n db. db_runs e db (snd (wt_func t n db))"
  shows "db_runs e db0 (wa_store a)"
proof -
  obtain log rejected where did: "actor_did db0 ts a log rejected"
    using actor_run_did [OF assms(1)] by blast
  have "set (map fst log) \<subseteq> set ts"
    using did by (auto simp: actor_did_def)
  with assms(2) have "\<forall>(t, x)\<in>set log. \<forall>n db. db_runs e db (snd (wt_func t n db))"
    by force
  then have "db_runs e db0 (replay log db0)"
    by (rule replay_runs)
  with did show ?thesis
    by (simp add: actor_did_def)
qed

definition demo_empty_ext :: ext where
  "demo_empty_ext =
     \<lparr>ext_wire = demo_wire, ext_dump_strings = (\<lambda>_. Inr ''[]''), ext_parse_strings = (\<lambda>_. Inr []),
      ext_audit_payload = (\<lambda>_. Inr ''{}''), ext_first_created = hd, ext_overdue = (\<lambda>_ _. False),
      ext_concat_order = id\<rparr>"

definition demo_job :: "(server_database, unit) write_task" where
  "demo_job = job_of 7 (MarkAgentOffline ''a'' ''t'')"

definition demo_actor :: "(server_database, unit) write_actor" where
  "demo_actor = SubmitWriteTask demo_job (new_write_actor fresh_database)"

lemma demo_actor_run: "actor_run fresh_database [demo_job] demo_actor"
  using actor_run.submit [OF actor_run.start] by (simp add: demo_actor_def)

theorem write_actor_serializes_witness:
  "\<exists>log rejected. [demo_job] = map fst log @ wa_queue demo_actor @ rejected \<and>
     wa_store demo_actor = replay log fresh_database"
  using write_actor_serializes [OF demo_actor_run] by blast

theorem write_actor_drains_witness:
  "wa_exited (rounds [None, None] (StopWriteActor demo_actor)) \<and>
   image_mset fst (mset (wa_outcomes (rounds [None, None] (StopWriteActor demo_actor)))) = {#7#}"
  using write_actor_drains [OF demo_actor_run, of "[None, None]" demo_job]
  by (simp add: demo_actor_def SubmitWriteTask_def new_write_actor_def) (simp add: demo_job_def job_of_def)

theorem write_actor_database_witness:
  "db_runs demo_empty_ext fresh_database (wa_store (RunWriteActorRound None demo_actor))"
proof (rule write_actor_database [OF actor_run.round [OF demo_actor_run]])
  show "\<forall>t\<in>set [demo_job]. \<forall>n db. db_runs demo_empty_ext db (snd (wt_func t n db))"
    using job_of_runs [OF db_runs_one [OF db_step.mark_offline]] by (simp add: demo_job_def)
qed

end
