(* ===== verification/Control_Service.thy ===== *)
theory Control_Service
  imports Task_Queue Sha256
begin

section \<open>Handling agent events (apps/server/src/control_service.cpp)\<close>

text \<open>
  The control service turns one decoded agent event into calls of the store it was given.  The store
  is the virtual interface \<open>ServerStore\<close>, here a record of operations on a state \<open>'s\<close>; what the service
  relies on is stated as locales, which the database model interprets.  The service reads the clock
  and makes UUIDs: the n-th reading is \<open>env_now n\<close>, the n-th UUID \<open>env_uuid n\<close>, and the counter is
  part of the state.  Every \<open>catch (const std::exception&)\<close> is a \<open>svc_try\<close>; undefined behaviour is not
  an exception and passes it.
\<close>

subsection \<open>The interface of the store\<close>

record 's server_store =
  st_AgentExists :: "string \<Rightarrow> 's \<Rightarrow> bool result"
  st_FindAgent :: "string \<Rightarrow> 's \<Rightarrow> agent_summary option result"
  st_ConsumeRegistrationToken ::
    "string \<Rightarrow> string \<Rightarrow> string \<Rightarrow> string \<Rightarrow> 's \<Rightarrow> bool result \<times> 's"
  st_UpsertAgent :: "agent_registration \<Rightarrow> 's \<Rightarrow> unit result \<times> 's"
  st_RecordAssetSnapshot :: "asset_snapshot \<Rightarrow> agent_event \<Rightarrow> 's \<Rightarrow> unit result \<times> 's"
  st_RecordAuditEvent :: "audit_event \<Rightarrow> 's \<Rightarrow> unit result \<times> 's"
  st_MarkTaskRunning :: "task_running \<Rightarrow> 's \<Rightarrow> unit result \<times> 's"
  st_FindTaskById :: "string \<Rightarrow> 's \<Rightarrow> stored_task option result"
  st_RecordTaskResult :: "task_result \<Rightarrow> string option \<Rightarrow> string option \<Rightarrow> 's \<Rightarrow> unit result \<times> 's"

definition db_store :: "ext \<Rightarrow> server_database server_store" where
  "db_store e =
     \<lparr>st_AgentExists = (\<lambda>i db. Inr (AgentExists i db)),
      st_FindAgent = (\<lambda>i db. Inr (FindAgent i db)),
      st_ConsumeRegistrationToken = ConsumeRegistrationToken,
      st_UpsertAgent = UpsertAgent,
      st_RecordAssetSnapshot = RecordAssetSnapshot e,
      st_RecordAuditEvent = RecordAuditEvent,
      st_MarkTaskRunning = MarkTaskRunning,
      st_FindTaskById = FindTaskById e,
      st_RecordTaskResult = RecordTaskResult\<rparr>"

subsection \<open>The service's state and its combinators\<close>

record service_env =
  env_uuid :: "nat \<Rightarrow> string"
  env_now :: "nat \<Rightarrow> string"
  env_sha256_hex :: "string \<Rightarrow> string result"
  env_wire :: wire
  env_audit_payload :: "(string \<times> audit_payload_value) list \<Rightarrow> string result"

type_synonym ('s, 'a) svc = "nat \<times> 's \<Rightarrow> 'a result \<times> (nat \<times> 's)"

definition svc_return :: "'a \<Rightarrow> ('s, 'a) svc" where
  "svc_return x w = (Inr x, w)"

definition svc_bind :: "('s, 'a) svc \<Rightarrow> ('a \<Rightarrow> ('s, 'b) svc) \<Rightarrow> ('s, 'b) svc" where
  "svc_bind m f w = (case m w of (Inl x, w') \<Rightarrow> (Inl x, w') | (Inr a, w') \<Rightarrow> f a w')"

definition svc_lift :: "'a result \<Rightarrow> ('s, 'a) svc" where
  "svc_lift r w = (r, w)"

definition svc_read :: "('s \<Rightarrow> 'a result) \<Rightarrow> ('s, 'a) svc" where
  "svc_read f w = (f (snd w), w)"

definition svc_write :: "('s \<Rightarrow> 'a result \<times> 's) \<Rightarrow> ('s, 'a) svc" where
  "svc_write f w = (case f (snd w) of (r, s) \<Rightarrow> (r, (fst w, s)))"

definition svc_tick :: "(nat \<Rightarrow> 'a) \<Rightarrow> ('s, 'a) svc" where
  "svc_tick f w = (Inr (f (fst w)), (fst w + 1, snd w))"

definition svc_try :: "('s, 'a) svc \<Rightarrow> 'a \<Rightarrow> ('s, 'a) svc" where
  "svc_try m handler w =
     (case m w of
        (Inl (Undefined_behaviour x), w') \<Rightarrow> (Inl (Undefined_behaviour x), w')
      | (Inl _, w') \<Rightarrow> (Inr handler, w')
      | (Inr a, w') \<Rightarrow> (Inr a, w'))"

lemmas svc_defs = svc_return_def svc_bind_def svc_lift_def svc_read_def svc_write_def svc_tick_def

subsection \<open>Results\<close>

datatype control_event_status = kAccepted | kInvalidArgument | kNotFound | kInternalError

record control_event_result =
  cer_status :: control_event_status
  cer_message :: string

definition Accepted :: "string \<Rightarrow> control_event_result" where
  "Accepted message = \<lparr>cer_status = kAccepted, cer_message = message\<rparr>"

definition InvalidArgument :: "string \<Rightarrow> control_event_result" where
  "InvalidArgument message = \<lparr>cer_status = kInvalidArgument, cer_message = message\<rparr>"

definition NotFound :: "string \<Rightarrow> control_event_result" where
  "NotFound message = \<lparr>cer_status = kNotFound, cer_message = message\<rparr>"

definition InternalError :: control_event_result where
  "InternalError = \<lparr>cer_status = kInternalError, cer_message = ''internal error''\<rparr>"

lemmas result_defs [simp] = Accepted_def InvalidArgument_def NotFound_def InternalError_def

fun ControlEventStatus_ToString :: "control_event_status \<Rightarrow> string" where
  "ControlEventStatus_ToString kAccepted = ''accepted''"
| "ControlEventStatus_ToString kInvalidArgument = ''invalid_argument''"
| "ControlEventStatus_ToString kNotFound = ''not_found''"
| "ControlEventStatus_ToString kInternalError = ''internal_error''"

fun AuditEventForTaskResult :: "task_execution_status \<Rightarrow> audit_event_type" where
  "AuditEventForTaskResult TE_succeeded = A_task_succeeded"
| "AuditEventForTaskResult TE_failed = A_task_failed"
| "AuditEventForTaskResult TE_expired = A_task_expired"

subsection \<open>The handlers\<close>

definition ValidateEnvelope :: "agent_event \<Rightarrow> control_event_result" where
  "ValidateEnvelope event =
     (if AgentEventProtocolVersion event \<noteq> protocol_version
      then InvalidArgument ''unsupported protocol version''
      else if AgentEventRequestId event = [] then InvalidArgument ''message_id must not be empty''
      else if AgentEventAgentId event = [] then InvalidArgument ''agent_id must not be empty''
      else if AgentEventOccurredAt event = [] then InvalidArgument ''occurred_at must not be empty''
      else Accepted ''accepted'')"

text \<open>\<open>SerializeAuditPayload\<close> of the fields, then \<open>RecordAuditEvent\<close> with a new id and the time.\<close>

definition record_audit ::
    "service_env \<Rightarrow> 's server_store \<Rightarrow> audit_event_type \<Rightarrow> string \<Rightarrow> string \<Rightarrow> string \<Rightarrow>
     (string \<times> string) list \<Rightarrow> ('s, unit) svc" where
  "record_audit env st event_type request_id agent_id outcome entries =
     svc_bind (svc_lift (env_audit_payload env (map (\<lambda>(k, v). (k, PayloadText v)) entries))) (\<lambda>payload_json.
     svc_bind (svc_tick (env_uuid env)) (\<lambda>audit_id.
     svc_bind (svc_tick (env_now env)) (\<lambda>occurred_at.
     svc_write (st_RecordAuditEvent st
       \<lparr>ae_audit_id = audit_id, ae_occurred_at = occurred_at, ae_agent_id = Some agent_id,
        ae_request_id = request_id, ae_event_type = event_type, ae_result = outcome,
        ae_payload_json = payload_json\<rparr>))))"

definition HandleTaskRunning ::
    "service_env \<Rightarrow> 's server_store \<Rightarrow> task_running \<Rightarrow> ('s, control_event_result) svc" where
  "HandleTaskRunning env st request =
     (if run_task_id request = [] then svc_return (InvalidArgument ''task_id must not be empty'')
      else svc_try
        (svc_bind (svc_read (st_FindTaskById st (run_task_id request))) (\<lambda>stored_task.
         case stored_task of
           None \<Rightarrow> svc_return (NotFound ''task not found'')
         | Some t \<Rightarrow>
             if task_agent_id (st_task t) \<noteq> run_agent_id request
             then svc_return (InvalidArgument ''task agent does not match running agent'')
             else if task_task_type (st_task t) \<noteq> run_task_type request
             then svc_return (InvalidArgument ''task type does not match stored task'')
             else if IsTerminalTaskState (st_state t)
             then svc_return (InvalidArgument ''task already finished'')
             else if st_state t \<noteq> TS_assigned
             then svc_return (InvalidArgument ''task is not assigned'')
             else
               svc_bind (svc_write (st_MarkTaskRunning st request)) (\<lambda>_.
               svc_bind (record_audit env st A_task_running (run_request_id request)
                 (run_agent_id request) ''success''
                 [(''transport'', ''http2''), (''task_id'', run_task_id request),
                  (''task_type'', TaskType_ToString (run_task_type request)),
                  (''status'', ''running'')]) (\<lambda>_.
               svc_return (Accepted ''running'')))))
        InternalError)"

text \<open>The two optional blobs; they are made before the \<open>try\<close>, so that their exceptions escape.\<close>

definition result_blobs ::
    "service_env \<Rightarrow> task_result \<Rightarrow> (control_event_result + string option \<times> string option) result" where
  "result_blobs env request =
     (if res_status request = TE_succeeded then
        (case res_result request of
           None \<Rightarrow> Inr (Inl (InvalidArgument ''task result payload must be set''))
         | Some data \<Rightarrow> bind_res (SerializeTaskResultDataBlob (env_wire env) data)
             (\<lambda>blob. Inr (Inr (Some blob, None))))
      else
        (case res_error request of
           None \<Rightarrow> Inr (Inl (InvalidArgument ''task error code must be set''))
         | Some error \<Rightarrow> bind_res (SerializeTaskErrorBlob (env_wire env) error)
             (\<lambda>blob. Inr (Inr (None, Some blob)))))"

definition HandleTaskResult ::
    "service_env \<Rightarrow> 's server_store \<Rightarrow> task_result \<Rightarrow> ('s, control_event_result) svc" where
  "HandleTaskResult env st request =
     (if res_task_id request = [] then svc_return (InvalidArgument ''task_id must not be empty'')
      else svc_bind (svc_lift (result_blobs env request)) (\<lambda>blobs.
        case blobs of
          Inl rejected \<Rightarrow> svc_return rejected
        | Inr (result_blob, error_blob) \<Rightarrow> svc_try
            (svc_bind (svc_read (st_FindTaskById st (res_task_id request))) (\<lambda>stored_task.
             case stored_task of
               None \<Rightarrow> svc_return (NotFound ''task not found'')
             | Some t \<Rightarrow>
                 if task_agent_id (st_task t) \<noteq> res_agent_id request
                 then svc_return (InvalidArgument ''task agent does not match result agent'')
                 else if task_task_type (st_task t) \<noteq> res_task_type request
                 then svc_return (InvalidArgument ''task type does not match stored task'')
                 else if IsTerminalTaskState (st_state t)
                 then svc_return (InvalidArgument ''task already finished'')
                 else
                   svc_bind (svc_write (st_RecordTaskResult st request result_blob error_blob)) (\<lambda>_.
                   svc_bind (record_audit env st (AuditEventForTaskResult (res_status request))
                     (res_request_id request) (res_agent_id request) ''success''
                     [(''transport'', ''http2''), (''task_id'', res_task_id request),
                      (''task_type'', TaskType_ToString (res_task_type request)),
                      (''status'', TaskExecutionStatus_ToString (res_status request))]) (\<lambda>_.
                   svc_return (Accepted ''accepted'')))))
            InternalError))"

definition registration_snapshot :: "agent_registration \<Rightarrow> asset_snapshot" where
  "registration_snapshot request =
     \<lparr>as_protocol_version = reg_protocol_version request, as_request_id = reg_request_id request,
      as_agent_id = reg_agent_id request, as_occurred_at = reg_occurred_at request,
      as_hostname = reg_hostname request, as_os = reg_os request, as_os_version = None,
      as_arch = reg_arch request, as_agent_version = reg_agent_version request,
      as_applications = [], as_services = []\<rparr>"

definition audit_confirmation ::
    "service_env \<Rightarrow> 's server_store \<Rightarrow> agent_registration \<Rightarrow> agent_summary option \<Rightarrow>
     agent_summary option \<Rightarrow> ('s, unit) svc" where
  "audit_confirmation env st request previous current =
     (case (previous, current) of
        (Some p, Some c) \<Rightarrow>
          (case ag_upgrade_state c of
             Some state \<Rightarrow>
               if ag_upgrade_state p = Some ''waiting_reconnect'' \<and>
                  (state = ''succeeded'' \<or> state = ''failed'')
               then record_audit env st A_agent_upgrade_confirmed (reg_request_id request)
                      (reg_agent_id request) (if state = ''succeeded'' then ''success'' else ''error'')
                      [(''state'', state), (''agent_version'', reg_agent_version request),
                       (''error_code'', case ag_last_upgrade_error c of None \<Rightarrow> [] | Some x \<Rightarrow> x)]
               else svc_return ()
           | None \<Rightarrow> svc_return ())
      | _ \<Rightarrow> svc_return ())"

text \<open>What follows the check of the registration token.\<close>

definition register_agent ::
    "service_env \<Rightarrow> 's server_store \<Rightarrow> agent_registration \<Rightarrow> ('s, control_event_result) svc" where
  "register_agent env st request =
     svc_bind (svc_read (st_FindAgent st (reg_agent_id request))) (\<lambda>previous.
     svc_bind (svc_write (st_UpsertAgent st request)) (\<lambda>_.
     svc_bind (svc_read (st_FindAgent st (reg_agent_id request))) (\<lambda>current.
     svc_bind (audit_confirmation env st request previous current) (\<lambda>_.
     svc_bind (svc_write (st_RecordAssetSnapshot st (registration_snapshot request)
       (EvRegister request))) (\<lambda>_.
     svc_bind (record_audit env st A_agent_register (reg_request_id request)
       (reg_agent_id request) ''success''
       [(''transport'', ''http2''), (''status'', ''accepted''),
        (''agent_version'', reg_agent_version request), (''hostname'', reg_hostname request),
        (''os'', reg_os request), (''arch'', reg_arch request)]) (\<lambda>_.
     svc_return (Accepted ''accepted'')))))))"

definition HandleRegister ::
    "service_env \<Rightarrow> 's server_store \<Rightarrow> agent_registration \<Rightarrow> ('s, control_event_result) svc" where
  "HandleRegister env st request = svc_try
     (svc_bind (svc_read (st_AgentExists st (reg_agent_id request))) (\<lambda>known.
      case (if known then None else reg_registration_token request) of
        None \<Rightarrow> register_agent env st request
      | Some token \<Rightarrow>
          svc_bind (svc_lift (env_sha256_hex env token)) (\<lambda>token_hash.
          svc_bind (svc_tick (env_now env)) (\<lambda>used_at.
          svc_bind (svc_write (st_ConsumeRegistrationToken st token_hash (reg_os request)
            (reg_arch request) used_at)) (\<lambda>token_used.
          if \<not> token_used
          then svc_bind (record_audit env st A_registration_token_rejected (reg_request_id request)
                 (reg_agent_id request) ''error''
                 [(''status'', ''rejected''), (''message'', ''invalid or expired token'')]) (\<lambda>_.
               svc_return (InvalidArgument ''registration token is invalid or expired''))
          else svc_bind (record_audit env st A_registration_token_used (reg_request_id request)
                 (reg_agent_id request) ''success''
                 [(''status'', ''consumed''), (''platform'', reg_os request),
                  (''arch'', reg_arch request)]) (\<lambda>_.
               register_agent env st request))))))
     InternalError"

definition HandleHeartbeat ::
    "'s server_store \<Rightarrow> agent_heartbeat \<Rightarrow> ('s, control_event_result) svc" where
  "HandleHeartbeat st request = svc_try
     (svc_bind (svc_read (st_AgentExists st (hb_agent_id request))) (\<lambda>known.
      svc_return (if \<not> known then NotFound ''agent not registered'' else Accepted ''ok'')))
     InternalError"

definition HandleAssetSnapshot ::
    "service_env \<Rightarrow> 's server_store \<Rightarrow> asset_snapshot \<Rightarrow> ('s, control_event_result) svc" where
  "HandleAssetSnapshot env st request = svc_try
     (svc_bind (svc_read (st_AgentExists st (as_agent_id request))) (\<lambda>known.
      if \<not> known
      then svc_bind (record_audit env st A_agent_asset_snapshot (as_request_id request)
             (as_agent_id request) ''error''
             [(''transport'', ''http2''), (''error_code'', ErrorCode_ToString E_agent_not_registered),
              (''message'', ''agent not registered'')]) (\<lambda>_.
           svc_return (NotFound ''agent not registered''))
      else
        svc_bind (svc_write (st_RecordAssetSnapshot st request (EvAssetSnapshot request))) (\<lambda>_.
        svc_bind (record_audit env st A_agent_asset_snapshot (as_request_id request)
          (as_agent_id request) ''success''
          [(''transport'', ''http2''), (''status'', ''accepted''), (''hostname'', as_hostname request),
           (''os'', as_os request), (''arch'', as_arch request),
           (''agent_version'', as_agent_version request)]) (\<lambda>_.
        svc_return (Accepted ''accepted'')))))
     InternalError"

definition HandleAgentEvent ::
    "service_env \<Rightarrow> 's server_store \<Rightarrow> agent_event \<Rightarrow> ('s, control_event_result) svc" where
  "HandleAgentEvent env st event =
     (if cer_status (ValidateEnvelope event) \<noteq> kAccepted then svc_return (ValidateEnvelope event)
      else case event of
        EvRegister payload \<Rightarrow> HandleRegister env st payload
      | EvHeartbeat payload \<Rightarrow> HandleHeartbeat st payload
      | EvAssetSnapshot payload \<Rightarrow> HandleAssetSnapshot env st payload
      | EvTaskRunning payload \<Rightarrow> HandleTaskRunning env st payload
      | EvTaskResult payload \<Rightarrow> HandleTaskResult env st payload)"


subsection \<open>The service only moves the store along\<close>

definition svc_moves :: "('s \<Rightarrow> 's \<Rightarrow> bool) \<Rightarrow> ('s, 'a) svc \<Rightarrow> bool" where
  "svc_moves runs m \<longleftrightarrow> (\<forall>n s. runs s (snd (snd (m (n, s)))))"

locale server_store_steps =
  fixes st :: "'s server_store"
    and runs :: "'s \<Rightarrow> 's \<Rightarrow> bool"
  assumes runs_refl: "runs s s"
    and runs_trans: "runs s s' \<Longrightarrow> runs s' s'' \<Longrightarrow> runs s s''"
    and consume: "runs s (snd (st_ConsumeRegistrationToken st h pl ar now s))"
    and upsert: "runs s (snd (st_UpsertAgent st reg s))"
    and snapshot: "runs s (snd (st_RecordAssetSnapshot st sn ev s))"
    and audit: "runs s (snd (st_RecordAuditEvent st au s))"
    and mark_running: "runs s (snd (st_MarkTaskRunning st run s))"
    and result: "runs s (snd (st_RecordTaskResult st res rb eb s))"
begin

lemma moves_bind:
  assumes "svc_moves runs m" and "\<And>a. svc_moves runs (f a)"
  shows "svc_moves runs (svc_bind m f)"
  unfolding svc_moves_def
proof (intro allI)
  fix n s
  obtain r n' s' where m: "m (n, s) = (r, (n', s'))"
    by (metis prod.exhaust)
  have "runs s s'"
    using assms(1) m unfolding svc_moves_def by (metis snd_conv)
  moreover have "runs s' (snd (snd (f a (n', s'))))" for a
    using assms(2) unfolding svc_moves_def by blast
  ultimately show "runs s (snd (snd (svc_bind m f (n, s))))"
    using m by (cases r) (auto simp: svc_bind_def intro: runs_trans)
qed

lemma moves_simple [simp]:
  "svc_moves runs (svc_return x)"
  "svc_moves runs (svc_lift r)"
  "svc_moves runs (svc_read g)"
  "svc_moves runs (svc_tick t)"
  by (simp_all add: svc_moves_def svc_defs runs_refl)

lemma moves_write: "(\<And>s. runs s (snd (f s))) \<Longrightarrow> svc_moves runs (svc_write f)"
  by (simp add: svc_moves_def svc_write_def split_beta)

lemma moves_try: "svc_moves runs m \<Longrightarrow> svc_moves runs (svc_try m h)"
  unfolding svc_moves_def svc_try_def by (auto simp: split_beta split: sum.split exn.split)

lemma moves_writes [simp]:
  "svc_moves runs (svc_write (st_ConsumeRegistrationToken st h pl ar now))"
  "svc_moves runs (svc_write (st_UpsertAgent st reg))"
  "svc_moves runs (svc_write (st_RecordAssetSnapshot st sn ev))"
  "svc_moves runs (svc_write (st_RecordAuditEvent st au))"
  "svc_moves runs (svc_write (st_MarkTaskRunning st run))"
  "svc_moves runs (svc_write (st_RecordTaskResult st res rb eb))"
  by (auto intro: moves_write consume upsert snapshot audit mark_running result)

lemma moves_audit [simp]: "svc_moves runs (record_audit env st ty rid aid out entries)"
  by (simp add: record_audit_def moves_bind)

lemma moves_confirmation [simp]: "svc_moves runs (audit_confirmation env st reg prev cur)"
  by (simp add: audit_confirmation_def split: option.split)

lemma moves_register_agent [simp]: "svc_moves runs (register_agent env st reg)"
  by (simp add: register_agent_def moves_bind)

lemma moves_handlers:
  "svc_moves runs (HandleRegister env st reg)"
  "svc_moves runs (HandleHeartbeat st hb)"
  "svc_moves runs (HandleAssetSnapshot env st sn)"
  "svc_moves runs (HandleTaskRunning env st run)"
  "svc_moves runs (HandleTaskResult env st res)"
  by (simp_all add: HandleRegister_def HandleHeartbeat_def HandleAssetSnapshot_def
      HandleTaskRunning_def HandleTaskResult_def moves_try moves_bind
      split: option.split sum.split prod.split)

lemma event_moves: "svc_moves runs (HandleAgentEvent env st event)"
  by (simp add: HandleAgentEvent_def moves_handlers split: agent_event.split)

end

end
