(* ===== verification/Service_Tasks.thy ===== *)
theory Service_Tasks
  imports Control_Service Task_Outcomes Agent_Upgrades Package_Catalogue
begin

section \<open>The control service on the server's database\<close>

text \<open>
  What the handlers of \<open>Control_Service\<close> do when the store is the database: they only make steps of the
  database, a task is started or finished exactly when the store's view of it allows it, and a
  registration with a token that is not admitted leaves no agent behind.  The task handlers are
  studied in the locale \<open>task_store\<close>, the contract of the three task operations and the audit trail.
\<close>

declare TaskState_ToString.simps [simp del]

interpretation db_steps: server_store_steps "db_store e" "db_runs e" for e
proof
  show "db_runs e s s" for s
    by (rule db_runs.refl)
  show "db_runs e s s'' " if "db_runs e s s'" "db_runs e s' s''" for s s' s''
    using that(2,1) by (induction rule: db_runs.induct) (auto intro: db_runs.intros)
qed (simp_all add: db_store_def db_runs_one db_step.intros)

subsection \<open>Tasks: the contract of a store\<close>

locale task_store =
  fixes st :: "'s server_store"
    and ready :: "'s \<Rightarrow> bool"
    and states :: "'s \<Rightarrow> string \<Rightarrow> task_state option"
    and audit_ids :: "'s \<Rightarrow> string set"
  assumes find: "ready s \<Longrightarrow> \<exists>r. st_FindTaskById st i s = Inr r \<and> map_option st_state r = states s i"
    and mark: "ready s \<Longrightarrow> states s (run_task_id q) = Some TS_assigned \<Longrightarrow>
      \<exists>s'. st_MarkTaskRunning st q s = (Inr (), s') \<and> ready s' \<and>
        states s' = (states s)(run_task_id q \<mapsto> TS_running) \<and> audit_ids s' = audit_ids s"
    and finish: "ready s \<Longrightarrow> states s (res_task_id res) = Some x \<Longrightarrow> \<not> IsTerminalTaskState x \<Longrightarrow>
      \<exists>s'. st_RecordTaskResult st res rb eb s = (Inr (), s') \<and> ready s' \<and>
        states s' = (states s)(res_task_id res \<mapsto> terminal_state_of (res_status res)) \<and>
        audit_ids s' = audit_ids s"
    and trail: "ready s \<Longrightarrow> ae_audit_id a \<notin> audit_ids s \<Longrightarrow>
      \<exists>s'. st_RecordAuditEvent st a s = (Inr (), s') \<and> ready s' \<and> states s' = states s \<and>
        audit_ids s' = insert (ae_audit_id a) (audit_ids s)"
begin

lemma audited:
  assumes "ready s" and "env_uuid env n \<notin> audit_ids s"
    and "env_audit_payload env (map (\<lambda>(k, v). (k, PayloadText v)) entries) = Inr payload"
  shows "\<exists>s'. record_audit env st ty rid aid out entries (n, s) = (Inr (), (n + 2, s')) \<and>
    ready s' \<and> states s' = states s \<and> audit_ids s' = insert (env_uuid env n) (audit_ids s)"
proof -
  let ?a = "\<lparr>ae_audit_id = env_uuid env n, ae_occurred_at = env_now env (n + 1), ae_agent_id = Some aid,
      ae_request_id = rid, ae_event_type = ty, ae_result = out, ae_payload_json = payload\<rparr>"
  from trail [OF assms(1), of ?a] assms(2) obtain s' where
    "st_RecordAuditEvent st ?a s = (Inr (), s')" "ready s'" "states s' = states s"
    "audit_ids s' = insert (env_uuid env n) (audit_ids s)"
    by auto
  then show ?thesis
    using assms(3) by (auto simp: record_audit_def svc_defs)
qed

text \<open>When a request to start a task is accepted, and what it does.\<close>

lemma running_handled:
  assumes "ready s" and "env_uuid env n \<notin> audit_ids s"
    and "\<And>fs. \<exists>p. env_audit_payload env fs = Inr p" and "run_task_id q \<noteq> []"
  shows "\<exists>result n' s'. HandleTaskRunning env st q (n, s) = (Inr result, (n', s')) \<and>
    (cer_status result = kAccepted \<longleftrightarrow>
      (\<exists>t. st_FindTaskById st (run_task_id q) s = Inr (Some t) \<and>
         task_agent_id (st_task t) = run_agent_id q \<and> task_task_type (st_task t) = run_task_type q \<and>
         st_state t = TS_assigned)) \<and>
    (if cer_status result = kAccepted
     then states s' = (states s)(run_task_id q \<mapsto> TS_running) \<and>
       audit_ids s' = insert (env_uuid env n) (audit_ids s)
     else cer_status result \<noteq> kInternalError \<and> s' = s)"
proof -
  obtain r where r: "st_FindTaskById st (run_task_id q) s = Inr r" "map_option st_state r = states s (run_task_id q)"
    using find [OF assms(1)] by blast
  show ?thesis
  proof (cases "\<exists>t. r = Some t \<and> task_agent_id (st_task t) = run_agent_id q \<and>
      task_task_type (st_task t) = run_task_type q \<and> st_state t = TS_assigned")
    case False
    with assms(4) r show ?thesis
      by (cases r) (auto simp: HandleTaskRunning_def svc_try_def svc_defs)
  next
    case True
    then obtain t where t: "r = Some t" "task_agent_id (st_task t) = run_agent_id q"
        "task_task_type (st_task t) = run_task_type q" "st_state t = TS_assigned"
      by blast
    with mark [OF assms(1), of q] r obtain s1 where s1: "st_MarkTaskRunning st q s = (Inr (), s1)"
        "ready s1" "states s1 = (states s)(run_task_id q \<mapsto> TS_running)" "audit_ids s1 = audit_ids s"
      by auto
    obtain p where p: "env_audit_payload env (map (\<lambda>(k, v). (k, PayloadText v))
        [(''transport'', ''http2''), (''task_id'', run_task_id q),
         (''task_type'', TaskType_ToString (run_task_type q)), (''status'', ''running'')]) = Inr p"
      using assms(3) by blast
    from audited [OF s1(2) _ p] assms(2) s1(4) obtain s2 where
      "record_audit env st A_task_running (run_request_id q) (run_agent_id q) ''success''
        [(''transport'', ''http2''), (''task_id'', run_task_id q),
         (''task_type'', TaskType_ToString (run_task_type q)), (''status'', ''running'')] (n, s1) =
        (Inr (), (n + 2, s2))" "states s2 = states s1"
      "audit_ids s2 = insert (env_uuid env n) (audit_ids s1)"
      by metis
    with assms(4) r t s1 show ?thesis
      by (simp add: HandleTaskRunning_def svc_try_def svc_defs)
  qed
qed

text \<open>The same for a result.\<close>

lemma result_handled:
  assumes "ready s" and "env_uuid env n \<notin> audit_ids s"
    and "\<And>fs. \<exists>p. env_audit_payload env fs = Inr p" and "res_task_id q \<noteq> []"
    and "result_blobs env q = Inr blobs"
  shows "\<exists>result n' s'. HandleTaskResult env st q (n, s) = (Inr result, (n', s')) \<and>
    (cer_status result = kAccepted \<longleftrightarrow> (\<exists>b. blobs = Inr b) \<and>
      (\<exists>t. st_FindTaskById st (res_task_id q) s = Inr (Some t) \<and>
         task_agent_id (st_task t) = res_agent_id q \<and> task_task_type (st_task t) = res_task_type q \<and>
         \<not> IsTerminalTaskState (st_state t))) \<and>
    (if cer_status result = kAccepted
     then states s' = (states s)(res_task_id q \<mapsto> terminal_state_of (res_status q)) \<and>
       audit_ids s' = insert (env_uuid env n) (audit_ids s)
     else cer_status result \<noteq> kInternalError \<and> s' = s)"
proof (cases blobs)
  case (Inl rejected)
  with assms(5) have "cer_status rejected = kInvalidArgument"
    by (auto simp: result_blobs_def bind_res_Inr_iff split: if_splits option.splits)
  with Inl assms(4,5) show ?thesis
    by (simp add: HandleTaskResult_def svc_defs)
next
  case (Inr b)
  obtain rb eb where b: "b = (rb, eb)"
    by fastforce
  obtain r where r: "st_FindTaskById st (res_task_id q) s = Inr r" "map_option st_state r = states s (res_task_id q)"
    using find [OF assms(1)] by blast
  show ?thesis
  proof (cases "\<exists>t. r = Some t \<and> task_agent_id (st_task t) = res_agent_id q \<and>
      task_task_type (st_task t) = res_task_type q \<and> \<not> IsTerminalTaskState (st_state t)")
    case False
    with assms(4,5) r Inr b show ?thesis
      by (cases r) (auto simp: HandleTaskResult_def svc_try_def svc_defs)
  next
    case True
    then obtain t where t: "r = Some t" "task_agent_id (st_task t) = res_agent_id q"
        "task_task_type (st_task t) = res_task_type q" "\<not> IsTerminalTaskState (st_state t)"
      by blast
    with finish [OF assms(1), of q "st_state t" rb eb] r obtain s1 where
      s1: "st_RecordTaskResult st q rb eb s = (Inr (), s1)" "ready s1"
        "states s1 = (states s)(res_task_id q \<mapsto> terminal_state_of (res_status q))"
        "audit_ids s1 = audit_ids s"
      by auto
    let ?entries = "[(''transport'', ''http2''), (''task_id'', res_task_id q),
         (''task_type'', TaskType_ToString (res_task_type q)),
         (''status'', TaskExecutionStatus_ToString (res_status q))]"
    obtain p where p: "env_audit_payload env (map (\<lambda>(k, v). (k, PayloadText v)) ?entries) = Inr p"
      using assms(3) by blast
    from audited [OF s1(2) _ p] assms(2) s1(4) obtain s2 where
      "record_audit env st (AuditEventForTaskResult (res_status q)) (res_request_id q)
        (res_agent_id q) ''success'' ?entries (n, s1) = (Inr (), (n + 2, s2))" "states s2 = states s1"
      "audit_ids s2 = insert (env_uuid env n) (audit_ids s1)"
      by metis
    with assms(4,5) r t s1 Inr b show ?thesis
      by (simp add: HandleTaskResult_def svc_try_def svc_defs)
  qed
qed

end


subsection \<open>The database meets the contract\<close>

definition ready_db :: "ext \<Rightarrow> server_database \<Rightarrow> bool" where
  "ready_db e db \<longleftrightarrow> db_reachable e db \<and> \<not> write_actor_stopping db \<and> faithful_inputs e"

definition audit_ids_of :: "server_database \<Rightarrow> string set" where
  "audit_ids_of db = au_audit_id ` set (db_audit_events db)"

lemma FindTaskById_states:
  assumes "rows_readable e db" and "tasks_ok db"
  shows "\<exists>r. FindTaskById e i db = Inr r \<and> map_option st_state r = task_states db i"
proof (cases "row_by tk_task_id i (db_tasks db)")
  case None
  then show ?thesis
    by (simp add: FindTaskById_def task_states_def)
next
  case (Some r)
  then have "r \<in> set (db_tasks db)"
    by (blast dest: row_by_SomeD)
  moreover obtain t where "ParseStoredTask e r = Inr t"
    using assms(1) calculation unfolding rows_readable_def by blast
  moreover obtain s where "TaskStateFromString (tk_state r) = Some s"
    using assms(2) calculation(1) by (fastforce simp: tasks_ok_def row_state_def)
  ultimately show ?thesis
    using Some by (simp add: FindTaskById_def task_states_def row_state_def)
qed

lemma stopping_outside_tasks: "outside_tasks write_actor_stopping"
  by (simp add: outside_tasks_def NotifyTaskQueueChanged_def Let_def)

lemma task_ops_keep_audit:
  "keeps db_audit_events db (snd (MarkTaskRunning run db))"
  "keeps db_audit_events db (snd (RecordTaskResult res rb eb db))"
proof -
  have prims: "op_rel (keeps db_audit_events) (set_running q)" "op_rel (keeps db_audit_events) (insert_result row)"
    "op_rel (keeps db_audit_events) (set_terminal r)"
    "op_rel (keeps db_audit_events) (db_modify (record_upgrade_outcome r))"
    "op_rel (keeps db_audit_events) (db_modify NotifyTaskQueueChanged)" for q row r
    by (auto simp: op_rel_def keeps_def set_running_def insert_result_def set_terminal_def
        record_upgrade_outcome_def update_upgrading_agent_def fail_dependent_upgrades_def
        NotifyTaskQueueChanged_def db_op_defs Let_def split: sum.splits)
  have "op_rel (keeps db_audit_events) (MarkTaskRunning run)"
    "op_rel (keeps db_audit_events) (RecordTaskResult res rb eb)"
    by (auto simp: MarkTaskRunning_def RecordTaskResult_def intro!: kept.composed prims)
  then show "keeps db_audit_events db (snd (MarkTaskRunning run db))"
    "keeps db_audit_events db (snd (RecordTaskResult res rb eb db))"
    by (simp_all add: op_relD)
qed

interpretation db_tasks: task_store "db_store e" "ready_db e" task_states audit_ids_of for e
proof
  fix s :: server_database and i q res x rb eb a
  assume ready: "ready_db e s"
  then have reachable: "db_reachable e s" and running: "\<not> write_actor_stopping s" and faithful: "faithful_inputs e"
    by (simp_all add: ready_db_def)
  note ok = db_reachable_tasks_ok [OF reachable]
  show "\<exists>r. st_FindTaskById (db_store e) i s = Inr r \<and> map_option st_state r = task_states s i"
    using FindTaskById_states [OF db_reachable_readable [OF faithful reachable] ok] by (simp add: db_store_def)
  show "\<exists>s'. st_MarkTaskRunning (db_store e) q s = (Inr (), s') \<and> ready_db e s' \<and>
      task_states s' = (task_states s)(run_task_id q \<mapsto> TS_running) \<and> audit_ids_of s' = audit_ids_of s"
    if "task_states s (run_task_id q) = Some TS_assigned"
  proof -
    from set_running_outcome(1) [OF ok that] obtain s' where "set_running q s = (Inr (), s')"
      and states: "task_states s' = (task_states s)(run_task_id q \<mapsto> TS_running)"
      by blast
    then have run: "MarkTaskRunning q s = (Inr (), s')"
      using running by (simp add: MarkTaskRunning_def submit_write_def)
    have "ready_db e s'"
      using db_reachable.step [OF reachable db_step.mark_running, of q] running faithful
        task_ops_keepD(3) [OF stopping_outside_tasks, of s q] run by (simp add: ready_db_def keeps_def)
    with states run task_ops_keep_audit(1) [of s q] show ?thesis
      by (simp add: db_store_def audit_ids_of_def keeps_def)
  qed
  show "\<exists>s'. st_RecordTaskResult (db_store e) res rb eb s = (Inr (), s') \<and> ready_db e s' \<and>
      task_states s' = (task_states s)(res_task_id res \<mapsto> terminal_state_of (res_status res)) \<and>
      audit_ids_of s' = audit_ids_of s"
    if "task_states s (res_task_id res) = Some x" "\<not> IsTerminalTaskState x"
  proof -
    obtain r s' where run: "RecordTaskResult res rb eb s = (r, s')"
      by fastforce
    with RecordTaskResult_outcome [OF reachable running, of res rb eb] that
    have r: "r = Inr ()" and states: "task_states s' = (task_states s)(res_task_id res \<mapsto> terminal_state_of (res_status res))"
      by (cases r; auto)+
    have "ready_db e s'"
      using db_reachable.step [OF reachable db_step.record_result, of res rb eb] running faithful
        task_ops_keepD(7) [OF stopping_outside_tasks, of s res rb eb] run by (simp add: ready_db_def keeps_def)
    with states run r task_ops_keep_audit(2) [of s res rb eb] show ?thesis
      by (simp add: db_store_def audit_ids_of_def keeps_def)
  qed
  show "\<exists>s'. st_RecordAuditEvent (db_store e) a s = (Inr (), s') \<and> ready_db e s' \<and>
      task_states s' = task_states s \<and> audit_ids_of s' = insert (ae_audit_id a) (audit_ids_of s)"
    if "ae_audit_id a \<notin> audit_ids_of s"
  proof -
    let ?s' = "s\<lparr>db_audit_events := db_audit_events s @ [audit_row_of a]\<rparr>"
    have run: "RecordAuditEvent a s = (Inr (), ?s')"
      using that running by (force simp: RecordAuditEvent_def submit_write_def insert_audit_def
          rows_insert_def audit_ids_of_def audit_row_of_def)
    then have "ready_db e ?s'"
      using db_reachable.step [OF reachable db_step.record_audit, of a] running faithful
      by (simp add: ready_db_def)
    with run show ?thesis
      by (auto simp: db_store_def audit_ids_of_def audit_row_of_def task_states_def fun_eq_iff)
  qed
qed

subsection \<open>Properties\<close>

text \<open>
  A request to start a task.  On a running reachable database \<open>HandleTaskRunning\<close> accepts it exactly when
  the task is stored for this agent with this type and is assigned; then the task is running, no
  other task changes and one audit event is recorded; otherwise nothing at all changes.  It never
  answers with an internal error.
\<close>

theorem task_running_handled:
  assumes "db_reachable e db" and "\<not> write_actor_stopping db" and "faithful_inputs e"
    and "env_uuid env n \<notin> audit_ids_of db" and "\<And>fs. \<exists>p. env_audit_payload env fs = Inr p"
    and "run_task_id q \<noteq> []"
  shows "\<exists>result n' db'. HandleTaskRunning env (db_store e) q (n, db) = (Inr result, (n', db')) \<and>
    (cer_status result = kAccepted \<longleftrightarrow>
      (\<exists>t. FindTaskById e (run_task_id q) db = Inr (Some t) \<and>
         task_agent_id (st_task t) = run_agent_id q \<and> task_task_type (st_task t) = run_task_type q \<and>
         st_state t = TS_assigned)) \<and>
    (if cer_status result = kAccepted
     then task_states db' = (task_states db)(run_task_id q \<mapsto> TS_running) \<and>
       audit_ids_of db' = insert (env_uuid env n) (audit_ids_of db)
     else cer_status result \<noteq> kInternalError \<and> db' = db)"
  using db_tasks.running_handled [of e db env n q] assms by (simp add: ready_db_def db_store_def)

definition demo_env :: service_env where
  "demo_env =
     \<lparr>env_uuid = (\<lambda>n. replicate n CHR ''u''), env_now = (\<lambda>_. ''3''), env_sha256_hex = (\<lambda>_. Inr ''hash''),
      env_wire = demo_wire, env_audit_payload = (\<lambda>_. Inr ''{}'')\<rparr>"

lemma demo_find_claimed:
  "FindTaskById demo_ext ''t1'' demo_claimed =
     Inr (Some \<lparr>st_task = demo_task, st_state = TS_assigned, st_assigned_at = Some ''2'',
                st_completed_at = None\<rparr>)"
proof -
  have "ParseStoredTask demo_ext ((task_values demo_task [] None)\<lparr>tk_state := state_text TS_assigned,
      tk_assigned_at := Some ''2''\<rparr>) = Inr demo_task"
    using demo_parse by (simp add: ParseStoredTask_def)
  then show ?thesis
    by (simp add: FindTaskById_def demo_claimed_tables row_by_def) (simp add: task_values_def)
qed

lemma demo_claimed_ready:
  "db_reachable demo_ext demo_claimed" "\<not> write_actor_stopping demo_claimed"
  "env_uuid demo_env 5 \<notin> audit_ids_of demo_claimed"
proof -
  show "db_reachable demo_ext demo_claimed"
    unfolding demo_claimed_def by (rule db_reachable.step [OF demo_queue_reachable db_step.claim])
  show "\<not> write_actor_stopping demo_claimed"
    by (simp add: demo_claimed_def demo_claim demo_queue_tables)
  show "env_uuid demo_env 5 \<notin> audit_ids_of demo_claimed"
    by (simp add: demo_claimed_def demo_claim audit_ids_of_def demo_env_def numeral_eq_Suc)
qed

theorem task_running_handled_witness:
  "\<exists>result n' db'. HandleTaskRunning demo_env (db_store demo_ext) demo_running (5, demo_claimed) =
       (Inr result, (n', db')) \<and> cer_status result = kAccepted \<and>
     task_states db' ''t1'' = Some TS_running"
proof -
  have "\<exists>t. FindTaskById demo_ext (run_task_id demo_running) demo_claimed = Inr (Some t) \<and>
      task_agent_id (st_task t) = run_agent_id demo_running \<and>
      task_task_type (st_task t) = run_task_type demo_running \<and> st_state t = TS_assigned"
    by (simp add: demo_running_def demo_find_claimed demo_task_def)
  moreover have "\<exists>p. env_audit_payload demo_env fs = Inr p" for fs
    by (simp add: demo_env_def)
  moreover have "run_task_id demo_running \<noteq> []" "run_task_id demo_running = ''t1''"
    by (simp_all add: demo_running_def)
  ultimately show ?thesis
    using task_running_handled [OF demo_claimed_ready(1,2) demo_ext_laws(2) demo_claimed_ready(3),
        of demo_running] by auto
qed

text \<open>
  A task result.  On a running reachable database \<open>HandleTaskResult\<close> accepts a result whose blobs can be
  made exactly when it carries the data its status asks for and the task is stored for this agent
  with this type and is not finished; then the task enters the terminal state of the result and one
  audit event is recorded; otherwise nothing at all changes.
\<close>

theorem task_result_handled:
  assumes "db_reachable e db" and "\<not> write_actor_stopping db" and "faithful_inputs e"
    and "env_uuid env n \<notin> audit_ids_of db" and "\<And>fs. \<exists>p. env_audit_payload env fs = Inr p"
    and "res_task_id q \<noteq> []" and "result_blobs env q = Inr blobs"
  shows "\<exists>result n' db'. HandleTaskResult env (db_store e) q (n, db) = (Inr result, (n', db')) \<and>
    (cer_status result = kAccepted \<longleftrightarrow>
      (if res_status q = TE_succeeded then res_result q \<noteq> None else res_error q \<noteq> None) \<and>
      (\<exists>t. FindTaskById e (res_task_id q) db = Inr (Some t) \<and>
         task_agent_id (st_task t) = res_agent_id q \<and> task_task_type (st_task t) = res_task_type q \<and>
         \<not> IsTerminalTaskState (st_state t))) \<and>
    (if cer_status result = kAccepted
     then task_states db' = (task_states db)(res_task_id q \<mapsto> terminal_state_of (res_status q)) \<and>
       audit_ids_of db' = insert (env_uuid env n) (audit_ids_of db)
     else cer_status result \<noteq> kInternalError \<and> db' = db)"
proof -
  have "(\<exists>b. blobs = Inr b) \<longleftrightarrow>
      (if res_status q = TE_succeeded then res_result q \<noteq> None else res_error q \<noteq> None)"
    using assms(7) by (auto simp: result_blobs_def bind_res_Inr_iff split: if_splits option.splits)
  then show ?thesis
    using db_tasks.result_handled [of e db env n q blobs] assms by (simp add: ready_db_def db_store_def)
qed

definition demo_inventory_done :: task_result where
  "demo_inventory_done = demo_result\<lparr>res_result := Some (CollectBasicInventoryResult empty_inventory)\<rparr>"

theorem task_result_handled_witness:
  "\<exists>result n' db'. HandleTaskResult demo_env (db_store demo_ext) demo_inventory_done (5, demo_claimed) =
       (Inr result, (n', db')) \<and> cer_status result = kAccepted \<and>
     task_states db' ''t1'' = Some TS_succeeded"
proof -
  have "result_blobs demo_env demo_inventory_done = Inr (Inr (Some ''I'', None))"
    by (simp add: result_blobs_def demo_inventory_done_def demo_result_def demo_env_def demo_wire_def
        SerializeTaskResultDataBlob_def SerializeProto_def Let_def)
  moreover have "\<exists>t. FindTaskById demo_ext (res_task_id demo_inventory_done) demo_claimed = Inr (Some t) \<and>
      task_agent_id (st_task t) = res_agent_id demo_inventory_done \<and>
      task_task_type (st_task t) = res_task_type demo_inventory_done \<and> \<not> IsTerminalTaskState (st_state t)"
    by (simp add: demo_inventory_done_def demo_result_def demo_find_claimed demo_task_def)
  moreover have "\<exists>p. env_audit_payload demo_env fs = Inr p" for fs
    by (simp add: demo_env_def)
  moreover have "res_task_id demo_inventory_done \<noteq> []" "res_task_id demo_inventory_done = ''t1''"
    "res_status demo_inventory_done = TE_succeeded" "res_result demo_inventory_done \<noteq> None"
    by (simp_all add: demo_inventory_done_def demo_result_def)
  ultimately show ?thesis
    using task_result_handled [OF demo_claimed_ready(1,2) demo_ext_laws(2) demo_claimed_ready(3),
        of demo_inventory_done] by (auto simp: terminal_state_of_def)
qed

text \<open>
  Whatever event arrives and whatever becomes of it, the service leaves the database in a state that
  its own operations lead to: every invariant of reachable databases holds after it.
\<close>

theorem service_makes_database_steps:
  assumes "HandleAgentEvent env (db_store e) event (n, db) = (r, (n', db'))"
  shows "db_runs e db db'"
  using db_steps.event_moves [of e env event] assms unfolding svc_moves_def by (metis snd_conv)


theorem service_makes_database_steps_witness:
  "\<exists>r n' db'. HandleAgentEvent demo_env (db_store demo_ext) demo_heartbeat (0, demo_queue) = (r, (n', db')) \<and>
     db_runs demo_ext demo_queue db'"
proof -
  obtain r n' db' where
    run: "HandleAgentEvent demo_env (db_store demo_ext) demo_heartbeat (0, demo_queue) = (r, (n', db'))"
    by (metis prod.exhaust)
  with service_makes_database_steps [OF run] show ?thesis
    by blast
qed

subsection \<open>Registration\<close>

lemma record_audit_db:
  assumes "\<not> write_actor_stopping db" and "env_uuid env n \<notin> audit_ids_of db"
    and "\<And>fs. env_audit_payload env fs = Inr (payload fs)"
  shows "\<exists>row. au_audit_id row = env_uuid env n \<and>
    record_audit env (db_store e) ty rid aid out entries (n, db) =
      (Inr (), (n + 2, db\<lparr>db_audit_events := db_audit_events db @ [row]\<rparr>))"
  using assms
  by (force simp: record_audit_def svc_defs db_store_def RecordAuditEvent_def submit_write_def
      insert_audit_def rows_insert_def audit_ids_of_def audit_row_of_def)

lemma register_agent_db:
  assumes "\<not> write_actor_stopping db" and "env_uuid env n \<notin> audit_ids_of db"
    and "\<And>fs. env_audit_payload env fs = Inr (payload fs)"
    and "FindAgent (reg_agent_id reg) db = None"
    and "SerializeAgentEventBlob (ext_wire e) (EvRegister reg) = Inr blob"
    and "ext_dump_strings e [] = Inr dump"
  shows "\<exists>db'. register_agent env (db_store e) reg (n, db) = (Inr (Accepted ''accepted''), (n + 2, db')) \<and>
    db_agents db' = db_agents db @ [registered_agent reg] \<and>
    db_registration_tokens db' = db_registration_tokens db"
proof -
  let ?db1 = "db\<lparr>db_agents := db_agents db @ [registered_agent reg]\<rparr>"
  have unknown: "\<forall>a\<in>set (db_agents db). ag_agent_id a \<noteq> reg_agent_id reg"
    using assms(4) by (simp add: FindAgent_def row_by_None_iff)
  have upsert: "UpsertAgent reg db = (Inr (), ?db1)"
    using assms(1) unknown by (auto simp: UpsertAgent_def submit_write_def rows_upsert_def registered_agent_def)
  obtain db2 where snapshot: "RecordAssetSnapshot e (registration_snapshot reg) (EvRegister reg) ?db1 = (Inr (), db2)"
    and db2: "db_agents db2 = db_agents ?db1" "db_audit_events db2 = db_audit_events db"
      "db_registration_tokens db2 = db_registration_tokens db" "\<not> write_actor_stopping db2"
    using assms(1,5,6)
    by (simp add: RecordAssetSnapshot_def submit_write_def insert_snapshot_def db_op_defs
        registration_snapshot_def Let_def)
  have fresh: "env_uuid env n \<notin> audit_ids_of db2"
    using assms(2) db2(2) by (simp add: audit_ids_of_def)
  from record_audit_db [where env = env and e = e, OF db2(4) fresh assms(3)]
  obtain row where "record_audit env (db_store e) A_agent_register (reg_request_id reg) (reg_agent_id reg) ''success''
       [(''transport'', ''http2''), (''status'', ''accepted''),
        (''agent_version'', reg_agent_version reg), (''hostname'', reg_hostname reg),
        (''os'', reg_os reg), (''arch'', reg_arch reg)] (n, db2) =
      (Inr (), (n + 2, db2\<lparr>db_audit_events := db_audit_events db2 @ [row]\<rparr>))"
    by blast
  with assms(4) upsert snapshot db2 show ?thesis
    by (simp add: register_agent_def svc_defs audit_confirmation_def db_store_def)
qed

text \<open>
  The registration of an unknown agent that presents a token.  It is accepted exactly when one token admits
  it; then the agent is added, online with what it reported; otherwise it is refused and the agents'
  table stays as it is.  In both cases every token that admits it counts one more use, also when
  there are two and the registration is refused for that.
\<close>

theorem register_with_token:
  assumes "\<not> write_actor_stopping db" and "FindAgent (reg_agent_id reg) db = None"
    and "reg_registration_token reg = Some token" and "env_sha256_hex env token = Inr h"
    and "inj (env_uuid env)" and "\<And>k. env_uuid env k \<notin> audit_ids_of db"
    and "\<And>fs. env_audit_payload env fs = Inr (payload fs)"
    and "SerializeAgentEventBlob (ext_wire e) (EvRegister reg) = Inr blob" and "ext_dump_strings e [] = Inr dump"
  shows "\<exists>result n' db'. HandleRegister env (db_store e) reg (n, db) = (Inr result, (n', db')) \<and>
    db_registration_tokens db' = rows_update (token_admits h (reg_os reg) (reg_arch reg) (env_now env n))
      use_token (db_registration_tokens db) \<and>
    (if rows_count (token_admits h (reg_os reg) (reg_arch reg) (env_now env n)) (db_registration_tokens db) = 1
     then result = Accepted ''accepted'' \<and> db_agents db' = db_agents db @ [registered_agent reg]
     else result = InvalidArgument ''registration token is invalid or expired'' \<and> db_agents db' = db_agents db)"
proof -
  let ?admits = "token_admits h (reg_os reg) (reg_arch reg) (env_now env n)"
  let ?db1 = "db\<lparr>db_registration_tokens := rows_update ?admits use_token (db_registration_tokens db)\<rparr>"
  have unknown: "\<not> AgentExists (reg_agent_id reg) db"
    using assms(2) by (auto simp: AgentExists_def FindAgent_def row_by_None_iff)
  have consume: "ConsumeRegistrationToken h (reg_os reg) (reg_arch reg) (env_now env n) db =
      (Inr (rows_count ?admits (db_registration_tokens db) = 1), ?db1)"
    using assms(1) by (simp add: ConsumeRegistrationToken_def submit_write_def Let_def)
  have db1: "\<not> write_actor_stopping ?db1" "env_uuid env (n + 1) \<notin> audit_ids_of ?db1"
    using assms(1,6) by (simp_all add: audit_ids_of_def)
  have start: "HandleRegister env (db_store e) reg (n, db) = svc_try
      (if rows_count ?admits (db_registration_tokens db) = 1
       then svc_bind (record_audit env (db_store e) A_registration_token_used (reg_request_id reg)
                 (reg_agent_id reg) ''success''
                 [(''status'', ''consumed''), (''platform'', reg_os reg), (''arch'', reg_arch reg)]) (\<lambda>_.
               register_agent env (db_store e) reg)
       else svc_bind (record_audit env (db_store e) A_registration_token_rejected (reg_request_id reg)
                 (reg_agent_id reg) ''error''
                 [(''status'', ''rejected''), (''message'', ''invalid or expired token'')]) (\<lambda>_.
               svc_return (InvalidArgument ''registration token is invalid or expired'')))
      InternalError (n + 1, ?db1)"
    using assms(3,4) unknown consume
    by (simp add: HandleRegister_def svc_try_def svc_bind_def svc_read_def svc_lift_def svc_tick_def
        svc_write_def db_store_def)
  show ?thesis
  proof (cases "rows_count ?admits (db_registration_tokens db) = 1")
    case False
    from record_audit_db [where env = env and e = e, OF db1 assms(7)]
    obtain row where "record_audit env (db_store e) A_registration_token_rejected (reg_request_id reg)
                 (reg_agent_id reg) ''error''
                 [(''status'', ''rejected''), (''message'', ''invalid or expired token'')] (n + 1, ?db1) =
        (Inr (), (n + 1 + 2, ?db1\<lparr>db_audit_events := db_audit_events ?db1 @ [row]\<rparr>))"
      by blast
    with False start show ?thesis
      by (simp add: svc_try_def svc_bind_def svc_return_def)
  next
    case True
    from record_audit_db [where env = env and e = e, OF db1 assms(7)]
    obtain row where row: "au_audit_id row = env_uuid env (n + 1)"
      and used: "record_audit env (db_store e) A_registration_token_used (reg_request_id reg)
                 (reg_agent_id reg) ''success''
                 [(''status'', ''consumed''), (''platform'', reg_os reg), (''arch'', reg_arch reg)] (n + 1, ?db1) =
        (Inr (), (n + 1 + 2, ?db1\<lparr>db_audit_events := db_audit_events ?db1 @ [row]\<rparr>))"
      by blast
    let ?db2 = "?db1\<lparr>db_audit_events := db_audit_events ?db1 @ [row]\<rparr>"
    have "env_uuid env (n + 1 + 2) \<noteq> env_uuid env (n + 1)"
      using assms(5) by (auto dest: injD)
    then have "\<not> write_actor_stopping ?db2" "env_uuid env (n + 1 + 2) \<notin> audit_ids_of ?db2"
      "FindAgent (reg_agent_id reg) ?db2 = None"
      using assms(1,2) assms(6) [of "n + 1 + 2"] row by (auto simp: audit_ids_of_def FindAgent_def)
    from register_agent_db [where env = env and e = e, OF this(1,2) assms(7) this(3) assms(8,9)]
    obtain db' where "register_agent env (db_store e) reg (n + 1 + 2, ?db2) =
        (Inr (Accepted ''accepted''), (n + 1 + 2 + 2, db'))"
      "db_agents db' = db_agents db @ [registered_agent reg]"
      "db_registration_tokens db' = db_registration_tokens ?db1"
      by auto
    with True start used show ?thesis
      by (simp add: svc_try_def svc_bind_def)
  qed
qed

definition demo_registration :: agent_registration where
  "demo_registration =
     \<lparr>reg_protocol_version = ''v1'', reg_request_id = ''r'', reg_agent_id = ''a'', reg_occurred_at = ''3'',
      reg_agent_version = ''0.1.0'', reg_hostname = ''h'', reg_os = ''linux'', reg_arch = ''x86_64'',
      reg_registration_token = Some ''secret''\<rparr>"

definition demo_recording_ext :: ext where
  "demo_recording_ext = demo_ext\<lparr>ext_wire := demo_wire\<lparr>w_ser_agent_event := (\<lambda>_. Some ''R'')\<rparr>\<rparr>"

theorem register_with_token_witness:
  "\<exists>n' db'. HandleRegister demo_env (db_store demo_recording_ext) demo_registration (0, demo_token_store) =
       (Inr (Accepted ''accepted''), (n', db')) \<and>
     db_agents db' = [registered_agent demo_registration] \<and>
     db_registration_tokens db' = [use_token demo_token]"
proof -
  have store: "demo_token_store = fresh_database\<lparr>db_registration_tokens := [demo_token]\<rparr>"
    by (simp add: demo_token_store_def CreateRegistrationToken_def submit_write_def rows_insert_def)
  have admits: "token_admits ''hash'' (reg_os demo_registration) (reg_arch demo_registration)
      (env_now demo_env 0) demo_token"
    by (simp add: token_admits_def demo_token_def demo_registration_def demo_env_def list_le_def)
  have "inj (env_uuid demo_env)"
    by (auto simp: demo_env_def inj_def dest: arg_cong [where f = length])
  moreover have "SerializeAgentEventBlob (ext_wire demo_recording_ext) (EvRegister demo_registration) = Inr ''R''"
    "ext_dump_strings demo_recording_ext [] = Inr ''[]''"
    by (simp_all add: demo_recording_ext_def demo_ext_def SerializeAgentEventBlob_def SerializeProto_def)
  moreover have "env_audit_payload demo_env fs = Inr ''{}''" for fs
    by (simp add: demo_env_def)
  moreover have "reg_registration_token demo_registration = Some ''secret''"
    "env_sha256_hex demo_env ''secret'' = Inr ''hash''"
    by (simp_all add: demo_registration_def demo_env_def)
  ultimately show ?thesis
    using register_with_token [of demo_token_store demo_registration "''secret''" demo_env "''hash''"
        "\<lambda>_. ''{}''" demo_recording_ext "''R''" "''[]''" 0] admits
    by (auto simp: store FindAgent_def row_by_def audit_ids_of_def rows_count_def rows_update_def)
qed

end
