(* ===== verification/Control_Dispatcher.thy ===== *)
theory Control_Dispatcher
  imports Service_Tasks Connection_Registry Frame_Codec
begin

section \<open>From received bytes to handled events (apps/server/src/control_dispatcher.cpp)\<close>

text \<open>
  A dispatcher belongs to one control connection.  It feeds the received bytes to its frame decoder,
  decodes every complete frame as an agent event, hands the events to the control service in order
  and notes accepted registrations and heartbeats in the connection registry.  When a frame is
  oversize or one payload does not decode, none of the events of that call are handled.
\<close>

record dispatcher =
  dp_connection_id :: string
  dp_has_registry :: bool
  dp_decoder :: frame_decoder

text \<open>The state a dispatcher works on: the counter of the service, the store and the registry.\<close>

type_synonym 's dispatch_world = "(nat \<times> 's) \<times> registry"

fun exn_what :: "exn \<Rightarrow> string" where
  "exn_what (Invalid_argument m) = m"
| "exn_what (Runtime_error m) = m"
| "exn_what (Sql_error m) = m"
| "exn_what (Json_error m) = m"
| "exn_what (Undefined_behaviour m) = m"

definition RecordAcceptedEvent :: "dispatcher \<Rightarrow> agent_event \<Rightarrow> registry \<Rightarrow> registry result" where
  "RecordAcceptedEvent d event reg =
     (if \<not> dp_has_registry d \<or> dp_connection_id d = [] then Inr reg
      else case event of
        EvRegister _ \<Rightarrow>
          BindAgent (dp_connection_id d) (AgentEventAgentId event) (AgentEventOccurredAt event) reg
      | EvHeartbeat _ \<Rightarrow>
          RecordHeartbeat (dp_connection_id d) (AgentEventAgentId event) (AgentEventOccurredAt event) reg
      | _ \<Rightarrow> Inr reg)"

text \<open>The loop over the decoded events; an exception that escapes a handler ends it.\<close>

fun handle_events ::
    "service_env \<Rightarrow> 's server_store \<Rightarrow> dispatcher \<Rightarrow> agent_event list \<Rightarrow> 's dispatch_world \<Rightarrow>
     control_event_result list result \<times> 's dispatch_world" where
  "handle_events env st d [] w = (Inr [], w)"
| "handle_events env st d (event # events) (w, reg) =
     (case HandleAgentEvent env st event w of
        (Inl x, w') \<Rightarrow> (Inl x, (w', reg))
      | (Inr outcome, w') \<Rightarrow>
          (case (if cer_status outcome = kAccepted then RecordAcceptedEvent d event reg else Inr reg) of
             Inl x \<Rightarrow> (Inl x, (w', reg))
           | Inr reg' \<Rightarrow>
               (case handle_events env st d events (w', reg') of
                  (Inl x, w'') \<Rightarrow> (Inl x, w'')
                | (Inr outcomes, w'') \<Rightarrow> (Inr (outcome # outcomes), w''))))"

definition rejected :: "exn \<Rightarrow> control_event_result list result" where
  "rejected x = (case x of Undefined_behaviour _ \<Rightarrow> Inl x | _ \<Rightarrow> Inr [InvalidArgument (exn_what x)])"

definition PushEventBytes ::
    "service_env \<Rightarrow> wire \<Rightarrow> 's server_store \<Rightarrow> u8 list \<Rightarrow> dispatcher \<times> 's dispatch_world \<Rightarrow>
     control_event_result list result \<times> dispatcher \<times> 's dispatch_world" where
  "PushEventBytes env wire st bytes = (\<lambda>(d, w).
     (case Push (dp_decoder d) bytes of
        (Inl x, decoder) \<Rightarrow> (rejected x, d\<lparr>dp_decoder := decoder\<rparr>, w)
      | (Inr frames, decoder) \<Rightarrow>
          (case map_res (DecodeAgentEventPayload wire) frames of
             Inl x \<Rightarrow> (rejected x, d\<lparr>dp_decoder := decoder\<rparr>, w)
           | Inr events \<Rightarrow>
               (case handle_events env st d events w of
                  (r, w') \<Rightarrow> (r, d\<lparr>dp_decoder := decoder\<rparr>, w')))))"

text \<open>
  The jobs of a connection, in the order in which the pool runs them: each is one chunk, run under the
  mutex of the dispatcher, and has its results or its exception of its own.
\<close>

fun run_jobs ::
    "service_env \<Rightarrow> wire \<Rightarrow> 's server_store \<Rightarrow> u8 list list \<Rightarrow> dispatcher \<times> 's dispatch_world \<Rightarrow>
     control_event_result list result list \<times> dispatcher \<times> 's dispatch_world" where
  "run_jobs env wire st [] dw = ([], dw)"
| "run_jobs env wire st (bytes # jobs) dw =
     (case PushEventBytes env wire st bytes dw of
        (r, dw') \<Rightarrow> (case run_jobs env wire st jobs dw' of (rs, dw'') \<Rightarrow> (r # rs, dw'')))"

subsection \<open>Handling events in pieces\<close>

lemma handle_events_decoder: "handle_events env st (d\<lparr>dp_decoder := dec\<rparr>) events w = handle_events env st d events w"
proof -
  have same: "RecordAcceptedEvent (d\<lparr>dp_decoder := dec\<rparr>) = RecordAcceptedEvent d"
    by (simp add: RecordAcceptedEvent_def fun_eq_iff split: agent_event.split)
  show ?thesis
  proof (induction events arbitrary: w)
    case (Cons event events)
    obtain w0 reg where "w = (w0, reg)"
      by fastforce
    with Cons.IH show ?case
      by (simp add: same split: prod.split sum.split)
  qed simp
qed

lemma handle_events_append:
  assumes "handle_events env st d (es @ fs) w = (Inr rs, w')"
  shows "\<exists>ps qs w1. handle_events env st d es w = (Inr ps, w1) \<and>
    handle_events env st d fs w1 = (Inr qs, w') \<and> rs = ps @ qs"
  using assms
proof (induction es arbitrary: w rs)
  case Nil
  then show ?case by simp
next
  case (Cons event es)
  obtain w0 reg where w: "w = (w0, reg)"
    by fastforce
  from Cons.prems obtain outcome w1 reg1 rs' where
    handled: "HandleAgentEvent env st event w0 = (Inr outcome, w1)"
    and noted: "(if cer_status outcome = kAccepted then RecordAcceptedEvent d event reg else Inr reg) = Inr reg1"
    and rest: "handle_events env st d (es @ fs) (w1, reg1) = (Inr rs', w')" "rs = outcome # rs'"
    by (fastforce simp: w split: prod.splits sum.splits)
  from Cons.IH [OF rest(1)] obtain ps qs w2 where
    "handle_events env st d es (w1, reg1) = (Inr ps, w2)" "handle_events env st d fs w2 = (Inr qs, w')"
    "rs' = ps @ qs"
    by blast
  with handled noted rest(2) show ?case
    by (intro exI [of _ "outcome # ps"] exI [of _ qs] exI [of _ w2]) (simp add: w)
qed

lemma map_res_append:
  assumes "map_res f (xs @ ys) = Inr zs"
  shows "\<exists>us vs. zs = us @ vs \<and> map_res f xs = Inr us \<and> map_res f ys = Inr vs"
  using assms
proof (induction xs arbitrary: zs)
  case (Cons x xs)
  then obtain u ws where u: "f x = Inr u" "map_res f (xs @ ys) = Inr ws" "zs = u # ws"
    by (auto simp: bind_res_Inr_iff)
  with Cons.IH obtain us vs where "ws = us @ vs" "map_res f xs = Inr us" "map_res f ys = Inr vs"
    by blast
  with u show ?case
    by (intro exI [of _ "u # us"] exI [of _ vs]) simp
qed simp

lemma run_jobs_frames:
  assumes "push_all Push (dp_decoder d) chunks = (Inr frames, dec)"
    and "map_res (DecodeAgentEventPayload wire) frames = Inr events"
    and "handle_events env st d events w = (Inr rs, w')"
  shows "\<exists>rss. run_jobs env wire st chunks (d, w) = (map Inr rss, (d\<lparr>dp_decoder := dec\<rparr>, w')) \<and> concat rss = rs"
  using assms
proof (induction chunks arbitrary: d frames events w rs)
  case Nil
  then show ?case by simp
next
  case (Cons c cs)
  from Cons.prems(1) obtain fs dec1 gs where
    push: "Push (dp_decoder d) c = (Inr fs, dec1)" and rest: "push_all Push dec1 cs = (Inr gs, dec)"
    and frames: "frames = fs @ gs"
    by (auto split: prod.splits sum.splits)
  from Cons.prems(2) frames obtain es es' where
    es: "map_res (DecodeAgentEventPayload wire) fs = Inr es"
      "map_res (DecodeAgentEventPayload wire) gs = Inr es'" "events = es @ es'"
    using map_res_append by blast
  from handle_events_append [OF Cons.prems(3) [unfolded es(3)]] obtain ps qs w1 where
    handled: "handle_events env st d es w = (Inr ps, w1)" "handle_events env st d es' w1 = (Inr qs, w')"
      "rs = ps @ qs"
    by blast
  have "\<exists>rss. run_jobs env wire st cs (d\<lparr>dp_decoder := dec1\<rparr>, w1) =
      (map Inr rss, ((d\<lparr>dp_decoder := dec1\<rparr>)\<lparr>dp_decoder := dec\<rparr>, w')) \<and> concat rss = qs"
    by (rule Cons.IH [OF _ es(2)]) (simp_all add: rest handle_events_decoder handled)
  then obtain rss where "run_jobs env wire st cs (d\<lparr>dp_decoder := dec1\<rparr>, w1) =
      (map Inr rss, (d\<lparr>dp_decoder := dec\<rparr>, w'))" "concat rss = qs"
    by auto
  then show ?case
    using push es(1) handled by (intro exI [of _ "ps # rss"]) (simp add: PushEventBytes_def)
qed

subsection \<open>The registry and the store stay reachable\<close>

lemma RecordAcceptedEvent_step:
  "RecordAcceptedEvent d event reg = Inr reg' \<Longrightarrow> reg' = reg \<or> registry_step reg reg'"
  by (auto simp: RecordAcceptedEvent_def split: if_splits agent_event.splits
      intro: registry_step.bind_agent registry_step.heartbeat)

lemma handle_events_reachable:
  assumes "handle_events env (db_store e) d events ((n, db), reg) = (r, ((n', db'), reg'))"
    and "registry_reachable reg"
  shows "db_runs e db db' \<and> registry_reachable reg'"
  using assms
proof (induction events arbitrary: n db reg r)
  case Nil
  then show ?case
    by (auto intro: db_runs.refl)
next
  case (Cons event events)
  obtain v n1 db1 where run: "HandleAgentEvent env (db_store e) event (n, db) = (v, (n1, db1))"
    by (metis prod.exhaust)
  have step: "db_runs e db db1"
    using db_steps.event_moves [of e env event] run unfolding svc_moves_def by (metis snd_conv)
  show ?case
  proof (cases v)
    case (Inl x)
    with Cons.prems run step show ?thesis
      by auto
  next
    case (Inr outcome)
    let ?noted = "if cer_status outcome = kAccepted then RecordAcceptedEvent d event reg else Inr reg"
    show ?thesis
    proof (cases ?noted)
      case (Inl x)
      with Cons.prems run step Inr show ?thesis
        by auto
    next
      case noted: (Inr reg1)
      have "registry_reachable reg1"
        using noted Cons.prems(2) RecordAcceptedEvent_step [of d event reg reg1]
        by (auto split: if_splits intro: registry_reachable.step)
      moreover obtain r1 where "handle_events env (db_store e) d events ((n1, db1), reg1) = (r1, ((n', db'), reg'))"
        using Cons.prems(1) run Inr noted by (auto split: prod.splits sum.splits)
      ultimately have "db_runs e db1 db' \<and> registry_reachable reg'"
        using Cons.IH by blast
      with step show ?thesis
        using db_steps.runs_trans by blast
    qed
  qed
qed

subsection \<open>Properties\<close>

text \<open>
  An agent's events reach the service.  The events an agent encodes and frames, cut into pieces of any
  sizes, are handled exactly as their normal forms are when they are handed to the service one
  after the other: the same results in the same order, the same store and registry, nothing left
  over in the decoder.
\<close>

theorem events_reach_the_service:
  assumes "faithful (w_ser_agent_event wire) (w_parse_agent_event wire)"
    and "map_res (EncodeAgentEventPayload wire) events = Inr payloads"
    and "map_res EncodeFrame payloads = Inr frames"
    and "\<forall>p\<in>set payloads. length p \<le> unat m" and "new_frame_decoder m = Inr (dp_decoder d)"
    and "concat chunks = concat frames"
    and "map_res norm_event events = Inr received"
    and "handle_events env st d received w = (Inr results, w')"
  shows "\<exists>rss. run_jobs env wire st chunks (d, w) = (map Inr rss, (d, w')) \<and> concat rss = results"
proof -
  have "push_all Push (dp_decoder d) chunks = (Inr payloads, dp_decoder d)"
    using assms(5,3,4,6) by (rule push_all_frames)
  moreover have "map_res (DecodeAgentEventPayload wire) payloads = Inr received"
  proof -
    have decoded: "DecodeAgentEventPayload wire p = norm_event ev"
      if "EncodeAgentEventPayload wire ev = Inr p" for ev p
      using assms(1) that unfolding DecodeAgentEventPayload_def EncodeAgentEventPayload_def
        SerializeAgentEventBlob_def by (rule event_codec.decode_encode)
    show ?thesis
      using assms(2,7)
    proof (induction events arbitrary: payloads received)
      case (Cons ev events)
      then show ?case
        using decoded by (auto simp: bind_res_Inr_iff)
    qed simp
  qed
  ultimately show ?thesis
    using run_jobs_frames [OF _ _ assms(8)] by fastforce
qed

text \<open>
  Whatever bytes a connection delivers, well formed or not, and even when an exception escapes, each call
  leaves the database in a later state and the registry in a reachable one.
\<close>

theorem dispatcher_keeps_state:
  assumes "PushEventBytes env wire (db_store e) bytes (d, ((n, db), reg)) = (r, (d', ((n', db'), reg')))"
    and "registry_reachable reg"
  shows "db_runs e db db' \<and> registry_reachable reg' \<and> dp_connection_id d' = dp_connection_id d"
proof -
  consider "db' = db" "reg' = reg" | dec events r1 where
    "handle_events env (db_store e) d events ((n, db), reg) = (r1, ((n', db'), reg'))"
    using assms(1) by (auto simp: PushEventBytes_def split: prod.splits sum.splits)
  then have "db_runs e db db' \<and> registry_reachable reg'"
    using handle_events_reachable assms(2) by cases (auto intro: db_runs.refl)
  moreover have "dp_connection_id d' = dp_connection_id d"
    using assms(1) by (auto simp: PushEventBytes_def split: prod.splits sum.splits)
  ultimately show ?thesis
    by blast
qed


definition demo_dispatcher :: dispatcher where
  "demo_dispatcher =
     \<lparr>dp_connection_id = ''c1'', dp_has_registry = True,
      dp_decoder = \<lparr>max_frame_bytes = 8, fd_buffer = []\<rparr>\<rparr>"

lemma demo_heartbeat_handled:
  "handle_events demo_env (db_store demo_ext) demo_dispatcher [demo_heartbeat] ((0, demo_queue), empty_registry) =
     (Inr [NotFound ''agent not registered''], ((0, demo_queue), empty_registry))"
proof -
  have "\<not> AgentExists ''a'' demo_queue"
    by (simp add: AgentExists_def rows_exists_def demo_queue_tables)
  then show ?thesis
    by (simp add: HandleAgentEvent_def ValidateEnvelope_def demo_heartbeat_def protocol_version_def
        HandleHeartbeat_def svc_try_def svc_defs db_store_def)
qed

theorem events_reach_the_service_witness:
  "\<exists>rss. run_jobs demo_env demo_wire (db_store demo_ext) [[0, 0], [0, 1], [69]]
     (demo_dispatcher, ((0, demo_queue), empty_registry)) =
     (map Inr rss, (demo_dispatcher, ((0, demo_queue), empty_registry))) \<and>
   concat rss = [NotFound ''agent not registered'']"
proof (rule events_reach_the_service [OF demo_wire_faithful(1), where events = "[demo_heartbeat]"
      and payloads = "[[69]]" and frames = "[[0, 0, 0, 1, 69]]" and m = 8
      and received = "[demo_heartbeat]"])
  have "bytes_of_string ''E'' = [69]"
    by (simp add: bytes_of_string_def of_char_def)
  then show "map_res (EncodeAgentEventPayload demo_wire) [demo_heartbeat] = Inr [[69]]"
    by (simp add: EncodeAgentEventPayload_def SerializeAgentEventBlob_def SerializeProto_def
        demo_wire_def Let_def)
  show "map_res EncodeFrame [[69]] = Inr [[0, 0, 0, 1, 69]]"
    by (simp add: EncodeFrame_def length_prefix_def)
  show "map_res norm_event [demo_heartbeat] = Inr [demo_heartbeat]"
    by (simp add: demo_heartbeat_def)
  show "handle_events demo_env (db_store demo_ext) demo_dispatcher [demo_heartbeat]
      ((0, demo_queue), empty_registry) =
     (Inr [NotFound ''agent not registered''], ((0, demo_queue), empty_registry))"
    by (rule demo_heartbeat_handled)
qed (simp_all add: demo_dispatcher_def new_frame_decoder_def)

theorem dispatcher_keeps_state_witness:
  "\<exists>r d' n' db' reg'. PushEventBytes demo_env demo_wire (db_store demo_ext) [0, 0, 0, 9]
     (demo_dispatcher, ((0, demo_queue), empty_registry)) = (r, (d', ((n', db'), reg'))) \<and>
   db_runs demo_ext demo_queue db' \<and> registry_reachable reg'"
proof -
  obtain r d' n' db' reg' where run: "PushEventBytes demo_env demo_wire (db_store demo_ext) [0, 0, 0, 9]
     (demo_dispatcher, ((0, demo_queue), empty_registry)) = (r, (d', ((n', db'), reg')))"
    by (metis prod.exhaust)
  from dispatcher_keeps_state [OF run registry_reachable.start] run show ?thesis
    by blast
qed

end
