(* ===== verification/File_System.thy ===== *)
theory File_System
  imports Core_Path "HOL-Library.Sublist"
begin

section \<open>std::filesystem paths and the file system (what the package code uses of them)\<close>

text \<open>
  Paths are POSIX path strings with the lexical operations of \<open>std::filesystem::path\<close>; a file
  system maps canonical names, lists of file names from the root, to nodes; and the calls the code
  makes are functions on it.  Path resolution follows symbolic links, at most forty of them, and a
  missing or non-directory prefix is an absent file.  What the code cannot influence, the working
  directory, the temporary directory, the process id, the clock and the order in which a directory
  is listed, is the record \<open>os_env\<close>.  Disk errors, permissions other than the executable bits and concurrent writers are not
  modelled; a stream opens regular files only.
\<close>

subsection \<open>Lexical operations\<close>

definition is_absolute :: "string \<Rightarrow> bool" where
  "is_absolute p \<longleftrightarrow> p \<noteq> [] \<and> hd p = CHR ''/''"

definition path_names :: "string \<Rightarrow> string list" where
  "path_names p = filter (\<lambda>s. s \<noteq> []) (split_on (CHR ''/'') p)"

text \<open>\<open>operator/\<close>\<close>

definition path_append :: "string \<Rightarrow> string \<Rightarrow> string" where
  "path_append p q =
     (if is_absolute q then q
      else if p = [] \<or> last p = CHR ''/'' then p @ q
      else p @ CHR ''/'' # q)"

definition path_filename :: "string \<Rightarrow> string" where
  "path_filename p = last (split_on (CHR ''/'') p)"

text \<open>\<open>parent_path\<close>: the path without its file name and the separators before it.\<close>

definition parent_path :: "string \<Rightarrow> string" where
  "parent_path p =
     (let dir = butlast (split_on (CHR ''/'') p);
          kept = rev (dropWhile (\<lambda>s. s = []) (rev dir))
      in if dir = [] then []
         else if kept = [] then ''/''
         else join_with (CHR ''/'') kept)"

text \<open>The extension: from the last dot of the file name, unless that is its first character.\<close>

definition path_extension :: "string \<Rightarrow> string" where
  "path_extension p =
     (let name = path_filename p;
          suffix = rev (takeWhile (\<lambda>c. c \<noteq> CHR ''.'') (rev name))
      in if name = ''..'' \<or> CHR ''.'' \<notin> set (tl name) then []
         else CHR ''.'' # suffix)"

text \<open>
  \<open>lexically_normal\<close>: dots are dropped, a name followed by dot-dot goes with it, dot-dot below the
  root goes, and a trailing separator stays where the last element was dropped, except behind
  dot-dot.
\<close>

fun normal_names :: "bool \<Rightarrow> string list \<Rightarrow> string list \<Rightarrow> string list" where
  "normal_names absolute kept [] = kept"
| "normal_names absolute kept (s # ss) =
     normal_names absolute
       (if s = ''.'' then kept
        else if s = ''..'' then
          (if kept \<noteq> [] \<and> last kept \<noteq> ''..'' then butlast kept
           else if absolute then kept else kept @ [s])
        else kept @ [s]) ss"

definition lexically_normal :: "string \<Rightarrow> string" where
  "lexically_normal p =
     (let names = normal_names (is_absolute p) [] (path_names p);
          root = (if is_absolute p then ''/'' else []);
          trailing = (last p = CHR ''/'' \<or> last (path_names p) = ''.'' \<or> last (path_names p) = ''..'')
      in
      if p = [] then []
      else if names = [] then (if is_absolute p then ''/'' else ''.'')
      else root @ join_with (CHR ''/'') names @
           (if trailing \<and> last names \<noteq> ''..'' then ''/'' else []))"

subsection \<open>Nodes, resolution and status\<close>

type_synonym fs_path = "string list"

datatype fs_node =
    Regular_file "u8 list" bool
  | Directory
  | Symlink string
  | Special_file

type_synonym file_system = "fs_path \<Rightarrow> fs_node option"

record os_env =
  oe_cwd :: fs_path
  oe_temp_dir :: string
  oe_process_id :: nat
  oe_ticks :: nat
  oe_listing :: "file_system \<Rightarrow> fs_path \<Rightarrow> string list"
  oe_walk :: "file_system \<Rightarrow> fs_path \<Rightarrow> fs_path list"

definition kMaxLinks :: nat where
  "kMaxLinks = 40"

datatype errno = ENOENT | ENOTDIR | ELOOP

definition node_at :: "file_system \<Rightarrow> fs_path \<Rightarrow> fs_node option" where
  "node_at fs p = (if p = [] then Some Directory else fs p)"

function resolve :: "nat \<Rightarrow> file_system \<Rightarrow> fs_path \<Rightarrow> string list \<Rightarrow> bool \<Rightarrow> errno + fs_path" where
  "resolve links fs cur [] follow = Inr cur"
| "resolve links fs cur (c # cs) follow =
     (if c = ''.'' then resolve links fs cur cs follow
      else if c = ''..'' then resolve links fs (butlast cur) cs follow
      else case fs (cur @ [c]) of
        None \<Rightarrow> if cs = [] then Inr (cur @ [c]) else Inl ENOENT
      | Some Directory \<Rightarrow> resolve links fs (cur @ [c]) cs follow
      | Some (Symlink target) \<Rightarrow>
          if cs = [] \<and> \<not> follow then Inr (cur @ [c])
          else if links = 0 then Inl ELOOP
          else resolve (links - 1) fs (if is_absolute target then [] else cur)
                 (path_names target @ cs) follow
      | Some _ \<Rightarrow> if cs = [] then Inr (cur @ [c]) else Inl ENOTDIR)"
  by pat_completeness auto
termination
  by (relation "measures [\<lambda>(links, fs, cur, cs, follow). links, \<lambda>(links, fs, cur, cs, follow). length cs]")
    auto

definition filesystem_error :: "string \<Rightarrow> string \<Rightarrow> exn" where
  "filesystem_error what p = Runtime_error (''filesystem error: '' @ what @ '' ['' @ p @ '']'')"

definition locate :: "os_env \<Rightarrow> file_system \<Rightarrow> bool \<Rightarrow> string \<Rightarrow> errno + fs_path" where
  "locate env fs follow p =
     (if p = [] then Inl ENOENT
      else resolve kMaxLinks fs (if is_absolute p then [] else oe_cwd env) (path_names p) follow)"

definition node_status :: "os_env \<Rightarrow> file_system \<Rightarrow> bool \<Rightarrow> string \<Rightarrow> fs_node option result" where
  "node_status env fs follow p =
     (case locate env fs follow p of
        Inr q \<Rightarrow> Inr (node_at fs q)
      | Inl ELOOP \<Rightarrow> Inl (filesystem_error ''status: Too many levels of symbolic links'' p)
      | Inl _ \<Rightarrow> Inr None)"

definition fs_status :: "os_env \<Rightarrow> file_system \<Rightarrow> string \<Rightarrow> fs_node option result" where
  "fs_status env fs p = node_status env fs True p"

definition symlink_status :: "os_env \<Rightarrow> file_system \<Rightarrow> string \<Rightarrow> fs_node option result" where
  "symlink_status env fs p = node_status env fs False p"

fun is_regular_node :: "fs_node option \<Rightarrow> bool" where
  "is_regular_node (Some (Regular_file contents executable)) = True"
| "is_regular_node node = False"

fun is_symlink_node :: "fs_node option \<Rightarrow> bool" where
  "is_symlink_node (Some (Symlink target)) = True"
| "is_symlink_node node = False"

definition fs_exists :: "os_env \<Rightarrow> file_system \<Rightarrow> string \<Rightarrow> bool result" where
  "fs_exists env fs p = bind_res (fs_status env fs p) (\<lambda>s. Inr (s \<noteq> None))"

definition fs_is_directory :: "os_env \<Rightarrow> file_system \<Rightarrow> string \<Rightarrow> bool result" where
  "fs_is_directory env fs p = bind_res (fs_status env fs p) (\<lambda>s. Inr (s = Some Directory))"

subsection \<open>Files\<close>

text \<open>The contents an input stream on the path yields; \<open>None\<close> when it does not open.\<close>

definition read_file :: "os_env \<Rightarrow> file_system \<Rightarrow> string \<Rightarrow> u8 list option" where
  "read_file env fs p =
     (case node_status env fs True p of
        Inr (Some (Regular_file contents executable)) \<Rightarrow> Some contents
      | _ \<Rightarrow> None)"

definition file_size :: "os_env \<Rightarrow> file_system \<Rightarrow> string \<Rightarrow> nat result" where
  "file_size env fs p =
     option_res (filesystem_error ''cannot get file size'' p) (map_option length (read_file env fs p))"

text \<open>
  An output stream that truncates and is written to the end.  A file it creates is not executable;
  one it truncates keeps its permissions.
\<close>

definition write_file :: "os_env \<Rightarrow> file_system \<Rightarrow> string \<Rightarrow> u8 list \<Rightarrow> file_system option" where
  "write_file env fs p contents =
     (case locate env fs True p of
        Inl e \<Rightarrow> None
      | Inr q \<Rightarrow>
          (case node_at fs q of
             None \<Rightarrow> Some (fs(q \<mapsto> Regular_file contents False))
           | Some (Regular_file old executable) \<Rightarrow> Some (fs(q \<mapsto> Regular_file contents executable))
           | _ \<Rightarrow> None))"

definition set_executable :: "os_env \<Rightarrow> file_system \<Rightarrow> string \<Rightarrow> bool \<Rightarrow> file_system option" where
  "set_executable env fs p executable =
     (case locate env fs True p of
        Inl e \<Rightarrow> None
      | Inr q \<Rightarrow>
          (case node_at fs q of
             None \<Rightarrow> None
           | Some (Regular_file contents old) \<Rightarrow> Some (fs(q \<mapsto> Regular_file contents executable))
           | Some node \<Rightarrow> Some fs))"

text \<open>A copy keeps the permissions of its source; a file is not copied onto itself.\<close>

definition copy_file :: "os_env \<Rightarrow> file_system \<Rightarrow> string \<Rightarrow> string \<Rightarrow> file_system result" where
  "copy_file env fs source destination =
     (case (locate env fs True source, locate env fs True destination) of
        (Inr p, Inr q) \<Rightarrow>
          (case (node_at fs p, node_at fs q) of
             (Some (Regular_file contents executable), None) \<Rightarrow>
               Inr (fs(q \<mapsto> Regular_file contents executable))
           | (Some (Regular_file contents executable), Some (Regular_file old old_executable)) \<Rightarrow>
               if p = q then Inl (filesystem_error ''cannot copy file: File exists'' source)
               else Inr (fs(q \<mapsto> Regular_file contents executable))
           | _ \<Rightarrow> Inl (filesystem_error ''cannot copy file'' source))
      | _ \<Rightarrow> Inl (filesystem_error ''cannot copy file'' source))"

subsection \<open>Directories\<close>

fun make_directories :: "file_system \<Rightarrow> fs_path \<Rightarrow> string list \<Rightarrow> file_system option" where
  "make_directories fs cur [] = Some fs"
| "make_directories fs cur (c # cs) =
     (if c = ''.'' then make_directories fs cur cs
      else if c = ''..'' then make_directories fs (butlast cur) cs
      else case fs (cur @ [c]) of
        None \<Rightarrow> make_directories (fs(cur @ [c] \<mapsto> Directory)) (cur @ [c]) cs
      | Some Directory \<Rightarrow> make_directories fs (cur @ [c]) cs
      | Some _ \<Rightarrow> None)"

text \<open>
  \<open>create_directories\<close> makes the missing names behind the longest prefix that exists; a link that
  leads nowhere is in its way.
\<close>

fun create_below :: "os_env \<Rightarrow> file_system \<Rightarrow> fs_path \<Rightarrow> string list \<Rightarrow> string list \<Rightarrow> file_system option" where
  "create_below env fs start [] missing = make_directories fs start missing"
| "create_below env fs start (c # cs) missing =
     (case resolve kMaxLinks fs start (rev (c # cs)) True of
        Inl ELOOP \<Rightarrow> None
      | Inl ENOTDIR \<Rightarrow> None
      | Inl ENOENT \<Rightarrow> create_below env fs start cs (c # missing)
      | Inr q \<Rightarrow>
          (case node_at fs q of
             None \<Rightarrow>
               if resolve kMaxLinks fs start (rev (c # cs)) False = Inr q
               then make_directories fs (butlast q) (last q # missing) else None
           | Some Directory \<Rightarrow> make_directories fs q missing
           | Some _ \<Rightarrow> None))"

definition create_directories :: "os_env \<Rightarrow> file_system \<Rightarrow> string \<Rightarrow> file_system result" where
  "create_directories env fs p =
     option_res (filesystem_error ''cannot create directories'' p)
       (if p = [] then None
        else create_below env fs (if is_absolute p then [] else oe_cwd env) (rev (path_names p)) [])"

definition remove_tree :: "fs_path \<Rightarrow> file_system \<Rightarrow> file_system" where
  "remove_tree q fs = (\<lambda>p. if prefix q p then None else fs p)"

text \<open>\<open>remove_all\<close> and \<open>remove\<close> do not follow a link at the end of the path.\<close>

definition remove_all :: "os_env \<Rightarrow> file_system \<Rightarrow> string \<Rightarrow> file_system result" where
  "remove_all env fs p =
     (case locate env fs False p of
        Inr q \<Rightarrow>
          if q = [] then Inl (filesystem_error ''cannot remove all'' p) else Inr (remove_tree q fs)
      | Inl ELOOP \<Rightarrow> Inl (filesystem_error ''cannot remove all'' p)
      | Inl _ \<Rightarrow> Inr fs)"

definition remove_file :: "os_env \<Rightarrow> file_system \<Rightarrow> string \<Rightarrow> file_system result" where
  "remove_file env fs p =
     (case locate env fs False p of
        Inr q \<Rightarrow>
          (case node_at fs q of
             Some Directory \<Rightarrow>
               if q = [] \<or> oe_listing env fs q \<noteq> [] then Inl (filesystem_error ''cannot remove'' p)
               else Inr (fs(q := None))
           | Some node \<Rightarrow> Inr (fs(q := None))
           | None \<Rightarrow> Inr fs)
      | Inl ELOOP \<Rightarrow> Inl (filesystem_error ''cannot remove'' p)
      | Inl _ \<Rightarrow> Inr fs)"

definition move_tree :: "fs_path \<Rightarrow> fs_path \<Rightarrow> file_system \<Rightarrow> file_system" where
  "move_tree source target fs =
     (\<lambda>p. if prefix target p then fs (source @ drop (length target) p)
          else if prefix source p then None
          else fs p)"

text \<open>
  \<open>rename\<close>: a file replaces a file, a directory replaces an empty directory, and a directory does
  not move into itself.
\<close>

definition rename_path :: "os_env \<Rightarrow> file_system \<Rightarrow> string \<Rightarrow> string \<Rightarrow> file_system result" where
  "rename_path env fs old target_path =
     (case (locate env fs False old, locate env fs False target_path) of
        (Inr source, Inr target) \<Rightarrow>
          (case (node_at fs source, node_at fs target) of
             (None, _) \<Rightarrow> Inl (filesystem_error ''cannot rename'' old)
           | (Some Directory, None) \<Rightarrow>
               if prefix source target then Inl (filesystem_error ''cannot rename'' old)
               else Inr (move_tree source target fs)
           | (Some Directory, Some Directory) \<Rightarrow>
               if source = target then Inr fs
               else if source = [] \<or> target = [] \<or> prefix source target \<or> oe_listing env fs target \<noteq> []
               then Inl (filesystem_error ''cannot rename'' old)
               else Inr (move_tree source target fs)
           | (Some Directory, Some node) \<Rightarrow> Inl (filesystem_error ''cannot rename'' old)
           | (Some node, Some Directory) \<Rightarrow> Inl (filesystem_error ''cannot rename'' old)
           | (Some node, _) \<Rightarrow> if source = target then Inr fs else Inr (move_tree source target fs))
      | _ \<Rightarrow> Inl (filesystem_error ''cannot rename'' old))"

subsection \<open>Reading back a written file\<close>

definition is_leaf :: "fs_node option \<Rightarrow> bool" where
  "is_leaf node \<longleftrightarrow> node \<noteq> Some Directory \<and> (\<forall>t. node \<noteq> Some (Symlink t))"

lemma resolve_update_leaf:
  assumes "resolve links fs cur cs follow = Inr r" "is_leaf (fs q)" "is_leaf (Some node)"
  shows "resolve links (fs(q \<mapsto> node)) cur cs follow = Inr r"
  using assms
proof (induction links fs cur cs follow rule: resolve.induct)
  case (1 links fs cur follow)
  then show ?case by simp
next
  case (2 links fs cur c cs follow)
  show ?case
  proof (cases "c = ''.'' \<or> c = ''..''")
    case True
    then show ?thesis
      using 2 by auto
  next
    case False
    show ?thesis
    proof (cases "q = cur @ [c]")
      case True
      then show ?thesis
        using 2(5-) False by (auto simp: is_leaf_def split: option.splits fs_node.splits if_splits)
    next
      case other: False
      then show ?thesis
        using 2 False
        by (auto split: option.splits fs_node.splits if_splits)
    qed
  qed
qed

definition was_executable :: "fs_node option \<Rightarrow> bool" where
  "was_executable node = (case node of Some (Regular_file contents x) \<Rightarrow> x | _ \<Rightarrow> False)"

lemma was_executable_simps [simp]:
  "was_executable None = False" "was_executable (Some (Regular_file c x)) = x"
  by (simp_all add: was_executable_def)

lemma write_file_SomeE:
  assumes "write_file env fs p contents = Some fs'"
  obtains q where "locate env fs True p = Inr q" "is_leaf (fs q)" "q \<noteq> []"
    "fs' = fs(q \<mapsto> Regular_file contents (was_executable (fs q)))"
  using assms
  by (auto simp: write_file_def node_at_def is_leaf_def was_executable_def
      split: sum.splits option.splits fs_node.splits if_splits)

lemma read_file_written:
  assumes "write_file env fs p contents = Some fs'"
  shows "read_file env fs' p = Some contents"
proof -
  obtain q where q: "locate env fs True p = Inr q" "is_leaf (fs q)" "q \<noteq> []"
    "fs' = fs(q \<mapsto> Regular_file contents (was_executable (fs q)))"
    using assms by (rule write_file_SomeE)
  then have "locate env fs' True p = Inr q"
    unfolding locate_def
    using resolve_update_leaf [where fs = fs and q = q
        and node = "Regular_file contents (was_executable (fs q))"]
    by (auto simp: is_leaf_def split: if_splits)
  then show ?thesis
    using q by (simp add: read_file_def node_status_def node_at_def)
qed

subsection \<open>File systems without links\<close>

text \<open>
  Where no symbolic links are about and every file lies in a directory, a path without dots leads
  to the names it spells, and the calls act on that place.
\<close>

definition plain_fs :: "os_env \<Rightarrow> file_system \<Rightarrow> bool" where
  "plain_fs env fs \<longleftrightarrow>
     (\<forall>p t. fs p \<noteq> Some (Symlink t)) \<and>
     (\<forall>p c. fs (p @ [c]) \<noteq> None \<longrightarrow> node_at fs p = Some Directory) \<and>
     node_at fs (oe_cwd env) = Some Directory"

definition plain_names :: "string list \<Rightarrow> bool" where
  "plain_names cs \<longleftrightarrow> list_all (\<lambda>c. c \<noteq> ''.'' \<and> c \<noteq> ''..'') cs"

definition plain_path :: "string \<Rightarrow> bool" where
  "plain_path p \<longleftrightarrow> p \<noteq> [] \<and> plain_names (path_names p)"

definition place :: "os_env \<Rightarrow> string \<Rightarrow> fs_path" where
  "place env p = (if is_absolute p then [] else oe_cwd env) @ path_names p"

lemma plain_names_simps [simp]:
  "plain_names []" "plain_names (c # cs) \<longleftrightarrow> c \<noteq> ''.'' \<and> c \<noteq> ''..'' \<and> plain_names cs"
  "plain_names (cs @ ds) \<longleftrightarrow> plain_names cs \<and> plain_names ds"
  "plain_names (rev cs) = plain_names cs"
  by (auto simp: plain_names_def list_all_iff)

lemma plain_fs_cwd: "plain_fs env fs \<Longrightarrow> node_at fs (oe_cwd env) = Some Directory"
  by (simp add: plain_fs_def)

lemma plain_fs_link: "plain_fs env fs \<Longrightarrow> fs p \<noteq> Some (Symlink t)"
  by (simp add: plain_fs_def)

lemma node_at_snoc [simp]: "node_at fs (p @ [c]) = fs (p @ [c])"
  by (simp add: node_at_def)

lemma node_at_prefix:
  assumes "plain_fs env fs" "node_at fs (p @ q) \<noteq> None" "q \<noteq> []"
  shows "node_at fs p = Some Directory"
  using assms(2,3)
proof (induction q rule: rev_induct)
  case Nil
  then show ?case by simp
next
  case (snoc c q)
  have "fs ((p @ q) @ [c]) \<noteq> None"
    using snoc.prems(1) node_at_snoc [of fs "p @ q" c] by simp
  then have "node_at fs (p @ q) = Some Directory"
    using assms(1) unfolding plain_fs_def by blast
  then show ?case
    using snoc.IH by (cases "q = []") auto
qed

lemma node_at_below_None:
  "plain_fs env fs \<Longrightarrow> node_at fs p \<noteq> Some Directory \<Longrightarrow> q \<noteq> [] \<Longrightarrow> node_at fs (p @ q) = None"
  using node_at_prefix by blast

text \<open>Resolution reaches the place exactly when its directory is there.\<close>

lemma resolve_plain:
  assumes "plain_fs env fs" "plain_names cs" "node_at fs cur = Some Directory"
  shows "if cs = [] \<or> node_at fs (cur @ butlast cs) = Some Directory
         then resolve n fs cur cs follow = Inr (cur @ cs)
         else resolve n fs cur cs follow \<in> {Inl ENOENT, Inl ENOTDIR}"
  using assms(2,3)
proof (induction cs arbitrary: cur)
  case Nil
  then show ?case by simp
next
  case (Cons c cs)
  have dots: "c \<noteq> ''.''" "c \<noteq> ''..''" "plain_names cs"
    using Cons.prems(1) by simp_all
  show ?case
  proof (cases "fs (cur @ [c]) = Some Directory")
    case True
    then show ?thesis
      using Cons.IH [of "cur @ [c]"] dots Cons.prems(2) by (cases "cs = []") (auto split: if_splits)
  next
    case False
    then have "cs \<noteq> [] \<Longrightarrow> node_at fs (cur @ butlast (c # cs)) \<noteq> Some Directory"
      using node_at_below_None [OF assms(1), of "cur @ [c]" "butlast cs"]
      by (cases "butlast cs = []") auto
    then show ?thesis
      using False dots plain_fs_link [OF assms(1), of "cur @ [c]"] Cons.prems(2)
      by (auto split: option.splits fs_node.splits)
  qed
qed

lemma start_directory:
  "plain_fs env fs \<Longrightarrow> node_at fs (if is_absolute p then [] else oe_cwd env) = Some Directory"
  using plain_fs_cwd [of env fs] node_at_def [of fs "[]"] by simp

lemma locate_plain:
  assumes "plain_fs env fs" "plain_path p"
  shows "if node_at fs (butlast (place env p)) = Some Directory
         then locate env fs follow p = Inr (place env p)
         else locate env fs follow p \<in> {Inl ENOENT, Inl ENOTDIR}"
proof -
  let ?start = "if is_absolute p then [] else oe_cwd env"
  have "plain_names (path_names p)" "p \<noteq> []"
    using assms(2) by (simp_all add: plain_path_def)
  note r = resolve_plain [OF assms(1) this(1) start_directory [OF assms(1), of p], of kMaxLinks follow]
  show ?thesis
  proof (cases "path_names p = []")
    case True
    have "node_at fs (butlast ?start) = Some Directory"
      using node_at_prefix [OF assms(1), of "butlast ?start" "[last ?start]"]
        start_directory [OF assms(1), of p]
      by (cases "?start = []") (auto simp: node_at_def)
    then show ?thesis
      using r True \<open>p \<noteq> []\<close> by (simp add: place_def locate_def)
  next
    case False
    then have "butlast (place env p) = ?start @ butlast (path_names p)"
      by (simp add: place_def butlast_append)
    moreover have "locate env fs follow p = resolve kMaxLinks fs ?start (path_names p) follow"
      using \<open>p \<noteq> []\<close> by (simp add: locate_def)
    ultimately show ?thesis
      using r False unfolding place_def by metis
  qed
qed

lemma node_at_orphan:
  assumes "plain_fs env fs" "node_at fs (butlast q) \<noteq> Some Directory"
  shows "node_at fs q = None"
proof (cases "q = []")
  case True
  then show ?thesis using assms(2) by (simp add: node_at_def)
next
  case False
  then show ?thesis
    using node_at_below_None [OF assms, of "[last q]"] by simp
qed

lemma node_status_plain [simp]:
  assumes "plain_fs env fs" "plain_path p"
  shows "node_status env fs follow p = Inr (node_at fs (place env p))"
  using locate_plain [OF assms, of follow] node_at_orphan [OF assms(1), of "place env p"]
  by (auto simp: node_status_def split: if_splits)

lemma status_plain [simp]:
  assumes "plain_fs env fs" "plain_path p"
  shows "fs_status env fs p = Inr (node_at fs (place env p))"
    and "symlink_status env fs p = Inr (node_at fs (place env p))"
    and "fs_exists env fs p = Inr (node_at fs (place env p) \<noteq> None)"
    and "fs_is_directory env fs p = Inr (node_at fs (place env p) = Some Directory)"
  using assms
  by (simp_all add: fs_status_def symlink_status_def fs_exists_def fs_is_directory_def)

lemma read_file_plain:
  assumes "plain_fs env fs" "plain_path p"
  shows "read_file env fs p =
    (case node_at fs (place env p) of Some (Regular_file contents x) \<Rightarrow> Some contents | _ \<Rightarrow> None)"
  using assms by (simp add: read_file_def split: option.splits fs_node.splits)

subsection \<open>The calls in such a file system\<close>

lemma plain_fs_grown:
  assumes "plain_fs env fs" "\<And>p t. fs' p \<noteq> Some (Symlink t)"
    and "\<And>p. node_at fs p = Some Directory \<Longrightarrow> node_at fs' p = Some Directory"
    and "\<And>p c. fs' (p @ [c]) \<noteq> None \<Longrightarrow> fs (p @ [c]) = None \<Longrightarrow> node_at fs' p = Some Directory"
  shows "plain_fs env fs'"
proof -
  have "node_at fs' p = Some Directory" if "fs' (p @ [c]) \<noteq> None" for p c
    using assms(1,3) assms(4) [OF that] unfolding plain_fs_def by blast
  then show ?thesis
    using assms(1,2,3) unfolding plain_fs_def by blast
qed

lemma plain_fs_update_file:
  assumes "plain_fs env fs" "is_leaf (fs q)" "q \<noteq> []" "node_at fs (butlast q) = Some Directory"
  shows "plain_fs env (fs(q \<mapsto> Regular_file contents x))"
proof -
  let ?fs = "fs(q \<mapsto> Regular_file contents x)"
  have dirs: "node_at fs p = Some Directory \<Longrightarrow> node_at ?fs p = Some Directory" for p
    using assms(2,3) by (auto simp: node_at_def is_leaf_def)
  show ?thesis
  proof (rule plain_fs_grown [OF assms(1) _ dirs])
    show "?fs p \<noteq> Some (Symlink t)" for p t
      using plain_fs_link [OF assms(1)] by simp
    show "node_at ?fs p = Some Directory" if "?fs (p @ [c]) \<noteq> None" "fs (p @ [c]) = None" for p c
      using that assms(4) dirs [of p] by (auto split: if_splits)
  qed
qed

lemma write_file_plainE:
  assumes "write_file env fs p contents = Some fs'" "plain_fs env fs" "plain_path p"
  obtains "fs' = fs(place env p \<mapsto> Regular_file contents (was_executable (fs (place env p))))"
    "is_leaf (fs (place env p))"
    "place env p \<noteq> []" "node_at fs (butlast (place env p)) = Some Directory" "plain_fs env fs'"
proof -
  obtain q where q: "locate env fs True p = Inr q" "is_leaf (fs q)" "q \<noteq> []"
    "fs' = fs(q \<mapsto> Regular_file contents (was_executable (fs q)))"
    using assms(1) by (rule write_file_SomeE)
  have dir: "node_at fs (butlast (place env p)) = Some Directory" and eq: "q = place env p"
    using locate_plain [OF assms(2,3), of True] q(1) by (auto split: if_splits)
  then have "plain_fs env fs'"
    using plain_fs_update_file [OF assms(2) q(2,3)] q(4) by simp
  with q dir eq show thesis
    by (intro that) simp_all
qed

lemma write_file_plain:
  assumes "plain_fs env fs" "plain_path p" "node_at fs (butlast (place env p)) = Some Directory"
    "place env p \<noteq> []" "is_leaf (fs (place env p))" "fs (place env p) \<noteq> Some Special_file"
  shows "write_file env fs p contents =
           Some (fs(place env p \<mapsto> Regular_file contents (was_executable (fs (place env p)))))"
  using locate_plain [OF assms(1,2), of True] assms(3-6)
  by (auto simp: write_file_def node_at_def is_leaf_def was_executable_def
      split: option.splits fs_node.splits)

lemma set_executable_plain:
  assumes "set_executable env fs p x = Some fs'" "plain_fs env fs" "plain_path p"
    "fs (place env p) = Some (Regular_file contents y)" "place env p \<noteq> []"
  shows "fs' = fs(place env p \<mapsto> Regular_file contents x)"
  using assms locate_plain [OF assms(2,3), of True]
  by (auto simp: set_executable_def node_at_def split: sum.splits if_splits)

text \<open>The directories of a place, made where they are missing.\<close>

definition with_dirs :: "fs_path \<Rightarrow> file_system \<Rightarrow> file_system" where
  "with_dirs q fs = (\<lambda>p. if prefix p q \<and> p \<noteq> [] \<and> fs p = None then Some Directory else fs p)"

definition only_dirs :: "fs_path \<Rightarrow> file_system \<Rightarrow> bool" where
  "only_dirs q fs \<longleftrightarrow> (\<forall>p. prefix p q \<longrightarrow> node_at fs p \<in> {None, Some Directory})"

lemma make_directories_skip:
  assumes "plain_fs env fs" "plain_names cs" "node_at fs (cur @ cs) = Some Directory"
  shows "make_directories fs cur (cs @ ds) = make_directories fs (cur @ cs) ds"
  using assms(2,3)
proof (induction cs arbitrary: cur)
  case Nil
  then show ?case by simp
next
  case (Cons c cs)
  have "fs (cur @ [c]) = Some Directory"
    using node_at_prefix [OF assms(1), of "cur @ [c]" cs] Cons.prems(2)
    by (cases "cs = []") (auto simp: node_at_def)
  then show ?case
    using Cons.IH [of "cur @ [c]"] Cons.prems by simp
qed

lemma make_directories_None:
  assumes "plain_fs env fs" "plain_names cs" "node_at fs (cur @ cs) \<notin> {None, Some Directory}" "cs \<noteq> []"
  shows "make_directories fs cur (cs @ ds) = None"
proof -
  obtain bs c where cs: "cs = bs @ [c]"
    using assms(4) by (metis rev_exhaust)
  have node: "fs ((cur @ bs) @ [c]) \<notin> {None, Some Directory}"
    using assms(3) cs node_at_snoc [of fs "cur @ bs" c] by simp
  have "node_at fs (cur @ bs) = Some Directory"
    using node_at_prefix [OF assms(1), of "cur @ bs" "[c]"] assms(3) cs by auto
  then have "make_directories fs cur (bs @ c # ds) = make_directories fs (cur @ bs) (c # ds)"
    using make_directories_skip [OF assms(1)] assms(2) cs by simp
  then show ?thesis
    using assms(2) node cs by (auto split: option.splits fs_node.splits)
qed

lemma make_directories_done:
  assumes "plain_fs env fs" "plain_names cs" "node_at fs cur = Some Directory"
    "make_directories fs cur cs = Some fs'"
  shows "fs' = with_dirs (cur @ cs) fs \<and> plain_fs env fs' \<and> node_at fs' (cur @ cs) = Some Directory"
  using assms
proof (induction cs arbitrary: cur fs)
  case Nil
  have "with_dirs cur fs = fs"
  proof
    fix p
    show "with_dirs cur fs p = fs p"
    proof (cases "prefix p cur \<and> p \<noteq> []")
      case True
      then obtain s where "cur = p @ s" by (auto simp: prefix_def)
      then have "node_at fs p = Some Directory"
        using node_at_prefix [OF Nil.prems(1), of p s] Nil.prems(3) by (cases "s = []") auto
      with True show ?thesis
        by (simp add: with_dirs_def node_at_def)
    qed (auto simp: with_dirs_def)
  qed
  then show ?case
    using Nil by simp
next
  case (Cons c cs)
  let ?here = "cur @ [c]"
  have names: "plain_names cs" "c \<noteq> ''.''" "c \<noteq> ''..''"
    using Cons.prems(2) by simp_all
  show ?case
  proof (cases "fs ?here")
    case None
    let ?fs = "fs(?here \<mapsto> Directory)"
    have dirs: "node_at fs p = Some Directory \<Longrightarrow> node_at ?fs p = Some Directory" for p
      by (simp add: node_at_def split: if_splits)
    have plain: "plain_fs env ?fs"
    proof (rule plain_fs_grown [OF Cons.prems(1) _ dirs])
      show "?fs p \<noteq> Some (Symlink t)" for p t
        using plain_fs_link [OF Cons.prems(1)] by simp
      show "node_at ?fs p = Some Directory" if "?fs (p @ [d]) \<noteq> None" "fs (p @ [d]) = None" for p d
        using that dirs [OF Cons.prems(3)] by (auto split: if_splits)
    qed
    have "make_directories ?fs ?here cs = Some fs'"
      using Cons.prems(4) None names by simp
    moreover have "node_at ?fs ?here = Some Directory"
      unfolding node_at_snoc by simp
    ultimately have "fs' = with_dirs (?here @ cs) ?fs \<and> plain_fs env fs' \<and>
        node_at fs' (?here @ cs) = Some Directory"
      by (intro Cons.IH [OF plain names(1)])
    then have "fs' = with_dirs (?here @ cs) ?fs" "plain_fs env fs'" "node_at fs' (?here @ cs) = Some Directory"
      by blast+
    moreover have "with_dirs (?here @ cs) ?fs = with_dirs (?here @ cs) fs"
      using None by (auto simp: with_dirs_def fun_eq_iff)
    ultimately show ?thesis
      by simp
  next
    case (Some node)
    then have "node = Directory" "make_directories fs ?here cs = Some fs'"
      using Cons.prems(4) names by (auto split: fs_node.splits)
    moreover from this have "node_at fs ?here = Some Directory"
      using Some by simp
    ultimately have "fs' = with_dirs (?here @ cs) fs \<and> plain_fs env fs' \<and>
        node_at fs' (?here @ cs) = Some Directory"
      by (intro Cons.IH [OF Cons.prems(1) names(1)])
    then show ?thesis
      unfolding append.assoc append_Cons append_Nil .
  qed
qed

lemma make_directories_total:
  assumes "plain_fs env fs" "plain_names cs" "node_at fs cur = Some Directory" "only_dirs (cur @ cs) fs"
  shows "make_directories fs cur cs \<noteq> None"
  using assms
proof (induction cs arbitrary: cur fs)
  case Nil
  then show ?case by simp
next
  case (Cons c cs)
  let ?here = "cur @ [c]"
  have "node_at fs ?here \<in> {None, Some Directory}"
    using Cons.prems(4) unfolding only_dirs_def by (metis append.assoc append_Cons append_Nil prefixI)
  then consider "fs ?here = None" | "fs ?here = Some Directory"
    by auto
  then show ?case
  proof cases
    case 1
    let ?fs = "fs(?here \<mapsto> Directory)"
    have one: "make_directories fs cur [c] = Some ?fs"
      using 1 Cons.prems(2) by simp
    have "plain_names [c]"
      using Cons.prems(2) by simp
    from make_directories_done [OF Cons.prems(1) this Cons.prems(3) one]
    have "plain_fs env ?fs"
      by blast
    moreover have "only_dirs (?here @ cs) ?fs"
      using Cons.prems(4) by (auto simp: only_dirs_def node_at_def)
    moreover have "plain_names cs"
      using Cons.prems(2) by simp
    moreover have "node_at ?fs ?here = Some Directory"
      unfolding node_at_snoc by simp
    ultimately have "make_directories ?fs ?here cs \<noteq> None"
      by (intro Cons.IH)
    then show ?thesis
      using 1 Cons.prems(2) by simp
  next
    case 2
    then show ?thesis
      using Cons.IH [of fs ?here] Cons.prems by simp
  qed
qed

lemma resolve_not_directory:
  assumes "plain_fs env fs" "plain_names cs" "resolve n fs cur cs follow = Inl ENOTDIR"
  shows "make_directories fs cur (cs @ ds) = None"
  using assms(2,3)
proof (induction cs arbitrary: cur)
  case Nil
  then show ?case by simp
next
  case (Cons c cs)
  then show ?case
    using plain_fs_link [OF assms(1), of "cur @ [c]"]
    by (auto split: option.splits fs_node.splits if_splits)
qed

lemma create_below_plain:
  assumes "plain_fs env fs" "plain_names cs" "node_at fs start = Some Directory"
  shows "create_below env fs start (rev cs) missing = make_directories fs start (cs @ missing)"
  using assms(2)
proof (induction cs arbitrary: missing rule: rev_induct)
  case Nil
  then show ?case by simp
next
  case (snoc c cs)
  let ?q = "start @ cs @ [c]"
  have names: "plain_names (cs @ [c])" "plain_names cs"
    using snoc.prems by simp_all
  have IH: "create_below env fs start (rev cs) (c # missing) = make_directories fs start ((cs @ [c]) @ missing)"
    using snoc.IH [of "c # missing"] names by simp
  show ?case
  proof (cases "node_at fs (start @ cs) = Some Directory")
    case True
    then have r: "resolve kMaxLinks fs start (cs @ [c]) follow = Inr ?q" for follow
      using resolve_plain [OF assms(1) names(1) assms(3), of kMaxLinks follow] by (simp split: if_splits)
    have skip: "make_directories fs start (cs @ c # missing) = make_directories fs (start @ cs) (c # missing)"
      by (rule make_directories_skip [OF assms(1) names(2) True])
    have node: "node_at fs ?q = fs ?q"
      using node_at_snoc [of fs "start @ cs" c] by simp
    have "butlast ?q = start @ cs" "last ?q = c"
      by (simp_all add: butlast_append)
    then show ?thesis
      using r skip node plain_fs_link [OF assms(1), of ?q] names
      by (auto split: option.splits fs_node.splits)
  next
    case False
    then have "resolve kMaxLinks fs start (cs @ [c]) True \<in> {Inl ENOENT, Inl ENOTDIR}"
      using resolve_plain [OF assms(1) names(1) assms(3), of kMaxLinks True] by (simp split: if_splits)
    then show ?thesis
      using IH resolve_not_directory [OF assms(1) names(1), of kMaxLinks start True missing] by auto
  qed
qed

lemma create_directories_plain:
  assumes "plain_fs env fs" "plain_path p"
  shows "create_directories env fs p =
    option_res (filesystem_error ''cannot create directories'' p)
      (make_directories fs (if is_absolute p then [] else oe_cwd env) (path_names p))"
proof -
  have "p \<noteq> []" "plain_names (path_names p)"
    using assms(2) by (simp_all add: plain_path_def)
  then show ?thesis
    using create_below_plain [OF assms(1) _ start_directory [OF assms(1)], of "path_names p" p "[]"]
    by (simp add: create_directories_def)
qed

lemma create_directories_done:
  assumes "create_directories env fs p = Inr fs'" "plain_fs env fs" "plain_path p"
  shows "fs' = with_dirs (place env p) fs" "plain_fs env fs'" "node_at fs' (place env p) = Some Directory"
proof -
  have "plain_names (path_names p)"
    using assms(3) by (simp add: plain_path_def)
  moreover have "make_directories fs (if is_absolute p then [] else oe_cwd env) (path_names p) = Some fs'"
    using assms by (simp add: create_directories_plain)
  ultimately show "fs' = with_dirs (place env p) fs" "plain_fs env fs'"
    "node_at fs' (place env p) = Some Directory"
    using make_directories_done [OF assms(2) _ start_directory [OF assms(2), of p]]
    unfolding place_def by blast+
qed

lemma create_directories_total:
  assumes "plain_fs env fs" "plain_path p" "only_dirs (place env p) fs"
  shows "create_directories env fs p = Inr (with_dirs (place env p) fs)"
proof -
  have "plain_names (path_names p)"
    using assms(2) by (simp add: plain_path_def)
  then have "\<exists>fs'. create_directories env fs p = Inr fs'"
    using make_directories_total [OF assms(1) _ start_directory [OF assms(1), of p]] assms
    by (auto simp: create_directories_plain place_def)
  then show ?thesis
    using create_directories_done(1) [OF _ assms(1,2)] by auto
qed

lemma with_dirs_here: "node_at fs q = Some Directory \<Longrightarrow> plain_fs env fs \<Longrightarrow> with_dirs q fs = fs"
proof
  fix p
  assume q: "node_at fs q = Some Directory" and fs: "plain_fs env fs"
  have "fs p = Some Directory" if "prefix p q" "p \<noteq> []"
  proof -
    from that obtain r where "q = p @ r" by (auto simp: prefix_def)
    then have "node_at fs p = Some Directory"
      using node_at_prefix [OF fs, of p r] q by (cases "r = []") simp_all
    then show ?thesis
      using that by (simp add: node_at_def)
  qed
  then show "with_dirs q fs p = fs p"
    by (auto simp: with_dirs_def)
qed

lemma with_dirs_file: "fs p = Some node \<Longrightarrow> with_dirs q fs p = Some node"
  by (simp add: with_dirs_def)

lemma remove_all_done:
  assumes "remove_all env fs p = Inr fs'" "plain_fs env fs" "plain_path p" "\<not> prefix (place env p) (oe_cwd env)"
  shows "fs' = remove_tree (place env p) fs" "plain_fs env fs'"
proof -
  let ?q = "place env p"
  have q: "?q \<noteq> []"
    using assms(4) by auto
  have "remove_tree ?q fs = fs" if "node_at fs (butlast ?q) \<noteq> Some Directory"
  proof
    fix p'
    have "fs p' = None" if "prefix ?q p'"
    proof -
      from that obtain r where "p' = ?q @ r" by (auto simp: prefix_def)
      then have "p' = butlast ?q @ (last ?q # r)" "p' \<noteq> []"
        using q by simp_all
      then show ?thesis
        using node_at_below_None [OF assms(2) \<open>node_at fs (butlast ?q) \<noteq> Some Directory\<close>, of "last ?q # r"]
        by (simp add: node_at_def)
    qed
    then show "remove_tree ?q fs p' = fs p'"
      by (simp add: remove_tree_def)
  qed
  then show eq: "fs' = remove_tree ?q fs"
    using assms(1) locate_plain [OF assms(2,3), of False] q
    by (auto simp: remove_all_def split: if_splits)
  have "node_at fs' (oe_cwd env) = Some Directory"
    using plain_fs_cwd [OF assms(2)] assms(4) q by (simp add: eq remove_tree_def node_at_def split: if_splits)
  moreover have "node_at fs' r = Some Directory" if "fs' (r @ [c]) \<noteq> None" for r c
  proof -
    have "\<not> prefix ?q (r @ [c])" "fs (r @ [c]) \<noteq> None"
      using that by (auto simp: eq remove_tree_def split: if_splits)
    moreover from this have "\<not> prefix ?q r"
      by (meson prefix_order.trans prefixI)
    moreover have "node_at fs r = Some Directory"
      using node_at_prefix [OF assms(2), of r "[c]"] \<open>fs (r @ [c]) \<noteq> None\<close> by simp
    ultimately show ?thesis
      by (simp add: eq remove_tree_def node_at_def split: if_splits)
  qed
  ultimately show "plain_fs env fs'"
    using plain_fs_link [OF assms(2)] unfolding plain_fs_def by (simp add: eq remove_tree_def)
qed

subsection \<open>Names of composed and normalised paths\<close>

lemma split_on_join: "split_on d (p @ d # q) = split_on d p @ split_on d q"
proof (induction p)
  case Nil
  then show ?case by simp
next
  case (Cons c p)
  obtain x xs where "split_on d p = x # xs"
    by (cases "split_on d p") auto
  then show ?case
    using Cons by simp
qed

lemma path_names_simps [simp]:
  "path_names [] = []" "path_names (p @ CHR ''/'' # q) = path_names p @ path_names q"
  "path_names (CHR ''/'' # q) = path_names q"
  by (simp_all add: path_names_def split_on_join)

lemma path_names_append [simp]:
  assumes "\<not> is_absolute q"
  shows "path_names (path_append p q) = path_names p @ path_names q"
proof (cases "p = [] \<or> last p \<noteq> CHR ''/''")
  case True
  then show ?thesis
    using assms by (auto simp: path_append_def)
next
  case False
  then obtain r where "p = r @ [CHR ''/'']"
    by (metis append_butlast_last_id)
  then show ?thesis
    using assms path_names_simps(2) [of r "[]"] by (simp add: path_append_def)
qed

lemma is_absolute_append [simp]:
  "p \<noteq> [] \<Longrightarrow> \<not> is_absolute q \<Longrightarrow> is_absolute (path_append p q) = is_absolute p"
  by (cases p) (auto simp: path_append_def is_absolute_def)

lemma path_append_nonempty [simp]: "p \<noteq> [] \<Longrightarrow> path_append p q \<noteq> []"
  by (auto simp: path_append_def is_absolute_def)

lemma place_append:
  "p \<noteq> [] \<Longrightarrow> \<not> is_absolute q \<Longrightarrow> place env (path_append p q) = place env p @ path_names q"
  by (simp add: place_def)

lemma plain_path_append:
  "plain_path p \<Longrightarrow> \<not> is_absolute q \<Longrightarrow> plain_names (path_names q) \<Longrightarrow> plain_path (path_append p q)"
  by (simp add: plain_path_def)

lemma path_names_no_slash: "s \<in> set (path_names p) \<Longrightarrow> s \<noteq> [] \<and> CHR ''/'' \<notin> set s"
  by (auto simp: path_names_def dest: split_on_no_sep)

lemma path_names_join:
  "\<forall>s\<in>set ns. s \<noteq> [] \<and> CHR ''/'' \<notin> set s \<Longrightarrow> path_names (join_with (CHR ''/'') ns) = ns"
  by (cases "ns = []") (auto simp: path_names_def split_join_with filter_id_conv)

lemma normal_names_plain: "plain_names ns \<Longrightarrow> normal_names a kept ns = kept @ ns"
  by (induction ns arbitrary: kept) simp_all

text \<open>The normal form of a path without dots: its names, and a separator at the end if it had one.\<close>

lemma lexically_normal_plain:
  assumes "plain_path p"
  shows "lexically_normal p =
    (if path_names p = [] then ''/''
     else (if is_absolute p then ''/'' else []) @ join_with (CHR ''/'') (path_names p) @
          (if last p = CHR ''/'' then ''/'' else []))"
proof -
  have p: "p \<noteq> []" "plain_names (path_names p)"
    using assms by (simp_all add: plain_path_def)
  then have n: "normal_names (is_absolute p) [] (path_names p) = path_names p"
    by (simp add: normal_names_plain)
  have abs: "is_absolute p" if "path_names p = []"
  proof (rule ccontr)
    assume "\<not> is_absolute p"
    then have "p \<noteq> []" "hd p \<noteq> CHR ''/''"
      using p by (simp_all add: is_absolute_def)
    then show False
      using first_piece_nonempty [of p] that by (simp add: path_names_def)
  qed
  have "last (path_names p) \<noteq> ''.'' \<and> last (path_names p) \<noteq> ''..''" if "path_names p \<noteq> []"
    using p(2) that by (auto simp: plain_names_def list_all_iff)
  then show ?thesis
    using p n abs by (simp add: lexically_normal_def)
qed

end
