(* ===== verification/Zip_Format.thy ===== *)
theory Zip_Format
  imports Core_Path
begin

section \<open>libs/package: the ZIP records the archive code reads and writes (archive.cpp)\<close>

text \<open>
  The byte level of \<open>archive.cpp\<close>: the little-endian writers on an output stream, the
  \<open>ByteReader\<close>, local headers and their patch, the central directory and the end-of-central-directory
  record, with their readers.  A stream on a regular file is its contents and a position; writing to
  it does not fail in the model, so the \<open>EnsureStreamOk\<close> and \<open>tellp\<close> checks of the writer hold.  A
  file read is its contents.  On-disk fields are words of their width; \<open>std::uint64_t\<close> sizes and
  offsets, which hold sums of a few 32-bit values, are natural numbers.
\<close>

unbundle bit_operations_syntax

type_synonym u16 = "16 word"

definition kBufferSize :: nat where "kBufferSize = 64 * 1024"
definition kLocalFileHeaderSignature :: u32 where "kLocalFileHeaderSignature = 0x04034b50"
definition kCentralDirectorySignature :: u32 where "kCentralDirectorySignature = 0x02014b50"
definition kEndOfCentralDirectorySignature :: u32 where
  "kEndOfCentralDirectorySignature = 0x06054b50"
definition kZipVersion :: u16 where "kZipVersion = 20"
definition kGeneralPurposeUtf8 :: u16 where "kGeneralPurposeUtf8 = 0x0800"
definition kStoredCompressionMethod :: u16 where "kStoredCompressionMethod = 0"
definition kDeflatedCompressionMethod :: u16 where "kDeflatedCompressionMethod = 8"
definition kUnixOsCode :: u16 where "kUnixOsCode = 3"
definition kUnixFileTypeMask :: u32 where "kUnixFileTypeMask = 0xF000"
definition kUnixRegularFileType :: u32 where "kUnixRegularFileType = 0x8000"
definition kUnixSymlinkFileType :: u32 where "kUnixSymlinkFileType = 0xA000"
definition kManifestPath :: string where "kManifestPath = ''META/manifest.json''"

lemmas zip_constants = kLocalFileHeaderSignature_def kCentralDirectorySignature_def
  kEndOfCentralDirectorySignature_def kZipVersion_def kGeneralPurposeUtf8_def
  kStoredCompressionMethod_def kDeflatedCompressionMethod_def kUnixOsCode_def
  kUnixFileTypeMask_def kUnixRegularFileType_def kUnixSymlinkFileType_def

record archive_record =
  ar_path :: string
  ar_executable :: bool
  ar_compressed_size :: nat
  ar_uncompressed_size :: nat
  ar_local_header_offset :: nat
  ar_crc32 :: u32
  ar_compression_method :: u16
  ar_flags :: u16
  ar_version_made_by :: u16

record end_of_central_directory =
  eocd_offset :: nat
  eocd_size :: nat
  eocd_entry_count :: nat

record file_write_stats =
  fw_crc32 :: u32
  fw_compressed_size :: nat
  fw_uncompressed_size :: nat

record local_file_info =
  lf_method :: u16
  lf_flags :: u16
  lf_crc32 :: u32
  lf_compressed_size :: u32
  lf_uncompressed_size :: u32
  lf_data_offset :: nat

subsection \<open>Paths of archive members\<close>

definition IsWindowsDrivePrefix :: "string \<Rightarrow> bool" where
  "IsWindowsDrivePrefix value \<longleftrightarrow>
     2 \<le> length value \<and> isalpha (value ! 0) \<and> value ! 1 = CHR '':''"

definition IsSafeRelativeArchivePath :: "string \<Rightarrow> bool" where
  "IsSafeRelativeArchivePath value =
     (if value = [] then False
      else if hd value = CHR ''/'' \<or> hd value = CHR 0x5C \<or> last value = CHR ''/'' \<or>
              last value = CHR 0x5C \<or> CHR 0x5C \<in> set value then False
      else if IsWindowsDrivePrefix value then False
      else list_all (\<lambda>part. \<not> (part = [] \<or> part = ''.'' \<or> part = ''..''))
             (split_on (CHR ''/'') value))"

text \<open>\<open>base\<close> and \<open>candidate\<close> are the generic strings of the two paths.\<close>

definition IsWithinBase :: "string \<Rightarrow> string \<Rightarrow> bool" where
  "IsWithinBase base candidate =
     (if candidate = base then True
      else if length candidate \<le> length base then False
      else if take (length base) candidate \<noteq> base then False
      else if base \<noteq> [] \<and> last base = CHR ''/'' then True
      else candidate ! length base = CHR ''/'')"

subsection \<open>Output streams and the little-endian writers\<close>

record ostream =
  os_data :: "u8 list"
  os_pos :: nat

definition new_ostream :: ostream where
  "new_ostream = \<lparr>os_data = [], os_pos = 0\<rparr>"

text \<open>Bytes written behind the end of the data leave a hole of zero bytes.\<close>

definition stream_write :: "ostream \<Rightarrow> u8 list \<Rightarrow> ostream" where
  "stream_write s bs =
     (let data = os_data s @ replicate (os_pos s - length (os_data s)) 0 in
      \<lparr>os_data = take (os_pos s) data @ bs @ drop (os_pos s + length bs) data,
       os_pos = os_pos s + length bs\<rparr>)"

definition seekp :: "nat \<Rightarrow> ostream \<Rightarrow> ostream" where
  "seekp pos s = s\<lparr>os_pos := pos\<rparr>"

definition le16 :: "u16 \<Rightarrow> u8 list" where
  "le16 v = [ucast (v AND 0xff), ucast (drop_bit 8 v AND 0xff)]"

definition le32 :: "u32 \<Rightarrow> u8 list" where
  "le32 v = [ucast (v AND 0xff), ucast (drop_bit 8 v AND 0xff),
             ucast (drop_bit 16 v AND 0xff), ucast (drop_bit 24 v AND 0xff)]"

definition WriteU16 :: "u16 \<Rightarrow> ostream \<Rightarrow> ostream" where
  "WriteU16 v s = stream_write s (le16 v)"

definition WriteU32 :: "u32 \<Rightarrow> ostream \<Rightarrow> ostream" where
  "WriteU32 v s = stream_write s (le32 v)"

definition write_string :: "string \<Rightarrow> ostream \<Rightarrow> ostream" where
  "write_string p s = stream_write s (bytes_of_string p)"

definition u16_of_size :: "nat \<Rightarrow> u16" where "u16_of_size n = word_of_nat n"
definition u32_of_size :: "nat \<Rightarrow> u32" where "u32_of_size n = word_of_nat n"

definition WriteLocalFileHeader :: "string \<Rightarrow> ostream \<Rightarrow> ostream" where
  "WriteLocalFileHeader path =
     write_string path \<circ> WriteU16 0 \<circ> WriteU16 (u16_of_size (length path)) \<circ>
     WriteU32 0 \<circ> WriteU32 0 \<circ> WriteU32 0 \<circ> WriteU16 0 \<circ> WriteU16 0 \<circ>
     WriteU16 kDeflatedCompressionMethod \<circ> WriteU16 kGeneralPurposeUtf8 \<circ>
     WriteU16 kZipVersion \<circ> WriteU32 kLocalFileHeaderSignature"

definition PatchLocalFileHeader :: "nat \<Rightarrow> file_write_stats \<Rightarrow> ostream \<Rightarrow> ostream" where
  "PatchLocalFileHeader header_offset stats stream =
     (let current_position = os_pos stream in
      seekp current_position
        (WriteU32 (u32_of_size (fw_uncompressed_size stats))
          (WriteU32 (u32_of_size (fw_compressed_size stats))
            (WriteU32 (fw_crc32 stats) (seekp (header_offset + 14) stream)))))"

definition FileModeForEntry :: "bool \<Rightarrow> u32" where
  "FileModeForEntry executable = (if executable then 0x81ED else 0x81A4)"

definition WriteCentralDirectoryEntry :: "archive_record \<Rightarrow> ostream \<Rightarrow> ostream" where
  "WriteCentralDirectoryEntry e =
     write_string (ar_path e) \<circ> WriteU32 (u32_of_size (ar_local_header_offset e)) \<circ>
     WriteU32 (push_bit 16 (FileModeForEntry (ar_executable e))) \<circ>
     WriteU16 0 \<circ> WriteU16 0 \<circ> WriteU16 0 \<circ> WriteU16 0 \<circ>
     WriteU16 (u16_of_size (length (ar_path e))) \<circ>
     WriteU32 (u32_of_size (ar_uncompressed_size e)) \<circ>
     WriteU32 (u32_of_size (ar_compressed_size e)) \<circ> WriteU32 (ar_crc32 e) \<circ>
     WriteU16 0 \<circ> WriteU16 0 \<circ> WriteU16 (ar_compression_method e) \<circ> WriteU16 (ar_flags e) \<circ>
     WriteU16 kZipVersion \<circ> WriteU16 (push_bit 8 kUnixOsCode OR kZipVersion) \<circ>
     WriteU32 kCentralDirectorySignature"

definition WriteEndOfCentralDirectory :: "nat \<Rightarrow> nat \<Rightarrow> nat \<Rightarrow> ostream \<Rightarrow> ostream" where
  "WriteEndOfCentralDirectory entries nbytes offset =
     WriteU16 0 \<circ> WriteU32 (u32_of_size offset) \<circ> WriteU32 (u32_of_size nbytes) \<circ>
     WriteU16 (u16_of_size entries) \<circ> WriteU16 (u16_of_size entries) \<circ>
     WriteU16 0 \<circ> WriteU16 0 \<circ> WriteU32 kEndOfCentralDirectorySignature"

subsection \<open>ByteReader\<close>

record byte_reader =
  br_data :: "u8 list"
  br_offset :: nat

definition Remaining :: "byte_reader \<Rightarrow> nat" where
  "Remaining r = length (br_data r) - br_offset r"

definition Require :: "nat \<Rightarrow> byte_reader \<Rightarrow> byte_reader result" where
  "Require n r =
     (if Remaining r < n then Inl (Runtime_error ''archive payload is truncated'') else Inr r)"

definition advance :: "nat \<Rightarrow> byte_reader \<Rightarrow> byte_reader" where
  "advance n r = r\<lparr>br_offset := br_offset r + n\<rparr>"

definition u16_at :: "u8 list \<Rightarrow> nat \<Rightarrow> u16" where
  "u16_at data offset = ucast (data ! offset) OR push_bit 8 (ucast (data ! (offset + 1)))"

definition u32_at :: "u8 list \<Rightarrow> nat \<Rightarrow> u32" where
  "u32_at data offset =
     ucast (data ! offset) OR push_bit 8 (ucast (data ! (offset + 1))) OR
     push_bit 16 (ucast (data ! (offset + 2))) OR push_bit 24 (ucast (data ! (offset + 3)))"

definition ReadU16 :: "byte_reader \<Rightarrow> (u16 \<times> byte_reader) result" where
  "ReadU16 r =
     bind_res (Require 2 r) (\<lambda>r. Inr (u16_at (br_data r) (br_offset r), advance 2 r))"

definition ReadU32 :: "byte_reader \<Rightarrow> (u32 \<times> byte_reader) result" where
  "ReadU32 r =
     bind_res (Require 4 r) (\<lambda>r. Inr (u32_at (br_data r) (br_offset r), advance 4 r))"

definition ReadString :: "nat \<Rightarrow> byte_reader \<Rightarrow> (string \<times> byte_reader) result" where
  "ReadString n r =
     bind_res (Require n r)
       (\<lambda>r. Inr (string_of_bytes (take n (drop (br_offset r) (br_data r))), advance n r))"

definition Skip :: "nat \<Rightarrow> byte_reader \<Rightarrow> byte_reader result" where
  "Skip n r = bind_res (Require n r) (\<lambda>r. Inr (advance n r))"

definition ReadU32FromTail :: "u8 list \<Rightarrow> nat \<Rightarrow> u32" where
  "ReadU32FromTail data offset = u32_at data offset"

definition ReadU16FromTail :: "u8 list \<Rightarrow> nat \<Rightarrow> u16" where
  "ReadU16FromTail data offset = u16_at data offset"

subsection \<open>Files and the end-of-central-directory record\<close>

definition ReadFileRange :: "string \<Rightarrow> u8 list \<Rightarrow> nat \<Rightarrow> nat \<Rightarrow> u8 list result" where
  "ReadFileRange path file offset nbytes =
     (let contents = take nbytes (drop offset file) in
      if length contents \<noteq> nbytes then Inl (Runtime_error (''failed to read file range: '' @ path))
      else Inr contents)"

definition eocd_at :: "string \<Rightarrow> u8 list \<Rightarrow> nat \<Rightarrow> end_of_central_directory option result" where
  "eocd_at path tail index =
     (if ReadU32FromTail tail index \<noteq> kEndOfCentralDirectorySignature then Inr None
      else
        let offset = index + 4;
            disk_number = ReadU16FromTail tail offset;
            central_directory_disk = ReadU16FromTail tail (offset + 2);
            entries_on_disk = ReadU16FromTail tail (offset + 4);
            total_entries = ReadU16FromTail tail (offset + 6);
            central_directory_size = ReadU32FromTail tail (offset + 8);
            central_directory_offset = ReadU32FromTail tail (offset + 12);
            comment_length = ReadU16FromTail tail (offset + 16)
        in if index + 22 + unat comment_length \<noteq> length tail then Inr None
           else if disk_number \<noteq> 0 \<or> central_directory_disk \<noteq> 0 \<or> entries_on_disk \<noteq> total_entries
           then Inl (Runtime_error (''multi-disk ZIP archives are not supported: '' @ path))
           else if central_directory_size = 0xffffffff \<or> central_directory_offset = 0xffffffff
           then Inl (Runtime_error (''ZIP64 archives are not supported: '' @ path))
           else Inr (Some \<lparr>eocd_offset = unat central_directory_offset,
                           eocd_size = unat central_directory_size,
                           eocd_entry_count = unat total_entries\<rparr>))"

text \<open>The loop \<open>for (index = tail.size() - 22 + 1; index-- > 0;)\<close>.\<close>

fun locate_eocd :: "string \<Rightarrow> u8 list \<Rightarrow> nat \<Rightarrow> end_of_central_directory result" where
  "locate_eocd path tail 0 =
     Inl (Runtime_error (''archive is missing the EOCD record: '' @ path))"
| "locate_eocd path tail (Suc index) =
     (case eocd_at path tail index of
        Inl e \<Rightarrow> Inl e
      | Inr (Some eocd) \<Rightarrow> Inr eocd
      | Inr None \<Rightarrow> locate_eocd path tail index)"

definition LocateEndOfCentralDirectory ::
    "string \<Rightarrow> u8 list \<Rightarrow> end_of_central_directory result" where
  "LocateEndOfCentralDirectory path file =
     (let file_size = length file in
      if file_size < 22
      then Inl (Runtime_error (''archive is too small to be a ZIP file: '' @ path))
      else
        let tail_size = min file_size (22 + 0xffff) in
        bind_res (ReadFileRange path file (file_size - tail_size) tail_size) (\<lambda>tail.
          if length tail < 22
          then Inl (Runtime_error (''archive is too small to contain EOCD: '' @ path))
          else locate_eocd path tail (length tail - 22 + 1)))"

subsection \<open>The central directory\<close>

text \<open>
  The fixed part of a central directory entry, its name, extra field and comment, read in the
  order of the code.
\<close>

record central_entry =
  ce_version_made_by :: u16
  ce_version_needed :: u16
  ce_flags :: u16
  ce_method :: u16
  ce_crc32 :: u32
  ce_compressed_size :: u32
  ce_uncompressed_size :: u32
  ce_external_attributes :: u32
  ce_local_header_offset :: u32
  ce_path :: string

definition ReadCentralEntry ::
    "string \<Rightarrow> byte_reader \<Rightarrow> (central_entry \<times> byte_reader) result" where
  "ReadCentralEntry archive_path reader =
     (if Remaining reader < 46
      then Inl (Runtime_error (''central directory entry is truncated: '' @ archive_path))
      else bind_res (ReadU32 reader) (\<lambda>(signature, r).
        if signature \<noteq> kCentralDirectorySignature
        then Inl (Runtime_error (''central directory signature mismatch: '' @ archive_path))
        else
          bind_res (ReadU16 r) (\<lambda>(version_made_by, r).
          bind_res (ReadU16 r) (\<lambda>(version_needed, r).
          bind_res (ReadU16 r) (\<lambda>(flags, r).
          bind_res (ReadU16 r) (\<lambda>(compression_method, r).
          bind_res (Skip 4 r) (\<lambda>r.
          bind_res (ReadU32 r) (\<lambda>(crc32_value, r).
          bind_res (ReadU32 r) (\<lambda>(compressed_size, r).
          bind_res (ReadU32 r) (\<lambda>(uncompressed_size, r).
          bind_res (ReadU16 r) (\<lambda>(name_length, r).
          bind_res (ReadU16 r) (\<lambda>(extra_length, r).
          bind_res (ReadU16 r) (\<lambda>(comment_length, r).
          bind_res (Skip 4 r) (\<lambda>r.
          bind_res (ReadU32 r) (\<lambda>(external_attributes, r).
          bind_res (ReadU32 r) (\<lambda>(local_header_offset, r).
          bind_res (ReadString (unat name_length) r) (\<lambda>(path, r).
          bind_res (Skip (unat extra_length) r) (\<lambda>r.
          bind_res (Skip (unat comment_length) r) (\<lambda>r.
            Inr (\<lparr>ce_version_made_by = version_made_by, ce_version_needed = version_needed,
                  ce_flags = flags, ce_method = compression_method, ce_crc32 = crc32_value,
                  ce_compressed_size = compressed_size, ce_uncompressed_size = uncompressed_size,
                  ce_external_attributes = external_attributes,
                  ce_local_header_offset = local_header_offset, ce_path = path\<rparr>, r))))))))))))))))))))"

text \<open>The checks on what was read, and the record it becomes.\<close>

definition CheckCentralEntry ::
    "nat \<Rightarrow> string set \<Rightarrow> central_entry \<Rightarrow> archive_record result" where
  "CheckCentralEntry archive_size seen_paths e =
     (let path = ce_path e;
          record_of = (\<lambda>executable.
            \<lparr>ar_path = path, ar_executable = executable,
             ar_compressed_size = unat (ce_compressed_size e),
             ar_uncompressed_size = unat (ce_uncompressed_size e),
             ar_local_header_offset = unat (ce_local_header_offset e),
             ar_crc32 = ce_crc32 e, ar_compression_method = ce_method e,
             ar_flags = ce_flags e, ar_version_made_by = ce_version_made_by e\<rparr>)
      in
      if ce_flags e AND 0x0001 \<noteq> 0
      then Inl (Runtime_error (''encrypted ZIP entries are not supported: '' @ path))
      else if ce_flags e AND 0x0008 \<noteq> 0
      then Inl (Runtime_error (''ZIP data descriptors are not supported: '' @ path))
      else if ce_flags e AND 0x0040 \<noteq> 0
      then Inl (Runtime_error (''strongly encrypted ZIP entries are not supported: '' @ path))
      else if ce_method e \<noteq> kStoredCompressionMethod \<and> ce_method e \<noteq> kDeflatedCompressionMethod
      then Inl (Runtime_error (''unsupported ZIP compression method: '' @ path))
      else if ce_compressed_size e = 0xffffffff \<or> ce_uncompressed_size e = 0xffffffff \<or>
              ce_local_header_offset e = 0xffffffff
      then Inl (Runtime_error (''ZIP64 archives are not supported: '' @ path))
      else if \<not> IsSafeRelativeArchivePath path
      then Inl (Runtime_error (''archive entry path is not safe: '' @ path))
      else if path \<in> seen_paths
      then Inl (Runtime_error (''duplicate archive entry path: '' @ path))
      else if archive_size \<le> unat (ce_local_header_offset e)
      then Inl (Runtime_error (''archive entry points outside the ZIP file: '' @ path))
      else if ce_method e = kStoredCompressionMethod \<and>
              ce_compressed_size e \<noteq> ce_uncompressed_size e
      then Inl (Runtime_error (''stored ZIP entry has mismatched sizes: '' @ path))
      else if drop_bit 8 (ce_version_made_by e) = kUnixOsCode then
        let unix_mode = drop_bit 16 (ce_external_attributes e);
            file_type = unix_mode AND kUnixFileTypeMask
        in if file_type = kUnixSymlinkFileType
           then Inl (Runtime_error (''symlink ZIP entries are not supported: '' @ path))
           else if file_type \<noteq> 0 \<and> file_type \<noteq> kUnixRegularFileType
           then Inl (Runtime_error (''unsupported ZIP entry file type: '' @ path))
           else Inr (record_of (unix_mode AND 0x49 \<noteq> 0))
      else Inr (record_of False))"

fun central_loop ::
    "string \<Rightarrow> nat \<Rightarrow> nat \<Rightarrow> string set \<Rightarrow> byte_reader \<Rightarrow>
     (archive_record list \<times> byte_reader) result" where
  "central_loop archive_path archive_size 0 seen_paths reader = Inr ([], reader)"
| "central_loop archive_path archive_size (Suc n) seen_paths reader =
     bind_res (ReadCentralEntry archive_path reader) (\<lambda>(e, r).
     bind_res (CheckCentralEntry archive_size seen_paths e) (\<lambda>entry.
     bind_res (central_loop archive_path archive_size n (insert (ce_path e) seen_paths) r)
       (\<lambda>(entries, r). Inr (entry # entries, r))))"

definition ParseCentralDirectory :: "string \<Rightarrow> u8 list \<Rightarrow> archive_record list result" where
  "ParseCentralDirectory archive_path file =
     bind_res (LocateEndOfCentralDirectory archive_path file) (\<lambda>eocd.
       let archive_size = length file in
       if archive_size < eocd_offset eocd + eocd_size eocd
       then Inl (Runtime_error (''central directory is truncated: '' @ archive_path))
       else
         bind_res (ReadFileRange archive_path file (eocd_offset eocd) (eocd_size eocd))
           (\<lambda>central_directory.
         bind_res (central_loop archive_path archive_size (eocd_entry_count eocd) {}
                     \<lparr>br_data = central_directory, br_offset = 0\<rparr>) (\<lambda>(entries, reader).
           if Remaining reader \<noteq> 0
           then Inl (Runtime_error (''central directory contains trailing data: '' @ archive_path))
           else Inr entries)))"

subsection \<open>Local headers\<close>

text \<open>
  Reading past the end of the file leaves a short count, which the code reports.  \<open>ignore\<close> sets
  only the end-of-file bit, so the check behind it does not fire: a short extra field is caught by
  the comparison with the archive's size.
\<close>

definition ReadLocalFileInfo :: "u8 list \<Rightarrow> archive_record \<Rightarrow> local_file_info result" where
  "ReadLocalFileInfo file entry =
     (let header = take 30 (drop (ar_local_header_offset entry) file);
          reader = \<lparr>br_data = header, br_offset = 0\<rparr>
      in
      if length header \<noteq> 30
      then Inl (Runtime_error (''local file header is truncated: '' @ ar_path entry))
      else bind_res (ReadU32 reader) (\<lambda>(signature, r).
        if signature \<noteq> kLocalFileHeaderSignature
        then Inl (Runtime_error (''local file header signature mismatch: '' @ ar_path entry))
        else
          bind_res (Skip 2 r) (\<lambda>r.
          bind_res (ReadU16 r) (\<lambda>(flags, r).
          bind_res (ReadU16 r) (\<lambda>(compression_method, r).
          bind_res (Skip 4 r) (\<lambda>r.
          bind_res (ReadU32 r) (\<lambda>(crc32_value, r).
          bind_res (ReadU32 r) (\<lambda>(compressed_size, r).
          bind_res (ReadU32 r) (\<lambda>(uncompressed_size, r).
          bind_res (ReadU16 r) (\<lambda>(name_length, r).
          bind_res (ReadU16 r) (\<lambda>(extra_length, r).
            let name_bytes = take (unat name_length) (drop (ar_local_header_offset entry + 30) file);
                data_offset = ar_local_header_offset entry + 30 + unat name_length + unat extra_length
            in
            if flags AND 0x0001 \<noteq> 0
            then Inl (Runtime_error (''encrypted ZIP entries are not supported: '' @ ar_path entry))
            else if flags AND 0x0008 \<noteq> 0
            then Inl (Runtime_error (''ZIP data descriptors are not supported: '' @ ar_path entry))
            else if compression_method \<noteq> ar_compression_method entry
            then Inl (Runtime_error (''ZIP compression method mismatch: '' @ ar_path entry))
            else if crc32_value \<noteq> ar_crc32 entry \<or> unat compressed_size \<noteq> ar_compressed_size entry \<or>
                    unat uncompressed_size \<noteq> ar_uncompressed_size entry
            then Inl (Runtime_error (''ZIP local header metadata mismatch: '' @ ar_path entry))
            else if length name_bytes \<noteq> unat name_length
            then Inl (Runtime_error (''local file name is truncated: '' @ ar_path entry))
            else if string_of_bytes name_bytes \<noteq> ar_path entry
            then Inl (Runtime_error (''ZIP local header path mismatch: '' @ ar_path entry))
            else if length file < data_offset + ar_compressed_size entry
            then Inl (Runtime_error (''ZIP entry is truncated: '' @ ar_path entry))
            else Inr \<lparr>lf_method = compression_method, lf_flags = flags, lf_crc32 = crc32_value,
                      lf_compressed_size = compressed_size,
                      lf_uncompressed_size = uncompressed_size,
                      lf_data_offset = data_offset\<rparr>)))))))))))"

definition FindArchiveRecord :: "archive_record list \<Rightarrow> string \<Rightarrow> archive_record result" where
  "FindArchiveRecord records path =
     option_res (Runtime_error (''archive entry not found: '' @ path))
       (find (\<lambda>r. ar_path r = path) records)"

subsection \<open>Reading back what was written\<close>

lemma le16_length [simp]: "length (le16 v) = 2"
  by (simp add: le16_def)

lemma le32_length [simp]: "length (le32 v) = 4"
  by (simp add: le32_def)

lemma join_le16: "ucast (ucast (v AND 0xff) :: u8) OR
    push_bit 8 (ucast (ucast (drop_bit 8 v AND 0xff) :: u8)) = (v :: u16)" (is "?w = v")
proof (rule bit_word_eqI)
  fix k assume "k < LENGTH(16)"
  moreover have ff: "(0xff :: u16) = mask 8"
    by (simp add: mask_eq_exp_minus_1)
  ultimately show "bit ?w k = bit v k"
    unfolding ff by (cases "k < 8") (auto simp: bit_simps)
qed

lemma join_le32: "ucast (ucast (v AND 0xff) :: u8) OR
    push_bit 8 (ucast (ucast (drop_bit 8 v AND 0xff) :: u8)) OR
    push_bit 16 (ucast (ucast (drop_bit 16 v AND 0xff) :: u8)) OR
    push_bit 24 (ucast (ucast (drop_bit 24 v AND 0xff) :: u8)) = (v :: u32)" (is "?w = v")
proof (rule bit_word_eqI)
  fix k assume "k < LENGTH(32)"
  then consider "k < 8" | "8 \<le> k" "k < 16" | "16 \<le> k" "k < 24" | "24 \<le> k" "k < 32"
    by fastforce
  moreover have ff: "(0xff :: u32) = mask 8"
    by (simp add: mask_eq_exp_minus_1)
  ultimately show "bit ?w k = bit v k"
    unfolding ff by cases (auto simp: bit_simps)
qed

lemma u16_at_le16 [simp]: "u16_at (pre @ le16 v @ rest) (length pre) = v"
  using join_le16 [of v] by (simp add: u16_at_def le16_def nth_append)

lemma u32_at_le32 [simp]: "u32_at (pre @ le32 v @ rest) (length pre) = v"
  using join_le32 [of v] by (simp add: u32_at_def le32_def nth_append)

text \<open>A reader that has consumed \<open>pre\<close> and is about to read \<open>rest\<close>.\<close>

definition reader_at :: "u8 list \<Rightarrow> u8 list \<Rightarrow> byte_reader" where
  "reader_at pre rest = \<lparr>br_data = pre @ rest, br_offset = length pre\<rparr>"

lemma Remaining_reader_at [simp]: "Remaining (reader_at pre rest) = length rest"
  by (simp add: Remaining_def reader_at_def)

lemma ReadU16_reader_at [simp]:
  "ReadU16 (reader_at pre (le16 v @ rest)) = Inr (v, reader_at (pre @ le16 v) rest)"
  by (simp add: ReadU16_def Require_def) (simp add: reader_at_def advance_def)

lemma ReadU32_reader_at [simp]:
  "ReadU32 (reader_at pre (le32 v @ rest)) = Inr (v, reader_at (pre @ le32 v) rest)"
  by (simp add: ReadU32_def Require_def) (simp add: reader_at_def advance_def)

lemma Skip_reader_at: "length bs = n \<Longrightarrow>
    Skip n (reader_at pre (bs @ rest)) = Inr (reader_at (pre @ bs) rest)"
  by (simp add: Skip_def Require_def) (simp add: reader_at_def advance_def)

lemma Skip_0 [simp]: "Skip 0 r = Inr r"
  by (simp add: Skip_def Require_def advance_def)

lemma ReadString_reader_at [simp]: "length s = n \<Longrightarrow>
    ReadString n (reader_at pre (bytes_of_string s @ rest)) =
      Inr (s, reader_at (pre @ bytes_of_string s) rest)"
  by (simp add: ReadString_def Require_def) (simp add: reader_at_def advance_def)

lemma Skip_le16s [simp]: "Skip 4 (reader_at pre (le16 a @ le16 b @ rest)) =
    Inr (reader_at (pre @ le16 a @ le16 b) rest)"
  using Skip_reader_at [of "le16 a @ le16 b" 4] by simp

lemma Skip_le16 [simp]: "Skip 2 (reader_at pre (le16 a @ rest)) = Inr (reader_at (pre @ le16 a) rest)"
  by (simp add: Skip_reader_at)

subsection \<open>What the writers put on a stream\<close>

definition stream_of :: "u8 list \<Rightarrow> ostream" where
  "stream_of data = \<lparr>os_data = data, os_pos = length data\<rparr>"

lemma new_ostream_stream_of: "new_ostream = stream_of []"
  by (simp add: new_ostream_def stream_of_def)

lemma stream_of_sel [simp]:
  "os_pos (stream_of d) = length d" "os_data (stream_of d) = d"
  by (simp_all add: stream_of_def)

lemma seekp_end [simp]: "seekp (length d) (stream_of d) = stream_of d"
  by (simp add: seekp_def stream_of_def)

lemma stream_write_end [simp]: "stream_write (stream_of d) bs = stream_of (d @ bs)"
  by (simp add: stream_write_def stream_of_def)

lemma Write_end [simp]:
  "WriteU16 a (stream_of d) = stream_of (d @ le16 a)"
  "WriteU32 b (stream_of d) = stream_of (d @ le32 b)"
  "write_string p (stream_of d) = stream_of (d @ bytes_of_string p)"
  by (simp_all add: WriteU16_def WriteU32_def write_string_def)

definition local_header_bytes :: "u32 \<Rightarrow> u32 \<Rightarrow> u32 \<Rightarrow> string \<Rightarrow> u8 list" where
  "local_header_bytes crc csize usize path =
     le32 kLocalFileHeaderSignature @ le16 kZipVersion @ le16 kGeneralPurposeUtf8 @
     le16 kDeflatedCompressionMethod @ le16 0 @ le16 0 @ le32 crc @ le32 csize @ le32 usize @
     le16 (u16_of_size (length path)) @ le16 0 @ bytes_of_string path"

definition central_entry_bytes :: "archive_record \<Rightarrow> u8 list" where
  "central_entry_bytes e =
     le32 kCentralDirectorySignature @ le16 (push_bit 8 kUnixOsCode OR kZipVersion) @
     le16 kZipVersion @ le16 (ar_flags e) @ le16 (ar_compression_method e) @ le16 0 @ le16 0 @
     le32 (ar_crc32 e) @ le32 (u32_of_size (ar_compressed_size e)) @
     le32 (u32_of_size (ar_uncompressed_size e)) @ le16 (u16_of_size (length (ar_path e))) @
     le16 0 @ le16 0 @ le16 0 @ le16 0 @
     le32 (push_bit 16 (FileModeForEntry (ar_executable e))) @
     le32 (u32_of_size (ar_local_header_offset e)) @ bytes_of_string (ar_path e)"

definition eocd_bytes :: "nat \<Rightarrow> nat \<Rightarrow> nat \<Rightarrow> u8 list" where
  "eocd_bytes entries csize offset =
     le32 kEndOfCentralDirectorySignature @ le16 0 @ le16 0 @ le16 (u16_of_size entries) @
     le16 (u16_of_size entries) @ le32 (u32_of_size csize) @ le32 (u32_of_size offset) @ le16 0"

lemma local_header_bytes_length [simp]:
  "length (local_header_bytes crc cs us path) = 30 + length path"
  by (simp add: local_header_bytes_def)

lemma central_entry_bytes_length [simp]:
  "length (central_entry_bytes e) = 46 + length (ar_path e)"
  by (simp add: central_entry_bytes_def)

lemma eocd_bytes_length [simp]: "length (eocd_bytes n s t) = 22"
  by (simp add: eocd_bytes_def)

lemma WriteLocalFileHeader_end [simp]:
  "WriteLocalFileHeader path (stream_of d) = stream_of (d @ local_header_bytes 0 0 0 path)"
  by (simp add: WriteLocalFileHeader_def local_header_bytes_def)

lemma WriteCentralDirectoryEntry_end [simp]:
  "WriteCentralDirectoryEntry e (stream_of d) = stream_of (d @ central_entry_bytes e)"
  by (simp add: WriteCentralDirectoryEntry_def central_entry_bytes_def)

lemma WriteEndOfCentralDirectory_end [simp]:
  "WriteEndOfCentralDirectory n cs t (stream_of d) = stream_of (d @ eocd_bytes n cs t)"
  by (simp add: WriteEndOfCentralDirectory_def eocd_bytes_def)

lemma stream_write_middle:
  assumes "length bs = length old"
  shows "stream_write \<lparr>os_data = pre @ old @ rest, os_pos = length pre\<rparr> bs =
           \<lparr>os_data = pre @ bs @ rest, os_pos = length (pre @ bs)\<rparr>"
  using assms by (simp add: stream_write_def)

lemma PatchLocalFileHeader_end [simp]:
  "PatchLocalFileHeader (length d) stats
     (stream_of (d @ local_header_bytes 0 0 0 path @ body)) =
   stream_of (d @ local_header_bytes (fw_crc32 stats) (u32_of_size (fw_compressed_size stats))
                    (u32_of_size (fw_uncompressed_size stats)) path @ body)"
proof -
  let ?h = "le32 kLocalFileHeaderSignature @ le16 kZipVersion @ le16 kGeneralPurposeUtf8 @
     le16 kDeflatedCompressionMethod @ le16 0 @ le16 0"
  let ?t = "le16 (u16_of_size (length path)) @ le16 0 @ bytes_of_string path @ body"
  have w: "WriteU32 v \<lparr>os_data = pre @ le32 0 @ rest, os_pos = n\<rparr> =
      \<lparr>os_data = (pre @ le32 v) @ rest, os_pos = length (pre @ le32 v)\<rparr>"
    if "n = length pre" for v n and pre rest :: "u8 list"
    using that stream_write_middle [of "le32 v" "le32 0" pre rest] by (simp add: WriteU32_def)
  have 1: "seekp (length d + 14) (stream_of (d @ local_header_bytes 0 0 0 path @ body)) =
      \<lparr>os_data = (d @ ?h) @ le32 0 @ le32 0 @ le32 0 @ ?t, os_pos = length (d @ ?h)\<rparr>"
    by (simp add: seekp_def stream_of_def local_header_bytes_def)
  show ?thesis
    unfolding PatchLocalFileHeader_def 1 Let_def
    by (subst w, simp, subst w, simp, subst w, simp)
      (simp add: seekp_def stream_of_def local_header_bytes_def)
qed

lemma u16_of_size_unat [simp]: "n < 65536 \<Longrightarrow> unat (u16_of_size n) = n"
  by (simp add: u16_of_size_def unat_of_nat)

lemma u32_of_size_unat [simp]: "n < 4294967296 \<Longrightarrow> unat (u32_of_size n) = n"
  by (simp add: u32_of_size_def unat_of_nat)

lemma u32_of_size_max:
  assumes "n < 4294967296"
  shows "u32_of_size n = 0xffffffff \<longleftrightarrow> n = 4294967295"
proof -
  have "u32_of_size n = 0xffffffff \<longleftrightarrow> unat (u32_of_size n) = unat (0xffffffff :: u32)"
    by (simp only: word_unat_eq_iff)
  then show ?thesis
    using assms by simp
qed

definition central_of :: "archive_record \<Rightarrow> central_entry" where
  "central_of e =
     \<lparr>ce_version_made_by = push_bit 8 kUnixOsCode OR kZipVersion, ce_version_needed = kZipVersion,
      ce_flags = ar_flags e, ce_method = ar_compression_method e, ce_crc32 = ar_crc32 e,
      ce_compressed_size = u32_of_size (ar_compressed_size e),
      ce_uncompressed_size = u32_of_size (ar_uncompressed_size e),
      ce_external_attributes = push_bit 16 (FileModeForEntry (ar_executable e)),
      ce_local_header_offset = u32_of_size (ar_local_header_offset e), ce_path = ar_path e\<rparr>"

lemma ReadCentralEntry_reader_at:
  assumes "length (ar_path e) < 65536"
  shows "ReadCentralEntry archive_path (reader_at pre (central_entry_bytes e @ rest)) =
           Inr (central_of e, reader_at (pre @ central_entry_bytes e) rest)"
proof -
  have "Remaining (reader_at pre (central_entry_bytes e @ rest)) \<ge> 46"
    by simp
  then show ?thesis
    using assms unfolding ReadCentralEntry_def
    by (simp add: central_entry_bytes_def central_of_def)
qed

text \<open>The entries the writer may produce: what its checks and the code before it guarantee.\<close>

definition writable_record :: "nat \<Rightarrow> archive_record \<Rightarrow> bool" where
  "writable_record archive_size e \<longleftrightarrow>
     IsSafeRelativeArchivePath (ar_path e) \<and> length (ar_path e) < 65536 \<and>
     ar_compressed_size e < 4294967295 \<and> ar_uncompressed_size e < 4294967295 \<and>
     ar_local_header_offset e < 4294967295 \<and> ar_local_header_offset e < archive_size \<and>
     ar_flags e = kGeneralPurposeUtf8 \<and> ar_compression_method e = kDeflatedCompressionMethod"

definition made_by_unix :: "archive_record \<Rightarrow> archive_record" where
  "made_by_unix e = e\<lparr>ar_version_made_by := push_bit 8 kUnixOsCode OR kZipVersion\<rparr>"

lemma made_by_unix_path [simp]: "ar_path (made_by_unix e) = ar_path e"
  by (simp add: made_by_unix_def)

lemma file_mode_bits:
  "drop_bit 16 (push_bit 16 (FileModeForEntry x)) AND kUnixFileTypeMask = kUnixRegularFileType"
  "drop_bit 16 (push_bit 16 (FileModeForEntry x)) AND 0x49 = 0 \<longleftrightarrow> \<not> x"
  by (cases x; simp add: FileModeForEntry_def zip_constants)+

lemma CheckCentralEntry_central_of:
  assumes "writable_record archive_size e" "ar_path e \<notin> seen"
  shows "CheckCentralEntry archive_size seen (central_of e) = Inr (made_by_unix e)"
proof -
  note u = u32_of_size_max u32_of_size_unat
  have os: "drop_bit 8 (push_bit 8 kUnixOsCode OR kZipVersion) = kUnixOsCode"
    by (simp add: zip_constants)
  have types: "kUnixRegularFileType \<noteq> kUnixSymlinkFileType"
    by (simp add: zip_constants)
  have flags: "kGeneralPurposeUtf8 AND 0x0001 = 0" "kGeneralPurposeUtf8 AND 0x0008 = 0"
    "kGeneralPurposeUtf8 AND 0x0040 = 0" "kDeflatedCompressionMethod \<noteq> kStoredCompressionMethod"
    by (simp_all add: zip_constants)
  have sizes: "ar_compressed_size e < 4294967296" "ar_uncompressed_size e < 4294967296"
    "ar_local_header_offset e < 4294967296" "\<not> archive_size \<le> ar_local_header_offset e"
    using assms(1) by (simp_all add: writable_record_def)
  show ?thesis
    using assms sizes
    by (simp add: CheckCentralEntry_def central_of_def writable_record_def flags os Let_def
        file_mode_bits types u made_by_unix_def del: drop_bit_or)
qed

lemma central_loop_entries:
  assumes "list_all (writable_record archive_size) es" "distinct (map ar_path es)"
    "set (map ar_path es) \<inter> seen = {}"
  shows "central_loop archive_path archive_size (length es) seen
           (reader_at pre (concat (map central_entry_bytes es) @ rest)) =
         Inr (map made_by_unix es, reader_at (pre @ concat (map central_entry_bytes es)) rest)"
  using assms
proof (induction es arbitrary: pre seen)
  case Nil
  then show ?case by simp
next
  case (Cons e es)
  have "length (ar_path e) < 65536"
    using Cons.prems by (simp add: writable_record_def)
  then have "ReadCentralEntry archive_path
      (reader_at pre (concat (map central_entry_bytes (e # es)) @ rest)) =
      Inr (central_of e, reader_at (pre @ central_entry_bytes e)
             (concat (map central_entry_bytes es) @ rest))"
    by (simp add: ReadCentralEntry_reader_at)
  moreover have "CheckCentralEntry archive_size seen (central_of e) = Inr (made_by_unix e)"
    using Cons.prems by (intro CheckCentralEntry_central_of) auto
  moreover have "ce_path (central_of e) = ar_path e"
    by (simp add: central_of_def)
  moreover have "central_loop archive_path archive_size (length es) (insert (ar_path e) seen)
      (reader_at (pre @ central_entry_bytes e) (concat (map central_entry_bytes es) @ rest)) =
      Inr (map made_by_unix es,
        reader_at ((pre @ central_entry_bytes e) @ concat (map central_entry_bytes es)) rest)"
    using Cons.prems by (intro Cons.IH) auto
  ultimately show ?case
    by simp
qed

lemma u_at_shift:
  "u16_at (pre @ rest) (length pre + k) = u16_at rest k"
  "u32_at (pre @ rest) (length pre + k) = u32_at rest k"
  "u16_at (pre @ rest) (k + length pre) = u16_at rest k"
  "u32_at (pre @ rest) (k + length pre) = u32_at rest k"
  by (simp_all add: u16_at_def u32_at_def nth_append)

lemma u_at_cons:
  "u16_at (le16 v @ rest) 0 = v" "u32_at (le32 w @ rest) 0 = w"
  using u16_at_le16 [of "[]" v rest] u32_at_le32 [of "[]" w rest] by simp_all

lemma eocd_fields:
  "u32_at (eocd_bytes n cs t) 0 = kEndOfCentralDirectorySignature"
  "u16_at (eocd_bytes n cs t) 4 = 0" "u16_at (eocd_bytes n cs t) 6 = 0"
  "u16_at (eocd_bytes n cs t) 8 = u16_of_size n" "u16_at (eocd_bytes n cs t) 10 = u16_of_size n"
  "u32_at (eocd_bytes n cs t) 12 = u32_of_size cs" "u32_at (eocd_bytes n cs t) 16 = u32_of_size t"
  "u16_at (eocd_bytes n cs t) 20 = 0"
proof -
  let ?s = "le32 kEndOfCentralDirectorySignature" and ?n = "le16 (u16_of_size n)"
  let ?l = "le32 (u32_of_size cs)" and ?t = "le32 (u32_of_size t)"
  show "u32_at (eocd_bytes n cs t) 0 = kEndOfCentralDirectorySignature"
    by (simp add: eocd_bytes_def u_at_cons)
  show "u16_at (eocd_bytes n cs t) 4 = 0"
    using u16_at_le16 [of ?s] by (simp add: eocd_bytes_def)
  show "u16_at (eocd_bytes n cs t) 6 = 0"
    using u16_at_le16 [of "?s @ le16 0"] by (simp add: eocd_bytes_def)
  show "u16_at (eocd_bytes n cs t) 8 = u16_of_size n"
    using u16_at_le16 [of "?s @ le16 0 @ le16 0"] by (simp add: eocd_bytes_def)
  show "u16_at (eocd_bytes n cs t) 10 = u16_of_size n"
    using u16_at_le16 [of "?s @ le16 0 @ le16 0 @ ?n"] by (simp add: eocd_bytes_def)
  show "u32_at (eocd_bytes n cs t) 12 = u32_of_size cs"
    using u32_at_le32 [of "?s @ le16 0 @ le16 0 @ ?n @ ?n"] by (simp add: eocd_bytes_def)
  show "u32_at (eocd_bytes n cs t) 16 = u32_of_size t"
    using u32_at_le32 [of "?s @ le16 0 @ le16 0 @ ?n @ ?n @ ?l"] by (simp add: eocd_bytes_def)
  show "u16_at (eocd_bytes n cs t) 20 = 0"
    using u16_at_le16 [of "?s @ le16 0 @ le16 0 @ ?n @ ?n @ ?l @ ?t" 0 "[]"]
    by (simp add: eocd_bytes_def)
qed

lemma eocd_at_end:
  assumes "n < 65536" "cs < 4294967295" "t < 4294967295"
  shows "eocd_at path (pre @ eocd_bytes n cs t) (length pre) =
           Inr (Some \<lparr>eocd_offset = t, eocd_size = cs, eocd_entry_count = n\<rparr>)"
proof -
  have "u32_of_size cs \<noteq> 0xffffffff" "u32_of_size t \<noteq> 0xffffffff"
    using assms u32_of_size_max [of cs] u32_of_size_max [of t] by simp_all
  moreover have "u32_at (pre @ eocd_bytes n cs t) (length pre) = kEndOfCentralDirectorySignature"
    using u_at_shift(2) [of pre "eocd_bytes n cs t" 0] by (simp add: eocd_fields)
  ultimately show ?thesis
    using assms
    by (simp add: eocd_at_def ReadU32FromTail_def ReadU16FromTail_def Let_def u_at_shift eocd_fields
        add.assoc)
qed

lemma LocateEndOfCentralDirectory_end:
  assumes "n < 65536" "cs < 4294967295" "t < 4294967295"
  shows "LocateEndOfCentralDirectory path (d @ eocd_bytes n cs t) =
           Inr \<lparr>eocd_offset = t, eocd_size = cs, eocd_entry_count = n\<rparr>"
proof -
  let ?f = "d @ eocd_bytes n cs t"
  let ?k = "min (length ?f) (22 + 0xffff)"
  obtain pre where pre: "drop (length ?f - ?k) ?f = pre @ eocd_bytes n cs t"
  proof
    show "drop (length ?f - ?k) ?f = drop (length ?f - ?k) d @ eocd_bytes n cs t"
      by (auto simp: min_def)
  qed
  define k where "k = ?k"
  then have "length (pre @ eocd_bytes n cs t) = k"
    unfolding pre [symmetric] by simp
  moreover have "drop (length ?f - k) ?f = pre @ eocd_bytes n cs t"
    unfolding k_def by (rule pre)
  ultimately have range: "ReadFileRange path ?f (length ?f - k) k = Inr (pre @ eocd_bytes n cs t)"
    unfolding ReadFileRange_def Let_def by (metis order_refl take_all)
  have "locate_eocd path (pre @ eocd_bytes n cs t) (Suc (length pre)) =
      Inr \<lparr>eocd_offset = t, eocd_size = cs, eocd_entry_count = n\<rparr>"
    using assms by (simp add: eocd_at_end)
  then show ?thesis
    using range [unfolded k_def]
    by (simp add: LocateEndOfCentralDirectory_def Let_def)
qed

text \<open>The whole of the reader on a body, a central directory and the closing record.\<close>

lemma ParseCentralDirectory_written:
  assumes "list_all (writable_record (length file)) es" "distinct (map ar_path es)"
    and "length es < 65536"
    and "length (concat (map central_entry_bytes es)) < 4294967295" "length body < 4294967295"
    and "file = body @ concat (map central_entry_bytes es) @
           eocd_bytes (length es) (length (concat (map central_entry_bytes es))) (length body)"
  shows "ParseCentralDirectory path file = Inr (map made_by_unix es)"
proof -
  let ?c = "concat (map central_entry_bytes es)"
  have "LocateEndOfCentralDirectory path file =
      Inr \<lparr>eocd_offset = length body, eocd_size = length ?c, eocd_entry_count = length es\<rparr>"
    using LocateEndOfCentralDirectory_end [of "length es" "length ?c" "length body" path "body @ ?c"]
      assms(3,4,5) unfolding assms(6) by simp
  moreover have "ReadFileRange path file (length body) (length ?c) = Inr ?c"
    unfolding assms(6) by (simp add: ReadFileRange_def)
  moreover have "central_loop path (length file) (length es) {} \<lparr>br_data = ?c, br_offset = 0\<rparr> =
      Inr (map made_by_unix es, reader_at ?c [])"
    using central_loop_entries [OF assms(1,2), of "{}" path "[]" "[]"]
    by (simp add: reader_at_def)
  moreover have "length body + length ?c \<le> length file"
    unfolding assms(6) by simp
  ultimately show ?thesis
    by (simp add: ParseCentralDirectory_def)
qed

text \<open>Reading a local header where one was written for the same record.\<close>

lemma ReadLocalFileInfo_written:
  assumes "file = pre @ local_header_bytes crc (u32_of_size cs) (u32_of_size us) path @ body @ rest"
    and "ar_local_header_offset e = length pre" "ar_path e = path" "length path < 65536"
    and "ar_crc32 e = crc" "ar_compressed_size e = cs" "ar_uncompressed_size e = us"
    and "cs < 4294967296" "us < 4294967296" "length body = cs"
    and "ar_compression_method e = kDeflatedCompressionMethod"
  shows "ReadLocalFileInfo file e =
           Inr \<lparr>lf_method = kDeflatedCompressionMethod, lf_flags = kGeneralPurposeUtf8, lf_crc32 = crc,
                lf_compressed_size = u32_of_size cs, lf_uncompressed_size = u32_of_size us,
                lf_data_offset = length pre + 30 + length path\<rparr>"
proof -
  let ?n = "le16 (u16_of_size (length path))"
  let ?h = "le32 kLocalFileHeaderSignature @ le16 kZipVersion @ le16 kGeneralPurposeUtf8 @
     le16 kDeflatedCompressionMethod @ le16 0 @ le16 0 @ le32 crc @ le32 (u32_of_size cs) @
     le32 (u32_of_size us) @ ?n @ le16 0"
  have split: "file = pre @ ?h @ bytes_of_string path @ body @ rest"
    using assms(1) by (simp add: local_header_bytes_def)
  have "length ?h = 30"
    by simp
  then have head: "take 30 (drop (ar_local_header_offset e) file) = ?h"
    unfolding split assms(2) by simp
  have name: "take (length path) (drop (ar_local_header_offset e + 30) file) = bytes_of_string path"
    unfolding split assms(2) using \<open>length ?h = 30\<close> by simp
  have size: "\<not> length file < length pre + 30 + length path + cs"
    using \<open>length ?h = 30\<close> assms(10) unfolding split by simp
  have reader: "\<lparr>br_data = ?h, br_offset = 0\<rparr> = reader_at [] (?h @ [])"
    by (simp add: reader_at_def)
  have flags: "kGeneralPurposeUtf8 AND 0x0001 = 0" "kGeneralPurposeUtf8 AND 0x0008 = 0"
    by (simp_all add: zip_constants)
  have last: "ReadU16 (reader_at p (le16 v)) = Inr (v, reader_at (p @ le16 v) [])" for p v
    using ReadU16_reader_at [of p v "[]"] by simp
  show ?thesis
    unfolding ReadLocalFileInfo_def head Let_def reader
    using assms(3-9,11) name size \<open>length ?h = 30\<close>
    by (simp add: flags assms(2) last)
qed

subsection \<open>What the reader accepts\<close>

definition accepted_record :: "nat \<Rightarrow> archive_record \<Rightarrow> bool" where
  "accepted_record archive_size e \<longleftrightarrow>
     IsSafeRelativeArchivePath (ar_path e) \<and>
     ar_compressed_size e < 4294967295 \<and> ar_uncompressed_size e < 4294967295 \<and>
     ar_local_header_offset e < archive_size \<and>
     ar_flags e AND 0x0049 = 0 \<and>
     (ar_compression_method e = kStoredCompressionMethod \<and>
        ar_compressed_size e = ar_uncompressed_size e \<or>
      ar_compression_method e = kDeflatedCompressionMethod)"

lemma unat_not_max: "(w :: u32) \<noteq> 0xffffffff \<Longrightarrow> unat w < 4294967295"
proof -
  assume "w \<noteq> 0xffffffff"
  then have "unat w \<noteq> unat (0xffffffff :: u32)"
    by (simp only: word_unat_eq_iff [symmetric] not_False_eq_True)
  moreover have "unat w < 2 ^ LENGTH(32)"
    by (rule unsigned_less)
  ultimately show ?thesis
    by simp
qed

lemma no_flag_bits:
  fixes f :: u16
  assumes "f AND 0x0001 = 0" "f AND 0x0008 = 0" "f AND 0x0040 = 0"
  shows "f AND 0x0049 = 0"
proof -
  have "f AND 0x0049 = (f AND 0x0001) OR (f AND 0x0008) OR (f AND 0x0040)"
    by (simp flip: bit.conj_disj_distrib)
  then show ?thesis
    using assms by simp
qed

lemma CheckCentralEntry_accepted:
  assumes "CheckCentralEntry archive_size seen e = Inr r"
  shows "accepted_record archive_size r \<and> ar_path r = ce_path e \<and> ce_path e \<notin> seen"
  using assms no_flag_bits [of "ce_flags e"]
  by (auto simp: CheckCentralEntry_def Let_def accepted_record_def unat_not_max
      split: if_splits)

lemma central_loop_accepted:
  assumes "central_loop archive_path archive_size n seen reader = Inr (es, reader')"
  shows "list_all (accepted_record archive_size) es \<and> distinct (map ar_path es) \<and>
         set (map ar_path es) \<inter> seen = {} \<and> length es = n"
  using assms
proof (induction n arbitrary: seen reader es reader')
  case 0
  then show ?case by simp
next
  case (Suc n)
  from Suc.prems obtain e r entry rest where
      check: "CheckCentralEntry archive_size seen e = Inr entry"
      and loop: "central_loop archive_path archive_size n (insert (ce_path e) seen) r = Inr (rest, reader')"
      and es: "es = entry # rest"
    by (auto simp: bind_res_Inr_iff)
  show ?case
    using Suc.IH [OF loop] CheckCentralEntry_accepted [OF check] by (auto simp: es)
qed

text \<open>What the checks on a path amount to, and where a member lies whose local header is accepted.\<close>

lemma safe_path_parts:
  assumes "IsSafeRelativeArchivePath p"
  shows "\<exists>parts. parts \<noteq> [] \<and> p = join_with (CHR ''/'') parts \<and>
    (\<forall>q \<in> set parts. q \<notin> {[], ''.'', ''..''} \<and> set q \<inter> {CHR ''/'', CHR 0x5C} = {})"
    "\<not> (\<exists>drive rest. isalpha drive \<and> p = drive # CHR '':'' # rest)"
proof -
  let ?parts = "split_on (CHR ''/'') p"
  have "list_all (\<lambda>q. q \<notin> {[], ''.'', ''..''}) ?parts" "CHR 0x5C \<notin> set p" "\<not> IsWindowsDrivePrefix p"
    using assms by (auto simp: IsSafeRelativeArchivePath_def list_all_iff split: if_splits)
  moreover have "CHR ''/'' \<notin> set q \<and> set q \<subseteq> set p" if "q \<in> set ?parts" for q
    using that split_on_no_sep split_on_elements by fast
  ultimately show "\<exists>parts. parts \<noteq> [] \<and> p = join_with (CHR ''/'') parts \<and>
    (\<forall>q \<in> set parts. q \<notin> {[], ''.'', ''..''} \<and> set q \<inter> {CHR ''/'', CHR 0x5C} = {})"
    by (intro exI [of _ ?parts]) (auto simp: list_all_iff)
  show "\<not> (\<exists>drive rest. isalpha drive \<and> p = drive # CHR '':'' # rest)"
    using \<open>\<not> IsWindowsDrivePrefix p\<close> by (auto simp: IsWindowsDrivePrefix_def)
qed

lemma name_taken: "string_of_bytes (take n bytes) = name \<Longrightarrow> length name \<le> n"
  by (auto simp: string_of_bytes_def)

lemma ReadLocalFileInfo_extent:
  assumes "ReadLocalFileInfo file r = Inr info"
  shows "ar_local_header_offset r + 30 + length (ar_path r) \<le> lf_data_offset info"
    "lf_data_offset info + ar_compressed_size r \<le> length file"
  using assms
  by (auto simp: ReadLocalFileInfo_def Let_def bind_res_Inr_iff split: if_splits dest: name_taken)

text \<open>
  C22: What a central directory may contain.  Whatever bytes a package file holds, a central directory
  the reader accepts lists as many members as the closing record announces, under pairwise different
  paths; every path is made of non-empty components other than \<open>.\<close> and \<open>..\<close>, without a backslash, and
  begins with no drive; the member is stored, then of equal sizes, or deflated, without encryption, data
  descriptor or strong encryption, of 32-bit sizes, and its local header begins inside the file.  The data
  of a member whose local header is accepted too lies behind that header and its name, and ends in the file.
\<close>

theorem central_directory_is_safe:
  assumes "ParseCentralDirectory path file = Inr es"
  shows "distinct (map ar_path es) \<and>
    (\<exists>eocd. LocateEndOfCentralDirectory path file = Inr eocd \<and> length es = eocd_entry_count eocd) \<and>
    (\<forall>r \<in> set es.
       (\<exists>parts. parts \<noteq> [] \<and> ar_path r = join_with (CHR ''/'') parts \<and>
          (\<forall>q \<in> set parts. q \<notin> {[], ''.'', ''..''} \<and> set q \<inter> {CHR ''/'', CHR 0x5C} = {})) \<and>
       \<not> (\<exists>drive rest. isalpha drive \<and> ar_path r = drive # CHR '':'' # rest) \<and>
       ar_compressed_size r < 4294967295 \<and> ar_uncompressed_size r < 4294967295 \<and>
       ar_flags r AND 0x0049 = 0 \<and> ar_local_header_offset r < length file \<and>
       (ar_compression_method r = kStoredCompressionMethod \<and> ar_compressed_size r = ar_uncompressed_size r \<or>
        ar_compression_method r = kDeflatedCompressionMethod) \<and>
       (\<forall>info. ReadLocalFileInfo file r = Inr info \<longrightarrow>
          ar_local_header_offset r + 30 + length (ar_path r) \<le> lf_data_offset info \<and>
          lf_data_offset info + ar_compressed_size r \<le> length file))"
proof -
  have accepted: "list_all (accepted_record (length file)) es" and rest: "distinct (map ar_path es)"
      "\<exists>eocd. LocateEndOfCentralDirectory path file = Inr eocd \<and> length es = eocd_entry_count eocd"
    using assms
    by (auto simp: ParseCentralDirectory_def Let_def bind_res_Inr_iff split: if_splits
        dest: central_loop_accepted)
  have "accepted_record (length file) r" if "r \<in> set es" for r
    using accepted that by (simp add: list_all_iff)
  then show ?thesis
    using rest safe_path_parts ReadLocalFileInfo_extent unfolding accepted_record_def by simp
qed

definition demo_record :: archive_record where
  "demo_record =
     \<lparr>ar_path = ''a'', ar_executable = True, ar_compressed_size = 2, ar_uncompressed_size = 3,
      ar_local_header_offset = 0, ar_crc32 = 7, ar_compression_method = kDeflatedCompressionMethod,
      ar_flags = kGeneralPurposeUtf8, ar_version_made_by = 0\<rparr>"

definition demo_file :: "u8 list" where
  "demo_file = [80] @ concat (map central_entry_bytes [demo_record]) @ eocd_bytes 1 47 1"

lemma demo_file_parses: "ParseCentralDirectory ''p.zip'' demo_file = Inr [made_by_unix demo_record]"
  using ParseCentralDirectory_written [of demo_file "[demo_record]" "[80]" "''p.zip''"]
  by (simp add: demo_file_def demo_record_def writable_record_def IsSafeRelativeArchivePath_def
      IsWindowsDrivePrefix_def)

theorem central_directory_is_safe_witness:
  "\<exists>parts. parts \<noteq> [] \<and> ''a'' = join_with (CHR ''/'') parts \<and>
     (\<forall>q \<in> set parts. q \<notin> {[], ''.'', ''..''} \<and> set q \<inter> {CHR ''/'', CHR 0x5C} = {})"
  using central_directory_is_safe [OF demo_file_parses]
  by (simp add: made_by_unix_def demo_record_def)

end
