(* ===== verification/Zip_Data.thy ===== *)
theory Zip_Data
  imports Zip_Format "HOL-Library.Sublist"
begin

section \<open>libs/package: deflating and inflating archive members (archive.cpp)\<close>

text \<open>
  The loops around zlib.  The library is a parameter: a record of its calls on an opaque stream
  state.  A call of \<open>deflate\<close> or \<open>inflate\<close> takes the state, the input that is available and the room
  in the output buffer, and returns its code, how much input it consumed, the bytes it produced and
  the new state, so \<open>avail_out\<close> is the room less what was produced.  The loops may spin with a library
  that makes no progress: they are partial functions, \<open>None\<close> when they do not return.  A sink is a
  function on the state it writes to, which may fail.
\<close>

datatype z_code = Z_OK | Z_STREAM_END | Z_BUF_ERROR | Z_STREAM_ERROR | Z_DATA_ERROR | Z_MEM_ERROR

record ('d, 'i) zlib =
  zl_crc32 :: "u32 \<Rightarrow> u8 list \<Rightarrow> u32"
  zl_deflateInit2 :: "'d option"
  zl_deflate :: "'d \<Rightarrow> u8 list \<Rightarrow> bool \<Rightarrow> nat \<Rightarrow> z_code \<times> nat \<times> u8 list \<times> 'd"
  zl_inflateInit2 :: "'i option"
  zl_inflate :: "'i \<Rightarrow> u8 list \<Rightarrow> nat \<Rightarrow> z_code \<times> nat \<times> u8 list \<times> 'i"

type_synonym 's sink = "u8 list \<Rightarrow> 's \<Rightarrow> 's result"

subsection \<open>Writing: WriteDeflatedFileData\<close>

text \<open>
  The state of the loop: the stream state, what the file still holds, the input not yet consumed,
  \<open>finished_input\<close>, the statistics and the archive.
\<close>

record 'd deflate_state =
  ds_z :: 'd
  ds_input :: "u8 list"
  ds_avail_in :: "u8 list"
  ds_finished :: bool
  ds_stats :: file_write_stats
  ds_stream :: ostream

text \<open>
  \<open>input.read\<close> returns what is left when that is less than the buffer, and sets the end-of-file
  state exactly then.
\<close>

definition deflate_fill ::
    "('d, 'i) zlib \<Rightarrow> string \<Rightarrow> 'd deflate_state \<Rightarrow> 'd deflate_state result" where
  "deflate_fill zl source_path s =
     (if ds_avail_in s = [] \<and> \<not> ds_finished s then
        let chunk = take kBufferSize (ds_input s);
            bytes_read = length chunk;
            eof = (bytes_read < kBufferSize);
            s = s\<lparr>ds_input := drop kBufferSize (ds_input s)\<rparr>
        in
        if bytes_read = 0 then
          (if \<not> eof then Inl (Runtime_error (''failed to read file: '' @ source_path))
           else Inr (s\<lparr>ds_finished := True, ds_avail_in := []\<rparr>))
        else
          let stats = (ds_stats s)\<lparr>fw_uncompressed_size := fw_uncompressed_size (ds_stats s) + bytes_read\<rparr>
          in if 4294967295 < fw_uncompressed_size stats
             then Inl (Runtime_error (''file is too large for ZIP32: '' @ source_path))
             else Inr (s\<lparr>ds_stats := stats\<lparr>fw_crc32 := zl_crc32 zl (fw_crc32 stats) chunk\<rparr>,
                         ds_avail_in := chunk, ds_finished := eof\<rparr>)
      else Inr s)"

text \<open>One call of \<open>deflate\<close> and the write of what it produced.\<close>

definition deflate_call ::
    "('d, 'i) zlib \<Rightarrow> string \<Rightarrow> bool \<Rightarrow> 'd deflate_state \<Rightarrow> (z_code \<times> nat \<times> 'd deflate_state) result" where
  "deflate_call zl source_path finish s =
     (let (code, consumed, out, z) = zl_deflate zl (ds_z s) (ds_avail_in s) finish kBufferSize;
          avail_out = kBufferSize - length out;
          s = s\<lparr>ds_z := z, ds_avail_in := drop consumed (ds_avail_in s)\<rparr>
      in
      if code = Z_STREAM_ERROR then Inl (Runtime_error ''failed to deflate archive entry'')
      else if out \<noteq> [] then
        let compressed = fw_compressed_size (ds_stats s) + length out;
            s = s\<lparr>ds_stream := stream_write (ds_stream s) out,
                  ds_stats := (ds_stats s)\<lparr>fw_compressed_size := compressed\<rparr>\<rparr>
        in if 4294967295 < compressed
           then Inl (Runtime_error (''compressed file is too large for ZIP32: '' @ source_path))
           else Inr (code, avail_out, s)
      else Inr (code, avail_out, s))"

partial_function (option) deflate_inner ::
    "('d, 'i) zlib \<Rightarrow> string \<Rightarrow> bool \<Rightarrow> 'd deflate_state \<Rightarrow> (z_code \<times> 'd deflate_state) result option" where
  "deflate_inner zl source_path finish s =
     (case deflate_call zl source_path finish s of
        Inl e \<Rightarrow> Some (Inl e)
      | Inr (code, avail_out, s') \<Rightarrow>
          (if avail_out = 0 then deflate_inner zl source_path finish s' else Some (Inr (code, s'))))"

partial_function (option) deflate_outer ::
    "('d, 'i) zlib \<Rightarrow> string \<Rightarrow> 'd deflate_state \<Rightarrow> 'd deflate_state result option" where
  "deflate_outer zl source_path s =
     (case deflate_fill zl source_path s of
        Inl e \<Rightarrow> Some (Inl e)
      | Inr s \<Rightarrow>
          Option.bind (deflate_inner zl source_path (ds_finished s) s) (\<lambda>r.
            case r of
              Inl e \<Rightarrow> Some (Inl e)
            | Inr (code, s') \<Rightarrow>
                (if code = Z_STREAM_END then Some (Inr s')
                 else if ds_finished s \<and> ds_avail_in s' = [] \<and> ds_finished s'
                 then deflate_outer zl source_path s'
                 else if code \<noteq> Z_OK
                 then Some (Inl (Runtime_error ''failed to deflate archive entry''))
                 else deflate_outer zl source_path s')))"

definition WriteDeflatedFileData ::
    "('d, 'i) zlib \<Rightarrow> string \<Rightarrow> u8 list \<Rightarrow> ostream \<Rightarrow> (file_write_stats \<times> ostream) result option" where
  "WriteDeflatedFileData zl source_path contents stream =
     (case zl_deflateInit2 zl of
        None \<Rightarrow> Some (Inl (Runtime_error ''failed to initialize zlib deflate''))
      | Some z \<Rightarrow>
          map_option (map_sum id (\<lambda>s. (ds_stats s, ds_stream s)))
            (deflate_outer zl source_path
              \<lparr>ds_z = z, ds_input = contents, ds_avail_in = [], ds_finished = False,
               ds_stats = \<lparr>fw_crc32 = zl_crc32 zl 0 [], fw_compressed_size = 0,
                           fw_uncompressed_size = 0\<rparr>,
               ds_stream = stream\<rparr>))"

subsection \<open>Reading: stored and deflated members\<close>

text \<open>The archive is read at position \<open>pos\<close>; a short read is reported.\<close>

function CopyStored_loop ::
    "u8 list \<Rightarrow> string \<Rightarrow> 's sink \<Rightarrow> nat \<Rightarrow> nat \<Rightarrow> nat \<Rightarrow> 's \<Rightarrow> (nat \<times> 's) result" where
  "CopyStored_loop file path sink pos remaining written s =
     (if remaining = 0 then Inr (written, s)
      else let chunk_size = min remaining kBufferSize;
               chunk = take chunk_size (drop pos file)
           in if length chunk \<noteq> chunk_size
              then Inl (Runtime_error (''stored ZIP entry is truncated: '' @ path))
              else bind_res (sink chunk s) (\<lambda>s.
                CopyStored_loop file path sink (pos + chunk_size) (remaining - chunk_size)
                  (written + chunk_size) s))"
  by pat_completeness auto
termination
  by (relation "measure (\<lambda>(file, path, sink, pos, remaining, written, s). remaining)")
    (auto simp: kBufferSize_def)

declare CopyStored_loop.simps [simp del]

definition CopyStoredEntry ::
    "u8 list \<Rightarrow> nat \<Rightarrow> archive_record \<Rightarrow> 's sink \<Rightarrow> 's \<Rightarrow> 's result" where
  "CopyStoredEntry file pos entry sink s =
     bind_res (CopyStored_loop file (ar_path entry) sink pos (ar_compressed_size entry) 0 s)
       (\<lambda>(written, s).
         if written \<noteq> ar_uncompressed_size entry
         then Inl (Runtime_error (''stored ZIP entry size mismatch: '' @ ar_path entry))
         else Inr s)"

record ('i, 's) inflate_state =
  is_z :: 'i
  is_pos :: nat
  is_remaining :: nat
  is_avail_in :: "u8 list"
  is_finished :: bool
  is_written :: nat
  is_sink :: 's

definition inflate_fill ::
    "u8 list \<Rightarrow> string \<Rightarrow> ('i, 's) inflate_state \<Rightarrow> ('i, 's) inflate_state result" where
  "inflate_fill file path s =
     (if is_avail_in s = [] \<and> \<not> is_finished s then
        let chunk_size = min (is_remaining s) kBufferSize;
            chunk = take chunk_size (drop (is_pos s) file);
            remaining = is_remaining s - chunk_size
        in if length chunk \<noteq> chunk_size
           then Inl (Runtime_error (''deflated ZIP entry is truncated: '' @ path))
           else Inr (s\<lparr>is_pos := is_pos s + chunk_size, is_remaining := remaining,
                       is_avail_in := chunk, is_finished := (remaining = 0)\<rparr>)
      else Inr s)"

definition inflate_call ::
    "('d, 'i) zlib \<Rightarrow> string \<Rightarrow> 's sink \<Rightarrow> ('i, 's) inflate_state \<Rightarrow>
     (z_code \<times> nat \<times> ('i, 's) inflate_state) result" where
  "inflate_call zl path sink s =
     (let (code, consumed, out, z) = zl_inflate zl (is_z s) (is_avail_in s) kBufferSize;
          avail_out = kBufferSize - length out;
          s = s\<lparr>is_z := z, is_avail_in := drop consumed (is_avail_in s)\<rparr>
      in
      if code \<noteq> Z_OK \<and> code \<noteq> Z_STREAM_END
      then Inl (Runtime_error (''failed to inflate ZIP entry: '' @ path))
      else if out \<noteq> [] then
        bind_res (sink out (is_sink s)) (\<lambda>t.
          Inr (code, avail_out, s\<lparr>is_sink := t, is_written := is_written s + length out\<rparr>))
      else Inr (code, avail_out, s))"

partial_function (option) inflate_inner ::
    "('d, 'i) zlib \<Rightarrow> string \<Rightarrow> 's sink \<Rightarrow> ('i, 's) inflate_state \<Rightarrow>
     (z_code \<times> ('i, 's) inflate_state) result option" where
  "inflate_inner zl path sink s =
     (case inflate_call zl path sink s of
        Inl e \<Rightarrow> Some (Inl e)
      | Inr (code, avail_out, s') \<Rightarrow>
          (if avail_out = 0 then inflate_inner zl path sink s' else Some (Inr (code, s'))))"

partial_function (option) inflate_outer ::
    "('d, 'i) zlib \<Rightarrow> u8 list \<Rightarrow> string \<Rightarrow> 's sink \<Rightarrow> ('i, 's) inflate_state \<Rightarrow>
     ('i, 's) inflate_state result option" where
  "inflate_outer zl file path sink s =
     (case inflate_fill file path s of
        Inl e \<Rightarrow> Some (Inl e)
      | Inr s \<Rightarrow>
          Option.bind (inflate_inner zl path sink s) (\<lambda>r.
            case r of
              Inl e \<Rightarrow> Some (Inl e)
            | Inr (code, s) \<Rightarrow>
                (if code = Z_STREAM_END then
                   (if is_remaining s \<noteq> 0 \<or> is_avail_in s \<noteq> []
                    then Some (Inl (Runtime_error (''deflated ZIP entry contains trailing data: '' @ path)))
                    else Some (Inr s))
                 else if is_finished s \<and> is_avail_in s = []
                 then Some (Inl (Runtime_error (''deflated ZIP entry is truncated: '' @ path)))
                 else inflate_outer zl file path sink s)))"

definition InflateDeflatedEntry ::
    "('d, 'i) zlib \<Rightarrow> u8 list \<Rightarrow> nat \<Rightarrow> archive_record \<Rightarrow> 's sink \<Rightarrow> 's \<Rightarrow> 's result option" where
  "InflateDeflatedEntry zl file pos entry sink t =
     (case zl_inflateInit2 zl of
        None \<Rightarrow> Some (Inl (Runtime_error ''failed to initialize zlib inflate''))
      | Some z \<Rightarrow>
          map_option (\<lambda>r. bind_res r (\<lambda>s.
              if is_written s \<noteq> ar_uncompressed_size entry
              then Inl (Runtime_error (''deflated ZIP entry size mismatch: '' @ ar_path entry))
              else Inr (is_sink s)))
            (inflate_outer zl file (ar_path entry) sink
              \<lparr>is_z = z, is_pos = pos, is_remaining = ar_compressed_size entry, is_avail_in = [],
               is_finished = (ar_compressed_size entry = 0), is_written = 0, is_sink = t\<rparr>))"

definition TransferArchiveEntryData ::
    "('d, 'i) zlib \<Rightarrow> u8 list \<Rightarrow> archive_record \<Rightarrow> 's sink \<Rightarrow> 's \<Rightarrow> 's result option" where
  "TransferArchiveEntryData zl file entry sink t =
     (case ReadLocalFileInfo file entry of
        Inl e \<Rightarrow> Some (Inl e)
      | Inr info \<Rightarrow>
          if ar_compression_method entry = kStoredCompressionMethod
          then Some (CopyStoredEntry file (lf_data_offset info) entry sink t)
          else if ar_compression_method entry = kDeflatedCompressionMethod
          then InflateDeflatedEntry zl file (lf_data_offset info) entry sink t
          else Some (Inl (Runtime_error (''unsupported ZIP compression method: '' @ ar_path entry))))"

definition append_sink :: "u8 list sink" where
  "append_sink chunk contents = Inr (contents @ chunk)"

definition ReadArchiveEntryBytes ::
    "('d, 'i) zlib \<Rightarrow> u8 list \<Rightarrow> archive_record \<Rightarrow> u8 list result option" where
  "ReadArchiveEntryBytes zl file entry =
     map_option (\<lambda>r. bind_res r (\<lambda>contents.
         if length contents \<noteq> ar_uncompressed_size entry
         then Inl (Runtime_error (''archive entry size mismatch: '' @ ar_path entry))
         else Inr contents))
       (TransferArchiveEntryData zl file entry append_sink [])"

subsection \<open>What the code relies on: inflate\<close>

text \<open>
  The documented behaviour of \<open>inflate\<close> on the raw deflate stream \<open>packed\<close> of \<open>data\<close>, for a relation
  \<open>R\<close> between a stream state and how much of \<open>packed\<close> was consumed and of \<open>data\<close> produced: it produces
  the next bytes of the data; it stops early only when the input that is available is used up;
  the end is reported when the stream is consumed and everything is produced; and a call that can
  make no progress, because it has no input and nothing pending before the end of the stream,
  answers \<open>Z_BUF_ERROR\<close>.
\<close>

definition inflate_answer ::
    "u8 list \<Rightarrow> u8 list \<Rightarrow> nat \<Rightarrow> nat \<Rightarrow> u8 list \<Rightarrow> nat \<Rightarrow> z_code \<Rightarrow> nat \<Rightarrow> u8 list \<Rightarrow> bool" where
  "inflate_answer packed data i j avail n code k out \<longleftrightarrow>
     k \<le> length avail \<and> length out \<le> n \<and> j + length out \<le> length data \<and>
     out = take (length out) (drop j data) \<and>
     (case code of
        Z_STREAM_END \<Rightarrow> i + k = length packed \<and> j + length out = length data
      | Z_OK \<Rightarrow> length out < n \<longrightarrow> k = length avail \<and> i + k < length packed
      | Z_BUF_ERROR \<Rightarrow> avail = [] \<and> i < length packed \<and> out = []
      | _ \<Rightarrow> False)"

definition inflates ::
    "('d, 'i) zlib \<Rightarrow> u8 list \<Rightarrow> u8 list \<Rightarrow> ('i \<Rightarrow> nat \<Rightarrow> nat \<Rightarrow> bool) \<Rightarrow> bool" where
  "inflates zl packed data R \<longleftrightarrow>
     packed \<noteq> [] \<and> (\<exists>z. zl_inflateInit2 zl = Some z \<and> R z 0 0) \<and>
     (\<forall>z i j m n code k out z'.
        R z i j \<and> i \<le> length packed \<and> j \<le> length data \<and> 0 < n \<and>
        zl_inflate zl z (take m (drop i packed)) n = (code, k, out, z') \<longrightarrow>
        inflate_answer packed data i j (take m (drop i packed)) n code k out \<and>
        R z' (i + k) (j + length out))"

lemma inflates_answer:
  assumes "inflates zl packed data R" "R z i j" "i \<le> length packed" "j \<le> length data"
    "avail = take m (drop i packed)" "zl_inflate zl z avail kBufferSize = (code, k, out, z')"
  shows "inflate_answer packed data i j avail kBufferSize code k out \<and> R z' (i + k) (j + length out)"
proof -
  have "0 < kBufferSize"
    by (simp add: kBufferSize_def)
  then show ?thesis
    using assms unfolding inflates_def by metis
qed

text \<open>The member was consumed up to \<open>i\<close> and its data written up to \<open>j\<close>.\<close>

definition inflating ::
    "u8 list \<Rightarrow> u8 list \<Rightarrow> ('i \<Rightarrow> nat \<Rightarrow> nat \<Rightarrow> bool) \<Rightarrow> u8 list \<Rightarrow>
     ('i, u8 list) inflate_state \<Rightarrow> nat \<Rightarrow> nat \<Rightarrow> bool" where
  "inflating packed data R t s i j \<longleftrightarrow>
     R (is_z s) i j \<and> (\<exists>m. is_avail_in s = take m (drop i packed)) \<and> i \<le> length packed \<and>
     j \<le> length data \<and> is_written s = j \<and> is_sink s = t @ take j data"

definition same_input :: "('i, 's) inflate_state \<Rightarrow> ('i, 's) inflate_state \<Rightarrow> bool" where
  "same_input s s' \<longleftrightarrow>
     is_pos s' = is_pos s \<and> is_remaining s' = is_remaining s \<and> is_finished s' = is_finished s"

definition inflate_failed :: "string \<Rightarrow> exn" where
  "inflate_failed path = Runtime_error (''failed to inflate ZIP entry: '' @ path)"

lemma inflate_call_steps:
  assumes "inflates zl packed data R" "inflating packed data R t s i j"
  shows "inflate_call zl path append_sink s = Inl (inflate_failed path) \<and>
           is_avail_in s = [] \<and> i < length packed \<or>
         (\<exists>code k out s'. inflate_call zl path append_sink s =
             Inr (code, kBufferSize - length out, s') \<and>
           inflate_answer packed data i j (is_avail_in s) kBufferSize code k out \<and>
           (code = Z_OK \<or> code = Z_STREAM_END) \<and>
           inflating packed data R t s' (i + k) (j + length out) \<and>
           is_avail_in s' = drop k (is_avail_in s) \<and> same_input s s')"
proof -
  obtain code k out z' where call: "zl_inflate zl (is_z s) (is_avail_in s) kBufferSize = (code, k, out, z')"
    by (metis prod_cases4)
  from assms(2) obtain m where s: "R (is_z s) i j" "is_avail_in s = take m (drop i packed)"
      "i \<le> length packed" "j \<le> length data" "is_written s = j" "is_sink s = t @ take j data"
    by (auto simp: inflating_def)
  from inflates_answer [OF assms(1) s(1,3,4,2) call]
  have ans: "inflate_answer packed data i j (is_avail_in s) kBufferSize code k out"
    and R': "R z' (i + k) (j + length out)"
    by simp_all
  show ?thesis
  proof (cases "code = Z_OK \<or> code = Z_STREAM_END")
    case False
    then have "inflate_call zl path append_sink s = Inl (inflate_failed path)"
      using call by (auto simp: inflate_call_def inflate_failed_def)
    moreover have "code = Z_BUF_ERROR"
      using False ans by (auto simp: inflate_answer_def split: z_code.splits)
    ultimately show ?thesis
      using ans by (simp add: inflate_answer_def)
  next
    case True
    define s' where "s' = s\<lparr>is_z := z', is_avail_in := drop k (is_avail_in s),
        is_sink := is_sink s @ out, is_written := is_written s + length out\<rparr>"
    have "inflate_call zl path append_sink s = Inr (code, kBufferSize - length out, s')"
      using call True by (auto simp: inflate_call_def s'_def append_sink_def Let_def)
    moreover have "take j data @ out = take (j + length out) data"
      using ans by (metis inflate_answer_def take_add)
    moreover have "k \<le> length (is_avail_in s)"
      using ans by (simp add: inflate_answer_def)
    moreover from this have "i + k \<le> length packed"
      using s(2,3) by auto
    moreover have "drop k (is_avail_in s) = take (m - k) (drop (i + k) packed)"
      using s(2) by (simp add: drop_take add.commute)
    ultimately show ?thesis
      using True R' ans s
      by (intro disjI2 exI [of _ code] exI [of _ k] exI [of _ out] exI [of _ s'])
        (auto simp: inflating_def s'_def same_input_def inflate_answer_def)
  qed
qed

text \<open>How the inner loop can leave: a failure in the middle of the stream, its end, or more input.\<close>

definition inner_outcome ::
    "u8 list \<Rightarrow> u8 list \<Rightarrow> ('i \<Rightarrow> nat \<Rightarrow> nat \<Rightarrow> bool) \<Rightarrow> u8 list \<Rightarrow> string \<Rightarrow> nat \<Rightarrow>
     ('i, u8 list) inflate_state \<Rightarrow> (z_code \<times> ('i, u8 list) inflate_state) result \<Rightarrow> bool" where
  "inner_outcome packed data R t path till s r \<longleftrightarrow>
     (case r of
        Inl e \<Rightarrow> e = inflate_failed path \<and> till < length packed
      | Inr (code, s') \<Rightarrow>
          is_avail_in s' = [] \<and> same_input s s' \<and>
          (if code = Z_STREAM_END
           then till = length packed \<and> inflating packed data R t s' (length packed) (length data)
           else till < length packed \<and> (\<exists>j. inflating packed data R t s' till j)))"

lemma inflate_inner_ends:
  assumes "inflates zl packed data R" "inflating packed data R t s i j"
  shows "\<exists>r. inflate_inner zl path append_sink s = Some r \<and>
             inner_outcome packed data R t path (i + length (is_avail_in s)) s r"
  using assms(2)
proof (induction "length data - j" arbitrary: s i j rule: less_induct)
  case less
  let ?till = "i + length (is_avail_in s)"
  from inflate_call_steps [OF assms(1) less.prems, of path]
  consider (fail) "inflate_call zl path append_sink s = Inl (inflate_failed path)"
      "is_avail_in s = []" "i < length packed"
    | (step) code k out s' where
      "inflate_call zl path append_sink s = Inr (code, kBufferSize - length out, s')"
      "inflate_answer packed data i j (is_avail_in s) kBufferSize code k out"
      "code = Z_OK \<or> code = Z_STREAM_END"
      "inflating packed data R t s' (i + k) (j + length out)"
      "is_avail_in s' = drop k (is_avail_in s)" "same_input s s'"
    by blast
  then show ?case
  proof cases
    case fail
    then show ?thesis
      by (subst inflate_inner.simps) (simp add: inner_outcome_def)
  next
    case (step code k out s')
    note call = step(1) and ans = step(2) and code = step(3) and inv = step(4)
      and avail = step(5) and same = step(6)
    have k: "k \<le> length (is_avail_in s)" and till: "?till \<le> length packed"
      using ans less.prems by (auto simp: inflate_answer_def inflating_def)
    show ?thesis
    proof (cases "length out < kBufferSize")
      case True
      then have "inflate_inner zl path append_sink s = Some (Inr (code, s'))"
        by (subst inflate_inner.simps) (simp add: call)
      moreover have "inner_outcome packed data R t path ?till s (Inr (code, s'))"
        using True ans code inv avail same k till
        by (auto simp: inner_outcome_def inflate_answer_def)
      ultimately show ?thesis by blast
    next
      case False
      then have full: "length out = kBufferSize"
        using ans by (simp add: inflate_answer_def)
      then have "inflate_inner zl path append_sink s = inflate_inner zl path append_sink s'"
        by (subst inflate_inner.simps) (simp add: call)
      moreover have "length data - (j + length out) < length data - j"
        using full ans by (auto simp: inflate_answer_def kBufferSize_def)
      from less.hyps [OF this inv] obtain r where
        "inflate_inner zl path append_sink s' = Some r"
        "inner_outcome packed data R t path (i + k + length (is_avail_in s')) s' r"
        by blast
      moreover have "i + k + length (is_avail_in s') = ?till"
        using k avail by simp
      ultimately show ?thesis
        using same by (auto simp: inner_outcome_def same_input_def split: sum.splits)
    qed
  qed
qed

text \<open>Between two chunks: everything read so far is consumed and some of the stream is left.\<close>

definition at_chunk ::
    "u8 list \<Rightarrow> nat \<Rightarrow> u8 list \<Rightarrow> ('i, 's) inflate_state \<Rightarrow> nat \<Rightarrow> bool" where
  "at_chunk file pos packed s i \<longleftrightarrow>
     take (length packed) (drop pos file) = packed \<and> i < length packed \<and> is_avail_in s = [] \<and>
     is_pos s = pos + i \<and> is_remaining s = length packed - i \<and> \<not> is_finished s"

lemma at_chunk_fill:
  assumes "at_chunk file pos packed s i" "inflating packed data R t s i j"
  obtains s' where "inflate_fill file path s = Inr s'"
    and "inflating packed data R t s' i j"
    and "length (is_avail_in s') = min (length packed - i) kBufferSize"
    and "is_pos s' = pos + i + length (is_avail_in s')"
    and "is_remaining s' = length packed - i - length (is_avail_in s')"
    and "is_finished s' = (is_remaining s' = 0)"
proof -
  let ?n = "min (length packed - i) kBufferSize"
  have packed: "take (length packed) (drop pos file) = packed" and i: "i < length packed"
    using assms(1) by (simp_all add: at_chunk_def)
  have "take ?n (drop i packed) = take ?n (drop i (take (length packed) (drop pos file)))"
    by (simp only: packed)
  also have "\<dots> = take ?n (drop (pos + i) file)"
    by (simp add: drop_take add.commute)
  finally have chunk: "take ?n (drop (pos + i) file) = take ?n (drop i packed)" ..
  have len: "length (take ?n (drop i packed)) = ?n"
    by simp
  define s' where "s' = s\<lparr>is_pos := pos + i + ?n, is_remaining := length packed - i - ?n,
      is_avail_in := take ?n (drop i packed), is_finished := (length packed - i - ?n = 0)\<rparr>"
  have "inflate_fill file path s = Inr s'"
    using assms(1) len unfolding inflate_fill_def at_chunk_def Let_def
    by (simp add: chunk s'_def)
  moreover have "inflating packed data R t s' i j"
    using assms(2) by (auto simp: inflating_def s'_def)
  moreover have avail: "length (is_avail_in s') = ?n"
    by (simp add: s'_def)
  moreover have "is_pos s' = pos + i + ?n" "is_remaining s' = length packed - i - ?n"
    "is_finished s' = (is_remaining s' = 0)"
    by (simp_all add: s'_def)
  ultimately show thesis
    by (intro that [of s']) (simp_all only: avail)
qed

lemma inflate_outer_ends:
  assumes "inflates zl packed data R" "at_chunk file pos packed s i" "inflating packed data R t s i j"
  shows "\<exists>r. inflate_outer zl file path append_sink s = Some r \<and>
             (r = Inl (inflate_failed path) \<and> kBufferSize < length packed - i \<or>
              (\<exists>s'. r = Inr s' \<and> is_written s' = length data \<and> is_sink s' = t @ data))"
  using assms(2,3)
proof (induction "length packed - i" arbitrary: s i j rule: less_induct)
  case less
  obtain s1 where fill: "inflate_fill file path s = Inr s1"
    and inv: "inflating packed data R t s1 i j"
    and avail: "length (is_avail_in s1) = min (length packed - i) kBufferSize"
    and pos: "is_pos s1 = pos + i + length (is_avail_in s1)"
    and rem: "is_remaining s1 = length packed - i - length (is_avail_in s1)"
    and fin: "is_finished s1 = (is_remaining s1 = 0)"
    using at_chunk_fill [OF less.prems] .
  let ?till = "i + length (is_avail_in s1)"
  have i: "i < length packed" and packed: "take (length packed) (drop pos file) = packed"
    using less.prems(1) by (simp_all add: at_chunk_def)
  have pos_avail: "0 < length (is_avail_in s1)"
    using avail i by (simp add: kBufferSize_def)
  obtain r where r: "inflate_inner zl path append_sink s1 = Some r"
    and out: "inner_outcome packed data R t path ?till s1 r"
    using inflate_inner_ends [OF assms(1) inv] by blast
  show ?case
  proof (cases r)
    case (Inl e)
    then have "inflate_outer zl file path append_sink s = Some (Inl e)"
      by (subst inflate_outer.simps) (simp add: fill r)
    moreover have "e = inflate_failed path" "?till < length packed"
      using out Inl by (simp_all add: inner_outcome_def)
    ultimately show ?thesis
      using avail i by (auto simp: min_def split: if_splits)
  next
    case (Inr p)
    then obtain code s2 where p: "r = Inr (code, s2)" by (cases p) auto
    have empty: "is_avail_in s2 = []" and same: "same_input s1 s2"
      using out p by (simp_all add: inner_outcome_def)
    show ?thesis
    proof (cases "code = Z_STREAM_END")
      case True
      then have "?till = length packed" "inflating packed data R t s2 (length packed) (length data)"
        using out p by (simp_all add: inner_outcome_def)
      moreover from this have "is_remaining s2 = 0"
        using same rem by (simp add: same_input_def)
      then have "inflate_outer zl file path append_sink s = Some (Inr s2)"
        by (subst inflate_outer.simps) (simp add: fill r p True empty)
      ultimately show ?thesis
        by (auto simp: inflating_def)
    next
      case False
      then obtain j' where till: "?till < length packed" and inv2: "inflating packed data R t s2 ?till j'"
        using out p by (auto simp: inner_outcome_def)
      then have "\<not> is_finished s2"
        using same fin rem by (simp add: same_input_def)
      then have step: "inflate_outer zl file path append_sink s = inflate_outer zl file path append_sink s2"
        by (subst inflate_outer.simps) (simp add: fill r p False)
      have chunk: "at_chunk file pos packed s2 ?till"
        using packed till empty \<open>\<not> is_finished s2\<close> same pos rem
        by (simp add: at_chunk_def same_input_def)
      have "length packed - ?till < length packed - i"
        using i pos_avail by arith
      from less.hyps [OF this chunk inv2] show ?thesis
        by (auto simp: step)
    qed
  qed
qed

text \<open>
  A deflated member read from the archive: its data if the announced size is that of the data, or zlib's
  complaint between two chunks.
\<close>

definition size_mismatch :: "archive_record \<Rightarrow> exn" where
  "size_mismatch entry = Runtime_error (''deflated ZIP entry size mismatch: '' @ ar_path entry)"

lemma InflateDeflatedEntry_ends:
  assumes "inflates zl packed data R" "take (length packed) (drop pos file) = packed"
    and "ar_compressed_size entry = length packed"
  shows "InflateDeflatedEntry zl file pos entry append_sink t =
           Some (if ar_uncompressed_size entry = length data then Inr (t @ data) else Inl (size_mismatch entry)) \<or>
         InflateDeflatedEntry zl file pos entry append_sink t = Some (Inl (inflate_failed (ar_path entry))) \<and>
         kBufferSize < length packed"
proof -
  from assms(1) obtain z where z: "zl_inflateInit2 zl = Some z" "R z 0 0" and ne: "packed \<noteq> []"
    by (auto simp: inflates_def)
  let ?s = "\<lparr>is_z = z, is_pos = pos, is_remaining = length packed, is_avail_in = [],
               is_finished = False, is_written = 0, is_sink = t\<rparr>"
  have "at_chunk file pos packed ?s 0"
    using assms(2) ne by (simp add: at_chunk_def)
  moreover have "inflating packed data R t ?s 0 0"
    using z(2) by (auto simp: inflating_def intro: exI [of _ 0])
  ultimately obtain r where r: "inflate_outer zl file (ar_path entry) append_sink ?s = Some r"
    and out: "r = Inl (inflate_failed (ar_path entry)) \<and> kBufferSize < length packed \<or>
              (\<exists>s'. r = Inr s' \<and> is_written s' = length data \<and> is_sink s' = t @ data)"
    using inflate_outer_ends [OF assms(1)] by (metis diff_zero)
  have "InflateDeflatedEntry zl file pos entry append_sink t =
      Some (bind_res r (\<lambda>s. if is_written s \<noteq> ar_uncompressed_size entry
              then Inl (size_mismatch entry) else Inr (is_sink s)))"
    using ne by (cases r) (simp_all add: InflateDeflatedEntry_def size_mismatch_def z(1) assms(3) r)
  then show ?thesis
    using out by auto
qed

lemma InflateDeflatedEntry_data:
  assumes "inflates zl packed data R" "take (length packed) (drop pos file) = packed"
    and "ar_compressed_size entry = length packed" "ar_uncompressed_size entry = length data"
  shows "InflateDeflatedEntry zl file pos entry append_sink t = Some (Inr (t @ data)) \<or>
         InflateDeflatedEntry zl file pos entry append_sink t = Some (Inl (inflate_failed (ar_path entry))) \<and>
         kBufferSize < length packed"
  using InflateDeflatedEntry_ends [OF assms(1-3), of t] assms(4) by auto

subsection \<open>What the code relies on: deflate\<close>

text \<open>
  The documented behaviour of \<open>deflate\<close> while compressing \<open>contents\<close>, for a relation \<open>R\<close> between
  a stream state, what it has consumed and what it has produced: a call with room to spare has
  consumed its input, and with \<open>Z_FINISH\<close> has reached the end; at the end the output is a deflate
  stream of what was consumed (\<open>codec\<close>); the output is bounded by \<open>bound\<close> (\<open>deflateBound\<close>).
  The calls are those of the code: the input is the next part of the contents, and \<open>Z_FINISH\<close> is
  given when that is all of it.
\<close>

definition deflate_answer ::
    "(u8 list \<Rightarrow> u8 list \<Rightarrow> bool) \<Rightarrow> u8 list \<Rightarrow> u8 list \<Rightarrow> u8 list \<Rightarrow> bool \<Rightarrow> nat \<Rightarrow>
     z_code \<Rightarrow> nat \<Rightarrow> u8 list \<Rightarrow> bool" where
  "deflate_answer codec c p avail finish n code k out \<longleftrightarrow>
     k \<le> length avail \<and> length out \<le> n \<and>
     code \<in> {Z_OK, Z_STREAM_END, Z_BUF_ERROR} \<and>
     (code = Z_STREAM_END \<longrightarrow> finish \<and> k = length avail \<and> codec (c @ avail) (p @ out)) \<and>
     (length out < n \<longrightarrow> k = length avail \<and> (finish \<longrightarrow> code = Z_STREAM_END))"

definition deflates ::
    "('d, 'i) zlib \<Rightarrow> (u8 list \<Rightarrow> u8 list \<Rightarrow> bool) \<Rightarrow> u8 list \<Rightarrow> nat \<Rightarrow>
     ('d \<Rightarrow> u8 list \<Rightarrow> u8 list \<Rightarrow> bool) \<Rightarrow> bool" where
  "deflates zl codec contents bound R \<longleftrightarrow>
     (\<exists>z. zl_deflateInit2 zl = Some z \<and> R z [] []) \<and>
     (\<forall>z c p. R z c p \<and> length c \<le> length contents \<longrightarrow> length p \<le> bound) \<and>
     (\<forall>z c p avail finish n code k out z'.
        R z c p \<and> prefix (c @ avail) contents \<and> (finish \<longrightarrow> c @ avail = contents) \<and> 0 < n \<and>
        zl_deflate zl z avail finish n = (code, k, out, z') \<longrightarrow>
        deflate_answer codec c p avail finish n code k out \<and>
        R z' (c @ take k avail) (p @ out))"

lemma deflates_answer:
  assumes "deflates zl codec contents bound R" "R z c p"
    "prefix (c @ avail) contents" "finish \<Longrightarrow> c @ avail = contents"
    "zl_deflate zl z avail finish kBufferSize = (code, k, out, z')"
  shows "deflate_answer codec c p avail finish kBufferSize code k out \<and>
         R z' (c @ take k avail) (p @ out)"
proof -
  have "0 < kBufferSize"
    by (simp add: kBufferSize_def)
  then show ?thesis
    using assms unfolding deflates_def by metis
qed

lemma deflates_bound:
  "deflates zl codec contents bound R \<Longrightarrow> R z c p \<Longrightarrow> length c \<le> length contents \<Longrightarrow> length p \<le> bound"
  unfolding deflates_def by blast

text \<open>Consumed \<open>c\<close> and written \<open>p\<close> behind what the archive held before, \<open>d\<close>.\<close>

definition deflating ::
    "u8 list \<Rightarrow> u8 list \<Rightarrow> ('d \<Rightarrow> u8 list \<Rightarrow> u8 list \<Rightarrow> bool) \<Rightarrow> 'd deflate_state \<Rightarrow> u8 list \<Rightarrow>
     u8 list \<Rightarrow> bool" where
  "deflating contents d R s c p \<longleftrightarrow>
     R (ds_z s) c p \<and> c @ ds_avail_in s @ ds_input s = contents \<and>
     ds_stream s = stream_of (d @ p) \<and>
     fw_compressed_size (ds_stats s) = length p \<and> length p \<le> 4294967295 \<and>
     fw_uncompressed_size (ds_stats s) = length contents - length (ds_input s) \<and>
     fw_uncompressed_size (ds_stats s) \<le> 4294967295 \<and>
     (ds_finished s \<longrightarrow> ds_input s = [])"

definition same_file :: "'d deflate_state \<Rightarrow> 'd deflate_state \<Rightarrow> bool" where
  "same_file s s' \<longleftrightarrow> ds_input s' = ds_input s \<and> ds_finished s' = ds_finished s"

lemma deflate_call_steps:
  assumes "deflates zl codec contents bound R" "deflating contents d R s c p"
    "finish \<Longrightarrow> ds_input s = []"
  shows "(\<exists>e. deflate_call zl path finish s = Inl e) \<and> 4294967295 < bound \<or>
         (\<exists>code k out s'. deflate_call zl path finish s = Inr (code, kBufferSize - length out, s') \<and>
            deflate_answer codec c p (ds_avail_in s) finish kBufferSize code k out \<and>
            deflating contents d R s' (c @ take k (ds_avail_in s)) (p @ out) \<and>
            ds_avail_in s' = drop k (ds_avail_in s) \<and> same_file s s')"
proof -
  obtain code k out z' where
    call: "zl_deflate zl (ds_z s) (ds_avail_in s) finish kBufferSize = (code, k, out, z')"
    by (metis prod_cases4)
  have s: "R (ds_z s) c p" "c @ ds_avail_in s @ ds_input s = contents"
    "ds_stream s = stream_of (d @ p)" "fw_compressed_size (ds_stats s) = length p"
    using assms(2) by (simp_all add: deflating_def)
  have "prefix (c @ ds_avail_in s) contents" "finish \<Longrightarrow> c @ ds_avail_in s = contents"
    using s(2) assms(3) by (auto simp: prefix_def)
  from deflates_answer [OF assms(1) s(1) this call]
  have ans: "deflate_answer codec c p (ds_avail_in s) finish kBufferSize code k out"
    and R': "R z' (c @ take k (ds_avail_in s)) (p @ out)"
    by simp_all
  have code: "code \<noteq> Z_STREAM_ERROR"
    using ans by (auto simp: deflate_answer_def)
  have "length (c @ take k (ds_avail_in s)) \<le> length contents"
    using s(2) by auto
  then have bound: "length p + length out \<le> bound"
    using deflates_bound [OF assms(1) R'] by simp
  show ?thesis
  proof (cases "4294967295 < length p + length out")
    case True
    moreover from this have "out \<noteq> []"
      using assms(2) by (auto simp: deflating_def)
    ultimately have "\<exists>e. deflate_call zl path finish s = Inl e"
      using call code s(4) by (simp add: deflate_call_def Let_def)
    moreover have "4294967295 < bound"
      using bound True by linarith
    ultimately show ?thesis
      by blast
  next
    case False
    define s' where "s' = s\<lparr>ds_z := z', ds_avail_in := drop k (ds_avail_in s),
        ds_stream := stream_of (d @ p @ out),
        ds_stats := (ds_stats s)\<lparr>fw_compressed_size := length p + length out\<rparr>\<rparr>"
    have "deflate_call zl path finish s = Inr (code, kBufferSize - length out, s')"
      using call code s(3,4) False by (auto simp: deflate_call_def s'_def Let_def)
    moreover have "deflating contents d R s' (c @ take k (ds_avail_in s)) (p @ out)"
      using assms(2) R' False by (auto simp: deflating_def s'_def)
    ultimately show ?thesis
      using ans by (intro disjI2 exI [of _ code] exI [of _ k] exI [of _ out] exI [of _ s'])
        (simp add: s'_def same_file_def)
  qed
qed

lemma deflate_inner_ends:
  assumes "deflates zl codec contents bound R" "deflating contents d R s c p"
    "finish \<Longrightarrow> ds_input s = []"
  shows "\<exists>r. deflate_inner zl path finish s = Some r \<and>
    (case r of
       Inl e \<Rightarrow> 4294967295 < bound
     | Inr (code, s') \<Rightarrow>
         \<exists>q. deflating contents d R s' (c @ ds_avail_in s) q \<and> ds_avail_in s' = [] \<and> same_file s s' \<and>
             (code = Z_STREAM_END \<longleftrightarrow> finish) \<and> (finish \<longrightarrow> codec (c @ ds_avail_in s) q))"
  using assms(2,3)
proof (induction "bound - length p" arbitrary: s c p rule: less_induct)
  case less
  from deflate_call_steps [OF assms(1) less.prems(1), where finish = finish and path = path] less.prems(2)
  consider (fail) e where "deflate_call zl path finish s = Inl e" "4294967295 < bound"
    | (step) code k out s' where
      "deflate_call zl path finish s = Inr (code, kBufferSize - length out, s')"
      "deflate_answer codec c p (ds_avail_in s) finish kBufferSize code k out"
      "deflating contents d R s' (c @ take k (ds_avail_in s)) (p @ out)"
      "ds_avail_in s' = drop k (ds_avail_in s)" "same_file s s'"
    by blast
  then show ?case
  proof cases
    case (fail e)
    then show ?thesis
      by (subst deflate_inner.simps) simp
  next
    case (step code k out s')
    show ?thesis
    proof (cases "length out < kBufferSize")
      case True
      then have "deflate_inner zl path finish s = Some (Inr (code, s'))"
        by (subst deflate_inner.simps) (simp add: step(1))
      moreover have "k = length (ds_avail_in s)"
        using True step(2) by (simp add: deflate_answer_def)
      ultimately show ?thesis
        using True step by (auto simp: deflate_answer_def)
    next
      case False
      then have full: "length out = kBufferSize"
        using step(2) by (simp add: deflate_answer_def)
      then have eq: "deflate_inner zl path finish s = deflate_inner zl path finish s'"
        by (subst deflate_inner.simps) (simp add: step(1))
      have "length (c @ take k (ds_avail_in s)) \<le> length contents" "R (ds_z s') (c @ take k (ds_avail_in s)) (p @ out)"
        using step(3) by (auto simp: deflating_def)
      then have "length (p @ out) \<le> bound"
        by (intro deflates_bound [OF assms(1)])
      then have less_left: "bound - length (p @ out) < bound - length p"
        using full by (simp add: kBufferSize_def)
      have "finish \<Longrightarrow> ds_input s' = []"
        using less.prems(2) step(5) by (simp add: same_file_def)
      note IH = less.hyps [OF less_left step(3) this]
      have sums: "(c @ take k (ds_avail_in s)) @ ds_avail_in s' = c @ ds_avail_in s"
        by (simp add: step(4))
      have same: "same_file s' = same_file s"
        using step(5) by (auto simp: same_file_def)
      show ?thesis
        unfolding eq using IH by (simp only: sums same)
    qed
  qed
qed

lemma deflate_fill_steps:
  assumes "deflating contents d R s c p" "ds_avail_in s = []" "\<not> ds_finished s"
  shows "(\<exists>e. deflate_fill zl path s = Inl e) \<and> 4294967295 < length contents \<or>
         (\<exists>s'. deflate_fill zl path s = Inr s' \<and> deflating contents d R s' c p \<and>
            ds_input s' = drop kBufferSize (ds_input s) \<and>
            ds_avail_in s' = take kBufferSize (ds_input s) \<and>
            ds_finished s' = (length (ds_input s) < kBufferSize))"
proof -
  let ?chunk = "take kBufferSize (ds_input s)" and ?rest = "drop kBufferSize (ds_input s)"
  have size: "fw_uncompressed_size (ds_stats s) + length ?chunk = length contents - length ?rest"
    using assms(1) by (auto simp: deflating_def)
  have input: "length (ds_input s) \<le> length contents"
    using assms(1) by (auto simp: deflating_def)
  have pos: "0 < kBufferSize"
    by (simp add: kBufferSize_def)
  show ?thesis
  proof (cases "ds_input s = []")
    case True
    then have "deflate_fill zl path s = Inr (s\<lparr>ds_input := [], ds_finished := True, ds_avail_in := []\<rparr>)"
      using assms(2,3) pos by (simp add: deflate_fill_def)
    then show ?thesis
      using True assms pos by (auto simp: deflating_def)
  next
    case ne: False
    show ?thesis
    proof (cases "4294967295 < length contents - length ?rest")
      case True
      then have "\<exists>e. deflate_fill zl path s = Inl e"
        using assms(2,3) ne size pos by (simp add: deflate_fill_def Let_def del: length_take length_drop)
      moreover have "4294967295 < length contents"
        using True by simp
      ultimately show ?thesis by blast
    next
      case False
      let ?stats = "(ds_stats s)\<lparr>fw_uncompressed_size := length contents - length ?rest,
        fw_crc32 := zl_crc32 zl (fw_crc32 (ds_stats s)) ?chunk\<rparr>"
      define s' where "s' = s\<lparr>ds_input := ?rest, ds_stats := ?stats, ds_avail_in := ?chunk,
        ds_finished := (length ?chunk < kBufferSize)\<rparr>"
      have "deflate_fill zl path s = Inr s'"
        using assms(2,3) ne size False pos
        by (simp add: deflate_fill_def Let_def s'_def del: length_take length_drop)
      moreover have "deflating contents d R s' c p"
        using assms(1,2) False by (auto simp: deflating_def s'_def)
      ultimately show ?thesis
        by (auto simp: s'_def)
    qed
  qed
qed

text \<open>The writer ends; it fails only on oversize data or between two chunks.\<close>

lemma deflate_outer_ends:
  assumes "deflates zl codec contents bound R" "deflating contents d R s c p"
    "ds_avail_in s = []" "\<not> ds_finished s"
  shows "\<exists>r. deflate_outer zl path s = Some r \<and>
    (case r of
       Inl e \<Rightarrow> 4294967295 < length contents \<or> 4294967295 < bound \<or> kBufferSize \<le> length (ds_input s)
     | Inr s' \<Rightarrow>
         \<exists>q. deflating contents d R s' contents q \<and> ds_input s' = [] \<and> codec contents q)"
  using assms(2-)
proof (induction "length (ds_input s)" arbitrary: s c p rule: less_induct)
  case less
  from deflate_fill_steps [OF less.prems, of zl path]
  consider (fail) e where "deflate_fill zl path s = Inl e" "4294967295 < length contents"
    | (filled) s1 where "deflate_fill zl path s = Inr s1" "deflating contents d R s1 c p"
      "ds_input s1 = drop kBufferSize (ds_input s)"
      "ds_avail_in s1 = take kBufferSize (ds_input s)"
      "ds_finished s1 = (length (ds_input s) < kBufferSize)"
    by blast
  then show ?case
  proof cases
    case (fail e)
    then show ?thesis
      by (subst deflate_outer.simps) simp
  next
    case (filled s1)
    have input: "ds_finished s1 \<Longrightarrow> ds_input s1 = []"
      using filled(2) by (simp add: deflating_def)
    obtain r where r: "deflate_inner zl path (ds_finished s1) s1 = Some r"
      and out: "case r of Inl e \<Rightarrow> 4294967295 < bound
        | Inr (code, s') \<Rightarrow>
         \<exists>q. deflating contents d R s' (c @ ds_avail_in s1) q \<and> ds_avail_in s' = [] \<and>
             same_file s1 s' \<and> (code = Z_STREAM_END \<longleftrightarrow> ds_finished s1) \<and>
             (ds_finished s1 \<longrightarrow> codec (c @ ds_avail_in s1) q)"
      using deflate_inner_ends [OF assms(1) filled(2), of "ds_finished s1"] input by blast
    show ?thesis
    proof (cases r)
      case (Inl e)
      then show ?thesis
        using out by (subst deflate_outer.simps) (simp add: filled(1) r)
    next
      case (Inr x)
      then obtain code s2 q where x: "r = Inr (code, s2)"
        and s2: "deflating contents d R s2 (c @ ds_avail_in s1) q" "ds_avail_in s2 = []"
          "same_file s1 s2" "code = Z_STREAM_END \<longleftrightarrow> ds_finished s1"
          "ds_finished s1 \<Longrightarrow> codec (c @ ds_avail_in s1) q"
        using out by (cases x) auto
      show ?thesis
      proof (cases "ds_finished s1")
        case True
        then have code: "code = Z_STREAM_END"
          using s2(4) by simp
        have "deflate_outer zl path s = Some (Inr s2)"
          by (subst deflate_outer.simps) (simp add: filled(1) r x code)
        moreover have "ds_input s2 = []" "c @ ds_avail_in s1 = contents"
          using True s2(1,3) filled(2) by (auto simp: deflating_def same_file_def)
        ultimately show ?thesis
          using s2 True by auto
      next
        case False
        then have long: "kBufferSize \<le> length (ds_input s)"
          using filled(5) by simp
        have nf: "\<not> ds_finished s2" "ds_input s2 = drop kBufferSize (ds_input s)"
          using False s2(3) filled(3) by (simp_all add: same_file_def)
        show ?thesis
        proof (cases "code = Z_OK")
          case True
          have step: "deflate_outer zl path s = deflate_outer zl path s2"
            by (subst deflate_outer.simps) (simp add: filled(1) r x True nf(1))
          have "length (ds_input s2) < length (ds_input s)"
            using long nf by (simp add: kBufferSize_def)
          from less.hyps [OF this s2(1,2) nf(1)] show ?thesis
            using long by (auto simp: step split: sum.splits)
        next
          case not_ok: False
          have "code \<noteq> Z_STREAM_END"
            using False s2(4) by simp
          then have "\<exists>e. deflate_outer zl path s = Some (Inl e)"
            by (subst deflate_outer.simps) (simp add: filled(1) r x not_ok nf(1))
          then show ?thesis
            using long by auto
        qed
      qed
    qed
  qed
qed

lemma WriteDeflatedFileData_ends:
  assumes "deflates zl codec contents bound R"
  shows "\<exists>r. WriteDeflatedFileData zl path contents (stream_of d) = Some r \<and>
    (case r of
       Inl e \<Rightarrow> 4294967295 < length contents \<or> 4294967295 < bound \<or> kBufferSize \<le> length contents
     | Inr (stats, stream) \<Rightarrow>
         \<exists>packed. codec contents packed \<and> stream = stream_of (d @ packed) \<and>
           fw_compressed_size stats = length packed \<and> length packed \<le> 4294967295 \<and>
           fw_uncompressed_size stats = length contents \<and> length contents \<le> 4294967295)"
proof -
  from assms obtain z where z: "zl_deflateInit2 zl = Some z" "R z [] []"
    by (auto simp: deflates_def)
  define s where "s = \<lparr>ds_z = z, ds_input = contents, ds_avail_in = [], ds_finished = False,
      ds_stats = \<lparr>fw_crc32 = zl_crc32 zl 0 [], fw_compressed_size = 0, fw_uncompressed_size = 0\<rparr>,
      ds_stream = stream_of d\<rparr>"
  have "deflating contents d R s [] []"
    using z(2) by (simp add: deflating_def s_def)
  moreover have "ds_avail_in s = []" "\<not> ds_finished s" "ds_input s = contents"
    by (simp_all add: s_def)
  ultimately obtain r where r: "deflate_outer zl path s = Some r"
    and out: "case r of
       Inl e \<Rightarrow> 4294967295 < length contents \<or> 4294967295 < bound \<or> kBufferSize \<le> length contents
     | Inr s' \<Rightarrow> \<exists>q. deflating contents d R s' contents q \<and> ds_input s' = [] \<and> codec contents q"
    using deflate_outer_ends [OF assms, of d s "[]" "[]" path] by auto
  have "WriteDeflatedFileData zl path contents (stream_of d) =
      Some (map_sum id (\<lambda>s. (ds_stats s, ds_stream s)) r)"
    using r by (simp add: WriteDeflatedFileData_def z(1) s_def)
  then show ?thesis
    using out by (auto simp: deflating_def split: sum.splits)
qed

lemma WriteDeflatedFileData_facts:
  assumes "deflates zl codec contents bound R"
    and "WriteDeflatedFileData zl path contents (stream_of d) = Some (Inr (stats, stream))"
  shows "\<exists>packed. codec contents packed \<and> stream = stream_of (d @ packed) \<and>
           fw_compressed_size stats = length packed \<and> length packed \<le> 4294967295 \<and>
           fw_uncompressed_size stats = length contents \<and> length contents \<le> 4294967295"
  using WriteDeflatedFileData_ends [OF assms(1), of path d] assms(2) by auto

text \<open>
  The writer's loop ends, and what it wrote.  Compressing a file always comes to an end; when it
  reports no error the archive has grown by a deflate stream of exactly the file's contents, and the
  sizes it counted are those of the contents and of that stream; and for contents smaller than the
  64 KiB buffer whose stream fits 32 bits it reports no error.
\<close>

theorem WriteDeflatedFileData_correct:
  assumes "deflates zl codec contents bound R"
  shows "\<exists>r. WriteDeflatedFileData zl path contents (stream_of d) = Some r \<and>
    (case r of
       Inl e \<Rightarrow> 4294967295 < length contents \<or> 4294967295 < bound \<or> kBufferSize \<le> length contents
     | Inr (stats, stream) \<Rightarrow>
         \<exists>packed. codec contents packed \<and> stream = stream_of (d @ packed) \<and>
           fw_compressed_size stats = length packed \<and> length packed \<le> 4294967295 \<and>
           fw_uncompressed_size stats = length contents \<and> length contents \<le> 4294967295)"
  using assms by (rule WriteDeflatedFileData_ends)

subsection \<open>A library that satisfies both descriptions\<close>

text \<open>
  For the witnesses: the stream of data without zero bytes is the data and a closing zero.  The
  stream state is whether the end was reached.
\<close>

definition demo_codec :: "u8 list \<Rightarrow> u8 list \<Rightarrow> bool" where
  "demo_codec data packed \<longleftrightarrow> packed = data @ [0]"

definition demo_inflate :: "bool \<Rightarrow> u8 list \<Rightarrow> nat \<Rightarrow> z_code \<times> nat \<times> u8 list \<times> bool" where
  "demo_inflate ended avail n =
     (let plain = takeWhile (\<lambda>b. b \<noteq> 0) avail in
      if ended then (Z_STREAM_END, 0, [], True)
      else if avail = [] then (Z_BUF_ERROR, 0, [], False)
      else if length plain < length avail \<and> length plain \<le> n
      then (Z_STREAM_END, Suc (length plain), plain, True)
      else (Z_OK, length (take n plain), take n plain, False))"

definition demo_deflate :: "bool \<Rightarrow> u8 list \<Rightarrow> bool \<Rightarrow> nat \<Rightarrow> z_code \<times> nat \<times> u8 list \<times> bool" where
  "demo_deflate ended avail finish n =
     (if ended then (if finish then Z_STREAM_END else Z_BUF_ERROR, 0, [], True)
      else if finish \<and> length avail < n then (Z_STREAM_END, length avail, avail @ [0], True)
      else (Z_OK, length (take n avail), take n avail, False))"

definition demo_zlib :: "(bool, bool) zlib" where
  "demo_zlib =
     \<lparr>zl_crc32 = (\<lambda>c bs. c + word_of_nat (length bs)), zl_deflateInit2 = Some False,
      zl_deflate = demo_deflate, zl_inflateInit2 = Some False, zl_inflate = demo_inflate\<rparr>"

definition demo_packing :: "u8 list \<Rightarrow> bool \<Rightarrow> u8 list \<Rightarrow> u8 list \<Rightarrow> bool" where
  "demo_packing contents ended c p \<longleftrightarrow>
     (if ended then c = contents \<and> p = c @ [0] else p = c)"

lemma take_min_length: "take (min (length xs) n) xs = take n xs"
  by (simp add: min_def)

lemma demo_deflates:
  "deflates demo_zlib demo_codec contents (Suc (length contents)) (demo_packing contents)"
  unfolding deflates_def
proof (intro conjI allI impI)
  show "\<exists>z. zl_deflateInit2 demo_zlib = Some z \<and> demo_packing contents z [] []"
    by (auto simp: demo_zlib_def demo_packing_def intro: exI [of _ False])
next
  fix z c p
  assume "demo_packing contents z c p \<and> length c \<le> length contents"
  then show "length p \<le> Suc (length contents)"
    by (auto simp: demo_packing_def split: if_splits)
next
  fix z c p avail finish n code k out z'
  assume "demo_packing contents z c p \<and> prefix (c @ avail) contents \<and>
    (finish \<longrightarrow> c @ avail = contents) \<and> 0 < n \<and>
    zl_deflate demo_zlib z avail finish n = (code, k, out, z')"
  then show "deflate_answer demo_codec c p avail finish n code k out"
    and "demo_packing contents z' (c @ take k avail) (p @ out)"
    by (auto simp: demo_zlib_def demo_packing_def demo_deflate_def deflate_answer_def
        demo_codec_def prefix_def take_min_length split: if_splits)
qed

definition demo_unpacking :: "u8 list \<Rightarrow> bool \<Rightarrow> nat \<Rightarrow> nat \<Rightarrow> bool" where
  "demo_unpacking data ended i j \<longleftrightarrow>
     (if ended then i = Suc (length data) \<and> j = length data else i \<le> length data \<and> j = i)"

lemma demo_inflates:
  assumes "0 \<notin> set data"
  shows "inflates demo_zlib (data @ [0]) data (demo_unpacking data)"
  unfolding inflates_def
proof (intro conjI allI impI)
  show "\<exists>z. zl_inflateInit2 demo_zlib = Some z \<and> demo_unpacking data z 0 0"
    by (auto simp: demo_zlib_def demo_unpacking_def intro: exI [of _ False])
next
  fix z i j m n code k out z'
  let ?avail = "take m (drop i (data @ [0]))"
  assume a: "demo_unpacking data z i j \<and> i \<le> length (data @ [0]) \<and> j \<le> length data \<and> 0 < n \<and>
    zl_inflate demo_zlib z ?avail n = (code, k, out, z')"
  have plain: "takeWhile (\<lambda>b. b \<noteq> 0) ?avail = take m (drop i data)" if "i \<le> length data"
  proof (cases "m \<le> length data - i")
    case True
    then have avail: "?avail = take m (drop i data)"
      using that by simp
    have "b \<noteq> 0" if "b \<in> set (take m (drop i data))" for b
      using assms that by (meson in_set_dropD in_set_takeD)
    then show ?thesis
      unfolding avail by (simp add: takeWhile_eq_all_conv)
  next
    case False
    then have avail: "?avail = drop i data @ [0]" and rest: "take m (drop i data) = drop i data"
      using that by (simp_all add: take_Cons')
    have "b \<noteq> 0" if "b \<in> set (drop i data)" for b
      using assms that by (meson in_set_dropD)
    then show ?thesis
      unfolding avail rest by (simp add: takeWhile_append2)
  qed
  have call: "demo_inflate z ?avail n = (code, k, out, z')"
    using a by (simp add: demo_zlib_def)
  show "inflate_answer (data @ [0]) data i j ?avail n code k out"
    "demo_unpacking data z' (i + k) (j + length out)"
  proof (atomize (full), cases z)
    case True
    then have "i = Suc (length data)" "j = length data"
      using a by (simp_all add: demo_unpacking_def)
    then show "inflate_answer (data @ [0]) data i j ?avail n code k out \<and>
        demo_unpacking data z' (i + k) (j + length out)"
      using True call by (auto simp: demo_inflate_def demo_unpacking_def inflate_answer_def)
  next
    case False
    then have i: "i \<le> length data" "j = i"
      using a by (simp_all add: demo_unpacking_def)
    have len: "length ?avail = min m (Suc (length data) - i)"
      "length (take m (drop i data)) = min m (length data - i)"
      using i by auto
    consider (empty) "m = 0" | (finish) "length data - i < m" "length data - i \<le> n"
      | (more) "0 < m" "\<not> (length data - i < m \<and> length data - i \<le> n)"
      by linarith
    then show "inflate_answer (data @ [0]) data i j ?avail n code k out \<and>
        demo_unpacking data z' (i + k) (j + length out)"
    proof cases
      case empty
      then show ?thesis
        using call i False by (auto simp: demo_inflate_def demo_unpacking_def inflate_answer_def)
    next
      case finish
      then have avail: "?avail = drop i data @ [0]"
        using i by (simp add: take_Cons')
      have "takeWhile (\<lambda>b. b \<noteq> 0) (drop i data @ [0]) = drop i data"
        using plain [OF i(1)] finish unfolding avail by simp
      then have "(code, k, out, z') = (Z_STREAM_END, Suc (length data - i), drop i data, True)"
        using call False finish i unfolding avail by (simp add: demo_inflate_def Let_def)
      then show ?thesis
        using i finish by (auto simp: demo_unpacking_def inflate_answer_def)
    next
      case more
      then have ne: "?avail \<noteq> []" and
        full: "\<not> (length (take m (drop i data)) < length ?avail \<and> length (take m (drop i data)) \<le> n)"
        using i unfolding len by auto
      then have "(code, k, out, z') =
          (Z_OK, length (take n (take m (drop i data))), take n (take m (drop i data)), False)"
        using call False unfolding demo_inflate_def plain [OF i(1)] Let_def
        by (simp only: if_False)
      moreover have "min n (min m (length data - i)) = min m (Suc (length data) - i)"
        if "min n (min m (length data - i)) < n"
        using that more i by (auto simp: min_def split: if_splits)
      ultimately show ?thesis
        using i more by (auto simp: demo_unpacking_def inflate_answer_def min_def)
    qed
  qed
qed simp

theorem WriteDeflatedFileData_correct_witness:
  "\<exists>r. WriteDeflatedFileData demo_zlib ''f'' [1, 2, 3] (stream_of [7]) = Some r \<and>
    (case r of
       Inl e \<Rightarrow> 4294967295 < length [1 :: u8, 2, 3] \<or> 4294967295 < Suc (length [1 :: u8, 2, 3]) \<or>
         kBufferSize \<le> length [1 :: u8, 2, 3]
     | Inr (stats, stream) \<Rightarrow>
         \<exists>packed. demo_codec [1, 2, 3] packed \<and> stream = stream_of ([7] @ packed) \<and>
           fw_compressed_size stats = length packed \<and> length packed \<le> 4294967295 \<and>
           fw_uncompressed_size stats = length [1 :: u8, 2, 3] \<and> length [1 :: u8, 2, 3] \<le> 4294967295)"
  by (rule WriteDeflatedFileData_correct [OF demo_deflates])

text \<open>
  C28: What a deflated member reads back as.  When the bytes of a member, as many as its record announces,
  are a deflate stream of some data, the reader comes to an end.  For a stream of at most 64 KiB it hands
  its sink exactly that data if the record announces the size of the data, and answers with the size
  mismatch if it announces any other.  For a longer stream the one other outcome is the error on a failing
  \<open>inflate\<close>, which does occur with a library that behaves as documented (see the last theorem here).
\<close>

theorem InflateDeflatedEntry_correct:
  assumes "inflates zl packed data R" "take (length packed) (drop pos file) = packed"
    and "ar_compressed_size entry = length packed"
  shows "InflateDeflatedEntry zl file pos entry append_sink t = Some (Inr (t @ data)) \<and>
           ar_uncompressed_size entry = length data \<or>
         InflateDeflatedEntry zl file pos entry append_sink t =
           Some (Inl (Runtime_error (''deflated ZIP entry size mismatch: '' @ ar_path entry))) \<and>
           ar_uncompressed_size entry \<noteq> length data \<or>
         InflateDeflatedEntry zl file pos entry append_sink t =
           Some (Inl (Runtime_error (''failed to inflate ZIP entry: '' @ ar_path entry))) \<and>
           kBufferSize < length packed"
  using InflateDeflatedEntry_ends [OF assms, of t] by (auto simp: size_mismatch_def inflate_failed_def)

definition small_record :: archive_record where
  "small_record =
     \<lparr>ar_path = ''a'', ar_executable = False, ar_compressed_size = 3, ar_uncompressed_size = 2,
      ar_local_header_offset = 0, ar_crc32 = 0, ar_compression_method = kDeflatedCompressionMethod,
      ar_flags = 0, ar_version_made_by = 0\<rparr>"

theorem InflateDeflatedEntry_correct_witness:
  "InflateDeflatedEntry demo_zlib [9, 1, 2, 0] 1 small_record append_sink [] = Some (Inr [1, 2]) \<and>
   (\<exists>e. InflateDeflatedEntry demo_zlib [9, 1, 2, 0] 1 (small_record\<lparr>ar_uncompressed_size := 9\<rparr>) append_sink [] = Some (Inl e))"
proof -
  have "inflates demo_zlib ([1, 2] @ [0]) [1, 2] (demo_unpacking [1, 2])"
    by (rule demo_inflates) simp
  from InflateDeflatedEntry_correct [OF this, of 1 "[9, 1, 2, 0]" small_record "[]"]
    InflateDeflatedEntry_correct [OF this, of 1 "[9, 1, 2, 0]" "small_record\<lparr>ar_uncompressed_size := 9\<rparr>" "[]"]
  show ?thesis
    by (simp add: small_record_def kBufferSize_def)
qed

text \<open>
  A member the reader refuses although nothing is wrong with it.  The inner loop calls \<open>inflate\<close>
  again whenever the output buffer came back full.  When that happens at the end of an input chunk,
  the second call has nothing to do and answers \<open>Z_BUF_ERROR\<close>, which zlib documents as not fatal;
  the reader takes it for a corrupt member.  Here the library behaves as documented, the member is
  well formed, and reading it fails.
\<close>

definition full_buffer_record :: archive_record where
  "full_buffer_record = small_record
     \<lparr>ar_compressed_size := kBufferSize + 1, ar_uncompressed_size := kBufferSize\<rparr>"

theorem inflate_rejects_full_buffer:
  "inflates demo_zlib (replicate kBufferSize 1 @ [0]) (replicate kBufferSize 1)
     (demo_unpacking (replicate kBufferSize 1)) \<and>
   InflateDeflatedEntry demo_zlib (replicate kBufferSize 1 @ [0]) 0 full_buffer_record append_sink [] =
     Some (Inl (Runtime_error (''failed to inflate ZIP entry: '' @ ''a'')))"
proof
  show "inflates demo_zlib (replicate kBufferSize 1 @ [0]) (replicate kBufferSize 1)
     (demo_unpacking (replicate kBufferSize 1))"
    by (rule demo_inflates) simp
next
  let ?full = "replicate kBufferSize 1 :: u8 list"
  have pos: "0 < kBufferSize" by (simp add: kBufferSize_def)
  have plain: "takeWhile (\<lambda>b. b \<noteq> 0) ?full = ?full"
    by (simp add: takeWhile_eq_all_conv)
  define s where "s = \<lparr>is_z = False, is_pos = kBufferSize, is_remaining = 1, is_avail_in = ?full,
      is_finished = False, is_written = 0, is_sink = [] :: u8 list\<rparr>"
  define s' where "s' = s\<lparr>is_avail_in := [], is_written := kBufferSize, is_sink := ?full\<rparr>"
  have 1: "inflate_call demo_zlib ''a'' append_sink s = Inr (Z_OK, 0, s')"
    using pos plain
    by (simp add: inflate_call_def demo_zlib_def demo_inflate_def s_def s'_def append_sink_def)
  have 2: "inflate_call demo_zlib ''a'' append_sink s' =
      Inl (Runtime_error (''failed to inflate ZIP entry: '' @ ''a''))"
    by (simp add: inflate_call_def demo_zlib_def demo_inflate_def s_def s'_def)
  have inner: "inflate_inner demo_zlib ''a'' append_sink s =
      Some (Inl (Runtime_error (''failed to inflate ZIP entry: '' @ ''a'')))"
    by (subst inflate_inner.simps, simp add: 1, subst inflate_inner.simps, simp add: 2)
  have fill: "inflate_fill (?full @ [0]) ''a''
      \<lparr>is_z = False, is_pos = 0, is_remaining = kBufferSize + 1, is_avail_in = [],
       is_finished = False, is_written = 0, is_sink = []\<rparr> = Inr s"
    by (simp add: inflate_fill_def s_def)
  show "InflateDeflatedEntry demo_zlib (?full @ [0]) 0 full_buffer_record append_sink [] =
     Some (Inl (Runtime_error (''failed to inflate ZIP entry: '' @ ''a'')))"
    unfolding InflateDeflatedEntry_def
    by (subst inflate_outer.simps)
      (simp add: demo_zlib_def [THEN arg_cong [of _ _ zl_inflateInit2]] full_buffer_record_def
        small_record_def fill [simplified] inner)
qed

end
