(* ===== verification/Archive.thy ===== *)
theory Archive
  imports Zip_Data File_System
begin

section \<open>libs/package: creating, extracting and reading archives (archive.cpp)\<close>

text \<open>
  The four operations of the archive interface on a file system.  An operation yields \<open>None\<close> when a
  zlib loop does not return, and otherwise the exception it throws or its result; what a throwing
  operation leaves in the files it was writing is not described.
\<close>

type_synonym 'a run = "'a result option"

definition bind_run :: "'a run \<Rightarrow> ('a \<Rightarrow> 'b run) \<Rightarrow> 'b run" where
  "bind_run m f =
     (case m of None \<Rightarrow> None | Some (Inl e) \<Rightarrow> Some (Inl e) | Some (Inr x) \<Rightarrow> f x)"

lemma bind_run_simps [simp]:
  "bind_run None f = None" "bind_run (Some (Inl e)) f = Some (Inl e)"
  "bind_run (Some (Inr x)) f = f x"
  by (simp_all add: bind_run_def)

definition throw :: "string \<Rightarrow> 'a run" where
  "throw message = Some (Inl (Runtime_error message))"

definition run_if :: "bool \<Rightarrow> string \<Rightarrow> 'a run \<Rightarrow> 'a run" where
  "run_if bad message rest = (if bad then throw message else rest)"

lemma bind_run_Some_Inr:
  "bind_run m f = Some (Inr y) \<longleftrightarrow> (\<exists>x. m = Some (Inr x) \<and> f x = Some (Inr y))"
  by (auto simp: bind_run_def split: option.splits sum.splits)

lemma run_if_Some_Inr [simp]:
  "run_if bad message rest = Some (Inr y) \<longleftrightarrow> \<not> bad \<and> rest = Some (Inr y)"
  by (auto simp: run_if_def throw_def)

definition or_throw :: "'a option \<Rightarrow> string \<Rightarrow> 'a run" where
  "or_throw m message = Some (option_res (Runtime_error message) m)"

lemma or_throw_simps [simp]:
  "or_throw (Some x) message = Some (Inr x)" "or_throw m message = Some (Inr y) \<longleftrightarrow> m = Some y"
  by (simp_all add: or_throw_def)

definition HasExecutablePermission :: "fs_node option \<Rightarrow> bool" where
  "HasExecutablePermission node =
     (case node of
        Some (Regular_file contents executable) \<Rightarrow> executable
      | Some Directory \<Rightarrow> True
      | _ \<Rightarrow> False)"

definition IsArchivePath :: "string \<Rightarrow> bool" where
  "IsArchivePath path \<longleftrightarrow> path_extension path = ''.zip''"

definition fs_absolute :: "os_env \<Rightarrow> string \<Rightarrow> string" where
  "fs_absolute env p = path_append (CHR ''/'' # join_with (CHR ''/'') (oe_cwd env)) p"

subsection \<open>Collecting the members\<close>

record source_entry =
  se_path :: string
  se_source_path :: string
  se_executable :: bool
  se_uncompressed_size :: nat

text \<open>
  The loop over \<open>recursive_directory_iterator\<close>, which visits the names below the directory without
  following links; the visited path is the directory's path with those names.
\<close>

fun collect_entries ::
    "os_env \<Rightarrow> file_system \<Rightarrow> string \<Rightarrow> string set \<Rightarrow> fs_path list \<Rightarrow> source_entry list result" where
  "collect_entries env fs package_dir seen_paths [] = Inr []"
| "collect_entries env fs package_dir seen_paths (names # rest) =
     (let relative_string = join_with (CHR ''/'') names;
          path = path_append package_dir relative_string
      in
      bind_res (symlink_status env fs path) (\<lambda>status.
        if is_symlink_node status
        then Inl (Runtime_error (''symlink is not allowed in package directory: '' @ path))
        else if status = Some Directory then collect_entries env fs package_dir seen_paths rest
        else if \<not> is_regular_node status
        then Inl (Runtime_error (''unsupported file type in package directory: '' @ path))
        else if \<not> IsSafeRelativeArchivePath relative_string
        then Inl (Runtime_error (''package path is not safe: '' @ relative_string))
        else if relative_string \<in> seen_paths
        then Inl (Runtime_error (''duplicate package path: '' @ relative_string))
        else if 65535 < length relative_string
        then Inl (Runtime_error (''archive path is too long: '' @ relative_string))
        else bind_res (file_size env fs path) (\<lambda>size.
          if 4294967295 < size
          then Inl (Runtime_error (''file is too large for ZIP32: '' @ relative_string))
          else
            bind_res (fs_status env fs path) (\<lambda>status.
            bind_res (collect_entries env fs package_dir (insert relative_string seen_paths) rest)
              (\<lambda>entries.
                Inr (\<lparr>se_path = relative_string, se_source_path = path,
                      se_executable = HasExecutablePermission status,
                      se_uncompressed_size = size\<rparr> # entries))))))"

definition CollectSourceEntries ::
    "os_env \<Rightarrow> file_system \<Rightarrow> string \<Rightarrow> source_entry list result" where
  "CollectSourceEntries env fs package_dir =
     (case locate env fs True package_dir of
        Inl e \<Rightarrow> Inl (filesystem_error ''recursive directory iterator cannot open directory'' package_dir)
      | Inr q \<Rightarrow>
          bind_res (collect_entries env fs package_dir {} (oe_walk env fs q))
            (\<lambda>entries. Inr (sort_key se_path entries)))"

subsection \<open>CreateArchive\<close>

record create_archive_options =
  ca_package_dir :: string
  ca_archive_path :: string
  ca_force :: bool

definition written_record :: "source_entry \<Rightarrow> file_write_stats \<Rightarrow> nat \<Rightarrow> archive_record" where
  "written_record entry stats header_offset =
     \<lparr>ar_path = se_path entry, ar_executable = se_executable entry,
      ar_compressed_size = fw_compressed_size stats,
      ar_uncompressed_size = fw_uncompressed_size stats,
      ar_local_header_offset = header_offset, ar_crc32 = fw_crc32 stats,
      ar_compression_method = kDeflatedCompressionMethod, ar_flags = kGeneralPurposeUtf8,
      ar_version_made_by = 0\<rparr>"

fun write_entries ::
    "('d, 'i) zlib \<Rightarrow> os_env \<Rightarrow> file_system \<Rightarrow> source_entry list \<Rightarrow> ostream \<Rightarrow>
     (archive_record list \<times> ostream) run" where
  "write_entries zl env fs [] archive = Some (Inr ([], archive))"
| "write_entries zl env fs (entry # entries) archive =
     (let header_offset = os_pos archive;
          archive = WriteLocalFileHeader (se_path entry) archive
      in
      bind_run (or_throw (read_file env fs (se_source_path entry))
                  (''failed to open file: '' @ se_source_path entry)) (\<lambda>contents.
      bind_run (WriteDeflatedFileData zl (se_source_path entry) contents archive)
        (\<lambda>(stats, archive).
          let data_end = os_pos archive;
              archive = seekp data_end (PatchLocalFileHeader header_offset stats archive)
          in bind_run (write_entries zl env fs entries archive) (\<lambda>(records, archive).
               Some (Inr (written_record entry stats header_offset # records, archive))))))"

definition finish_archive :: "archive_record list \<Rightarrow> ostream \<Rightarrow> ostream run" where
  "finish_archive records archive =
     (let central_directory_offset = os_pos archive in
      run_if (4294967295 < central_directory_offset) ''ZIP64 archives are not supported''
        (let archive = fold WriteCentralDirectoryEntry records archive;
             central_directory_end = os_pos archive
         in
         run_if (central_directory_end < central_directory_offset)
           ''failed to finalize ZIP central directory''
           (let central_directory_size = central_directory_end - central_directory_offset in
            run_if (4294967295 < central_directory_size \<or> 65535 < length records)
              ''ZIP64 archives are not supported''
              (Some (Inr (WriteEndOfCentralDirectory (length records) central_directory_size
                            central_directory_offset archive))))))"

definition archive_contents ::
    "('d, 'i) zlib \<Rightarrow> os_env \<Rightarrow> file_system \<Rightarrow> source_entry list \<Rightarrow> u8 list run" where
  "archive_contents zl env fs entries =
     bind_run (write_entries zl env fs entries new_ostream) (\<lambda>(records, archive).
     bind_run (finish_archive records archive) (\<lambda>archive. Some (Inr (os_data archive))))"

definition clear_archive_path ::
    "os_env \<Rightarrow> file_system \<Rightarrow> string \<Rightarrow> bool \<Rightarrow> file_system result" where
  "clear_archive_path env fs archive_path force =
     bind_res (fs_exists env fs archive_path) (\<lambda>present.
       if \<not> present then Inr fs
       else bind_res (symlink_status env fs archive_path) (\<lambda>status.
         if \<not> is_regular_node status
         then Inl (Runtime_error (''archive path exists but is not a regular file: '' @ archive_path))
         else if \<not> force
         then Inl (Runtime_error (''archive path already exists: '' @ archive_path))
         else remove_file env fs archive_path))"

definition CreateArchive ::
    "('d, 'i) zlib \<Rightarrow> os_env \<Rightarrow> file_system \<Rightarrow> create_archive_options \<Rightarrow> file_system run" where
  "CreateArchive zl env fs options =
     (let package_dir = ca_package_dir options; archive_path = ca_archive_path options in
      run_if (package_dir = []) ''package directory is empty''
      (run_if (archive_path = []) ''archive path is empty''
      (run_if (\<not> IsArchivePath archive_path) ''archive path must use the .zip extension''
      (bind_run (Some (symlink_status env fs package_dir)) (\<lambda>package_status.
       run_if (is_symlink_node package_status)
         (''package directory cannot be a symlink: '' @ package_dir)
      (run_if (package_status \<noteq> Some Directory)
         (''package directory does not exist: '' @ package_dir)
      (run_if (lexically_normal package_dir = lexically_normal archive_path)
         ''package directory and archive path must differ''
      (run_if (IsWithinBase (lexically_normal (fs_absolute env package_dir))
                 (lexically_normal (fs_absolute env archive_path)))
         (''archive path cannot be inside the package directory: '' @ archive_path)
      (bind_run (Some (CollectSourceEntries env fs package_dir)) (\<lambda>entries.
       run_if (\<not> list_ex (\<lambda>entry. se_path entry = kManifestPath) entries)
         ''package directory must include META/manifest.json''
      (bind_run (Some (clear_archive_path env fs archive_path (ca_force options))) (\<lambda>fs.
       bind_run (Some (if parent_path archive_path = [] then Inr fs
                       else create_directories env fs (parent_path archive_path))) (\<lambda>fs.
       bind_run (or_throw (write_file env fs archive_path [])
                   (''failed to open file for write: '' @ archive_path)) (\<lambda>fs.
       bind_run (archive_contents zl env fs entries) (\<lambda>contents.
       or_throw (write_file env fs archive_path contents) ''failed to write ZIP EOCD'')))))))))))))))"

subsection \<open>ExtractArchive, ListArchiveEntries and ReadArchiveFile\<close>

definition ParseArchive :: "os_env \<Rightarrow> file_system \<Rightarrow> string \<Rightarrow> archive_record list result" where
  "ParseArchive env fs archive_path =
     (case read_file env fs archive_path of
        None \<Rightarrow> Inl (filesystem_error ''cannot get file size'' archive_path)
      | Some file \<Rightarrow> ParseCentralDirectory archive_path file)"

definition ExtractArchiveEntry ::
    "('d, 'i) zlib \<Rightarrow> os_env \<Rightarrow> string \<Rightarrow> string \<Rightarrow> archive_record \<Rightarrow> file_system \<Rightarrow> file_system run" where
  "ExtractArchiveEntry zl env archive_path output_root entry fs =
     (let target_path = lexically_normal (path_append output_root (ar_path entry)) in
      run_if (\<not> IsWithinBase (lexically_normal output_root) target_path)
        (''archive entry escapes output directory: '' @ ar_path entry)
      (bind_run (Some (if parent_path target_path = [] then Inr fs
                       else create_directories env fs (parent_path target_path))) (\<lambda>fs.
       bind_run (or_throw (write_file env fs target_path [])
                   (''failed to open file for write: '' @ target_path)) (\<lambda>fs.
       bind_run (or_throw (read_file env fs archive_path)
                   (''failed to open file: '' @ archive_path)) (\<lambda>file.
       bind_run (TransferArchiveEntryData zl file entry append_sink []) (\<lambda>contents.
       bind_run (or_throw (write_file env fs target_path contents)
                   ''failed to write extracted file'') (\<lambda>fs.
       if ar_executable entry
       then or_throw (set_executable env fs target_path True)
              (''failed to update executable permission for: '' @ target_path)
       else Some (Inr fs))))))))"

fun extract_entries ::
    "('d, 'i) zlib \<Rightarrow> os_env \<Rightarrow> string \<Rightarrow> string \<Rightarrow> archive_record list \<Rightarrow> file_system \<Rightarrow> file_system run" where
  "extract_entries zl env archive_path output_dir [] fs = Some (Inr fs)"
| "extract_entries zl env archive_path output_dir (r # records) fs =
     bind_run (ExtractArchiveEntry zl env archive_path output_dir r fs)
       (extract_entries zl env archive_path output_dir records)"

definition ExtractArchive ::
    "('d, 'i) zlib \<Rightarrow> os_env \<Rightarrow> file_system \<Rightarrow> string \<Rightarrow> string \<Rightarrow> bool \<Rightarrow> file_system run" where
  "ExtractArchive zl env fs archive_path output_dir force =
     run_if (archive_path = []) ''archive path is empty''
     (run_if (output_dir = []) ''output directory is empty''
     (run_if (\<not> IsArchivePath archive_path) ''archive path must use the .zip extension''
     (bind_run (Some (ParseArchive env fs archive_path)) (\<lambda>records.
      bind_run (Some (fs_exists env fs output_dir)) (\<lambda>present.
      run_if (present \<and> \<not> force) (''output directory already exists: '' @ output_dir)
     (bind_run (Some (if present then remove_all env fs output_dir else Inr fs)) (\<lambda>fs.
      bind_run (Some (create_directories env fs output_dir)) (\<lambda>fs.
      extract_entries zl env archive_path output_dir records fs))))))))"

record archive_entry =
  ae_path :: string
  ae_executable :: bool
  ae_compressed_size :: nat
  ae_uncompressed_size :: nat

definition ListArchiveEntries :: "os_env \<Rightarrow> file_system \<Rightarrow> string \<Rightarrow> archive_entry list result" where
  "ListArchiveEntries env fs archive_path =
     (if archive_path = [] then Inl (Runtime_error ''archive path is empty'')
      else if \<not> IsArchivePath archive_path
      then Inl (Runtime_error ''archive path must use the .zip extension'')
      else bind_res (ParseArchive env fs archive_path) (\<lambda>records.
        Inr (map (\<lambda>r. \<lparr>ae_path = ar_path r, ae_executable = ar_executable r,
                       ae_compressed_size = ar_compressed_size r,
                       ae_uncompressed_size = ar_uncompressed_size r\<rparr>) records)))"

definition ReadArchiveFile ::
    "('d, 'i) zlib \<Rightarrow> os_env \<Rightarrow> file_system \<Rightarrow> string \<Rightarrow> string \<Rightarrow> u8 list run" where
  "ReadArchiveFile zl env fs archive_path path =
     run_if (archive_path = []) ''archive path is empty''
     (run_if (\<not> IsArchivePath archive_path) ''archive path must use the .zip extension''
     (run_if (\<not> IsSafeRelativeArchivePath path) (''archive entry path is not safe: '' @ path)
     (bind_run (Some (ParseArchive env fs archive_path)) (\<lambda>records.
      bind_run (Some (FindArchiveRecord records path)) (\<lambda>entry.
      bind_run (or_throw (read_file env fs archive_path) (''failed to open file: '' @ archive_path))
        (\<lambda>file. ReadArchiveEntryBytes zl file entry))))))"

subsection \<open>The members that are collected\<close>

definition collected :: "source_entry list \<Rightarrow> bool" where
  "collected entries \<longleftrightarrow>
     list_all (\<lambda>e. IsSafeRelativeArchivePath (se_path e) \<and> length (se_path e) \<le> 65535) entries \<and>
     distinct (map se_path entries)"

lemma collect_entries_collected:
  assumes "collect_entries env fs dir seen ps = Inr entries"
  shows "collected entries \<and> (\<forall>e\<in>set entries. se_path e \<notin> seen)"
  using assms
proof (induction ps arbitrary: seen entries)
  case Nil
  then show ?case by (simp add: collected_def)
next
  case (Cons p ps)
  from Cons.prems show ?case
    by (auto simp: Let_def bind_res_Inr_iff collected_def split: if_splits dest!: Cons.IH) blast
qed

lemma CollectSourceEntries_collected:
  assumes "CollectSourceEntries env fs dir = Inr entries"
  shows "collected entries \<and> sorted (map se_path entries)"
proof -
  obtain q es where es: "collect_entries env fs dir {} (oe_walk env fs q) = Inr es"
      "entries = sort_key se_path es"
    using assms by (auto simp: CollectSourceEntries_def bind_res_Inr_iff split: sum.splits)
  from collect_entries_collected [OF es(1)] es(2) show ?thesis
    by (auto simp: collected_def list_all_iff distinct_map inj_on_def)
qed

subsection \<open>What the writer leaves in the archive\<close>

definition zlib_round_trips :: "('d, 'i) zlib \<Rightarrow> (u8 list \<Rightarrow> u8 list \<Rightarrow> bool) \<Rightarrow> u8 list \<Rightarrow> bool" where
  "zlib_round_trips zl codec contents \<longleftrightarrow>
     (\<exists>bound R. deflates zl codec contents bound R) \<and>
     (\<forall>packed. codec contents packed \<longrightarrow> (\<exists>R. inflates zl packed contents R))"

text \<open>A member's header and stream stand in the file where its record says.\<close>

definition stored_at ::
    "(u8 list \<Rightarrow> u8 list \<Rightarrow> bool) \<Rightarrow> u8 list \<Rightarrow> archive_record \<Rightarrow> u8 list \<Rightarrow> bool" where
  "stored_at codec file r contents \<longleftrightarrow>
     (\<exists>pre packed rest.
        file = pre @ local_header_bytes (ar_crc32 r) (u32_of_size (ar_compressed_size r))
                 (u32_of_size (ar_uncompressed_size r)) (ar_path r) @ packed @ rest \<and>
        codec contents packed \<and> ar_local_header_offset r = length pre \<and>
        ar_compressed_size r = length packed \<and> ar_uncompressed_size r = length contents \<and>
        length packed \<le> 4294967295 \<and> length contents \<le> 4294967295)"

lemma stored_at_append: "stored_at codec file r c \<Longrightarrow> stored_at codec (file @ extra) r c"
  unfolding stored_at_def by (metis append.assoc)

definition entry_written ::
    "(u8 list \<Rightarrow> u8 list \<Rightarrow> bool) \<Rightarrow> os_env \<Rightarrow> file_system \<Rightarrow> u8 list \<Rightarrow> source_entry \<Rightarrow> archive_record \<Rightarrow> bool" where
  "entry_written codec env fs file e r \<longleftrightarrow>
     ar_path r = se_path e \<and> ar_executable r = se_executable e \<and>
     ar_flags r = kGeneralPurposeUtf8 \<and> ar_compression_method r = kDeflatedCompressionMethod \<and>
     (\<exists>c. read_file env fs (se_source_path e) = Some c \<and> stored_at codec file r c)"

lemma write_entries_written:
  assumes "write_entries zl env fs entries (stream_of d) = Some (Inr (records, archive))"
    and "\<And>e c. e \<in> set entries \<Longrightarrow> read_file env fs (se_source_path e) = Some c \<Longrightarrow>
           zlib_round_trips zl codec c"
  shows "\<exists>body. archive = stream_of (d @ body) \<and>
           list_all2 (entry_written codec env fs (d @ body)) entries records"
  using assms
proof (induction entries arbitrary: d records archive)
  case Nil
  then show ?case by (intro exI [of _ "[]"]) simp
next
  case (Cons e es)
  let ?h = "local_header_bytes 0 0 0 (se_path e)"
  obtain c stats a1 rest a2 where c: "read_file env fs (se_source_path e) = Some c"
    and data: "WriteDeflatedFileData zl (se_source_path e) c (stream_of (d @ ?h)) = Some (Inr (stats, a1))"
    and rec: "write_entries zl env fs es (seekp (os_pos a1) (PatchLocalFileHeader (length d) stats a1)) =
                 Some (Inr (rest, a2))"
    and res: "records = written_record e stats (length d) # rest" "archive = a2"
    using Cons.prems(1) by (auto simp: throw_def Let_def bind_run_Some_Inr split: option.splits)
  obtain bound R where "deflates zl codec c bound R"
    using Cons.prems(2) [OF _ c] by (auto simp: zlib_round_trips_def)
  from WriteDeflatedFileData_facts [OF this data] obtain packed where
    packed: "codec c packed" "a1 = stream_of ((d @ ?h) @ packed)"
      "fw_compressed_size stats = length packed" "length packed \<le> 4294967295"
      "fw_uncompressed_size stats = length c" "length c \<le> 4294967295"
    by blast
  let ?head = "local_header_bytes (fw_crc32 stats) (u32_of_size (length packed))
      (u32_of_size (length c)) (se_path e)"
  have patched: "seekp (os_pos a1) (PatchLocalFileHeader (length d) stats a1) =
      stream_of (d @ ?head @ packed)"
    using packed(3,5) seekp_end [of "d @ ?head @ packed"] by (simp add: packed(2))
  then obtain body where body: "archive = stream_of ((d @ ?head @ packed) @ body)"
    and all: "list_all2 (entry_written codec env fs ((d @ ?head @ packed) @ body)) es rest"
    using Cons.IH [OF rec [unfolded patched]] Cons.prems(2) res by auto
  have "stored_at codec (d @ ?head @ packed) (written_record e stats (length d)) c"
    unfolding stored_at_def using packed
    by (intro exI [of _ d] exI [of _ packed] exI [of _ "[]"]) (simp add: written_record_def)
  then have "entry_written codec env fs ((d @ ?head @ packed) @ body) e (written_record e stats (length d))"
    using c stored_at_append [of codec "d @ ?head @ packed" _ c body]
    by (simp add: entry_written_def written_record_def)
  then show ?case
    using body all res by (intro exI [of _ "?head @ packed @ body"]) simp
qed

lemma fold_central_entries:
  "fold WriteCentralDirectoryEntry records (stream_of d) =
     stream_of (d @ concat (map central_entry_bytes records))"
  by (induction records arbitrary: d) simp_all

lemma finish_archive_bytes:
  assumes "finish_archive records (stream_of d) = Some (Inr archive)"
  shows "length records < 65536 \<and>
         os_data archive = d @ concat (map central_entry_bytes records) @
           eocd_bytes (length records) (length (concat (map central_entry_bytes records))) (length d)"
  using assms
  by (auto simp: finish_archive_def fold_central_entries Let_def simp del: length_concat)

subsection \<open>The round trip\<close>

lemma stored_at_writable:
  assumes "entry_written codec env fs body e r" "stored_at codec body r c"
    and "IsSafeRelativeArchivePath (se_path e)" "length (se_path e) \<le> 65535"
    and "length body < 4294967295" "length c < 4294967295" "length body \<le> bytes"
  shows "writable_record bytes r"
proof -
  from assms(2) obtain pre packed rest where
    "body = pre @ local_header_bytes (ar_crc32 r) (u32_of_size (ar_compressed_size r))
              (u32_of_size (ar_uncompressed_size r)) (ar_path r) @ packed @ rest"
    and packed: "ar_local_header_offset r = length pre" "ar_compressed_size r = length packed"
      "ar_uncompressed_size r = length c"
    by (auto simp: stored_at_def)
  then have "length pre + length packed + 30 \<le> length body"
    by simp
  then have "length pre < 4294967295" "length packed < 4294967295" "length pre < bytes"
    using assms(5,7) by linarith+
  then show ?thesis
    using assms(1,3,4,6) packed by (simp add: writable_record_def entry_written_def)
qed

lemma ReadArchiveEntryBytes_stored:
  assumes "stored_at codec file r c" "length (ar_path r) \<le> 65535"
    and "ar_compression_method r = kDeflatedCompressionMethod"
    and "zlib_round_trips zl codec c"
  shows "ReadArchiveEntryBytes zl file r = Some (Inr c) \<or>
         ReadArchiveEntryBytes zl file r = Some (Inl (inflate_failed (ar_path r))) \<and>
         kBufferSize < ar_compressed_size r"
proof -
  from assms(1) obtain pre packed rest where
    split: "file = pre @ local_header_bytes (ar_crc32 r) (u32_of_size (ar_compressed_size r))
              (u32_of_size (ar_uncompressed_size r)) (ar_path r) @ packed @ rest"
    and packed: "codec c packed" "ar_local_header_offset r = length pre"
      "ar_compressed_size r = length packed" "ar_uncompressed_size r = length c"
      "length packed \<le> 4294967295" "length c \<le> 4294967295"
    by (auto simp: stored_at_def)
  obtain R where R: "inflates zl packed c R"
    using assms(4) packed(1) by (auto simp: zlib_round_trips_def)
  let ?pos = "length pre + 30 + length (ar_path r)"
  have info: "\<exists>info. ReadLocalFileInfo file r = Inr info \<and> lf_data_offset info = ?pos"
  proof -
    have "length (ar_path r) < 65536" "ar_compressed_size r < 4294967296"
      "ar_uncompressed_size r < 4294967296"
      using assms(2) packed(3-6) by simp_all
    from ReadLocalFileInfo_written [OF split packed(2) HOL.refl this(1) HOL.refl HOL.refl HOL.refl
        this(2,3) packed(3) [symmetric] assms(3)]
    show ?thesis
      by simp
  qed
  have "take (length packed) (drop ?pos file) = packed"
    unfolding split by simp
  from InflateDeflatedEntry_data [OF R this packed(3,4), of "[]"]
  have "InflateDeflatedEntry zl file ?pos r append_sink [] = Some (Inr c) \<or>
        InflateDeflatedEntry zl file ?pos r append_sink [] = Some (Inl (inflate_failed (ar_path r))) \<and>
        kBufferSize < length packed"
    by simp
  moreover have "kDeflatedCompressionMethod \<noteq> kStoredCompressionMethod"
    by (simp add: zip_constants)
  then have "TransferArchiveEntryData zl file r append_sink [] =
      InflateDeflatedEntry zl file ?pos r append_sink []"
    using info assms(3) by (auto simp: TransferArchiveEntryData_def)
  ultimately show ?thesis
    using packed by (auto simp: ReadArchiveEntryBytes_def)
qed

lemma stored_at_made_by_unix [simp]:
  "stored_at codec file (made_by_unix r) c = stored_at codec file r c"
  by (simp add: stored_at_def made_by_unix_def)

definition reads_back ::
    "('d, 'i) zlib \<Rightarrow> os_env \<Rightarrow> file_system \<Rightarrow> u8 list \<Rightarrow> source_entry \<Rightarrow> archive_record \<Rightarrow> bool" where
  "reads_back zl env fs file e r \<longleftrightarrow>
     ar_path r = se_path e \<and> ar_executable r = se_executable e \<and>
     (\<exists>c. read_file env fs (se_source_path e) = Some c \<and> ar_uncompressed_size r = length c \<and>
        (ReadArchiveEntryBytes zl file r = Some (Inr c) \<or>
         ReadArchiveEntryBytes zl file r = Some (Inl (inflate_failed (ar_path r))) \<and>
         kBufferSize < ar_compressed_size r))"

lemma entry_written_reads_back:
  assumes "entry_written codec env fs body e r" "length (se_path e) \<le> 65535"
    and "\<And>c. read_file env fs (se_source_path e) = Some c \<Longrightarrow> zlib_round_trips zl codec c"
  shows "reads_back zl env fs (body @ extra) e (made_by_unix r)"
proof -
  from assms(1) obtain c where c: "read_file env fs (se_source_path e) = Some c"
    and stored: "stored_at codec body r c" and meth: "ar_compression_method r = kDeflatedCompressionMethod"
    by (auto simp: entry_written_def)
  have "stored_at codec (body @ extra) (made_by_unix r) c"
    using stored stored_at_append by simp
  moreover have "ar_uncompressed_size (made_by_unix r) = length c"
    using stored by (auto simp: stored_at_def made_by_unix_def)
  ultimately show ?thesis
    using ReadArchiveEntryBytes_stored [of codec "body @ extra" "made_by_unix r" c zl] assms c meth
    by (auto simp: reads_back_def entry_written_def made_by_unix_def)
qed

lemma list_all2_right: "list_all2 P xs ys \<Longrightarrow> y \<in> set ys \<Longrightarrow> \<exists>x\<in>set xs. P x y"
  by (induction rule: list_all2_induct) auto

lemma archive_contents_read_back:
  assumes "archive_contents zl env fs entries = Some (Inr file)"
    and "collected entries" "length file < 4294967295"
    and "\<And>e c. e \<in> set entries \<Longrightarrow> read_file env fs (se_source_path e) = Some c \<Longrightarrow>
           zlib_round_trips zl codec c \<and> length c < 4294967295"
  shows "\<exists>records. ParseCentralDirectory path file = Inr records \<and>
           list_all2 (reads_back zl env fs file) entries records"
proof -
  obtain records a b where w: "write_entries zl env fs entries (stream_of []) = Some (Inr (records, a))"
    and f: "finish_archive records a = Some (Inr b)" and file_b: "file = os_data b"
    using assms(1) by (auto simp: archive_contents_def bind_run_Some_Inr new_ostream_stream_of)
  obtain body where a: "a = stream_of body"
    and all: "list_all2 (entry_written codec env fs body) entries records"
    using write_entries_written [OF w, of codec] assms(4) by auto
  let ?c = "concat (map central_entry_bytes records)"
  have count: "length records < 65536"
    and split: "file = body @ ?c @ eocd_bytes (length records) (length ?c) (length body)"
    using finish_archive_bytes [OF f [unfolded a]] file_b by simp_all
  have sizes: "length ?c < 4294967295" "length body < 4294967295" "length body \<le> length file"
    using assms(3) unfolding split by simp_all
  have paths: "map ar_path records = map se_path entries"
    using all by (induction rule: list_all2_induct) (auto simp: entry_written_def)
  have good: "IsSafeRelativeArchivePath (se_path e) \<and> length (se_path e) \<le> 65535" if "e \<in> set entries" for e
    using assms(2) that by (simp add: collected_def list_all_iff)
  have "writable_record (length file) r" if r: "r \<in> set records" for r
  proof -
    obtain e where e: "e \<in> set entries" "entry_written codec env fs body e r"
      using list_all2_right [OF all r] by blast
    then obtain c where c: "read_file env fs (se_source_path e) = Some c" "stored_at codec body r c"
      by (auto simp: entry_written_def)
    show ?thesis
      by (rule stored_at_writable [OF e(2) c(2)])
        (use good [OF e(1)] assms(4) [OF e(1) c(1)] sizes in simp_all)
  qed
  then have "list_all (writable_record (length file)) records"
    by (simp add: list_all_iff)
  moreover have "distinct (map ar_path records)"
    using assms(2) by (simp add: paths collected_def)
  ultimately have "ParseCentralDirectory path file = Inr (map made_by_unix records)"
    by (rule ParseCentralDirectory_written [OF _ _ count sizes(1,2) split])
  moreover have "list_all2 (reads_back zl env fs file) entries (map made_by_unix records)"
    unfolding list_all2_map2 split using all
  proof (rule list.rel_mono_strong, intro entry_written_reads_back)
    fix e r c
    assume e: "e \<in> set entries" "r \<in> set records" "entry_written codec env fs body e r"
    show "entry_written codec env fs body e r" "length (se_path e) \<le> 65535"
      using e good by auto
    show "zlib_round_trips zl codec c" if "read_file env fs (se_source_path e) = Some c"
      using assms(4) e that by blast
  qed
  ultimately show ?thesis
    by blast
qed

lemma find_list_all2:
  assumes "list_all2 P xs ys" "\<And>x y. P x y \<Longrightarrow> key y = k x" "distinct (map k xs)" "x \<in> set xs"
  shows "\<exists>y. find (\<lambda>y. key y = k x) ys = Some y \<and> P x y"
  using assms(1,3,4)
proof (induction rule: list_all2_induct)
  case Nil
  then show ?case by simp
next
  case (Cons a as b bs)
  then show ?case
    using assms(2) [of a b] by (auto simp: image_iff)
qed

text \<open>What was written for a list of members is listed and read back.\<close>

lemma archive_reads_back:
  assumes "CollectSourceEntries env fs package_dir = Inr entries"
    and "archive_contents zl env fs' entries = Some (Inr file)"
    and "read_file env fs'' archive_path = Some file" "IsArchivePath archive_path"
    and "length file < 4294967295" "e \<in> set entries"
    and "\<And>e c. e \<in> set entries \<Longrightarrow> read_file env fs' (se_source_path e) = Some c \<Longrightarrow>
           zlib_round_trips zl codec c \<and> length c < 4294967295"
  shows "\<exists>c listed r.
           ListArchiveEntries env fs'' archive_path = Inr listed \<and>
           map ae_path listed = map se_path entries \<and>
           map ae_executable listed = map se_executable entries \<and>
           read_file env fs' (se_source_path e) = Some c \<and>
           r \<in> set listed \<and> ae_path r = se_path e \<and> ae_uncompressed_size r = length c \<and>
           (ReadArchiveFile zl env fs'' archive_path (se_path e) = Some (Inr c) \<or>
            ReadArchiveFile zl env fs'' archive_path (se_path e) =
              Some (Inl (inflate_failed (se_path e))) \<and> kBufferSize < ae_compressed_size r)"
proof -
  have coll: "collected entries"
    using CollectSourceEntries_collected [OF assms(1)] by simp
  obtain records where parse: "ParseCentralDirectory archive_path file = Inr records"
    and all: "list_all2 (reads_back zl env fs' file) entries records"
    using archive_contents_read_back [OF assms(2) coll assms(5), of codec archive_path] assms(7)
    by blast
  obtain r where r: "find (\<lambda>r. ar_path r = se_path e) records = Some r"
    and readback: "reads_back zl env fs' file e r"
    using find_list_all2 [OF all, of ar_path se_path e] coll assms(6)
    by (auto simp: reads_back_def collected_def)
  then obtain c where c: "read_file env fs' (se_source_path e) = Some c" "ar_uncompressed_size r = length c"
    and bytes: "ReadArchiveEntryBytes zl file r = Some (Inr c) \<or>
         ReadArchiveEntryBytes zl file r = Some (Inl (inflate_failed (ar_path r))) \<and>
         kBufferSize < ar_compressed_size r"
    by (auto simp: reads_back_def)
  have path: "ar_path r = se_path e" and mem: "r \<in> set records"
    using r readback by (auto simp: reads_back_def find_Some_iff)
  have ne: "archive_path \<noteq> []"
    using assms(4) by (auto simp: IsArchivePath_def path_extension_def path_filename_def)
  have safe: "IsSafeRelativeArchivePath (se_path e)"
    using coll assms(6) by (simp add: collected_def list_all_iff)
  have "ReadArchiveFile zl env fs'' archive_path (se_path e) = ReadArchiveEntryBytes zl file r"
    using ne safe assms(3,4) parse r
    by (simp add: ReadArchiveFile_def run_if_def ParseArchive_def FindArchiveRecord_def)
  moreover have "map ar_path records = map se_path entries"
    "map ar_executable records = map se_executable entries"
    using all by (induction rule: list_all2_induct) (auto simp: reads_back_def)
  ultimately show ?thesis
    using ne assms(3,4) parse c bytes path mem
    by (auto simp: ListArchiveEntries_def ParseArchive_def comp_def intro!: bexI [of _ r])
qed

end
