(* ===== verification/Archive_Extract.thy ===== *)
theory Archive_Extract
  imports Archive
begin

section \<open>Extraction: where the members of an archive end up\<close>

text \<open>
  The paths a member is extracted to, and what extraction does to a file system without links:
  nothing outside the output directory changes, and below it stand exactly the members.
\<close>

subsection \<open>Safe member paths\<close>

lemma safe_path_names:
  assumes "IsSafeRelativeArchivePath q"
  shows "path_names q = split_on (CHR ''/'') q" "plain_names (path_names q)" "path_names q \<noteq> []"
    "\<not> is_absolute q" "join_with (CHR ''/'') (path_names q) = q"
proof -
  have parts: "list_all (\<lambda>part. \<not> (part = [] \<or> part = ''.'' \<or> part = ''..'')) (split_on (CHR ''/'') q)"
    and hd: "q \<noteq> []" "hd q \<noteq> CHR ''/''"
    using assms by (auto simp: IsSafeRelativeArchivePath_def split: if_splits)
  show names: "path_names q = split_on (CHR ''/'') q"
    using parts by (auto simp: path_names_def list_all_iff filter_id_conv)
  show "plain_names (path_names q)" "path_names q \<noteq> []"
    "join_with (CHR ''/'') (path_names q) = q"
    using parts unfolding names by (simp_all add: plain_names_def list_all_iff)
  show "\<not> is_absolute q"
    using hd by (simp add: is_absolute_def)
qed

lemma join_with_append:
  "ns \<noteq> [] \<Longrightarrow> ms \<noteq> [] \<Longrightarrow> join_with d (ns @ ms) = join_with d ns @ d # join_with d ms"
proof (induction ns)
  case Nil
  then show ?case by simp
next
  case (Cons n ns)
  then show ?case
    by (cases ns; cases ms) auto
qed

definition spelled :: "bool \<Rightarrow> string list \<Rightarrow> string" where
  "spelled absolute ns = (if absolute then ''/'' else []) @ join_with (CHR ''/'') ns"

definition good_names :: "string list \<Rightarrow> bool" where
  "good_names ns \<longleftrightarrow> (\<forall>s\<in>set ns. s \<noteq> [] \<and> CHR ''/'' \<notin> set s)"

lemma good_path_names [simp]: "good_names (path_names p)"
  using path_names_no_slash by (auto simp: good_names_def)

lemma good_names_append [simp]: "good_names (ns @ ms) \<longleftrightarrow> good_names ns \<and> good_names ms"
  by (auto simp: good_names_def)

lemma hd_join: "good_names ns \<Longrightarrow> ns \<noteq> [] \<Longrightarrow> join_with (CHR ''/'') ns \<noteq> [] \<and> hd (join_with (CHR ''/'') ns) \<noteq> CHR ''/''"
  by (cases ns; cases "tl ns"; cases "hd ns") (auto simp: good_names_def)

lemma spelled_facts:
  assumes "good_names ns" "ns \<noteq> []"
  shows "path_names (spelled a ns) = ns" "is_absolute (spelled a ns) = a" "spelled a ns \<noteq> []"
  using assms hd_join [OF assms] path_names_join [of ns]
  by (auto simp: spelled_def good_names_def is_absolute_def)

lemma parent_path_spelled:
  assumes "good_names ns" "ns \<noteq> []"
  shows "parent_path (spelled a ns) = spelled a (butlast ns)"
proof -
  have split: "split_on (CHR ''/'') (join_with (CHR ''/'') ns) = ns"
    using assms by (intro split_join_with) (auto simp: good_names_def)
  have drop: "rev (dropWhile (\<lambda>s. s = []) (rev (xs @ butlast ns))) = xs @ butlast ns" if "butlast ns \<noteq> []" for xs
  proof -
    have "last (butlast ns) \<noteq> []"
      using assms that by (metis good_names_def in_set_butlastD last_in_set)
    then show ?thesis
      using that by (cases "butlast ns" rule: rev_cases) auto
  qed
  show ?thesis
  proof (cases "butlast ns = []")
    case True
    then show ?thesis
      using split assms by (cases a) (auto simp: parent_path_def spelled_def Let_def)
  next
    case False
    have "join_with (CHR ''/'') ([] # butlast ns) = CHR ''/'' # join_with (CHR ''/'') (butlast ns)"
      using False by (cases "butlast ns") auto
    then show ?thesis
      using split assms False drop [OF False, of "[]"] drop [OF False, of "[[]]"]
      by (cases a) (auto simp: parent_path_def spelled_def Let_def)
  qed
qed

text \<open>The target of a member, and that the check against the output directory lets it pass.\<close>

lemma target_path:
  assumes "plain_path out" "IsSafeRelativeArchivePath q"
  shows "lexically_normal (path_append out q) = spelled (is_absolute out) (path_names out @ path_names q)"
    and "IsWithinBase (lexically_normal out) (lexically_normal (path_append out q))"
proof -
  note q = safe_path_names [OF assms(2)]
  have out: "out \<noteq> []" using assms(1) by (simp add: plain_path_def)
  have plain: "plain_path (path_append out q)"
    using assms(1) q by (intro plain_path_append)
  have "last q \<noteq> CHR ''/''" "q \<noteq> []"
    using assms(2) by (auto simp: IsSafeRelativeArchivePath_def split: if_splits)
  then have "last (path_append out q) \<noteq> CHR ''/''"
    using q by (auto simp: path_append_def)
  then show t: "lexically_normal (path_append out q) = spelled (is_absolute out) (path_names out @ path_names q)"
    using lexically_normal_plain [OF plain] q out by (simp add: spelled_def)
  have base: "lexically_normal out = (if path_names out = [] then ''/''
      else spelled (is_absolute out) (path_names out) @ (if last out = CHR ''/'' then ''/'' else []))"
    using lexically_normal_plain [OF assms(1)] by (simp add: spelled_def)
  show "IsWithinBase (lexically_normal out) (lexically_normal (path_append out q))"
  proof (cases "path_names out = []")
    case True
    then have "is_absolute out"
      using out first_piece_nonempty [of out] by (auto simp: is_absolute_def path_names_def)
    then show ?thesis
      using True q by (auto simp: t base spelled_def IsWithinBase_def)
  next
    case False
    then have "spelled (is_absolute out) (path_names out @ path_names q) =
        spelled (is_absolute out) (path_names out) @ CHR ''/'' # q"
      using q by (simp add: spelled_def join_with_append)
    then show ?thesis
      using False \<open>q \<noteq> []\<close> by (auto simp: t base IsWithinBase_def nth_append)
  qed
qed

definition target_place :: "os_env \<Rightarrow> string \<Rightarrow> archive_record \<Rightarrow> fs_path" where
  "target_place env out r = place env out @ path_names (ar_path r)"

lemma target_facts:
  assumes "plain_path out" "IsSafeRelativeArchivePath q"
  defines "t \<equiv> lexically_normal (path_append out q)"
  shows "plain_path t" "place env t = place env out @ path_names q"
    and "parent_path t \<noteq> [] \<Longrightarrow> plain_path (parent_path t)"
    and "parent_path t \<noteq> [] \<Longrightarrow> place env (parent_path t) = place env out @ butlast (path_names q)"
    and "parent_path t = [] \<Longrightarrow> place env out = oe_cwd env \<and> butlast (path_names q) = []"
proof -
  let ?ns = "path_names out @ path_names q"
  note q = safe_path_names(2-5) [OF assms(2)]
  have names: "plain_names (path_names out)" "out \<noteq> []"
    using assms(1) by (simp_all add: plain_path_def)
  have t: "t = spelled (is_absolute out) ?ns"
    unfolding t_def by (rule target_path(1) [OF assms(1,2)])
  note s = spelled_facts [of ?ns "is_absolute out"]
  show "plain_path t" "place env t = place env out @ path_names q"
    using s q names by (simp_all add: t plain_path_def place_def)
  have parent: "parent_path t = spelled (is_absolute out) (path_names out @ butlast (path_names q))"
    using parent_path_spelled [of ?ns] q by (simp add: t butlast_append)
  let ?ps = "path_names out @ butlast (path_names q)"
  have good: "good_names ?ps" "plain_names ?ps"
  proof -
    have sub: "set (butlast (path_names q)) \<subseteq> set (path_names q)"
      by (auto dest: in_set_butlastD)
    then have "good_names (butlast (path_names q))"
      using good_path_names [of q] unfolding good_names_def by blast
    then show "good_names ?ps" by simp
    have "plain_names (butlast (path_names q))"
      using q(1) sub unfolding plain_names_def list_all_iff by blast
    then show "plain_names ?ps" using names by simp
  qed
  show "plain_path (parent_path t)" "place env (parent_path t) = place env out @ butlast (path_names q)"
    if "parent_path t \<noteq> []"
  proof -
    have "path_names (parent_path t) = ?ps" "is_absolute (parent_path t) = is_absolute out"
      using that spelled_facts [OF good(1), of "is_absolute out"]
      by (cases "?ps = []"; auto simp: parent spelled_def is_absolute_def split: if_splits)+
    then show "plain_path (parent_path t)" "place env (parent_path t) = place env out @ butlast (path_names q)"
      using that good by (simp_all add: plain_path_def place_def)
  qed
  show "place env out = oe_cwd env \<and> butlast (path_names q) = []" if "parent_path t = []"
  proof -
    have "?ps = []" "\<not> is_absolute out"
      using that spelled_facts(3) [OF good(1), of "is_absolute out"]
      by (auto simp: parent spelled_def)
    then show ?thesis
      by (simp add: place_def)
  qed
qed

subsection \<open>One member\<close>

lemma with_dirs_below:
  assumes "plain_fs env fs" "node_at fs base = Some Directory" "with_dirs (base @ ns) fs p \<noteq> fs p"
  shows "\<exists>k. p = base @ take k ns \<and> p \<noteq> base"
proof -
  from assms(3) have p: "prefix p (base @ ns)" "p \<noteq> []" "fs p = None"
    by (auto simp: with_dirs_def split: if_splits)
  have "\<not> prefix p base"
  proof
    assume "prefix p base"
    then obtain r where "base = p @ r" by (auto simp: prefix_def)
    then have "node_at fs p = Some Directory"
      using node_at_prefix [OF assms(1), of p r] assms(2) by (cases "r = []") simp_all
    then show False
      using p by (simp add: node_at_def)
  qed
  then obtain r where r: "p = base @ r" "prefix r ns"
    using p(1) by (auto simp: prefix_append)
  then have "r = take (length r) ns"
    by (auto simp: prefix_def)
  with r \<open>\<not> prefix p base\<close> show ?thesis
    by (metis prefix_order.refl)
qed

text \<open>What writing one member does to the file system.\<close>

definition entry_effect ::
    "('d, 'i) zlib \<Rightarrow> os_env \<Rightarrow> string \<Rightarrow> u8 list \<Rightarrow> archive_record \<Rightarrow> file_system \<Rightarrow> file_system \<Rightarrow> bool" where
  "entry_effect zl env out file r fs fs' \<longleftrightarrow>
     (\<exists>c x. TransferArchiveEntryData zl file r append_sink [] = Some (Inr c) \<and>
        fs' (target_place env out r) = Some (Regular_file c x) \<and>
        (fs (target_place env out r) = None \<longrightarrow> x = ar_executable r) \<and>
        is_leaf (fs (target_place env out r)) \<and>
        (\<forall>p. p \<noteq> target_place env out r \<longrightarrow>
           fs' p = fs p \<or> strict_prefix (place env out) p \<and> fs p = None \<and> fs' p = Some Directory))"

lemma ExtractArchiveEntry_effect:
  assumes "ExtractArchiveEntry zl env archive out r fs = Some (Inr fs')"
    and fs: "plain_fs env fs" and out: "plain_path out" "node_at fs (place env out) = Some Directory"
    and safe: "IsSafeRelativeArchivePath (ar_path r)"
    and ap: "plain_path archive" "\<not> prefix (place env out) (place env archive)"
    and arc: "read_file env fs archive = Some content"
  shows "entry_effect zl env out content r fs fs' \<and> plain_fs env fs' \<and>
         node_at fs' (place env out) = Some Directory \<and> read_file env fs' archive = Some content"
proof -
  let ?t = "lexically_normal (path_append out (ar_path r))"
  let ?p = "target_place env out r" and ?base = "place env out"
  note t = target_facts [OF out(1) safe]
  have place: "place env ?t = ?p"
    using t(2) by (simp add: target_place_def)
  have ne: "path_names (ar_path r) \<noteq> []"
    using safe_path_names(3) [OF safe] .
  have strict: "strict_prefix ?base ?p"
    using ne by (simp add: target_place_def strict_prefix_def)
  obtain fs1 fs2 f2 c fs3 where
    dirs: "(if parent_path ?t = [] then Inr fs else create_directories env fs (parent_path ?t)) = Inr fs1"
    and opened: "write_file env fs1 ?t [] = Some fs2"
    and archive: "read_file env fs2 archive = Some f2"
    and data: "TransferArchiveEntryData zl f2 r append_sink [] = Some (Inr c)"
    and wrote: "write_file env fs2 ?t c = Some fs3"
    and fin: "if ar_executable r then set_executable env fs3 ?t True = Some fs' else fs' = fs3"
    using assms(1)
    by (auto simp: ExtractArchiveEntry_def Let_def bind_run_Some_Inr throw_def
        split: option.splits if_splits)
  have made: "fs1 = with_dirs (?base @ butlast (path_names (ar_path r))) fs \<and> plain_fs env fs1"
  proof (cases "parent_path ?t = []")
    case True
    then show ?thesis
      using dirs fs t(5) out(2) with_dirs_here [OF out(2) fs] by simp
  next
    case False
    then have "create_directories env fs (parent_path ?t) = Inr fs1"
      using dirs by simp
    then show ?thesis
      using create_directories_done [OF _ fs t(3) [OF False]] t(4) [OF False] by simp
  qed
  let ?x = "was_executable (fs1 ?p)"
  have fs2: "fs2 = fs1(?p \<mapsto> Regular_file [] ?x)" and leaf: "is_leaf (fs1 ?p)" "?p \<noteq> []"
    and dir: "node_at fs1 (butlast ?p) = Some Directory" and plain2: "plain_fs env fs2"
    using write_file_plainE [OF opened conjunct2 [OF made] t(1)] unfolding place by metis+
  have fs3: "fs3 = fs2(?p \<mapsto> Regular_file c (was_executable (fs2 ?p)))" and plain3: "plain_fs env fs3"
    using write_file_plainE [OF wrote plain2 t(1)] unfolding place by metis+
  have fs3': "fs3 = fs1(?p \<mapsto> Regular_file c ?x)"
    by (simp add: fs3 fs2)
  let ?y = "ar_executable r \<or> ?x"
  have result: "fs' = fs1(?p \<mapsto> Regular_file c ?y)"
  proof (cases "ar_executable r")
    case True
    then have "fs' = fs3(?p \<mapsto> Regular_file c True)"
      using set_executable_plain [OF _ plain3 t(1)] fin fs3' leaf(2) unfolding place by simp
    then show ?thesis
      using True by (simp add: fs3')
  next
    case False
    then show ?thesis
      using fin by (simp add: fs3')
  qed
  have plain': "plain_fs env fs'"
    unfolding result using conjunct2 [OF made] leaf dir by (rule plain_fs_update_file)
  have grown: "fs1 p = fs p \<or> strict_prefix ?base p \<and> fs p = None \<and> fs1 p = Some Directory" for p
    using with_dirs_below [OF fs out(2), of "butlast (path_names (ar_path r))" p] made
    by (auto simp: with_dirs_def strict_prefix_def split: if_splits)
  have base: "node_at fs' ?base = Some Directory"
    using grown [of ?base] out(2) strict by (auto simp: result node_at_def split: if_splits)
  have kept: "fs2 (place env archive) = fs (place env archive) \<and> fs' (place env archive) = fs (place env archive)"
    using grown [of "place env archive"] ap(2) strict
    by (auto simp: result fs2 strict_prefix_def)
  then have "read_file env fs2 archive = read_file env fs archive"
    "read_file env fs' archive = read_file env fs archive"
    unfolding read_file_plain [OF fs ap(1)] read_file_plain [OF plain2 ap(1)]
      read_file_plain [OF plain' ap(1)] node_at_def by simp_all
  then have same: "f2 = content" "read_file env fs' archive = Some content"
    using arc archive by simp_all
  have "fs ?p = None \<longrightarrow> ?y = ar_executable r"
  proof
    assume "fs ?p = None"
    then have "fs1 ?p = None"
      using grown [of ?p] leaf by (auto simp: is_leaf_def)
    then show "?y = ar_executable r" by simp
  qed
  moreover have "is_leaf (fs ?p)"
    using grown [of ?p] leaf by (auto simp: is_leaf_def)
  ultimately have "entry_effect zl env out content r fs fs'"
    unfolding entry_effect_def using data same grown
    by (intro exI [of _ c] exI [of _ ?y]) (simp add: result)
  then show ?thesis
    using plain' base same by simp
qed

subsection \<open>All members\<close>

lemma target_place_inj:
  assumes "IsSafeRelativeArchivePath (ar_path r)" "IsSafeRelativeArchivePath (ar_path r')"
    "target_place env out r = target_place env out r'"
  shows "ar_path r = ar_path r'"
proof -
  have "path_names (ar_path r) = path_names (ar_path r')"
    using assms(3) by (simp add: target_place_def)
  then show ?thesis
    using safe_path_names(5) [OF assms(1)] safe_path_names(5) [OF assms(2)] by metis
qed

lemma target_place_strict:
  "IsSafeRelativeArchivePath (ar_path r) \<Longrightarrow> strict_prefix (place env out) (target_place env out r)"
  using safe_path_names(3) [of "ar_path r"] by (simp add: target_place_def strict_prefix_def)

text \<open>
  Below the output directory the regular files are the members, with their data and their bit;
  elsewhere nothing has changed.
\<close>

definition holds_members ::
    "('d, 'i) zlib \<Rightarrow> os_env \<Rightarrow> string \<Rightarrow> u8 list \<Rightarrow> archive_record set \<Rightarrow> file_system \<Rightarrow> bool" where
  "holds_members zl env out arc rs fs \<longleftrightarrow>
     (\<forall>r\<in>rs. \<exists>c. TransferArchiveEntryData zl arc r append_sink [] = Some (Inr c) \<and>
        fs (target_place env out r) = Some (Regular_file c (ar_executable r))) \<and>
     (\<forall>p. prefix (place env out) p \<longrightarrow>
        fs p \<in> {None, Some Directory} \<or> p \<in> target_place env out ` rs)"

lemma entry_effectE:
  assumes "entry_effect zl env out arc r fs fs'"
  obtains c x where "TransferArchiveEntryData zl arc r append_sink [] = Some (Inr c)"
    "fs' (target_place env out r) = Some (Regular_file c x)"
    "fs (target_place env out r) = None \<longrightarrow> x = ar_executable r"
    "is_leaf (fs (target_place env out r))"
    "\<forall>p. p \<noteq> target_place env out r \<longrightarrow>
       fs' p = fs p \<or> strict_prefix (place env out) p \<and> fs p = None \<and> fs' p = Some Directory"
  using assms unfolding entry_effect_def by (elim exE conjE)

lemma entry_effect_frame:
  assumes "entry_effect zl env out arc r fs fs'" "IsSafeRelativeArchivePath (ar_path r)"
    "\<not> prefix (place env out) p"
  shows "fs' p = fs p"
proof -
  have p: "p \<noteq> target_place env out r" "\<not> strict_prefix (place env out) p"
    using target_place_strict [OF assms(2), of env out] assms(3) by (auto simp: strict_prefix_def)
  obtain c x where "\<forall>p. p \<noteq> target_place env out r \<longrightarrow>
       fs' p = fs p \<or> strict_prefix (place env out) p \<and> fs p = None \<and> fs' p = Some Directory"
    using assms(1) by (rule entry_effectE)
  with p show ?thesis
    by blast
qed

lemma entry_effect_holds:
  assumes "entry_effect zl env out arc r fs fs'" "holds_members zl env out arc rs fs"
    "target_place env out r \<notin> target_place env out ` rs" "IsSafeRelativeArchivePath (ar_path r)"
  shows "holds_members zl env out arc (insert r rs) fs'"
proof -
  let ?p = "target_place env out r"
  from assms(1) obtain c x where data: "TransferArchiveEntryData zl arc r append_sink [] = Some (Inr c)"
    and here: "fs' ?p = Some (Regular_file c x)" "fs ?p = None \<longrightarrow> x = ar_executable r"
      "is_leaf (fs ?p)"
    and others: "\<forall>p. p \<noteq> ?p \<longrightarrow>
      fs' p = fs p \<or> strict_prefix (place env out) p \<and> fs p = None \<and> fs' p = Some Directory"
    by (rule entry_effectE)
  have held: "\<exists>c. TransferArchiveEntryData zl arc r' append_sink [] = Some (Inr c) \<and>
      fs (target_place env out r') = Some (Regular_file c (ar_executable r'))" if "r' \<in> rs" for r'
    using assms(2) that unfolding holds_members_def by blast
  have only: "fs p \<in> {None, Some Directory} \<or> p \<in> target_place env out ` rs"
    if "prefix (place env out) p" for p
    using assms(2) that unfolding holds_members_def by blast
  have "fs ?p = None"
    using only [of ?p] assms(3) here(3) target_place_strict [OF assms(4), of env out]
    by (simp add: is_leaf_def strict_prefix_def)
  then have "x = ar_executable r"
    using here by simp
  moreover have "\<exists>c. TransferArchiveEntryData zl arc r' append_sink [] = Some (Inr c) \<and>
      fs' (target_place env out r') = Some (Regular_file c (ar_executable r'))" if "r' \<in> rs" for r'
  proof -
    have "target_place env out r' \<noteq> ?p"
      using assms(3) that by (metis image_eqI)
    then show ?thesis
      using others [rule_format, of "target_place env out r'"] held [OF that] by auto
  qed
  moreover have "fs' p \<in> {None, Some Directory} \<or> p \<in> target_place env out ` insert r rs"
    if "prefix (place env out) p" for p
    using others [rule_format, of p] only [OF that] by (cases "p = ?p") auto
  ultimately show ?thesis
    unfolding holds_members_def using data here(1) by blast
qed

lemma extract_entries_effect:
  assumes "extract_entries zl env archive out rs fs = Some (Inr fs')"
    and "plain_fs env fs" "plain_path out" "node_at fs (place env out) = Some Directory"
    and "list_all (\<lambda>r. IsSafeRelativeArchivePath (ar_path r)) rs" "distinct (map ar_path rs)"
    and "plain_path archive" "\<not> prefix (place env out) (place env archive)"
    and "read_file env fs archive = Some arc"
    and "holds_members zl env out arc old fs"
    and "\<And>r. r \<in> old \<Longrightarrow> IsSafeRelativeArchivePath (ar_path r)" "ar_path ` old \<inter> set (map ar_path rs) = {}"
  shows "plain_fs env fs' \<and> holds_members zl env out arc (old \<union> set rs) fs' \<and>
         (\<forall>p. \<not> prefix (place env out) p \<longrightarrow> fs' p = fs p)"
  using assms(1,2,4-6,9-)
proof (induction rs arbitrary: fs old)
  case Nil
  then show ?case by simp
next
  case (Cons r rs)
  obtain fs1 where one: "ExtractArchiveEntry zl env archive out r fs = Some (Inr fs1)"
    and more: "extract_entries zl env archive out rs fs1 = Some (Inr fs')"
    using Cons.prems(1) by (auto simp: bind_run_Some_Inr)
  have safe: "IsSafeRelativeArchivePath (ar_path r)"
    using Cons.prems(4) by simp
  from ExtractArchiveEntry_effect [OF one Cons.prems(2) assms(3) Cons.prems(3) safe assms(7,8) Cons.prems(6)]
  have eff: "entry_effect zl env out arc r fs fs1" and plain: "plain_fs env fs1"
    and base: "node_at fs1 (place env out) = Some Directory" and arc: "read_file env fs1 archive = Some arc"
    by simp_all
  have new: "target_place env out r \<notin> target_place env out ` old"
    using target_place_inj [OF safe] Cons.prems(8,9) by fastforce
  have "holds_members zl env out arc (insert r old) fs1"
    by (rule entry_effect_holds [OF eff Cons.prems(7) new safe])
  moreover have "ar_path ` insert r old \<inter> set (map ar_path rs) = {}"
    using Cons.prems(5,9) by auto
  ultimately have "plain_fs env fs' \<and> holds_members zl env out arc (insert r old \<union> set rs) fs' \<and>
         (\<forall>p. \<not> prefix (place env out) p \<longrightarrow> fs' p = fs1 p)"
    using Cons.prems(4,5,8) safe by (intro Cons.IH [OF more plain base _ _ arc]) auto
  moreover have "fs1 p = fs p" if "\<not> prefix (place env out) p" for p
    using entry_effect_frame [OF eff safe that] .
  ultimately show ?case
    by simp
qed

lemma ParseCentralDirectory_accepted:
  assumes "ParseCentralDirectory path arc = Inr rs"
  shows "list_all (\<lambda>r. IsSafeRelativeArchivePath (ar_path r)) rs" "distinct (map ar_path rs)"
  using assms
  by (auto simp: ParseCentralDirectory_def Let_def bind_res_Inr_iff accepted_record_def list_all_iff
      split: if_splits dest!: central_loop_accepted)

lemma holds_no_members:
  assumes "\<And>p. prefix (place env out) p \<Longrightarrow> fs p \<in> {None, Some Directory}"
  shows "holds_members zl env out arc {} fs"
  using assms by (simp add: holds_members_def)

text \<open>
  C11: An archive extracts to its members and to nothing else.  Take a file system without links, an
  output directory spelled without dots, the working directory and the archive outside it.  When
  extraction succeeds, whatever bytes the archive holds, every regular file below the output
  directory is one of the members that its central directory lists, each with the data the reader
  finds for it and its executable bit; and outside the output directory nothing has changed, except
  that missing directories on the way to it were made.
\<close>

theorem extraction_is_exact:
  assumes "ExtractArchive zl env fs archive out force = Some (Inr fs')"
    and "plain_fs env fs" "plain_path archive" "plain_path out"
    and "\<not> prefix (place env out) (oe_cwd env)" "\<not> prefix (place env out) (place env archive)"
  shows "\<exists>arc rs. read_file env fs archive = Some arc \<and> ParseCentralDirectory archive arc = Inr rs \<and>
           holds_members zl env out arc (set rs) fs' \<and> plain_fs env fs' \<and>
           (\<forall>p. prefix (place env out) p \<or> fs' p = fs p \<or>
                prefix p (place env out) \<and> fs p = None \<and> fs' p = Some Directory)"
proof -
  let ?base = "place env out"
  obtain rs fs1 fs2 where parse: "ParseArchive env fs archive = Inr rs"
    and cleared: "(if node_at fs ?base \<noteq> None then remove_all env fs out else Inr fs) = Inr fs1"
    and made: "create_directories env fs1 out = Inr fs2"
    and loop: "extract_entries zl env archive out rs fs2 = Some (Inr fs')"
    using assms(1,2,4) by (auto simp: ExtractArchive_def bind_run_Some_Inr)
  obtain arc where arc: "read_file env fs archive = Some arc" "ParseCentralDirectory archive arc = Inr rs"
    using parse by (auto simp: ParseArchive_def split: option.splits)
  have fs1: "plain_fs env fs1 \<and> (\<forall>p. prefix ?base p \<longrightarrow> fs1 p = None) \<and>
      (\<forall>p. \<not> prefix ?base p \<longrightarrow> fs1 p = fs p)"
  proof (cases "node_at fs ?base = None")
    case True
    then have "fs1 = fs" using cleared by simp
    moreover have "fs p = None" if base: "prefix ?base p" for p
    proof -
      from base obtain r where r: "p = ?base @ r" by (auto simp: prefix_def)
      then have "node_at fs p = None"
        using node_at_below_None [OF assms(2), of ?base r] True by (cases "r = []") simp_all
      then show ?thesis by (simp add: node_at_def split: if_splits)
    qed
    ultimately show ?thesis
      using assms(2) by simp
  next
    case False
    then have "remove_all env fs out = Inr fs1"
      using cleared by simp
    from remove_all_done [OF this assms(2,4,5)] show ?thesis
      by (simp add: remove_tree_def)
  qed
  then have plain1: "plain_fs env fs1" by simp
  note fs2 = create_directories_done [OF made plain1 assms(4)]
  have "read_file env fs2 archive = Some arc"
  proof -
    have "node_at fs2 (place env archive) = node_at fs (place env archive)"
      if "is_regular_node (node_at fs (place env archive))"
    proof -
      have "fs1 (place env archive) = fs (place env archive)"
        using fs1 assms(6) by simp
      then show ?thesis
        using that by (cases "fs (place env archive)") (auto simp: fs2(1) with_dirs_def node_at_def split: if_splits)
    qed
    then show ?thesis
      using arc(1) read_file_plain [OF assms(2,3)] read_file_plain [OF fs2(2) assms(3)]
      by (cases "node_at fs (place env archive)") (auto split: fs_node.splits)
  qed
  moreover have "holds_members zl env out arc {} fs2"
    using fs1 by (intro holds_no_members) (simp add: fs2(1) with_dirs_def)
  ultimately have final: "plain_fs env fs' \<and> holds_members zl env out arc ({} \<union> set rs) fs' \<and>
         (\<forall>p. \<not> prefix ?base p \<longrightarrow> fs' p = fs2 p)"
    using ParseCentralDirectory_accepted [OF arc(2)]
    by (intro extract_entries_effect [OF loop fs2(2) assms(4) fs2(3) _ _ assms(3,6)]) auto
  have "prefix ?base p \<or> fs' p = fs p \<or> prefix p ?base \<and> fs p = None \<and> fs' p = Some Directory" for p
  proof (cases "prefix ?base p")
    case False
    then have "fs' p = with_dirs ?base fs1 p" "fs1 p = fs p"
      using final fs1 fs2(1) by simp_all
    then show ?thesis
      by (auto simp: with_dirs_def)
  qed simp
  then show ?thesis
    using arc final by auto
qed

subsection \<open>An archive to extract\<close>

unbundle bit_operations_syntax

definition demo_env :: os_env where
  "demo_env = \<lparr>oe_cwd = [], oe_temp_dir = ''/t'', oe_process_id = 1, oe_ticks = 2,
               oe_listing = (\<lambda>fs p. []), oe_walk = (\<lambda>fs p. [[''f'']])\<rparr>"

definition demo_member :: archive_record where
  "demo_member =
     \<lparr>ar_path = ''f'', ar_executable = True, ar_compressed_size = 3, ar_uncompressed_size = 2,
      ar_local_header_offset = 0, ar_crc32 = 2, ar_compression_method = kDeflatedCompressionMethod,
      ar_flags = kGeneralPurposeUtf8, ar_version_made_by = push_bit 8 kUnixOsCode OR kZipVersion\<rparr>"

definition demo_body :: "u8 list" where
  "demo_body = local_header_bytes 2 (u32_of_size 3) (u32_of_size 2) ''f'' @ [1, 2, 0]"

definition demo_archive :: "u8 list" where
  "demo_archive = demo_body @ concat (map central_entry_bytes [demo_member]) @ eocd_bytes 1 47 34"

definition demo_fs :: file_system where
  "demo_fs = [[''p.zip''] \<mapsto> Regular_file demo_archive False]"

lemma demo_archive_parses: "ParseCentralDirectory ''/p.zip'' demo_archive = Inr [demo_member]"
proof -
  have "writable_record (length demo_archive) demo_member"
    by (simp add: writable_record_def demo_member_def demo_archive_def demo_body_def
        IsSafeRelativeArchivePath_def IsWindowsDrivePrefix_def)
  then have "ParseCentralDirectory ''/p.zip'' demo_archive = Inr (map made_by_unix [demo_member])"
    by (intro ParseCentralDirectory_written [where body = demo_body])
      (simp_all add: demo_archive_def demo_body_def demo_member_def)
  then show ?thesis
    by (simp add: made_by_unix_def demo_member_def)
qed

lemma demo_archive_data:
  "TransferArchiveEntryData demo_zlib demo_archive demo_member append_sink [] = Some (Inr [1, 2])"
proof -
  have "stored_at demo_codec demo_archive demo_member [1, 2]"
    unfolding stored_at_def
    by (intro exI [of _ "[]"] exI [of _ "[1, 2, 0]"]
        exI [of _ "central_entry_bytes demo_member @ eocd_bytes 1 47 34"])
      (simp add: demo_archive_def demo_body_def demo_member_def demo_codec_def)
  moreover have "zlib_round_trips demo_zlib demo_codec [1, 2]"
    unfolding zlib_round_trips_def using demo_deflates [of "[1, 2]"] demo_inflates [of "[1, 2]"]
    by (auto simp: demo_codec_def)
  ultimately have "ReadArchiveEntryBytes demo_zlib demo_archive demo_member = Some (Inr [1, 2])"
    using ReadArchiveEntryBytes_stored [of demo_codec demo_archive demo_member "[1, 2]" demo_zlib]
    by (simp add: demo_member_def kBufferSize_def)
  then show ?thesis
    by (auto simp: ReadArchiveEntryBytes_def bind_res_Inr_iff split: if_splits)
qed

definition demo_extracted :: file_system where
  "demo_extracted = demo_fs([''o''] \<mapsto> Directory, [''o'', ''f''] \<mapsto> Regular_file [1, 2] True)"

lemmas demo_paths = locate_def is_absolute_def path_names_def demo_env_def

lemma demo_extraction:
  "ExtractArchive demo_zlib demo_env demo_fs ''/p.zip'' ''/o'' False = Some (Inr demo_extracted)"
proof -
  have t: "lexically_normal (path_append ''/o'' ''f'') = ''/o/f''" "lexically_normal ''/o'' = ''/o''"
    by (simp_all add: lexically_normal_def path_append_def is_absolute_def path_names_def)
  have w: "IsWithinBase ''/o'' ''/o/f''" "parent_path ''/o/f'' = ''/o''"
    by (simp_all add: IsWithinBase_def parent_path_def)
  have zip: "IsArchivePath ''/p.zip''"
    by (simp add: IsArchivePath_def path_extension_def path_filename_def)
  let ?fs1 = "demo_fs([''o''] \<mapsto> Directory)"
  have read: "read_file demo_env demo_fs ''/p.zip'' = Some demo_archive"
    "read_file demo_env (?fs1([''o'', ''f''] \<mapsto> Regular_file [] False)) ''/p.zip'' = Some demo_archive"
    by (simp_all add: read_file_def node_status_def demo_paths node_at_def demo_fs_def)
  have dirs: "create_directories demo_env demo_fs ''/o'' = Inr ?fs1"
    "create_directories demo_env ?fs1 ''/o'' = Inr ?fs1"
    by (simp_all add: create_directories_def demo_paths demo_fs_def node_at_def kMaxLinks_def)
  have write1: "write_file demo_env ?fs1 ''/o/f'' [] = Some (?fs1([''o'', ''f''] \<mapsto> Regular_file [] False))"
    by (simp add: write_file_def demo_paths demo_fs_def node_at_def)
  have write2: "write_file demo_env (?fs1([''o'', ''f''] \<mapsto> Regular_file [] False)) ''/o/f'' [1, 2] =
      Some (?fs1([''o'', ''f''] \<mapsto> Regular_file [1, 2] False))"
    by (simp add: write_file_def demo_paths demo_fs_def node_at_def)
  have exec: "set_executable demo_env (?fs1([''o'', ''f''] \<mapsto> Regular_file [1, 2] False)) ''/o/f'' True =
      Some demo_extracted"
    by (simp add: set_executable_def demo_paths demo_fs_def node_at_def demo_extracted_def)
  have missing: "fs_exists demo_env demo_fs ''/o'' = Inr False"
    by (simp add: fs_exists_def fs_status_def node_status_def demo_paths demo_fs_def node_at_def)
  have entry: "ar_path demo_member = ''f''" "ar_executable demo_member"
    by (simp_all add: demo_member_def)
  show ?thesis
    by (simp add: ExtractArchive_def run_if_def zip ParseArchive_def read demo_archive_parses missing
        dirs ExtractArchiveEntry_def entry t w write1 demo_archive_data write2 exec)
qed

theorem extraction_is_exact_witness:
  "\<exists>arc rs. read_file demo_env demo_fs ''/p.zip'' = Some arc \<and>
     ParseCentralDirectory ''/p.zip'' arc = Inr rs \<and>
     holds_members demo_zlib demo_env ''/o'' arc (set rs) demo_extracted \<and>
     plain_fs demo_env demo_extracted \<and>
     (\<forall>p. prefix (place demo_env ''/o'') p \<or> demo_extracted p = demo_fs p \<or>
          prefix p (place demo_env ''/o'') \<and> demo_fs p = None \<and> demo_extracted p = Some Directory)"
proof (rule extraction_is_exact [OF demo_extraction])
  show "plain_fs demo_env demo_fs"
    by (auto simp: plain_fs_def demo_fs_def demo_env_def node_at_def)
  show "plain_path ''/p.zip''" "plain_path ''/o''"
    by (simp_all add: plain_path_def path_names_def)
  show "\<not> prefix (place demo_env ''/o'') (oe_cwd demo_env)"
    "\<not> prefix (place demo_env ''/o'') (place demo_env ''/p.zip'')"
    by (simp_all add: place_def demo_env_def is_absolute_def path_names_def)
qed

end
