(* ===== verification/Archive_Round_Trip.thy ===== *)
theory Archive_Round_Trip
  imports Archive_Extract
begin

section \<open>Packing a directory and reading the archive\<close>

text \<open>
  The files of a package directory, described by the file system alone, against what the archive that
  \<open>CreateArchive\<close> leaves lists and holds.
\<close>

text \<open>What the recursive iterator is relied on for: it visits exactly what lies below the directory.\<close>

definition honest_walk :: "os_env \<Rightarrow> file_system \<Rightarrow> fs_path \<Rightarrow> bool" where
  "honest_walk env fs q \<longleftrightarrow>
     (\<forall>names. names \<in> set (oe_walk env fs q) \<longleftrightarrow> names \<noteq> [] \<and> fs (q @ names) \<noteq> None) \<and>
     (\<forall>names \<in> set (oe_walk env fs q). good_names names \<and> plain_names names)"

text \<open>The path of a file below a directory, and the file there.\<close>

abbreviation name_of :: "string list \<Rightarrow> string" where
  "name_of names \<equiv> join_with (CHR ''/'') names"

definition holds_file :: "file_system \<Rightarrow> fs_path \<Rightarrow> source_entry \<Rightarrow> fs_path \<Rightarrow> u8 list \<Rightarrow> bool \<Rightarrow> bool" where
  "holds_file fs base e names c x \<longleftrightarrow>
     fs (base @ names) = Some (Regular_file c x) \<and> se_path e = name_of names \<and> se_executable e = x"

lemma below_path:
  assumes "plain_path dir" "good_names names" "plain_names names" "names \<noteq> []"
  shows "plain_path (path_append dir (name_of names))"
    "place env (path_append dir (name_of names)) = place env dir @ names"
proof -
  have names: "path_names (name_of names) = names"
    using assms(2) by (intro path_names_join) (simp add: good_names_def)
  have relative: "\<not> is_absolute (name_of names)"
    using hd_join [OF assms(2,4)] by (simp add: is_absolute_def)
  show "plain_path (path_append dir (name_of names))"
    using assms(1,3) relative names by (simp add: plain_path_append)
  show "place env (path_append dir (name_of names)) = place env dir @ names"
    using assms(1) relative names by (simp add: place_append plain_path_def)
qed

lemma collect_entries_exact:
  assumes "collect_entries env fs dir seen ps = Inr entries" "plain_fs env fs" "plain_path dir"
    and "\<forall>names \<in> set ps. good_names names \<and> plain_names names \<and> names \<noteq> []"
  shows "(\<forall>names \<in> set ps. \<forall>c x. fs (place env dir @ names) = Some (Regular_file c x) \<longrightarrow>
            (\<exists>e \<in> set entries. holds_file fs (place env dir) e names c x)) \<and>
         (\<forall>e \<in> set entries. \<exists>names \<in> set ps. \<exists>c x. holds_file fs (place env dir) e names c x \<and>
            se_source_path e = path_append dir (name_of names))"
  using assms(1,4)
proof (induction ps arbitrary: seen entries)
  case Nil
  then show ?case by simp
next
  case (Cons names ps)
  let ?path = "path_append dir (name_of names)" and ?node = "fs (place env dir @ names)"
  have path: "plain_path ?path" "place env ?path = place env dir @ names"
    using below_path [OF assms(3)] Cons.prems(2) by simp_all
  have "names \<noteq> []" using Cons.prems(2) by simp
  then have node: "node_at fs (place env dir @ names) = ?node" by (simp add: node_at_def)
  have status: "symlink_status env fs ?path = Inr ?node" "fs_status env fs ?path = Inr ?node"
    using status_plain [OF assms(2) path(1)] path(2) node by simp_all
  note step = Cons.prems(1) [simplified Let_def collect_entries.simps status bind_res_simps]
  show ?case
  proof (cases "?node = Some Directory")
    case True
    with step have "collect_entries env fs dir seen ps = Inr entries" by simp
    from Cons.IH [OF this] Cons.prems(2) True show ?thesis by auto
  next
    case False
    with step obtain c x size rest where here: "?node = Some (Regular_file c x)"
      and rest: "collect_entries env fs dir (insert (name_of names) seen) ps = Inr rest"
      and entries: "entries = \<lparr>se_path = name_of names, se_source_path = ?path,
        se_executable = HasExecutablePermission ?node, se_uncompressed_size = size\<rparr> # rest"
      by (cases "?node"; cases "the ?node") (auto simp: bind_res_Inr_iff split: if_splits)
    have head: "holds_file fs (place env dir) (hd entries) names c x"
      using here entries by (simp add: holds_file_def HasExecutablePermission_def)
    then show ?thesis
      using Cons.IH [OF rest] Cons.prems(2) here entries by auto
  qed
qed

lemma CollectSourceEntries_exact:
  assumes "CollectSourceEntries env fs dir = Inr entries" "plain_fs env fs" "plain_path dir"
    and "honest_walk env fs (place env dir)"
  shows "(\<forall>names c x. names \<noteq> [] \<longrightarrow> fs (place env dir @ names) = Some (Regular_file c x) \<longrightarrow>
            (\<exists>e \<in> set entries. holds_file fs (place env dir) e names c x)) \<and>
         (\<forall>e \<in> set entries. \<exists>names c x. names \<noteq> [] \<and> good_names names \<and> plain_names names \<and>
            holds_file fs (place env dir) e names c x \<and> se_source_path e = path_append dir (name_of names))"
proof -
  obtain es where es: "collect_entries env fs dir {} (oe_walk env fs (place env dir)) = Inr es"
      "set entries = set es"
    using assms(1) locate_plain [OF assms(2,3), of True]
    by (auto simp: CollectSourceEntries_def bind_res_Inr_iff split: sum.splits if_splits)
  have walk: "names \<in> set (oe_walk env fs (place env dir)) \<longleftrightarrow> names \<noteq> [] \<and> fs (place env dir @ names) \<noteq> None"
    "names \<in> set (oe_walk env fs (place env dir)) \<Longrightarrow> good_names names \<and> plain_names names" for names
    using assms(4) unfolding honest_walk_def by blast+
  then have "\<forall>names \<in> set (oe_walk env fs (place env dir)). good_names names \<and> plain_names names \<and> names \<noteq> []"
    by blast
  from collect_entries_exact [OF es(1) assms(2,3) this] walk show ?thesis
    unfolding es(2) by (metis option.distinct(1))
qed

subsection \<open>What making an archive leaves alone\<close>

lemma parent_plain:
  assumes "plain_path p" "parent_path p \<noteq> []"
  shows "plain_path (parent_path p)"
proof -
  let ?kept = "rev (dropWhile (\<lambda>s. s = []) (rev (butlast (split_on (CHR ''/'') p))))"
  have sub: "set ?kept \<subseteq> set (split_on (CHR ''/'') p)"
    using set_dropWhileD [of _ "\<lambda>s. s = []" "rev (butlast (split_on (CHR ''/'') p))"] in_set_butlastD by fastforce
  have "set (path_names (parent_path p)) \<subseteq> set (path_names p)"
  proof (cases "butlast (split_on (CHR ''/'') p) = [] \<or> ?kept = []")
    case True
    then show ?thesis
      by (cases "butlast (split_on (CHR ''/'') p) = []") (simp_all add: parent_path_def Let_def path_names_def)
  next
    case False
    then have "parent_path p = join_with (CHR ''/'') ?kept" by (auto simp: parent_path_def Let_def)
    moreover have "split_on (CHR ''/'') (join_with (CHR ''/'') ?kept) = ?kept"
      using False sub split_on_no_sep [of _ "CHR ''/''" p] by (intro split_join_with) auto
    ultimately show ?thesis using sub by (auto simp: path_names_def)
  qed
  then show ?thesis
    using assms by (auto simp: plain_path_def plain_names_def list_all_iff)
qed

lemma clear_archive_plain:
  assumes "clear_archive_path env fs p force = Inr fs'" "plain_fs env fs" "plain_path p"
  shows "plain_fs env fs' \<and> (\<forall>q. q \<noteq> place env p \<longrightarrow> fs' q = fs q)"
proof (cases "node_at fs (place env p) = None")
  case True
  then show ?thesis using assms by (simp add: clear_archive_path_def)
next
  case False
  then obtain c x where here: "node_at fs (place env p) = Some (Regular_file c x)"
    and gone: "remove_file env fs p = Inr fs'"
    using assms status_plain [OF assms(2,3)]
    by (auto simp: clear_archive_path_def split: if_splits elim: is_regular_node.elims)
  have ne: "place env p \<noteq> []" using here by (auto simp: node_at_def)
  have "node_at fs (butlast (place env p)) = Some Directory"
    using node_at_orphan [OF assms(2)] here by fastforce
  then have "locate env fs False p = Inr (place env p)"
    using locate_plain [OF assms(2,3), of False] by simp
  then have fs': "fs' = fs(place env p := None)"
    using gone here by (simp add: remove_file_def)
  have "node_at fs' q = Some Directory" if "node_at fs q = Some Directory" for q
    using that here ne by (auto simp: fs' node_at_def)
  moreover have "fs (q @ [c]) \<noteq> None" if "fs' (q @ [c]) \<noteq> None" for q c
    using that by (auto simp: fs' split: if_splits)
  ultimately have "plain_fs env fs'"
    using assms(2) unfolding plain_fs_def by (metis fs' fun_upd_other fun_upd_same option.distinct(1))
  then show ?thesis by (simp add: fs')
qed

text \<open>The files that are packed are the same when they are read.\<close>

lemma CreateArchive_packs:
  assumes "CreateArchive zl env fs options = Some (Inr fs')" "plain_fs env fs"
    and "plain_path (ca_package_dir options)" "plain_path (ca_archive_path options)"
    and "\<not> prefix (place env (ca_package_dir options)) (place env (ca_archive_path options))"
  obtains entries fs3 contents where "CollectSourceEntries env fs (ca_package_dir options) = Inr entries"
    "archive_contents zl env fs3 entries = Some (Inr contents)" "plain_fs env fs3"
    "read_file env fs' (ca_archive_path options) = Some contents" "IsArchivePath (ca_archive_path options)"
    "\<And>q c x. prefix (place env (ca_package_dir options)) q \<Longrightarrow> fs q = Some (Regular_file c x) \<Longrightarrow>
       fs3 q = Some (Regular_file c x)"
proof -
  let ?pkg = "ca_package_dir options" and ?arc = "ca_archive_path options"
  obtain entries fs1 fs2 fs3 contents where
    entries: "CollectSourceEntries env fs ?pkg = Inr entries"
    and cleared: "clear_archive_path env fs ?arc (ca_force options) = Inr fs1"
    and dirs: "(if parent_path ?arc = [] then Inr fs1 else create_directories env fs1 (parent_path ?arc)) = Inr fs2"
    and opened: "write_file env fs2 ?arc [] = Some fs3"
    and packed: "archive_contents zl env fs3 entries = Some (Inr contents)"
    and closed: "write_file env fs3 ?arc contents = Some fs'"
    and zip: "IsArchivePath ?arc"
    using assms(1) by (auto simp: CreateArchive_def Let_def bind_run_Some_Inr)
  have one: "plain_fs env fs1" "\<And>q. q \<noteq> place env ?arc \<Longrightarrow> fs1 q = fs q"
    using clear_archive_plain [OF cleared assms(2,4)] by simp_all
  have two: "plain_fs env fs2 \<and> (\<forall>q n. fs1 q = Some n \<longrightarrow> fs2 q = Some n)"
  proof (cases "parent_path ?arc = []")
    case True
    then show ?thesis using dirs one by simp
  next
    case False
    then have "create_directories env fs1 (parent_path ?arc) = Inr fs2" using dirs by simp
    from create_directories_done [OF this one(1) parent_plain [OF assms(4) False]]
    show ?thesis by (simp add: with_dirs_def)
  qed
  from two have plain2: "plain_fs env fs2" by simp
  obtain three: "fs3 = fs2(place env ?arc \<mapsto> Regular_file [] (was_executable (fs2 (place env ?arc))))" "plain_fs env fs3"
    by (rule write_file_plainE [OF opened plain2 assms(4)])
  show ?thesis
  proof (rule that [OF entries packed three(2) read_file_written [OF closed] zip])
    fix q c x assume q: "prefix (place env ?pkg) q" "fs q = Some (Regular_file c x)"
    then have "q \<noteq> place env ?arc" using assms(5) by auto
    with q one two three show "fs3 q = Some (Regular_file c x)" by auto
  qed
qed

text \<open>
  C12: What is packed is what is unpacked.  Take a file system without links and an archive path outside
  the package directory, and suppose \<open>CreateArchive\<close> succeeds and the archive and every file stay below
  4 GiB.  Then listing the archive shows exactly the regular files that lie below the package directory,
  wherever and under whatever names, each once, with its size and its executable bit, and nothing else;
  and reading any of them back gives the bytes of the file.  For a file whose compressed form is longer
  than the 64 KiB of the input buffer the one other outcome is the error on a failing \<open>inflate\<close>.
\<close>

theorem archive_round_trip:
  assumes "CreateArchive zl env fs options = Some (Inr fs')" "plain_fs env fs"
    and "plain_path (ca_package_dir options)" "plain_path (ca_archive_path options)"
    and "\<not> prefix (place env (ca_package_dir options)) (place env (ca_archive_path options))"
    and "honest_walk env fs (place env (ca_package_dir options))"
    and "read_file env fs' (ca_archive_path options) = Some contents" "length contents < 4294967295"
    and "\<And>p c x. fs p = Some (Regular_file c x) \<Longrightarrow> length c < 4294967295"
    and "\<And>p c x. fs p = Some (Regular_file c x) \<Longrightarrow> zlib_round_trips zl codec c"
  shows "\<exists>listed. ListArchiveEntries env fs' (ca_archive_path options) = Inr listed \<and>
    distinct (map ae_path listed) \<and>
    (\<forall>r \<in> set listed. \<exists>names c. names \<noteq> [] \<and> ae_path r = name_of names \<and> ae_uncompressed_size r = length c \<and>
       fs (place env (ca_package_dir options) @ names) = Some (Regular_file c (ae_executable r))) \<and>
    (\<forall>names c x. names \<noteq> [] \<and> fs (place env (ca_package_dir options) @ names) = Some (Regular_file c x) \<longrightarrow>
       (\<exists>r \<in> set listed. ae_path r = name_of names \<and> ae_executable r = x \<and> ae_uncompressed_size r = length c \<and>
          (ReadArchiveFile zl env fs' (ca_archive_path options) (name_of names) = Some (Inr c) \<or>
           kBufferSize < ae_compressed_size r \<and>
           ReadArchiveFile zl env fs' (ca_archive_path options) (name_of names) =
             Some (Inl (inflate_failed (name_of names))))))"
proof -
  let ?pkg = "ca_package_dir options" and ?arc = "ca_archive_path options"
  let ?base = "place env ?pkg"
  obtain entries fs3 contents' where entries: "CollectSourceEntries env fs ?pkg = Inr entries"
    and packed': "archive_contents zl env fs3 entries = Some (Inr contents')" and plain3: "plain_fs env fs3"
    and stored': "read_file env fs' ?arc = Some contents'" and zip: "IsArchivePath ?arc"
    and kept: "\<And>q c x. prefix ?base q \<Longrightarrow> fs q = Some (Regular_file c x) \<Longrightarrow> fs3 q = Some (Regular_file c x)"
    using CreateArchive_packs [OF assms(1-5)] by blast
  then have packed: "archive_contents zl env fs3 entries = Some (Inr contents)"
    and stored: "read_file env fs' ?arc = Some contents" using assms(7) by simp_all
  note exact = CollectSourceEntries_exact [OF entries assms(2,3,6)]
  have taken: "\<exists>e \<in> set entries. holds_file fs ?base e names c x"
    if "names \<noteq> []" "fs (?base @ names) = Some (Regular_file c x)" for names c x
    using conjunct1 [OF exact, rule_format, OF that] .
  have whence: "\<exists>names c x. names \<noteq> [] \<and> good_names names \<and> plain_names names \<and>
      holds_file fs ?base e names c x \<and> se_source_path e = path_append ?pkg (name_of names)"
    if "e \<in> set entries" for e
    using bspec [OF conjunct2 [OF exact] that] .
  have source: "read_file env fs3 (se_source_path e) = Some c"
    if "names \<noteq> []" "good_names names" "plain_names names" "holds_file fs ?base e names c x"
      "se_source_path e = path_append ?pkg (name_of names)" for e names c x
  proof -
    have "fs3 (?base @ names) = Some (Regular_file c x)"
      using kept [of "?base @ names"] that(4) by (simp add: holds_file_def)
    then show ?thesis
      using below_path [OF assms(3) that(2,3,1)] read_file_plain [OF plain3] that(1,5) by (simp add: node_at_def)
  qed
  have origin: "\<exists>names c x. names \<noteq> [] \<and> holds_file fs ?base e names c x \<and> read_file env fs3 (se_source_path e) = Some c"
    if "e \<in> set entries" for e
    using whence [OF that] source by metis
  have small: "zlib_round_trips zl codec c \<and> length c < 4294967295"
    if "e \<in> set entries" "read_file env fs3 (se_source_path e) = Some c" for e c
    using origin [OF that(1)] that(2) assms(9,10) by (auto simp: holds_file_def)
  have read: "\<exists>listed r. ListArchiveEntries env fs' ?arc = Inr listed \<and>
      map ae_path listed = map se_path entries \<and> map ae_executable listed = map se_executable entries \<and>
      r \<in> set listed \<and> ae_path r = se_path e \<and> ae_uncompressed_size r = length c \<and>
      (ReadArchiveFile zl env fs' ?arc (se_path e) = Some (Inr c) \<or>
       ReadArchiveFile zl env fs' ?arc (se_path e) = Some (Inl (inflate_failed (se_path e))) \<and>
         kBufferSize < ae_compressed_size r)"
    if "e \<in> set entries" "read_file env fs3 (se_source_path e) = Some c" for e c
    using archive_reads_back [OF entries packed stored zip assms(8) that(1) small] that(2) by fastforce
  have distinct: "distinct (map se_path entries)"
    using CollectSourceEntries_collected [OF entries] by (simp add: collected_def)
  obtain e0 where "e0 \<in> set entries"
    using assms(1) entries by (auto simp: CreateArchive_def Let_def bind_run_Some_Inr list_ex_iff)
  then obtain listed where listed: "ListArchiveEntries env fs' ?arc = Inr listed"
    "map ae_path listed = map se_path entries" "map ae_executable listed = map se_executable entries"
    using origin read by metis
  have pair: "\<exists>e \<in> set entries. ae_path r = se_path e \<and> ae_executable r = se_executable e" if r: "r \<in> set listed" for r
  proof -
    obtain i where i: "i < length listed" "listed ! i = r" using r unfolding in_set_conv_nth by blast
    have "length listed = length entries" using listed(2) by (rule map_eq_imp_length_eq)
    then have "entries ! i \<in> set entries" "ae_path r = se_path (entries ! i)" "ae_executable r = se_executable (entries ! i)"
      using i arg_cong [OF listed(2), of "\<lambda>xs. xs ! i"] arg_cong [OF listed(3), of "\<lambda>xs. xs ! i"] by simp_all
    then show ?thesis by blast
  qed
  have unique: "r = r'" if "r \<in> set listed" "r' \<in> set listed" "ae_path r = ae_path r'" for r r'
    using distinct listed(2) that by (metis distinct_map inj_onD)
  have unique': "e = e'" if "e \<in> set entries" "e' \<in> set entries" "se_path e = se_path e'" for e e'
    using distinct that by (metis distinct_map inj_onD)
  have found: "\<exists>r \<in> set listed. ae_path r = name_of names \<and> ae_executable r = x \<and> ae_uncompressed_size r = length c \<and>
      (ReadArchiveFile zl env fs' ?arc (name_of names) = Some (Inr c) \<or>
       kBufferSize < ae_compressed_size r \<and>
       ReadArchiveFile zl env fs' ?arc (name_of names) = Some (Inl (inflate_failed (name_of names))))"
    if e: "e \<in> set entries" "holds_file fs ?base e names c x" "read_file env fs3 (se_source_path e) = Some c" for e names c x
  proof -
    obtain r where r: "r \<in> set listed" "ae_path r = se_path e" "ae_uncompressed_size r = length c"
      "ReadArchiveFile zl env fs' ?arc (se_path e) = Some (Inr c) \<or>
       ReadArchiveFile zl env fs' ?arc (se_path e) = Some (Inl (inflate_failed (se_path e))) \<and>
         kBufferSize < ae_compressed_size r"
      using read [OF e(1,3)] listed(1) by auto
    obtain e' where e': "e' \<in> set entries" "ae_path r = se_path e'" "ae_executable r = se_executable e'"
      using pair [OF r(1)] by blast
    have same: "e' = e" by (rule unique' [OF e'(1) e(1)]) (simp only: r(2) e'(2) [symmetric])
    have p: "se_path e = name_of names" "se_executable e = x" using e(2) by (simp_all only: holds_file_def)
    show ?thesis
    proof (rule bexI [OF _ r(1)], intro conjI)
      show "ae_path r = name_of names" by (simp only: r(2) p)
      show "ae_executable r = x" by (simp only: e'(3) same p)
      show "ae_uncompressed_size r = length c" by (rule r(3))
      show "ReadArchiveFile zl env fs' ?arc (name_of names) = Some (Inr c) \<or>
          kBufferSize < ae_compressed_size r \<and>
          ReadArchiveFile zl env fs' ?arc (name_of names) = Some (Inl (inflate_failed (name_of names)))"
        using r(4) unfolding p by blast
    qed
  qed
  have held: "\<exists>r \<in> set listed. ae_path r = name_of names \<and> ae_executable r = x \<and> ae_uncompressed_size r = length c \<and>
      (ReadArchiveFile zl env fs' ?arc (name_of names) = Some (Inr c) \<or>
       kBufferSize < ae_compressed_size r \<and>
       ReadArchiveFile zl env fs' ?arc (name_of names) = Some (Inl (inflate_failed (name_of names))))"
    if here: "names \<noteq> []" "fs (?base @ names) = Some (Regular_file c x)" for names c x
  proof -
    obtain e where e: "e \<in> set entries" "holds_file fs ?base e names c x"
      using taken [OF here] by blast
    obtain names' c' x' where o: "names' \<noteq> []" "holds_file fs ?base e names' c' x'"
        "good_names names'" "plain_names names'" "read_file env fs3 (se_source_path e) = Some c'"
      using whence [OF e(1)] source by metis
    have good: "good_names names"
    proof -
      have "names \<in> set (oe_walk env fs ?base)" using assms(6) here by (auto simp: honest_walk_def)
      then show ?thesis using assms(6) unfolding honest_walk_def by blast
    qed
    have "name_of names = name_of names'" using e(2) o(2) by (simp add: holds_file_def)
    then have "names' = names"
      using path_names_join [of names] path_names_join [of names'] good o(3) unfolding good_names_def by metis
    then have "c' = c" using o(2) here(2) by (simp add: holds_file_def)
    with found [OF e] o(5) show ?thesis by simp
  qed
  have comes: "\<exists>names c. names \<noteq> [] \<and> ae_path r = name_of names \<and> ae_uncompressed_size r = length c \<and>
      fs (?base @ names) = Some (Regular_file c (ae_executable r))" if r: "r \<in> set listed" for r
  proof -
    obtain e where e: "e \<in> set entries" "ae_path r = se_path e" "ae_executable r = se_executable e"
      using pair [OF r] by blast
    obtain names c x where o: "names \<noteq> []" "holds_file fs ?base e names c x" "read_file env fs3 (se_source_path e) = Some c"
      using origin [OF e(1)] by blast
    obtain r' where r': "r' \<in> set listed" "ae_path r' = name_of names" "ae_uncompressed_size r' = length c"
      using found [OF e(1) o(2,3)] by blast
    then have "r' = r" using unique r e(2) o(2) by (simp add: holds_file_def)
    with r' o e(3) show ?thesis by (auto simp: holds_file_def)
  qed
  show ?thesis
    using listed(1) distinct listed(2) held comes by (intro exI [of _ listed]) auto
qed

subsection \<open>A package with one file\<close>

unbundle bit_operations_syntax

definition package_env :: os_env where
  "package_env = demo_env\<lparr>oe_walk := \<lambda>fs p. [[''META''], [''META'', ''manifest.json'']]\<rparr>"

definition package_fs :: file_system where
  "package_fs = [[''d''] \<mapsto> Directory, [''d'', ''META''] \<mapsto> Directory,
                 [''d'', ''META'', ''manifest.json''] \<mapsto> Regular_file [1, 2] True]"

definition package_options :: create_archive_options where
  "package_options = \<lparr>ca_package_dir = ''/d'', ca_archive_path = ''/p.zip'', ca_force = False\<rparr>"

definition package_entry :: source_entry where
  "package_entry = \<lparr>se_path = ''META/manifest.json'', se_source_path = ''/d/META/manifest.json'',
                    se_executable = True, se_uncompressed_size = 2\<rparr>"

definition package_archive :: "u8 list" where
  "package_archive =
     (let stats = \<lparr>fw_crc32 = 2, fw_compressed_size = 3, fw_uncompressed_size = 2\<rparr>;
          body = local_header_bytes 2 (u32_of_size 3) (u32_of_size 2) ''META/manifest.json'' @ [1, 2, 0]
      in body @ central_entry_bytes (written_record package_entry stats 0) @ eocd_bytes 1 64 51)"

definition package_done :: file_system where
  "package_done = package_fs([''p.zip''] \<mapsto> Regular_file package_archive False)"

lemmas package_paths = locate_def is_absolute_def path_names_def package_env_def demo_env_def

lemma package_collected: "CollectSourceEntries package_env package_fs ''/d'' = Inr [package_entry]"
proof -
  have "path_append ''/d'' ''META/manifest.json'' = ''/d/META/manifest.json''"
    "path_append ''/d'' ''META'' = ''/d/META''"
    by (simp_all add: path_append_def is_absolute_def)
  moreover have "symlink_status package_env package_fs ''/d/META'' = Inr (Some Directory)"
    "symlink_status package_env package_fs ''/d/META/manifest.json'' = Inr (Some (Regular_file [1, 2] True))"
    "fs_status package_env package_fs ''/d/META/manifest.json'' = Inr (Some (Regular_file [1, 2] True))"
    "file_size package_env package_fs ''/d/META/manifest.json'' = Inr 2"
    "locate package_env package_fs True ''/d'' = Inr [''d'']"
    by (simp_all add: symlink_status_def fs_status_def node_status_def package_paths package_fs_def
        node_at_def file_size_def read_file_def)
  moreover have "oe_walk package_env package_fs [''d''] = [[''META''], [''META'', ''manifest.json'']]"
    by (simp add: package_env_def)
  ultimately show ?thesis
    by (simp add: CollectSourceEntries_def package_entry_def HasExecutablePermission_def
        IsSafeRelativeArchivePath_def IsWindowsDrivePrefix_def Let_def)
qed

lemma package_written:
  assumes "read_file package_env fs ''/d/META/manifest.json'' = Some [1, 2]"
  shows "archive_contents demo_zlib package_env fs [package_entry] = Some (Inr package_archive)"
proof -
  have zl: "zl_deflateInit2 demo_zlib = Some False" "zl_deflate demo_zlib = demo_deflate"
    "zl_crc32 demo_zlib = (\<lambda>c bs. c + word_of_nat (length bs))"
    by (simp_all add: demo_zlib_def)
  have buffer: "kBufferSize = 65536"
    by (simp add: kBufferSize_def)
  have data: "WriteDeflatedFileData demo_zlib path [1, 2] (stream_of d) =
      Some (Inr (\<lparr>fw_crc32 = 2, fw_compressed_size = 3, fw_uncompressed_size = 2\<rparr>,
                 stream_of (d @ [1, 2, 0])))" for d path
    unfolding WriteDeflatedFileData_def zl
    by (simp, subst deflate_outer.simps, simp add: deflate_fill_def buffer zl,
        subst deflate_inner.simps, simp add: deflate_call_def zl demo_deflate_def buffer)
  have patch: "PatchLocalFileHeader 0 stats (stream_of (local_header_bytes 0 0 0 p @ body)) =
      stream_of (local_header_bytes (fw_crc32 stats) (u32_of_size (fw_compressed_size stats))
                   (u32_of_size (fw_uncompressed_size stats)) p @ body)" for stats p body
    using PatchLocalFileHeader_end [of "[]" stats p body] by simp
  have seek: "seekp n (stream_of d) = stream_of d" if "n = length d" for n d
    using that seekp_end by simp
  have "write_entries demo_zlib package_env fs [package_entry] (stream_of []) =
      Some (Inr ([written_record package_entry
        \<lparr>fw_crc32 = 2, fw_compressed_size = 3, fw_uncompressed_size = 2\<rparr> 0],
        stream_of (local_header_bytes 2 (u32_of_size 3) (u32_of_size 2) ''META/manifest.json'' @ [1, 2, 0])))"
    by (simp add: package_entry_def assms data patch seek)
  then show ?thesis
    by (simp add: archive_contents_def new_ostream_stream_of finish_archive_def run_if_def
        package_archive_def written_record_def package_entry_def)
qed

lemma package_created:
  "CreateArchive demo_zlib package_env package_fs package_options = Some (Inr package_done)"
proof -
  let ?open = "package_fs([''p.zip''] \<mapsto> Regular_file [] False)"
  have plain: "lexically_normal ''/d'' = ''/d''" "lexically_normal ''/p.zip'' = ''/p.zip''"
    "fs_absolute package_env ''/d'' = ''/d''" "fs_absolute package_env ''/p.zip'' = ''/p.zip''"
    by (simp_all add: lexically_normal_def fs_absolute_def path_append_def is_absolute_def path_names_def)
  have outside: "\<not> IsWithinBase ''/d'' ''/p.zip''" and zip: "IsArchivePath ''/p.zip''"
    by (simp_all add: IsWithinBase_def IsArchivePath_def path_extension_def path_filename_def)
  have parent: "parent_path ''/p.zip'' = ''/''" by (simp add: parent_path_def)
  have dir: "symlink_status package_env package_fs ''/d'' = Inr (Some Directory)"
    by (simp add: symlink_status_def node_status_def package_paths package_fs_def node_at_def)
  have clear: "clear_archive_path package_env package_fs ''/p.zip'' False = Inr package_fs"
    by (simp add: clear_archive_path_def symlink_status_def fs_exists_def fs_status_def node_status_def
        package_paths package_fs_def node_at_def)
  have root: "create_directories package_env package_fs ''/'' = Inr package_fs"
    by (simp add: create_directories_def package_paths package_fs_def node_at_def kMaxLinks_def)
  have opened: "write_file package_env package_fs ''/p.zip'' [] = Some ?open"
    and closed: "write_file package_env ?open ''/p.zip'' package_archive = Some package_done"
    by (simp_all add: write_file_def package_paths package_fs_def node_at_def package_done_def)
  have "read_file package_env ?open ''/d/META/manifest.json'' = Some [1, 2]"
    by (simp add: read_file_def node_status_def package_paths package_fs_def node_at_def)
  note packed = package_written [OF this]
  have manifest: "se_path package_entry = kManifestPath"
    by (simp add: package_entry_def kManifestPath_def)
  show ?thesis
    by (simp add: CreateArchive_def package_options_def run_if_def plain outside zip parent dir clear root
        opened closed packed package_collected manifest Let_def)
qed

theorem archive_round_trip_witness:
  "\<exists>listed. ListArchiveEntries package_env package_done ''/p.zip'' = Inr listed \<and>
    distinct (map ae_path listed) \<and>
    (\<forall>r \<in> set listed. \<exists>names c. names \<noteq> [] \<and> ae_path r = name_of names \<and> ae_uncompressed_size r = length c \<and>
       package_fs (place package_env ''/d'' @ names) = Some (Regular_file c (ae_executable r))) \<and>
    (\<forall>names c x. names \<noteq> [] \<and> package_fs (place package_env ''/d'' @ names) = Some (Regular_file c x) \<longrightarrow>
       (\<exists>r \<in> set listed. ae_path r = name_of names \<and> ae_executable r = x \<and> ae_uncompressed_size r = length c \<and>
          (ReadArchiveFile demo_zlib package_env package_done ''/p.zip'' (name_of names) = Some (Inr c) \<or>
           kBufferSize < ae_compressed_size r \<and>
           ReadArchiveFile demo_zlib package_env package_done ''/p.zip'' (name_of names) =
             Some (Inl (inflate_failed (name_of names))))))"
proof -
  have paths: "ca_package_dir package_options = ''/d''" "ca_archive_path package_options = ''/p.zip''"
    by (simp_all add: package_options_def)
  have places: "place package_env ''/d'' = [''d'']" "place package_env ''/p.zip'' = [''p.zip'']"
    by (simp_all add: place_def package_env_def demo_env_def is_absolute_def path_names_def)
  have only: "c = [1, 2]" if "package_fs p = Some (Regular_file c x)" for p c x
    using that by (auto simp: package_fs_def split: if_splits)
  show ?thesis
  proof (rule archive_round_trip [OF package_created, unfolded paths, where codec = demo_codec])
    show "plain_fs package_env package_fs"
      by (auto simp: plain_fs_def package_fs_def package_env_def demo_env_def node_at_def)
    show "plain_path ''/d''" "plain_path ''/p.zip''"
      by (simp_all add: plain_path_def path_names_def)
    show "\<not> prefix (place package_env ''/d'') (place package_env ''/p.zip'')"
      by (simp add: places)
    show "honest_walk package_env package_fs (place package_env ''/d'')"
      by (simp add: places honest_walk_def) (auto simp: package_env_def package_fs_def good_names_def plain_names_def)
    show "read_file package_env package_done ''/p.zip'' = Some package_archive"
      by (simp add: read_file_def node_status_def package_paths node_at_def package_done_def)
    show "length package_archive < 4294967295"
      by (simp add: package_archive_def Let_def written_record_def package_entry_def)
    fix p c x
    assume "package_fs p = Some (Regular_file c x)"
    then have c: "c = [1, 2]" by (rule only)
    then show "length c < 4294967295" by simp
    show "zlib_round_trips demo_zlib demo_codec c"
      unfolding c zlib_round_trips_def using demo_deflates [of "[1, 2]"] demo_inflates [of "[1, 2]"]
      by (auto simp: demo_codec_def)
  qed
qed

end
