(* ===== verification/Manifest.thy ===== *)
theory Manifest
  imports Core_Path Sha256
begin

section \<open>libs/package: the package manifest (manifest.cpp)\<close>

text \<open>
  Parsing and writing \<open>META/manifest.json\<close>.  The JSON library is a parameter, \<open>json_lib\<close>: it turns
  text into a value and a value into text; its values are a datatype, and the accessors the code
  uses (\<open>at\<close>, \<open>get\<close>, \<open>contains\<close>, the type tests) are the documented ones on it.  \<open>get<int>\<close> and
  \<open>get<long long>\<close> convert the stored 64-bit integer as a C++ cast does.
\<close>

unbundle bit_operations_syntax

datatype json =
    Json_null
  | Json_bool bool
  | Json_int int
  | Json_real
  | Json_string string
  | Json_array "json list"
  | Json_object "(string \<times> json) list"

record json_lib =
  jl_parse :: "string \<Rightarrow> json result"
  jl_dump :: "json \<Rightarrow> string result"

fun json_at :: "json \<Rightarrow> string \<Rightarrow> json result" where
  "json_at (Json_object members) key = option_res (Json_error (''key '' @ key @ '' not found'')) (map_of members key)"
| "json_at value key = Inl (Json_error ''cannot use at() with this type'')"

fun json_contains :: "json \<Rightarrow> string \<Rightarrow> bool" where
  "json_contains (Json_object members) key \<longleftrightarrow> map_of members key \<noteq> None"
| "json_contains value key \<longleftrightarrow> False"

fun get_string :: "json \<Rightarrow> string result" where
  "get_string (Json_string s) = Inr s"
| "get_string value = Inl (Json_error ''type must be string'')"

fun get_bool :: "json \<Rightarrow> bool result" where
  "get_bool (Json_bool b) = Inr b"
| "get_bool value = Inl (Json_error ''type must be boolean'')"

fun is_array :: "json \<Rightarrow> bool" where
  "is_array (Json_array xs) = True"
| "is_array value = False"

fun is_object :: "json \<Rightarrow> bool" where
  "is_object (Json_object ms) = True"
| "is_object value = False"

fun json_elements :: "json \<Rightarrow> json list" where
  "json_elements (Json_array xs) = xs"
| "json_elements (Json_object ms) = map snd ms"
| "json_elements Json_null = []"
| "json_elements value = [value]"

definition as_int :: "int \<Rightarrow> int" where
  "as_int i = signed_take_bit 31 i"

definition as_long_long :: "int \<Rightarrow> int" where
  "as_long_long i = signed_take_bit 63 i"

definition RequiredString :: "json \<Rightarrow> string \<Rightarrow> string result" where
  "RequiredString value key = bind_res (json_at value key) get_string"

definition RequiredBool :: "json \<Rightarrow> string \<Rightarrow> bool result" where
  "RequiredBool value key = bind_res (json_at value key) get_bool"

definition RequiredInt :: "json \<Rightarrow> string \<Rightarrow> int result" where
  "RequiredInt value key =
     bind_res (json_at value key) (\<lambda>field.
       case field of
         Json_int i \<Rightarrow> Inr (as_int i)
       | _ \<Rightarrow> Inl (Invalid_argument (key @ '' must be an integer'')))"

definition RequiredSize :: "json \<Rightarrow> string \<Rightarrow> nat result" where
  "RequiredSize value key =
     bind_res (json_at value key) (\<lambda>field.
       case field of
         Json_int i \<Rightarrow>
           let parsed = as_long_long i in
           if parsed < 0 then Inl (Invalid_argument (key @ '' must be non-negative''))
           else Inr (nat parsed)
       | _ \<Rightarrow> Inl (Invalid_argument (key @ '' must be an integer'')))"

subsection \<open>Manifests\<close>

record manifest_file =
  mf_source :: string
  mf_target :: string
  mf_size :: nat
  mf_sha256 :: string
  mf_launchable :: bool

record manifest =
  mn_schema_version :: int
  mn_component :: string
  mn_version :: string
  mn_platform :: string
  mn_arch :: string
  mn_build_type :: string
  mn_min_installer_version :: string
  mn_files :: "manifest_file list"

definition ManifestRelativePath :: "string \<Rightarrow> string \<Rightarrow> string result" where
  "ManifestRelativePath raw_path field_name =
     (let normalized = ValidateRelativePath raw_path in
      if \<not> vs_ok normalized
      then Inl (Invalid_argument (field_name @ '' '' @ vs_message normalized))
      else Inr (vs_value normalized))"

definition ValidateVersion :: "string \<Rightarrow> string result" where
  "ValidateVersion version =
     (let validation = ValidatePathSegment version in
      if \<not> vs_ok validation
      then Inl (Invalid_argument (''version '' @ vs_message validation))
      else Inr (vs_value validation))"

definition ValidatePackageTarget :: "string \<Rightarrow> string \<Rightarrow> string result" where
  "ValidatePackageTarget value field_name =
     (let validation = ValidatePathSegment value in
      if \<not> vs_ok validation
      then Inl (Invalid_argument (field_name @ '' '' @ vs_message validation))
      else Inr (vs_value validation))"

definition ValidateBuildType :: "string \<Rightarrow> string result" where
  "ValidateBuildType build_type =
     (if build_type \<noteq> ''debug'' \<and> build_type \<noteq> ''release''
      then Inl (Invalid_argument ''build_type must be debug or release'')
      else Inr build_type)"

definition starts_with :: "string \<Rightarrow> string \<Rightarrow> bool" where
  "starts_with s pre \<longleftrightarrow> take (length pre) s = pre"

definition ParseManifestFile :: "string set \<Rightarrow> json \<Rightarrow> manifest_file result" where
  "ParseManifestFile targets file_json =
     bind_res (RequiredString file_json ''source'') (\<lambda>raw_source.
     bind_res (ManifestRelativePath raw_source ''source'') (\<lambda>source.
     bind_res (RequiredString file_json ''target'') (\<lambda>raw_target.
     bind_res (ManifestRelativePath raw_target ''target'') (\<lambda>target.
     bind_res (RequiredSize file_json ''size'') (\<lambda>nbytes.
     bind_res (RequiredString file_json ''sha256'') (\<lambda>sha256.
     bind_res (RequiredBool file_json ''launchable'') (\<lambda>launchable.
       if \<not> starts_with source ''payload/''
       then Inl (Invalid_argument ''source must start with payload/'')
       else if target = ''META'' \<or> starts_with target ''META/''
       then Inl (Invalid_argument ''target must not write under META/'')
       else if \<not> IsLowerHexSha256 sha256
       then Inl (Invalid_argument ''sha256 must be 64 lowercase hex chars'')
       else if target \<in> targets
       then Inl (Invalid_argument (''duplicate target: '' @ target))
       else Inr \<lparr>mf_source = source, mf_target = target, mf_size = nbytes, mf_sha256 = sha256,
                 mf_launchable = launchable\<rparr>)))))))"

fun ParseManifestFiles :: "string set \<Rightarrow> json list \<Rightarrow> manifest_file list result" where
  "ParseManifestFiles targets [] = Inr []"
| "ParseManifestFiles targets (j # js) =
     bind_res (ParseManifestFile targets j) (\<lambda>f.
     bind_res (ParseManifestFiles (insert (mf_target f) targets) js) (\<lambda>fs. Inr (f # fs)))"

definition ParseManifestJson :: "json_lib \<Rightarrow> string \<Rightarrow> manifest result" where
  "ParseManifestJson jl manifest_json =
     bind_res (jl_parse jl manifest_json) (\<lambda>parsed.
     if \<not> is_object parsed then Inl (Invalid_argument ''manifest must be a JSON object'')
     else
       bind_res (RequiredInt parsed ''schema_version'') (\<lambda>schema_version.
       bind_res (RequiredString parsed ''component'') (\<lambda>component.
       bind_res (RequiredString parsed ''version'') (\<lambda>version.
       bind_res (RequiredString parsed ''platform'') (\<lambda>platform.
       bind_res (RequiredString parsed ''arch'') (\<lambda>arch.
       bind_res (RequiredString parsed ''build_type'') (\<lambda>build_type.
       bind_res (RequiredString parsed ''min_installer_version'') (\<lambda>min_installer_version.
       if schema_version \<noteq> 2 then Inl (Invalid_argument ''schema_version must be 2'')
       else if min_installer_version = []
       then Inl (Invalid_argument ''min_installer_version must not be empty'')
       else
         bind_res (ValidateVersion version) (\<lambda>version.
         bind_res (ValidatePackageTarget platform ''platform'') (\<lambda>platform.
         bind_res (ValidatePackageTarget arch ''arch'') (\<lambda>arch.
         bind_res (ValidateBuildType build_type) (\<lambda>build_type.
         let component_validation = ValidateComponent component in
         if \<not> vr_ok component_validation
         then Inl (Invalid_argument (''component '' @ vr_message component_validation))
         else if \<not> json_contains parsed ''files'' \<or>
                 (case json_at parsed ''files'' of Inl e \<Rightarrow> True | Inr fs \<Rightarrow> \<not> is_array fs)
         then Inl (Invalid_argument ''files must be an array'')
         else if json_contains parsed ''signatures'' \<and>
                 (case json_at parsed ''signatures'' of Inl e \<Rightarrow> True | Inr ss \<Rightarrow> \<not> is_array ss)
         then Inl (Invalid_argument ''signatures must be an array'')
         else
           bind_res (json_at parsed ''files'') (\<lambda>file_list.
           bind_res (ParseManifestFiles {} (json_elements file_list)) (\<lambda>files.
             Inr \<lparr>mn_schema_version = schema_version, mn_component = component,
                  mn_version = version, mn_platform = platform, mn_arch = arch,
                  mn_build_type = build_type,
                  mn_min_installer_version = min_installer_version, mn_files = files\<rparr>))))))))))))))"

definition manifest_file_json :: "manifest_file \<Rightarrow> json" where
  "manifest_file_json f =
     Json_object [(''source'', Json_string (mf_source f)), (''target'', Json_string (mf_target f)),
                  (''size'', Json_int (int (mf_size f))), (''sha256'', Json_string (mf_sha256 f)),
                  (''launchable'', Json_bool (mf_launchable f))]"

definition manifest_payload :: "manifest \<Rightarrow> string \<Rightarrow> json" where
  "manifest_payload m build_type =
     Json_object
       [(''schema_version'', Json_int (mn_schema_version m)),
        (''component'', Json_string (mn_component m)), (''version'', Json_string (mn_version m)),
        (''platform'', Json_string (mn_platform m)), (''arch'', Json_string (mn_arch m)),
        (''build_type'', Json_string build_type),
        (''min_installer_version'', Json_string (mn_min_installer_version m)),
        (''files'', Json_array (map manifest_file_json (mn_files m))),
        (''signatures'', Json_array [])]"

definition SerializeManifestJson :: "json_lib \<Rightarrow> manifest \<Rightarrow> string result" where
  "SerializeManifestJson jl m =
     bind_res (ValidateBuildType (mn_build_type m)) (\<lambda>build_type.
     bind_res (jl_dump jl (manifest_payload m build_type)) (\<lambda>dumped.
       Inr (dumped @ [CHR 0x0A])))"

subsection \<open>What a parsed manifest guarantees\<close>

definition safe_relative :: "string \<Rightarrow> bool" where
  "safe_relative p \<longleftrightarrow> vs_ok (ValidateRelativePath p) \<and> vs_value (ValidateRelativePath p) = p"

definition valid_file :: "manifest_file \<Rightarrow> bool" where
  "valid_file f \<longleftrightarrow>
     safe_relative (mf_source f) \<and> safe_relative (mf_target f) \<and>
     starts_with (mf_source f) ''payload/'' \<and>
     mf_target f \<noteq> ''META'' \<and> \<not> starts_with (mf_target f) ''META/'' \<and>
     mf_size f < 2 ^ 63 \<and> IsLowerHexSha256 (mf_sha256 f)"

definition valid_manifest :: "manifest \<Rightarrow> bool" where
  "valid_manifest m \<longleftrightarrow>
     mn_schema_version m = 2 \<and> IsKnownComponent (mn_component m) \<and>
     IsSafePathSegment (mn_version m) \<and> IsSafePathSegment (mn_platform m) \<and>
     IsSafePathSegment (mn_arch m) \<and> mn_build_type m \<in> {''debug'', ''release''} \<and>
     mn_min_installer_version m \<noteq> [] \<and> list_all valid_file (mn_files m) \<and>
     distinct (map mf_target (mn_files m))"

lemma ValidatePathSegment_ok:
  "vs_ok (ValidatePathSegment v) \<longleftrightarrow> IsSafePathSegment v"
  "IsSafePathSegment v \<Longrightarrow> vs_value (ValidatePathSegment v) = v"
  by (auto simp: ValidatePathSegment_def IsSafePathSegment_def rejected_def)

lemma ManifestRelativePath_Inr:
  "ManifestRelativePath raw name = Inr p \<Longrightarrow> safe_relative p"
  using relative_path_fixed_point [of raw]
  by (auto simp: ManifestRelativePath_def safe_relative_def Let_def split: if_splits)

lemma ManifestRelativePath_safe [simp]:
  "safe_relative p \<Longrightarrow> ManifestRelativePath p name = Inr p"
  by (simp add: ManifestRelativePath_def safe_relative_def)

lemma as_long_long_bound: "as_long_long i < 2 ^ 63"
  using signed_take_bit_int_less_exp [of 63 i] by (simp add: as_long_long_def)

lemma ParseManifestFile_valid:
  assumes "ParseManifestFile targets j = Inr f"
  shows "valid_file f \<and> mf_target f \<notin> targets"
proof -
  have size: "nat (as_long_long i) < 2 ^ 63" for i
    using as_long_long_bound [of i] by (cases "0 \<le> as_long_long i") (simp_all add: nat_less_iff)
  show ?thesis
    using assms
    by (auto simp: ParseManifestFile_def bind_res_Inr_iff valid_file_def RequiredSize_def Let_def
        split: if_splits json.splits dest: ManifestRelativePath_Inr intro: size [simplified])
qed

lemma ParseManifestFiles_valid:
  "ParseManifestFiles targets js = Inr fs \<Longrightarrow>
     list_all valid_file fs \<and> distinct (map mf_target fs) \<and> (\<forall>f\<in>set fs. mf_target f \<notin> targets)"
proof (induction js arbitrary: targets fs)
  case Nil
  then show ?case by simp
next
  case (Cons j js)
  then show ?case
    by (auto simp: bind_res_Inr_iff dest!: ParseManifestFile_valid) blast+
qed

lemma ParseManifestJson_valid:
  assumes "ParseManifestJson jl text = Inr m"
  shows "valid_manifest m"
  using assms
  by (auto simp: ParseManifestJson_def bind_res_Inr_iff Let_def valid_manifest_def ValidateVersion_def
      ValidatePackageTarget_def ValidateBuildType_def ValidateComponent_def ValidatePathSegment_ok
      split: if_splits dest!: ParseManifestFiles_valid)

text \<open>
  C32: What a manifest that parses guarantees.  Whatever text a package ships as its manifest, if
  parsing accepts it then the schema is version 2, the component is one of the three known ones,
  version, platform and architecture are single safe path segments, and every file has a source
  under \<open>payload/\<close>, a target outside \<open>META\<close> that no other file has, both relative paths without
  dots that validate to themselves, a 63-bit size and a lower-case SHA-256.
\<close>

theorem parsed_manifest_valid:
  assumes "ParseManifestJson jl text = Inr m"
  shows "valid_manifest m"
  using assms by (rule ParseManifestJson_valid)

subsection \<open>The round trip\<close>

text \<open>
  The value that is parsed back holds its members in the order of their keys.
\<close>

fun sort_json :: "json \<Rightarrow> json" where
  "sort_json (Json_object ms) = Json_object (sort_key fst (map (\<lambda>(k, v). (k, sort_json v)) ms))"
| "sort_json (Json_array xs) = Json_array (map sort_json xs)"
| "sort_json j = j"

definition json_reads_back :: "json_lib \<Rightarrow> json \<Rightarrow> bool" where
  "json_reads_back jl j \<longleftrightarrow>
     (\<forall>t. jl_dump jl j = Inr t \<longrightarrow> jl_parse jl (t @ [CHR 0x0A]) = Inr (sort_json j))"

lemma map_of_sort_key:
  assumes "distinct (map fst xs)"
  shows "map_of (sort_key fst xs) k = map_of xs k"
proof -
  have "map_of (sort_key fst xs) = map_of xs"
    using assms by (intro map_of_inject_set [THEN iffD2]) (simp_all add: distinct_map)
  then show ?thesis by simp
qed

lemma as_int_2 [simp]: "as_int 2 = 2"
  by (simp add: as_int_def signed_take_bit_eq_take_bit_minus)

lemma as_long_long_int [simp]:
  assumes "n < 2 ^ 63"
  shows "as_long_long (int n) = int n"
proof -
  have "int n < 2 ^ 63"
    using assms by (metis of_nat_less_iff of_nat_numeral of_nat_power)
  then show ?thesis
    unfolding as_long_long_def by (intro signed_take_bit_int_eq_self) auto
qed

lemma ParseManifestFile_json:
  assumes "valid_file f" "mf_target f \<notin> targets"
  shows "ParseManifestFile targets (sort_json (manifest_file_json f)) = Inr f"
  using assms
  by (simp add: manifest_file_json_def ParseManifestFile_def RequiredString_def RequiredSize_def
      RequiredBool_def valid_file_def map_of_sort_key)

lemma ParseManifestFiles_json:
  assumes "list_all valid_file fs" "distinct (map mf_target fs)" "\<forall>f\<in>set fs. mf_target f \<notin> targets"
  shows "ParseManifestFiles targets (map (sort_json \<circ> manifest_file_json) fs) = Inr fs"
  using assms
proof (induction fs arbitrary: targets)
  case Nil
  then show ?case by simp
next
  case (Cons f fs)
  have "\<forall>g\<in>set fs. mf_target g \<notin> insert (mf_target f) targets"
    using Cons.prems by (auto simp: image_iff)
  then show ?case
    using Cons by (simp add: ParseManifestFile_json)
qed

lemma manifest_reads_back:
  assumes "valid_manifest m" "SerializeManifestJson jl m = Inr text"
    and "json_reads_back jl (manifest_payload m (mn_build_type m))"
  shows "ParseManifestJson jl text = Inr m"
proof -
  have build: "ValidateBuildType (mn_build_type m) = Inr (mn_build_type m)"
    using assms(1) by (auto simp: ValidateBuildType_def valid_manifest_def)
  have parsed: "jl_parse jl text = Inr (sort_json (manifest_payload m (mn_build_type m)))"
    using assms(2,3) build by (auto simp: SerializeManifestJson_def bind_res_Inr_iff json_reads_back_def)
  have "list_all valid_file (mn_files m)" "distinct (map mf_target (mn_files m))"
    using assms(1) by (simp_all add: valid_manifest_def)
  then have files: "ParseManifestFiles {} (map (sort_json \<circ> manifest_file_json) (mn_files m)) = Inr (mn_files m)"
    by (intro ParseManifestFiles_json) simp_all
  show ?thesis
    unfolding ParseManifestJson_def parsed
    using assms(1) build files
    by (simp add: manifest_payload_def RequiredString_def RequiredInt_def map_of_sort_key
        valid_manifest_def ValidateVersion_def ValidatePackageTarget_def ValidatePathSegment_ok
        ValidateComponent_def Let_def)
qed

text \<open>
  C33: A manifest survives being written and parsed.  If the JSON library reads back what it wrote,
  then serialising a valid manifest and parsing the text gives the same manifest.
\<close>

theorem manifest_round_trip:
  assumes "valid_manifest m" "SerializeManifestJson jl m = Inr text"
    and "json_reads_back jl (manifest_payload m (mn_build_type m))"
  shows "ParseManifestJson jl text = Inr m"
  using assms by (rule manifest_reads_back)

subsection \<open>A manifest\<close>

definition demo_manifest :: manifest where
  "demo_manifest =
     \<lparr>mn_schema_version = 2, mn_component = ''agent'', mn_version = ''1.0.0'', mn_platform = ''linux'',
      mn_arch = ''x64'', mn_build_type = ''release'', mn_min_installer_version = ''0.1.0'',
      mn_files = [\<lparr>mf_source = ''payload/a'', mf_target = ''bin/a'', mf_size = 3,
                   mf_sha256 = replicate 64 (CHR ''0''), mf_launchable = True\<rparr>]\<rparr>"

definition demo_json :: json_lib where
  "demo_json =
     \<lparr>jl_parse = (\<lambda>t. Inr (sort_json (manifest_payload demo_manifest ''release''))),
      jl_dump = (\<lambda>j. Inr ''{}'')\<rparr>"

lemma demo_manifest_valid: "valid_manifest demo_manifest"
proof -
  have "safe_relative ''payload/a''" "safe_relative ''bin/a''"
    unfolding safe_relative_def by code_simp+
  moreover have "IsSafePathSegment ''1.0.0''" "IsSafePathSegment ''linux''" "IsSafePathSegment ''x64''"
    by code_simp+
  moreover have "IsLowerHexSha256 (replicate 64 (CHR ''0''))"
    by code_simp
  ultimately show ?thesis
    by (simp add: valid_manifest_def demo_manifest_def valid_file_def starts_with_def
        IsKnownComponent_def)
qed

lemma demo_serialized: "SerializeManifestJson demo_json demo_manifest = Inr (''{}'' @ [CHR 0x0A])"
  by (simp add: SerializeManifestJson_def demo_json_def ValidateBuildType_def demo_manifest_def)

lemma demo_reads_back:
  "json_reads_back demo_json (manifest_payload demo_manifest (mn_build_type demo_manifest))"
  by (simp add: json_reads_back_def demo_json_def demo_manifest_def)

theorem manifest_round_trip_witness:
  "ParseManifestJson demo_json (''{}'' @ [CHR 0x0A]) = Inr demo_manifest"
  by (rule manifest_round_trip [OF demo_manifest_valid demo_serialized demo_reads_back])

lemma demo_parsed: "ParseManifestJson demo_json ''{}'' = Inr demo_manifest"
proof -
  have "ParseManifestJson demo_json ''{}'' = ParseManifestJson demo_json (''{}'' @ [CHR 0x0A])"
    by (simp add: ParseManifestJson_def demo_json_def)
  also have "\<dots> = Inr demo_manifest"
    by (rule manifest_reads_back [OF demo_manifest_valid demo_serialized demo_reads_back])
  finally show ?thesis .
qed

theorem parsed_manifest_valid_witness: "valid_manifest demo_manifest"
  by (rule parsed_manifest_valid [OF demo_parsed])

end
