(* ===== verification/File_Actions.thy ===== *)
theory File_Actions
  imports Archive Semver
begin

section \<open>Programs that change files (file_permissions.cpp, temp_dir.cpp, the installer's helpers)\<close>

text \<open>
  The code of the package tools is a sequence of file system calls that may throw.  An operation
  takes the file system to a result, or the exception it ends with, and the file system it leaves,
  because what was done before a throw stays done; reading operations yield a result only.
\<close>

type_synonym 'a act = "file_system \<Rightarrow> 'a result \<times> file_system"

definition act_return :: "'a \<Rightarrow> 'a act" where
  "act_return x fs = (Inr x, fs)"

definition act_throw :: "exn \<Rightarrow> 'a act" where
  "act_throw e fs = (Inl e, fs)"

definition act_bind :: "'a act \<Rightarrow> ('a \<Rightarrow> 'b act) \<Rightarrow> 'b act" where
  "act_bind m f fs =
     (case m fs of (Inl e, fs') \<Rightarrow> (Inl e, fs') | (Inr x, fs') \<Rightarrow> f x fs')"

definition act_read :: "(file_system \<Rightarrow> 'a result) \<Rightarrow> 'a act" where
  "act_read f fs = (f fs, fs)"

definition act_change :: "(file_system \<Rightarrow> file_system result) \<Rightarrow> unit act" where
  "act_change f fs = (case f fs of Inl e \<Rightarrow> (Inl e, fs) | Inr fs' \<Rightarrow> (Inr (), fs'))"

definition act_catch :: "'a act \<Rightarrow> (exn \<Rightarrow> 'a act) \<Rightarrow> 'a act" where
  "act_catch m handler fs =
     (case m fs of (Inl e, fs') \<Rightarrow> handler e fs' | (Inr x, fs') \<Rightarrow> (Inr x, fs'))"

fun what :: "exn \<Rightarrow> string" where
  "what (Invalid_argument s) = s"
| "what (Runtime_error s) = s"
| "what (Sql_error s) = s"
| "what (Json_error s) = s"
| "what (Undefined_behaviour s) = s"

lemma act_simps [simp]:
  "act_bind (act_return x) f = f x"
  "act_return x fs = (Inr x, fs)" "act_throw e fs = (Inl e, fs)" "act_read q fs = (q fs, fs)"
  by (simp_all add: act_bind_def act_return_def act_throw_def act_read_def fun_eq_iff)

lemma act_bind_run:
  "act_bind m f fs = (case m fs of (Inl e, fs') \<Rightarrow> (Inl e, fs') | (Inr x, fs') \<Rightarrow> f x fs')"
  by (simp add: act_bind_def)

lemma act_bind_InrE:
  assumes "act_bind m f fs = (Inr y, fs')"
  obtains x fs1 where "m fs = (Inr x, fs1)" "f x fs1 = (Inr y, fs')"
  using assms by (auto simp: act_bind_run split: prod.splits sum.splits)

lemma act_change_Inr: "act_change f fs = (Inr u, fs') \<longleftrightarrow> f fs = Inr fs'"
  by (auto simp: act_change_def split: sum.splits)

lemma act_read_bind_InrE:
  assumes "act_bind (act_read q) f fs = (Inr y, fs')"
  obtains x where "q fs = Inr x" "f x fs = (Inr y, fs')"
  using assms by (auto elim!: act_bind_InrE)

fun act_each :: "('a \<Rightarrow> unit act) \<Rightarrow> 'a list \<Rightarrow> unit act" where
  "act_each step [] = act_return ()"
| "act_each step (x # xs) = act_bind (step x) (\<lambda>_. act_each step xs)"

subsection \<open>Small files, permissions and listings\<close>

definition isspace :: "char \<Rightarrow> bool" where
  "isspace c \<longleftrightarrow> c \<in> {CHR '' '', CHR 0x09, CHR 0x0A, CHR 0x0B, CHR 0x0C, CHR 0x0D}"

definition trimmed :: "string \<Rightarrow> string" where
  "trimmed value = dropWhile isspace (rev (dropWhile isspace (rev value)))"

definition ReadFileTrimmed :: "os_env \<Rightarrow> file_system \<Rightarrow> string \<Rightarrow> string result" where
  "ReadFileTrimmed os fs path =
     bind_res (option_res (Runtime_error (''failed to open file: '' @ path)) (read_file os fs path))
       (\<lambda>contents. Inr (trimmed (string_of_bytes contents)))"

definition WriteTextFile :: "os_env \<Rightarrow> string \<Rightarrow> string \<Rightarrow> unit act" where
  "WriteTextFile os path content =
     act_bind (act_change (\<lambda>fs. create_directories os fs (parent_path path))) (\<lambda>_.
     act_change (\<lambda>fs. option_res (Runtime_error (''failed to open file for write: '' @ path))
                       (write_file os fs path (bytes_of_string content))))"

definition IsLaunchableProgram :: "os_env \<Rightarrow> file_system \<Rightarrow> string \<Rightarrow> bool result" where
  "IsLaunchableProgram os fs path =
     bind_res (symlink_status os fs path) (\<lambda>target_status.
       if \<not> is_regular_node target_status then Inr False
       else bind_res (fs_status os fs path) (\<lambda>status. Inr (HasExecutablePermission status)))"

definition SetExecutable :: "os_env \<Rightarrow> string \<Rightarrow> bool \<Rightarrow> unit act" where
  "SetExecutable os path executable =
     act_change (\<lambda>fs.
       option_res (Runtime_error (''failed to update executable permission for: '' @ path))
         (set_executable os fs path executable))"

definition directory_names :: "os_env \<Rightarrow> file_system \<Rightarrow> string \<Rightarrow> string list result" where
  "directory_names os fs dir =
     (case locate os fs True dir of
        Inl e \<Rightarrow> Inl (filesystem_error ''directory iterator cannot open directory'' dir)
      | Inr q \<Rightarrow> Inr (oe_listing os fs q))"

subsection \<open>Temporary directories\<close>

text \<open>
  \<open>ScopedTempDir\<close>: up to 128 names below the base directory are tried; the counter is the static
  one of the constructor.  \<open>create_directories\<close> answers whether it made the directory.
\<close>

record scoped_temp_dir =
  td_base_dir :: string
  td_path :: string

definition kTempDirAttempts :: nat where
  "kTempDirAttempts = 128"

definition temp_dir_candidate :: "os_env \<Rightarrow> string \<Rightarrow> nat \<Rightarrow> string" where
  "temp_dir_candidate os base_dir counter =
     path_append base_dir
       (decimal (oe_process_id os) @ ''-'' @ decimal (oe_ticks os) @ ''-'' @ decimal counter)"

definition made_directory :: "os_env \<Rightarrow> file_system \<Rightarrow> string \<Rightarrow> file_system option" where
  "made_directory os fs p =
     (case create_directories os fs p of
        Inl error \<Rightarrow> None
      | Inr fs' \<Rightarrow> if fs_exists os fs p = Inr False then Some fs' else None)"

fun temp_dir_attempts :: "os_env \<Rightarrow> string \<Rightarrow> nat \<Rightarrow> nat \<Rightarrow> string act" where
  "temp_dir_attempts os base_dir counter 0 fs =
     (Inl (Runtime_error (''failed to create temporary directory under: '' @ base_dir)), fs)"
| "temp_dir_attempts os base_dir counter (Suc attempts) fs =
     (case made_directory os fs (temp_dir_candidate os base_dir counter) of
        Some fs' \<Rightarrow> (Inr (temp_dir_candidate os base_dir counter), fs')
      | None \<Rightarrow> temp_dir_attempts os base_dir (Suc counter) attempts fs)"

definition ScopedTempDir :: "os_env \<Rightarrow> nat \<Rightarrow> string \<Rightarrow> scoped_temp_dir act" where
  "ScopedTempDir os counter pre =
     (let base_dir = path_append (oe_temp_dir os) pre in
      act_bind (act_change (\<lambda>fs. create_directories os fs base_dir)) (\<lambda>_.
      act_bind (temp_dir_attempts os base_dir counter kTempDirAttempts) (\<lambda>path.
      act_return \<lparr>td_base_dir = base_dir, td_path = path\<rparr>)))"

definition quietly :: "unit act \<Rightarrow> unit act" where
  "quietly m = act_catch m (\<lambda>error. act_return ())"

definition DestroyScopedTempDir :: "os_env \<Rightarrow> scoped_temp_dir \<Rightarrow> unit act" where
  "DestroyScopedTempDir os temp_dir =
     act_bind (if td_path temp_dir \<noteq> []
               then quietly (act_change (\<lambda>fs. remove_all os fs (td_path temp_dir)))
               else act_return ()) (\<lambda>_.
     if td_base_dir temp_dir \<noteq> []
     then quietly (act_change (\<lambda>fs. remove_file os fs (td_base_dir temp_dir)))
     else act_return ())"

end
