(* ===== verification/File_Frames.thy ===== *)
theory File_Frames
  imports File_Actions Archive_Extract
begin

section \<open>What a program that changes files leaves alone\<close>

text \<open>
  A frame logic for the programs of \<open>File_Actions\<close> on file systems without links: a program is
  \<open>confined\<close> to a region when, however it ends, it changes files of the region only and makes
  directories only on the way to the region.
\<close>

subsection \<open>Places of composed paths\<close>

definition file_path :: "string \<Rightarrow> bool" where
  "file_path p \<longleftrightarrow> plain_path p \<and> last p \<noteq> CHR ''/'' \<and> (is_absolute p \<or> 1 < length (path_names p))"

lemma relative_names: "p \<noteq> [] \<Longrightarrow> \<not> is_absolute p \<Longrightarrow> path_names p \<noteq> []"
  using first_piece_nonempty [of p] by (simp add: is_absolute_def path_names_def)

lemma last_append_path: "q \<noteq> [] \<Longrightarrow> last (path_append p q) = last q"
  by (simp add: path_append_def)

lemma file_path_append:
  assumes "plain_path a" "b \<noteq> []" "\<not> is_absolute b" "last b \<noteq> CHR ''/''" "plain_names (path_names b)"
  shows "file_path (path_append a b)"
proof -
  have "a \<noteq> []" using assms(1) by (simp add: plain_path_def)
  moreover have "is_absolute a \<or> 1 < length (path_names a) + length (path_names b)"
    using relative_names [of a] relative_names [of b] assms(2,3) \<open>a \<noteq> []\<close>
    by (cases "path_names a"; cases "path_names b") auto
  ultimately show ?thesis
    using assms by (auto simp: file_path_def plain_path_append last_append_path)
qed

lemma file_path_plain [simp]: "file_path p \<Longrightarrow> plain_path p"
  by (simp add: file_path_def)

lemma path_names_last_piece:
  assumes "p \<noteq> []" "last p \<noteq> CHR ''/''"
  shows "last (split_on (CHR ''/'') p) \<noteq> []"
  using assms
proof (induction p)
  case Nil
  then show ?case by simp
next
  case (Cons c p)
  obtain x xs where "split_on (CHR ''/'') p = x # xs"
    by (cases "split_on (CHR ''/'') p") auto
  then show ?case
    using Cons by (cases "p = []") auto
qed

lemma absolute_split: "p \<noteq> [] \<Longrightarrow> is_absolute p \<longleftrightarrow> hd (split_on (CHR ''/'') p) = []"
  by (cases p; cases "split_on (CHR ''/'') (tl p)") (auto simp: is_absolute_def)

lemma names_split_last:
  assumes "p \<noteq> []" "last p \<noteq> CHR ''/''"
  shows "path_names p =
    filter (\<lambda>s. s \<noteq> []) (butlast (split_on (CHR ''/'') p)) @ [last (split_on (CHR ''/'') p)]"
proof -
  let ?s = "split_on (CHR ''/'') p"
  have "filter (\<lambda>s. s \<noteq> []) (butlast ?s @ [last ?s]) = filter (\<lambda>s. s \<noteq> []) (butlast ?s) @ [last ?s]"
    using path_names_last_piece [OF assms] by (simp del: append_butlast_last_id)
  then show ?thesis
    unfolding path_names_def by (simp only: append_butlast_last_id [OF split_on_not_Nil])
qed

lemma parent_path_names:
  assumes "file_path p"
  shows "path_names (parent_path p) = butlast (path_names p)"
    and "is_absolute (parent_path p) = is_absolute p" and "parent_path p \<noteq> []"
proof -
  let ?s = "split_on (CHR ''/'') p"
  let ?kept = "rev (dropWhile (\<lambda>s. s = []) (rev (butlast ?s)))"
  have p: "p \<noteq> []" "last p \<noteq> CHR ''/''"
    using assms by (simp_all add: file_path_def plain_path_def)
  note names = names_split_last [OF p]
  have s: "?s = butlast ?s @ [last ?s]" by simp
  have kept: "filter (\<lambda>s. s \<noteq> []) ?kept = filter (\<lambda>s. s \<noteq> []) (butlast ?s)"
  proof -
    have "filter (\<lambda>s. s \<noteq> []) (dropWhile (\<lambda>s. s = []) xs) = filter (\<lambda>s. s \<noteq> []) xs" for xs :: "string list"
      by (induction xs) simp_all
    then show ?thesis
      by (simp add: rev_filter [symmetric])
  qed
  have dir: "butlast ?s \<noteq> []"
  proof
    assume d: "butlast ?s = []"
    then have one: "?s = [last ?s]" using s by simp
    then have "p = last ?s" by (metis join_split_on join_with.simps(2))
    moreover have "CHR ''/'' \<notin> set (last ?s)"
      using split_on_no_sep [of "last ?s" "CHR ''/''" p] by simp
    ultimately have "\<not> is_absolute p"
      by (metis is_absolute_def hd_in_set)
    moreover have "length (path_names p) = 1"
      using names d by simp
    ultimately show False
      using assms by (simp add: file_path_def)
  qed
  have hd_kept: "hd ?kept = hd ?s" if "?kept \<noteq> []"
  proof -
    have "\<exists>ys. xs = rev (dropWhile (\<lambda>s. s = []) (rev xs)) @ ys" for xs :: "string list"
      by (metis rev_append rev_rev_ident takeWhile_dropWhile_id)
    then obtain ys where "butlast ?s = ?kept @ ys" by blast
    then have "?s = ?kept @ ys @ [last ?s]" using s by (metis append.assoc)
    then show ?thesis
      using that by (metis hd_append2)
  qed
  have last_kept: "last ?kept \<noteq> []" if "?kept \<noteq> []"
    using that hd_dropWhile [of "\<lambda>s. s = []" "rev (butlast ?s)"] by (simp add: last_rev)
  have abs: "is_absolute p \<longleftrightarrow> hd ?s = []"
    using p(1) by (rule absolute_split)
  have split: "split_on (CHR ''/'') (join_with (CHR ''/'') ?kept) = ?kept" if "?kept \<noteq> []"
  proof (rule split_join_with [OF that])
    have "set ?kept \<subseteq> set ?s"
      by (auto dest!: set_dropWhileD in_set_butlastD)
    then show "\<forall>x\<in>set ?kept. CHR ''/'' \<notin> set x"
      using split_on_no_sep [of _ "CHR ''/''" p] by blast
  qed
  show "path_names (parent_path p) = butlast (path_names p)"
  proof (cases "?kept = []")
    case True
    then have "filter (\<lambda>s. s \<noteq> []) (butlast ?s) = []"
      using kept by simp
    then show ?thesis
      using True dir names by (simp add: parent_path_def Let_def path_names_def)
  next
    case False
    have "parent_path p = join_with (CHR ''/'') ?kept"
      unfolding parent_path_def Let_def using dir False by (simp only: if_False)
    then have "path_names (parent_path p) = filter (\<lambda>s. s \<noteq> []) ?kept"
      by (simp only: path_names_def split [OF False])
    then show ?thesis
      using names kept by simp
  qed
  show "is_absolute (parent_path p) = is_absolute p" "parent_path p \<noteq> []"
  proof -
    have "is_absolute (parent_path p) = is_absolute p \<and> parent_path p \<noteq> []"
    proof (cases "?kept = []")
      case True
      have "hd ?s = []"
      proof -
        have "\<forall>x\<in>set (butlast ?s). x = []"
          using True by (simp add: dropWhile_eq_Nil_conv)
        moreover have "hd ?s \<in> set (butlast ?s)"
          using dir by (metis hd_append2 hd_in_set s)
        ultimately show ?thesis by blast
      qed
      then show ?thesis
        using True dir abs by (simp add: parent_path_def Let_def is_absolute_def)
    next
      case False
      let ?j = "join_with (CHR ''/'') ?kept"
      have j: "parent_path p = ?j"
        unfolding parent_path_def Let_def using dir False by (simp only: if_False)
      have ne: "?j \<noteq> []"
      proof
        assume "?j = []"
        then have "?kept = [[]]"
          using split [OF False] unfolding \<open>?j = []\<close> by (metis split_on.simps(1))
        then show False
          using last_kept [OF False] by simp
      qed
      have "is_absolute ?j \<longleftrightarrow> hd ?kept = []"
        by (simp only: absolute_split [OF ne] split [OF False])
      then show ?thesis
        using j ne abs hd_kept [OF False] by simp
    qed
    then show "is_absolute (parent_path p) = is_absolute p" "parent_path p \<noteq> []" by blast+
  qed
qed

lemma plain_names_butlast: "plain_names cs \<Longrightarrow> plain_names (butlast cs)"
  by (auto simp: plain_names_def list_all_iff dest: in_set_butlastD)

lemma parent_path_plain [simp]: "file_path p \<Longrightarrow> plain_path (parent_path p)"
  using parent_path_names [of p] by (simp add: plain_path_def file_path_def plain_names_butlast)

lemma file_path_names: "file_path p \<Longrightarrow> path_names p \<noteq> []"
  using path_names_last_piece [of p]
  by (cases "split_on (CHR ''/'') p" rule: rev_cases)
    (auto simp: file_path_def plain_path_def path_names_def)

lemma place_parent [simp]: "file_path p \<Longrightarrow> place env (parent_path p) = butlast (place env p)"
  using parent_path_names [of p] file_path_names [of p] by (simp add: place_def butlast_append)

lemma place_nonempty [simp]: "file_path p \<Longrightarrow> place env p \<noteq> []"
  using file_path_names [of p] by (simp add: place_def)

text \<open>A path with an ending.\<close>

lemma split_on_extended:
  "CHR ''/'' \<notin> set e \<Longrightarrow>
     split_on (CHR ''/'') (p @ e) = butlast (split_on (CHR ''/'') p) @ [last (split_on (CHR ''/'') p) @ e]"
proof (induction p)
  case Nil
  then show ?case by (simp add: split_on_single)
next
  case (Cons c p)
  obtain x xs where "split_on (CHR ''/'') p = x # xs"
    by (cases "split_on (CHR ''/'') p") auto
  then show ?case
    using Cons by (cases xs) auto
qed

lemma extended_path:
  assumes "file_path p" "CHR ''/'' \<notin> set e" "2 < length e"
  shows "path_names (p @ e) = butlast (path_names p) @ [last (path_names p) @ e]" "file_path (p @ e)"
    "is_absolute (p @ e) = is_absolute p"
proof -
  let ?s = "split_on (CHR ''/'') p"
  have p: "p \<noteq> []" "last p \<noteq> CHR ''/''"
    using assms by (simp_all add: file_path_def plain_path_def)
  note names = names_split_last [OF p]
  show n: "path_names (p @ e) = butlast (path_names p) @ [last (path_names p) @ e]"
    using assms(3) names unfolding path_names_def split_on_extended [OF assms(2)] by auto
  show a: "is_absolute (p @ e) = is_absolute p"
    using p by (simp add: is_absolute_def)
  have "last (p @ e) \<noteq> CHR ''/''"
    using assms(2,3) by (cases e rule: rev_cases) auto
  moreover have "last (path_names p) @ e \<noteq> ''.''" "last (path_names p) @ e \<noteq> ''..''"
    using assms(3) by (auto dest: arg_cong [where f = length])
  ultimately show "file_path (p @ e)"
    using assms n a plain_names_butlast [of "path_names p"] file_path_names [OF assms(1)]
    by (auto simp: file_path_def plain_path_def)
qed

lemma extended_place:
  assumes "file_path p" "CHR ''/'' \<notin> set e" "2 < length e"
  shows "place env (p @ e) = butlast (place env p) @ [last (place env p) @ e]"
  using extended_path [OF assms] file_path_names [OF assms(1)]
  by (simp add: place_def butlast_append)


subsection \<open>Confined programs\<close>

definition only_changes :: "(fs_path \<Rightarrow> bool) \<Rightarrow> file_system \<Rightarrow> file_system \<Rightarrow> bool" where
  "only_changes R fs fs' \<longleftrightarrow>
     (\<forall>p. R p \<or> fs' p = fs p \<or>
          fs p = None \<and> fs' p = Some Directory \<and> (\<exists>q. R q \<and> strict_prefix p q))"

lemma only_changes_refl [simp]: "only_changes R fs fs"
  by (simp add: only_changes_def)

lemma only_changes_trans:
  "only_changes R fs fs' \<Longrightarrow> only_changes R fs' fs'' \<Longrightarrow> only_changes R fs fs''"
  unfolding only_changes_def by (metis option.distinct(1))

lemma only_changes_update: "R q \<Longrightarrow> only_changes R fs (fs(q := node))"
  by (simp add: only_changes_def)

lemma only_changes_dirs:
  assumes "R q" "prefix d q"
  shows "only_changes R fs (with_dirs d fs)"
proof -
  have "R p \<or> strict_prefix p q" if "prefix p d" for p
    using that assms by (cases "p = q") (auto simp: strict_prefix_def dest: prefix_order.trans)
  then show ?thesis
    using assms(1) unfolding only_changes_def with_dirs_def by auto
qed

definition confined_at :: "os_env \<Rightarrow> (fs_path \<Rightarrow> bool) \<Rightarrow> file_system \<Rightarrow> 'a act \<Rightarrow> bool" where
  "confined_at env R fs m \<longleftrightarrow> plain_fs env (snd (m fs)) \<and> only_changes R fs (snd (m fs))"

definition confined :: "os_env \<Rightarrow> (fs_path \<Rightarrow> bool) \<Rightarrow> 'a act \<Rightarrow> bool" where
  "confined env R m \<longleftrightarrow> (\<forall>fs. plain_fs env fs \<longrightarrow> confined_at env R fs m)"

lemma confinedI: "(\<And>fs. plain_fs env fs \<Longrightarrow> confined_at env R fs m) \<Longrightarrow> confined env R m"
  by (simp add: confined_def)

lemma confined_atD: "confined env R m \<Longrightarrow> plain_fs env fs \<Longrightarrow> confined_at env R fs m"
  by (simp add: confined_def)

lemma confined_run:
  assumes "confined env R m" "m fs = (r, fs')" "plain_fs env fs"
  shows "plain_fs env fs'" "only_changes R fs fs'"
  using assms by (auto simp: confined_def confined_at_def dest!: spec [where x = fs])

lemma confined_simple [simp]:
  "plain_fs env fs \<Longrightarrow> confined_at env R fs (act_return x)"
  "plain_fs env fs \<Longrightarrow> confined_at env R fs (act_throw e)"
  "plain_fs env fs \<Longrightarrow> confined_at env R fs (act_read q)"
  "confined env R (act_return x)" "confined env R (act_throw e)" "confined env R (act_read q)"
  by (simp_all add: confined_def confined_at_def)

lemma confined_at_bind_read:
  assumes "plain_fs env fs" "\<And>x. q fs = Inr x \<Longrightarrow> confined_at env R fs (f x)"
  shows "confined_at env R fs (act_bind (act_read q) f)"
  using assms by (auto simp: confined_at_def act_bind_run split: sum.splits)

lemma confined_at_bind:
  assumes "confined_at env R fs m" "\<And>x fs'. m fs = (Inr x, fs') \<Longrightarrow> confined env R (f x)"
  shows "confined_at env R fs (act_bind m f)"
proof (cases "m fs")
  case (Pair r fs')
  then show ?thesis
    using assms only_changes_trans
    by (fastforce simp: confined_at_def confined_def act_bind_run split: sum.splits)
qed

lemma confined_bind:
  assumes "confined env R m" "\<And>x. confined env R (f x)"
  shows "confined env R (act_bind m f)"
proof (rule confinedI)
  fix fs assume "plain_fs env fs"
  then show "confined_at env R fs (act_bind m f)"
    by (rule confined_at_bind [OF confined_atD [OF assms(1)]]) (rule assms(2))
qed

lemma confined_bind_read:
  assumes "\<And>x fs. q fs = Inr x \<Longrightarrow> confined env R (f x)"
  shows "confined env R (act_bind (act_read q) f)"
proof (rule confinedI)
  fix fs assume fs: "plain_fs env fs"
  show "confined_at env R fs (act_bind (act_read q) f)"
    by (rule confined_at_bind_read [OF fs]) (rule confined_atD [OF assms fs])
qed

lemma confined_catch:
  assumes "confined env R m" "\<And>e. confined env R (handler e)"
  shows "confined env R (act_catch m handler)"
proof (rule confinedI)
  fix fs assume fs: "plain_fs env fs"
  show "confined_at env R fs (act_catch m handler)"
  proof (cases "m fs")
    case (Pair r fs')
    then show ?thesis
      using confined_run [OF assms(1) Pair fs] confined_atD [OF assms(2), of fs'] only_changes_trans
      by (auto simp: confined_at_def act_catch_def split: sum.splits)
  qed
qed

lemma confined_quietly: "confined env R m \<Longrightarrow> confined env R (quietly m)"
  unfolding quietly_def by (intro confined_catch) simp_all

lemma confined_each: "(\<And>x. x \<in> set xs \<Longrightarrow> confined env R (step x)) \<Longrightarrow> confined env R (act_each step xs)"
  by (induction xs) (auto intro: confined_bind)

lemma confined_change:
  assumes "\<And>fs fs'. plain_fs env fs \<Longrightarrow> f fs = Inr fs' \<Longrightarrow> plain_fs env fs' \<and> only_changes R fs fs'"
  shows "confined env R (act_change f)"
  using assms by (auto simp: confined_def confined_at_def act_change_def split: sum.splits)

text \<open>The file system calls.\<close>

lemma confined_directories:
  assumes "plain_path p" "R q" "prefix (place env p) q"
  shows "confined env R (act_change (\<lambda>fs. create_directories env fs p))"
  using assms create_directories_done only_changes_dirs [of R q "place env p"]
  by (intro confined_change) blast

lemma confined_write:
  assumes "plain_path p" "R (place env p)"
  shows "confined env R (act_change (\<lambda>fs. option_res e (write_file env fs p c)))"
proof (intro confined_change conjI)
  fix fs fs' assume fs: "plain_fs env fs" and "option_res e (write_file env fs p c) = Inr fs'"
  then have w: "write_file env fs p c = Some fs'" by simp
  show "plain_fs env fs'" "only_changes R fs fs'"
    using write_file_plainE [OF w fs assms(1)] assms(2) only_changes_update by metis+
qed

lemma copy_file_plainE:
  assumes "copy_file env fs a b = Inr fs'" "plain_fs env fs" "plain_path a" "plain_path b"
  obtains c x where "fs (place env a) = Some (Regular_file c x)"
    "fs' = fs(place env b \<mapsto> Regular_file c x)" "is_leaf (fs (place env b))" "place env b \<noteq> []"
    "place env a \<noteq> []" "node_at fs (butlast (place env b)) = Some Directory" "plain_fs env fs'"
proof -
  have a: "locate env fs True a = Inr (place env a)" and b: "locate env fs True b = Inr (place env b)"
    and dir: "node_at fs (butlast (place env b)) = Some Directory"
    using assms(1) locate_plain [OF assms(2,3), of True] locate_plain [OF assms(2,4), of True]
    by (auto simp: copy_file_def split: if_splits)
  obtain c x where 1: "node_at fs (place env a) = Some (Regular_file c x)"
      "fs' = fs(place env b \<mapsto> Regular_file c x)"
      "is_leaf (node_at fs (place env b))"
    using assms(1) by (auto simp: copy_file_def a b is_leaf_def split: option.splits fs_node.splits if_splits)
  then have ne: "place env b \<noteq> []" "place env a \<noteq> []"
    by (auto simp: node_at_def is_leaf_def)
  with 1 have "is_leaf (fs (place env b))" "fs (place env a) = Some (Regular_file c x)"
    by (simp_all add: node_at_def)
  with 1 ne dir plain_fs_update_file [OF assms(2) \<open>is_leaf (fs (place env b))\<close> ne(1) dir, of c x]
  show thesis
    by (intro that) simp_all
qed

lemma confined_copy:
  assumes "plain_path a" "plain_path b" "R (place env b)"
  shows "confined env R (act_change (\<lambda>fs. copy_file env fs a b))"
  using copy_file_plainE [OF _ _ assms(1,2)] assms(3) only_changes_update
  by (intro confined_change) metis

lemma set_executable_plainE:
  assumes "set_executable env fs p x = Some fs'" "plain_fs env fs" "plain_path p"
  obtains (changed) c y where "fs (place env p) = Some (Regular_file c y)" "place env p \<noteq> []"
      "fs' = fs(place env p \<mapsto> Regular_file c x)" "plain_fs env fs'"
    | (other) "fs' = fs" "node_at fs (place env p) \<noteq> None" "\<not> is_regular_node (node_at fs (place env p))"
proof (cases "\<exists>c y. node_at fs (place env p) = Some (Regular_file c y)")
  case True
  then obtain c y where n: "node_at fs (place env p) = Some (Regular_file c y)" by blast
  then have ne: "place env p \<noteq> []" and f: "fs (place env p) = Some (Regular_file c y)"
    by (auto simp: node_at_def split: if_splits)
  have fs': "fs' = fs(place env p \<mapsto> Regular_file c x)"
    by (rule set_executable_plain [OF assms f ne])
  have "node_at fs (butlast (place env p)) = Some Directory"
    using node_at_prefix [OF assms(2), of "butlast (place env p)" "[last (place env p)]"] n ne by simp
  then have "plain_fs env fs'"
    unfolding fs' using assms(2) f ne by (intro plain_fs_update_file) (simp_all add: is_leaf_def)
  then show thesis
    using changed [OF f ne fs'] by blast
next
  case False
  then show thesis
    using assms(1) locate_plain [OF assms(2,3), of True]
    by (intro other) (auto simp: set_executable_def split: sum.splits option.splits fs_node.splits if_splits)
qed

lemma confined_set_executable:
  assumes "plain_path p" "R (place env p)"
  shows "confined env R (SetExecutable env p x)"
  unfolding SetExecutable_def
proof (intro confined_change conjI)
  fix fs fs' assume fs: "plain_fs env fs"
    and "option_res (Runtime_error (''failed to update executable permission for: '' @ p))
           (set_executable env fs p x) = Inr fs'"
  then have w: "set_executable env fs p x = Some fs'" by simp
  show "plain_fs env fs'" "only_changes R fs fs'"
    using set_executable_plainE [OF w fs assms(1)] assms(2) only_changes_update fs by (metis only_changes_refl)+
qed

lemma confined_remove_all:
  assumes "plain_path p" "\<not> prefix (place env p) (oe_cwd env)" "\<And>q. prefix (place env p) q \<Longrightarrow> R q"
  shows "confined env R (act_change (\<lambda>fs. remove_all env fs p))"
proof (intro confined_change conjI)
  fix fs fs' assume "plain_fs env fs" "remove_all env fs p = Inr fs'"
  note gone = remove_all_done [OF this(2,1) assms(1,2)]
  show "plain_fs env fs'" by (rule gone(2))
  show "only_changes R fs fs'"
    using assms(3) by (auto simp: gone(1) only_changes_def remove_tree_def)
qed


text \<open>What directory listings are relied on for.\<close>

definition honest_listing :: "os_env \<Rightarrow> bool" where
  "honest_listing env \<longleftrightarrow>
     (\<forall>fs q. (oe_listing env fs q = [] \<longrightarrow> (\<forall>c. fs (q @ [c]) = None)) \<and>
             (\<forall>c\<in>set (oe_listing env fs q).
                c \<noteq> [] \<and> CHR ''/'' \<notin> set c \<and> c \<noteq> ''.'' \<and> c \<noteq> ''..''))"

lemma empty_listing: "honest_listing env \<Longrightarrow> oe_listing env fs q = [] \<Longrightarrow> fs (q @ [c]) = None"
  by (simp add: honest_listing_def)

lemma locate_plain_Inr:
  assumes "locate env fs follow p = Inr q" "plain_fs env fs" "plain_path p"
  shows "q = place env p" "node_at fs (butlast (place env p)) = Some Directory"
  using locate_plain [OF assms(2,3), of follow] assms(1) by (auto split: if_splits)

lemma remove_file_plain:
  assumes "remove_file env fs p = Inr fs'" "plain_fs env fs" "plain_path p"
    "\<not> prefix (place env p) (oe_cwd env)" "honest_listing env"
  shows "plain_fs env fs'" "fs' = fs \<or> fs' = fs(place env p := None)"
proof -
  let ?q = "place env p"
  have ne: "?q \<noteq> []" using assms(4) by auto
  show c: "fs' = fs \<or> fs' = fs(?q := None)"
    using assms(1) locate_plain_Inr(1) [OF _ assms(2,3)]
    by (auto simp: remove_file_def split: sum.splits errno.splits option.splits fs_node.splits if_splits)
  have children: "fs (?q @ [c]) = None" if "fs' \<noteq> fs" for c
  proof (cases "fs ?q = Some Directory")
    case True
    then have "oe_listing env fs ?q = []"
      using assms(1) that ne locate_plain_Inr(1) [OF _ assms(2,3)]
      by (auto simp: remove_file_def node_at_def split: sum.splits errno.splits option.splits fs_node.splits if_splits)
    then show ?thesis by (rule empty_listing [OF assms(5)])
  next
    case False
    then show ?thesis
      using node_at_prefix [OF assms(2), of ?q "[c]"] ne
      by (cases "fs (?q @ [c])") (simp_all add: node_at_def)
  qed
  show "plain_fs env fs'"
  proof (cases "fs' = fs")
    case False
    then have fs': "fs' = fs(?q := None)" and kids: "\<And>c. fs (?q @ [c]) = None"
      using c children by auto
    have "node_at fs' r = Some Directory" if "fs' (r @ [c]) \<noteq> None" for r c
      using that kids node_at_prefix [OF assms(2), of r "[c]"]
      by (auto simp: fs' node_at_def split: if_splits)
    moreover have "node_at fs' (oe_cwd env) = Some Directory"
      using plain_fs_cwd [OF assms(2)] assms(4) by (auto simp: fs' node_at_def)
    ultimately show ?thesis
      using plain_fs_link [OF assms(2)] unfolding plain_fs_def by (simp add: fs')
  qed (simp add: assms(2))
qed

lemma confined_remove_file:
  assumes "plain_path p" "\<not> prefix (place env p) (oe_cwd env)" "honest_listing env" "R (place env p)"
  shows "confined env R (act_change (\<lambda>fs. remove_file env fs p))"
  using remove_file_plain [OF _ _ assms(1-3)] only_changes_update [of R, OF assms(4)]
  by (intro confined_change) (metis only_changes_refl)

text \<open>A rename moves a tree to a place that is neither above nor below it.\<close>

lemma rename_plain_moves:
  assumes "rename_path env fs a b = Inr fs'" "plain_fs env fs" "plain_path a" "plain_path b"
    "honest_listing env"
  obtains (same) "fs' = fs" "place env a = place env b"
    | (moved) "fs' = move_tree (place env a) (place env b) fs" "fs (place env a) \<noteq> None"
        "\<not> prefix (place env a) (place env b)" "\<not> prefix (place env b) (place env a)"
        "node_at fs (butlast (place env b)) = Some Directory"
        "place env a \<noteq> []" "place env b \<noteq> []"
proof -
  let ?s = "place env a" and ?t = "place env b"
  have loc: "locate env fs False a = Inr ?s" "locate env fs False b = Inr ?t"
    and dir: "node_at fs (butlast ?t) = Some Directory"
    using assms(1) locate_plain [OF assms(2,3), of False] locate_plain [OF assms(2,4), of False]
    by (auto simp: rename_path_def split: if_splits)
  show thesis
  proof (cases "?s = ?t")
    case True
    then have "fs' = fs"
      using assms(1) by (auto simp: rename_path_def loc split: option.splits fs_node.splits if_splits)
    then show thesis using True by (rule same)
  next
    case False
    have move: "fs' = move_tree ?s ?t fs" and src: "node_at fs ?s \<noteq> None"
      and tgt: "node_at fs ?t = Some Directory \<Longrightarrow>
          node_at fs ?s = Some Directory \<and> oe_listing env fs ?t = [] \<and> ?t \<noteq> []"
      and src_dir: "node_at fs ?s = Some Directory \<Longrightarrow> ?s \<noteq> [] \<and> \<not> prefix ?s ?t"
      using assms(1) False
      by (auto simp: rename_path_def loc node_at_def split: option.splits fs_node.splits if_splits)
    have below: "\<not> prefix ?s ?t"
    proof
      assume p: "prefix ?s ?t"
      then have "?s = butlast ?t \<or> strict_prefix ?s (butlast ?t)"
        using False by (metis append_butlast_last_id butlast.simps(1) prefix_order.le_less prefix_snoc)
      then have "node_at fs ?s = Some Directory"
        using dir node_at_prefix [OF assms(2), of ?s] unfolding strict_prefix_def prefix_def
        by (metis append_Nil2 option.distinct(1))
      then show False using src_dir p by blast
    qed
    have above: "\<not> prefix ?t ?s"
    proof
      assume "prefix ?t ?s"
      then obtain c r where s: "?s = ?t @ c # r"
        using False by (metis prefix_def append_Nil2 neq_Nil_conv)
      then have d: "node_at fs ?t = Some Directory"
        using node_at_prefix [OF assms(2), of ?t "c # r"] src by simp
      then have "fs (?t @ [c]) = None"
        using tgt empty_listing [OF assms(5)] by blast
      then have "node_at fs (?t @ [c] @ r) = None"
        using node_at_below_None [OF assms(2), of "?t @ [c]" r] by (cases "r = []") simp_all
      then show False using s src by simp
    qed
    have ne: "?s \<noteq> []" "?t \<noteq> []" using below above by auto
    then have "fs ?s \<noteq> None" using src by (simp add: node_at_def)
    show thesis by (rule moved) fact+
  qed
qed

lemma move_tree_plain:
  assumes "plain_fs env fs" "\<not> prefix s t" "\<not> prefix t s" "node_at fs (butlast t) = Some Directory"
    "\<not> prefix s (oe_cwd env)" "\<not> prefix t (oe_cwd env)"
  shows "plain_fs env (move_tree s t fs)"
proof -
  let ?fs = "move_tree s t fs"
  have ne: "s \<noteq> []" "t \<noteq> []" using assms(2,3) by auto
  have links: "?fs p \<noteq> Some (Symlink l)" for p l
    using plain_fs_link [OF assms(1)] by (simp add: move_tree_def)
  have cwd: "node_at ?fs (oe_cwd env) = Some Directory"
    using plain_fs_cwd [OF assms(1)] assms(5,6) by (auto simp: node_at_def move_tree_def split: if_splits)
  have parents: "node_at ?fs p = Some Directory" if c: "?fs (p @ [c]) \<noteq> None" for p c
  proof (cases "prefix t (p @ [c])")
    case True
    show ?thesis
    proof (cases "p @ [c] = t")
      case True
      then have "p = butlast t" "\<not> prefix t p" by (auto dest: prefix_length_le)
      moreover have "\<not> prefix s p"
        using True assms(2) prefix_order.trans by (metis prefixI)
      ultimately show ?thesis
        using assms(4) by (auto simp: node_at_def move_tree_def split: if_splits)
    next
      case False
      then have t: "prefix t p" using True by (simp add: prefix_snoc)
      then have "fs (s @ drop (length t) p @ [c]) \<noteq> None"
        using c True by (auto simp: move_tree_def prefix_length_le)
      then have "node_at fs (s @ drop (length t) p) = Some Directory"
        using node_at_prefix [OF assms(1), of "s @ drop (length t) p" "[c]"] by (simp add: node_at_def)
      then show ?thesis
        using t ne by (auto simp: node_at_def move_tree_def)
    qed
  next
    case False
    then have "\<not> prefix s (p @ [c])" "fs (p @ [c]) \<noteq> None"
      using c by (auto simp: move_tree_def split: if_splits)
    moreover have "\<not> prefix t p" "\<not> prefix s p"
      using False calculation(1) prefix_order.trans by (metis prefixI)+
    moreover have "node_at fs p = Some Directory"
      using node_at_prefix [OF assms(1), of p "[c]"] calculation(2) by simp
    ultimately show ?thesis
      by (auto simp: node_at_def move_tree_def split: if_splits)
  qed
  from links cwd parents show ?thesis
    unfolding plain_fs_def by blast
qed

lemma rename_plain:
  assumes "rename_path env fs a b = Inr fs'" "plain_fs env fs" "plain_path a" "plain_path b"
    "honest_listing env" "\<not> prefix (place env a) (oe_cwd env)" "\<not> prefix (place env b) (oe_cwd env)"
  shows "plain_fs env fs'"
  using assms(1-5)
proof (cases rule: rename_plain_moves)
  case same
  then show ?thesis using assms(2) by simp
next
  case moved
  then show ?thesis
    using move_tree_plain [OF assms(2)] assms(6,7) by blast
qed

lemma confined_rename:
  assumes "plain_path a" "plain_path b" "honest_listing env"
    "\<not> prefix (place env a) (oe_cwd env)" "\<not> prefix (place env b) (oe_cwd env)"
    "\<And>q. prefix (place env a) q \<Longrightarrow> R q" "\<And>q. prefix (place env b) q \<Longrightarrow> R q"
  shows "confined env R (act_change (\<lambda>fs. rename_path env fs a b))"
proof (intro confined_change conjI)
  fix fs fs' assume fs: "plain_fs env fs" and r: "rename_path env fs a b = Inr fs'"
  show "plain_fs env fs'"
    by (rule rename_plain [OF r fs assms(1-5)])
  show "only_changes R fs fs'"
    using r fs assms(1-3)
  proof (cases rule: rename_plain_moves)
    case moved
    then show ?thesis
      using assms(6,7) by (auto simp: only_changes_def move_tree_def)
  qed simp
qed

text \<open>Regions that hold whole trees and not the working directory.\<close>

definition covers :: "(fs_path \<Rightarrow> bool) \<Rightarrow> fs_path \<Rightarrow> bool" where
  "covers R q \<longleftrightarrow> (\<forall>p. prefix q p \<longrightarrow> R p)"

lemma coversD: "covers R q \<Longrightarrow> prefix q p \<Longrightarrow> R p"
  by (simp add: covers_def)

lemma covers_self: "covers R q \<Longrightarrow> R q"
  by (simp add: covers_def)

lemma covers_append: "covers R q \<Longrightarrow> covers R (q @ r)"
  by (auto simp: covers_def dest: append_prefixD)

definition simple_name :: "string \<Rightarrow> bool" where
  "simple_name n \<longleftrightarrow> n \<noteq> [] \<and> CHR ''/'' \<notin> set n \<and> n \<noteq> ''.'' \<and> n \<noteq> ''..''"

lemma simple_name_path:
  assumes "simple_name n"
  shows "path_names n = [n]" "\<not> is_absolute n" "last n \<noteq> CHR ''/''"
proof -
  have n: "n \<noteq> []" "CHR ''/'' \<notin> set n"
    using assms by (simp_all add: simple_name_def)
  then show "path_names n = [n]" "\<not> is_absolute n" "last n \<noteq> CHR ''/''"
    using hd_in_set [of n] last_in_set [of n]
    by (auto simp del: hd_in_set last_in_set simp: path_names_def split_on_single is_absolute_def)
qed

lemma file_path_child [simp]: "plain_path p \<Longrightarrow> simple_name n \<Longrightarrow> file_path (path_append p n)"
  by (rule file_path_append) (simp_all add: simple_name_path, simp_all add: simple_name_def)

lemma place_child [simp]:
  "plain_path p \<Longrightarrow> simple_name n \<Longrightarrow> place env (path_append p n) = place env p @ [n]"
  by (simp add: plain_path_def place_append simple_name_path)

lemma path_filename_child [simp]: "simple_name n \<Longrightarrow> path_filename (path_append p n) = n"
proof -
  assume n: "simple_name n"
  then have s: "split_on (CHR ''/'') n = [n]"
    by (simp add: simple_name_def split_on_single)
  show ?thesis
  proof (cases "p = []")
    case False
    then obtain r x where p: "p = r @ [x]" by (metis rev_exhaust)
    then show ?thesis
      using n s simple_name_path [OF n] split_on_join [of "CHR ''/''" r n]
        split_on_join [of "CHR ''/''" "r @ [x]" n]
      by (auto simp: path_filename_def path_append_def split_on_join)
  qed (use s simple_name_path [OF n] in \<open>simp add: path_filename_def path_append_def\<close>)
qed

end
