(* ===== verification/Installer.thy ===== *)
theory Installer
  imports File_Actions Manifest Semver
begin

section \<open>apps/installer: releases, activation and rollback (installer.cpp, temp_dir.cpp)\<close>

text \<open>
  The installer on a file system.  An operation takes the file system to a result, or the exception
  it ends with, and the file system it leaves, because what was done before a throw stays done.
  Reading operations yield a result only.  The operating system, the JSON library and the digest
  library are the parameters in \<open>installer_env\<close>.
\<close>

record 'c installer_env =
  ie_os :: os_env
  ie_json :: json_lib
  ie_digest :: "'c digest_lib"

subsection \<open>Paths and small files\<close>

definition kManagedComponents :: "string list" where
  "kManagedComponents = [''installer'', ''agent'', ''server'']"

record component_paths =
  cp_component_root :: string
  cp_releases_root :: string
  cp_staging_root :: string
  cp_var_root :: string
  cp_active_version_path :: string
  cp_previous_version_path :: string

definition BuildPaths :: "string \<Rightarrow> string \<Rightarrow> component_paths" where
  "BuildPaths root component =
     (let component_root = path_append root component in
      \<lparr>cp_component_root = component_root,
       cp_releases_root = path_append component_root ''releases'',
       cp_staging_root = path_append component_root ''.staging'',
       cp_var_root = path_append component_root ''var'',
       cp_active_version_path = path_append (path_append component_root ''var'') ''active-version'',
       cp_previous_version_path = path_append (path_append component_root ''var'') ''previous-version''\<rparr>)"

definition IsSafeVersionString :: "string \<Rightarrow> bool" where
  "IsSafeVersionString version \<longleftrightarrow>
     version \<noteq> [] \<and> version \<noteq> ''.'' \<and> version \<noteq> ''..'' \<and>
     CHR ''/'' \<notin> set version \<and> CHR 0x5C \<notin> set version"

fun has_symlink_below :: "os_env \<Rightarrow> file_system \<Rightarrow> string \<Rightarrow> string list \<Rightarrow> bool result" where
  "has_symlink_below os fs current [] = Inr False"
| "has_symlink_below os fs current (part # parts) =
     (let current = path_append current part in
      bind_res (symlink_status os fs current) (\<lambda>status.
        if is_symlink_node status then Inr True else has_symlink_below os fs current parts))"

definition HasSymlinkInPackagePath :: "os_env \<Rightarrow> file_system \<Rightarrow> string \<Rightarrow> string \<Rightarrow> bool result" where
  "HasSymlinkInPackagePath os fs package_dir relative_path =
     has_symlink_below os fs package_dir (path_parts relative_path)"

definition LauncherTemplatePath :: "string \<Rightarrow> string result" where
  "LauncherTemplatePath installer_release_dir =
     bind_res (BinaryNameForArtifact kLauncher) (\<lambda>name.
       Inr (path_append (path_append installer_release_dir ''bin'') name))"

definition LauncherStubPath :: "string \<Rightarrow> string \<Rightarrow> string result" where
  "LauncherStubPath root component =
     bind_res (BinaryNameForComponent component) (\<lambda>name.
       Inr (path_append (path_append (path_append root component) ''bin'') name))"

subsection \<open>Validating a release\<close>

record release_validation =
  rv_ok :: bool
  rv_version :: string
  rv_message :: string

definition invalid_release :: "string \<Rightarrow> string \<Rightarrow> release_validation" where
  "invalid_release version message = \<lparr>rv_ok = False, rv_version = version, rv_message = message\<rparr>"

definition ValidateInstallerLauncherAssets :: "os_env \<Rightarrow> file_system \<Rightarrow> string \<Rightarrow> string option result" where
  "ValidateInstallerLauncherAssets os fs installer_release_dir =
     bind_res (LauncherTemplatePath installer_release_dir) (\<lambda>asset_path.
     bind_res (symlink_status os fs asset_path) (\<lambda>status.
       if is_symlink_node status then Inr (Some (''launcher asset is symlink: '' @ asset_path))
       else if \<not> is_regular_node status then Inr (Some (''launcher asset missing: '' @ asset_path))
       else bind_res (IsLaunchableProgram os fs asset_path) (\<lambda>launchable.
         if \<not> launchable then Inr (Some (''launcher asset is not launchable: '' @ asset_path))
         else Inr None)))"

definition LoadManifest :: "'c installer_env \<Rightarrow> file_system \<Rightarrow> string \<Rightarrow> manifest result" where
  "LoadManifest ie fs manifest_path =
     bind_res (option_res (Runtime_error (''failed to open file: '' @ manifest_path))
                (read_file (ie_os ie) fs manifest_path))
       (\<lambda>contents. ParseManifestJson (ie_json ie) (string_of_bytes contents))"

text \<open>The checks of one file of a release; \<open>None\<close> when they pass.\<close>

definition check_release_file ::
    "'c installer_env \<Rightarrow> file_system \<Rightarrow> string \<Rightarrow> manifest_file \<Rightarrow> string option result" where
  "check_release_file ie fs release_dir f =
     (let os = ie_os ie; file_path = path_append release_dir (mf_target f) in
      bind_res (symlink_status os fs file_path) (\<lambda>status.
        if is_symlink_node status then Inr (Some (''release file is symlink: '' @ mf_target f))
        else if \<not> is_regular_node status then Inr (Some (''release file missing: '' @ mf_target f))
        else
          bind_res (file_size os fs file_path) (\<lambda>actual_size.
          if actual_size \<noteq> mf_size f then Inr (Some (''size mismatch: '' @ mf_target f))
          else
            bind_res (Sha256FileHex (ie_digest ie) file_path (read_file os fs file_path)) (\<lambda>digest.
            if digest \<noteq> mf_sha256 f then Inr (Some (''sha256 mismatch: '' @ mf_target f))
            else if \<not> mf_launchable f then Inr None
            else bind_res (IsLaunchableProgram os fs file_path) (\<lambda>launchable.
              if \<not> launchable then Inr (Some (''launchable mismatch: '' @ mf_target f)) else Inr None)))))"

fun check_release_files ::
    "'c installer_env \<Rightarrow> file_system \<Rightarrow> string \<Rightarrow> manifest_file list \<Rightarrow> string option result" where
  "check_release_files ie fs release_dir [] = Inr None"
| "check_release_files ie fs release_dir (f # files) =
     bind_res (check_release_file ie fs release_dir f) (\<lambda>problem.
       case problem of
         Some message \<Rightarrow> Inr (Some message)
       | None \<Rightarrow> check_release_files ie fs release_dir files)"

definition manifest_path_in :: "string \<Rightarrow> string" where
  "manifest_path_in dir = path_append (path_append dir ''META'') ''manifest.json''"

definition ValidateReleaseDirectory ::
    "'c installer_env \<Rightarrow> file_system \<Rightarrow> string \<Rightarrow> string \<Rightarrow> release_validation result" where
  "ValidateReleaseDirectory ie fs release_dir component =
     (let os = ie_os ie; manifest_path = manifest_path_in release_dir in
      bind_res (fs_exists os fs manifest_path) (\<lambda>present.
        if \<not> present then Inr (invalid_release (path_filename release_dir) ''manifest missing'')
        else case LoadManifest ie fs manifest_path of
          Inl ex \<Rightarrow> Inr (invalid_release (path_filename release_dir) (what ex))
        | Inr manifest \<Rightarrow>
            if mn_component manifest \<noteq> component
            then Inr (invalid_release (mn_version manifest) ''manifest component mismatch'')
            else if mn_version manifest \<noteq> path_filename release_dir
            then Inr (invalid_release (mn_version manifest) ''manifest version mismatch'')
            else
              bind_res (check_release_files ie fs release_dir (mn_files manifest)) (\<lambda>problem.
              case problem of
                Some message \<Rightarrow> Inr (invalid_release (mn_version manifest) message)
              | None \<Rightarrow>
                  bind_res (if component = ''installer''
                            then ValidateInstallerLauncherAssets os fs release_dir else Inr None)
                    (\<lambda>launcher_error.
                    case launcher_error of
                      Some message \<Rightarrow> Inr (invalid_release (mn_version manifest) message)
                    | None \<Rightarrow> Inr \<lparr>rv_ok = True, rv_version = mn_version manifest, rv_message = []\<rparr>))))"

datatype active_release_state = kMissing | kHealthy | kCorrupt

record active_release_info =
  ri_state :: active_release_state
  ri_version :: string
  ri_message :: string

definition InspectActiveRelease ::
    "'c installer_env \<Rightarrow> file_system \<Rightarrow> component_paths \<Rightarrow> string \<Rightarrow> active_release_info result" where
  "InspectActiveRelease ie fs paths component =
     (let os = ie_os ie in
      bind_res (fs_exists os fs (cp_active_version_path paths)) (\<lambda>present.
        if \<not> present then Inr \<lparr>ri_state = kMissing, ri_version = [], ri_message = []\<rparr>
        else case ReadFileTrimmed os fs (cp_active_version_path paths) of
          Inl ex \<Rightarrow> Inr \<lparr>ri_state = kCorrupt, ri_version = [], ri_message = what ex\<rparr>
        | Inr version \<Rightarrow>
            if \<not> IsSafeVersionString version
            then Inr \<lparr>ri_state = kCorrupt, ri_version = [], ri_message = ''active-version is invalid''\<rparr>
            else
              let release_dir = path_append (cp_releases_root paths) version in
              bind_res (fs_exists os fs release_dir) (\<lambda>present.
              bind_res (if present then fs_is_directory os fs release_dir else Inr False) (\<lambda>directory.
              if \<not> directory
              then Inr \<lparr>ri_state = kCorrupt, ri_version = version, ri_message = ''active release missing''\<rparr>
              else
                bind_res (ValidateReleaseDirectory ie fs release_dir component) (\<lambda>validation.
                if \<not> rv_ok validation
                then Inr \<lparr>ri_state = kCorrupt, ri_version = rv_version validation,
                          ri_message = rv_message validation\<rparr>
                else Inr \<lparr>ri_state = kHealthy, ri_version = rv_version validation,
                          ri_message = []\<rparr>)))))"


subsection \<open>Writing releases, version files and launcher stubs\<close>

definition WriteVersionFile :: "os_env \<Rightarrow> string \<Rightarrow> string \<Rightarrow> unit act" where
  "WriteVersionFile os path version =
     act_bind (act_change (\<lambda>fs. create_directories os fs (parent_path path))) (\<lambda>_.
     let temp_path = path @ ''.tmp'' in
     act_bind (WriteTextFile os temp_path (version @ [CHR 0x0A])) (\<lambda>_.
       act_catch (act_change (\<lambda>fs. rename_path os fs temp_path path))
         (\<lambda>rename_error.
           act_bind (quietly (act_change (\<lambda>fs. remove_file os fs path))) (\<lambda>_.
           act_change (\<lambda>fs. rename_path os fs temp_path path)))))"

definition stage_file ::
    "'c installer_env \<Rightarrow> string \<Rightarrow> string \<Rightarrow> manifest_file \<Rightarrow> unit act" where
  "stage_file ie package_dir staging_dir f =
     (let os = ie_os ie; source_path = path_append package_dir (mf_source f);
          destination = path_append staging_dir (mf_target f) in
      act_bind (act_read (\<lambda>fs. HasSymlinkInPackagePath os fs package_dir (mf_source f))) (\<lambda>uses_symlink.
      if uses_symlink then act_throw (Runtime_error (''source path uses symlink: '' @ mf_source f))
      else
      act_bind (act_read (\<lambda>fs. symlink_status os fs source_path)) (\<lambda>source_status.
      if is_symlink_node source_status
      then act_throw (Runtime_error (''source is symlink: '' @ mf_source f))
      else if \<not> is_regular_node source_status
      then act_throw (Runtime_error (''source file missing: '' @ mf_source f))
      else
      act_bind (act_read (\<lambda>fs. file_size os fs source_path)) (\<lambda>size.
      if size \<noteq> mf_size f then act_throw (Runtime_error (''size mismatch: '' @ mf_source f))
      else
      act_bind (act_read (\<lambda>fs. Sha256FileHex (ie_digest ie) source_path (read_file os fs source_path)))
        (\<lambda>digest.
      if digest \<noteq> mf_sha256 f then act_throw (Runtime_error (''sha256 mismatch: '' @ mf_source f))
      else
      act_bind (act_change (\<lambda>fs. create_directories os fs (parent_path destination))) (\<lambda>_.
      act_bind (act_change (\<lambda>fs. copy_file os fs source_path destination)) (\<lambda>_.
      SetExecutable os destination (mf_launchable f))))))))"

definition StageRelease ::
    "'c installer_env \<Rightarrow> string \<Rightarrow> string \<Rightarrow> manifest \<Rightarrow> unit act" where
  "StageRelease ie package_dir staging_dir m =
     (let os = ie_os ie; manifest_destination = manifest_path_in staging_dir in
      act_bind (act_change (\<lambda>fs. remove_all os fs staging_dir)) (\<lambda>_.
      act_bind (act_change (\<lambda>fs. create_directories os fs staging_dir)) (\<lambda>_.
      act_bind (act_each (stage_file ie package_dir staging_dir) (mn_files m)) (\<lambda>_.
      act_bind (act_change (\<lambda>fs. create_directories os fs (parent_path manifest_destination))) (\<lambda>_.
      act_change (\<lambda>fs. copy_file os fs (manifest_path_in package_dir) manifest_destination))))))"

definition ResolveInstallerVersionForPackage ::
    "'c installer_env \<Rightarrow> file_system \<Rightarrow> string \<Rightarrow> manifest \<Rightarrow> string result" where
  "ResolveInstallerVersionForPackage ie fs root m =
     (if mn_component m = ''installer'' then Inr (mn_version m)
      else
        bind_res (InspectActiveRelease ie fs (BuildPaths root ''installer'') ''installer'')
          (\<lambda>installer_release.
          if ri_state installer_release = kMissing
          then Inl (Runtime_error ''active installer release is not installed'')
          else if ri_state installer_release = kCorrupt
          then Inl (Runtime_error (''active installer release is corrupt: '' @
                                   ri_message installer_release))
          else case ParseSemver3 (ri_version installer_release) of
            None \<Rightarrow> Inl (Runtime_error (''active installer version is invalid: '' @
                                          ri_version installer_release))
          | Some actual_version \<Rightarrow>
              (case ParseSemver3 (mn_min_installer_version m) of
                 None \<Rightarrow> Inl (Runtime_error (''package min_installer_version is invalid: '' @
                                               mn_min_installer_version m))
               | Some minimum_version \<Rightarrow>
                   if semver3_less actual_version minimum_version
                   then Inl (Runtime_error (''active installer version '' @ ri_version installer_release @
                          '' does not satisfy min_installer_version '' @ mn_min_installer_version m))
                   else Inr (ri_version installer_release))))"

definition copy_dependency :: "os_env \<Rightarrow> string \<Rightarrow> string \<Rightarrow> string \<Rightarrow> unit act" where
  "copy_dependency os release_bin_dir stub_dir name =
     (let entry = path_append release_bin_dir name in
      act_bind (act_read (\<lambda>fs. symlink_status os fs entry)) (\<lambda>status.
        if \<not> is_regular_node status \<or> path_extension entry \<noteq> ''.dll'' then act_return ()
        else act_change (\<lambda>fs. copy_file os fs entry (path_append stub_dir (path_filename entry)))))"

definition CopyLauncherRuntimeDependencies :: "os_env \<Rightarrow> string \<Rightarrow> string \<Rightarrow> unit act" where
  "CopyLauncherRuntimeDependencies os installer_release_dir stub_dir =
     (let release_bin_dir = path_append installer_release_dir ''bin'' in
      act_bind (act_read (\<lambda>fs. fs_exists os fs release_bin_dir)) (\<lambda>present.
      act_bind (act_read (\<lambda>fs. if present then fs_is_directory os fs release_bin_dir else Inr False))
        (\<lambda>directory.
        if \<not> directory then act_return ()
        else
          act_bind (act_change (\<lambda>fs. create_directories os fs stub_dir)) (\<lambda>_.
          act_bind (act_read (\<lambda>fs. directory_names os fs release_bin_dir))
            (act_each (copy_dependency os release_bin_dir stub_dir))))))"

definition EnsureLauncherStub :: "os_env \<Rightarrow> string \<Rightarrow> string \<Rightarrow> string \<Rightarrow> unit act" where
  "EnsureLauncherStub os root installer_version component =
     (let installer_release_dir =
            path_append (cp_releases_root (BuildPaths root ''installer'')) installer_version in
      act_bind (act_read (\<lambda>fs. LauncherTemplatePath installer_release_dir)) (\<lambda>asset_path.
      act_bind (act_read (\<lambda>fs. symlink_status os fs asset_path)) (\<lambda>asset_status.
        if \<not> is_regular_node asset_status
        then act_throw (Runtime_error (''launcher asset missing: '' @ asset_path))
        else
          act_bind (act_read (\<lambda>fs. LauncherStubPath root component)) (\<lambda>stub_path.
          act_bind (act_change (\<lambda>fs. create_directories os fs (parent_path stub_path))) (\<lambda>_.
          act_bind (act_change (\<lambda>fs. copy_file os fs asset_path stub_path)) (\<lambda>_.
          act_bind (SetExecutable os stub_path True) (\<lambda>_.
          CopyLauncherRuntimeDependencies os installer_release_dir (parent_path stub_path))))))))"

definition EnsureLauncherStubs :: "os_env \<Rightarrow> string \<Rightarrow> string \<Rightarrow> string list \<Rightarrow> unit act" where
  "EnsureLauncherStubs os root installer_version components =
     act_each (EnsureLauncherStub os root installer_version) components"

definition ShouldRecordPreviousVersion :: "active_release_info \<Rightarrow> string \<Rightarrow> bool" where
  "ShouldRecordPreviousVersion active_release next_version \<longleftrightarrow>
     ri_state active_release = kHealthy \<and> ri_version active_release \<noteq> next_version"

definition SwitchActiveVersion ::
    "os_env \<Rightarrow> component_paths \<Rightarrow> active_release_info \<Rightarrow> string \<Rightarrow> unit act" where
  "SwitchActiveVersion os paths active_release next_version =
     act_bind (if ShouldRecordPreviousVersion active_release next_version
               then WriteVersionFile os (cp_previous_version_path paths) (ri_version active_release)
               else act_return ()) (\<lambda>_.
     WriteVersionFile os (cp_active_version_path paths) next_version)"

subsection \<open>Applying a package\<close>

record apply_result =
  ap_ok :: bool
  ap_component :: string
  ap_version :: string
  ap_message :: string

definition apply_failure :: "string \<Rightarrow> apply_result" where
  "apply_failure message =
     \<lparr>ap_ok = False, ap_component = [], ap_version = [], ap_message = message\<rparr>"

text \<open>The components whose stubs a switch of \<open>component\<close> renews, with the installer they come from.\<close>

definition refresh_stubs :: "os_env \<Rightarrow> string \<Rightarrow> string \<Rightarrow> string \<Rightarrow> string \<Rightarrow> unit act" where
  "refresh_stubs os root component version installer_version =
     (if component = ''installer'' then EnsureLauncherStubs os root version kManagedComponents
      else EnsureLauncherStubs os root installer_version [component])"

definition install_staged ::
    "'c installer_env \<Rightarrow> string \<Rightarrow> string \<Rightarrow> manifest \<Rightarrow> active_release_info \<Rightarrow> string \<Rightarrow> unit act" where
  "install_staged ie root package_dir m active_release installer_version =
     (let os = ie_os ie; paths = BuildPaths root (mn_component m);
          release_dir = path_append (cp_releases_root paths) (mn_version m);
          staging_dir = path_append (cp_staging_root paths) (mn_version m) in
      act_bind (StageRelease ie package_dir staging_dir m) (\<lambda>_.
      act_bind (act_read (\<lambda>fs. if mn_component m = ''installer''
                               then ValidateInstallerLauncherAssets os fs staging_dir
                               else Inr None)) (\<lambda>launcher_error.
      case launcher_error of
        Some message \<Rightarrow> act_throw (Runtime_error message)
      | None \<Rightarrow>
          act_bind (act_change (\<lambda>fs. create_directories os fs (cp_releases_root paths))) (\<lambda>_.
          act_bind (act_change (\<lambda>fs. rename_path os fs staging_dir release_dir)) (\<lambda>_.
          act_bind (SwitchActiveVersion os paths active_release (mn_version m)) (\<lambda>_.
          refresh_stubs os root (mn_component m) (mn_version m) installer_version))))))"

text \<open>The body of the outer \<open>try\<close>.\<close>

definition apply_directory ::
    "'c installer_env \<Rightarrow> string \<Rightarrow> string \<Rightarrow> apply_result act" where
  "apply_directory ie root package_dir =
     (let os = ie_os ie in
      act_bind (act_read (\<lambda>fs. fs_exists os fs package_dir)) (\<lambda>present.
      act_bind (act_read (\<lambda>fs. if present then fs_is_directory os fs package_dir else Inr False))
        (\<lambda>directory.
      if \<not> directory then act_throw (Runtime_error ''package must be a directory'')
      else
      act_bind (act_read (\<lambda>fs. LoadManifest ie fs (manifest_path_in package_dir))) (\<lambda>m.
      let paths = BuildPaths root (mn_component m);
          release_dir = path_append (cp_releases_root paths) (mn_version m);
          staging_dir = path_append (cp_staging_root paths) (mn_version m) in
      act_bind (act_read (\<lambda>fs. InspectActiveRelease ie fs paths (mn_component m))) (\<lambda>active_release.
      act_bind (act_read (\<lambda>fs. ResolveInstallerVersionForPackage ie fs root m)) (\<lambda>installer_version.
      act_bind (act_read (\<lambda>fs. fs_exists os fs release_dir)) (\<lambda>installed.
      if installed then
        act_bind (act_read (\<lambda>fs. ValidateReleaseDirectory ie fs release_dir (mn_component m)))
          (\<lambda>validation.
        if \<not> rv_ok validation
        then act_return \<lparr>ap_ok = False, ap_component = mn_component m, ap_version = mn_version m,
                         ap_message = ''existing release is unhealthy: '' @ rv_message validation\<rparr>
        else
          act_bind (SwitchActiveVersion os paths active_release (mn_version m)) (\<lambda>_.
          act_bind (refresh_stubs os root (mn_component m) (mn_version m) installer_version) (\<lambda>_.
          act_return \<lparr>ap_ok = True, ap_component = mn_component m, ap_version = mn_version m,
                      ap_message = ''release already installed''\<rparr>)))
      else
        act_bind (act_catch (install_staged ie root package_dir m active_release installer_version)
                    (\<lambda>ex. act_bind (quietly (act_change (\<lambda>fs. remove_all os fs staging_dir))) (\<lambda>_. act_throw ex))) (\<lambda>_.
        act_return \<lparr>ap_ok = True, ap_component = mn_component m, ap_version = mn_version m,
                    ap_message = ''applied''\<rparr>))))))))"

definition ApplyPackageDirectory ::
    "'c installer_env \<Rightarrow> string \<Rightarrow> string \<Rightarrow> apply_result act" where
  "ApplyPackageDirectory ie root package_dir =
     act_catch (apply_directory ie root package_dir)
       (\<lambda>ex. act_return (apply_failure (what ex)))"


text \<open>
  \<open>ApplyPackage\<close> extracts an archive into a temporary directory first.  \<open>None\<close> is an extraction that
  does not return, which only the compression library could cause.  What a failed extraction left
  below the temporary directory goes with the directory, which the destructor removes; so the model
  starts the destructor from the files as they were before.
\<close>

definition ApplyPackage ::
    "('d, 'i) zlib \<Rightarrow> 'c installer_env \<Rightarrow> nat \<Rightarrow> string \<Rightarrow> string \<Rightarrow> file_system \<Rightarrow>
       (apply_result result \<times> file_system) option" where
  "ApplyPackage zl ie counter root package_path fs =
     (let os = ie_os ie in
      case bind_res (fs_exists os fs package_path) (\<lambda>present.
             if present then fs_is_directory os fs package_path else Inr False) of
        Inl e \<Rightarrow> Some (Inl e, fs)
      | Inr True \<Rightarrow> Some (ApplyPackageDirectory ie root package_path fs)
      | Inr False \<Rightarrow>
          if \<not> IsArchivePath package_path
          then Some (Inr (apply_failure ''package must be a directory or .zip archive''), fs)
          else
            (case ScopedTempDir os counter ''zfleet-installer'' fs of
               (Inl ex, fs) \<Rightarrow> Some (Inr (apply_failure (what ex)), fs)
             | (Inr temp_dir, fs) \<Rightarrow>
                 (case ExtractArchive zl os fs package_path (td_path temp_dir) True of
                    None \<Rightarrow> None
                  | Some (Inl ex) \<Rightarrow>
                      Some (act_bind (DestroyScopedTempDir os temp_dir)
                              (\<lambda>_. act_return (apply_failure (what ex))) fs)
                  | Some (Inr fs) \<Rightarrow>
                      Some (act_bind (ApplyPackageDirectory ie root (td_path temp_dir)) (\<lambda>applied.
                            act_bind (DestroyScopedTempDir os temp_dir) (\<lambda>_. act_return applied)) fs))))"

subsection \<open>Rollback and status\<close>

record rollback_result =
  rb_ok :: bool
  rb_component :: string
  rb_from_version :: string
  rb_to_version :: string
  rb_message :: string

definition MakeRollbackFailure :: "string \<Rightarrow> string \<Rightarrow> string \<Rightarrow> string \<Rightarrow> rollback_result" where
  "MakeRollbackFailure component from_version to_version message =
     \<lparr>rb_ok = False, rb_component = component, rb_from_version = from_version,
      rb_to_version = to_version, rb_message = message\<rparr>"

text \<open>The manifest that stands for the release rolled back to: a component, a version, no files.\<close>

definition rollback_manifest :: "string \<Rightarrow> string \<Rightarrow> manifest" where
  "rollback_manifest component version =
     \<lparr>mn_schema_version = 0, mn_component = component, mn_version = version, mn_platform = [],
      mn_arch = [], mn_build_type = [], mn_min_installer_version = ''0.0.0'', mn_files = []\<rparr>"

definition switch_back ::
    "'c installer_env \<Rightarrow> string \<Rightarrow> string \<Rightarrow> string \<Rightarrow> string \<Rightarrow> unit act" where
  "switch_back ie root component active_version previous_version =
     (let os = ie_os ie; paths = BuildPaths root component in
      act_bind (WriteVersionFile os (cp_previous_version_path paths) active_version) (\<lambda>_.
      act_bind (WriteVersionFile os (cp_active_version_path paths) previous_version) (\<lambda>_.
      act_bind (act_read (\<lambda>fs. if component = ''installer'' then Inr previous_version
                 else ResolveInstallerVersionForPackage ie fs root
                        (rollback_manifest component previous_version))) (\<lambda>installer_version.
      if component = ''installer''
      then EnsureLauncherStubs os root installer_version kManagedComponents
      else EnsureLauncherStubs os root installer_version [component]))))"

definition RollbackComponent ::
    "'c installer_env \<Rightarrow> string \<Rightarrow> string \<Rightarrow> rollback_result act" where
  "RollbackComponent ie root component =
     (let os = ie_os ie; component_validation = ValidateComponent component in
      if \<not> vr_ok component_validation
      then act_throw (Invalid_argument (''invalid component: '' @ vr_message component_validation))
      else
      let paths = BuildPaths root component in
      act_bind (act_read (\<lambda>fs. InspectActiveRelease ie fs paths component)) (\<lambda>active_release.
      let version = ri_version active_release in
      if ri_state active_release = kMissing
      then act_return (MakeRollbackFailure component [] [] ''active release is not installed'')
      else if ri_state active_release = kCorrupt
      then act_return (MakeRollbackFailure component version []
             (''active release is corrupt: '' @ ri_message active_release))
      else
      act_bind (act_read (\<lambda>fs. fs_exists os fs (cp_previous_version_path paths))) (\<lambda>present.
      if \<not> present
      then act_return (MakeRollbackFailure component version [] ''previous-version is missing'')
      else
      act_bind (act_read (\<lambda>fs. Inr (ReadFileTrimmed os fs (cp_previous_version_path paths)))) (\<lambda>contents.
      case contents of
        Inl ex \<Rightarrow> act_return (MakeRollbackFailure component version [] (what ex))
      | Inr previous_version \<Rightarrow>
      if \<not> IsSafeVersionString previous_version
      then act_return (MakeRollbackFailure component version previous_version
             ''previous-version is invalid'')
      else if previous_version = version
      then act_return (MakeRollbackFailure component version previous_version
             ''previous-version matches active-version'')
      else
      let previous_release_dir = path_append (cp_releases_root paths) previous_version in
      act_bind (act_read (\<lambda>fs. fs_exists os fs previous_release_dir)) (\<lambda>present.
      act_bind (act_read (\<lambda>fs. if present then fs_is_directory os fs previous_release_dir else Inr False))
        (\<lambda>directory.
      if \<not> directory
      then act_return (MakeRollbackFailure component version previous_version
             ''previous release missing'')
      else
      act_bind (act_read (\<lambda>fs. ValidateReleaseDirectory ie fs previous_release_dir component))
        (\<lambda>validation.
      if \<not> rv_ok validation
      then act_return (MakeRollbackFailure component version previous_version
             (''previous release is unhealthy: '' @ rv_message validation))
      else
      act_catch
        (act_bind (switch_back ie root component version previous_version) (\<lambda>_.
         act_return \<lparr>rb_ok = True, rb_component = component, rb_from_version = version,
                     rb_to_version = previous_version, rb_message = ''rolled back''\<rparr>))
        (\<lambda>ex. act_return (MakeRollbackFailure component version previous_version (what ex))))))))))"

record status_result =
  st_component :: string
  st_state :: string
  st_version :: "string option"
  st_message :: "string option"

definition GetStatus :: "'c installer_env \<Rightarrow> file_system \<Rightarrow> string \<Rightarrow> string \<Rightarrow> status_result result" where
  "GetStatus ie fs root component =
     (let component_validation = ValidateComponent component in
      if \<not> vr_ok component_validation
      then Inl (Invalid_argument (''invalid component: '' @ vr_message component_validation))
      else
        bind_res (InspectActiveRelease ie fs (BuildPaths root component) component)
          (\<lambda>active_release. Inr
            (if ri_state active_release = kMissing
             then \<lparr>st_component = component, st_state = ''not_installed'', st_version = None,
                   st_message = None\<rparr>
             else if ri_state active_release = kCorrupt
             then \<lparr>st_component = component, st_state = ''corrupt'',
                   st_version = (if ri_version active_release = [] then None
                                 else Some (ri_version active_release)),
                   st_message = Some (ri_message active_release)\<rparr>
             else \<lparr>st_component = component, st_state = ''installed'',
                   st_version = Some (ri_version active_release), st_message = None\<rparr>)))"

end
