(* ===== verification/Installer_Apply.thy ===== *)
theory Installer_Apply
  imports Installer File_Frames
begin

section \<open>Applying and rolling back: what changes, what does not\<close>

text \<open>
  The installer on a file system without links.  Whatever the package is and however the operation
  ends, it changes only the staging directory, the version files and the launcher stubs of managed
  components, and release directories that were not there before.
\<close>

subsection \<open>The paths of a component\<close>

lemma simple_names [simp]:
  "IsKnownComponent c \<Longrightarrow> simple_name c" "IsSafePathSegment v \<Longrightarrow> simple_name v"
  "IsSafeVersionString v \<Longrightarrow> simple_name v"
  "simple_name ''releases''" "simple_name ''.staging''" "simple_name ''var''" "simple_name ''bin''"
  "simple_name ''active-version''" "simple_name ''previous-version''" "simple_name ''META''"
  "simple_name ''manifest.json''" "simple_name ''installer''" "simple_name ''zfleet_launcher''"
proof -
  have "\<not> (isalnum (CHR ''/'') \<or> CHR ''/'' = CHR ''.'' \<or> CHR ''/'' = CHR ''_'' \<or> CHR ''/'' = CHR ''-'')"
    by (simp add: char_classes)
  then show "IsSafePathSegment v \<Longrightarrow> simple_name v"
    unfolding IsSafePathSegment_def simple_name_def list_all_iff by metis
qed (auto simp: simple_name_def IsKnownComponent_def IsSafeVersionString_def)

lemma BuildPaths_simps [simp]:
  "cp_releases_root (BuildPaths root c) = path_append (path_append root c) ''releases''"
  "cp_staging_root (BuildPaths root c) = path_append (path_append root c) ''.staging''"
  "cp_active_version_path (BuildPaths root c) =
     path_append (path_append (path_append root c) ''var'') ''active-version''"
  "cp_previous_version_path (BuildPaths root c) =
     path_append (path_append (path_append root c) ''var'') ''previous-version''"
  by (simp_all add: BuildPaths_def Let_def)

lemma launcher_template [simp]:
  "LauncherTemplatePath dir = Inr (path_append (path_append dir ''bin'') ''zfleet_launcher'')"
  by (simp add: LauncherTemplatePath_def BinaryNameForExecutableStem_def ValidatePathSegment_def
      IsSafePathSegment_def Let_def char_classes)

lemma launcher_stub:
  assumes "IsKnownComponent c"
  shows "LauncherStubPath root c =
    Inr (path_append (path_append (path_append root c) ''bin'') (''zfleet_'' @ c))"
  using assms by (simp add: LauncherStubPath_def BinaryNameForComponent_def ValidateComponent_def Let_def)

lemma simple_binary_name: "IsKnownComponent c \<Longrightarrow> simple_name (''zfleet_'' @ c)"
  by (auto simp: IsKnownComponent_def simple_name_def)

lemmas simple_binary_name_simp [simp] = simple_binary_name [simplified]

lemma managed_components: "c \<in> set kManagedComponents \<longleftrightarrow> IsKnownComponent c"
  by (auto simp: kManagedComponents_def IsKnownComponent_def)

subsection \<open>The region an operation may change\<close>

definition install_region :: "os_env \<Rightarrow> string \<Rightarrow> file_system \<Rightarrow> fs_path \<Rightarrow> bool" where
  "install_region env root fs p \<longleftrightarrow>
     (\<exists>c below. IsKnownComponent c \<and> p = place env root @ c # below \<and>
        (prefix [''.staging''] below \<or> prefix [''bin''] below \<or>
         (\<exists>name\<in>{''active-version'', ''active-version.tmp'', ''previous-version'', ''previous-version.tmp''}.
            prefix [''var'', name] below) \<or>
         (\<exists>version. prefix [''releases'', version] below \<and>
                    fs (place env root @ [c, ''releases'', version]) = None)))"

lemma region_intros:
  assumes "IsKnownComponent c"
  shows "covers (install_region env root fs) (place env root @ [c, ''.staging''])"
    and "covers (install_region env root fs) (place env root @ [c, ''bin''])"
    and "name \<in> {''active-version'', ''active-version.tmp'', ''previous-version'', ''previous-version.tmp''} \<Longrightarrow>
         covers (install_region env root fs) (place env root @ [c, ''var'', name])"
    and "fs (place env root @ [c, ''releases'', version]) = None \<Longrightarrow>
         covers (install_region env root fs) (place env root @ [c, ''releases'', version])"
  using assms by (auto simp: covers_def install_region_def prefix_def)

lemma confined_version_file:
  assumes "file_path path" "honest_listing env" "\<not> R (oe_cwd env)"
    "covers R (place env path)" "covers R (place env (path @ ''.tmp''))"
  shows "confined env R (WriteVersionFile env path version)"
proof -
  have tmp: "file_path (path @ ''.tmp'')"
    by (rule extended_path(2)) (simp_all add: assms(1))
  have "butlast (place env path) = butlast (place env (path @ ''.tmp''))"
    using extended_place [OF assms(1), of "''.tmp''" env] by simp
  then have dirs: "prefix (place env (parent_path path)) (place env path)"
    "prefix (place env (parent_path (path @ ''.tmp''))) (place env path)"
    using assms(1) tmp prefixeq_butlast [of "place env path"] by simp_all
  have "\<not> prefix (place env path) (oe_cwd env)" "\<not> prefix (place env (path @ ''.tmp'')) (oe_cwd env)"
    using assms(3-5) coversD by blast+
  then show ?thesis
    unfolding WriteVersionFile_def WriteTextFile_def Let_def
    using assms dirs tmp
    by (intro confined_bind confined_catch confined_quietly)
      (auto intro!: confined_directories [where q = "place env path"] confined_write confined_rename
        confined_remove_file intro: covers_self coversD)
qed


lemma safe_relative_names:
  assumes "safe_relative p"
  shows "p \<noteq> []" "\<not> is_absolute p" "last p \<noteq> CHR ''/''" "plain_names (path_names p)"
    "join_with (CHR ''/'') (path_names p) = p" "path_names p \<noteq> []"
proof -
  let ?ps = "relative_pieces p"
  from assms ValidateRelativePath_ok_iff [of p "ValidateRelativePath p"]
  have n: "NormalizePathSeparators p \<noteq> []" "hd (NormalizePathSeparators p) \<noteq> CHR ''/''"
    and dots: "''.'' \<notin> set ?ps" "''..'' \<notin> set ?ps"
    and r: "ValidateRelativePath p = \<lparr>vs_ok = True, vs_value = join_with (CHR ''/'') ?ps, vs_message = []\<rparr>"
    by (simp_all add: safe_relative_def)
  have p: "p = join_with (CHR ''/'') ?ps"
    using assms r by (simp add: safe_relative_def)
  have ne: "?ps \<noteq> []"
    using first_piece_nonempty [OF n] by (simp add: relative_pieces_def)
  have good: "good_names ?ps"
    using relative_pieces_props [of _ p] by (auto simp: good_names_def)
  have names: "path_names p = ?ps"
    by (subst p, rule path_names_join) (use good in \<open>simp add: good_names_def\<close>)
  show "plain_names (path_names p)" "path_names p \<noteq> []"
    using dots ne by (auto simp: names plain_names_def list_all_iff)
  show "join_with (CHR ''/'') (path_names p) = p"
    using p names by simp
  have "p \<noteq> [] \<and> hd p \<noteq> CHR ''/''"
    using hd_join [OF good ne] p by simp
  then show "p \<noteq> []" "\<not> is_absolute p"
    by (simp_all add: is_absolute_def)
  show "last p \<noteq> CHR ''/''"
  proof
    assume "last p = CHR ''/''"
    then obtain q where "p = q @ CHR ''/'' # []"
      using \<open>p \<noteq> [] \<and> hd p \<noteq> CHR ''/''\<close> by (metis append_butlast_last_id)
    then have "split_on (CHR ''/'') p = split_on (CHR ''/'') q @ [[]]"
      using split_on_join [of "CHR ''/''" q "[]"] by simp
    moreover have "split_on (CHR ''/'') p = ?ps"
      by (subst p, rule split_join_with [OF ne]) (use good in \<open>auto simp: good_names_def\<close>)
    ultimately have "[] \<in> set ?ps" by (metis in_set_conv_decomp)
    then show False using good by (auto simp: good_names_def)
  qed
qed

lemma safe_relative_inj:
  "safe_relative p \<Longrightarrow> safe_relative q \<Longrightarrow> path_names p = path_names q \<Longrightarrow> p = q"
  using safe_relative_names(5) by metis

lemma file_path_relative [simp]:
  "plain_path d \<Longrightarrow> safe_relative p \<Longrightarrow> file_path (path_append d p)"
  by (simp add: file_path_append safe_relative_names)

lemma place_relative [simp]:
  "plain_path d \<Longrightarrow> safe_relative p \<Longrightarrow> place env (path_append d p) = place env d @ path_names p"
  by (simp add: place_append plain_path_def safe_relative_names)

subsection \<open>Everything stays in the region\<close>

lemma confined_parent:
  assumes "file_path p" "R (place env p)"
  shows "confined env R (act_change (\<lambda>fs. create_directories env fs (parent_path p)))"
  using assms prefixeq_butlast by (intro confined_directories [where q = "place env p"]) simp_all

lemma confined_here:
  assumes "plain_path p" "R (place env p)"
  shows "confined env R (act_change (\<lambda>fs. create_directories env fs p))"
  using assms by (intro confined_directories [where q = "place env p"]) simp_all

lemma confined_stage_file:
  assumes "plain_path package_dir" "plain_path staging" "valid_file f"
    "covers R (place (ie_os ie) staging)"
  shows "confined (ie_os ie) R (stage_file ie package_dir staging f)"
proof -
  let ?os = "ie_os ie" and ?dest = "path_append staging (mf_target f)"
  have safe: "safe_relative (mf_source f)" "safe_relative (mf_target f)"
    using assms(3) by (simp_all add: valid_file_def)
  then have r: "R (place ?os ?dest)"
    using assms(2,4) by (simp add: covers_def)
  have dirs: "confined ?os R (act_change (\<lambda>fs. create_directories ?os fs (parent_path ?dest)))"
    by (rule confined_parent) (use assms(2) safe r in simp_all)
  have copy: "confined ?os R (act_change (\<lambda>fs. copy_file ?os fs (path_append package_dir (mf_source f)) ?dest))"
    by (rule confined_copy) (use assms safe r in simp_all)
  have exec: "confined ?os R (SetExecutable ?os ?dest (mf_launchable f))"
    by (rule confined_set_executable) (use assms safe r in simp_all)
  show ?thesis
    unfolding stage_file_def Let_def
    by (auto intro!: confined_bind_read confined_bind dirs copy exec)
qed

lemma confined_StageRelease:
  assumes "plain_path package_dir" "file_path staging" "list_all valid_file (mn_files m)"
    "covers R (place (ie_os ie) staging)" "\<not> R (oe_cwd (ie_os ie))"
  shows "confined (ie_os ie) R (StageRelease ie package_dir staging m)"
proof -
  let ?os = "ie_os ie" and ?manifest = "manifest_path_in staging"
  have m: "file_path ?manifest" "place ?os ?manifest = place ?os staging @ [''META'', ''manifest.json'']"
    and src: "plain_path (manifest_path_in package_dir)"
    using assms(1,2) by (simp_all add: manifest_path_in_def)
  have r: "R (place ?os ?manifest)" "R (place ?os staging)"
    using assms(4) by (simp_all add: m covers_def)
  have remove: "confined ?os R (act_change (\<lambda>fs. remove_all ?os fs staging))"
    by (rule confined_remove_all) (use assms coversD in auto)
  have make: "confined ?os R (act_change (\<lambda>fs. create_directories ?os fs staging))"
    by (rule confined_here) (use assms r in simp_all)
  have files: "confined ?os R (act_each (stage_file ie package_dir staging) (mn_files m))"
    by (rule confined_each, rule confined_stage_file) (use assms in \<open>simp_all add: list_all_iff\<close>)
  have meta: "confined ?os R (act_change (\<lambda>fs. create_directories ?os fs (parent_path ?manifest)))"
    by (rule confined_parent) (use m r in simp_all)
  have copy: "confined ?os R (act_change (\<lambda>fs. copy_file ?os fs (manifest_path_in package_dir) ?manifest))"
    by (rule confined_copy) (use src m r in simp_all)
  show ?thesis
    unfolding StageRelease_def Let_def
    by (intro confined_bind remove make files meta copy)
qed

lemma confined_dependencies:
  assumes "plain_path release_dir" "plain_path stub_dir" "honest_listing env"
    "covers R (place env stub_dir)"
  shows "confined env R (CopyLauncherRuntimeDependencies env release_dir stub_dir)"
proof -
  let ?bin = "path_append release_dir ''bin''"
  have bin: "plain_path ?bin"
    using assms(1) by simp
  have dirs: "confined env R (act_change (\<lambda>fs. create_directories env fs stub_dir))"
    by (rule confined_here [OF assms(2)]) (rule covers_self [OF assms(4)])
  have copy: "confined env R (copy_dependency env ?bin stub_dir name)" if "simple_name name" for name
  proof -
    have "R (place env stub_dir @ [name])"
      using assms(4) by (simp add: covers_def)
    then show ?thesis
      unfolding copy_dependency_def Let_def
      using that bin assms(2) by (auto intro!: confined_bind_read confined_copy)
  qed
  have names: "simple_name name"
    if "directory_names env fs ?bin = Inr listing" "name \<in> set listing" for fs listing name
    using that assms(3)
    by (auto simp: directory_names_def honest_listing_def simple_name_def split: sum.splits)
  show ?thesis
    unfolding CopyLauncherRuntimeDependencies_def Let_def
    by (auto intro!: confined_bind_read confined_bind dirs confined_each copy intro: names)
qed

lemma confined_stub:
  assumes "plain_path root" "IsKnownComponent c" "simple_name version" "honest_listing env"
    "covers R (place env root @ [c, ''bin''])"
  shows "confined env R (EnsureLauncherStub env root version c)"
proof -
  let ?stub = "path_append (path_append (path_append root c) ''bin'') (''zfleet_'' @ c)"
  let ?dir = "path_append (cp_releases_root (BuildPaths root ''installer'')) version"
  have s: "file_path ?stub" "place env ?stub = place env root @ [c, ''bin''] @ [''zfleet_'' @ c]"
    using assms by simp_all
  then have r: "R (place env ?stub)"
    using assms(5) by (simp add: covers_def)
  have d: "plain_path ?dir"
    using assms(1,3) by simp
  have dirs: "confined env R (act_change (\<lambda>fs. create_directories env fs (parent_path ?stub)))"
    by (rule confined_parent) (use s r in simp_all)
  have copy: "confined env R (act_change (\<lambda>fs. copy_file env fs
      (path_append (path_append ?dir ''bin'') ''zfleet_launcher'') ?stub))"
    by (rule confined_copy) (use s r d in simp_all)
  have exec: "confined env R (SetExecutable env ?stub True)"
    by (rule confined_set_executable) (use s r in simp_all)
  have deps: "confined env R (CopyLauncherRuntimeDependencies env ?dir (parent_path ?stub))"
    by (rule confined_dependencies [OF d _ assms(4)])
      (use s assms(5) in \<open>simp_all add: butlast_append\<close>)
  show ?thesis
    unfolding EnsureLauncherStub_def Let_def launcher_stub [OF assms(2)] launcher_template
    by (auto intro!: confined_bind_read confined_bind dirs [simplified] copy [simplified]
        exec [simplified] deps [simplified])
qed


lemma version_file_places:
  assumes "plain_path root" "IsKnownComponent c"
  shows "place env (cp_active_version_path (BuildPaths root c)) = place env root @ [c, ''var'', ''active-version'']"
    and "place env (cp_active_version_path (BuildPaths root c) @ ''.tmp'') =
           place env root @ [c, ''var'', ''active-version.tmp'']"
    and "place env (cp_previous_version_path (BuildPaths root c)) = place env root @ [c, ''var'', ''previous-version'']"
    and "place env (cp_previous_version_path (BuildPaths root c) @ ''.tmp'') =
           place env root @ [c, ''var'', ''previous-version.tmp'']"
    and "file_path (cp_active_version_path (BuildPaths root c))"
    and "file_path (cp_previous_version_path (BuildPaths root c))"
proof -
  show a: "place env (cp_active_version_path (BuildPaths root c)) = place env root @ [c, ''var'', ''active-version'']"
    and p: "place env (cp_previous_version_path (BuildPaths root c)) = place env root @ [c, ''var'', ''previous-version'']"
    and fa: "file_path (cp_active_version_path (BuildPaths root c))"
    and fp: "file_path (cp_previous_version_path (BuildPaths root c))"
    using assms by simp_all
  show "place env (cp_active_version_path (BuildPaths root c) @ ''.tmp'') =
           place env root @ [c, ''var'', ''active-version.tmp'']"
    by (subst extended_place [OF fa]) (simp, simp, simp only: a, simp add: butlast_append)
  show "place env (cp_previous_version_path (BuildPaths root c) @ ''.tmp'') =
           place env root @ [c, ''var'', ''previous-version.tmp'']"
    by (subst extended_place [OF fp]) (simp, simp, simp only: p, simp add: butlast_append)
qed

text \<open>What is asked of the place of an installation.\<close>

definition installation :: "os_env \<Rightarrow> string \<Rightarrow> file_system \<Rightarrow> bool" where
  "installation env root fs \<longleftrightarrow>
     plain_path root \<and> honest_listing env \<and> \<not> install_region env root fs (oe_cwd env)"

lemma confined_version_files:
  assumes "installation env root fs0" "IsKnownComponent c"
  shows "confined env (install_region env root fs0) (WriteVersionFile env (cp_active_version_path (BuildPaths root c)) v)"
    and "confined env (install_region env root fs0) (WriteVersionFile env (cp_previous_version_path (BuildPaths root c)) v)"
proof -
  have r: "plain_path root" "honest_listing env" "\<not> install_region env root fs0 (oe_cwd env)"
    using assms(1) by (simp_all add: installation_def)
  show "confined env (install_region env root fs0) (WriteVersionFile env (cp_active_version_path (BuildPaths root c)) v)"
    and "confined env (install_region env root fs0) (WriteVersionFile env (cp_previous_version_path (BuildPaths root c)) v)"
    using version_file_places [OF r(1) assms(2)] region_intros(3) [OF assms(2)]
    by (auto intro!: confined_version_file r simp del: BuildPaths_simps)
qed

lemma confined_switch:
  "installation env root fs0 \<Longrightarrow> IsKnownComponent c \<Longrightarrow>
     confined env (install_region env root fs0) (SwitchActiveVersion env (BuildPaths root c) active v)"
  unfolding SwitchActiveVersion_def
  by (intro confined_bind confined_version_files) (simp_all add: confined_version_files del: BuildPaths_simps)

lemma confined_refresh:
  assumes "installation env root fs0" "IsKnownComponent c" "simple_name v" "simple_name installer_version"
  shows "confined env (install_region env root fs0) (refresh_stubs env root c v installer_version)"
proof -
  have "confined env (install_region env root fs0) (EnsureLauncherStub env root x d)"
    if "IsKnownComponent d" "simple_name x" for x d
    using that assms(1) unfolding installation_def by (intro confined_stub region_intros) simp_all
  then show ?thesis
    using assms
    by (auto simp: refresh_stubs_def EnsureLauncherStubs_def managed_components
        intro!: confined_each confined_bind)
qed

subsection \<open>Healthy releases\<close>

lemma LoadManifest_valid: "LoadManifest ie fs p = Inr m \<Longrightarrow> valid_manifest m"
  by (auto simp: LoadManifest_def bind_res_Inr_iff dest: ParseManifestJson_valid)

lemma ValidateReleaseDirectory_ok:
  assumes "ValidateReleaseDirectory ie fs dir c = Inr val"
  shows "rv_ok val \<longleftrightarrow>
    (\<exists>m. LoadManifest ie fs (manifest_path_in dir) = Inr m \<and> mn_component m = c \<and>
         mn_version m = path_filename dir \<and>
         check_release_files ie fs dir (mn_files m) = Inr None \<and>
         (c = ''installer'' \<longrightarrow> ValidateInstallerLauncherAssets (ie_os ie) fs dir = Inr None) \<and>
         fs_exists (ie_os ie) fs (manifest_path_in dir) = Inr True \<and> rv_version val = path_filename dir)"
proof (cases "LoadManifest ie fs (manifest_path_in dir)")
  case (Inl e)
  then show ?thesis
    using assms
    by (auto simp: ValidateReleaseDirectory_def Let_def bind_res_Inr_iff invalid_release_def split: if_splits)
next
  case (Inr m)
  obtain present where p: "fs_exists (ie_os ie) fs (manifest_path_in dir) = Inr present"
    using assms by (auto simp: ValidateReleaseDirectory_def Let_def bind_res_Inr_iff)
  consider (rejected) "\<not> present \<or> mn_component m \<noteq> c \<or> mn_version m \<noteq> path_filename dir"
    | (checked) "present" "mn_component m = c" "mn_version m = path_filename dir"
    by blast
  then show ?thesis
  proof cases
    case rejected
    then have "\<not> rv_ok val"
      using assms Inr p
      by (auto simp: ValidateReleaseDirectory_def Let_def invalid_release_def split: if_splits)
    then show ?thesis
      using rejected Inr p by auto
  next
    case checked
    then obtain problem where problem: "check_release_files ie fs dir (mn_files m) = Inr problem"
      using assms Inr p by (auto simp: ValidateReleaseDirectory_def Let_def bind_res_Inr_iff)
    obtain launcher where l: "(if c = ''installer'' \<and> problem = None
        then ValidateInstallerLauncherAssets (ie_os ie) fs dir else Inr None) = Inr launcher"
      using assms Inr p checked problem
      by (cases problem) (auto simp: ValidateReleaseDirectory_def Let_def bind_res_Inr_iff)
    show ?thesis
      using assms Inr p checked problem l
      by (cases problem; cases launcher)
        (auto simp: ValidateReleaseDirectory_def Let_def invalid_release_def split: if_splits)
  qed
qed

lemma healthy_release:
  assumes "InspectActiveRelease ie fs (BuildPaths root c) c = Inr info" "ri_state info = kHealthy"
  shows "simple_name (ri_version info)"
    "ReadFileTrimmed (ie_os ie) fs (cp_active_version_path (BuildPaths root c)) = Inr (ri_version info)"
    "\<exists>val. ValidateReleaseDirectory ie fs
             (path_append (cp_releases_root (BuildPaths root c)) (ri_version info)) c = Inr val \<and> rv_ok val"
    "fs_is_directory (ie_os ie) fs (path_append (cp_releases_root (BuildPaths root c)) (ri_version info)) = Inr True"
proof -
  obtain v val where v: "ReadFileTrimmed (ie_os ie) fs (cp_active_version_path (BuildPaths root c)) = Inr v"
      "IsSafeVersionString v"
      "ValidateReleaseDirectory ie fs (path_append (cp_releases_root (BuildPaths root c)) v) c = Inr val"
      "rv_ok val" "ri_version info = rv_version val"
      "fs_is_directory (ie_os ie) fs (path_append (cp_releases_root (BuildPaths root c)) v) = Inr True"
    using assms
    by (auto simp: InspectActiveRelease_def Let_def bind_res_Inr_iff simp del: BuildPaths_simps
        split: if_splits sum.splits)
  have "rv_version val = v"
    using ValidateReleaseDirectory_ok [OF v(3)] v(2,4) by auto
  then show "simple_name (ri_version info)"
    "ReadFileTrimmed (ie_os ie) fs (cp_active_version_path (BuildPaths root c)) = Inr (ri_version info)"
    "\<exists>val. ValidateReleaseDirectory ie fs
             (path_append (cp_releases_root (BuildPaths root c)) (ri_version info)) c = Inr val \<and> rv_ok val"
    "fs_is_directory (ie_os ie) fs (path_append (cp_releases_root (BuildPaths root c)) (ri_version info)) = Inr True"
    using v by (auto simp del: BuildPaths_simps)
qed

lemma resolved_installer_version:
  assumes "ResolveInstallerVersionForPackage ie fs root m = Inr v" "simple_name (mn_version m)"
  shows "simple_name v"
proof (cases "mn_component m = ''installer''")
  case True
  then show ?thesis
    using assms by (simp add: ResolveInstallerVersionForPackage_def)
next
  case False
  then obtain info where "InspectActiveRelease ie fs (BuildPaths root ''installer'') ''installer'' = Inr info"
      "ri_state info = kHealthy" "v = ri_version info"
    using assms(1) active_release_state.exhaust
    by (auto simp: ResolveInstallerVersionForPackage_def bind_res_Inr_iff split: if_splits option.splits)
  then show ?thesis
    using healthy_release(1) by blast
qed


subsection \<open>Installing and rolling back stay in the region\<close>

lemma confined_install:
  assumes "installation (ie_os ie) root fs" "plain_fs (ie_os ie) fs" "plain_path package_dir"
    "valid_manifest m" "simple_name installer_version"
    "fs (place (ie_os ie) root @ [mn_component m, ''releases'', mn_version m]) = None"
  shows "confined (ie_os ie) (install_region (ie_os ie) root fs)
           (install_staged ie root package_dir m active installer_version)"
proof -
  let ?os = "ie_os ie" and ?R = "install_region (ie_os ie) root fs"
  let ?c = "mn_component m" and ?v = "mn_version m"
  let ?staging = "path_append (cp_staging_root (BuildPaths root ?c)) ?v"
  let ?release = "path_append (cp_releases_root (BuildPaths root ?c)) ?v"
  have i: "plain_path root" "honest_listing ?os" "\<not> ?R (oe_cwd ?os)"
    using assms(1) by (simp_all add: installation_def)
  have c: "IsKnownComponent ?c" "simple_name ?v" "list_all valid_file (mn_files m)"
    using assms(4) by (simp_all add: valid_manifest_def)
  have s: "file_path ?staging" "place ?os ?staging = place ?os root @ [?c, ''.staging'', ?v]"
    and r: "file_path ?release" "place ?os ?release = place ?os root @ [?c, ''releases'', ?v]"
    using i c by simp_all
  have sR: "covers ?R (place ?os ?staging)"
    using covers_append [OF region_intros(1) [OF c(1)], of _ _ _ "[?v]"] s by simp
  have rR: "covers ?R (place ?os ?release)"
    using region_intros(4) [OF c(1), where fs = fs and env = ?os and root = root] assms(6) r by simp
  have outside: "\<not> prefix (place ?os ?staging) (oe_cwd ?os)" "\<not> prefix (place ?os ?release) (oe_cwd ?os)"
    using i(3) sR rR coversD by blast+
  have stage: "confined ?os ?R (StageRelease ie package_dir ?staging m)"
    by (rule confined_StageRelease [OF assms(3) s(1) c(3) sR i(3)])
  have dirs: "confined ?os ?R (act_change (\<lambda>fs. create_directories ?os fs (cp_releases_root (BuildPaths root ?c))))"
    by (rule confined_directories [where q = "place ?os ?release"])
      (use i c r covers_self [OF rR] in \<open>simp_all add: prefix_def\<close>)
  have move: "confined ?os ?R (act_change (\<lambda>fs. rename_path ?os fs ?staging ?release))"
    by (rule confined_rename) (use s r i outside sR rR coversD in auto)
  note switch = confined_switch [OF assms(1) c(1), of active ?v]
  note refresh = confined_refresh [OF assms(1) c(1,2) assms(5)]
  show ?thesis
    unfolding install_staged_def Let_def
    by (intro confined_bind_read confined_bind stage dirs move switch refresh)
      (auto intro!: confined_bind dirs move switch refresh split: option.splits simp del: BuildPaths_simps)
qed

lemma act_catch_return_confined:
  assumes "confined_at env R fs m"
  shows "confined_at env R fs (act_catch m (\<lambda>ex. act_return (f ex)))"
  using assms by (auto simp: confined_at_def act_catch_def split: prod.splits sum.splits)

lemma confined_at_if:
  "(b \<Longrightarrow> confined_at env R fs m) \<Longrightarrow> (\<not> b \<Longrightarrow> confined_at env R fs n) \<Longrightarrow>
     confined_at env R fs (if b then m else n)"
  by simp

lemma confined_at_apply:
  assumes "installation (ie_os ie) root fs" "plain_fs (ie_os ie) fs" "plain_path package_dir"
  shows "confined_at (ie_os ie) (install_region (ie_os ie) root fs) fs (ApplyPackageDirectory ie root package_dir)"
proof -
  let ?os = "ie_os ie" and ?R = "install_region (ie_os ie) root fs"
  have i: "plain_path root" "\<not> ?R (oe_cwd ?os)"
    using assms(1) by (simp_all add: installation_def)
  have "confined_at ?os ?R fs (apply_directory ie root package_dir)"
    unfolding apply_directory_def Let_def
  proof (intro confined_at_bind_read confined_at_if assms(2))
    fix m :: manifest and active installer_version installed
    let ?c = "mn_component m" and ?v = "mn_version m"
    assume m: "LoadManifest ie fs (manifest_path_in package_dir) = Inr m"
      and resolved: "ResolveInstallerVersionForPackage ie fs root m = Inr installer_version"
      and exists: "fs_exists ?os fs (path_append (cp_releases_root (BuildPaths root ?c)) ?v) = Inr installed"
    have valid: "valid_manifest m" by (rule LoadManifest_valid [OF m])
    then have c: "IsKnownComponent ?c" "simple_name ?v"
      by (simp_all add: valid_manifest_def)
    have iv: "simple_name installer_version"
      by (rule resolved_installer_version [OF resolved c(2)])
    note switch = confined_switch [OF assms(1) c(1), of active ?v]
    note refresh = confined_refresh [OF assms(1) c iv]
    show "confined_at ?os ?R fs
       (act_bind (SwitchActiveVersion ?os (BuildPaths root ?c) active ?v)
         (\<lambda>_. act_bind (refresh_stubs ?os root ?c ?v installer_version)
                (\<lambda>_. act_return \<lparr>ap_ok = True, ap_component = ?c, ap_version = ?v,
                                 ap_message = ''release already installed''\<rparr>)))"
      by (rule confined_atD [OF _ assms(2)]) (intro confined_bind switch refresh, simp)
    assume "\<not> installed"
    then have new: "fs (place ?os root @ [?c, ''releases'', ?v]) = None"
      using exists assms(2) i c by (simp add: node_at_def)
    let ?staging = "path_append (cp_staging_root (BuildPaths root ?c)) ?v"
    have s: "plain_path ?staging" "place ?os ?staging = (place ?os root @ [?c, ''.staging'']) @ [?v]"
      using i c by simp_all
    have sR: "covers ?R (place ?os ?staging)"
      unfolding s(2) by (rule covers_append) (rule region_intros(1) [OF c(1)])
    have remove: "confined ?os ?R (quietly (act_change (\<lambda>fs. remove_all ?os fs ?staging)))"
      by (rule confined_quietly, rule confined_remove_all) (use s sR i coversD in auto)
    show "confined_at ?os ?R fs
       (act_bind (act_catch (install_staged ie root package_dir m active installer_version)
           (\<lambda>ex. act_bind (quietly (act_change (\<lambda>fs. remove_all ?os fs ?staging))) (\<lambda>_. act_throw ex)))
         (\<lambda>_. act_return \<lparr>ap_ok = True, ap_component = ?c, ap_version = ?v, ap_message = ''applied''\<rparr>))"
      by (rule confined_atD [OF _ assms(2)])
        (intro confined_bind confined_catch remove
          confined_install [OF assms valid iv new], simp_all)
  qed (simp_all only: confined_simple(1,2) [OF assms(2)])
  then show ?thesis
    unfolding ApplyPackageDirectory_def by (rule act_catch_return_confined)
qed


lemma confined_switch_back:
  assumes "installation (ie_os ie) root fs0" "IsKnownComponent c" "simple_name previous"
  shows "confined (ie_os ie) (install_region (ie_os ie) root fs0) (switch_back ie root c active previous)"
proof -
  note files = confined_version_files [OF assms(1,2)]
  have stubs: "confined (ie_os ie) (install_region (ie_os ie) root fs0)
      (if c = ''installer'' then EnsureLauncherStubs (ie_os ie) root v kManagedComponents
       else EnsureLauncherStubs (ie_os ie) root v [c])" if "simple_name v" for v
    using confined_refresh [OF assms(1,2) that that] by (simp add: refresh_stubs_def)
  have "simple_name v" if "(if c = ''installer'' then Inr previous
      else ResolveInstallerVersionForPackage ie fs root (rollback_manifest c previous)) = Inr v" for v fs
    using that assms(3) resolved_installer_version [of ie fs root "rollback_manifest c previous" v]
    by (auto simp: rollback_manifest_def split: if_splits)
  then show ?thesis
    unfolding switch_back_def Let_def
    by (intro confined_bind confined_bind_read files stubs)
qed

lemma confined_at_rollback:
  assumes "installation (ie_os ie) root fs" "plain_fs (ie_os ie) fs" 
  shows "confined_at (ie_os ie) (install_region (ie_os ie) root fs) fs (RollbackComponent ie root component)"
proof (cases "IsKnownComponent component")
  case True
  let ?os = "ie_os ie"
  have switched: "confined_at ?os (install_region ?os root fs) fs
      (act_catch (act_bind (switch_back ie root component active previous) (\<lambda>_. act_return r))
         (\<lambda>ex. act_return (f ex)))"
    if "IsSafeVersionString previous" for active previous r f
    using that by (intro confined_atD [OF _ assms(2)] confined_catch confined_bind
        confined_switch_back assms True) simp_all
  show ?thesis
    unfolding RollbackComponent_def Let_def
    by (intro confined_at_bind_read confined_at_if assms(2))
      (auto simp: confined_simple(1,2) [OF assms(2)] simp del: act_simps split: sum.splits
        intro!: confined_at_bind_read [OF assms(2)] switched)
next
  case False
  then show ?thesis
    using assms(2) by (simp add: RollbackComponent_def ValidateComponent_def confined_at_def Let_def)
qed

lemma outside_region:
  assumes "IsKnownComponent c" "prefix (place env root @ [c, ''releases'', version]) p"
    "fs (place env root @ [c, ''releases'', version]) \<noteq> None"
  shows "\<not> install_region env root fs p"
    and "\<not> (\<exists>q. install_region env root fs q \<and> strict_prefix p q)"
proof -
  have "\<not> install_region env root fs q" if "prefix p q" for q
  proof -
    obtain r where "q = place env root @ [c, ''releases'', version] @ r"
      using assms(2) \<open>prefix p q\<close> by (auto simp: prefix_def)
    then show ?thesis
      using assms(3) by (auto simp: install_region_def)
  qed
  then show "\<not> install_region env root fs p" "\<not> (\<exists>q. install_region env root fs q \<and> strict_prefix p q)"
    by (auto simp: strict_prefix_def)
qed

lemma only_changes_outside:
  assumes "only_changes R fs fs'" "\<not> R p" "\<not> (\<exists>q. R q \<and> strict_prefix p q)"
  shows "fs' p = fs p"
  using assms unfolding only_changes_def by blast

text \<open>
  C15: Installed releases are immutable.  In an installation without symbolic links, applying a
  package directory and rolling a component back, whatever the package, the manifest, the digests
  and the outcome, change no file of a release that was installed before: not of another component,
  not of another version, and not of the very version that is applied again.
\<close>

theorem installed_releases_are_immutable:
  assumes "installation (ie_os ie) root fs" "plain_fs (ie_os ie) fs" "plain_path package_dir"
    "IsKnownComponent c" "prefix (place (ie_os ie) root @ [c, ''releases'', version]) p"
    "fs (place (ie_os ie) root @ [c, ''releases'', version]) \<noteq> None"
  shows "snd (ApplyPackageDirectory ie root package_dir fs) p = fs p \<and>
         snd (RollbackComponent ie root component fs) p = fs p"
proof -
  note out = outside_region [where env = "ie_os ie" and root = root and fs = fs, OF assms(4-6)]
  have "snd (ApplyPackageDirectory ie root package_dir fs) p = fs p"
    using confined_at_apply [OF assms(1-3)] only_changes_outside [OF _ out]
    by (simp add: confined_at_def)
  moreover have "snd (RollbackComponent ie root component fs) p = fs p"
    using confined_at_rollback [OF assms(1,2)] only_changes_outside [OF _ out]
    by (simp add: confined_at_def)
  ultimately show ?thesis ..
qed


subsection \<open>Runs that succeed\<close>

lemma trimmed_line:
  assumes "trimmed v = v"
  shows "trimmed (v @ [CHR 0x0A]) = v"
  using assms by (simp add: trimmed_def isspace_def)

lemma trimmed_trimmed [simp]: "trimmed (trimmed v) = trimmed v"
proof -
  let ?u = "dropWhile isspace (rev v)"
  have "dropWhile isspace (rev (dropWhile isspace (rev ?u))) = rev (dropWhile isspace (rev ?u))"
  proof (cases "dropWhile isspace (rev ?u) = []")
    case False
    obtain ys where ys: "rev ?u = ys @ dropWhile isspace (rev ?u)"
      by (metis takeWhile_dropWhile_id)
    then have "?u = rev (dropWhile isspace (rev ?u)) @ rev ys"
      by (metis rev_append rev_rev_ident)
    moreover have "?u \<noteq> []"
      using False by (metis dropWhile.simps(1) rev.simps(1))
    ultimately have "hd ?u = hd (rev (dropWhile isspace (rev ?u)))" "?u \<noteq> []"
      using False by (metis hd_append2 rev_is_Nil_conv)+
    then have "\<not> isspace (hd (rev (dropWhile isspace (rev ?u))))"
      using hd_dropWhile [of isspace "rev v"] by metis
    moreover have "dropWhile isspace w = w" if "\<not> isspace (hd w)" "w \<noteq> []" for w
      using that by (cases w) simp_all
    ultimately show ?thesis
      using False by (metis rev_is_Nil_conv)
  next
    case True
    then have "rev (dropWhile isspace (rev ?u)) = []" by (simp only: rev.simps(1))
    then show ?thesis by (simp only: dropWhile.simps(1))
  qed
  then show ?thesis
    by (simp add: trimmed_def)
qed

lemma ReadFileTrimmed_trimmed: "ReadFileTrimmed env fs p = Inr v \<Longrightarrow> trimmed v = v"
  by (auto simp: ReadFileTrimmed_def bind_res_Inr_iff)

lemma segment_trimmed:
  assumes "IsSafePathSegment v"
  shows "trimmed v = v"
proof -
  have "\<not> isspace ch" if "ch \<in> set v" for ch
  proof
    assume "isspace ch"
    then have "\<not> (isalnum ch \<or> ch = CHR ''.'' \<or> ch = CHR ''_'' \<or> ch = CHR ''-'')"
      by (auto simp: isspace_def char_classes)
    then show False
      using assms that unfolding IsSafePathSegment_def list_all_iff by metis
  qed
  then have "dropWhile isspace w = w" if "set w = set v" for w
    using that by (cases w) auto
  then show ?thesis
    by (simp add: trimmed_def)
qed

lemma simple_ending: "CHR ''/'' \<notin> set ''.tmp''" "2 < length ''.tmp''"
  by simp_all

text \<open>A version file that was written holds its version.\<close>

definition holds_version :: "os_env \<Rightarrow> string \<Rightarrow> string \<Rightarrow> file_system \<Rightarrow> bool" where
  "holds_version env path v fs \<longleftrightarrow>
     (\<exists>x. fs (place env path) = Some (Regular_file (bytes_of_string (v @ [CHR 0x0A])) x))"

lemma holds_version_read:
  assumes "holds_version env path v fs" "plain_fs env fs" "file_path path" "trimmed v = v"
  shows "ReadFileTrimmed env fs path = Inr v"
  using assms by (auto simp: holds_version_def ReadFileTrimmed_def read_file_plain node_at_def trimmed_line)

lemma written_version_file:
  assumes "WriteVersionFile env path v fs = (Inr u, fs')" "plain_fs env fs" "file_path path"
    "honest_listing env" "\<not> prefix (place env path) (oe_cwd env)"
    "\<not> prefix (place env (path @ ''.tmp'')) (oe_cwd env)"
  shows "holds_version env path v fs'"
proof -
  let ?tmp = "path @ ''.tmp''"
  have tmp: "file_path ?tmp"
    by (rule extended_path(2)) (simp_all add: assms(3))
  have differ: "place env ?tmp \<noteq> place env path"
  proof
    assume "place env ?tmp = place env path"
    then have "last (place env path) = last (place env path) @ ''.tmp''"
      using extended_place [OF assms(3), of "''.tmp''" env] by (metis (no_types) last_snoc simple_ending)
    then show False by simp
  qed
  from assms(1) obtain fs1 fs2 where 1: "create_directories env fs (parent_path path) = Inr fs1"
    and 2: "WriteTextFile env ?tmp (v @ [CHR 0x0A]) fs1 = (Inr (), fs2)"
    and 3: "act_catch (act_change (\<lambda>fs. rename_path env fs ?tmp path))
         (\<lambda>rename_error. act_bind (quietly (act_change (\<lambda>fs. remove_file env fs path))) (\<lambda>_.
             act_change (\<lambda>fs. rename_path env fs ?tmp path))) fs2 = (Inr u, fs')"
    unfolding WriteVersionFile_def Let_def by (auto elim!: act_bind_InrE simp: act_change_Inr)
  have p1: "plain_fs env fs1"
    using create_directories_done(2) [OF 1 assms(2)] assms(3) by simp
  obtain fs1' where 4: "create_directories env fs1 (parent_path ?tmp) = Inr fs1'"
      "write_file env fs1' ?tmp (bytes_of_string (v @ [CHR 0x0A])) = Some fs2"
    using 2 unfolding WriteTextFile_def by (auto elim!: act_bind_InrE simp: act_change_Inr)
  have p1': "plain_fs env fs1'"
    using create_directories_done(2) [OF 4(1) p1] tmp by simp
  obtain x where p2: "plain_fs env fs2"
    and f2: "fs2 (place env ?tmp) = Some (Regular_file (bytes_of_string (v @ [CHR 0x0A])) x)"
    using write_file_plainE [OF 4(2) p1'] tmp by (metis file_path_plain fun_upd_same)
  have renamed: "holds_version env path v b"
    if "rename_path env a ?tmp path = Inr b" "plain_fs env a"
      "a (place env ?tmp) = Some (Regular_file (bytes_of_string (v @ [CHR 0x0A])) x)" for a b
    using that(1,2) file_path_plain [OF tmp] file_path_plain [OF assms(3)] assms(4)
  proof (cases rule: rename_plain_moves)
    case same
    then show ?thesis using differ by simp
  next
    case moved
    then show ?thesis
      using that(3) by (auto simp: holds_version_def move_tree_def)
  qed
  show ?thesis
  proof (cases "rename_path env fs2 ?tmp path")
    case (Inr b)
    then show ?thesis
      using 3 renamed [OF Inr p2 f2] by (simp add: act_catch_def act_change_def)
  next
    case (Inl e)
    let ?fs3 = "snd (quietly (act_change (\<lambda>fs. remove_file env fs path)) fs2)"
    have last: "rename_path env ?fs3 ?tmp path = Inr fs'"
      using 3 Inl
      by (auto simp: act_catch_def act_change_def act_bind_run quietly_def split: sum.splits prod.splits)
    have "plain_fs env ?fs3 \<and> ?fs3 (place env ?tmp) = fs2 (place env ?tmp)"
    proof (cases "remove_file env fs2 path")
      case (Inl e)
      then show ?thesis using p2 by (simp add: quietly_def act_catch_def act_change_def)
    next
      case (Inr fs3)
      then show ?thesis
        using remove_file_plain [OF Inr p2 _ assms(5,4)] assms(3) differ
        by (auto simp: quietly_def act_catch_def act_change_def)
    qed
    then show ?thesis
      using renamed [OF last] f2 by simp
  qed
qed


text \<open>An installation with one release.\<close>

definition demo_listing :: "file_system \<Rightarrow> fs_path \<Rightarrow> string list" where
  "demo_listing fs q = [''x'']"

definition demo_installer :: "u8 list installer_env" where
  "demo_installer =
     \<lparr>ie_os = demo_env\<lparr>oe_listing := demo_listing\<rparr>, ie_json = demo_json, ie_digest = demo_digest_lib\<rparr>"

definition demo_installed :: file_system where
  "demo_installed =
     [[''r''] \<mapsto> Directory, [''r'', ''agent''] \<mapsto> Directory, [''r'', ''agent'', ''releases''] \<mapsto> Directory,
      [''r'', ''agent'', ''releases'', ''1''] \<mapsto> Directory,
      [''r'', ''agent'', ''releases'', ''1'', ''f''] \<mapsto> Regular_file [7] True]"

lemma demo_honest: "honest_listing (ie_os demo_installer)"
  by (auto simp: honest_listing_def demo_installer_def demo_listing_def)

lemma demo_place: "place (ie_os demo_installer) ''/r'' = [''r'']" "oe_cwd (ie_os demo_installer) = []"
  by (simp_all add: place_def demo_installer_def demo_env_def is_absolute_def path_names_def)

lemma demo_installed_plain: "plain_fs (ie_os demo_installer) demo_installed"
  by (auto simp: plain_fs_def demo_installed_def demo_installer_def demo_env_def node_at_def
      append_eq_Cons_conv split: if_splits)

lemma demo_installation: "installation (ie_os demo_installer) ''/r'' fs"
  using demo_honest
  by (simp add: installation_def install_region_def demo_place plain_path_def path_names_def)

theorem installed_releases_are_immutable_witness:
  "snd (ApplyPackageDirectory demo_installer ''/r'' ''/p'' demo_installed)
       [''r'', ''agent'', ''releases'', ''1'', ''f''] = Some (Regular_file [7] True) \<and>
   snd (RollbackComponent demo_installer ''/r'' ''agent'' demo_installed)
       [''r'', ''agent'', ''releases'', ''1'', ''f''] = Some (Regular_file [7] True)"
proof -
  have "snd (ApplyPackageDirectory demo_installer ''/r'' ''/p'' demo_installed)
           [''r'', ''agent'', ''releases'', ''1'', ''f''] = demo_installed [''r'', ''agent'', ''releases'', ''1'', ''f''] \<and>
        snd (RollbackComponent demo_installer ''/r'' ''agent'' demo_installed)
           [''r'', ''agent'', ''releases'', ''1'', ''f''] = demo_installed [''r'', ''agent'', ''releases'', ''1'', ''f'']"
    by (rule installed_releases_are_immutable [OF demo_installation demo_installed_plain,
          where c = "''agent''" and version = "''1''"])
      (simp_all add: plain_path_def path_names_def IsKnownComponent_def demo_place demo_installed_def)
  then show ?thesis
    by (simp add: demo_installed_def)
qed

end
