(* ===== verification/Installer_Status.thy ===== *)
theory Installer_Status
  imports Installer_Apply
begin

section \<open>What a successful operation leaves behind\<close>

text \<open>
  After a package was applied the component is installed: the release holds exactly what the
  manifest lists, the version files name it, and the status says so.  A rollback exchanges the two
  version files.
\<close>

subsection \<open>Validation looks at the release only\<close>

lemma same_below:
  assumes "plain_fs env fs" "plain_fs env fs'" "plain_path p" "fs' (place env p) = fs (place env p)"
  shows "node_status env fs' follow p = node_status env fs follow p"
    "read_file env fs' p = read_file env fs p"
    "file_size env fs' p = file_size env fs p"
    "symlink_status env fs' p = symlink_status env fs p" "fs_status env fs' p = fs_status env fs p"
    "fs_exists env fs' p = fs_exists env fs p" "fs_is_directory env fs' p = fs_is_directory env fs p"
    "IsLaunchableProgram env fs' p = IsLaunchableProgram env fs p"
  using assms by (simp_all add: node_at_def read_file_plain file_size_def IsLaunchableProgram_def)

definition same_tree :: "os_env \<Rightarrow> string \<Rightarrow> file_system \<Rightarrow> file_system \<Rightarrow> bool" where
  "same_tree env dir fs fs' \<longleftrightarrow> (\<forall>p. prefix (place env dir) p \<longrightarrow> fs' p = fs p)"

lemma same_treeD: "same_tree env dir fs fs' \<Longrightarrow> fs' (place env dir @ r) = fs (place env dir @ r)"
  by (simp add: same_tree_def)

lemma same_launcher_assets:
  assumes "plain_fs env fs" "plain_fs env fs'" "plain_path dir" "same_tree env dir fs fs'"
  shows "ValidateInstallerLauncherAssets env fs' dir = ValidateInstallerLauncherAssets env fs dir"
proof -
  let ?p = "path_append (path_append dir ''bin'') ''zfleet_launcher''"
  have "fs' (place env ?p) = fs (place env ?p)"
    using same_treeD [OF assms(4), of "[''bin'', ''zfleet_launcher'']"] assms(3) by simp
  then show ?thesis
    using same_below [OF assms(1,2), of ?p] assms(3)
    by (simp add: ValidateInstallerLauncherAssets_def cong: if_cong)
qed

lemma same_manifest:
  assumes "plain_fs (ie_os ie) fs" "plain_fs (ie_os ie) fs'" "plain_path dir"
    "fs' (place (ie_os ie) dir @ [''META'', ''manifest.json'']) = fs (place (ie_os ie) dir @ [''META'', ''manifest.json''])"
  shows "LoadManifest ie fs' (manifest_path_in dir) = LoadManifest ie fs (manifest_path_in dir)"
    "fs_exists (ie_os ie) fs' (manifest_path_in dir) = fs_exists (ie_os ie) fs (manifest_path_in dir)"
  using same_below [OF assms(1,2), of "manifest_path_in dir"] assms(3,4)
  by (simp_all add: LoadManifest_def manifest_path_in_def)

lemma same_checks:
  assumes "plain_fs (ie_os ie) fs" "plain_fs (ie_os ie) fs'" "plain_path dir"
    "same_tree (ie_os ie) dir fs fs'" "list_all valid_file files"
  shows "check_release_files ie fs' dir files = check_release_files ie fs dir files"
  using assms(5)
proof (induction files)
  case Nil
  then show ?case by simp
next
  case (Cons f files)
  let ?p = "path_append dir (mf_target f)"
  have safe: "safe_relative (mf_target f)"
    using Cons.prems by (simp add: valid_file_def)
  then have "fs' (place (ie_os ie) ?p) = fs (place (ie_os ie) ?p)"
    using same_treeD [OF assms(4), of "path_names (mf_target f)"] assms(3) by simp
  then have "check_release_file ie fs' dir f = check_release_file ie fs dir f"
    using same_below [OF assms(1,2), of ?p] assms(3) safe by (simp add: check_release_file_def Let_def cong: if_cong)
  then show ?case
    using Cons by (simp cong: option.case_cong)
qed

lemma same_release:
  assumes "plain_fs (ie_os ie) fs" "plain_fs (ie_os ie) fs'" "plain_path dir"
    "same_tree (ie_os ie) dir fs fs'"
  shows "ValidateReleaseDirectory ie fs' dir c = ValidateReleaseDirectory ie fs dir c"
proof -
  note m = same_manifest [OF assms(1-3) same_treeD [OF assms(4)]]
  show ?thesis
  proof (cases "LoadManifest ie fs (manifest_path_in dir)")
    case (Inl e)
    show ?thesis
      unfolding ValidateReleaseDirectory_def Let_def m Inl sum.case ..
  next
    case (Inr mf)
    then have "list_all valid_file (mn_files mf)"
      using LoadManifest_valid by (auto simp: valid_manifest_def)
    note checks = same_checks [OF assms this] same_launcher_assets [OF assms]
    show ?thesis
      unfolding ValidateReleaseDirectory_def Let_def m Inr sum.case checks ..
  qed
qed

subsection \<open>The switch of the active version\<close>

lemma only_changes_file:
  assumes "only_changes R fs fs'" "\<not> R p" "fs p = Some node"
  shows "fs' p = Some node"
  using assms unfolding only_changes_def by (metis option.distinct(1))

lemma holds_version_kept:
  assumes "only_changes R fs fs'" "\<not> R (place env path)" "holds_version env path v fs"
  shows "holds_version env path v fs'"
  using assms(3) only_changes_file [OF assms(1,2)] by (auto simp: holds_version_def)

definition stub_region :: "os_env \<Rightarrow> string \<Rightarrow> fs_path \<Rightarrow> bool" where
  "stub_region env root p \<longleftrightarrow> (\<exists>c. IsKnownComponent c \<and> prefix (place env root @ [c, ''bin'']) p)"

lemma confined_refresh_stubs:
  assumes "plain_path root" "honest_listing env" "IsKnownComponent c" "simple_name v"
    "simple_name installer_version"
  shows "confined env (stub_region env root) (refresh_stubs env root c v installer_version)"
proof -
  have "confined env (stub_region env root) (EnsureLauncherStub env root x d)"
    if "IsKnownComponent d" "simple_name x" for x d
    using that assms(1,2) by (intro confined_stub) (auto simp: covers_def stub_region_def)
  then show ?thesis
    using assms
    by (auto simp: refresh_stubs_def EnsureLauncherStubs_def managed_components
        intro!: confined_each confined_bind)
qed

definition file_region :: "os_env \<Rightarrow> string \<Rightarrow> fs_path \<Rightarrow> bool" where
  "file_region env path p \<longleftrightarrow> prefix (place env path) p \<or> prefix (place env (path @ ''.tmp'')) p"

lemma confined_one_version_file:
  assumes "file_path path" "honest_listing env" "\<not> file_region env path (oe_cwd env)"
  shows "confined env (file_region env path) (WriteVersionFile env path v)"
  using assms by (intro confined_version_file) (auto simp: covers_def file_region_def)

lemma version_regions:
  assumes "plain_path root" "IsKnownComponent c" "path = cp_active_version_path (BuildPaths root c) \<or>
      path = cp_previous_version_path (BuildPaths root c)" "file_region env path p"
  shows "install_region env root fs p" "\<exists>n r. p = place env root @ [c, ''var'', n] @ r"
proof -
  obtain n r where p: "p = place env root @ [c, ''var'', n] @ r"
      "n \<in> {''active-version'', ''active-version.tmp'', ''previous-version'', ''previous-version.tmp''}"
    using assms(3,4) version_file_places(1-4) [OF assms(1,2)]
    by (auto simp: file_region_def prefix_def simp del: BuildPaths_simps)
  then show "install_region env root fs p"
    using coversD [OF region_intros(3) [OF assms(2) p(2)]] by (simp add: prefix_def)
  show "\<exists>n r. p = place env root @ [c, ''var'', n] @ r"
    using p(1) by blast
qed


lemma act_runs:
  assumes "confined env R m" "m fs = (r, fs')" "plain_fs env fs"
  shows "plain_fs env fs' \<and> only_changes R fs fs'"
  using confined_run [OF assms] by blast

text \<open>The active version is the new one, and the previous version the healthy one it replaced.\<close>

definition switched_to ::
    "os_env \<Rightarrow> string \<Rightarrow> string \<Rightarrow> active_release_info \<Rightarrow> string \<Rightarrow> file_system \<Rightarrow> file_system \<Rightarrow> bool" where
  "switched_to env root c active v fs fs' \<longleftrightarrow>
     holds_version env (cp_active_version_path (BuildPaths root c)) v fs' \<and>
     (if ShouldRecordPreviousVersion active v
      then holds_version env (cp_previous_version_path (BuildPaths root c)) (ri_version active) fs'
      else fs' (place env (cp_previous_version_path (BuildPaths root c))) =
             fs (place env (cp_previous_version_path (BuildPaths root c))))"

lemma file_regions_apart:
  assumes "plain_path root" "IsKnownComponent c"
  shows "\<not> file_region env (cp_active_version_path (BuildPaths root c)) (place env (cp_previous_version_path (BuildPaths root c)))"
    and "\<not> file_region env (cp_previous_version_path (BuildPaths root c)) (place env (cp_active_version_path (BuildPaths root c)))"
    and "\<not> (\<exists>q. file_region env (cp_active_version_path (BuildPaths root c)) q \<and>
             strict_prefix (place env (cp_previous_version_path (BuildPaths root c))) q)"
  unfolding file_region_def version_file_places(1-4) [OF assms]
  by (auto simp: prefix_def strict_prefix_def)

lemma outside_file_region:
  assumes "installation env root fs0" "IsKnownComponent c"
  shows "\<not> file_region env (cp_active_version_path (BuildPaths root c)) (oe_cwd env)"
    and "\<not> file_region env (cp_previous_version_path (BuildPaths root c)) (oe_cwd env)"
  using assms version_regions(1) [of root c _ env "oe_cwd env" fs0]
  unfolding installation_def by blast+

lemma written_version:
  assumes "installation env root fs0" "IsKnownComponent c" "plain_fs env fs"
    "path = cp_active_version_path (BuildPaths root c) \<or> path = cp_previous_version_path (BuildPaths root c)"
    "WriteVersionFile env path v fs = (Inr u, fs')"
  shows "holds_version env path v fs'" "plain_fs env fs'" "only_changes (file_region env path) fs fs'"
proof -
  have p: "file_path path" "honest_listing env" "\<not> file_region env path (oe_cwd env)"
    using assms(1,2,4) outside_file_region [OF assms(1,2)] version_file_places(5,6) [of root c]
    by (auto simp: installation_def simp del: BuildPaths_simps)
  show "holds_version env path v fs'"
    using written_version_file [OF assms(5,3) p(1,2)] p(3) by (simp add: file_region_def)
  show "plain_fs env fs'" "only_changes (file_region env path) fs fs'"
    using act_runs [OF confined_one_version_file [OF p] assms(5,3)] by blast+
qed

lemma switch_done:
  assumes "installation env root fs0" "IsKnownComponent c" "plain_fs env fs"
    "SwitchActiveVersion env (BuildPaths root c) active v fs = (Inr u, fs')"
  shows "switched_to env root c active v fs fs'" "plain_fs env fs'"
proof -
  let ?active = "cp_active_version_path (BuildPaths root c)"
  let ?previous = "cp_previous_version_path (BuildPaths root c)"
  have root: "plain_path root" using assms(1) by (simp add: installation_def)
  note apart = file_regions_apart [OF root assms(2)]
  obtain fs1 where 1: "(if ShouldRecordPreviousVersion active v
      then WriteVersionFile env ?previous (ri_version active) else act_return ()) fs = (Inr (), fs1)"
    and 2: "WriteVersionFile env ?active v fs1 = (Inr u, fs')"
    using assms(4) unfolding SwitchActiveVersion_def by (auto elim!: act_bind_InrE simp del: BuildPaths_simps)
  have p1: "plain_fs env fs1"
    using 1 assms(3) written_version(2) [OF assms(1-3) disjI2 [OF HOL.refl]]
    by (auto simp del: BuildPaths_simps split: if_splits)
  note w = written_version [OF assms(1,2) p1 disjI1 [OF HOL.refl] 2]
  show "plain_fs env fs'" by (rule w(2))
  show "switched_to env root c active v fs fs'"
  proof (cases "ShouldRecordPreviousVersion active v")
    case True
    then have "holds_version env ?previous (ri_version active) fs1"
      using 1 written_version(1) [OF assms(1-3) disjI2 [OF HOL.refl]] by (simp del: BuildPaths_simps)
    then show ?thesis
      using True w(1) holds_version_kept [OF w(3) apart(1)]
      by (simp add: switched_to_def del: BuildPaths_simps)
  next
    case False
    then have "fs1 = fs" using 1 by (simp del: BuildPaths_simps)
    then show ?thesis
      using False w(1) only_changes_outside [OF w(3) apart(1,3)]
      by (simp add: switched_to_def del: BuildPaths_simps)
  qed
qed

lemma stubs_keep_versions:
  assumes "plain_path root" "IsKnownComponent c" "switched_to env root c active v fs fs1"
    "only_changes (stub_region env root) fs1 fs2"
  shows "switched_to env root c active v fs fs2"
proof -
  let ?active = "cp_active_version_path (BuildPaths root c)"
  let ?previous = "cp_previous_version_path (BuildPaths root c)"
  have out: "\<not> stub_region env root (place env ?active)" "\<not> stub_region env root (place env ?previous)"
    "\<not> (\<exists>q. stub_region env root q \<and> strict_prefix (place env ?previous) q)"
    unfolding stub_region_def version_file_places(1,3) [OF assms(1,2)]
    by (auto simp: prefix_def strict_prefix_def)
  show ?thesis
    using assms(3) holds_version_kept [OF assms(4) out(1)] holds_version_kept [OF assms(4) out(2)]
      only_changes_outside [OF assms(4) out(2,3)]
    by (auto simp: switched_to_def simp del: BuildPaths_simps split: if_splits)
qed


subsection \<open>What staging leaves\<close>

definition staged_file :: "'c installer_env \<Rightarrow> string \<Rightarrow> manifest_file \<Rightarrow> file_system \<Rightarrow> bool" where
  "staged_file ie dir f fs \<longleftrightarrow>
     (\<exists>c. fs (place (ie_os ie) (path_append dir (mf_target f))) = Some (Regular_file c (mf_launchable f)) \<and>
          length c = mf_size f \<and>
          (\<exists>p. Sha256FileHex (ie_digest ie) p (Some c) = Inr (mf_sha256 f)))"

lemma Sha256FileHex_path: "Sha256FileHex lib p (Some c) = Sha256FileHex lib q (Some c)"
  by (simp add: Sha256FileHex_def)

lemma stage_file_done:
  assumes "stage_file ie package_dir staging f fs = (Inr u, fs')" "plain_fs (ie_os ie) fs"
    "plain_path package_dir" "plain_path staging" "valid_file f"
  shows "staged_file ie staging f fs'" "plain_fs (ie_os ie) fs'"
    "only_changes (\<lambda>p. p = place (ie_os ie) (path_append staging (mf_target f))) fs fs'"
proof -
  let ?os = "ie_os ie" and ?src = "path_append package_dir (mf_source f)"
    and ?dest = "path_append staging (mf_target f)"
  let ?R = "\<lambda>p. p = place ?os ?dest"
  have safe: "safe_relative (mf_source f)" "safe_relative (mf_target f)"
    using assms(5) by (simp_all add: valid_file_def)
  have paths: "plain_path ?src" "file_path ?dest"
    using assms(3,4) safe by simp_all
  obtain fs1 fs2 where checks: "file_size ?os fs ?src = Inr (mf_size f)"
      "Sha256FileHex (ie_digest ie) ?src (read_file ?os fs ?src) = Inr (mf_sha256 f)"
    and 1: "create_directories ?os fs (parent_path ?dest) = Inr fs1"
    and 2: "copy_file ?os fs1 ?src ?dest = Inr fs2"
    and 3: "SetExecutable ?os ?dest (mf_launchable f) fs2 = (Inr u, fs')"
    using assms(1) unfolding stage_file_def Let_def
    by (auto elim!: act_read_bind_InrE act_bind_InrE simp: act_change_Inr split: if_splits)
  have p1: "plain_fs ?os fs1" and fs1: "fs1 = with_dirs (place ?os (parent_path ?dest)) fs"
    using create_directories_done(1,2) [OF 1 assms(2)] paths(2) by simp_all
  obtain c x where src: "fs1 (place ?os ?src) = Some (Regular_file c x)"
    and fs2: "fs2 = fs1(place ?os ?dest \<mapsto> Regular_file c x)" and p2: "plain_fs ?os fs2"
    using copy_file_plainE [OF 2 p1 paths(1)] paths(2) by (metis file_path_plain)
  have old: "fs (place ?os ?src) = Some (Regular_file c x)"
    using src by (simp add: fs1 with_dirs_def split: if_splits)
  have "place ?os ?src \<noteq> []"
    using assms(3) safe safe_relative_names(6) by simp
  then have read: "read_file ?os fs ?src = Some c"
    using old assms(2) paths(1) by (simp add: read_file_plain node_at_def)
  have "set_executable ?os fs2 ?dest (mf_launchable f) = Some fs'"
    using 3 by (simp add: SetExecutable_def act_change_Inr)
  then have fs': "fs' = fs2(place ?os ?dest \<mapsto> Regular_file c (mf_launchable f))"
    by (rule set_executable_plain [OF _ p2]) (use paths fs2 in simp_all)
  show "staged_file ie staging f fs'"
    using checks read unfolding staged_file_def fs'
    by (auto simp: file_size_def)
  have dirs: "confined ?os ?R (act_change (\<lambda>fs. create_directories ?os fs (parent_path ?dest)))"
    by (rule confined_parent) (use paths in simp_all)
  have copy: "confined ?os ?R (act_change (\<lambda>fs. copy_file ?os fs ?src ?dest))"
    by (rule confined_copy) (use paths in simp_all)
  have exec: "confined ?os ?R (SetExecutable ?os ?dest (mf_launchable f))"
    by (rule confined_set_executable) (use paths in simp_all)
  have "confined ?os ?R (stage_file ie package_dir staging f)"
    unfolding stage_file_def Let_def
    by (auto intro!: confined_bind_read confined_bind dirs copy exec)
  from act_runs [OF this assms(1,2)]
  show "plain_fs ?os fs'" "only_changes ?R fs fs'" by blast+
qed

lemma staged_file_kept:
  assumes "staged_file ie dir f fs" "only_changes R fs fs'"
    "\<not> R (place (ie_os ie) (path_append dir (mf_target f)))"
  shows "staged_file ie dir f fs'"
  using assms(1) only_changes_file [OF assms(2,3)] by (auto simp: staged_file_def)

lemma only_changes_mono:
  assumes "only_changes R a b" "\<forall>p. R p \<longrightarrow> S p"
  shows "only_changes S a b"
  using assms unfolding only_changes_def by blast

lemma stage_files_done:
  assumes "act_each (stage_file ie package_dir staging) files fs = (Inr u, fs')" "plain_fs (ie_os ie) fs"
    "plain_path package_dir" "plain_path staging" "list_all valid_file files"
    "distinct (map mf_target files)"
  shows "(\<forall>f\<in>set files. staged_file ie staging f fs') \<and> plain_fs (ie_os ie) fs' \<and>
    only_changes (\<lambda>p. \<exists>f\<in>set files. p = place (ie_os ie) (path_append staging (mf_target f))) fs fs'"
  using assms(1,2,5,6)
proof (induction files arbitrary: fs)
  case Nil
  then show ?case by simp
next
  case (Cons f files)
  let ?place = "\<lambda>f. place (ie_os ie) (path_append staging (mf_target f))"
  obtain fs1 where 1: "stage_file ie package_dir staging f fs = (Inr (), fs1)"
    and 2: "act_each (stage_file ie package_dir staging) files fs1 = (Inr u, fs')"
    using Cons.prems(1) by (auto elim!: act_bind_InrE)
  have valid: "valid_file f" "list_all valid_file files" "distinct (map mf_target files)"
    using Cons.prems(3,4) by simp_all
  note first = stage_file_done [OF 1 Cons.prems(2) assms(3,4) valid(1)]
  have rest: "(\<forall>f\<in>set files. staged_file ie staging f fs') \<and> plain_fs (ie_os ie) fs' \<and>
      only_changes (\<lambda>p. \<exists>f\<in>set files. p = ?place f) fs1 fs'"
    by (rule Cons.IH [OF 2 first(2) valid(2,3)])
  have "?place f \<noteq> ?place g" if "g \<in> set files" for g
  proof -
    have "safe_relative (mf_target f)" "safe_relative (mf_target g)" "mf_target f \<noteq> mf_target g"
      using that Cons.prems(3,4) by (auto simp: list_all_iff valid_file_def)
    then show ?thesis
      using safe_relative_inj assms(4) by auto
  qed
  then have "staged_file ie staging f fs'"
    using staged_file_kept [OF first(1)] rest by blast
  moreover have "only_changes (\<lambda>p. \<exists>g\<in>set (f # files). p = ?place g) fs fs'"
  proof -
    have "only_changes (\<lambda>p. \<exists>g\<in>set (f # files). p = ?place g) fs fs1"
      using first(3) by (rule only_changes_mono) simp
    moreover have "only_changes (\<lambda>p. \<exists>g\<in>set (f # files). p = ?place g) fs1 fs'"
      using rest [THEN conjunct2, THEN conjunct2] by (rule only_changes_mono) simp
    ultimately show ?thesis by (rule only_changes_trans)
  qed
  ultimately show ?case
    using rest by simp
qed


definition staged_release :: "'c installer_env \<Rightarrow> string \<Rightarrow> manifest \<Rightarrow> u8 list \<Rightarrow> file_system \<Rightarrow> bool" where
  "staged_release ie dir m mc fs \<longleftrightarrow>
     (\<forall>f\<in>set (mn_files m). staged_file ie dir f fs) \<and>
     (\<exists>x. fs (place (ie_os ie) dir @ [''META'', ''manifest.json'']) = Some (Regular_file mc x))"

lemma manifest_place:
  "plain_path dir \<Longrightarrow> place env (manifest_path_in dir) = place env dir @ [''META'', ''manifest.json'']"
  "plain_path dir \<Longrightarrow> file_path (manifest_path_in dir)"
  by (simp_all add: manifest_path_in_def)

lemma target_not_manifest:
  assumes "valid_file f"
  shows "path_names (mf_target f) \<noteq> [''META'', ''manifest.json'']"
proof
  assume "path_names (mf_target f) = [''META'', ''manifest.json'']"
  then have "mf_target f = ''META/manifest.json''"
    using safe_relative_names(5) [of "mf_target f"] assms by (simp add: valid_file_def)
  then show False
    using assms by (simp add: valid_file_def starts_with_def)
qed

lemma StageRelease_done:
  assumes "StageRelease ie package_dir staging m fs = (Inr u, fs')" "plain_fs (ie_os ie) fs"
    "plain_path package_dir" "file_path staging" "valid_manifest m"
    "\<not> prefix (place (ie_os ie) staging) (oe_cwd (ie_os ie))"
    "fs (place (ie_os ie) (manifest_path_in package_dir)) = Some (Regular_file mc x)"
    "\<not> prefix (place (ie_os ie) staging) (place (ie_os ie) (manifest_path_in package_dir))"
  shows "staged_release ie staging m mc fs'" "plain_fs (ie_os ie) fs'"
proof -
  let ?os = "ie_os ie" and ?R = "\<lambda>p. prefix (place (ie_os ie) staging) p"
  let ?src = "manifest_path_in package_dir" and ?dest = "manifest_path_in staging"
  have files: "list_all valid_file (mn_files m)" "distinct (map mf_target (mn_files m))"
    using assms(5) by (simp_all add: valid_manifest_def)
  have plain: "plain_path staging" using assms(4) by simp
  obtain fs1 fs2 fs3 fs4 where 1: "remove_all ?os fs staging = Inr fs1"
    and 2: "create_directories ?os fs1 staging = Inr fs2"
    and 3: "act_each (stage_file ie package_dir staging) (mn_files m) fs2 = (Inr (), fs3)"
    and 4: "create_directories ?os fs3 (parent_path ?dest) = Inr fs4"
    and 5: "copy_file ?os fs4 ?src ?dest = Inr fs'"
    using assms(1) unfolding StageRelease_def Let_def by (auto elim!: act_bind_InrE simp: act_change_Inr)
  have "confined ?os ?R (StageRelease ie package_dir staging m)"
    by (rule confined_StageRelease [OF assms(3,4) files(1)]) (use assms(6) in \<open>simp_all add: covers_def\<close>)
  from act_runs [OF this assms(1,2)] have total: "plain_fs ?os fs'" "only_changes ?R fs fs'" by blast+
  show "plain_fs ?os fs'" by (rule total(1))
  have kept: "fs' (place ?os ?src) = Some (Regular_file mc x)"
    by (rule only_changes_file [OF total(2) assms(8,7)])
  have p1: "plain_fs ?os fs1"
    by (rule remove_all_done(2) [OF 1 assms(2) plain assms(6)])
  have p2: "plain_fs ?os fs2"
    by (rule create_directories_done(2) [OF 2 p1 plain])
  note staged = stage_files_done [OF 3 p2 assms(3) plain files]
  have p3: "plain_fs ?os fs3" using staged by blast
  have p4: "plain_fs ?os fs4" and fs4: "fs4 = with_dirs (place ?os (parent_path ?dest)) fs3"
    using create_directories_done(1,2) [OF 4 p3] manifest_place(2) [OF plain] by simp_all
  obtain c y where c: "fs4 (place ?os ?src) = Some (Regular_file c y)"
    and fs': "fs' = fs4(place ?os ?dest \<mapsto> Regular_file c y)"
    using copy_file_plainE [OF 5 p4] manifest_place(2) plain assms(3) by (metis file_path_plain)
  have "place ?os ?src \<noteq> place ?os ?dest"
    using assms(8) manifest_place(1) [OF plain, of ?os] by auto
  then have "c = mc" using kept c fs' by simp
  moreover have "staged_file ie staging f fs'" if "f \<in> set (mn_files m)" for f
  proof -
    have f: "staged_file ie staging f fs3" using staged that by blast
    have "valid_file f" using files(1) that by (simp add: list_all_iff)
    then have "place ?os (path_append staging (mf_target f)) \<noteq> place ?os ?dest"
      using target_not_manifest plain by (simp add: manifest_place valid_file_def)
    then show ?thesis
      using f by (auto simp: staged_file_def fs' fs4 with_dirs_file)
  qed
  ultimately show "staged_release ie staging m mc fs'"
    unfolding staged_release_def using manifest_place(1) [OF plain, of ?os] by (auto simp: fs')
qed

lemma staged_release_moved:
  assumes "staged_release ie a m mc fs" "plain_path a" "plain_path b" "list_all valid_file (mn_files m)"
  shows "staged_release ie b m mc (move_tree (place (ie_os ie) a) (place (ie_os ie) b) fs)"
proof -
  have moved: "move_tree s t fs (t @ q) = fs (s @ q)" for s t q
    by (simp add: move_tree_def)
  have "staged_file ie b f (move_tree (place (ie_os ie) a) (place (ie_os ie) b) fs)"
    if "f \<in> set (mn_files m)" for f
  proof -
    have "safe_relative (mf_target f)" "staged_file ie a f fs"
      using that assms(1,4) by (auto simp: list_all_iff valid_file_def staged_release_def)
    then show ?thesis
      using assms(2,3) by (simp add: staged_file_def moved)
  qed
  then show ?thesis
    using assms(1) by (simp add: staged_release_def moved)
qed

lemma staged_release_dirs:
  assumes "staged_release ie dir m mc fs"
  shows "staged_release ie dir m mc (with_dirs q fs)"
proof -
  have "staged_file ie dir f (with_dirs q fs)" if "staged_file ie dir f fs" for f
    using that with_dirs_file unfolding staged_file_def by blast
  then show ?thesis
    using assms with_dirs_file unfolding staged_release_def by blast
qed

lemma launcher_assets_ok:
  assumes "plain_fs env fs" "plain_path dir"
  shows "ValidateInstallerLauncherAssets env fs dir = Inr None \<longleftrightarrow>
    (\<exists>c. fs (place env dir @ [''bin'', ''zfleet_launcher'']) = Some (Regular_file c True))"
  using assms
  by (auto simp: ValidateInstallerLauncherAssets_def IsLaunchableProgram_def node_at_def
      HasExecutablePermission_def split: option.splits fs_node.splits)

lemma staged_release_healthy:
  assumes "staged_release ie dir m mc fs" "plain_fs (ie_os ie) fs" "plain_path dir" "valid_manifest m"
    "ParseManifestJson (ie_json ie) (string_of_bytes mc) = Inr m" "path_filename dir = mn_version m"
    "mn_component m = ''installer'' \<Longrightarrow> ValidateInstallerLauncherAssets (ie_os ie) fs dir = Inr None"
  shows "\<exists>val. ValidateReleaseDirectory ie fs dir (mn_component m) = Inr val \<and> rv_ok val"
proof -
  have "check_release_file ie fs dir f = Inr None" if "f \<in> set (mn_files m)" for f
  proof -
    have f: "staged_file ie dir f fs" "safe_relative (mf_target f)"
      using that assms(1,4) by (auto simp: staged_release_def valid_manifest_def list_all_iff valid_file_def)
    then obtain c p where c: "fs (place (ie_os ie) dir @ path_names (mf_target f)) =
          Some (Regular_file c (mf_launchable f))" "length c = mf_size f"
        "Sha256FileHex (ie_digest ie) p (Some c) = Inr (mf_sha256 f)"
      using assms(3) by (auto simp: staged_file_def)
    then show ?thesis
      using f(2) assms(2,3) safe_relative_names(6) [OF f(2)] Sha256FileHex_path [of "ie_digest ie" _ c p]
      by (simp add: check_release_file_def node_at_def read_file_plain file_size_def
          IsLaunchableProgram_def HasExecutablePermission_def)
  qed
  then have "check_release_files ie fs dir files = Inr None" if "set files \<subseteq> set (mn_files m)" for files
    using that by (induction files) auto
  then have checks: "check_release_files ie fs dir (mn_files m) = Inr None" by blast
  have load: "LoadManifest ie fs (manifest_path_in dir) = Inr m"
    and exists: "fs_exists (ie_os ie) fs (manifest_path_in dir) = Inr True"
    using assms(1,2,3,5) manifest_place [OF assms(3)]
    by (auto simp: staged_release_def LoadManifest_def read_file_plain node_at_def)
  show ?thesis
    using assms(6,7) by (auto simp: ValidateReleaseDirectory_def Let_def load exists checks)
qed


subsection \<open>The status after a switch\<close>

definition installed_status :: "string \<Rightarrow> string \<Rightarrow> status_result" where
  "installed_status c v =
     \<lparr>st_component = c, st_state = ''installed'', st_version = Some v, st_message = None\<rparr>"

lemma status_installed:
  assumes "plain_fs (ie_os ie) fs" "plain_path root" "IsKnownComponent c" "IsSafeVersionString v" "trimmed v = v"
    "holds_version (ie_os ie) (cp_active_version_path (BuildPaths root c)) v fs"
    "\<exists>val. ValidateReleaseDirectory ie fs (path_append (cp_releases_root (BuildPaths root c)) v) c = Inr val \<and> rv_ok val"
  shows "GetStatus ie fs root c = Inr (installed_status c v)"
proof -
  let ?os = "ie_os ie" and ?dir = "path_append (cp_releases_root (BuildPaths root c)) v"
  let ?active = "cp_active_version_path (BuildPaths root c)"
  obtain val where val: "ValidateReleaseDirectory ie fs ?dir c = Inr val" "rv_ok val"
    using assms(7) by blast
  have fp: "file_path ?active" by (rule version_file_places(5) [OF assms(2,3)])
  have read: "ReadFileTrimmed ?os fs ?active = Inr v"
    by (rule holds_version_read [OF assms(6,1) fp assms(5)])
  have exists: "fs_exists ?os fs ?active = Inr True"
    using assms(1,6) fp by (auto simp: holds_version_def node_at_def simp del: BuildPaths_simps)
  have dir: "plain_path ?dir" "path_filename ?dir = v"
    using assms(2-4) by simp_all
  from ValidateReleaseDirectory_ok [OF val(1)] val(2) obtain m where m: "LoadManifest ie fs (manifest_path_in ?dir) = Inr m"
      "fs_exists ?os fs (manifest_path_in ?dir) = Inr True" "rv_version val = v"
    unfolding dir(2) by blast
  have "node_at fs (place ?os ?dir @ [''META'', ''manifest.json'']) \<noteq> None"
    using m(2) assms(1) manifest_place(1) [OF dir(1), of ?os] manifest_place(2) [OF dir(1)]
    by (simp del: BuildPaths_simps)
  then have "node_at fs (place ?os ?dir) = Some Directory"
    by (rule node_at_prefix [OF assms(1)]) (rule list.distinct(2))
  then have directory: "fs_exists ?os fs ?dir = Inr True" "fs_is_directory ?os fs ?dir = Inr True"
    using assms(1) dir(1) by (simp_all del: BuildPaths_simps)
  have "InspectActiveRelease ie fs (BuildPaths root c) c =
      Inr \<lparr>ri_state = kHealthy, ri_version = v, ri_message = []\<rparr>"
    unfolding InspectActiveRelease_def Let_def exists read bind_res_simps sum.case
    using assms(4) val m(3) directory by (simp del: BuildPaths_simps)
  then show ?thesis
    using assms(3) by (simp add: GetStatus_def ValidateComponent_def installed_status_def Let_def)
qed

lemma segment_version: "IsSafePathSegment v \<Longrightarrow> IsSafeVersionString v"
proof -
  have "\<not> (isalnum (CHR ''/'') \<or> CHR ''/'' = CHR ''.'' \<or> CHR ''/'' = CHR ''_'' \<or> CHR ''/'' = CHR ''-'')"
    "\<not> (isalnum (CHR 0x5C) \<or> CHR 0x5C = CHR ''.'' \<or> CHR 0x5C = CHR ''_'' \<or> CHR 0x5C = CHR ''-'')"
    by (simp_all add: char_classes)
  then show "IsSafePathSegment v \<Longrightarrow> IsSafeVersionString v"
    unfolding IsSafePathSegment_def IsSafeVersionString_def list_all_iff by metis
qed

text \<open>The region only shrinks as releases are added.\<close>

lemma region_shrinks:
  assumes "only_changes (install_region env root fs) fs fs1" "install_region env root fs1 p"
  shows "install_region env root fs p"
proof -
  have "fs (place env root @ [c, ''releases'', v]) = None"
    if "IsKnownComponent c" "fs1 (place env root @ [c, ''releases'', v]) = None" for c v
  proof (rule ccontr)
    assume some: "fs (place env root @ [c, ''releases'', v]) \<noteq> None"
    have "fs1 (place env root @ [c, ''releases'', v]) = fs (place env root @ [c, ''releases'', v])"
      using only_changes_outside [OF assms(1)]
        outside_region [where env = env and root = root and fs = fs and c = c and version = v, OF that(1) prefix_order.refl some]
      by blast
    then show False using that(2) some by simp
  qed
  then show ?thesis
    using assms(2) unfolding install_region_def by blast
qed

lemma installation_later:
  "installation env root fs \<Longrightarrow> only_changes (install_region env root fs) fs fs1 \<Longrightarrow> installation env root fs1"
  using region_shrinks unfolding installation_def by blast

lemma release_kept:
  assumes "plain_path root" "IsKnownComponent c" "simple_name v"
    "fs (place env root @ [c, ''releases'', v]) \<noteq> None" "only_changes (install_region env root fs) fs fs'"
  shows "same_tree env (path_append (cp_releases_root (BuildPaths root c)) v) fs fs'"
proof -
  have "place env (path_append (cp_releases_root (BuildPaths root c)) v) = place env root @ [c, ''releases'', v]"
    using assms(1-3) by simp
  then show ?thesis
    unfolding same_tree_def
    using only_changes_outside [OF assms(5)]
      outside_region [where env = env and root = root and fs = fs, OF assms(2) _ assms(4)]
    by metis
qed

text \<open>
  The second half of an installation: the version files and the stubs, for a release that is there
  and healthy.
\<close>

lemma activated:
  assumes "installation (ie_os ie) root fs" "plain_fs (ie_os ie) fs" "IsKnownComponent c" "IsSafeVersionString v"
    "trimmed v = v" "simple_name installer_version"
    "\<exists>val. ValidateReleaseDirectory ie fs (path_append (cp_releases_root (BuildPaths root c)) v) c = Inr val \<and> rv_ok val"
    "SwitchActiveVersion (ie_os ie) (BuildPaths root c) active v fs = (Inr u, fs1)"
    "refresh_stubs (ie_os ie) root c v installer_version fs1 = (Inr w, fs2)"
  shows "GetStatus ie fs2 root c = Inr (installed_status c v)" "plain_fs (ie_os ie) fs2"
    "switched_to (ie_os ie) root c active v fs fs2"
proof -
  let ?os = "ie_os ie" and ?dir = "path_append (cp_releases_root (BuildPaths root c)) v"
  have root: "plain_path root" and listing: "honest_listing ?os"
    using assms(1) by (simp_all add: installation_def)
  have v: "simple_name v" "IsSafeVersionString v" "trimmed v = v"
    using assms(4,5) by simp_all
  note sw = switch_done [OF assms(1,3,2,8)]
  note stubs = act_runs [OF confined_refresh_stubs [OF root listing assms(3) v(1) assms(6)] assms(9) sw(2)]
  show p2: "plain_fs ?os fs2" using stubs by blast
  show s2: "switched_to ?os root c active v fs fs2"
    by (rule stubs_keep_versions [OF root assms(3) sw(1)]) (use stubs in blast)
  have "only_changes (install_region ?os root fs) fs fs2"
    using act_runs [OF confined_switch [OF assms(1,3)] assms(8,2)]
      act_runs [OF confined_refresh [OF assms(1,3) v(1) assms(6)] assms(9) sw(2)] only_changes_trans
    by blast
  moreover have "fs (place ?os root @ [c, ''releases'', v]) \<noteq> None"
  proof -
    obtain val where "ValidateReleaseDirectory ie fs ?dir c = Inr val" "rv_ok val"
      using assms(7) by blast
    then have "fs_exists ?os fs (manifest_path_in ?dir) = Inr True"
      using ValidateReleaseDirectory_ok by blast
    then have "node_at fs ((place ?os root @ [c, ''releases'', v]) @ [''META'', ''manifest.json'']) \<noteq> None"
      using assms(2,3) root v(1) by (simp add: manifest_path_in_def)
    then have "node_at fs (place ?os root @ [c, ''releases'', v]) = Some Directory"
      by (rule node_at_prefix [OF assms(2)]) (rule list.distinct(2))
    then show ?thesis by (simp add: node_at_def)
  qed
  ultimately have tree: "same_tree ?os ?dir fs fs2"
    by (intro release_kept root assms(3) v(1))
  have "ValidateReleaseDirectory ie fs2 ?dir c = ValidateReleaseDirectory ie fs ?dir c"
    by (rule same_release [OF assms(2) p2 _ tree]) (use root assms(3) v(1) in simp)
  then show "GetStatus ie fs2 root c = Inr (installed_status c v)"
    using status_installed [OF p2 root assms(3) v(2,3)] s2 assms(7)
    by (simp add: switched_to_def del: BuildPaths_simps)
qed


subsection \<open>A successful installation\<close>

lemma install_staged_done:
  assumes "install_staged ie root package_dir m active installer_version fs = (Inr u, fs')"
    "installation (ie_os ie) root fs" "plain_fs (ie_os ie) fs" "plain_path package_dir"
    "LoadManifest ie fs (manifest_path_in package_dir) = Inr m" "simple_name installer_version"
    "fs (place (ie_os ie) root @ [mn_component m, ''releases'', mn_version m]) = None"
    "\<not> install_region (ie_os ie) root fs (place (ie_os ie) (manifest_path_in package_dir))"
  obtains fs1 fs2 where "installation (ie_os ie) root fs1" "plain_fs (ie_os ie) fs1"
    "\<exists>val. ValidateReleaseDirectory ie fs1
        (path_append (cp_releases_root (BuildPaths root (mn_component m))) (mn_version m)) (mn_component m) = Inr val \<and> rv_ok val"
    "SwitchActiveVersion (ie_os ie) (BuildPaths root (mn_component m)) active (mn_version m) fs1 = (Inr (), fs2)"
    "refresh_stubs (ie_os ie) root (mn_component m) (mn_version m) installer_version fs2 = (Inr u, fs')"
proof -
  let ?os = "ie_os ie" and ?c = "mn_component m" and ?v = "mn_version m"
  let ?staging = "path_append (cp_staging_root (BuildPaths root ?c)) ?v"
  let ?release = "path_append (cp_releases_root (BuildPaths root ?c)) ?v"
  let ?R = "install_region ?os root fs"
  have i: "plain_path root" "honest_listing ?os" "\<not> ?R (oe_cwd ?os)"
    using assms(2) by (simp_all add: installation_def)
  have valid: "valid_manifest m" by (rule LoadManifest_valid [OF assms(5)])
  then have c: "IsKnownComponent ?c" "simple_name ?v" "list_all valid_file (mn_files m)"
    by (simp_all add: valid_manifest_def)
  have s: "file_path ?staging" "place ?os ?staging = (place ?os root @ [?c, ''.staging'']) @ [?v]"
    and r: "file_path ?release" "place ?os ?release = place ?os root @ [?c, ''releases'', ?v]"
      "path_filename ?release = ?v"
    using i c by simp_all
  have sR: "covers ?R (place ?os ?staging)"
    unfolding s(2) by (rule covers_append) (rule region_intros(1) [OF c(1)])
  have rR: "covers ?R (place ?os ?release)"
    using region_intros(4) [OF c(1), where fs = fs and env = ?os and root = root] assms(7) r by simp
  have outside: "\<not> prefix (place ?os ?staging) (oe_cwd ?os)" "\<not> prefix (place ?os ?release) (oe_cwd ?os)"
    "\<not> prefix (place ?os ?staging) (place ?os (manifest_path_in package_dir))"
    using i(3) sR rR coversD assms(8) by blast+
  obtain mc where mc: "read_file ?os fs (manifest_path_in package_dir) = Some mc"
    and parse: "ParseManifestJson (ie_json ie) (string_of_bytes mc) = Inr m"
    using assms(5) by (auto simp: LoadManifest_def bind_res_Inr_iff)
  have "node_at fs (place ?os (manifest_path_in package_dir)) \<noteq> Some Directory"
    "place ?os (manifest_path_in package_dir) \<noteq> []"
    using mc assms(3,4) manifest_place [OF assms(4)] by (auto simp: read_file_plain)
  then obtain x where src: "fs (place ?os (manifest_path_in package_dir)) = Some (Regular_file mc x)"
    using mc assms(3,4) manifest_place(2) [OF assms(4)]
    by (auto simp: read_file_plain node_at_def split: option.splits fs_node.splits)
  obtain fs1 launcher fs2 fs3 fs4 where 1: "StageRelease ie package_dir ?staging m fs = (Inr (), fs1)"
    and 2: "(if ?c = ''installer'' then ValidateInstallerLauncherAssets ?os fs1 ?staging else Inr None) = Inr launcher"
    and 3: "launcher = None"
    and 4: "create_directories ?os fs1 (cp_releases_root (BuildPaths root ?c)) = Inr fs2"
    and 5: "rename_path ?os fs2 ?staging ?release = Inr fs3"
    and 6: "SwitchActiveVersion ?os (BuildPaths root ?c) active ?v fs3 = (Inr (), fs4)"
    and 7: "refresh_stubs ?os root ?c ?v installer_version fs4 = (Inr u, fs')"
    using assms(1) unfolding install_staged_def Let_def
    by (auto elim!: act_read_bind_InrE act_bind_InrE simp: act_change_Inr simp del: BuildPaths_simps
        split: option.splits)
  note staged = StageRelease_done [OF 1 assms(3,4) s(1) valid outside(1) src outside(3)]
  have p2: "plain_fs ?os fs2"
    by (rule create_directories_done(2) [OF 4 staged(2)]) (use i c in simp)
  have fs2: "fs2 = with_dirs (place ?os (cp_releases_root (BuildPaths root ?c))) fs1"
    by (rule create_directories_done(1) [OF 4 staged(2)]) (use i c in simp)
  have staged2: "staged_release ie ?staging m mc fs2"
    unfolding fs2 by (rule staged_release_dirs [OF staged(1)])
  have differ: "place ?os ?staging \<noteq> place ?os ?release"
    by (simp add: s(2) r(2) del: BuildPaths_simps)
  have fs3: "fs3 = move_tree (place ?os ?staging) (place ?os ?release) fs2"
    using 5 p2 file_path_plain [OF s(1)] file_path_plain [OF r(1)] i(2)
  proof (cases rule: rename_plain_moves)
    case same
    then show ?thesis using differ by blast
  next
    case moved
    then show ?thesis by blast
  qed
  have p3: "plain_fs ?os fs3"
    by (rule rename_plain [OF 5 p2 file_path_plain [OF s(1)] file_path_plain [OF r(1)] i(2) outside(1,2)])
  have staged3: "staged_release ie ?release m mc fs3"
    unfolding fs3 by (rule staged_release_moved [OF staged2 file_path_plain [OF s(1)] file_path_plain [OF r(1)] c(3)])
  have assets: "ValidateInstallerLauncherAssets ?os fs3 ?release = Inr None" if "?c = ''installer''"
  proof -
    have "ValidateInstallerLauncherAssets ?os fs1 ?staging = Inr None"
      using 2 3 that by simp
    then obtain b where "fs1 (place ?os ?staging @ [''bin'', ''zfleet_launcher'']) = Some (Regular_file b True)"
      using launcher_assets_ok [OF staged(2) file_path_plain [OF s(1)]] by blast
    then have "fs3 (place ?os ?release @ [''bin'', ''zfleet_launcher'']) = Some (Regular_file b True)"
      by (simp add: fs3 move_tree_def fs2 with_dirs_file)
    then show ?thesis
      using launcher_assets_ok [OF p3 file_path_plain [OF r(1)]] by blast
  qed
  have healthy: "\<exists>val. ValidateReleaseDirectory ie fs3 ?release ?c = Inr val \<and> rv_ok val"
    by (rule staged_release_healthy [OF staged3 p3 file_path_plain [OF r(1)] valid parse r(3) assets])
  have "only_changes ?R fs fs3"
  proof -
    have "confined ?os ?R (StageRelease ie package_dir ?staging m)"
      by (rule confined_StageRelease [OF assms(4) s(1) c(3) sR i(3)])
    moreover have "confined ?os ?R (act_change (\<lambda>fs. create_directories ?os fs (cp_releases_root (BuildPaths root ?c))))"
      by (rule confined_directories [where q = "place ?os ?release"])
        (use i c r covers_self [OF rR] in \<open>simp_all add: prefix_def\<close>)
    moreover have "confined ?os ?R (act_change (\<lambda>fs. rename_path ?os fs ?staging ?release))"
      by (rule confined_rename) (use s r i outside sR rR coversD in auto)
    ultimately show ?thesis
      using act_runs 1 4 5 assms(3) staged(2) p2 only_changes_trans
      by (metis (no_types, lifting) act_change_Inr)
  qed
  then have "installation ?os root fs3"
    by (rule installation_later [OF assms(2)])
  then show thesis
    using p3 healthy 6 7 by (rule that)
qed


lemma act_catch_return_Inr:
  assumes "act_catch m (\<lambda>ex. act_return (apply_failure (what ex))) fs = (Inr r, fs')" "ap_ok r"
  shows "m fs = (Inr r, fs')"
  using assms by (auto simp: act_catch_def apply_failure_def split: prod.splits sum.splits)

lemma act_catch_rethrow_Inr:
  assumes "act_catch m (\<lambda>ex. act_bind n (\<lambda>_. act_throw ex)) fs = (Inr r, fs')"
  shows "m fs = (Inr r, fs')"
  using assms by (auto simp: act_catch_def act_bind_run split: prod.splits sum.splits)

definition previous_recorded :: "os_env \<Rightarrow> string \<Rightarrow> string \<Rightarrow> active_release_info \<Rightarrow> string \<Rightarrow> file_system \<Rightarrow> bool" where
  "previous_recorded env root c active v fs \<longleftrightarrow>
     (ShouldRecordPreviousVersion active v \<longrightarrow>
        ReadFileTrimmed env fs (cp_previous_version_path (BuildPaths root c)) = Inr (ri_version active))"

lemma switched_previous:
  assumes "switched_to (ie_os ie) root c active v fs fs'" "plain_fs (ie_os ie) fs'" "plain_path root"
    "IsKnownComponent c" "InspectActiveRelease ie fs0 (BuildPaths root c) c = Inr active"
  shows "previous_recorded (ie_os ie) root c active v fs'"
proof -
  have "ReadFileTrimmed (ie_os ie) fs' (cp_previous_version_path (BuildPaths root c)) = Inr (ri_version active)"
    if rec: "ShouldRecordPreviousVersion active v"
  proof (rule holds_version_read)
    show "holds_version (ie_os ie) (cp_previous_version_path (BuildPaths root c)) (ri_version active) fs'"
      using assms(1) rec by (simp add: switched_to_def)
    show "trimmed (ri_version active) = ri_version active"
      using healthy_release(2) [OF assms(5)] rec ReadFileTrimmed_trimmed
      by (simp add: ShouldRecordPreviousVersion_def)
  qed (use assms(2) version_file_places(6) [OF assms(3,4)] in simp_all)
  then show ?thesis by (simp add: previous_recorded_def)
qed

lemma apply_directory_done:
  assumes "apply_directory ie root package_dir fs = (Inr r, fs')" "ap_ok r"
    "installation (ie_os ie) root fs" "plain_fs (ie_os ie) fs" "plain_path package_dir"
    "\<not> install_region (ie_os ie) root fs (place (ie_os ie) (manifest_path_in package_dir))"
  shows "GetStatus ie fs' root (ap_component r) = Inr (installed_status (ap_component r) (ap_version r)) \<and>
    (\<exists>active. InspectActiveRelease ie fs (BuildPaths root (ap_component r)) (ap_component r) = Inr active \<and>
       previous_recorded (ie_os ie) root (ap_component r) active (ap_version r) fs')"
proof -
  let ?os = "ie_os ie"
  obtain m active installer_version installed where m: "LoadManifest ie fs (manifest_path_in package_dir) = Inr m"
    and active: "InspectActiveRelease ie fs (BuildPaths root (mn_component m)) (mn_component m) = Inr active"
    and resolved: "ResolveInstallerVersionForPackage ie fs root m = Inr installer_version"
    and exists: "fs_exists ?os fs (path_append (cp_releases_root (BuildPaths root (mn_component m))) (mn_version m)) = Inr installed"
    and run: "(if installed then
        act_bind (act_read (\<lambda>fs. ValidateReleaseDirectory ie fs
            (path_append (cp_releases_root (BuildPaths root (mn_component m))) (mn_version m)) (mn_component m)))
          (\<lambda>validation.
        if \<not> rv_ok validation
        then act_return \<lparr>ap_ok = False, ap_component = mn_component m, ap_version = mn_version m,
                         ap_message = ''existing release is unhealthy: '' @ rv_message validation\<rparr>
        else
          act_bind (SwitchActiveVersion ?os (BuildPaths root (mn_component m)) active (mn_version m)) (\<lambda>_.
          act_bind (refresh_stubs ?os root (mn_component m) (mn_version m) installer_version) (\<lambda>_.
          act_return \<lparr>ap_ok = True, ap_component = mn_component m, ap_version = mn_version m,
                      ap_message = ''release already installed''\<rparr>)))
      else
        act_bind (act_catch (install_staged ie root package_dir m active installer_version)
                    (\<lambda>ex. act_bind (quietly (act_change (\<lambda>fs. remove_all ?os fs
                       (path_append (cp_staging_root (BuildPaths root (mn_component m))) (mn_version m))))) (\<lambda>_. act_throw ex))) (\<lambda>_.
        act_return \<lparr>ap_ok = True, ap_component = mn_component m, ap_version = mn_version m,
                    ap_message = ''applied''\<rparr>)) fs = (Inr r, fs')"
    using assms(1) unfolding apply_directory_def Let_def
    by (elim act_read_bind_InrE) (auto elim!: act_read_bind_InrE simp del: BuildPaths_simps split: if_splits)
  let ?c = "mn_component m" and ?v = "mn_version m"
  have valid: "valid_manifest m" by (rule LoadManifest_valid [OF m])
  then have c: "IsKnownComponent ?c" "IsSafePathSegment ?v" "simple_name ?v"
    by (simp_all add: valid_manifest_def)
  have root: "plain_path root" using assms(3) by (simp add: installation_def)
  have iv: "simple_name installer_version"
    by (rule resolved_installer_version [OF resolved c(3)])
  obtain fs1 fs2 where
      ready: "installation ?os root fs1" "plain_fs ?os fs1"
        "\<exists>val. ValidateReleaseDirectory ie fs1 (path_append (cp_releases_root (BuildPaths root ?c)) ?v) ?c = Inr val \<and> rv_ok val"
    and sw: "SwitchActiveVersion ?os (BuildPaths root ?c) active ?v fs1 = (Inr (), fs2)"
    and stubs: "refresh_stubs ?os root ?c ?v installer_version fs2 = (Inr (), fs')"
    and r: "ap_component r = ?c" "ap_version r = ?v"
  proof (cases installed)
    case True
    then show thesis
      using run assms(2-4) that
      by (auto elim!: act_read_bind_InrE act_bind_InrE simp del: BuildPaths_simps split: if_splits)
  next
    case False
    then have new: "fs (place ?os root @ [?c, ''releases'', ?v]) = None"
      using exists assms(4) root c by (simp add: node_at_def)
    have caught: "act_catch (install_staged ie root package_dir m active installer_version)
        (\<lambda>ex. act_bind (quietly (act_change (\<lambda>fs. remove_all ?os fs
           (path_append (cp_staging_root (BuildPaths root ?c)) ?v)))) (\<lambda>_. act_throw ex)) fs = (Inr (), fs')"
      and "ap_component r = ?c" "ap_version r = ?v"
      using run False by (auto elim!: act_bind_InrE simp del: BuildPaths_simps)
    note staged = act_catch_rethrow_Inr [OF caught]
    then show thesis
      using install_staged_done [OF staged assms(3-5) m iv new assms(6)] that \<open>ap_component r = ?c\<close> \<open>ap_version r = ?v\<close>
      by blast
  qed
  note act = activated [OF ready(1,2) c(1) segment_version [OF c(2)] segment_trimmed [OF c(2)] iv ready(3) sw stubs]
  show ?thesis
    using act(1) active switched_previous [OF act(3,2) root c(1) active]
    by (auto simp: r simp del: BuildPaths_simps)
qed

text \<open>
  C6: A package that was applied is installed.  In an installation without symbolic links, and for a
  package directory outside what an installation changes, if \<open>ApplyPackageDirectory\<close> reports success
  then the status of the component is "installed" at the version it reports, which means that the
  active version file names a release that exists and holds every file of its manifest with its size
  and digest; and if a healthy release of another version was active before, the previous version
  file names that one.
\<close>

theorem applied_package_is_installed:
  assumes "ApplyPackageDirectory ie root package_dir fs = (Inr r, fs')" "ap_ok r"
    "installation (ie_os ie) root fs" "plain_fs (ie_os ie) fs" "plain_path package_dir"
    "\<not> install_region (ie_os ie) root fs (place (ie_os ie) (manifest_path_in package_dir))"
  shows "GetStatus ie fs' root (ap_component r) = Inr (installed_status (ap_component r) (ap_version r)) \<and>
    (\<exists>active. InspectActiveRelease ie fs (BuildPaths root (ap_component r)) (ap_component r) = Inr active \<and>
       previous_recorded (ie_os ie) root (ap_component r) active (ap_version r) fs')"
  by (rule apply_directory_done [OF act_catch_return_Inr [OF
        assms(1) [unfolded ApplyPackageDirectory_def] assms(2)] assms(2-6)])


text \<open>File systems for the examples, from their parts.\<close>

fun directory_of :: "(string \<times> file_system) list \<Rightarrow> file_system" where
  "directory_of entries [] = Some Directory"
| "directory_of entries (c # q) =
     (case map_of entries c of None \<Rightarrow> None | Some below \<Rightarrow> below q)"

definition file_of :: "string \<Rightarrow> bool \<Rightarrow> file_system" where
  "file_of text executable q = (if q = [] then Some (Regular_file (bytes_of_string text) executable) else None)"

definition plain_tree :: "file_system \<Rightarrow> bool" where
  "plain_tree fs \<longleftrightarrow> (\<forall>p t. fs p \<noteq> Some (Symlink t)) \<and> (\<forall>p c. fs (p @ [c]) \<noteq> None \<longrightarrow> fs p = Some Directory)"

lemma plain_tree_file [simp]: "plain_tree (file_of text executable)"
  by (simp add: plain_tree_def file_of_def)

lemma plain_tree_directory [simp]:
  assumes "list_all (\<lambda>(c, below). plain_tree below) entries"
  shows "plain_tree (directory_of entries)"
proof -
  have below: "plain_tree b" if "map_of entries c = Some b" for c b
    using assms map_of_SomeD [OF that] by (auto simp: list_all_iff)
  have "directory_of entries p \<noteq> Some (Symlink t)" for p t
    using below by (cases p) (auto simp: plain_tree_def split: option.splits)
  moreover have "directory_of entries (p @ [c]) \<noteq> None \<longrightarrow> directory_of entries p = Some Directory" for p c
    using below by (cases p) (fastforce simp: plain_tree_def split: option.splits)+
  ultimately show ?thesis by (simp add: plain_tree_def)
qed

lemma plain_tree_fs: "plain_tree fs \<Longrightarrow> plain_fs (ie_os demo_installer) fs"
  by (auto simp: plain_tree_def plain_fs_def node_at_def demo_place(2))

definition demo_installer_manifest :: manifest where
  "demo_installer_manifest =
     \<lparr>mn_schema_version = 2, mn_component = ''installer'', mn_version = ''2.0.0'',
      mn_platform = ''linux'', mn_arch = ''x64'', mn_build_type = ''release'',
      mn_min_installer_version = ''1.0.0'', mn_files = []\<rparr>"

definition demo_applying :: "u8 list installer_env" where
  "demo_applying = demo_installer\<lparr>ie_json :=
     \<lparr>jl_parse = (\<lambda>t. Inr (manifest_payload demo_installer_manifest ''release'')),
      jl_dump = (\<lambda>j. Inr ''{}'')\<rparr>\<rparr>"

definition demo_release :: "string \<Rightarrow> (string \<times> file_system) list \<Rightarrow> file_system" where
  "demo_release manifest_text entries =
     directory_of ((''META'', directory_of [(''manifest.json'', file_of manifest_text False)]) # entries)"

definition demo_launcher :: "string \<times> file_system" where
  "demo_launcher = (''bin'', directory_of [(''zfleet_launcher'', file_of [] True)])"

definition demo_package :: file_system where
  "demo_package = directory_of
     [(''p'', demo_release [] []),
      (''r'', directory_of [(''installer'', directory_of
         [(''releases'', directory_of [(''2.0.0'', demo_release [] [demo_launcher])])])])]"

lemma demo_applied:
  "fst (ApplyPackageDirectory demo_applying ''/r'' ''/p'' demo_package) =
     Inr \<lparr>ap_ok = True, ap_component = ''installer'', ap_version = ''2.0.0'',
          ap_message = ''release already installed''\<rparr>"
  by code_simp


lemma demo_applying_os [simp]: "ie_os demo_applying = ie_os demo_installer"
  by (simp add: demo_applying_def)

lemma demo_package_plain: "plain_fs (ie_os demo_applying) demo_package"
  by (simp add: plain_tree_fs demo_package_def demo_release_def demo_launcher_def)

theorem applied_package_is_installed_witness:
  "GetStatus demo_applying (snd (ApplyPackageDirectory demo_applying ''/r'' ''/p'' demo_package)) ''/r'' ''installer'' =
     Inr (installed_status ''installer'' ''2.0.0'')"
proof -
  let ?r = "\<lparr>ap_ok = True, ap_component = ''installer'', ap_version = ''2.0.0'',
             ap_message = ''release already installed''\<rparr>"
  have run: "ApplyPackageDirectory demo_applying ''/r'' ''/p'' demo_package =
      (Inr ?r, snd (ApplyPackageDirectory demo_applying ''/r'' ''/p'' demo_package))"
    using demo_applied by (simp add: prod_eq_iff)
  have outside: "\<not> install_region (ie_os demo_applying) ''/r'' demo_package
      (place (ie_os demo_applying) (manifest_path_in ''/p''))"
    by (simp add: install_region_def manifest_path_in_def demo_place place_def is_absolute_def
        path_names_def path_append_def)
  show ?thesis
    using applied_package_is_installed [OF run _ _ demo_package_plain _ outside] demo_installation
    by (simp add: plain_path_def path_names_def)
qed


subsection \<open>A successful rollback\<close>

lemma switch_back_switches:
  assumes "switch_back ie root c (ri_version active) previous fs = (Inr u, fs')"
    "ri_state active = kHealthy" "previous \<noteq> ri_version active" "simple_name previous"
  obtains fs1 installer_version where "simple_name installer_version"
    "SwitchActiveVersion (ie_os ie) (BuildPaths root c) active previous fs = (Inr (), fs1)"
    "refresh_stubs (ie_os ie) root c previous installer_version fs1 = (Inr u, fs')"
proof -
  let ?os = "ie_os ie" and ?paths = "BuildPaths root c"
  obtain fs0 fs1 installer_version where 1: "WriteVersionFile ?os (cp_previous_version_path ?paths) (ri_version active) fs = (Inr (), fs0)"
    and 2: "WriteVersionFile ?os (cp_active_version_path ?paths) previous fs0 = (Inr (), fs1)"
    and 3: "(if c = ''installer'' then Inr previous
      else ResolveInstallerVersionForPackage ie fs1 root (rollback_manifest c previous)) = Inr installer_version"
    and 4: "(if c = ''installer'' then EnsureLauncherStubs ?os root installer_version kManagedComponents
      else EnsureLauncherStubs ?os root installer_version [c]) fs1 = (Inr u, fs')"
    using assms(1) unfolding switch_back_def Let_def
    by (elim act_bind_InrE) (auto elim!: act_bind_InrE simp del: BuildPaths_simps)
  have "SwitchActiveVersion ?os ?paths active previous fs = (Inr (), fs1)"
    using 1 2 assms(2,3)
    by (simp add: SwitchActiveVersion_def ShouldRecordPreviousVersion_def act_bind_run del: BuildPaths_simps)
  moreover have "simple_name installer_version"
    using 3 assms(4) resolved_installer_version [of ie fs1 root "rollback_manifest c previous" installer_version]
    by (auto simp: rollback_manifest_def split: if_splits)
  moreover have "refresh_stubs ?os root c previous installer_version fs1 = (Inr u, fs')"
    using 3 4 by (auto simp: refresh_stubs_def split: if_splits)
  ultimately show thesis using that by blast
qed

lemma rollback_failure_not_ok [simp]: "\<not> rb_ok (MakeRollbackFailure c a b msg)"
  by (simp add: MakeRollbackFailure_def)

lemma other_state: "s \<noteq> kMissing \<Longrightarrow> s \<noteq> kCorrupt \<Longrightarrow> s = kHealthy"
  by (cases s) simp_all

lemma rollback_run:
  assumes "RollbackComponent ie root c fs = (Inr r, fs')" "rb_ok r"
  obtains active where "IsKnownComponent c" "InspectActiveRelease ie fs (BuildPaths root c) c = Inr active"
    "ri_state active = kHealthy" "IsSafeVersionString (rb_to_version r)" "rb_to_version r \<noteq> ri_version active"
    "ReadFileTrimmed (ie_os ie) fs (cp_previous_version_path (BuildPaths root c)) = Inr (rb_to_version r)"
    "\<exists>val. ValidateReleaseDirectory ie fs
       (path_append (cp_releases_root (BuildPaths root c)) (rb_to_version r)) c = Inr val \<and> rv_ok val"
    "rb_component r = c" "rb_from_version r = ri_version active"
    "switch_back ie root c (ri_version active) (rb_to_version r) fs = (Inr (), fs')"
proof -
  have known: "IsKnownComponent c"
    using assms by (auto simp: RollbackComponent_def ValidateComponent_def Let_def act_throw_def split: if_splits)
  obtain active previous where "InspectActiveRelease ie fs (BuildPaths root c) c = Inr active"
    "ri_state active = kHealthy" "IsSafeVersionString previous" "previous \<noteq> ri_version active"
    "ReadFileTrimmed (ie_os ie) fs (cp_previous_version_path (BuildPaths root c)) = Inr previous"
    "\<exists>val. ValidateReleaseDirectory ie fs
       (path_append (cp_releases_root (BuildPaths root c)) previous) c = Inr val \<and> rv_ok val"
    and caught: "act_catch
        (act_bind (switch_back ie root c (ri_version active) previous) (\<lambda>_.
         act_return \<lparr>rb_ok = True, rb_component = c, rb_from_version = ri_version active,
                     rb_to_version = previous, rb_message = ''rolled back''\<rparr>))
        (\<lambda>ex. act_return (MakeRollbackFailure c (ri_version active) previous (what ex))) fs = (Inr r, fs')"
    using assms known unfolding RollbackComponent_def Let_def
    by (auto elim!: act_read_bind_InrE dest!: other_state simp: ValidateComponent_def
        simp del: BuildPaths_simps split: if_splits sum.splits)
  moreover have "switch_back ie root c (ri_version active) previous fs = (Inr (), fs')"
    "r = \<lparr>rb_ok = True, rb_component = c, rb_from_version = ri_version active,
          rb_to_version = previous, rb_message = ''rolled back''\<rparr>"
    using caught assms(2)
    by (auto simp: act_catch_def act_bind_run split: prod.splits sum.splits)
  ultimately show thesis
    using known that by simp
qed

text \<open>
  C24: A successful rollback exchanges the two versions.  In an installation without symbolic links,
  if \<open>RollbackComponent\<close> reports success then the version it says it came from was installed and
  healthy, the version it went to is another one, that the previous version file named; afterwards
  the component is installed, healthy, at that version, and the previous version file names the
  version it came from, so that the next rollback goes back to it.
\<close>

theorem rollback_exchanges_versions:
  assumes "RollbackComponent ie root component fs = (Inr r, fs')" "rb_ok r"
    "installation (ie_os ie) root fs" "plain_fs (ie_os ie) fs"
  shows "GetStatus ie fs root component = Inr (installed_status component (rb_from_version r)) \<and>
    rb_to_version r \<noteq> rb_from_version r \<and>
    GetStatus ie fs' root component = Inr (installed_status component (rb_to_version r)) \<and>
    ReadFileTrimmed (ie_os ie) fs' (cp_previous_version_path (BuildPaths root component)) =
      Inr (rb_from_version r)"
proof -
  let ?os = "ie_os ie"
  obtain active where a: "IsKnownComponent component"
      "InspectActiveRelease ie fs (BuildPaths root component) component = Inr active"
      "ri_state active = kHealthy" "IsSafeVersionString (rb_to_version r)" "rb_to_version r \<noteq> ri_version active"
    and previous: "ReadFileTrimmed ?os fs (cp_previous_version_path (BuildPaths root component)) = Inr (rb_to_version r)"
    and healthy: "\<exists>val. ValidateReleaseDirectory ie fs
       (path_append (cp_releases_root (BuildPaths root component)) (rb_to_version r)) component = Inr val \<and> rv_ok val"
    and from_version: "rb_from_version r = ri_version active"
    and run: "switch_back ie root component (ri_version active) (rb_to_version r) fs = (Inr (), fs')"
    by (rule rollback_run [OF assms(1,2)])
  have root: "plain_path root" using assms(3) by (simp add: installation_def)
  obtain fs1 iv where iv: "simple_name iv"
    and sw: "SwitchActiveVersion ?os (BuildPaths root component) active (rb_to_version r) fs = (Inr (), fs1)"
    and stubs: "refresh_stubs ?os root component (rb_to_version r) iv fs1 = (Inr (), fs')"
    by (rule switch_back_switches [OF run a(3,5)]) (use a(4) in simp_all)
  note act = activated [OF assms(3,4) a(1,4) ReadFileTrimmed_trimmed [OF previous] iv healthy sw stubs]
  have "GetStatus ie fs root component = Inr (installed_status component (rb_from_version r))"
    using a(1-3) from_version
    by (simp add: GetStatus_def ValidateComponent_def installed_status_def Let_def del: BuildPaths_simps)
  then show ?thesis
    using act(1) a(3,5) from_version switched_previous [OF act(3,2) root a(1,2)]
    by (simp add: previous_recorded_def ShouldRecordPreviousVersion_def del: BuildPaths_simps)
qed


definition demo_rolling :: "string \<Rightarrow> u8 list installer_env" where
  "demo_rolling component = demo_installer\<lparr>ie_json :=
     \<lparr>jl_parse = (\<lambda>t. Inr (Json_object
        [(''schema_version'', Json_int 2), (''component'', Json_string component),
         (''version'', Json_string t), (''platform'', Json_string ''l''), (''arch'', Json_string ''x''),
         (''build_type'', Json_string ''debug''), (''min_installer_version'', Json_string ''1''),
         (''files'', Json_array [])])),
      jl_dump = (\<lambda>j. Inr ''{}'')\<rparr>\<rparr>"

definition demo_versions :: "string \<Rightarrow> string \<Rightarrow> string \<times> file_system" where
  "demo_versions active previous =
     (''var'', directory_of [(''active-version'', file_of active False), (''previous-version'', file_of previous False)])"

definition demo_releases :: file_system where
  "demo_releases = directory_of [(''r'', directory_of [(''installer'', directory_of
     [demo_versions ''2'' ''1'',
      (''releases'', directory_of [(''1'', demo_release ''1'' [demo_launcher]),
                                   (''2'', demo_release ''2'' [demo_launcher])])])])]"

lemma demo_rolling_os [simp]: "ie_os (demo_rolling component) = ie_os demo_installer"
  by (simp add: demo_rolling_def)

lemma demo_releases_plain: "plain_fs (ie_os (demo_rolling ''installer'')) demo_releases"
  by (simp add: plain_tree_fs demo_releases_def demo_release_def demo_launcher_def demo_versions_def)

lemma demo_rolled_back:
  "fst (RollbackComponent (demo_rolling ''installer'') ''/r'' ''installer'' demo_releases) =
     Inr \<lparr>rb_ok = True, rb_component = ''installer'', rb_from_version = ''2'',
          rb_to_version = ''1'', rb_message = ''rolled back''\<rparr>"
  by code_simp

theorem rollback_exchanges_versions_witness:
  "GetStatus (demo_rolling ''installer'') (snd (RollbackComponent (demo_rolling ''installer'') ''/r'' ''installer'' demo_releases)) ''/r'' ''installer'' =
     Inr (installed_status ''installer'' ''1'')"
proof -
  let ?r = "\<lparr>rb_ok = True, rb_component = ''installer'', rb_from_version = ''2'',
             rb_to_version = ''1'', rb_message = ''rolled back''\<rparr>"
  have run: "RollbackComponent (demo_rolling ''installer'') ''/r'' ''installer'' demo_releases =
      (Inr ?r, snd (RollbackComponent (demo_rolling ''installer'') ''/r'' ''installer'' demo_releases))"
    using demo_rolled_back by (simp add: prod_eq_iff)
  show ?thesis
    using rollback_exchanges_versions [OF run _ _ demo_releases_plain] demo_installation by simp
qed

text \<open>
  A rollback of another component without an installed installer switches the versions before it
  looks for the installer: it reports failure, and the component is at the other version.
\<close>

definition demo_alone :: file_system where
  "demo_alone = directory_of [(''r'', directory_of [(''agent'', directory_of
     [demo_versions ''2'' ''1'',
      (''releases'', directory_of [(''1'', demo_release ''1'' []), (''2'', demo_release ''2'' [])])])])]"

lemma failed_rollback_has_switched:
  "fst (RollbackComponent (demo_rolling ''agent'') ''/r'' ''agent'' demo_alone) =
     Inr (MakeRollbackFailure ''agent'' ''2'' ''1'' ''active installer release is not installed'')"
  "GetStatus (demo_rolling ''agent'') demo_alone ''/r'' ''agent'' = Inr (installed_status ''agent'' ''2'')"
  "GetStatus (demo_rolling ''agent'') (snd (RollbackComponent (demo_rolling ''agent'') ''/r'' ''agent'' demo_alone)) ''/r'' ''agent'' =
     Inr (installed_status ''agent'' ''1'')"
  by code_simp+

end
