(* ===== verification/Machine.thy ===== *)
theory Machine
  imports File_Actions
begin

section \<open>Programs on a machine\<close>

text \<open>
  The agent and the launcher do more than change files: they start processes, use the network, read
  clocks and wait.  A machine is a file system with the rest of the world as a parameter; a program
  takes a machine to a result, or the exception it ends with, and the machine it leaves.  \<open>None\<close> is
  a program that does not return.
\<close>

record 'x machine =
  mc_files :: file_system
  mc_rest :: 'x

type_synonym ('x, 'a) prog = "'x machine \<Rightarrow> ('a result \<times> 'x machine) option"

definition prog_return :: "'a \<Rightarrow> ('x, 'a) prog" where
  "prog_return x w = Some (Inr x, w)"

definition prog_throw :: "exn \<Rightarrow> ('x, 'a) prog" where
  "prog_throw e w = Some (Inl e, w)"

definition prog_bind :: "('x, 'a) prog \<Rightarrow> ('a \<Rightarrow> ('x, 'b) prog) \<Rightarrow> ('x, 'b) prog" where
  "prog_bind m f w =
     (case m w of
        None \<Rightarrow> None
      | Some (Inl e, w') \<Rightarrow> Some (Inl e, w')
      | Some (Inr x, w') \<Rightarrow> f x w')"

definition prog_catch :: "('x, 'a) prog \<Rightarrow> (exn \<Rightarrow> ('x, 'a) prog) \<Rightarrow> ('x, 'a) prog" where
  "prog_catch m handler w =
     (case m w of
        None \<Rightarrow> None
      | Some (Inl e, w') \<Rightarrow> handler e w'
      | Some (Inr x, w') \<Rightarrow> Some (Inr x, w'))"

text \<open>File actions, pure checks and operations of the world that always return, as programs.\<close>

definition prog_act :: "'a act \<Rightarrow> ('x, 'a) prog" where
  "prog_act m w = (case m (mc_files w) of (r, fs) \<Rightarrow> Some (r, w\<lparr>mc_files := fs\<rparr>))"

definition prog_read :: "(file_system \<Rightarrow> 'a result) \<Rightarrow> ('x, 'a) prog" where
  "prog_read q w = Some (q (mc_files w), w)"

definition prog_res :: "'a result \<Rightarrow> ('x, 'a) prog" where
  "prog_res r w = Some (r, w)"

definition prog_ask :: "('x machine \<Rightarrow> 'a) \<Rightarrow> ('x, 'a) prog" where
  "prog_ask f w = Some (Inr (f w), w)"

definition prog_step :: "('x machine \<Rightarrow> 'a result \<times> 'x machine) \<Rightarrow> ('x, 'a) prog" where
  "prog_step f w = Some (f w)"

lemma prog_simps [simp]:
  "prog_return x w = Some (Inr x, w)" "prog_throw e w = Some (Inl e, w)"
  "prog_read q w = Some (q (mc_files w), w)" "prog_res r w = Some (r, w)"
  "prog_ask f w = Some (Inr (f w), w)" "prog_step s w = Some (s w)"
  by (simp_all add: prog_return_def prog_throw_def prog_read_def prog_res_def prog_ask_def prog_step_def)

lemma prog_bind_simps [simp]:
  "prog_bind (prog_return x) f = f x" "prog_bind (prog_throw e) f = prog_throw e"
  "prog_bind (prog_res (Inr x)) f = f x" "prog_bind (prog_res (Inl e)) f = prog_throw e"
  by (simp_all add: prog_bind_def fun_eq_iff)

lemma prog_bind_run:
  "m w = Some (Inr x, w') \<Longrightarrow> prog_bind m f w = f x w'"
  "m w = Some (Inl e, w') \<Longrightarrow> prog_bind m f w = Some (Inl e, w')"
  "m w = None \<Longrightarrow> prog_bind m f w = None"
  by (simp_all add: prog_bind_def)

lemma prog_bind_InrE:
  assumes "prog_bind m f w = Some (Inr y, w')"
  obtains x w1 where "m w = Some (Inr x, w1)" "f x w1 = Some (Inr y, w')"
  using assms by (auto simp: prog_bind_def split: option.splits prod.splits sum.splits)

lemma prog_bind_InlE:
  assumes "prog_bind m f w = Some (Inl e, w')"
  obtains "m w = Some (Inl e, w')" | x w1 where "m w = Some (Inr x, w1)" "f x w1 = Some (Inl e, w')"
  using assms by (auto simp: prog_bind_def split: option.splits prod.splits sum.splits)

lemma prog_bind_assoc [simp]:
  "prog_bind (prog_bind m f) g = prog_bind m (\<lambda>x. prog_bind (f x) g)"
  by (auto simp: prog_bind_def fun_eq_iff split: option.splits prod.splits sum.splits)

lemma prog_catch_run:
  "m w = Some (Inr x, w') \<Longrightarrow> prog_catch m handler w = Some (Inr x, w')"
  "m w = Some (Inl e, w') \<Longrightarrow> prog_catch m handler w = handler e w'"
  "m w = None \<Longrightarrow> prog_catch m handler w = None"
  by (simp_all add: prog_catch_def)

lemma prog_bind_cong [fundef_cong]:
  "\<lbrakk>m w = m' w; \<And>x w1. m w = Some (Inr x, w1) \<Longrightarrow> f x w1 = f' x w1\<rbrakk> \<Longrightarrow> prog_bind m f w = prog_bind m' f' w"
  by (auto simp: prog_bind_def split: option.splits prod.splits sum.splits)

text \<open>Loops are \<open>partial_function (option)\<close>; these rules let them use the operations above.\<close>

lemma prog_bind_mono [partial_function_mono]:
  fixes m :: "('g \<Rightarrow> 'h option) \<Rightarrow> ('x, 'a) prog"
  assumes "\<And>w. mono_option (\<lambda>g. m g w)" "\<And>x w. mono_option (\<lambda>g. f g x w)"
  shows "mono_option (\<lambda>g. prog_bind (m g) (f g) w)"
proof (rule monotoneI)
  fix g h :: "'g \<Rightarrow> 'h option"
  assume gh: "option.le_fun g h"
  have m: "option_ord (m g w) (m h w)" using assms(1) [of w] gh unfolding monotone_def by blast
  have f: "option_ord (f g x w1) (f h x w1)" for x w1 using assms(2) [of _ w1] gh unfolding monotone_def by blast
  show "option_ord (prog_bind (m g) (f g) w) (prog_bind (m h) (f h) w)"
  proof (cases "m g w = None")
    case False
    then have same: "m h w = m g w" using m by (auto simp: flat_ord_def)
    show ?thesis
      unfolding prog_bind_def same using f
      by (auto simp: flat_ord_def split: option.split prod.split sum.split)
  qed (simp add: prog_bind_def flat_ord_def)
qed

lemma prog_catch_mono [partial_function_mono]:
  fixes m :: "('g \<Rightarrow> 'h option) \<Rightarrow> ('x, 'a) prog"
  assumes "\<And>w. mono_option (\<lambda>g. m g w)" "\<And>e w. mono_option (\<lambda>g. handler g e w)"
  shows "mono_option (\<lambda>g. prog_catch (m g) (handler g) w)"
proof (rule monotoneI)
  fix g h :: "'g \<Rightarrow> 'h option"
  assume gh: "option.le_fun g h"
  have m: "option_ord (m g w) (m h w)" using assms(1) [of w] gh unfolding monotone_def by blast
  have f: "option_ord (handler g e w1) (handler h e w1)" for e w1 using assms(2) [of _ w1] gh unfolding monotone_def by blast
  show "option_ord (prog_catch (m g) (handler g) w) (prog_catch (m h) (handler h) w)"
  proof (cases "m g w = None")
    case False
    then have same: "m h w = m g w" using m by (auto simp: flat_ord_def)
    show ?thesis
      unfolding prog_catch_def same using f
      by (auto simp: flat_ord_def split: option.split prod.split sum.split)
  qed (simp add: prog_catch_def flat_ord_def)
qed

fun prog_each :: "('a \<Rightarrow> ('x, unit) prog) \<Rightarrow> 'a list \<Rightarrow> ('x, unit) prog" where
  "prog_each step [] = prog_return ()"
| "prog_each step (x # xs) = prog_bind (step x) (\<lambda>_. prog_each step xs)"


subsection \<open>\<open>std::to_string\<close>\<close>

fun decimal :: "nat \<Rightarrow> string" where
  "decimal n = (if n < 10 then [char_of (48 + n)] else decimal (n div 10) @ [char_of (48 + n mod 10)])"

declare decimal.simps [simp del]

definition std_to_string :: "int \<Rightarrow> string" where
  "std_to_string i = (if i < 0 then CHR ''-'' # decimal (nat (- i)) else decimal (nat i))"

end
