(* ===== verification/Process.thy ===== *)
theory Process
  imports Machine
begin

section \<open>libs/platform: child processes (process.cpp, system.cpp)\<close>

text \<open>
  \<open>Process\<close>, \<open>Run\<close> and \<open>Output\<close> over Boost.Process and the operating system, which are the record
  \<open>process_api\<close>: what \<open>bp::child\<close>, its pipes, the steady clock, \<open>sleep_for\<close>, \<open>kill\<close> and
  \<open>gethostname\<close> do to the machine.  Times are in milliseconds.
\<close>

datatype ProcessStreamMode = kInherit | kNull | kPipe

record process_options =
  po_executable :: string
  po_args :: "string list"
  po_env :: "string list"
  po_working_directory :: "string option"
  po_stdin :: ProcessStreamMode
  po_stdout :: ProcessStreamMode
  po_stderr :: ProcessStreamMode

definition default_options :: "string \<Rightarrow> string list \<Rightarrow> string list \<Rightarrow> process_options" where
  "default_options executable args env =
     \<lparr>po_executable = executable, po_args = args, po_env = env, po_working_directory = None,
      po_stdin = kInherit, po_stdout = kInherit, po_stderr = kInherit\<rparr>"

type_synonym wait_timeout = "int option"

record exit_status =
  es_exited :: bool
  es_exit_code :: int
  es_timed_out :: bool

definition not_exited :: exit_status where
  "not_exited = \<lparr>es_exited = False, es_exit_code = -1, es_timed_out = False\<rparr>"

record process_output =
  out_status :: exit_status
  out_stdout :: string
  out_stderr :: string

type_synonym environment = "string \<Rightarrow> string option"

text \<open>What \<open>bp::child\<close> is started with.\<close>

record launch =
  ln_executable :: string
  ln_args :: "string list"
  ln_env :: environment
  ln_start_dir :: string
  ln_streams :: "ProcessStreamMode \<times> ProcessStreamMode \<times> ProcessStreamMode"

record 'x process_api =
  pa_environment :: "'x machine \<Rightarrow> environment"
  pa_current_path :: "'x machine \<Rightarrow> string result"
  pa_launch :: "launch \<Rightarrow> ('x, nat) prog"
  pa_valid :: "nat \<Rightarrow> 'x machine \<Rightarrow> bool"
  pa_running :: "nat \<Rightarrow> 'x machine \<Rightarrow> (bool \<times> bool) \<times> 'x machine"
  pa_wait :: "nat \<Rightarrow> ('x, unit) prog"
  pa_exit_code :: "nat \<Rightarrow> 'x machine \<Rightarrow> int"
  pa_terminate :: "nat \<Rightarrow> ('x, unit) prog"
  pa_detach :: "nat \<Rightarrow> ('x, unit) prog"
  pa_sigterm :: "nat \<Rightarrow> 'x machine \<Rightarrow> bool \<times> 'x machine"
  pa_read_stdout :: "nat \<Rightarrow> ('x, string) prog"
  pa_read_stderr :: "nat \<Rightarrow> ('x, string) prog"
  pa_write_stdin :: "nat \<Rightarrow> string \<Rightarrow> ('x, unit) prog"
  pa_close_stdin :: "nat \<Rightarrow> ('x, unit) prog"
  pa_now :: "'x machine \<Rightarrow> int \<times> 'x machine"
  pa_sleep :: "int \<Rightarrow> 'x machine \<Rightarrow> 'x machine"
  pa_gethostname :: "'x machine \<Rightarrow> string option"

subsection \<open>Starting a child\<close>

fun add_entries :: "environment \<Rightarrow> string list \<Rightarrow> environment result" where
  "add_entries process_env [] = Inr process_env"
| "add_entries process_env (entry # env) =
     (let name = takeWhile (\<lambda>c. c \<noteq> CHR ''='') entry in
      if CHR ''='' \<notin> set entry \<or> name = []
      then Inl (Runtime_error (''invalid process environment entry: '' @ entry))
      else add_entries (process_env(name \<mapsto> drop (length name + 1) entry)) env)"

definition BuildEnvironment :: "'x process_api \<Rightarrow> 'x machine \<Rightarrow> string list \<Rightarrow> environment result" where
  "BuildEnvironment api w env = add_entries (pa_environment api w) env"

definition SpawnChild :: "'x process_api \<Rightarrow> process_options \<Rightarrow> ('x, nat) prog" where
  "SpawnChild api options w =
     prog_bind (prog_res (BuildEnvironment api w (po_env options))) (\<lambda>environment.
     prog_bind (prog_res (case po_working_directory options of
                            Some dir \<Rightarrow> Inr dir | None \<Rightarrow> pa_current_path api w)) (\<lambda>start_dir.
     let stdin_is_pipe = (po_stdin options = kPipe); stdout_is_pipe = (po_stdout options = kPipe);
         stderr_is_pipe = (po_stderr options = kPipe);
         child = (\<lambda>streams. pa_launch api
           \<lparr>ln_executable = po_executable options, ln_args = po_args options,
            ln_env = environment, ln_start_dir = start_dir, ln_streams = streams\<rparr>)
     in
     if po_stdin options = kInherit \<and> po_stdout options = kInherit \<and> po_stderr options = kInherit
     then child (kInherit, kInherit, kInherit)
     else if po_stdin options = kNull \<and> stdout_is_pipe \<and> stderr_is_pipe
     then child (kNull, kPipe, kPipe)
     else if stdin_is_pipe \<and> stdout_is_pipe \<and> stderr_is_pipe
     then child (kPipe, kPipe, kPipe)
     else if stdin_is_pipe \<and> po_stdout options = kNull \<and> po_stderr options = kNull
     then child (kPipe, kNull, kNull)
     else if po_stdin options = kNull \<and> po_stdout options = kNull \<and> po_stderr options = kNull
     then child (kNull, kNull, kNull)
     else prog_throw (Runtime_error ''unsupported process stream configuration''))) w"

subsection \<open>Waiting\<close>

text \<open>The loop of \<open>WaitForChild\<close>: the status it returns with, or \<open>None\<close> where it breaks.\<close>

partial_function (option) wait_until ::
    "'x process_api \<Rightarrow> nat \<Rightarrow> int \<Rightarrow> 'x machine \<Rightarrow> (exit_status option \<times> 'x machine) option" where
  [code]: "wait_until api child deadline w =
     (case pa_running api child w of ((running, error), w) \<Rightarrow>
        if \<not> running then Some (None, w)
        else if error then Some (Some not_exited, w)
        else case pa_now api w of (now, w) \<Rightarrow>
          if deadline \<le> now then Some (Some (not_exited\<lparr>es_timed_out := True\<rparr>), w)
          else wait_until api child deadline (pa_sleep api 10 w))"

definition exit_of :: "'x process_api \<Rightarrow> nat \<Rightarrow> 'x machine \<Rightarrow> exit_status" where
  "exit_of api child w = \<lparr>es_exited = True, es_exit_code = pa_exit_code api child w, es_timed_out = False\<rparr>"

definition WaitForChild :: "'x process_api \<Rightarrow> nat \<Rightarrow> wait_timeout \<Rightarrow> ('x, exit_status) prog" where
  "WaitForChild api child timeout w =
     (if \<not> pa_valid api child w then Some (Inr (not_exited\<lparr>es_exited := True\<rparr>), w)
      else case timeout of
        Some limit \<Rightarrow>
          (case pa_now api w of (start, w) \<Rightarrow>
             (case wait_until api child (start + limit) w of
                None \<Rightarrow> None
              | Some (Some status, w) \<Rightarrow> Some (Inr status, w)
              | Some (None, w) \<Rightarrow> Some (Inr (exit_of api child w), w)))
      | None \<Rightarrow> prog_bind (pa_wait api child) (\<lambda>_. prog_ask (exit_of api child)) w)"

subsection \<open>The class\<close>

text \<open>
  The state behind \<open>impl_\<close>: the child and whether the input pipe is there and open, and the other
  pipes are there.  A default-constructed or moved-from process is \<open>None\<close>.
\<close>

record process_impl =
  pi_child :: nat
  pi_stdin_open :: bool
  pi_stdout_pipe :: bool
  pi_stderr_pipe :: bool

type_synonym process = "process_impl option"

definition Spawn :: "'x process_api \<Rightarrow> process_options \<Rightarrow> ('x, process) prog" where
  "Spawn api options =
     prog_bind (SpawnChild api options) (\<lambda>child.
       prog_return (Some \<lparr>pi_child = child, pi_stdin_open = (po_stdin options = kPipe),
                          pi_stdout_pipe = (po_stdout options = kPipe),
                          pi_stderr_pipe = (po_stderr options = kPipe)\<rparr>))"

definition Valid :: "'x process_api \<Rightarrow> process \<Rightarrow> 'x machine \<Rightarrow> bool" where
  "Valid api p w = (case p of None \<Rightarrow> False | Some impl \<Rightarrow> pa_valid api (pi_child impl) w)"

definition WriteStdin :: "'x process_api \<Rightarrow> process \<Rightarrow> string \<Rightarrow> ('x, unit) prog" where
  "WriteStdin api p data =
     (case p of
        None \<Rightarrow> prog_throw (Runtime_error ''process stdin is not captured'')
      | Some impl \<Rightarrow>
          if \<not> pi_stdin_open impl then prog_throw (Runtime_error ''process stdin is not captured'')
          else pa_write_stdin api (pi_child impl) data)"

definition CloseStdin :: "'x process_api \<Rightarrow> process \<Rightarrow> ('x, process) prog" where
  "CloseStdin api p =
     (case p of
        None \<Rightarrow> prog_return p
      | Some impl \<Rightarrow>
          if \<not> pi_stdin_open impl then prog_return p
          else prog_bind (pa_close_stdin api (pi_child impl)) (\<lambda>_.
                 prog_return (Some (impl\<lparr>pi_stdin_open := False\<rparr>))))"

definition Detach :: "'x process_api \<Rightarrow> process \<Rightarrow> ('x, unit) prog" where
  "Detach api p w =
     (case p of
        None \<Rightarrow> prog_return () w
      | Some impl \<Rightarrow>
          if \<not> pa_valid api (pi_child impl) w then prog_return () w
          else pa_detach api (pi_child impl) w)"

definition Wait :: "'x process_api \<Rightarrow> process \<Rightarrow> wait_timeout \<Rightarrow> ('x, exit_status) prog" where
  "Wait api p timeout =
     (case p of None \<Rightarrow> prog_return not_exited | Some impl \<Rightarrow> WaitForChild api (pi_child impl) timeout)"

definition WaitWithOutput :: "'x process_api \<Rightarrow> process \<Rightarrow> wait_timeout \<Rightarrow> ('x, process_output) prog" where
  "WaitWithOutput api p timeout =
     (case p of
        None \<Rightarrow> prog_return \<lparr>out_status = not_exited, out_stdout = [], out_stderr = []\<rparr>
      | Some impl \<Rightarrow>
          prog_bind (WaitForChild api (pi_child impl) timeout) (\<lambda>status.
          if \<not> es_exited status
          then prog_return \<lparr>out_status = status, out_stdout = [], out_stderr = []\<rparr>
          else
          prog_bind (if pi_stdout_pipe impl then pa_read_stdout api (pi_child impl) else prog_return [])
            (\<lambda>stdout_data.
          prog_bind (if pi_stderr_pipe impl then pa_read_stderr api (pi_child impl) else prog_return [])
            (\<lambda>stderr_data.
          prog_return \<lparr>out_status = status, out_stdout = stdout_data, out_stderr = stderr_data\<rparr>))))"

definition IsRunning :: "'x process_api \<Rightarrow> nat \<Rightarrow> ('x, bool) prog" where
  "IsRunning api child w =
     (if \<not> pa_valid api child w then Some (Inr False, w)
      else case pa_running api child w of ((running, error), w) \<Rightarrow> Some (Inr running, w))"

definition Kill :: "'x process_api \<Rightarrow> process \<Rightarrow> ('x, bool) prog" where
  "Kill api p w =
     (case p of
        None \<Rightarrow> prog_return False w
      | Some impl \<Rightarrow>
          if \<not> Valid api p w then prog_return False w
          else prog_bind (IsRunning api (pi_child impl)) (\<lambda>running.
            if \<not> running then prog_return False
            else prog_bind (pa_terminate api (pi_child impl)) (\<lambda>_.
                 prog_bind (pa_wait api (pi_child impl)) (\<lambda>_. prog_return True))) w)"

definition Terminate :: "'x process_api \<Rightarrow> process \<Rightarrow> ('x, bool) prog" where
  "Terminate api p w =
     (case p of
        None \<Rightarrow> prog_return False w
      | Some impl \<Rightarrow>
          if \<not> Valid api p w then prog_return False w
          else prog_bind (IsRunning api (pi_child impl)) (\<lambda>running.
            if \<not> running then prog_return False
            else prog_step (\<lambda>w. case pa_sigterm api (pi_child impl) w of (sent, w) \<Rightarrow> (Inr sent, w))) w)"

definition Run :: "'x process_api \<Rightarrow> process_options \<Rightarrow> wait_timeout \<Rightarrow> ('x, exit_status) prog" where
  "Run api options wait_options =
     prog_bind (Spawn api options) (\<lambda>p. Wait api p wait_options)"

definition Output :: "'x process_api \<Rightarrow> process_options \<Rightarrow> wait_timeout \<Rightarrow> ('x, process_output) prog" where
  "Output api options wait_options =
     prog_bind (Spawn api (options\<lparr>po_stdin := kNull, po_stdout := kPipe, po_stderr := kPipe\<rparr>))
       (\<lambda>p. WaitWithOutput api p wait_options)"

subsection \<open>The host (system.cpp, the Linux build)\<close>

definition os_name :: string where
  "os_name = ''linux''"

definition architecture_name :: string where
  "architecture_name = ''x86_64''"

text \<open>\<open>gethostname\<close> fills at most 256 bytes; the last one is overwritten with the terminator.\<close>

definition hostname :: "'x process_api \<Rightarrow> 'x machine \<Rightarrow> string" where
  "hostname api w =
     (case pa_gethostname api w of
        Some name \<Rightarrow> takeWhile (\<lambda>c. c \<noteq> CHR 0x00) (take 255 name)
      | None \<Rightarrow> ''unknown'')"


subsection \<open>A wait with a timeout returns\<close>

text \<open>The clock never goes back, and a sleep takes at least the time asked for.\<close>

definition clock_runs :: "'x process_api \<Rightarrow> ('x machine \<Rightarrow> int) \<Rightarrow> bool" where
  "clock_runs api clock \<longleftrightarrow>
     (\<forall>child w. clock w \<le> clock (snd (pa_running api child w))) \<and>
     (\<forall>w. clock w \<le> fst (pa_now api w) \<and> fst (pa_now api w) \<le> clock (snd (pa_now api w))) \<and>
     (\<forall>n w. 0 \<le> n \<longrightarrow> clock w + n \<le> clock (pa_sleep api n w))"

definition wait_answer :: "('x machine \<Rightarrow> int) \<Rightarrow> int \<Rightarrow> exit_status option \<times> 'x machine \<Rightarrow> bool" where
  "wait_answer clock deadline answer \<longleftrightarrow>
     fst answer \<in> {None, Some not_exited, Some (not_exited\<lparr>es_timed_out := True\<rparr>)} \<and>
     (fst answer = Some (not_exited\<lparr>es_timed_out := True\<rparr>) \<longrightarrow> deadline \<le> clock (snd answer))"

lemma wait_until_returns:
  assumes "clock_runs api clock"
  shows "\<exists>answer. wait_until api child deadline w = Some answer \<and> wait_answer clock deadline answer"
proof (induction w rule: measure_induct_rule [where f = "\<lambda>w. nat (deadline - clock w)"])
  case (less w)
  obtain running error w1 where 1: "pa_running api child w = ((running, error), w1)"
    by (metis prod.collapse)
  obtain now w2 where 2: "pa_now api w1 = (now, w2)"
    by (metis prod.collapse)
  have clock: "clock w \<le> clock w1" "clock w1 \<le> now" "now \<le> clock w2"
    "clock w2 + 10 \<le> clock (pa_sleep api 10 w2)"
    using assms 1 2 unfolding clock_runs_def
    by (metis snd_conv, metis fst_conv, metis fst_conv snd_conv, simp)
  note step = wait_until.simps [of api child deadline w, unfolded 1 2 prod.case]
  consider "\<not> running \<or> error \<or> deadline \<le> now" | (again) "running" "\<not> error" "now < deadline"
    by linarith
  then show ?case
  proof cases
    case again
    then have "nat (deadline - clock (pa_sleep api 10 w2)) < nat (deadline - clock w)"
      using clock by linarith
    from less [OF this] show ?thesis
      using step again by simp
  qed (use step clock 2 in \<open>auto simp: wait_answer_def not_exited_def\<close>)
qed

text \<open>
  A wait with a timeout returns.  On a machine whose steady clock never goes back and whose
  sleeps last as long as asked, \<open>WaitForChild\<close> with a timeout comes back, whatever the child does;
  a child is never reported both as exited and as timed out, a timeout is reported only after the
  time has passed, and the exit code is -1 unless the child was seen to have ended.
\<close>

theorem wait_with_timeout_returns:
  assumes "clock_runs api clock"
  shows "\<exists>status w'. WaitForChild api child (Some limit) w = Some (Inr status, w') \<and>
    \<not> (es_exited status \<and> es_timed_out status) \<and>
    (es_timed_out status \<longrightarrow> clock w + limit \<le> clock w') \<and>
    (\<not> es_exited status \<longrightarrow> es_exit_code status = -1)"
proof (cases "pa_valid api child w")
  case False
  then show ?thesis by (simp add: WaitForChild_def not_exited_def)
next
  case True
  obtain start w1 where 1: "pa_now api w = (start, w1)"
    by (metis prod.collapse)
  have start: "clock w \<le> start"
    using assms 1 unfolding clock_runs_def by (metis fst_conv)
  obtain status w2 where 2: "wait_until api child (start + limit) w1 = Some (status, w2)"
      "wait_answer clock (start + limit) (status, w2)"
    using wait_until_returns [OF assms] by (metis prod.collapse)
  then show ?thesis
    using True start 1
    by (cases status) (auto simp: WaitForChild_def wait_answer_def exit_of_def not_exited_def)
qed

text \<open>A machine that is only a clock, with a child that never ends.\<close>

definition demo_process_api :: "int process_api" where
  "demo_process_api =
     \<lparr>pa_environment = (\<lambda>w. Map.empty), pa_current_path = (\<lambda>w. Inr ''/''),
      pa_launch = (\<lambda>l. prog_return 1), pa_valid = (\<lambda>c w. True),
      pa_running = (\<lambda>c w. ((True, False), w)), pa_wait = (\<lambda>c w. None), pa_exit_code = (\<lambda>c w. 0),
      pa_terminate = (\<lambda>c. prog_return ()), pa_detach = (\<lambda>c. prog_return ()),
      pa_sigterm = (\<lambda>c w. (True, w)), pa_read_stdout = (\<lambda>c. prog_return []),
      pa_read_stderr = (\<lambda>c. prog_return []), pa_write_stdin = (\<lambda>c data. prog_return ()),
      pa_close_stdin = (\<lambda>c. prog_return ()), pa_now = (\<lambda>w. (mc_rest w, w)),
      pa_sleep = (\<lambda>n w. w\<lparr>mc_rest := mc_rest w + n\<rparr>), pa_gethostname = (\<lambda>w. Some ''host'')\<rparr>"

lemma demo_clock: "clock_runs demo_process_api mc_rest"
  by (simp add: clock_runs_def demo_process_api_def)

theorem wait_with_timeout_returns_witness:
  "\<exists>status w'. WaitForChild demo_process_api 1 (Some 25) \<lparr>mc_files = Map.empty, mc_rest = 0\<rparr> =
     Some (Inr status, w') \<and> (es_timed_out status \<longrightarrow> 25 \<le> mc_rest w')"
  using wait_with_timeout_returns [OF demo_clock, of 1 25 "\<lparr>mc_files = Map.empty, mc_rest = 0\<rparr>"]
  by fastforce



subsection \<open>The environment of a child\<close>

lemma add_entries_pairs:
  assumes "list_all (\<lambda>(name, value). name \<noteq> [] \<and> CHR ''='' \<notin> set name) vars"
  shows "add_entries env (map (\<lambda>(name, value). name @ CHR ''='' # value) vars) = Inr (env ++ map_of (rev vars))"
  using assms
proof (induction vars arbitrary: env)
  case Nil
  then show ?case by simp
next
  case (Cons v vars)
  obtain name val where v: "v = (name, val)" by (cases v)
  have "takeWhile (\<lambda>c. c \<noteq> CHR ''='') (name @ CHR ''='' # val) = name"
    using Cons.prems v by (auto intro: takeWhile_eq_all_conv [THEN iffD2] simp: takeWhile_append)
  moreover have "env(name \<mapsto> val) ++ m = env ++ ([name \<mapsto> val] ++ m)" for m
    by (auto simp: map_add_def fun_eq_iff split: option.splits)
  ultimately show ?case
    using Cons v by (simp add: Let_def)
qed

lemma launched_variable:
  assumes "name \<noteq> []" "CHR ''='' \<notin> set name"
  shows "BuildEnvironment api w [name @ CHR ''='' # val] = Inr ((pa_environment api w)(name \<mapsto> val))"
  using add_entries_pairs [of "[(name, val)]"] assms by (simp add: BuildEnvironment_def)

end
