(* ===== verification/Launcher.thy ===== *)
theory Launcher
  imports Installer_Status Process
begin

section \<open>apps/installer/launcher: the launcher stubs (launcher.cpp)\<close>

text \<open>
  The program that the installer copies to \<open><root>/<component>/bin/zfleet_<component>\<close>: it looks up the
  active version and runs the executable of the same name in that release.
\<close>

definition kComponentRootEnvVar :: string where
  "kComponentRootEnvVar = ''ZFLEET_COMPONENT_ROOT''"

record launch_target =
  lt_component :: string
  lt_component_root :: string
  lt_active_version_path :: string
  lt_version :: string
  lt_executable_path :: string

record resolve_result =
  rr_ok :: bool
  rr_target :: launch_target
  rr_message :: string

definition not_resolved :: "string \<Rightarrow> resolve_result" where
  "not_resolved message =
     \<lparr>rr_ok = False,
      rr_target = \<lparr>lt_component = [], lt_component_root = [], lt_active_version_path = [],
                   lt_version = [], lt_executable_path = []\<rparr>,
      rr_message = message\<rparr>"

definition ResolveLaunchTarget :: "os_env \<Rightarrow> file_system \<Rightarrow> string \<Rightarrow> resolve_result result" where
  "ResolveLaunchTarget os fs launcher_path =
     (let executable_name = path_filename launcher_path in
      case ComponentForBinaryName executable_name of
        None \<Rightarrow> Inr (not_resolved (''unknown launcher executable: '' @ executable_name))
      | Some component \<Rightarrow>
          let bin_dir = parent_path launcher_path; component_root = parent_path bin_dir in
          if path_filename bin_dir \<noteq> ''bin'' \<or> path_filename component_root \<noteq> component
          then Inr (not_resolved (''launcher path must match <root>/'' @ component @ ''/bin/'' @ executable_name))
          else
          let active_version_path = path_append (path_append component_root ''var'') ''active-version'' in
          bind_res (fs_exists os fs active_version_path) (\<lambda>present.
          if \<not> present then Inr (not_resolved ''active-version is missing'')
          else case ReadFileTrimmed os fs active_version_path of
            Inl ex \<Rightarrow> Inr (not_resolved (what ex))
          | Inr version \<Rightarrow>
              let version_validation = ValidatePathSegment version in
              if \<not> vs_ok version_validation
              then Inr (not_resolved (''active-version is invalid: '' @ vs_message version_validation))
              else
              let executable_path =
                path_append (path_append (path_append (path_append component_root ''releases'') version) ''bin'')
                  executable_name in
              bind_res (IsLaunchableProgram os fs executable_path) (\<lambda>launchable.
              if \<not> launchable then Inr (not_resolved ''target executable is missing or not executable'')
              else Inr \<lparr>rr_ok = True,
                        rr_target = \<lparr>lt_component = component, lt_component_root = component_root,
                                     lt_active_version_path = active_version_path,
                                     lt_version = version, lt_executable_path = executable_path\<rparr>,
                        rr_message = []\<rparr>)))"

text \<open>An argument vector with the null pointers it may hold; its length is \<open>argc\<close>.\<close>

definition forwarded_args :: "string option list \<Rightarrow> string list" where
  "forwarded_args argv = map (\<lambda>arg. case arg of None \<Rightarrow> [] | Some s \<Rightarrow> s) (drop 1 argv)"

definition BuildForwardedArgv :: "string \<Rightarrow> string option list \<Rightarrow> string list" where
  "BuildForwardedArgv executable_path argv = executable_path # forwarded_args argv"

definition RunLauncher ::
    "os_env \<Rightarrow> 'x process_api \<Rightarrow> string \<Rightarrow> string option list \<Rightarrow> ('x, int) prog" where
  "RunLauncher os api launcher_path argv =
     prog_bind (prog_read (\<lambda>fs. ResolveLaunchTarget os fs launcher_path)) (\<lambda>resolved.
     if \<not> rr_ok resolved then prog_return 1
     else
     prog_bind (Run api (default_options (lt_executable_path (rr_target resolved)) (forwarded_args argv)
                  [kComponentRootEnvVar @ ''='' @ lt_component_root (rr_target resolved)]) None) (\<lambda>status.
     if \<not> es_exited status then prog_return 1 else prog_return (es_exit_code status)))"

subsection \<open>The stub of an installed component runs its active release\<close>

lemma parent_path_child [simp]:
  assumes "p \<noteq> []" "last p \<noteq> CHR ''/''" "simple_name n"
  shows "parent_path (path_append p n) = p"
proof -
  have n: "\<not> is_absolute n" "split_on (CHR ''/'') n = [n]"
    using assms(3) simple_name_path [OF assms(3)] by (simp_all add: simple_name_def split_on_single)
  have split: "split_on (CHR ''/'') (path_append p n) = split_on (CHR ''/'') p @ [n]"
    using assms n split_on_join [of "CHR ''/''" p n] by (simp add: path_append_def)
  have "dropWhile (\<lambda>s. s = []) (rev (split_on (CHR ''/'') p)) = rev (split_on (CHR ''/'') p)"
    using path_names_last_piece [OF assms(1,2)] split_on_not_Nil [of "CHR ''/''" p]
    by (metis (mono_tags, lifting) dropWhile_eq_self_iff hd_rev)
  then show ?thesis
    by (simp add: parent_path_def split Let_def)
qed

lemma path_append_ends:
  assumes "simple_name n"
  shows "path_append p n \<noteq> []" "last (path_append p n) \<noteq> CHR ''/''"
  using assms last_in_set [of n] simple_name_path [OF assms]
  by (auto simp: path_append_def simple_name_def)

lemma path_append_below:
  assumes "simple_name d" "n \<noteq> []" "\<not> is_absolute n" "p \<noteq> []" "last p \<noteq> CHR ''/''"
  shows "path_append (path_append p d) n = path_append p (d @ CHR ''/'' # n)"
proof -
  have "d \<noteq> []" "hd d \<noteq> CHR ''/''" "last d \<noteq> CHR ''/''"
    using assms(1) simple_name_path [OF assms(1)] by (auto simp: simple_name_def is_absolute_def)
  then show ?thesis
    using assms by (simp add: path_append_def is_absolute_def)
qed

definition resolved_target :: "string \<Rightarrow> string \<Rightarrow> string \<Rightarrow> resolve_result" where
  "resolved_target root c v =
     \<lparr>rr_ok = True,
      rr_target = \<lparr>lt_component = c, lt_component_root = path_append root c,
                   lt_active_version_path = cp_active_version_path (BuildPaths root c), lt_version = v,
                   lt_executable_path =
                     path_append (path_append (path_append (cp_releases_root (BuildPaths root c)) v) ''bin'')
                       (''zfleet_'' @ c)\<rparr>,
      rr_message = []\<rparr>"

lemma installed_inspection:
  assumes "GetStatus ie fs root c = Inr (installed_status c v)"
  obtains active where "IsKnownComponent c" "InspectActiveRelease ie fs (BuildPaths root c) c = Inr active"
    "ri_state active = kHealthy" "ri_version active = v"
  using assms
  by (auto simp: GetStatus_def installed_status_def ValidateComponent_def Let_def bind_res_Inr_iff
      dest!: other_state split: if_splits)

lemma checked_file:
  assumes "check_release_files ie fs dir files = Inr None" "f \<in> set files"
  shows "check_release_file ie fs dir f = Inr None"
  using assms by (induction files) (auto simp: bind_res_Inr_iff split: option.splits)

lemma checked_launchable:
  assumes "check_release_file ie fs dir f = Inr None" "mf_launchable f"
  shows "IsLaunchableProgram (ie_os ie) fs (path_append dir (mf_target f)) = Inr True"
  using assms by (auto simp: check_release_file_def Let_def bind_res_Inr_iff split: if_splits)


lemma installed_component_resolves:
  assumes "GetStatus ie fs root c = Inr (installed_status c v)"
    "plain_fs (ie_os ie) fs" "plain_path root"
    "LoadManifest ie fs (manifest_path_in (path_append (cp_releases_root (BuildPaths root c)) v)) = Inr m"
    "f \<in> set (mn_files m)" "mf_target f = ''bin/zfleet_'' @ c" "mf_launchable f"
    "LauncherStubPath root c = Inr stub"
  shows "ResolveLaunchTarget (ie_os ie) fs stub = Inr (resolved_target root c v)"
proof -
  let ?os = "ie_os ie" and ?dir = "path_append (cp_releases_root (BuildPaths root c)) v"
    and ?exe = "''zfleet_'' @ c"
  obtain active where c: "IsKnownComponent c" and active: "InspectActiveRelease ie fs (BuildPaths root c) c = Inr active"
      "ri_state active = kHealthy" and v: "ri_version active = v"
    by (rule installed_inspection [OF assms(1)])
  note healthy = healthy_release [OF active, unfolded v]
  obtain val where val: "ValidateReleaseDirectory ie fs ?dir c = Inr val" "rv_ok val"
    using healthy(3) by blast
  have dir: "plain_path ?dir" "path_filename ?dir = v"
    using healthy(1) c assms(3) by simp_all
  have checks: "mn_version m = v" "check_release_files ie fs ?dir (mn_files m) = Inr None"
    using ValidateReleaseDirectory_ok [OF val(1)] val(2) assms(4) unfolding dir(2) by auto
  have segment: "IsSafePathSegment v"
    using LoadManifest_valid [OF assms(4)] checks(1) by (simp add: valid_manifest_def)
  have ends: "?dir \<noteq> []" "last ?dir \<noteq> CHR ''/''"
    using path_append_ends [OF healthy(1)] by blast+
  have exe: "simple_name ?exe" by (rule simple_binary_name [OF c])
  have program: "path_append (path_append ?dir ''bin'') ?exe = path_append ?dir (mf_target f)"
    using path_append_below [OF _ _ _ ends, of "''bin''" ?exe] exe assms(6) simple_name_path [OF exe]
    by (simp del: BuildPaths_simps)
  have launchable: "IsLaunchableProgram ?os fs (path_append (path_append ?dir ''bin'') ?exe) = Inr True"
    unfolding program by (rule checked_launchable [OF checked_file [OF checks(2) assms(5)] assms(7)])
  let ?active = "cp_active_version_path (BuildPaths root c)"
  have "file_path ?active" by (rule version_file_places(5) [OF assms(3) c])
  then have exists: "fs_exists ?os fs ?active = Inr True"
    using healthy(2) assms(2)
    by (auto simp: ReadFileTrimmed_def bind_res_Inr_iff read_file_plain simp del: BuildPaths_simps
        split: option.splits)
  have stub: "stub = path_append (path_append (path_append root c) ''bin'') ?exe"
    using assms(8) launcher_stub [OF c, of root] by simp
  have croot: "path_append root c \<noteq> []" "last (path_append root c) \<noteq> CHR ''/''"
    using path_append_ends [of c root] c by simp_all
  have parents: "parent_path stub = path_append (path_append root c) ''bin''"
      "parent_path (path_append (path_append root c) ''bin'') = path_append root c"
    unfolding stub using path_append_ends [of "''bin''"] exe croot by simp_all
  have names: "path_filename stub = ?exe" "path_filename (path_append root c) = c"
      "path_filename (path_append (path_append root c) ''bin'') = ''bin''"
    unfolding stub using exe c by simp_all
  have known: "ComponentForBinaryName ?exe = Some c"
    using c by (auto simp: IsKnownComponent_def ComponentForBinaryName_def)
  have paths: "path_append (path_append (path_append root c) ''var'') ''active-version'' = ?active"
    "path_append (path_append (path_append root c) ''releases'') v = ?dir"
    by simp_all
  show ?thesis
    unfolding ResolveLaunchTarget_def Let_def names known parents option.case paths exists
      bind_res_simps healthy(2) sum.case launchable
    using segment ValidatePathSegment_ok(1) [of v] by (simp add: resolved_target_def)
qed

lemma component_environment:
  "add_entries env [kComponentRootEnvVar @ ''='' @ dir] = Inr (env(''ZFLEET_COMPONENT_ROOT'' \<mapsto> dir))"
  by (simp add: kComponentRootEnvVar_def)

lemma Run_inherited:
  assumes "pa_current_path api w = Inr dir" "add_entries (pa_environment api w) env = Inr environment"
  shows "Run api (default_options executable args env) None w =
    prog_bind (pa_launch api \<lparr>ln_executable = executable, ln_args = args, ln_env = environment, ln_start_dir = dir,
                              ln_streams = (kInherit, kInherit, kInherit)\<rparr>)
      (\<lambda>child w1. if \<not> pa_valid api child w1 then Some (Inr (not_exited\<lparr>es_exited := True\<rparr>), w1)
         else prog_bind (pa_wait api child) (\<lambda>_ w2. Some (Inr (exit_of api child w2), w2)) w1) w"
proof -
  have "SpawnChild api (default_options executable args env) w =
      pa_launch api \<lparr>ln_executable = executable, ln_args = args, ln_env = environment, ln_start_dir = dir,
                     ln_streams = (kInherit, kInherit, kInherit)\<rparr> w"
    using assms by (simp add: SpawnChild_def BuildEnvironment_def default_options_def Let_def)
  then show ?thesis
    by (simp add: Run_def Spawn_def Wait_def WaitForChild_def prog_bind_def split: option.split prod.split sum.split)
qed

text \<open>
  C27: The stub of an installed component runs its active release.  In an installation without
  symbolic links, if the status of a component is "installed" at a version and the manifest of that
  release lists the component's program, launchable, then the launcher started from the stub that
  the installer writes for the component starts one process: the program of exactly that release, with
  the arguments of the launcher in their order, in its working directory, with its streams, and with its
  environment and the root of the component added.  The launcher waits for it and ends with its exit code
  (-1 for a child that is not valid); what starting it or waiting for it throws, it throws.
\<close>

theorem installed_component_launches:
  assumes "GetStatus ie (mc_files w) root c = Inr (installed_status c v)"
    "plain_fs (ie_os ie) (mc_files w)" "plain_path root"
    "LoadManifest ie (mc_files w) (manifest_path_in (path_append (cp_releases_root (BuildPaths root c)) v)) = Inr m"
    "f \<in> set (mn_files m)" "mf_target f = ''bin/zfleet_'' @ c" "mf_launchable f"
    "LauncherStubPath root c = Inr stub" "pa_current_path api w = Inr dir"
  shows "RunLauncher (ie_os ie) api stub (program # map Some args) w =
    prog_bind (pa_launch api
        \<lparr>ln_executable = path_append (path_append (path_append (cp_releases_root (BuildPaths root c)) v) ''bin'') (''zfleet_'' @ c),
         ln_args = args, ln_env = (pa_environment api w)(''ZFLEET_COMPONENT_ROOT'' \<mapsto> path_append root c),
         ln_start_dir = dir, ln_streams = (kInherit, kInherit, kInherit)\<rparr>)
      (\<lambda>child w1.
         if \<not> pa_valid api child w1 then Some (Inr (-1), w1)
         else prog_bind (pa_wait api child) (\<lambda>_ w2. Some (Inr (pa_exit_code api child w2), w2)) w1) w"
proof -
  have args: "forwarded_args (program # map Some args) = args"
    by (simp add: forwarded_args_def comp_def)
  let ?exe = "path_append (path_append (path_append (cp_releases_root (BuildPaths root c)) v) ''bin'') (''zfleet_'' @ c)"
  let ?run = "Run api (default_options ?exe args [kComponentRootEnvVar @ ''='' @ path_append root c]) None"
  have "RunLauncher (ie_os ie) api stub (program # map Some args) w =
      prog_bind ?run (\<lambda>status. if \<not> es_exited status then prog_return 1 else prog_return (es_exit_code status)) w"
    using installed_component_resolves [OF assms(1-8)]
    unfolding RunLauncher_def prog_bind_def [of "prog_read _"] args by (simp add: resolved_target_def)
  moreover note Run_inherited [OF assms(9) component_environment, of ?exe args "path_append root c"]
  ultimately show ?thesis
    unfolding prog_bind_def [of ?run]
    by (simp only:) (simp add: prog_bind_def exit_of_def not_exited_def split: option.split prod.split sum.split)
qed

definition demo_launching :: "u8 list installer_env" where
  "demo_launching = demo_installer\<lparr>ie_json :=
     \<lparr>jl_parse = (\<lambda>t. Inr (Json_object
        [(''schema_version'', Json_int 2), (''component'', Json_string ''agent''),
         (''version'', Json_string ''1''), (''platform'', Json_string ''l''), (''arch'', Json_string ''x''),
         (''build_type'', Json_string ''debug''), (''min_installer_version'', Json_string ''1''),
         (''files'', Json_array [Json_object
            [(''source'', Json_string ''payload/a''), (''target'', Json_string ''bin/zfleet_agent''),
             (''size'', Json_int 0), (''sha256'', Json_string (replicate 64 (CHR ''0''))),
             (''launchable'', Json_bool True)]])])),
      jl_dump = (\<lambda>j. Inr ''{}'')\<rparr>\<rparr>"

definition demo_program :: manifest_file where
  "demo_program = \<lparr>mf_source = ''payload/a'', mf_target = ''bin/zfleet_agent'', mf_size = 0,
     mf_sha256 = replicate 64 (CHR ''0''), mf_launchable = True\<rparr>"

definition demo_agent :: file_system where
  "demo_agent = directory_of [(''r'', directory_of [(''agent'', directory_of
     [(''var'', directory_of [(''active-version'', file_of ''1'' False)]),
      (''releases'', directory_of [(''1'', demo_release []
         [(''bin'', directory_of [(''zfleet_agent'', file_of [] True)])])])])])]"

lemma demo_agent_status:
  "GetStatus demo_launching demo_agent ''/r'' ''agent'' = Inr (installed_status ''agent'' ''1'')"
  by code_simp

lemma demo_agent_manifest:
  "map_sum id mn_files (LoadManifest demo_launching demo_agent
     (manifest_path_in (path_append (cp_releases_root (BuildPaths ''/r'' ''agent'')) ''1''))) = Inr [demo_program]"
  by code_simp

text \<open>A machine that keeps what it launched; every child ends at once with code 3.\<close>

definition demo_processes :: "launch list process_api" where
  "demo_processes =
     \<lparr>pa_environment = (\<lambda>w. Map.empty), pa_current_path = (\<lambda>w. Inr ''/''),
      pa_launch = (\<lambda>l w. Some (Inr 7, w\<lparr>mc_rest := mc_rest w @ [l]\<rparr>)), pa_valid = (\<lambda>child w. True),
      pa_running = (\<lambda>child w. ((False, False), w)), pa_wait = (\<lambda>child. prog_return ()),
      pa_exit_code = (\<lambda>child w. 3), pa_terminate = (\<lambda>child. prog_return ()), pa_detach = (\<lambda>child. prog_return ()),
      pa_sigterm = (\<lambda>child w. (True, w)), pa_read_stdout = (\<lambda>child. prog_return []),
      pa_read_stderr = (\<lambda>child. prog_return []), pa_write_stdin = (\<lambda>child data. prog_return ()),
      pa_close_stdin = (\<lambda>child. prog_return ()), pa_now = (\<lambda>w. (0, w)), pa_sleep = (\<lambda>n w. w),
      pa_gethostname = (\<lambda>w. None)\<rparr>"

theorem installed_component_launches_witness:
  "RunLauncher (ie_os demo_launching) demo_processes ''/r/agent/bin/zfleet_agent'' [None, Some ''run'']
     \<lparr>mc_files = demo_agent, mc_rest = []\<rparr> =
   Some (Inr 3, \<lparr>mc_files = demo_agent, mc_rest =
     [\<lparr>ln_executable = ''/r/agent/releases/1/bin/zfleet_agent'', ln_args = [''run''],
       ln_env = [''ZFLEET_COMPONENT_ROOT'' \<mapsto> ''/r/agent''], ln_start_dir = ''/'',
       ln_streams = (kInherit, kInherit, kInherit)\<rparr>]\<rparr>)"
proof -
  let ?w = "\<lparr>mc_files = demo_agent, mc_rest = []\<rparr> :: launch list machine"
  obtain m where m: "LoadManifest demo_launching demo_agent
      (manifest_path_in (path_append (cp_releases_root (BuildPaths ''/r'' ''agent'')) ''1'')) = Inr m"
      "mn_files m = [demo_program]"
    using demo_agent_manifest
    by (cases "LoadManifest demo_launching demo_agent
      (manifest_path_in (path_append (cp_releases_root (BuildPaths ''/r'' ''agent'')) ''1''))")
      simp_all
  have plain: "plain_fs (ie_os demo_launching) demo_agent"
    by (simp add: demo_launching_def plain_tree_fs demo_agent_def demo_release_def)
  have stub: "LauncherStubPath ''/r'' ''agent'' = Inr ''/r/agent/bin/zfleet_agent''"
    by code_simp
  have exe: "path_append (path_append (path_append (cp_releases_root (BuildPaths ''/r'' ''agent'')) ''1'') ''bin'')
      (''zfleet_'' @ ''agent'') = ''/r/agent/releases/1/bin/zfleet_agent''" "path_append ''/r'' ''agent'' = ''/r/agent''"
    by (simp_all add: path_append_def is_absolute_def)
  have path: "plain_path ''/r''" by (simp add: plain_path_def path_names_def)
  have dir: "pa_current_path demo_processes ?w = Inr ''/''" by (simp add: demo_processes_def)
  have mem: "demo_program \<in> set (mn_files m)" "mf_target demo_program = ''bin/zfleet_'' @ ''agent''" "mf_launchable demo_program"
    by (simp_all add: m(2) demo_program_def)
  show ?thesis
    using installed_component_launches [where w = ?w and args = "[''run'']" and program = None, unfolded machine.simps,
        OF demo_agent_status plain path m(1) mem stub dir, unfolded exe]
    by (simp add: prog_bind_def demo_processes_def)
qed

end
