(* ===== verification/Download.thy ===== *)
theory Download
  imports Machine Archive_Extract
begin

section \<open>libs/transport: HTTP download (http_download.cpp)\<close>

text \<open>
  \<open>DownloadHttp\<close>, \<open>DownloadHttpStream\<close> and \<open>DownloadHttpToFile\<close>.  Boost.Asio and Boost.Beast are
  the record \<open>http_api\<close>: connecting, writing the request and reading the header; whether the parser
  is done; one \<open>http::read\<close> into the buffer of 64 KiB, with the bytes it left there; and the status.
\<close>

record http_endpoint =
  ep_host :: string
  ep_port :: string
  ep_target :: string

record http_request =
  rq_url :: string
  rq_user_agent :: string

datatype read_outcome = Read_ok | Need_buffer | Read_error exn

record 'x http_api =
  ha_open :: "http_endpoint \<Rightarrow> string \<Rightarrow> ('x, unit) prog"
  ha_is_done :: "'x machine \<Rightarrow> bool"
  ha_read :: "'x machine \<Rightarrow> (read_outcome \<times> u8 list) \<times> 'x machine"
  ha_result_int :: "'x machine \<Rightarrow> int"

definition ParseHttpUrl :: "string \<Rightarrow> http_endpoint result" where
  "ParseHttpUrl url =
     (if take 7 url \<noteq> ''http://'' then Inl (Invalid_argument ''URL must start with http://'')
      else
        let rest = drop 7 url;
            authority = takeWhile (\<lambda>c. c \<noteq> CHR ''/'') rest;
            port = rev (takeWhile (\<lambda>c. c \<noteq> CHR '':'') (rev authority))
        in
        if authority = [] \<or> CHR ''/'' \<notin> set rest
        then Inl (Invalid_argument ''URL must include host and path'')
        else Inr
          \<lparr>ep_host = (if CHR '':'' \<in> set authority
                      then take (length authority - length port - 1) authority else authority),
           ep_port = (if CHR '':'' \<in> set authority then port else ''80''),
           ep_target = drop (length authority) rest\<rparr>)"

text \<open>The reading loop, with what the callback keeps.\<close>

partial_function (option) download_loop ::
    "'x http_api \<Rightarrow> ('b \<Rightarrow> u8 list \<Rightarrow> ('x, 'b) prog) \<Rightarrow> 'b \<Rightarrow> ('x, 'b) prog" where
  [code]: "download_loop api on_chunk kept w =
     (if ha_is_done api w then Some (Inr kept, w)
      else case ha_read api w of ((outcome, bytes), w) \<Rightarrow>
        (case outcome of
           Read_error e \<Rightarrow> Some (Inl e, w)
         | _ \<Rightarrow> prog_bind (if bytes = [] then prog_return kept else on_chunk kept bytes)
                 (\<lambda>kept w. download_loop api on_chunk kept w) w))"

definition DownloadHttpStream ::
    "'x http_api \<Rightarrow> http_request \<Rightarrow> ('b \<Rightarrow> u8 list \<Rightarrow> ('x, 'b) prog) \<Rightarrow> 'b \<Rightarrow> ('x, int \<times> 'b) prog" where
  "DownloadHttpStream api request on_chunk kept =
     prog_bind (prog_res (ParseHttpUrl (rq_url request))) (\<lambda>endpoint.
     prog_bind (ha_open api endpoint (rq_user_agent request)) (\<lambda>_.
     prog_bind (download_loop api on_chunk kept) (\<lambda>kept.
     prog_ask (\<lambda>w. (ha_result_int api w, kept)))))"

definition DownloadHttp :: "'x http_api \<Rightarrow> http_request \<Rightarrow> ('x, int \<times> u8 list) prog" where
  "DownloadHttp api request =
     DownloadHttpStream api request (\<lambda>body chunk. prog_return (body @ chunk)) []"

text \<open>
  An open output stream writes to the file it opened, also when the name is gone; as every stream
  here it does not meet disk errors.
\<close>

definition append_at :: "fs_path \<Rightarrow> u8 list \<Rightarrow> file_system \<Rightarrow> file_system" where
  "append_at q bytes fs =
     (case fs q of
        Some (Regular_file old executable) \<Rightarrow> fs(q \<mapsto> Regular_file (old @ bytes) executable)
      | _ \<Rightarrow> fs)"

definition open_target :: "os_env \<Rightarrow> string \<Rightarrow> ('x, fs_path) prog" where
  "open_target os file_path w =
     (case write_file os (mc_files w) file_path [] of
        None \<Rightarrow> Some (Inl (Runtime_error ''failed to open download target file''), w)
      | Some fs \<Rightarrow>
          (case locate os (mc_files w) True file_path of
             Inl e \<Rightarrow> Some (Inl (Runtime_error ''failed to open download target file''), w)
           | Inr q \<Rightarrow> Some (Inr q, w\<lparr>mc_files := fs\<rparr>)))"

definition DownloadHttpToFile ::
    "os_env \<Rightarrow> 'x http_api \<Rightarrow> http_request \<Rightarrow> string \<Rightarrow> ('x, int) prog" where
  "DownloadHttpToFile os api request file_path =
     prog_bind (prog_act (act_change (\<lambda>fs. create_directories os fs (parent_path file_path)))) (\<lambda>_.
     prog_bind (open_target os file_path) (\<lambda>q.
     prog_bind (DownloadHttpStream api request
                  (\<lambda>_ chunk w. Some (Inr (), w\<lparr>mc_files := append_at q chunk (mc_files w)\<rparr>)) ()) (\<lambda>(status, _).
     prog_return status)))"

subsection \<open>URLs\<close>

lemma parsed_url:
  assumes "host \<noteq> []" "CHR ''/'' \<notin> set host" "CHR '':'' \<notin> set host" "CHR ''/'' \<notin> set port" "CHR '':'' \<notin> set port"
  shows "ParseHttpUrl (''http://'' @ host @ CHR '':'' # port @ CHR ''/'' # target) =
      Inr \<lparr>ep_host = host, ep_port = port, ep_target = CHR ''/'' # target\<rparr>"
    and "ParseHttpUrl (''http://'' @ host @ CHR ''/'' # target) =
      Inr \<lparr>ep_host = host, ep_port = ''80'', ep_target = CHR ''/'' # target\<rparr>"
proof -
  have all: "takeWhile (\<lambda>c. c \<noteq> d) (s @ d # t) = s" "takeWhile (\<lambda>c. c \<noteq> d) (rev s) = rev s"
    if "d \<notin> set s" for d :: char and s t
    using that by (auto intro!: takeWhile_eq_all_conv [THEN iffD2] simp: takeWhile_append)
  have split: "takeWhile (\<lambda>c. c \<noteq> CHR ''/'') (host @ CHR '':'' # port @ CHR ''/'' # target) = host @ CHR '':'' # port"
    using all(1) [of "CHR ''/''" "host @ CHR '':'' # port" target] assms by simp
  have "takeWhile (\<lambda>c. c \<noteq> CHR '':'') (rev (host @ CHR '':'' # port)) = rev port"
    using all(1) [of "CHR '':''" "rev port" "rev host"] assms by simp
  then show "ParseHttpUrl (''http://'' @ host @ CHR '':'' # port @ CHR ''/'' # target) =
      Inr \<lparr>ep_host = host, ep_port = port, ep_target = CHR ''/'' # target\<rparr>"
    by (simp add: ParseHttpUrl_def Let_def split)
  show "ParseHttpUrl (''http://'' @ host @ CHR ''/'' # target) =
      Inr \<lparr>ep_host = host, ep_port = ''80'', ep_target = CHR ''/'' # target\<rparr>"
    using assms all(1) [of "CHR ''/''" host target] by (simp add: ParseHttpUrl_def Let_def)
qed


subsection \<open>What a downloaded file holds\<close>

text \<open>The network does not touch the files, nor the files the network.\<close>

definition at_files :: "file_system \<Rightarrow> 'x machine \<Rightarrow> 'x machine" where
  "at_files fs w = w\<lparr>mc_files := fs\<rparr>"

lemma at_files_simps [simp]:
  "mc_files (at_files fs w) = fs" "at_files fs (at_files fs' w) = at_files fs w" "at_files (mc_files w) w = w"
  by (simp_all add: at_files_def)

definition network_only :: "'x http_api \<Rightarrow> bool" where
  "network_only api \<longleftrightarrow>
     (\<forall>fs w. ha_is_done api (at_files fs w) = ha_is_done api w \<and>
       ha_result_int api (at_files fs w) = ha_result_int api w \<and>
       ha_read api (at_files fs w) = map_prod id (at_files fs) (ha_read api w) \<and>
       (\<forall>endpoint agent. ha_open api endpoint agent (at_files fs w) =
          map_option (map_prod id (at_files fs)) (ha_open api endpoint agent w)))"

definition keep_body :: "u8 list \<Rightarrow> u8 list \<Rightarrow> ('x, u8 list) prog" where
  "keep_body body chunk = prog_return (body @ chunk)"

definition append_chunk :: "fs_path \<Rightarrow> unit \<Rightarrow> u8 list \<Rightarrow> ('x, unit) prog" where
  "append_chunk q u chunk w = Some (Inr (), at_files (append_at q chunk (mc_files w)) w)"

lemma append_at_append [simp]: "append_at q b (append_at q a fs) = append_at q (a @ b) fs"
  by (auto simp: append_at_def split: option.splits fs_node.splits)

lemma append_at_Nil [simp]: "append_at q [] fs = fs"
  by (auto simp: append_at_def split: option.splits fs_node.splits)

definition stores_alike :: "'x http_api \<Rightarrow> (u8 list \<Rightarrow> u8 list \<Rightarrow> ('x, u8 list) prog) \<Rightarrow> u8 list \<Rightarrow>
    'x machine \<Rightarrow> u8 list result \<times> 'x machine \<Rightarrow> bool" where
  "stores_alike api on_chunk kept w y \<longleftrightarrow>
     (on_chunk = keep_body \<longrightarrow> network_only api \<longrightarrow> (\<forall>body w' q. y = (Inr body, w') \<longrightarrow>
        (\<exists>sent. body = kept @ sent \<and>
          (\<forall>fs. download_loop api (append_chunk q) () (at_files fs w) =
                  Some (Inr (), at_files (append_at q sent fs) w')))))"

lemma loops_agree:
  assumes "download_loop api on_chunk kept w = Some y"
  shows "stores_alike api on_chunk kept w y"
proof (rule download_loop.raw_induct [OF _ assms, where P = stores_alike])
    fix loop :: "'a http_api \<Rightarrow> (u8 list \<Rightarrow> u8 list \<Rightarrow> ('a, u8 list) prog) \<Rightarrow> u8 list \<Rightarrow> ('a, u8 list) prog"
    fix api on_chunk kept w y
    assume IH: "\<And>api on_chunk kept w y. loop api on_chunk kept w = Some y \<Longrightarrow> stores_alike api on_chunk kept w y"
      and run: "(if ha_is_done api w then Some (Inr kept, w)
        else case ha_read api w of ((outcome, bytes), w) \<Rightarrow>
          (case outcome of Read_error e \<Rightarrow> Some (Inl e, w)
           | _ \<Rightarrow> prog_bind (if bytes = [] then prog_return kept else on_chunk kept bytes)
                   (\<lambda>kept w. loop api on_chunk kept w) w)) = Some y"
    show "stores_alike api on_chunk kept w y"
      unfolding stores_alike_def
    proof (intro impI allI)
    fix body w' q
    assume chunk: "on_chunk = keep_body" and net: "network_only api" and y: "y = (Inr body, w')"
    have api: "ha_is_done api (at_files fs w) = ha_is_done api w"
        "ha_read api (at_files fs w) = map_prod id (at_files fs) (ha_read api w)" for fs
      using net by (simp_all add: network_only_def)
    show "\<exists>sent. body = kept @ sent \<and>
      (\<forall>fs. download_loop api (append_chunk q) () (at_files fs w) =
            Some (Inr (), at_files (append_at q sent fs) w'))"
    proof (cases "ha_is_done api w")
      case True
      then have "kept = body" "w = w'"
        using run y by simp_all
      then show ?thesis
        using True api by (simp add: download_loop.simps [of api "append_chunk q"])
    next
      case False
      obtain outcome bytes w1 where r: "ha_read api w = ((outcome, bytes), w1)"
        by (metis prod.collapse)
      have no_error: "\<nexists>e. outcome = Read_error e"
        using False run y r by auto
      then have next_run: "loop api on_chunk (kept @ bytes) w1 = Some y"
        using False run chunk r
        by (cases outcome) (auto simp: keep_body_def split: if_splits)
      obtain sent where sent: "body = (kept @ bytes) @ sent"
          "\<And>fs. download_loop api (append_chunk q) () (at_files fs w1) =
             Some (Inr (), at_files (append_at q sent fs) w')"
        using IH [OF next_run] chunk net y unfolding stores_alike_def by blast
      have "download_loop api (append_chunk q) () (at_files fs w) =
          Some (Inr (), at_files (append_at q (bytes @ sent) fs) w')" for fs
        using False no_error r api sent(2)
        by (cases outcome)
          (auto simp: download_loop.simps [of api "append_chunk q" _ "at_files fs w"] append_chunk_def prog_bind_def)
      then show ?thesis
        using sent(1) by auto
    qed
  qed
qed


lemma callbacks:
  "(\<lambda>body chunk. prog_return (body @ chunk)) = keep_body"
  "(\<lambda>_ chunk w. Some (Inr (), w\<lparr>mc_files := append_at q chunk (mc_files w)\<rparr>)) = append_chunk q"
  by (simp_all add: keep_body_def append_chunk_def at_files_def fun_eq_iff)

lemma opened_then_appended:
  assumes "write_file os fs path body = Some fs2"
  obtains q fs1 where "locate os fs True path = Inr q" "write_file os fs path [] = Some fs1"
    "append_at q body fs1 = fs2"
proof -
  obtain q where q: "locate os fs True path = Inr q"
    using assms by (auto simp: write_file_def split: sum.splits)
  show thesis
  proof (cases "q = []")
    case True
    then show thesis using assms q by (simp add: write_file_def node_at_def)
  next
    case False
    then show thesis
      using assms q that
      by (auto simp: write_file_def node_at_def append_at_def split: option.splits fs_node.splits)
  qed
qed

lemma file_holds_body:
  assumes "network_only api" "DownloadHttp api request w = Some (Inr (status, body), w')"
    "create_directories os (mc_files w) (parent_path path) = Inr fs1"
    "write_file os fs1 path body = Some fs2"
  shows "DownloadHttpToFile os api request path w = Some (Inr status, at_files fs2 w')"
proof -
  obtain q fs0 where q: "locate os fs1 True path = Inr q" "write_file os fs1 path [] = Some fs0"
      "append_at q body fs0 = fs2"
    by (rule opened_then_appended [OF assms(4)])
  obtain endpoint w1 w2 where endpoint: "ParseHttpUrl (rq_url request) = Inr endpoint"
    and opened: "ha_open api endpoint (rq_user_agent request) w = Some (Inr (), w1)"
    and memory: "download_loop api keep_body [] w1 = Some (Inr body, w2)"
    and status: "status = ha_result_int api w2" "w' = w2"
  proof -
    from assms(2) show thesis
      using that unfolding DownloadHttp_def DownloadHttpStream_def callbacks
      by (cases "ParseHttpUrl (rq_url request)") (auto elim!: prog_bind_InrE)
  qed
  have to_file: "download_loop api (append_chunk q) () (at_files fs0 w1) = Some (Inr (), at_files fs2 w2)"
    using loops_agree [OF memory] assms(1) q(3) unfolding stores_alike_def by auto
  have connect: "ha_open api endpoint (rq_user_agent request) (at_files fs0 w) = Some (Inr (), at_files fs0 w1)"
    using assms(1) opened by (simp add: network_only_def)
  have result: "ha_result_int api (at_files fs2 w2) = ha_result_int api w2"
    using assms(1) by (simp add: network_only_def)
  show ?thesis
    unfolding DownloadHttpToFile_def DownloadHttpStream_def callbacks
    using assms(3) q endpoint connect to_file result status
    by (simp add: prog_bind_def prog_act_def act_change_def open_target_def at_files_def)
qed

text \<open>
  The body of a response, by the answers of the library alone: the pieces that the reads leave in the
  buffer, in their order, until the parser is done.  A read that completes the message may leave a last
  piece too.
\<close>

inductive delivers :: "'x http_api \<Rightarrow> 'x machine \<Rightarrow> u8 list list \<Rightarrow> 'x machine \<Rightarrow> bool" for api where
  finished: "ha_is_done api w \<Longrightarrow> delivers api w [] w"
| piece: "\<lbrakk>\<not> ha_is_done api w; ha_read api w = ((outcome, bytes), w1); outcome = Read_ok \<or> outcome = Need_buffer;
           delivers api w1 pieces w2\<rbrakk> \<Longrightarrow> delivers api w (bytes # pieces) w2"

lemma delivers_collected:
  assumes "delivers api w pieces w'"
  shows "download_loop api keep_body kept w = Some (Inr (kept @ concat pieces), w')"
  using assms
proof (induction arbitrary: kept)
  case (finished w)
  then show ?case by (simp add: download_loop.simps)
next
  case (piece w outcome bytes w1 pieces w2)
  have "download_loop api keep_body kept w = download_loop api keep_body (kept @ bytes) w1"
    using piece.hyps(1-3) by (auto simp: download_loop.simps [of api keep_body kept w] keep_body_def)
  then show ?case using piece.IH by simp
qed

text \<open>
  C40: Downloading keeps the whole body.  When the network does not touch the files, take a request whose
  URL parses and whose connection opens, and the pieces that the reads deliver until the parser is done:
  \<open>DownloadHttp\<close> returns the status of the response with all the pieces in their order; and when the
  directories can be made and the target be written, \<open>DownloadHttpToFile\<close> returns the status and the
  file holds exactly these pieces, whatever it held before, and nothing else of the file system changes
  but for the directories above it.
\<close>

theorem downloaded_file_is_the_body:
  assumes "network_only api" "ParseHttpUrl (rq_url request) = Inr endpoint"
    "ha_open api endpoint (rq_user_agent request) w = Some (Inr (), w1)" "delivers api w1 pieces w'"
    "create_directories os (mc_files w) (parent_path path) = Inr fs1"
    "write_file os fs1 path (concat pieces) = Some fs2"
  shows "DownloadHttp api request w = Some (Inr (ha_result_int api w', concat pieces), w') \<and>
    DownloadHttpToFile os api request path w = Some (Inr (ha_result_int api w'), at_files fs2 w')"
proof -
  have "DownloadHttp api request w = Some (Inr (ha_result_int api w', concat pieces), w')"
    unfolding DownloadHttp_def DownloadHttpStream_def callbacks
    using assms(2,3) delivers_collected [OF assms(4), of "[]"] by (simp add: prog_bind_def)
  then show ?thesis using file_holds_body [OF assms(1) _ assms(5,6)] by blast
qed

text \<open>A response of two pieces, kept in the world as what is still to come.\<close>

definition demo_http :: "u8 list list http_api" where
  "demo_http =
     \<lparr>ha_open = (\<lambda>endpoint agent. prog_return ()), ha_is_done = (\<lambda>w. mc_rest w = []),
      ha_read = (\<lambda>w. ((Need_buffer, hd (mc_rest w)), w\<lparr>mc_rest := tl (mc_rest w)\<rparr>)),
      ha_result_int = (\<lambda>w. 200)\<rparr>"

definition demo_response :: "u8 list list machine" where
  "demo_response = \<lparr>mc_files = Map.empty, mc_rest = [[1, 2], [3]]\<rparr>"

lemma demo_network: "network_only demo_http"
  by (simp add: network_only_def demo_http_def at_files_def)

lemma demo_delivers: "delivers demo_http demo_response [[1, 2], [3]] (demo_response\<lparr>mc_rest := []\<rparr>)"
proof -
  let ?w = "\<lambda>left. demo_response\<lparr>mc_rest := left\<rparr>"
  have 1: "delivers demo_http (?w []) [] (?w [])"
    by (rule delivers.finished) (simp add: demo_http_def)
  have 2: "delivers demo_http (?w [[3]]) [[3]] (?w [])"
    by (rule delivers.piece [OF _ _ _ 1, where outcome = Need_buffer]) (simp_all add: demo_http_def)
  have "delivers demo_http (?w [[1, 2], [3]]) [[1, 2], [3]] (?w [])"
    by (rule delivers.piece [OF _ _ _ 2, where outcome = Need_buffer]) (simp_all add: demo_http_def)
  then show ?thesis by (simp add: demo_response_def)
qed

lemma demo_dirs:
  "create_directories demo_env (mc_files demo_response) (parent_path ''/f'') = Inr Map.empty"
  by (simp add: demo_response_def demo_env_def create_directories_def parent_path_def path_names_def is_absolute_def)

lemma demo_target_written:
  "write_file demo_env Map.empty ''/f'' [1, 2, 3] = Some (Map.empty([''f''] \<mapsto> Regular_file [1, 2, 3] False))"
  by (simp add: write_file_def demo_env_def locate_def is_absolute_def path_names_def node_at_def)

theorem downloaded_file_is_the_body_witness:
  "\<exists>w. DownloadHttpToFile demo_env demo_http \<lparr>rq_url = ''http://s/f'', rq_user_agent = ''z''\<rparr> ''/f'' demo_response =
     Some (Inr 200, w) \<and> mc_files w [''f''] = Some (Regular_file [1, 2, 3] False)"
proof -
  let ?request = "\<lparr>rq_url = ''http://s/f'', rq_user_agent = ''z''\<rparr>"
  have url: "ParseHttpUrl (rq_url ?request) = Inr \<lparr>ep_host = ''s'', ep_port = ''80'', ep_target = ''/f''\<rparr>"
    by code_simp
  have opened: "ha_open demo_http endpoint (rq_user_agent ?request) demo_response = Some (Inr (), demo_response)" for endpoint
    by (simp add: demo_http_def)
  have written: "write_file demo_env Map.empty ''/f'' (concat [[1, 2], [3]]) =
      Some (Map.empty([''f''] \<mapsto> Regular_file [1, 2, 3] False))"
    using demo_target_written by simp
  have status: "ha_result_int demo_http w = 200" for w
    by (simp add: demo_http_def)
  show ?thesis
    using downloaded_file_is_the_body [OF demo_network url opened demo_delivers demo_dirs written] status by simp
qed

end
