(* ===== verification/Agent_Config.thy ===== *)
theory Agent_Config
  imports File_Actions
begin

section \<open>apps/agent: configuration and state (config.cpp, state.cpp, main.cpp; log.cpp)\<close>

text \<open>
  The agent's configuration file and its identity.  The TOML library is the record \<open>toml_lib\<close>: its
  parser, the two ways a table is looked into (\<open>get_as<table>\<close> and \<open>get\<close>), the typed values of a
  node, and its printer on the documents the code builds.
\<close>

subsection \<open>Log levels\<close>

datatype log_level = kTrace | kDebug | kInfo | kWarn | kError | kCritical | kOff

record log_config =
  lc_level :: log_level
  lc_enable_console :: bool
  lc_file_path :: string

definition tolower :: "char \<Rightarrow> char" where
  "tolower c = (if CHR ''A'' \<le> c \<and> c \<le> CHR ''Z'' then char_of (of_char c + (32::nat)) else c)"

definition NormalizeLevelText :: "string \<Rightarrow> string" where
  "NormalizeLevelText text = map tolower text"

definition ParseLevel :: "string \<Rightarrow> log_level result" where
  "ParseLevel text =
     (let normalized = NormalizeLevelText text in
      if normalized = ''trace'' then Inr kTrace
      else if normalized = ''debug'' then Inr kDebug
      else if normalized = ''info'' then Inr kInfo
      else if normalized = ''warn'' \<or> normalized = ''warning'' then Inr kWarn
      else if normalized = ''error'' \<or> normalized = ''err'' then Inr kError
      else if normalized = ''critical'' then Inr kCritical
      else if normalized = ''off'' then Inr kOff
      else Inl (Invalid_argument (''invalid log level: '' @ text)))"

fun Level_ToString :: "log_level \<Rightarrow> string" where
  "Level_ToString kTrace = ''trace''"
| "Level_ToString kDebug = ''debug''"
| "Level_ToString kInfo = ''info''"
| "Level_ToString kWarn = ''warn''"
| "Level_ToString kError = ''error''"
| "Level_ToString kCritical = ''critical''"
| "Level_ToString kOff = ''off''"

lemma level_round_trip [simp]: "ParseLevel (Level_ToString l) = Inr l"
  by (cases l) (simp_all add: ParseLevel_def NormalizeLevelText_def tolower_def less_eq_char_def)

subsection \<open>The configuration\<close>

record agent_config =
  ac_install_dir :: "string option"
  ac_control_url :: string
  ac_registration_token :: string
  ac_data_dir :: string
  ac_state_path :: string
  ac_heartbeat_interval_seconds :: u32
  ac_reconnect_initial_delay_seconds :: u32
  ac_reconnect_max_delay_seconds :: u32
  ac_log :: log_config

definition default_config :: agent_config where
  "default_config =
     \<lparr>ac_install_dir = None, ac_control_url = ''http://127.0.0.1:8081'', ac_registration_token = [],
      ac_data_dir = ''data/agent'', ac_state_path = ''state.toml'', ac_heartbeat_interval_seconds = 30,
      ac_reconnect_initial_delay_seconds = 1, ac_reconnect_max_delay_seconds = 30,
      ac_log = \<lparr>lc_level = kInfo, lc_enable_console = True, lc_file_path = ''logs/zfleet-agent.log''\<rparr>\<rparr>"

datatype toml_value = Toml_string string | Toml_integer int | Toml_boolean bool

type_synonym toml_document = "(string \<times> (string \<times> toml_value) list) list"

record 't toml_lib =
  tl_parse :: "string \<Rightarrow> 't result"
  tl_table :: "'t \<Rightarrow> string \<Rightarrow> 't option"
  tl_get :: "'t \<Rightarrow> string \<Rightarrow> 't option"
  tl_string :: "'t \<Rightarrow> string option"
  tl_boolean :: "'t \<Rightarrow> bool option"
  tl_uint32 :: "'t \<Rightarrow> u32 option"
  tl_print :: "toml_document \<Rightarrow> string"

definition ResolvePath :: "string option \<Rightarrow> string \<Rightarrow> string" where
  "ResolvePath install_dir path =
     (if path = [] \<or> is_absolute path then path
      else case install_dir of None \<Rightarrow> path | Some dir \<Rightarrow> path_append dir path)"

definition ParseTomlFileOrThrow :: "'t toml_lib \<Rightarrow> os_env \<Rightarrow> file_system \<Rightarrow> string \<Rightarrow> 't result" where
  "ParseTomlFileOrThrow lib os fs path =
     bind_res (option_res (Runtime_error (''File could not be opened for reading'')) (read_file os fs path))
       (\<lambda>contents. tl_parse lib (string_of_bytes contents))"

text \<open>The value at a key, where the node is there and has the type.\<close>

definition field_value :: "'t toml_lib \<Rightarrow> ('t \<Rightarrow> 'v option) \<Rightarrow> 't \<Rightarrow> string \<Rightarrow> 'v option" where
  "field_value lib typed table key =
     (case tl_get lib table key of None \<Rightarrow> None | Some node \<Rightarrow> typed node)"

definition LoadLogConfig :: "'t toml_lib \<Rightarrow> 't \<Rightarrow> log_config \<Rightarrow> log_config result" where
  "LoadLogConfig lib table config =
     (case tl_table lib table ''log'' of
        None \<Rightarrow> Inr config
      | Some log \<Rightarrow>
          bind_res (case field_value lib (tl_string lib) log ''level'' of
                      None \<Rightarrow> Inr config
                    | Some text \<Rightarrow> bind_res (ParseLevel text) (\<lambda>level. Inr (config\<lparr>lc_level := level\<rparr>)))
            (\<lambda>config.
          let config = (case field_value lib (tl_string lib) log ''file'' of
                          None \<Rightarrow> config | Some path \<Rightarrow> config\<lparr>lc_file_path := path\<rparr>)
          in Inr (case field_value lib (tl_boolean lib) log ''enable_console'' of
                    None \<Rightarrow> config | Some b \<Rightarrow> config\<lparr>lc_enable_console := b\<rparr>)))"

definition set_if :: "(('v \<Rightarrow> 'v) \<Rightarrow> 'c \<Rightarrow> 'c) \<Rightarrow> 'v option \<Rightarrow> 'c \<Rightarrow> 'c" where
  "set_if update v config = (case v of None \<Rightarrow> config | Some x \<Rightarrow> update (\<lambda>_. x) config)"

definition LoadConfig :: "'t toml_lib \<Rightarrow> os_env \<Rightarrow> file_system \<Rightarrow> string option \<Rightarrow> agent_config result" where
  "LoadConfig lib os fs config_path =
     (case config_path of
        None \<Rightarrow> Inr default_config
      | Some path \<Rightarrow>
          bind_res (ParseTomlFileOrThrow lib os fs path) (\<lambda>table.
          bind_res (LoadLogConfig lib table (ac_log default_config)) (\<lambda>log.
          let config = default_config\<lparr>ac_log := log\<rparr> in
          case tl_table lib table ''agent'' of
            None \<Rightarrow> Inr config
          | Some agent \<Rightarrow>
              let text = field_value lib (tl_string lib) agent;
                  number = field_value lib (tl_uint32 lib) agent;
                  config = set_if ac_control_url_update (text ''control_url'') config;
                  config = set_if ac_registration_token_update (text ''registration_token'') config;
                  config = set_if ac_data_dir_update (text ''data_dir'') config;
                  config = set_if ac_state_path_update (text ''state_path'') config;
                  config = set_if ac_heartbeat_interval_seconds_update
                             (number ''heartbeat_interval_seconds'') config;
                  config = set_if ac_reconnect_initial_delay_seconds_update
                             (number ''reconnect_initial_delay_seconds'') config
              in Inr (set_if ac_reconnect_max_delay_seconds_update
                        (number ''reconnect_max_delay_seconds'') config))))"

definition DefaultConfigPath :: "string option \<Rightarrow> string" where
  "DefaultConfigPath install_dir =
     (case install_dir of
        Some dir \<Rightarrow> path_append (path_append dir ''etc'') ''agent.toml''
      | None \<Rightarrow> ''agent.toml'')"

text \<open>\<open>insert\<close> keeps the keys of a table sorted, so the document is in the order of its keys.\<close>

definition config_document :: "agent_config \<Rightarrow> toml_document" where
  "config_document config =
     [(''agent'',
       [(''control_url'', Toml_string (ac_control_url config)),
        (''registration_token'', Toml_string (ac_registration_token config)),
        (''data_dir'', Toml_string (ac_data_dir config)),
        (''state_path'', Toml_string (ac_state_path config)),
        (''heartbeat_interval_seconds'', Toml_integer (uint (ac_heartbeat_interval_seconds config))),
        (''reconnect_initial_delay_seconds'',
           Toml_integer (uint (ac_reconnect_initial_delay_seconds config))),
        (''reconnect_max_delay_seconds'', Toml_integer (uint (ac_reconnect_max_delay_seconds config)))]),
      (''log'',
       [(''level'', Toml_string (Level_ToString (lc_level (ac_log config)))),
        (''file'', Toml_string (lc_file_path (ac_log config))),
        (''enable_console'', Toml_boolean (lc_enable_console (ac_log config)))])]"

definition SaveConfig :: "'t toml_lib \<Rightarrow> os_env \<Rightarrow> agent_config \<Rightarrow> string \<Rightarrow> unit act" where
  "SaveConfig lib os config config_path =
     act_bind (if parent_path config_path \<noteq> []
               then act_change (\<lambda>fs. create_directories os fs (parent_path config_path))
               else act_return ()) (\<lambda>_.
     act_change (\<lambda>fs.
       option_res (Runtime_error (''failed to open config for writing: '' @ config_path))
         (write_file os fs config_path
            (bytes_of_string (tl_print lib (config_document config) @ [CHR 0x0A])))))"

definition ResolveConfigPaths :: "agent_config \<Rightarrow> agent_config" where
  "ResolveConfigPaths config =
     config\<lparr>ac_data_dir := ResolvePath (ac_install_dir config) (ac_data_dir config),
            ac_state_path := ResolvePath (ac_install_dir config) (ac_state_path config),
            ac_log := (ac_log config)\<lparr>lc_file_path :=
                         ResolvePath (ac_install_dir config) (lc_file_path (ac_log config))\<rparr>\<rparr>"

definition StatePathFor :: "agent_config \<Rightarrow> string" where
  "StatePathFor config =
     (if is_absolute (ac_state_path config) then ac_state_path config
      else path_append (ac_data_dir config) (ac_state_path config))"

subsection \<open>The identity of the agent\<close>

definition parse_state :: "'t toml_lib \<Rightarrow> os_env \<Rightarrow> file_system \<Rightarrow> string \<Rightarrow> string result" where
  "parse_state lib os fs state_path =
     bind_res (ParseTomlFileOrThrow lib os fs state_path) (\<lambda>table.
     case tl_table lib table ''state'' of
       None \<Rightarrow> Inl (Runtime_error ''missing [state] table'')
     | Some state \<Rightarrow>
         (case tl_get lib state ''agent_id'' of
            None \<Rightarrow> Inl (Runtime_error ''missing state.agent_id'')
          | Some node \<Rightarrow>
              (case tl_string lib node of
                 None \<Rightarrow> Inl (Runtime_error ''invalid state.agent_id'')
               | Some agent_id \<Rightarrow>
                   if agent_id = [] then Inl (Runtime_error ''invalid state.agent_id'')
                   else Inr agent_id)))"

definition state_document :: "string \<Rightarrow> toml_document" where
  "state_document agent_id = [(''state'', [(''agent_id'', Toml_string agent_id)])]"

definition write_state :: "'t toml_lib \<Rightarrow> os_env \<Rightarrow> string \<Rightarrow> string \<Rightarrow> unit act" where
  "write_state lib os state_path agent_id =
     act_bind (act_change (\<lambda>fs. create_directories os fs (parent_path state_path))) (\<lambda>_.
     act_change (\<lambda>fs.
       option_res (Runtime_error ''failed to open state file for writing'')
         (write_file os fs state_path (bytes_of_string (tl_print lib (state_document agent_id))))))"

text \<open>The UUID a new agent gets is an argument.\<close>

definition LoadOrCreateState :: "'t toml_lib \<Rightarrow> os_env \<Rightarrow> string \<Rightarrow> string \<Rightarrow> string act" where
  "LoadOrCreateState lib os new_uuid state_path =
     act_bind (act_read (\<lambda>fs. fs_exists os fs state_path)) (\<lambda>present.
     if present then act_read (\<lambda>fs. parse_state lib os fs state_path)
     else act_bind (write_state lib os state_path new_uuid) (\<lambda>_. act_return new_uuid))"

subsection \<open>Starting up (main.cpp)\<close>

record agent_arguments =
  aa_config_path :: string
  aa_control_url :: string
  aa_registration_token :: string
  aa_data_dir :: string
  aa_state_path :: string
  aa_log_level :: string

text \<open>The environment variable \<open>ZFLEET_COMPONENT_ROOT\<close>, where it is set.\<close>

definition DetectInstallDir :: "string option \<Rightarrow> string result \<Rightarrow> string result" where
  "DetectInstallDir component_root current_path =
     (case component_root of
        Some dir \<Rightarrow> if dir \<noteq> [] then Inr dir else current_path
      | None \<Rightarrow> current_path)"

definition overridden :: "string \<Rightarrow> ((string \<Rightarrow> string) \<Rightarrow> agent_config \<Rightarrow> agent_config) \<Rightarrow> agent_config \<Rightarrow> agent_config" where
  "overridden arg update config = (if arg \<noteq> [] then update (\<lambda>_. arg) config else config)"

text \<open>The part of \<open>main\<close> before the runtime: the configuration it is started with.\<close>

definition startup_config ::
    "'t toml_lib \<Rightarrow> os_env \<Rightarrow> string option \<Rightarrow> string result \<Rightarrow> agent_arguments \<Rightarrow> agent_config act" where
  "startup_config lib os component_root current_path args =
     act_bind (act_read (\<lambda>fs. DetectInstallDir component_root current_path)) (\<lambda>install_dir.
     let config_path = (if aa_config_path args = [] then DefaultConfigPath (Some install_dir)
                        else aa_config_path args) in
     act_bind (act_read (\<lambda>fs. fs_exists os fs config_path)) (\<lambda>present.
     act_bind (act_read (\<lambda>fs. if present then LoadConfig lib os fs (Some config_path) else Inr default_config))
       (\<lambda>config.
     let config = config\<lparr>ac_install_dir := Some install_dir\<rparr>;
         config = overridden (aa_data_dir args) ac_data_dir_update config;
         config = overridden (aa_state_path args) ac_state_path_update config;
         config = overridden (aa_control_url args) ac_control_url_update config;
         config = overridden (aa_registration_token args) ac_registration_token_update config
     in
     act_bind (act_read (\<lambda>fs. if aa_log_level args \<noteq> []
                              then bind_res (ParseLevel (aa_log_level args)) (\<lambda>level.
                                     Inr (config\<lparr>ac_log := (ac_log config)\<lparr>lc_level := level\<rparr>\<rparr>))
                              else Inr config)) (\<lambda>config.
     act_bind (SaveConfig lib os config config_path) (\<lambda>_.
     act_return (ResolveConfigPaths config))))))"


subsection \<open>Reading back what was written\<close>

lemma resolve_written:
  assumes "fs q = None \<or> (\<exists>c x. fs q = Some (Regular_file c x))"
  shows "resolve links fs cur cs follow = Inr q \<Longrightarrow> follow \<Longrightarrow>
    resolve links (fs(q \<mapsto> Regular_file contents x)) cur cs follow = Inr q"
  using assms
proof (induction links fs cur cs follow rule: resolve.induct)
  case (1 links fs cur follow)
  then show ?case by simp
next
  case (2 links fs cur c cs follow)
  note IH = 2(1-4) and run = 2(5) and follow = 2(6) and old = 2(7)
  consider "c = ''.''" | "c \<noteq> ''.''" "c = ''..''" | (name) "c \<noteq> ''.''" "c \<noteq> ''..''"
    by blast
  then show ?case
  proof cases
    case name
    show ?thesis
    proof (cases "cur @ [c] = q")
      case True
      then show ?thesis
        using name run old by (auto split: if_splits)
    next
      case False
      then have same: "(fs(q \<mapsto> Regular_file contents x)) (cur @ [c]) = fs (cur @ [c])" by simp
      show ?thesis
      proof (cases "fs (cur @ [c])")
        case None
        then show ?thesis using name run False by (simp split: if_splits)
      next
        case (Some node)
        then show ?thesis
          using name run False same follow old IH
          by (cases node) (auto split: if_splits)
      qed
    qed
  qed (use run follow old IH in simp_all)
qed

lemma read_written:
  assumes "write_file os fs path contents = Some fs'"
  shows "read_file os fs' path = Some contents" "fs_exists os fs' path = Inr True"
proof -
  obtain q x where q: "locate os fs True path = Inr q" "q \<noteq> []" "fs' = fs(q \<mapsto> Regular_file contents x)"
      "fs q = None \<or> (\<exists>c x. fs q = Some (Regular_file c x))"
    using assms by (auto simp: write_file_def node_at_def split: sum.splits option.splits fs_node.splits if_splits)
  then have "locate os fs' True path = Inr q"
    using resolve_written [of fs q] by (auto simp: locate_def split: if_splits)
  then show "read_file os fs' path = Some contents" "fs_exists os fs' path = Inr True"
    using q(2,3)
    by (simp_all add: read_file_def node_status_def node_at_def fs_exists_def fs_status_def)
qed

fun node_holds :: "'t toml_lib \<Rightarrow> 't \<Rightarrow> toml_value \<Rightarrow> bool" where
  "node_holds lib node (Toml_string s) \<longleftrightarrow> tl_string lib node = Some s"
| "node_holds lib node (Toml_integer i) \<longleftrightarrow> (0 \<le> i \<and> i < 2 ^ 32 \<longrightarrow> tl_uint32 lib node = Some (word_of_int i))"
| "node_holds lib node (Toml_boolean b) \<longleftrightarrow> tl_boolean lib node = Some b"

definition table_holds :: "'t toml_lib \<Rightarrow> 't \<Rightarrow> (string \<times> toml_value) list \<Rightarrow> bool" where
  "table_holds lib table entries \<longleftrightarrow>
     list_all (\<lambda>(key, v). \<exists>node. tl_get lib table key = Some node \<and> node_holds lib node v) entries"

definition toml_reads_back :: "'t toml_lib \<Rightarrow> string \<Rightarrow> toml_document \<Rightarrow> bool" where
  "toml_reads_back lib text doc \<longleftrightarrow>
     (\<exists>root. tl_parse lib text = Inr root \<and>
        list_all (\<lambda>(section, entries). \<exists>table. tl_table lib root section = Some table \<and>
                                             table_holds lib table entries) doc)"

lemma field_read:
  "tl_get lib table key = Some node \<Longrightarrow> field_value lib typed table key = typed node"
  by (simp add: field_value_def)

lemma uint32_field: "0 \<le> uint (w :: u32) \<and> uint w < 2 ^ 32"
  using uint_lt2p [of w] by simp

lemma read_back_config:
  assumes "table_holds lib agent (snd (hd (config_document config)))"
    "table_holds lib log (snd (config_document config ! 1))"
    "tl_parse lib text = Inr root" "tl_table lib root ''agent'' = Some agent" "tl_table lib root ''log'' = Some log"
    "read_file os fs path = Some (bytes_of_string text)"
  shows "LoadConfig lib os fs (Some path) = Inr (config\<lparr>ac_install_dir := None\<rparr>)"
proof -
  have words: "tl_uint32 lib node = Some w" if "node_holds lib node (Toml_integer (uint w))" for node w
    using that uint32_field [of w] by simp
  have "LoadLogConfig lib root (ac_log default_config) = Inr (ac_log config)"
    using assms(2,5)
    by (auto simp: LoadLogConfig_def table_holds_def config_document_def field_value_def default_config_def)
  moreover have "field_value lib (tl_string lib) agent ''control_url'' = Some (ac_control_url config)"
    "field_value lib (tl_string lib) agent ''registration_token'' = Some (ac_registration_token config)"
    "field_value lib (tl_string lib) agent ''data_dir'' = Some (ac_data_dir config)"
    "field_value lib (tl_string lib) agent ''state_path'' = Some (ac_state_path config)"
    using assms(1) by (auto simp: table_holds_def config_document_def field_value_def)
  moreover have "field_value lib (tl_uint32 lib) agent ''heartbeat_interval_seconds'' =
      Some (ac_heartbeat_interval_seconds config)"
    "field_value lib (tl_uint32 lib) agent ''reconnect_initial_delay_seconds'' =
      Some (ac_reconnect_initial_delay_seconds config)"
    "field_value lib (tl_uint32 lib) agent ''reconnect_max_delay_seconds'' =
      Some (ac_reconnect_max_delay_seconds config)"
    using assms(1) words
    by (auto simp: table_holds_def config_document_def field_value_def simp del: node_holds.simps(2))
  ultimately show ?thesis
    using assms(3-6)
    by (simp add: LoadConfig_def ParseTomlFileOrThrow_def Let_def set_if_def default_config_def)
qed

text \<open>
  The configuration survives being saved.  With a TOML library whose parser reads back what its
  printer wrote, a configuration that \<open>SaveConfig\<close> saved is what \<open>LoadConfig\<close> loads from that path,
  every field of it: the three 32-bit numbers, the paths, the token and the log settings; the
  installation directory alone is not kept in the file.
\<close>

theorem saved_config_loads:
  assumes "SaveConfig lib os config path fs = (Inr (), fs')"
    "toml_reads_back lib (tl_print lib (config_document config) @ [CHR 0x0A]) (config_document config)"
  shows "LoadConfig lib os fs' (Some path) = Inr (config\<lparr>ac_install_dir := None\<rparr>)"
proof -
  obtain fs1 where "write_file os fs1 path
      (bytes_of_string (tl_print lib (config_document config) @ [CHR 0x0A])) = Some fs'"
    using assms(1)
    by (auto simp: SaveConfig_def act_bind_def act_change_def split: prod.splits sum.splits if_splits)
  note contents = read_written(1) [OF this]
  obtain root agent log where r: "tl_parse lib (tl_print lib (config_document config) @ [CHR 0x0A]) = Inr root"
      "tl_table lib root ''agent'' = Some agent" "tl_table lib root ''log'' = Some log"
      "table_holds lib agent (snd (hd (config_document config)))"
      "table_holds lib log (snd (config_document config ! 1))"
    using assms(2) by (auto simp: toml_reads_back_def config_document_def)
  show ?thesis
    by (rule read_back_config [OF r(4,5,1,2,3) contents])
qed

lemma parsed_identity: "parse_state lib os fs path = Inr agent_id \<Longrightarrow> agent_id \<noteq> []"
  by (auto simp: parse_state_def bind_res_Inr_iff split: option.splits if_splits)

text \<open>
  An agent keeps its identity.  The first start writes the UUID it generated, and whatever UUID
  is offered at a later start, the agent gets the identity of the first one back, and the file is
  not written again.
\<close>

theorem agent_identity_is_kept:
  assumes "LoadOrCreateState lib os uuid path fs = (Inr agent_id, fs')" "uuid \<noteq> []"
    "toml_reads_back lib (tl_print lib (state_document uuid)) (state_document uuid)"
  shows "LoadOrCreateState lib os other path fs' = (Inr agent_id, fs') \<and> agent_id \<noteq> []"
proof -
  obtain present where present: "fs_exists os fs path = Inr present"
    using assms(1) by (auto simp: LoadOrCreateState_def act_bind_def split: sum.splits)
  show ?thesis
  proof (cases present)
    case True
    then show ?thesis
      using assms(1) present
      by (auto simp: LoadOrCreateState_def act_bind_def dest: parsed_identity)
  next
    case False
    then have "act_bind (write_state lib os path uuid) (\<lambda>_. act_return uuid) fs = (Inr agent_id, fs')"
      using assms(1) present by (auto simp: LoadOrCreateState_def elim: act_read_bind_InrE)
    then obtain fs1 where "write_state lib os path uuid fs = (Inr (), fs')" and id: "agent_id = uuid"
      by (auto elim: act_bind_InrE)
    then obtain fs1 where written: "write_file os fs1 path
        (bytes_of_string (tl_print lib (state_document uuid))) = Some fs'"
      by (auto simp: write_state_def act_change_Inr elim!: act_bind_InrE)
    obtain root table node where "tl_parse lib (tl_print lib (state_document uuid)) = Inr root"
        "tl_table lib root ''state'' = Some table" "tl_get lib table ''agent_id'' = Some node"
        "tl_string lib node = Some uuid"
      using assms(3) by (auto simp: toml_reads_back_def state_document_def table_holds_def)
    then show ?thesis
      using read_written [OF written] id assms(2)
      by (simp add: LoadOrCreateState_def act_bind_def parse_state_def ParseTomlFileOrThrow_def)
  qed
qed


text \<open>A library that knows one document: a node is a pair of a section and a key.\<close>

definition demo_field :: "toml_document \<Rightarrow> string \<times> string \<Rightarrow> toml_value option" where
  "demo_field doc node =
     (case map_of doc (fst node) of None \<Rightarrow> None | Some entries \<Rightarrow> map_of entries (snd node))"

definition demo_toml :: "toml_document \<Rightarrow> (string \<times> string) toml_lib" where
  "demo_toml doc =
     \<lparr>tl_parse = (\<lambda>text. Inr ([], [])),
      tl_table = (\<lambda>node section. if section \<in> fst ` set doc then Some (section, []) else None),
      tl_get = (\<lambda>node key. map_option (\<lambda>_. (fst node, key)) (demo_field doc (fst node, key))),
      tl_string = (\<lambda>node. case demo_field doc node of Some (Toml_string s) \<Rightarrow> Some s | _ \<Rightarrow> None),
      tl_boolean = (\<lambda>node. case demo_field doc node of Some (Toml_boolean b) \<Rightarrow> Some b | _ \<Rightarrow> None),
      tl_uint32 = (\<lambda>node. case demo_field doc node of Some (Toml_integer i) \<Rightarrow> Some (word_of_int i) | _ \<Rightarrow> None),
      tl_print = (\<lambda>doc. ''text'')\<rparr>"

definition demo_os :: os_env where
  "demo_os = \<lparr>oe_cwd = [], oe_temp_dir = ''/t'', oe_process_id = 1, oe_ticks = 2,
              oe_listing = (\<lambda>fs p. [''x'']), oe_walk = (\<lambda>fs p. [])\<rparr>"

definition demo_config :: agent_config where
  "demo_config = default_config\<lparr>ac_install_dir := Some ''/r/agent'', ac_registration_token := ''t'',
     ac_heartbeat_interval_seconds := 7\<rparr>"

lemma demo_config_reads_back:
  "toml_reads_back (demo_toml (config_document demo_config)) text (config_document demo_config)"
  by (simp add: toml_reads_back_def demo_toml_def table_holds_def config_document_def demo_field_def)

theorem saved_config_loads_witness:
  "LoadConfig (demo_toml (config_document demo_config)) demo_os
     (Map.empty([''c''] \<mapsto> Regular_file (bytes_of_string (''text'' @ [CHR 0x0A])) False)) (Some ''c'') =
   Inr (demo_config\<lparr>ac_install_dir := None\<rparr>)"
proof (rule saved_config_loads)
  show "SaveConfig (demo_toml (config_document demo_config)) demo_os demo_config ''c'' Map.empty =
      (Inr (), Map.empty([''c''] \<mapsto> Regular_file (bytes_of_string (''text'' @ [CHR 0x0A])) False))"
    by (simp add: SaveConfig_def demo_toml_def demo_os_def parent_path_def act_change_def write_file_def
        locate_def is_absolute_def path_names_def node_at_def)
qed (rule demo_config_reads_back)

lemma demo_state_reads_back:
  "toml_reads_back (demo_toml (state_document ''u'')) text (state_document ''u'')"
  by (simp add: toml_reads_back_def demo_toml_def table_holds_def state_document_def demo_field_def)

theorem agent_identity_is_kept_witness:
  "LoadOrCreateState (demo_toml (state_document ''u'')) demo_os ''v'' ''/s''
     (Map.empty([''s''] \<mapsto> Regular_file (bytes_of_string ''text'') False)) =
   (Inr ''u'', Map.empty([''s''] \<mapsto> Regular_file (bytes_of_string ''text'') False))"
proof -
  have "LoadOrCreateState (demo_toml (state_document ''u'')) demo_os ''u'' ''/s'' Map.empty =
      (Inr ''u'', Map.empty([''s''] \<mapsto> Regular_file (bytes_of_string ''text'') False))"
    by (simp add: LoadOrCreateState_def write_state_def demo_toml_def demo_os_def parent_path_def act_bind_def
        act_change_def write_file_def locate_def is_absolute_def path_names_def node_at_def fs_exists_def
        fs_status_def node_status_def create_directories_def)
  from agent_identity_is_kept [OF this _ demo_state_reads_back] show ?thesis by simp
qed

end
