(* ===== verification/Package_Updater.thy ===== *)
theory Package_Updater
  imports Launcher Download Agent_Config Control_Codec
begin

section \<open>apps/agent: package updates (package_updater.cpp)\<close>

text \<open>
  How an agent carries out an update: it downloads the package, checks the digests of the archive
  and of the manifest in it, runs the installer, and starts the new agent.  Everything outside the
  program is \<open>agent_env\<close>.
\<close>

record ('x, 'c, 'd, 'i) agent_env =
  ae_os :: os_env
  ae_process :: "'x process_api"
  ae_http :: "'x http_api"
  ae_digest :: "'c digest_lib"
  ae_zlib :: "('d, 'i) zlib"

definition DownloadPackageToFile ::
    "('x, 'c, 'd, 'i) agent_env \<Rightarrow> string \<Rightarrow> string \<Rightarrow> ('x, string) prog" where
  "DownloadPackageToFile env url package_path =
     prog_bind (prog_act (act_change (\<lambda>fs. create_directories (ae_os env) fs (parent_path package_path)))) (\<lambda>_.
     prog_bind (DownloadHttpToFile (ae_os env) (ae_http env)
                  \<lparr>rq_url = url, rq_user_agent = ''zfleet_agent''\<rparr> package_path) (\<lambda>status.
     if status \<noteq> 200
     then prog_throw (Runtime_error (''package download returned status '' @ std_to_string status))
     else prog_return package_path))"

definition InstallRoot :: "agent_config \<Rightarrow> string result" where
  "InstallRoot config =
     (case ac_install_dir config of
        None \<Rightarrow> Inl (Runtime_error ''agent install root is unavailable'')
      | Some dir \<Rightarrow> Inr (parent_path dir))"

definition InstallerBinary :: "string \<Rightarrow> string result" where
  "InstallerBinary root =
     bind_res (BinaryNameForComponent ''installer'') (\<lambda>name.
       Inr (path_append (path_append (path_append root ''installer'') ''bin'') name))"

definition RunInstallerCommand ::
    "('x, 'c, 'd, 'i) agent_env \<Rightarrow> string \<Rightarrow> string list \<Rightarrow> ('x, int) prog" where
  "RunInstallerCommand env installer args =
     prog_bind (prog_read (\<lambda>fs. IsLaunchableProgram (ae_os env) fs installer)) (\<lambda>launchable.
     if \<not> launchable then prog_throw (Runtime_error ''active installer binary is unavailable'')
     else prog_bind (Run (ae_process env) (default_options installer args []) None) (\<lambda>status.
       prog_return (if es_exited status then es_exit_code status else 1)))"

definition RunRollback :: "('x, 'c, 'd, 'i) agent_env \<Rightarrow> string \<Rightarrow> string \<Rightarrow> ('x, int) prog" where
  "RunRollback env installer root =
     RunInstallerCommand env installer [''rollback'', ''--root'', root, ''--component'', ''agent'']"

definition StartNewAgent :: "('x, 'c, 'd, 'i) agent_env \<Rightarrow> string \<Rightarrow> ('x, unit) prog" where
  "StartNewAgent env root =
     prog_bind (prog_res (BinaryNameForComponent ''agent'')) (\<lambda>name.
     let binary = path_append (path_append (path_append root ''agent'') ''bin'') name in
     prog_bind (prog_read (\<lambda>fs. IsLaunchableProgram (ae_os env) fs binary)) (\<lambda>launchable.
     if \<not> launchable then prog_throw (Runtime_error ''new agent binary is unavailable'')
     else
     prog_bind (Spawn (ae_process env) (default_options binary []
                  [''ZFLEET_COMPONENT_ROOT='' @ path_append root ''agent''])) (\<lambda>p.
     Detach (ae_process env) p)))"

record update_execution =
  ue_ok :: bool
  ue_stop_agent :: bool
  ue_error_code :: error_code
  ue_message :: string

definition update_failed :: "error_code \<Rightarrow> string \<Rightarrow> update_execution" where
  "update_failed error message =
     \<lparr>ue_ok = False, ue_stop_agent = False, ue_error_code = error, ue_message = message\<rparr>"

definition update_done :: "bool \<Rightarrow> string \<Rightarrow> update_execution" where
  "update_done stop_agent message =
     \<lparr>ue_ok = True, ue_stop_agent = stop_agent, ue_error_code = E_task_execution_failed,
      ue_message = message\<rparr>"

text \<open>The inner \<open>try\<close>, with what follows when the new agent was started.\<close>

definition start_new_agent ::
    "('x, 'c, 'd, 'i) agent_env \<Rightarrow> string \<Rightarrow> update_execution \<Rightarrow> ('x, update_execution) prog" where
  "start_new_agent env root success =
     prog_catch (prog_bind (StartNewAgent env root) (\<lambda>_. prog_return success))
       (\<lambda>ex. prog_return (update_failed E_start_new_agent_failed (what ex)))"

definition rollback_update ::
    "('x, 'c, 'd, 'i) agent_env \<Rightarrow> agent_config \<Rightarrow> ('x, update_execution) prog" where
  "rollback_update env config =
     prog_bind (prog_res (InstallRoot config)) (\<lambda>root.
     prog_bind (prog_res (InstallerBinary root)) (\<lambda>installer.
     prog_bind (RunRollback env installer root) (\<lambda>code.
     if code \<noteq> 0 then prog_return (update_failed E_apply_failed ''installer rollback failed'')
     else start_new_agent env root (update_done True ''package rollback applied''))))"

definition updated_package_path :: "agent_config \<Rightarrow> package_update_input \<Rightarrow> string" where
  "updated_package_path config input =
     path_append (path_append (ac_data_dir config) ''updates'') (pui_package_id input @ ''.zip'')"

text \<open>The checks of the downloaded package: the outcome that ends the update, or \<open>None\<close>.\<close>

definition check_package ::
    "('x, 'c, 'd, 'i) agent_env \<Rightarrow> package_update_input \<Rightarrow> string \<Rightarrow> ('x, update_execution option) prog" where
  "check_package env input package_path =
     prog_bind (prog_read (\<lambda>fs. Sha256FileHex (ae_digest env) package_path (read_file (ae_os env) fs package_path)))
       (\<lambda>actual_sha.
     if actual_sha \<noteq> pui_package_sha256 input
     then prog_return (Some (update_failed E_checksum_mismatch ''downloaded package SHA-256 mismatch''))
     else
     prog_bind (\<lambda>w. map_option (\<lambda>r. (r, w))
                  (ReadArchiveFile (ae_zlib env) (ae_os env) (mc_files w) package_path ''META/manifest.json''))
       (\<lambda>manifest_bytes.
     prog_bind (prog_res (Sha256BytesHex (ae_digest env) (string_of_bytes manifest_bytes))) (\<lambda>manifest_sha.
     if pui_manifest_sha256 input \<noteq> [] \<and> manifest_sha \<noteq> pui_manifest_sha256 input
     then prog_return (Some (update_failed E_checksum_mismatch ''downloaded manifest SHA-256 mismatch''))
     else prog_return None)))"

definition apply_update ::
    "('x, 'c, 'd, 'i) agent_env \<Rightarrow> agent_config \<Rightarrow> package_update_input \<Rightarrow> string \<Rightarrow>
       ('x, update_execution) prog" where
  "apply_update env config input package_path =
     prog_bind (prog_res (InstallRoot config)) (\<lambda>root.
     prog_bind (prog_res (InstallerBinary root)) (\<lambda>installer.
     prog_bind (RunInstallerCommand env installer
                  [''apply'', ''--root'', root, ''--package'', package_path]) (\<lambda>code.
     if code \<noteq> 0 then prog_return (update_failed E_apply_failed ''installer apply failed'')
     else if pui_component input = ''agent''
     then start_new_agent env root (update_done True ''package update applied'')
     else prog_return (update_done False ''package update applied''))))"

definition ExecutePackageUpdate ::
    "('x, 'c, 'd, 'i) agent_env \<Rightarrow> agent_config \<Rightarrow> package_update_input \<Rightarrow>
       ('x, update_execution) prog" where
  "ExecutePackageUpdate env config input =
     prog_catch
       (if pui_action input = ''rollback'' then rollback_update env config
        else
        let package_path = updated_package_path config input in
        prog_bind (DownloadPackageToFile env (pui_package_url input) package_path) (\<lambda>_.
        prog_bind (check_package env input package_path) (\<lambda>rejected.
        case rejected of
          Some outcome \<Rightarrow> prog_return outcome
        | None \<Rightarrow> apply_update env config input package_path)))
       (\<lambda>ex. prog_return (update_failed E_download_failed (what ex)))"


subsection \<open>Only a verified package reaches the installer\<close>

definition verified_package ::
    "('x, 'c, 'd, 'i) agent_env \<Rightarrow> package_update_input \<Rightarrow> string \<Rightarrow> file_system \<Rightarrow> bool" where
  "verified_package env input path fs \<longleftrightarrow>
     Sha256FileHex (ae_digest env) path (read_file (ae_os env) fs path) = Inr (pui_package_sha256 input) \<and>
     (\<exists>bytes sha. ReadArchiveFile (ae_zlib env) (ae_os env) fs path ''META/manifest.json'' = Some (Inr bytes) \<and>
        Sha256BytesHex (ae_digest env) (string_of_bytes bytes) = Inr sha \<and>
        (pui_manifest_sha256 input = [] \<or> sha = pui_manifest_sha256 input))"

lemma check_package_run:
  assumes "check_package env input path w = Some (r, w')"
  shows "w' = w" "r = Inr None \<longleftrightarrow> verified_package env input path (mc_files w)"
    "r = Inr (Some outcome) \<Longrightarrow> \<not> ue_ok outcome \<and> ue_error_code outcome = E_checksum_mismatch"
proof -
  show "w' = w"
    using assms
    by (auto simp: check_package_def prog_bind_def split: option.splits prod.splits sum.splits if_splits)
  show "r = Inr (Some outcome) \<Longrightarrow> \<not> ue_ok outcome \<and> ue_error_code outcome = E_checksum_mismatch"
    using assms
    by (auto simp: check_package_def prog_bind_def update_failed_def split: option.splits prod.splits sum.splits if_splits)
  show "r = Inr None \<longleftrightarrow> verified_package env input path (mc_files w)"
    using assms
    by (auto simp: check_package_def prog_bind_def verified_package_def split: option.splits prod.splits sum.splits if_splits)
qed

text \<open>The outer \<open>try\<close>.\<close>

definition reporting :: "('x, update_execution) prog \<Rightarrow> ('x, update_execution) prog" where
  "reporting m = prog_catch m (\<lambda>ex. prog_return (update_failed E_download_failed (what ex)))"

lemma ExecutePackageUpdate_reporting:
  assumes "pui_action input \<noteq> ''rollback''"
  shows "ExecutePackageUpdate env config input = reporting
    (prog_bind (DownloadPackageToFile env (pui_package_url input) (updated_package_path config input)) (\<lambda>_.
     prog_bind (check_package env input (updated_package_path config input)) (\<lambda>rejected.
     case rejected of
       Some outcome \<Rightarrow> prog_return outcome
     | None \<Rightarrow> apply_update env config input (updated_package_path config input))))"
  using assms by (simp add: ExecutePackageUpdate_def reporting_def Let_def)

lemma reporting_bind:
  "m w = Some (Inr x, w1) \<Longrightarrow> reporting (prog_bind m f) w = reporting (f x) w1"
  by (simp add: reporting_def prog_catch_def prog_bind_def)

lemma reporting_returns: "reporting m w = Some (r, w') \<Longrightarrow> \<exists>x. r = Inr x"
  by (auto simp: reporting_def prog_catch_def split: option.splits prod.splits sum.splits)

text \<open>
  C4: Only a verified package reaches the installer.  After the package was downloaded, an update
  goes on to run the installer exactly when the SHA-256 of the downloaded file is the one of the
  task and the manifest in it can be read and has the manifest digest of the task, where the task
  has one.  Otherwise the update fails as a checksum mismatch, or with the error of reading the
  archive, and nothing happens after the download: no process is started and no file is changed.
\<close>

theorem only_verified_packages_are_installed:
  assumes "ExecutePackageUpdate env config input w = Some (r, w')" "pui_action input \<noteq> ''rollback''"
    "DownloadPackageToFile env (pui_package_url input) (updated_package_path config input) w = Some (Inr p, w1)"
  shows "if verified_package env input (updated_package_path config input) (mc_files w1)
    then reporting (apply_update env config input (updated_package_path config input)) w1 = Some (r, w')
    else w' = w1 \<and> (\<exists>outcome. r = Inr outcome \<and> \<not> ue_ok outcome \<and>
           ue_error_code outcome \<in> {E_checksum_mismatch, E_download_failed})"
proof -
  let ?path = "updated_package_path config input"
  let ?next = "\<lambda>rejected. case rejected of Some outcome \<Rightarrow> prog_return outcome
    | None \<Rightarrow> apply_update env config input ?path"
  have run: "reporting (prog_bind (check_package env input ?path) ?next) w1 = Some (r, w')"
    using assms(1) reporting_bind [where m = "DownloadPackageToFile env (pui_package_url input) ?path" and w = w, OF assms(3)]
    by (simp add: ExecutePackageUpdate_reporting [OF assms(2)])
  obtain checked w2 where checked: "check_package env input ?path w1 = Some (checked, w2)"
    using run by (cases "check_package env input ?path w1") (auto simp: reporting_def prog_catch_def prog_bind_def)
  note c = check_package_run [OF checked]
  consider (bad) e where "checked = Inl e" | (rejected) outcome where "checked = Inr (Some outcome)"
    | (verified) "checked = Inr None"
    by (cases checked) auto
  then show ?thesis
  proof cases
    case bad
    then show ?thesis
      using c run checked
      by (auto simp: reporting_def prog_catch_def prog_bind_def update_failed_def)
  next
    case rejected
    then show ?thesis
      using c run checked reporting_bind [of "check_package env input ?path" w1]
      by (auto simp: reporting_def prog_catch_def)
  next
    case verified
    then show ?thesis
      using c run checked reporting_bind [of "check_package env input ?path" w1] by simp
  qed
qed


text \<open>A package of three bytes that are not the ones of the task.\<close>

definition no_processes :: "'x process_api" where
  "no_processes =
     \<lparr>pa_environment = (\<lambda>w. Map.empty), pa_current_path = (\<lambda>w. Inr ''/''),
      pa_launch = (\<lambda>l. prog_throw (Runtime_error ''no such file'')), pa_valid = (\<lambda>c w. False),
      pa_running = (\<lambda>c w. ((False, False), w)), pa_wait = (\<lambda>c. prog_return ()), pa_exit_code = (\<lambda>c w. 0),
      pa_terminate = (\<lambda>c. prog_return ()), pa_detach = (\<lambda>c. prog_return ()),
      pa_sigterm = (\<lambda>c w. (False, w)), pa_read_stdout = (\<lambda>c. prog_return []),
      pa_read_stderr = (\<lambda>c. prog_return []), pa_write_stdin = (\<lambda>c data. prog_return ()),
      pa_close_stdin = (\<lambda>c. prog_return ()), pa_now = (\<lambda>w. (0, w)),
      pa_sleep = (\<lambda>n w. w), pa_gethostname = (\<lambda>w. None)\<rparr>"

definition demo_updates :: "('d, 'i) zlib \<Rightarrow> (u8 list list, u8 list, 'd, 'i) agent_env" where
  "demo_updates zl = \<lparr>ae_os = demo_env, ae_process = no_processes, ae_http = demo_http,
     ae_digest = demo_digest_lib, ae_zlib = zl\<rparr>"

definition demo_update :: package_update_input where
  "demo_update =
     \<lparr>pui_action = ''update'', pui_component = ''agent'', pui_package_id = ''p'', pui_version = ''2'',
      pui_platform = ''linux'', pui_arch = ''x86_64'', pui_build_type = ''release'',
      pui_package_url = ''http://s/p.zip'', pui_package_sha256 = ''0'', pui_manifest_sha256 = [],
      pui_min_installer_version = ''1'', pui_allow_downgrade = False, pui_force = False\<rparr>"

definition demo_agent_config :: agent_config where
  "demo_agent_config = default_config\<lparr>ac_data_dir := ''/d''\<rparr>"

lemma demo_update_downloaded:
  "map_option (\<lambda>(r, w). (r, read_file (ae_os (demo_updates zl)) (mc_files w) ''/d/updates/p.zip''))
     (DownloadPackageToFile (demo_updates zl) (pui_package_url demo_update)
        (updated_package_path demo_agent_config demo_update) demo_response) =
   Some (Inr ''/d/updates/p.zip'', Some [1, 2, 3])"
  by code_simp

lemma demo_update_rejected:
  "map_option fst (ExecutePackageUpdate (demo_updates zl) demo_agent_config demo_update demo_response) =
   Some (Inr (update_failed E_checksum_mismatch ''downloaded package SHA-256 mismatch''))"
  by code_simp


theorem only_verified_packages_are_installed_witness:
  "\<exists>w1. map_option (map_prod id mc_rest) (DownloadPackageToFile (demo_updates demo_zlib) (pui_package_url demo_update)
       (updated_package_path demo_agent_config demo_update) demo_response) = Some (Inr ''/d/updates/p.zip'', w1) \<and>
     map_option (map_prod id mc_rest) (ExecutePackageUpdate (demo_updates demo_zlib) demo_agent_config demo_update demo_response) =
       Some (Inr (update_failed E_checksum_mismatch ''downloaded package SHA-256 mismatch''), w1)"
proof -
  let ?env = "demo_updates demo_zlib" and ?path = "updated_package_path demo_agent_config demo_update"
  obtain w1 where d: "DownloadPackageToFile ?env (pui_package_url demo_update) ?path demo_response =
      Some (Inr ''/d/updates/p.zip'', w1)"
    using demo_update_downloaded [of demo_zlib] by (auto simp: case_prod_unfold)
  obtain w' where e: "ExecutePackageUpdate ?env demo_agent_config demo_update demo_response =
      Some (Inr (update_failed E_checksum_mismatch ''downloaded package SHA-256 mismatch''), w')"
    using demo_update_rejected [of demo_zlib] by (auto simp: map_option_eq_Some)
  have path: "?path = ''/d/updates/p.zip''"
    by code_simp
  have "\<not> verified_package ?env demo_update ?path (mc_files w1)"
  proof -
    have "read_file (ae_os ?env) (mc_files w1) ?path = Some [1, 2, 3]"
      using demo_update_downloaded [of demo_zlib] d path by simp
    moreover have "Sha256FileHex (ae_digest ?env) ?path (Some [1, 2, 3]) \<noteq> Inr (pui_package_sha256 demo_update)"
      by code_simp
    ultimately show ?thesis
      by (simp add: verified_package_def)
  qed
  moreover have "pui_action demo_update \<noteq> ''rollback''"
    by (simp add: demo_update_def)
  ultimately show ?thesis
    using only_verified_packages_are_installed [OF e _ d] d e by simp
qed

end
