(* ===== verification/Http2_Client.thy ===== *)
theory Http2_Client
  imports Process
begin

section \<open>apps/agent: the HTTP/2 control client (http2_control_client.cpp)\<close>

text \<open>
  The client end of the control channel.  What the class keeps, its context, is part of the world of
  the agent, beside the stop flag and the heartbeat counter of the runtime; nghttp2, the socket, the resolver, the clock and \<open>sleep_for\<close> are the record
  \<open>http2_api\<close>, which works on the rest of the world only.  Receiving bytes yields the callbacks that
  nghttp2 makes, as a list of events that the callback functions of the class handle in order;
  sending gets the read callback of the class as an argument.
\<close>

subsection \<open>The context\<close>

record request_body =
  bd_bytes :: "u8 list"
  bd_offset :: nat

record response_state =
  rs_status :: string
  rs_body :: "u8 list"
  rs_close_error_code :: "u32 option"
  rs_headers_received :: bool
  rs_done :: bool

definition new_response :: response_state where
  "new_response = \<lparr>rs_status = [], rs_body = [], rs_close_error_code = None,
                   rs_headers_received = False, rs_done = False\<rparr>"

record http2_context =
  cx_socket_open :: bool
  cx_session :: bool
  cx_request_body :: "request_body option"
  cx_responses :: "int \<Rightarrow> response_state option"
  cx_command_stream_id :: "int option"

definition new_context :: http2_context where
  "new_context = \<lparr>cx_socket_open = False, cx_session = False, cx_request_body = None,
                  cx_responses = Map.empty, cx_command_stream_id = None\<rparr>"

record 'y agent_world =
  aw_context :: http2_context
  aw_stop :: bool
  aw_heartbeat_count :: u64
  aw_rest :: 'y

type_synonym ('y, 'a) client = "('y agent_world, 'a) prog"

definition get_context :: "('y, http2_context) client" where
  "get_context = prog_ask (\<lambda>w. aw_context (mc_rest w))"

definition change_context :: "(http2_context \<Rightarrow> http2_context) \<Rightarrow> ('y, unit) client" where
  "change_context f w = Some (Inr (), w\<lparr>mc_rest := (mc_rest w)\<lparr>aw_context := f (aw_context (mc_rest w))\<rparr>\<rparr>)"

definition outside :: "('y \<Rightarrow> 'a \<times> 'y) \<Rightarrow> ('y, 'a) client" where
  "outside f w =
     (case f (aw_rest (mc_rest w)) of (x, y) \<Rightarrow> Some (Inr x, w\<lparr>mc_rest := (mc_rest w)\<lparr>aw_rest := y\<rparr>\<rparr>))"

datatype frame_type = HEADERS_frame | DATA_frame | Other_frame

datatype http2_event =
    On_header int frame_type bool string string
  | On_data_chunk int "u8 list"
  | On_frame int frame_type bool bool
  | On_stream_close int u32

text \<open>
  The flag of a header and the first flag of a frame tell a response header block; the second flag
  of a frame is \<open>END_STREAM\<close>.
\<close>

datatype socket_read = Would_block | End_of_file | Read_failed exn | Bytes_read "u8 list"

type_synonym header = "string \<times> string"

type_synonym read_callback = "nat \<Rightarrow> http2_context \<Rightarrow> (u8 list \<times> bool) \<times> http2_context"

record 'y http2_api =
  h2_connect :: "string \<Rightarrow> string \<Rightarrow> 'y \<Rightarrow> unit result \<times> 'y"
  h2_new_session :: "'y \<Rightarrow> unit result \<times> 'y"
  h2_submit_request :: "header list \<Rightarrow> bool \<Rightarrow> 'y \<Rightarrow> int \<times> 'y"
  h2_session_send :: "read_callback \<Rightarrow> http2_context \<Rightarrow> 'y \<Rightarrow> (int \<times> http2_context) \<times> 'y"
  h2_read_some :: "'y \<Rightarrow> socket_read \<times> 'y"
  h2_mem_recv :: "u8 list \<Rightarrow> 'y \<Rightarrow> (int \<times> http2_event list) \<times> 'y"
  h2_strerror :: "int \<Rightarrow> string"
  h2_error_message :: "u32 \<Rightarrow> string"
  h2_now :: "'y \<Rightarrow> int \<times> 'y"
  h2_sleep :: "int \<Rightarrow> 'y \<Rightarrow> 'y"

definition CheckNghttp2 :: "'y http2_api \<Rightarrow> int \<Rightarrow> string \<Rightarrow> unit result" where
  "CheckNghttp2 api rv operation =
     (if rv < 0 then Inl (Runtime_error (operation @ '' failed: '' @ h2_strerror api rv)) else Inr ())"

subsection \<open>The callbacks\<close>

definition change_response :: "int \<Rightarrow> (response_state \<Rightarrow> response_state) \<Rightarrow> http2_context \<Rightarrow> http2_context" where
  "change_response stream f context =
     (case cx_responses context stream of
        None \<Rightarrow> context
      | Some response \<Rightarrow> context\<lparr>cx_responses := (cx_responses context)(stream \<mapsto> f response)\<rparr>)"

fun apply_event :: "http2_event \<Rightarrow> http2_context \<Rightarrow> http2_context" where
  "apply_event (On_header stream ty response_headers name val) =
     (if ty \<noteq> HEADERS_frame \<or> \<not> response_headers then id
      else change_response stream (\<lambda>r.
        if name = '':status'' then r\<lparr>rs_status := val, rs_headers_received := True\<rparr> else r))"
| "apply_event (On_data_chunk stream data) =
     change_response stream (\<lambda>r. r\<lparr>rs_body := rs_body r @ data\<rparr>)"
| "apply_event (On_frame stream ty response_headers end_stream) =
     change_response stream (\<lambda>r.
       let r = (if ty = HEADERS_frame \<and> response_headers then r\<lparr>rs_headers_received := True\<rparr> else r) in
       if ((ty = HEADERS_frame \<and> response_headers) \<or> ty = DATA_frame) \<and> end_stream
       then r\<lparr>rs_done := True\<rparr> else r)"
| "apply_event (On_stream_close stream error_code) =
     change_response stream (\<lambda>r. r\<lparr>rs_close_error_code := Some error_code, rs_done := True\<rparr>)"

definition apply_events :: "http2_event list \<Rightarrow> http2_context \<Rightarrow> http2_context" where
  "apply_events = fold apply_event"

definition ReadCallback :: read_callback where
  "ReadCallback limit context =
     (case cx_request_body context of
        None \<Rightarrow> (([], True), context)
      | Some body \<Rightarrow>
          let data = take limit (drop (bd_offset body) (bd_bytes body));
              offset = bd_offset body + length data
          in ((data, offset = length (bd_bytes body)),
              context\<lparr>cx_request_body := Some (body\<lparr>bd_offset := offset\<rparr>)\<rparr>))"

subsection \<open>The endpoint\<close>

record control_endpoint =
  ce_host :: string
  ce_authority :: string
  ce_port :: nat

definition StripHttpScheme :: "string \<Rightarrow> string result" where
  "StripHttpScheme control_url =
     (if take 7 control_url = ''http://'' then Inr (drop 7 control_url)
      else if take 8 control_url = ''https://''
      then Inl (Invalid_argument ''https control url is not supported yet'')
      else Inr control_url)"

text \<open>
  \<open>std::stoul\<close>: white space, a sign, and the longest run of digits; a minus sign negates modulo
  2^64.
\<close>

definition digits_value :: "string \<Rightarrow> nat" where
  "digits_value ds = foldl (\<lambda>n d. n * 10 + (of_char d - 48)) 0 ds"

definition stoul :: "string \<Rightarrow> nat result" where
  "stoul text =
     (let s = dropWhile isspace text;
          negative = (s \<noteq> [] \<and> hd s = CHR ''-'');
          signed = (s \<noteq> [] \<and> (hd s = CHR ''-'' \<or> hd s = CHR ''+''));
          ds = takeWhile (\<lambda>c. CHR ''0'' \<le> c \<and> c \<le> CHR ''9'') (if signed then tl s else s)
      in
      if ds = [] then Inl (Invalid_argument ''stoul'')
      else if 2 ^ 64 \<le> digits_value ds then Inl (Runtime_error ''stoul'')
      else if negative then Inr ((2 ^ 64 - digits_value ds) mod 2 ^ 64)
      else Inr (digits_value ds))"

definition checked :: "bool \<Rightarrow> string \<Rightarrow> unit result" where
  "checked condition message = (if condition then Inr () else Inl (Runtime_error message))"

definition ParseControlUrl :: "string \<Rightarrow> control_endpoint result" where
  "ParseControlUrl control_url =
     bind_res (StripHttpScheme control_url) (\<lambda>stripped.
     if stripped = [] then Inl (Invalid_argument ''control url must not be empty'')
     else
       let authority = takeWhile (\<lambda>c. c \<noteq> CHR ''/'') stripped in
       if authority = [] then Inl (Invalid_argument ''control url must include host and port'')
       else
       bind_res
         (if hd authority = CHR ''[''
          then
            let closing = length (takeWhile (\<lambda>c. c \<noteq> CHR '']'') authority) in
            bind_res (checked (CHR '']'' \<in> set authority \<and> closing + 2 \<le> length authority \<and>
                               authority ! (closing + 1) = CHR '':'') ''control url must be host:port'') (\<lambda>_.
            Inr (take (closing - 1) (tl authority), drop (closing + 2) authority))
          else
            let port_text = rev (takeWhile (\<lambda>c. c \<noteq> CHR '':'') (rev authority)) in
            bind_res (checked (CHR '':'' \<in> set authority \<and> port_text \<noteq> []) ''control url must be host:port'') (\<lambda>_.
            Inr (take (length authority - length port_text - 1) authority, port_text)))
         (\<lambda>(host, port_text).
       bind_res (stoul port_text) (\<lambda>port_value.
       bind_res (checked (0 < port_value \<and> port_value \<le> 65535) ''control url port is out of range'') (\<lambda>_.
       Inr \<lparr>ce_host = host,
            ce_authority = (if CHR '':'' \<in> set host
                            then CHR ''['' # host @ '']:'' @ decimal port_value
                            else host @ CHR '':'' # decimal port_value),
            ce_port = port_value\<rparr>))))"


subsection \<open>The operations\<close>

text \<open>\<open>connected\<close> and the connection; a socket that is open keeps the session it has.\<close>

definition connected :: "http2_context \<Rightarrow> bool" where
  "connected context \<longleftrightarrow> cx_socket_open context \<and> cx_session context"

definition outside_res :: "('y \<Rightarrow> 'a result \<times> 'y) \<Rightarrow> ('y, 'a) client" where
  "outside_res f = prog_bind (outside f) prog_res"

definition Flush :: "'y http2_api \<Rightarrow> ('y, unit) client" where
  "Flush api =
     prog_bind get_context (\<lambda>context.
     prog_bind (outside (h2_session_send api ReadCallback context)) (\<lambda>(rv, context).
     prog_bind (change_context (\<lambda>_. context)) (\<lambda>_.
     prog_res (CheckNghttp2 api rv ''send http2 bytes''))))"

definition Connect :: "'y http2_api \<Rightarrow> control_endpoint \<Rightarrow> ('y, unit) client" where
  "Connect api endpoint =
     prog_bind get_context (\<lambda>context.
     if connected context then prog_return ()
     else
     prog_bind (outside_res (h2_connect api (ce_host endpoint) (decimal (ce_port endpoint)))) (\<lambda>_.
     prog_bind (change_context (cx_socket_open_update (\<lambda>_. True))) (\<lambda>_.
     prog_bind (outside_res (h2_new_session api)) (\<lambda>_.
     prog_bind (change_context (cx_session_update (\<lambda>_. True))) (\<lambda>_.
     Flush api)))))"

definition Close :: "('y, unit) client" where
  "Close = change_context (\<lambda>context. new_context)"

definition EnsureConnected :: "'y http2_api \<Rightarrow> control_endpoint \<Rightarrow> ('y, unit) client" where
  "EnsureConnected api endpoint =
     prog_bind get_context (\<lambda>context.
       if connected context then prog_return () else Connect api endpoint)"

definition PumpOnce :: "'y http2_api \<Rightarrow> ('y, bool) client" where
  "PumpOnce api =
     prog_bind (outside (h2_read_some api)) (\<lambda>received.
     case received of
       Would_block \<Rightarrow>
         prog_bind (outside (\<lambda>y. ((), h2_sleep api 10 y))) (\<lambda>_. prog_return False)
     | End_of_file \<Rightarrow> prog_throw (Runtime_error ''http2 control connection closed'')
     | Read_failed ex \<Rightarrow> prog_throw ex
     | Bytes_read bytes \<Rightarrow>
         prog_bind (outside (h2_mem_recv api bytes)) (\<lambda>(rv, events).
         prog_bind (change_context (apply_events events)) (\<lambda>_.
         prog_bind (prog_res (CheckNghttp2 api rv ''receive http2 bytes'')) (\<lambda>_.
         prog_return (bytes \<noteq> [])))))"

definition ThrowIfStreamReset :: "'y http2_api \<Rightarrow> response_state \<Rightarrow> string \<Rightarrow> unit result" where
  "ThrowIfStreamReset api response operation =
     (case rs_close_error_code response of
        None \<Rightarrow> Inr ()
      | Some code \<Rightarrow>
          if code \<noteq> 0 then Inl (Runtime_error (operation @ '' reset: '' @ h2_error_message api code))
          else Inr ())"

partial_function (option) PumpUntilResponseDone :: "'y http2_api \<Rightarrow> int \<Rightarrow> ('y, unit) client" where
  [code]: "PumpUntilResponseDone api stream w =
     (let response = cx_responses (aw_context (mc_rest w)) stream in
      if response \<noteq> None \<and> rs_done (the response)
      then prog_bind (prog_res (ThrowIfStreamReset api (the response) ''http2 response stream'')) (\<lambda>_.
           if \<not> rs_headers_received (the response)
           then prog_throw (Runtime_error ''http2 response stream closed before headers'')
           else prog_return ()) w
      else prog_bind (PumpOnce api) (\<lambda>_. prog_bind (Flush api) (\<lambda>_ w. PumpUntilResponseDone api stream w)) w)"

partial_function (option) PumpUntilHeaders :: "'y http2_api \<Rightarrow> int \<Rightarrow> ('y, unit) client" where
  [code]: "PumpUntilHeaders api stream w =
     (let response = cx_responses (aw_context (mc_rest w)) stream in
      if response \<noteq> None \<and> (rs_headers_received (the response) \<or> rs_done (the response))
      then prog_bind (prog_res (ThrowIfStreamReset api (the response) ''command stream'')) (\<lambda>_.
           if rs_done (the response) \<and> \<not> rs_headers_received (the response)
           then prog_throw (Runtime_error ''command stream closed before headers'')
           else prog_return ()) w
      else prog_bind (PumpOnce api) (\<lambda>_. prog_bind (Flush api) (\<lambda>_ w. PumpUntilHeaders api stream w)) w)"

record http2_response =
  hr_status :: string
  hr_body :: "u8 list"

definition request_headers :: "control_endpoint \<Rightarrow> string \<Rightarrow> string \<Rightarrow> header list \<Rightarrow> header list" where
  "request_headers endpoint verb path extra_headers =
     [('':method'', verb), ('':scheme'', ''http''), ('':authority'', ce_authority endpoint),
      ('':path'', path)] @ extra_headers"

definition SubmitRequest ::
    "'y http2_api \<Rightarrow> control_endpoint \<Rightarrow> string \<Rightarrow> string \<Rightarrow> header list \<Rightarrow> u8 list \<Rightarrow>
       ('y, http2_response) client" where
  "SubmitRequest api endpoint verb path extra_headers body =
     prog_bind (EnsureConnected api endpoint) (\<lambda>_.
     prog_bind (change_context (\<lambda>cx. cx\<lparr>cx_request_body := Some \<lparr>bd_bytes = body, bd_offset = 0\<rparr>\<rparr>)) (\<lambda>_.
     prog_bind (outside (h2_submit_request api (request_headers endpoint verb path extra_headers) (body \<noteq> [])))
       (\<lambda>stream.
     prog_bind (prog_res (CheckNghttp2 api stream ''submit http2 request'')) (\<lambda>_.
     prog_bind (change_context (\<lambda>cx. cx\<lparr>cx_responses := (cx_responses cx)(stream \<mapsto> new_response)\<rparr>)) (\<lambda>_.
     prog_bind (Flush api) (\<lambda>_.
     prog_bind (PumpUntilResponseDone api stream) (\<lambda>_.
     prog_bind get_context (\<lambda>context.
     case cx_responses context stream of
       None \<Rightarrow> prog_throw (Runtime_error ''http2 response state missing'')
     | Some response \<Rightarrow>
         prog_bind (change_context (\<lambda>cx. cx\<lparr>cx_responses := (cx_responses cx)(stream := None),
                                          cx_request_body := None\<rparr>)) (\<lambda>_.
         prog_return \<lparr>hr_status = rs_status response, hr_body = rs_body response\<rparr>)))))))))"

definition PostEvents :: "'y http2_api \<Rightarrow> control_endpoint \<Rightarrow> u8 list \<Rightarrow> ('y, http2_response) client" where
  "PostEvents api endpoint body =
     SubmitRequest api endpoint ''POST'' ''/v1/control/events''
       [(''content-type'', ''application/x-protobuf'')] body"

definition open_command_stream :: "'y http2_api \<Rightarrow> control_endpoint \<Rightarrow> string \<Rightarrow> ('y, string) client" where
  "open_command_stream api endpoint correlation_id =
     prog_bind (outside (h2_submit_request api
         (request_headers endpoint ''GET'' ''/v1/control/commands''
            [(''accept'', ''application/x-protobuf''), (''x-zfleet-correlation-id'', correlation_id)])
         False)) (\<lambda>stream.
     prog_bind (prog_res (CheckNghttp2 api stream ''submit command stream request'')) (\<lambda>_.
     prog_bind (change_context (\<lambda>cx. cx\<lparr>cx_responses := (cx_responses cx)(stream \<mapsto> new_response),
                                     cx_command_stream_id := Some stream\<rparr>)) (\<lambda>_.
     prog_bind (Flush api) (\<lambda>_.
     prog_bind (PumpUntilHeaders api stream) (\<lambda>_.
     prog_bind get_context (\<lambda>context.
     prog_bind (prog_res (option_res (Runtime_error ''map::at'') (cx_responses context stream))) (\<lambda>response.
     if rs_status response \<noteq> ''200''
     then
       prog_bind (PumpUntilResponseDone api stream) (\<lambda>_.
       prog_bind get_context (\<lambda>context.
       case cx_responses context stream of
         None \<Rightarrow> prog_throw (Runtime_error ''command stream response state missing'')
       | Some response \<Rightarrow>
           prog_bind (change_context (\<lambda>cx. cx\<lparr>cx_responses := (cx_responses cx)(stream := None),
                                            cx_command_stream_id := None\<rparr>)) (\<lambda>_.
           prog_return (rs_status response))))
     else prog_return (rs_status response))))))))"

definition StartCommandStream :: "'y http2_api \<Rightarrow> control_endpoint \<Rightarrow> string \<Rightarrow> ('y, string) client" where
  "StartCommandStream api endpoint correlation_id =
     prog_bind (EnsureConnected api endpoint) (\<lambda>_.
     prog_bind get_context (\<lambda>context.
     case Option.bind (cx_command_stream_id context) (cx_responses context) of
       Some response \<Rightarrow>
         if \<not> rs_done response then prog_return (rs_status response)
         else open_command_stream api endpoint correlation_id
     | None \<Rightarrow> open_command_stream api endpoint correlation_id))"

partial_function (option) pump_until :: "'y http2_api \<Rightarrow> int \<Rightarrow> ('y, unit) client" where
  [code]: "pump_until api deadline w =
     prog_bind (outside (h2_now api)) (\<lambda>now w.
       if now < deadline
       then prog_bind (PumpOnce api) (\<lambda>received.
            prog_bind (Flush api) (\<lambda>_.
            prog_bind (if received then prog_return () else outside (\<lambda>y. ((), h2_sleep api 10 y))) (\<lambda>_ w.
            pump_until api deadline w))) w
       else Some (Inr (), w)) w"

definition PumpFor :: "'y http2_api \<Rightarrow> int \<Rightarrow> ('y, unit) client" where
  "PumpFor api timeout =
     prog_bind (outside (h2_now api)) (\<lambda>start. pump_until api (start + timeout))"

definition command_stream :: "http2_context \<Rightarrow> response_state option" where
  "command_stream context = Option.bind (cx_command_stream_id context) (cx_responses context)"

definition DrainCommandBytes :: "('y, u8 list) client" where
  "DrainCommandBytes =
     prog_bind get_context (\<lambda>context.
     case cx_command_stream_id context of
       None \<Rightarrow> prog_return []
     | Some stream \<Rightarrow>
         (case cx_responses context stream of
            None \<Rightarrow> prog_return []
          | Some response \<Rightarrow>
              prog_bind (change_context (change_response stream (\<lambda>r. r\<lparr>rs_body := []\<rparr>))) (\<lambda>_.
              prog_return (rs_body response))))"

definition command_stream_open :: "http2_context \<Rightarrow> bool" where
  "command_stream_open context =
     (case command_stream context of None \<Rightarrow> False | Some response \<Rightarrow> \<not> rs_done response)"

definition command_stream_error_code :: "http2_context \<Rightarrow> u32 option" where
  "command_stream_error_code context =
     (case command_stream context of None \<Rightarrow> None | Some response \<Rightarrow> rs_close_error_code response)"


subsection \<open>What the callbacks make of the events\<close>

fun chunk_for :: "int \<Rightarrow> http2_event \<Rightarrow> u8 list" where
  "chunk_for s (On_data_chunk stream data) = (if stream = s then data else [])"
| "chunk_for s ev = []"

fun ends_stream :: "int \<Rightarrow> http2_event \<Rightarrow> bool" where
  "ends_stream s (On_frame stream ty response_headers end_stream) \<longleftrightarrow>
     stream = s \<and> end_stream \<and> (ty = HEADERS_frame \<and> response_headers \<or> ty = DATA_frame)"
| "ends_stream s (On_stream_close stream error_code) \<longleftrightarrow> stream = s"
| "ends_stream s ev \<longleftrightarrow> False"

lemma change_response_at [simp]:
  "cx_responses (change_response stream f cx) s =
     (if s = stream then map_option f (cx_responses cx s) else cx_responses cx s)"
  "cx_command_stream_id (change_response stream f cx) = cx_command_stream_id cx"
  by (auto simp: change_response_def split: option.splits)

lemma apply_event_at:
  fixes cx :: http2_context
  shows "cx_responses cx s = Some r \<Longrightarrow> \<exists>r'. cx_responses (apply_event ev cx) s = Some r' \<and>
     rs_body r' = rs_body r @ chunk_for s ev \<and> rs_done r' = (rs_done r \<or> ends_stream s ev)"
  and "cx_responses cx s = None \<Longrightarrow> cx_responses (apply_event ev cx) s = None"
  and "cx_command_stream_id (apply_event ev cx) = cx_command_stream_id cx"
proof -
  show "cx_responses (apply_event ev cx) s = None" if "cx_responses cx s = None"
    using that by (cases ev) auto
  show "cx_command_stream_id (apply_event ev cx) = cx_command_stream_id cx"
    by (cases ev) simp_all
  show "\<exists>r'. cx_responses (apply_event ev cx) s = Some r' \<and>
     rs_body r' = rs_body r @ chunk_for s ev \<and> rs_done r' = (rs_done r \<or> ends_stream s ev)"
    if r: "cx_responses cx s = Some r"
  proof (cases ev)
    case (On_header stream ty response_headers name val)
    then show ?thesis
      using r by (cases "stream = s"; cases "ty \<noteq> HEADERS_frame \<or> \<not> response_headers"; cases "name = '':status''") simp_all
  next
    case (On_frame stream ty response_headers end_stream)
    then show ?thesis
      using r by (cases "stream = s"; cases "ty = HEADERS_frame"; cases response_headers; cases end_stream;
          cases "ty = DATA_frame") (simp_all add: Let_def)
  qed (use r in auto)
qed

text \<open>
  CX: The bytes of a response are the data of its stream, in order.  Whatever the order and the
  interleaving of the events nghttp2 reports, the body of a response grows by exactly the data
  chunks of its own stream, and the response is done exactly when the stream was ended or closed.
\<close>

theorem response_collects_its_stream:
  "\<forall>(cx :: http2_context) r. cx_responses cx s = Some r \<longrightarrow>
     (\<exists>r'. cx_responses (apply_events events cx) s = Some r' \<and>
           rs_body r' = rs_body r @ concat (map (chunk_for s) events) \<and>
           rs_done r' = (rs_done r \<or> (\<exists>ev\<in>set events. ends_stream s ev)))"
proof (induction events)
  case Nil
  then show ?case by (simp add: apply_events_def)
next
  case (Cons ev events)
  show ?case
  proof (intro allI impI)
    fix cx :: http2_context and r
    assume "cx_responses cx s = Some r"
    then obtain r1 where r1: "cx_responses (apply_event ev cx) s = Some r1"
        "rs_body r1 = rs_body r @ chunk_for s ev" "rs_done r1 = (rs_done r \<or> ends_stream s ev)"
      using apply_event_at(1) by blast
    from Cons.IH r1(1) obtain r2 where "cx_responses (apply_events events (apply_event ev cx)) s = Some r2"
        "rs_body r2 = rs_body r1 @ concat (map (chunk_for s) events)"
        "rs_done r2 = (rs_done r1 \<or> (\<exists>ev\<in>set events. ends_stream s ev))"
      by blast
    then show "\<exists>r'. cx_responses (apply_events (ev # events) cx) s = Some r' \<and>
        rs_body r' = rs_body r @ concat (map (chunk_for s) (ev # events)) \<and>
        rs_done r' = (rs_done r \<or> (\<exists>ev\<in>set (ev # events). ends_stream s ev))"
      using r1 by (auto simp: apply_events_def)
  qed
qed

subsection \<open>The request body\<close>

fun read_pieces :: "nat list \<Rightarrow> http2_context \<Rightarrow> (u8 list \<times> bool) list" where
  "read_pieces [] cx = []"
| "read_pieces (limit # limits) cx =
     (case ReadCallback limit cx of (piece, cx) \<Rightarrow> piece # read_pieces limits cx)"

lemma read_pieces_body:
  assumes "cx_request_body cx = Some \<lparr>bd_bytes = bytes, bd_offset = n\<rparr>" "n \<le> length bytes"
  shows "concat (map fst (read_pieces limits cx)) = take (sum_list limits) (drop n bytes) \<and>
    (limits \<noteq> [] \<longrightarrow> snd (last (read_pieces limits cx)) = (length bytes \<le> n + sum_list limits))"
  using assms
proof (induction limits arbitrary: cx n)
  case Nil
  then show ?case by simp
next
  case (Cons limit limits)
  let ?data = "take limit (drop n bytes)" and ?n = "n + length (take limit (drop n bytes))"
  let ?cx = "cx\<lparr>cx_request_body := Some \<lparr>bd_bytes = bytes, bd_offset = ?n\<rparr>\<rparr>"
  have step: "ReadCallback limit cx = ((?data, ?n = length bytes), ?cx)"
    using Cons.prems(1) by (simp add: ReadCallback_def Let_def)
  have le: "?n \<le> length bytes" using Cons.prems(2) by simp
  from Cons.IH [of ?cx ?n] le
  have IH: "concat (map fst (read_pieces limits ?cx)) = take (sum_list limits) (drop ?n bytes) \<and>
      (limits \<noteq> [] \<longrightarrow> snd (last (read_pieces limits ?cx)) = (length bytes \<le> ?n + sum_list limits))"
    by simp
  have drop: "drop ?n bytes = drop limit (drop n bytes)"
    by (cases "limit \<le> length bytes - n") (simp_all add: add.commute min_def)
  have pieces: "limits \<noteq> [] \<longrightarrow> read_pieces limits ?cx \<noteq> []"
    by (cases limits) (auto split: prod.splits)
  show ?case
    unfolding read_pieces.simps step prod.case
    using IH drop pieces Cons.prems(2) by (auto simp: take_add min_def)
qed

text \<open>
  A request body is sent exactly.  Whatever amounts nghttp2 asks for, the pieces that the read
  callback hands out are the body from its beginning, without a gap or a repetition, and the end is
  flagged with the piece that completes it and not before.
\<close>

theorem request_body_sent_exactly:
  assumes "cx_request_body cx = Some \<lparr>bd_bytes = bytes, bd_offset = 0\<rparr>"
  shows "concat (map fst (read_pieces limits cx)) = take (sum_list limits) bytes \<and>
    (limits \<noteq> [] \<longrightarrow> snd (last (read_pieces limits cx)) = (length bytes \<le> sum_list limits))"
  using read_pieces_body [OF assms] by simp

theorem request_body_sent_exactly_witness:
  "concat (map fst (read_pieces [2, 5] (new_context\<lparr>cx_request_body := Some \<lparr>bd_bytes = [1, 2, 3], bd_offset = 0\<rparr>\<rparr>))) =
     [1, 2, 3] \<and>
   snd (last (read_pieces [2, 5] (new_context\<lparr>cx_request_body := Some \<lparr>bd_bytes = [1, 2, 3], bd_offset = 0\<rparr>\<rparr>)))"
  using request_body_sent_exactly [of "new_context\<lparr>cx_request_body := Some \<lparr>bd_bytes = [1, 2, 3], bd_offset = 0\<rparr>\<rparr>"
      "[1, 2, 3]" "[2, 5]"]
  by simp


subsection \<open>Commands that arrive in between are kept\<close>

text \<open>
  What any operation does to the command stream, also when it throws: it stays the command stream,
  and its body only grows.
\<close>

definition stream_grows :: "http2_context \<Rightarrow> http2_context \<Rightarrow> bool" where
  "stream_grows cx cx' \<longleftrightarrow>
     cx_command_stream_id cx' = cx_command_stream_id cx \<and>
     (\<forall>r. command_stream cx = Some r \<longrightarrow>
        (\<exists>r'. command_stream cx' = Some r' \<and> prefix (rs_body r) (rs_body r') \<and> (rs_done r \<longrightarrow> rs_done r')))"

definition grows :: "('y, 'a) client \<Rightarrow> bool" where
  "grows m \<longleftrightarrow> (\<forall>w r w'. m w = Some (r, w') \<longrightarrow>
     stream_grows (aw_context (mc_rest w)) (aw_context (mc_rest w')))"

lemma stream_grows_refl [simp]: "stream_grows cx cx"
  by (simp add: stream_grows_def)

lemma stream_grows_trans: "stream_grows a b \<Longrightarrow> stream_grows b c \<Longrightarrow> stream_grows a c"
  unfolding stream_grows_def by (metis prefix_order.trans)

lemma stream_grows_same:
  "cx_command_stream_id cx' = cx_command_stream_id cx \<Longrightarrow>
   (\<And>s. cx_command_stream_id cx = Some s \<Longrightarrow> cx_responses cx' s = cx_responses cx s) \<Longrightarrow> stream_grows cx cx'"
  by (cases "cx_command_stream_id cx") (auto simp: stream_grows_def command_stream_def)

lemma stream_grows_event: "stream_grows cx (apply_event ev cx)"
proof (cases "cx_command_stream_id cx")
  case None
  then show ?thesis
    by (simp add: stream_grows_def command_stream_def apply_event_at(3))
next
  case (Some s)
  then show ?thesis
    using apply_event_at(1) [of cx s _ ev]
    by (fastforce simp: stream_grows_def command_stream_def apply_event_at(3))
qed

lemma stream_grows_events: "stream_grows cx (apply_events events cx)"
  unfolding apply_events_def
  by (induction events arbitrary: cx) (auto intro: stream_grows_trans stream_grows_event)

lemma grows_bind:
  assumes "grows m" "\<And>x. grows (f x)"
  shows "grows (prog_bind m f)"
  using assms unfolding grows_def
  by (fastforce simp: prog_bind_def split: option.splits prod.splits sum.splits intro: stream_grows_trans)

lemma grows_simple [simp]:
  "grows (prog_return x)" "grows (prog_throw e)" "grows (prog_res res)" "grows (prog_ask q)" "grows get_context"
  "grows (outside f)"
  by (auto simp: grows_def get_context_def outside_def split: prod.splits)

lemma grows_outside_res [simp]: "grows (outside_res f)"
  by (simp add: outside_res_def grows_bind)

lemma grows_change: "(\<And>cx. stream_grows cx (f cx)) \<Longrightarrow> grows (change_context f)"
  by (simp add: grows_def change_context_def)

lemma grows_if: "(b \<Longrightarrow> grows m) \<Longrightarrow> (\<not> b \<Longrightarrow> grows n) \<Longrightarrow> grows (if b then m else n)"
  by simp

text \<open>Sending only hands out the request body.\<close>

definition sends_body_only :: "'y http2_api \<Rightarrow> bool" where
  "sends_body_only api \<longleftrightarrow>
     (\<forall>cx y rv cx' y'. h2_session_send api ReadCallback cx y = ((rv, cx'), y') \<longrightarrow>
        (\<exists>body. cx' = cx\<lparr>cx_request_body := body\<rparr>))"

lemma grows_Flush:
  assumes "sends_body_only api"
  shows "grows (Flush api)"
proof -
  have "stream_grows cx (cx\<lparr>cx_request_body := body\<rparr>)" for cx body
    by (rule stream_grows_same) simp_all
  then show ?thesis
    using assms
    by (auto simp: grows_def Flush_def get_context_def outside_def change_context_def prog_bind_def
        sends_body_only_def split: option.splits prod.splits sum.splits) blast
qed

lemma grows_PumpOnce: "grows (PumpOnce api)"
  unfolding PumpOnce_def
  by (intro grows_bind) (auto intro!: grows_bind grows_change stream_grows_events split: socket_read.splits)

lemma grows_EnsureConnected:
  assumes "sends_body_only api"
  shows "grows (EnsureConnected api endpoint)"
proof -
  have "grows (change_context (cx_socket_open_update f))" "grows (change_context (cx_session_update f))" for f
    by (rule grows_change, rule stream_grows_same, simp_all)+
  then show ?thesis
    unfolding EnsureConnected_def Connect_def
    by (intro grows_bind grows_if) (simp_all add: grows_Flush [OF assms])
qed


definition grows_from :: "'y http2_api \<Rightarrow> int \<Rightarrow> 'y agent_world machine \<Rightarrow> unit result \<times> 'y agent_world machine \<Rightarrow> bool" where
  "grows_from api stream w y \<longleftrightarrow>
     (sends_body_only api \<longrightarrow> stream_grows (aw_context (mc_rest w)) (aw_context (mc_rest (snd y))))"

lemma grows_fromI: "grows m \<Longrightarrow> m w = Some y \<Longrightarrow> grows_from api stream w y"
  by (cases y) (auto simp: grows_def grows_from_def)

lemma grows_loop:
  assumes "\<And>w y. f w = Some y \<Longrightarrow> grows_from api stream w y" "sends_body_only api"
  shows "grows (\<lambda>w. f w)"
  using assms by (fastforce simp: grows_def grows_from_def)

lemma grows_from_if:
  assumes "grows m" "sends_body_only api \<Longrightarrow> grows n" "(if b then m w else n w) = Some y"
  shows "grows_from api stream w y"
proof (cases "sends_body_only api")
  case True
  then show ?thesis
    using assms grows_fromI by (cases b) fastforce+
next
  case False
  then show ?thesis by (simp add: grows_from_def)
qed

lemma grows_PumpUntilResponseDone:
  assumes "sends_body_only api"
  shows "grows (\<lambda>w. PumpUntilResponseDone api stream w)"
proof (rule grows_loop [OF _ assms])
  fix w y
  assume "PumpUntilResponseDone api stream w = Some y"
  then show "grows_from api stream w y"
  proof (rule PumpUntilResponseDone.raw_induct [rotated, where P = grows_from])
    fix loop :: "'a http2_api \<Rightarrow> int \<Rightarrow> ('a, unit) client" and api stream w y
    assume IH: "\<And>api stream w y. loop api stream w = Some y \<Longrightarrow> grows_from api stream w y"
      and run: "(let response = cx_responses (aw_context (mc_rest w)) stream in
        if response \<noteq> None \<and> rs_done (the response)
        then prog_bind (prog_res (ThrowIfStreamReset api (the response) ''http2 response stream'')) (\<lambda>_.
             if \<not> rs_headers_received (the response)
             then prog_throw (Runtime_error ''http2 response stream closed before headers'')
             else prog_return ()) w
        else prog_bind (PumpOnce api) (\<lambda>_. prog_bind (Flush api) (\<lambda>_ w. loop api stream w)) w) = Some y"
    have ended: "grows (prog_bind (prog_res r) (\<lambda>_. if b then prog_throw e else prog_return ()))" for r b e
      by (intro grows_bind grows_if) simp_all
    have again: "grows (prog_bind (PumpOnce api) (\<lambda>_. prog_bind (Flush api) (\<lambda>_ w. loop api stream w)))"
      if "sends_body_only api"
      by (intro grows_bind grows_PumpOnce grows_Flush that grows_loop [OF IH that])
    show "grows_from api stream w y"
      by (rule grows_from_if [OF ended again run [unfolded Let_def]])
  qed
qed

lemma grows_PumpUntilHeaders:
  assumes "sends_body_only api"
  shows "grows (\<lambda>w. PumpUntilHeaders api stream w)"
proof (rule grows_loop [OF _ assms])
  fix w y
  assume "PumpUntilHeaders api stream w = Some y"
  then show "grows_from api stream w y"
  proof (rule PumpUntilHeaders.raw_induct [rotated, where P = grows_from])
    fix loop :: "'a http2_api \<Rightarrow> int \<Rightarrow> ('a, unit) client" and api stream w y
    assume IH: "\<And>api stream w y. loop api stream w = Some y \<Longrightarrow> grows_from api stream w y"
      and run: "(let response = cx_responses (aw_context (mc_rest w)) stream in
        if response \<noteq> None \<and> (rs_headers_received (the response) \<or> rs_done (the response))
        then prog_bind (prog_res (ThrowIfStreamReset api (the response) ''command stream'')) (\<lambda>_.
             if rs_done (the response) \<and> \<not> rs_headers_received (the response)
             then prog_throw (Runtime_error ''command stream closed before headers'')
             else prog_return ()) w
        else prog_bind (PumpOnce api) (\<lambda>_. prog_bind (Flush api) (\<lambda>_ w. loop api stream w)) w) = Some y"
    have ended: "grows (prog_bind (prog_res r) (\<lambda>_. if b then prog_throw e else prog_return ()))" for r b e
      by (intro grows_bind grows_if) simp_all
    have again: "grows (prog_bind (PumpOnce api) (\<lambda>_. prog_bind (Flush api) (\<lambda>_ w. loop api stream w)))"
      if "sends_body_only api"
      by (intro grows_bind grows_PumpOnce grows_Flush that grows_loop [OF IH that])
    show "grows_from api stream w y"
      by (rule grows_from_if [OF ended again run [unfolded Let_def]])
  qed
qed

lemma grows_pump_until:
  assumes "sends_body_only api"
  shows "grows (\<lambda>w. pump_until api deadline w)"
proof (rule grows_loop [OF _ assms])
  fix w y
  assume "pump_until api deadline w = Some y"
  then show "grows_from api deadline w y"
  proof (rule pump_until.raw_induct [rotated, where P = grows_from])
    fix loop :: "'a http2_api \<Rightarrow> int \<Rightarrow> ('a, unit) client" and api deadline w y
    assume IH: "\<And>api deadline w y. loop api deadline w = Some y \<Longrightarrow> grows_from api deadline w y"
      and run: "prog_bind (outside (h2_now api)) (\<lambda>now w.
       if now < deadline
       then prog_bind (PumpOnce api) (\<lambda>received.
            prog_bind (Flush api) (\<lambda>_.
            prog_bind (if received then prog_return () else outside (\<lambda>y. ((), h2_sleep api 10 y))) (\<lambda>_ w.
            loop api deadline w))) w
       else Some (Inr (), w)) w = Some y"
    show "grows_from api deadline w y"
    proof (cases "sends_body_only api")
      case True
      have again: "grows (\<lambda>w. loop api deadline w)"
        by (rule grows_loop [OF IH True])
      have "grows (prog_bind (PumpOnce api) (\<lambda>received. prog_bind (Flush api) (\<lambda>_.
          prog_bind (if received then prog_return () else outside (\<lambda>y. ((), h2_sleep api 10 y))) (\<lambda>_ w.
          loop api deadline w))))"
        by (intro grows_bind grows_PumpOnce grows_Flush True again) simp_all
      then have "grows (\<lambda>w. if now < deadline
          then prog_bind (PumpOnce api) (\<lambda>received. prog_bind (Flush api) (\<lambda>_.
            prog_bind (if received then prog_return () else outside (\<lambda>y. ((), h2_sleep api 10 y))) (\<lambda>_ w.
            loop api deadline w))) w
          else Some (Inr (), w))" for now :: int
        by (auto simp: grows_def)
      then have "grows (prog_bind (outside (h2_now api)) (\<lambda>now w.
         if now < deadline
         then prog_bind (PumpOnce api) (\<lambda>received. prog_bind (Flush api) (\<lambda>_.
            prog_bind (if received then prog_return () else outside (\<lambda>y. ((), h2_sleep api 10 y))) (\<lambda>_ w.
            loop api deadline w))) w
         else Some (Inr (), w)))"
        by (intro grows_bind) simp_all
      then show ?thesis using run by (rule grows_fromI)
    qed (simp add: grows_from_def)
  qed
qed


definition grows_when :: "int option \<Rightarrow> ('y, 'a) client \<Rightarrow> bool" where
  "grows_when c m \<longleftrightarrow> (\<forall>w r w'. cx_command_stream_id (aw_context (mc_rest w)) = c \<longrightarrow> m w = Some (r, w') \<longrightarrow>
     stream_grows (aw_context (mc_rest w)) (aw_context (mc_rest w')))"

lemma grows_when: "grows m \<Longrightarrow> grows_when c m"
  by (simp add: grows_def grows_when_def)

lemma grows_when_bind:
  assumes "grows_when c m" "\<And>x. grows_when c (f x)"
  shows "grows_when c (prog_bind m f)"
  unfolding grows_when_def
proof (intro allI impI)
  fix w r w'
  assume c: "cx_command_stream_id (aw_context (mc_rest w)) = c" and run: "prog_bind m f w = Some (r, w')"
  obtain x w1 where 1: "m w = Some (x, w1)"
    using run by (cases "m w") (auto simp: prog_bind_def)
  then have g: "stream_grows (aw_context (mc_rest w)) (aw_context (mc_rest w1))"
    using assms(1) c by (simp add: grows_when_def)
  show "stream_grows (aw_context (mc_rest w)) (aw_context (mc_rest w'))"
  proof (cases x)
    case (Inl e)
    then show ?thesis using run 1 g by (simp add: prog_bind_def)
  next
    case (Inr y)
    then have "f y w1 = Some (r, w')" using run 1 by (simp add: prog_bind_def)
    moreover have "cx_command_stream_id (aw_context (mc_rest w1)) = c"
      using g c by (simp add: stream_grows_def)
    ultimately show ?thesis
      using assms(2) g stream_grows_trans unfolding grows_when_def by blast
  qed
qed

text \<open>nghttp2 gives a new request an identifier that is not the one of the command stream.\<close>

definition fresh_streams :: "'y http2_api \<Rightarrow> int option \<Rightarrow> bool" where
  "fresh_streams api c \<longleftrightarrow> (\<forall>headers body y. Some (fst (h2_submit_request api headers body y)) \<noteq> c)"

lemma grows_when_outside:
  assumes "\<And>y. P (fst (f y))" "\<And>x. P x \<Longrightarrow> grows_when c (g x)"
  shows "grows_when c (prog_bind (outside f) g)"
  unfolding grows_when_def
proof (intro allI impI)
  fix w r w'
  assume c: "cx_command_stream_id (aw_context (mc_rest w)) = c" and run: "prog_bind (outside f) g w = Some (r, w')"
  obtain x y where xy: "f (aw_rest (mc_rest w)) = (x, y)" by fastforce
  let ?w = "w\<lparr>mc_rest := (mc_rest w)\<lparr>aw_rest := y\<rparr>\<rparr>"
  have step: "g x ?w = Some (r, w')"
    using run xy by (simp add: prog_bind_def outside_def)
  have "P x" using assms(1) [of "aw_rest (mc_rest w)"] xy by simp
  then have "grows_when c (g x)" by (rule assms(2))
  from this [unfolded grows_when_def, rule_format, OF _ step] c
  have "stream_grows (aw_context (mc_rest ?w)) (aw_context (mc_rest w'))" by simp
  then show "stream_grows (aw_context (mc_rest w)) (aw_context (mc_rest w'))" by simp
qed

lemma grows_SubmitRequest:
  assumes "sends_body_only api" "fresh_streams api c"
  shows "grows_when c (SubmitRequest api endpoint verb path extra_headers body)"
proof -
  note simple = grows_when [OF grows_simple(1)] grows_when [OF grows_simple(2)] grows_when [OF grows_simple(3)]
    grows_when [OF grows_simple(5)]
  note steps = grows_when [OF grows_EnsureConnected [OF assms(1)]] grows_when [OF grows_Flush [OF assms(1)]]
    grows_when [OF grows_PumpUntilResponseDone [OF assms(1)]]
  have body: "grows_when c (change_context (\<lambda>cx. cx\<lparr>cx_request_body := b\<rparr>))" for b
    by (rule grows_when, rule grows_change, rule stream_grows_same) simp_all
  have slot: "grows_when c (change_context f)"
    if "Some stream \<noteq> c" "\<And>cx. cx_command_stream_id (f cx) = cx_command_stream_id cx"
      "\<And>cx s. s \<noteq> stream \<Longrightarrow> cx_responses (f cx) s = cx_responses cx s"
    for stream f
    using that unfolding grows_when_def change_context_def
    by (auto intro!: stream_grows_same)
  show ?thesis
    unfolding SubmitRequest_def
  proof (rule grows_when_bind [OF steps(1)], rule grows_when_bind [OF body],
      rule grows_when_outside [where P = "\<lambda>stream. Some stream \<noteq> c"])
    show "Some (fst (h2_submit_request api headers b y)) \<noteq> c" for headers b y
      using assms(2) by (simp add: fresh_streams_def)
  next
    fix stream
    assume new: "Some stream \<noteq> c"
    show "grows_when c (prog_bind (prog_res (CheckNghttp2 api stream m)) (\<lambda>_.
      prog_bind (change_context (\<lambda>cx. cx\<lparr>cx_responses := (cx_responses cx)(stream \<mapsto> new_response)\<rparr>)) (\<lambda>_.
      prog_bind (Flush api) (\<lambda>_. prog_bind (PumpUntilResponseDone api stream) (\<lambda>_.
      prog_bind get_context (\<lambda>context.
        case cx_responses context stream of
          None \<Rightarrow> prog_throw e
        | Some response \<Rightarrow>
            prog_bind (change_context (\<lambda>cx. cx\<lparr>cx_responses := (cx_responses cx)(stream := None),
                                             cx_request_body := None\<rparr>)) (\<lambda>_.
            prog_return \<lparr>hr_status = rs_status response, hr_body = rs_body response\<rparr>)))))))" for m e
      by (intro grows_when_bind simple steps slot [OF new])
        (auto split: option.split intro!: grows_when_bind simple slot [OF new])
  qed
qed

definition pending_commands :: "http2_context \<Rightarrow> u8 list" where
  "pending_commands context = (case command_stream context of None \<Rightarrow> [] | Some r \<Rightarrow> rs_body r)"

lemma stream_grows_pending: "stream_grows cx cx' \<Longrightarrow> prefix (pending_commands cx) (pending_commands cx')"
  by (auto simp: stream_grows_def pending_commands_def split: option.splits)


text \<open>
  Commands that arrive in between are not lost.  nghttp2 hands the bytes of the command stream to
  the client whenever it reads the connection, also while events are posted.  Posting events and
  pumping, however they end, keep every byte of the command stream that came before and was not
  drained yet, in order; draining hands out exactly these bytes and leaves none.
\<close>

theorem commands_survive_posting:
  assumes "sends_body_only api" "fresh_streams api (cx_command_stream_id (aw_context (mc_rest w)))"
  shows "(\<forall>r w'. PostEvents api endpoint body w = Some (r, w') \<longrightarrow>
       prefix (pending_commands (aw_context (mc_rest w))) (pending_commands (aw_context (mc_rest w')))) \<and>
    (\<forall>r w'. PumpFor api timeout w = Some (r, w') \<longrightarrow>
       prefix (pending_commands (aw_context (mc_rest w))) (pending_commands (aw_context (mc_rest w')))) \<and>
    (\<exists>w'. DrainCommandBytes w = Some (Inr (pending_commands (aw_context (mc_rest w))), w') \<and>
       pending_commands (aw_context (mc_rest w')) = [])"
proof -
  have "grows_when (cx_command_stream_id (aw_context (mc_rest w))) (PostEvents api endpoint body)"
    unfolding PostEvents_def by (rule grows_SubmitRequest [OF assms])
  moreover have "grows (PumpFor api timeout)"
    unfolding PumpFor_def by (intro grows_bind grows_pump_until [OF assms(1)]) simp
  moreover have "\<exists>w'. DrainCommandBytes w = Some (Inr (pending_commands (aw_context (mc_rest w))), w') \<and>
       pending_commands (aw_context (mc_rest w')) = []"
    by (auto simp: DrainCommandBytes_def get_context_def change_context_def prog_bind_def pending_commands_def
        command_stream_def split: option.splits)
  ultimately show ?thesis
    unfolding grows_def grows_when_def using stream_grows_pending by blast
qed

text \<open>A connection on which nothing is sent or received.\<close>

definition demo_http2 :: "int http2_api" where
  "demo_http2 =
     \<lparr>h2_connect = (\<lambda>host port y. (Inr (), y)), h2_new_session = (\<lambda>y. (Inr (), y)),
      h2_submit_request = (\<lambda>headers body y. (3, y)), h2_session_send = (\<lambda>rc cx y. ((0, cx), y)),
      h2_read_some = (\<lambda>y. (Bytes_read [1], y + 1)),
      h2_mem_recv = (\<lambda>bytes y. ((1, [On_data_chunk 1 bytes, On_header 3 HEADERS_frame True '':status'' ''200'',
                                    On_stream_close 3 0]), y)),
      h2_strerror = (\<lambda>rv. []), h2_error_message = (\<lambda>code. []), h2_now = (\<lambda>y. (y, y)), h2_sleep = (\<lambda>n y. y + n)\<rparr>"

definition demo_client :: "int agent_world machine" where
  "demo_client =
     \<lparr>mc_files = Map.empty,
      mc_rest = \<lparr>aw_context = new_context\<lparr>cx_socket_open := True, cx_session := True, cx_command_stream_id := Some 1,
                   cx_responses := [1 \<mapsto> new_response\<lparr>rs_body := [7]\<rparr>]\<rparr>,
                 aw_stop = False, aw_heartbeat_count = 0, aw_rest = 0\<rparr>\<rparr>"

theorem commands_survive_posting_witness:
  "\<exists>w'. DrainCommandBytes demo_client = Some (Inr [7], w') \<and> pending_commands (aw_context (mc_rest w')) = []"
proof -
  have "\<exists>body. cx = cx\<lparr>cx_request_body := body\<rparr>" for cx :: http2_context
    by (rule exI [of _ "cx_request_body cx"]) simp
  then have "sends_body_only demo_http2"
    by (simp add: sends_body_only_def demo_http2_def)
  moreover have "fresh_streams demo_http2 (cx_command_stream_id (aw_context (mc_rest demo_client)))"
    by (simp add: fresh_streams_def demo_http2_def demo_client_def)
  moreover have "pending_commands (aw_context (mc_rest demo_client)) = [7]"
    by (simp add: pending_commands_def command_stream_def demo_client_def)
  ultimately show ?thesis
    using commands_survive_posting [of demo_http2 demo_client] by metis
qed


subsection \<open>Control URLs\<close>

definition digit :: "char \<Rightarrow> bool" where
  "digit c \<longleftrightarrow> CHR ''0'' \<le> c \<and> c \<le> CHR ''9''"

lemma of_digit:
  fixes n :: nat
  assumes "n < 10"
  shows "of_char (char_of (48 + n) :: char) = 48 + n" "digit (char_of (48 + n))"
proof -
  show "of_char (char_of (48 + n) :: char) = 48 + n"
    using assms by simp
  then show "digit (char_of (48 + n))"
    using assms by (simp add: digit_def less_eq_char_def)
qed

lemma digit_other:
  assumes "digit c"
  shows "c \<noteq> CHR ''/''" "c \<noteq> CHR '':''" "c \<noteq> CHR '']''" "c \<noteq> CHR ''[''" "c \<noteq> CHR ''-''" "c \<noteq> CHR ''+''"
    "\<not> isspace c"
  using assms by (auto simp: digit_def isspace_def less_eq_char_def)

lemma decimal_all_digits: "list_all digit (decimal n)"
proof (induction n rule: decimal.induct)
  case (1 n)
  then show ?case
    using of_digit(2) [of n] of_digit(2) [of "n mod 10"] by (subst decimal.simps) simp
qed

lemma decimal_not_Nil [simp]: "decimal n \<noteq> []"
  by (subst decimal.simps) simp

lemma digits_value_append: "digits_value (ds @ [d]) = digits_value ds * 10 + (of_char d - 48)"
  by (simp add: digits_value_def)

lemma digits_value_decimal [simp]: "digits_value (decimal n) = n"
proof (induction n rule: decimal.induct)
  case (1 n)
  show ?case
  proof (cases "n < 10")
    case True
    then show ?thesis
      using of_digit(1) [of n] by (subst decimal.simps) (simp add: digits_value_def)
  next
    case False
    then show ?thesis
      using 1 of_digit(1) [of "n mod 10"] by (subst decimal.simps) (simp add: digits_value_append)
  qed
qed

lemma stoul_decimal:
  assumes "n < 2 ^ 64"
  shows "stoul (decimal n) = Inr n"
proof -
  have all: "takeWhile (\<lambda>c. CHR ''0'' \<le> c \<and> c \<le> CHR ''9'') (decimal n) = decimal n"
    using decimal_all_digits [of n] by (simp add: list_all_iff digit_def)
  obtain c cs where c: "decimal n = c # cs" "digit c"
    using decimal_all_digits [of n] by (cases "decimal n") auto
  then have "dropWhile isspace (decimal n) = decimal n" "hd (decimal n) \<noteq> CHR ''-''" "hd (decimal n) \<noteq> CHR ''+''"
    using digit_other [OF c(2)] by simp_all
  then show ?thesis
    unfolding stoul_def Let_def using assms by (simp only: all if_False simp_thms) simp
qed

lemma decimal_no: "\<not> digit c \<Longrightarrow> c \<notin> set (decimal n)"
  using decimal_all_digits [of n] by (auto simp: list_all_iff)

lemma not_digits [simp]: "\<not> digit (CHR ''/'')" "\<not> digit (CHR '':'')" "\<not> digit (CHR '']'')"
  by (simp_all add: digit_def less_eq_char_def)

lemma checked_Inr: "checked b m = Inr u \<Longrightarrow> b"
  by (simp add: checked_def split: if_splits)

text \<open>
  The endpoint of a control URL.  A URL of a host name or an IPv4 address, a port from 1 to 65535
  and possibly a path is parsed into that host and that port, with the authority as it is written;
  an IPv6 address stands in brackets and is written in brackets again in the authority.  Every
  endpoint that is accepted has a port in that range.
\<close>

theorem control_url_parsed:
  assumes "host \<noteq> []" "set host \<inter> {CHR ''/'', CHR '']'', CHR ''[''} = {}" "0 < port" "port \<le> 65535"
    "path = [] \<or> hd path = CHR ''/''"
  shows "(CHR '':'' \<notin> set host \<longrightarrow>
      ParseControlUrl (''http://'' @ host @ CHR '':'' # decimal port @ path) =
        Inr \<lparr>ce_host = host, ce_authority = host @ CHR '':'' # decimal port, ce_port = port\<rparr>) \<and>
    (CHR '':'' \<in> set host \<longrightarrow>
      ParseControlUrl (''http://'' @ CHR ''['' # host @ '']:'' @ decimal port @ path) =
        Inr \<lparr>ce_host = host, ce_authority = CHR ''['' # host @ '']:'' @ decimal port, ce_port = port\<rparr>) \<and>
    (\<forall>url endpoint. ParseControlUrl url = Inr endpoint \<longrightarrow> 0 < ce_port endpoint \<and> ce_port endpoint \<le> 65535)"
proof (intro conjI impI allI)
  have until: "takeWhile (\<lambda>c. c \<noteq> CHR ''/'') (s @ path) = s" if "CHR ''/'' \<notin> set s" for s
    using that assms(5) by (cases path) (auto simp: takeWhile_append intro: takeWhile_eq_all_conv [THEN iffD2])
  have number: "stoul (decimal port) = Inr port"
    using assms(4) by (intro stoul_decimal) simp
  note no = decimal_no [OF not_digits(1), of port] decimal_no [OF not_digits(2), of port] decimal_no [OF not_digits(3), of port]
  have last_colon: "takeWhile (\<lambda>c. c \<noteq> CHR '':'') (rev (decimal port) @ CHR '':'' # t) = rev (decimal port)" for t
    using no(2) by (auto simp: takeWhile_append intro: takeWhile_eq_all_conv [THEN iffD2])
  have bracket: "takeWhile (\<lambda>c. c \<noteq> CHR '']'') (CHR ''['' # host @ CHR '']'' # t) = CHR ''['' # host" for t
    using assms(2) by (auto simp: takeWhile_append intro: takeWhile_eq_all_conv [THEN iffD2])
  show "ParseControlUrl (''http://'' @ host @ CHR '':'' # decimal port @ path) =
        Inr \<lparr>ce_host = host, ce_authority = host @ CHR '':'' # decimal port, ce_port = port\<rparr>"
    if "CHR '':'' \<notin> set host"
  proof -
    have "takeWhile (\<lambda>c. c \<noteq> CHR ''/'') (host @ CHR '':'' # decimal port @ path) = host @ CHR '':'' # decimal port"
      using until [of "host @ CHR '':'' # decimal port"] assms(2) no by simp
    moreover have "hd (host @ CHR '':'' # decimal port) \<noteq> CHR ''[''"
      using assms(1,2) by (cases host) auto
    ultimately show ?thesis
      using that number last_colon assms(1,3,4)
      by (simp add: ParseControlUrl_def StripHttpScheme_def checked_def Let_def)
  qed
  show "ParseControlUrl (''http://'' @ CHR ''['' # host @ '']:'' @ decimal port @ path) =
        Inr \<lparr>ce_host = host, ce_authority = CHR ''['' # host @ '']:'' @ decimal port, ce_port = port\<rparr>"
    if "CHR '':'' \<in> set host"
  proof -
    define authority where "authority = CHR ''['' # host @ '']:'' @ decimal port"
    have cut: "takeWhile (\<lambda>c. c \<noteq> CHR ''/'') (authority @ path) = authority"
      by (rule until) (use assms(2) no in \<open>simp add: authority_def\<close>)
    have pieces: "authority \<noteq> []" "hd authority = CHR ''[''"
      "length (takeWhile (\<lambda>c. c \<noteq> CHR '']'') authority) = length host + 1"
      "CHR '']'' \<in> set authority" "length host + 1 + 2 \<le> length authority" "authority ! (length host + 1 + 1) = CHR '':''"
      "take (length host + 1 - 1) (tl authority) = host" "drop (length host + 1 + 2) authority = decimal port"
      using bracket [of "CHR '':'' # decimal port"] by (simp_all add: authority_def nth_append)
    have strip: "StripHttpScheme (''http://'' @ authority @ path) = Inr (authority @ path)"
      by (simp add: StripHttpScheme_def)
    have "ParseControlUrl (''http://'' @ authority @ path) =
        Inr \<lparr>ce_host = host, ce_authority = authority, ce_port = port\<rparr>"
      unfolding ParseControlUrl_def strip bind_res_simps Let_def cut pieces(2,3,6,7,8) prod.case number
      using pieces(1,4,5) that assms(3,4) number by (simp add: checked_def authority_def)
    then show ?thesis by (simp add: authority_def)
  qed
  fix url endpoint
  assume "ParseControlUrl url = Inr endpoint"
  then show "0 < ce_port endpoint" "ce_port endpoint \<le> 65535"
    unfolding ParseControlUrl_def Let_def
    by (auto elim!: bind_res_InrE dest!: checked_Inr split: if_split_asm)
qed

theorem control_url_parsed_witness:
  "ParseControlUrl ''http://[::1]:8081/'' =
     Inr \<lparr>ce_host = ''::1'', ce_authority = ''[::1]:8081'', ce_port = 8081\<rparr>"
proof -
  have number: "decimal 8081 = ''8081''" 
    by (simp add: decimal.simps [of 8081] decimal.simps [of 808] decimal.simps [of 80] decimal.simps [of 8]
        char_of_def bit_iff_odd)
  have "ParseControlUrl (''http://'' @ CHR ''['' # ''::1'' @ '']:'' @ decimal 8081 @ ''/'') =
      Inr \<lparr>ce_host = ''::1'', ce_authority = CHR ''['' # ''::1'' @ '']:'' @ decimal 8081, ce_port = 8081\<rparr>"
    by (rule control_url_parsed [THEN conjunct2, THEN conjunct1, rule_format]) simp_all
  then show ?thesis
    unfolding number append.simps .
qed

end
