(* ===== verification/Agent_Runtime.thy ===== *)
theory Agent_Runtime
  imports Http2_Client Package_Updater Frame_Codec
begin

section \<open>apps/agent: the runtime (runtime.cpp, command_decoder.cpp)\<close>

text \<open>
  The loop of an agent: it connects, registers, opens the command stream, carries out the commands
  it receives, sends heartbeats, and starts again after a growing delay when anything fails.
  \<open>runtime_env\<close> holds what the program does not determine: UUIDs and times of day, the version, and
  whether another thread has asked the agent to stop.
\<close>

record ('y, 'c, 'd, 'i, 't) runtime_env =
  re_agent :: "('y agent_world, 'c, 'd, 'i) agent_env"
  re_http2 :: "'y http2_api"
  re_wire :: wire
  re_toml :: "'t toml_lib"
  re_uuid :: "'y \<Rightarrow> string \<times> 'y"
  re_utc_now :: "'y \<Rightarrow> string \<times> 'y"
  re_version :: string
  re_stop_signal :: "'y \<Rightarrow> bool"

definition kCommandPumpInterval :: int where
  "kCommandPumpInterval = 50"

definition kStopPollInterval :: int where
  "kStopPollInterval = 50"

subsection \<open>The events\<close>

definition BuildRegisterEvent ::
    "('y, 'c, 'd, 'i, 't) runtime_env \<Rightarrow> string \<Rightarrow> string \<Rightarrow> ('y, agent_event) client" where
  "BuildRegisterEvent env agent_id registration_token =
     prog_bind (outside (re_uuid env)) (\<lambda>request_id.
     prog_bind (outside (re_utc_now env)) (\<lambda>occurred_at.
     prog_bind (prog_ask (hostname (ae_process (re_agent env)))) (\<lambda>host.
     prog_return (EvRegister
       \<lparr>reg_protocol_version = protocol_version, reg_request_id = request_id, reg_agent_id = agent_id,
        reg_occurred_at = occurred_at, reg_agent_version = re_version env, reg_hostname = host,
        reg_os = os_name, reg_arch = architecture_name,
        reg_registration_token = (if registration_token = [] then None else Some registration_token)\<rparr>))))"

definition BuildHeartbeatEvent ::
    "('y, 'c, 'd, 'i, 't) runtime_env \<Rightarrow> string \<Rightarrow> ('y, agent_event) client" where
  "BuildHeartbeatEvent env agent_id =
     prog_bind (outside (re_uuid env)) (\<lambda>request_id.
     prog_bind (outside (re_utc_now env)) (\<lambda>occurred_at.
     prog_return (EvHeartbeat
       \<lparr>hb_protocol_version = protocol_version, hb_request_id = request_id, hb_agent_id = agent_id,
        hb_occurred_at = occurred_at, hb_agent_version = re_version env\<rparr>)))"

definition BuildTaskRunningEvent ::
    "('y, 'c, 'd, 'i, 't) runtime_env \<Rightarrow> string \<Rightarrow> task \<Rightarrow> ('y, agent_event) client" where
  "BuildTaskRunningEvent env agent_id t =
     prog_bind (outside (re_uuid env)) (\<lambda>request_id.
     prog_bind (outside (re_utc_now env)) (\<lambda>occurred_at.
     prog_return (EvTaskRunning
       \<lparr>run_protocol_version = protocol_version, run_request_id = request_id,
        run_task_id = task_task_id t, run_agent_id = agent_id, run_task_type = task_task_type t,
        run_occurred_at = occurred_at\<rparr>)))"

definition BuildTaskSucceededEvent ::
    "('y, 'c, 'd, 'i, 't) runtime_env \<Rightarrow> string \<Rightarrow> task \<Rightarrow> ('y, agent_event) client" where
  "BuildTaskSucceededEvent env agent_id t =
     prog_bind (outside (re_uuid env)) (\<lambda>request_id.
     prog_bind (outside (re_utc_now env)) (\<lambda>occurred_at.
     prog_bind (prog_ask (hostname (ae_process (re_agent env)))) (\<lambda>host.
     prog_return (EvTaskResult
       \<lparr>res_protocol_version = protocol_version, res_request_id = request_id,
        res_task_id = task_task_id t, res_agent_id = agent_id, res_task_type = task_task_type t,
        res_occurred_at = occurred_at, res_status = TE_succeeded,
        res_result = Some (CollectBasicInventoryResult
          \<lparr>inv_hostname = host, inv_os = os_name, inv_arch = architecture_name,
           inv_agent_version = re_version env\<rparr>),
        res_error = None\<rparr>))))"

definition update_result :: "package_update_input \<Rightarrow> update_execution \<Rightarrow> package_update_result" where
  "update_result input execution =
     \<lparr>pur_component = pui_component input, pur_package_id = pui_package_id input,
      pur_version = pui_version input,
      pur_state = (if ue_ok execution then ''applied'' else ''failed''),
      pur_error_code = (if ue_ok execution then [] else ErrorCode_ToString (ue_error_code execution)),
      pur_error_message = (if ue_ok execution then [] else ue_message execution)\<rparr>"

definition BuildPackageUpdateResultEvent ::
    "('y, 'c, 'd, 'i, 't) runtime_env \<Rightarrow> string \<Rightarrow> task \<Rightarrow> update_execution \<Rightarrow> ('y, agent_event) client" where
  "BuildPackageUpdateResultEvent env agent_id t execution =
     prog_bind (prog_res (case task_input_data t of
                            PackageUpdateInput input \<Rightarrow> Inr input
                          | _ \<Rightarrow> Inl (Runtime_error ''std::get: wrong index for variant''))) (\<lambda>input.
     prog_bind (outside (re_uuid env)) (\<lambda>request_id.
     prog_bind (outside (re_utc_now env)) (\<lambda>occurred_at.
     prog_return (EvTaskResult
       \<lparr>res_protocol_version = protocol_version, res_request_id = request_id,
        res_task_id = task_task_id t, res_agent_id = agent_id, res_task_type = task_task_type t,
        res_occurred_at = occurred_at,
        res_status = (if ue_ok execution then TE_succeeded else TE_failed),
        res_result = Some (PackageUpdateResult (update_result input execution)),
        res_error = (if ue_ok execution then None
                     else Some \<lparr>te_error_code = ue_error_code execution,
                                te_message = ue_message execution, te_retryable = False\<rparr>)\<rparr>))))"

fun BuildEnvelopeBody :: "wire \<Rightarrow> agent_event list \<Rightarrow> u8 list result" where
  "BuildEnvelopeBody wire [] = Inr []"
| "BuildEnvelopeBody wire (event # events) =
     bind_res (EncodeAgentEventPayload wire event) (\<lambda>payload.
     bind_res (EncodeFrame payload) (\<lambda>frame.
     bind_res (BuildEnvelopeBody wire events) (\<lambda>body. Inr (frame @ body))))"

subsection \<open>Decoding commands\<close>

definition default_decoder :: frame_decoder where
  "default_decoder = \<lparr>max_frame_bytes = kDefaultMaxFrameBytes, fd_buffer = []\<rparr>"

definition DecodeServerCommands ::
    "wire \<Rightarrow> frame_decoder \<Rightarrow> u8 list \<Rightarrow> server_command list result \<times> frame_decoder" where
  "DecodeServerCommands wire decoder bytes =
     (case Push decoder bytes of
        (Inl ex, decoder) \<Rightarrow> (Inl ex, decoder)
      | (Inr frames, decoder) \<Rightarrow> (map_res (DecodeServerCommandPayload wire) frames, decoder))"

subsection \<open>What the runtime sends\<close>

definition post_accepted ::
    "('y, 'c, 'd, 'i, 't) runtime_env \<Rightarrow> control_endpoint \<Rightarrow> agent_event list \<Rightarrow> (string \<Rightarrow> string) \<Rightarrow>
       ('y, unit) client" where
  "post_accepted env endpoint events rejection =
     prog_bind (prog_res (BuildEnvelopeBody (re_wire env) events)) (\<lambda>body.
     prog_bind (PostEvents (re_http2 env) endpoint body) (\<lambda>response.
     if hr_status response \<noteq> ''200'' then prog_throw (Runtime_error (rejection (hr_status response)))
     else prog_return ()))"

definition count_heartbeat :: "('y, unit) client" where
  "count_heartbeat w =
     Some (Inr (), w\<lparr>mc_rest := (mc_rest w)\<lparr>aw_heartbeat_count := aw_heartbeat_count (mc_rest w) + 1\<rparr>\<rparr>)"

definition send_connection_bootstrap ::
    "('y, 'c, 'd, 'i, 't) runtime_env \<Rightarrow> agent_config \<Rightarrow> control_endpoint \<Rightarrow> string \<Rightarrow> ('y, unit) client" where
  "send_connection_bootstrap env config endpoint agent_id =
     prog_bind (BuildRegisterEvent env agent_id (ac_registration_token config)) (\<lambda>register_event.
     prog_bind (BuildHeartbeatEvent env agent_id) (\<lambda>heartbeat_event.
     prog_bind (post_accepted env endpoint [register_event, heartbeat_event]
                  (\<lambda>_. ''agent bootstrap events were rejected'')) (\<lambda>_.
     count_heartbeat)))"

definition send_heartbeat ::
    "('y, 'c, 'd, 'i, 't) runtime_env \<Rightarrow> control_endpoint \<Rightarrow> string \<Rightarrow> ('y, unit) client" where
  "send_heartbeat env endpoint agent_id =
     prog_bind (BuildHeartbeatEvent env agent_id) (\<lambda>heartbeat_event.
     prog_bind (post_accepted env endpoint [heartbeat_event] (\<lambda>_. ''heartbeat was rejected'')) (\<lambda>_.
     count_heartbeat))"

definition RequestStop :: "('y, unit) client" where
  "RequestStop w = Some (Inr (), w\<lparr>mc_rest := (mc_rest w)\<lparr>aw_stop := True\<rparr>\<rparr>)"

definition stop_requested :: "('y, 'c, 'd, 'i, 't) runtime_env \<Rightarrow> 'y agent_world machine \<Rightarrow> bool" where
  "stop_requested env w \<longleftrightarrow> aw_stop (mc_rest w) \<or> re_stop_signal env (aw_rest (mc_rest w))"

text \<open>Carrying out a task: the result event, and whether the agent stops after it was posted.\<close>

definition execute_task ::
    "('y, 'c, 'd, 'i, 't) runtime_env \<Rightarrow> agent_config \<Rightarrow> string \<Rightarrow> task \<Rightarrow> ('y, agent_event \<times> bool) client" where
  "execute_task env config agent_id t =
     (if task_task_type t = TT_collect_basic_inventory
      then prog_bind (BuildTaskSucceededEvent env agent_id t) (\<lambda>event. prog_return (event, False))
      else
        prog_bind (prog_res (case task_input_data t of
                               PackageUpdateInput input \<Rightarrow> Inr input
                             | _ \<Rightarrow> Inl (Runtime_error ''std::get: wrong index for variant''))) (\<lambda>input.
        prog_bind (ExecutePackageUpdate (re_agent env) config input) (\<lambda>execution.
        prog_bind (BuildPackageUpdateResultEvent env agent_id t execution) (\<lambda>event.
        prog_return (event, ue_ok execution \<and> ue_stop_agent execution)))))"

definition handle_command ::
    "('y, 'c, 'd, 'i, 't) runtime_env \<Rightarrow> agent_config \<Rightarrow> control_endpoint \<Rightarrow> string \<Rightarrow> server_command \<Rightarrow>
       ('y, unit) client" where
  "handle_command env config endpoint agent_id command =
     (case sc_payload command of
        CmdError err \<Rightarrow>
          prog_throw (Runtime_error (''server control error '' @ ErrorCode_ToString (se_error_code err) @
                                     '': '' @ se_message err))
      | CmdTask t \<Rightarrow>
          prog_bind (BuildTaskRunningEvent env agent_id t) (\<lambda>running_event.
          prog_bind (post_accepted env endpoint [running_event]
                       (\<lambda>status. ''task running event was rejected with status '' @ status)) (\<lambda>_.
          prog_bind (execute_task env config agent_id t) (\<lambda>(task_result, stop_after_result).
          prog_bind (post_accepted env endpoint [task_result]
                       (\<lambda>status. ''task result event was rejected with status '' @ status)) (\<lambda>_.
          if stop_after_result then RequestStop else prog_return ())))))"


subsection \<open>Serving one connection\<close>

text \<open>
  The loop of a connection, from the check of the stop flag to the heartbeat; it returns when the
  agent is asked to stop and throws when the connection fails.
\<close>

definition check_command_stream :: "'y http2_api \<Rightarrow> http2_context \<Rightarrow> unit result" where
  "check_command_stream api context =
     (if command_stream_open context then Inr ()
      else case command_stream_error_code context of
        Some code \<Rightarrow>
          if code \<noteq> 0 then Inl (Runtime_error (''command stream reset: '' @ h2_error_message api code))
          else Inl (Runtime_error ''command stream closed'')
      | None \<Rightarrow> Inl (Runtime_error ''command stream closed''))"

definition handle_commands ::
    "('y, 'c, 'd, 'i, 't) runtime_env \<Rightarrow> agent_config \<Rightarrow> control_endpoint \<Rightarrow> string \<Rightarrow> frame_decoder \<Rightarrow>
       ('y, frame_decoder) client" where
  "handle_commands env config endpoint agent_id decoder =
     prog_bind DrainCommandBytes (\<lambda>bytes.
     if bytes = [] then prog_return decoder
     else case DecodeServerCommands (re_wire env) decoder bytes of
       (commands, decoder) \<Rightarrow>
         prog_bind (prog_res commands) (\<lambda>commands.
         prog_bind (prog_each (handle_command env config endpoint agent_id) commands) (\<lambda>_.
         prog_return decoder)))"

partial_function (option) serve ::
    "('y, 'c, 'd, 'i, 't) runtime_env \<Rightarrow> agent_config \<Rightarrow> control_endpoint \<Rightarrow> string \<Rightarrow> int \<Rightarrow>
       frame_decoder \<Rightarrow> int \<Rightarrow> ('y, unit) client" where
  [code]: "serve env config endpoint agent_id interval decoder next_heartbeat w =
     (if stop_requested env w then Some (Inr (), w)
      else
        prog_bind get_context (\<lambda>context.
        prog_bind (prog_res (check_command_stream (re_http2 env) context)) (\<lambda>_.
        prog_bind (PumpFor (re_http2 env) kCommandPumpInterval) (\<lambda>_.
        prog_bind (handle_commands env config endpoint agent_id decoder) (\<lambda>decoder w.
          if stop_requested env w then Some (Inr (), w)
          else
            prog_bind (outside (h2_now (re_http2 env))) (\<lambda>now.
            prog_bind (if next_heartbeat \<le> now
                       then prog_bind (send_heartbeat env endpoint agent_id) (\<lambda>_.
                            prog_return (now + interval * 1000))
                       else prog_return next_heartbeat) (\<lambda>next_heartbeat w.
            serve env config endpoint agent_id interval decoder next_heartbeat w)) w)))) w)"

definition connection ::
    "('y, 'c, 'd, 'i, 't) runtime_env \<Rightarrow> agent_config \<Rightarrow> control_endpoint \<Rightarrow> string \<Rightarrow> int \<Rightarrow> ('y, unit) client" where
  "connection env config endpoint agent_id interval =
     prog_bind (Connect (re_http2 env) endpoint) (\<lambda>_.
     prog_bind (send_connection_bootstrap env config endpoint agent_id) (\<lambda>_.
     prog_bind (outside (re_uuid env)) (\<lambda>correlation_id.
     prog_bind (StartCommandStream (re_http2 env) endpoint correlation_id) (\<lambda>command_status.
     if command_status \<noteq> ''200'' then prog_throw (Runtime_error ''command stream was rejected'')
     else
       prog_bind (outside (h2_now (re_http2 env))) (\<lambda>now.
       prog_bind (serve env config endpoint agent_id interval default_decoder (now + interval * 1000)) (\<lambda>_.
       Close))))))"

subsection \<open>The runtime\<close>

partial_function (option) sleep_until ::
    "('y, 'c, 'd, 'i, 't) runtime_env \<Rightarrow> int \<Rightarrow> ('y, unit) client" where
  [code]: "sleep_until env deadline w =
     prog_bind (outside (h2_now (re_http2 env))) (\<lambda>now w.
       if now < deadline \<and> \<not> stop_requested env w
       then prog_bind (outside (h2_now (re_http2 env))) (\<lambda>now.
            prog_bind (outside (\<lambda>y. ((), h2_sleep (re_http2 env) (min (deadline - now) kStopPollInterval) y)))
              (\<lambda>_ w. sleep_until env deadline w)) w
       else Some (Inr (), w)) w"

definition SleepUntilStop :: "('y, 'c, 'd, 'i, 't) runtime_env \<Rightarrow> u32 \<Rightarrow> ('y, bool) client" where
  "SleepUntilStop env seconds =
     prog_bind (outside (h2_now (re_http2 env))) (\<lambda>now.
     prog_bind (sleep_until env (now + uint seconds * 1000)) (\<lambda>_.
     prog_ask (\<lambda>w. \<not> stop_requested env w)))"

definition next_backoff :: "u32 \<Rightarrow> u32 \<Rightarrow> u32" where
  "next_backoff max_backoff backoff = min (backoff * 2) max_backoff"

definition heartbeat_interval :: "agent_config \<Rightarrow> u32" where
  "heartbeat_interval config = max 1 (ac_heartbeat_interval_seconds config)"

definition initial_backoff :: "agent_config \<Rightarrow> u32" where
  "initial_backoff config = max 1 (ac_reconnect_initial_delay_seconds config)"

definition max_backoff :: "agent_config \<Rightarrow> u32" where
  "max_backoff config = max (initial_backoff config) (ac_reconnect_max_delay_seconds config)"

partial_function (option) reconnect ::
    "('y, 'c, 'd, 'i, 't) runtime_env \<Rightarrow> agent_config \<Rightarrow> control_endpoint \<Rightarrow> string \<Rightarrow> u32 \<Rightarrow> ('y, unit) client" where
  [code]: "reconnect env config endpoint agent_id backoff w =
     (if stop_requested env w then Close w
      else case connection env config endpoint agent_id (uint (heartbeat_interval config)) w of
        None \<Rightarrow> None
      | Some (Inr _, w) \<Rightarrow> Some (Inr (), w)
      | Some (Inl ex, w) \<Rightarrow>
          prog_bind Close (\<lambda>_.
          prog_bind (SleepUntilStop env backoff) (\<lambda>running w.
          if running
          then reconnect env config endpoint agent_id (next_backoff (max_backoff config) backoff) w
          else Close w)) w)"

record runtime_result =
  run_result_agent_id :: string
  run_result_heartbeat_count :: u64

definition load_state :: "('y, 'c, 'd, 'i, 't) runtime_env \<Rightarrow> string \<Rightarrow> ('y, string) client" where
  "load_state env state_path =
     (let os = ae_os (re_agent env) in
      prog_bind (prog_read (\<lambda>fs. fs_exists os fs state_path)) (\<lambda>present.
      prog_bind (if present then prog_return [] else outside (re_uuid env)) (\<lambda>new_uuid.
      prog_act (LoadOrCreateState (re_toml env) os new_uuid state_path))))"

definition Run_agent ::
    "('y, 'c, 'd, 'i, 't) runtime_env \<Rightarrow> agent_config \<Rightarrow> ('y, runtime_result) client" where
  "Run_agent env config =
     prog_bind (load_state env (StatePathFor config)) (\<lambda>agent_id.
     prog_bind (prog_res (ParseControlUrl (ac_control_url config))) (\<lambda>endpoint.
     prog_bind Close (\<lambda>_.
     prog_bind (\<lambda>w. Some (Inr (), w\<lparr>mc_rest := (mc_rest w)\<lparr>aw_heartbeat_count := 0\<rparr>\<rparr>)) (\<lambda>_.
     prog_bind (reconnect env config endpoint agent_id (initial_backoff config)) (\<lambda>_.
     prog_ask (\<lambda>w. \<lparr>run_result_agent_id = agent_id, run_result_heartbeat_count = aw_heartbeat_count (mc_rest w)\<rparr>))))))"

end
