(* ===== verification/Agent_Control.thy ===== *)
theory Agent_Control
  imports Agent_Runtime Control_Dispatcher
begin

section \<open>apps/agent: what the runtime guarantees\<close>

text \<open>
  Properties of the loop of the agent and of the two directions of the control channel: delays and
  stopping, the protocol of a task, and the composition of the agent's encoder with the server's
  dispatcher and of the server's encoder with the agent's decoder.
\<close>

subsection \<open>Delays between attempts to connect\<close>

lemma next_backoff_value:
  assumes "unat b \<le> unat m" "unat m < 2 ^ 31"
  shows "unat (next_backoff m b) = min (unat b * 2) (unat m)"
proof -
  have "unat (b * 2) = unat b * 2"
    using assms by (simp add: unat_word_ariths)
  then show ?thesis
    by (simp add: next_backoff_def min_def word_le_nat_alt)
qed

lemma next_backoff_iterated:
  assumes "unat b \<le> unat m" "unat m < 2 ^ 31"
  shows "unat ((next_backoff m ^^ n) b) = min (unat b * 2 ^ n) (unat m)"
proof (induction n)
  case (Suc n)
  then have "unat (next_backoff m ((next_backoff m ^^ n) b)) = min (min (unat b * 2 ^ n) (unat m) * 2) (unat m)"
    using assms next_backoff_value by (metis min.cobounded2)
  also have "\<dots> = min (unat b * 2 ^ Suc n) (unat m)"
    by (simp add: min_def)
  finally show ?case
    by simp
qed (use assms in simp)

text \<open>
  An attempt that failed: the agent was not stopped, the connection threw, was closed, and the agent
  slept without being stopped.  \<open>retries\<close> is a number of such attempts, with the delay that each
  leaves for the next.
\<close>

inductive failed_attempt ::
    "('y, 'c, 'd, 'i, 't) runtime_env \<Rightarrow> agent_config \<Rightarrow> control_endpoint \<Rightarrow> string \<Rightarrow>
       u32 \<times> 'y agent_world machine \<Rightarrow> u32 \<times> 'y agent_world machine \<Rightarrow> bool"
  for env config endpoint agent_id where
  attempt: "\<lbrakk>\<not> stop_requested env w;
     connection env config endpoint agent_id (uint (heartbeat_interval config)) w = Some (Inl ex, w1);
     Close w1 = Some (Inr (), w2); SleepUntilStop env backoff w2 = Some (Inr True, w3)\<rbrakk> \<Longrightarrow>
     failed_attempt env config endpoint agent_id (backoff, w) (next_backoff (max_backoff config) backoff, w3)"

inductive_cases failed_attemptE: "failed_attempt env config endpoint agent_id s s'"

lemma reconnect_attempt:
  assumes "failed_attempt env config endpoint agent_id (backoff, w) (backoff', w')"
  shows "reconnect env config endpoint agent_id backoff w = reconnect env config endpoint agent_id backoff' w' \<and>
         backoff' = next_backoff (max_backoff config) backoff"
  using assms
  by (auto elim!: failed_attemptE simp: reconnect.simps [of env config endpoint agent_id backoff w] prog_bind_def)

lemma reconnect_attempts:
  assumes "(failed_attempt env config endpoint agent_id ^^ n) (backoff, w) (backoff', w')"
  shows "reconnect env config endpoint agent_id backoff w = reconnect env config endpoint agent_id backoff' w' \<and>
         backoff' = (next_backoff (max_backoff config) ^^ n) backoff"
  using assms
proof (induction n arbitrary: backoff' w')
  case (Suc n)
  then obtain b1 w1 where "(failed_attempt env config endpoint agent_id ^^ n) (backoff, w) (b1, w1)"
    and "failed_attempt env config endpoint agent_id (b1, w1) (backoff', w')"
    by auto
  then show ?case
    using Suc.IH reconnect_attempt by fastforce
qed simp

lemma backoff_limits: "1 \<le> unat (initial_backoff config)" "unat (initial_backoff config) \<le> unat (max_backoff config)"
proof -
  have "(1 :: u32) \<le> initial_backoff config" "initial_backoff config \<le> max_backoff config"
    by (simp_all add: initial_backoff_def max_backoff_def)
  then show "1 \<le> unat (initial_backoff config)" "unat (initial_backoff config) \<le> unat (max_backoff config)"
    by (simp_all add: word_le_nat_alt)
qed

text \<open>
  The delays between attempts to connect.  After \<open>n\<close> failed attempts the agent goes on with a
  delay of the initial delay times \<open>2 ^ n\<close> seconds, but never more than the maximal delay and never
  less than one second, provided the maximal delay is below \<open>2 ^ 31\<close> seconds; the doubling in 32 bits
  does not wrap around then.
\<close>

theorem reconnect_delays:
  assumes "(failed_attempt env config endpoint agent_id ^^ n) (initial_backoff config, w) (backoff, w')"
    and "unat (max_backoff config) < 2 ^ 31"
  shows "unat backoff = min (unat (initial_backoff config) * 2 ^ n) (unat (max_backoff config)) \<and>
         1 \<le> unat backoff \<and> unat backoff \<le> unat (max_backoff config) \<and>
         reconnect env config endpoint agent_id (initial_backoff config) w =
           reconnect env config endpoint agent_id backoff w'"
  using reconnect_attempts [OF assms(1)] backoff_limits [of config]
    next_backoff_iterated [OF backoff_limits(2) assms(2), of n]
  by (auto simp: min_def)

text \<open>Where the maximal delay is \<open>2 ^ 31\<close> seconds or more, the delay can become 0 and stay there.\<close>

lemma backoff_wraps:
  "next_backoff 0x80000000 0x80000000 = 0" "next_backoff m 0 = 0"
  by (simp_all add: next_backoff_def)


subsection \<open>Waiting\<close>

text \<open>
  A clock that never goes back and sleeps that last at least as long as asked; reading the clock and
  sleeping do not unset the stop flag of another thread.
\<close>

definition agent_clock :: "'y http2_api \<Rightarrow> ('y \<Rightarrow> int) \<Rightarrow> bool" where
  "agent_clock api clock \<longleftrightarrow>
     (\<forall>y. clock y \<le> fst (h2_now api y) \<and> fst (h2_now api y) \<le> clock (snd (h2_now api y))) \<and>
     (\<forall>n y. clock y + max 0 n \<le> clock (h2_sleep api n y))"

abbreviation agent_time :: "('y \<Rightarrow> int) \<Rightarrow> 'y agent_world machine \<Rightarrow> int" where
  "agent_time clock w \<equiv> clock (aw_rest (mc_rest w))"

lemma read_clock:
  assumes "agent_clock api clock"
  obtains now w' where "outside (h2_now api) w = Some (Inr now, w')"
    "agent_time clock w \<le> now" "now \<le> agent_time clock w'"
proof -
  obtain now y where 1: "h2_now api (aw_rest (mc_rest w)) = (now, y)"
    by fastforce
  have "agent_time clock w \<le> now" "now \<le> clock y"
    using assms 1 unfolding agent_clock_def by (metis fst_conv, metis fst_conv snd_conv)
  then show ?thesis
    using that [of now "w\<lparr>mc_rest := (mc_rest w)\<lparr>aw_rest := y\<rparr>\<rparr>"] 1 by (simp add: outside_def)
qed

lemma sleep_passes:
  assumes "agent_clock api clock"
  obtains w' where "outside (\<lambda>y. ((), h2_sleep api n y)) w = Some (Inr (), w')"
    "agent_time clock w + max 0 n \<le> agent_time clock w'"
  using assms that [of "w\<lparr>mc_rest := (mc_rest w)\<lparr>aw_rest := h2_sleep api n (aw_rest (mc_rest w))\<rparr>\<rparr>"]
  by (simp add: outside_def agent_clock_def)

lemma sleep_until_returns:
  assumes "agent_clock (re_http2 env) clock"
  shows "\<exists>w'. sleep_until env deadline w = Some (Inr (), w') \<and>
              (stop_requested env w' \<or> deadline \<le> agent_time clock w')"
proof (induction w rule: measure_induct_rule [where f = "\<lambda>w. nat (deadline - agent_time clock w)"])
  case (less w)
  obtain now w1 where 1: "outside (h2_now (re_http2 env)) w = Some (Inr now, w1)"
      "agent_time clock w \<le> now" "now \<le> agent_time clock w1"
    by (rule read_clock [OF assms])
  note step = sleep_until.simps [of env deadline w]
  show ?case
  proof (cases "now < deadline \<and> \<not> stop_requested env w1")
    case False
    then show ?thesis
      using step 1 by (auto simp: prog_bind_def)
  next
    case True
    obtain now2 w2 where 2: "outside (h2_now (re_http2 env)) w1 = Some (Inr now2, w2)"
        "agent_time clock w1 \<le> now2" "now2 \<le> agent_time clock w2"
      by (rule read_clock [OF assms])
    obtain w3 where 3: "outside (\<lambda>y. ((), h2_sleep (re_http2 env) (min (deadline - now2) kStopPollInterval) y)) w2 =
          Some (Inr (), w3)"
        "agent_time clock w2 + max 0 (min (deadline - now2) kStopPollInterval) \<le> agent_time clock w3"
      by (rule sleep_passes [OF assms])
    have "nat (deadline - agent_time clock w3) < nat (deadline - agent_time clock w)"
      using True 1 2 3 by (auto simp: kStopPollInterval_def)
    from less [OF this] show ?thesis
      using step True 1 2 3 by (simp add: prog_bind_def)
  qed
qed

text \<open>
  The agent's pause between two attempts ends.  With a steady clock that never goes back,
  \<open>SleepUntilStop\<close> returns; it says that the agent goes on only when no stop was requested and the
  whole delay has passed, and that it stops only when a stop was requested.
\<close>

theorem sleep_ends:
  assumes "agent_clock (re_http2 env) clock"
  shows "\<exists>running w'. SleepUntilStop env seconds w = Some (Inr running, w') \<and>
           running = (\<not> stop_requested env w') \<and>
           (running \<longrightarrow> agent_time clock w + uint seconds * 1000 \<le> agent_time clock w')"
proof -
  obtain now w1 where 1: "outside (h2_now (re_http2 env)) w = Some (Inr now, w1)"
      "agent_time clock w \<le> now" "now \<le> agent_time clock w1"
    by (rule read_clock [OF assms])
  obtain w2 where 2: "sleep_until env (now + uint seconds * 1000) w1 = Some (Inr (), w2)"
      "stop_requested env w2 \<or> now + uint seconds * 1000 \<le> agent_time clock w2"
    using sleep_until_returns [OF assms] by blast
  then show ?thesis
    using 1 by (auto simp: SleepUntilStop_def prog_bind_def)
qed

subsection \<open>The agent runs until it is asked to stop\<close>

definition stops :: "('y, 'c, 'd, 'i, 't) runtime_env \<Rightarrow> 'a result \<times> 'y agent_world machine \<Rightarrow> bool" where
  "stops env answer \<longleftrightarrow> (\<forall>x. fst answer = Inr x \<longrightarrow> stop_requested env (snd answer))"

lemma serve_stops:
  assumes "serve env config endpoint agent_id interval decoder next_heartbeat w = Some y"
  shows "stops env y"
proof (rule serve.raw_induct [OF _ assms, where P = "\<lambda>env config endpoint agent_id interval decoder next_heartbeat w y. stops env y"])
  fix loop env config endpoint agent_id interval decoder next_heartbeat w y
  assume IH: "\<And>env config endpoint agent_id interval decoder next_heartbeat w y.
      loop env config endpoint agent_id interval decoder next_heartbeat w = Some y \<Longrightarrow> stops env y"
    and body: "(if stop_requested env w then Some (Inr (), w)
      else
        prog_bind get_context (\<lambda>context.
        prog_bind (prog_res (check_command_stream (re_http2 env) context)) (\<lambda>_.
        prog_bind (PumpFor (re_http2 env) kCommandPumpInterval) (\<lambda>_.
        prog_bind (handle_commands env config endpoint agent_id decoder) (\<lambda>decoder w.
          if stop_requested env w then Some (Inr (), w)
          else
            prog_bind (outside (h2_now (re_http2 env))) (\<lambda>now.
            prog_bind (if next_heartbeat \<le> now
                       then prog_bind (send_heartbeat env endpoint agent_id) (\<lambda>_.
                            prog_return (now + interval * 1000))
                       else prog_return next_heartbeat) (\<lambda>next_heartbeat w.
            loop env config endpoint agent_id interval decoder next_heartbeat w)) w)))) w) = Some y"
  then show "stops env y"
    unfolding stops_def by (cases y) (auto split: if_splits elim!: prog_bind_InrE)
qed


lemma Close_run [simp]: "Close w = Some (Inr (), w\<lparr>mc_rest := (mc_rest w)\<lparr>aw_context := new_context\<rparr>\<rparr>)"
  by (simp add: Close_def change_context_def)

lemma stop_requested_context [simp]:
  "stop_requested env (w\<lparr>mc_rest := (mc_rest w)\<lparr>aw_context := cx\<rparr>\<rparr>) = stop_requested env w"
  by (simp add: stop_requested_def)

definition closed_down :: "('y, 'c, 'd, 'i, 't) runtime_env \<Rightarrow> unit result \<times> 'y agent_world machine \<Rightarrow> bool" where
  "closed_down env answer \<longleftrightarrow> fst answer = Inr () \<and> stop_requested env (snd answer) \<and>
     aw_context (mc_rest (snd answer)) = new_context"

lemma connection_stops:
  assumes "connection env config endpoint agent_id interval w = Some (Inr x, w')"
  shows "closed_down env (Inr (), w')"
  using assms serve_stops [of env config endpoint agent_id interval]
  by (fastforce simp: connection_def closed_down_def stops_def elim!: prog_bind_InrE split: if_splits)

lemma outside_bind:
  "prog_bind (outside g) f w =
     f (fst (g (aw_rest (mc_rest w)))) (w\<lparr>mc_rest := (mc_rest w)\<lparr>aw_rest := snd (g (aw_rest (mc_rest w)))\<rparr>\<rparr>)"
  by (simp add: outside_def prog_bind_def split: prod.split)

lemma sleep_until_quiet:
  assumes "sleep_until env deadline w = Some y"
  shows "fst y = Inr ()"
proof (rule sleep_until.raw_induct [OF _ assms, where P = "\<lambda>env deadline w y. fst y = Inr ()"])
  fix loop env deadline w y
  assume IH: "\<And>env deadline w y. loop env deadline w = Some y \<Longrightarrow> fst y = Inr ()"
    and body: "prog_bind (outside (h2_now (re_http2 env))) (\<lambda>now w.
       if now < deadline \<and> \<not> stop_requested env w
       then prog_bind (outside (h2_now (re_http2 env))) (\<lambda>now.
            prog_bind (outside (\<lambda>y. ((), h2_sleep (re_http2 env) (min (deadline - now) kStopPollInterval) y)))
              (\<lambda>_ w. loop env deadline w)) w
       else Some (Inr (), w)) w = Some y"
  show "fst y = Inr ()"
    using body by (auto simp: outside_bind split: if_splits dest: IH)
qed

lemma SleepUntilStop_answer:
  assumes "SleepUntilStop env seconds w = Some (r, w')"
  shows "r = Inr (\<not> stop_requested env w')"
  using assms unfolding SleepUntilStop_def outside_bind
  by (auto simp: prog_bind_def split: option.splits prod.splits sum.splits dest!: sleep_until_quiet)

lemma reconnect_closes_down:
  assumes "reconnect env config endpoint agent_id backoff w = Some y"
  shows "closed_down env y"
proof (rule reconnect.raw_induct [OF _ assms, where P = "\<lambda>env config endpoint agent_id backoff w y. closed_down env y"])
  fix loop env config endpoint agent_id backoff w y
  assume IH: "\<And>env config endpoint agent_id backoff w y.
      loop env config endpoint agent_id backoff w = Some y \<Longrightarrow> closed_down env y"
    and body: "(if stop_requested env w then Close w
      else case connection env config endpoint agent_id (uint (heartbeat_interval config)) w of
        None \<Rightarrow> None
      | Some (Inr _, w) \<Rightarrow> Some (Inr (), w)
      | Some (Inl ex, w) \<Rightarrow>
          prog_bind Close (\<lambda>_.
          prog_bind (SleepUntilStop env backoff) (\<lambda>running w.
          if running
          then loop env config endpoint agent_id (next_backoff (max_backoff config) backoff) w
          else Close w)) w) = Some y"
  show "closed_down env y"
  proof (cases "stop_requested env w")
    case True
    then show ?thesis
      using body by (auto simp: closed_down_def)
  next
    case False
    then obtain r w1 where conn: "connection env config endpoint agent_id (uint (heartbeat_interval config)) w = Some (r, w1)"
      using body by (cases "connection env config endpoint agent_id (uint (heartbeat_interval config)) w") auto
    show ?thesis
    proof (cases r)
      case (Inr x)
      then show ?thesis
        using False body conn connection_stops by fastforce
    next
      case (Inl ex)
      let ?w2 = "w1\<lparr>mc_rest := (mc_rest w1)\<lparr>aw_context := new_context\<rparr>\<rparr>"
      have rest: "prog_bind (SleepUntilStop env backoff) (\<lambda>running w.
          if running
          then loop env config endpoint agent_id (next_backoff (max_backoff config) backoff) w
          else Close w) ?w2 = Some y"
        using False body conn Inl by (simp add: prog_bind_def)
      then obtain slept w3 where "SleepUntilStop env backoff ?w2 = Some (slept, w3)"
        by (cases "SleepUntilStop env backoff ?w2") (auto simp: prog_bind_def)
      with SleepUntilStop_answer [OF this] rest IH show ?thesis
        by (auto simp: prog_bind_def closed_down_def split: if_splits)
    qed
  qed
qed

text \<open>
  C14: The agent runs until it is asked to stop.  When \<open>Run\<close> returns, a stop was requested and the
  connection is closed, and the identity it reports is the one of the state file; it ends with an
  exception only when the state cannot be loaded or created or when the control URL is not one.  No
  failure of the network, of the server or of a task ends it.
\<close>

theorem agent_runs_until_stopped:
  assumes "Run_agent env config w = Some (r, w')"
  shows "case r of
      Inr outcome \<Rightarrow> stop_requested env w' \<and> aw_context (mc_rest w') = new_context \<and>
        run_result_heartbeat_count outcome = aw_heartbeat_count (mc_rest w') \<and>
        (\<exists>w1. load_state env (StatePathFor config) w = Some (Inr (run_result_agent_id outcome), w1))
    | Inl ex \<Rightarrow> load_state env (StatePathFor config) w = Some (Inl ex, w') \<or>
        ParseControlUrl (ac_control_url config) = Inl ex"
proof -
  obtain state w1 where state: "load_state env (StatePathFor config) w = Some (state, w1)"
    using assms by (cases "load_state env (StatePathFor config) w") (auto simp: Run_agent_def prog_bind_def)
  consider (bad_state) ex where "state = Inl ex"
    | (bad_url) id ex where "state = Inr id" "ParseControlUrl (ac_control_url config) = Inl ex"
    | (running) id endpoint where "state = Inr id" "ParseControlUrl (ac_control_url config) = Inr endpoint"
    by (cases state; cases "ParseControlUrl (ac_control_url config)") auto
  then show ?thesis
  proof cases
    case running
    then show ?thesis
      using assms state
      by (auto simp: Run_agent_def prog_bind_def closed_down_def split: option.splits prod.splits sum.splits
          dest!: reconnect_closes_down)
  qed (use assms state in \<open>auto simp: Run_agent_def prog_bind_def\<close>)
qed


subsection \<open>The protocol of a task\<close>

text \<open>An event that was posted on its own, and that the server accepted.\<close>

definition posted ::
    "('y, 'c, 'd, 'i, 't) runtime_env \<Rightarrow> control_endpoint \<Rightarrow> agent_event \<Rightarrow>
       'y agent_world machine \<Rightarrow> 'y agent_world machine \<Rightarrow> bool" where
  "posted env endpoint event w w' \<longleftrightarrow>
     (\<exists>body response. BuildEnvelopeBody (re_wire env) [event] = Inr body \<and>
        PostEvents (re_http2 env) endpoint body w = Some (Inr response, w') \<and> hr_status response = ''200'')"

lemma post_accepted_posted:
  assumes "post_accepted env endpoint [event] rejection w = Some (Inr x, w')"
  shows "posted env endpoint event w w'"
  using assms
  by (cases "BuildEnvelopeBody (re_wire env) [event]")
    (auto simp: post_accepted_def posted_def elim!: prog_bind_InrE split: if_splits)

lemma BuildTaskRunningEvent_run:
  assumes "BuildTaskRunningEvent env agent_id t w = Some (Inr event, w')"
  obtains running where "event = EvTaskRunning running" "run_task_id running = task_task_id t"
    "run_agent_id running = agent_id" "run_task_type running = task_task_type t"
  using assms unfolding BuildTaskRunningEvent_def outside_bind by auto

text \<open>What the result of a task says about its execution.\<close>

definition reports :: "string \<Rightarrow> task \<Rightarrow> task_result \<Rightarrow> bool" where
  "reports agent_id t result \<longleftrightarrow>
     res_task_id result = task_task_id t \<and> res_agent_id result = agent_id \<and>
     res_task_type result = task_task_type t \<and>
     (res_status result = TE_succeeded \<and> res_error result = None \<or>
      res_status result = TE_failed \<and> res_error result \<noteq> None)"

lemma execute_task_run:
  assumes "execute_task env config agent_id t w = Some (Inr (event, stop), w')"
  obtains result where "event = EvTaskResult result" "reports agent_id t result"
    "stop \<longrightarrow> task_task_type t = TT_package_update \<and> res_status result = TE_succeeded"
proof (cases "task_task_type t")
  case TT_collect_basic_inventory
  with assms that show ?thesis
    unfolding execute_task_def BuildTaskSucceededEvent_def outside_bind prog_bind_assoc
    by (auto simp: reports_def elim!: prog_bind_InrE)
next
  case TT_package_update
  with assms obtain input execution w1 where
    "BuildPackageUpdateResultEvent env agent_id t execution w1 = Some (Inr event, w')"
    "stop = (ue_ok execution \<and> ue_stop_agent execution)" "task_input_data t = PackageUpdateInput input"
    by (auto simp: execute_task_def elim!: prog_bind_InrE split: task_input.splits)
  with TT_package_update that show ?thesis
    unfolding BuildPackageUpdateResultEvent_def outside_bind prog_bind_assoc
    by (cases "ue_ok execution") (auto simp: reports_def outside_bind)
qed

text \<open>
  C3: The protocol of a task.  When the agent has carried out a task command, it first posted that
  the task runs and was answered 200, then executed the task, and then posted a result that was
  answered 200 as well.  Both events name the task, its type and this agent; the result is either a
  success without an error or a failure with one, so that the server can decode it; and the agent
  asks itself to stop exactly after an update that succeeded and replaced the agent, once the server
  has the result.
\<close>

theorem task_protocol:
  assumes "handle_command env config endpoint agent_id command w = Some (Inr x, w')"
    and "sc_payload command = CmdTask t"
  shows "\<exists>running result stop w1 w2 w3 w4 received.
    posted env endpoint (EvTaskRunning running) w1 w2 \<and>
    run_task_id running = task_task_id t \<and> run_agent_id running = agent_id \<and>
    run_task_type running = task_task_type t \<and>
    execute_task env config agent_id t w2 = Some (Inr (EvTaskResult result, stop), w3) \<and>
    reports agent_id t result \<and> norm_event (EvTaskResult result) = Inr received \<and>
    posted env endpoint (EvTaskResult result) w3 w4 \<and>
    (stop \<longrightarrow> task_task_type t = TT_package_update \<and> res_status result = TE_succeeded) \<and>
    w' = (if stop then w4\<lparr>mc_rest := (mc_rest w4)\<lparr>aw_stop := True\<rparr>\<rparr> else w4)"
proof -
  obtain event w1 w2 result_event stop w3 w4 where
    running: "BuildTaskRunningEvent env agent_id t w = Some (Inr event, w1)"
    and first: "posted env endpoint event w1 w2"
    and exec: "execute_task env config agent_id t w2 = Some (Inr (result_event, stop), w3)"
    and second: "posted env endpoint result_event w3 w4"
    and stopped: "w' = (if stop then w4\<lparr>mc_rest := (mc_rest w4)\<lparr>aw_stop := True\<rparr>\<rparr> else w4)"
    using assms
    by (auto simp: handle_command_def RequestStop_def elim!: prog_bind_InrE dest!: post_accepted_posted
        split: if_splits)
  obtain result where result: "result_event = EvTaskResult result" "reports agent_id t result"
    "stop \<longrightarrow> task_task_type t = TT_package_update \<and> res_status result = TE_succeeded"
    by (rule execute_task_run [OF exec])
  obtain received where "norm_event (EvTaskResult result) = Inr received"
    using result(2) by (auto simp: reports_def norm_task_result_def)
  moreover obtain r where "event = EvTaskRunning r" "run_task_id r = task_task_id t"
    "run_agent_id r = agent_id" "run_task_type r = task_task_type t"
    by (rule BuildTaskRunningEvent_run [OF running])
  ultimately show ?thesis
    using first exec second stopped result
    by (intro exI [of _ r] exI [of _ result] exI [of _ stop] exI [of _ w1] exI [of _ w2] exI [of _ w3]
        exI [of _ w4] exI [of _ received]) simp
qed


subsection \<open>The agent's events reach the server\<close>

lemma BuildEnvelopeBody_frames:
  assumes "BuildEnvelopeBody wire events = Inr body"
  obtains payloads frames where "map_res (EncodeAgentEventPayload wire) events = Inr payloads"
    "map_res EncodeFrame payloads = Inr frames" "body = concat frames"
  using assms
proof (induction events arbitrary: body thesis)
  case (Cons event events)
  from Cons.prems(2) obtain payload fr rest where
    head: "EncodeAgentEventPayload wire event = Inr payload" "EncodeFrame payload = Inr fr"
    and rest: "BuildEnvelopeBody wire events = Inr rest" "body = fr @ rest"
    by (auto simp: bind_res_Inr_iff)
  from rest(1) obtain payloads frames where "map_res (EncodeAgentEventPayload wire) events = Inr payloads"
    "map_res EncodeFrame payloads = Inr frames" "rest = concat frames"
    by (rule Cons.IH [rotated])
  with head rest(2) show ?case
    by (intro Cons.prems(1) [of "payload # payloads" "fr # frames"]) (simp_all add: bind_res_def)
qed simp

lemma map_res_member:
  "map_res f xs = Inr ys \<Longrightarrow> y \<in> set ys \<Longrightarrow> \<exists>x\<in>set xs. f x = Inr y"
  by (induction xs arbitrary: ys) (auto simp: bind_res_Inr_iff)

subsection \<open>An agent whose server refuses connections\<close>

definition refusing_http2 :: "int http2_api" where
  "refusing_http2 = demo_http2\<lparr>h2_connect := (\<lambda>host port y. (Inl (Runtime_error ''refused''), y)),
     h2_sleep := (\<lambda>n y. y + max 0 n + 1000)\<rparr>"

definition no_network :: "'x http_api" where
  "no_network =
     \<lparr>ha_open = (\<lambda>endpoint agent. prog_throw (Runtime_error ''unreachable'')), ha_is_done = (\<lambda>w. True),
      ha_read = (\<lambda>w. ((Need_buffer, []), w)), ha_result_int = (\<lambda>w. 0)\<rparr>"

definition demo_runtime ::
    "int http2_api \<Rightarrow> int \<Rightarrow> ('d, 'i) zlib \<Rightarrow> (int, u8 list, 'd, 'i, string \<times> string) runtime_env" where
  "demo_runtime api stop_at zl =
     \<lparr>re_agent = \<lparr>ae_os = demo_os, ae_process = no_processes, ae_http = no_network,
                  ae_digest = demo_digest_lib, ae_zlib = zl\<rparr>,
      re_http2 = api, re_wire = demo_wire\<lparr>w_ser_agent_event := (\<lambda>m. Some ''E'')\<rparr>,
      re_toml = demo_toml (state_document ''u''), re_uuid = (\<lambda>y. (''r'', y)), re_utc_now = (\<lambda>y. (''t'', y)),
      re_version = ''0.1.0'', re_stop_signal = (\<lambda>y. stop_at \<le> y)\<rparr>"

definition demo_endpoint :: control_endpoint where
  "demo_endpoint = \<lparr>ce_host = ''h'', ce_authority = ''h'', ce_port = 1\<rparr>"

definition demo_agent :: "int agent_world machine" where
  "demo_agent =
     \<lparr>mc_files = Map.empty([''s''] \<mapsto> Regular_file [] False),
      mc_rest = \<lparr>aw_context = new_context, aw_stop = False, aw_heartbeat_count = 0, aw_rest = 0\<rparr>\<rparr>"

lemma refusing_clock: "agent_clock refusing_http2 id"
  by (simp add: agent_clock_def refusing_http2_def demo_http2_def)

lemma demo_runtime_simps [simp]:
  "re_agent (demo_runtime api stop_at zl) = \<lparr>ae_os = demo_os, ae_process = no_processes, ae_http = no_network,
     ae_digest = demo_digest_lib, ae_zlib = zl\<rparr>"
  "re_http2 (demo_runtime api stop_at zl) = api" "re_version (demo_runtime api stop_at zl) = ''0.1.0''"
  "re_uuid (demo_runtime api stop_at zl) = (\<lambda>y. (''r'', y))" "re_utc_now (demo_runtime api stop_at zl) = (\<lambda>y. (''t'', y))"
  "re_toml (demo_runtime api stop_at zl) = demo_toml (state_document ''u'')"
  "re_stop_signal (demo_runtime api stop_at zl) = (\<lambda>y. stop_at \<le> y)"
  by (simp_all add: demo_runtime_def)

lemma refusing_http2_simps [simp]:
  "h2_connect refusing_http2 host port = (\<lambda>y. (Inl (Runtime_error ''refused''), y))"
  "h2_sleep refusing_http2 n = (\<lambda>y. y + max 0 n + 1000)" "h2_now refusing_http2 = (\<lambda>y. (y, y))"
  by (simp_all add: refusing_http2_def demo_http2_def)

lemma demo_http2_simps [simp]:
  "h2_submit_request demo_http2 headers body = (\<lambda>y. (3, y))" "h2_session_send demo_http2 rc cx = (\<lambda>y. ((0, cx), y))"
  "h2_read_some demo_http2 = (\<lambda>y. (Bytes_read [1], y + 1))"
  "h2_mem_recv demo_http2 bytes = (\<lambda>y. ((1, [On_data_chunk 1 bytes, On_header 3 HEADERS_frame True '':status'' ''200'',
     On_stream_close 3 0]), y))"
  by (simp_all add: demo_http2_def)

lemma client_bind_simps [simp]:
  "prog_bind get_context f w = f (aw_context (mc_rest w)) w"
  "prog_bind (change_context g) f' w = f' () (w\<lparr>mc_rest := (mc_rest w)\<lparr>aw_context := g (aw_context (mc_rest w))\<rparr>\<rparr>)"
  "prog_bind (prog_ask h) k w = k (h w) w" "prog_bind (\<lambda>a. Some (Inr x, a)) k' = k' x"
  by (simp_all add: get_context_def change_context_def prog_bind_def fun_eq_iff)

lemmas client_runs = outside_bind outside_res_def

lemma demo_sleep_until:
  assumes "\<not> aw_stop (mc_rest w)" "aw_rest (mc_rest w) = 0" "0 < stop_at"
  shows "sleep_until (demo_runtime refusing_http2 stop_at zl) 1000 w =
    Some (Inr (), w\<lparr>mc_rest := (mc_rest w)\<lparr>aw_rest := 1050\<rparr>\<rparr>)"
proof -
  let ?w = "w\<lparr>mc_rest := (mc_rest w)\<lparr>aw_rest := 1050\<rparr>\<rparr>"
  have "sleep_until (demo_runtime refusing_http2 stop_at zl) 1000 ?w = Some (Inr (), ?w)"
    by (subst sleep_until.simps) (simp add: client_runs)
  with assms show ?thesis
    by (subst sleep_until.simps) (simp add: client_runs stop_requested_def kStopPollInterval_def)
qed

lemma demo_sleep:
  assumes "\<not> aw_stop (mc_rest w)" "aw_rest (mc_rest w) = 0" "0 < stop_at"
  shows "SleepUntilStop (demo_runtime refusing_http2 stop_at zl) 1 w =
    Some (Inr (1050 < stop_at), w\<lparr>mc_rest := (mc_rest w)\<lparr>aw_rest := 1050\<rparr>\<rparr>)"
  using assms demo_sleep_until [of "w\<lparr>mc_rest := (mc_rest w)\<lparr>aw_rest := 0\<rparr>\<rparr>" stop_at zl]
  by (simp add: SleepUntilStop_def client_runs stop_requested_def prog_bind_run not_le)

lemma demo_refused:
  assumes "\<not> cx_socket_open (aw_context (mc_rest w))"
  shows "connection (demo_runtime refusing_http2 stop_at zl) config endpoint agent_id interval w =
    Some (Inl (Runtime_error ''refused''), w)"
  using assms
  by (simp add: connection_def Connect_def connected_def client_runs)

definition demo_answered :: response_state where
  "demo_answered = new_response\<lparr>rs_status := ''200'', rs_headers_received := True, rs_done := True,
     rs_close_error_code := Some 0\<rparr>"

lemma demo_pump_done:
  assumes "cx_responses (aw_context (mc_rest w)) 3 = Some demo_answered"
  shows "PumpUntilResponseDone demo_http2 3 w = Some (Inr (), w)"
  using assms
  by (subst PumpUntilResponseDone.simps) (simp add: demo_answered_def ThrowIfStreamReset_def)

definition demo_events :: "http2_context \<Rightarrow> http2_context" where
  "demo_events = apply_events [On_data_chunk 1 [1], On_header 3 HEADERS_frame True '':status'' ''200'',
                               On_stream_close 3 0]"

lemma demo_events_done:
  assumes "cx_responses cx 3 = Some new_response"
  shows "cx_responses (demo_events cx) 3 = Some demo_answered" "connected (demo_events cx) = connected cx"
  using assms
  by (auto simp: demo_events_def apply_events_def change_response_def demo_answered_def connected_def
      split: option.split)

lemma demo_pump:
  assumes "cx_responses (aw_context (mc_rest w)) 3 = Some new_response"
  shows "\<exists>w'. PumpUntilResponseDone demo_http2 3 w = Some (Inr (), w') \<and>
     cx_responses (aw_context (mc_rest w')) 3 = Some demo_answered \<and>
     connected (aw_context (mc_rest w')) = connected (aw_context (mc_rest w))"
proof -
  let ?w = "w\<lparr>mc_rest := (mc_rest w)\<lparr>aw_rest := aw_rest (mc_rest w) + 1, aw_context := demo_events (aw_context (mc_rest w))\<rparr>\<rparr>"
  have "PumpUntilResponseDone demo_http2 3 w = PumpUntilResponseDone demo_http2 3 ?w"
    using assms
    by (subst PumpUntilResponseDone.simps)
      (simp add: new_response_def PumpOnce_def Flush_def client_runs CheckNghttp2_def demo_events_def)
  then show ?thesis
    using assms demo_events_done [OF assms] demo_pump_done [of ?w] by auto
qed

lemma demo_post:
  assumes "connected (aw_context (mc_rest w))"
  shows "\<exists>w'. PostEvents demo_http2 endpoint body w = Some (Inr \<lparr>hr_status = ''200'', hr_body = []\<rparr>, w') \<and>
     connected (aw_context (mc_rest w'))"
proof -
  let ?cx = "(aw_context (mc_rest w))\<lparr>cx_request_body := Some \<lparr>bd_bytes = body, bd_offset = 0\<rparr>,
     cx_responses := (cx_responses (aw_context (mc_rest w)))(3 \<mapsto> new_response)\<rparr>"
  let ?w = "w\<lparr>mc_rest := (mc_rest w)\<lparr>aw_context := ?cx\<rparr>\<rparr>"
  obtain w1 where w1: "PumpUntilResponseDone demo_http2 3 ?w = Some (Inr (), w1)"
    "cx_responses (aw_context (mc_rest w1)) 3 = Some demo_answered" "connected (aw_context (mc_rest w1))"
    using demo_pump [of ?w] assms by (auto simp: connected_def)
  have "PostEvents demo_http2 endpoint body w = prog_bind (PumpUntilResponseDone demo_http2 3) (\<lambda>_.
     prog_bind get_context (\<lambda>context.
     case cx_responses context 3 of
       None \<Rightarrow> prog_throw (Runtime_error ''http2 response state missing'')
     | Some response \<Rightarrow>
         prog_bind (change_context (\<lambda>cx. cx\<lparr>cx_responses := (cx_responses cx)(3 := None),
                                          cx_request_body := None\<rparr>)) (\<lambda>_.
         prog_return \<lparr>hr_status = rs_status response, hr_body = rs_body response\<rparr>))) ?w"
    using assms
    by (simp add: PostEvents_def SubmitRequest_def EnsureConnected_def Flush_def client_runs CheckNghttp2_def
        cong: option.case_cong)
  then show ?thesis
    using w1 by (simp add: prog_bind_run demo_answered_def new_response_def connected_def)
qed


lemma demo_agent_simps [simp]:
  "aw_stop (mc_rest demo_agent) = False" "aw_rest (mc_rest demo_agent) = 0"
  "aw_context (mc_rest demo_agent) = new_context" "cx_socket_open new_context = False" "mc_files demo_agent = Map.empty([''s''] \<mapsto> Regular_file [] False)"
  by (simp_all add: demo_agent_def new_context_def)

lemma demo_closed [simp]: "demo_agent\<lparr>mc_rest := (mc_rest demo_agent)\<lparr>aw_context := new_context\<rparr>\<rparr> = demo_agent"
  by (simp add: demo_agent_def)

lemma demo_failed_attempt:
  "failed_attempt (demo_runtime refusing_http2 9000 zl) default_config demo_endpoint ''a'' (1, demo_agent)
     (2, demo_agent\<lparr>mc_rest := (mc_rest demo_agent)\<lparr>aw_rest := 1050\<rparr>\<rparr>)"
proof -
  have "next_backoff (max_backoff default_config) 1 = 2"
    by (simp add: next_backoff_def max_backoff_def initial_backoff_def default_config_def)
  moreover have "failed_attempt (demo_runtime refusing_http2 9000 zl) default_config demo_endpoint ''a'' (1, demo_agent)
     (next_backoff (max_backoff default_config) 1, demo_agent\<lparr>mc_rest := (mc_rest demo_agent)\<lparr>aw_rest := 1050\<rparr>\<rparr>)"
    by (rule attempt [where ?w1.0 = demo_agent and ?w2.0 = demo_agent])
      (simp_all add: stop_requested_def demo_refused demo_sleep)
  ultimately show ?thesis
    by simp
qed

theorem reconnect_delays_witness:
  "unat (2 :: u32) = min (unat (initial_backoff default_config) * 2 ^ 1) (unat (max_backoff default_config)) \<and>
   reconnect (demo_runtime refusing_http2 9000 demo_zlib) default_config demo_endpoint ''a'' (initial_backoff default_config)
     demo_agent =
   reconnect (demo_runtime refusing_http2 9000 demo_zlib) default_config demo_endpoint ''a'' 2
     (demo_agent\<lparr>mc_rest := (mc_rest demo_agent)\<lparr>aw_rest := 1050\<rparr>\<rparr>)"
proof -
  have "initial_backoff default_config = 1" and limit: "unat (max_backoff default_config) < 2 ^ 31"
    by (simp_all add: max_backoff_def initial_backoff_def default_config_def)
  then have "(failed_attempt (demo_runtime refusing_http2 9000 demo_zlib) default_config demo_endpoint ''a'' ^^ 1)
      (initial_backoff default_config, demo_agent) (2, demo_agent\<lparr>mc_rest := (mc_rest demo_agent)\<lparr>aw_rest := 1050\<rparr>\<rparr>)"
    unfolding relpowp_1 using demo_failed_attempt [of demo_zlib] by simp
  from reconnect_delays [OF this limit] show ?thesis
    by blast
qed

theorem sleep_ends_witness:
  "\<exists>running w'. SleepUntilStop (demo_runtime refusing_http2 9000 demo_zlib) 3 demo_agent = Some (Inr running, w') \<and>
     running = (\<not> stop_requested (demo_runtime refusing_http2 9000 demo_zlib) w') \<and>
     (\<not> running \<or> 3000 \<le> aw_rest (mc_rest w'))"
  using sleep_ends [of "demo_runtime refusing_http2 9000 demo_zlib" id 3 demo_agent] refusing_clock
  by (auto simp: demo_agent_def)

lemma demo_task_posted:
  assumes "connected (aw_context (mc_rest w))"
  shows "\<exists>w'. post_accepted (demo_runtime demo_http2 9000 zl) endpoint [event] rejection w = Some (Inr (), w') \<and>
    connected (aw_context (mc_rest w'))"
proof -
  have "BuildEnvelopeBody (re_wire (demo_runtime demo_http2 9000 zl)) [event] = Inr [0, 0, 0, 1, 69]"
    by (simp add: demo_runtime_def EncodeAgentEventPayload_def SerializeAgentEventBlob_def SerializeProto_def
        bytes_of_string_def EncodeFrame_def length_prefix_def bind_res_def)
  moreover obtain w' where "PostEvents demo_http2 endpoint [0, 0, 0, 1, 69] w =
      Some (Inr \<lparr>hr_status = ''200'', hr_body = []\<rparr>, w')" "connected (aw_context (mc_rest w'))"
    using demo_post [OF assms] by blast
  ultimately show ?thesis
    by (simp add: post_accepted_def prog_bind_run)
qed

definition inventory_task :: task where
  "inventory_task =
     \<lparr>task_protocol_version = ''v1'', task_task_id = ''k'', task_agent_id = ''a'',
      task_task_type = TT_collect_basic_inventory, task_capability_level = CL_readonly, task_created_at = [],
      task_expires_at = [], task_input_data = CollectBasicInventoryInput\<rparr>"

definition inventory_command :: server_command where
  "inventory_command = demo_command\<lparr>sc_payload := CmdTask inventory_task\<rparr>"

lemma demo_handled:
  "\<exists>w'. handle_command (demo_runtime demo_http2 9000 zl) config endpoint ''a'' inventory_command demo_client =
     Some (Inr (), w')"
proof -
  let ?env = "demo_runtime demo_http2 9000 zl"
  have c: "connected (aw_context (mc_rest (w\<lparr>mc_rest := (mc_rest w)\<lparr>aw_rest := y\<rparr>\<rparr>))) = connected (aw_context (mc_rest w))"
    for w :: "int agent_world machine" and y by simp
  have "connected (aw_context (mc_rest demo_client))"
    by (simp add: demo_client_def connected_def new_context_def)
  then obtain e1 w1 where 1: "BuildTaskRunningEvent ?env ''a'' inventory_task demo_client = Some (Inr e1, w1)"
    "connected (aw_context (mc_rest w1))"
    by (simp add: BuildTaskRunningEvent_def client_runs)
  obtain w2 where 2: "post_accepted ?env endpoint [e1]
      ((@) ''task running event was rejected with status '') w1 = Some (Inr (), w2)"
      "connected (aw_context (mc_rest w2))"
    using demo_task_posted [OF 1(2)] by blast
  obtain e2 w3 where 3: "execute_task ?env config ''a'' inventory_task w2 = Some (Inr (e2, False), w3)"
      "connected (aw_context (mc_rest w3))"
    using 2(2) by (simp add: execute_task_def inventory_task_def BuildTaskSucceededEvent_def client_runs)
  obtain w4 where 4: "post_accepted ?env endpoint [e2]
      ((@) ''task result event was rejected with status '') w3 = Some (Inr (), w4)"
    using demo_task_posted [OF 3(2)] by blast
  show ?thesis
    using 1 2 3 4 by (simp add: handle_command_def inventory_command_def prog_bind_run)
qed

theorem task_protocol_witness:
  "\<exists>running result stop w1 w2 w3 w4.
     posted (demo_runtime demo_http2 9000 demo_zlib) demo_endpoint (EvTaskRunning running) w1 w2 \<and>
     run_task_id running = ''k'' \<and> reports ''a'' inventory_task result \<and>
     posted (demo_runtime demo_http2 9000 demo_zlib) demo_endpoint (EvTaskResult result) w3 w4 \<and> \<not> stop"
proof -
  obtain w' where "handle_command (demo_runtime demo_http2 9000 demo_zlib) default_config demo_endpoint ''a''
      inventory_command demo_client = Some (Inr (), w')"
    using demo_handled by blast
  moreover have "sc_payload inventory_command = CmdTask inventory_task"
    by (simp add: inventory_command_def)
  moreover have "task_task_id inventory_task = ''k''" "task_task_type inventory_task = TT_collect_basic_inventory"
    by (simp_all add: inventory_task_def)
  ultimately show ?thesis
    using task_protocol [of "demo_runtime demo_http2 9000 demo_zlib" default_config demo_endpoint "''a''" inventory_command
        demo_client "()" w' inventory_task] by fastforce
qed

definition demo_settings :: agent_config where
  "demo_settings = default_config\<lparr>ac_control_url := ''h:1'', ac_state_path := ''/s''\<rparr>"

lemma demo_state_loaded:
  "load_state (demo_runtime refusing_http2 500 zl) (StatePathFor demo_settings) demo_agent = Some (Inr ''u'', demo_agent)"
proof -
  have path: "StatePathFor demo_settings = ''/s''"
    by code_simp
  have "fs_exists demo_os (mc_files demo_agent) ''/s'' = Inr True"
    by (simp add: fs_exists_def fs_status_def node_status_def locate_def is_absolute_def path_names_def node_at_def)
  moreover have "LoadOrCreateState (demo_toml (state_document ''u'')) demo_os [] ''/s'' (mc_files demo_agent) =
      (Inr ''u'', mc_files demo_agent)"
    using calculation
    by (simp add: LoadOrCreateState_def act_bind_def parse_state_def ParseTomlFileOrThrow_def demo_toml_def
        demo_field_def state_document_def read_file_def node_status_def locate_def is_absolute_def path_names_def node_at_def)
  ultimately show ?thesis
    unfolding path load_state_def
    by (simp add: prog_bind_def prog_act_def)
qed

lemma demo_url: "ParseControlUrl ''h:1'' = Inr \<lparr>ce_host = ''h'', ce_authority = ''h:1'', ce_port = 1\<rparr>"
proof -
  have "decimal 1 = ''1''"
    by (subst decimal.simps) (simp add: char_of_def bit_iff_odd)
  moreover from this have "stoul ''1'' = Inr 1"
    using stoul_decimal [of 1] by simp
  ultimately show ?thesis
    by (simp add: ParseControlUrl_def StripHttpScheme_def Let_def checked_def)
qed

lemma demo_run:
  "\<exists>w'. Run_agent (demo_runtime refusing_http2 500 zl) demo_settings demo_agent =
     Some (Inr \<lparr>run_result_agent_id = ''u'', run_result_heartbeat_count = 0\<rparr>, w')"
proof -
  have run: "reconnect (demo_runtime refusing_http2 500 zl) demo_settings e ''u'' 1 demo_agent =
      Some (Inr (), demo_agent\<lparr>mc_rest := (mc_rest demo_agent)\<lparr>aw_rest := 1050\<rparr>\<rparr>)" for e
  proof -
    have close: "Close demo_agent = Some (Inr (), demo_agent)"
      by (simp add: demo_agent_def)
    have sleep: "SleepUntilStop (demo_runtime refusing_http2 500 zl) 1 demo_agent =
        Some (Inr False, demo_agent\<lparr>mc_rest := (mc_rest demo_agent)\<lparr>aw_rest := 1050\<rparr>\<rparr>)"
      by (simp add: demo_sleep)
    show ?thesis
      by (simp add: reconnect.simps [of _ demo_settings e "''u''" 1 demo_agent] stop_requested_def demo_refused
          prog_bind_run(1) [where m = Close, OF close]
          prog_bind_run(1) [where m = "SleepUntilStop (demo_runtime refusing_http2 500 zl) 1", OF sleep] del: Close_run) (simp add: demo_agent_def)
  qed
  have "prog_bind (reconnect (demo_runtime refusing_http2 500 zl) demo_settings e ''u'' 1) k demo_agent =
      k () (demo_agent\<lparr>mc_rest := (mc_rest demo_agent)\<lparr>aw_rest := 1050\<rparr>\<rparr>)" for e and k :: "unit \<Rightarrow> (int, runtime_result) client"
    by (rule prog_bind_run(1)) (rule run)
  moreover have "initial_backoff demo_settings = 1" "ac_control_url demo_settings = ''h:1''"
    by (simp_all add: initial_backoff_def demo_settings_def default_config_def)
  moreover have "demo_agent\<lparr>mc_rest := (mc_rest demo_agent)\<lparr>aw_heartbeat_count := 0\<rparr>\<rparr> = demo_agent"
    by (simp add: demo_agent_def)
  ultimately show ?thesis
    by (simp add: Run_agent_def demo_url demo_state_loaded prog_bind_run) (simp add: demo_agent_def)
qed

theorem agent_runs_until_stopped_witness:
  "\<exists>outcome w'. Run_agent (demo_runtime refusing_http2 500 demo_zlib) demo_settings demo_agent = Some (Inr outcome, w') \<and>
     run_result_agent_id outcome = ''u'' \<and> stop_requested (demo_runtime refusing_http2 500 demo_zlib) w'"
proof -
  obtain w' where run: "Run_agent (demo_runtime refusing_http2 500 demo_zlib) demo_settings demo_agent =
      Some (Inr \<lparr>run_result_agent_id = ''u'', run_result_heartbeat_count = 0\<rparr>, w')"
    using demo_run by blast
  from agent_runs_until_stopped [OF run] run show ?thesis
    by auto
qed

subsection \<open>A server that does not answer\<close>

text \<open>
  Waiting for a response has no time limit and does not look at the stop flag: while the connection
  stays open and nothing arrives, a post does not return.
\<close>

definition silent :: "'y http2_api \<Rightarrow> bool" where
  "silent api \<longleftrightarrow> (\<forall>y. fst (h2_read_some api y) = Would_block) \<and>
     (\<forall>rc cx y. fst (h2_session_send api rc cx y) = (0, cx))"

definition blocked :: "'y http2_api \<Rightarrow> int \<Rightarrow> 'y agent_world machine \<Rightarrow> bool" where
  "blocked api stream w \<longleftrightarrow> silent api \<and>
     (\<forall>response. cx_responses (aw_context (mc_rest w)) stream = Some response \<longrightarrow> \<not> rs_done response)"

lemma silent_server_blocks_the_agent:
  assumes "silent api"
    and "\<And>response. cx_responses (aw_context (mc_rest w)) stream = Some response \<Longrightarrow> \<not> rs_done response"
  shows "PumpUntilResponseDone api stream w = None"
proof -
  have "\<not> blocked api stream w" if "PumpUntilResponseDone api stream w = Some y" for y
  proof (rule PumpUntilResponseDone.raw_induct [OF _ that, where P = "\<lambda>api stream w y. \<not> blocked api stream w"])
    fix loop api stream w y
    assume IH: "\<And>api stream w y. loop api stream w = Some y \<Longrightarrow> \<not> blocked api stream w"
      and body: "(let response = cx_responses (aw_context (mc_rest w)) stream in
        if response \<noteq> None \<and> rs_done (the response)
        then prog_bind (prog_res (ThrowIfStreamReset api (the response) ''http2 response stream'')) (\<lambda>_.
             if \<not> rs_headers_received (the response)
             then prog_throw (Runtime_error ''http2 response stream closed before headers'')
             else prog_return ()) w
        else prog_bind (PumpOnce api) (\<lambda>_. prog_bind (Flush api) (\<lambda>_ w. loop api stream w)) w) = Some y"
    show "\<not> blocked api stream w"
    proof
      assume blocked: "blocked api stream w"
      then have quiet: "fst (h2_read_some api a) = Would_block" "fst (h2_session_send api rc cx a) = (0, cx)" for a rc cx
        by (auto simp: blocked_def silent_def)
      have waiting: "(cx_responses (aw_context (mc_rest w)) stream \<noteq> None \<and>
          rs_done (the (cx_responses (aw_context (mc_rest w)) stream))) = False"
        using blocked by (auto simp: blocked_def)
      have "\<exists>y'. loop api stream (w\<lparr>mc_rest := (mc_rest w)\<lparr>aw_rest := y'\<rparr>\<rparr>) = Some y"
        using body unfolding Let_def waiting if_False PumpOnce_def Flush_def
        by (auto simp: client_runs quiet CheckNghttp2_def)
      then obtain y' where "loop api stream (w\<lparr>mc_rest := (mc_rest w)\<lparr>aw_rest := y'\<rparr>\<rparr>) = Some y"
        by blast
      from IH [OF this] blocked show False
        by (auto simp: blocked_def)
    qed
  qed
  with assms show ?thesis
    by (cases "PumpUntilResponseDone api stream w") (auto simp: blocked_def)
qed

end
