(* ===== verification/Program_Logic.thy ===== *)
theory Program_Logic
  imports Machine
begin

section \<open>Weakest preconditions of programs\<close>

text \<open>
  Programs on a machine are verified with a weakest precondition: it has a postcondition for the result
  and one for an exception, and a program that does not return satisfies both.  A property of the world
  that a program preserves, on every path, is shown by one rule per construct.
\<close>

definition wp ::
    "('x, 'a) prog \<Rightarrow> ('a \<Rightarrow> 'x machine \<Rightarrow> bool) \<Rightarrow> ('x machine \<Rightarrow> bool) \<Rightarrow> 'x machine \<Rightarrow> bool" where
  "wp m Q E w =
     (case m w of
        None \<Rightarrow> True
      | Some (Inr x, w') \<Rightarrow> Q x w'
      | Some (Inl e, w') \<Rightarrow> E w')"

lemma wp_bind [simp]: "wp (prog_bind m f) Q E w = wp m (\<lambda>x. wp (f x) Q E) E w"
  by (auto simp: wp_def prog_bind_def split: option.splits prod.splits sum.splits)

lemma wp_catch: "wp m Q (\<lambda>w'. \<forall>e. wp (h e) Q E w') w \<Longrightarrow> wp (prog_catch m h) Q E w"
  by (cases "m w"; cases "fst (the (m w))") (auto simp: wp_def prog_catch_def)

lemma wp_simps [simp]:
  "wp (prog_return x) Q E w = Q x w"
  "wp (prog_res r) Q E w = (case r of Inl e \<Rightarrow> E w | Inr x \<Rightarrow> Q x w)"
  "wp (prog_throw e) Q E w = E w"
  by (auto simp: wp_def split: sum.splits)

lemma wp_mono:
  "\<lbrakk>wp m Q E w; \<And>x w'. Q x w' \<Longrightarrow> Q' x w'; \<And>w'. E w' \<Longrightarrow> E' w'\<rbrakk> \<Longrightarrow> wp m Q' E' w"
  by (auto simp: wp_def split: option.splits prod.splits sum.splits)

lemma wp_if: "\<lbrakk>b \<Longrightarrow> wp m Q E w; \<not> b \<Longrightarrow> wp n Q E w\<rbrakk> \<Longrightarrow> wp (if b then m else n) Q E w"
  by simp

lemma wp_run: "wp m Q E w \<Longrightarrow> m w = Some (Inr x, w') \<Longrightarrow> Q x w'"
  by (simp add: wp_def)

text \<open>A program preserves a property of the state, on every path.\<close>

definition preserves :: "('x \<Rightarrow> bool) \<Rightarrow> ('x, 'a) prog \<Rightarrow> bool" where
  "preserves I m = (\<forall>w. I (mc_rest w) \<longrightarrow> wp m (\<lambda>_ w'. I (mc_rest w')) (\<lambda>w'. I (mc_rest w')) w)"

lemma preservesI: "(\<And>w. I (mc_rest w) \<Longrightarrow> wp m (\<lambda>_ w'. I (mc_rest w')) (\<lambda>w'. I (mc_rest w')) w) \<Longrightarrow> preserves I m"
  by (simp add: preserves_def)

lemma preservesD:
  "\<lbrakk>preserves I m; I (mc_rest w); \<And>x w'. I (mc_rest w') \<Longrightarrow> Q x w'; \<And>w'. I (mc_rest w') \<Longrightarrow> E w'\<rbrakk> \<Longrightarrow> wp m Q E w"
  unfolding preserves_def by (blast intro: wp_mono)

lemma preserves_bind: "\<lbrakk>preserves I m; \<And>x. preserves I (f x)\<rbrakk> \<Longrightarrow> preserves I (prog_bind m f)"
  by (rule preservesI) (auto intro!: preservesD)

lemma preserves_pure: "preserves I (prog_return x)" "preserves J (prog_res r)"
  by (rule preservesI; simp split: sum.split)+

lemma preserves_if: "\<lbrakk>b \<Longrightarrow> preserves I m; \<not> b \<Longrightarrow> preserves I n\<rbrakk> \<Longrightarrow> preserves I (if b then m else n)"
  by simp

lemma preserves_option:
  "\<lbrakk>x = None \<Longrightarrow> preserves I m; \<And>y. x = Some y \<Longrightarrow> preserves I (n y)\<rbrakk>
   \<Longrightarrow> preserves I (case x of None \<Rightarrow> m | Some y \<Rightarrow> n y)"
  by (cases x) simp_all

lemma preserves_each: "(\<And>x. preserves I (f x)) \<Longrightarrow> preserves I (prog_each f xs)"
  by (induction xs) (simp_all add: preserves_bind preserves_pure)

lemma preserves_catch: "\<lbrakk>preserves I m; \<And>e. preserves I (h e)\<rbrakk> \<Longrightarrow> preserves I (prog_catch m h)"
  by (rule preservesI, rule wp_catch) (auto intro!: preservesD [where m = m] preservesD [where m = "h _"])

lemma preserves_throw: "preserves I (prog_throw e)"
  by (rule preservesI) simp

end
