(* ===== verification/Worker_Pool.thy ===== *)
theory Worker_Pool
  imports Control_Dispatcher "HOL-Library.Multiset"
begin

section \<open>apps/server: the pool that decodes events (ControlWorkerPool of control_server.cpp)\<close>

text \<open>
  The control server hands every chunk of a request body to a pool of threads.  A job is a chunk for
  a dispatcher; a worker takes the first job of the queue under the mutex of the pool, and runs it
  afterwards, under the mutex of the dispatcher.  Between the two steps the other workers go on.
  \<open>pl_ran\<close> lists the jobs in the order in which they were run.
\<close>

datatype 'j worker = Idle | Holding 'j | Returned

record 'j worker_pool =
  pl_queue :: "'j list"
  pl_stopping :: bool
  pl_workers :: "'j worker list"
  pl_ran :: "'j list"

definition new_pool :: "nat \<Rightarrow> 'j worker_pool" where
  "new_pool thread_count =
     \<lparr>pl_queue = [], pl_stopping = False,
      pl_workers = replicate (if thread_count = 0 then 1 else thread_count) Idle, pl_ran = []\<rparr>"

text \<open>The answer of \<open>Submit\<close>: whether the job was taken; otherwise its completion is posted with an error.\<close>

definition pool_submit :: "'j \<Rightarrow> 'j worker_pool \<Rightarrow> bool \<times> 'j worker_pool" where
  "pool_submit job p =
     (if pl_stopping p then (False, p) else (True, p\<lparr>pl_queue := pl_queue p @ [job]\<rparr>))"

text \<open>The body of \<open>RunWorker\<close> for worker \<open>i\<close>: \<open>None\<close> while the worker waits.\<close>

definition worker_take :: "nat \<Rightarrow> 'j worker_pool \<Rightarrow> 'j worker_pool option" where
  "worker_take i p =
     (case pl_queue p of
        [] \<Rightarrow> if pl_stopping p then Some (p\<lparr>pl_workers := (pl_workers p)[i := Returned]\<rparr>) else None
      | job # jobs \<Rightarrow> Some (p\<lparr>pl_queue := jobs, pl_workers := (pl_workers p)[i := Holding job]\<rparr>))"

definition worker_run :: "nat \<Rightarrow> 'j \<Rightarrow> 'j worker_pool \<Rightarrow> 'j worker_pool" where
  "worker_run i job p = p\<lparr>pl_workers := (pl_workers p)[i := Idle], pl_ran := pl_ran p @ [job]\<rparr>"

definition pool_stop :: "'j worker_pool \<Rightarrow> 'j worker_pool" where
  "pool_stop p = p\<lparr>pl_stopping := True\<rparr>"

text \<open>A run of the pool, with the jobs it accepted so far.\<close>

inductive pool_step :: "'j list \<times> 'j worker_pool \<Rightarrow> 'j list \<times> 'j worker_pool \<Rightarrow> bool" where
  submit: "pool_submit job p = (True, p') \<Longrightarrow> pool_step (js, p) (js @ [job], p')"
| refuse: "pool_submit job p = (False, p') \<Longrightarrow> pool_step (js, p) (js, p')"
| take_job: "\<lbrakk>i < length (pl_workers p); pl_workers p ! i = Idle; worker_take i p = Some p'\<rbrakk> \<Longrightarrow>
    pool_step (js, p) (js, p')"
| run_job: "\<lbrakk>i < length (pl_workers p); pl_workers p ! i = Holding job; p' = worker_run i job p\<rbrakk> \<Longrightarrow>
    pool_step (js, p) (js, p')"
| stop: "p' = pool_stop p \<Longrightarrow> pool_step (js, p) (js, p')"

abbreviation pool_runs :: "nat \<Rightarrow> 'j list \<Rightarrow> 'j worker_pool \<Rightarrow> bool" where
  "pool_runs n js p \<equiv> pool_step\<^sup>*\<^sup>* ([], new_pool n) (js, p)"

subsection \<open>Every job runs once\<close>

fun held_by :: "'j worker \<Rightarrow> 'j list" where
  "held_by (Holding job) = [job]"
| "held_by _ = []"

definition held :: "'j worker_pool \<Rightarrow> 'j list" where
  "held p = concat (map held_by (pl_workers p))"

lemma held_update:
  assumes "i < length ws"
  shows "mset (concat (map held_by (ws[i := x]))) + mset (held_by (ws ! i)) =
         mset (concat (map held_by ws)) + mset (held_by x)"
  using assms
proof (induction ws arbitrary: i)
  case (Cons a ws)
  then show ?case
    using Cons.IH [of "i - 1"] by (cases i) (auto simp: ac_simps)
qed simp

definition pool_ok :: "'j list \<Rightarrow> 'j worker_pool \<Rightarrow> bool" where
  "pool_ok js p \<longleftrightarrow> mset js = mset (pl_ran p) + mset (held p) + mset (pl_queue p) \<and>
     (Returned \<in> set (pl_workers p) \<longrightarrow> pl_stopping p \<and> pl_queue p = []) \<and>
     (length (pl_workers p) = 1 \<longrightarrow> js = pl_ran p @ held p @ pl_queue p)"


lemma pool_ok_step:
  assumes "pool_step s s'" "pool_ok (fst s) (snd s)"
  shows "pool_ok (fst s') (snd s')"
  using assms
proof (induction rule: pool_step.induct)
  case (submit job p p' js)
  then show ?case
    by (auto simp: pool_ok_def pool_submit_def held_def split: if_splits)
next
  case (refuse job p p' js)
  then show ?case
    by (auto simp: pool_submit_def split: if_splits)
next
  case (take_job i p p' js)
  then have ok: "pool_ok js p"
    by simp
  show ?case
  proof (cases "pl_queue p")
    case Nil
    with take_job have new: "pl_stopping p" "p' = p\<lparr>pl_workers := (pl_workers p)[i := Returned]\<rparr>"
      by (auto simp: worker_take_def split: if_splits)
    moreover have "js = pl_ran p @ held p'" if one: "length (pl_workers p) = 1"
    proof -
      obtain v where "pl_workers p = [v]"
        using one by (auto simp: length_Suc_conv)
      then show ?thesis
        using ok take_job new Nil by (auto simp: pool_ok_def held_def)
    qed
    ultimately show ?thesis
      using ok take_job Nil held_update [OF take_job(1), of Returned]
      by (auto simp: pool_ok_def held_def)
  next
    case (Cons job jobs)
    with take_job have new: "p' = p\<lparr>pl_queue := jobs, pl_workers := (pl_workers p)[i := Holding job]\<rparr>"
      by (simp add: worker_take_def)
    have "Returned \<notin> set ((pl_workers p)[i := Holding job])"
      using ok Cons set_update_subset_insert [of "pl_workers p" i "Holding job"]
      by (auto simp: pool_ok_def)
    moreover have "js = pl_ran p @ held p' @ jobs" if one: "length (pl_workers p) = 1"
    proof -
      obtain v where "pl_workers p = [v]"
        using one by (auto simp: length_Suc_conv)
      then show ?thesis
        using ok take_job new Cons by (auto simp: pool_ok_def held_def)
    qed
    ultimately show ?thesis
      using ok take_job new Cons held_update [OF take_job(1), of "Holding job"]
      by (auto simp: pool_ok_def held_def ac_simps)
  qed
next
  case (run_job i p job p' js)
  then have ok: "pool_ok js p"
    by simp
  have "Returned \<notin> set ((pl_workers p)[i := Idle])" if "Returned \<notin> set (pl_workers p)"
    using that set_update_subset_insert [of "pl_workers p" i Idle] by auto
  moreover have "js = pl_ran p @ job # held p' @ pl_queue p" if one: "length (pl_workers p) = 1"
  proof -
    obtain v where "pl_workers p = [v]"
      using one by (auto simp: length_Suc_conv)
    then show ?thesis
      using ok run_job by (auto simp: pool_ok_def held_def worker_run_def)
  qed
  ultimately show ?case
    using ok run_job held_update [OF run_job(1), of Idle]
    by (auto simp: pool_ok_def held_def worker_run_def ac_simps)
next
  case (stop p' p js)
  then show ?case
    by (auto simp: pool_ok_def pool_stop_def held_def)
qed

lemma pool_workers_step:
  "pool_step s s' \<Longrightarrow> length (pl_workers (snd s')) = length (pl_workers (snd s))"
  by (induction rule: pool_step.induct)
    (auto simp: pool_submit_def worker_take_def worker_run_def pool_stop_def split: if_splits list.splits)

lemma pool_runs_ok:
  assumes "pool_runs n js p"
  shows "pool_ok js p \<and> length (pl_workers p) = max 1 n"
proof -
  have "pool_ok (fst s) (snd s) \<and> length (pl_workers (snd s)) = max 1 n"
    if "pool_step\<^sup>*\<^sup>* ([], new_pool n) s" for s
    using that
  proof induction
    case base
    show ?case
      by (auto simp: pool_ok_def new_pool_def held_def concat_eq_Nil_conv)
  next
    case (step s t)
    then show ?case
      using pool_ok_step [of s t] pool_workers_step [of s t] by auto
  qed
  from this [OF assms] show ?thesis by simp
qed

text \<open>
  C39: The worker pool runs every accepted job exactly once.  However submissions, the threads and the
  stop interleave, the jobs accepted so far are those that were run, those a worker holds and those in
  the queue; when every worker has returned after the stop, all have been run.  With a single
  worker they are run in the order in which they were submitted.
\<close>

theorem pool_runs_every_job_once:
  assumes "pool_runs n js p"
  shows "mset js = mset (pl_ran p) + mset (held p) + mset (pl_queue p) \<and>
         (set (pl_workers p) = {Returned} \<longrightarrow> mset (pl_ran p) = mset js) \<and>
         (n \<le> 1 \<longrightarrow> js = pl_ran p @ held p @ pl_queue p)"
proof -
  note ok = pool_runs_ok [OF assms]
  have "held p = [] \<and> pl_queue p = []" if "set (pl_workers p) = {Returned}"
    using ok that by (auto simp: pool_ok_def held_def)
  with ok show ?thesis
    by (auto simp: pool_ok_def max_def split: if_splits)
qed


lemma one_worker_run:
  "pool_runs 1 [a, b] \<lparr>pl_queue = [b], pl_stopping = False, pl_workers = [Idle], pl_ran = [a]\<rparr>"
proof -
  have "pool_step\<^sup>*\<^sup>* ([], new_pool 1) ([], new_pool 1)"
    by simp
  also have "pool_step \<dots> ([] @ [a], \<lparr>pl_queue = [a], pl_stopping = False, pl_workers = [Idle], pl_ran = []\<rparr>)"
    by (rule pool_step.submit) (simp add: new_pool_def pool_submit_def)
  also have "pool_step \<dots> ([] @ [a], \<lparr>pl_queue = [], pl_stopping = False, pl_workers = [Holding a], pl_ran = []\<rparr>)"
    by (rule pool_step.take_job [of 0]) (simp_all add: worker_take_def)
  also have "pool_step \<dots> ([] @ [a], \<lparr>pl_queue = [], pl_stopping = False, pl_workers = [Idle], pl_ran = [a]\<rparr>)"
    by (rule pool_step.run_job [of 0 _ a]) (simp_all add: worker_run_def)
  also have "pool_step \<dots> (([] @ [a]) @ [b], \<lparr>pl_queue = [b], pl_stopping = False, pl_workers = [Idle], pl_ran = [a]\<rparr>)"
    by (rule pool_step.submit) (simp add: pool_submit_def)
  finally show ?thesis
    by simp
qed

theorem pool_runs_every_job_once_witness:
  "mset [1, 2 :: nat] = mset [1] + mset [] + mset [2] \<and> [1, 2] = [1] @ [] @ [2 :: nat]"
  using pool_runs_every_job_once [OF one_worker_run [of 1 2]] by (simp add: held_def)

text \<open>
  With two workers the order can change: both take a job, and the second gets to run first.  The jobs
  of one request are pieces of one stream of frames, so its decoder then reads frames that nobody
  sent.
\<close>

lemma two_workers_reorder:
  "pool_runs 2 [a, b] \<lparr>pl_queue = [], pl_stopping = False, pl_workers = [Idle, Idle], pl_ran = [b, a]\<rparr>"
proof -
  have "pool_step\<^sup>*\<^sup>* ([], new_pool 2) ([], new_pool 2)"
    by simp
  also have "pool_step \<dots>
      ([] @ [a], \<lparr>pl_queue = [a], pl_stopping = False, pl_workers = [Idle, Idle], pl_ran = []\<rparr>)"
    by (rule pool_step.submit) (simp add: new_pool_def pool_submit_def numeral_2_eq_2)
  also have "pool_step \<dots> (([] @ [a]) @ [b],
      \<lparr>pl_queue = [a, b], pl_stopping = False, pl_workers = [Idle, Idle], pl_ran = []\<rparr>)"
    by (rule pool_step.submit) (simp add: pool_submit_def)
  also have "pool_step \<dots> (([] @ [a]) @ [b],
      \<lparr>pl_queue = [b], pl_stopping = False, pl_workers = [Holding a, Idle], pl_ran = []\<rparr>)"
    by (rule pool_step.take_job [of 0]) (simp_all add: worker_take_def)
  also have "pool_step \<dots> (([] @ [a]) @ [b],
      \<lparr>pl_queue = [], pl_stopping = False, pl_workers = [Holding a, Holding b], pl_ran = []\<rparr>)"
    by (rule pool_step.take_job [of 1]) (simp_all add: worker_take_def)
  also have "pool_step \<dots> (([] @ [a]) @ [b],
      \<lparr>pl_queue = [], pl_stopping = False, pl_workers = [Holding a, Idle], pl_ran = [b]\<rparr>)"
    by (rule pool_step.run_job [of 1 _ b]) (simp_all add: worker_run_def)
  also have "pool_step \<dots> (([] @ [a]) @ [b],
      \<lparr>pl_queue = [], pl_stopping = False, pl_workers = [Idle, Idle], pl_ran = [b, a]\<rparr>)"
    by (rule pool_step.run_job [of 0 _ a]) (simp_all add: worker_run_def)
  finally show ?thesis
    by simp
qed

lemma reordered_chunks_are_rejected:
  "fst (run_jobs demo_env demo_wire (db_store demo_ext) [[69], [0, 0, 0, 1]]
     (demo_dispatcher, ((0, demo_queue), empty_registry))) =
   [Inr [], Inr [InvalidArgument ''protobuf frame exceeds maximum size'']]"
  by (simp add: PushEventBytes_def demo_dispatcher_def Push_def push_loop.simps kLengthPrefixBytes_def
      ReadBigEndianLength_def rejected_def)

end
