(* ===== verification/Control_Session.thy ===== *)
theory Control_Session
  imports Machine Control_Dispatcher
begin

section \<open>apps/server: a connection of the control server (Http2Session of control_server.cpp)\<close>

text \<open>
  A session keeps the streams of one HTTP/2 connection.  nghttp2 is the record \<open>server_http2\<close>: it works
  on its own state, is told what to submit, and while it sends or receives it asks for the callbacks
  of the session one after the other, until it returns.  Everything that goes on elsewhere - the
  socket, the worker pool, the database - is started as a \<open>request\<close>; the requests that are outstanding
  are listed in \<open>hs_requests\<close>, and their completions are functions below.  All run on one strand.
\<close>

definition kControlEventsPath :: string where
  "kControlEventsPath = ''/v1/control/events''"

definition kControlCommandsPath :: string where
  "kControlCommandsPath = ''/v1/control/commands''"

record stream_state =
  ss_method :: string
  ss_path :: string
  ss_correlation_id :: string
  ss_dispatcher :: bool
  ss_response_body :: "u8 list"
  ss_response_offset :: nat
  ss_pending_event_chunks :: nat
  ss_has_error :: bool
  ss_command_stream :: bool
  ss_command_headers_submitted :: bool
  ss_command_data_in_flight :: bool
  ss_command_claim_in_flight :: bool
  ss_command_refresh_pending :: bool
  ss_end_stream_received :: bool
  ss_response_submitted :: bool

definition new_stream :: stream_state where
  "new_stream =
     \<lparr>ss_method = [], ss_path = [], ss_correlation_id = [], ss_dispatcher = False, ss_response_body = [],
      ss_response_offset = 0, ss_pending_event_chunks = 0, ss_has_error = False, ss_command_stream = False,
      ss_command_headers_submitted = False, ss_command_data_in_flight = False,
      ss_command_claim_in_flight = False, ss_command_refresh_pending = False,
      ss_end_stream_received = False, ss_response_submitted = False\<rparr>"

datatype request =
    Start_read
  | Start_write "u8 list"
  | Push_chunk int "u8 list"
  | Claim_task int string string
  | Mark_offline string string

text \<open>
  The connection context and the session around it.  \<open>hs_session\<close> tells whether the pointer to the
  nghttp2 session is set, \<open>hs_hooks\<close> whether \<open>flush_output\<close> and \<open>request_command_drain\<close> are.
\<close>

record 'y session_state =
  hs_connection_id :: string
  hs_streams :: "(int \<times> stream_state) list"
  hs_pending_writes :: "u8 list list"
  hs_write_in_progress :: bool
  hs_read_in_flight :: bool
  hs_offline_mark_in_flight :: bool
  hs_closed :: bool
  hs_session :: bool
  hs_hooks :: bool
  hs_subscribed :: bool
  hs_done :: bool
  hs_registry :: registry
  hs_requests :: "request list"
  hs_lib :: 'y

type_synonym ('y, 'a) handler = "('y session_state, 'a) prog"

datatype send_event = Send_bytes "u8 list" | Read_source int nat | Send_closed int | Send_done int

datatype server_frame = Request_headers | Data_frame | Other_frame

datatype recv_event =
    Begin_headers int server_frame
  | Header int server_frame string string
  | Data_chunk int "u8 list"
  | Frame int server_frame bool
  | Recv_closed int
  | Recv_done int

record 'y server_http2 =
  sh_new_session :: "'y \<Rightarrow> int \<times> 'y"
  sh_submit_settings :: "'y \<Rightarrow> int \<times> 'y"
  sh_submit_response :: "int \<Rightarrow> string \<Rightarrow> bool \<Rightarrow> 'y \<Rightarrow> int \<times> 'y"
  sh_submit_headers :: "int \<Rightarrow> 'y \<Rightarrow> int \<times> 'y"
  sh_submit_data :: "int \<Rightarrow> 'y \<Rightarrow> int \<times> 'y"
  sh_send_next :: "'y \<Rightarrow> send_event \<times> 'y"
  sh_data_read :: "int \<Rightarrow> u8 list \<Rightarrow> bool \<Rightarrow> 'y \<Rightarrow> 'y"
  sh_recv_start :: "u8 list \<Rightarrow> 'y \<Rightarrow> 'y"
  sh_recv_next :: "'y \<Rightarrow> recv_event \<times> 'y"
  sh_strerror :: "int \<Rightarrow> string"
  sh_now :: "'y \<Rightarrow> string \<times> 'y"
  sh_uuid :: "'y \<Rightarrow> string \<times> 'y"
  sh_pool_accepts :: "'y \<Rightarrow> bool \<times> 'y"

definition get_session :: "('y, 'y session_state) handler" where
  "get_session = prog_ask mc_rest"

definition change_session :: "('y session_state \<Rightarrow> 'y session_state) \<Rightarrow> ('y, unit) handler" where
  "change_session f w = Some (Inr (), w\<lparr>mc_rest := f (mc_rest w)\<rparr>)"

definition library :: "('y \<Rightarrow> 'a \<times> 'y) \<Rightarrow> ('y, 'a) handler" where
  "library f w =
     (case f (hs_lib (mc_rest w)) of (x, y) \<Rightarrow> Some (Inr x, w\<lparr>mc_rest := (mc_rest w)\<lparr>hs_lib := y\<rparr>\<rparr>))"

text \<open>A request is started; the map of streams is kept in the order of its keys.\<close>

definition start :: "request \<Rightarrow> ('y, unit) handler" where
  "start r = change_session (\<lambda>s. s\<lparr>hs_requests := hs_requests s @ [r]\<rparr>)"

definition FindStream :: "'y session_state \<Rightarrow> int \<Rightarrow> stream_state option" where
  "FindStream s stream_id = map_of (hs_streams s) stream_id"

definition change_stream :: "int \<Rightarrow> (stream_state \<Rightarrow> stream_state) \<Rightarrow> 'y session_state \<Rightarrow> 'y session_state" where
  "change_stream stream_id f s =
     s\<lparr>hs_streams := map (\<lambda>(i, st). (i, if i = stream_id then f st else st)) (hs_streams s)\<rparr>"

fun insert_or_assign :: "int \<Rightarrow> stream_state \<Rightarrow> (int \<times> stream_state) list \<Rightarrow> (int \<times> stream_state) list" where
  "insert_or_assign i st [] = [(i, st)]"
| "insert_or_assign i st ((j, x) # rest) =
     (if i < j then (i, st) # (j, x) # rest
      else if i = j then (i, st) # rest
      else (j, x) # insert_or_assign i st rest)"

definition check_rv :: "'y server_http2 \<Rightarrow> int \<Rightarrow> string \<Rightarrow> unit result" where
  "check_rv api rv operation =
     (if rv < 0 then Inl (Runtime_error (operation @ '' failed: '' @ sh_strerror api rv)) else Inr ())"

subsection \<open>Submitting\<close>

definition EncodeCommandFrame :: "'y server_http2 \<Rightarrow> wire \<Rightarrow> task \<Rightarrow> string \<Rightarrow> ('y, u8 list) handler" where
  "EncodeCommandFrame api wire t correlation_id =
     prog_bind (library (sh_uuid api)) (\<lambda>message_id.
     prog_bind (library (sh_now api)) (\<lambda>occurred_at.
     prog_bind (prog_res (EncodeServerCommandPayload wire
       \<lparr>sc_protocol_version = protocol_version, sc_message_id = message_id,
        sc_correlation_id = correlation_id, sc_agent_id = task_agent_id t,
        sc_occurred_at = occurred_at, sc_payload = CmdTask t\<rparr>)) (\<lambda>payload.
     prog_res (EncodeFrame payload))))"

definition SubmitSimpleResponse :: "'y server_http2 \<Rightarrow> int \<Rightarrow> string \<Rightarrow> ('y, unit) handler" where
  "SubmitSimpleResponse api stream_id status =
     (let status = (if status \<in> {''400'', ''404'', ''500''} then status else ''200'') in
      prog_bind (library (sh_submit_response api stream_id status False)) (\<lambda>rv.
      prog_res (check_rv api rv ''submit http2 response'')))"

definition ResponseReadCallback :: "nat \<Rightarrow> stream_state \<Rightarrow> (u8 list \<times> bool) \<times> stream_state" where
  "ResponseReadCallback limit stream =
     (let data = take limit (drop (ss_response_offset stream) (ss_response_body stream));
          offset = ss_response_offset stream + length data
      in ((data, offset = length (ss_response_body stream)), stream\<lparr>ss_response_offset := offset\<rparr>))"

definition SubmitCommandHeaders :: "'y server_http2 \<Rightarrow> int \<Rightarrow> ('y, unit) handler" where
  "SubmitCommandHeaders api stream_id =
     prog_bind get_session (\<lambda>s.
     case FindStream s stream_id of
       None \<Rightarrow> prog_return ()
     | Some stream \<Rightarrow>
         if ss_command_headers_submitted stream then prog_return ()
         else
         prog_bind (library (sh_submit_headers api stream_id)) (\<lambda>rv.
         prog_bind (prog_res (check_rv api rv ''submit command stream headers'')) (\<lambda>_.
         change_session (change_stream stream_id (ss_command_headers_submitted_update (\<lambda>_. True))))))"

definition SubmitCommandData :: "'y server_http2 \<Rightarrow> int \<Rightarrow> ('y, unit) handler" where
  "SubmitCommandData api stream_id =
     prog_bind get_session (\<lambda>s.
     case FindStream s stream_id of
       None \<Rightarrow> prog_return ()
     | Some stream \<Rightarrow>
         prog_bind
           (if \<not> ss_command_headers_submitted stream
            then
              prog_bind (library (sh_submit_response api stream_id ''200'' True)) (\<lambda>rv.
              prog_bind (prog_res (check_rv api rv ''submit command response'')) (\<lambda>_.
              change_session (change_stream stream_id (ss_command_headers_submitted_update (\<lambda>_. True)))))
            else
              prog_bind (library (sh_submit_data api stream_id)) (\<lambda>rv.
              prog_res (check_rv api rv ''submit command data'')))
           (\<lambda>_. change_session (change_stream stream_id (ss_command_data_in_flight_update (\<lambda>_. True)))))"

subsection \<open>Sending\<close>

definition SendCallback :: "u8 list \<Rightarrow> ('y, unit) handler" where
  "SendCallback data = change_session (\<lambda>s. s\<lparr>hs_pending_writes := hs_pending_writes s @ [data]\<rparr>)"

text \<open>The read callback with the answer to nghttp2, which asks for streams that are open only.\<close>

definition read_source :: "'y server_http2 \<Rightarrow> int \<Rightarrow> nat \<Rightarrow> ('y, unit) handler" where
  "read_source api stream_id limit =
     prog_bind get_session (\<lambda>s.
     case FindStream s stream_id of
       None \<Rightarrow> prog_return ()
     | Some stream \<Rightarrow>
         (case ResponseReadCallback limit stream of ((data, eof), stream') \<Rightarrow>
            prog_bind (change_session (change_stream stream_id (\<lambda>_. stream'))) (\<lambda>_.
            library (\<lambda>y. ((), sh_data_read api stream_id data eof y)))))"

definition OnStreamCloseCallback :: "int \<Rightarrow> ('y, unit) handler" where
  "OnStreamCloseCallback stream_id =
     change_session (\<lambda>s. s\<lparr>hs_streams := AList.delete stream_id (hs_streams s)\<rparr>)"

partial_function (option) session_send :: "'y server_http2 \<Rightarrow> ('y, int) handler" where
  [code]: "session_send api w =
     prog_bind (library (sh_send_next api)) (\<lambda>event w.
       case event of
         Send_done rv \<Rightarrow> Some (Inr rv, w)
       | Send_bytes data \<Rightarrow> prog_bind (SendCallback data) (\<lambda>_ w. session_send api w) w
       | Read_source stream_id limit \<Rightarrow> prog_bind (read_source api stream_id limit) (\<lambda>_ w. session_send api w) w
       | Send_closed stream_id \<Rightarrow> prog_bind (OnStreamCloseCallback stream_id) (\<lambda>_ w. session_send api w) w) w"

definition FlushOutput :: "('y, unit) handler" where
  "FlushOutput =
     prog_bind get_session (\<lambda>s.
     case hs_pending_writes s of
       [] \<Rightarrow> prog_return ()
     | front # rest \<Rightarrow>
         if hs_closed s \<or> hs_write_in_progress s then prog_return ()
         else
         prog_bind (change_session (hs_write_in_progress_update (\<lambda>_. True))) (\<lambda>_.
         start (Start_write front)))"

definition send_all :: "'y server_http2 \<Rightarrow> ('y, unit) handler" where
  "send_all api =
     prog_bind (session_send api) (\<lambda>rv. prog_res (check_rv api rv ''send http2 bytes''))"

definition FlushSession :: "'y server_http2 \<Rightarrow> ('y, unit) handler" where
  "FlushSession api =
     prog_bind get_session (\<lambda>s.
     if hs_closed s \<or> \<not> hs_session s then prog_return ()
     else prog_bind (send_all api) (\<lambda>_. FlushOutput))"

text \<open>\<open>context->flush_output\<close>, where it is set.\<close>

definition flush_hook :: "('y, unit) handler" where
  "flush_hook = prog_bind get_session (\<lambda>s. if hs_hooks s then FlushOutput else prog_return ())"


subsection \<open>The command stream\<close>

definition start_claim :: "'y server_http2 \<Rightarrow> string \<Rightarrow> int \<Rightarrow> ('y, unit) handler" where
  "start_claim api agent_id stream_id =
     prog_bind get_session (\<lambda>s.
     case FindStream s stream_id of
       None \<Rightarrow> prog_return ()
     | Some stream \<Rightarrow>
         if \<not> ss_command_stream stream \<or> \<not> ss_command_refresh_pending stream \<or>
            ss_command_claim_in_flight stream \<or> ss_command_data_in_flight stream \<or>
            ss_response_body stream \<noteq> []
         then prog_return ()
         else
         prog_bind (change_session (change_stream stream_id
           (\<lambda>st. st\<lparr>ss_command_refresh_pending := False, ss_command_claim_in_flight := True\<rparr>))) (\<lambda>_.
         prog_bind (library (sh_now api)) (\<lambda>now.
         start (Claim_task stream_id agent_id now))))"

definition TryStartQueuedCommands :: "'y server_http2 \<Rightarrow> ('y, unit) handler" where
  "TryStartQueuedCommands api =
     prog_bind get_session (\<lambda>s.
     if hs_closed s \<or> \<not> hs_session s then prog_return ()
     else case FindByConnection (hs_registry s) (hs_connection_id s) of
       None \<Rightarrow> prog_return ()
     | Some connection \<Rightarrow>
         (case cc_agent_id connection of
            None \<Rightarrow> prog_return ()
          | Some agent_id \<Rightarrow>
              if cc_disconnected_at connection \<noteq> None then prog_return ()
              else prog_each (start_claim api agent_id) (map fst (hs_streams s))))"

definition HandleCommandHeadersEnd :: "'y server_http2 \<Rightarrow> int \<Rightarrow> ('y, unit) handler" where
  "HandleCommandHeadersEnd api stream_id =
     prog_bind get_session (\<lambda>s.
     case FindStream s stream_id of
       None \<Rightarrow> SubmitSimpleResponse api stream_id ''400''
     | Some stream \<Rightarrow>
         if ss_method stream \<noteq> ''GET'' \<or> ss_path stream \<noteq> kControlCommandsPath
         then SubmitSimpleResponse api stream_id ''400''
         else
         let bound = (case FindByConnection (hs_registry s) (hs_connection_id s) of
                        None \<Rightarrow> False
                      | Some connection \<Rightarrow> cc_agent_id connection \<noteq> None \<and> cc_disconnected_at connection = None)
         in
         if \<not> bound then SubmitSimpleResponse api stream_id ''404''
         else
         prog_bind (change_session (change_stream stream_id
           (\<lambda>st. st\<lparr>ss_command_stream := True, ss_command_refresh_pending := True\<rparr>))) (\<lambda>_.
         prog_bind (SubmitCommandHeaders api stream_id) (\<lambda>_.
         prog_bind get_session (\<lambda>s.
         if hs_hooks s then TryStartQueuedCommands api else prog_return ()))))"

definition finalized :: "stream_state \<Rightarrow> stream_state" where
  "finalized stream =
     (if ss_command_stream stream \<and> ss_command_data_in_flight stream \<and> ss_response_body stream \<noteq> [] \<and>
         ss_response_offset stream = length (ss_response_body stream)
      then stream\<lparr>ss_response_body := [], ss_response_offset := 0, ss_command_data_in_flight := False,
                  ss_command_refresh_pending := True\<rparr>
      else stream)"

definition FinalizeSentCommandData :: "('y, unit) handler" where
  "FinalizeSentCommandData =
     change_session (\<lambda>s. s\<lparr>hs_streams := map (\<lambda>(i, st). (i, finalized st)) (hs_streams s)\<rparr>)"

subsection \<open>Closing\<close>

definition MaybeMarkDone :: "('y, unit) handler" where
  "MaybeMarkDone =
     change_session (\<lambda>s.
       if \<not> hs_closed s \<or> hs_read_in_flight s \<or> hs_write_in_progress s \<or> hs_offline_mark_in_flight s
       then s else s\<lparr>hs_done := True\<rparr>)"

definition CloseSession :: "'y server_http2 \<Rightarrow> ('y, unit) handler" where
  "CloseSession api =
     prog_bind get_session (\<lambda>s.
     if hs_closed s then prog_return ()
     else
     prog_bind (change_session (\<lambda>s. s\<lparr>hs_closed := True, hs_hooks := False, hs_session := False,
                                        hs_subscribed := False\<rparr>)) (\<lambda>_.
     prog_bind (library (sh_now api)) (\<lambda>disconnected_at.
     prog_bind get_session (\<lambda>s.
     case CloseConnection (hs_connection_id s) disconnected_at (hs_registry s) of
       (closed, registry) \<Rightarrow>
         prog_bind (change_session (hs_registry_update (\<lambda>_. registry))) (\<lambda>_.
         case closed of
           None \<Rightarrow> MaybeMarkDone
         | Some c \<Rightarrow>
             (case closed_agent_id c of
                None \<Rightarrow> MaybeMarkDone
              | Some agent_id \<Rightarrow>
                  if was_current_agent_connection c
                  then prog_bind (change_session (hs_offline_mark_in_flight_update (\<lambda>_. True))) (\<lambda>_.
                       start (Mark_offline agent_id disconnected_at))
                  else MaybeMarkDone))))))"

subsection \<open>Requests with events\<close>

definition TrySubmitEventResponse :: "'y server_http2 \<Rightarrow> int \<Rightarrow> ('y, unit) handler" where
  "TrySubmitEventResponse api stream_id =
     prog_bind get_session (\<lambda>s.
     case FindStream s stream_id of
       None \<Rightarrow> prog_return ()
     | Some stream \<Rightarrow>
         if ss_response_submitted stream \<or> \<not> ss_end_stream_received stream \<or> ss_pending_event_chunks stream \<noteq> 0
         then prog_return ()
         else
         prog_bind (SubmitSimpleResponse api stream_id (if \<not> ss_has_error stream then ''200'' else ''400'')) (\<lambda>_.
         change_session (change_stream stream_id (ss_response_submitted_update (\<lambda>_. True)))))"

definition less_pending :: "stream_state \<Rightarrow> stream_state" where
  "less_pending st = st\<lparr>ss_pending_event_chunks := ss_pending_event_chunks st - 1\<rparr>"

text \<open>
  A chunk goes to the pool; a pool that is stopped posts the completion with an error and says no.
\<close>

definition OnDataChunkRecvCallback :: "'y server_http2 \<Rightarrow> int \<Rightarrow> u8 list \<Rightarrow> ('y, unit) handler" where
  "OnDataChunkRecvCallback api stream_id data =
     prog_bind get_session (\<lambda>s.
     case FindStream s stream_id of
       None \<Rightarrow> prog_return ()
     | Some stream \<Rightarrow>
         if ss_method stream \<noteq> ''POST'' \<or> ss_path stream \<noteq> kControlEventsPath
         then change_session (change_stream stream_id (ss_has_error_update (\<lambda>_. True)))
         else
         prog_bind (change_session (change_stream stream_id
           (\<lambda>st. st\<lparr>ss_dispatcher := True, ss_pending_event_chunks := ss_pending_event_chunks st + 1\<rparr>))) (\<lambda>_.
         prog_bind (library (sh_pool_accepts api)) (\<lambda>accepted.
         prog_bind (start (Push_chunk stream_id data)) (\<lambda>_.
         if accepted then prog_return ()
         else
         prog_bind (change_session (change_stream stream_id
           (\<lambda>st. (less_pending st)\<lparr>ss_has_error := True\<rparr>))) (\<lambda>_.
         prog_bind (TrySubmitEventResponse api stream_id) (\<lambda>_.
         prog_bind (send_all api) (\<lambda>_.
         flush_hook)))))))"

text \<open>The completion of a chunk: the exception of the dispatcher, or its results.\<close>

definition OnChunkHandled ::
    "'y server_http2 \<Rightarrow> int \<Rightarrow> control_event_result list result \<Rightarrow> ('y, unit) handler" where
  "OnChunkHandled api stream_id results =
     prog_bind get_session (\<lambda>s.
     case FindStream s stream_id of
       None \<Rightarrow> prog_return ()
     | Some stream \<Rightarrow>
         if \<not> hs_session s then prog_return ()
         else
         let failed = (case results of
                         Inl ex \<Rightarrow> True
                       | Inr rs \<Rightarrow> list_ex (\<lambda>r. cer_status r \<noteq> kAccepted) rs)
         in
         prog_bind (change_session (change_stream stream_id
           (\<lambda>st. (less_pending st)\<lparr>ss_has_error := ss_has_error st \<or> failed\<rparr>))) (\<lambda>_.
         prog_bind (TrySubmitEventResponse api stream_id) (\<lambda>_.
         prog_bind (send_all api) (\<lambda>_.
         flush_hook))))"

subsection \<open>Receiving\<close>

definition OnBeginHeadersCallback :: "int \<Rightarrow> server_frame \<Rightarrow> ('y, unit) handler" where
  "OnBeginHeadersCallback stream_id ty =
     (if ty \<noteq> Request_headers then prog_return ()
      else change_session (\<lambda>s. s\<lparr>hs_streams := insert_or_assign stream_id new_stream (hs_streams s)\<rparr>))"

definition OnHeaderCallback :: "int \<Rightarrow> server_frame \<Rightarrow> string \<Rightarrow> string \<Rightarrow> ('y, unit) handler" where
  "OnHeaderCallback stream_id ty name val =
     (if ty \<noteq> Request_headers then prog_return ()
      else change_session (change_stream stream_id (\<lambda>st.
        if name = '':method'' then st\<lparr>ss_method := val\<rparr>
        else if name = '':path'' then st\<lparr>ss_path := val\<rparr>
        else if name = ''x-zfleet-correlation-id'' then st\<lparr>ss_correlation_id := val\<rparr>
        else st)))"

definition OnFrameRecvCallback :: "'y server_http2 \<Rightarrow> int \<Rightarrow> server_frame \<Rightarrow> bool \<Rightarrow> ('y, unit) handler" where
  "OnFrameRecvCallback api stream_id ty end_stream =
     prog_bind get_session (\<lambda>s.
     if ty = Request_headers \<and> end_stream
     then
       (case FindStream s stream_id of
          None \<Rightarrow> SubmitSimpleResponse api stream_id ''400''
        | Some stream \<Rightarrow>
            if ss_method stream = ''GET'' then HandleCommandHeadersEnd api stream_id
            else SubmitSimpleResponse api stream_id (if \<not> ss_has_error stream then ''200'' else ''400''))
     else if ty = Data_frame \<and> end_stream
     then
       (case FindStream s stream_id of
          None \<Rightarrow> prog_return ()
        | Some stream \<Rightarrow>
            prog_bind (change_session (change_stream stream_id (ss_end_stream_received_update (\<lambda>_. True)))) (\<lambda>_.
            TrySubmitEventResponse api stream_id))
     else prog_return ())"

definition on_event :: "'y server_http2 \<Rightarrow> recv_event \<Rightarrow> ('y, unit) handler" where
  "on_event api event =
     (case event of
        Begin_headers stream_id ty \<Rightarrow> OnBeginHeadersCallback stream_id ty
      | Header stream_id ty name val \<Rightarrow> OnHeaderCallback stream_id ty name val
      | Data_chunk stream_id data \<Rightarrow> OnDataChunkRecvCallback api stream_id data
      | Frame stream_id ty end_stream \<Rightarrow> OnFrameRecvCallback api stream_id ty end_stream
      | Recv_closed stream_id \<Rightarrow> OnStreamCloseCallback stream_id
      | Recv_done rv \<Rightarrow> prog_return ())"

partial_function (option) recv_loop :: "'y server_http2 \<Rightarrow> ('y, int) handler" where
  [code]: "recv_loop api w =
     prog_bind (library (sh_recv_next api)) (\<lambda>event w.
       case event of
         Recv_done rv \<Rightarrow> Some (Inr rv, w)
       | _ \<Rightarrow> prog_bind (on_event api event) (\<lambda>_ w. recv_loop api w) w) w"

definition mem_recv :: "'y server_http2 \<Rightarrow> u8 list \<Rightarrow> ('y, int) handler" where
  "mem_recv api bytes = prog_bind (library (\<lambda>y. ((), sh_recv_start api bytes y))) (\<lambda>_. recv_loop api)"

subsection \<open>The session\<close>

datatype io_error = Io_ok | Io_aborted | Io_bad_descriptor | Io_eof | Io_failed

definition DoRead :: "('y, unit) handler" where
  "DoRead =
     prog_bind get_session (\<lambda>s.
     if hs_closed s then MaybeMarkDone
     else prog_bind (change_session (hs_read_in_flight_update (\<lambda>_. True))) (\<lambda>_. start Start_read))"

definition OnRead :: "'y server_http2 \<Rightarrow> io_error \<Rightarrow> u8 list \<Rightarrow> ('y, unit) handler" where
  "OnRead api ec bytes =
     prog_bind (change_session (hs_read_in_flight_update (\<lambda>_. False))) (\<lambda>_.
     prog_bind get_session (\<lambda>s.
     if hs_closed s \<or> ec = Io_aborted then MaybeMarkDone
     else if ec \<noteq> Io_ok then CloseSession api
     else
     prog_bind (prog_catch
         (prog_bind (mem_recv api bytes) (\<lambda>rv.
          prog_bind (prog_res (check_rv api rv ''receive http2 bytes'')) (\<lambda>_.
          prog_bind (FlushSession api) (\<lambda>_. prog_return True))))
         (\<lambda>ex. prog_bind (CloseSession api) (\<lambda>_. prog_return False))) (\<lambda>ok.
     if ok then DoRead else prog_return ())))"

definition OnWrite :: "'y server_http2 \<Rightarrow> io_error \<Rightarrow> ('y, unit) handler" where
  "OnWrite api ec =
     prog_bind (change_session (hs_write_in_progress_update (\<lambda>_. False))) (\<lambda>_.
     prog_bind get_session (\<lambda>s.
     if hs_closed s
     then prog_bind (change_session (hs_pending_writes_update tl)) (\<lambda>_. MaybeMarkDone)
     else if ec = Io_aborted then MaybeMarkDone
     else if ec \<noteq> Io_ok then CloseSession api
     else
     prog_bind (change_session (hs_pending_writes_update tl)) (\<lambda>_.
     prog_bind FinalizeSentCommandData (\<lambda>_.
     prog_bind FlushOutput (\<lambda>_.
     TryStartQueuedCommands api)))))"

definition OnTaskQueueChanged :: "'y server_http2 \<Rightarrow> ('y, unit) handler" where
  "OnTaskQueueChanged api =
     prog_bind get_session (\<lambda>s.
     if hs_closed s then prog_return ()
     else
     prog_bind (change_session (\<lambda>s. s\<lparr>hs_streams := map (\<lambda>(i, st). (i,
         if ss_command_stream st then st\<lparr>ss_command_refresh_pending := True\<rparr> else st)) (hs_streams s)\<rparr>)) (\<lambda>_.
     TryStartQueuedCommands api))"

definition OnCommandClaimComplete ::
    "'y server_http2 \<Rightarrow> wire \<Rightarrow> int \<Rightarrow> task option result \<Rightarrow> ('y, unit) handler" where
  "OnCommandClaimComplete api wire stream_id claimed =
     prog_bind get_session (\<lambda>s.
     if hs_closed s \<or> \<not> hs_session s then prog_return ()
     else case FindStream s stream_id of
       None \<Rightarrow> prog_return ()
     | Some stream \<Rightarrow>
         prog_bind (change_session (change_stream stream_id (ss_command_claim_in_flight_update (\<lambda>_. False)))) (\<lambda>_.
         case claimed of
           Inl ex \<Rightarrow>
             prog_bind (change_session (change_stream stream_id (ss_has_error_update (\<lambda>_. True)))) (\<lambda>_.
             CloseSession api)
         | Inr None \<Rightarrow>
             if ss_command_refresh_pending stream then TryStartQueuedCommands api else prog_return ()
         | Inr (Some t) \<Rightarrow>
             prog_bind (EncodeCommandFrame api wire t (ss_correlation_id stream)) (\<lambda>frame.
             prog_bind (change_session (change_stream stream_id
               (\<lambda>st. st\<lparr>ss_response_body := frame, ss_response_offset := 0\<rparr>))) (\<lambda>_.
             prog_bind (SubmitCommandData api stream_id) (\<lambda>_.
             FlushSession api)))))"

definition OnOfflineMarked :: "('y, unit) handler" where
  "OnOfflineMarked =
     prog_bind (change_session (hs_offline_mark_in_flight_update (\<lambda>_. False))) (\<lambda>_. MaybeMarkDone)"

definition new_session :: "string \<Rightarrow> registry \<Rightarrow> 'y \<Rightarrow> 'y session_state" where
  "new_session connection_id registry y =
     \<lparr>hs_connection_id = connection_id, hs_streams = [], hs_pending_writes = [], hs_write_in_progress = False,
      hs_read_in_flight = False, hs_offline_mark_in_flight = False, hs_closed = False, hs_session = False,
      hs_hooks = False, hs_subscribed = False, hs_done = False, hs_registry = registry, hs_requests = [],
      hs_lib = y\<rparr>"

definition Start_session :: "'y server_http2 \<Rightarrow> ('y, unit) handler" where
  "Start_session api =
     prog_bind (change_session (hs_hooks_update (\<lambda>_. True))) (\<lambda>_.
     prog_bind (library (sh_now api)) (\<lambda>connected_at.
     prog_bind get_session (\<lambda>s.
     prog_bind (prog_res (OpenConnection (hs_connection_id s) connected_at (hs_registry s))) (\<lambda>registry.
     prog_bind (change_session (hs_registry_update (\<lambda>_. registry))) (\<lambda>_.
     prog_bind (library (sh_new_session api)) (\<lambda>rv.
     prog_bind (prog_res (check_rv api rv ''create nghttp2 server session'')) (\<lambda>_.
     prog_bind (change_session (hs_session_update (\<lambda>_. True))) (\<lambda>_.
     prog_bind (library (sh_submit_settings api)) (\<lambda>rv.
     prog_bind (prog_res (check_rv api rv ''submit http2 settings'')) (\<lambda>_.
     prog_bind (change_session (hs_subscribed_update (\<lambda>_. True))) (\<lambda>_.
     prog_bind (FlushSession api) (\<lambda>_. DoRead))))))))))))"

end
