(* ===== verification/Session_Steps.thy ===== *)
theory Session_Steps
  imports Control_Session Program_Logic
begin

section \<open>apps/server: how a session of the control server runs\<close>

text \<open>
  A session is run by completions: a step takes one of the outstanding requests off the list and runs
  its handler to the end.  Other connections change the registry between two steps, and the server may
  close the session.  A handler that ends with an exception ends the server, so no step has one.
  Handlers are verified with a weakest precondition; invariants are shown by rule induction.
\<close>

definition completed :: "request \<Rightarrow> 'y session_state machine \<Rightarrow> 'y session_state machine" where
  "completed r w = w\<lparr>mc_rest := (mc_rest w)\<lparr>hs_requests := remove1 r (hs_requests (mc_rest w))\<rparr>\<rparr>"

abbreviation outstanding :: "'y session_state machine \<Rightarrow> request set" where
  "outstanding w \<equiv> set (hs_requests (mc_rest w))"

inductive session_step ::
    "'y server_http2 \<Rightarrow> wire \<Rightarrow> 'y session_state machine \<Rightarrow> 'y session_state machine \<Rightarrow> bool"
    for api :: "'y server_http2" and wire :: wire where
  read_completes:
    "\<lbrakk>Start_read \<in> outstanding w; OnRead api ec bytes (completed Start_read w) = Some (Inr (), w')\<rbrakk>
     \<Longrightarrow> session_step api wire w w'"
| write_completes:
    "\<lbrakk>Start_write data \<in> outstanding w; OnWrite api ec (completed (Start_write data) w) = Some (Inr (), w')\<rbrakk>
     \<Longrightarrow> session_step api wire w w'"
| claim_completes:
    "\<lbrakk>Claim_task i agent_id now \<in> outstanding w;
      OnCommandClaimComplete api wire i claimed (completed (Claim_task i agent_id now) w) = Some (Inr (), w')\<rbrakk>
     \<Longrightarrow> session_step api wire w w'"
| chunk_completes:
    "\<lbrakk>Push_chunk i data \<in> outstanding w;
      OnChunkHandled api i results (completed (Push_chunk i data) w) = Some (Inr (), w')\<rbrakk>
     \<Longrightarrow> session_step api wire w w'"
| mark_completes:
    "\<lbrakk>Mark_offline agent_id at \<in> outstanding w;
      OnOfflineMarked (completed (Mark_offline agent_id at) w) = Some (Inr (), w')\<rbrakk>
     \<Longrightarrow> session_step api wire w w'"
| queue_changes: "OnTaskQueueChanged api w = Some (Inr (), w') \<Longrightarrow> session_step api wire w w'"
| server_closes: "CloseSession api w = Some (Inr (), w') \<Longrightarrow> session_step api wire w w'"
| registry_changes: "session_step api wire w (w\<lparr>mc_rest := (mc_rest w)\<lparr>hs_registry := registry\<rparr>\<rparr>)"

inductive session_reaches ::
    "'y server_http2 \<Rightarrow> wire \<Rightarrow> 'y session_state machine \<Rightarrow> bool"
    for api :: "'y server_http2" and wire :: wire where
  started:
    "Start_session api \<lparr>mc_files = fs, mc_rest = new_session connection_id registry y\<rparr> = Some (Inr (), w)
     \<Longrightarrow> session_reaches api wire w"
| steps: "\<lbrakk>session_reaches api wire w; session_step api wire w w'\<rbrakk> \<Longrightarrow> session_reaches api wire w'"


subsection \<open>Weakest preconditions\<close>

lemma wp_session [simp]:
  "wp get_session Q E w = Q (mc_rest w) w"
  "wp (change_session f) R E w = R () (w\<lparr>mc_rest := f (mc_rest w)\<rparr>)"
  "wp (start r) R E w = R () (w\<lparr>mc_rest := (mc_rest w)\<lparr>hs_requests := hs_requests (mc_rest w) @ [r]\<rparr>\<rparr>)"
  by (auto simp: wp_def get_session_def change_session_def start_def)

lemma wp_library [simp]:
  "wp (library g) Q E w =
     (case g (hs_lib (mc_rest w)) of (x, y) \<Rightarrow> Q x (w\<lparr>mc_rest := (mc_rest w)\<lparr>hs_lib := y\<rparr>\<rparr>))"
  by (auto simp: wp_def library_def split: prod.splits)

lemma preserves_ask: "(\<And>s. I s \<Longrightarrow> preserves I (f s)) \<Longrightarrow> preserves I (prog_bind get_session f)"
  by (rule preservesI) (auto intro: preservesD)

lemma preserves_get: "(\<And>s. preserves I (f s)) \<Longrightarrow> preserves I (prog_bind get_session f)"
  by (rule preserves_ask)

lemma preserves_change: "(\<And>s. I s \<Longrightarrow> I (f s)) \<Longrightarrow> preserves I (change_session f)"
  by (rule preservesI) simp

lemma preserves_library:
  "(\<And>s. I s \<Longrightarrow> I (s\<lparr>hs_lib := snd (g (hs_lib s))\<rparr>)) \<Longrightarrow> preserves I (library g)"
  by (rule preservesI) (simp add: split_beta)

lemma preserves_start:
  "(\<And>s. I s \<Longrightarrow> I (s\<lparr>hs_requests := hs_requests s @ [r]\<rparr>)) \<Longrightarrow> preserves I (start r)"
  by (rule preservesI) simp

lemmas preserves_rules =
  preserves_get preserves_bind preserves_pure preserves_if preserves_option preserves_each

text \<open>
  The two loops keep what their events keep.  The loops end with an answer or an exception; \<open>left\<close> is
  the machine either leaves.
\<close>

definition kept :: "('x \<Rightarrow> bool) \<Rightarrow> 'x machine \<Rightarrow> 'a result \<times> 'x machine \<Rightarrow> bool" where
  "kept I w y = (I (mc_rest w) \<longrightarrow> I (mc_rest (snd y)))"

lemma preserves_iff: "preserves I m \<longleftrightarrow> (\<forall>w y. m w = Some y \<longrightarrow> kept I w y)"
  unfolding preserves_def wp_def kept_def by (fastforce split: option.splits prod.splits sum.splits)

lemma keptI: "\<lbrakk>preserves I m; m w = Some y\<rbrakk> \<Longrightarrow> kept I w y"
  unfolding preserves_iff by blast

lemma session_send_preserves:
  assumes "preserves I (library (sh_send_next api))" "\<And>data. preserves I (SendCallback data)"
    "\<And>i limit. preserves I (read_source api i limit)" "\<And>i. preserves I (OnStreamCloseCallback i)"
  shows "preserves I (session_send api)"
  unfolding preserves_iff
proof (intro allI impI)
  fix w y assume run: "session_send api w = Some y"
  have "api = api' \<longrightarrow> kept I w y" if "session_send api' w = Some y" for api' :: "'a server_http2" and w y
    using that
  proof (rule session_send.raw_induct [rotated, where P = "\<lambda>api' w y. api = api' \<longrightarrow> kept I w y"], intro impI)
    fix loop and api' :: "'a server_http2" and w y
    assume IH: "\<And>api' w y. loop api' w = Some y \<Longrightarrow> api = api' \<longrightarrow> kept I w y" and api: "api = api'"
      and run: "prog_bind (library (sh_send_next api')) (\<lambda>event w. case event of
         Send_bytes data \<Rightarrow> prog_bind (SendCallback data) (\<lambda>_ w. loop api' w) w
       | Read_source i limit \<Rightarrow> prog_bind (read_source api' i limit) (\<lambda>_ w. loop api' w) w
       | Send_closed i \<Rightarrow> prog_bind (OnStreamCloseCallback i) (\<lambda>_ w. loop api' w) w
       | Send_done rv \<Rightarrow> Some (Inr rv, w)) w = Some y"
    have loop: "preserves I (\<lambda>w. loop api w)" using IH by (auto simp: preserves_iff)
    have "preserves I (\<lambda>w. case event of
         Send_bytes data \<Rightarrow> prog_bind (SendCallback data) (\<lambda>_ w. loop api w) w
       | Read_source i limit \<Rightarrow> prog_bind (read_source api i limit) (\<lambda>_ w. loop api w) w
       | Send_closed i \<Rightarrow> prog_bind (OnStreamCloseCallback i) (\<lambda>_ w. loop api w) w
       | Send_done rv \<Rightarrow> Some (Inr rv, w))" for event
      using preserves_bind [OF assms(2) loop] preserves_bind [OF assms(3) loop] preserves_bind [OF assms(4) loop]
      by (cases event) (auto simp: preserves_iff kept_def)
    from keptI [OF preserves_bind [OF assms(1) this] run [folded api]] show "kept I w y" .
  qed
  then show "kept I w y" using run by blast
qed

lemma recv_loop_preserves:
  assumes event: "preserves I (prog_bind (library (sh_recv_next api)) (on_event api))"
  shows "preserves I (recv_loop api)"
  unfolding preserves_iff
proof (intro allI impI)
  fix w y assume run: "recv_loop api w = Some y"
  have "api = api' \<longrightarrow> kept I w y" if "recv_loop api' w = Some y" for api' :: "'a server_http2" and w y
    using that
  proof (rule recv_loop.raw_induct [rotated, where P = "\<lambda>api' w y. api = api' \<longrightarrow> kept I w y"], intro impI)
    fix loop and api' :: "'a server_http2" and w y
    assume IH: "\<And>api' w y. loop api' w = Some y \<Longrightarrow> api = api' \<longrightarrow> kept I w y" and api: "api = api'"
      and run: "prog_bind (library (sh_recv_next api')) (\<lambda>event w. case event of
         Recv_done rv \<Rightarrow> Some (Inr rv, w)
       | _ \<Rightarrow> prog_bind (on_event api' event) (\<lambda>_ w. loop api' w) w) w = Some y"
    have loop: "preserves I (\<lambda>w. loop api w)" using IH by (auto simp: preserves_iff)
    have "wp (\<lambda>w. case event of
         Recv_done rv \<Rightarrow> Some (Inr rv, w)
       | _ \<Rightarrow> prog_bind (on_event api event) (\<lambda>_ w. loop api w) w)
       (\<lambda>_ w. I (mc_rest w)) (\<lambda>w. I (mc_rest w)) w"
      if "wp (on_event api event) (\<lambda>_ w. I (mc_rest w)) (\<lambda>w. I (mc_rest w)) w" for event w
    proof (cases "\<exists>rv. event = Recv_done rv")
      case True
      then show ?thesis using that by (auto simp: on_event_def wp_def)
    next
      case False
      have "wp (prog_bind (on_event api event) (\<lambda>_ w. loop api w)) (\<lambda>_ w. I (mc_rest w)) (\<lambda>w. I (mc_rest w)) w"
        unfolding wp_bind by (rule wp_mono [OF that]) (use loop in \<open>auto simp: preserves_def\<close>)
      then show ?thesis using False by (cases event) (simp_all add: wp_def)
    qed
    then have "preserves I (prog_bind (library (sh_recv_next api)) (\<lambda>event w. case event of
         Recv_done rv \<Rightarrow> Some (Inr rv, w)
       | _ \<Rightarrow> prog_bind (on_event api event) (\<lambda>_ w. loop api w) w))"
      using event unfolding preserves_def wp_bind by (blast intro: wp_mono)
    from keptI [OF this run [folded api]] show "kept I w y" .
  qed
  then show "kept I w y" using run by blast
qed

end
