(* ===== verification/Session_Invariants.thy ===== *)
theory Session_Invariants
  imports Session_Steps
begin

section \<open>apps/server: what holds of every session\<close>

text \<open>
  The first invariant is about the connection: the flags of the context say which operations are
  outstanding.  The second is about the streams: a command is claimed only for a stream that sends none.
\<close>

subsection \<open>The operations that are in flight\<close>

fun is_read :: "request \<Rightarrow> bool" where
  "is_read Start_read = True" | "is_read _ = False"

fun is_write :: "request \<Rightarrow> bool" where
  "is_write (Start_write data) = True" | "is_write _ = False"

fun is_mark :: "request \<Rightarrow> bool" where
  "is_mark (Mark_offline a at) = True" | "is_mark _ = False"

definition io_ok :: "'y session_state \<Rightarrow> bool" where
  "io_ok s =
     (filter is_read (hs_requests s) = (if hs_read_in_flight s then [Start_read] else []) \<and>
      filter is_write (hs_requests s) =
        (if hs_write_in_progress s then [Start_write (hd (hs_pending_writes s))] else []) \<and>
      (hs_write_in_progress s \<longrightarrow> hs_pending_writes s \<noteq> []) \<and>
      length (filter is_mark (hs_requests s)) = (if hs_offline_mark_in_flight s then 1 else 0) \<and>
      (hs_offline_mark_in_flight s \<longrightarrow> hs_closed s) \<and>
      (hs_closed s \<longrightarrow> \<not> hs_session s) \<and>
      (hs_done s \<longrightarrow> hs_closed s \<and> \<not> hs_read_in_flight s \<and> \<not> hs_write_in_progress s \<and>
                      \<not> hs_offline_mark_in_flight s))"

definition settled :: "'y session_state \<Rightarrow> bool" where
  "settled s =
     (hs_closed s \<and> \<not> hs_read_in_flight s \<and> \<not> hs_write_in_progress s \<and> \<not> hs_offline_mark_in_flight s
      \<longrightarrow> hs_done s)"

text \<open>An open session in which a read is, or is not, in flight.\<close>

definition open_with :: "bool \<Rightarrow> 'y session_state \<Rightarrow> bool" where
  "open_with reading s = (io_ok s \<and> \<not> hs_closed s \<and> hs_read_in_flight s = reading)"

lemmas open_defs = open_with_def io_ok_def

lemma open_library: "preserves (open_with b) (library g)"
  by (rule preserves_library) (auto simp: open_defs)

lemma open_change_stream: "preserves (open_with b) (change_session (change_stream i f))"
  by (rule preserves_change) (auto simp: open_defs change_stream_def)

lemma open_streams: "preserves (open_with b) (change_session (\<lambda>s. s\<lparr>hs_streams := f (hs_streams s)\<rparr>))"
  by (rule preserves_change) (auto simp: open_defs)

lemma open_start:
  "\<not> is_read r \<and> \<not> is_write r \<and> \<not> is_mark r \<Longrightarrow> preserves (open_with b) (start r)"
  by (rule preserves_start) (auto simp: open_defs)

lemmas open_rules = preserves_rules open_library open_change_stream open_streams

lemma open_SendCallback: "preserves (open_with b) (SendCallback data)"
  unfolding SendCallback_def by (rule preserves_change) (auto simp: open_defs)

lemma open_write:
  "\<lbrakk>open_with b s; \<not> hs_write_in_progress s; hs_pending_writes s = front # rest\<rbrakk>
   \<Longrightarrow> open_with b (s\<lparr>hs_write_in_progress := True, hs_requests := hs_requests s @ [Start_write front]\<rparr>)"
  by (auto simp: open_with_def io_ok_def)

lemma open_FlushOutput: "preserves (open_with b) FlushOutput"
proof (rule preservesI)
  fix w :: "'a session_state machine"
  assume "open_with b (mc_rest w)"
  then show "wp FlushOutput (\<lambda>_ w. open_with b (mc_rest w)) (\<lambda>w. open_with b (mc_rest w)) w"
    by (cases "hs_pending_writes (mc_rest w)") (auto simp: FlushOutput_def intro: open_write)
qed

lemma open_send_all: "preserves (open_with b) (send_all api)"
proof -
  have "preserves (open_with b) (read_source api i limit)" for i limit
    unfolding read_source_def by (intro open_rules) (auto intro!: open_rules split: prod.split)
  then have "preserves (open_with b) (session_send api)"
    by (intro session_send_preserves open_library open_SendCallback)
      (simp_all add: OnStreamCloseCallback_def open_streams)
  then show ?thesis unfolding send_all_def by (intro open_rules)
qed

lemma open_FlushSession: "preserves (open_with b) (FlushSession api)"
  unfolding FlushSession_def by (intro open_rules open_send_all open_FlushOutput)

lemma open_flush_hook: "preserves (open_with b) flush_hook"
  unfolding flush_hook_def by (intro open_rules open_FlushOutput)

lemma open_SubmitSimpleResponse: "preserves (open_with b) (SubmitSimpleResponse api i status)"
  unfolding SubmitSimpleResponse_def Let_def by (intro open_rules)

lemma open_SubmitCommandHeaders: "preserves (open_with b) (SubmitCommandHeaders api i)"
  unfolding SubmitCommandHeaders_def by (intro open_rules)

lemma open_SubmitCommandData: "preserves (open_with b) (SubmitCommandData api i)"
  unfolding SubmitCommandData_def by (intro open_rules)

lemma open_TryStartQueuedCommands: "preserves (open_with b) (TryStartQueuedCommands api)"
proof -
  have "preserves (open_with b) (start_claim api agent_id i)" for agent_id i
    unfolding start_claim_def by (intro open_rules open_start) simp_all
  then show ?thesis unfolding TryStartQueuedCommands_def by (intro open_rules)
qed

lemma open_HandleCommandHeadersEnd: "preserves (open_with b) (HandleCommandHeadersEnd api i)"
  unfolding HandleCommandHeadersEnd_def Let_def
  by (intro open_rules open_SubmitSimpleResponse open_SubmitCommandHeaders open_TryStartQueuedCommands)

lemma open_TrySubmitEventResponse: "preserves (open_with b) (TrySubmitEventResponse api i)"
  unfolding TrySubmitEventResponse_def by (intro open_rules open_SubmitSimpleResponse)

lemma open_OnDataChunk: "preserves (open_with b) (OnDataChunkRecvCallback api i data)"
  unfolding OnDataChunkRecvCallback_def
  by (intro open_rules open_start open_TrySubmitEventResponse open_send_all open_flush_hook) simp_all

lemma open_OnFrameRecv: "preserves (open_with b) (OnFrameRecvCallback api i ty end_stream)"
  unfolding OnFrameRecvCallback_def
  by (intro open_rules open_SubmitSimpleResponse open_HandleCommandHeadersEnd open_TrySubmitEventResponse)

lemma open_mem_recv: "preserves (open_with b) (mem_recv api bytes)"
proof -
  have "preserves (open_with b) (on_event api event)" for event
    by (cases event)
      (auto simp: on_event_def OnBeginHeadersCallback_def OnHeaderCallback_def OnStreamCloseCallback_def
        intro!: open_OnDataChunk open_OnFrameRecv open_rules)
  then show ?thesis
    unfolding mem_recv_def by (intro preserves_bind recv_loop_preserves open_library)
qed

subsection \<open>Closing and the handlers\<close>

definition session_ok :: "'y session_state \<Rightarrow> bool" where
  "session_ok s = (io_ok s \<and> settled s)"

lemma io_ok_updates [simp]:
  "io_ok (s\<lparr>hs_lib := y\<rparr>) = io_ok s" "io_ok (s\<lparr>hs_registry := g\<rparr>) = io_ok s"
  "io_ok (s\<lparr>hs_streams := xs\<rparr>) = io_ok s" "settled (s\<lparr>hs_lib := y\<rparr>) = settled s"
  "settled (s\<lparr>hs_registry := g\<rparr>) = settled s" "settled (s\<lparr>hs_streams := xs\<rparr>) = settled s"
  by (simp_all add: io_ok_def settled_def)

lemma session_ok_open: "\<not> hs_closed s \<Longrightarrow> session_ok s = open_with (hs_read_in_flight s) s"
  by (simp add: session_ok_def open_with_def settled_def)

lemma open_session_ok: "open_with b s \<Longrightarrow> session_ok s"
  by (simp add: session_ok_def open_with_def settled_def)

lemma open_wp:
  assumes "\<And>b. preserves (open_with b) m" "session_ok (mc_rest w)" "\<not> hs_closed (mc_rest w)"
  shows "wp m (\<lambda>_ w. session_ok (mc_rest w)) (\<lambda>w. session_ok (mc_rest w)) w"
proof -
  have "open_with (hs_read_in_flight (mc_rest w)) (mc_rest w)" using session_ok_open assms(2,3) by blast
  then show ?thesis by (rule preservesD [OF assms(1)]) (erule open_session_ok)+
qed

lemma ok_when_open:
  assumes "\<And>b. preserves (open_with b) m" "\<And>w. hs_closed (mc_rest w) \<Longrightarrow> m w = Some (Inr x, w)"
  shows "preserves session_ok m"
proof (rule preservesI)
  fix w :: "'a session_state machine"
  assume ok: "session_ok (mc_rest w)"
  show "wp m (\<lambda>_ w. session_ok (mc_rest w)) (\<lambda>w. session_ok (mc_rest w)) w"
  proof (cases "hs_closed (mc_rest w)")
    case True
    then show ?thesis using ok assms(2) by (simp add: wp_def)
  next
    case False
    then show ?thesis using open_wp assms(1) ok by blast
  qed
qed

lemma ok_TryStartQueuedCommands: "preserves session_ok (TryStartQueuedCommands api)"
  by (rule ok_when_open [OF open_TryStartQueuedCommands])
    (simp add: TryStartQueuedCommands_def get_session_def prog_bind_def)

lemma ok_FlushSession: "preserves session_ok (FlushSession api)"
  by (rule ok_when_open [OF open_FlushSession]) (simp add: FlushSession_def get_session_def prog_bind_def)

lemma ok_library: "preserves session_ok (library g)"
  by (rule preserves_library) (simp add: session_ok_def)

lemma ok_change_stream: "preserves session_ok (change_session (change_stream i f))"
  by (rule preserves_change) (simp add: session_ok_def change_stream_def)

lemma io_ok_closed:
  "io_ok s \<Longrightarrow> io_ok (s\<lparr>hs_closed := True, hs_hooks := False, hs_session := False, hs_subscribed := False\<rparr>)"
  by (simp add: io_ok_def)

lemma io_ok_done: "io_ok s \<Longrightarrow> session_ok
  (if \<not> hs_closed s \<or> hs_read_in_flight s \<or> hs_write_in_progress s \<or> hs_offline_mark_in_flight s
   then s else s\<lparr>hs_done := True\<rparr>)"
  by (cases "hs_closed s"; cases "hs_read_in_flight s"; cases "hs_write_in_progress s"; cases "hs_offline_mark_in_flight s")
    (simp_all add: session_ok_def settled_def io_ok_def)

lemma io_ok_marked:
  "\<lbrakk>io_ok s; hs_closed s; \<not> hs_offline_mark_in_flight s; \<not> hs_done s; rs = hs_requests s @ [Mark_offline a at]\<rbrakk>
   \<Longrightarrow> session_ok (s\<lparr>hs_offline_mark_in_flight := True, hs_requests := rs\<rparr>)"
  by (simp add: session_ok_def settled_def io_ok_def)

lemma io_MaybeMarkDone:
  "io_ok (mc_rest w) \<Longrightarrow> wp MaybeMarkDone (\<lambda>_ w. session_ok (mc_rest w)) E w"
  using io_ok_done [of "mc_rest w"] by (simp add: MaybeMarkDone_def)

lemma io_CloseSession:
  assumes "io_ok (mc_rest w)" "hs_closed (mc_rest w) \<Longrightarrow> settled (mc_rest w)"
  shows "wp (CloseSession api) (\<lambda>_ w. session_ok (mc_rest w)) E w"
proof (cases "hs_closed (mc_rest w)")
  case True
  then show ?thesis using assms by (simp add: CloseSession_def session_ok_def)
next
  case False
  then have "\<not> hs_offline_mark_in_flight (mc_rest w)" "\<not> hs_done (mc_rest w)" using assms(1) by (auto simp: io_ok_def)
  then show ?thesis
    using False io_ok_closed [OF assms(1)]
    by (auto simp: CloseSession_def intro!: io_MaybeMarkDone io_ok_marked split: prod.split option.split)
qed

lemma ok_CloseSession: "preserves session_ok (CloseSession api)"
  by (rule preservesI, rule io_CloseSession) (simp_all add: session_ok_def)

lemma ok_OnCommandClaimComplete: "preserves session_ok (OnCommandClaimComplete api wire i claimed)"
  unfolding OnCommandClaimComplete_def SubmitCommandData_def EncodeCommandFrame_def
  by (auto intro!: preserves_rules ok_library ok_change_stream ok_TryStartQueuedCommands
      ok_FlushSession ok_CloseSession split: sum.split option.split)

lemma ok_OnChunkHandled:
  assumes "session_ok (mc_rest w)"
  shows "wp (OnChunkHandled api i results) (\<lambda>_ w. session_ok (mc_rest w)) (\<lambda>w. session_ok (mc_rest w)) w"
proof (cases "hs_closed (mc_rest w)")
  case True
  then have "\<not> hs_session (mc_rest w)" using assms by (simp add: session_ok_def io_ok_def)
  then show ?thesis using assms by (simp add: OnChunkHandled_def split: option.split)
next
  case False
  have "preserves (open_with b) (OnChunkHandled api i results)" for b
    unfolding OnChunkHandled_def Let_def
    by (intro open_rules open_TrySubmitEventResponse open_send_all open_flush_hook)
  then show ?thesis using open_wp assms False by blast
qed

lemma ok_OnTaskQueueChanged: "preserves session_ok (OnTaskQueueChanged api)"
  unfolding OnTaskQueueChanged_def
  by (intro preserves_rules ok_TryStartQueuedCommands preserves_change)
    (simp add: session_ok_def)

lemma open_DoRead:
  "open_with False (mc_rest w) \<Longrightarrow> wp DoRead (\<lambda>_ w. session_ok (mc_rest w)) E w"
  by (auto simp: DoRead_def open_defs session_ok_def settled_def)

lemma io_ok_read_done:
  "\<lbrakk>io_ok s; Start_read \<in> set (hs_requests s)\<rbrakk>
   \<Longrightarrow> io_ok (s\<lparr>hs_requests := remove1 Start_read (hs_requests s), hs_read_in_flight := False\<rparr>)"
  by (auto simp: io_ok_def filter_remove1 filter_empty_conv split: if_splits)

lemma io_ok_write_done:
  assumes "io_ok s" "Start_write data \<in> set (hs_requests s)"
  shows "io_ok (s\<lparr>hs_requests := remove1 (Start_write data) (hs_requests s), hs_write_in_progress := False\<rparr>)"
proof -
  have "Start_write data \<in> set (filter is_write (hs_requests s))" using assms(2) by simp
  moreover have writes: "filter is_write (hs_requests s) =
      (if hs_write_in_progress s then [Start_write (hd (hs_pending_writes s))] else [])"
    using assms(1) by (simp add: io_ok_def)
  ultimately have "hs_write_in_progress s" "data = hd (hs_pending_writes s)" by (simp_all split: if_splits)
  then show ?thesis using assms(1) writes by (auto simp: io_ok_def filter_remove1)
qed

lemma io_ok_mark_done:
  assumes "io_ok s" "Mark_offline a at \<in> set (hs_requests s)"
  shows "io_ok (s\<lparr>hs_requests := remove1 (Mark_offline a at) (hs_requests s), hs_offline_mark_in_flight := False\<rparr>)"
proof -
  have "Mark_offline a at \<in> set (filter is_mark (hs_requests s))" using assms(2) by simp
  then show ?thesis using assms(1)
    by (auto simp: io_ok_def filter_remove1 length_remove1 split: if_splits)
qed

lemma filter_remove1_other: "\<not> P r \<Longrightarrow> filter P (remove1 r rs) = filter P rs"
  by (induction rs) auto

lemma ok_other_done:
  "\<lbrakk>session_ok s; \<not> is_read r \<and> \<not> is_write r \<and> \<not> is_mark r\<rbrakk>
   \<Longrightarrow> session_ok (s\<lparr>hs_requests := remove1 r (hs_requests s)\<rparr>)"
proof -
  assume r: "\<not> is_read r \<and> \<not> is_write r \<and> \<not> is_mark r" and ok: "session_ok s"
  have "io_ok (s\<lparr>hs_requests := remove1 r (hs_requests s)\<rparr>) = io_ok s"
    using r by (simp add: io_ok_def filter_remove1_other)
  then show ?thesis using ok by (simp add: session_ok_def settled_def)
qed

lemma io_OnRead:
  assumes "io_ok (mc_rest w\<lparr>hs_read_in_flight := False\<rparr>)"
  shows "wp (OnRead api ec bytes) (\<lambda>_ w. session_ok (mc_rest w)) (\<lambda>w. True) w"
proof (cases "hs_closed (mc_rest w) \<or> ec \<noteq> Io_ok")
  case True
  then show ?thesis using assms
    by (auto simp: OnRead_def intro!: io_MaybeMarkDone io_CloseSession)
next
  case False
  let ?w = "w\<lparr>mc_rest := mc_rest w\<lparr>hs_read_in_flight := False\<rparr>\<rparr>"
  let ?m = "prog_bind (mem_recv api bytes) (\<lambda>rv. prog_bind (prog_res (check_rv api rv ''receive http2 bytes'')) (\<lambda>_.
    prog_bind (FlushSession api) (\<lambda>_. prog_return True)))"
  have keep: "preserves (open_with False) ?m"
    by (intro preserves_bind preserves_pure open_mem_recv open_FlushSession)
  have op: "open_with False (mc_rest ?w)" using False assms by (simp add: open_with_def)
  have "wp (prog_catch ?m (\<lambda>ex. prog_bind (CloseSession api) (\<lambda>_. prog_return False)))
    (\<lambda>ok w. wp (if ok then DoRead else prog_return ()) (\<lambda>_ w. session_ok (mc_rest w)) (\<lambda>w. True) w) (\<lambda>w. True) ?w"
  proof (rule wp_catch, rule preservesD [OF keep op])
    fix ok and w' :: "'a session_state machine"
    assume "open_with False (mc_rest w')"
    then show "wp (if ok then DoRead else prog_return ()) (\<lambda>_ w. session_ok (mc_rest w)) (\<lambda>w. True) w'"
      using open_DoRead open_session_ok by auto
  next
    fix w' :: "'a session_state machine"
    assume "open_with False (mc_rest w')"
    then have "wp (CloseSession api) (\<lambda>_ w. session_ok (mc_rest w)) (\<lambda>w. True) w'"
      by (intro io_CloseSession) (simp_all add: open_with_def)
    then show "\<forall>e. wp (prog_bind (CloseSession api) (\<lambda>_. prog_return False))
      (\<lambda>ok w. wp (if ok then DoRead else prog_return ()) (\<lambda>_ w. session_ok (mc_rest w)) (\<lambda>w. True) w) (\<lambda>w. True) w'"
      by (auto elim: wp_mono)
  qed
  then show ?thesis using False by (simp add: OnRead_def)
qed

lemma io_OnWrite:
  assumes "io_ok (mc_rest w\<lparr>hs_write_in_progress := False\<rparr>)"
  shows "wp (OnWrite api ec) (\<lambda>_ w. session_ok (mc_rest w)) (\<lambda>w. True) w"
proof -
  let ?s = "hs_pending_writes_update tl (mc_rest w\<lparr>hs_write_in_progress := False\<rparr>)"
  have popped: "io_ok ?s" using assms by (simp add: io_ok_def)
  show ?thesis
  proof (cases "hs_closed (mc_rest w) \<or> ec \<noteq> Io_ok")
    case True
    then show ?thesis using assms popped
      by (auto simp: OnWrite_def intro!: io_MaybeMarkDone io_CloseSession)
  next
    case False
    let ?b = "hs_read_in_flight (mc_rest w)"
    have "open_with ?b ?s" using False popped by (simp add: open_with_def)
    moreover have "preserves (open_with ?b)
      (prog_bind FinalizeSentCommandData (\<lambda>_. prog_bind FlushOutput (\<lambda>_. TryStartQueuedCommands api)))"
      unfolding FinalizeSentCommandData_def
      by (intro preserves_bind open_streams open_FlushOutput open_TryStartQueuedCommands)
    ultimately have "wp (prog_bind FinalizeSentCommandData (\<lambda>_. prog_bind FlushOutput (\<lambda>_. TryStartQueuedCommands api)))
      (\<lambda>_ w. session_ok (mc_rest w)) (\<lambda>w. True) (w\<lparr>mc_rest := ?s\<rparr>)"
      by (intro preservesD [where I = "open_with ?b"]) (simp_all add: open_session_ok)
    then show ?thesis using False by (simp add: OnWrite_def)
  qed
qed

lemma ok_Start_session:
  "wp (Start_session api) (\<lambda>_ w. session_ok (mc_rest w)) (\<lambda>w. True)
     \<lparr>mc_files = fs, mc_rest = new_session connection_id registry y\<rparr>"
proof -
  have flush: "wp (FlushSession api) (\<lambda>_. wp DoRead (\<lambda>_ w. session_ok (mc_rest w)) (\<lambda>w. True)) (\<lambda>w. True) w"
    if "open_with False (mc_rest w)" for w :: "'a session_state machine"
    by (rule preservesD [OF open_FlushSession that]) (simp_all add: open_DoRead)
  show ?thesis
    by (simp add: Start_session_def split_beta split: sum.split)
      (intro allI impI flush, simp add: new_session_def open_defs)
qed

lemma ok_step:
  assumes "session_step api wire w w'" "session_ok (mc_rest w)"
  shows "session_ok (mc_rest w')"
proof -
  have io: "io_ok (mc_rest w)" using assms(2) by (simp add: session_ok_def)
  note completed_def [simp]
  show ?thesis
    using assms(1)
  proof cases
    case (read_completes ec bytes)
    show ?thesis
      by (rule wp_run [OF io_OnRead read_completes(2)]) (use io_ok_read_done [OF io read_completes(1)] in simp)
  next
    case (write_completes data ec)
    show ?thesis
      by (rule wp_run [OF io_OnWrite write_completes(2)]) (use io_ok_write_done [OF io write_completes(1)] in simp)
  next
    case (claim_completes i agent_id now claimed)
    then have "session_ok (mc_rest (completed (Claim_task i agent_id now) w))"
      using ok_other_done [OF assms(2)] by simp
    then show ?thesis
      using keptI [OF ok_OnCommandClaimComplete claim_completes(2)] unfolding kept_def by simp
  next
    case (chunk_completes i data results)
    then have "session_ok (mc_rest (completed (Push_chunk i data) w))"
      using ok_other_done [OF assms(2)] by simp
    from wp_run [OF ok_OnChunkHandled [OF this] chunk_completes(2)] show ?thesis .
  next
    case (mark_completes agent_id at)
    have "wp OnOfflineMarked (\<lambda>_ w. session_ok (mc_rest w)) (\<lambda>w. True) (completed (Mark_offline agent_id at) w)"
      using io_ok_mark_done [OF io mark_completes(1)] unfolding OnOfflineMarked_def
      by (auto intro!: io_MaybeMarkDone)
    from wp_run [OF this mark_completes(2)] show ?thesis .
  next
    case queue_changes
    show ?thesis using keptI [OF ok_OnTaskQueueChanged queue_changes(1)] assms(2) unfolding kept_def by simp
  next
    case server_closes
    show ?thesis using keptI [OF ok_CloseSession server_closes(1)] assms(2) unfolding kept_def by simp
  next
    case (registry_changes registry)
    then show ?thesis using assms(2) by (simp add: session_ok_def)
  qed
qed

lemma reached_session_ok: "session_reaches api wire w \<Longrightarrow> session_ok (mc_rest w)"
  by (induction rule: session_reaches.induct) (auto intro: ok_step wp_run [OF ok_Start_session])

end
