(* ===== verification/Session_Streams.thy ===== *)
theory Session_Streams
  imports Session_Invariants
begin

section \<open>apps/server: what holds of the streams of a session\<close>

text \<open>
  A command stream has at most one claim in flight, and none while a command is being sent; a request
  with events counts the chunks that are still with the worker pool.  Both rest on the ids of streams:
  HTTP/2 clients open them in increasing order and never use one twice.
\<close>

definition opens :: "('y \<Rightarrow> int) \<Rightarrow> recv_event \<Rightarrow> 'y \<Rightarrow> 'y \<Rightarrow> bool" where
  "opens newest event y y' =
     (case event of
        Begin_headers i ty \<Rightarrow> if ty = Request_headers then newest y < i \<and> newest y' = i else newest y' = newest y
      | _ \<Rightarrow> newest y' = newest y)"

definition stream_ids_increase :: "'y server_http2 \<Rightarrow> ('y \<Rightarrow> int) \<Rightarrow> bool" where
  "stream_ids_increase api newest =
     (\<forall>y. (case sh_recv_next api y of (event, y') \<Rightarrow> opens newest event y y') \<and>
          newest (snd (sh_new_session api y)) = newest y \<and> newest (snd (sh_submit_settings api y)) = newest y \<and>
          (\<forall>i status b. newest (snd (sh_submit_response api i status b y)) = newest y) \<and>
          (\<forall>i. newest (snd (sh_submit_headers api i y)) = newest y) \<and>
          (\<forall>i. newest (snd (sh_submit_data api i y)) = newest y) \<and>
          newest (snd (sh_send_next api y)) = newest y \<and>
          (\<forall>i data eof. newest (sh_data_read api i data eof y) = newest y) \<and>
          (\<forall>bytes. newest (sh_recv_start api bytes y) = newest y) \<and>
          newest (snd (sh_now api y)) = newest y \<and> newest (snd (sh_uuid api y)) = newest y \<and>
          newest (snd (sh_pool_accepts api y)) = newest y)"

definition pool_takes_work :: "'y server_http2 \<Rightarrow> bool" where
  "pool_takes_work api = (\<forall>y. fst (sh_pool_accepts api y))"

fun is_claim :: "int \<Rightarrow> request \<Rightarrow> bool" where
  "is_claim i (Claim_task j agent_id now) = (i = j)" | "is_claim i _ = False"

fun is_chunk :: "int \<Rightarrow> request \<Rightarrow> bool" where
  "is_chunk i (Push_chunk j data) = (i = j)" | "is_chunk i _ = False"

definition claims :: "int \<Rightarrow> request list \<Rightarrow> nat" where
  "claims i rs = length (filter (is_claim i) rs)"

definition chunks :: "int \<Rightarrow> request list \<Rightarrow> nat" where
  "chunks i rs = length (filter (is_chunk i) rs)"

definition stream_ok :: "bool \<Rightarrow> bool \<Rightarrow> nat \<Rightarrow> nat \<Rightarrow> stream_state \<Rightarrow> bool" where
  "stream_ok live pool n k st =
     ((live \<longrightarrow> n = (if ss_command_claim_in_flight st then 1 else 0)) \<and>
      (live \<and> pool \<longrightarrow> ss_pending_event_chunks st = k) \<and>
      (ss_command_claim_in_flight st \<longrightarrow> ss_command_stream st \<and> ss_response_body st = []) \<and>
      (ss_command_data_in_flight st \<longrightarrow> ss_command_stream st) \<and>
      (ss_response_body st \<noteq> [] \<longleftrightarrow> ss_command_data_in_flight st) \<and>
      ss_response_offset st \<le> length (ss_response_body st))"

definition streams_ok :: "bool \<Rightarrow> ('y \<Rightarrow> int) \<Rightarrow> 'y session_state \<Rightarrow> bool" where
  "streams_ok pool newest s =
     (distinct (map fst (hs_streams s)) \<and>
      (\<forall>(i, st) \<in> set (hs_streams s). i \<le> newest (hs_lib s) \<and>
         stream_ok (hs_session s) pool (claims i (hs_requests s)) (chunks i (hs_requests s)) st) \<and>
      (\<forall>i. claims i (hs_requests s) \<le> 1 \<and>
         (newest (hs_lib s) < i \<longrightarrow> claims i (hs_requests s) = 0 \<and> chunks i (hs_requests s) = 0)) \<and>
      (hs_closed s \<longrightarrow> \<not> hs_session s))"

lemma count_append [simp]:
  "claims i (rs @ [r]) = claims i rs + (if is_claim i r then 1 else 0)"
  "chunks i (rs @ [r]) = chunks i rs + (if is_chunk i r then 1 else 0)"
  by (simp_all add: claims_def chunks_def)

lemma count_remove1 [simp]:
  "r \<in> set rs \<Longrightarrow> claims i (remove1 r rs) = claims i rs - (if is_claim i r then 1 else 0)"
  "r \<in> set rs \<Longrightarrow> chunks i (remove1 r rs) = chunks i rs - (if is_chunk i r then 1 else 0)"
  by (auto simp: claims_def chunks_def filter_remove1_other filter_remove1 length_remove1)

lemma count_pos:
  "Claim_task i a now \<in> set rs \<Longrightarrow> 0 < claims i rs" "Push_chunk i data \<in> set rs \<Longrightarrow> 0 < chunks i rs"
  by (force simp: claims_def chunks_def filter_empty_conv)+

lemma FindStream_Some:
  "FindStream s i = Some st \<Longrightarrow> (i, st) \<in> set (hs_streams s)"
  by (auto simp: FindStream_def dest: map_of_SomeD)

lemma streams_okD:
  "\<lbrakk>streams_ok pool newest s; (j, x) \<in> set (hs_streams s)\<rbrakk> \<Longrightarrow> j \<le> newest (hs_lib s)"
  "\<lbrakk>streams_ok pool newest s; (j, x) \<in> set (hs_streams s)\<rbrakk>
   \<Longrightarrow> stream_ok (hs_session s) pool (claims j (hs_requests s)) (chunks j (hs_requests s)) x"
  by (auto simp: streams_ok_def)

text \<open>Changes of one stream, and of the library, which do not touch what the invariant reads.\<close>

lemma map_fst_change [simp]:
  "map fst (hs_streams (change_stream i f s)) = map fst (hs_streams s)"
  "hs_requests (change_stream i f s) = hs_requests s" "hs_lib (change_stream i f s) = hs_lib s"
  "hs_session (change_stream i f s) = hs_session s" "hs_closed (change_stream i f s) = hs_closed s"
  by (auto simp: change_stream_def)

lemma map_fst_pairs [simp]: "map (fst \<circ> (\<lambda>(i, x). (i, g i x))) xs = map fst xs"
  by auto

lemma streams_change:
  assumes "streams_ok pool newest s"
    "\<And>n k st. \<lbrakk>FindStream s i = Some st; stream_ok (hs_session s) pool n k st\<rbrakk>
      \<Longrightarrow> stream_ok (hs_session s) pool n k (f st)"
  shows "streams_ok pool newest (change_stream i f s)"
proof -
  have "FindStream s i = Some st" if "(i, st) \<in> set (hs_streams s)" for st
    using that assms(1) by (simp add: FindStream_def streams_ok_def)
  with assms show ?thesis
    unfolding streams_ok_def change_stream_def by (fastforce split: if_splits)
qed

lemma streams_map:
  assumes "streams_ok pool newest s"
    "\<And>n k st. stream_ok (hs_session s) pool n k st \<Longrightarrow> stream_ok (hs_session s) pool n k (f st)"
  shows "streams_ok pool newest (s\<lparr>hs_streams := map (\<lambda>(i, st). (i, f st)) (hs_streams s)\<rparr>)"
  using assms unfolding streams_ok_def by fastforce

lemma streams_library:
  "\<lbrakk>streams_ok pool newest s; newest y = newest (hs_lib s)\<rbrakk> \<Longrightarrow> streams_ok pool newest (s\<lparr>hs_lib := y\<rparr>)"
  by (simp add: streams_ok_def)

lemma streams_updates [simp]:
  "streams_ok pool newest (hs_registry_update fa s) = streams_ok pool newest s"
  "streams_ok pool newest (hs_pending_writes_update fb s) = streams_ok pool newest s"
  "streams_ok pool newest (hs_read_in_flight_update fc s) = streams_ok pool newest s"
  "streams_ok pool newest (hs_write_in_progress_update fd s) = streams_ok pool newest s"
  "streams_ok pool newest (hs_offline_mark_in_flight_update fe s) = streams_ok pool newest s"
  "streams_ok pool newest (hs_done_update ff s) = streams_ok pool newest s"
  "streams_ok pool newest (hs_hooks_update fg s) = streams_ok pool newest s"
  "streams_ok pool newest (hs_subscribed_update fh s) = streams_ok pool newest s"
  by (simp_all add: streams_ok_def)

lemma streams_request:
  "\<lbrakk>streams_ok pool newest s; \<And>i. \<not> is_claim i r \<and> \<not> is_chunk i r\<rbrakk>
   \<Longrightarrow> streams_ok pool newest (s\<lparr>hs_requests := hs_requests s @ [r]\<rparr>)"
  by (simp add: streams_ok_def)

subsection \<open>What the handlers keep\<close>

lemma ids_facts:
  assumes "stream_ids_increase api newest"
  shows "newest (snd (sh_new_session api y)) = newest y" "newest (snd (sh_submit_settings api y)) = newest y"
    "newest (snd (sh_submit_response api i status b y)) = newest y"
    "newest (snd (sh_submit_headers api i y)) = newest y" "newest (snd (sh_submit_data api i y)) = newest y"
    "newest (snd (sh_send_next api y)) = newest y" "newest (sh_data_read api i data b y) = newest y"
    "newest (sh_recv_start api data y) = newest y" "newest (snd (sh_now api y)) = newest y"
    "newest (snd (sh_uuid api y)) = newest y" "newest (snd (sh_pool_accepts api y)) = newest y"
  using assms by (simp_all add: stream_ids_increase_def)

lemma str_library: "(\<And>y. newest (snd (g y)) = newest y) \<Longrightarrow> preserves (streams_ok pool newest) (library g)"
  by (rule preserves_library) (simp add: streams_library)

lemma str_change_stream:
  "(\<And>live n k st. stream_ok live pool n k st \<Longrightarrow> stream_ok live pool n k (f st))
   \<Longrightarrow> preserves (streams_ok pool newest) (change_session (change_stream i f))"
  by (rule preserves_change) (simp add: streams_change)

lemma str_start:
  "(\<And>i. \<not> is_claim i r \<and> \<not> is_chunk i r) \<Longrightarrow> preserves (streams_ok pool newest) (start r)"
  by (rule preserves_start) (simp add: streams_request)

lemmas str_rules = preserves_rules str_library str_change_stream str_start

lemma str_SendCallback: "preserves (streams_ok pool newest) (SendCallback data)"
  unfolding SendCallback_def by (rule preserves_change) simp

lemma str_OnStreamClose: "preserves (streams_ok pool newest) (OnStreamCloseCallback i)"
  unfolding OnStreamCloseCallback_def
proof (rule preserves_change)
  fix s :: "'a session_state"
  assume "streams_ok pool newest s"
  moreover have "set (AList.delete i xs) \<subseteq> set xs" for xs :: "(int \<times> stream_state) list"
    by (auto simp: AList.delete_eq)
  ultimately show "streams_ok pool newest (s\<lparr>hs_streams := AList.delete i (hs_streams s)\<rparr>)"
    by (fastforce simp: streams_ok_def distinct_delete)
qed

lemma stream_ok_read:
  "stream_ok live pool n k st \<Longrightarrow> stream_ok live pool n k (snd (ResponseReadCallback limit st))"
  by (auto simp: stream_ok_def ResponseReadCallback_def Let_def)

lemma str_read_source:
  assumes ids: "stream_ids_increase api newest"
  shows "preserves (streams_ok pool newest) (read_source api i limit)"
proof (rule preservesI)
  fix w :: "'a session_state machine"
  assume "streams_ok pool newest (mc_rest w)"
  then show "wp (read_source api i limit) (\<lambda>_ w. streams_ok pool newest (mc_rest w))
    (\<lambda>w. streams_ok pool newest (mc_rest w)) w"
    by (auto simp: read_source_def split_beta ids_facts [OF ids] split: option.split
      intro!: streams_library streams_change stream_ok_read)
qed

lemma str_FlushOutput: "preserves (streams_ok pool newest) FlushOutput"
  unfolding FlushOutput_def
  by (auto intro!: preserves_get str_rules preserves_change split: list.split)

lemma str_send_all:
  assumes ids: "stream_ids_increase api newest"
  shows "preserves (streams_ok pool newest) (send_all api)"
  unfolding send_all_def
  by (intro str_rules session_send_preserves str_SendCallback str_OnStreamClose str_read_source ids)
    (simp_all add: ids_facts [OF ids])

lemma str_FlushSession:
  "stream_ids_increase api newest \<Longrightarrow> preserves (streams_ok pool newest) (FlushSession api)"
  unfolding FlushSession_def by (intro preserves_rules str_send_all str_FlushOutput)

lemma str_flush_hook: "preserves (streams_ok pool newest) flush_hook"
  unfolding flush_hook_def by (intro preserves_rules str_FlushOutput)

lemma str_SubmitSimpleResponse:
  "stream_ids_increase api newest \<Longrightarrow> preserves (streams_ok pool newest) (SubmitSimpleResponse api i status)"
  unfolding SubmitSimpleResponse_def Let_def by (intro str_rules) (simp_all add: ids_facts)

lemma str_SubmitCommandHeaders:
  "stream_ids_increase api newest \<Longrightarrow> preserves (streams_ok pool newest) (SubmitCommandHeaders api i)"
  unfolding SubmitCommandHeaders_def by (intro str_rules) (simp_all add: ids_facts stream_ok_def)

text \<open>A request for one stream comes or goes, and the stream changes with it.\<close>

lemma streams_change_request:
  assumes ok: "streams_ok pool newest s" and found: "FindStream s i = Some st"
    and others: "\<And>j. j \<noteq> i \<Longrightarrow> claims j rs = claims j (hs_requests s) \<and> chunks j rs = chunks j (hs_requests s)"
    and here: "claims i rs \<le> 1"
      "stream_ok (hs_session s) pool (claims i (hs_requests s)) (chunks i (hs_requests s)) st \<Longrightarrow>
       stream_ok (hs_session s) pool (claims i rs) (chunks i rs) (f st)"
    and y: "newest y = newest (hs_lib s)"
  shows "streams_ok pool newest (change_stream i f s\<lparr>hs_lib := y, hs_requests := rs\<rparr>)"
proof -
  have only: "x = st" if "(i, x) \<in> set (hs_streams s)" for x
    using that found ok by (simp add: FindStream_def streams_ok_def)
  have st: "stream_ok (hs_session s) pool (claims i rs) (chunks i rs) (f st)" "i \<le> newest (hs_lib s)"
    using streams_okD [OF ok FindStream_Some [OF found]] here by simp_all
  have each: "stream_ok (hs_session s) pool (claims j rs) (chunks j rs) (if j = i then f x else x)"
    if "(j, x) \<in> set (hs_streams s)" for j x
    using only that st(1) others streams_okD(2) [OF ok that] by (cases "j = i") auto
  have "claims j rs \<le> 1 \<and> (newest y < j \<longrightarrow> claims j rs = 0 \<and> chunks j rs = 0)" for j
    using ok others [of j] here st(2) y by (cases "j = i") (auto simp: streams_ok_def)
  moreover have "\<forall>(j, x) \<in> set (hs_streams (change_stream i f s)). j \<le> newest y \<and>
      stream_ok (hs_session s) pool (claims j rs) (chunks j rs) x"
    using each streams_okD(1) [OF ok] y by (auto simp: change_stream_def)
  ultimately show ?thesis
    using ok by (simp add: streams_ok_def)
qed

lemma streams_claimed:
  assumes ok: "streams_ok pool newest s" and live: "hs_session s" and found: "FindStream s i = Some st"
    and free: "ss_command_stream st" "\<not> ss_command_claim_in_flight st" "ss_response_body st = []"
    and y: "newest y = newest (hs_lib s)"
  shows "streams_ok pool newest (change_stream i
    (\<lambda>st. st\<lparr>ss_command_refresh_pending := False, ss_command_claim_in_flight := True\<rparr>) s
      \<lparr>hs_lib := y, hs_requests := hs_requests s @ [Claim_task i agent_id now]\<rparr>)"
proof (rule streams_change_request [OF ok found _ _ _ y])
  have "claims i (hs_requests s) = 0"
    using streams_okD(2) [OF ok FindStream_Some [OF found]] live free(2) by (simp add: stream_ok_def)
  then show "claims i (hs_requests s @ [Claim_task i agent_id now]) \<le> 1" by simp
qed (use live free in \<open>simp_all add: stream_ok_def\<close>)

lemma str_start_claim:
  assumes ids: "stream_ids_increase api newest" and ok: "streams_ok pool newest (mc_rest w)" "hs_session (mc_rest w)"
  shows "wp (start_claim api agent_id i) (\<lambda>_ w. streams_ok pool newest (mc_rest w) \<and> hs_session (mc_rest w))
    (\<lambda>w. streams_ok pool newest (mc_rest w)) w"
proof (cases "FindStream (mc_rest w) i")
  case None
  then show ?thesis using ok by (simp add: start_claim_def)
next
  case (Some st)
  show ?thesis
  proof (cases "ss_command_stream st \<and> ss_command_refresh_pending st \<and> \<not> ss_command_claim_in_flight st \<and>
      \<not> ss_command_data_in_flight st \<and> ss_response_body st = []")
    case True
    then show ?thesis
      using Some ok(2) streams_claimed [OF ok Some] by (simp add: start_claim_def split_beta ids_facts [OF ids])
  next
    case False
    then show ?thesis using Some ok by (auto simp: start_claim_def)
  qed
qed

lemma str_TryStartQueuedCommands:
  assumes ids: "stream_ids_increase api newest"
  shows "preserves (streams_ok pool newest) (TryStartQueuedCommands api)"
proof (rule preservesI)
  fix w :: "'a session_state machine"
  assume ok: "streams_ok pool newest (mc_rest w)"
  have each: "wp (prog_each (start_claim api agent_id) is)
      (\<lambda>_ w. streams_ok pool newest (mc_rest w)) (\<lambda>w. streams_ok pool newest (mc_rest w)) w"
    if "streams_ok pool newest (mc_rest w)" "hs_session (mc_rest w)" for agent_id "is" w
    using that
  proof (induction "is" arbitrary: w)
    case (Cons i "is")
    then show ?case using wp_mono [OF str_start_claim [OF ids]] by simp
  qed simp
  show "wp (TryStartQueuedCommands api) (\<lambda>_ w. streams_ok pool newest (mc_rest w))
    (\<lambda>w. streams_ok pool newest (mc_rest w)) w"
    using ok each by (simp add: TryStartQueuedCommands_def split: option.split)
qed

lemma str_HandleCommandHeadersEnd:
  "stream_ids_increase api newest \<Longrightarrow> preserves (streams_ok pool newest) (HandleCommandHeadersEnd api i)"
  unfolding HandleCommandHeadersEnd_def Let_def
  by (intro str_rules str_SubmitSimpleResponse str_SubmitCommandHeaders str_TryStartQueuedCommands)
    (simp_all add: stream_ok_def)

lemma str_TrySubmitEventResponse:
  "stream_ids_increase api newest \<Longrightarrow> preserves (streams_ok pool newest) (TrySubmitEventResponse api i)"
  unfolding TrySubmitEventResponse_def
  by (intro str_rules str_SubmitSimpleResponse) (simp_all add: stream_ok_def)

lemma str_OnFrameRecv:
  "stream_ids_increase api newest \<Longrightarrow> preserves (streams_ok pool newest) (OnFrameRecvCallback api i ty end_stream)"
  unfolding OnFrameRecvCallback_def
  by (intro str_rules str_SubmitSimpleResponse str_HandleCommandHeadersEnd str_TrySubmitEventResponse)
    (simp_all add: stream_ok_def)

lemma streams_pushed:
  assumes ok: "streams_ok pool newest s" and found: "FindStream s i = Some st" and y: "newest y = newest (hs_lib s)"
  shows "streams_ok pool newest (change_stream i
    (\<lambda>st. st\<lparr>ss_dispatcher := True, ss_pending_event_chunks := ss_pending_event_chunks st + 1\<rparr>) s
      \<lparr>hs_lib := y, hs_requests := hs_requests s @ [Push_chunk i data]\<rparr>)"
  by (rule streams_change_request [OF ok found _ _ _ y]) (use ok in \<open>simp_all add: stream_ok_def streams_ok_def\<close>)

lemma str_OnDataChunk:
  assumes ids: "stream_ids_increase api newest" and pool: "pool \<longrightarrow> pool_takes_work api"
  shows "preserves (streams_ok pool newest) (OnDataChunkRecvCallback api i data)"
proof (rule preservesI)
  fix w :: "'a session_state machine"
  assume ok: "streams_ok pool newest (mc_rest w)"
  let ?rest = "prog_bind (change_session (change_stream i (\<lambda>st. (less_pending st)\<lparr>ss_has_error := True\<rparr>))) (\<lambda>_.
    prog_bind (TrySubmitEventResponse api i) (\<lambda>_. prog_bind (send_all api) (\<lambda>_. flush_hook)))"
  have rest: "preserves (streams_ok pool newest) ?rest" if "\<not> pool"
    using that
    by (intro str_rules str_TrySubmitEventResponse str_send_all str_flush_hook ids)
      (simp add: stream_ok_def less_pending_def)
  show "wp (OnDataChunkRecvCallback api i data) (\<lambda>_ w. streams_ok pool newest (mc_rest w))
    (\<lambda>w. streams_ok pool newest (mc_rest w)) w"
  proof (cases "FindStream (mc_rest w) i")
    case (Some st)
    show ?thesis
    proof (cases "ss_method st \<noteq> ''POST'' \<or> ss_path st \<noteq> kControlEventsPath")
      case True
      then show ?thesis using Some ok
        by (auto simp: OnDataChunkRecvCallback_def stream_ok_def intro!: streams_change)
    next
      case False
      let ?s = "\<lambda>y. change_stream i (\<lambda>st. st\<lparr>ss_dispatcher := True,
        ss_pending_event_chunks := ss_pending_event_chunks st + 1\<rparr>) (mc_rest w)
          \<lparr>hs_lib := y, hs_requests := hs_requests (mc_rest w) @ [Push_chunk i data]\<rparr>"
      let ?y = "snd (sh_pool_accepts api (hs_lib (mc_rest w)))"
      have s: "streams_ok pool newest (?s ?y)" by (rule streams_pushed [OF ok Some]) (simp add: ids_facts [OF ids])
      then have "\<not> pool \<Longrightarrow> wp ?rest (\<lambda>_ w. streams_ok pool newest (mc_rest w))
          (\<lambda>w. streams_ok pool newest (mc_rest w)) (w\<lparr>mc_rest := ?s ?y\<rparr>)"
        using rest by (simp add: preserves_def del: wp_bind)
      then show ?thesis using Some False s pool
        by (auto simp: OnDataChunkRecvCallback_def split_beta pool_takes_work_def)
    qed
  qed (use ok in \<open>simp add: OnDataChunkRecvCallback_def\<close>)
qed

lemma insert_or_assign_new:
  "\<forall>j \<in> fst ` set xs. j < i \<Longrightarrow> insert_or_assign i st xs = xs @ [(i, st)]"
  by (induction xs) auto

lemma streams_opened:
  assumes ok: "streams_ok pool newest s" and new: "newest (hs_lib s) < i" "newest y = i"
  shows "streams_ok pool newest (s\<lparr>hs_lib := y, hs_streams := insert_or_assign i new_stream (hs_streams s)\<rparr>)"
proof -
  have below: "\<forall>j \<in> fst ` set (hs_streams s). j < i" using streams_okD(1) [OF ok] new(1) by force
  have none: "claims i (hs_requests s) = 0" "chunks i (hs_requests s) = 0"
    using ok new(1) by (simp_all add: streams_ok_def)
  have fresh: "stream_ok (hs_session s) pool 0 0 new_stream" by (simp add: stream_ok_def new_stream_def)
  have all: "\<forall>(j, x) \<in> set (hs_streams s @ [(i, new_stream)]). j \<le> i \<and>
      stream_ok (hs_session s) pool (claims j (hs_requests s)) (chunks j (hs_requests s)) x"
    using streams_okD(2) [OF ok] below none fresh by force
  have "distinct (map fst (hs_streams s @ [(i, new_stream)]))" using ok below by (force simp: streams_ok_def)
  moreover have "\<forall>j. claims j (hs_requests s) \<le> 1 \<and>
      (i < j \<longrightarrow> claims j (hs_requests s) = 0 \<and> chunks j (hs_requests s) = 0)"
    using ok new(1) unfolding streams_ok_def by (meson order.strict_trans)
  moreover have "hs_closed s \<longrightarrow> \<not> hs_session s" using ok by (simp add: streams_ok_def)
  moreover let ?s = "s\<lparr>hs_lib := y, hs_streams := hs_streams s @ [(i, new_stream)]\<rparr>"
  have "hs_streams ?s = hs_streams s @ [(i, new_stream)]" "hs_requests ?s = hs_requests s" "hs_session ?s = hs_session s"
    "hs_closed ?s = hs_closed s" "newest (hs_lib ?s) = i" using new(2) by simp_all
  ultimately show ?thesis
    unfolding streams_ok_def insert_or_assign_new [OF below] using all by presburger
qed

lemma str_on_event:
  assumes ids: "stream_ids_increase api newest" and pool: "pool \<longrightarrow> pool_takes_work api"
  shows "preserves (streams_ok pool newest) (prog_bind (library (sh_recv_next api)) (on_event api))"
proof (rule preservesI)
  fix w :: "'a session_state machine"
  assume ok: "streams_ok pool newest (mc_rest w)"
  obtain event y where run: "sh_recv_next api (hs_lib (mc_rest w)) = (event, y)" by fastforce
  then have opens: "opens newest event (hs_lib (mc_rest w)) y"
    using ids unfolding stream_ids_increase_def by (metis (mono_tags, lifting) case_prod_conv)
  let ?w = "w\<lparr>mc_rest := mc_rest w\<lparr>hs_lib := y\<rparr>\<rparr>"
  have "wp (on_event api event) (\<lambda>_ w. streams_ok pool newest (mc_rest w)) (\<lambda>w. streams_ok pool newest (mc_rest w)) ?w"
  proof (cases "\<exists>i. event = Begin_headers i Request_headers")
    case True
    then show ?thesis using streams_opened [OF ok] opens
      by (auto simp: on_event_def opens_def OnBeginHeadersCallback_def)
  next
    case False
    have "streams_ok pool newest (mc_rest ?w)"
      using ok opens False by (auto simp: opens_def intro!: streams_library split: recv_event.splits if_splits)
    moreover have "preserves (streams_ok pool newest) (on_event api event)"
      using False
      by (cases event)
        (auto simp: on_event_def OnBeginHeadersCallback_def OnHeaderCallback_def stream_ok_def
          intro!: str_OnDataChunk str_OnFrameRecv str_OnStreamClose str_rules ids pool)
    ultimately show ?thesis by (simp add: preserves_def)
  qed
  then show "wp (prog_bind (library (sh_recv_next api)) (on_event api)) (\<lambda>_ w. streams_ok pool newest (mc_rest w))
    (\<lambda>w. streams_ok pool newest (mc_rest w)) w"
    using run by simp
qed

lemma str_mem_recv:
  "\<lbrakk>stream_ids_increase api newest; pool \<longrightarrow> pool_takes_work api\<rbrakk> \<Longrightarrow> preserves (streams_ok pool newest) (mem_recv api bytes)"
  unfolding mem_recv_def
  by (intro preserves_bind recv_loop_preserves str_on_event str_library) (simp_all add: ids_facts)

lemma str_MaybeMarkDone: "preserves (streams_ok pool newest) MaybeMarkDone"
  unfolding MaybeMarkDone_def by (rule preserves_change) simp

lemma str_CloseSession:
  assumes "stream_ids_increase api newest"
  shows "preserves (streams_ok pool newest) (CloseSession api)"
proof -
  have "preserves (streams_ok pool newest) (change_session (\<lambda>s. s\<lparr>hs_closed := True, hs_hooks := False,
      hs_session := False, hs_subscribed := False\<rparr>))"
    by (rule preserves_change) (auto simp: streams_ok_def stream_ok_def)
  moreover have "preserves (streams_ok pool newest) (change_session (hs_registry_update g))"
    "preserves (streams_ok pool newest) (change_session (hs_offline_mark_in_flight_update h))" for g h
    by (rule preserves_change, simp)+
  ultimately show ?thesis
    unfolding CloseSession_def
    by (auto intro!: str_rules str_MaybeMarkDone simp: ids_facts [OF assms] split: prod.split)
qed

lemma str_DoRead: "preserves (streams_ok pool newest) DoRead"
  unfolding DoRead_def by (auto intro!: str_rules preserves_change str_MaybeMarkDone)

lemma str_OnRead:
  "\<lbrakk>stream_ids_increase api newest; pool \<longrightarrow> pool_takes_work api\<rbrakk> \<Longrightarrow> preserves (streams_ok pool newest) (OnRead api ec bytes)"
  unfolding OnRead_def
  by (intro preserves_rules preserves_catch preserves_change str_mem_recv str_FlushSession str_CloseSession
      str_DoRead str_MaybeMarkDone) simp_all

lemma str_OnWrite:
  assumes "stream_ids_increase api newest"
  shows "preserves (streams_ok pool newest) (OnWrite api ec)"
proof -
  have "stream_ok live pool n k (finalized st)" if "stream_ok live pool n k st" for live n k st
    using that by (auto simp: stream_ok_def finalized_def)
  then have "preserves (streams_ok pool newest) FinalizeSentCommandData"
    unfolding FinalizeSentCommandData_def by (intro preserves_change streams_map)
  then show ?thesis
    unfolding OnWrite_def using assms
    by (intro preserves_rules preserves_change str_CloseSession str_MaybeMarkDone str_FlushOutput
        str_TryStartQueuedCommands) simp_all
qed

lemma str_OnTaskQueueChanged:
  "stream_ids_increase api newest \<Longrightarrow> preserves (streams_ok pool newest) (OnTaskQueueChanged api)"
  unfolding OnTaskQueueChanged_def
  by (intro preserves_rules preserves_change streams_map str_TryStartQueuedCommands) (auto simp: stream_ok_def)

lemma str_OnOfflineMarked: "preserves (streams_ok pool newest) OnOfflineMarked"
  unfolding OnOfflineMarked_def by (intro preserves_bind preserves_change str_MaybeMarkDone) simp

subsection \<open>Claims and chunks that complete\<close>

lemma FindStream_change [simp]:
  "FindStream (change_stream i f s) j = map_option (if j = i then f else id) (FindStream s j)"
proof -
  have "map_of (map (\<lambda>(a, x). (a, if a = i then f x else x)) xs) j =
      map_option (if j = i then f else id) (map_of xs j)" for xs
    by (induction xs) auto
  then show ?thesis by (simp add: FindStream_def change_stream_def)
qed

lemma change_stream_twice [simp]:
  "change_stream i f (change_stream i g s) = change_stream i (\<lambda>st. f (g st)) s"
  "change_stream i f (s\<lparr>hs_lib := y\<rparr>) = change_stream i f s\<lparr>hs_lib := y\<rparr>"
  by (simp_all add: change_stream_def comp_def split_beta if_distrib [of fst] cong: if_cong)

lemma FindStream_lib [simp]:
  "FindStream (s\<lparr>hs_lib := y\<rparr>) i = FindStream s i" "FindStream (s\<lparr>hs_requests := rs\<rparr>) i = FindStream s i"
  by (simp_all add: FindStream_def)

lemma EncodeFrame_not_empty: "EncodeFrame payload = Inr f \<Longrightarrow> f \<noteq> []"
  by (auto simp: EncodeFrame_def length_prefix_def split: if_splits)

lemma streams_submitted:
  assumes ids: "stream_ids_increase api newest" and ok: "streams_ok pool newest s"
    and found: "FindStream s i = Some st" "ss_command_stream st" "\<not> ss_command_claim_in_flight st"
    and f: "f \<noteq> []"
  shows "wp (SubmitCommandData api i) (\<lambda>_ w. streams_ok pool newest (mc_rest w)) (\<lambda>w. True)
    (w\<lparr>mc_rest := change_stream i (\<lambda>st. st\<lparr>ss_response_body := f, ss_response_offset := 0\<rparr>) s\<rparr>)"
  using ok found f
  by (auto simp: SubmitCommandData_def split_beta ids_facts [OF ids] stream_ok_def split: sum.split
      intro!: streams_library streams_change)

text \<open>A request whose stream is gone, or whose session has ended, is dropped.\<close>

lemma streams_dropped:
  assumes ok: "streams_ok pool newest s" and r: "r \<in> set (hs_requests s)"
    and free: "\<And>i. \<lbrakk>hs_session s; FindStream s i \<noteq> None\<rbrakk> \<Longrightarrow> \<not> is_claim i r \<and> \<not> is_chunk i r"
  shows "streams_ok pool newest (s\<lparr>hs_requests := remove1 r (hs_requests s)\<rparr>)"
proof -
  let ?rs = "remove1 r (hs_requests s)"
  have "stream_ok (hs_session s) pool (claims j ?rs) (chunks j ?rs) x" if "(j, x) \<in> set (hs_streams s)" for j x
  proof (cases "hs_session s")
    case True
    have "j \<in> fst ` set (hs_streams s)" using that by force
    then have "FindStream s j \<noteq> None" unfolding FindStream_def map_of_eq_None_iff by blast
    then have "claims j ?rs = claims j (hs_requests s)" "chunks j ?rs = chunks j (hs_requests s)"
      using free [OF True] r by simp_all
    then show ?thesis using streams_okD(2) [OF ok that] by simp
  next
    case False
    then show ?thesis using streams_okD(2) [OF ok that] by (simp add: stream_ok_def)
  qed
  then have all: "\<forall>(j, x) \<in> set (hs_streams s). j \<le> newest (hs_lib s) \<and>
      stream_ok (hs_session s) pool (claims j ?rs) (chunks j ?rs) x"
    using streams_okD(1) [OF ok] by blast
  have "claims j ?rs \<le> 1 \<and> (newest (hs_lib s) < j \<longrightarrow> claims j ?rs = 0 \<and> chunks j ?rs = 0)" for j
    using ok r by (auto simp: streams_ok_def intro: le_trans [OF diff_le_self])
  then show ?thesis using ok all by (simp add: streams_ok_def)
qed

lemma streams_claim_done:
  assumes ok: "streams_ok pool newest s" and r: "Claim_task i agent_id now \<in> set (hs_requests s)"
    and live: "hs_session s" and found: "FindStream s i = Some st"
  shows "ss_command_claim_in_flight st" "claims i (hs_requests s) = 1"
    "streams_ok pool newest (change_stream i (ss_command_claim_in_flight_update (\<lambda>_. False)) s
      \<lparr>hs_requests := remove1 (Claim_task i agent_id now) (hs_requests s)\<rparr>)"
proof -
  have st: "stream_ok True pool (claims i (hs_requests s)) (chunks i (hs_requests s)) st"
    using streams_okD(2) [OF ok FindStream_Some [OF found]] live by simp
  then show "ss_command_claim_in_flight st" "claims i (hs_requests s) = 1"
    using count_pos(1) [OF r] by (auto simp: stream_ok_def split: if_splits)
  then have "streams_ok pool newest (change_stream i (ss_command_claim_in_flight_update (\<lambda>_. False)) s
      \<lparr>hs_lib := hs_lib s, hs_requests := remove1 (Claim_task i agent_id now) (hs_requests s)\<rparr>)"
    by (intro streams_change_request [OF ok found]) (use r live in \<open>auto simp: stream_ok_def\<close>)
  then show "streams_ok pool newest (change_stream i (ss_command_claim_in_flight_update (\<lambda>_. False)) s
      \<lparr>hs_requests := remove1 (Claim_task i agent_id now) (hs_requests s)\<rparr>)"
    by (simp add: change_stream_def)
qed

lemma change_stream_requests [simp]:
  "change_stream i f (s\<lparr>hs_requests := rs\<rparr>) = change_stream i f s\<lparr>hs_requests := rs\<rparr>"
  by (simp add: change_stream_def)

lemma str_OnCommandClaimComplete:
  assumes ids: "stream_ids_increase api newest" and ok: "streams_ok pool newest (mc_rest w)"
    and r: "Claim_task i agent_id now \<in> outstanding w"
  shows "wp (OnCommandClaimComplete api wire i claimed) (\<lambda>_ w. streams_ok pool newest (mc_rest w)) (\<lambda>w. True)
    (completed (Claim_task i agent_id now) w)"
proof (cases "hs_closed (mc_rest w) \<or> \<not> hs_session (mc_rest w) \<or> FindStream (mc_rest w) i = None")
  case True
  then have "streams_ok pool newest (mc_rest w\<lparr>hs_requests := remove1 (Claim_task i agent_id now) (hs_requests (mc_rest w))\<rparr>)"
    using ok by (intro streams_dropped r) (auto simp: streams_ok_def)
  then show ?thesis using True by (auto simp: OnCommandClaimComplete_def completed_def)
next
  case False
  then obtain st where live: "hs_session (mc_rest w)" "\<not> hs_closed (mc_rest w)" and found: "FindStream (mc_rest w) i = Some st"
    by auto
  let ?s = "change_stream i (ss_command_claim_in_flight_update (\<lambda>_. False)) (mc_rest w)
    \<lparr>hs_requests := remove1 (Claim_task i agent_id now) (hs_requests (mc_rest w))\<rparr>"
  let ?Q = "\<lambda>_ w. streams_ok pool newest (mc_rest w)"
  note fin = streams_claim_done [OF ok r live(1) found]
  have st: "ss_command_stream st"
    using streams_okD(2) [OF ok FindStream_Some [OF found]] fin(1) by (simp add: stream_ok_def)
  have keep: "wp m ?Q (\<lambda>w. True) v" if "preserves (streams_ok pool newest) m" "streams_ok pool newest (mc_rest v)"
    for m :: "('a, unit) handler" and v
    by (rule preservesD [OF that]) simp_all
  have submit: "wp (SubmitCommandData api i) (\<lambda>_. wp (FlushSession api) ?Q (\<lambda>w. True)) (\<lambda>w. True)
      (w\<lparr>mc_rest := change_stream i (\<lambda>st. st\<lparr>ss_response_body := f, ss_response_offset := 0\<rparr>) (?s\<lparr>hs_lib := y\<rparr>)\<rparr>)"
    if "f \<noteq> []" "newest y = newest (hs_lib (mc_rest w))" for f y
    by (rule wp_mono [OF streams_submitted [OF ids, where st = "st\<lparr>ss_command_claim_in_flight := False\<rparr>"]])
      (use that fin(3) found st in \<open>auto intro: keep str_FlushSession ids streams_library\<close>)
  show ?thesis
  proof (cases claimed)
    case (Inl ex)
    have "streams_ok pool newest (change_stream i (ss_has_error_update (\<lambda>_. True)) ?s)"
      by (rule streams_change [OF fin(3)]) (simp add: stream_ok_def)
    then show ?thesis
      using Inl live found keep [OF str_CloseSession [OF ids]] by (simp add: OnCommandClaimComplete_def completed_def)
  next
    case (Inr task)
    then show ?thesis
      using live found fin(3) keep [OF str_TryStartQueuedCommands [OF ids]] submit
      by (auto simp: OnCommandClaimComplete_def completed_def EncodeCommandFrame_def split_beta ids_facts [OF ids]
          EncodeFrame_not_empty split: option.split sum.split)
  qed
qed

lemma streams_chunk_done:
  assumes ok: "streams_ok pool newest s" and r: "Push_chunk i data \<in> set (hs_requests s)"
    and found: "FindStream s i = Some st"
  shows "streams_ok pool newest (change_stream i (\<lambda>st. (less_pending st)\<lparr>ss_has_error := e st\<rparr>) s
      \<lparr>hs_requests := remove1 (Push_chunk i data) (hs_requests s)\<rparr>)"
proof -
  have "streams_ok pool newest (change_stream i (\<lambda>st. (less_pending st)\<lparr>ss_has_error := e st\<rparr>) s
      \<lparr>hs_lib := hs_lib s, hs_requests := remove1 (Push_chunk i data) (hs_requests s)\<rparr>)"
    by (intro streams_change_request [OF ok found])
      (use r ok in \<open>simp_all add: stream_ok_def less_pending_def streams_ok_def\<close>)
  then show ?thesis by (simp add: change_stream_def)
qed

lemma str_OnChunkHandled:
  assumes ids: "stream_ids_increase api newest" and ok: "streams_ok pool newest (mc_rest w)"
    and r: "Push_chunk i data \<in> outstanding w"
  shows "wp (OnChunkHandled api i results) (\<lambda>_ w. streams_ok pool newest (mc_rest w)) (\<lambda>w. True)
    (completed (Push_chunk i data) w)"
proof (cases "\<not> hs_session (mc_rest w) \<or> FindStream (mc_rest w) i = None")
  case True
  then have "streams_ok pool newest (mc_rest w\<lparr>hs_requests := remove1 (Push_chunk i data) (hs_requests (mc_rest w))\<rparr>)"
    by (intro streams_dropped ok r) auto
  then show ?thesis using True by (auto simp: OnChunkHandled_def completed_def split: option.split)
next
  case False
  then obtain st where found: "FindStream (mc_rest w) i = Some st" and live: "hs_session (mc_rest w)" by auto
  have "preserves (streams_ok pool newest)
    (prog_bind (TrySubmitEventResponse api i) (\<lambda>_. prog_bind (send_all api) (\<lambda>_. flush_hook)))"
    by (intro preserves_bind str_TrySubmitEventResponse str_send_all str_flush_hook ids)
  note keep = preservesD [OF this]
  have "wp (prog_bind (TrySubmitEventResponse api i) (\<lambda>_. prog_bind (send_all api) (\<lambda>_. flush_hook)))
      (\<lambda>_ w. streams_ok pool newest (mc_rest w)) (\<lambda>w. True) v" if "streams_ok pool newest (mc_rest v)" for v
    using that by (rule keep) simp_all
  then show ?thesis
    using found live streams_chunk_done [OF ok r found]
    by (simp add: OnChunkHandled_def completed_def Let_def)
qed

subsection \<open>Every session that is reached\<close>

lemma str_step:
  assumes ids: "stream_ids_increase api newest" and pool: "pool \<longrightarrow> pool_takes_work api"
    and "session_step api wire w w'" and ok: "streams_ok pool newest (mc_rest w)"
  shows "streams_ok pool newest (mc_rest w')"
proof -
  have other: "streams_ok pool newest (mc_rest (completed r w))"
    if "r \<in> outstanding w" "\<And>i. \<not> is_claim i r \<and> \<not> is_chunk i r" for r
    using streams_dropped [OF ok that(1)] that(2) by (simp add: completed_def)
  have keep: "streams_ok pool newest (mc_rest w')"
    if "preserves (streams_ok pool newest) m" "m v = Some (Inr (), w')" "streams_ok pool newest (mc_rest v)"
    for m :: "('a, unit) handler" and v
    using keptI [OF that(1,2)] that(3) unfolding kept_def by simp
  show ?thesis
    using assms(3)
  proof cases
    case (read_completes ec bytes)
    show ?thesis by (rule keep [OF str_OnRead [OF ids pool] read_completes(2)]) (simp add: other read_completes(1))
  next
    case (write_completes data ec)
    show ?thesis by (rule keep [OF str_OnWrite [OF ids] write_completes(2)]) (simp add: other write_completes(1))
  next
    case (claim_completes i agent_id now claimed)
    from wp_run [OF str_OnCommandClaimComplete [OF ids ok claim_completes(1)] claim_completes(2)]
    show ?thesis .
  next
    case (chunk_completes i data results)
    from wp_run [OF str_OnChunkHandled [OF ids ok chunk_completes(1)] chunk_completes(2)] show ?thesis .
  next
    case (mark_completes agent_id at)
    show ?thesis by (rule keep [OF str_OnOfflineMarked mark_completes(2)]) (simp add: other mark_completes(1))
  next
    case queue_changes
    then show ?thesis using keep [OF str_OnTaskQueueChanged [OF ids]] ok by blast
  next
    case server_closes
    then show ?thesis using keep [OF str_CloseSession [OF ids]] ok by blast
  next
    case (registry_changes registry)
    then show ?thesis using ok by simp
  qed
qed

lemma str_Start_session:
  assumes ids: "stream_ids_increase api newest"
  shows "wp (Start_session api) (\<lambda>_ w. streams_ok pool newest (mc_rest w)) (\<lambda>w. True)
     \<lparr>mc_files = fs, mc_rest = new_session connection_id registry y\<rparr>"
proof -
  have "preserves (streams_ok pool newest) (prog_bind (FlushSession api) (\<lambda>_. DoRead))"
    by (intro preserves_bind str_FlushSession str_DoRead ids)
  note keep = preservesD [OF this]
  have flush: "wp (FlushSession api) (\<lambda>_. wp DoRead (\<lambda>_ w. streams_ok pool newest (mc_rest w)) (\<lambda>w. True)) (\<lambda>w. True) w"
    if "streams_ok pool newest (mc_rest w)" for w :: "'a session_state machine"
    using keep [OF that, of "\<lambda>_ w. streams_ok pool newest (mc_rest w)" "\<lambda>w. True"] by simp
  show ?thesis
    by (simp add: Start_session_def split_beta split: sum.split)
      (intro allI impI flush, simp add: new_session_def streams_ok_def claims_def chunks_def)
qed

lemma reached_streams_ok:
  assumes "session_reaches api wire w" "stream_ids_increase api newest" "pool \<longrightarrow> pool_takes_work api"
  shows "streams_ok pool newest (mc_rest w)"
  using assms
  by (induction rule: session_reaches.induct) (auto intro: str_step wp_run [OF str_Start_session])

end
