(* ===== verification/Session_Guarantees.thy ===== *)
theory Session_Guarantees
  imports Session_Streams
begin

section \<open>apps/server: what a session guarantees\<close>

text \<open>
  The properties of the sessions of the control server, which rest on the two invariants, and a
  session that shows that they apply: an agent opens its command stream and posts a chunk of events.
\<close>

text \<open>The library here drops the data of a stream that its client has ended.\<close>

fun data_on :: "int \<Rightarrow> recv_event \<Rightarrow> bool" where
  "data_on i (Data_chunk j data) = (i = j)" | "data_on i _ = False"

fun after_event :: "recv_event \<Rightarrow> recv_event list \<Rightarrow> recv_event list" where
  "after_event (Frame i Data_frame True) r = filter (\<lambda>e. \<not> data_on i e) r" | "after_event _ r = r"

definition demo_server :: "(send_event list \<times> recv_event list \<times> int) server_http2" where
  "demo_server =
     \<lparr>sh_new_session = (\<lambda>y. (0, y)), sh_submit_settings = (\<lambda>y. (0, y)),
      sh_submit_response = (\<lambda>i status b y. (0, y)), sh_submit_headers = (\<lambda>i y. (0, y)),
      sh_submit_data = (\<lambda>i y. (0, y)),
      sh_send_next = (\<lambda>y. case y of (e # s, rest) \<Rightarrow> (e, (s, rest)) | ([], rest) \<Rightarrow> (Send_done 0, y)),
      sh_data_read = (\<lambda>i data eof y. y), sh_recv_start = (\<lambda>bytes y. y),
      sh_recv_next = (\<lambda>y. case y of
          (s, Begin_headers i Request_headers # r, n) \<Rightarrow>
            if n < i then (Begin_headers i Request_headers, (s, r, i)) else (Recv_done 0, y)
        | (s, e # r, n) \<Rightarrow> (e, (s, after_event e r, n))
        | (s, [], n) \<Rightarrow> (Recv_done 0, y)),
      sh_strerror = (\<lambda>rv. []), sh_now = (\<lambda>y. (''t'', y)), sh_uuid = (\<lambda>y. (''u'', y)),
      sh_pool_accepts = (\<lambda>y. (True, y))\<rparr>"

lemma demo_server_ids: "stream_ids_increase demo_server (\<lambda>(s, r, n). n)"
  by (auto simp: stream_ids_increase_def demo_server_def opens_def
      split: list.split recv_event.split server_frame.split prod.split)

lemma demo_server_pool: "pool_takes_work demo_server"
  by (simp add: pool_takes_work_def demo_server_def)

definition demo_events :: "recv_event list" where
  "demo_events =
     [Begin_headers 1 Request_headers, Header 1 Request_headers '':method'' ''GET'',
      Header 1 Request_headers '':path'' kControlCommandsPath, Frame 1 Request_headers True,
      Begin_headers 3 Request_headers, Header 3 Request_headers '':method'' ''POST'',
      Header 3 Request_headers '':path'' kControlEventsPath, Data_chunk 3 [7], Frame 3 Data_frame True]"

definition demo_stream :: "int \<Rightarrow> stream_state" where
  "demo_stream i =
     (if i = 1
      then new_stream\<lparr>ss_method := ''GET'', ss_path := kControlCommandsPath, ss_command_stream := True,
             ss_command_headers_submitted := True, ss_command_claim_in_flight := True\<rparr>
      else new_stream\<lparr>ss_method := ''POST'', ss_path := kControlEventsPath, ss_dispatcher := True,
             ss_pending_event_chunks := 1, ss_end_stream_received := True\<rparr>)"

type_synonym demo_state = "(send_event list \<times> recv_event list \<times> int) session_state"

definition demo_session :: demo_state where
  "demo_session = (new_session ''c1'' demo_registry ([], [], 3))
     \<lparr>hs_streams := [(1, demo_stream 1), (3, demo_stream 3)], hs_pending_writes := [[5]],
      hs_write_in_progress := True, hs_read_in_flight := True, hs_session := True, hs_hooks := True,
      hs_subscribed := True,
      hs_requests := [Start_write [5], Claim_task 1 ''a'' ''t'', Push_chunk 3 [7], Start_read]\<rparr>"

definition demo_started :: "registry \<Rightarrow> demo_state" where
  "demo_started registry = (new_session ''c1'' registry ([], demo_events, 0))
     \<lparr>hs_pending_writes := [[5]], hs_write_in_progress := True, hs_read_in_flight := True,
      hs_session := True, hs_hooks := True, hs_subscribed := True,
      hs_requests := [Start_write [5], Start_read]\<rparr>"

definition ends_in :: "(unit result \<times> 'x machine) option \<Rightarrow> 'x \<Rightarrow> bool" where
  "ends_in run s = (case run of Some (Inr u, w) \<Rightarrow> mc_rest w = s | _ \<Rightarrow> False)"

lemma ends_inE: "ends_in run s \<Longrightarrow> \<exists>fs. run = Some (Inr (), \<lparr>mc_files = fs, mc_rest = s\<rparr>)"
  by (auto simp: ends_in_def split: option.splits prod.splits sum.splits) (metis machine.surjective old.unit.exhaust)

lemma demo_starts:
  "ends_in (Start_session demo_server
     \<lparr>mc_files = fs, mc_rest = new_session ''c1'' empty_registry ([Send_bytes [5]], demo_events, 0)\<rparr>)
   (demo_started \<lparr>connections_by_id = [(''c1'', fresh_connection ''c1'' ''t'')], connection_by_agent_id = []\<rparr>)"
  by code_simp

lemma demo_reads:
  "ends_in (OnRead demo_server Io_ok [] (completed Start_read \<lparr>mc_files = fs, mc_rest = demo_started demo_registry\<rparr>))
     demo_session"
  by code_simp

lemma demo_reached: "\<exists>fs. session_reaches demo_server demo_wire \<lparr>mc_files = fs, mc_rest = demo_session\<rparr>"
proof -
  let ?r = "\<lparr>connections_by_id = [(''c1'', fresh_connection ''c1'' ''t'')], connection_by_agent_id = []\<rparr>"
  obtain fs where "session_reaches demo_server demo_wire \<lparr>mc_files = fs, mc_rest = demo_started ?r\<rparr>"
    using ends_inE [OF demo_starts] session_reaches.started by metis
  then have one: "session_reaches demo_server demo_wire \<lparr>mc_files = fs, mc_rest = demo_started demo_registry\<rparr>"
    using session_step.registry_changes [of demo_server demo_wire "\<lparr>mc_files = fs, mc_rest = demo_started ?r\<rparr>" demo_registry]
      session_reaches.steps by (fastforce simp: demo_started_def new_session_def)
  obtain fs' where "OnRead demo_server Io_ok [] (completed Start_read \<lparr>mc_files = fs, mc_rest = demo_started demo_registry\<rparr>) =
      Some (Inr (), \<lparr>mc_files = fs', mc_rest = demo_session\<rparr>)"
    using ends_inE [OF demo_reads] by metis
  then have "session_step demo_server demo_wire \<lparr>mc_files = fs, mc_rest = demo_started demo_registry\<rparr>
      \<lparr>mc_files = fs', mc_rest = demo_session\<rparr>"
    by (rule session_step.read_completes [rotated]) (simp add: demo_started_def)
  then show ?thesis using one session_reaches.steps by blast
qed

subsection \<open>The end of a session\<close>

text \<open>C31: In every session that is reached, the flag \<open>done\<close>, with which the connection is released,
  is set exactly when the session is closed and neither a read, nor a write, nor the database write
  that marks the agent offline is outstanding.  None of their handlers finds the connection gone.\<close>

theorem session_ends_when_nothing_is_outstanding:
  assumes "session_reaches api wire w"
  shows "hs_done (mc_rest w) \<longleftrightarrow>
    hs_closed (mc_rest w) \<and> (\<forall>r \<in> outstanding w. \<not> is_read r \<and> \<not> is_write r \<and> \<not> is_mark r)"
proof -
  note ok = reached_session_ok [OF assms, unfolded session_ok_def]
  have "filter p xs \<noteq> [] \<longleftrightarrow> (\<exists>x \<in> set xs. p x)" for p and xs :: "request list"
    by (auto simp: filter_empty_conv)
  moreover have "hs_read_in_flight (mc_rest w) \<longleftrightarrow> filter is_read (hs_requests (mc_rest w)) \<noteq> []"
    "hs_write_in_progress (mc_rest w) \<longleftrightarrow> filter is_write (hs_requests (mc_rest w)) \<noteq> []"
    "hs_offline_mark_in_flight (mc_rest w) \<longleftrightarrow> filter is_mark (hs_requests (mc_rest w)) \<noteq> []"
    using ok unfolding io_ok_def by (simp_all split: if_splits) force+
  ultimately have flags: "hs_read_in_flight (mc_rest w) = (\<exists>r \<in> outstanding w. is_read r)"
    "hs_write_in_progress (mc_rest w) = (\<exists>r \<in> outstanding w. is_write r)"
    "hs_offline_mark_in_flight (mc_rest w) = (\<exists>r \<in> outstanding w. is_mark r)"
    by blast+
  show ?thesis using ok flags unfolding io_ok_def settled_def by blast
qed

theorem session_ends_when_nothing_is_outstanding_witness:
  "\<not> hs_done demo_session"
proof -
  obtain fs where "session_reaches demo_server demo_wire \<lparr>mc_files = fs, mc_rest = demo_session\<rparr>"
    using demo_reached by blast
  from session_ends_when_nothing_is_outstanding [OF this] show ?thesis
    by (simp add: demo_session_def new_session_def)
qed

text \<open>At most one read and one write of a session are outstanding, and the bytes that are being
  written are the front of the queue of writes: bytes never overtake one another.\<close>

theorem one_write_in_flight:
  assumes "session_reaches api wire w"
  shows "filter is_read (hs_requests (mc_rest w)) \<in> {[], [Start_read]} \<and>
    filter is_write (hs_requests (mc_rest w)) \<in>
       {[]} \<union> (case hs_pending_writes (mc_rest w) of [] \<Rightarrow> {} | front # rest \<Rightarrow> {[Start_write front]})"
  using reached_session_ok [OF assms] unfolding session_ok_def io_ok_def
  by (auto split: list.split)

theorem one_write_in_flight_witness:
  "filter is_write (hs_requests demo_session) \<in> {[], [Start_write [5]]}"
proof -
  obtain fs where "session_reaches demo_server demo_wire \<lparr>mc_files = fs, mc_rest = demo_session\<rparr>"
    using demo_reached by blast
  from one_write_in_flight [OF this] show ?thesis
    by (simp add: demo_session_def new_session_def)
qed

subsection \<open>The command stream\<close>

text \<open>C8: Where nghttp2 gives every new stream a greater id, a claim that completes in an open session
  finds its stream, if it is still there, waiting for it: it is a command stream, it has claimed
  nothing else, and no command is being sent on it.  So no command that an agent has yet to receive
  is ever overwritten by the next.\<close>

theorem claims_find_a_free_stream:
  assumes "session_reaches api wire w" "stream_ids_increase api newest"
    and "Claim_task i agent_id now \<in> outstanding w" "hs_session (mc_rest w)" "FindStream (mc_rest w) i = Some st"
  shows "ss_command_stream st \<and> ss_command_claim_in_flight st \<and> \<not> ss_command_data_in_flight st \<and>
    ss_response_body st = [] \<and> filter (is_claim i) (hs_requests (mc_rest w)) = [Claim_task i agent_id now]"
proof -
  have ok: "streams_ok False newest (mc_rest w)" by (rule reached_streams_ok [OF assms(1,2)]) simp
  note fin = streams_claim_done(1,2) [OF ok assms(3-5)]
  have "Claim_task i agent_id now \<in> set (filter (is_claim i) (hs_requests (mc_rest w)))" using assms(3) by simp
  then have "filter (is_claim i) (hs_requests (mc_rest w)) = [Claim_task i agent_id now]"
    using fin(2) unfolding claims_def by (cases "filter (is_claim i) (hs_requests (mc_rest w))") auto
  then show ?thesis
    using fin(1) streams_okD(2) [OF ok FindStream_Some [OF assms(5)]] by (auto simp: stream_ok_def)
qed

theorem claims_find_a_free_stream_witness:
  "FindStream demo_session 1 = Some (demo_stream 1) \<and> ss_response_body (demo_stream 1) = []"
proof -
  obtain fs where reached: "session_reaches demo_server demo_wire \<lparr>mc_files = fs, mc_rest = demo_session\<rparr>"
    using demo_reached by blast
  have "FindStream demo_session 1 = Some (demo_stream 1)"
    by (simp add: FindStream_def demo_session_def)
  moreover have "Claim_task 1 ''a'' ''t'' \<in> outstanding \<lparr>mc_files = fs, mc_rest = demo_session\<rparr>"
    by (simp add: demo_session_def)
  moreover have "hs_session demo_session" by (simp add: demo_session_def)
  ultimately show ?thesis
    using claims_find_a_free_stream [OF reached demo_server_ids] by force
qed

subsection \<open>Requests with events\<close>

lemma prog_bind_session [simp]:
  "prog_bind get_session f w = f (mc_rest w) w"
  "prog_bind (change_session g) h w = h () (w\<lparr>mc_rest := g (mc_rest w)\<rparr>)"
  by (simp_all add: prog_bind_def get_session_def change_session_def)

lemma change_stream_same:
  assumes "FindStream s i = Some st" "distinct (map fst (hs_streams s))" "f st = g st"
  shows "change_stream i f s = change_stream i g s"
proof -
  have "x = st" if "(i, x) \<in> set (hs_streams s)" for x using that assms(1,2) by (simp add: FindStream_def)
  then have "map (\<lambda>(j, x). (j, if j = i then f x else x)) (hs_streams s) =
      map (\<lambda>(j, x). (j, if j = i then g x else x)) (hs_streams s)"
    using assms(3) by auto
  then show ?thesis by (simp add: change_stream_def)
qed

text \<open>Where the pool takes work, the completion of a chunk answers the request if it is the last one that
  is outstanding and the request has ended and is not answered: 200 where no chunk failed or was
  refused, 400 otherwise.  Every chunk before leaves the request unanswered.\<close>

lemma last_chunk_answers:
  fixes results :: "control_event_result list result"
  assumes "session_reaches api wire w" "stream_ids_increase api newest" "pool_takes_work api"
    and "Push_chunk i data \<in> outstanding w" "hs_session (mc_rest w)" "FindStream (mc_rest w) i = Some st"
  defines "failed \<equiv> ss_has_error st \<or>
      (case results of Inl ex \<Rightarrow> True | Inr rs \<Rightarrow> \<exists>r \<in> set rs. cer_status r \<noteq> kAccepted)"
    and "others \<equiv> \<exists>data'. Push_chunk i data' \<in> set (remove1 (Push_chunk i data) (hs_requests (mc_rest w)))"
  shows "OnChunkHandled api i results (completed (Push_chunk i data) w) =
    prog_bind (change_session (change_stream i (\<lambda>st. (less_pending st)\<lparr>ss_has_error := failed\<rparr>))) (\<lambda>_.
    prog_bind
      (if ss_end_stream_received st \<and> \<not> ss_response_submitted st \<and> \<not> others
       then prog_bind (SubmitSimpleResponse api i (if failed then ''400'' else ''200'')) (\<lambda>_.
            change_session (change_stream i (ss_response_submitted_update (\<lambda>_. True))))
       else prog_return ()) (\<lambda>_.
    prog_bind (send_all api) (\<lambda>_. flush_hook))) (completed (Push_chunk i data) w)"
proof -
  let ?rs = "remove1 (Push_chunk i data) (hs_requests (mc_rest w))"
  let ?f = "\<lambda>st. (less_pending st)\<lparr>ss_has_error := failed\<rparr>"
  let ?s = "change_stream i ?f (mc_rest w)\<lparr>hs_requests := ?rs\<rparr>"
  have "streams_ok True newest (mc_rest w)" using reached_streams_ok [OF assms(1,2)] assms(3) by simp
  then have "streams_ok True newest ?s" by (rule streams_chunk_done [OF _ assms(4,6)])
  then have "stream_ok True True (claims i ?rs) (chunks i ?rs) (?f st)"
    using streams_okD(2) [of True newest ?s i "?f st"] FindStream_Some [of ?s i "?f st"] assms(5,6) by simp
  then have pending: "ss_pending_event_chunks (less_pending st) = chunks i ?rs" by (simp add: stream_ok_def less_pending_def)
  have "is_chunk i r \<longleftrightarrow> (\<exists>data'. r = Push_chunk i data')" for r by (cases r) auto
  then have last: "ss_pending_event_chunks (less_pending st) = 0 \<longleftrightarrow> \<not> others"
    unfolding pending others_def by (auto simp: chunks_def filter_empty_conv)
  obtain bad where bad: "(case results of Inl ex \<Rightarrow> True | Inr rs \<Rightarrow> list_ex (\<lambda>r. cer_status r \<noteq> kAccepted) rs) = bad"
    by blast
  then have failed: "failed = (ss_has_error st \<or> bad)" by (auto simp: failed_def list_ex_iff split: sum.splits)
  let ?v = "completed (Push_chunk i data) w"
  have v: "FindStream (mc_rest ?v) i = Some st" "hs_session (mc_rest ?v)" "distinct (map fst (hs_streams (mc_rest ?v)))"
    using assms(5,6) \<open>streams_ok True newest (mc_rest w)\<close> by (simp_all add: completed_def streams_ok_def)
  then have same: "change_stream i (\<lambda>st. (less_pending st)\<lparr>ss_has_error := ss_has_error st \<or> bad\<rparr>) (mc_rest ?v) =
      change_stream i ?f (mc_rest ?v)"
    by (intro change_stream_same) (simp_all add: failed)
  have now: "FindStream (change_stream i ?f (mc_rest ?v)) i = Some (?f st)" using v by simp
  have keep: "ss_response_submitted (less_pending st) = ss_response_submitted st"
    "ss_end_stream_received (less_pending st) = ss_end_stream_received st" by (simp_all add: less_pending_def)
  show ?thesis
    unfolding OnChunkHandled_def Let_def bad
    using v now same last keep
    by (simp add: TrySubmitEventResponse_def)
qed

end
