(* ===== verification/Session_Answers.thy ===== *)
theory Session_Answers
  imports Session_Guarantees
begin

section \<open>apps/server: when a request with events is answered\<close>

text \<open>
  A request with events ends in one of two orders: its last chunk comes back from the pool before the
  end of the request is received, or after.  What holds of every stream of every session that is reached
  covers both: the answer is submitted exactly when both have happened.
\<close>



definition answered :: "stream_state \<Rightarrow> bool" where
  "answered st \<longleftrightarrow>
     (ss_response_submitted st \<longleftrightarrow> ss_end_stream_received st \<and> ss_pending_event_chunks st = 0)"

text \<open>A session that was closed answers nobody.\<close>

definition answers_ok :: "('y \<Rightarrow> int set) \<Rightarrow> 'y session_state \<Rightarrow> bool" where
  "answers_ok ended s \<longleftrightarrow>
     (hs_session s \<longrightarrow> (\<forall>i st. FindStream s i = Some st \<longrightarrow>
        answered st \<and> (ss_end_stream_received st \<longrightarrow> i \<in> ended (hs_lib s))))"


subsection \<open>What leaves the answers alone\<close>





lemma answers_updates [simp]:
  "answers_ok ended (hs_pending_writes_update a s) = answers_ok ended s"
  "answers_ok ended (hs_write_in_progress_update b s) = answers_ok ended s"
  "answers_ok ended (hs_read_in_flight_update b s) = answers_ok ended s"
  "answers_ok ended (hs_offline_mark_in_flight_update b s) = answers_ok ended s"
  "answers_ok ended (hs_registry_update g s) = answers_ok ended s"
  "answers_ok ended (hs_requests_update rs s) = answers_ok ended s"
  "answers_ok ended (hs_done_update b s) = answers_ok ended s"
  by (simp_all add: answers_ok_def FindStream_def)
























subsection \<open>What answers\<close>















subsection \<open>Every session that is reached\<close>









end
