(* ===== verification/Event_Delivery.thy ===== *)
theory Event_Delivery
  imports Agent_Control Worker_Pool
begin

section \<open>From the agent's events to the service\<close>

text \<open>
  The agent's encoder composed with the pool, the dispatcher and the service of the server: what a
  request with events means to the server, and where the order of the pool's threads matters.
\<close>

lemma posted_body_decodes:
  assumes "faithful (w_ser_agent_event wire) (w_parse_agent_event wire)"
    and "BuildEnvelopeBody wire events = Inr body" "concat chunks = body"
    and "\<And>event payload. event \<in> set events \<Longrightarrow> EncodeAgentEventPayload wire event = Inr payload \<Longrightarrow>
           length payload \<le> unat m"
    and "new_frame_decoder m = Inr (dp_decoder d)"
    and "map_res norm_event events = Inr received"
    and "handle_events env st d received w = (Inr results, w')"
  shows "\<exists>rss. run_jobs env wire st chunks (d, w) = (map Inr rss, (d, w')) \<and> concat rss = results"
proof -
  obtain payloads frames where frames: "map_res (EncodeAgentEventPayload wire) events = Inr payloads"
    "map_res EncodeFrame payloads = Inr frames" "body = concat frames"
    by (rule BuildEnvelopeBody_frames [OF assms(2)])
  moreover have "\<forall>p\<in>set payloads. length p \<le> unat m"
    using map_res_member [OF frames(1)] assms(4) by blast
  ultimately show ?thesis
    using assms(3) by (intro events_reach_the_service [OF assms(1) frames(1,2) _ assms(5) _ assms(6,7)]) simp_all
qed

text \<open>
  C10: What the agent posts is what the server handles, where the chunks of the request cannot overtake one
  another: the pool has one thread, or the body arrives as one chunk.  However the submissions and the
  threads interleave, once all chunks have been run no chunk failed, their results together are those of
  the service handling the normal forms of the events one after the other, the store and the registry
  are as it leaves them, and nothing is left in the decoder.  The events are those that have a normal
  form and fit a frame, and the service throws for none of them.
\<close>

theorem posted_events_reach_the_service:
  assumes "faithful (w_ser_agent_event wire) (w_parse_agent_event wire)"
    and "BuildEnvelopeBody wire events = Inr body" "concat chunks = body"
    and "\<And>event payload. event \<in> set events \<Longrightarrow> EncodeAgentEventPayload wire event = Inr payload \<Longrightarrow>
           length payload \<le> unat m"
    and "new_frame_decoder m = Inr (dp_decoder d)"
    and "map_res norm_event events = Inr received"
    and "handle_events env st d received w = (Inr results, w')"
    and "pool_runs threads chunks p" "threads \<le> 1 \<or> length chunks \<le> 1" "held p = []" "pl_queue p = []"
  shows "\<exists>rss. run_jobs env wire st (pl_ran p) (d, w) = (map Inr rss, (d, w')) \<and> concat rss = results"
proof -
  have ok: "pool_ok chunks p" "length (pl_workers p) = max 1 threads"
    using pool_runs_ok [OF assms(8)] by simp_all
  have "pl_ran p = chunks"
  proof (cases "threads \<le> 1")
    case True
    with ok assms(10,11) show ?thesis by (simp add: pool_ok_def max_def split: if_splits)
  next
    case False
    then have "length chunks \<le> 1" "mset chunks = mset (pl_ran p)" using assms(9-11) ok by (simp_all add: pool_ok_def)
    then show ?thesis by (cases chunks) auto
  qed
  then show ?thesis using posted_body_decodes [OF assms(1-7)] by simp
qed

lemma one_worker_done:
  "pool_runs 1 [a, b] \<lparr>pl_queue = [], pl_stopping = False, pl_workers = [Idle], pl_ran = [a, b]\<rparr>"
proof -
  have "pool_step\<^sup>*\<^sup>* ([], new_pool 1)
      ([a, b], \<lparr>pl_queue = [b], pl_stopping = False, pl_workers = [Idle], pl_ran = [a]\<rparr>)"
    by (rule one_worker_run)
  also have "pool_step \<dots> ([a, b], \<lparr>pl_queue = [], pl_stopping = False, pl_workers = [Holding b], pl_ran = [a]\<rparr>)"
    by (rule pool_step.take_job [of 0]) (simp_all add: worker_take_def)
  also have "pool_step \<dots> ([a, b], \<lparr>pl_queue = [], pl_stopping = False, pl_workers = [Idle], pl_ran = [a, b]\<rparr>)"
    by (rule pool_step.run_job [of 0 _ b]) (simp_all add: worker_run_def)
  finally show ?thesis .
qed

theorem posted_events_reach_the_service_witness:
  "\<exists>rss. run_jobs demo_env demo_wire (db_store demo_ext) [[0, 0, 0], [1, 69]]
     (demo_dispatcher, ((0, demo_queue), empty_registry)) =
     (map Inr rss, (demo_dispatcher, ((0, demo_queue), empty_registry))) \<and>
   concat rss = [NotFound ''agent not registered'']"
proof -
  let ?p = "\<lparr>pl_queue = [], pl_stopping = False, pl_workers = [Idle], pl_ran = [[0, 0, 0], [1, 69]]\<rparr> :: u8 list worker_pool"
  have enc: "EncodeAgentEventPayload demo_wire demo_heartbeat = Inr [69]"
    by (simp add: EncodeAgentEventPayload_def SerializeAgentEventBlob_def SerializeProto_def
        demo_wire_def Let_def bytes_of_string_def)
  then have body: "BuildEnvelopeBody demo_wire [demo_heartbeat] = Inr [0, 0, 0, 1, 69]"
    by (simp add: EncodeFrame_def length_prefix_def)
  have "\<exists>rss. run_jobs demo_env demo_wire (db_store demo_ext) (pl_ran ?p)
      (demo_dispatcher, ((0, demo_queue), empty_registry)) =
      (map Inr rss, (demo_dispatcher, ((0, demo_queue), empty_registry))) \<and>
    concat rss = [NotFound ''agent not registered'']"
  proof (rule posted_events_reach_the_service [OF demo_wire_faithful(1) body _ _ _ _ demo_heartbeat_handled one_worker_done,
        where m = 8])
    show "length payload \<le> unat (8 :: u32)"
      if "event \<in> set [demo_heartbeat]" "EncodeAgentEventPayload demo_wire event = Inr payload" for event payload
      using that enc by auto
    show "map_res norm_event [demo_heartbeat] = Inr [demo_heartbeat]"
      by (simp add: demo_heartbeat_def)
  qed (simp_all add: demo_dispatcher_def new_frame_decoder_def held_def)
  then show ?thesis by simp
qed

end
