(* ===== verification/Control_Server.thy ===== *)
theory Control_Server
  imports Session_Guarantees Worker_Pool
begin

section \<open>apps/server: the sessions of the control server (ControlServer of control_server.cpp)\<close>

text \<open>
  The server keeps a session and its \<open>done\<close> flag for every connection.  The acceptor runs on a strand
  of its own; \<open>cs_accepting\<close> tells whether an accept is outstanding, \<open>cs_closed\<close> lists the
  sockets that were refused and \<open>cs_stopped\<close> the sessions that were told to close.
\<close>

record 's active_session =
  as_session :: 's
  as_done :: bool

record 's control_server =
  cs_sessions :: "'s active_session list"
  cs_max_connections :: nat
  cs_acceptor_open :: bool
  cs_accepting :: bool
  cs_stopping :: bool
  cs_closed :: "'s list"
  cs_stopped :: "'s list"

definition StartAcceptOnStrand :: "'s control_server \<Rightarrow> 's control_server" where
  "StartAcceptOnStrand s =
     (if cs_stopping s \<or> \<not> cs_acceptor_open s then s else s\<lparr>cs_accepting := True\<rparr>)"

definition ReapFinishedSessions :: "'s control_server \<Rightarrow> 's control_server" where
  "ReapFinishedSessions s = s\<lparr>cs_sessions := filter (\<lambda>x. \<not> as_done x) (cs_sessions s)\<rparr>"

definition listen_address_parts :: "string \<Rightarrow> (string \<times> string) result" where
  "listen_address_parts listen_address =
     (if CHR '':'' \<notin> set listen_address then Inl (Invalid_argument ''listen address must be host:port'')
      else
        let back = rev listen_address in
        Inr (rev (tl (dropWhile (\<lambda>c. c \<noteq> CHR '':'') back)), rev (takeWhile (\<lambda>c. c \<noteq> CHR '':'') back)))"

text \<open>The handler of an accept: an error, or a socket for which a session is made.\<close>

definition OnAccept :: "'s option \<Rightarrow> 's control_server \<Rightarrow> 's control_server" where
  "OnAccept accepted s =
     (let s = s\<lparr>cs_accepting := False\<rparr> in
      case accepted of
        None \<Rightarrow> if \<not> cs_stopping s \<and> cs_acceptor_open s then StartAcceptOnStrand s else s
      | Some session \<Rightarrow>
          let s = ReapFinishedSessions s;
              s = (if cs_max_connections s \<le> length (cs_sessions s)
                   then s\<lparr>cs_closed := cs_closed s @ [session]\<rparr>
                   else s\<lparr>cs_sessions := cs_sessions s @ [\<lparr>as_session = session, as_done = False\<rparr>]\<rparr>)
          in
          if \<not> cs_stopping s \<and> cs_acceptor_open s then StartAcceptOnStrand s else s)"

text \<open>\<open>Stop\<close> sets its flag, closes the acceptor on the strand, and then stops the sessions.\<close>

definition Stop_flag :: "'s control_server \<Rightarrow> 's control_server" where
  "Stop_flag s = s\<lparr>cs_stopping := True\<rparr>"

definition Stop_acceptor :: "'s control_server \<Rightarrow> 's control_server" where
  "Stop_acceptor s = s\<lparr>cs_acceptor_open := False\<rparr>"

definition Stop_sessions :: "'s control_server \<Rightarrow> 's control_server" where
  "Stop_sessions s = s\<lparr>cs_sessions := [], cs_stopped := cs_stopped s @ map as_session (cs_sessions s)\<rparr>"

definition session_done :: "nat \<Rightarrow> 's control_server \<Rightarrow> 's control_server" where
  "session_done i s = s\<lparr>cs_sessions := (cs_sessions s)[i := (cs_sessions s ! i)\<lparr>as_done := True\<rparr>]\<rparr>"

definition new_server :: "nat \<Rightarrow> 's control_server" where
  "new_server max_connections =
     StartAcceptOnStrand \<lparr>cs_sessions = [], cs_max_connections = max_connections, cs_acceptor_open = True,
       cs_accepting = False, cs_stopping = False, cs_closed = [], cs_stopped = []\<rparr>"

text \<open>A run of the server, with the sockets it accepted so far.\<close>

inductive server_step :: "'s list \<times> 's control_server \<Rightarrow> 's list \<times> 's control_server \<Rightarrow> bool" where
  accept_fails: "cs_accepting s \<Longrightarrow> server_step (xs, s) (xs, OnAccept None s)"
| accepts: "cs_accepting s \<Longrightarrow> server_step (xs, s) (xs @ [x], OnAccept (Some x) s)"
| ends: "i < length (cs_sessions s) \<Longrightarrow> server_step (xs, s) (xs, session_done i s)"
| stops: "server_step (xs, s) (xs, Stop_flag s)"
| closes: "cs_stopping s \<Longrightarrow> server_step (xs, s) (xs, Stop_acceptor s)"
| stops_sessions: "cs_stopping s \<Longrightarrow> server_step (xs, s) (xs, Stop_sessions s)"

abbreviation server_runs :: "nat \<Rightarrow> 's list \<Rightarrow> 's control_server \<Rightarrow> bool" where
  "server_runs n xs s \<equiv> server_step\<^sup>*\<^sup>* ([], new_server n) (xs, s)"

subsection \<open>The limit on connections\<close>

definition server_ok :: "nat \<Rightarrow> 's control_server \<Rightarrow> bool" where
  "server_ok n s \<longleftrightarrow>
     cs_max_connections s = n \<and> length (cs_sessions s) \<le> n \<and>
     (\<not> cs_stopping s \<longrightarrow> cs_acceptor_open s \<and> cs_accepting s)"

lemmas server_defs =
  OnAccept_def ReapFinishedSessions_def StartAcceptOnStrand_def Stop_flag_def Stop_acceptor_def
  Stop_sessions_def session_done_def Let_def

lemma server_ok_step: "server_step x y \<Longrightarrow> server_ok n (snd x) \<Longrightarrow> server_ok n (snd y)"
  by (induction rule: server_step.induct)
    (auto simp: server_ok_def server_defs intro!: le_antisym intro: le_trans [OF length_filter_le])

lemma server_runs_ok:
  assumes "server_runs n xs s"
  shows "server_ok n s"
proof -
  have "server_ok n (snd x)" if "server_step\<^sup>*\<^sup>* ([], new_server n) x" for x :: "'a list \<times> 'a control_server"
    using that
    by induction (auto simp: new_server_def server_ok_def StartAcceptOnStrand_def dest: server_ok_step [of _ _ n])
  from this [OF assms] show ?thesis by simp
qed

text \<open>
  However accepts, ends of sessions and the stop interleave, the server never keeps more sessions
  than \<open>max_connections\<close>, and until it is stopped it always waits for the next connection: neither a
  failed accept nor a refused connection ends the accept loop.
\<close>

theorem connections_are_limited:
  assumes "server_runs n xs s"
  shows "length (cs_sessions s) \<le> n \<and> (\<not> cs_stopping s \<longrightarrow> cs_accepting s)"
  using server_runs_ok [OF assms] by (simp add: server_ok_def)

theorem connections_are_limited_witness:
  "length (cs_sessions (OnAccept (Some True) (OnAccept (Some False) (new_server 1)))) \<le> 1"
proof -
  have "server_step\<^sup>*\<^sup>* ([], new_server 1) ([], new_server 1)" by simp
  also have "server_step \<dots> ([] @ [False], OnAccept (Some False) (new_server 1))"
    by (rule server_step.accepts) (simp add: new_server_def StartAcceptOnStrand_def)
  also have "server_step \<dots> (([] @ [False]) @ [True], OnAccept (Some True) (OnAccept (Some False) (new_server 1)))"
    by (rule server_step.accepts) (simp add: new_server_def server_defs)
  finally have "server_runs 1 [False, True] (OnAccept (Some True) (OnAccept (Some False) (new_server 1)))"
    by simp
  from connections_are_limited [OF this] show ?thesis by simp
qed

end
