(* ===== verification/Package_Repository.thy ===== *)
theory Package_Repository
  imports Archive_Extract Manifest Semver Db_Packages Task_Claims
begin

section \<open>apps/server: packages that are uploaded (package_repository.cpp and the resolvers)\<close>

text \<open>
  The checks of an uploaded package, and the choice of the packages that an agent installs.  Reading
  an archive may not return, so the checks are a \<open>run\<close> on the file system they look at.
\<close>

record ('c, 'd, 'i) repository_env =
  rp_os :: os_env
  rp_zlib :: "('d, 'i) zlib"
  rp_json :: json_lib
  rp_digest :: "'c digest_lib"

record agent_package_metadata =
  md_component :: string
  md_version :: string
  md_platform :: string
  md_arch :: string
  md_build_type :: string
  md_min_installer_version :: string
  md_size_bytes :: u64
  md_sha256 :: string
  md_manifest_json :: string

definition kManifestPath :: string where
  "kManifestPath = ''META/manifest.json''"

definition IsSupportedPackageComponent :: "string \<Rightarrow> bool" where
  "IsSupportedPackageComponent component \<longleftrightarrow> component \<in> {''agent'', ''installer''}"

text \<open>\<open>catch (const std::exception&)\<close> with another exception thrown in its place.\<close>

definition rethrow_as :: "string \<Rightarrow> 'a run \<Rightarrow> 'a run" where
  "rethrow_as message m =
     (case m of
        None \<Rightarrow> None
      | Some (Inr x) \<Rightarrow> Some (Inr x)
      | Some (Inl (Undefined_behaviour u)) \<Rightarrow> Some (Inl (Undefined_behaviour u))
      | Some (Inl e) \<Rightarrow> Some (Inl (Runtime_error message)))"

definition ReadArchiveBytes ::
    "('c, 'd, 'i) repository_env \<Rightarrow> file_system \<Rightarrow> string \<Rightarrow> string \<Rightarrow> u8 list run" where
  "ReadArchiveBytes env fs archive_path archive_file_path =
     rethrow_as (''failed to read archive file: '' @ archive_file_path)
       (ReadArchiveFile (rp_zlib env) (rp_os env) fs archive_path archive_file_path)"

definition ReadArchiveText ::
    "('c, 'd, 'i) repository_env \<Rightarrow> file_system \<Rightarrow> string \<Rightarrow> string \<Rightarrow> string run" where
  "ReadArchiveText env fs archive_path archive_file_path =
     bind_run (ReadArchiveBytes env fs archive_path archive_file_path) (\<lambda>bytes. Some (Inr (string_of_bytes bytes)))"

definition IndexEntries :: "archive_entry list \<Rightarrow> string \<Rightarrow> archive_entry option" where
  "IndexEntries entries = map_of (map (\<lambda>e. (ae_path e, e)) entries)"

definition FileSizeBytes :: "('c, 'd, 'i) repository_env \<Rightarrow> file_system \<Rightarrow> string \<Rightarrow> u64 run" where
  "FileSizeBytes env fs path =
     (case file_size (rp_os env) fs path of
        Inl e \<Rightarrow> Some (Inl (Runtime_error (''failed to determine package size: '' @ path)))
      | Inr n \<Rightarrow> Some (Inr (word_of_nat n)))"

definition ValidateManifestFile ::
    "('c, 'd, 'i) repository_env \<Rightarrow> file_system \<Rightarrow> string \<Rightarrow> (string \<Rightarrow> archive_entry option) \<Rightarrow>
       manifest_file \<Rightarrow> unit run" where
  "ValidateManifestFile env fs archive_path archive_entries file =
     (if archive_entries (mf_source file) = None
      then Some (Inl (Invalid_argument (''manifest file missing from archive: '' @ mf_source file)))
      else
        bind_run (ReadArchiveBytes env fs archive_path (mf_source file)) (\<lambda>file_bytes.
        if length file_bytes \<noteq> mf_size file
        then Some (Inl (Invalid_argument (''manifest file size mismatch: '' @ mf_source file)))
        else
          bind_run (Some (Sha256BytesHex (rp_digest env) (string_of_bytes file_bytes))) (\<lambda>file_sha256.
          if file_sha256 \<noteq> mf_sha256 file
          then Some (Inl (Invalid_argument (''manifest file sha256 mismatch: '' @ mf_source file)))
          else Some (Inr ()))))"

fun for_each_run :: "('a \<Rightarrow> unit run) \<Rightarrow> 'a list \<Rightarrow> unit run" where
  "for_each_run f [] = Some (Inr ())"
| "for_each_run f (x # xs) = bind_run (f x) (\<lambda>_. for_each_run f xs)"

definition expected_filename :: "manifest \<Rightarrow> string" where
  "expected_filename m =
     ''zfleet_'' @ mn_component m @ ''-v'' @ mn_version m @ ''-'' @ mn_platform m @ ''-'' @ mn_arch m @
     ''-'' @ mn_build_type m @ ''.zip''"

definition ValidateAgentPackageUpload ::
    "('c, 'd, 'i) repository_env \<Rightarrow> file_system \<Rightarrow> string \<Rightarrow> string \<Rightarrow> agent_package_metadata run" where
  "ValidateAgentPackageUpload env fs staged_package_path filename =
     bind_run (Some (fs_status (rp_os env) fs staged_package_path)) (\<lambda>status.
     if status = None
     then Some (Inl (Runtime_error (''package archive does not exist: '' @ staged_package_path)))
     else if \<not> is_regular_node status
     then Some (Inl (Runtime_error (''package archive is not a file: '' @ staged_package_path)))
     else
     bind_run (rethrow_as (''failed to list archive entries: '' @ staged_package_path)
                 (Some (ListArchiveEntries (rp_os env) fs staged_package_path))) (\<lambda>entries.
     let archive_entries = IndexEntries entries in
     if archive_entries kManifestPath = None
     then Some (Inl (Invalid_argument ''package archive missing META/manifest.json''))
     else
     bind_run (ReadArchiveText env fs staged_package_path kManifestPath) (\<lambda>manifest_json.
     bind_run (Some (ParseManifestJson (rp_json env) manifest_json)) (\<lambda>manifest.
     if \<not> IsSupportedPackageComponent (mn_component manifest)
     then Some (Inl (Invalid_argument ''manifest component must be agent or installer''))
     else if filename \<noteq> expected_filename manifest
     then Some (Inl (Invalid_argument
            (''package filename metadata does not match manifest: expected '' @ expected_filename manifest)))
     else
     bind_run (for_each_run (ValidateManifestFile env fs staged_package_path archive_entries) (mn_files manifest)) (\<lambda>_.
     bind_run (FileSizeBytes env fs staged_package_path) (\<lambda>size_bytes.
     bind_run (Some (Sha256FileHex (rp_digest env) staged_package_path
                       (read_file (rp_os env) fs staged_package_path))) (\<lambda>sha256.
     Some (Inr
       \<lparr>md_component = mn_component manifest, md_version = mn_version manifest,
        md_platform = mn_platform manifest, md_arch = mn_arch manifest,
        md_build_type = mn_build_type manifest,
        md_min_installer_version = mn_min_installer_version manifest, md_size_bytes = size_bytes,
        md_sha256 = sha256, md_manifest_json = manifest_json\<rparr>))))))))"

subsection \<open>Which packages are installed\<close>

record install_package_selection =
  sel_agent :: "agent_package_record option"
  sel_installer :: "agent_package_record option"

definition ResolveInstallPackageSelection ::
    "string \<Rightarrow> string \<Rightarrow> string \<Rightarrow> string \<Rightarrow> string \<Rightarrow> server_database \<Rightarrow> install_package_selection" where
  "ResolveInstallPackageSelection component channel platform arch build_type db =
     (case FindDefaultPublishedAgentPackage component channel platform arch build_type db of
        None \<Rightarrow> \<lparr>sel_agent = None, sel_installer = None\<rparr>
      | Some agent \<Rightarrow>
          \<lparr>sel_agent = Some agent,
           sel_installer = FindDefaultPublishedAgentPackage ''installer'' channel platform arch build_type db\<rparr>)"

text \<open>The candidates that are passed over, and the loop that keeps the newest of the others.\<close>

definition is_candidate :: "agent_package_record \<Rightarrow> semver3 \<Rightarrow> agent_package_record \<Rightarrow> bool" where
  "is_candidate package minimum_version candidate \<longleftrightarrow>
     pk_component candidate = ''installer'' \<and> pk_status candidate = ''published'' \<and>
     pk_platform candidate = pk_platform package \<and> pk_arch candidate = pk_arch package \<and>
     pk_build_type candidate = pk_build_type package \<and>
     (case ParseSemver3 (pk_version candidate) of None \<Rightarrow> False | Some v \<Rightarrow> \<not> v < minimum_version)"

definition better_installer ::
    "agent_package_record option \<Rightarrow> agent_package_record \<Rightarrow> agent_package_record option" where
  "better_installer installer candidate =
     (case installer of
        None \<Rightarrow> Some candidate
      | Some i \<Rightarrow>
          (case (ParseSemver3 (pk_version i), ParseSemver3 (pk_version candidate)) of
             (None, _) \<Rightarrow> Some candidate
           | (Some iv, Some cv) \<Rightarrow> if iv \<le> cv then Some candidate else installer
           | (Some iv, None) \<Rightarrow> installer))"

fun find_installer ::
    "agent_package_record \<Rightarrow> semver3 \<Rightarrow> agent_package_record option \<Rightarrow> agent_package_record list \<Rightarrow>
       agent_package_record option" where
  "find_installer package minimum_version installer [] = installer"
| "find_installer package minimum_version installer (candidate # rest) =
     find_installer package minimum_version
       (if is_candidate package minimum_version candidate then better_installer installer candidate else installer)
       rest"

definition FindCompatibleInstallerPackage ::
    "ext \<Rightarrow> agent_package_record \<Rightarrow> string \<Rightarrow> server_database \<Rightarrow> agent_package_record option" where
  "FindCompatibleInstallerPackage e package min_installer_version db =
     (if min_installer_version = [] then None
      else case ParseSemver3 min_installer_version of
        None \<Rightarrow> None
      | Some minimum_version \<Rightarrow> find_installer package minimum_version None (ListAgentPackages e db))"

subsection \<open>The installer that is chosen\<close>

definition version_of :: "agent_package_record \<Rightarrow> semver3" where
  "version_of p = the (ParseSemver3 (pk_version p))"

text \<open>What the loop knows of the packages it has seen.\<close>

definition best_of ::
    "agent_package_record \<Rightarrow> semver3 \<Rightarrow> agent_package_record option \<Rightarrow> agent_package_record set \<Rightarrow> bool" where
  "best_of package m installer seen =
     (case installer of
        None \<Rightarrow> \<forall>c \<in> seen. \<not> is_candidate package m c
      | Some i \<Rightarrow> i \<in> seen \<and> is_candidate package m i \<and>
          (\<forall>c \<in> seen. is_candidate package m c \<longrightarrow> version_of c \<le> version_of i))"

lemma best_of_candidate:
  assumes "best_of package m installer seen" "is_candidate package m c"
  shows "best_of package m (better_installer installer c) (insert c seen)"
proof (cases installer)
  case None
  then show ?thesis using assms by (auto simp: best_of_def better_installer_def)
next
  case (Some i)
  then have i: "i \<in> seen" "is_candidate package m i"
    "\<forall>c \<in> seen. is_candidate package m c \<longrightarrow> version_of c \<le> version_of i"
    using assms(1) by (auto simp: best_of_def)
  obtain v w where vw: "ParseSemver3 (pk_version i) = Some v" "ParseSemver3 (pk_version c) = Some w"
    using i(2) assms(2) by (auto simp: is_candidate_def split: option.splits)
  then have "version_of i = v" "version_of c = w" by (simp_all add: version_of_def)
  then show ?thesis
    using Some i assms(2) vw by (cases "v \<le> w") (auto simp: best_of_def better_installer_def intro: order.trans)
qed

lemma best_of_other:
  "\<lbrakk>best_of package m installer seen; \<not> is_candidate package m c\<rbrakk> \<Longrightarrow> best_of package m installer (insert c seen)"
  by (auto simp: best_of_def split: option.splits)

lemma find_installer_best:
  "best_of package m installer seen \<Longrightarrow> best_of package m (find_installer package m installer cs) (seen \<union> set cs)"
proof (induction cs arbitrary: installer seen)
  case (Cons c cs)
  have "best_of package m (if is_candidate package m c then better_installer installer c else installer) (insert c seen)"
    using Cons.prems best_of_candidate best_of_other by simp
  from Cons.IH [OF this] show ?case by simp
qed simp

text \<open>
  The criteria for an installer, by the rows of the catalogue: an installer that is published, for the
  platform, architecture and build type of the package, of a version that parses and is not too old.
\<close>

definition suits :: "agent_package_record \<Rightarrow> semver3 \<Rightarrow> package_row \<Rightarrow> bool" where
  "suits package m row \<longleftrightarrow>
     pk_component row = ''installer'' \<and> pk_status row = ''published'' \<and>
     (pk_platform row, pk_arch row, pk_build_type row) = (pk_platform package, pk_arch package, pk_build_type package) \<and>
     (\<exists>v. ParseSemver3 (pk_version row) = Some v \<and> m \<le> v)"

lemma ListAgentPackages_rows:
  "set (ListAgentPackages e db) =
     (\<lambda>row. ParseAgentPackageRecord row (channel_concat e (pk_package_id row) db)) ` set (db_agent_packages db)"
  by (simp add: ListAgentPackages_def)

lemma candidate_suits:
  "is_candidate package m (ParseAgentPackageRecord row channels) = suits package m row"
  "version_of (ParseAgentPackageRecord row channels) = the (ParseSemver3 (pk_version row))"
  by (auto simp: is_candidate_def suits_def version_of_def ParseAgentPackageRecord_def package_row.defs not_less
      split: option.split)

text \<open>
  C25: The installer that an upgrade needs is a row of the catalogue that suits the package: an
  installer, published, of the platform, architecture and build type of the package, not older than the
  minimum the package asks for; no row that suits it is of a newer version; and when none is found, no
  row suits it.
\<close>

theorem newest_compatible_installer:
  assumes "ParseSemver3 minimum = Some m" "minimum \<noteq> []"
  shows "case FindCompatibleInstallerPackage e package minimum db of
      None \<Rightarrow> \<forall>row \<in> set (db_agent_packages db). \<not> suits package m row
    | Some p \<Rightarrow> \<exists>row \<in> set (db_agent_packages db).
        p = ParseAgentPackageRecord row (channel_concat e (pk_package_id row) db) \<and> suits package m row \<and>
        (\<forall>other \<in> set (db_agent_packages db). suits package m other \<longrightarrow>
           the (ParseSemver3 (pk_version other)) \<le> the (ParseSemver3 (pk_version row)))"
proof -
  have "best_of package m (find_installer package m None (ListAgentPackages e db)) ({} \<union> set (ListAgentPackages e db))"
    by (rule find_installer_best) (simp add: best_of_def)
  then have "best_of package m (FindCompatibleInstallerPackage e package minimum db) (set (ListAgentPackages e db))"
    using assms by (simp add: FindCompatibleInstallerPackage_def)
  then show ?thesis
    unfolding best_of_def ListAgentPackages_rows by (auto simp: candidate_suits split: option.splits)
qed

definition demo_installer_row :: "string \<Rightarrow> string \<Rightarrow> package_row" where
  "demo_installer_row package_id version =
     \<lparr>pk_package_id = package_id, pk_component = ''installer'', pk_version = version, pk_platform = ''linux'',
      pk_arch = ''x64'', pk_build_type = ''release'', pk_filename = [], pk_storage_path = [], pk_size_bytes = 0,
      pk_sha256 = [], pk_manifest_json = [], pk_status = ''published'', pk_uploaded_at = [],
      pk_validated_at = None, pk_published_at = None, pk_retired_at = None\<rparr>"

definition demo_catalogue :: server_database where
  "demo_catalogue = fresh_database\<lparr>db_agent_packages :=
     [demo_installer_row ''i1'' ''0.9.0'', demo_installer_row ''i2'' ''1.1.0'']\<rparr>"

theorem newest_compatible_installer_witness:
  "case FindCompatibleInstallerPackage demo_ext (ParseAgentPackageRecord (demo_installer_row ''a'' ''2.0.0'') [])
      ''1.0.0'' demo_catalogue of
    None \<Rightarrow> False
  | Some p \<Rightarrow> \<exists>row \<in> set (db_agent_packages demo_catalogue).
      pk_package_id p = pk_package_id row \<and>
      suits (ParseAgentPackageRecord (demo_installer_row ''a'' ''2.0.0'') []) (Semver3 1 0 0) row"
proof -
  let ?package = "ParseAgentPackageRecord (demo_installer_row ''a'' ''2.0.0'') []"
  have "FindCompatibleInstallerPackage demo_ext ?package ''1.0.0'' demo_catalogue \<noteq> None" by code_simp
  moreover have "ParseSemver3 ''1.0.0'' = Some (Semver3 1 0 0)" by code_simp
  ultimately show ?thesis
    using newest_compatible_installer [where minimum = "''1.0.0''" and m = "Semver3 1 0 0" and e = demo_ext
        and package = ?package and db = demo_catalogue]
    by (auto simp: ParseAgentPackageRecord_def package_row.defs split: option.splits)
qed

subsection \<open>What a validated package is\<close>

lemma for_each_run_all: "for_each_run f xs = Some (Inr ()) \<Longrightarrow> x \<in> set xs \<Longrightarrow> f x = Some (Inr ())"
  by (induction xs) (auto simp: bind_run_Some_Inr)

lemma rethrow_Inr [simp]: "rethrow_as message m = Some (Inr x) \<longleftrightarrow> m = Some (Inr x)"
  by (auto simp: rethrow_as_def split: option.splits sum.splits exn.splits)

text \<open>
  C26: A package that passes the upload checks is what its manifest says: the manifest is the one in the
  archive and parses, the file name is the one it gives the package, every file it lists is in the
  archive with the size and the digest listed, and the recorded digest is that of the whole file.
\<close>

theorem validated_upload:
  assumes "ValidateAgentPackageUpload env fs path filename = Some (Inr md)"
  shows "\<exists>bytes m. ReadArchiveFile (rp_zlib env) (rp_os env) fs path kManifestPath = Some (Inr bytes) \<and>
    md_manifest_json md = string_of_bytes bytes \<and> ParseManifestJson (rp_json env) (md_manifest_json md) = Inr m \<and>
    filename = expected_filename m \<and> md_component md = mn_component m \<and> md_component md \<in> {''agent'', ''installer''} \<and>
    md_version md = mn_version m \<and>
    Sha256FileHex (rp_digest env) path (read_file (rp_os env) fs path) = Inr (md_sha256 md) \<and>
    (\<forall>f \<in> set (mn_files m). \<exists>data.
       ReadArchiveFile (rp_zlib env) (rp_os env) fs path (mf_source f) = Some (Inr data) \<and>
       length data = mf_size f \<and> Sha256BytesHex (rp_digest env) (string_of_bytes data) = Inr (mf_sha256 f))"
proof -
  obtain entries bytes m where
    bytes: "ReadArchiveFile (rp_zlib env) (rp_os env) fs path kManifestPath = Some (Inr bytes)"
    and m: "ParseManifestJson (rp_json env) (string_of_bytes bytes) = Inr m"
    and component: "IsSupportedPackageComponent (mn_component m)" and name: "filename = expected_filename m"
    and files: "for_each_run (ValidateManifestFile env fs path (IndexEntries entries)) (mn_files m) = Some (Inr ())"
    and sha: "Sha256FileHex (rp_digest env) path (read_file (rp_os env) fs path) = Inr (md_sha256 md)"
    and md: "md_manifest_json md = string_of_bytes bytes" "md_component md = mn_component m" "md_version md = mn_version m"
    using assms unfolding ValidateAgentPackageUpload_def ReadArchiveText_def ReadArchiveBytes_def Let_def
    by (auto simp: bind_run_Some_Inr split: if_splits)
  have "\<exists>data. ReadArchiveFile (rp_zlib env) (rp_os env) fs path (mf_source f) = Some (Inr data) \<and>
      length data = mf_size f \<and> Sha256BytesHex (rp_digest env) (string_of_bytes data) = Inr (mf_sha256 f)"
    if "f \<in> set (mn_files m)" for f
    using for_each_run_all [OF files that]
    by (auto simp: ValidateManifestFile_def ReadArchiveBytes_def bind_run_Some_Inr split: if_splits)
  then show ?thesis
    using bytes m component name sha md by (auto simp: IsSupportedPackageComponent_def)
qed


text \<open>An archive with a manifest and the one file it lists.\<close>

definition demo_digest_zero :: "unit digest_lib" where
  "demo_digest_zero =
     \<lparr>EVP_MD_CTX_new = True, EVP_DigestInit_ex = Some (), EVP_DigestUpdate = (\<lambda>a b. Some ()),
      EVP_DigestFinal_ex = (\<lambda>a. Some (replicate 32 0))\<rparr>"

definition demo_repository :: "(unit, bool, bool) repository_env" where
  "demo_repository = \<lparr>rp_os = demo_env, rp_zlib = demo_zlib, rp_json = demo_json, rp_digest = demo_digest_zero\<rparr>"

definition demo_manifest_member :: archive_record where
  "demo_manifest_member =
     \<lparr>ar_path = kManifestPath, ar_executable = False, ar_compressed_size = 3, ar_uncompressed_size = 2,
      ar_local_header_offset = 0, ar_crc32 = 2, ar_compression_method = kDeflatedCompressionMethod,
      ar_flags = kGeneralPurposeUtf8, ar_version_made_by = push_bit 8 kUnixOsCode OR kZipVersion\<rparr>"

definition demo_payload_member :: archive_record where
  "demo_payload_member =
     \<lparr>ar_path = ''payload/a'', ar_executable = True, ar_compressed_size = 4, ar_uncompressed_size = 3,
      ar_local_header_offset = 51, ar_crc32 = 3, ar_compression_method = kDeflatedCompressionMethod,
      ar_flags = kGeneralPurposeUtf8, ar_version_made_by = push_bit 8 kUnixOsCode OR kZipVersion\<rparr>"

definition demo_upload_body :: "u8 list" where
  "demo_upload_body =
     (local_header_bytes 2 (u32_of_size 3) (u32_of_size 2) kManifestPath @ [123, 125, 0]) @
     (local_header_bytes 3 (u32_of_size 4) (u32_of_size 3) ''payload/a'' @ [5, 6, 7, 0])"

definition demo_upload :: "u8 list" where
  "demo_upload =
     demo_upload_body @ concat (map central_entry_bytes [demo_manifest_member, demo_payload_member]) @
     eocd_bytes 2 119 94"

definition demo_upload_fs :: file_system where
  "demo_upload_fs = [[''p.zip''] \<mapsto> Regular_file demo_upload False]"

lemma demo_upload_parses:
  "ParseCentralDirectory path demo_upload = Inr [demo_manifest_member, demo_payload_member]"
proof -
  have "writable_record (length demo_upload) demo_manifest_member" "writable_record (length demo_upload) demo_payload_member"
    by (simp_all add: writable_record_def demo_manifest_member_def demo_payload_member_def demo_upload_def
        demo_upload_body_def kManifestPath_def IsSafeRelativeArchivePath_def IsWindowsDrivePrefix_def)
  then have "ParseCentralDirectory path demo_upload = Inr (map made_by_unix [demo_manifest_member, demo_payload_member])"
    by (intro ParseCentralDirectory_written [where body = demo_upload_body])
      (simp_all add: demo_upload_def demo_upload_body_def demo_manifest_member_def demo_payload_member_def kManifestPath_def
        numeral_2_eq_2)
  then show ?thesis by (simp add: made_by_unix_def demo_manifest_member_def demo_payload_member_def)
qed

lemma demo_round_trips: "0 \<notin> set data \<Longrightarrow> zlib_round_trips demo_zlib demo_codec data"
  unfolding zlib_round_trips_def using demo_deflates [of data] demo_inflates [of data]
  by (auto simp: demo_codec_def)

lemma demo_upload_data:
  "ReadArchiveEntryBytes demo_zlib demo_upload demo_manifest_member = Some (Inr [123, 125])"
  "ReadArchiveEntryBytes demo_zlib demo_upload demo_payload_member = Some (Inr [5, 6, 7])"
proof -
  have "stored_at demo_codec demo_upload demo_manifest_member [123, 125]"
    unfolding stored_at_def
    by (intro exI [of _ "[]"] exI [of _ "[123, 125, 0]"] exI [of _ "drop 51 demo_upload"])
      (simp add: demo_upload_def demo_upload_body_def demo_manifest_member_def demo_codec_def kManifestPath_def)
  then show "ReadArchiveEntryBytes demo_zlib demo_upload demo_manifest_member = Some (Inr [123, 125])"
    using ReadArchiveEntryBytes_stored [of demo_codec demo_upload demo_manifest_member "[123, 125]" demo_zlib]
      demo_round_trips [of "[123, 125]"]
    by (simp add: demo_manifest_member_def kBufferSize_def kManifestPath_def)
  have "stored_at demo_codec demo_upload demo_payload_member [5, 6, 7]"
    unfolding stored_at_def
    by (intro exI [of _ "take 51 demo_upload"] exI [of _ "[5, 6, 7, 0]"] exI [of _ "drop 94 demo_upload"])
      (simp add: demo_upload_def demo_upload_body_def demo_payload_member_def demo_codec_def kManifestPath_def)
  then show "ReadArchiveEntryBytes demo_zlib demo_upload demo_payload_member = Some (Inr [5, 6, 7])"
    using ReadArchiveEntryBytes_stored [of demo_codec demo_upload demo_payload_member "[5, 6, 7]" demo_zlib]
      demo_round_trips [of "[5, 6, 7]"]
    by (simp add: demo_payload_member_def kBufferSize_def)
qed

lemma demo_upload_reads:
  "ReadArchiveFile demo_zlib demo_env demo_upload_fs ''/p.zip'' kManifestPath = Some (Inr [123, 125])"
  "ReadArchiveFile demo_zlib demo_env demo_upload_fs ''/p.zip'' ''payload/a'' = Some (Inr [5, 6, 7])"
  "ListArchiveEntries demo_env demo_upload_fs ''/p.zip'' =
     Inr [\<lparr>ae_path = kManifestPath, ae_executable = False, ae_compressed_size = 3, ae_uncompressed_size = 2\<rparr>,
          \<lparr>ae_path = ''payload/a'', ae_executable = True, ae_compressed_size = 4, ae_uncompressed_size = 3\<rparr>]"
proof -
  have zip: "IsArchivePath ''/p.zip''" by (simp add: IsArchivePath_def path_extension_def path_filename_def)
  have read: "read_file demo_env demo_upload_fs ''/p.zip'' = Some demo_upload"
    by (simp add: read_file_def node_status_def demo_paths node_at_def demo_upload_fs_def)
  have safe: "IsSafeRelativeArchivePath kManifestPath" "IsSafeRelativeArchivePath ''payload/a''"
    by code_simp+
  have paths: "ar_path demo_manifest_member = kManifestPath" "ar_path demo_payload_member = ''payload/a''"
    by (simp_all add: demo_manifest_member_def demo_payload_member_def)
  note defs = ReadArchiveFile_def run_if_def zip safe ParseArchive_def read demo_upload_parses FindArchiveRecord_def paths
  show "ReadArchiveFile demo_zlib demo_env demo_upload_fs ''/p.zip'' kManifestPath = Some (Inr [123, 125])"
    by (simp add: defs demo_upload_data)
  show "ReadArchiveFile demo_zlib demo_env demo_upload_fs ''/p.zip'' ''payload/a'' = Some (Inr [5, 6, 7])"
    by (simp add: defs demo_upload_data) (simp add: kManifestPath_def)
  show "ListArchiveEntries demo_env demo_upload_fs ''/p.zip'' =
     Inr [\<lparr>ae_path = kManifestPath, ae_executable = False, ae_compressed_size = 3, ae_uncompressed_size = 2\<rparr>,
          \<lparr>ae_path = ''payload/a'', ae_executable = True, ae_compressed_size = 4, ae_uncompressed_size = 3\<rparr>]"
    by (simp add: ListArchiveEntries_def zip ParseArchive_def read demo_upload_parses)
      (simp add: demo_manifest_member_def demo_payload_member_def)
qed

definition demo_metadata :: agent_package_metadata where
  "demo_metadata =
     \<lparr>md_component = ''agent'', md_version = ''1.0.0'', md_platform = ''linux'', md_arch = ''x64'',
      md_build_type = ''release'', md_min_installer_version = ''0.1.0'', md_size_bytes = 235,
      md_sha256 = replicate 64 (CHR ''0''), md_manifest_json = ''{}''\<rparr>"

lemma demo_upload_valid:
  "ValidateAgentPackageUpload demo_repository demo_upload_fs ''/p.zip'' ''zfleet_agent-v1.0.0-linux-x64-release.zip'' =
     Some (Inr demo_metadata)"
proof -
  have status: "fs_status demo_env demo_upload_fs ''/p.zip'' = Inr (Some (Regular_file demo_upload False))"
    by (simp add: fs_status_def node_status_def demo_paths node_at_def demo_upload_fs_def)
  have read: "read_file demo_env demo_upload_fs ''/p.zip'' = Some demo_upload"
    by (simp add: read_file_def node_status_def demo_paths node_at_def demo_upload_fs_def)
  have "concat (map hex_byte (replicate 32 0)) = replicate 64 (CHR ''0'')" by code_simp
  then have finish: "Sha256Finish demo_digest_zero c = Inr (replicate 64 (CHR ''0''))" for c
    by (simp add: Sha256Finish_def demo_digest_zero_def)
  have update: "Sha256Update demo_digest_zero c bytes = Inr ()" for c bytes
    by (simp add: Sha256Update_def demo_digest_zero_def)
  have init: "Sha256Context demo_digest_zero = Inr ()" by (simp add: Sha256Context_def demo_digest_zero_def)
  have loop: "sha256_file_loop demo_digest_zero c rest = Inr ()" for c rest
    by (induction demo_digest_zero c rest rule: sha256_file_loop.induct)
      (subst sha256_file_loop.simps, simp add: update)
  have digest: "Sha256BytesHex demo_digest_zero data = Inr (replicate 64 (CHR ''0''))" for data
    by (simp add: Sha256BytesHex_def init update finish)
  have fdigest: "Sha256FileHex demo_digest_zero path (Some data) = Inr (replicate 64 (CHR ''0''))" for path data
    by (simp add: Sha256FileHex_def init loop finish)
  have braces: "string_of_bytes [123, 125] = ''{}''" by code_simp
  have len: "length demo_upload = 235" by (simp add: demo_upload_def demo_upload_body_def kManifestPath_def
        demo_manifest_member_def demo_payload_member_def)
  have manifest: "mn_component demo_manifest = ''agent''" "mn_version demo_manifest = ''1.0.0''"
    "mn_platform demo_manifest = ''linux''" "mn_arch demo_manifest = ''x64''" "mn_build_type demo_manifest = ''release''"
    "mn_min_installer_version demo_manifest = ''0.1.0''"
    "mn_files demo_manifest = [\<lparr>mf_source = ''payload/a'', mf_target = ''bin/a'', mf_size = 3,
       mf_sha256 = replicate 64 (CHR ''0''), mf_launchable = True\<rparr>]"
    by (simp_all add: demo_manifest_def)
  have ne: "kManifestPath \<noteq> ''payload/a''" by (simp add: kManifestPath_def)
  show ?thesis
    by (simp add: ValidateAgentPackageUpload_def demo_repository_def status rethrow_as_def demo_upload_reads
        IndexEntries_def ReadArchiveText_def ReadArchiveBytes_def braces demo_parsed IsSupportedPackageComponent_def
        expected_filename_def manifest ValidateManifestFile_def digest fdigest FileSizeBytes_def file_size_def read len
        demo_metadata_def ne)
qed

theorem validated_upload_witness:
  "\<exists>m. ParseManifestJson demo_json ''{}'' = Inr m \<and>
     ''zfleet_agent-v1.0.0-linux-x64-release.zip'' = expected_filename m"
proof -
  have "md_manifest_json demo_metadata = ''{}''" "rp_json demo_repository = demo_json"
    by (simp_all add: demo_metadata_def demo_repository_def)
  then show ?thesis using validated_upload [OF demo_upload_valid] by auto
qed

end
