(* ===== verification/Package_Delivery.thy ===== *)
theory Package_Delivery
  imports Package_Repository Package_Updater
begin

section \<open>From the upload to the installer\<close>

text \<open>
  The server checks a package when it is uploaded, the agent when it has downloaded it.  The two
  checks agree: they look at the same bytes under two names.
\<close>

subsection \<open>The name of an archive does not matter\<close>

text \<open>
  The name of an archive only appears in error messages, so a successful parse does not depend on it:
  the second computation succeeds wherever the first one does, with the same value.
\<close>

definition succeeds_as :: "'a result \<Rightarrow> 'a result \<Rightarrow> bool" where
  "succeeds_as x y \<longleftrightarrow> (\<forall>r. x = Inr r \<longrightarrow> y = Inr r)"

lemma succeeds_as_refl [intro, simp]: "succeeds_as x x"
  by (simp add: succeeds_as_def)

lemma succeeds_as_fail [intro, simp]: "succeeds_as (Inl e) y"
  by (simp add: succeeds_as_def)

lemma succeeds_as_bind [intro]:
  "\<lbrakk>succeeds_as x y; \<And>r. succeeds_as (f r) (g r)\<rbrakk> \<Longrightarrow> succeeds_as (bind_res x f) (bind_res y g)"
  by (auto simp: succeeds_as_def bind_res_Inr_iff)

lemma succeeds_as_if [intro]:
  "\<lbrakk>P \<Longrightarrow> succeeds_as x y; \<not> P \<Longrightarrow> succeeds_as x' y'\<rbrakk> \<Longrightarrow> succeeds_as (if P then x else x') (if P then y else y')"
  by simp

lemma succeeds_as_pair [intro]:
  "(\<And>a b. succeeds_as (f a b) (g a b)) \<Longrightarrow> succeeds_as (case p of (a, b) \<Rightarrow> f a b) (case p of (a, b) \<Rightarrow> g a b)"
  by (cases p) simp

lemmas succeeds_rules = succeeds_as_refl succeeds_as_fail succeeds_as_bind succeeds_as_if succeeds_as_pair

lemma eocd_at_path: "succeeds_as (eocd_at p tail i) (eocd_at q tail i)"
  unfolding eocd_at_def Let_def by (intro succeeds_rules)

lemma locate_eocd_path: "succeeds_as (locate_eocd p tail n) (locate_eocd q tail n)"
proof (induction n)
  case (Suc n)
  have "eocd_at q tail n = Inr r" if "eocd_at p tail n = Inr r" for r
    using eocd_at_path [of p tail n q] that by (simp add: succeeds_as_def)
  with Suc show ?case
    by (cases "eocd_at p tail n") (auto split: option.splits)
qed simp

lemma ReadFileRange_path: "succeeds_as (ReadFileRange p file i n) (ReadFileRange q file i n)"
  unfolding ReadFileRange_def Let_def by (intro succeeds_rules)

lemma LocateEndOfCentralDirectory_path:
  "succeeds_as (LocateEndOfCentralDirectory p file) (LocateEndOfCentralDirectory q file)"
  unfolding LocateEndOfCentralDirectory_def Let_def
  by (intro succeeds_rules ReadFileRange_path locate_eocd_path)

lemma ReadCentralEntry_path: "succeeds_as (ReadCentralEntry p r) (ReadCentralEntry q r)"
  unfolding ReadCentralEntry_def by (intro succeeds_rules)

lemma central_loop_path: "succeeds_as (central_loop p len n seen r) (central_loop q len n seen r)"
proof (induction n arbitrary: seen r)
  case (Suc n)
  show ?case unfolding central_loop.simps by (intro succeeds_rules ReadCentralEntry_path Suc)
qed simp

lemma ParseCentralDirectory_path: "succeeds_as (ParseCentralDirectory p file) (ParseCentralDirectory q file)"
  unfolding ParseCentralDirectory_def Let_def
  by (intro succeeds_rules LocateEndOfCentralDirectory_path ReadFileRange_path central_loop_path)

lemma ReadArchiveFile_path:
  assumes "ReadArchiveFile zl env fs p path = Some (Inr bytes)" "IsArchivePath q"
    and "read_file env' fs' q = read_file env fs p"
  shows "ReadArchiveFile zl env' fs' q path = Some (Inr bytes)"
proof -
  have "q \<noteq> []" using assms(2) by (auto simp: IsArchivePath_def path_extension_def path_filename_def)
  then show ?thesis
    using assms ParseCentralDirectory_path [of p _ q]
    by (auto simp: ReadArchiveFile_def run_if_def throw_def bind_run_Some_Inr ParseArchive_def succeeds_as_def
        split: if_splits option.splits)
qed

text \<open>
  C7: What the server validated, the agent verifies.  When a package passed the upload checks, and the
  bytes the agent downloaded are the bytes of the file the server keeps, then the task made from the
  recorded digests passes the checks of the agent, and the update goes on to the installer.
\<close>

theorem validated_upload_is_verified:
  assumes "ValidateAgentPackageUpload env fs path filename = Some (Inr md)"
    and "ae_digest agent = rp_digest env" "ae_zlib agent = rp_zlib env"
    and "read_file (ae_os agent) (mc_files w) path' = read_file (rp_os env) fs path" "IsArchivePath path'"
    and "pui_package_sha256 input = md_sha256 md"
    and "Sha256BytesHex (rp_digest env) (md_manifest_json md) = Inr (pui_manifest_sha256 input)"
  shows "check_package agent input path' w = Some (Inr None, w)"
proof -
  obtain bytes where bytes: "ReadArchiveFile (rp_zlib env) (rp_os env) fs path Package_Repository.kManifestPath = Some (Inr bytes)"
      "md_manifest_json md = string_of_bytes bytes"
    and sha: "Sha256FileHex (rp_digest env) path (read_file (rp_os env) fs path) = Inr (md_sha256 md)"
    using assms(1) unfolding ValidateAgentPackageUpload_def ReadArchiveText_def ReadArchiveBytes_def Let_def
    by (auto simp: bind_run_Some_Inr split: if_splits)
  have "Sha256FileHex (rp_digest env) path' (read_file (ae_os agent) (mc_files w) path') = Inr (md_sha256 md)"
    using sha assms(4) by (auto simp: Sha256FileHex_def bind_res_Inr_iff split: option.splits)
  moreover have "ReadArchiveFile (rp_zlib env) (ae_os agent) (mc_files w) path' ''META/manifest.json'' = Some (Inr bytes)"
    using ReadArchiveFile_path [OF bytes(1) assms(5,4)] by (simp add: Package_Repository.kManifestPath_def)
  ultimately show ?thesis
    using assms(2,3,6,7) bytes(2) by (simp add: check_package_def prog_bind_def prog_read_def)
qed

text \<open>The demonstration upload, delivered to an agent that finds the same file system.\<close>

definition demo_recipient :: "(u8 list list, unit, bool, bool) agent_env" where
  "demo_recipient =
     \<lparr>ae_os = demo_env, ae_process = no_processes, ae_http = demo_http, ae_digest = demo_digest_zero, ae_zlib = demo_zlib\<rparr>"

definition demo_delivery :: package_update_input where
  "demo_delivery =
     demo_update\<lparr>pui_package_sha256 := replicate 64 (CHR ''0''), pui_manifest_sha256 := replicate 64 (CHR ''0'')\<rparr>"

theorem validated_upload_is_verified_witness:
  "check_package demo_recipient demo_delivery ''/p.zip'' (demo_response\<lparr>mc_files := demo_upload_fs\<rparr>) =
     Some (Inr None, demo_response\<lparr>mc_files := demo_upload_fs\<rparr>)"
proof -
  have "concat (map hex_byte (replicate 32 0)) = replicate 64 (CHR ''0'')" by code_simp
  then have "Sha256BytesHex demo_digest_zero data = Inr (replicate 64 (CHR ''0''))" for data
    by (simp add: Sha256BytesHex_def Sha256Context_def Sha256Update_def Sha256Finish_def demo_digest_zero_def)
  then show ?thesis
    by (intro validated_upload_is_verified [OF demo_upload_valid])
      (simp_all add: demo_recipient_def demo_repository_def demo_delivery_def demo_update_def demo_metadata_def
        IsArchivePath_def path_extension_def path_filename_def)
qed

end
