(* ===== verification/Install_Platform.thy ===== *)
theory Install_Platform
  imports File_System
begin

section \<open>apps/server: install scripts and commands (install_platform_resolver.cpp)\<close>

text \<open>
  The platforms an agent can be installed on, and the command line an operator pastes into a shell.
  What the shell makes of that line is the lexer \<open>shell_words\<close>, so that the quoting can be checked
  against it.
\<close>

record install_command_request =
  icr_server_url :: string
  icr_control_url :: string
  icr_token :: string
  icr_channel :: string
  icr_root :: string

text \<open>The function pointer of a platform, by the name of the function it points to.\<close>

datatype command_builder = LinuxCommand | WindowsCommand

record install_platform_spec =
  ips_platform :: string
  ips_script_path :: string
  ips_script_content_type :: string
  ips_build_command :: "command_builder option"

definition kSpecs :: "install_platform_spec list" where
  "kSpecs =
     [\<lparr>ips_platform = ''linux'', ips_script_path = ''scripts/install/linux.sh'',
       ips_script_content_type = ''text/x-shellscript'', ips_build_command = Some LinuxCommand\<rparr>,
      \<lparr>ips_platform = ''windows'', ips_script_path = ''scripts/install/windows.ps1'',
       ips_script_content_type = ''text/plain'', ips_build_command = Some WindowsCommand\<rparr>]"

definition FindInstallPlatformSpec :: "string \<Rightarrow> install_platform_spec option" where
  "FindInstallPlatformSpec platform = find (\<lambda>spec. ips_platform spec = platform) kSpecs"

definition InstallScriptUrl :: "string \<Rightarrow> string \<Rightarrow> string result" where
  "InstallScriptUrl platform server_url =
     (if FindInstallPlatformSpec platform = None
      then Inl (Invalid_argument ''unsupported install platform'')
      else Inr (server_url @ ''/api/v1/install/script?platform='' @ platform))"

subsection \<open>The command lines\<close>

text \<open>A quote in the value ends the quoted part, stands between double quotes, and begins the next one.\<close>

definition quote_char :: "char \<Rightarrow> string" where
  "quote_char ch =
     (if ch = CHR 0x27 then [CHR 0x27, CHR 0x22, CHR 0x27, CHR 0x22, CHR 0x27] else [ch])"

definition ShellQuote :: "string \<Rightarrow> string" where
  "ShellQuote value = CHR 0x27 # concat (map quote_char value) @ [CHR 0x27]"

definition continued :: string where
  "continued = [CHR '' '', CHR 0x5C, CHR 0x0A]"

definition LinuxInstallCommand :: "install_command_request \<Rightarrow> string result" where
  "LinuxInstallCommand request =
     bind_res (InstallScriptUrl ''linux'' (icr_server_url request)) (\<lambda>script_url.
     Inr (''curl -fsSL '' @ ShellQuote script_url @ '' | sudo bash -s --'' @ continued @
          ''  --server-url '' @ ShellQuote (icr_server_url request) @ continued @
          ''  --control-url '' @ ShellQuote (icr_control_url request) @ continued @
          ''  --token '' @ ShellQuote (icr_token request) @ continued @
          ''  --channel '' @ ShellQuote (icr_channel request) @ continued @
          ''  --root '' @ ShellQuote (icr_root request)))"

definition WindowsInstallCommand :: "install_command_request \<Rightarrow> string result" where
  "WindowsInstallCommand request =
     bind_res (InstallScriptUrl ''windows'' (icr_server_url request)) (\<lambda>script_url.
     Inr (''powershell -ExecutionPolicy Bypass -File '' @ ShellQuote script_url @
          '' -ServerUrl '' @ ShellQuote (icr_server_url request) @
          '' -ControlUrl '' @ ShellQuote (icr_control_url request) @
          '' -Token '' @ ShellQuote (icr_token request) @
          '' -Channel '' @ ShellQuote (icr_channel request) @
          '' -Root '' @ ShellQuote (icr_root request)))"

fun run_builder :: "command_builder \<Rightarrow> install_command_request \<Rightarrow> string result" where
  "run_builder LinuxCommand request = LinuxInstallCommand request"
| "run_builder WindowsCommand request = WindowsInstallCommand request"

definition BuildInstallCommand :: "string \<Rightarrow> install_command_request \<Rightarrow> string result" where
  "BuildInstallCommand platform request =
     (case FindInstallPlatformSpec platform of
        None \<Rightarrow> Inl (Invalid_argument ''unsupported install platform'')
      | Some spec \<Rightarrow>
          (case ips_build_command spec of
             None \<Rightarrow> Inl (Invalid_argument ''unsupported install platform'')
           | Some build_command \<Rightarrow> run_builder build_command request))"

subsection \<open>The scripts\<close>

definition ReadScript :: "os_env \<Rightarrow> file_system \<Rightarrow> string \<Rightarrow> string \<Rightarrow> string result" where
  "ReadScript env fs root relative_path =
     (case read_file env fs (path_append root relative_path) of
        None \<Rightarrow> Inl (Runtime_error (''install script template is missing: '' @ path_append root relative_path))
      | Some bytes \<Rightarrow> Inr (string_of_bytes bytes))"

definition RenderInstallScript :: "os_env \<Rightarrow> file_system \<Rightarrow> string \<Rightarrow> string \<Rightarrow> string result" where
  "RenderInstallScript env fs platform web_static_root =
     (case FindInstallPlatformSpec platform of
        None \<Rightarrow> Inl (Invalid_argument ''unsupported install platform'')
      | Some spec \<Rightarrow> ReadScript env fs web_static_root (ips_script_path spec))"

subsection \<open>What a POSIX shell reads\<close>

text \<open>
  The words of a command line, as section 2.3 of the shell standard splits it, for the constructs
  the commands use; \<open>None\<close> is an unfinished quotation or a construct with another meaning (an
  expansion, a redirection, a list, a comment, a pattern).
\<close>

datatype shell_token = Word string | Pipe

datatype shell_mode = Bare | In_single | In_double

definition word_so_far :: "string option \<Rightarrow> string" where
  "word_so_far w = (case w of None \<Rightarrow> [] | Some s \<Rightarrow> s)"

definition end_word :: "string option \<Rightarrow> shell_token list option \<Rightarrow> shell_token list option" where
  "end_word w rest = (case w of None \<Rightarrow> rest | Some s \<Rightarrow> map_option (Cons (Word s)) rest)"

definition shell_special :: "char set" where
  "shell_special = set ''&;<>()$`*?[#~='' \<union> {CHR 0x0A}"

fun shell_lex :: "shell_mode \<Rightarrow> string option \<Rightarrow> string \<Rightarrow> shell_token list option" where
  "shell_lex Bare w [] = end_word w (Some [])"
| "shell_lex Bare w (c # cs) =
     (if c = CHR 0x27 then shell_lex In_single (Some (word_so_far w)) cs
      else if c = CHR 0x22 then shell_lex In_double (Some (word_so_far w)) cs
      else if c = CHR 0x5C then
        (case cs of
           [] \<Rightarrow> None
         | d # ds \<Rightarrow> if d = CHR 0x0A then shell_lex Bare w ds
                     else shell_lex Bare (Some (word_so_far w @ [d])) ds)
      else if c = CHR '' '' \<or> c = CHR 0x09 then end_word w (shell_lex Bare None cs)
      else if c = CHR ''|'' then
        (if take 1 cs \<in> {''|'', ''&''} then None
         else end_word w (map_option (Cons Pipe) (shell_lex Bare None cs)))
      else if c \<in> shell_special then None
      else shell_lex Bare (Some (word_so_far w @ [c])) cs)"
| "shell_lex In_single w [] = None"
| "shell_lex In_single w (c # cs) =
     (if c = CHR 0x27 then shell_lex Bare w cs
      else shell_lex In_single (Some (word_so_far w @ [c])) cs)"
| "shell_lex In_double w [] = None"
| "shell_lex In_double w (c # cs) =
     (if c = CHR 0x22 then shell_lex Bare w cs
      else if c \<in> {CHR ''$'', CHR ''`'', CHR 0x5C} then None
      else shell_lex In_double (Some (word_so_far w @ [c])) cs)"

definition shell_words :: "string \<Rightarrow> shell_token list option" where
  "shell_words line = shell_lex Bare None line"

lemma word_so_far_simps [simp]: "word_so_far None = []" "word_so_far (Some s) = s"
  by (simp_all add: word_so_far_def)

lemma end_word_simps [simp]:
  "end_word None rest = rest" "end_word (Some s) rest = map_option (Cons (Word s)) rest"
  by (simp_all add: end_word_def)

lemma lex_quoted:
  "shell_lex In_single (Some w) (concat (map quote_char v) @ CHR 0x27 # rest) =
   shell_lex Bare (Some (w @ v)) rest"
  by (induction v arbitrary: w) (simp_all add: quote_char_def)

lemma lex_ShellQuote:
  "shell_lex Bare w (ShellQuote value @ rest) = shell_lex Bare (Some (word_so_far w @ value)) rest"
  by (simp add: ShellQuote_def lex_quoted)

text \<open>
  C23: No parameter of the install command can reach beyond its argument.  Whatever the server address,
  the control address, the token, the channel and the directory contain (quotes, spaces, dollar signs,
  semicolons or line breaks), a POSIX shell reads the command as the one pipeline it is meant to be,
  each parameter as one word with exactly its value.
\<close>

theorem install_command_is_one_pipeline:
  "\<exists>line. BuildInstallCommand ''linux'' request = Inr line \<and>
     shell_words line = Some
       [Word ''curl'', Word ''-fsSL'', Word (icr_server_url request @ ''/api/v1/install/script?platform=linux''),
        Pipe, Word ''sudo'', Word ''bash'', Word ''-s'', Word ''--'',
        Word ''--server-url'', Word (icr_server_url request), Word ''--control-url'', Word (icr_control_url request),
        Word ''--token'', Word (icr_token request), Word ''--channel'', Word (icr_channel request),
        Word ''--root'', Word (icr_root request)]"
proof -
  have spec: "FindInstallPlatformSpec ''linux'' = Some (kSpecs ! 0)" "ips_build_command (kSpecs ! 0) = Some LinuxCommand"
    by (simp_all add: FindInstallPlatformSpec_def kSpecs_def)
  have last_quote: "shell_lex Bare w (ShellQuote v) = Some [Word (word_so_far w @ v)]" for w v
    using lex_ShellQuote [of w v "[]"] by simp
  show ?thesis
    by (simp add: BuildInstallCommand_def spec LinuxInstallCommand_def InstallScriptUrl_def shell_words_def
        continued_def lex_ShellQuote last_quote shell_special_def)
qed

end
