(* ===== verification/Static_Files.thy ===== *)
theory Static_Files
  imports Core_Path Archive Manifest
begin

section \<open>apps/server: the files of the web interface (static_file_service.cpp)\<close>

text \<open>
  The service reads pages and assets below a directory and serves nothing that a symbolic link leads
  to.  A status is an exception where the operating system reports one.
\<close>

record static_file_response =
  sf_status :: int
  sf_content_type :: string
  sf_body :: string

definition default_static_response :: static_file_response where
  "default_static_response =
     \<lparr>sf_status = 404, sf_content_type = ''text/plain; charset=utf-8'', sf_body = []\<rparr>"

definition kRequiredFiles :: "string list" where
  "kRequiredFiles =
     [''index.html'', ''install.html'', ''agents.html'', ''admin/packages.html'', ''assets/admin.css'',
      ''assets/admin.js'', ''scripts/install/linux.sh'', ''scripts/install/windows.ps1'']"

definition IsPermittedAssetExtension :: "string \<Rightarrow> bool" where
  "IsPermittedAssetExtension path \<longleftrightarrow>
     path_extension path \<in> {''.css'', ''.js'', ''.svg'', ''.png'', ''.ico'', ''.woff2''}"

definition ContentTypeForPath :: "string \<Rightarrow> string" where
  "ContentTypeForPath path =
     (let extension = path_extension path in
      if extension = ''.html'' then ''text/html; charset=utf-8''
      else if extension = ''.css'' then ''text/css; charset=utf-8''
      else if extension = ''.js'' then ''text/javascript; charset=utf-8''
      else if extension = ''.svg'' then ''image/svg+xml''
      else if extension = ''.png'' then ''image/png''
      else if extension = ''.ico'' then ''image/x-icon''
      else if extension = ''.woff2'' then ''font/woff2''
      else if extension = ''.sh'' then ''text/plain; charset=utf-8''
      else if extension = ''.ps1'' then ''text/plain; charset=utf-8''
      else ''application/octet-stream'')"

definition static_root :: "os_env \<Rightarrow> string \<Rightarrow> string" where
  "static_root env root = lexically_normal (fs_absolute env root)"

text \<open>The loop over the elements of the relative path; the last \<open>current\<close>, or \<open>None\<close> on the early return.\<close>

fun links_loop :: "os_env \<Rightarrow> file_system \<Rightarrow> string \<Rightarrow> string list \<Rightarrow> string option result" where
  "links_loop env fs current [] = Inr (Some current)"
| "links_loop env fs current (component # components) =
     (let current = path_append current component in
      bind_res (symlink_status env fs current) (\<lambda>status.
      if status = None \<or> is_symlink_node status then Inr None
      else links_loop env fs current components))"

definition IsRegularFileWithoutSymlinks :: "os_env \<Rightarrow> file_system \<Rightarrow> string \<Rightarrow> string \<Rightarrow> bool result" where
  "IsRegularFileWithoutSymlinks env fs root relative_path =
     bind_res (links_loop env fs root (path_parts relative_path)) (\<lambda>current.
     case current of
       None \<Rightarrow> Inr False
     | Some p \<Rightarrow> bind_res (fs_status env fs p) (\<lambda>status. Inr (is_regular_node status)))"

definition ValidateRequiredFiles :: "os_env \<Rightarrow> file_system \<Rightarrow> string \<Rightarrow> unit result" where
  "ValidateRequiredFiles env fs root =
     bind_res (fs_is_directory env fs root) (\<lambda>directory.
     bind_res (if directory then symlink_status env fs root else Inr None) (\<lambda>status.
     if \<not> directory \<or> is_symlink_node status
     then Inl (Runtime_error (''web static directory is missing or unsafe: '' @ root))
     else
       bind_res (map_res (\<lambda>required_file.
         bind_res (IsRegularFileWithoutSymlinks env fs root required_file) (\<lambda>ok.
         if ok then Inr ()
         else Inl (Runtime_error (''required web static file is missing or unsafe: '' @
                path_append root required_file)))) kRequiredFiles) (\<lambda>_. Inr ())))"

definition static_ReadFile ::
    "os_env \<Rightarrow> file_system \<Rightarrow> string \<Rightarrow> string \<Rightarrow> static_file_response result" where
  "static_ReadFile env fs root relative_path =
     bind_res (IsRegularFileWithoutSymlinks env fs root relative_path) (\<lambda>regular.
     if \<not> regular then Inr default_static_response
     else case read_file env fs (path_append root relative_path) of
       None \<Rightarrow> Inr default_static_response
     | Some bytes \<Rightarrow>
         Inr \<lparr>sf_status = 200, sf_content_type = ContentTypeForPath relative_path,
              sf_body = string_of_bytes bytes\<rparr>)"

text \<open>The relative path a request is mapped to; \<open>None\<close> is answered with the default response.\<close>

definition static_target :: "string \<Rightarrow> string option" where
  "static_target request_path =
     (if request_path = ''/'' then Some ''index.html''
      else if request_path = ''/install'' then Some ''install.html''
      else if request_path = ''/agents'' \<or> starts_with request_path ''/agents/'' then Some ''agents.html''
      else if request_path = ''/admin/packages'' then Some ''admin/packages.html''
      else if starts_with request_path ''/assets/'' then
        let validation = ValidateRelativePath (drop 1 request_path) in
        if \<not> vs_ok validation then None
        else if \<not> IsPermittedAssetExtension (vs_value validation) then None
        else Some (vs_value validation)
      else None)"

definition static_Read :: "os_env \<Rightarrow> file_system \<Rightarrow> string \<Rightarrow> string \<Rightarrow> static_file_response result" where
  "static_Read env fs root request_path =
     (case static_target request_path of
        None \<Rightarrow> Inr default_static_response
      | Some relative_file \<Rightarrow> static_ReadFile env fs root relative_file)"

subsection \<open>What a path without links leads to\<close>

text \<open>A path that goes on below \<open>xs\<close> is resolved by resolving \<open>xs\<close> and going on from there.\<close>

lemma resolve_append:
  assumes "resolve links fs cur (xs @ ys) follow = Inr q" "ys \<noteq> []"
  shows "\<exists>m base. resolve links fs cur xs True = Inr base \<and>
    (\<forall>zs f. zs \<noteq> [] \<longrightarrow> resolve links fs cur (xs @ zs) f = resolve m fs base zs f)"
  using assms
proof (induction links fs cur xs True rule: resolve.induct)
  case (1 links fs cur)
  then show ?case by auto
next
  case (2 links fs cur c cs)
  consider (dot) "c = ''.''" | (dots) "c = ''..''" | (other) "c \<noteq> ''.''" "c \<noteq> ''..''" by blast
  then show ?case
  proof cases
    case other
    then show ?thesis
    proof (cases "fs (cur @ [c])")
      case None
      then show ?thesis using 2 other by simp
    next
      case (Some node)
      show ?thesis
        using 2 other Some
        by (cases node) (auto split: if_splits)
    qed
  qed (use 2 in auto)
qed

text \<open>Below a directory, names that are not links are entered one by one.\<close>

lemma resolve_plain_step:
  assumes "resolve links fs cur (c # cs) follow = Inr q" "c \<noteq> ''.''" "c \<noteq> ''..''" "cs \<noteq> []"
    and "\<forall>t. fs (cur @ [c]) \<noteq> Some (Symlink t)"
  shows "fs (cur @ [c]) = Some Directory \<and> resolve links fs cur (c # cs) follow = resolve links fs (cur @ [c]) cs follow"
  using assms by (cases "fs (cur @ [c])") (auto split: fs_node.splits if_splits)

text \<open>A name that can be entered: not a dot, and the spelling of one element.\<close>

definition entry_name :: "string \<Rightarrow> bool" where
  "entry_name c \<longleftrightarrow> c \<noteq> [] \<and> c \<noteq> ''.'' \<and> c \<noteq> ''..'' \<and> CHR ''/'' \<notin> set c"

lemma entry_name_ends: "entry_name c \<Longrightarrow> hd c \<noteq> CHR ''/'' \<and> last c \<noteq> CHR ''/''"
  unfolding entry_name_def by (metis hd_in_set last_in_set)

definition no_link :: "fs_node option \<Rightarrow> bool" where
  "no_link node \<longleftrightarrow> node \<noteq> None \<and> \<not> is_symlink_node node"

lemma no_link_simps [simp]: "\<not> no_link None" "no_link (Some (Regular_file b x))" "no_link (Some Directory)"
  "\<not> no_link (Some (Symlink t))" "no_link (Some Special_file)"
  by (simp_all add: no_link_def)

lemma resolve_one:
  assumes "resolve m fs base [c] False = Inr q" "no_link (node_at fs q)" "entry_name c"
  shows "q = base @ [c] \<and> no_link (fs (base @ [c])) \<and> resolve m fs base [c] f = Inr (base @ [c])"
  using assms by (cases "fs (base @ [c])") (auto simp: entry_name_def split: fs_node.splits)

lemma resolve_entered:
  assumes "\<forall>k\<in>{1..length names}. \<exists>q. resolve m fs base (take k names) False = Inr q \<and> no_link (node_at fs q)"
    and "list_all entry_name names" "names \<noteq> []"
  shows "(\<forall>k. 0 < k \<and> k < length names \<longrightarrow> fs (base @ take k names) = Some Directory) \<and>
    no_link (fs (base @ names)) \<and> (\<forall>f. resolve m fs base names f = Inr (base @ names))"
  using assms
proof (induction names arbitrary: base)
  case (Cons c cs)
  obtain q where "resolve m fs base [c] False = Inr q" "no_link (node_at fs q)"
    using Cons.prems(1) by (auto dest: bspec [of _ _ 1])
  note c = resolve_one [OF this]
  have plain: "c \<noteq> ''.''" "c \<noteq> ''..''" and entry: "entry_name c"
    using Cons.prems(2) by (auto simp: entry_name_def)
  have link: "\<forall>t. fs (base @ [c]) \<noteq> Some (Symlink t)"
    using c [OF entry] by (auto simp: no_link_def)
  show ?case
  proof (cases cs)
    case Nil
    then show ?thesis using c [OF entry] by auto
  next
    case (Cons d ds)
    obtain q2 where "resolve m fs base (c # [d]) False = Inr q2"
      using Cons.prems(1) Cons by (auto dest: bspec [of _ _ 2] simp: numeral_2_eq_2)
    from resolve_plain_step [OF this plain _ link] have dir: "fs (base @ [c]) = Some Directory" by simp
    then have step: "resolve m fs base (c # zs) f = resolve m fs (base @ [c]) zs f" for zs f
      using plain by (cases zs) simp_all
    have "\<exists>q. resolve m fs (base @ [c]) (take k cs) False = Inr q \<and> no_link (node_at fs q)" if "k \<in> {1..length cs}" for k
      using Cons.prems(1) [rule_format, of "Suc k"] that step by simp
    then have IH: "(\<forall>k. 0 < k \<and> k < length cs \<longrightarrow> fs ((base @ [c]) @ take k cs) = Some Directory) \<and>
        no_link (fs ((base @ [c]) @ cs)) \<and> (\<forall>f. resolve m fs (base @ [c]) cs f = Inr ((base @ [c]) @ cs))"
      using Cons.prems(2) Cons by (intro Cons.IH) auto
    have "fs (base @ take k (c # cs)) = Some Directory" if "0 < k" "k < length (c # cs)" for k
      using IH dir that by (cases k; cases "k - 1") auto
    then show ?thesis using IH step by simp
  qed
qed simp

lemma links_loop_names:
  assumes "links_loop env fs current names = Inr (Some p)" "current \<noteq> []" "list_all entry_name names"
  shows "p = foldl path_append current names \<and>
    (\<forall>k\<in>{1..length names}. \<exists>q. resolve kMaxLinks fs (if is_absolute current then [] else oe_cwd env)
        (path_names current @ take k names) False = Inr q \<and> no_link (node_at fs q))"
  using assms
proof (induction env fs current names rule: links_loop.induct)
  case (2 env fs current c cs)
  let ?next = "path_append current c"
  have c: "\<not> is_absolute c" "path_names c = [c]"
    using "2.prems"(3) entry_name_ends [of c] by (auto simp: entry_name_def is_absolute_def path_names_def split_on_single)
  obtain status where status: "symlink_status env fs ?next = Inr status" "no_link status"
    and rest: "links_loop env fs ?next cs = Inr (Some p)"
    using "2.prems"(1) by (auto simp: Let_def bind_res_Inr_iff no_link_def split: if_splits)
  have same: "?next \<noteq> []" "is_absolute ?next = is_absolute current" "path_names ?next = path_names current @ [c]"
    using "2.prems"(2) c by simp_all
  have first: "\<exists>q. resolve kMaxLinks fs (if is_absolute current then [] else oe_cwd env)
      (path_names current @ [c]) False = Inr q \<and> no_link (node_at fs q)"
    using status same
    by (auto simp: symlink_status_def node_status_def locate_def split: sum.splits errno.splits)
  have IH: "p = foldl path_append ?next cs \<and>
      (\<forall>k\<in>{1..length cs}. \<exists>q. resolve kMaxLinks fs (if is_absolute ?next then [] else oe_cwd env)
        (path_names ?next @ take k cs) False = Inr q \<and> no_link (node_at fs q))"
    using "2.IH" [OF refl, of status] status(2) rest same(1) "2.prems"(3) by (simp add: no_link_def)
  have "\<exists>q. resolve kMaxLinks fs (if is_absolute current then [] else oe_cwd env)
      (path_names current @ take k (c # cs)) False = Inr q \<and> no_link (node_at fs q)" if "k \<in> {1..length (c # cs)}" for k
    using first IH same that by (cases "k = 1") (auto simp: take_Cons' dest!: bspec [of _ _ "k - 1"])
  then show ?case using IH by simp
qed simp

lemma join_not_slash:
  "\<lbrakk>list_all entry_name names; names \<noteq> []\<rbrakk> \<Longrightarrow> join_with (CHR ''/'') names \<noteq> [] \<and> last (join_with (CHR ''/'') names) \<noteq> CHR ''/'' \<and>
     hd (join_with (CHR ''/'') names) \<noteq> CHR ''/''"
  by (induction "CHR ''/''" names rule: join_with.induct)
    (use entry_name_ends in \<open>auto simp: entry_name_def\<close>)

lemma path_parts_join:
  assumes "list_all entry_name names" "names \<noteq> []"
  shows "path_parts (join_with (CHR ''/'') names) = names" "path_names (join_with (CHR ''/'') names) = names"
    "\<not> is_absolute (join_with (CHR ''/'') names)"
proof -
  have "\<forall>s\<in>set names. s \<noteq> [] \<and> CHR ''/'' \<notin> set s" using assms(1) by (auto simp: entry_name_def list_all_iff)
  then show names: "path_names (join_with (CHR ''/'') names) = names" by (rule path_names_join)
  then show "path_parts (join_with (CHR ''/'') names) = names"
    using join_not_slash [OF assms] by (simp add: path_parts_def path_names_def)
  show "\<not> is_absolute (join_with (CHR ''/'') names)"
    using join_not_slash [OF assms] by (simp add: is_absolute_def)
qed

subsection \<open>What is served\<close>

lemma regular_without_links:
  assumes "IsRegularFileWithoutSymlinks env fs root (join_with (CHR ''/'') names) = Inr True" "root \<noteq> []"
    and "list_all entry_name names" "names \<noteq> []"
  shows "\<exists>base contents x. locate env fs True root = Inr base \<and>
    (\<forall>k. 0 < k \<and> k < length names \<longrightarrow> fs (base @ take k names) = Some Directory) \<and>
    fs (base @ names) = Some (Regular_file contents x) \<and>
    read_file env fs (path_append root (join_with (CHR ''/'') names)) = Some contents"
proof -
  let ?cur = "if is_absolute root then [] else oe_cwd env" and ?rel = "join_with (CHR ''/'') names"
  obtain p where loop: "links_loop env fs root names = Inr (Some p)" and regular: "\<exists>node. fs_status env fs p = Inr node \<and> is_regular_node node"
    using assms(1) path_parts_join [OF assms(3,4)]
    by (auto simp: IsRegularFileWithoutSymlinks_def bind_res_Inr_iff split: option.splits)
  have all: "\<forall>k\<in>{1..length names}. \<exists>q. resolve kMaxLinks fs ?cur (path_names root @ take k names) False = Inr q \<and>
      no_link (node_at fs q)"
    using links_loop_names [OF loop assms(2,3)] by blast
  have "1 \<in> {1..length names}" using assms(4) by (cases names) auto
  with all obtain q where "resolve kMaxLinks fs ?cur (path_names root @ take 1 names) False = Inr q" by blast
  moreover have "take 1 names \<noteq> []" using assms(4) by simp
  ultimately obtain m base where base: "resolve kMaxLinks fs ?cur (path_names root) True = Inr base"
    and go: "\<forall>zs f. zs \<noteq> [] \<longrightarrow> resolve kMaxLinks fs ?cur (path_names root @ zs) f = resolve m fs base zs f"
    using resolve_append by blast
  have "\<forall>k\<in>{1..length names}. \<exists>q. resolve m fs base (take k names) False = Inr q \<and> no_link (node_at fs q)"
    using all go assms(4) by (auto dest!: bspec)
  note entered = resolve_entered [OF this assms(3,4)]
  have p: "p = foldl path_append root names" using links_loop_names [OF loop assms(2,3)] by blast
  have folded: "foldl path_append r ns \<noteq> [] \<and> is_absolute (foldl path_append r ns) = is_absolute r \<and>
      path_names (foldl path_append r ns) = path_names r @ ns" if "r \<noteq> []" "list_all entry_name ns" for r ns
    using that
  proof (induction ns arbitrary: r)
    case (Cons c cs)
    have c: "\<not> is_absolute c" "path_names c = [c]"
      using Cons.prems(2) entry_name_ends [of c]
      by (auto simp: entry_name_def is_absolute_def path_names_def split_on_single)
    have n: "path_append r c \<noteq> []" using Cons.prems(1) by simp
    show ?case using Cons.IH [OF n] Cons.prems c by simp
  qed simp
  have "locate env fs True p = Inr (base @ names)"
    using folded [OF assms(2,3)] go entered assms(4) by (simp add: locate_def p)
  then obtain contents x where node: "fs (base @ names) = Some (Regular_file contents x)"
    using regular assms(4) by (auto simp: fs_status_def node_status_def node_at_def elim!: is_regular_node.elims)
  have "locate env fs True (path_append root ?rel) = Inr (base @ names)"
    using path_parts_join [OF assms(3,4)] assms(2,4) go entered by (simp add: locate_def)
  then have "read_file env fs (path_append root ?rel) = Some contents"
    using node assms(4) by (simp add: read_file_def node_status_def node_at_def)
  then show ?thesis using base node entered assms(2) by (auto simp: locate_def)
qed

definition served_names :: "string list \<Rightarrow> bool" where
  "served_names names \<longleftrightarrow>
     names \<in> {[''index.html''], [''install.html''], [''agents.html''], [''admin'', ''packages.html'']} \<or>
     hd names = ''assets'' \<and> IsPermittedAssetExtension (join_with (CHR ''/'') names)"

lemma starts_with_iff: "starts_with s pre \<longleftrightarrow> (\<exists>rest. s = pre @ rest)"
  unfolding starts_with_def by (metis append_eq_conv_conj)

lemma asset_names:
  assumes "vs_ok (ValidateRelativePath v)" "starts_with v ''assets/''"
  shows "\<exists>names. list_all entry_name names \<and> names \<noteq> [] \<and> hd names = ''assets'' \<and>
    vs_value (ValidateRelativePath v) = join_with (CHR ''/'') names"
proof -
  have v: "''.'' \<notin> set (relative_pieces v)" "''..'' \<notin> set (relative_pieces v)"
      "vs_value (ValidateRelativePath v) = join_with (CHR ''/'') (relative_pieces v)"
    using ValidateRelativePath_ok_iff [of v "ValidateRelativePath v"] assms(1) by simp_all
  obtain rest where rest: "v = ''assets'' @ CHR ''/'' # rest"
    using assms(2) by (auto simp: starts_with_iff)
  have "relative_pieces v = ''assets'' # relative_pieces rest"
    by (simp add: relative_pieces_def NormalizePathSeparators_def rest)
  moreover have "list_all entry_name (relative_pieces v)"
    using v(1,2) relative_pieces_props [of _ v] by (auto simp: list_all_iff entry_name_def)
  ultimately show ?thesis using v(3) by fastforce
qed

lemma static_target_names:
  assumes "static_target path = Some relative"
  shows "\<exists>names. list_all entry_name names \<and> names \<noteq> [] \<and> relative = join_with (CHR ''/'') names \<and> served_names names"
proof -
  have page: "\<exists>names. list_all entry_name names \<and> names \<noteq> [] \<and> relative = join_with (CHR ''/'') names \<and> served_names names"
    if "relative = join_with (CHR ''/'') ns" "ns \<in> {[''index.html''], [''install.html''], [''agents.html''], [''admin'', ''packages.html'']}" for ns
    using that by (intro exI [of _ ns]) (auto simp: served_names_def entry_name_def)
  show ?thesis
  proof (cases "starts_with path ''/assets/'' \<and> relative \<notin> {''index.html'', ''install.html'', ''agents.html'', ''admin/packages.html''}")
    case True
    then have ok: "vs_ok (ValidateRelativePath (drop 1 path))" "IsPermittedAssetExtension relative"
      "relative = vs_value (ValidateRelativePath (drop 1 path))"
      using assms by (auto simp: static_target_def Let_def split: if_splits)
    moreover have "starts_with (drop 1 path) ''assets/''"
      using True by (auto simp: starts_with_iff)
    ultimately show ?thesis
      using asset_names [of "drop 1 path"] by (auto simp: served_names_def)
  next
    case False
    then have "relative \<in> {''index.html'', ''install.html'', ''agents.html'', ''admin/packages.html''}"
      using assms by (auto simp: static_target_def Let_def split: if_splits)
    then consider "relative = ''index.html''" | "relative = ''install.html''" | "relative = ''agents.html''" |
        "relative = ''admin/packages.html''" by blast
    then show ?thesis
    proof cases
      case 1 then show ?thesis by (intro page [of "[''index.html'']"]) simp_all
    next
      case 2 then show ?thesis by (intro page [of "[''install.html'']"]) simp_all
    next
      case 3 then show ?thesis by (intro page [of "[''agents.html'']"]) simp_all
    next
      case 4 then show ?thesis by (intro page [of "[''admin'', ''packages.html'']"]) simp_all
    qed
  qed
qed

text \<open>
  C19: The web interface serves nothing outside its directory.  Whatever path is requested, an answer
  with status 200 carries the contents of a regular file that lies below the directory the root names,
  under plain names, behind directories only (no symbolic link takes part), and it is one of the four
  pages or a file of the assets with a permitted extension.
\<close>

theorem static_files_are_confined:
  assumes "static_Read env fs root request_path = Inr response" "sf_status response = 200" "root \<noteq> []"
  shows "\<exists>base names contents executable. locate env fs True root = Inr base \<and>
    names \<noteq> [] \<and> list_all entry_name names \<and> served_names names \<and>
    (\<forall>k. 0 < k \<and> k < length names \<longrightarrow> fs (base @ take k names) = Some Directory) \<and>
    fs (base @ names) = Some (Regular_file contents executable) \<and>
    sf_body response = string_of_bytes contents"
proof -
  obtain relative where relative: "static_target request_path = Some relative"
    using assms(1,2) by (auto simp: static_Read_def default_static_response_def split: option.splits)
  obtain names where names: "list_all entry_name names" "names \<noteq> []" "relative = join_with (CHR ''/'') names" "served_names names"
    using static_target_names [OF relative] by blast
  have read: "static_ReadFile env fs root relative = Inr response"
    using assms(1) relative by (simp add: static_Read_def)
  then have "IsRegularFileWithoutSymlinks env fs root (join_with (CHR ''/'') names) = Inr True"
    using assms(2) names(3) by (auto simp: static_ReadFile_def bind_res_Inr_iff default_static_response_def split: if_splits)
  note regular = this
  obtain base contents x where found: "locate env fs True root = Inr base"
      "\<forall>k. 0 < k \<and> k < length names \<longrightarrow> fs (base @ take k names) = Some Directory"
      "fs (base @ names) = Some (Regular_file contents x)"
      "read_file env fs (path_append root relative) = Some contents"
    using regular_without_links [OF regular assms(3) names(1,2)] names(3) by blast
  have "sf_body response = string_of_bytes contents"
    using read regular found(4) names(3) by (auto simp: static_ReadFile_def)
  then show ?thesis using found names by blast
qed

definition demo_site :: file_system where
  "demo_site =
     [[''w''] \<mapsto> Directory, [''w'', ''assets''] \<mapsto> Directory,
      [''w'', ''assets'', ''a.js''] \<mapsto> Regular_file [104, 105] False, [''w'', ''assets'', ''b.js''] \<mapsto> Symlink ''/etc/passwd'']"

definition site_env :: os_env where
  "site_env =
     \<lparr>oe_cwd = [], oe_temp_dir = ''/tmp'', oe_process_id = 1, oe_ticks = 0, oe_listing = (\<lambda>fs p. []), oe_walk = (\<lambda>fs p. [])\<rparr>"

lemma demo_site_served:
  "static_Read site_env demo_site ''/w'' ''/assets/a.js'' =
     Inr \<lparr>sf_status = 200, sf_content_type = ''text/javascript; charset=utf-8'', sf_body = ''hi''\<rparr>"
  "static_Read site_env demo_site ''/w'' ''/assets/b.js'' = Inr default_static_response"
  by code_simp+

theorem static_files_are_confined_witness:
  "\<exists>base names contents executable. locate site_env demo_site True ''/w'' = Inr base \<and> served_names names \<and>
     demo_site (base @ names) = Some (Regular_file contents executable) \<and> string_of_bytes contents = ''hi''"
  using static_files_are_confined [OF demo_site_served(1)] by fastforce

end
