(* ===== verification/Admin_Http.thy ===== *)
theory Admin_Http
  imports Db_Agents Db_Packages Manifest Machine
begin

section \<open>apps/server: requests and bodies of the admin interface (admin_http_server.cpp, admin_json_codec.cpp)\<close>

text \<open>
  How a target is taken apart, how the JSON body of a request is read, and how the rows of the database
  are written as JSON.  The JSON library is \<open>json_lib\<close>; \<open>get<int>\<close> truncates an integer, takes a boolean
  for 0 or 1, and what it makes of a number with a fraction is a parameter.
\<close>

record http_request =
  hr_method :: string
  hr_target :: string
  hr_path :: string
  hr_query :: "(string \<times> string) list"
  hr_body :: string

record http_response =
  ho_status :: int
  ho_content_type :: string
  ho_body :: string

subsection \<open>Targets\<close>

definition hex_value :: "char \<Rightarrow> nat option" where
  "hex_value c =
     (let n = of_char c :: nat in
      if 48 \<le> n \<and> n \<le> 57 then Some (n - 48)
      else if 97 \<le> n \<and> n \<le> 102 then Some (n - 87)
      else if 65 \<le> n \<and> n \<le> 70 then Some (n - 55)
      else None)"

text \<open>\<open>std::from_chars\<close> in base 16 on two characters: the longest number they begin with, if any.\<close>

definition from_chars_16 :: "char \<Rightarrow> char \<Rightarrow> int option" where
  "from_chars_16 a b =
     (if a = CHR ''-'' then map_option (\<lambda>d. - int d) (hex_value b)
      else case hex_value a of
        None \<Rightarrow> None
      | Some d \<Rightarrow> (case hex_value b of None \<Rightarrow> Some (int d) | Some e \<Rightarrow> Some (int (16 * d + e))))"

text \<open>The number of an escape that begins with the character, and what follows it.\<close>

definition escape_at :: "char \<Rightarrow> string \<Rightarrow> (int \<times> string) option" where
  "escape_at c cs =
     (if c = CHR ''%'' \<and> 2 \<le> length cs
      then map_option (\<lambda>n. (n, drop 2 cs)) (from_chars_16 (cs ! 0) (cs ! 1)) else None)"

lemma escape_at_shorter: "escape_at c cs = Some (n, rest) \<Longrightarrow> length rest < Suc (length cs)"
  by (auto simp: escape_at_def split: if_splits)

function UrlDecode :: "string \<Rightarrow> string" where
  "UrlDecode [] = []"
| "UrlDecode (c # cs) =
     (case escape_at c cs of
        Some (byte, rest) \<Rightarrow> char_of byte # UrlDecode rest
      | None \<Rightarrow> (if c = CHR ''+'' then CHR '' '' else c) # UrlDecode cs)"
  by pat_completeness auto
termination
  by (relation "measure length") (auto dest: escape_at_shorter)

text \<open>\<open>emplace\<close>: the first value of a key is kept.\<close>

definition emplace :: "string \<Rightarrow> string \<Rightarrow> (string \<times> string) list \<Rightarrow> (string \<times> string) list" where
  "emplace key v values = (if map_of values key = None then values @ [(key, v)] else values)"

definition query_item :: "string \<Rightarrow> string \<times> string" where
  "query_item item =
     (case dropWhile (\<lambda>c. c \<noteq> CHR ''='') item of
        [] \<Rightarrow> (UrlDecode item, [])
      | _ # v \<Rightarrow> (UrlDecode (takeWhile (\<lambda>c. c \<noteq> CHR ''='') item), UrlDecode v))"

function query_loop :: "(string \<times> string) list \<Rightarrow> string \<Rightarrow> (string \<times> string) list" where
  "query_loop values query =
     (if query = [] then values
      else
        let item = takeWhile (\<lambda>c. c \<noteq> CHR ''&'') query;
            rest = dropWhile (\<lambda>c. c \<noteq> CHR ''&'') query;
            values' = (case query_item item of (k, v) \<Rightarrow> emplace k v values)
        in if rest = [] then values' else query_loop values' (tl rest))"
  by pat_completeness auto
termination
proof (relation "measure (\<lambda>(values, query). length query)", goal_cases)
  case (2 vs query item rest)
  then show ?case
    using length_dropWhile_le [of "\<lambda>c. c \<noteq> CHR ''&''" query]
    by (simp add: le_imp_less_Suc diff_less_mono2 flip: length_greater_0_conv)
qed simp

declare query_loop.simps [simp del]

definition ParseQuery :: "string \<Rightarrow> (string \<times> string) list" where
  "ParseQuery query = query_loop [] query"

definition ToApplicationRequest :: "string \<Rightarrow> string \<Rightarrow> http_request" where
  "ToApplicationRequest input_method input_target =
     (case dropWhile (\<lambda>c. c \<noteq> CHR ''?'') input_target of
        [] \<Rightarrow> \<lparr>hr_method = input_method, hr_target = input_target, hr_path = UrlDecode input_target,
              hr_query = [], hr_body = []\<rparr>
      | _ # query \<Rightarrow>
          \<lparr>hr_method = input_method, hr_target = input_target,
           hr_path = UrlDecode (takeWhile (\<lambda>c. c \<noteq> CHR ''?'') input_target),
           hr_query = ParseQuery query, hr_body = []\<rparr>)"

definition QueryValue :: "http_request \<Rightarrow> string \<Rightarrow> string \<Rightarrow> string" where
  "QueryValue request name fallback =
     (case map_of (hr_query request) name of
        Some v \<Rightarrow> if v \<noteq> [] then v else fallback
      | None \<Rightarrow> fallback)"

definition PathTail :: "string \<Rightarrow> string \<Rightarrow> string" where
  "PathTail path prefix_text =
     (if \<not> starts_with path prefix_text then [] else UrlDecode (drop (length prefix_text) path))"

definition ends_with :: "string \<Rightarrow> string \<Rightarrow> bool" where
  "ends_with s suf \<longleftrightarrow> length suf \<le> length s \<and> drop (length s - length suf) s = suf"

text \<open>
  \<open>path.substr(prefix.size(), path.size() - prefix.size() - suffix.size())\<close>: where prefix and suffix
  overlap the count wraps around and everything behind the prefix is taken.
\<close>

definition path_between :: "string \<Rightarrow> string \<Rightarrow> string \<Rightarrow> string" where
  "path_between path prefix_text suffix_text =
     (if length prefix_text + length suffix_text \<le> length path
      then take (length path - length prefix_text - length suffix_text) (drop (length prefix_text) path)
      else drop (length prefix_text) path)"

fun has_substring :: "string \<Rightarrow> string \<Rightarrow> bool" where
  "has_substring pattern [] = (pattern = [])"
| "has_substring pattern (c # cs) = (starts_with (c # cs) pattern \<or> has_substring pattern cs)"

definition SafePackageStoragePath :: "string \<Rightarrow> string \<Rightarrow> string result" where
  "SafePackageStoragePath repository package_id =
     (if package_id = [] \<or> CHR ''/'' \<in> set package_id \<or> CHR 0x5C \<in> set package_id \<or>
         has_substring ''..'' package_id
      then Inl (Invalid_argument ''package id is invalid'')
      else Inr (path_append repository (package_id @ ''.zip'')))"

subsection \<open>Bodies of requests\<close>

text \<open>\<open>value(key, default)\<close> throws on anything but an object, and where the member is not a string.\<close>

fun json_value :: "json \<Rightarrow> string \<Rightarrow> string \<Rightarrow> string result" where
  "json_value (Json_object members) key fallback =
     (case map_of members key of None \<Rightarrow> Inr fallback | Some v \<Rightarrow> get_string v)"
| "json_value j key fallback = Inl (Json_error ''cannot use value() with this type'')"

definition json_member :: "json \<Rightarrow> string \<Rightarrow> json result" where
  "json_member j key = json_at j key"

definition optional_string :: "json \<Rightarrow> string \<Rightarrow> string option result" where
  "optional_string j key =
     (if json_contains j key
      then bind_res (json_member j key) (\<lambda>v. bind_res (get_string v) (\<lambda>s. Inr (Some s)))
      else Inr None)"

fun get_int :: "int \<Rightarrow> json \<Rightarrow> int result" where
  "get_int from_real (Json_int i) = Inr (as_int i)"
| "get_int from_real (Json_bool b) = Inr (if b then 1 else 0)"
| "get_int from_real Json_real = Inr from_real"
| "get_int from_real j = Inl (Json_error ''type must be number'')"

record upgrade_request_body =
  ur_package_id :: string
  ur_set_by :: "string option"
  ur_expires_at :: string

record rollback_request_body =
  rb_set_by :: "string option"
  rb_expires_at :: string

record publish_request_body =
  pr_channel :: string
  pr_published_by :: "string option"

record token_create_request_body =
  tr_purpose :: string
  tr_channel :: "string option"
  tr_platform :: "string option"
  tr_arch :: "string option"
  tr_max_uses :: "int option"
  tr_expires_at :: string

definition ParseJsonObject :: "json_lib \<Rightarrow> string \<Rightarrow> json result" where
  "ParseJsonObject jl body = (if body = [] then Inr (Json_object []) else jl_parse jl body)"

definition ParseUpgradeRequestBody :: "json_lib \<Rightarrow> string \<Rightarrow> upgrade_request_body result" where
  "ParseUpgradeRequestBody jl body =
     bind_res (ParseJsonObject jl body) (\<lambda>json.
     bind_res (json_value json ''package_id'' []) (\<lambda>package_id.
     bind_res (optional_string json ''set_by'') (\<lambda>set_by.
     bind_res (json_value json ''expires_at'' ''2099-12-31T23:59:59Z'') (\<lambda>expires_at.
     Inr \<lparr>ur_package_id = package_id, ur_set_by = set_by, ur_expires_at = expires_at\<rparr>))))"

definition ParseRollbackRequestBody :: "json_lib \<Rightarrow> string \<Rightarrow> rollback_request_body result" where
  "ParseRollbackRequestBody jl body =
     bind_res (ParseJsonObject jl body) (\<lambda>json.
     bind_res (optional_string json ''set_by'') (\<lambda>set_by.
     bind_res (json_value json ''expires_at'' ''2099-12-31T23:59:59Z'') (\<lambda>expires_at.
     Inr \<lparr>rb_set_by = set_by, rb_expires_at = expires_at\<rparr>)))"

definition ParsePublishRequestBody :: "json_lib \<Rightarrow> string \<Rightarrow> publish_request_body result" where
  "ParsePublishRequestBody jl body =
     bind_res (ParseJsonObject jl body) (\<lambda>json.
     bind_res (json_value json ''channel'' []) (\<lambda>channel.
     bind_res (optional_string json ''published_by'') (\<lambda>published_by.
     Inr \<lparr>pr_channel = channel, pr_published_by = published_by\<rparr>)))"

definition ParseTokenCreateRequestBody ::
    "int \<Rightarrow> json_lib \<Rightarrow> string \<Rightarrow> token_create_request_body result" where
  "ParseTokenCreateRequestBody from_real jl body =
     bind_res (ParseJsonObject jl body) (\<lambda>json.
     bind_res (json_value json ''purpose'' ''agent_register'') (\<lambda>purpose.
     bind_res (optional_string json ''channel'') (\<lambda>channel.
     bind_res (optional_string json ''platform'') (\<lambda>platform.
     bind_res (optional_string json ''arch'') (\<lambda>arch.
     bind_res (if json_contains json ''max_uses''
               then bind_res (json_member json ''max_uses'') (\<lambda>v. bind_res (get_int from_real v) (\<lambda>n. Inr (Some n)))
               else Inr (Some 1)) (\<lambda>max_uses.
     bind_res (json_value json ''expires_at'' []) (\<lambda>expires_at.
     Inr \<lparr>tr_purpose = purpose, tr_channel = channel, tr_platform = platform, tr_arch = arch,
          tr_max_uses = max_uses, tr_expires_at = expires_at\<rparr>)))))))"

subsection \<open>Rows as JSON\<close>

definition value_or_empty :: "string option \<Rightarrow> json" where
  "value_or_empty x = Json_string (case x of None \<Rightarrow> [] | Some s \<Rightarrow> s)"

definition value_or_null :: "string option \<Rightarrow> json" where
  "value_or_null x = (case x of None \<Rightarrow> Json_null | Some s \<Rightarrow> Json_string s)"

definition agent_json :: "agent_summary \<Rightarrow> (string \<times> json) list" where
  "agent_json agent =
     [(''agent_id'', Json_string (ag_agent_id agent)),
      (''first_seen_at'', Json_string (ag_first_seen_at agent)),
      (''last_seen_at'', Json_string (ag_last_seen_at agent)),
      (''last_online_at'', Json_string (ag_last_online_at agent)),
      (''platform'', Json_string (ag_platform agent)),
      (''agent_version'', Json_string (ag_agent_version agent)),
      (''status'', Json_string (ag_status agent)),
      (''last_offline_at'', value_or_null (ag_last_offline_at agent)),
      (''current_package_id'', value_or_empty (ag_current_package_id agent)),
      (''desired_version'', value_or_empty (ag_desired_version agent)),
      (''desired_package_id'', value_or_empty (ag_desired_package_id agent)),
      (''desired_set_at'', value_or_empty (ag_desired_set_at agent)),
      (''desired_set_by'', value_or_empty (ag_desired_set_by agent)),
      (''upgrade_state'', value_or_empty (ag_upgrade_state agent)),
      (''last_upgrade_task_id'', value_or_empty (ag_last_upgrade_task_id agent)),
      (''last_upgrade_error'', value_or_empty (ag_last_upgrade_error agent)),
      (''last_upgrade_at'', value_or_empty (ag_last_upgrade_at agent))]"

definition snapshot_json :: "asset_snapshot_summary \<Rightarrow> json" where
  "snapshot_json snapshot =
     Json_object
       [(''snapshot_id'', Json_int (ss_snapshot_id snapshot)),
        (''agent_id'', Json_string (ss_agent_id snapshot)),
        (''occurred_at'', Json_string (ss_occurred_at snapshot)),
        (''hostname'', Json_string (ss_hostname snapshot)),
        (''os'', Json_string (ss_os snapshot)),
        (''arch'', Json_string (ss_arch snapshot)),
        (''agent_version'', Json_string (ss_agent_version snapshot)),
        (''applications'', Json_array (map Json_string (ss_applications snapshot))),
        (''services'', Json_array (map Json_string (ss_services snapshot))),
        (''os_version'', value_or_null (ss_os_version snapshot))]"

definition package_json :: "agent_package_record \<Rightarrow> json" where
  "package_json package =
     Json_object
       [(''package_id'', Json_string (pk_package_id package)),
        (''component'', Json_string (pk_component package)),
        (''version'', Json_string (pk_version package)),
        (''platform'', Json_string (pk_platform package)),
        (''arch'', Json_string (pk_arch package)),
        (''build_type'', Json_string (pk_build_type package)),
        (''filename'', Json_string (pk_filename package)),
        (''size_bytes'', Json_int (uint (pk_size_bytes package))),
        (''sha256'', Json_string (pk_sha256 package)),
        (''status'', Json_string (pk_status package)),
        (''uploaded_at'', Json_string (pk_uploaded_at package)),
        (''validated_at'', value_or_empty (pk_validated_at package)),
        (''published_at'', value_or_empty (pk_published_at package)),
        (''retired_at'', value_or_empty (pk_retired_at package)),
        (''published_channels'', Json_array (map Json_string (pk_published_channels package)))]"

definition InstallPackageJson :: "agent_package_record \<Rightarrow> json" where
  "InstallPackageJson package =
     Json_object
       [(''package_id'', Json_string (pk_package_id package)),
        (''version'', Json_string (pk_version package)),
        (''sha256'', Json_string (pk_sha256 package)),
        (''download_url'', Json_string (''/api/v1/packages/'' @ pk_component package @ ''/'' @
             pk_package_id package @ ''/download''))]"

subsection \<open>What a client writes is what the server reads\<close>

definition hex_digit :: "nat \<Rightarrow> char" where
  "hex_digit n = ''0123456789ABCDEF'' ! n"

definition url_encode :: "string \<Rightarrow> string" where
  "url_encode s =
     concat (map (\<lambda>c. [CHR ''%'', hex_digit (of_char c div 16), hex_digit (of_char c mod 16)]) s)"

definition format_query :: "(string \<times> string) list \<Rightarrow> string" where
  "format_query kvs = join_with (CHR ''&'') (map (\<lambda>(k, v). url_encode k @ CHR ''='' # url_encode v) kvs)"

lemma hex_digit_value: "n < 16 \<Longrightarrow> hex_value (hex_digit n) = Some n \<and> hex_digit n \<notin> {CHR ''-'', CHR ''&'', CHR ''=''}"
proof -
  have "list_all (\<lambda>n. hex_value (hex_digit n) = Some n \<and> hex_digit n \<noteq> CHR ''-'' \<and> hex_digit n \<noteq> CHR ''&'' \<and>
      hex_digit n \<noteq> CHR ''='') [0..<16]"
    by code_simp
  then show "n < 16 \<Longrightarrow> ?thesis" by (auto simp: list_all_iff)
qed

lemma of_char_bound: "(of_char c :: nat) < 256"
  by (cases c) simp

lemma of_char_high: "of_char c div 16 < (16 :: nat)"
  by (rule less_mult_imp_div_less) (use of_char_bound [of c] in simp)

lemma decode_encoded: "UrlDecode (url_encode s) = s"
proof (induction s)
  case (Cons c s)
  let ?n = "of_char c :: nat"
  have high: "?n div 16 < 16" and low: "?n mod 16 < 16"
    by (rule of_char_high) simp
  have "from_chars_16 (hex_digit (?n div 16)) (hex_digit (?n mod 16)) = Some (int (16 * (?n div 16) + ?n mod 16))"
    using hex_digit_value [OF high] hex_digit_value [OF low] by (simp add: from_chars_16_def)
  moreover have "16 * (?n div 16) + ?n mod 16 = ?n" by (rule mult_div_mod_eq)
  moreover have "char_of (int ?n) = c" by simp
  ultimately have "from_chars_16 (hex_digit (?n div 16)) (hex_digit (?n mod 16)) = Some (int ?n)" "char_of (int ?n) = c"
    by presburger+
  then show ?case using Cons.IH by (simp add: url_encode_def escape_at_def)
qed (simp add: url_encode_def)

lemma encoded_chars: "c \<in> set (url_encode s) \<Longrightarrow> c \<noteq> CHR ''&'' \<and> c \<noteq> CHR ''=''"
proof (induction s)
  case (Cons d s)
  have "hex_digit (of_char d div 16) \<notin> {CHR ''&'', CHR ''=''}" "hex_digit (of_char d mod 16) \<notin> {CHR ''&'', CHR ''=''}"
    using hex_digit_value [OF of_char_high [of d]] hex_digit_value [of "of_char d mod 16"] by simp_all
  then show ?case using Cons by (auto simp: url_encode_def)
qed (simp add: url_encode_def)

lemma query_item_encoded: "query_item (url_encode k @ CHR ''='' # url_encode v) = (k, v)"
proof -
  have none: "\<forall>c\<in>set (url_encode k). c \<noteq> CHR ''=''" using encoded_chars by blast
  then show ?thesis by (simp add: query_item_def dropWhile_append2 takeWhile_append2 decode_encoded)
qed

lemma query_loop_item:
  assumes "CHR ''&'' \<notin> set item" "item \<noteq> []"
  shows "query_loop vs item = (case query_item item of (k, v) \<Rightarrow> emplace k v vs)"
    "query_loop vs (item @ CHR ''&'' # rest) = query_loop (case query_item item of (k, v) \<Rightarrow> emplace k v vs) rest"
proof -
  have all: "\<forall>c\<in>set item. c \<noteq> CHR ''&''" using assms(1) by blast
  then have whole: "takeWhile (\<lambda>c. c \<noteq> CHR ''&'') item = item" "dropWhile (\<lambda>c. c \<noteq> CHR ''&'') item = []"
    by (simp_all only: takeWhile_eq_all_conv dropWhile_eq_Nil_conv)
  show "query_loop vs item = (case query_item item of (k, v) \<Rightarrow> emplace k v vs)"
    using assms(2) by (subst query_loop.simps) (simp only: whole Let_def if_False if_True simp_thms)
  show "query_loop vs (item @ CHR ''&'' # rest) = query_loop (case query_item item of (k, v) \<Rightarrow> emplace k v vs) rest"
    using all assms(2) by (subst query_loop.simps) (simp add: Let_def takeWhile_append2 dropWhile_append2)
qed

lemma query_loop_encoded:
  assumes "distinct (map fst (vs @ kvs))"
  shows "query_loop vs (format_query kvs) = vs @ kvs"
  using assms
proof (induction kvs arbitrary: vs)
  case Nil
  then show ?case by (simp add: format_query_def query_loop.simps)
next
  case (Cons kv kvs)
  obtain k v where kv: "kv = (k, v)" by force
  let ?item = "url_encode k @ CHR ''='' # url_encode v"
  have item: "CHR ''&'' \<notin> set ?item" "?item \<noteq> []" using encoded_chars [of "CHR ''&''"] by auto
  have "map_of vs k = None" using Cons.prems by (auto simp: kv map_of_eq_None_iff)
  then have e: "emplace k v vs = vs @ [(k, v)]" by (simp add: emplace_def)
  show ?case
  proof (cases kvs)
    case Nil
    then show ?thesis using query_loop_item(1) [OF item] e by (simp add: format_query_def kv query_item_encoded)
  next
    case (Cons x xs)
    then have "format_query (kv # kvs) = ?item @ CHR ''&'' # format_query kvs"
      by (simp add: format_query_def kv)
    then show ?thesis
      using query_loop_item(2) [OF item] e Cons.IH [of "vs @ [(k, v)]"] Cons.prems
      by (simp add: kv query_item_encoded)
  qed
qed

text \<open>
  Parameters survive the target of a request.  Percent-encoded names and vs, joined with equal
  signs and ampersands, are read back exactly, whatever bytes they contain, and the path before the
  question mark is decoded to what was encoded.
\<close>

theorem query_round_trip:
  assumes "distinct (map fst kvs)"
  shows "let request = ToApplicationRequest verb (url_encode path @ CHR ''?'' # format_query kvs) in
    hr_path request = path \<and> hr_query request = kvs \<and>
    (\<forall>(k, v) \<in> set kvs. v \<noteq> [] \<longrightarrow> QueryValue request k fallback = v)"
proof -
  have "hex_digit n \<noteq> CHR ''?''" if "n < 16" for n
  proof -
    have "list_all (\<lambda>n. hex_digit n \<noteq> CHR ''?'') [0..<16]" by code_simp
    then show ?thesis using that by (auto simp: list_all_iff)
  qed
  then have "\<forall>c\<in>set (url_encode path). c \<noteq> CHR ''?''"
    using of_char_high by (auto simp: url_encode_def)
  then have "hr_path (ToApplicationRequest verb (url_encode path @ CHR ''?'' # format_query kvs)) = path"
      "hr_query (ToApplicationRequest verb (url_encode path @ CHR ''?'' # format_query kvs)) = kvs"
    using query_loop_encoded [of "[]" kvs] assms
    by (simp_all add: ToApplicationRequest_def dropWhile_append2 takeWhile_append2 decode_encoded ParseQuery_def)
  then show ?thesis using assms by (auto simp: Let_def QueryValue_def)
qed

theorem query_round_trip_witness:
  "hr_query (ToApplicationRequest ''GET'' (url_encode ''/a b'' @ CHR ''?'' # format_query [(''k'', ''x&y''), (''l'', ''='')])) =
     [(''k'', ''x&y''), (''l'', ''='')]"
  using query_round_trip [of "[(''k'', ''x&y''), (''l'', ''='')]" "''GET''" "''/a b''" "[]"] by (simp add: Let_def)

end
