(* ===== verification/Admin_Api.thy ===== *)
theory Admin_Api
  imports Admin_Http Program_Logic Db_Steps Package_Repository Install_Platform Static_Files
begin

section \<open>apps/server: the handlers of the admin interface (admin_http_server.cpp)\<close>

text \<open>
  A request is a program on a machine whose world is the database and the number of clock readings and
  UUIDs so far.  A handler returns no response when the request is not for it, and the next one is
  tried.  There is one definition per endpoint.
\<close>

record ('c, 'd, 'i) admin_env =
  ad_repository :: "('c, 'd, 'i) repository_env"
  ad_ext :: ext
  ad_now :: "nat \<Rightarrow> string"
  ad_uuid :: "nat \<Rightarrow> string"
  ad_from_real :: int

record admin_world =
  aw_ticks :: nat
  aw_database :: server_database

record api_context =
  ax_request :: http_request
  ax_package_repository :: string
  ax_allow_high_risk_write :: bool
  ax_package_download_base_url :: string
  ax_control_url :: string
  ax_web_static_root :: string

definition api_tick :: "(nat \<Rightarrow> 'a) \<Rightarrow> (admin_world, 'a) prog" where
  "api_tick f w =
     Some (Inr (f (aw_ticks (mc_rest w))), w\<lparr>mc_rest := (mc_rest w)\<lparr>aw_ticks := aw_ticks (mc_rest w) + 1\<rparr>\<rparr>)"

definition api_db :: "'a db_op \<Rightarrow> (admin_world, 'a) prog" where
  "api_db operation w =
     (case operation (aw_database (mc_rest w)) of
        (r, db) \<Rightarrow> Some (r, w\<lparr>mc_rest := (mc_rest w)\<lparr>aw_database := db\<rparr>\<rparr>))"

definition api_query :: "(server_database \<Rightarrow> 'a result) \<Rightarrow> (admin_world, 'a) prog" where
  "api_query q w = Some (q (aw_database (mc_rest w)), w)"

definition api_ask :: "(server_database \<Rightarrow> 'a) \<Rightarrow> (admin_world, 'a) prog" where
  "api_ask q = api_query (\<lambda>db. Inr (q db))"

definition api_run :: "(file_system \<Rightarrow> 'a run) \<Rightarrow> (admin_world, 'a) prog" where
  "api_run m w = map_option (\<lambda>r. (r, w)) (m (mc_files w))"

text \<open>\<open>catch (const std::exception&)\<close>\<close>

definition api_catch ::
    "(admin_world, 'a) prog \<Rightarrow> (exn \<Rightarrow> (admin_world, 'a) prog) \<Rightarrow> (admin_world, 'a) prog" where
  "api_catch m handler =
     prog_catch m (\<lambda>ex. case ex of Undefined_behaviour u \<Rightarrow> prog_throw ex | _ \<Rightarrow> handler ex)"

definition RecordAdminAudit ::
    "('c, 'd, 'i) admin_env \<Rightarrow> audit_event_type \<Rightarrow> string \<Rightarrow> string \<Rightarrow> string \<Rightarrow> (admin_world, unit) prog" where
  "RecordAdminAudit env event_type request_id outcome payload_json =
     prog_bind (api_tick (ad_uuid env)) (\<lambda>audit_id.
     prog_bind (api_tick (ad_now env)) (\<lambda>occurred_at.
     api_db (RecordAuditEvent
       \<lparr>ae_audit_id = audit_id, ae_occurred_at = occurred_at, ae_agent_id = None,
        ae_request_id = request_id, ae_event_type = event_type, ae_result = outcome,
        ae_payload_json = payload_json\<rparr>)))"

definition audited ::
    "('c, 'd, 'i) admin_env \<Rightarrow> audit_event_type \<Rightarrow> string \<Rightarrow> string \<Rightarrow> (string \<times> string) list \<Rightarrow>
       (admin_world, unit) prog" where
  "audited env event_type request_id outcome entries =
     prog_bind (prog_res (ext_audit_payload (ad_ext env) (map (\<lambda>(k, v). (k, PayloadText v)) entries)))
       (RecordAdminAudit env event_type request_id outcome)"

definition JsonResponse :: "('c, 'd, 'i) admin_env \<Rightarrow> json \<Rightarrow> int \<Rightarrow> (admin_world, http_response) prog" where
  "JsonResponse env body status =
     prog_bind (prog_res (jl_dump (rp_json (ad_repository env)) body)) (\<lambda>text.
     prog_return \<lparr>ho_status = status, ho_content_type = ''application/json'', ho_body = text\<rparr>)"

definition ErrorResponse ::
    "('c, 'd, 'i) admin_env \<Rightarrow> int \<Rightarrow> string \<Rightarrow> string \<Rightarrow> (admin_world, http_response) prog" where
  "ErrorResponse env status code message =
     prog_bind (api_tick (ad_now env)) (\<lambda>occurred_at.
     JsonResponse env (Json_object
       [(''protocol_version'', Json_string protocol_version), (''occurred_at'', Json_string occurred_at),
        (''error_code'', Json_string code), (''message'', Json_string message),
        (''retryable'', Json_bool False)]) status)"

definition answered :: "(admin_world, http_response) prog \<Rightarrow> (admin_world, http_response option) prog" where
  "answered m = prog_bind m (\<lambda>response. prog_return (Some response))"

subsection \<open>Agents\<close>

definition with_latest :: "ext \<Rightarrow> server_database \<Rightarrow> agent_summary \<Rightarrow> json result" where
  "with_latest e db agent =
     bind_res (FindLatestAssetSnapshot e (ag_agent_id agent) db) (\<lambda>latest.
     Inr (Json_object (agent_json agent @
       [(''latest_asset'', case latest of None \<Rightarrow> Json_null | Some s \<Rightarrow> snapshot_json s)])))"

definition list_agents_api :: "('c, 'd, 'i) admin_env \<Rightarrow> (admin_world, http_response) prog" where
  "list_agents_api env =
     prog_bind (api_query (\<lambda>db. map_res (with_latest (ad_ext env) db) (ListAgents db))) (\<lambda>agents.
     JsonResponse env (Json_object [(''agents'', Json_array agents)]) 200)"

definition agent_details_api :: "('c, 'd, 'i) admin_env \<Rightarrow> string \<Rightarrow> (admin_world, http_response) prog" where
  "agent_details_api env agent_id =
     prog_bind (api_ask (FindAgent agent_id)) (\<lambda>agent.
     case agent of
       None \<Rightarrow> ErrorResponse env 404 ''agent_not_found'' ''agent was not found''
     | Some a \<Rightarrow>
         prog_bind (api_query (FindLatestAssetSnapshot (ad_ext env) agent_id)) (\<lambda>latest.
         JsonResponse env (Json_object (agent_json a @
           [(''latest_asset'', case latest of None \<Rightarrow> Json_null | Some s \<Rightarrow> snapshot_json s)])) 200))"

definition HandleAgentApi ::
    "('c, 'd, 'i) admin_env \<Rightarrow> api_context \<Rightarrow> (admin_world, http_response option) prog" where
  "HandleAgentApi env ctx =
     (let request = ax_request ctx; path = hr_path request in
      if hr_method request = ''GET'' \<and> path = ''/api/v1/agents'' then answered (list_agents_api env)
      else if hr_method request = ''GET'' \<and> starts_with path ''/api/v1/agents/'' then
        let rest = PathTail path ''/api/v1/agents/'';
            agent_id = takeWhile (\<lambda>c. c \<noteq> CHR ''/'') rest
        in case dropWhile (\<lambda>c. c \<noteq> CHR ''/'') rest of
             [] \<Rightarrow> answered (agent_details_api env agent_id)
           | _ # suffix_text \<Rightarrow>
               if suffix_text = ''assets/latest'' then
                 prog_bind (api_query (FindLatestAssetSnapshot (ad_ext env) agent_id)) (\<lambda>latest.
                 answered (case latest of
                   None \<Rightarrow> ErrorResponse env 404 ''asset_snapshot_not_found'' ''asset snapshot was not found''
                 | Some s \<Rightarrow> JsonResponse env (snapshot_json s) 200))
               else if suffix_text = ''assets'' then
                 prog_bind (api_query (ListAssetSnapshots (ad_ext env) agent_id 100)) (\<lambda>snapshots.
                 answered (JsonResponse env (Json_object [(''assets'', Json_array (map snapshot_json snapshots))]) 200))
               else prog_return None
      else prog_return None)"

subsection \<open>Installing\<close>

definition install_script_api ::
    "('c, 'd, 'i) admin_env \<Rightarrow> api_context \<Rightarrow> (admin_world, http_response) prog" where
  "install_script_api env ctx =
     (let platform = QueryValue (ax_request ctx) ''platform'' [] in
      if platform = [] then ErrorResponse env 400 ''missing_required_field'' ''platform is required''
      else case FindInstallPlatformSpec platform of
        None \<Rightarrow> ErrorResponse env 400 ''platform_not_allowed'' ''platform must be linux or windows''
      | Some spec \<Rightarrow>
          prog_bind (prog_read (\<lambda>fs. RenderInstallScript (rp_os (ad_repository env)) fs platform (ax_web_static_root ctx)))
            (\<lambda>body.
          prog_return \<lparr>ho_status = 200, ho_content_type = ips_script_content_type spec, ho_body = body\<rparr>))"

definition install_commands_api ::
    "('c, 'd, 'i) admin_env \<Rightarrow> api_context \<Rightarrow> (admin_world, http_response) prog" where
  "install_commands_api env ctx =
     (let request = ax_request ctx;
          server_url = QueryValue request ''server_url'' [];
          token = QueryValue request ''token'' [];
          channel = QueryValue request ''channel'' ''stable'';
          platform = QueryValue request ''platform'' ''linux'';
          root = QueryValue request ''root'' ''/opt/zfleet''
      in
      if server_url = [] \<or> token = []
      then ErrorResponse env 400 ''missing_required_field'' ''server_url and token are required''
      else if FindInstallPlatformSpec platform = None
      then ErrorResponse env 400 ''platform_not_allowed'' ''platform must be linux or windows''
      else if ax_control_url ctx = []
      then ErrorResponse env 500 ''control_public_url_not_configured'' ''server public control url is not configured''
      else
        prog_bind (prog_res (InstallScriptUrl platform server_url)) (\<lambda>script_url.
        prog_bind (prog_res (BuildInstallCommand platform
          \<lparr>icr_server_url = server_url, icr_control_url = ax_control_url ctx, icr_token = token,
           icr_channel = channel, icr_root = root\<rparr>)) (\<lambda>command.
        JsonResponse env (Json_object
          [(''platform'', Json_string platform), (''script_url'', Json_string script_url),
           (''command'', Json_string command)]) 200)))"

definition installer_satisfies :: "agent_package_record option \<Rightarrow> string \<Rightarrow> bool" where
  "installer_satisfies installer minimum =
     (case installer of
        None \<Rightarrow> False
      | Some i \<Rightarrow>
          (case (ParseSemver3 (pk_version i), ParseSemver3 minimum) of
             (Some installer_version, Some minimum_version) \<Rightarrow> \<not> installer_version < minimum_version
           | _ \<Rightarrow> False))"

definition install_options_api ::
    "('c, 'd, 'i) admin_env \<Rightarrow> api_context \<Rightarrow> (admin_world, http_response) prog" where
  "install_options_api env ctx =
     (let request = ax_request ctx;
          channel = QueryValue request ''channel'' ''stable'';
          platform = QueryValue request ''platform'' ''linux'';
          arch = QueryValue request ''arch'' ''x86_64'';
          build_type = QueryValue request ''build_type'' ''release''
      in
      if build_type \<noteq> ''debug'' \<and> build_type \<noteq> ''release''
      then ErrorResponse env 400 ''build_type_not_allowed'' ''build_type must be debug or release''
      else
        prog_bind (api_ask (ResolveInstallPackageSelection ''agent'' channel platform arch build_type)) (\<lambda>selection.
        case sel_agent selection of
          None \<Rightarrow> ErrorResponse env 404 ''no_agent_package'' ''no published agent package matches install options''
        | Some agent \<Rightarrow>
            prog_bind (prog_res (ParseManifestJson (rp_json (ad_repository env)) (pk_manifest_json agent)))
              (\<lambda>agent_manifest.
            if \<not> installer_satisfies (sel_installer selection) (mn_min_installer_version agent_manifest)
            then ErrorResponse env 409 ''no_compatible_installer_package''
                   ''no published installer package satisfies agent minimum installer version''
            else
              JsonResponse env (Json_object
                [(''server_url'', Json_string []), (''channel'', Json_string channel),
                 (''platform'', Json_string platform), (''arch'', Json_string arch),
                 (''build_type'', Json_string build_type), (''agent'', InstallPackageJson agent),
                 (''installer'', InstallPackageJson (the (sel_installer selection)))]) 200)))"

definition install_tokens_api ::
    "('c, 'd, 'i) admin_env \<Rightarrow> api_context \<Rightarrow> (admin_world, http_response) prog" where
  "install_tokens_api env ctx =
     prog_bind (prog_res (ParseTokenCreateRequestBody (ad_from_real env) (rp_json (ad_repository env))
                            (hr_body (ax_request ctx)))) (\<lambda>input.
     if tr_purpose input = [] then ErrorResponse env 400 ''token_purpose_required'' ''purpose is required''
     else if tr_purpose input \<noteq> ''agent_register''
     then ErrorResponse env 400 ''token_purpose_unsupported'' ''purpose must be agent_register''
     else if tr_expires_at input = []
     then ErrorResponse env 400 ''token_expiry_required'' ''expires_at is required''
     else
     case tr_max_uses input of
       None \<Rightarrow> ErrorResponse env 400 ''token_max_uses_invalid'' ''max_uses must be greater than zero''
     | Some max_uses \<Rightarrow>
       if max_uses \<le> 0
       then ErrorResponse env 400 ''token_max_uses_invalid'' ''max_uses must be greater than zero''
       else
       prog_bind (api_tick (ad_now env)) (\<lambda>now.
       prog_bind (api_tick (ad_uuid env)) (\<lambda>token_id.
       prog_bind (api_tick (ad_uuid env)) (\<lambda>token_value.
       prog_bind (prog_res (Sha256BytesHex (rp_digest (ad_repository env)) token_value)) (\<lambda>token_hash.
       prog_bind (api_db (CreateRegistrationToken
         \<lparr>rt_token_id = token_id, rt_token_hash = token_hash, rt_purpose = tr_purpose input,
          rt_channel = tr_channel input, rt_platform = tr_platform input, rt_arch = tr_arch input,
          rt_max_uses = Some max_uses, rt_use_count = 0, rt_status = ''active'', rt_created_at = now,
          rt_expires_at = tr_expires_at input, rt_revoked_at = None\<rparr>)) (\<lambda>_.
       prog_bind (audited env A_registration_token_created token_id ''success''
         [(''token_id'', token_id), (''purpose'', tr_purpose input),
          (''channel'', case tr_channel input of None \<Rightarrow> [] | Some s \<Rightarrow> s),
          (''platform'', case tr_platform input of None \<Rightarrow> [] | Some s \<Rightarrow> s),
          (''arch'', case tr_arch input of None \<Rightarrow> [] | Some s \<Rightarrow> s)]) (\<lambda>_.
       JsonResponse env (Json_object
         [(''token_id'', Json_string token_id), (''token'', Json_string token_value),
          (''purpose'', Json_string (tr_purpose input)), (''expires_at'', Json_string (tr_expires_at input)),
          (''max_uses'', Json_int max_uses), (''use_count'', Json_int 0),
          (''status'', Json_string ''active'')]) 201)))))))"

definition HandleInstallApi ::
    "('c, 'd, 'i) admin_env \<Rightarrow> api_context \<Rightarrow> (admin_world, http_response option) prog" where
  "HandleInstallApi env ctx =
     (let verb = hr_method (ax_request ctx); path = hr_path (ax_request ctx) in
      if verb = ''GET'' \<and> path = ''/api/v1/install/script'' then answered (install_script_api env ctx)
      else if verb = ''GET'' \<and> path = ''/api/v1/install/commands'' then answered (install_commands_api env ctx)
      else if verb = ''GET'' \<and> path = ''/api/v1/install/options'' then answered (install_options_api env ctx)
      else if verb = ''POST'' \<and> path = ''/api/v1/install/tokens'' then answered (install_tokens_api env ctx)
      else prog_return None)"

subsection \<open>Upgrades and rollbacks\<close>

definition refuse_high_risk :: "('c, 'd, 'i) admin_env \<Rightarrow> (admin_world, http_response) prog" where
  "refuse_high_risk env = ErrorResponse env 403 ''capability_not_allowed'' ''high_risk_write policy is disabled''"

definition rollback_task :: "string \<Rightarrow> string \<Rightarrow> string \<Rightarrow> string \<Rightarrow> task" where
  "rollback_task task_id agent_id now expires_at =
     \<lparr>task_protocol_version = protocol_version, task_task_id = task_id, task_agent_id = agent_id,
      task_task_type = TT_package_update, task_capability_level = CL_high_risk_write,
      task_created_at = now, task_expires_at = expires_at,
      task_input_data = PackageUpdateInput
        (empty_update_input\<lparr>pui_action := ''rollback'', pui_component := ''agent''\<rparr>)\<rparr>"

definition rollback_api ::
    "('c, 'd, 'i) admin_env \<Rightarrow> api_context \<Rightarrow> (admin_world, http_response) prog" where
  "rollback_api env ctx =
     (if \<not> ax_allow_high_risk_write ctx then refuse_high_risk env
      else
        let agent_id = path_between (hr_path (ax_request ctx)) ''/api/v1/agents/'' ''/rollback'' in
        prog_bind (api_ask (FindAgent agent_id)) (\<lambda>agent.
        if agent = None then ErrorResponse env 404 ''agent_not_found'' ''agent was not found''
        else
        prog_bind (prog_res (ParseRollbackRequestBody (rp_json (ad_repository env)) (hr_body (ax_request ctx)))) (\<lambda>input.
        prog_bind (api_tick (ad_now env)) (\<lambda>now.
        prog_bind (api_tick (ad_uuid env)) (\<lambda>task_id.
        prog_bind (api_db (ScheduleAgentRollback (ad_ext env) agent_id (rb_set_by input) now
                     (rollback_task task_id agent_id now (rb_expires_at input)))) (\<lambda>_.
        prog_bind (audited env A_agent_rollback_requested task_id ''success''
                     [(''agent_id'', agent_id), (''task_id'', task_id)]) (\<lambda>_.
        prog_bind (audited env A_task_queued task_id ''success''
                     [(''agent_id'', agent_id), (''task_id'', task_id), (''task_type'', ''package_update''),
                      (''action'', ''rollback'')]) (\<lambda>_.
        JsonResponse env (Json_object
          [(''task_id'', Json_string task_id), (''agent_id'', Json_string agent_id),
           (''upgrade_state'', Json_string ''queued''), (''action'', Json_string ''rollback'')]) 201))))))))"

text \<open>The task that has an agent install a package; its manifest is parsed for the minimum version.\<close>

definition create_package_task ::
    "('c, 'd, 'i) admin_env \<Rightarrow> api_context \<Rightarrow> string \<Rightarrow> string \<Rightarrow> string \<Rightarrow> agent_package_record \<Rightarrow> string \<Rightarrow>
       task result" where
  "create_package_task env ctx agent_id now expires_at target task_id =
     bind_res (Sha256BytesHex (rp_digest (ad_repository env)) (pk_manifest_json target)) (\<lambda>manifest_sha256.
     bind_res (ParseManifestJson (rp_json (ad_repository env)) (pk_manifest_json target)) (\<lambda>manifest.
     Inr \<lparr>task_protocol_version = protocol_version, task_task_id = task_id, task_agent_id = agent_id,
          task_task_type = TT_package_update, task_capability_level = CL_high_risk_write,
          task_created_at = now, task_expires_at = expires_at,
          task_input_data = PackageUpdateInput
            \<lparr>pui_action = ''apply'', pui_component = pk_component target, pui_package_id = pk_package_id target,
             pui_version = pk_version target, pui_platform = pk_platform target, pui_arch = pk_arch target,
             pui_build_type = pk_build_type target,
             pui_package_url = ax_package_download_base_url ctx @ ''/api/v1/packages/'' @ pk_component target @
               ''/'' @ pk_package_id target @ ''/download'',
             pui_package_sha256 = pk_sha256 target, pui_manifest_sha256 = manifest_sha256,
             pui_min_installer_version = mn_min_installer_version manifest,
             pui_allow_downgrade = False, pui_force = False\<rparr>\<rparr>))"

text \<open>The reasons to refuse an upgrade, in the order they are looked at; the code and the message.\<close>

definition upgrade_refused ::
    "agent_summary \<Rightarrow> agent_package_record \<Rightarrow> asset_snapshot_summary option \<Rightarrow> (int \<times> string \<times> string) option" where
  "upgrade_refused agent package asset =
     (if (case asset of None \<Rightarrow> True
          | Some s \<Rightarrow> pk_platform package \<noteq> ag_platform agent \<or> pk_arch package \<noteq> ss_arch s)
      then Some (400, ''platform_arch_mismatch'', ''package target does not match agent'')
      else if pk_version package = ag_agent_version agent
      then Some (400, ''version_not_newer'', ''upgrade target must be newer than current agent'')
      else case (ParseSemver3 (pk_version package), ParseSemver3 (ag_agent_version agent)) of
        (Some package_version, Some agent_version) \<Rightarrow>
          if package_version < agent_version
          then Some (400, ''downgrade_not_allowed'', ''agent downgrade is not allowed'') else None
      | _ \<Rightarrow> Some (400, ''downgrade_not_allowed'', ''agent downgrade is not allowed''))"

text \<open>From the scheduling on, with the tasks that were made.\<close>

definition schedule_upgrade_api ::
    "('c, 'd, 'i) admin_env \<Rightarrow> string \<Rightarrow> upgrade_request_body \<Rightarrow> agent_package_record \<Rightarrow> string \<Rightarrow> task \<Rightarrow> task option \<Rightarrow>
       (admin_world, http_response) prog" where
  "schedule_upgrade_api env agent_id input package now task prerequisite_task =
     (let task_id = task_task_id task; package_id = ur_package_id input in
      prog_bind (api_db (ScheduleAgentUpgrade (ad_ext env) agent_id (pk_version package) package_id
                   (ur_set_by input) now task prerequisite_task)) (\<lambda>_.
      prog_bind (audited env A_agent_upgrade_requested task_id ''success''
                   [(''agent_id'', agent_id), (''package_id'', package_id), (''task_id'', task_id),
                    (''capability_level'', ''high_risk_write'')]) (\<lambda>_.
      prog_bind (case prerequisite_task of
          None \<Rightarrow> prog_return ()
        | Some p \<Rightarrow> audited env A_task_queued (task_task_id p) ''success''
            [(''agent_id'', agent_id), (''task_id'', task_task_id p), (''task_type'', ''package_update''),
             (''component'', ''installer''), (''next_task_id'', task_id)]) (\<lambda>_.
      prog_bind (audited env A_task_queued task_id ''success''
                   [(''agent_id'', agent_id), (''task_id'', task_id), (''task_type'', ''package_update''),
                    (''package_id'', package_id)]) (\<lambda>_.
      JsonResponse env (Json_object
        [(''task_id'', Json_string task_id),
         (''prerequisite_task_id'', Json_string (case prerequisite_task of None \<Rightarrow> [] | Some p \<Rightarrow> task_task_id p)),
         (''agent_id'', Json_string agent_id), (''desired_package_id'', Json_string package_id),
         (''desired_version'', Json_string (pk_version package)),
         (''upgrade_state'', Json_string ''queued'')]) 201)))))"

definition upgrade_api ::
    "('c, 'd, 'i) admin_env \<Rightarrow> api_context \<Rightarrow> (admin_world, http_response) prog" where
  "upgrade_api env ctx =
     (if \<not> ax_allow_high_risk_write ctx then refuse_high_risk env
      else
        let agent_id = path_between (hr_path (ax_request ctx)) ''/api/v1/agents/'' ''/upgrade'' in
        prog_bind (api_ask (FindAgent agent_id)) (\<lambda>agent.
        case agent of
          None \<Rightarrow> ErrorResponse env 404 ''agent_not_found'' ''agent was not found''
        | Some agent \<Rightarrow>
        prog_bind (prog_res (ParseUpgradeRequestBody (rp_json (ad_repository env)) (hr_body (ax_request ctx)))) (\<lambda>input.
        prog_bind (api_ask (FindAgentPackage (ad_ext env) (ur_package_id input))) (\<lambda>package.
        case package of
          None \<Rightarrow> ErrorResponse env 404 ''package_not_found'' ''package was not found''
        | Some package \<Rightarrow>
        if pk_status package = ''retired'' then ErrorResponse env 409 ''package_retired'' ''package was retired''
        else if pk_component package \<noteq> ''agent''
        then ErrorResponse env 400 ''package_not_agent'' ''upgrade target must be an agent package''
        else
        prog_bind (api_query (FindLatestAssetSnapshot (ad_ext env) agent_id)) (\<lambda>asset.
        case upgrade_refused agent package asset of
          Some (status, code, message) \<Rightarrow> ErrorResponse env status code message
        | None \<Rightarrow>
        prog_bind (api_tick (ad_now env)) (\<lambda>now.
        prog_bind (api_tick (ad_uuid env)) (\<lambda>task_id.
        prog_bind (prog_res (ParseManifestJson (rp_json (ad_repository env)) (pk_manifest_json package))) (\<lambda>manifest.
        prog_bind (prog_res (create_package_task env ctx agent_id now (ur_expires_at input) package task_id)) (\<lambda>task.
        if mn_min_installer_version manifest = [] then schedule_upgrade_api env agent_id input package now task None
        else
        prog_bind (api_ask (FindCompatibleInstallerPackage (ad_ext env) package (mn_min_installer_version manifest)))
          (\<lambda>installer.
        case installer of
          None \<Rightarrow> ErrorResponse env 409 ''installer_too_old'' ''no compatible installer package is published''
        | Some installer \<Rightarrow>
        prog_bind (api_tick (ad_uuid env)) (\<lambda>prerequisite_id.
        prog_bind (prog_res (create_package_task env ctx agent_id now (ur_expires_at input) installer prerequisite_id))
          (\<lambda>prerequisite.
        schedule_upgrade_api env agent_id input package now task (Some prerequisite)))))))))))))"

definition HandleAgentMutationApi ::
    "('c, 'd, 'i) admin_env \<Rightarrow> api_context \<Rightarrow> (admin_world, http_response option) prog" where
  "HandleAgentMutationApi env ctx =
     (let verb = hr_method (ax_request ctx); path = hr_path (ax_request ctx) in
      if verb = ''POST'' \<and> starts_with path ''/api/v1/agents/'' \<and> ends_with path ''/rollback''
      then answered (rollback_api env ctx)
      else if verb = ''POST'' \<and> starts_with path ''/api/v1/agents/'' \<and> ends_with path ''/upgrade''
      then answered (upgrade_api env ctx)
      else prog_return None)"

subsection \<open>Packages\<close>

definition list_packages_api :: "('c, 'd, 'i) admin_env \<Rightarrow> (admin_world, http_response) prog" where
  "list_packages_api env =
     prog_bind (api_ask (ListAgentPackages (ad_ext env))) (\<lambda>packages.
     JsonResponse env (Json_object [(''packages'', Json_array (map package_json packages))]) 200)"

definition validation_entries :: "string \<Rightarrow> agent_package_metadata \<Rightarrow> (string \<times> string) list" where
  "validation_entries package_id metadata =
     [(''package_id'', package_id), (''version'', md_version metadata), (''platform'', md_platform metadata),
      (''arch'', md_arch metadata), (''build_type'', md_build_type metadata), (''component'', md_component metadata)]"

text \<open>\<open>*database->FindAgentPackage(package_id)\<close>: dereferencing an empty optional is undefined.\<close>

definition package_again :: "('c, 'd, 'i) admin_env \<Rightarrow> string \<Rightarrow> (admin_world, http_response) prog" where
  "package_again env package_id =
     prog_bind (api_ask (FindAgentPackage (ad_ext env) package_id)) (\<lambda>package.
     case package of
       None \<Rightarrow> prog_throw (Undefined_behaviour ''dereference of an empty optional'')
     | Some p \<Rightarrow> JsonResponse env (package_json p) 200)"

definition validated_as :: "agent_package_record \<Rightarrow> agent_package_metadata \<Rightarrow> string \<Rightarrow> agent_package_record" where
  "validated_as package metadata validated_at =
     package\<lparr>pk_component := md_component metadata, pk_version := md_version metadata,
       pk_platform := md_platform metadata, pk_arch := md_arch metadata,
       pk_build_type := md_build_type metadata, pk_size_bytes := md_size_bytes metadata,
       pk_sha256 := md_sha256 metadata, pk_manifest_json := md_manifest_json metadata,
       pk_status := ''validated'', pk_validated_at := Some validated_at\<rparr>"

definition validate_api ::
    "('c, 'd, 'i) admin_env \<Rightarrow> api_context \<Rightarrow> (admin_world, http_response) prog" where
  "validate_api env ctx =
     (let package_id = path_between (hr_path (ax_request ctx)) ''/api/v1/admin/packages/'' ''/validate'' in
      prog_bind (api_ask (FindAgentPackage (ad_ext env) package_id)) (\<lambda>package.
      case package of
        None \<Rightarrow> ErrorResponse env 404 ''package_not_found'' ''package was not found''
      | Some package \<Rightarrow>
      if pk_status package = ''retired''
      then ErrorResponse env 409 ''package_retired'' ''retired package cannot be validated''
      else api_catch
        (prog_bind (api_run (\<lambda>fs. ValidateAgentPackageUpload (ad_repository env) fs (pk_storage_path package) (pk_filename package)))
          (\<lambda>metadata.
         prog_bind (api_tick (ad_now env)) (\<lambda>validated_at.
         prog_bind (api_db (UpsertAgentPackage (validated_as package metadata validated_at))) (\<lambda>_.
         prog_bind (audited env A_package_validated package_id ''success'' (validation_entries package_id metadata)) (\<lambda>_.
         package_again env package_id)))))
        (\<lambda>ex.
         prog_bind (api_db (UpsertAgentPackage (package\<lparr>pk_status := ''rejected''\<rparr>))) (\<lambda>_.
         prog_bind (audited env A_package_validated package_id ''failure''
                      [(''package_id'', package_id), (''error'', what ex)]) (\<lambda>_.
         ErrorResponse env 400 ''package_validation_failed'' (what ex))))))"

definition publish_api ::
    "('c, 'd, 'i) admin_env \<Rightarrow> api_context \<Rightarrow> (admin_world, http_response) prog" where
  "publish_api env ctx =
     (let package_id = path_between (hr_path (ax_request ctx)) ''/api/v1/admin/packages/'' ''/publish'' in
      prog_bind (api_ask (FindAgentPackage (ad_ext env) package_id)) (\<lambda>package.
      case package of
        None \<Rightarrow> ErrorResponse env 404 ''package_not_found'' ''package was not found''
      | Some package \<Rightarrow>
      if pk_status package \<noteq> ''validated'' \<and> pk_status package \<noteq> ''published''
      then ErrorResponse env 409 ''package_not_validated'' ''package must be validated before publishing''
      else
      prog_bind (prog_res (ParsePublishRequestBody (rp_json (ad_repository env)) (hr_body (ax_request ctx)))) (\<lambda>input.
      let channel = (if pr_channel input = [] then ''stable'' else pr_channel input) in
      if channel \<noteq> ''stable'' \<and> channel \<noteq> ''candidate'' \<and> channel \<noteq> ''dev''
      then ErrorResponse env 400 ''channel_not_allowed'' ''channel must be stable, candidate or dev''
      else if channel = ''stable'' \<and> pk_build_type package = ''debug''
      then ErrorResponse env 400 ''build_type_not_allowed'' ''debug package cannot be published to stable''
      else if pk_status package = ''retired''
      then ErrorResponse env 409 ''package_retired'' ''retired package cannot be published''
      else
      prog_bind (api_tick (ad_now env)) (\<lambda>published_at.
      prog_bind (api_db (PublishAgentPackage package_id (pk_component package) channel (pk_platform package)
                   (pk_arch package) (pk_build_type package) (pr_published_by input) published_at)) (\<lambda>_.
      prog_bind (audited env A_package_published package_id ''success''
                   [(''package_id'', package_id), (''channel'', channel)]) (\<lambda>_.
      package_again env package_id))))))"

definition retire_api ::
    "('c, 'd, 'i) admin_env \<Rightarrow> api_context \<Rightarrow> (admin_world, http_response) prog" where
  "retire_api env ctx =
     (let package_id = path_between (hr_path (ax_request ctx)) ''/api/v1/admin/packages/'' ''/retire'' in
      prog_bind (api_ask (FindAgentPackage (ad_ext env) package_id)) (\<lambda>package.
      if package = None then ErrorResponse env 404 ''package_not_found'' ''package was not found''
      else
      prog_bind (api_tick (ad_now env)) (\<lambda>retired_at.
      prog_bind (api_db (RetireAgentPackage package_id retired_at)) (\<lambda>_.
      prog_bind (audited env A_package_retired package_id ''success'' [(''package_id'', package_id)]) (\<lambda>_.
      package_again env package_id)))))"

definition HandleAdminPackageApi ::
    "('c, 'd, 'i) admin_env \<Rightarrow> api_context \<Rightarrow> (admin_world, http_response option) prog" where
  "HandleAdminPackageApi env ctx =
     (let verb = hr_method (ax_request ctx); path = hr_path (ax_request ctx);
          post_below = (\<lambda>suffix_text. verb = ''POST'' \<and> starts_with path ''/api/v1/admin/packages/'' \<and>
             ends_with path suffix_text) in
      if verb = ''GET'' \<and> path = ''/api/v1/admin/packages'' then answered (list_packages_api env)
      else if verb = ''POST'' \<and> path = ''/api/v1/admin/packages''
      then answered (ErrorResponse env 500 ''package_stream_required'' ''package upload was not streamed'')
      else if post_below ''/validate'' then answered (validate_api env ctx)
      else if post_below ''/publish'' then answered (publish_api env ctx)
      else if post_below ''/retire'' then answered (retire_api env ctx)
      else prog_return None)"

definition HandlePackageDownloadApi ::
    "('c, 'd, 'i) admin_env \<Rightarrow> api_context \<Rightarrow> (admin_world, http_response option) prog" where
  "HandlePackageDownloadApi env ctx =
     (let verb = hr_method (ax_request ctx); path = hr_path (ax_request ctx) in
      if verb = ''GET'' \<and> starts_with path ''/api/v1/packages/'' \<and> ends_with path ''/download'' then
        let rest = path_between path ''/api/v1/packages/'' ''/download'';
            component = takeWhile (\<lambda>c. c \<noteq> CHR ''/'') rest
        in case dropWhile (\<lambda>c. c \<noteq> CHR ''/'') rest of
             [] \<Rightarrow> answered (ErrorResponse env 404 ''not_found'' ''endpoint was not found'')
           | _ # package_id \<Rightarrow>
               prog_bind (api_ask (FindAgentPackage (ad_ext env) package_id)) (\<lambda>package.
               answered (case package of
                 None \<Rightarrow> ErrorResponse env 404 ''package_not_found'' ''package was not found''
               | Some package \<Rightarrow>
                   if pk_component package \<noteq> component
                   then ErrorResponse env 404 ''package_not_found'' ''package was not found''
                   else
                   prog_bind (prog_read (\<lambda>fs. Inr (read_file (rp_os (ad_repository env)) fs (pk_storage_path package)))) (\<lambda>stream.
                   case stream of
                     None \<Rightarrow> ErrorResponse env 404 ''package_file_missing'' ''package file was not found''
                   | Some body \<Rightarrow>
                       prog_return \<lparr>ho_status = 200, ho_content_type = ''application/zip'', ho_body = string_of_bytes body\<rparr>)))
      else prog_return None)"

subsection \<open>Uploads\<close>

definition api_remove :: "('c, 'd, 'i) admin_env \<Rightarrow> string \<Rightarrow> (admin_world, unit) prog" where
  "api_remove env path w =
     (case remove_file (rp_os (ad_repository env)) (mc_files w) path of
        Inl e \<Rightarrow> Some (Inr (), w)
      | Inr fs \<Rightarrow> Some (Inr (), w\<lparr>mc_files := fs\<rparr>))"

definition uploaded_record ::
    "agent_package_metadata \<Rightarrow> string \<Rightarrow> string \<Rightarrow> string \<Rightarrow> string \<Rightarrow> agent_package_record" where
  "uploaded_record metadata package_id filename storage_path now =
     \<lparr>pk_package_id = package_id, pk_component = md_component metadata, pk_version = md_version metadata,
      pk_platform = md_platform metadata, pk_arch = md_arch metadata, pk_build_type = md_build_type metadata,
      pk_filename = filename, pk_storage_path = storage_path, pk_size_bytes = md_size_bytes metadata,
      pk_sha256 = md_sha256 metadata, pk_manifest_json = md_manifest_json metadata, pk_status = ''uploaded'',
      pk_uploaded_at = now, pk_validated_at = None, pk_published_at = None, pk_retired_at = None,
      pk_published_channels = []\<rparr>"

definition CommitAgentPackageUpload ::
    "('c, 'd, 'i) admin_env \<Rightarrow> http_request \<Rightarrow> string \<Rightarrow> string \<Rightarrow> string \<Rightarrow> nat \<Rightarrow> (admin_world, http_response) prog" where
  "CommitAgentPackageUpload env request package_repository staging_path package_id uploaded_bytes =
     (if uploaded_bytes = 0 then
        prog_bind (api_remove env staging_path) (\<lambda>_.
        ErrorResponse env 400 ''package_body_empty'' ''package upload body is empty'')
      else
        let os = rp_os (ad_repository env); filename = QueryValue request ''filename'' [] in
        prog_bind (api_tick (ad_now env)) (\<lambda>now.
        api_catch
          (prog_bind (prog_act (act_change (\<lambda>fs. create_directories os fs package_repository))) (\<lambda>_.
           prog_bind (prog_res (SafePackageStoragePath package_repository package_id)) (\<lambda>storage_path.
           prog_bind (prog_act (act_change (\<lambda>fs. rename_path os fs staging_path storage_path))) (\<lambda>_.
           prog_bind (api_run (\<lambda>fs. ValidateAgentPackageUpload (ad_repository env) fs storage_path filename)) (\<lambda>metadata.
           let uploaded = uploaded_record metadata package_id filename storage_path now;
               validated = uploaded\<lparr>pk_status := ''validated'', pk_validated_at := Some now\<rparr> in
           prog_bind (api_db (UpsertAgentPackage uploaded)) (\<lambda>_.
           prog_bind (api_db (UpsertAgentPackage validated)) (\<lambda>_.
           prog_bind (audited env A_package_validated package_id ''success'' (validation_entries package_id metadata)) (\<lambda>_.
           JsonResponse env (package_json validated) 201))))))))
          (\<lambda>ex.
           prog_bind (api_remove env staging_path) (\<lambda>_.
           ErrorResponse env 400 ''package_validation_failed'' (what ex)))))"

subsection \<open>Routing\<close>

definition expire_waiting_agents :: "('c, 'd, 'i) admin_env \<Rightarrow> (admin_world, unit) prog" where
  "expire_waiting_agents env =
     prog_bind (api_tick (ad_now env)) (\<lambda>now.
     prog_bind (api_db (ExpireWaitingReconnect (ad_ext env) now)) (\<lambda>agents.
     prog_each (\<lambda>agent_id.
       prog_bind (api_tick (ad_uuid env)) (\<lambda>request_id.
       audited env A_agent_upgrade_confirmed request_id ''error''
         [(''agent_id'', agent_id), (''state'', ''failed''), (''error_code'', ''waiting_reconnect_timeout'')])) agents))"

fun first_response ::
    "(admin_world, http_response option) prog list \<Rightarrow> (admin_world, http_response) prog \<Rightarrow> (admin_world, http_response) prog" where
  "first_response [] otherwise = otherwise"
| "first_response (handler # handlers) otherwise =
     prog_bind handler (\<lambda>response.
     case response of Some r \<Rightarrow> prog_return r | None \<Rightarrow> first_response handlers otherwise)"

definition HandleApi ::
    "('c, 'd, 'i) admin_env \<Rightarrow> api_context \<Rightarrow> (admin_world, http_response) prog" where
  "HandleApi env ctx =
     prog_bind (expire_waiting_agents env) (\<lambda>_.
     first_response
       [HandleAgentApi env ctx, HandleInstallApi env ctx, HandleAgentMutationApi env ctx,
        HandleAdminPackageApi env ctx, HandlePackageDownloadApi env ctx]
       (ErrorResponse env 404 ''not_found'' ''endpoint was not found''))"

definition RouteRequest ::
    "('c, 'd, 'i) admin_env \<Rightarrow> string \<Rightarrow> api_context \<Rightarrow> (admin_world, http_response) prog" where
  "RouteRequest env static_files ctx =
     (if starts_with (hr_path (ax_request ctx)) ''/api/v1/'' then HandleApi env ctx
      else if hr_method (ax_request ctx) \<noteq> ''GET''
      then ErrorResponse env 405 ''method_not_allowed'' ''method is not allowed''
      else
        prog_bind (prog_read (\<lambda>fs. static_Read (rp_os (ad_repository env)) fs static_files (hr_path (ax_request ctx)))) (\<lambda>asset.
        prog_return \<lparr>ho_status = sf_status asset, ho_content_type = sf_content_type asset, ho_body = sf_body asset\<rparr>))"

end
