(* ===== verification/Admin_Guarantees.thy ===== *)
theory Admin_Guarantees
  imports Admin_Api Agent_Upgrades
begin

section \<open>What the admin interface does to the database\<close>

text \<open>
  No request touches the tasks of the agents unless the policy for writes with a high risk is on, and
  only the requests on packages change one.  Both are instances of one family of locales: a relation
  that the operations of a group of handlers respect is respected by these handlers, whether they
  answer or end with an exception.
\<close>

abbreviation database :: "admin_world machine \<Rightarrow> server_database" where
  "database w \<equiv> aw_database (mc_rest w)"

definition api_moves ::
    "(server_database \<Rightarrow> server_database \<Rightarrow> bool) \<Rightarrow> (admin_world, 'a) prog \<Rightarrow> bool" where
  "api_moves R m \<longleftrightarrow> (\<forall>w r w'. m w = Some (r, w') \<longrightarrow> R (database w) (database w'))"

locale audit_relation =
  fixes R :: "server_database \<Rightarrow> server_database \<Rightarrow> bool"
  assumes rel_refl: "R db db"
    and rel_trans: "\<lbrakk>R a b; R b c\<rbrakk> \<Longrightarrow> R a c"
    and rel_audit: "op_rel R (RecordAuditEvent event)"
begin

lemma moves_same: "(\<And>w r w'. m w = Some (r, w') \<Longrightarrow> database w' = database w) \<Longrightarrow> api_moves R m"
  using rel_refl by (auto simp: api_moves_def)

lemma moves_pure:
  "api_moves R (prog_return x)" "api_moves R (prog_res r)" "api_moves R (prog_throw ex)"
  "api_moves R (prog_read q)" "api_moves R (prog_act a)" "api_moves R (api_tick f)"
  "api_moves R (api_query g)" "api_moves R (api_ask h)" "api_moves R (api_run k)"
  "api_moves R (api_remove env path)"
  by (rule moves_same; force simp: prog_act_def api_tick_def api_query_def api_ask_def api_run_def api_remove_def
      split: prod.splits sum.splits)+

lemma moves_db: "op_rel R m \<Longrightarrow> api_moves R (api_db m)"
  unfolding api_moves_def op_rel_def api_db_def by (auto split: prod.splits) (metis snd_conv)

lemma moves_bind: "\<lbrakk>api_moves R m; \<And>x. api_moves R (f x)\<rbrakk> \<Longrightarrow> api_moves R (prog_bind m f)"
  unfolding api_moves_def prog_bind_def
  by (auto split: option.splits prod.splits sum.splits) (metis rel_trans)+

lemma moves_catch: "\<lbrakk>api_moves R m; \<And>ex. api_moves R (h ex)\<rbrakk> \<Longrightarrow> api_moves R (api_catch m h)"
  unfolding api_moves_def prog_catch_def api_catch_def
  by (auto split: option.splits prod.splits sum.splits exn.splits) (metis rel_trans)+

lemma moves_if: "\<lbrakk>b \<Longrightarrow> api_moves R m; \<not> b \<Longrightarrow> api_moves R n\<rbrakk> \<Longrightarrow> api_moves R (if b then m else n)"
  by simp

lemma moves_option:
  "\<lbrakk>api_moves R m; \<And>y. api_moves R (n y)\<rbrakk> \<Longrightarrow> api_moves R (case x of None \<Rightarrow> m | Some y \<Rightarrow> n y)"
  by (cases x) simp_all

lemma moves_list:
  "\<lbrakk>api_moves R m; \<And>y ys. api_moves R (n y ys)\<rbrakk> \<Longrightarrow> api_moves R (case xs of [] \<Rightarrow> m | y # ys \<Rightarrow> n y ys)"
  by (cases xs) simp_all

lemma moves_pair: "(\<And>a b. api_moves R (f a b)) \<Longrightarrow> api_moves R (case p of (a, b) \<Rightarrow> f a b)"
  by (cases p) simp

lemma moves_each: "(\<And>x. api_moves R (f x)) \<Longrightarrow> api_moves R (prog_each f xs)"
  by (induction xs) (simp_all add: moves_bind moves_pure)

lemma moves_audited: "api_moves R (audited env t i out entries)"
  unfolding audited_def RecordAdminAudit_def by (intro moves_bind moves_pure moves_db rel_audit)

lemma moves_json: "api_moves R (JsonResponse env body status)"
  unfolding JsonResponse_def by (intro moves_bind moves_pure)

lemma moves_error: "api_moves R (ErrorResponse env status code message)"
  unfolding ErrorResponse_def by (intro moves_bind moves_pure moves_json)

lemma moves_answered: "api_moves R m \<Longrightarrow> api_moves R (answered m)"
  unfolding answered_def by (intro moves_bind moves_pure)

lemmas moves_basic = moves_answered moves_bind moves_catch moves_if moves_option moves_list moves_pair moves_pure
  moves_error moves_json moves_audited moves_db

end

locale agent_relation = audit_relation R for R :: "server_database \<Rightarrow> server_database \<Rightarrow> bool" +
  fixes e :: ext
  assumes rel_expire: "op_rel R (ExpireWaitingReconnect e at)"
    and rel_token: "op_rel R (CreateRegistrationToken token)"
begin

lemmas moves_kept = moves_basic rel_token rel_expire

lemma moves_agents: "api_moves R (HandleAgentApi env ctx)"
  unfolding HandleAgentApi_def list_agents_api_def agent_details_api_def Let_def by (intro moves_kept)

lemma moves_install: "api_moves R (HandleInstallApi env ctx)"
  unfolding HandleInstallApi_def install_script_api_def install_commands_api_def install_options_api_def
    install_tokens_api_def Let_def
  by (intro moves_kept)

lemma moves_download: "api_moves R (HandlePackageDownloadApi env ctx)"
  unfolding HandlePackageDownloadApi_def Let_def by (intro moves_kept)

lemma moves_expire:
  assumes "ad_ext env = e"
  shows "api_moves R (expire_waiting_agents env)"
  unfolding expire_waiting_agents_def assms by (intro moves_kept moves_each)

lemma moves_forbidden:
  assumes "\<not> ax_allow_high_risk_write ctx"
  shows "api_moves R (HandleAgentMutationApi env ctx)"
  unfolding HandleAgentMutationApi_def rollback_api_def upgrade_api_def refuse_high_risk_def Let_def
  using assms by (simp add: moves_if moves_answered moves_error moves_pure)

end

text \<open>The requests on packages.\<close>

locale admin_relation = agent_relation +
  assumes rel_upsert: "op_rel R (UpsertAgentPackage package)"
    and rel_publish: "op_rel R (PublishAgentPackage p co ch pl ar bt by at)"
    and rel_retire: "op_rel R (RetireAgentPackage p at)"
begin

lemmas moves_rules = moves_kept rel_upsert rel_publish rel_retire

lemma moves_packages: "api_moves R (HandleAdminPackageApi env ctx)"
  unfolding HandleAdminPackageApi_def list_packages_api_def validate_api_def publish_api_def retire_api_def
    package_again_def Let_def
  by (intro moves_rules)

lemma moves_upload: "api_moves R (CommitAgentPackageUpload env request repository staging package_id n)"
  unfolding CommitAgentPackageUpload_def Let_def by (intro moves_rules)

text \<open>A request is as good as its handler of upgrades and rollbacks.\<close>

lemma moves_route:
  assumes "ad_ext env = e" "api_moves R (HandleAgentMutationApi env ctx)"
  shows "api_moves R (RouteRequest env static_files ctx)"
proof -
  have "api_moves R (HandleApi env ctx)"
    unfolding HandleApi_def first_response.simps
    by (intro moves_bind moves_option moves_pure moves_expire moves_agents moves_install moves_packages moves_download
        moves_error assms)
  then show ?thesis
    unfolding RouteRequest_def by (intro moves_rules)
qed

end

text \<open>The requests that order an upgrade or a rollback.\<close>

locale order_relation = agent_relation +
  assumes rel_upgrade: "op_rel R (ScheduleAgentUpgrade e a v p by at task pre)"
    and rel_rollback: "op_rel R (ScheduleAgentRollback e a by at task)"
begin

lemma moves_mutation:
  assumes "ad_ext env = e"
  shows "api_moves R (HandleAgentMutationApi env ctx)"
  unfolding HandleAgentMutationApi_def rollback_api_def upgrade_api_def refuse_high_risk_def schedule_upgrade_api_def
    Let_def assms
  by (intro moves_kept rel_upgrade rel_rollback)

end

interpretation api_tasks: admin_relation "keeps task_tables" e for e
  by unfold_locales
    (auto simp: op_rel_def intro: keeps_trans agent_ops_keep record_ops_keep package_ops_keep token_ops_keep)

interpretation api_packages: order_relation "keeps package_tables" e for e
  by unfold_locales
    (auto simp: op_rel_def intro: keeps_trans agent_ops_keep record_ops_keep token_ops_keep
      task_ops_keepD [OF outside_tasks_views(1)])

text \<open>
  C9: Without the policy for writes with a high risk no request of the admin interface changes a task
  or a result of a task: no upgrade and no rollback is ordered, whatever the path and the body are.
\<close>

theorem no_task_without_policy:
  assumes "RouteRequest env static_files ctx w = Some (r, w')" "\<not> ax_allow_high_risk_write ctx"
  shows "db_tasks (database w') = db_tasks (database w) \<and> db_task_results (database w') = db_task_results (database w)"
proof -
  have "keeps task_tables (database w) (database w')"
    using api_tasks.moves_route [OF HOL.refl api_tasks.moves_forbidden [OF assms(2)]] assms(1)
    unfolding api_moves_def by blast
  then show ?thesis by (simp add: keeps_def task_tables_def)
qed

subsection \<open>Upgrades that are accepted\<close>

interpretation agents_kept: audit_relation "keeps db_agents"
  by unfold_locales (auto simp: op_rel_def intro: keeps_trans record_ops_keep)

lemma wp_api [simp]:
  "wp (api_tick f) Q E w =
     Q (f (aw_ticks (mc_rest w))) (w\<lparr>mc_rest := (mc_rest w)\<lparr>aw_ticks := aw_ticks (mc_rest w) + 1\<rparr>\<rparr>)"
  "wp (api_query q) R E w = (case q (database w) of Inl ex \<Rightarrow> E w | Inr x \<Rightarrow> R x w)"
  "wp (api_ask h) S E w = S (h (database w)) w"
  by (simp_all add: wp_def api_tick_def api_query_def api_ask_def split: sum.split)

lemma wp_cases:
  "wp (if b then m else n) Q E w = (if b then wp m Q E w else wp n Q E w)"
  "wp (case x of None \<Rightarrow> m' | Some y \<Rightarrow> n' y) Q' E' w =
     (case x of None \<Rightarrow> wp m' Q' E' w | Some y \<Rightarrow> wp (n' y) Q' E' w)"
  by (simp_all split: option.split)

lemma wp_json: "(\<And>r. ho_status r = status \<Longrightarrow> Q r w) \<Longrightarrow> E w \<Longrightarrow> wp (JsonResponse env body status) Q E w"
  by (simp add: JsonResponse_def split: sum.split)

lemma wp_error:
  "\<lbrakk>\<And>r w'. ho_status r = status \<Longrightarrow> Q r w'; \<And>w'. E w'\<rbrakk> \<Longrightarrow> wp (ErrorResponse env status code message) Q E w"
  by (simp add: ErrorResponse_def wp_json)

definition scheduled_tasks :: "task \<Rightarrow> task option \<Rightarrow> task_row list \<Rightarrow> bool" where
  "scheduled_tasks task prerequisite rows \<longleftrightarrow>
     (case prerequisite of
        None \<Rightarrow> \<exists>blob. rows = [task_values task blob None]
      | Some p \<Rightarrow> \<exists>blob pblob. rows = [task_values p pblob None, task_values task blob (Some (task_task_id p))])"

lemma ScheduleAgentUpgrade_tasks:
  assumes "ScheduleAgentUpgrade e a v p by t task pre db = (Inr (), db')"
  shows "\<exists>rows. db_tasks db' = db_tasks db @ rows \<and> scheduled_tasks task pre rows"
proof (cases pre)
  case None
  then show ?thesis
    using assms
    by (auto simp: ScheduleAgentUpgrade_def submit_write_def transaction_def set_desired_def insert_task_def db_op_defs
        rows_insert_def Let_def scheduled_tasks_def split: if_splits sum.splits prod.splits)
next
  case (Some q)
  then show ?thesis
    using assms
    by (auto simp: ScheduleAgentUpgrade_def submit_write_def transaction_def set_desired_def insert_task_def db_op_defs
        rows_insert_def Let_def scheduled_tasks_def split: if_splits sum.splits prod.splits)
qed

text \<open>What an accepted upgrade leaves: the wish of the agent's row, and the new tasks at the end of the queue.\<close>

definition upgrade_ordered ::
    "string \<Rightarrow> agent_package_record \<Rightarrow> string \<Rightarrow> task \<Rightarrow> task option \<Rightarrow> server_database \<Rightarrow> server_database \<Rightarrow> bool" where
  "upgrade_ordered a package package_id task pre db db' \<longleftrightarrow>
     (\<exists>agent. FindAgent a db' = Some agent \<and> ag_desired_version agent = Some (pk_version package) \<and>
        ag_desired_package_id agent = Some package_id \<and> ag_upgrade_state agent = Some ''queued'' \<and>
        ag_last_upgrade_task_id agent = Some (task_task_id task)) \<and>
     (\<exists>rows. db_tasks db' = db_tasks db @ rows \<and> scheduled_tasks task pre rows)"

lemma schedule_upgrade_run:
  assumes "schedule_upgrade_api env a input package now task pre w = Some (Inr r, w')" "FindAgent a (database w) \<noteq> None"
  shows "upgrade_ordered a package (ur_package_id input) task pre (database w) (database w')"
proof -
  let ?schedule = "ScheduleAgentUpgrade (ad_ext env) a (pk_version package) (ur_package_id input) (ur_set_by input) now task pre"
  obtain m where run: "prog_bind (api_db ?schedule) (\<lambda>_. m) w = Some (Inr r, w')"
    and kept: "api_moves (keeps db_agents) m" "api_moves (keeps task_tables) m"
  proof
    let ?m = "prog_bind (audited env A_agent_upgrade_requested (task_task_id task) ''success''
                   [(''agent_id'', a), (''package_id'', ur_package_id input), (''task_id'', task_task_id task),
                    (''capability_level'', ''high_risk_write'')]) (\<lambda>_.
      prog_bind (case pre of
          None \<Rightarrow> prog_return ()
        | Some p \<Rightarrow> audited env A_task_queued (task_task_id p) ''success''
            [(''agent_id'', a), (''task_id'', task_task_id p), (''task_type'', ''package_update''),
             (''component'', ''installer''), (''next_task_id'', task_task_id task)]) (\<lambda>_.
      prog_bind (audited env A_task_queued (task_task_id task) ''success''
                   [(''agent_id'', a), (''task_id'', task_task_id task), (''task_type'', ''package_update''),
                    (''package_id'', ur_package_id input)]) (\<lambda>_.
      JsonResponse env (Json_object
        [(''task_id'', Json_string (task_task_id task)),
         (''prerequisite_task_id'', Json_string (case pre of None \<Rightarrow> [] | Some p \<Rightarrow> task_task_id p)),
         (''agent_id'', Json_string a), (''desired_package_id'', Json_string (ur_package_id input)),
         (''desired_version'', Json_string (pk_version package)),
         (''upgrade_state'', Json_string ''queued'')]) 201)))"
    show "prog_bind (api_db ?schedule) (\<lambda>_. ?m) w = Some (Inr r, w')"
      using assms(1) by (simp add: schedule_upgrade_api_def Let_def)
    show "api_moves (keeps db_agents) ?m" by (intro agents_kept.moves_basic)
    show "api_moves (keeps task_tables) ?m" by (intro api_tasks.moves_basic)
  qed
  from run obtain w1 where w1: "api_db ?schedule w = Some (Inr (), w1)" "m w1 = Some (Inr r, w')"
    by (rule prog_bind_InrE) simp
  then have s: "?schedule (database w) = (Inr (), database w1)"
    by (auto simp: api_db_def split: prod.splits)
  have "keeps db_agents (database w1) (database w')" "keeps task_tables (database w1) (database w')"
    using kept w1(2) unfolding api_moves_def by blast+
  then have same: "db_agents (database w') = db_agents (database w1)" "db_tasks (database w') = db_tasks (database w1)"
    by (simp_all add: keeps_def task_tables_def)
  obtain agent where agent: "FindAgent a (database w) = Some agent" using assms(2) by blast
  from s have "FindAgent a (database w1) = Some (ordered_upgrade (pk_version package) (ur_package_id input)
      (ur_set_by input) now (task_task_id task) agent)"
  proof (rule ScheduleAgentUpgradeE)
    assume "db_agents (database w1) = rows_update (\<lambda>r. ag_agent_id r = a)
      (ordered_upgrade (pk_version package) (ur_package_id input) (ur_set_by input) now (task_task_id task)) (db_agents (database w))"
    from FindAgent_update [OF this, of a] show ?thesis
      using agent FindAgent_id [OF agent] by (simp add: ordered_upgrade_def)
  qed
  then show ?thesis
    using ScheduleAgentUpgrade_tasks [OF s] same by (simp add: upgrade_ordered_def FindAgent_def ordered_upgrade_def)
qed

lemma ends_with_iff: "ends_with s suf \<longleftrightarrow> (\<exists>p. s = p @ suf)"
proof
  assume "ends_with s suf"
  then have "s = take (length s - length suf) s @ suf"
    unfolding ends_with_def by (metis append_take_drop_id)
  then show "\<exists>p. s = p @ suf" by blast
qed (auto simp: ends_with_def)

lemma path_between_here [simp]: "path_between (p @ x @ s) p s = x"
  by (simp add: path_between_def)

text \<open>
  What has to hold of the database and the request for an upgrade to be ordered.
\<close>

definition upgrade_justified ::
    "('c, 'd, 'i) admin_env \<Rightarrow> api_context \<Rightarrow> string \<Rightarrow> server_database \<Rightarrow> upgrade_request_body \<Rightarrow>
       agent_package_record \<Rightarrow> task \<Rightarrow> task option \<Rightarrow> bool" where
  "upgrade_justified env ctx a db input package task pre \<longleftrightarrow>
     (\<exists>agent snapshot v0 v1 now task_id manifest.
        FindAgent a db = Some agent \<and>
        FindAgentPackage (ad_ext env) (ur_package_id input) db = Some package \<and>
        pk_status package \<noteq> ''retired'' \<and> pk_component package = ''agent'' \<and>
        FindLatestAssetSnapshot (ad_ext env) a db = Inr (Some snapshot) \<and>
        pk_platform package = ag_platform agent \<and> pk_arch package = ss_arch snapshot \<and>
        pk_version package \<noteq> ag_agent_version agent \<and>
        ParseSemver3 (ag_agent_version agent) = Some v0 \<and> ParseSemver3 (pk_version package) = Some v1 \<and> \<not> v1 < v0 \<and>
        create_package_task env ctx a now (ur_expires_at input) package task_id = Inr task \<and>
        ParseManifestJson (rp_json (ad_repository env)) (pk_manifest_json package) = Inr manifest \<and>
        (case pre of
           None \<Rightarrow> mn_min_installer_version manifest = []
         | Some p \<Rightarrow> \<exists>installer id.
             FindCompatibleInstallerPackage (ad_ext env) package (mn_min_installer_version manifest) db = Some installer \<and>
             create_package_task env ctx a now (ur_expires_at input) installer id = Inr p))"

lemma not_refused:
  "upgrade_refused agent package asset = None \<longleftrightarrow>
     (\<exists>s v0 v1. asset = Some s \<and> pk_platform package = ag_platform agent \<and> pk_arch package = ss_arch s \<and>
        pk_version package \<noteq> ag_agent_version agent \<and> ParseSemver3 (ag_agent_version agent) = Some v0 \<and>
        ParseSemver3 (pk_version package) = Some v1 \<and> \<not> v1 < v0)"
  by (auto simp: upgrade_refused_def split: option.splits if_splits)

lemma refused_status: "upgrade_refused agent package asset = Some (s, c, m) \<Longrightarrow> s \<noteq> 201"
  by (auto simp: upgrade_refused_def split: option.splits if_splits)

lemma justifiedI:
  assumes "FindAgent a db = Some agent" "FindAgentPackage (ad_ext env) (ur_package_id input) db = Some package"
    "pk_status package \<noteq> ''retired''" "pk_component package = ''agent''"
    "FindLatestAssetSnapshot (ad_ext env) a db = Inr asset" "upgrade_refused agent package asset = None"
    "create_package_task env ctx a now (ur_expires_at input) package task_id = Inr task"
    "ParseManifestJson (rp_json (ad_repository env)) (pk_manifest_json package) = Inr manifest"
  shows "mn_min_installer_version manifest = [] \<Longrightarrow> upgrade_justified env ctx a db input package task None"
    and "\<lbrakk>FindCompatibleInstallerPackage (ad_ext env) package (mn_min_installer_version manifest) db = Some installer;
      create_package_task env ctx a now (ur_expires_at input) installer i = Inr p\<rbrakk>
      \<Longrightarrow> upgrade_justified env ctx a db input package task (Some p)"
  using assms unfolding upgrade_justified_def not_refused by (auto, blast+)

text \<open>An upgrade is refused, ends with an exception, or is scheduled where it is justified.\<close>

lemma wp_upgrade_api:
  assumes "path_between (hr_path (ax_request ctx)) ''/api/v1/agents/'' ''/upgrade'' = a"
    and refuse: "\<And>r w'. ho_status r \<noteq> 201 \<Longrightarrow> Q r w'"
    and schedule: "\<And>input package now task pre w1.
      \<lbrakk>ax_allow_high_risk_write ctx; ParseUpgradeRequestBody (rp_json (ad_repository env)) (hr_body (ax_request ctx)) = Inr input;
       upgrade_justified env ctx a (database w) input package task pre; database w1 = database w\<rbrakk>
      \<Longrightarrow> wp (schedule_upgrade_api env a input package now task pre) Q (\<lambda>_. True) w1"
  shows "wp (upgrade_api env ctx) Q (\<lambda>_. True) w"
  unfolding upgrade_api_def refuse_high_risk_def Let_def assms(1)
  by (auto simp: wp_cases split: option.split sum.split
      intro!: wp_error refuse schedule intro: justifiedI dest: refused_status)

lemma upgrade_api_accepted:
  assumes "hr_path (ax_request ctx) = ''/api/v1/agents/'' @ a @ ''/upgrade''"
  shows "wp (upgrade_api env ctx)
    (\<lambda>r w'. ho_status r = 201 \<longrightarrow> ax_allow_high_risk_write ctx \<and>
       (\<exists>input package task pre.
          ParseUpgradeRequestBody (rp_json (ad_repository env)) (hr_body (ax_request ctx)) = Inr input \<and>
          upgrade_justified env ctx a (database w) input package task pre \<and>
          upgrade_ordered a package (ur_package_id input) task pre (database w) (database w')))
    (\<lambda>_. True) w"
proof (rule wp_upgrade_api [where a = a], goal_cases)
  case 1
  then show ?case unfolding assms by (rule path_between_here)
next
  case (3 input package now task pre w1)
  then have "FindAgent a (database w1) \<noteq> None" by (auto simp: upgrade_justified_def)
  from schedule_upgrade_run [OF _ this] show ?case
    using 3 by (fastforce simp: wp_def split: option.splits prod.splits sum.splits)
qed simp

text \<open>
  C5: An upgrade is ordered only where it is justified.  When a POST on the upgrade path of an agent is
  answered with 201, the policy allows it; the agent and the package exist, the package is not retired,
  is an agent package and fits the agent's platform and the architecture of its latest inventory; both
  versions parse and the package is not older; and where its manifest names a minimum installer, an
  installer that satisfies it was found.  Afterwards the agent's row wishes for exactly this package and
  is queued, and the queue has grown by the task made from the package, behind the installer's task where
  there is one, on which it waits.
\<close>

theorem accepted_upgrade_is_justified:
  assumes "HandleAgentMutationApi env ctx w = Some (Inr (Some response), w')"
    and "hr_method (ax_request ctx) = ''POST''"
    and "hr_path (ax_request ctx) = ''/api/v1/agents/'' @ a @ ''/upgrade''" "ho_status response = 201"
  shows "ax_allow_high_risk_write ctx \<and>
    (\<exists>input package task pre.
       ParseUpgradeRequestBody (rp_json (ad_repository env)) (hr_body (ax_request ctx)) = Inr input \<and>
       upgrade_justified env ctx a (database w) input package task pre \<and>
       upgrade_ordered a package (ur_package_id input) task pre (database w) (database w'))"
proof -
  have "\<not> ends_with (hr_path (ax_request ctx)) ''/rollback''"
  proof
    assume "ends_with (hr_path (ax_request ctx)) ''/rollback''"
    then obtain p where "''/api/v1/agents/'' @ a @ ''/upgrade'' = p @ ''/rollback''"
      using assms(3) by (auto simp: ends_with_iff)
    then have "last (''/api/v1/agents/'' @ a @ ''/upgrade'') = last (p @ ''/rollback'')" by (rule arg_cong)
    then show False by simp
  qed
  moreover have "starts_with (hr_path (ax_request ctx)) ''/api/v1/agents/''" "ends_with (hr_path (ax_request ctx)) ''/upgrade''"
    using assms(3) unfolding starts_with_iff ends_with_iff by (blast, metis append_assoc)
  ultimately have "answered (upgrade_api env ctx) w = Some (Inr (Some response), w')"
    using assms(1,2) by (simp add: HandleAgentMutationApi_def)
  then have "upgrade_api env ctx w = Some (Inr response, w')"
    unfolding answered_def by (elim prog_bind_InrE) simp
  from wp_run [OF upgrade_api_accepted [OF assms(3)] this] show ?thesis using assms(4) by simp
qed

subsection \<open>Requests on small databases\<close>

definition demo_admin_ext :: ext where
  "demo_admin_ext = demo_ext\<lparr>ext_wire := demo_wire\<lparr>w_ser_update_input := (\<lambda>i. Some ''U'')\<rparr>\<rparr>"

definition demo_admin :: "(unit, bool, bool) admin_env" where
  "demo_admin =
     \<lparr>ad_repository = demo_repository, ad_ext = demo_admin_ext, ad_now = (\<lambda>n. ''3''),
      ad_uuid = (\<lambda>n. replicate n (CHR ''u'')), ad_from_real = 0\<rparr>"

definition demo_context :: "string \<Rightarrow> string \<Rightarrow> bool \<Rightarrow> api_context" where
  "demo_context verb path allow =
     \<lparr>ax_request = \<lparr>hr_method = verb, hr_target = path, hr_path = path, hr_query = [], hr_body = []\<rparr>,
      ax_package_repository = ''/r'', ax_allow_high_risk_write = allow, ax_package_download_base_url = ''http://s'',
      ax_control_url = ''http://c'', ax_web_static_root = ''/w''\<rparr>"

definition demo_package :: "string \<Rightarrow> string \<Rightarrow> string \<Rightarrow> package_row" where
  "demo_package package_id component version =
     (demo_installer_row package_id version)\<lparr>pk_component := component, pk_platform := ''linux'', pk_arch := ''x64'',
        pk_build_type := ''release'', pk_status := ''published''\<rparr>"

definition demo_upgradable :: server_database where
  "demo_upgradable = fresh_database
     \<lparr>db_agents := [registered_agent demo_registration],
      db_asset_snapshots :=
        [\<lparr>sn_snapshot_id = 1, sn_agent_id = ''a'', sn_occurred_at = ''1'', sn_hostname = ''h'', sn_os = ''linux'',
          sn_os_version = None, sn_arch = ''x64'', sn_agent_version = ''1.0.0'', sn_applications_json = ''[]'',
          sn_services_json = ''[]'', sn_event_blob = []\<rparr>],
      db_agent_packages := [demo_package [] ''agent'' ''1.1.0'', demo_package ''i'' ''installer'' ''0.9.0'']\<rparr>"

definition demo_api_world :: "server_database \<Rightarrow> admin_world machine" where
  "demo_api_world db = \<lparr>mc_files = Map.empty, mc_rest = \<lparr>aw_ticks = 0, aw_database = db\<rparr>\<rparr>"

definition answer_status :: "('a result \<times> 'b) option \<Rightarrow> ('a \<Rightarrow> http_response option) \<Rightarrow> int option" where
  "answer_status y f = (case y of Some (Inr r, w) \<Rightarrow> map_option ho_status (f r) | _ \<Rightarrow> None)"

lemma answer_statusE:
  assumes "answer_status y f = Some s"
  obtains r x w where "y = Some (Inr r, w)" "f r = Some x" "ho_status x = s"
  using assms by (auto simp: answer_status_def split: option.splits prod.splits sum.splits)

lemma demo_upgrade_accepted:
  "answer_status (HandleAgentMutationApi demo_admin (demo_context ''POST'' ''/api/v1/agents/a/upgrade'' True)
     (demo_api_world demo_upgradable)) id = Some 201"
  by code_simp

lemma demo_upgrade_forbidden:
  "answer_status (RouteRequest demo_admin ''/w'' (demo_context ''POST'' ''/api/v1/agents/a/upgrade'' False)
     (demo_api_world demo_upgradable)) Some = Some 403"
  by code_simp

theorem no_task_without_policy_witness:
  "\<exists>r w'. RouteRequest demo_admin ''/w'' (demo_context ''POST'' ''/api/v1/agents/a/upgrade'' False)
     (demo_api_world demo_upgradable) = Some (Inr r, w') \<and> db_tasks (database w') = []"
  using demo_upgrade_forbidden
proof (rule answer_statusE)
  fix r x w assume run: "RouteRequest demo_admin ''/w'' (demo_context ''POST'' ''/api/v1/agents/a/upgrade'' False)
     (demo_api_world demo_upgradable) = Some (Inr r, w)"
  from no_task_without_policy [OF this] show ?thesis
    using run by (auto simp: demo_api_world_def demo_context_def demo_upgradable_def)
qed

theorem accepted_upgrade_is_justified_witness:
  "\<exists>response w' input package task pre.
     HandleAgentMutationApi demo_admin (demo_context ''POST'' ''/api/v1/agents/a/upgrade'' True)
       (demo_api_world demo_upgradable) = Some (Inr (Some response), w') \<and>
     upgrade_justified demo_admin (demo_context ''POST'' ''/api/v1/agents/a/upgrade'' True) ''a'' demo_upgradable input package task pre \<and>
     upgrade_ordered ''a'' package (ur_package_id input) task pre demo_upgradable (database w')"
  using demo_upgrade_accepted
proof (rule answer_statusE)
  fix r x w assume run: "HandleAgentMutationApi demo_admin (demo_context ''POST'' ''/api/v1/agents/a/upgrade'' True)
     (demo_api_world demo_upgradable) = Some (Inr r, w)" "id r = Some x" "ho_status x = 201"
  then have r: "HandleAgentMutationApi demo_admin (demo_context ''POST'' ''/api/v1/agents/a/upgrade'' True)
     (demo_api_world demo_upgradable) = Some (Inr (Some x), w)" by simp
  have ctx: "hr_method (ax_request (demo_context ''POST'' ''/api/v1/agents/a/upgrade'' True)) = ''POST''"
    "hr_path (ax_request (demo_context ''POST'' ''/api/v1/agents/a/upgrade'' True)) = ''/api/v1/agents/'' @ ''a'' @ ''/upgrade''"
    by (simp_all add: demo_context_def)
  have db: "database (demo_api_world demo_upgradable) = demo_upgradable" by (simp add: demo_api_world_def)
  show ?thesis
    using accepted_upgrade_is_justified [OF r ctx run(3)] r unfolding db by blast
qed

end
