(* ===== verification/Admin_Uploads.thy ===== *)
theory Admin_Uploads
  imports Admin_Guarantees
begin

section \<open>From an upload to a download\<close>

text \<open>
  What the server answers with 201 is in the repository, is recorded as what was checked, and is what
  agents download.
\<close>

lemma wp_prog_act [simp]:
  "wp (prog_act m) Q E w =
     (case m (mc_files w) of (Inl ex, fs) \<Rightarrow> E (w\<lparr>mc_files := fs\<rparr>) | (Inr x, fs) \<Rightarrow> Q x (w\<lparr>mc_files := fs\<rparr>))"
  by (simp add: wp_def prog_act_def split: prod.split sum.split)

lemma wp_api_run [simp]:
  "wp (api_run m) Q E w =
     (case m (mc_files w) of None \<Rightarrow> True | Some (Inl ex) \<Rightarrow> E w | Some (Inr x) \<Rightarrow> Q x w)"
  by (simp add: wp_def api_run_def split: option.split sum.split)

lemma wp_remove: "(\<And>w'. Q () w') \<Longrightarrow> wp (api_remove env path) Q E w"
  by (simp add: wp_def api_remove_def split: sum.split)

lemma wp_upsert:
  assumes "\<And>db. db = (database w)\<lparr>db_agent_packages :=
      rows_upsert pk_package_id (\<lambda>_ excluded. excluded) (package_columns p) (db_agent_packages (database w))\<rparr>
      \<Longrightarrow> Q () (w\<lparr>mc_rest := (mc_rest w)\<lparr>aw_database := db\<rparr>\<rparr>)" "E w"
  shows "wp (api_db (UpsertAgentPackage p)) Q E w"
  using assms by (simp add: wp_def api_db_def UpsertAgentPackage_def submit_write_def)

text \<open>An audit event changes neither the files nor the packages.\<close>

definition same_packages :: "admin_world machine \<Rightarrow> admin_world machine \<Rightarrow> bool" where
  "same_packages w w' \<longleftrightarrow> mc_files w' = mc_files w \<and> package_tables (database w') = package_tables (database w)"

lemma wp_audited:
  assumes "\<And>w'. same_packages w w' \<Longrightarrow> Q () w'" "\<And>w'. E w'"
  shows "wp (audited env t i out entries) Q E w"
proof -
  have moved: "api_moves (keeps package_tables) (audited env t i out entries)" by (rule api_packages.moves_audited)
  have files: "mc_files w' = mc_files w" if "audited env t i out entries w = Some (r, w')" for r w'
    using that unfolding audited_def RecordAdminAudit_def
    by (auto simp: prog_bind_def api_tick_def api_db_def split: sum.splits prod.splits option.splits)
  have same: "same_packages w w'" if run: "audited env t i out entries w = Some (r, w')" for r w'
  proof -
    have "keeps package_tables (database w) (database w')" using moved run unfolding api_moves_def by blast
    then show ?thesis using files [OF run] by (simp add: same_packages_def keeps_def)
  qed
  show ?thesis
    unfolding wp_def by (auto split: option.split sum.split intro: assms dest: same)
qed

text \<open>The columns of a package that was just validated.\<close>

definition validated_row ::
    "agent_package_metadata \<Rightarrow> string \<Rightarrow> string \<Rightarrow> string \<Rightarrow> string \<Rightarrow> package_row \<Rightarrow> bool" where
  "validated_row metadata package_id filename storage_path now row \<longleftrightarrow>
     row = package_columns ((uploaded_record metadata package_id filename storage_path now)
       \<lparr>pk_status := ''validated'', pk_validated_at := Some now\<rparr>)"

lemma upload_accepted:
  "wp (CommitAgentPackageUpload env request repository staging package_id n)
    (\<lambda>r w'. ho_status r = 201 \<longrightarrow>
       (\<exists>storage_path metadata now row. SafePackageStoragePath repository package_id = Inr storage_path \<and>
          ValidateAgentPackageUpload (ad_repository env) (mc_files w') storage_path (QueryValue request ''filename'' []) =
            Some (Inr metadata) \<and>
          row_by pk_package_id package_id (db_agent_packages (database w')) = Some row \<and>
          validated_row metadata package_id (QueryValue request ''filename'' []) storage_path now row))
    (\<lambda>_. True) w"
proof -
  have twice: "row_by pk_package_id package_id (rows_upsert pk_package_id (\<lambda>_ excluded. excluded) (package_columns p2)
      (rows_upsert pk_package_id (\<lambda>_ excluded. excluded) (package_columns p1) rows)) = Some (package_columns p2)"
    if "pk_package_id p2 = package_id" for p1 p2 :: agent_package_record and rows
    using that by (subst row_by_upsert) (simp_all add: package_columns_def split: option.split)
  have key: "pk_package_id ((uploaded_record metadata package_id filename storage_path now)
      \<lparr>pk_status := s, pk_validated_at := v\<rparr>) = package_id" for metadata filename storage_path now s v
    by (simp add: uploaded_record_def)
  show ?thesis
    unfolding CommitAgentPackageUpload_def Let_def api_catch_def
    by (auto simp: wp_cases same_packages_def package_tables_def validated_row_def key twice
        split: option.split sum.split prod.split exn.split
        intro!: wp_error wp_remove wp_catch wp_upsert wp_audited wp_json) (rule exI, rule HOL.refl)
qed

text \<open>A file that was validated can be read, and its digest is the one that was recorded.\<close>

lemma validated_file:
  assumes "ValidateAgentPackageUpload renv fs path filename = Some (Inr metadata)"
  shows "\<exists>bytes. read_file (rp_os renv) fs path = Some bytes \<and>
    Sha256FileHex (rp_digest renv) path (Some bytes) = Inr (md_sha256 metadata) \<and>
    md_size_bytes metadata = of_nat (length bytes) \<and> md_component metadata \<in> {''agent'', ''installer''}"
proof -
  obtain size where size: "FileSizeBytes renv fs path = Some (Inr size)" "md_size_bytes metadata = size"
    and digest: "Sha256FileHex (rp_digest renv) path (read_file (rp_os renv) fs path) = Inr (md_sha256 metadata)"
    and component: "IsSupportedPackageComponent (md_component metadata)"
    using assms unfolding ValidateAgentPackageUpload_def Let_def by (auto simp: bind_run_Some_Inr split: if_splits)
  from size(1) obtain bytes where "read_file (rp_os renv) fs path = Some bytes" "size = of_nat (length bytes)"
    by (auto simp: FileSizeBytes_def file_size_def split: sum.splits option.splits)
  then show ?thesis using size(2) digest component by (simp add: IsSupportedPackageComponent_def)
qed

text \<open>
  C16: What is uploaded is what is downloaded.  When an upload is answered with 201, the file it moved to
  the repository passes the checks under the name of the upload, the catalogue has it as validated under
  that name, with the version, platform, architecture and build type the checks found, with the number of
  bytes and the digest of that very file, and a GET on its download path is answered with exactly its bytes.
\<close>

theorem uploaded_package_is_served:
  assumes "CommitAgentPackageUpload env request repository staging package_id n w = Some (Inr response, w')"
    and "ho_status response = 201" "hr_method (ax_request ctx) = ''GET''"
  shows "\<exists>storage_path metadata row bytes.
    SafePackageStoragePath repository package_id = Inr storage_path \<and>
    ValidateAgentPackageUpload (ad_repository env) (mc_files w') storage_path (QueryValue request ''filename'' []) =
      Some (Inr metadata) \<and>
    row_by pk_package_id package_id (db_agent_packages (database w')) = Some row \<and>
    pk_status row = ''validated'' \<and> pk_sha256 row = md_sha256 metadata \<and> pk_size_bytes row = of_nat (length bytes) \<and>
    pk_filename row = QueryValue request ''filename'' [] \<and> pk_version row = md_version metadata \<and>
    pk_platform row = md_platform metadata \<and> pk_arch row = md_arch metadata \<and>
    pk_build_type row = md_build_type metadata \<and>
    read_file (rp_os (ad_repository env)) (mc_files w') storage_path = Some bytes \<and>
    Sha256FileHex (rp_digest (ad_repository env)) storage_path (Some bytes) = Inr (md_sha256 metadata) \<and>
    (hr_path (ax_request ctx) = ''/api/v1/packages/'' @ md_component metadata @ ''/'' @ package_id @ ''/download'' \<longrightarrow>
      HandlePackageDownloadApi env ctx w' =
        Some (Inr (Some \<lparr>ho_status = 200, ho_content_type = ''application/zip'', ho_body = string_of_bytes bytes\<rparr>), w'))"
proof -
  obtain storage_path metadata now row where
    path: "SafePackageStoragePath repository package_id = Inr storage_path" and
    valid: "ValidateAgentPackageUpload (ad_repository env) (mc_files w') storage_path (QueryValue request ''filename'' []) =
      Some (Inr metadata)" and
    row: "row_by pk_package_id package_id (db_agent_packages (database w')) = Some row"
      "validated_row metadata package_id (QueryValue request ''filename'' []) storage_path now row"
    using wp_run [OF upload_accepted assms(1)] assms(2) by blast
  obtain bytes where bytes: "read_file (rp_os (ad_repository env)) (mc_files w') storage_path = Some bytes"
      "Sha256FileHex (rp_digest (ad_repository env)) storage_path (Some bytes) = Inr (md_sha256 metadata)"
      "md_component metadata \<in> {''agent'', ''installer''}" "md_size_bytes metadata = of_nat (length bytes)"
    using validated_file [OF valid] by blast
  have fields: "pk_status row = ''validated''" "pk_sha256 row = md_sha256 metadata" "pk_component row = md_component metadata"
      "pk_storage_path row = storage_path" "pk_size_bytes row = of_nat (length bytes)"
      "pk_filename row = QueryValue request ''filename'' []" "pk_version row = md_version metadata"
      "pk_platform row = md_platform metadata" "pk_arch row = md_arch metadata"
      "pk_build_type row = md_build_type metadata"
    using row(2) bytes(4) by (simp_all add: validated_row_def package_columns_def uploaded_record_def)
  have "HandlePackageDownloadApi env ctx w' =
      Some (Inr (Some \<lparr>ho_status = 200, ho_content_type = ''application/zip'', ho_body = string_of_bytes bytes\<rparr>), w')"
    if target: "hr_path (ax_request ctx) = ''/api/v1/packages/'' @ md_component metadata @ ''/'' @ package_id @ ''/download''"
  proof -
    let ?path = "''/api/v1/packages/'' @ (md_component metadata @ ''/'' @ package_id) @ ''/download''"
    have p: "hr_path (ax_request ctx) = ?path" using target by simp
    have "starts_with ?path ''/api/v1/packages/''" "ends_with ?path ''/download''"
      unfolding starts_with_iff ends_with_iff by (blast, metis append_assoc)
    moreover have "path_between ?path ''/api/v1/packages/'' ''/download'' = md_component metadata @ ''/'' @ package_id"
      by (rule path_between_here)
    moreover have "takeWhile (\<lambda>c. c \<noteq> CHR ''/'') (md_component metadata @ ''/'' @ package_id) = md_component metadata"
      "dropWhile (\<lambda>c. c \<noteq> CHR ''/'') (md_component metadata @ ''/'' @ package_id) = CHR ''/'' # package_id"
      using bytes(3) by auto
    moreover obtain package where "FindAgentPackage (ad_ext env) package_id (database w') = Some package"
        "pk_component package = pk_component row" "pk_storage_path package = pk_storage_path row"
      using row(1) by (simp add: FindAgentPackage_def ParseAgentPackageRecord_def package_row.defs)
    ultimately show ?thesis
      unfolding HandlePackageDownloadApi_def p Let_def
      using assms(3) fields bytes(1) by (simp add: answered_def prog_bind_def api_ask_def api_query_def prog_read_def)
  qed
  then show ?thesis using path valid row(1) fields bytes(1,2) by blast
qed

definition demo_upload_request :: http_request where
  "demo_upload_request =
     \<lparr>hr_method = ''POST'', hr_target = [], hr_path = ''/api/v1/admin/packages'',
      hr_query = [(''filename'', ''zfleet_agent-v1.0.0-linux-x64-release.zip'')], hr_body = []\<rparr>"

definition demo_staged :: "admin_world machine" where
  "demo_staged =
     \<lparr>mc_files = [[''s.zip''] \<mapsto> Regular_file demo_upload False],
      mc_rest = \<lparr>aw_ticks = 0, aw_database = fresh_database\<rparr>\<rparr>"

lemma demo_upload_committed:
  "\<exists>response w'. CommitAgentPackageUpload demo_admin demo_upload_request ''/'' ''/s.zip'' ''p'' 235 demo_staged =
     Some (Inr response, w') \<and> ho_status response = 201 \<and> mc_files w' = demo_upload_fs"
proof -
  have dirs: "create_directories demo_env [[''s.zip''] \<mapsto> Regular_file demo_upload False] ''/'' =
      Inr [[''s.zip''] \<mapsto> Regular_file demo_upload False]"
    by (simp add: create_directories_def demo_paths)
  have "move_tree [''s.zip''] [''p.zip''] [[''s.zip''] \<mapsto> Regular_file demo_upload False] = demo_upload_fs"
    by (rule ext) (auto simp: move_tree_def demo_upload_fs_def prefix_def)
  then have moved: "rename_path demo_env [[''s.zip''] \<mapsto> Regular_file demo_upload False] ''/s.zip'' ''/p.zip'' = Inr demo_upload_fs"
    by (simp add: rename_path_def demo_paths node_at_def)
  have path: "SafePackageStoragePath ''/'' ''p'' = Inr ''/p.zip''"
    by (simp add: SafePackageStoragePath_def starts_with_def path_append_def is_absolute_def)
  have name: "QueryValue demo_upload_request ''filename'' [] = ''zfleet_agent-v1.0.0-linux-x64-release.zip''"
    by (simp add: QueryValue_def demo_upload_request_def)
  have env: "rp_os demo_repository = demo_env" "ad_repository demo_admin = demo_repository"
      "jl_dump (rp_json demo_repository) j = Inr ''{}''" "ext_audit_payload (ad_ext demo_admin) fs = Inr ''{}''" for j fs
    by (simp_all add: demo_admin_def demo_repository_def demo_json_def demo_admin_ext_def demo_ext_def)
  show ?thesis
    by (simp add: CommitAgentPackageUpload_def Let_def api_catch_def prog_catch_def prog_bind_def prog_act_def act_change_def
        api_tick_def api_run_def api_db_def UpsertAgentPackage_def submit_write_def audited_def RecordAdminAudit_def
        RecordAuditEvent_def insert_audit_def rows_insert_def JsonResponse_def demo_staged_def dirs moved path name env
        demo_upload_valid)
qed

theorem uploaded_package_is_served_witness:
  "\<exists>response w' bytes. CommitAgentPackageUpload demo_admin demo_upload_request ''/'' ''/s.zip'' ''p'' 235 demo_staged =
       Some (Inr response, w') \<and>
     HandlePackageDownloadApi demo_admin (demo_context ''GET'' ''/api/v1/packages/agent/p/download'' False) w' =
       Some (Inr (Some \<lparr>ho_status = 200, ho_content_type = ''application/zip'', ho_body = string_of_bytes bytes\<rparr>), w')"
proof -
  obtain response w' where run: "CommitAgentPackageUpload demo_admin demo_upload_request ''/'' ''/s.zip'' ''p'' 235 demo_staged =
      Some (Inr response, w')" "ho_status response = 201"
      and files: "mc_files w' = demo_upload_fs"
    using demo_upload_committed by blast
  have get: "hr_method (ax_request (demo_context ''GET'' ''/api/v1/packages/agent/p/download'' False)) = ''GET''"
    and path: "hr_path (ax_request (demo_context ''GET'' ''/api/v1/packages/agent/p/download'' False)) =
      ''/api/v1/packages/agent/p/download''"
    by (simp_all add: demo_context_def)
  have known: "SafePackageStoragePath ''/'' ''p'' = Inr ''/p.zip''"
      "QueryValue demo_upload_request ''filename'' [] = ''zfleet_agent-v1.0.0-linux-x64-release.zip''"
      "ad_repository demo_admin = demo_repository" "md_component demo_metadata = ''agent''"
    by (simp_all add: SafePackageStoragePath_def starts_with_def path_append_def is_absolute_def QueryValue_def
        demo_upload_request_def demo_admin_def demo_metadata_def)
  show ?thesis
    using uploaded_package_is_served [OF run get] run(1)
    by (auto simp: known files demo_upload_valid path)
qed

end
