(* ===== verification/Admin_Packages.thy ===== *)
theory Admin_Packages
  imports Admin_Uploads
begin

section \<open>The life of a package behind the admin interface\<close>

text \<open>
  The operations of the database set the status of a package to whatever they are told; the handlers
  alone decide when.  What a request of the admin interface can do to the status of a package is shown
  here: from which status to which, by which request, and to no other package.
\<close>

definition status_in :: "string \<Rightarrow> package_row list \<Rightarrow> string option" where
  "status_in package_id rows = map_option pk_status (row_by pk_package_id package_id rows)"



subsection \<open>The operations\<close>







text \<open>At most one package changes its status, as the relation allows.\<close>

definition at_most :: "(string option \<Rightarrow> string option \<Rightarrow> bool) \<Rightarrow> string \<Rightarrow> package_row list \<Rightarrow> package_row list \<Rightarrow> bool" where
  "at_most R p rows rows' \<longleftrightarrow>
     (\<forall>i. status_in i rows' = status_in i rows \<or> i = p \<and> R (status_in i rows) (status_in i rows'))"

lemma at_most_refl [simp]: "at_most R p rows rows"
  by (simp add: at_most_def)




subsection \<open>The handlers\<close>

abbreviation rows_of :: "admin_world machine \<Rightarrow> package_row list" where
  "rows_of w \<equiv> db_agent_packages (database w)"


lemma wp_kept:
  assumes "api_moves (keeps package_tables) m"
    and "\<And>x w'. rows_of w' = rows_of w \<Longrightarrow> Q x w'" "\<And>w'. rows_of w' = rows_of w \<Longrightarrow> E w'"
  shows "wp m Q E w"
  using assms unfolding wp_def api_moves_def keeps_def package_tables_def
  by (auto split: option.split prod.split sum.split)



definition status_moves :: "(string option \<Rightarrow> string option \<Rightarrow> bool) \<Rightarrow> string \<Rightarrow> (admin_world, 'a) prog \<Rightarrow> bool" where
  "status_moves R p m \<longleftrightarrow>
     (\<forall>w. wp m (\<lambda>_ w'. at_most R p (rows_of w) (rows_of w')) (\<lambda>w'. at_most R p (rows_of w) (rows_of w')) w)"

text \<open>A program that does not change the packages does nothing to their status.\<close>

lemma status_same: "api_moves (keeps package_tables) m \<Longrightarrow> status_moves R p m"
  unfolding status_moves_def by (auto intro: wp_kept)




subsection \<open>Every request\<close>







end
