(* ===== verification/Admin_Session.thy ===== *)
theory Admin_Session
  imports Admin_Uploads
begin

section \<open>apps/server: one connection of the admin interface (ManagementHttpSession)\<close>

text \<open>
  A session reads one request, answers it and closes.  Its handlers run on a strand, one after the other;
  an operation that was started has exactly one completion, whose error code Boost chooses (a timer that
  was cancelled may still complete without an error when its handler was already queued).  Whether the
  parser is done, and the bytes it delivers, come with the completion.  The world is the session and the
  world of the handlers of the API.
\<close>

datatype management_operation = Read_header | Read_some | Wait_timer | Write_output

datatype beast_error =
    No_error | Header_limit | Body_limit | End_of_stream | Operation_aborted | Need_buffer | Other_error

record management_session =
  ms_request :: http_request
  ms_staging_stream :: "u8 list option"
  ms_staging_path :: string
  ms_package_id :: string
  ms_uploaded_bytes :: nat
  ms_streaming_upload :: bool
  ms_responding :: bool
  ms_output :: "http_response option"
  ms_socket_open :: bool
  ms_operations :: "management_operation list"

record management_world =
  mw_session :: management_session
  mw_api :: admin_world

type_synonym 'a management = "(management_world, 'a) prog"

definition new_management_session :: management_session where
  "new_management_session =
     \<lparr>ms_request = \<lparr>hr_method = [], hr_target = [], hr_path = [], hr_query = [], hr_body = []\<rparr>,
      ms_staging_stream = None, ms_staging_path = [], ms_package_id = [], ms_uploaded_bytes = 0,
      ms_streaming_upload = False, ms_responding = False, ms_output = None, ms_socket_open = True,
      ms_operations = []\<rparr>"

definition with_session :: "(management_session \<Rightarrow> 'a management) \<Rightarrow> 'a management" where
  "with_session f w = f (mw_session (mc_rest w)) w"

definition set_session :: "(management_session \<Rightarrow> management_session) \<Rightarrow> unit management" where
  "set_session f w = Some (Inr (), w\<lparr>mc_rest := (mc_rest w)\<lparr>mw_session := f (mw_session (mc_rest w))\<rparr>\<rparr>)"

definition begin_operation :: "management_operation \<Rightarrow> unit management" where
  "begin_operation operation = set_session (\<lambda>s. s\<lparr>ms_operations := ms_operations s @ [operation]\<rparr>)"

definition in_api :: "(admin_world, 'a) prog \<Rightarrow> 'a management" where
  "in_api m w =
     (case m \<lparr>mc_files = mc_files w, mc_rest = mw_api (mc_rest w)\<rparr> of
        None \<Rightarrow> None
      | Some (r, v) \<Rightarrow> Some (r, \<lparr>mc_files = mc_files v, mc_rest = (mc_rest w)\<lparr>mw_api := mc_rest v\<rparr>\<rparr>))"

definition ArmTimeout :: "unit management" where
  "ArmTimeout = begin_operation Wait_timer"

definition Respond :: "http_response \<Rightarrow> unit management" where
  "Respond response =
     with_session (\<lambda>s.
       if ms_responding s then prog_return ()
       else
         prog_bind (set_session (\<lambda>s. s\<lparr>ms_responding := True, ms_output := Some response\<rparr>)) (\<lambda>_.
         begin_operation Write_output))"

definition respond_error ::
    "('c, 'd, 'i) admin_env \<Rightarrow> int \<Rightarrow> string \<Rightarrow> string \<Rightarrow> unit management" where
  "respond_error env status code message =
     prog_bind (in_api (ErrorResponse env status code message)) Respond"

definition Close_management :: "('c, 'd, 'i) admin_env \<Rightarrow> unit management" where
  "Close_management env =
     with_session (\<lambda>s.
       prog_bind (set_session (\<lambda>s. s\<lparr>ms_staging_stream := None\<rparr>)) (\<lambda>_.
       prog_bind (if ms_streaming_upload s \<and> ms_staging_path s \<noteq> [] then in_api (api_remove env (ms_staging_path s))
                  else prog_return ()) (\<lambda>_.
       set_session (\<lambda>s. s\<lparr>ms_socket_open := False\<rparr>))))"

text \<open>The destructor, which runs when no operation is outstanding.\<close>

definition destroy_management :: "('c, 'd, 'i) admin_env \<Rightarrow> unit management" where
  "destroy_management env =
     with_session (\<lambda>s.
       prog_bind (set_session (\<lambda>s. s\<lparr>ms_staging_stream := None\<rparr>)) (\<lambda>_.
       if ms_staging_path s \<noteq> [] then in_api (api_remove env (ms_staging_path s)) else prog_return ()))"

definition StartOnStrand :: "unit management" where
  "StartOnStrand = prog_bind ArmTimeout (\<lambda>_. begin_operation Read_header)"

definition OnTimer :: "('c, 'd, 'i) admin_env \<Rightarrow> beast_error \<Rightarrow> unit management" where
  "OnTimer env error =
     (if error = No_error then respond_error env 408 ''request_timeout'' ''request timed out'' else prog_return ())"

text \<open>Opening the staging file; the result is whether it is open.\<close>

definition OpenStagingFile :: "('c, 'd, 'i) admin_env \<Rightarrow> string \<Rightarrow> bool management" where
  "OpenStagingFile env package_repository =
     prog_bind (in_api (api_tick (ad_uuid env))) (\<lambda>package_id.
     let os = rp_os (ad_repository env);
         staging_path = path_append (path_append package_repository ''.staging'') (package_id @ ''.zip'') in
     prog_bind (set_session (\<lambda>s. s\<lparr>ms_package_id := package_id, ms_staging_path := staging_path\<rparr>)) (\<lambda>_.
     prog_bind (prog_catch
       (prog_bind (prog_act (act_change (\<lambda>fs. create_directories os fs (parent_path staging_path)))) (\<lambda>_.
        prog_read (\<lambda>fs. Inr (Some (write_file os fs staging_path [])))))
       (\<lambda>ex. prog_bind (respond_error env 500 ''package_staging_failed'' (what ex)) (\<lambda>_. prog_return None))) (\<lambda>tried.
     case tried of
       None \<Rightarrow> prog_return False
     | Some None \<Rightarrow>
         prog_bind (respond_error env 500 ''package_staging_failed'' ''failed to open package staging file'') (\<lambda>_.
         prog_return False)
     | Some (Some fs) \<Rightarrow>
         prog_bind (prog_act (act_change (\<lambda>_. Inr fs))) (\<lambda>_.
         prog_bind (set_session (\<lambda>s. s\<lparr>ms_staging_stream := Some []\<rparr>)) (\<lambda>_.
         prog_return True)))))"

definition Dispatch :: "('c, 'd, 'i) admin_env \<Rightarrow> string \<Rightarrow> api_context \<Rightarrow> unit management" where
  "Dispatch env static_files options =
     with_session (\<lambda>s.
       prog_catch
         (prog_bind
            (in_api
              (if ms_streaming_upload s
               then CommitAgentPackageUpload env (ms_request s) (ax_package_repository options) (ms_staging_path s)
                      (ms_package_id s) (ms_uploaded_bytes s)
               else RouteRequest env static_files (options\<lparr>ax_request := ms_request s\<rparr>)))
            Respond)
         (\<lambda>ex. case ex of
            Undefined_behaviour u \<Rightarrow> prog_throw ex
          | _ \<Rightarrow> respond_error env 500 ''internal_error'' (what ex)))"

definition FinishBody :: "('c, 'd, 'i) admin_env \<Rightarrow> string \<Rightarrow> api_context \<Rightarrow> unit management" where
  "FinishBody env static_files options =
     prog_bind (set_session (\<lambda>s. if ms_streaming_upload s then s\<lparr>ms_staging_stream := None\<rparr> else s)) (\<lambda>_.
     Dispatch env static_files options)"

definition ReadBody :: "('c, 'd, 'i) admin_env \<Rightarrow> string \<Rightarrow> api_context \<Rightarrow> bool \<Rightarrow> unit management" where
  "ReadBody env static_files options is_done =
     (if is_done then FinishBody env static_files options else begin_operation Read_some)"

definition OnHeader ::
    "('c, 'd, 'i) admin_env \<Rightarrow> string \<Rightarrow> api_context \<Rightarrow> beast_error \<Rightarrow> string \<Rightarrow> string \<Rightarrow> string \<Rightarrow> bool \<Rightarrow> unit management" where
  "OnHeader env static_files options error message verb target is_done =
     with_session (\<lambda>s.
       if ms_responding s then prog_return ()
       else if error = Header_limit
       then respond_error env 431 ''headers_too_large'' ''request headers exceed size limit''
       else if error = Body_limit
       then respond_error env 413 ''body_too_large'' ''request body exceeds size limit''
       else if error = End_of_stream \<or> error = Operation_aborted then Close_management env
       else if error \<noteq> No_error then respond_error env 400 ''invalid_request'' message
       else
         let request = ToApplicationRequest verb target;
             streaming = (hr_method request = ''POST'' \<and> hr_path request = ''/api/v1/admin/packages'') in
         prog_bind (set_session (\<lambda>s. s\<lparr>ms_request := request, ms_streaming_upload := streaming \<or> ms_streaming_upload s\<rparr>)) (\<lambda>_.
         prog_bind (if streaming then OpenStagingFile env (ax_package_repository options) else prog_return True) (\<lambda>proceed.
         if \<not> proceed then prog_return ()
         else prog_bind ArmTimeout (\<lambda>_. ReadBody env static_files options is_done))))"

text \<open>The bytes of a chunk go to the staging file or to the body; the result is whether to go on.\<close>

definition store_chunk :: "('c, 'd, 'i) admin_env \<Rightarrow> u8 list \<Rightarrow> bool management" where
  "store_chunk env bytes =
     with_session (\<lambda>s.
       if bytes = [] then prog_return True
       else if ms_streaming_upload s then
         prog_bind (set_session (\<lambda>s. s\<lparr>ms_uploaded_bytes := ms_uploaded_bytes s + length bytes\<rparr>)) (\<lambda>_.
         prog_bind (prog_read (\<lambda>fs. Inr
           (case ms_staging_stream s of
              None \<Rightarrow> None
            | Some written \<Rightarrow>
                map_option (Pair (written @ bytes))
                  (write_file (rp_os (ad_repository env)) fs (ms_staging_path s) (written @ bytes))))) (\<lambda>written.
         case written of
           None \<Rightarrow>
             prog_bind (respond_error env 500 ''package_staging_failed'' ''failed to write package staging file'') (\<lambda>_.
             prog_return False)
         | Some (data, fs) \<Rightarrow>
             prog_bind (prog_act (act_change (\<lambda>_. Inr fs))) (\<lambda>_.
             prog_bind (set_session (\<lambda>s. s\<lparr>ms_staging_stream := Some data\<rparr>)) (\<lambda>_.
             prog_return True))))
       else
         prog_bind (set_session (\<lambda>s. s\<lparr>ms_request :=
             (ms_request s)\<lparr>hr_body := hr_body (ms_request s) @ string_of_bytes bytes\<rparr>\<rparr>)) (\<lambda>_.
         prog_return True))"

definition OnBodyChunk ::
    "('c, 'd, 'i) admin_env \<Rightarrow> string \<Rightarrow> api_context \<Rightarrow> beast_error \<Rightarrow> string \<Rightarrow> u8 list \<Rightarrow> bool \<Rightarrow> unit management" where
  "OnBodyChunk env static_files options error message bytes is_done =
     with_session (\<lambda>s.
       if ms_responding s then prog_return ()
       else
         prog_bind (store_chunk env bytes) (\<lambda>proceed.
         if \<not> proceed then prog_return ()
         else if error = Body_limit
         then respond_error env 413 ''body_too_large'' ''request body exceeds size limit''
         else if error = Operation_aborted then Close_management env
         else if error \<noteq> No_error \<and> error \<noteq> Need_buffer then respond_error env 400 ''invalid_request'' message
         else if is_done then FinishBody env static_files options
         else ReadBody env static_files options is_done))"

subsection \<open>How a session runs\<close>

abbreviation operations :: "management_world machine \<Rightarrow> management_operation list" where
  "operations w \<equiv> ms_operations (mw_session (mc_rest w))"

definition finished_operation :: "management_operation \<Rightarrow> management_world machine \<Rightarrow> management_world machine" where
  "finished_operation operation w =
     w\<lparr>mc_rest := (mc_rest w)\<lparr>mw_session := (mw_session (mc_rest w))\<lparr>ms_operations := remove1 operation (operations w)\<rparr>\<rparr>\<rparr>"

inductive management_step ::
    "('c, 'd, 'i) admin_env \<Rightarrow> string \<Rightarrow> api_context \<Rightarrow> management_world machine \<Rightarrow> management_world machine \<Rightarrow> bool"
    for env :: "('c, 'd, 'i) admin_env" and static_files :: string and options :: api_context where
  header_completes:
    "\<lbrakk>Read_header \<in> set (operations w);
      OnHeader env static_files options error message verb target is_done (finished_operation Read_header w) = Some (Inr (), w')\<rbrakk>
     \<Longrightarrow> management_step env static_files options w w'"
| chunk_completes:
    "\<lbrakk>Read_some \<in> set (operations w);
      OnBodyChunk env static_files options error message bytes is_done (finished_operation Read_some w) = Some (Inr (), w')\<rbrakk>
     \<Longrightarrow> management_step env static_files options w w'"
| timer_completes:
    "\<lbrakk>Wait_timer \<in> set (operations w); OnTimer env error (finished_operation Wait_timer w) = Some (Inr (), w')\<rbrakk>
     \<Longrightarrow> management_step env static_files options w w'"
| write_completes:
    "\<lbrakk>Write_output \<in> set (operations w);
      Close_management env (finished_operation Write_output w) = Some (Inr (), w')\<rbrakk>
     \<Longrightarrow> management_step env static_files options w w'"

text \<open>Between two steps other connections may change the database and the files.\<close>

inductive management_reaches ::
    "('c, 'd, 'i) admin_env \<Rightarrow> string \<Rightarrow> api_context \<Rightarrow> management_world machine \<Rightarrow> bool"
    for env :: "('c, 'd, 'i) admin_env" and static_files :: string and options :: api_context where
  session_starts:
    "StartOnStrand \<lparr>mc_files = fs, mc_rest = \<lparr>mw_session = new_management_session, mw_api = api\<rparr>\<rparr> = Some (Inr (), w)
     \<Longrightarrow> management_reaches env static_files options w"
| session_steps:
    "\<lbrakk>management_reaches env static_files options w; management_step env static_files options w w'\<rbrakk>
     \<Longrightarrow> management_reaches env static_files options w'"
| world_changes:
    "management_reaches env static_files options \<lparr>mc_files = fs, mc_rest = \<lparr>mw_session = s, mw_api = api\<rparr>\<rparr>
     \<Longrightarrow> management_reaches env static_files options \<lparr>mc_files = fs', mc_rest = \<lparr>mw_session = s, mw_api = api'\<rparr>\<rparr>"

subsection \<open>One request, one answer\<close>

abbreviation responding :: "management_world machine \<Rightarrow> bool" where
  "responding w \<equiv> ms_responding (mw_session (mc_rest w))"

abbreviation session_database :: "management_world machine \<Rightarrow> server_database" where
  "session_database w \<equiv> aw_database (mw_api (mc_rest w))"

definition writes :: "management_world machine \<Rightarrow> nat" where
  "writes w = count_list (operations w) Write_output"

text \<open>
  What a handler may do: an answer that was given stays, the database only changes when the answer is
  given, and one write is started for it.
\<close>

definition answers_once :: "management_world machine \<Rightarrow> management_world machine \<Rightarrow> bool" where
  "answers_once w w' \<longleftrightarrow>
     (responding w \<longrightarrow> responding w' \<and> ms_output (mw_session (mc_rest w')) = ms_output (mw_session (mc_rest w)) \<and>
        session_database w' = session_database w) \<and>
     (session_database w' = session_database w \<or> responding w') \<and>
     (responding w' \<and> \<not> responding w \<longrightarrow> ms_output (mw_session (mc_rest w')) \<noteq> None) \<and>
     (\<not> responding w' \<longrightarrow> ms_output (mw_session (mc_rest w')) = ms_output (mw_session (mc_rest w))) \<and>
     writes w' + of_bool (responding w) = writes w + of_bool (responding w')"

lemma answers_once_refl [simp]: "answers_once w w"
  by (simp add: answers_once_def)

lemma answers_once_trans: "\<lbrakk>answers_once a b; answers_once b c\<rbrakk> \<Longrightarrow> answers_once a c"
  unfolding answers_once_def by (auto split: if_splits) metis+

definition sound :: "'a management \<Rightarrow> bool" where
  "sound m \<longleftrightarrow> (\<forall>w. wp m (\<lambda>_ w'. answers_once w w') (\<lambda>_. True) w)"

lemma wp_management [simp]:
  "wp (with_session f) Q E w = wp (f (mw_session (mc_rest w))) Q E w"
  "wp (set_session g) R E' w = R () (w\<lparr>mc_rest := (mc_rest w)\<lparr>mw_session := g (mw_session (mc_rest w))\<rparr>\<rparr>)"
  "wp (begin_operation operation) S E'' w =
     S () (w\<lparr>mc_rest := (mc_rest w)\<lparr>mw_session := (mw_session (mc_rest w))\<lparr>ms_operations := operations w @ [operation]\<rparr>\<rparr>\<rparr>)"
  by (simp_all add: wp_def with_session_def set_session_def begin_operation_def)

lemma soundI: "(\<And>w. wp m (\<lambda>_ w'. answers_once w w') (\<lambda>_. True) w) \<Longrightarrow> sound m"
  by (simp add: sound_def)

lemma sound_wp:
  assumes "sound m" "\<And>x w'. answers_once w w' \<Longrightarrow> Q x w'"
  shows "wp m Q (\<lambda>_. True) w"
proof (rule wp_mono)
  show "wp m (\<lambda>_ w'. answers_once w w') (\<lambda>_. True) w" using assms(1) by (simp add: sound_def)
qed (use assms(2) in auto)

lemma sound_bind: "\<lbrakk>sound m; \<And>x. sound (f x)\<rbrakk> \<Longrightarrow> sound (prog_bind m f)"
  by (rule soundI) (auto intro!: sound_wp intro: answers_once_trans)

lemma sound_with: "(\<And>s. sound (f s)) \<Longrightarrow> sound (with_session f)"
  by (simp add: sound_def)

lemma sound_if: "\<lbrakk>b \<Longrightarrow> sound m; \<not> b \<Longrightarrow> sound n\<rbrakk> \<Longrightarrow> sound (if b then m else n)"
  by simp

lemma sound_option: "\<lbrakk>sound m; \<And>y. sound (n y)\<rbrakk> \<Longrightarrow> sound (case x of None \<Rightarrow> m | Some y \<Rightarrow> n y)"
  by (cases x) simp_all

lemma sound_pair: "(\<And>a b. sound (f a b)) \<Longrightarrow> sound (case p of (a, b) \<Rightarrow> f a b)"
  by (cases p) simp

lemma sound_pure: "sound (prog_return x)" "sound (prog_read q)" "sound (prog_act a)"
  by (rule soundI; auto simp: wp_def prog_act_def answers_once_def writes_def split: prod.split sum.split)+

lemma sound_set:
  "(\<And>s. ms_responding (f s) = ms_responding s \<and> ms_output (f s) = ms_output s \<and> ms_operations (f s) = ms_operations s)
   \<Longrightarrow> sound (set_session f)"
  by (rule soundI) (simp add: answers_once_def writes_def)

lemma sound_begin: "operation \<noteq> Write_output \<Longrightarrow> sound (begin_operation operation)"
  by (rule soundI) (auto simp: answers_once_def writes_def)

lemma sound_respond: "sound (Respond response)"
  by (rule soundI) (simp add: Respond_def answers_once_def writes_def)

text \<open>A program of the API that leaves the database alone.\<close>

lemma wp_in_api:
  assumes "\<And>r v. m \<lparr>mc_files = mc_files w, mc_rest = mw_api (mc_rest w)\<rparr> = Some (r, v) \<Longrightarrow>
    (case r of Inl ex \<Rightarrow> E | Inr x \<Rightarrow> Q x) \<lparr>mc_files = mc_files v, mc_rest = (mc_rest w)\<lparr>mw_api := mc_rest v\<rparr>\<rparr>"
  shows "wp (in_api m) Q E w"
  using assms by (auto simp: wp_def in_api_def split: option.split prod.split sum.splits)

lemma error_keeps: "ErrorResponse env status code message w = Some (r, w') \<Longrightarrow> database w' = database w"
  by (auto simp: ErrorResponse_def JsonResponse_def prog_bind_def api_tick_def split: sum.splits)

lemma remove_keeps: "api_remove env path w = Some (r, w') \<Longrightarrow> database w' = database w"
  by (auto simp: api_remove_def split: sum.splits)

lemma tick_keeps: "api_tick f w = Some (r, w') \<Longrightarrow> database w' = database w"
  by (auto simp: api_tick_def)

lemma sound_in_api:
  assumes "\<And>w r w'. m w = Some (r, w') \<Longrightarrow> database w' = database w"
  shows "sound (in_api m)"
proof (rule soundI, rule wp_in_api)
  fix w :: "management_world machine" and r v
  assume "m \<lparr>mc_files = mc_files w, mc_rest = mw_api (mc_rest w)\<rparr> = Some (r, v)"
  from assms [OF this] show "(case r of Inl ex \<Rightarrow> \<lambda>_. True | Inr x \<Rightarrow> answers_once w)
      \<lparr>mc_files = mc_files v, mc_rest = (mc_rest w)\<lparr>mw_api := mc_rest v\<rparr>\<rparr>"
    by (simp add: answers_once_def writes_def split: sum.split)
qed

lemmas sound_api = sound_in_api [OF error_keeps] sound_in_api [OF remove_keeps] sound_in_api [OF tick_keeps]

lemma sound_error: "sound (respond_error env status code message)"
  unfolding respond_error_def by (intro sound_bind sound_api sound_respond)

lemma sound_close: "sound (Close_management env)"
  unfolding Close_management_def by (intro sound_with sound_bind sound_if sound_api sound_pure sound_set) simp_all

lemma sound_timer: "sound (OnTimer env error)"
  unfolding OnTimer_def by (intro sound_if sound_error sound_pure)

text \<open>Giving an answer makes up for whatever the request did to the database.\<close>

lemma wp_answer:
  assumes "\<not> responding w" "responding w1 = responding w" "writes w1 = writes w"
  shows "wp (Respond response) (\<lambda>_ w'. answers_once w w') (\<lambda>_. True) w1"
  using assms by (simp add: Respond_def answers_once_def writes_def)

lemma wp_dispatch:
  assumes "\<not> responding w"
  shows "wp (Dispatch env static_files options) (\<lambda>_ w'. answers_once w w') (\<lambda>_. True) w"
proof -
  let ?same = "\<lambda>w1. responding w1 = responding w \<and> writes w1 = writes w"
  have answered: "wp (Respond response) (\<lambda>_ w'. answers_once w w') (\<lambda>w'. True) w1" if "?same w1" for response w1
    using wp_answer [OF assms] that by blast
  have tried: "wp (prog_bind (in_api m) Respond) (\<lambda>_ w'. answers_once w w') ?same w" for m :: "(admin_world, http_response) prog"
    unfolding wp_bind
  proof (rule wp_in_api)
    fix r v
    show "(case r of Inl ex \<Rightarrow> ?same | Inr response \<Rightarrow> wp (Respond response) (\<lambda>_ w'. answers_once w w') ?same)
        \<lparr>mc_files = mc_files v, mc_rest = (mc_rest w)\<lparr>mw_api := mc_rest v\<rparr>\<rparr>"
      using assms by (simp add: writes_def Respond_def answers_once_def split: sum.split)
  qed
  have caught: "wp (respond_error env status code message) (\<lambda>_ w'. answers_once w w') (\<lambda>_. True) w1" if "?same w1" for status code message w1
    unfolding respond_error_def wp_bind
  proof (rule wp_in_api)
    fix r v
    show "(case r of Inl ex \<Rightarrow> \<lambda>_. True | Inr response \<Rightarrow> wp (Respond response) (\<lambda>_ w'. answers_once w w') (\<lambda>_. True))
        \<lparr>mc_files = mc_files v, mc_rest = (mc_rest w1)\<lparr>mw_api := mc_rest v\<rparr>\<rparr>"
      using that answered by (simp add: writes_def split: sum.split)
  qed
  show ?thesis
    unfolding Dispatch_def wp_management
  proof (rule wp_catch, rule wp_mono [OF tried])
    fix w1 assume "?same w1"
    then show "\<forall>ex. wp (case ex of Undefined_behaviour u \<Rightarrow> prog_throw ex
        | _ \<Rightarrow> respond_error env 500 ''internal_error'' (what ex)) (\<lambda>_ w'. answers_once w w') (\<lambda>_. True) w1"
      using caught by (simp split: exn.split)
  qed
qed

text \<open>
  The steps before the dispatch: when their result says to go on, the session is as far as it was.
\<close>

definition proceeds_when :: "('a \<Rightarrow> bool) \<Rightarrow> 'a management \<Rightarrow> bool" where
  "proceeds_when p m \<longleftrightarrow>
     (\<forall>w. wp m (\<lambda>x w'. answers_once w w' \<and> (p x \<longrightarrow> responding w' = responding w)) (\<lambda>_. True) w)"

lemma proceedsI:
  assumes "\<And>w. wp m (\<lambda>x w'. answers_once w w' \<and> (p x \<longrightarrow> responding w' = responding w)) (\<lambda>_. True) w"
  shows "proceeds_when p m"
  using assms by (simp add: proceeds_when_def)

lemma wp_proceeds:
  assumes "proceeds_when p m"
    "\<And>x w'. answers_once w w' \<Longrightarrow> (p x \<Longrightarrow> responding w' = responding w) \<Longrightarrow> Q x w'"
  shows "wp m Q (\<lambda>_. True) w"
proof (rule wp_mono)
  show "wp m (\<lambda>x w'. answers_once w w' \<and> (p x \<longrightarrow> responding w' = responding w)) (\<lambda>_. True) w"
    using assms(1) by (simp add: proceeds_when_def)
qed (use assms(2) in auto)

lemma proceeds_bind:
  assumes "proceeds_when p m" "\<And>x. p x \<Longrightarrow> proceeds_when q (f x)"
    "\<And>x. \<not> p x \<Longrightarrow> (\<exists>y. f x = prog_return y \<and> \<not> q y)"
  shows "proceeds_when q (prog_bind m f)"
proof (rule proceedsI, unfold wp_bind, rule wp_proceeds [OF assms(1)])
  fix w x w1
  assume w1: "answers_once w w1" "p x \<Longrightarrow> responding w1 = responding w"
  show "wp (f x) (\<lambda>y w'. answers_once w w' \<and> (q y \<longrightarrow> responding w' = responding w)) (\<lambda>_. True) w1"
  proof (cases "p x")
    case True
    show ?thesis
      by (rule wp_proceeds [OF assms(2) [OF True]]) (use w1 True in \<open>auto intro: answers_once_trans\<close>)
  next
    case False
    then show ?thesis using assms(3) [OF False] w1 by auto
  qed
qed

lemma proceeds_quiet:
  "\<lbrakk>proceeds_when (\<lambda>_. True) m; \<And>x. proceeds_when q (f x)\<rbrakk> \<Longrightarrow> proceeds_when q (prog_bind m f)"
  by (rule proceeds_bind [where p = "\<lambda>_. True"]) auto

lemma proceeds_stop: "\<lbrakk>sound m; \<not> q y\<rbrakk> \<Longrightarrow> proceeds_when q (prog_bind m (\<lambda>_. prog_return y))"
  by (rule proceeds_bind [where p = "\<lambda>_. False"]) (auto simp: sound_def proceeds_when_def)

lemma proceeds_return: "proceeds_when q (prog_return x)"
  by (simp add: proceeds_when_def)

lemma proceeds_if: "\<lbrakk>b \<Longrightarrow> proceeds_when q m; \<not> b \<Longrightarrow> proceeds_when q n\<rbrakk> \<Longrightarrow> proceeds_when q (if b then m else n)"
  by simp

lemma proceeds_option:
  "\<lbrakk>proceeds_when q m; \<And>y. proceeds_when q (n y)\<rbrakk> \<Longrightarrow> proceeds_when q (case x of None \<Rightarrow> m | Some y \<Rightarrow> n y)"
  by (cases x) simp_all

lemma proceeds_pair: "(\<And>a b. proceeds_when q (f a b)) \<Longrightarrow> proceeds_when q (case x of (a, b) \<Rightarrow> f a b)"
  by (cases x) simp

lemma proceeds_with: "(\<And>s. proceeds_when q (f s)) \<Longrightarrow> proceeds_when q (with_session f)"
  by (simp add: proceeds_when_def)

lemma proceeds_set:
  "(\<And>s. ms_responding (f s) = ms_responding s \<and> ms_output (f s) = ms_output s \<and> ms_operations (f s) = ms_operations s)
   \<Longrightarrow> proceeds_when q (set_session f)"
  by (rule proceedsI) (simp add: answers_once_def writes_def)

lemma proceeds_pure: "proceeds_when p (prog_read q)" "proceeds_when p (prog_act a)"
  by (rule proceedsI; auto simp: wp_def prog_act_def answers_once_def writes_def split: prod.split sum.split)+

lemma proceeds_tick: "proceeds_when p (in_api (api_tick f))"
proof (rule proceedsI, rule wp_in_api)
  fix w :: "management_world machine" and r v
  assume "api_tick f \<lparr>mc_files = mc_files w, mc_rest = mw_api (mc_rest w)\<rparr> = Some (r, v)"
  from tick_keeps [OF this] show "(case r of Inl ex \<Rightarrow> \<lambda>_. True
      | Inr x \<Rightarrow> \<lambda>w'. answers_once w w' \<and> (p x \<longrightarrow> responding w' = responding w))
      \<lparr>mc_files = mc_files v, mc_rest = (mc_rest w)\<lparr>mw_api := mc_rest v\<rparr>\<rparr>"
    by (simp add: answers_once_def writes_def split: sum.split)
qed

text \<open>Catching an error of the file system, which leaves the session alone, and stopping with an answer.\<close>

definition only_files :: "'a management \<Rightarrow> bool" where
  "only_files m \<longleftrightarrow> (\<forall>w r w'. m w = Some (r, w') \<longrightarrow> mc_rest w' = mc_rest w)"

lemma only_files_act: "only_files (prog_act a)" "only_files (prog_read q)"
  by (auto simp: only_files_def prog_act_def prog_read_def split: prod.splits)

lemma only_files_bind: "\<lbrakk>only_files m; \<And>x. only_files (f x)\<rbrakk> \<Longrightarrow> only_files (prog_bind m f)"
  by (auto simp: only_files_def prog_bind_def split: option.splits prod.splits sum.splits; metis)

lemma same_rest: "mc_rest w' = mc_rest w \<Longrightarrow> answers_once w w'"
  by (simp add: answers_once_def writes_def)

lemma proceeds_catch:
  assumes "only_files m" "\<And>ex. sound (h ex)" "\<not> q y"
  shows "proceeds_when q (prog_catch m (\<lambda>ex. prog_bind (h ex) (\<lambda>_. prog_return y)))"
proof (rule proceedsI, rule wp_catch)
  fix w :: "management_world machine"
  have stop: "wp (prog_bind (h ex) (\<lambda>_. prog_return y))
      (\<lambda>x w'. answers_once w w' \<and> (q x \<longrightarrow> responding w' = responding w)) (\<lambda>_. True) w1"
    if "mc_rest w1 = mc_rest w" for ex w1
    using sound_wp [OF assms(2)] assms(3) same_rest [OF that] by (auto intro!: sound_wp [OF assms(2)] intro: answers_once_trans)
  have "wp m (\<lambda>x w'. mc_rest w' = mc_rest w) (\<lambda>w'. mc_rest w' = mc_rest w) w"
    using assms(1) by (auto simp: wp_def only_files_def split: option.split sum.split)
  then show "wp m (\<lambda>x w'. answers_once w w' \<and> (q x \<longrightarrow> responding w' = responding w))
      (\<lambda>w'. \<forall>ex. wp (prog_bind (h ex) (\<lambda>_. prog_return y))
        (\<lambda>x w'. answers_once w w' \<and> (q x \<longrightarrow> responding w' = responding w)) (\<lambda>_. True) w') w"
    by (rule wp_mono) (auto simp: same_rest simp del: wp_bind intro: stop)
qed

lemma proceeds_store: "proceeds_when (\<lambda>go. go) (store_chunk env bytes)"
  unfolding store_chunk_def
  by (intro proceeds_with proceeds_if proceeds_return proceeds_option proceeds_pair
      proceeds_quiet [OF proceeds_set] proceeds_quiet [OF proceeds_pure(1)] proceeds_quiet [OF proceeds_pure(2)]
      proceeds_stop sound_error) simp_all

lemma proceeds_open: "proceeds_when (\<lambda>go. go) (OpenStagingFile env package_repository)"
proof -
  let ?rest = "\<lambda>tried. case tried of None \<Rightarrow> prog_return False
     | Some None \<Rightarrow>
         prog_bind (respond_error env 500 ''package_staging_failed'' ''failed to open package staging file'') (\<lambda>_.
         prog_return False)
     | Some (Some fs) \<Rightarrow>
         prog_bind (prog_act (act_change (\<lambda>_. Inr fs))) (\<lambda>_.
         prog_bind (set_session (\<lambda>s. s\<lparr>ms_staging_stream := Some []\<rparr>)) (\<lambda>_.
         prog_return True))"
  have "proceeds_when (\<lambda>go. go) (?rest tried)" for tried :: "file_system option option"
    by (intro proceeds_return proceeds_option proceeds_quiet [OF proceeds_set] proceeds_quiet [OF proceeds_pure(2)]
        proceeds_stop sound_error) simp_all
  then show ?thesis
    unfolding OpenStagingFile_def Let_def
    by (intro proceeds_quiet [OF proceeds_tick] proceeds_quiet [OF proceeds_set]
        proceeds_bind [where p = "\<lambda>tried. tried \<noteq> None"] proceeds_catch only_files_bind only_files_act sound_error)
      (auto intro: exI [of _ False])
qed

subsection \<open>The handlers\<close>

text \<open>A handler that starts before the answer, run from a world that a first part has changed.\<close>

lemma wp_after:
  assumes "answers_once w w1" "wp m (\<lambda>_ w'. answers_once w1 w') (\<lambda>_. True) w1"
  shows "wp m (\<lambda>_ w'. answers_once w w') (\<lambda>_. True) w1"
  by (rule wp_mono [OF assms(2)]) (auto intro: answers_once_trans [OF assms(1)])

lemma wp_finish:
  assumes "\<not> responding w"
  shows "wp (FinishBody env static_files options) (\<lambda>_ w'. answers_once w w') (\<lambda>_. True) w"
  unfolding FinishBody_def wp_bind wp_management
  by (rule wp_after, simp add: answers_once_def writes_def, rule wp_dispatch) (use assms in simp)

lemma wp_read_body:
  assumes "\<not> responding w"
  shows "wp (ReadBody env static_files options is_done) (\<lambda>_ w'. answers_once w w') (\<lambda>_. True) w"
proof (cases is_done)
  case False
  then show ?thesis by (simp add: ReadBody_def answers_once_def writes_def)
qed (simp add: ReadBody_def wp_finish [OF assms])

lemma sound_chunk: "sound (OnBodyChunk env static_files options error message bytes is_done)"
proof (rule soundI, cases)
  fix w :: "management_world machine"
  assume fresh: "\<not> responding w"
  have rest: "wp (if \<not> go then prog_return ()
         else if error = Body_limit
         then respond_error env 413 ''body_too_large'' ''request body exceeds size limit''
         else if error = Operation_aborted then Close_management env
         else if error \<noteq> No_error \<and> error \<noteq> Need_buffer then respond_error env 400 ''invalid_request'' message
         else if is_done then FinishBody env static_files options
         else ReadBody env static_files options is_done) (\<lambda>_ w'. answers_once w w') (\<lambda>_. True) w1"
    if w1: "answers_once w w1" and go: "go \<Longrightarrow> responding w1 = responding w" for go w1
  proof (rule wp_after [OF w1])
    have "wp (FinishBody env static_files options) (\<lambda>_ w'. answers_once w1 w') (\<lambda>_. True) w1"
      "wp (ReadBody env static_files options is_done) (\<lambda>_ w'. answers_once w1 w') (\<lambda>_. True) w1" if go
      using wp_finish wp_read_body fresh go that by auto
    then show "wp (if \<not> go then prog_return ()
         else if error = Body_limit
         then respond_error env 413 ''body_too_large'' ''request body exceeds size limit''
         else if error = Operation_aborted then Close_management env
         else if error \<noteq> No_error \<and> error \<noteq> Need_buffer then respond_error env 400 ''invalid_request'' message
         else if is_done then FinishBody env static_files options
         else ReadBody env static_files options is_done) (\<lambda>_ w'. answers_once w1 w') (\<lambda>_. True) w1"
      by (auto intro!: sound_wp [OF sound_error] sound_wp [OF sound_close])
  qed
  show "wp (OnBodyChunk env static_files options error message bytes is_done) (\<lambda>_ w'. answers_once w w') (\<lambda>_. True) w"
    unfolding OnBodyChunk_def wp_management if_not_P [OF fresh] wp_bind
    by (rule wp_proceeds [OF proceeds_store]) (rule rest)
qed (simp add: OnBodyChunk_def)

lemma sound_header: "sound (OnHeader env static_files options error message verb target is_done)"
proof (rule soundI)
  fix w :: "management_world machine"
  let ?post = "\<lambda>_ w'. answers_once w w'"
  have errors: "wp (respond_error env status code text') ?post (\<lambda>_. True) w"
    "wp (Close_management env) ?post (\<lambda>_. True) w" for status code text'
    by (rule sound_wp [OF sound_error], assumption) (rule sound_wp [OF sound_close])
  have proceed: "wp (if \<not> go then prog_return ()
      else prog_bind ArmTimeout (\<lambda>_. ReadBody env static_files options is_done)) ?post (\<lambda>_. True) w1"
    if "\<not> responding w" "answers_once w w1" "go \<Longrightarrow> responding w1 = responding w" for go w1
  proof (cases go)
    case True
    have "wp (ReadBody env static_files options is_done) ?post (\<lambda>_. True) w2"
      if "answers_once w w2" "\<not> responding w2" for w2
      by (rule wp_after [OF that(1) wp_read_body [OF that(2)]])
    moreover have "answers_once w w2" if "answers_once w1 w2" for w2
      by (rule answers_once_trans [OF \<open>answers_once w w1\<close> that])
    ultimately show ?thesis using True that
      by (auto simp: ArmTimeout_def answers_once_def [of w1] writes_def)
  qed (use that in simp)
  have opened: "proceeds_when (\<lambda>go. go)
      (if streaming then OpenStagingFile env (ax_package_repository options) else prog_return True)" for streaming
    by (intro proceeds_if proceeds_open proceeds_return)
  have request: "wp (prog_bind (set_session f) (\<lambda>_.
      prog_bind (if streaming then OpenStagingFile env (ax_package_repository options) else prog_return True) (\<lambda>go.
      if \<not> go then prog_return ()
      else prog_bind ArmTimeout (\<lambda>_. ReadBody env static_files options is_done)))) ?post (\<lambda>_. True) w"
    if "\<not> responding w" "\<And>s. ms_responding (f s) = ms_responding s \<and> ms_output (f s) = ms_output s \<and> ms_operations (f s) = ms_operations s"
    for f streaming
  proof -
    let ?w1 = "w\<lparr>mc_rest := (mc_rest w)\<lparr>mw_session := f (mw_session (mc_rest w))\<rparr>\<rparr>"
    have w1: "answers_once w ?w1" "responding ?w1 = responding w"
      using that(2) by (simp_all add: answers_once_def writes_def)
    show ?thesis unfolding wp_bind [of "set_session f"] wp_management wp_bind [of "if streaming then _ else _"]
    proof (rule wp_proceeds [OF opened])
      fix go w2 assume "answers_once ?w1 w2" "go \<Longrightarrow> responding w2 = responding ?w1"
      then show "wp (if \<not> go then prog_return ()
          else prog_bind ArmTimeout (\<lambda>_. ReadBody env static_files options is_done)) ?post (\<lambda>_. True) w2"
        by (intro proceed [OF that(1)]) (use w1 in \<open>auto intro: answers_once_trans\<close>)
    qed
  qed
  show "wp (OnHeader env static_files options error message verb target is_done) ?post (\<lambda>_. True) w"
    unfolding OnHeader_def wp_management Let_def
    by (intro wp_if errors request) simp_all
qed

subsection \<open>Every step\<close>

lemma sound_run: "\<lbrakk>sound m; m w = Some (Inr x, w')\<rbrakk> \<Longrightarrow> answers_once w w'"
  by (auto simp: sound_def wp_def split: option.splits) (metis (no_types, lifting) option.case(2) prod.case sum.case(2))

inductive_cases management_stepE: "management_step env static_files options w w'"

lemma finished_session [simp]:
  "responding (finished_operation operation w) = responding w"
  "ms_output (mw_session (mc_rest (finished_operation operation w))) = ms_output (mw_session (mc_rest w))"
  "session_database (finished_operation operation w) = session_database w"
  by (simp_all add: finished_operation_def)

lemma finished_writes: "writes (finished_operation operation w) \<le> writes w"
  by (simp add: writes_def finished_operation_def count_list_remove1 split: if_split)

lemma step_answers:
  assumes "management_step env static_files options w w'"
  obtains operation where "answers_once (finished_operation operation w) w'"
  using assms
  by (cases rule: management_stepE)
    (blast dest: sound_run [OF sound_header] sound_run [OF sound_chunk] sound_run [OF sound_timer] sound_run [OF sound_close])+

definition session_answers :: "management_world machine \<Rightarrow> bool" where
  "session_answers w \<longleftrightarrow>
     writes w \<le> of_bool (responding w) \<and> (responding w \<longleftrightarrow> ms_output (mw_session (mc_rest w)) \<noteq> None)"

lemma answers_kept:
  assumes "session_answers w" "management_step env static_files options w w'"
  shows "session_answers w'"
proof -
  obtain operation where "answers_once (finished_operation operation w) w'" by (rule step_answers [OF assms(2)])
  then show ?thesis
    using assms(1) finished_writes [of operation w]
    by (cases "responding w"; cases "responding w'") (auto simp: answers_once_def session_answers_def)
qed

lemma reachable_answers: "management_reaches env static_files options w \<Longrightarrow> session_answers w"
proof (induction rule: management_reaches.induct)
  case (session_starts fs api w)
  then show ?case
    by (auto simp: StartOnStrand_def ArmTimeout_def begin_operation_def set_session_def prog_bind_def session_answers_def
        writes_def new_management_session_def)
next
  case (world_changes fs s api fs' api')
  then show ?case by (cases "ms_responding s") (auto simp: session_answers_def writes_def)
qed (rule answers_kept)

abbreviation the_answer :: "management_world machine \<Rightarrow> http_response option" where
  "the_answer w \<equiv> ms_output (mw_session (mc_rest w))"

text \<open>
  C13: In every reachable state of a connection of the admin interface, at most one write is outstanding
  and none before there is an answer; whichever completion comes next (also a timeout that races with the
  body or the response), the step keeps an answer that was given and leaves the database alone from then
  on, and it changes the database only when it gives the answer.
\<close>

theorem one_answer_per_session:
  assumes "management_reaches env static_files options w" "management_step env static_files options w w'"
  shows "(the_answer w \<noteq> None \<longrightarrow> the_answer w' = the_answer w \<and> session_database w' = session_database w) \<and>
    (session_database w' = session_database w \<or> the_answer w = None \<and> the_answer w' \<noteq> None) \<and>
    count_list (operations w') Write_output \<le> (if the_answer w' = None then 0 else 1)"
proof -
  have "session_answers w" using reachable_answers assms(1) by blast
  moreover from this have "session_answers w'" by (rule answers_kept [OF _ assms(2)])
  moreover obtain operation where "answers_once (finished_operation operation w) w'" by (rule step_answers [OF assms(2)])
  ultimately show ?thesis
    by (cases "responding w"; cases "responding w'") (auto simp: answers_once_def session_answers_def writes_def)
qed

definition demo_connection :: "management_world machine" where
  "demo_connection =
     \<lparr>mc_files = Map.empty,
      mc_rest = \<lparr>mw_session = new_management_session\<lparr>ms_operations := [Wait_timer, Read_header]\<rparr>,
        mw_api = \<lparr>aw_ticks = 0, aw_database = demo_upgradable\<rparr>\<rparr>\<rparr>"

lemma demo_connection_reached: "management_reaches demo_admin ''/w'' options demo_connection"
  by (rule management_reaches.session_starts [where fs = Map.empty and api = "\<lparr>aw_ticks = 0, aw_database = demo_upgradable\<rparr>"])
    (simp add: demo_connection_def StartOnStrand_def ArmTimeout_def begin_operation_def set_session_def prog_bind_def
      new_management_session_def)

lemma demo_timeout:
  "\<exists>w'. OnTimer demo_admin No_error (finished_operation Wait_timer demo_connection) = Some (Inr (), w') \<and>
     the_answer w' = Some \<lparr>ho_status = 408, ho_content_type = ''application/json'', ho_body = ''{}''\<rparr>"
  by (simp add: OnTimer_def respond_error_def ErrorResponse_def JsonResponse_def Respond_def in_api_def api_tick_def
      prog_bind_def with_session_def set_session_def begin_operation_def finished_operation_def demo_connection_def
      new_management_session_def demo_admin_def demo_repository_def demo_json_def)

theorem one_answer_per_session_witness:
  "\<exists>w'. management_step demo_admin ''/w'' (demo_context ''GET'' ''/'' False) demo_connection w' \<and>
     the_answer w' = Some \<lparr>ho_status = 408, ho_content_type = ''application/json'', ho_body = ''{}''\<rparr> \<and>
     count_list (operations w') Write_output \<le> 1"
proof -
  obtain w' where run: "OnTimer demo_admin No_error (finished_operation Wait_timer demo_connection) = Some (Inr (), w')"
    and answer: "the_answer w' = Some \<lparr>ho_status = 408, ho_content_type = ''application/json'', ho_body = ''{}''\<rparr>"
    using demo_timeout by blast
  have "Wait_timer \<in> set (operations demo_connection)" by (simp add: demo_connection_def)
  from management_step.timer_completes [OF this run]
  have step: "management_step demo_admin ''/w'' (demo_context ''GET'' ''/'' False) demo_connection w'" .
  show ?thesis using one_answer_per_session [OF demo_connection_reached step] step answer by auto
qed

end
