(* ===== verification/Spec2Isabelle.thy ===== *)
theory Spec2Isabelle
  imports Prelude Frame_Codec Core_Path Semver Messages Control_Codec Connection_Registry
    Db_Model Db_Agents Db_Tasks Db_Packages Db_Steps Task_Queue Task_Claims Task_Outcomes Agent_Upgrades
    Package_Catalogue Sha256 Write_Actor Control_Service Service_Tasks Control_Dispatcher
    File_System Zip_Format Zip_Data Archive Archive_Extract Archive_Round_Trip Manifest File_Actions File_Frames Installer
    Installer_Apply Installer_Status Machine Process Launcher Download Agent_Config Package_Updater
    Http2_Client Agent_Runtime Agent_Control Program_Logic
    Worker_Pool Control_Session Session_Steps Session_Invariants Session_Streams Session_Guarantees Session_Answers Event_Delivery
    Control_Server
    Package_Repository Package_Delivery Install_Platform
    Static_Files Admin_Http Admin_Api Admin_Guarantees Admin_Uploads Admin_Packages Admin_Session
begin

text \<open>
  A verification development for z-fleet, a fleet manager: a server keeps agents, tasks and packages
  in a database and hands tasks to agents over a framed protobuf stream; packages are ZIP archives
  with a manifest, which an installer applies to a directory of releases on every machine.

  Parts of the program, their sources under src/ and the theories that model them:

  \<^item> Common helpers (libs/core): \<open>Core_Path\<close> (path.cpp, component.cpp), \<open>Semver\<close>
    (version_compare.cpp).  \<open>Prelude\<close> holds the exceptions, the result type and the lemmas the
    components share.

  \<^item> The wire (libs/transport, libs/protocol): \<open>Frame_Codec\<close> (frame_codec.cpp), \<open>Messages\<close>
    (message.cpp), \<open>Control_Codec\<close> (control_codec.cpp, with the protobuf library as the record
    \<open>wire\<close>).

  \<^item> The server (apps/server): \<open>Connection_Registry\<close> (control_connection_registry.cpp); the database
    (database.cpp) in \<open>Db_Model\<close> (tables, transactions, observers), \<open>Db_Agents\<close>, \<open>Db_Tasks\<close>,
    \<open>Db_Packages\<close> (one definition per method) and \<open>Write_Actor\<close> (the thread that runs the writes);
    \<open>Control_Service\<close>, \<open>Control_Dispatcher\<close> (control_service.cpp, control_dispatcher.cpp) over an
    abstract store that the database interprets; control_server.cpp in \<open>Worker_Pool\<close>
    (ControlWorkerPool), \<open>Control_Session\<close> (Http2Session and the nghttp2 callbacks) and
    \<open>Control_Server\<close> (the accept loop); \<open>Package_Repository\<close> (package_repository.cpp, the resolvers of
    components, selections and installers) and \<open>Install_Platform\<close> (install_platform_resolver.cpp);
    the admin interface (admin_http_server.cpp) in \<open>Admin_Http\<close> (targets, queries, JSON bodies, with
    admin_json_codec.cpp), \<open>Admin_Api\<close> (one definition per endpoint, uploads and the routing) and
    \<open>Admin_Session\<close> (ManagementHttpSession), with \<open>Static_Files\<close> (static_file_service.cpp).

  \<^item> Packages (libs/package, libs/crypto, libs/platform): \<open>Sha256\<close> (sha256.cpp), \<open>Manifest\<close>
    (manifest.cpp), \<open>Zip_Format\<close>, \<open>Zip_Data\<close>, \<open>Archive\<close> (archive.cpp: the byte formats, the
    compression loops, the operations on files), \<open>File_Actions\<close> (file_permissions.cpp, temp_dir.cpp).
    \<open>File_System\<close> is the model of std::filesystem they run on.

  \<^item> The installer (apps/installer): \<open>Installer\<close> (installer.cpp), \<open>Launcher\<close> (launcher.cpp).

  \<^item> The agent (apps/agent): \<open>Agent_Config\<close> (config.cpp, state.cpp, the start of main.cpp, the log
    levels), \<open>Http2_Client\<close> (http2_control_client.cpp), \<open>Package_Updater\<close> (package_updater.cpp),
    \<open>Agent_Runtime\<close> (runtime.cpp, command_decoder.cpp), on top of \<open>Process\<close> (process.cpp, system.cpp)
    and \<open>Download\<close> (http_download.cpp).  They are programs of \<open>Machine\<close>: a machine is a file system
    with the rest of the world, and a program may throw or not return; \<open>Program_Logic\<close> has the weakest
    preconditions they are verified with.

  What the groups of lemmas show:

  \<^item> \<open>Task_Queue\<close>, \<open>Db_Steps\<close>: the database refines an abstract queue in which a task goes through its
    states once; \<open>Task_Claims\<close>, \<open>Task_Outcomes\<close>, \<open>Agent_Upgrades\<close>, \<open>Package_Catalogue\<close>: claims,
    results, upgrades, publications and tokens over all runs of the operations; \<open>Task_Outcomes\<close> has the
    refinement request by request, each with the operation of the queue it performs.

  \<^item> \<open>Service_Tasks\<close>, \<open>Control_Dispatcher\<close>: what each handler accepts and changes, and that chunks run
    in their order mean the messages that were framed, however they are cut; \<open>Event_Delivery\<close>: what the
    agent posts is what the service handles, where the threads of the pool cannot reorder the chunks.

  \<^item> \<open>Session_Steps\<close>: how the completions of a session interleave, and what its handlers preserve;
    \<open>Session_Invariants\<close>, \<open>Session_Streams\<close>, \<open>Session_Guarantees\<close>: what holds of every session
    that is reached, of its reads and writes and of its command streams; \<open>Session_Answers\<close>: when
    its requests with events are answered (for a library that keeps \<open>no_data_after_end\<close>);
    \<open>Worker_Pool\<close>: what the pool runs, and in which order.

  \<^item> \<open>Zip_Format\<close>, \<open>Zip_Data\<close>, \<open>Archive\<close>, \<open>Archive_Extract\<close>: what parses is safe, extraction touches
    the output directory only and leaves exactly the members there; the loops around the compression
    library return; \<open>Archive_Round_Trip\<close>: what is packed from a directory is what is read back.

  \<^item> \<open>File_Frames\<close>: a frame logic for programs that change files; \<open>Installer_Apply\<close>,
    \<open>Installer_Status\<close>: what an operation of the installer leaves alone and what it leaves behind.

  \<^item> \<open>Package_Repository\<close>: what a validated upload contains, and which installer an upgrade takes;
    \<open>Package_Delivery\<close>: the agent accepts what the server validated; \<open>Install_Platform\<close>: what a shell
    reads of an install command.

  \<^item> \<open>Admin_Guarantees\<close>: a request of the admin interface orders nothing the policy forbids, and an
    upgrade it accepts is justified; \<open>Admin_Packages\<close>: which requests change the status of a package, and
    how; \<open>Admin_Uploads\<close>: what is uploaded is what is served; \<open>Admin_Session\<close>: one answer per connection, whatever completes first;
    \<open>Static_Files\<close>: no path leads out of the web directory.

  \<^item> \<open>Launcher\<close>: what the installer reports as installed is the process that the launcher
    starts, with its arguments and its environment; \<open>Download\<close>: a download keeps every piece of the body;
    \<open>Package_Updater\<close>: nothing but a verified package reaches the installer; \<open>Http2_Client\<close>: no byte
    of the command stream is lost and a body is sent once; \<open>Agent_Control\<close>: the order of the events
    of a task, the delays between connections and when the agent stops.

  Parameters.  Code outside the repository is an argument of the definitions that call it, with what
  is relied on as a named hypothesis: protobuf (\<open>wire\<close>), SQLite functions and the choices SQL leaves
  open (\<open>ext\<close>), OpenSSL digests (\<open>digest_lib\<close>), zlib (\<open>zlib\<close>, with the contracts \<open>deflates\<close> and
  \<open>inflates\<close>), nlohmann::json (\<open>json_lib\<close>), toml++ (\<open>toml_lib\<close>), nghttp2 (\<open>http2_api\<close>
  with the connection of the agent, \<open>server_http2\<close>, with \<open>stream_ids_increase\<close> and
  \<open>no_data_after_end\<close>), Boost.Beast (\<open>http_api\<close>), Boost.Process (\<open>process_api\<close>), the operating system's answers (\<open>os_env\<close>, with
  \<open>honest_listing\<close>).  Clocks and UUIDs are arguments.

  Bounds.  Machine integers of the formats are words; sizes the code holds in 64 bits are natural
  numbers where no operation can reach the limit.  Symbolic links are followed at most forty times,
  as the kernel does.  The loops over the compression library are \<open>partial_function (option)\<close>, where
  \<open>None\<close> is a loop that does not end, and are shown to return; the other loops are total functions.
  The POSIX build is modelled.

  Not modelled: the configuration and main of the server, logging, command lines, the accept
  loop of the admin interface and the packager.  PROJECT.json lists every part with its reason.
\<close>

end
